(* ===== verification/Calci_Prelude.thy ===== *)
theory Calci_Prelude
  imports Main "HOL-Library.Word" "HOL-Library.Sublist" "HOL-Library.Char_ord"
    "HOL-Library.List_Lexorder"
begin

text \<open>
  Shared vocabulary of the development: the part of the Rust standard library that the
  modelled functions use, on byte strings, and the generic facts about it.

  A Rust \<open>String\<close> or \<open>&str\<close> is the list of its UTF-8 bytes (\<^typ>\<open>string\<close>, one
  \<^typ>\<open>char\<close> per byte), so \<open>len\<close> is \<^const>\<open>length\<close> and byte offsets are list
  positions.  \<open>find\<close>, \<open>contains\<close>, \<open>starts_with\<close>, \<open>ends_with\<close>, \<open>split\<close> and
  \<open>strip_prefix\<close> on valid UTF-8 agree with the same operations on the bytes.
  \<open>to_ascii_lowercase\<close> is written out; the Unicode tables behind \<open>to_lowercase\<close> are an
  argument that is consulted only for strings with a byte above 127.
\<close>

section \<open>Types\<close>

type_synonym u32 = "32 word"
type_synonym u64 = "64 word"

text \<open>\<open>Result<T, E>\<close> is the sum \<open>'e + 't\<close> with the error on the left.\<close>

definition res_bind :: "'e + 'a \<Rightarrow> ('a \<Rightarrow> 'e + 'b) \<Rightarrow> 'e + 'b" where
  "res_bind r f = (case r of Inl e \<Rightarrow> Inl e | Inr x \<Rightarrow> f x)"

lemma res_bind_simps [simp]:
  "res_bind (Inl e) f = Inl e"
  "res_bind (Inr x) f = f x"
  by (simp_all add: res_bind_def)

lemma res_bind_Inr_iff: "res_bind r f = Inr y \<longleftrightarrow> (\<exists>x. r = Inr x \<and> f x = Inr y)"
  by (cases r) simp_all

lemma res_bind_Inl_iff:
  "res_bind r f = Inl e \<longleftrightarrow> r = Inl e \<or> (\<exists>x. r = Inr x \<and> f x = Inl e)"
  by (cases r) simp_all

definition is_ok :: "'e + 'a \<Rightarrow> bool" where
  "is_ok r = (case r of Inl _ \<Rightarrow> False | Inr _ \<Rightarrow> True)"

lemma is_ok_simps [simp]: "is_ok (Inr x)" "\<not> is_ok (Inl e)"
  by (simp_all add: is_ok_def)

lemma is_ok_iff: "is_ok r \<longleftrightarrow> (\<exists>x. r = Inr x)"
  by (cases r) simp_all

text \<open>The loop \<open>for x in xs { f(x)?; }\<close>: stop at the first error.\<close>

fun try_each :: "('a \<Rightarrow> 'e + unit) \<Rightarrow> 'a list \<Rightarrow> 'e + unit" where
  "try_each f [] = Inr ()"
| "try_each f (x # xs) = (case f x of Inl e \<Rightarrow> Inl e | Inr _ \<Rightarrow> try_each f xs)"

lemma try_each_ok_iff: "try_each f xs = Inr () \<longleftrightarrow> (\<forall>x \<in> set xs. f x = Inr ())"
  by (induction xs) (auto split: sum.splits)

lemma try_each_errD: "try_each f xs = Inl e \<Longrightarrow> \<exists>x \<in> set xs. f x = Inl e"
  by (induction xs) (auto split: sum.splits)

lemma try_each_errI: "x \<in> set xs \<Longrightarrow> f x = Inl e \<Longrightarrow> \<exists>d. try_each f xs = Inl d"
  by (induction xs) (auto split: sum.splits)

lemma try_each_append:
  "try_each f (xs @ ys) = (case try_each f xs of Inl e \<Rightarrow> Inl e | Inr _ \<Rightarrow> try_each f ys)"
  by (induction xs) (auto split: sum.splits)

lemma try_each_cong:
  "(\<And>x. x \<in> set xs \<Longrightarrow> f x = g x) \<Longrightarrow> try_each f xs = try_each g xs"
  by (induction xs) (auto split: sum.splits)

section \<open>Bytes\<close>

definition ascii_upper :: "char \<Rightarrow> bool" where
  "ascii_upper c \<longleftrightarrow> CHR ''A'' \<le> c \<and> c \<le> CHR ''Z''"

definition ascii_lower :: "char \<Rightarrow> bool" where
  "ascii_lower c \<longleftrightarrow> CHR ''a'' \<le> c \<and> c \<le> CHR ''z''"

definition ascii_digit :: "char \<Rightarrow> bool" where
  "ascii_digit c \<longleftrightarrow> CHR ''0'' \<le> c \<and> c \<le> CHR ''9''"

text \<open>\<open>u8::is_ascii_alphanumeric\<close>, \<open>u8::is_ascii_hexdigit\<close>, \<open>u8::to_ascii_lowercase\<close>.\<close>

definition ascii_alnum :: "char \<Rightarrow> bool" where
  "ascii_alnum c \<longleftrightarrow> ascii_upper c \<or> ascii_lower c \<or> ascii_digit c"

definition ascii_hexdigit :: "char \<Rightarrow> bool" where
  "ascii_hexdigit c \<longleftrightarrow>
     ascii_digit c \<or> (CHR ''a'' \<le> c \<and> c \<le> CHR ''f'') \<or> (CHR ''A'' \<le> c \<and> c \<le> CHR ''F'')"

definition lower_byte :: "char \<Rightarrow> char" where
  "lower_byte c = (if ascii_upper c then char_of (of_char c + 32 :: nat) else c)"

definition is_ascii :: "char \<Rightarrow> bool" where
  "is_ascii c \<longleftrightarrow> (of_char c :: nat) < 128"

definition to_ascii_lowercase :: "string \<Rightarrow> string" where
  "to_ascii_lowercase s = map lower_byte s"

definition upper_byte :: "char \<Rightarrow> char" where
  "upper_byte c = (if ascii_lower c then char_of (of_char c - 32 :: nat) else c)"

text \<open>
  \<open>str::to_lowercase\<close> and \<open>str::to_uppercase\<close>.  On ASCII strings it is \<^const>\<open>to_ascii_lowercase\<close>; the argument
  \<open>uni\<close> stands for the Unicode case tables and is used for the other strings only.
\<close>

definition to_lowercase :: "(string \<Rightarrow> string) \<Rightarrow> string \<Rightarrow> string" where
  "to_lowercase uni s = (if list_all is_ascii s then to_ascii_lowercase s else uni s)"

definition to_uppercase :: "(string \<Rightarrow> string) \<Rightarrow> string \<Rightarrow> string" where
  "to_uppercase uni s = (if list_all is_ascii s then map upper_byte s else uni s)"

lemma upper_range: "ascii_upper c \<longleftrightarrow> 65 \<le> (of_char c :: nat) \<and> (of_char c :: nat) \<le> 90"
  by (simp add: ascii_upper_def less_eq_char_def)

lemma lower_byte_not_upper: "\<not> ascii_upper (lower_byte c)"
  by (simp add: lower_byte_def upper_range)

lemma lower_byte_idem [simp]: "lower_byte (lower_byte c) = lower_byte c"
  using lower_byte_not_upper [of c] by (simp add: lower_byte_def [of "lower_byte c"])

lemma to_ascii_lowercase_idem [simp]:
  "to_ascii_lowercase (to_ascii_lowercase s) = to_ascii_lowercase s"
  by (simp add: to_ascii_lowercase_def)

lemma length_to_ascii_lowercase [simp]: "length (to_ascii_lowercase s) = length s"
  by (simp add: to_ascii_lowercase_def)

lemma is_ascii_lower_byte [simp]: "is_ascii c \<Longrightarrow> is_ascii (lower_byte c)"
  by (simp add: is_ascii_def lower_byte_def upper_range)

lemma list_all_is_ascii_lower [simp]:
  "list_all is_ascii s \<Longrightarrow> list_all is_ascii (to_ascii_lowercase s)"
  by (auto simp: to_ascii_lowercase_def list_all_iff)

section \<open>Searching and splitting\<close>

text \<open>\<open>str::starts_with\<close> is \<^const>\<open>prefix\<close>, \<open>str::ends_with\<close> is \<^const>\<open>suffix\<close>.\<close>

definition strip_prefix :: "'a list \<Rightarrow> 'a list \<Rightarrow> 'a list option" where
  "strip_prefix p s = (if prefix p s then Some (drop (length p) s) else None)"

definition strip_suffix :: "'a list \<Rightarrow> 'a list \<Rightarrow> 'a list option" where
  "strip_suffix p s = (if suffix p s then Some (take (length s - length p) s) else None)"

text \<open>\<open>str::find\<close>: the least byte offset at which \<open>p\<close> occurs.\<close>

fun str_find :: "'a list \<Rightarrow> 'a list \<Rightarrow> nat option" where
  "str_find p [] = (if p = [] then Some 0 else None)"
| "str_find p (c # s) =
     (if prefix p (c # s) then Some 0 else map_option Suc (str_find p s))"

definition str_contains :: "'a list \<Rightarrow> 'a list \<Rightarrow> bool" where
  "str_contains p s = (str_find p s \<noteq> None)"

text \<open>\<open>str::split\<close> on one byte: always at least one segment.\<close>

fun split_char :: "'a \<Rightarrow> 'a list \<Rightarrow> 'a list list" where
  "split_char d [] = [[]]"
| "split_char d (c # s) =
     (if c = d then [] # split_char d s
      else (case split_char d s of [] \<Rightarrow> [[c]] | seg # segs \<Rightarrow> (c # seg) # segs))"

text \<open>\<open>str::rsplit_once\<close> on one byte: the text before and after the last occurrence.\<close>

fun rsplit_once :: "'a \<Rightarrow> 'a list \<Rightarrow> ('a list \<times> 'a list) option" where
  "rsplit_once d [] = None"
| "rsplit_once d (c # s) =
     (case rsplit_once d s of
        Some (a, b) \<Rightarrow> Some (c # a, b)
      | None \<Rightarrow> if c = d then Some ([], s) else None)"

fun join_with :: "'a list \<Rightarrow> 'a list list \<Rightarrow> 'a list" where
  "join_with d [] = []"
| "join_with d [x] = x"
| "join_with d (x # y # zs) = x @ d @ join_with d (y # zs)"

lemma strip_prefix_Some: "strip_prefix p s = Some r \<longleftrightarrow> s = p @ r"
  by (auto simp: strip_prefix_def prefix_def)

lemma strip_prefix_None: "strip_prefix p s = None \<longleftrightarrow> \<not> prefix p s"
  by (simp add: strip_prefix_def)

lemma strip_suffix_Some: "strip_suffix p s = Some r \<longleftrightarrow> s = r @ p"
  by (auto simp: strip_suffix_def suffix_def)

lemma strip_suffix_None: "strip_suffix p s = None \<longleftrightarrow> \<not> suffix p s"
  by (simp add: strip_suffix_def)

lemma str_find_split:
  "str_find p s = Some i \<Longrightarrow> s = take i s @ p @ drop (i + length p) s \<and> i + length p \<le> length s"
proof (induction p s arbitrary: i rule: str_find.induct)
  case (1 p)
  then show ?case by (auto split: if_splits)
next
  case (2 p c s)
  show ?case
  proof (cases "prefix p (c # s)")
    case True
    then obtain r where r: "c # s = p @ r" by (auto simp: prefix_def)
    from True 2(2) have "i = 0" by simp
    moreover have "length p \<le> length (c # s)" using r by (metis length_append le_add1)
    ultimately show ?thesis using r by simp
  next
    case False
    with 2(2) obtain j where j: "str_find p s = Some j" "i = Suc j" by auto
    from 2(1) [OF False j(1)] show ?thesis using j(2) by simp
  qed
qed

lemma str_find_None: "str_find p s = None \<longleftrightarrow> (\<forall>a b. s \<noteq> a @ p @ b)"
proof (induction p s rule: str_find.induct)
  case (1 p)
  then show ?case by auto
next
  case (2 p c s)
  show ?case
  proof (cases "prefix p (c # s)")
    case True
    then show ?thesis by (auto simp: prefix_def) (metis append_Nil)
  next
    case False
    then have "(\<exists>a b. c # s = a @ p @ b) \<longleftrightarrow> (\<exists>a b. s = a @ p @ b)"
      by (auto simp: prefix_def Cons_eq_append_conv)
    with False 2 show ?thesis by (simp add: prefix_def) metis
  qed
qed

lemma str_find_least:
  "str_find p s = Some i \<Longrightarrow> s = a @ p @ b \<Longrightarrow> i \<le> length a"
proof (induction p s arbitrary: i a rule: str_find.induct)
  case (1 p)
  then show ?case by (auto split: if_splits)
next
  case (2 p c s)
  show ?case
  proof (cases "prefix p (c # s)")
    case True
    with 2(2) show ?thesis by simp
  next
    case False
    with 2(2) obtain j where j: "str_find p s = Some j" "i = Suc j" by auto
    from False 2(3) obtain d a' where "a = d # a'" by (cases a) (auto simp: prefix_def)
    with 2(3) have "s = a' @ p @ b" by simp
    from 2(1) [OF False j(1) this] show ?thesis using j(2) \<open>a = d # a'\<close> by simp
  qed
qed

lemma str_contains_iff: "str_contains p s \<longleftrightarrow> (\<exists>a b. s = a @ p @ b)"
  by (simp add: str_contains_def str_find_None)

lemma str_contains_single [simp]: "str_contains [d] s \<longleftrightarrow> d \<in> set s"
  by (auto simp: str_contains_iff in_set_conv_decomp)

lemma not_contains_find: "\<not> str_contains p s \<longleftrightarrow> str_find p s = None"
  by (simp add: str_contains_def)

lemma split_char_nonempty [simp]: "split_char d s \<noteq> []"
  by (cases s) (auto split: list.splits)

lemma join_split_char: "join_with [d] (split_char d s) = s"
proof (induction s)
  case Nil
  then show ?case by simp
next
  case (Cons c s)
  obtain seg segs where *: "split_char d s = seg # segs"
    by (cases "split_char d s") auto
  with Cons show ?case by (cases segs) auto
qed

lemma split_char_free: "seg \<in> set (split_char d s) \<Longrightarrow> d \<notin> set seg"
  by (induction s arbitrary: seg) (fastforce split: if_splits list.splits)+

lemma split_char_single: "d \<notin> set s \<Longrightarrow> split_char d s = [s]"
  by (induction s) auto

lemma rsplit_once_Some:
  "rsplit_once d s = Some (a, b) \<longleftrightarrow> s = a @ d # b \<and> d \<notin> set b"
proof (induction s arbitrary: a b)
  case Nil
  then show ?case by simp
next
  case (Cons c s)
  show ?case
  proof (cases "rsplit_once d s")
    case None
    then have "d \<notin> set s" using Cons.IH by (metis option.distinct(1) split_list_last)
    then show ?thesis using None by (auto simp: Cons_eq_append_conv)
  next
    case (Some ab)
    obtain a' b' where ab: "ab = (a', b')" by (cases ab)
    with Some Cons.IH have s: "s = a' @ d # b'" "d \<notin> set b'" by auto
    from Some ab have "rsplit_once d (c # s) = Some (c # a', b')" by simp
    moreover have "c # s = a @ d # b \<and> d \<notin> set b \<longleftrightarrow> a = c # a' \<and> b = b'"
    proof
      assume h: "c # s = a @ d # b \<and> d \<notin> set b"
      then have "a \<noteq> []" using s by (cases a) auto
      then obtain a'' where a: "a = c # a''" using h by (cases a) auto
      with h have "rsplit_once d s = Some (a'', b)" using Cons.IH by simp
      with Some ab a show "a = c # a' \<and> b = b'" by simp
    next
      assume "a = c # a' \<and> b = b'"
      with s show "c # s = a @ d # b \<and> d \<notin> set b" by simp
    qed
    ultimately show ?thesis by auto
  qed
qed

section \<open>Trimming\<close>

text \<open>The UTF-8 encodings of the code points with the Unicode property \<open>White_Space\<close>.\<close>

definition ws_seqs :: "string list" where
  "ws_seqs =
    [[CHR 0x09], [CHR 0x0A], [CHR 0x0B], [CHR 0x0C], [CHR 0x0D], '' '',
     [CHR 0xC2, CHR 0x85], [CHR 0xC2, CHR 0xA0], [CHR 0xE1, CHR 0x9A, CHR 0x80],
     [CHR 0xE2, CHR 0x80, CHR 0x80], [CHR 0xE2, CHR 0x80, CHR 0x81],
     [CHR 0xE2, CHR 0x80, CHR 0x82], [CHR 0xE2, CHR 0x80, CHR 0x83],
     [CHR 0xE2, CHR 0x80, CHR 0x84], [CHR 0xE2, CHR 0x80, CHR 0x85],
     [CHR 0xE2, CHR 0x80, CHR 0x86], [CHR 0xE2, CHR 0x80, CHR 0x87],
     [CHR 0xE2, CHR 0x80, CHR 0x88], [CHR 0xE2, CHR 0x80, CHR 0x89],
     [CHR 0xE2, CHR 0x80, CHR 0x8A], [CHR 0xE2, CHR 0x80, CHR 0xA8],
     [CHR 0xE2, CHR 0x80, CHR 0xA9], [CHR 0xE2, CHR 0x80, CHR 0xAF],
     [CHR 0xE2, CHR 0x81, CHR 0x9F], [CHR 0xE3, CHR 0x80, CHR 0x80]]"

text \<open>Remove sequences of \<open>ws\<close> from the front as long as one of them is there.\<close>

function drop_seqs :: "'a list list \<Rightarrow> 'a list \<Rightarrow> 'a list" where
  "drop_seqs ws s =
     (case find (\<lambda>w. w \<noteq> [] \<and> prefix w s) ws of
        None \<Rightarrow> s
      | Some w \<Rightarrow> drop_seqs ws (drop (length w) s))"
  by pat_completeness auto
termination
proof (relation "measure (\<lambda>(ws, s). length s)")
  fix ws :: "'a list list" and s w
  assume "find (\<lambda>w. w \<noteq> [] \<and> prefix w s) ws = Some w"
  then have "w \<noteq> []" "prefix w s" by (auto simp: find_Some_iff)
  then show "((ws, drop (length w) s), ws, s) \<in> measure (\<lambda>(ws, s). length s)"
    by (auto simp: prefix_def)
qed simp

declare drop_seqs.simps [simp del]

definition trim_start :: "string \<Rightarrow> string" where
  "trim_start s = drop_seqs ws_seqs s"

definition trim_end :: "string \<Rightarrow> string" where
  "trim_end s = rev (drop_seqs (map rev ws_seqs) (rev s))"

definition trim :: "string \<Rightarrow> string" where
  "trim s = trim_end (trim_start s)"

lemma drop_seqs_suffix: "suffix (drop_seqs ws s) s"
proof (induction ws s rule: drop_seqs.induct)
  case (1 ws s)
  show ?case
  proof (cases "find (\<lambda>w. w \<noteq> [] \<and> prefix w s) ws")
    case None
    then show ?thesis by (subst drop_seqs.simps) simp
  next
    case (Some w)
    have "suffix (drop_seqs ws (drop (length w) s)) (drop (length w) s)"
      using 1 Some by blast
    also have "suffix (drop (length w) s) s" by (rule suffix_drop)
    finally show ?thesis using Some by (subst drop_seqs.simps) simp
  qed
qed

lemma drop_seqs_stuck:
  "w \<in> set ws \<Longrightarrow> w \<noteq> [] \<Longrightarrow> \<not> prefix w (drop_seqs ws s)"
proof (induction ws s rule: drop_seqs.induct)
  case (1 ws s)
  show ?case
  proof (cases "find (\<lambda>w. w \<noteq> [] \<and> prefix w s) ws")
    case None
    moreover from None have "drop_seqs ws s = s" by (subst drop_seqs.simps) simp
    ultimately show ?thesis using 1(2,3) by (auto simp: find_None_iff)
  next
    case (Some w')
    with 1 have "\<not> prefix w (drop_seqs ws (drop (length w') s))" by blast
    with Some show ?thesis by (subst drop_seqs.simps) simp
  qed
qed

lemma drop_seqs_fixed:
  "(\<And>w. w \<in> set ws \<Longrightarrow> w \<noteq> [] \<Longrightarrow> \<not> prefix w s) \<Longrightarrow> drop_seqs ws s = s"
  by (subst drop_seqs.simps) (auto split: option.split simp: find_Some_iff)

text \<open>\<open>split_whitespace\<close>.\<close>

fun ws_words :: "string \<Rightarrow> string \<Rightarrow> string list" where
  "ws_words acc [] = (if acc = [] then [] else [rev acc])"
| "ws_words acc (c # s) =
     (case find (\<lambda>w. prefix w (c # s)) ws_seqs of
        Some w \<Rightarrow> (if acc = [] then [] else [rev acc]) @ ws_words [] (drop (length w - 1) s)
      | None \<Rightarrow> ws_words (c # acc) s)"

lemma ws_seqs_nonempty: "[] \<notin> set ws_seqs"
  by (simp add: ws_seqs_def)

lemma trim_start_no_ws: "w \<in> set ws_seqs \<Longrightarrow> \<not> prefix w (trim_start s)"
  unfolding trim_start_def using drop_seqs_stuck [of w ws_seqs s] ws_seqs_nonempty by metis

lemma trim_end_no_ws: "w \<in> set ws_seqs \<Longrightarrow> \<not> suffix w (trim_end s)"
  using drop_seqs_stuck [of "rev w" "map rev ws_seqs" "rev s"] ws_seqs_nonempty
  by (auto simp: trim_end_def suffix_to_prefix)

lemma trim_end_prefix: "prefix (trim_end s) s"
  using drop_seqs_suffix [of "map rev ws_seqs" "rev s"]
  by (simp add: trim_end_def suffix_to_prefix)

lemma trim_start_fixed: "(\<And>w. w \<in> set ws_seqs \<Longrightarrow> \<not> prefix w s) \<Longrightarrow> trim_start s = s"
  by (simp add: trim_start_def drop_seqs_fixed)

lemma trim_end_fixed: "(\<And>w. w \<in> set ws_seqs \<Longrightarrow> \<not> suffix w s) \<Longrightarrow> trim_end s = s"
proof -
  assume "\<And>w. w \<in> set ws_seqs \<Longrightarrow> \<not> suffix w s"
  then have "drop_seqs (map rev ws_seqs) (rev s) = rev s"
    by (intro drop_seqs_fixed) (auto simp: suffix_to_prefix)
  then show ?thesis by (simp add: trim_end_def)
qed

lemma trim_no_ws:
  "w \<in> set ws_seqs \<Longrightarrow> \<not> prefix w (trim s)"
  "w \<in> set ws_seqs \<Longrightarrow> \<not> suffix w (trim s)"
  using trim_start_no_ws [of w s] trim_end_prefix [of "trim_start s"]
  by (auto simp: trim_def trim_end_no_ws dest: prefix_order.trans)

lemma trim_fixed:
  "(\<And>w. w \<in> set ws_seqs \<Longrightarrow> \<not> prefix w s \<and> \<not> suffix w s) \<Longrightarrow> trim s = s"
  by (simp add: trim_def trim_start_fixed trim_end_fixed)

lemma trim_idem [simp]: "trim (trim s) = trim s"
  by (rule trim_fixed) (simp add: trim_no_ws)

text \<open>Strings of visible ASCII bytes are not changed by trimming.\<close>

definition visible :: "char \<Rightarrow> bool" where
  "visible c \<longleftrightarrow> CHR ''!'' \<le> c \<and> is_ascii c"

lemma ws_seqs_ends: "w \<in> set ws_seqs \<Longrightarrow> \<not> visible (hd w) \<and> \<not> visible (last w)"
  by (auto simp: ws_seqs_def visible_def is_ascii_def less_eq_char_def)

lemma trim_visible: "list_all visible s \<Longrightarrow> trim s = s"
proof (rule trim_fixed)
  fix w assume vis: "list_all visible s" and w: "w \<in> set ws_seqs"
  then have "w \<noteq> []" using ws_seqs_nonempty by metis
  then have "hd w \<in> set w" "last w \<in> set w" by simp_all
  with vis have "prefix w s \<Longrightarrow> visible (hd w)" "suffix w s \<Longrightarrow> visible (last w)"
    by (auto simp: list_all_iff dest!: set_mono_prefix set_mono_suffix)
  with ws_seqs_ends [OF w] show "\<not> prefix w s \<and> \<not> suffix w s" by blast
qed

text \<open>\<open>str::split_once\<close> with a character predicate.\<close>

definition split_once :: "('a \<Rightarrow> bool) \<Rightarrow> 'a list \<Rightarrow> ('a list \<times> 'a list) option" where
  "split_once P s =
     (case dropWhile (\<lambda>c. \<not> P c) s of
        [] \<Rightarrow> None
      | _ # rest \<Rightarrow> Some (takeWhile (\<lambda>c. \<not> P c) s, rest))"

lemma split_once_Some:
  "split_once P s = Some (a, b) \<longleftrightarrow> (\<exists>c. P c \<and> s = a @ c # b \<and> (\<forall>x \<in> set a. \<not> P x))"
proof
  assume "split_once P s = Some (a, b)"
  then obtain c where d: "dropWhile (\<lambda>c. \<not> P c) s = c # b" and a: "a = takeWhile (\<lambda>c. \<not> P c) s"
    by (auto simp: split_once_def split: list.splits)
  from d have "P c" by (simp add: dropWhile_eq_Cons_conv)
  moreover from d a have "s = a @ c # b" by (metis takeWhile_dropWhile_id)
  ultimately show "\<exists>c. P c \<and> s = a @ c # b \<and> (\<forall>x \<in> set a. \<not> P x)"
    using a by (auto dest: set_takeWhileD)
next
  assume "\<exists>c. P c \<and> s = a @ c # b \<and> (\<forall>x \<in> set a. \<not> P x)"
  then obtain c where "P c" "s = a @ c # b" "\<forall>x \<in> set a. \<not> P x" by blast
  then show "split_once P s = Some (a, b)"
    by (simp add: split_once_def dropWhile_append3 takeWhile_tail)
qed

lemma split_once_None: "split_once P s = None \<longleftrightarrow> (\<forall>x \<in> set s. \<not> P x)"
proof -
  have "split_once P s = None \<longleftrightarrow> dropWhile (\<lambda>c. \<not> P c) s = []"
    by (cases "dropWhile (\<lambda>c. \<not> P c) s") (simp_all only: split_once_def list.case option.distinct list.distinct simp_thms)
  then show ?thesis by (simp only: dropWhile_eq_Nil_conv not_not)
qed

lemma split_once_unique:
  "split_once P s = Some (a, b) \<Longrightarrow> s = a' @ c # b' \<Longrightarrow> P c \<Longrightarrow> \<forall>x \<in> set a'. \<not> P x \<Longrightarrow> a' = a \<and> b' = b"
  using split_once_Some [of P s a' b'] by auto

text \<open>\<open>trim_end_matches(c)\<close> and \<open>trim_start_matches(c)\<close> for one byte.\<close>

definition trim_end_matches :: "'a \<Rightarrow> 'a list \<Rightarrow> 'a list" where
  "trim_end_matches c s = rev (dropWhile (\<lambda>d. d = c) (rev s))"

lemma trim_end_matches_fixed: "c \<notin> set s \<Longrightarrow> trim_end_matches c s = s"
  by (cases s rule: rev_cases) (auto simp: trim_end_matches_def)

text \<open>\<open>Display\<close> of an unsigned integer.\<close>

fun show_nat :: "nat \<Rightarrow> string" where
  "show_nat n = (if n < 10 then [char_of (48 + n)]
                 else show_nat (n div 10) @ [char_of (48 + n mod 10)])"

declare show_nat.simps [simp del]

definition digit_value :: "char \<Rightarrow> nat" where
  "digit_value c = of_char c - 48"

text \<open>The characters of a UTF-8 text: a leading byte with the continuation bytes after it.\<close>

definition utf8_cont :: "char \<Rightarrow> bool" where
  "utf8_cont c \<longleftrightarrow> 128 \<le> (of_char c :: nat) \<and> (of_char c :: nat) < 192"

function utf8_chars :: "string \<Rightarrow> string list" where
  "utf8_chars [] = []"
| "utf8_chars (c # s) = (c # takeWhile utf8_cont s) # utf8_chars (dropWhile utf8_cont s)"
  by pat_completeness auto
termination by (relation "measure length") (auto simp: le_imp_less_Suc length_dropWhile_le)

text \<open>\<open>str::lines\<close>: pieces that end in a newline, or a non-empty rest, less a final \<open>\r\<close>.\<close>

definition str_lines :: "string \<Rightarrow> string list" where
  "str_lines s =
     (let parts = split_char (CHR 0x0A) s;
          strip_cr = (\<lambda>l. case strip_suffix [CHR 0x0D] l of Some l' \<Rightarrow> l' | None \<Rightarrow> l) in
      map strip_cr (butlast parts) @ (if last parts = [] then [] else [last parts]))"

section \<open>Runs of a state machine\<close>

text \<open>
  The contract every stateful component gives to its clients: an operation keeps the
  invariant of the state.  What follows for any sequence of operations is proved once.
\<close>

fun run_ops :: "('s \<Rightarrow> 'op \<Rightarrow> 's) \<Rightarrow> 's \<Rightarrow> 'op list \<Rightarrow> 's" where
  "run_ops step s [] = s"
| "run_ops step s (x # xs) = run_ops step (step s x) xs"

lemma run_ops_append: "run_ops step s (xs @ ys) = run_ops step (run_ops step s xs) ys"
  by (induction xs arbitrary: s) simp_all

locale invariant_machine =
  fixes step :: "'s \<Rightarrow> 'op \<Rightarrow> 's"
    and inv :: "'s \<Rightarrow> bool"
  assumes step_inv: "inv s \<Longrightarrow> inv (step s x)"
begin

lemma run_inv: "inv s \<Longrightarrow> inv (run_ops step s xs)"
  by (induction xs arbitrary: s) (simp_all add: step_inv)

end

text \<open>
  A keyed store: an operation changes only the entries it touches.  A locale over it gives
  the isolation of everything else under any sequence of operations, and the provenance of
  an entry that was not there at the start.
\<close>

locale keyed_store =
  fixes step :: "'s \<Rightarrow> 'op \<Rightarrow> 's"
    and look :: "'s \<Rightarrow> 'k \<Rightarrow> 'v option"
    and touches :: "'op \<Rightarrow> 'k \<Rightarrow> bool"
    and writes :: "'op \<Rightarrow> 'k \<Rightarrow> 'v \<Rightarrow> bool"
  assumes frame: "\<not> touches x k \<Longrightarrow> look (step s x) k = look s k"
    and origin: "look (step s x) k = Some v \<Longrightarrow> look s k = Some v \<or> writes x k v"
begin

lemma run_frame:
  "(\<And>x. x \<in> set xs \<Longrightarrow> \<not> touches x k) \<Longrightarrow> look (run_ops step s xs) k = look s k"
  by (induction xs arbitrary: s) (simp_all add: frame)

lemma run_origin:
  "look (run_ops step s xs) k = Some v \<Longrightarrow>
   look s k = Some v \<or> (\<exists>x \<in> set xs. writes x k v)"
  by (induction xs arbitrary: s) (auto dest: origin)

end

text \<open>
  Runs of a labelled step relation with their history, the latest event first, and the
  contract of a state that its history explains.
\<close>

inductive history :: "('s \<Rightarrow> 'e \<Rightarrow> 's \<Rightarrow> bool) \<Rightarrow> 's \<Rightarrow> 'e list \<Rightarrow> 's \<Rightarrow> bool"
  for step s0 where
  history_start: "history step s0 [] s0"
| history_step: "history step s0 evs s \<Longrightarrow> step s e s' \<Longrightarrow> history step s0 (e # evs) s'"

inductive_cases history_ConsE: "history step s0 (e # evs) s'"
inductive_simps history_Nil [simp]: "history step s0 [] s"

lemma history_split: "history step s0 (later @ evs) s \<Longrightarrow> \<exists>s'. history step s0 evs s'"
  by (induction later arbitrary: s) (auto elim: history_ConsE)

lemma history_at:
  assumes "history step s0 (later @ e # evs) s"
  obtains s1 s2 where "history step s0 evs s1" "step s1 e s2"
  using assms history_split [of step s0 later "e # evs" s] by (auto elim: history_ConsE)

locale explained_machine =
  fixes step :: "'s \<Rightarrow> 'e \<Rightarrow> 's \<Rightarrow> bool"
    and explains :: "'e list \<Rightarrow> 's \<Rightarrow> bool"
  assumes step_explains: "explains evs s \<Longrightarrow> step s e s' \<Longrightarrow> explains (e # evs) s'"
begin

lemma history_explains: "history step s0 evs s \<Longrightarrow> explains [] s0 \<Longrightarrow> explains evs s"
  by (induction rule: history.induct) (auto intro: step_explains)

end

end
