(* ===== verification/Std_Fs.thy ===== *)
theory Std_Fs
  imports Calci_Prelude
begin

text \<open>
  The part of \<open>std::fs\<close>, \<open>std::path\<close> and \<open>std::env\<close> the modelled code uses: a file system is
  a partial map from paths to contents, every operation may fail (the argument \<open>fault\<close> says
  which do, and what a failed write leaves behind), and a path is the text the code builds,
  without a trailing slash.
\<close>

type_synonym fs = "string \<rightharpoonup> string"
type_synonym env = "string \<rightharpoonup> string"

datatype 'e io_err = IO_NotFound | IO_Exists | IO_Other 'e

datatype io_op =
  Op_Read string | Op_Mkdir string | Op_Create string | Op_Write string
  | Op_Rename string string

text \<open>The failing operations, with the text a failed write leaves in its file.\<close>

type_synonym 'e faults = "io_op \<Rightarrow> ('e \<times> string) option"

definition fs_read :: "'e faults \<Rightarrow> fs \<Rightarrow> string \<Rightarrow> 'e io_err + string" where
  "fs_read fault fs path =
     (case fault (Op_Read path) of
        Some (e, _) \<Rightarrow> Inl (IO_Other e)
      | None \<Rightarrow> (case fs path of None \<Rightarrow> Inl IO_NotFound | Some text \<Rightarrow> Inr text))"

definition fs_mkdir_all :: "'e faults \<Rightarrow> string \<Rightarrow> 'e io_err + unit" where
  "fs_mkdir_all fault path =
     (case fault (Op_Mkdir path) of Some (e, _) \<Rightarrow> Inl (IO_Other e) | None \<Rightarrow> Inr ())"

text \<open>\<open>OpenOptions::new().create_new(true).write(true).open(path)\<close>\<close>

definition fs_create_new :: "'e faults \<Rightarrow> fs \<Rightarrow> string \<Rightarrow> ('e io_err + unit) \<times> fs" where
  "fs_create_new fault fs path =
     (case fault (Op_Create path) of
        Some (e, _) \<Rightarrow> (Inl (IO_Other e), fs)
      | None \<Rightarrow> (if fs path \<noteq> None then (Inl IO_Exists, fs) else (Inr (), fs(path \<mapsto> ''''))))"

text \<open>\<open>file.write_all(text).and_then(|_| file.sync_all())\<close> on a file just created\<close>

definition fs_write_all :: "'e faults \<Rightarrow> fs \<Rightarrow> string \<Rightarrow> string \<Rightarrow> ('e io_err + unit) \<times> fs" where
  "fs_write_all fault fs path text =
     (case fault (Op_Write path) of
        Some (e, torn) \<Rightarrow> (Inl (IO_Other e), fs(path \<mapsto> torn))
      | None \<Rightarrow> (Inr (), fs(path \<mapsto> text)))"

definition fs_remove :: "fs \<Rightarrow> string \<Rightarrow> fs" where
  "fs_remove fs path = fs(path := None)"

definition fs_rename :: "'e faults \<Rightarrow> fs \<Rightarrow> string \<Rightarrow> string \<Rightarrow> ('e io_err + unit) \<times> fs" where
  "fs_rename fault fs a b =
     (case fault (Op_Rename a b) of
        Some (e, _) \<Rightarrow> (Inl (IO_Other e), fs)
      | None \<Rightarrow>
          (case fs a of
             None \<Rightarrow> (Inl IO_NotFound, fs)
           | Some text \<Rightarrow> (Inr (), (fs(a := None))(b \<mapsto> text))))"

section \<open>Paths\<close>

text \<open>\<open>PathBuf::join\<close> with a relative component.\<close>

definition path_join :: "string \<Rightarrow> string \<Rightarrow> string" where
  "path_join base name =
     (if base = [] then name
      else if last base = CHR ''/'' then base @ name else base @ ''/'' @ name)"

text \<open>\<open>Path::parent\<close>, \<open>Path::file_name\<close>, \<open>Path::extension\<close>, \<open>Path::with_extension\<close>.\<close>

definition path_parent :: "string \<Rightarrow> string option" where
  "path_parent p =
     (if p = [] \<or> p = ''/'' then None
      else (case rsplit_once (CHR ''/'') p of
              None \<Rightarrow> Some []
            | Some (a, _) \<Rightarrow> Some (if a = [] then ''/'' else a)))"

definition path_file_name :: "string \<Rightarrow> string" where
  "path_file_name p = (case rsplit_once (CHR ''/'') p of None \<Rightarrow> p | Some (_, b) \<Rightarrow> b)"

definition name_split_ext :: "string \<Rightarrow> string \<times> string option" where
  "name_split_ext n =
     (case rsplit_once (CHR ''.'') n of
        Some (stem, ext) \<Rightarrow> if stem = [] then (n, None) else (stem, Some ext)
      | None \<Rightarrow> (n, None))"

definition path_with_extension :: "string \<Rightarrow> string \<Rightarrow> string" where
  "path_with_extension p ext =
     (let base = take (length p - length (path_file_name p)) p
      in base @ fst (name_split_ext (path_file_name p)) @ ''.'' @ ext)"

section \<open>Environment\<close>

text \<open>\<open>env::var(name).ok().map(trim).filter(|v| !v.is_empty())\<close>\<close>

definition env_trimmed :: "env \<Rightarrow> string \<Rightarrow> string option" where
  "env_trimmed env name =
     (case env name of None \<Rightarrow> None
      | Some value \<Rightarrow> if trim value = [] then None else Some (trim value))"

definition or_else :: "'a option \<Rightarrow> 'a option \<Rightarrow> 'a option" where
  "or_else x y = (case x of Some a \<Rightarrow> Some a | None \<Rightarrow> y)"

lemma or_else_simps [simp]: "or_else (Some a) y = Some a" "or_else None y = y"
  by (simp_all add: or_else_def)

lemma fs_create_new_cases:
  obtains (err) e where "fs_create_new fault fs path = (Inl e, fs)"
  | (ok) "fs path = None" "fs_create_new fault fs path = (Inr (), fs(path \<mapsto> ''''))"
  by (cases "fault (Op_Create path)"; cases "fs path") (auto simp: fs_create_new_def)

lemma fs_write_all_other:
  "fs_write_all fault fs path text = (r, fs') \<Longrightarrow> q \<noteq> path \<Longrightarrow> fs' q = fs q"
  by (auto simp: fs_write_all_def split: option.splits)

end
