(* ===== verification/Secret_Access.thy ===== *)
theory Secret_Access
  imports Std_Fs
begin

text \<open>
  Per-agent secret access policy (\<open>crates/secrets-client/src/access_policy.rs\<close>) and the
  secret-name syntax (\<open>secret_refs.rs\<close>): the data of the policy, the wildcard matcher with
  its two cursors and backtracking point, and the decision \<open>allows\<close>.

  The matcher loop is a \<^theory_text>\<open>partial_function\<close> over the four cursors of the source;
  \<open>wm_loop_returns\<close> shows that it always returns.  \<open>glob\<close> is the reference meaning of a
  pattern.
\<close>

section \<open>Data\<close>

record secret_access_rule =
  rule_agents :: "string list"
  rule_users :: "string list"
  rule_channels :: "string list"
  rule_secrets :: "string list"

record secret_access_policy =
  rules :: "secret_access_rule list"

record secret_access_identity =
  agent_id :: "string option"
  user_id :: "string option"
  channel :: "string option"

definition default_policy :: secret_access_policy where
  "default_policy = \<lparr>rules = []\<rparr>"

section \<open>Wildcard matching\<close>

text \<open>
  The trailing loop: skip the stars left in the pattern, and see whether it is at its end.
\<close>

definition only_stars :: "string \<Rightarrow> bool" where
  "only_stars p \<longleftrightarrow> dropWhile (\<lambda>c. c = CHR ''*'') p = []"

text \<open>
  The \<open>while vi < value.len()\<close> loop.  The cursors \<open>pi\<close>, \<open>vi\<close> and the backtracking point
  \<open>star\<close>, \<open>star_value\<close> are the source's; \<open>Some b\<close> is the value returned.
\<close>

partial_function (option) wm_loop ::
  "string \<Rightarrow> string \<Rightarrow> nat \<Rightarrow> nat \<Rightarrow> nat option \<Rightarrow> nat \<Rightarrow> bool option" where
  "wm_loop p v pi vi star sv =
     (if vi < length v then
        if pi < length p \<and> p ! pi = v ! vi then wm_loop p v (pi + 1) (vi + 1) star sv
        else if pi < length p \<and> p ! pi = CHR ''*'' then wm_loop p v (pi + 1) vi (Some pi) vi
        else (case star of
                Some si \<Rightarrow> wm_loop p v (si + 1) (sv + 1) star (sv + 1)
              | None \<Rightarrow> Some False)
      else Some (only_stars (drop pi p)))"

definition wildcard_match :: "string \<Rightarrow> string \<Rightarrow> bool" where
  "wildcard_match p v =
     (if p = ''*'' \<or> p = v then True else wm_loop p v 0 0 None 0 = Some True)"

text \<open>The reference: a star stands for any text, every other byte for itself.\<close>

fun glob :: "string \<Rightarrow> string \<Rightarrow> bool" where
  "glob [] v = (v = [])"
| "glob (c # p) [] = (c = CHR ''*'' \<and> glob p [])"
| "glob (c # p) (d # v) =
     (if c = CHR ''*'' then glob p (d # v) \<or> glob (c # p) v else c = d \<and> glob p v)"

section \<open>The decision\<close>

definition selector_allows :: "string list \<Rightarrow> string option \<Rightarrow> bool" where
  "selector_allows patterns value =
     (patterns = [] \<or>
      (case value of None \<Rightarrow> False
       | Some v \<Rightarrow> list_ex (\<lambda>pattern. wildcard_match pattern v) patterns))"

definition is_known :: "secret_access_identity \<Rightarrow> bool" where
  "is_known i \<longleftrightarrow> agent_id i \<noteq> None \<or> user_id i \<noteq> None \<or> channel i \<noteq> None"

definition matches_identity :: "secret_access_rule \<Rightarrow> secret_access_identity \<Rightarrow> bool" where
  "matches_identity r i \<longleftrightarrow>
     selector_allows (rule_agents r) (agent_id i) \<and>
     selector_allows (rule_users r) (user_id i) \<and>
     selector_allows (rule_channels r) (channel i)"

definition allows_secret :: "secret_access_rule \<Rightarrow> string \<Rightarrow> bool" where
  "allows_secret r name \<longleftrightarrow>
     rule_secrets r \<noteq> [] \<and>
     list_ex (\<lambda>pattern. wildcard_match pattern name) (rule_secrets r)"

definition policy_allows ::
  "secret_access_policy \<Rightarrow> secret_access_identity \<Rightarrow> string \<Rightarrow> bool" where
  "policy_allows pol i name =
     (if \<not> is_known i then rules pol = []
      else list_ex (\<lambda>r. matches_identity r i \<and> allows_secret r name) (rules pol))"

definition filter_names ::
  "secret_access_policy \<Rightarrow> secret_access_identity \<Rightarrow> string list \<Rightarrow> string list" where
  "filter_names pol i names = filter (policy_allows pol i) names"

section \<open>Environment and files\<close>

definition identity_from_env :: "env \<Rightarrow> secret_access_identity" where
  "identity_from_env env =
     \<lparr>agent_id = env_trimmed env ''CALCIFORGE_AGENT_ID'',
      user_id = env_trimmed env ''CALCIFORGE_USER_ID'',
      channel = or_else (env_trimmed env ''CALCIFORGE_CHANNEL_ID'')
                        (env_trimmed env ''CALCIFORGE_CHANNEL'')\<rparr>"

definition POLICY_FILE_NAME :: string where
  "POLICY_FILE_NAME = ''secret-access-policy.toml''"

definition default_access_policy_path :: "env \<Rightarrow> string option" where
  "default_access_policy_path env =
     (case env ''CALCIFORGE_SECRET_ACCESS_POLICY_FILE'' of
        Some path \<Rightarrow> Some path
      | None \<Rightarrow>
     (case env ''CALCIFORGE_CONFIG_HOME'' of
        Some base \<Rightarrow> Some (path_join base POLICY_FILE_NAME)
      | None \<Rightarrow>
     (case env ''XDG_CONFIG_HOME'' of
        Some base \<Rightarrow> Some (path_join (path_join base ''calciforge'') POLICY_FILE_NAME)
      | None \<Rightarrow>
        map_option (\<lambda>home. path_join (path_join (path_join home ''.config'') ''calciforge'')
                             POLICY_FILE_NAME)
          (env ''HOME''))))"

text \<open>
  A TOML document is a tree whose inner nodes are tables; the TOML parser, the conversion
  into the policy and the reading of a file are arguments.
\<close>

datatype toml = TTable "(string \<times> toml) list" | TArray "toml list" | TLeaf string

datatype ('e, 'p) access_policy_error = AP_Read string "'e io_err" | AP_Parse string 'p

definition toml_get :: "string \<Rightarrow> toml \<Rightarrow> toml option" where
  "toml_get k t = (case t of TTable kvs \<Rightarrow> map_of kvs k | _ \<Rightarrow> None)"

definition toml_insert :: "string \<Rightarrow> toml \<Rightarrow> toml \<Rightarrow> toml" where
  "toml_insert k x t =
     (case t of TTable kvs \<Rightarrow> TTable (filter (\<lambda>kv. fst kv \<noteq> k) kvs @ [(k, x)]) | _ \<Rightarrow> t)"

definition hoist_rules :: "toml \<Rightarrow> toml" where
  "hoist_rules value =
     (if toml_get ''rules'' value \<noteq> None then value
      else (case Option.bind (Option.bind (toml_get ''security'' value)
                                (toml_get ''secret_access''))
                    (toml_get ''rules'') of
              Some rs \<Rightarrow> toml_insert ''rules'' rs value
            | None \<Rightarrow> value))"

definition parse_access_policy_toml ::
  "(string \<Rightarrow> 'p + toml) \<Rightarrow> (toml \<Rightarrow> 'p + secret_access_policy) \<Rightarrow> string \<Rightarrow>
   'p + secret_access_policy" where
  "parse_access_policy_toml from_str try_into input =
     res_bind (from_str input) (\<lambda>value. try_into (hoist_rules value))"

definition load_access_policy ::
  "(string \<Rightarrow> 'p + toml) \<Rightarrow> (toml \<Rightarrow> 'p + secret_access_policy) \<Rightarrow>
   (string \<Rightarrow> 'e io_err + string) \<Rightarrow> string \<Rightarrow>
   ('e, 'p) access_policy_error + secret_access_policy" where
  "load_access_policy from_str try_into read_file path =
     (case read_file path of
        Inl IO_NotFound \<Rightarrow> Inr default_policy
      | Inl e \<Rightarrow> Inl (AP_Read path e)
      | Inr text \<Rightarrow>
          (case parse_access_policy_toml from_str try_into text of
             Inl e \<Rightarrow> Inl (AP_Parse path e)
           | Inr pol \<Rightarrow> Inr pol))"

definition load_default_access_policy ::
  "(string \<Rightarrow> 'p + toml) \<Rightarrow> (toml \<Rightarrow> 'p + secret_access_policy) \<Rightarrow>
   (string \<Rightarrow> 'e io_err + string) \<Rightarrow> env \<Rightarrow>
   ('e, 'p) access_policy_error + secret_access_policy" where
  "load_default_access_policy from_str try_into read_file env =
     (case default_access_policy_path env of
        None \<Rightarrow> Inr default_policy
      | Some path \<Rightarrow> load_access_policy from_str try_into read_file path)"

section \<open>Secret names\<close>

definition secret_name_byte :: "char \<Rightarrow> bool" where
  "secret_name_byte c \<longleftrightarrow> ascii_alnum c \<or> c = CHR ''_'' \<or> c = CHR ''-''"

definition is_valid_secret_name :: "string \<Rightarrow> bool" where
  "is_valid_secret_name name \<longleftrightarrow> name \<noteq> [] \<and> list_all secret_name_byte name"

definition secret_reference_token :: "string \<Rightarrow> string option" where
  "secret_reference_token name =
     (if is_valid_secret_name name then Some (''{{secret:'' @ name @ ''}}'') else None)"

section \<open>The matcher returns and means its pattern\<close>

definition wm_inv :: "string \<Rightarrow> string \<Rightarrow> nat \<Rightarrow> nat \<Rightarrow> nat option \<Rightarrow> nat \<Rightarrow> bool" where
  "wm_inv p v pi vi star sv \<longleftrightarrow>
     pi \<le> length p \<and> vi \<le> length v \<and>
     (case star of None \<Rightarrow> True | Some si \<Rightarrow> si < pi \<and> sv \<le> vi \<and> p ! si = CHR ''*'')"

text \<open>The star only moves right, and between two moves of the star its value cursor does.\<close>

definition wm_ranks :: "string \<Rightarrow> string \<Rightarrow> (nat \<times> nat \<times> nat option \<times> nat \<Rightarrow> nat) list" where
  "wm_ranks p v =
     [\<lambda>(pi, vi, star, sv). case star of None \<Rightarrow> length v + 1 | Some si \<Rightarrow> length v - sv,
      \<lambda>(pi, vi, star, sv). case star of None \<Rightarrow> length p + 1 | Some si \<Rightarrow> length p - si,
      \<lambda>(pi, vi, star, sv). length v - vi]"

lemmas wm_induct = wf_induct_rule [OF wf_measures, of "wm_ranks p v" for p v]

lemma wm_inv_step:
  assumes "wm_inv p v pi vi star sv" "vi < length v"
  shows
    "pi < length p \<Longrightarrow> wm_inv p v (pi + 1) (vi + 1) star sv \<and>
       ((pi + 1, vi + 1, star, sv), (pi, vi, star, sv)) \<in> measures (wm_ranks p v)"
    "pi < length p \<Longrightarrow> p ! pi = CHR ''*'' \<Longrightarrow> wm_inv p v (pi + 1) vi (Some pi) vi \<and>
       ((pi + 1, vi, Some pi, vi), (pi, vi, star, sv)) \<in> measures (wm_ranks p v)"
    "star = Some si \<Longrightarrow> wm_inv p v (si + 1) (sv + 1) star (sv + 1) \<and>
       ((si + 1, sv + 1, star, sv + 1), (pi, vi, star, sv)) \<in> measures (wm_ranks p v)"
  using assms by (auto simp: wm_inv_def wm_ranks_def split: option.splits)

lemma wm_loop_returns:
  "wm_inv p v pi vi star sv \<Longrightarrow> \<exists>b. wm_loop p v pi vi star sv = Some b"
proof (induction "(pi, vi, star, sv)" arbitrary: pi vi star sv rule: wm_induct [of p v])
  case 1
  note step = wm_inv_step [OF \<open>wm_inv p v pi vi star sv\<close>] and IH = 1(1)
  show ?case
    by (subst wm_loop.simps) (auto split: option.split dest: step intro!: IH)
qed

lemma only_stars_simps [simp]:
  "only_stars []"
  "only_stars (c # p) \<longleftrightarrow> c = CHR ''*'' \<and> only_stars p"
  by (simp_all add: only_stars_def)

lemma glob_Nil [simp]: "glob p [] = only_stars p"
  by (induction p) auto

lemma glob_star: "glob (CHR ''*'' # p) v \<longleftrightarrow> (\<exists>k \<le> length v. glob p (drop k v))"
proof (induction v)
  case Nil
  then show ?case by simp
next
  case (Cons d v)
  have "(\<exists>k \<le> length (d # v). glob p (drop k (d # v))) \<longleftrightarrow>
      glob p (d # v) \<or> (\<exists>k \<le> length v. glob p (drop k v))"
    by (metis Suc_le_mono drop0 drop_Suc_Cons length_Cons not0_implies_Suc zero_le)
  with Cons show ?case by simp
qed

lemma glob_literal:
  "CHR ''*'' \<notin> set seg \<Longrightarrow> glob (seg @ q) v \<longleftrightarrow> (\<exists>v'. v = seg @ v' \<and> glob q v')"
proof (induction seg arbitrary: v)
  case Nil
  then show ?case by simp
next
  case (Cons c seg)
  then show ?case by (cases v) auto
qed

lemma glob_skip_star: "glob p v \<Longrightarrow> glob (CHR ''*'' # p) v"
  by (subst glob_star) (metis drop0 zero_le)

lemma glob_same: "glob p v \<Longrightarrow> glob (c # p) (c # v)"
  by (cases "c = CHR ''*''") (auto dest: glob_skip_star)

lemma glob_refl: "glob v v"
  by (induction v) (auto intro: glob_same simp del: glob.simps(3))

lemma glob_star_all: "glob ''*'' v"
  using glob_star [of "[]" v] by (auto intro: exI [of _ "length v"])

text \<open>What is left to match: the rest of the pattern here, or the star further right.\<close>

definition wm_goal :: "string \<Rightarrow> string \<Rightarrow> nat \<Rightarrow> nat \<Rightarrow> nat option \<Rightarrow> nat \<Rightarrow> bool" where
  "wm_goal p v pi vi star sv \<longleftrightarrow>
     glob (drop pi p) (drop vi v) \<or>
     (\<exists>si k. star = Some si \<and> sv < k \<and> k \<le> length v \<and> glob (drop (si + 1) p) (drop k v))"

lemma drop_nth: "i < length xs \<Longrightarrow> drop i xs = xs ! i # drop (i + 1) xs"
  by (simp add: Cons_nth_drop_Suc)

text \<open>The four ways one round of the loop can go, with the call that follows.\<close>

lemma wm_cases:
  assumes "vi < length v"
  obtains
    (lit) "pi < length p" "p ! pi = v ! vi"
      "wm_loop p v pi vi star sv = wm_loop p v (pi + 1) (vi + 1) star sv"
  | (star) "pi < length p" "p ! pi \<noteq> v ! vi" "p ! pi = CHR ''*''"
      "wm_loop p v pi vi star sv = wm_loop p v (pi + 1) vi (Some pi) vi"
  | (retry) si where "\<not> (pi < length p \<and> p ! pi = v ! vi)"
      "\<not> (pi < length p \<and> p ! pi = CHR ''*'')" "star = Some si"
      "wm_loop p v pi vi star sv = wm_loop p v (si + 1) (sv + 1) star (sv + 1)"
  | (fail) "\<not> (pi < length p \<and> p ! pi = v ! vi)"
      "\<not> (pi < length p \<and> p ! pi = CHR ''*'')" "star = None"
      "wm_loop p v pi vi star sv = Some False"
proof -
  note eq = wm_loop.simps [of p v pi vi star sv]
  show thesis
  proof (cases "pi < length p \<and> p ! pi = v ! vi")
    case True
    with assms show thesis by (intro lit) (simp_all add: eq)
  next
    case nolit: False
    show thesis
    proof (cases "pi < length p \<and> p ! pi = CHR ''*''")
      case True
      with nolit assms show thesis by (intro star) (simp_all add: eq)
    next
      case nostar: False
      show thesis
      proof (cases star)
        case None
        with nolit nostar assms have "wm_loop p v pi vi star sv = Some False"
          by (subst eq) auto
        with nolit nostar None show thesis by (rule fail)
      next
        case (Some si)
        with nolit nostar assms
        have "wm_loop p v pi vi star sv = wm_loop p v (si + 1) (sv + 1) star (sv + 1)"
          by (subst eq) auto
        with nolit nostar Some show thesis by (rule retry)
      qed
    qed
  qed
qed

lemma wm_loop_end:
  "\<not> vi < length v \<Longrightarrow> wm_loop p v pi vi star sv = Some (only_stars (drop pi p))"
  by (subst wm_loop.simps) simp

lemma wm_loop_sound:
  "wm_inv p v pi vi star sv \<Longrightarrow> wm_loop p v pi vi star sv = Some True \<Longrightarrow>
   wm_goal p v pi vi star sv"
proof (induction "(pi, vi, star, sv)" arbitrary: pi vi star sv rule: wm_induct [of p v])
  case 1
  note inv = 1(2)
  note step = wm_inv_step [OF inv] and IH = 1(1)
  show ?case
  proof (cases "vi < length v")
    case False
    with 1(3) show ?thesis by (simp add: wm_goal_def wm_loop_end)
  next
    case vi: True
    have dv: "drop vi v = v ! vi # drop (vi + 1) v" using vi by (rule drop_nth)
    from vi show ?thesis
    proof (cases rule: wm_cases [where p = p and pi = pi and star = star and sv = sv])
      case lit
      with 1(3) IH step(1) [OF vi lit(1)] have "wm_goal p v (pi + 1) (vi + 1) star sv" by metis
      moreover have "glob (drop (pi + 1) p) (drop (vi + 1) v) \<Longrightarrow> glob (drop pi p) (drop vi v)"
        unfolding drop_nth [OF lit(1)] dv lit(2) by (rule glob_same)
      ultimately show ?thesis by (auto simp: wm_goal_def)
    next
      case star
      with 1(3) IH step(2) [OF vi star(1,3)] have "wm_goal p v (pi + 1) vi (Some pi) vi" by metis
      then obtain k where "vi \<le> k" "k \<le> length v" "glob (drop (pi + 1) p) (drop k v)"
        using vi by (auto simp: wm_goal_def intro: less_imp_le)
      then have "glob (CHR ''*'' # drop (pi + 1) p) (drop vi v)"
        by (subst glob_star) (rule exI [of _ "k - vi"], simp)
      then show ?thesis by (simp add: wm_goal_def drop_nth [OF star(1)] star(3))
    next
      case (retry si)
      with 1(3) IH step(3) [OF vi retry(3)] have "wm_goal p v (si + 1) (sv + 1) star (sv + 1)"
        by metis
      with retry(3) show ?thesis
        using inv vi by (auto simp: wm_goal_def wm_inv_def intro: exI [of _ "sv + 1"] dest: Suc_lessD)
    next
      case fail
      with 1(3) show ?thesis by simp
    qed
  qed
qed

text \<open>
  Between the last star and the pattern cursor the pattern is literal and has been matched.
  This is what makes it safe to forget the earlier stars.
\<close>

definition wm_seg :: "string \<Rightarrow> string \<Rightarrow> nat \<Rightarrow> nat \<Rightarrow> nat option \<Rightarrow> nat \<Rightarrow> bool" where
  "wm_seg p v pi vi star sv \<longleftrightarrow>
     (case star of None \<Rightarrow> True
      | Some si \<Rightarrow> drop (si + 1) (take pi p) = drop sv (take vi v))"

lemma wm_seg_star:
  assumes inv: "wm_inv p v pi vi (Some si) sv" and seg: "wm_seg p v pi vi (Some si) sv"
    and "CHR ''*'' \<notin> set v" and "glob (drop (si + 1) p) (drop k v)" and k: "k \<le> length v"
  shows "k + (vi - sv) \<le> length v \<and> glob (drop pi p) (drop (k + (vi - sv)) v)"
proof -
  let ?seg = "drop sv (take vi v)"
  have "drop (si + 1) p = ?seg @ drop pi p"
    using inv seg drop_append [of "si + 1" "take pi p" "drop pi p"]
    by (simp add: wm_inv_def wm_seg_def)
  moreover have "CHR ''*'' \<notin> set ?seg"
    using assms(3) set_drop_subset [of sv "take vi v"] set_take_subset [of vi v] by blast
  ultimately obtain v' where v': "drop k v = ?seg @ v'" "glob (drop pi p) v'"
    using assms(4) glob_literal by metis
  have len: "length ?seg = vi - sv" using inv by (simp add: wm_inv_def)
  have "drop (length ?seg) (drop k v) = v'" unfolding v'(1) by simp
  then have "v' = drop (k + (vi - sv)) v" using len by (simp add: add.commute)
  moreover have "length v - k = (vi - sv) + length v'"
    using arg_cong [OF v'(1), of length] len by simp
  ultimately show ?thesis using v'(2) k by auto
qed

lemma wm_loop_complete:
  assumes nostar: "CHR ''*'' \<notin> set v"
  shows "wm_inv p v pi vi star sv \<Longrightarrow> wm_seg p v pi vi star sv \<Longrightarrow>
    wm_goal p v pi vi star sv \<Longrightarrow> wm_loop p v pi vi star sv = Some True"
proof (induction "(pi, vi, star, sv)" arbitrary: pi vi star sv rule: wm_induct [of p v])
  case 1
  note inv = 1(2) and seg = 1(3) and goal = 1(4) and IH = 1(1)
  note step = wm_inv_step [OF inv]
  note jump = wm_seg_star [OF _ _ nostar]
  show ?case
  proof (cases "vi < length v")
    case False
    then have "vi = length v" using inv by (simp add: wm_inv_def)
    have "glob (drop pi p) (drop vi v)"
    proof (rule ccontr)
      assume "\<not> glob (drop pi p) (drop vi v)"
      with goal obtain si k where k: "star = Some si" "sv < k" "k \<le> length v"
          "glob (drop (si + 1) p) (drop k v)"
        by (auto simp: wm_goal_def)
      from jump [OF _ _ k(4,3)] inv seg k(1) have "k + (vi - sv) \<le> length v" by blast
      moreover have "sv \<le> vi" using inv k(1) by (simp add: wm_inv_def)
      ultimately show False using k(2) \<open>vi = length v\<close> by linarith
    qed
    then have "only_stars (drop pi p)" using \<open>vi = length v\<close> by simp
    with False show ?thesis by (simp add: wm_loop_end)
  next
    case vi: True
    have dv: "drop vi v = v ! vi # drop (vi + 1) v" using vi by (rule drop_nth)
    have vc: "v ! vi \<noteq> CHR ''*''" using vi nostar by (metis nth_mem)
    from vi show ?thesis
    proof (cases rule: wm_cases [where p = p and pi = pi and star = star and sv = sv])
      case lit
      then have "glob (drop pi p) (drop vi v) \<longleftrightarrow> glob (drop (pi + 1) p) (drop (vi + 1) v)"
        using vc by (simp add: drop_nth [OF lit(1)] dv)
      with goal have "wm_goal p v (pi + 1) (vi + 1) star sv" by (simp add: wm_goal_def)
      moreover have "wm_seg p v (pi + 1) (vi + 1) star sv"
        using seg inv lit vi
        by (auto simp: wm_seg_def wm_inv_def take_Suc_conv_app_nth split: option.splits)
      ultimately show ?thesis using lit(3) IH step(1) [OF vi lit(1)] by metis
    next
      case star
      have dp: "drop pi p = CHR ''*'' # drop (pi + 1) p" using drop_nth [OF star(1)] star(3) by simp
      have "\<exists>k. vi \<le> k \<and> k \<le> length v \<and> glob (drop (pi + 1) p) (drop k v)"
      proof -
        obtain m where m: "vi \<le> m" "m \<le> length v" "glob (drop pi p) (drop m v)"
        proof (cases "glob (drop pi p) (drop vi v)")
          case True
          with vi show thesis by (intro that [of vi]) simp_all
        next
          case False
          with goal obtain si k where k: "star = Some si" "sv < k" "k \<le> length v"
              "glob (drop (si + 1) p) (drop k v)"
            by (auto simp: wm_goal_def)
          have "sv \<le> vi" using inv k(1) by (simp add: wm_inv_def)
          then have "vi \<le> k + (vi - sv)" using k(2) by simp
          moreover have "k + (vi - sv) \<le> length v \<and> glob (drop pi p) (drop (k + (vi - sv)) v)"
            using jump [OF _ _ k(4,3)] inv seg k(1) by blast
          ultimately show thesis using that by blast
        qed
        from m(3) obtain j where "j \<le> length v - m" "glob (drop (pi + 1) p) (drop j (drop m v))"
          unfolding dp glob_star by auto
        with m(1,2) show ?thesis by (intro exI [of _ "j + m"]) (simp add: add.commute)
      qed
      then have "wm_goal p v (pi + 1) vi (Some pi) vi"
        using vi by (auto simp: wm_goal_def le_less)
      moreover have "wm_seg p v (pi + 1) vi (Some pi) vi" by (simp add: wm_seg_def)
      ultimately show ?thesis using star(4) IH step(2) [OF vi star(1,3)] by metis
    next
      case (retry si)
      have "\<not> glob (drop pi p) (drop vi v)"
        using retry(1,2) by (cases "pi < length p") (auto simp: drop_nth dv)
      with goal retry(3) obtain k where "sv < k" "k \<le> length v" "glob (drop (si + 1) p) (drop k v)"
        by (auto simp: wm_goal_def)
      then have "wm_goal p v (si + 1) (sv + 1) star (sv + 1)"
        using retry(3) by (cases "k = sv + 1") (auto simp: wm_goal_def)
      moreover have "wm_seg p v (si + 1) (sv + 1) star (sv + 1)"
        using retry(3) by (simp add: wm_seg_def)
      ultimately show ?thesis using retry(4) IH step(3) [OF vi retry(3)] by metis
    next
      case fail
      then have "\<not> glob (drop pi p) (drop vi v)"
        by (cases "pi < length p") (auto simp: drop_nth dv)
      with goal fail(3) show ?thesis by (simp add: wm_goal_def)
    qed
  qed
qed

lemma wildcard_match_sound: "wildcard_match p v \<Longrightarrow> glob p v"
  using wm_loop_sound [of p v 0 0 None 0] glob_star_all [of v] glob_refl [of v]
  by (auto simp: wildcard_match_def wm_inv_def wm_goal_def split: if_splits)

lemma wildcard_match_glob: "CHR ''*'' \<notin> set v \<Longrightarrow> wildcard_match p v = glob p v"
proof
  assume nostar: "CHR ''*'' \<notin> set v" and "glob p v"
  then have "wm_loop p v 0 0 None 0 = Some True"
    by (intro wm_loop_complete) (simp_all add: wm_inv_def wm_seg_def wm_goal_def)
  then show "wildcard_match p v" by (simp add: wildcard_match_def)
qed (rule wildcard_match_sound)

lemma wildcard_match_literal: "CHR ''*'' \<notin> set p \<Longrightarrow> wildcard_match p v \<longleftrightarrow> p = v"
proof
  assume "CHR ''*'' \<notin> set p" "wildcard_match p v"
  with glob_literal [of p "[]" v] wildcard_match_sound show "p = v" by auto
qed (simp add: wildcard_match_def)

lemma wildcard_match_star [simp]: "wildcard_match ''*'' v"
  by (simp add: wildcard_match_def)

section \<open>The decision, read through globs\<close>

text \<open>
  What an operator reads off a policy file: every pattern is a glob, an empty selector is no
  restriction, a missing identity field satisfies no restriction.
\<close>

definition selector_spec :: "string list \<Rightarrow> string option \<Rightarrow> bool" where
  "selector_spec ps value \<longleftrightarrow> ps = [] \<or> (\<exists>v. value = Some v \<and> (\<exists>p \<in> set ps. glob p v))"

definition policy_spec ::
  "secret_access_policy \<Rightarrow> secret_access_identity \<Rightarrow> string \<Rightarrow> bool" where
  "policy_spec pol i name \<longleftrightarrow>
     (if is_known i
      then \<exists>r \<in> set (rules pol).
             selector_spec (rule_agents r) (agent_id i) \<and>
             selector_spec (rule_users r) (user_id i) \<and>
             selector_spec (rule_channels r) (channel i) \<and>
             (\<exists>p \<in> set (rule_secrets r). glob p name)
      else rules pol = [])"

definition star_free :: "string option \<Rightarrow> bool" where
  "star_free x \<longleftrightarrow> (case x of None \<Rightarrow> True | Some v \<Rightarrow> CHR ''*'' \<notin> set v)"

lemma selector_allows_spec:
  "selector_allows ps x \<Longrightarrow> selector_spec ps x"
  "star_free x \<Longrightarrow> selector_allows ps x = selector_spec ps x"
  by (auto simp: selector_allows_def selector_spec_def star_free_def list_ex_iff wildcard_match_glob
      split: option.splits intro: wildcard_match_sound)

lemma valid_name_star_free: "is_valid_secret_name name \<Longrightarrow> CHR ''*'' \<notin> set name"
  by (auto simp: is_valid_secret_name_def list_all_iff secret_name_byte_def ascii_alnum_def
      ascii_upper_def ascii_lower_def ascii_digit_def less_eq_char_def)

lemma allows_secret_spec:
  "is_valid_secret_name name \<Longrightarrow>
   allows_secret r name \<longleftrightarrow> (\<exists>p \<in> set (rule_secrets r). glob p name)"
  by (auto simp: allows_secret_def list_ex_iff wildcard_match_glob valid_name_star_free)

lemma allows_secret_sound: "allows_secret r name \<Longrightarrow> \<exists>p \<in> set (rule_secrets r). glob p name"
  by (auto simp: allows_secret_def list_ex_iff intro: wildcard_match_sound)

lemma policy_allows_sound: "policy_allows pol i name \<Longrightarrow> policy_spec pol i name"
  by (auto simp: policy_allows_def policy_spec_def matches_identity_def list_ex_iff
      split: if_splits dest!: allows_secret_sound selector_allows_spec(1))

lemma policy_allows_eq:
  assumes "is_valid_secret_name name"
    and "star_free (agent_id i)" "star_free (user_id i)" "star_free (channel i)"
  shows "policy_allows pol i name = policy_spec pol i name"
  using assms
  by (simp add: policy_allows_def policy_spec_def matches_identity_def list_ex_iff
      allows_secret_spec selector_allows_spec(2))

section \<open>Properties\<close>

text \<open>
  The two-cursor wildcard matcher always returns; it accepts only values that its pattern
  globs, and on values without a star it accepts exactly those.  The counterexample to the
  full equivalence is the pattern \<open>a*c\<close> on the value \<open>a*bc\<close>: a star in the value is
  consumed as a literal before it can act as the wildcard, so the matcher refuses.
\<close>

theorem wildcard_matcher_is_glob:
  "(\<exists>b. wm_loop p v 0 0 None 0 = Some b) \<and>
   (wildcard_match p v \<longrightarrow> glob p v) \<and>
   (CHR ''*'' \<notin> set v \<longrightarrow> wildcard_match p v = glob p v) \<and>
   (glob ''a*c'' ''a*bc'' \<and> \<not> wildcard_match ''a*c'' ''a*bc'')"
proof (intro conjI impI)
  show "\<exists>b. wm_loop p v 0 0 None 0 = Some b" by (rule wm_loop_returns) (simp add: wm_inv_def)
  show "wildcard_match p v \<Longrightarrow> glob p v" by (rule wildcard_match_sound)
  show "CHR ''*'' \<notin> set v \<Longrightarrow> wildcard_match p v = glob p v" by (rule wildcard_match_glob)
  show "glob ''a*c'' ''a*bc''" by simp
  show "\<not> wildcard_match ''a*c'' ''a*bc''" by (simp add: wildcard_match_def wm_loop.simps)
qed

theorem wildcard_matcher_is_glob_witness:
  "wildcard_match ''CI_*_KEY'' ''CI_DEPLOY_KEY'' \<and> \<not> wildcard_match ''CI_*_KEY'' ''CI_DEPLOY''"
  using wildcard_matcher_is_glob [of "''CI_*_KEY''" "''CI_DEPLOY_KEY''"]
    wildcard_matcher_is_glob [of "''CI_*_KEY''" "''CI_DEPLOY''"]
  by simp

text \<open>
  C32: The access policy grants a secret only where its rules, read as globs, grant it; for a
  well-formed secret name and identity fields without a star it grants it exactly there.  A
  caller with no identity at all is granted a secret only when the policy has no rule, and an
  identified caller only by a rule.
\<close>

theorem access_policy_refines_globs:
  assumes "is_valid_secret_name name"
    and "star_free (agent_id i)" "star_free (user_id i)" "star_free (channel i)"
  shows "policy_allows pol i name = policy_spec pol i name \<and>
    (policy_allows pol j other \<longrightarrow> policy_spec pol j other) \<and>
    filter_names pol i [name] = (if policy_spec pol i name then [name] else [])"
  using policy_allows_eq [OF assms] policy_allows_sound by (simp add: filter_names_def)

theorem access_policy_refines_globs_witness:
  "policy_allows
     \<lparr>rules = [\<lparr>rule_agents = [''claw-*''], rule_users = [], rule_channels = [],
                rule_secrets = [''BRAVE_*'']\<rparr>]\<rparr>
     \<lparr>agent_id = Some ''claw-1'', user_id = None, channel = None\<rparr> ''BRAVE_KEY''"
  by (subst access_policy_refines_globs [THEN conjunct1])
     (simp_all add: policy_spec_def selector_spec_def star_free_def is_known_def
       is_valid_secret_name_def secret_name_byte_def ascii_alnum_def ascii_upper_def
       ascii_lower_def ascii_digit_def less_eq_char_def)

end
