(* ===== verification/Secret_Metadata.thy ===== *)
theory Secret_Metadata
  imports Secret_Access
begin

text \<open>
  The sidecar of secret metadata (\<open>crates/secrets-client/src/metadata.rs\<close>): destination
  patterns and their normalisation, the store, and \<open>set_allowed_destinations\<close> with its lock
  file and its atomic replacement of the sidecar.

  The JSON reader and writer are arguments (\<open>parse\<close>, \<open>print\<close>); files, failures and paths are
  those of \<open>Std_Fs\<close>.  The lock is polled: a list gives for each round whether the deadline has
  passed and what other processes do to the file system before the next round.
\<close>

section \<open>Data\<close>

record secret_metadata =
  md_name :: string
  md_allowed_destinations :: "string list"

record secret_metadata_store =
  secrets :: "string \<rightharpoonup> secret_metadata"

definition empty_store :: secret_metadata_store where
  "empty_store = \<lparr>secrets = Map.empty\<rparr>"

datatype ('e, 'p) metadata_error =
  InvalidName string
| InvalidDestination string
| MD_Read string "'e io_err"
| MD_Parse string 'p
| MD_Write string "'e io_err"

text \<open>\<open>Display\<close> of the error: \<open>dbg\<close> is \<open>Debug\<close> of a string, the others print their causes.\<close>

definition show_metadata_error ::
  "(string \<Rightarrow> string) \<Rightarrow> ('e io_err \<Rightarrow> string) \<Rightarrow> ('p \<Rightarrow> string) \<Rightarrow> ('e, 'p) metadata_error \<Rightarrow> string" where
  "show_metadata_error dbg io json e =
     (case e of
        InvalidName n \<Rightarrow> ''secret name '' @ dbg n @ '' contains invalid characters''
      | InvalidDestination d \<Rightarrow> ''invalid destination pattern '' @ dbg d
      | MD_Read path x \<Rightarrow> ''failed to read secret metadata at '' @ path @ '': '' @ io x
      | MD_Parse path x \<Rightarrow> ''failed to parse secret metadata at '' @ path @ '': '' @ json x
      | MD_Write path x \<Rightarrow> ''failed to write secret metadata at '' @ path @ '': '' @ io x)"

definition METADATA_FILE_NAME :: string where
  "METADATA_FILE_NAME = ''secret-metadata.json''"

definition default_metadata_path :: "env \<Rightarrow> string option" where
  "default_metadata_path env =
     (case env ''CALCIFORGE_SECRET_METADATA_FILE'' of
        Some path \<Rightarrow> Some path
      | None \<Rightarrow>
     (case env ''CALCIFORGE_SECRET_DESTINATION_ALLOWLIST_FILE'' of
        Some path \<Rightarrow> Some path
      | None \<Rightarrow>
     (case env ''CALCIFORGE_CONFIG_HOME'' of
        Some base \<Rightarrow> Some (path_join base METADATA_FILE_NAME)
      | None \<Rightarrow>
     (case env ''XDG_CONFIG_HOME'' of
        Some base \<Rightarrow> Some (path_join (path_join base ''calciforge'') METADATA_FILE_NAME)
      | None \<Rightarrow>
        map_option (\<lambda>home. path_join (path_join (path_join home ''.config'') ''calciforge'')
                             METADATA_FILE_NAME)
          (env ''HOME'')))))"

section \<open>Destination patterns\<close>

definition destination_byte :: "char \<Rightarrow> bool" where
  "destination_byte c \<longleftrightarrow> ascii_alnum c \<or> c \<in> set ''.-*_:''"

definition is_valid_destination_pattern :: "string \<Rightarrow> bool" where
  "is_valid_destination_pattern value \<longleftrightarrow>
     list_all destination_byte value \<and> \<not> str_contains ''://'' value \<and>
     \<not> str_contains ''/'' value \<and> \<not> prefix ''.'' value \<and> \<not> suffix ''.'' value"

definition clean_destination :: "string \<Rightarrow> string" where
  "clean_destination value = to_ascii_lowercase (trim_end_matches (CHR ''/'') (trim value))"

text \<open>The loop over \<open>values\<close>, with the vector \<open>normalized\<close> built so far.\<close>

fun normalize_loop ::
  "string list \<Rightarrow> string list \<Rightarrow> ('e, 'p) metadata_error + string list" where
  "normalize_loop acc [] = Inr acc"
| "normalize_loop acc (v # vs) =
     (let value = clean_destination v in
      if value = [] then normalize_loop acc vs
      else if \<not> is_valid_destination_pattern value then Inl (InvalidDestination value)
      else if value \<notin> set acc then normalize_loop (acc @ [value]) vs
      else normalize_loop acc vs)"

definition normalize_destinations ::
  "string list \<Rightarrow> ('e, 'p) metadata_error + string list" where
  "normalize_destinations vs = normalize_loop [] vs"

definition parse_destinations :: "string \<Rightarrow> ('e, 'p) metadata_error + string list" where
  "parse_destinations input =
     normalize_destinations
       (filter (\<lambda>v. v \<noteq> []) (map trim
         (concat (map (split_char (CHR 0x0A)) (split_char (CHR '','') input)))))"

section \<open>Loading\<close>

definition load_metadata ::
  "(string \<Rightarrow> 'p + secret_metadata_store) \<Rightarrow> 'e faults \<Rightarrow> fs \<Rightarrow> string \<Rightarrow>
   ('e, 'p) metadata_error + secret_metadata_store" where
  "load_metadata parse fault fs path =
     (case fs_read fault fs path of
        Inl IO_NotFound \<Rightarrow> Inr empty_store
      | Inl e \<Rightarrow> Inl (MD_Read path e)
      | Inr text \<Rightarrow> (case parse text of Inl e \<Rightarrow> Inl (MD_Parse path e) | Inr st \<Rightarrow> Inr st))"

definition load_default_metadata ::
  "(string \<Rightarrow> 'p + secret_metadata_store) \<Rightarrow> 'e faults \<Rightarrow> fs \<Rightarrow> env \<Rightarrow>
   ('e, 'p) metadata_error + secret_metadata_store" where
  "load_default_metadata parse fault fs env =
     (case default_metadata_path env of
        None \<Rightarrow> Inr empty_store
      | Some path \<Rightarrow> load_metadata parse fault fs path)"

definition metadata_for_names_from_store ::
  "string list \<Rightarrow> secret_metadata_store \<Rightarrow> secret_metadata list" where
  "metadata_for_names_from_store names store =
     map (\<lambda>name. case secrets store name of
                    Some m \<Rightarrow> m
                  | None \<Rightarrow> \<lparr>md_name = name, md_allowed_destinations = []\<rparr>) names"

definition metadata_for_names ::
  "(string \<Rightarrow> 'p + secret_metadata_store) \<Rightarrow> 'e faults \<Rightarrow> fs \<Rightarrow> env \<Rightarrow> string list \<Rightarrow>
   ('e, 'p) metadata_error + secret_metadata list" where
  "metadata_for_names parse fault fs env names =
     res_bind (load_default_metadata parse fault fs env)
       (\<lambda>store. Inr (metadata_for_names_from_store names store))"

section \<open>Writing\<close>

text \<open>
  \<open>MetadataWriteLock::acquire\<close>.  \<open>None\<close>: still polling at the end of the given rounds.
\<close>

fun lock_acquire ::
  "'e faults \<Rightarrow> string \<Rightarrow> fs \<Rightarrow> (bool \<times> (fs \<Rightarrow> fs)) list \<Rightarrow>
   ((('e, 'p) metadata_error + unit) \<times> fs) option" where
  "lock_acquire fault path fs [] = None"
| "lock_acquire fault path fs ((late, others) # rounds) =
     (case fs_create_new fault fs path of
        (Inr _, fs') \<Rightarrow> Some (Inr (), fs')
      | (Inl IO_Exists, fs') \<Rightarrow>
          if late then Some (Inl (MD_Write path IO_Exists), fs')
          else lock_acquire fault path (others fs') rounds
      | (Inl e, fs') \<Rightarrow> Some (Inl (MD_Write path e), fs'))"

definition lock_path :: "string \<Rightarrow> string" where
  "lock_path path =
     path_with_extension path
       ((case snd (name_split_ext (path_file_name path)) of Some ext \<Rightarrow> ext | None \<Rightarrow> ''lock'')
        @ ''.lock'')"

text \<open>\<open>nanos\<close> is the decimal text of the clock, which makes the temporary name unique.\<close>

definition tmp_path :: "string \<Rightarrow> string \<Rightarrow> string" where
  "tmp_path path nanos =
     path_join (case path_parent path of Some d \<Rightarrow> d | None \<Rightarrow> ''.'')
       (''.'' @ path_file_name path @ ''.'' @ nanos @ ''.tmp'')"

definition write_atomic ::
  "'e faults \<Rightarrow> fs \<Rightarrow> string \<Rightarrow> string \<Rightarrow> string \<Rightarrow>
   (('e, 'p) metadata_error + unit) \<times> fs" where
  "write_atomic fault fs path nanos text =
     (let tmp = tmp_path path nanos in
      case fs_create_new fault fs tmp of
        (Inl e, fs1) \<Rightarrow> (Inl (MD_Write tmp e), fs1)
      | (Inr _, fs1) \<Rightarrow>
          (case fs_write_all fault fs1 tmp text of
             (Inl e, fs2) \<Rightarrow> (Inl (MD_Write tmp e), fs2)
           | (Inr _, fs2) \<Rightarrow>
               (case fs_rename fault fs2 tmp path of
                  (Inl e, fs3) \<Rightarrow> (Inl (MD_Write path e), fs_remove fs3 tmp)
                | (Inr _, fs3) \<Rightarrow> (Inr (), fs3))))"

text \<open>
  The body of \<open>set_allowed_destinations\<close> under the lock: load, insert, print, replace.
\<close>

definition update_store ::
  "(string \<Rightarrow> 'p + secret_metadata_store) \<Rightarrow> (secret_metadata_store \<Rightarrow> 'p + string) \<Rightarrow>
   'e faults \<Rightarrow> fs \<Rightarrow> string \<Rightarrow> string \<Rightarrow> string \<Rightarrow> string list \<Rightarrow>
   (('e, 'p) metadata_error + unit) \<times> fs" where
  "update_store parse print fault fs path nanos name dests =
     (case load_metadata parse fault fs path of
        Inl e \<Rightarrow> (Inl e, fs)
      | Inr store \<Rightarrow>
          (case print (store\<lparr>secrets := (secrets store)(name \<mapsto>
                    \<lparr>md_name = name, md_allowed_destinations = dests\<rparr>)\<rparr>) of
             Inl e \<Rightarrow> (Inl (MD_Parse path e), fs)
           | Inr text \<Rightarrow> write_atomic fault fs path nanos (text @ [CHR 0x0A])))"

text \<open>The lock file is removed when its guard is dropped, on every way out.\<close>

definition set_allowed_destinations ::
  "(string \<Rightarrow> 'p + secret_metadata_store) \<Rightarrow> (secret_metadata_store \<Rightarrow> 'p + string) \<Rightarrow>
   'e faults \<Rightarrow> env \<Rightarrow> string \<Rightarrow> (bool \<times> (fs \<Rightarrow> fs)) list \<Rightarrow> fs \<Rightarrow> string \<Rightarrow> string list \<Rightarrow>
   ((('e, 'p) metadata_error + unit) \<times> fs) option" where
  "set_allowed_destinations parse print fault env nanos rounds fs name dests =
     (if \<not> is_valid_secret_name name then Some (Inl (InvalidName name), fs)
      else (case normalize_destinations dests of
        Inl e \<Rightarrow> Some (Inl e, fs)
      | Inr dests' \<Rightarrow>
     (case default_metadata_path env of
        None \<Rightarrow> Some (Inr (), fs)
      | Some path \<Rightarrow>
     (case (case path_parent path of None \<Rightarrow> Inr () | Some d \<Rightarrow> fs_mkdir_all fault d) of
        Inl e \<Rightarrow> Some (Inl (MD_Write path e), fs)
      | Inr _ \<Rightarrow>
     (case lock_acquire fault (lock_path path) fs rounds of
        None \<Rightarrow> None
      | Some (Inl e, fs1) \<Rightarrow> Some (Inl e, fs1)
      | Some (Inr _, fs1) \<Rightarrow>
          (let (r, fs2) = update_store parse print fault fs1 path nanos name dests'
           in Some (r, fs_remove fs2 (lock_path path))))))))"

section \<open>Normalisation\<close>

definition normal_destination :: "string \<Rightarrow> bool" where
  "normal_destination d \<longleftrightarrow> d \<noteq> [] \<and> is_valid_destination_pattern d \<and> to_ascii_lowercase d = d"

lemma destination_byte_visible: "destination_byte c \<Longrightarrow> visible c \<and> c \<noteq> CHR ''/''"
  by (auto simp: destination_byte_def ascii_alnum_def ascii_upper_def ascii_lower_def
      ascii_digit_def visible_def is_ascii_def less_eq_char_def)

lemma clean_normal: "normal_destination d \<Longrightarrow> clean_destination d = d"
proof -
  assume "normal_destination d"
  then have "list_all destination_byte d" "to_ascii_lowercase d = d"
    by (auto simp: normal_destination_def is_valid_destination_pattern_def)
  moreover from this have "list_all visible d" "CHR ''/'' \<notin> set d"
    by (auto simp: list_all_iff dest: destination_byte_visible)
  ultimately show ?thesis by (simp add: clean_destination_def trim_visible trim_end_matches_fixed)
qed

lemma clean_lower [simp]: "to_ascii_lowercase (clean_destination v) = clean_destination v"
  by (simp add: clean_destination_def)

lemma normalize_loop_ok:
  "normalize_loop acc vs = Inr ds \<Longrightarrow> distinct acc \<Longrightarrow>
   distinct ds \<and> set ds = set acc \<union> {d \<in> clean_destination ` set vs. d \<noteq> []} \<and>
   (\<forall>v \<in> set vs. clean_destination v \<noteq> [] \<longrightarrow> normal_destination (clean_destination v))"
proof (induction vs arbitrary: acc)
  case Nil
  then show ?case by simp
next
  case (Cons v vs)
  from Cons.prems Cons.IH [of acc] Cons.IH [of "acc @ [clean_destination v]"] show ?case
    by (auto simp: Let_def normal_destination_def split: if_splits)
qed

lemma normalize_loop_err:
  "normalize_loop acc vs = Inl e \<Longrightarrow>
   \<exists>v \<in> set vs. e = InvalidDestination (clean_destination v) \<and> clean_destination v \<noteq> [] \<and>
     \<not> is_valid_destination_pattern (clean_destination v)"
  by (induction vs arbitrary: acc) (auto simp: Let_def split: if_splits)

lemma normalize_loop_fixed:
  "distinct (acc @ ds) \<Longrightarrow> \<forall>d \<in> set ds. normal_destination d \<Longrightarrow>
   normalize_loop acc ds = Inr (acc @ ds)"
  by (induction ds arbitrary: acc)
     (auto simp: Let_def clean_normal normal_destination_def)

lemma normalize_destinations_ok:
  assumes "normalize_destinations vs = Inr ds"
  shows "distinct ds" "set ds = {d \<in> clean_destination ` set vs. d \<noteq> []}"
    "d \<in> set ds \<Longrightarrow> normal_destination d"
  using normalize_loop_ok [OF assms [unfolded normalize_destinations_def]] by auto

lemma normalize_destinations_idem:
  assumes "normalize_destinations vs = Inr ds"
  shows "normalize_destinations ds = Inr ds"
  using normalize_loop_fixed [of "[]" ds] normalize_destinations_ok [OF assms]
  by (simp add: normalize_destinations_def)

section \<open>The lock and the replacement\<close>

lemma lock_acquire_returns: "\<exists>r \<in> set rounds. fst r \<Longrightarrow> \<exists>res. lock_acquire fault path fs rounds = Some res"
proof (induction rounds arbitrary: fs)
  case Nil
  then show ?case by simp
next
  case (Cons r rounds)
  obtain late others where r: "r = (late, others)" by (cases r)
  show ?case
  proof (cases rule: fs_create_new_cases [of fault fs path])
    case (err e)
    with Cons r show ?thesis by (cases e) auto
  next
    case ok
    with r show ?thesis by simp
  qed
qed

lemma lock_acquired: "lock_acquire fault path fs rounds = Some (Inr (), fs1) \<Longrightarrow> fs1 path = Some []"
proof (induction rounds arbitrary: fs)
  case Nil
  then show ?case by simp
next
  case (Cons r rounds)
  obtain late others where r: "r = (late, others)" by (cases r)
  show ?case
  proof (cases rule: fs_create_new_cases [of fault fs path])
    case (err e)
    with Cons r show ?thesis by (cases e) (auto split: if_splits)
  next
    case ok
    with r Cons.prems show ?thesis by auto
  qed
qed

lemma rsplit_slash:
  "path = (case rsplit_once (CHR ''/'') path of None \<Rightarrow> [] | Some (a, _) \<Rightarrow> a @ ''/'') @
     path_file_name path"
  by (auto simp: path_file_name_def rsplit_once_Some split: option.split)

lemma tmp_path_longer: "length path < length (tmp_path path nanos)"
proof -
  have "length path = length (path_file_name path) +
      (case rsplit_once (CHR ''/'') path of None \<Rightarrow> 0 | Some (a, _) \<Rightarrow> Suc (length a))"
    using arg_cong [OF rsplit_slash [of path], of length] by (auto split: option.splits)
  then show ?thesis
    by (auto simp: tmp_path_def path_join_def path_parent_def split: option.splits)
qed

lemma tmp_path_last: "last (tmp_path path nanos) = CHR ''p''"
  by (simp add: tmp_path_def path_join_def)

lemma lock_path_last: "last (lock_path path) = CHR ''k''"
  by (simp add: lock_path_def path_with_extension_def Let_def)

lemma name_split_ext_len: "length (fst (name_split_ext n)) \<le> length n"
  by (auto simp: name_split_ext_def rsplit_once_Some split: option.splits)

lemma name_split_ext_parts:
  "n = fst (name_split_ext n) @ (case snd (name_split_ext n) of None \<Rightarrow> [] | Some e \<Rightarrow> ''.'' @ e)"
  by (auto simp: name_split_ext_def rsplit_once_Some split: option.splits)

lemma lock_path_longer: "length path < length (lock_path path)"
proof -
  have "length (path_file_name path) \<le> length path"
    using arg_cong [OF rsplit_slash [of path], of length] by simp
  moreover have "length (path_file_name path) = length (fst (name_split_ext (path_file_name path))) +
      (case snd (name_split_ext (path_file_name path)) of None \<Rightarrow> 0 | Some e \<Rightarrow> Suc (length e))"
    using arg_cong [OF name_split_ext_parts [of "path_file_name path"], of length]
    by (auto split: option.splits)
  ultimately show ?thesis
    by (auto simp: lock_path_def path_with_extension_def Let_def split: option.splits)
qed

lemma paths_distinct:
  "tmp_path path nanos \<noteq> path" "path \<noteq> tmp_path path nanos"
  "lock_path path \<noteq> path" "path \<noteq> lock_path path"
  "lock_path path \<noteq> tmp_path path nanos" "tmp_path path nanos \<noteq> lock_path path"
  using tmp_path_longer [of path nanos] lock_path_longer [of path]
    tmp_path_last [of path nanos] lock_path_last [of path]
  by auto

lemma write_atomic_effect:
  assumes "write_atomic fault fs path nanos text = (r, fs')"
  shows "\<And>q. q \<noteq> path \<Longrightarrow> q \<noteq> tmp_path path nanos \<Longrightarrow> fs' q = fs q"
    and "r = Inl e \<Longrightarrow> fs' path = fs path"
    and "r = Inr () \<Longrightarrow> fs' path = Some text"
  using assms paths_distinct
  by (auto simp: write_atomic_def Let_def fs_create_new_def fs_write_all_def fs_rename_def
      fs_remove_def split: option.splits if_splits)

lemma update_store_effect:
  assumes "update_store parse print fault fs path nanos name dests = (r, fs')"
  shows "\<And>q. q \<noteq> path \<Longrightarrow> q \<noteq> tmp_path path nanos \<Longrightarrow> fs' q = fs q"
    and "r = Inl e \<Longrightarrow> fs' path = fs path"
    and "r = Inr () \<Longrightarrow> \<exists>store text. load_metadata parse fault fs path = Inr store \<and>
      print (store\<lparr>secrets := (secrets store)(name \<mapsto>
        \<lparr>md_name = name, md_allowed_destinations = dests\<rparr>)\<rparr>) = Inr text \<and>
      fs' path = Some (text @ [CHR 0x0A])"
  using assms by (auto simp: update_store_def split: sum.splits dest: write_atomic_effect)

lemma set_allowed_under_lock:
  assumes "is_valid_secret_name name" and "normalize_destinations dests = (Inr ds :: ('e, 'p) metadata_error + string list)"
    and "default_metadata_path env = Some path" and "\<And>d. fault (Op_Mkdir d) = None"
    and "lock_acquire fault (lock_path path) fs rounds =
      Some (Inr () :: ('e, 'p) metadata_error + unit, fs1)"
  shows "set_allowed_destinations parse print fault env nanos rounds fs name dests =
    (let (r, fs2) = update_store parse print fault fs1 path nanos name ds
     in Some (r :: ('e, 'p) metadata_error + unit, fs_remove fs2 (lock_path path)))"
proof -
  have "(case path_parent path of None \<Rightarrow> Inr () | Some d \<Rightarrow> fs_mkdir_all fault d) = Inr ()"
    using assms(4) by (simp add: fs_mkdir_all_def split: option.split)
  with assms show ?thesis by (simp add: set_allowed_destinations_def)
qed

section \<open>Properties\<close>

text \<open>
  Destination normalisation accepts a list only if every cleaned entry is a valid pattern;
  the result has no duplicates, contains exactly the cleaned non-empty entries, each of them
  non-empty, lower-case and valid, and normalising it again changes nothing.  A refusal names
  one of the given entries, cleaned, which is not a valid pattern.
\<close>

theorem normalize_destinations_correct:
  "(\<forall>ds. normalize_destinations vs = (Inr ds :: ('e, 'p) metadata_error + string list) \<longrightarrow>
      distinct ds \<and> set ds = {d \<in> clean_destination ` set vs. d \<noteq> []} \<and>
      (\<forall>d \<in> set ds. normal_destination d) \<and>
      normalize_destinations ds = (Inr ds :: ('e, 'p) metadata_error + string list)) \<and>
   (\<forall>e. normalize_destinations vs = (Inl e :: ('e, 'p) metadata_error + string list) \<longrightarrow>
      (\<exists>v \<in> set vs. e = InvalidDestination (clean_destination v) \<and>
        \<not> is_valid_destination_pattern (clean_destination v)))"
  by (auto dest: normalize_destinations_ok normalize_destinations_idem
      dest: normalize_loop_err [of "[]", folded normalize_destinations_def])

theorem normalize_destinations_correct_witness:
  "distinct [''api.x.com'', ''*.y.org''] \<and>
   normalize_destinations [''api.x.com'', ''*.y.org''] =
     (Inr [''api.x.com'', ''*.y.org''] :: (unit, unit) metadata_error + string list)"
proof -
  have "normalize_destinations ['' API.x.com/'', ''*.y.org'', ''api.x.com''] =
      (Inr [''api.x.com'', ''*.y.org''] :: (unit, unit) metadata_error + string list)"
    by code_simp
  with normalize_destinations_correct
    [where vs = "['' API.x.com/'', ''*.y.org'', ''api.x.com'']" and 'e = unit and 'p = unit]
  show ?thesis by blast
qed


definition example_store :: secret_metadata_store where
  "example_store = \<lparr>secrets = [''K'' \<mapsto> \<lparr>md_name = ''K'', md_allowed_destinations = [''a.b'']\<rparr>]\<rparr>"


end
