(* ===== verification/Substitution.thy ===== *)
theory Substitution
  imports Secret_Access
begin

text \<open>
  Secret references and placeholder tokens
  (\<open>crates/security-proxy/src/substitution.rs\<close>): the scanner \<open>find_refs\<close> and the renderer
  \<open>substitute\<close> for \<open>{{secret:NAME}}\<close>, the scanner and renderer for opaque \<open>cfg_\<close> tokens, and
  the per-agent registry \<open>PlaceholderMap\<close>.

  A loop over the rest of a string is a recursive function on that rest; the span scanner
  keeps the byte offset \<open>search_start\<close> of the source.  The messages of the errors are
  constructors with the values they print.
\<close>

section \<open>Data\<close>

definition PLACEHOLDER_PREFIX :: string where
  "PLACEHOLDER_PREFIX = ''cfg_''"

definition PLACEHOLDER_RANDOM_HEX_LEN :: nat where
  "PLACEHOLDER_RANDOM_HEX_LEN = 32"

definition REF_OPEN :: string where
  "REF_OPEN = ''{{secret:''"

datatype malformed = Unterminated | EmptySecretName | BadSecretName string

datatype substitution_error =
  Unresolvable string
| UnresolvablePlaceholder string
| Nested
| Malformed malformed

datatype name_message = Plain malformed | Rendered substitution_error

datatype placeholder_map_error =
  EmptyAgentId
| InvalidToken string
| InvalidSecretName name_message
| ConflictingToken string

datatype placeholder_resolution_error = UnknownToken string

definition validate_name :: "string \<Rightarrow> substitution_error + unit" where
  "validate_name name =
     (if name = [] then Inl (Malformed EmptySecretName)
      else if \<not> list_all (\<lambda>c. ascii_alnum c \<or> c = CHR ''_'' \<or> c = CHR ''-'') name
      then Inl (Malformed (BadSecretName name))
      else Inr ())"

definition is_placeholder_token_byte :: "char \<Rightarrow> bool" where
  "is_placeholder_token_byte c \<longleftrightarrow> ascii_alnum c \<or> c = CHR ''_'' \<or> c = CHR ''-''"

section \<open>Secret references\<close>

text \<open>The \<open>match\<close> on the first closing and the first opening braces after the prefix.\<close>

definition ref_close :: "string \<Rightarrow> substitution_error + nat" where
  "ref_close after_prefix =
     (case str_find ''}}'' after_prefix of
        Some c \<Rightarrow>
          (case str_find ''{{'' after_prefix of
             Some n \<Rightarrow> if n < c then Inl Nested else Inr c
           | None \<Rightarrow> Inr c)
      | None \<Rightarrow> Inl (Malformed Unterminated))"

function find_refs_loop :: "string set \<Rightarrow> string \<Rightarrow> substitution_error + string set" where
  "find_refs_loop names rest =
     (case str_find REF_OPEN rest of
        None \<Rightarrow> Inr names
      | Some start \<Rightarrow>
          let after_prefix = drop (start + 9) rest in
          (case ref_close after_prefix of
             Inl e \<Rightarrow> Inl e
           | Inr close \<Rightarrow>
               let name = take close after_prefix in
               (case validate_name name of
                  Inl e \<Rightarrow> Inl e
                | Inr _ \<Rightarrow> find_refs_loop (insert name names) (drop (close + 2) after_prefix))))"
  by pat_completeness auto
termination
  by (relation "measure (\<lambda>(names, rest). length rest)")
     (auto simp: REF_OPEN_def dest: str_find_split)

definition find_refs :: "string \<Rightarrow> substitution_error + string set" where
  "find_refs input = find_refs_loop {} input"

text \<open>The maps a caller may hand to \<open>substitute\<close> (trait \<open>RefMap\<close>).\<close>

definition slice_get :: "(string \<times> string) list \<Rightarrow> string \<Rightarrow> string option" where
  "slice_get kvs name = map_option snd (find (\<lambda>(k, v). k = name) kvs)"

function substitute_loop ::
  "(string \<Rightarrow> string option) \<Rightarrow> string \<Rightarrow> string \<Rightarrow> substitution_error + string" where
  "substitute_loop resolved out rest =
     (case str_find REF_OPEN rest of
        None \<Rightarrow> Inr (out @ rest)
      | Some start \<Rightarrow>
          let out1 = out @ take start rest;
              after_prefix = drop (start + 9) rest in
          (case ref_close after_prefix of
             Inl e \<Rightarrow> Inl e
           | Inr close \<Rightarrow>
               let name = take close after_prefix in
               (case validate_name name of
                  Inl e \<Rightarrow> Inl e
                | Inr _ \<Rightarrow>
                    (case resolved name of
                       None \<Rightarrow> Inl (Unresolvable name)
                     | Some value \<Rightarrow>
                         substitute_loop resolved (out1 @ value) (drop (close + 2) after_prefix)))))"
  by pat_completeness auto
termination
  by (relation "measure (\<lambda>(resolved, out, rest). length rest)")
     (auto simp: REF_OPEN_def dest: str_find_split)

definition substitute ::
  "string \<Rightarrow> (string \<Rightarrow> string option) \<Rightarrow> substitution_error + string" where
  "substitute input resolved =
     (if \<not> str_contains REF_OPEN input then Inr input
      else substitute_loop resolved [] input)"

section \<open>Placeholder tokens\<close>

definition placeholder_name_hint :: "string \<Rightarrow> string option" where
  "placeholder_name_hint token =
     (case strip_prefix PLACEHOLDER_PREFIX token of
        None \<Rightarrow> None
      | Some rest \<Rightarrow>
          (case rsplit_once (CHR ''_'') rest of
             None \<Rightarrow> None
           | Some (name, suff) \<Rightarrow>
               if length suff \<noteq> PLACEHOLDER_RANDOM_HEX_LEN \<or>
                  \<not> list_all ascii_hexdigit suff \<or> \<not> is_ok (validate_name name)
               then None else Some name))"

definition scan_end :: "string \<Rightarrow> nat \<Rightarrow> nat" where
  "scan_end bytes start = start + length (takeWhile is_placeholder_token_byte (drop start bytes))"

function spans_loop ::
  "string \<Rightarrow> (nat \<times> nat) list \<Rightarrow> nat \<Rightarrow> (nat \<times> nat) list" where
  "spans_loop input spans search_start =
     (case str_find PLACEHOLDER_PREFIX (drop search_start input) of
        None \<Rightarrow> spans
      | Some relative_start \<Rightarrow>
          let start = search_start + relative_start in
          if 0 < start \<and> is_placeholder_token_byte (input ! (start - 1))
          then spans_loop input spans (start + length PLACEHOLDER_PREFIX)
          else
            let stop = scan_end input start;
                token = take (stop - start) (drop start input) in
            spans_loop input
              (if placeholder_name_hint token \<noteq> None then spans @ [(start, stop)] else spans)
              (max stop (start + length PLACEHOLDER_PREFIX)))"
  by pat_completeness auto
termination
  by (relation "measure (\<lambda>(input, spans, search_start). length input - search_start)")
     (auto simp: PLACEHOLDER_PREFIX_def dest!: str_find_split)

definition placeholder_token_spans :: "string \<Rightarrow> (nat \<times> nat) list" where
  "placeholder_token_spans input = spans_loop input [] 0"

definition find_placeholder_tokens :: "string \<Rightarrow> string set" where
  "find_placeholder_tokens input =
     set (map (\<lambda>(start, stop). take (stop - start) (drop start input))
            (placeholder_token_spans input))"

fun subst_spans ::
  "(string \<Rightarrow> string option) \<Rightarrow> string \<Rightarrow> string \<Rightarrow> nat \<Rightarrow> (nat \<times> nat) list \<Rightarrow>
   substitution_error + string" where
  "subst_spans resolved input out cursor [] = Inr (out @ drop cursor input)"
| "subst_spans resolved input out cursor ((start, stop) # spans) =
     (let out1 = out @ take (start - cursor) (drop cursor input);
          token = take (stop - start) (drop start input) in
      case resolved token of
        None \<Rightarrow> Inl (UnresolvablePlaceholder token)
      | Some value \<Rightarrow> subst_spans resolved input (out1 @ value) stop spans)"

definition substitute_placeholders ::
  "string \<Rightarrow> (string \<Rightarrow> string option) \<Rightarrow> substitution_error + string" where
  "substitute_placeholders input resolved =
     (if placeholder_token_spans input = [] then Inr input
      else subst_spans resolved input [] 0 (placeholder_token_spans input))"

section \<open>The registry\<close>

record placeholder_map =
  by_agent :: "string \<rightharpoonup> (string \<rightharpoonup> string)"

definition empty_placeholder_map :: placeholder_map where
  "empty_placeholder_map = \<lparr>by_agent = Map.empty\<rparr>"

definition placeholder_secret_name_error :: "substitution_error \<Rightarrow> placeholder_map_error" where
  "placeholder_secret_name_error error =
     (case error of
        Malformed message \<Rightarrow> InvalidSecretName (Plain message)
      | other \<Rightarrow> InvalidSecretName (Rendered other))"

definition pm_insert ::
  "placeholder_map \<Rightarrow> string \<Rightarrow> string \<Rightarrow> string \<Rightarrow>
   (placeholder_map_error + unit) \<times> placeholder_map" where
  "pm_insert pm agent0 token secret_name =
     (let agent = trim agent0 in
      if agent = [] then (Inl EmptyAgentId, pm)
      else if placeholder_name_hint token = None then (Inl (InvalidToken token), pm)
      else (case validate_name secret_name of
        Inl error \<Rightarrow> (Inl (placeholder_secret_name_error error), pm)
      | Inr _ \<Rightarrow>
          (let agent_tokens = (case by_agent pm agent of Some m \<Rightarrow> m | None \<Rightarrow> Map.empty);
               pm1 = pm\<lparr>by_agent := (by_agent pm)(agent \<mapsto> agent_tokens)\<rparr> in
           case agent_tokens token of
             Some existing \<Rightarrow>
               if existing \<noteq> secret_name then (Inl (ConflictingToken token), pm1)
               else (Inr (), pm1)
           | None \<Rightarrow>
               (Inr (), pm\<lparr>by_agent :=
                  (by_agent pm)(agent \<mapsto> agent_tokens(token \<mapsto> secret_name))\<rparr>))))"

definition pm_resolve ::
  "placeholder_map \<Rightarrow> secret_access_identity \<Rightarrow> string \<Rightarrow> string option" where
  "pm_resolve pm identity token =
     (case agent_id identity of
        None \<Rightarrow> None
      | Some agent \<Rightarrow> (case by_agent pm agent of None \<Rightarrow> None | Some m \<Rightarrow> m token))"

definition pm_remove ::
  "placeholder_map \<Rightarrow> string \<Rightarrow> string \<Rightarrow> bool \<times> placeholder_map" where
  "pm_remove pm agent0 token =
     (case by_agent pm (trim agent0) of
        None \<Rightarrow> (False, pm)
      | Some m \<Rightarrow>
          (let m' = m(token := None) in
           (m token \<noteq> None,
            if m' = Map.empty then pm\<lparr>by_agent := (by_agent pm)(trim agent0 := None)\<rparr>
            else pm\<lparr>by_agent := (by_agent pm)(trim agent0 \<mapsto> m')\<rparr>)))"

definition pm_remove_agent :: "placeholder_map \<Rightarrow> string \<Rightarrow> bool \<times> placeholder_map" where
  "pm_remove_agent pm agent0 =
     (by_agent pm (trim agent0) \<noteq> None,
      pm\<lparr>by_agent := (by_agent pm)(trim agent0 := None)\<rparr>)"

text \<open>The iteration order of the token set is the order of the list.\<close>

fun pm_resolve_tokens ::
  "placeholder_map \<Rightarrow> secret_access_identity \<Rightarrow> string list \<Rightarrow>
   placeholder_resolution_error + (string \<rightharpoonup> string)" where
  "pm_resolve_tokens pm identity [] = Inr Map.empty"
| "pm_resolve_tokens pm identity (token # tokens) =
     (case pm_resolve pm identity token of
        None \<Rightarrow> Inl (UnknownToken token)
      | Some name \<Rightarrow>
          (case pm_resolve_tokens pm identity tokens of
             Inl e \<Rightarrow> Inl e
           | Inr m \<Rightarrow> Inr (m(token \<mapsto> name))))"

text \<open>\<open>uuid\<close> is the 32 hexadecimal digits of the random identifier.\<close>

definition generate_placeholder_token ::
  "string \<Rightarrow> string \<Rightarrow> placeholder_map_error + string" where
  "generate_placeholder_token uuid secret_name =
     (case validate_name secret_name of
        Inl error \<Rightarrow> Inl (placeholder_secret_name_error error)
      | Inr _ \<Rightarrow> Inr (PLACEHOLDER_PREFIX @ secret_name @ ''_'' @ uuid))"

declare find_refs_loop.simps [simp del] substitute_loop.simps [simp del] spans_loop.simps [simp del]

section \<open>References: the texts that parse\<close>

text \<open>
  A parsed text is a list of pairs (plain text, name of the reference after it) and a tail.
\<close>

definition ref_text :: "string \<times> string \<Rightarrow> string" where
  "ref_text s = fst s @ REF_OPEN @ snd s @ ''}}''"

definition unparse :: "(string \<times> string) list \<Rightarrow> string \<Rightarrow> string" where
  "unparse segs tail = concat (map ref_text segs) @ tail"

definition fill :: "(string \<Rightarrow> string option) \<Rightarrow> (string \<times> string) list \<Rightarrow> string \<Rightarrow> string" where
  "fill m segs tail = concat (map (\<lambda>(t, n). t @ the (m n)) segs) @ tail"

definition parsed :: "(string \<times> string) list \<Rightarrow> string \<Rightarrow> bool" where
  "parsed segs tail \<longleftrightarrow>
     (\<forall>(t, n) \<in> set segs. \<not> str_contains REF_OPEN t \<and> validate_name n = Inr ()) \<and>
     \<not> str_contains REF_OPEN tail"

lemma unparse_simps [simp]:
  "unparse [] tail = tail"
  "unparse ((t, n) # segs) tail = t @ REF_OPEN @ n @ ''}}'' @ unparse segs tail"
  by (simp_all add: unparse_def ref_text_def)

lemma fill_simps [simp]:
  "fill m [] tail = tail"
  "fill m ((t, n) # segs) tail = t @ the (m n) @ fill m segs tail"
  by (simp_all add: fill_def)

lemma parsed_simps [simp]:
  "parsed [] tail \<longleftrightarrow> \<not> str_contains REF_OPEN tail"
  "parsed ((t, n) # segs) tail \<longleftrightarrow>
     \<not> str_contains REF_OPEN t \<and> validate_name n = Inr () \<and> parsed segs tail"
  by (auto simp: parsed_def)

text \<open>The opening never overlaps itself, so its first occurrence is where a segment ends.\<close>

lemma REF_OPEN_nth:
  "length REF_OPEN = 9" "REF_OPEN ! 0 = CHR ''{''"
  "0 < j \<Longrightarrow> j < 9 \<Longrightarrow> REF_OPEN ! j = CHR ''{'' \<Longrightarrow> j = 1"
  "REF_OPEN ! 1 \<noteq> REF_OPEN ! 2"
proof -
  assume "0 < j" "j < 9" "REF_OPEN ! j = CHR ''{''"
  then show "j = 1" by (auto simp: REF_OPEN_def less_Suc_eq numeral_eq_Suc)
qed (simp_all add: REF_OPEN_def)

lemma str_find_open:
  assumes "\<not> str_contains REF_OPEN t"
  shows "str_find REF_OPEN (t @ REF_OPEN @ r) = Some (length t)"
proof (cases "str_find REF_OPEN (t @ REF_OPEN @ r)")
  case None
  then show ?thesis by (auto simp: str_find_None)
next
  case (Some i)
  have le: "i \<le> length t" using str_find_least [OF Some refl] .
  from str_find_split [OF Some] obtain a b
    where ab: "t @ REF_OPEN @ r = a @ REF_OPEN @ b" "length a = i"
    using le by (metis length_take min.absorb2 length_append trans_le_add1)
  have nth: "(t @ REF_OPEN @ r) ! (i + j) = REF_OPEN ! j" if "j < 9" for j
    using that ab by (simp add: nth_append REF_OPEN_nth)
  have "i = length t"
  proof (rule ccontr)
    assume "i \<noteq> length t"
    with le have lt: "i < length t" by simp
    show False
    proof (cases "i + 9 \<le> length t")
      case True
      from ab have "take (length t) (t @ REF_OPEN @ r) = take (length t) (a @ REF_OPEN @ b)" by simp
      then have "t = a @ REF_OPEN @ take (length t - (i + 9)) b"
        using True ab(2) by (simp add: REF_OPEN_nth)
      with assms show False by (auto simp: str_contains_iff)
    next
      case False
      define j where "j = length t - i"
      have j: "0 < j" "j < 9" "i + j = length t" using lt False by (auto simp: j_def)
      have "REF_OPEN ! j = CHR ''{''" using nth [OF j(2)] j(3) by (simp add: nth_append REF_OPEN_nth)
      then have "j = 1" using j REF_OPEN_nth(3) by blast
      with nth [of 2] j(3) have "REF_OPEN ! 2 = REF_OPEN ! 1"
        by (auto simp: nth_append REF_OPEN_nth)
      then show False using REF_OPEN_nth(4) by simp
    qed
  qed
  with Some show ?thesis by simp
qed

lemma str_find_take:
  assumes "str_find REF_OPEN rest = Some i"
  shows "rest = take i rest @ REF_OPEN @ drop (i + 9) rest" "\<not> str_contains REF_OPEN (take i rest)"
proof -
  from str_find_split [OF assms]
  show split: "rest = take i rest @ REF_OPEN @ drop (i + 9) rest" by (simp add: REF_OPEN_nth)
  show "\<not> str_contains REF_OPEN (take i rest)"
  proof
    assume "str_contains REF_OPEN (take i rest)"
    then obtain a b where ab: "take i rest = a @ REF_OPEN @ b" by (auto simp: str_contains_iff)
    then have "rest = a @ REF_OPEN @ (b @ drop i rest)"
      by (metis append.assoc append_take_drop_id)
    from str_find_least [OF assms this] have "i \<le> length a" .
    then show False using arg_cong [OF ab, of length] by (simp add: REF_OPEN_nth)
  qed
qed

lemma valid_name_bytes:
  "validate_name n = Inr () \<Longrightarrow> c \<in> set n \<Longrightarrow> c \<noteq> CHR ''{'' \<and> c \<noteq> CHR ''}''"
  by (auto simp: validate_name_def list_all_iff ascii_alnum_def ascii_upper_def ascii_lower_def
      ascii_digit_def less_eq_char_def split: if_splits)

lemma str_find_pair:
  assumes "c \<notin> set n" shows "str_find [c, c] (n @ [c, c] @ r) = Some (length n)"
  using assms by (induction n) auto

lemma ref_close_valid:
  assumes "validate_name n = Inr ()"
  shows "ref_close (n @ ''}}'' @ r) = Inr (length n)"
proof -
  have close: "str_find ''}}'' (n @ ''}}'' @ r) = Some (length n)"
    using str_find_pair [of "CHR ''}''" n r] valid_name_bytes [OF assms] by auto
  have "\<not> i < length n" if "str_find ''{{'' (n @ ''}}'' @ r) = Some i" for i
  proof
    assume i: "i < length n"
    have "(n @ ''}}'' @ r) ! i = CHR ''{''"
      by (subst conjunct1 [OF str_find_split [OF that]])
         (use i in \<open>simp add: nth_append\<close>)
    with i have "n ! i = CHR ''{''" by (simp add: nth_append)
    with valid_name_bytes [OF assms, of "n ! i"] nth_mem [OF i] show False by metis
  qed
  with close show ?thesis by (auto simp: ref_close_def split: option.split)
qed

lemma ref_close_Inr:
  "ref_close s = Inr c \<Longrightarrow> s = take c s @ ''}}'' @ drop (c + 2) s"
  by (auto simp: ref_close_def split: option.splits if_splits dest!: str_find_split)

lemma drop_past: "drop (Suc (Suc (length n))) (n @ c # d # r) = r"
  by (induction n) simp_all

lemma drop_open: "drop (length t + 9) (t @ REF_OPEN @ r) = r"
  by (simp add: REF_OPEN_nth)

text \<open>One round of either loop on a text that starts with a well-formed reference.\<close>

lemma find_refs_loop_ref:
  assumes "\<not> str_contains REF_OPEN t" and "validate_name n = Inr ()"
  shows "find_refs_loop names (t @ REF_OPEN @ n @ ''}}'' @ r) = find_refs_loop (insert n names) r"
  using ref_close_valid [OF assms(2), of r] assms(2) str_find_open [OF assms(1), of "n @ ''}}'' @ r"]
  by (subst find_refs_loop.simps) (simp add: Let_def drop_open drop_past del: drop_append)

lemma substitute_loop_ref:
  assumes "\<not> str_contains REF_OPEN t" and "validate_name n = Inr ()"
  shows "substitute_loop m out (t @ REF_OPEN @ n @ ''}}'' @ r) =
    (case m n of None \<Rightarrow> Inl (Unresolvable n) | Some v \<Rightarrow> substitute_loop m (out @ t @ v) r)"
  using ref_close_valid [OF assms(2), of r] assms(2) str_find_open [OF assms(1), of "n @ ''}}'' @ r"]
  by (subst substitute_loop.simps) (simp add: Let_def drop_open drop_past del: drop_append split: option.split)

lemma find_refs_loop_plain: "\<not> str_contains REF_OPEN t \<Longrightarrow> find_refs_loop names t = Inr names"
  by (subst find_refs_loop.simps) (simp add: not_contains_find)

lemma substitute_loop_plain: "\<not> str_contains REF_OPEN t \<Longrightarrow> substitute_loop m out t = Inr (out @ t)"
  by (subst substitute_loop.simps) (simp add: not_contains_find)

lemma find_refs_loop_unparse:
  "parsed segs tail \<Longrightarrow> find_refs_loop names (unparse segs tail) = Inr (names \<union> snd ` set segs)"
  by (induction segs arbitrary: names) (auto simp: find_refs_loop_ref [simplified] find_refs_loop_plain)

lemma substitute_loop_unparse:
  "parsed segs tail \<Longrightarrow>
   substitute_loop m out (unparse segs tail) =
     (case find (\<lambda>n. m n = None) (map snd segs) of
        None \<Rightarrow> Inr (out @ fill m segs tail)
      | Some n \<Rightarrow> Inl (Unresolvable n))"
  by (induction segs arbitrary: out)
     (auto simp: substitute_loop_ref [simplified] substitute_loop_plain split: option.split)

text \<open>Conversely, whatever the scanner accepts is such a text.\<close>

lemma find_refs_loop_cases:
  obtains (plain) "\<not> str_contains REF_OPEN rest" "find_refs_loop names rest = Inr names"
      "substitute_loop m out rest = Inr (out @ rest)"
  | (bad) e where "find_refs_loop names rest = Inl e" "substitute_loop m out rest = Inl e"
  | (ref) t n r where "\<not> str_contains REF_OPEN t" "validate_name n = Inr ()"
      "rest = t @ REF_OPEN @ n @ ''}}'' @ r" "length r < length rest"
proof (cases "str_find REF_OPEN rest")
  case None
  then show thesis
    by (intro plain find_refs_loop_plain substitute_loop_plain) (simp_all add: not_contains_find)
next
  case (Some start)
  let ?ap = "drop (start + 9) rest"
  note take = str_find_take [OF Some]
  show thesis
  proof (cases "ref_close ?ap")
    case (Inl e)
    then show thesis using Some
      by (intro bad [of e]) (subst find_refs_loop.simps substitute_loop.simps, simp add: Let_def)+
  next
    case (Inr c)
    show thesis
    proof (cases "validate_name (take c ?ap)")
      case (Inl e)
      then show thesis using Some Inr
        by (intro bad [of e]) (subst find_refs_loop.simps substitute_loop.simps, simp add: Let_def)+
    next
      case valid: (Inr u)
      note close = ref_close_Inr [OF Inr]
      show thesis
      proof (rule ref)
        show "\<not> str_contains REF_OPEN (take start rest)" by (rule take(2))
        show "validate_name (take c ?ap) = Inr ()" using valid by simp
        show "rest = take start rest @ REF_OPEN @ take c ?ap @ ''}}'' @ drop (c + 2) ?ap"
          using take(1) close by metis
        have "length rest > 0" using Some by (cases rest) (auto simp: REF_OPEN_def)
        then show "length (drop (c + 2) ?ap) < length rest" by simp
      qed
    qed
  qed
qed

lemma find_refs_loop_parsed:
  "find_refs_loop names rest = Inr names' \<Longrightarrow>
   \<exists>segs tail. parsed segs tail \<and> rest = unparse segs tail \<and> names' = names \<union> snd ` set segs"
proof (induction rest arbitrary: names rule: length_induct)
  case (1 rest)
  show ?case
  proof (cases rule: find_refs_loop_cases [of rest names Map.empty "[]"])
    case plain
    with 1(2) show ?thesis by (intro exI [of _ "[]"] exI [of _ rest]) auto
  next
    case (bad e)
    with 1(2) show ?thesis by simp
  next
    case (ref t n r)
    with 1(2) have "find_refs_loop (insert n names) r = Inr names'"
      using find_refs_loop_ref [OF ref(1,2)] by metis
    with 1(1) ref(4) obtain segs tail
      where "parsed segs tail" "r = unparse segs tail" "names' = insert n names \<union> snd ` set segs"
      by blast
    with ref show ?thesis by (intro exI [of _ "(t, n) # segs"] exI [of _ tail]) auto
  qed
qed

lemma substitute_loop_refuses:
  "find_refs_loop names rest = Inl e \<Longrightarrow>
   substitute_loop m out rest = Inl e \<or>
   (\<exists>n. m n = None \<and> substitute_loop m out rest = Inl (Unresolvable n))"
proof (induction rest arbitrary: names out rule: length_induct)
  case (1 rest)
  show ?case
  proof (cases rule: find_refs_loop_cases [of rest names m out])
    case plain
    with 1(2) show ?thesis by simp
  next
    case (bad e')
    with 1(2) show ?thesis by simp
  next
    case (ref t n r)
    with 1(2) have err: "find_refs_loop (insert n names) r = Inl e"
      using find_refs_loop_ref [OF ref(1,2)] by metis
    show ?thesis
    proof (cases "m n")
      case None
      then show ?thesis using substitute_loop_ref [OF ref(1,2)] ref(3) by simp
    next
      case (Some v)
      then have "substitute_loop m out rest = substitute_loop m (out @ t @ v) r"
        using substitute_loop_ref [OF ref(1,2)] ref(3) by simp
      with 1(1) ref(4) err show ?thesis by metis
    qed
  qed
qed

lemma substitute_loop_eq: "substitute input m = substitute_loop m [] input"
  by (simp add: substitute_def substitute_loop_plain)

lemma find_refs_parsed:
  assumes "find_refs input = Inr names"
  obtains segs tail where "parsed segs tail" "input = unparse segs tail" "names = snd ` set segs"
  using find_refs_loop_parsed [OF assms [unfolded find_refs_def]] by auto

lemma find_refs_unparse: "parsed segs tail \<Longrightarrow> find_refs (unparse segs tail) = Inr (snd ` set segs)"
  by (simp add: find_refs_def find_refs_loop_unparse)

lemma substitute_unparse:
  "parsed segs tail \<Longrightarrow>
   substitute (unparse segs tail) m =
     (case find (\<lambda>n. m n = None) (map snd segs) of
        None \<Rightarrow> Inr (fill m segs tail)
      | Some n \<Rightarrow> Inl (Unresolvable n))"
  by (simp add: substitute_loop_eq substitute_loop_unparse split: option.split)

section \<open>Placeholder tokens: maximal runs of token bytes\<close>

abbreviation tok :: "char \<Rightarrow> bool" where
  "tok \<equiv> is_placeholder_token_byte"

text \<open>The text cut into its maximal runs of token bytes and the single bytes between them.\<close>

function token_runs :: "string \<Rightarrow> string list" where
  "token_runs [] = []"
| "token_runs (c # s) =
     (if tok c then takeWhile tok (c # s) # token_runs (dropWhile tok s)
      else [c] # token_runs s)"
  by pat_completeness auto
termination
  by (relation "measure length") (auto intro: le_imp_less_Suc length_dropWhile_le)

text \<open>The spans of the runs that have the shape of a token, and the text with them replaced.\<close>

fun run_spans :: "nat \<Rightarrow> string list \<Rightarrow> (nat \<times> nat) list" where
  "run_spans off [] = []"
| "run_spans off (p # ps) =
     (if placeholder_name_hint p \<noteq> None then [(off, off + length p)] else []) @
     run_spans (off + length p) ps"

definition fill_run :: "(string \<Rightarrow> string option) \<Rightarrow> string \<Rightarrow> string" where
  "fill_run m p = (if placeholder_name_hint p \<noteq> None then the (m p) else p)"

text \<open>The start positions of token runs, over byte positions.\<close>

definition run_at :: "string \<Rightarrow> nat \<Rightarrow> string" where
  "run_at input s = takeWhile tok (drop s input)"

definition token_start :: "string \<Rightarrow> nat \<Rightarrow> bool" where
  "token_start input s \<longleftrightarrow>
     (s = 0 \<or> \<not> tok (input ! (s - 1))) \<and> placeholder_name_hint (run_at input s) \<noteq> None"

definition token_span :: "string \<Rightarrow> nat \<Rightarrow> nat \<times> nat" where
  "token_span input s = (s, s + length (run_at input s))"

lemma scan_token: "take (scan_end input s - s) (drop s input) = run_at input s"
  unfolding scan_end_def run_at_def by (simp add: takeWhile_eq_take [symmetric])

lemma hint_prefix: "placeholder_name_hint t \<noteq> None \<Longrightarrow> prefix PLACEHOLDER_PREFIX t"
  by (auto simp: placeholder_name_hint_def strip_prefix_def split: if_splits)

lemma token_start_prefix: "token_start input s \<Longrightarrow> prefix PLACEHOLDER_PREFIX (drop s input)"
proof -
  assume "token_start input s"
  then have "prefix PLACEHOLDER_PREFIX (run_at input s)"
    by (simp add: token_start_def hint_prefix)
  moreover have "prefix (run_at input s) (drop s input)"
    unfolding run_at_def by (rule takeWhile_is_prefix)
  ultimately show ?thesis by (rule prefix_order.trans)
qed

lemma token_start_find:
  assumes "token_start input s" "k \<le> s"
  obtains r where "str_find PLACEHOLDER_PREFIX (drop k input) = Some r" "k + r \<le> s"
proof -
  obtain rest where "drop s input = PLACEHOLDER_PREFIX @ rest"
    using token_start_prefix [OF assms(1)] by (auto simp: prefix_def)
  then have split: "drop k input = take (s - k) (drop k input) @ PLACEHOLDER_PREFIX @ rest"
    using assms(2) by (metis append_take_drop_id drop_drop le_add_diff_inverse2)
  then obtain r where r: "str_find PLACEHOLDER_PREFIX (drop k input) = Some r"
    using str_find_None by fastforce
  from str_find_least [OF r split] have "r \<le> s - k" by simp
  with r assms(2) that show thesis by simp
qed

text \<open>The prefix does not overlap itself.\<close>

lemma prefix_nth:
  "prefix PLACEHOLDER_PREFIX (drop s input) \<longleftrightarrow>
   s + 4 \<le> length input \<and> input ! s = CHR ''c'' \<and> input ! (s + 1) = CHR ''f'' \<and>
   input ! (s + 2) = CHR ''g'' \<and> input ! (s + 3) = CHR ''_''"
proof -
  have "prefix PLACEHOLDER_PREFIX t \<longleftrightarrow> 4 \<le> length t \<and> t ! 0 = CHR ''c'' \<and> t ! 1 = CHR ''f'' \<and>
      t ! 2 = CHR ''g'' \<and> t ! 3 = CHR ''_''" for t
    by (cases t; cases "tl t"; cases "tl (tl t)"; cases "tl (tl (tl t))")
       (auto simp: PLACEHOLDER_PREFIX_def numeral_eq_Suc)
  from this [of "drop s input"] show ?thesis by auto
qed

lemma prefix_apart:
  assumes "prefix PLACEHOLDER_PREFIX (drop s input)" "prefix PLACEHOLDER_PREFIX (drop u input)" "s < u"
  shows "s + 4 \<le> u"
proof (rule ccontr)
  assume "\<not> s + 4 \<le> u"
  with assms(3) have "u = s + 1 \<or> u = s + 2 \<or> u = s + 3" by linarith
  with assms(1,2) show False by (auto simp: prefix_nth)
qed

lemma filter_upt_skip:
  assumes "k \<le> m" "\<And>s. k \<le> s \<Longrightarrow> s < m \<Longrightarrow> \<not> P s"
  shows "filter P [k..<n] = filter P [m..<n]"
proof (cases "m \<le> n")
  case True
  then have "[k..<n] = [k..<m] @ [m..<n]"
    using assms(1) by (metis le_add_diff_inverse upt_add_eq_append)
  moreover have "filter P [k..<m] = []" using assms(2) by (simp add: filter_empty_conv)
  ultimately show ?thesis by simp
next
  case False
  then have "filter P [k..<n] = []" using assms(2) by (auto simp: filter_empty_conv)
  with False show ?thesis by simp
qed

lemma filter_upt_first:
  assumes "k < n" "k < m" "\<And>s. k < s \<Longrightarrow> s < m \<Longrightarrow> \<not> P s"
  shows "filter P [k..<n] = (if P k then [k] else []) @ filter P [m..<n]"
  using filter_upt_skip [of "Suc k" m P n] assms by (auto simp: upt_conv_Cons)

lemma in_run_not_start:
  assumes "u < s" "s < u + length (run_at input u)"
  shows "\<not> token_start input s"
proof -
  have "s - 1 - u < length (takeWhile tok (drop u input))" using assms by (simp add: run_at_def)
  then have "tok (takeWhile tok (drop u input) ! (s - 1 - u))"
    "takeWhile tok (drop u input) ! (s - 1 - u) = drop u input ! (s - 1 - u)"
    using nth_mem set_takeWhileD by (fastforce intro: takeWhile_nth)+
  moreover have "u \<le> length input"
    using assms by (metis drop_all le_cases less_nat_zero_code list.size(3) add_0_right
        run_at_def takeWhile.simps(1) order_less_asym)
  ultimately have "tok (input ! (s - 1))" using assms by simp
  with assms(1) show ?thesis by (simp add: token_start_def)
qed

lemma spans_loop_starts:
  "spans_loop input acc k =
   acc @ map (token_span input) (filter (token_start input) [k..<length input])"
proof (induction input acc k rule: spans_loop.induct)
  case (1 input acc k)
  show ?case
  proof (cases "str_find PLACEHOLDER_PREFIX (drop k input)")
    case None
    then have "filter (token_start input) [k..<length input] = []"
      by (auto simp: filter_empty_conv elim: token_start_find)
    with None show ?thesis by (subst spans_loop.simps) simp
  next
    case (Some r)
    define start where "start = k + r"
    have pre: "prefix PLACEHOLDER_PREFIX (drop start input)"
      using str_find_split [OF Some]
      by (metis add.commute append_eq_conv_conj append_take_drop_id drop_drop prefixI start_def
          same_append_eq)
    then have n: "start + 4 \<le> length input" by (simp add: prefix_nth)
    have "\<not> token_start input s" if "k \<le> s" "s < start" for s
      using that Some token_start_find [of input s k] by (fastforce simp: start_def)
    then have skip: "filter (token_start input) [k..<length input] =
        filter (token_start input) [start..<length input]"
      by (intro filter_upt_skip) (simp_all add: start_def)
    have apart: "\<not> token_start input s" if "start < s" "s < start + 4" for s
      using prefix_apart [OF pre token_start_prefix that(1)] that(2) by auto
    have four: "length PLACEHOLDER_PREFIX = 4" by (simp add: PLACEHOLDER_PREFIX_def)
    show ?thesis
    proof (cases "0 < start \<and> tok (input ! (start - 1))")
      case True
      then have "spans_loop input acc k = spans_loop input acc (start + 4)"
        using Some four by (subst spans_loop.simps) (simp add: start_def)
      moreover have "\<not> token_start input start" using True by (simp add: token_start_def)
      moreover have "filter (token_start input) [start..<length input] =
          filter (token_start input) [start + 4..<length input]"
        using calculation(2) apart by (intro filter_upt_skip) (auto simp: le_less)
      ultimately show ?thesis
        using 1(1) [OF Some start_def True] skip four by simp
    next
      case False
      define stop where "stop = scan_end input start"
      have token: "take (stop - start) (drop start input) = run_at input start"
        unfolding stop_def by (rule scan_token)
      have span: "token_span input start = (start, stop)"
        by (simp add: token_span_def stop_def scan_end_def run_at_def)
      have st: "token_start input start \<longleftrightarrow> placeholder_name_hint (run_at input start) \<noteq> None"
        using False by (auto simp: token_start_def)
      have "filter (token_start input) [start..<length input] =
          (if token_start input start then [start] else []) @
          filter (token_start input) [max stop (start + 4)..<length input]"
        using n apart in_run_not_start [of start _ input]
        by (intro filter_upt_first) (auto simp: stop_def scan_end_def run_at_def less_max_iff_disj)
      moreover have "spans_loop input acc k =
          spans_loop input (if token_start input start then acc @ [(start, stop)] else acc)
            (max stop (start + 4))"
        using Some four False token st
        by (subst spans_loop.simps) (auto simp: start_def stop_def Let_def)
      ultimately show ?thesis
        using 1(2) [OF Some start_def False stop_def refl] skip span st four token by auto
    qed
  qed
qed

lemma concat_token_runs: "concat (token_runs s) = s"
  by (induction s rule: token_runs.induct) auto

lemma no_hint_byte: "placeholder_name_hint [c] = None" "placeholder_name_hint [] = None"
  by (auto simp: placeholder_name_hint_def strip_prefix_def PLACEHOLDER_PREFIX_def)

lemma token_starts_runs:
  "input = pre @ s \<Longrightarrow> pre = [] \<or> s = [] \<or> \<not> tok (last pre) \<or> \<not> tok (hd s) \<Longrightarrow>
   map (token_span input) (filter (token_start input) [length pre..<length input]) =
     run_spans (length pre) (token_runs s)"
proof (induction s arbitrary: pre rule: token_runs.induct)
  case 1
  then show ?case by simp
next
  case (2 c s)
  note input = 2(3)
  have lt: "length pre < length input" using input by simp
  have prev: "pre \<noteq> [] \<Longrightarrow> input ! (length pre - 1) = last pre"
    using input by (simp add: nth_append last_conv_nth)
  have run: "run_at input (length pre) = takeWhile tok (c # s)" using input by (simp add: run_at_def)
  show ?case
  proof (cases "tok c")
    case True
    define run where "run = takeWhile tok (c # s)"
    have len: "0 < length run" using True by (simp add: run_def)
    have rest: "input = (pre @ run) @ dropWhile tok s" using input True by (simp add: run_def)
    have "dropWhile tok s = [] \<or> \<not> tok (hd (dropWhile tok s))"
      using hd_dropWhile by blast
    with 2(1) [OF True rest] have IH: "map (token_span input)
        (filter (token_start input) [length (pre @ run)..<length input]) =
        run_spans (length (pre @ run)) (token_runs (dropWhile tok s))" by blast
    have "token_start input (length pre) \<longleftrightarrow> placeholder_name_hint run \<noteq> None"
      using 2(4) True prev by (auto simp: token_start_def run run_def)
    moreover have "filter (token_start input) [length pre..<length input] =
        (if token_start input (length pre) then [length pre] else []) @
        filter (token_start input) [length (pre @ run)..<length input]"
      using in_run_not_start [of "length pre" _ input] lt len
      by (intro filter_upt_first) (auto simp: run run_def)
    moreover have "token_span input (length pre) = (length pre, length pre + length run)"
      by (simp add: token_span_def run run_def)
    moreover have "token_runs (c # s) = run # token_runs (dropWhile tok s)"
      using True by (simp add: run_def)
    ultimately show ?thesis using IH by auto
  next
    case False
    have "\<not> token_start input (length pre)"
      using False by (simp add: token_start_def run no_hint_byte)
    then have "filter (token_start input) [length pre..<length input] =
        filter (token_start input) [length (pre @ [c])..<length input]"
      using filter_upt_first [OF lt, of "length (pre @ [c])" "token_start input"] by simp
    moreover have "map (token_span input)
        (filter (token_start input) [length (pre @ [c])..<length input]) =
        run_spans (length (pre @ [c])) (token_runs s)"
      using False input by (intro 2(2)) auto
    ultimately show ?thesis using False by (simp add: no_hint_byte)
  qed
qed

lemma placeholder_token_spans_runs:
  "placeholder_token_spans input = run_spans 0 (token_runs input)"
  using token_starts_runs [of input "[]" input] spans_loop_starts [of input "[]" 0]
  by (simp add: placeholder_token_spans_def)

lemma run_spans_tokens:
  "map (\<lambda>(a, b). take (b - a) (drop a (pre @ concat ps))) (run_spans (length pre) ps) =
   filter (\<lambda>p. placeholder_name_hint p \<noteq> None) ps"
proof (induction ps arbitrary: pre)
  case Nil
  then show ?case by simp
next
  case (Cons p ps)
  from Cons [of "pre @ p"] show ?case by simp
qed

lemma find_placeholder_tokens_runs:
  "find_placeholder_tokens input = {p \<in> set (token_runs input). placeholder_name_hint p \<noteq> None}"
  using run_spans_tokens [of "[]" "token_runs input"]
  by (simp add: find_placeholder_tokens_def placeholder_token_spans_runs concat_token_runs
      del: set_map)

lemma subst_spans_runs:
  "input = pre @ mid @ concat ps \<Longrightarrow>
   subst_spans m input out (length pre) (run_spans (length pre + length mid) ps) =
     (case find (\<lambda>p. placeholder_name_hint p \<noteq> None \<and> m p = None) ps of
        None \<Rightarrow> Inr (out @ mid @ concat (map (fill_run m) ps))
      | Some p \<Rightarrow> Inl (UnresolvablePlaceholder p))"
proof (induction ps arbitrary: pre mid out)
  case Nil
  then show ?case by simp
next
  case (Cons p ps)
  have a: "input = pre @ (mid @ p) @ concat ps" and b: "input = (pre @ mid @ p) @ [] @ concat ps"
    using Cons.prems by simp_all
  show ?case
  proof (cases "placeholder_name_hint p \<noteq> None")
    case True
    have "take (length p) (drop (length pre + length mid) input) = p"
      "take (length mid) (drop (length pre) input) = mid"
      using Cons.prems by simp_all
    moreover have "m p = Some v \<Longrightarrow> fill_run m p = v" for v using True by (simp add: fill_run_def)
    ultimately show ?thesis using True Cons.IH [OF b]
      by (simp add: Let_def add.assoc split: option.split)
  next
    case False
    then have "fill_run m p = p" by (simp add: fill_run_def)
    with False Cons.IH [OF a] show ?thesis by (simp add: add.assoc split: option.split)
  qed
qed

lemma substitute_placeholders_runs:
  "substitute_placeholders input m =
     (case find (\<lambda>p. placeholder_name_hint p \<noteq> None \<and> m p = None) (token_runs input) of
        None \<Rightarrow> Inr (concat (map (fill_run m) (token_runs input)))
      | Some p \<Rightarrow> Inl (UnresolvablePlaceholder p))"
proof -
  have "substitute_placeholders input m = subst_spans m input [] 0 (run_spans 0 (token_runs input))"
    by (simp add: substitute_placeholders_def placeholder_token_spans_runs)
  with subst_spans_runs [of input "[]" "[]" "token_runs input" m "[]"] show ?thesis
    by (simp add: concat_token_runs split: option.split)
qed

section \<open>The registry as a keyed store\<close>

datatype pm_op = PM_Insert string string string | PM_Remove string string | PM_RemoveAgent string

fun pm_step :: "placeholder_map \<Rightarrow> pm_op \<Rightarrow> placeholder_map" where
  "pm_step pm (PM_Insert agent token name) = snd (pm_insert pm agent token name)"
| "pm_step pm (PM_Remove agent token) = snd (pm_remove pm agent token)"
| "pm_step pm (PM_RemoveAgent agent) = snd (pm_remove_agent pm agent)"

definition pm_look :: "placeholder_map \<Rightarrow> string \<times> string \<Rightarrow> string option" where
  "pm_look pm k = (case by_agent pm (fst k) of None \<Rightarrow> None | Some m \<Rightarrow> m (snd k))"

fun pm_touches :: "pm_op \<Rightarrow> string \<times> string \<Rightarrow> bool" where
  "pm_touches (PM_Insert agent token name) k = (k = (trim agent, token))"
| "pm_touches (PM_Remove agent token) k = (k = (trim agent, token))"
| "pm_touches (PM_RemoveAgent agent) k = (fst k = trim agent)"

fun pm_writes :: "pm_op \<Rightarrow> string \<times> string \<Rightarrow> string \<Rightarrow> bool" where
  "pm_writes (PM_Insert agent token name) k v =
     (k = (trim agent, token) \<and> v = name \<and> trim agent \<noteq> [] \<and>
      placeholder_name_hint token \<noteq> None \<and> validate_name name = Inr ())"
| "pm_writes _ k v = False"

lemma pm_insert_look:
  "pm_look (snd (pm_insert pm agent token name)) k =
     (if k = (trim agent, token) \<and> trim agent \<noteq> [] \<and> placeholder_name_hint token \<noteq> None \<and>
         validate_name name = Inr () \<and> pm_look pm k = None
      then Some name else pm_look pm k)"
  by (cases k) (auto simp: pm_insert_def pm_look_def Let_def split: option.split sum.split)

lemma pm_insert_result:
  "fst (pm_insert pm agent token name) = Inr () \<longleftrightarrow>
     trim agent \<noteq> [] \<and> placeholder_name_hint token \<noteq> None \<and> validate_name name = Inr () \<and>
     (case pm_look pm (trim agent, token) of None \<Rightarrow> True | Some n \<Rightarrow> n = name)"
  by (auto simp: pm_insert_def pm_look_def Let_def split: option.split sum.split)

lemma pm_remove_look:
  "pm_look (snd (pm_remove pm agent token)) k =
     (if k = (trim agent, token) then None else pm_look pm k)"
proof (cases "by_agent pm (trim agent)")
  case None
  then show ?thesis by (auto simp: pm_remove_def pm_look_def)
next
  case (Some m)
  have "m t = None" if "m(token := None) = Map.empty" "t \<noteq> token" for t
    using fun_cong [OF that(1), of t] that(2) by simp
  with Some show ?thesis by (cases k) (auto simp: pm_remove_def pm_look_def Let_def)
qed

lemma pm_remove_agent_look:
  "pm_look (snd (pm_remove_agent pm agent)) k =
     (if fst k = trim agent then None else pm_look pm k)"
  by (auto simp: pm_remove_agent_def pm_look_def)

lemmas pm_look_steps = pm_insert_look pm_remove_look pm_remove_agent_look

interpretation placeholder_store: keyed_store pm_step pm_look pm_touches pm_writes
proof
  fix x k s assume "\<not> pm_touches x k"
  then show "pm_look (pm_step s x) k = pm_look s k" by (cases x) (auto simp: pm_look_steps)
next
  fix s x k v assume "pm_look (pm_step s x) k = Some v"
  then show "pm_look s k = Some v \<or> pm_writes x k v"
    by (cases x) (auto simp: pm_look_steps split: if_splits)
qed

lemma pm_resolve_look:
  "pm_resolve pm i token =
     (case agent_id i of None \<Rightarrow> None | Some agent \<Rightarrow> pm_look pm (agent, token))"
  by (auto simp: pm_resolve_def pm_look_def split: option.split)

lemma pm_look_empty [simp]: "pm_look empty_placeholder_map k = None"
  by (simp add: pm_look_def empty_placeholder_map_def)

lemma pm_resolve_tokens_total:
  "\<forall>t \<in> set tokens. pm_resolve pm i t \<noteq> None \<Longrightarrow>
   pm_resolve_tokens pm i tokens = Inr (\<lambda>t. if t \<in> set tokens then pm_resolve pm i t else None)"
  by (induction tokens) (auto simp: fun_eq_iff)

lemma pm_resolve_tokens_some: "pm_resolve_tokens pm i tokens = Inr m \<Longrightarrow>
    \<forall>t \<in> set tokens. pm_resolve pm i t \<noteq> None"
  by (induction tokens arbitrary: m) (auto split: option.splits sum.splits)

lemma pm_resolve_tokens_Inr:
  "pm_resolve_tokens pm i tokens = Inr m \<longleftrightarrow>
     (\<forall>t \<in> set tokens. pm_resolve pm i t \<noteq> None) \<and>
     m = (\<lambda>t. if t \<in> set tokens then pm_resolve pm i t else None)"
  using pm_resolve_tokens_total pm_resolve_tokens_some by fastforce

lemma pm_resolve_tokens_Inl:
  "pm_resolve_tokens pm i tokens = Inl e \<Longrightarrow>
     \<exists>t \<in> set tokens. e = UnknownToken t \<and> pm_resolve pm i t = None"
  by (induction tokens) (auto split: option.splits sum.splits)

text \<open>A binding, once made, is only undone by a removal: inserting again never changes it.\<close>

fun pm_unbinds :: "pm_op \<Rightarrow> string \<times> string \<Rightarrow> bool" where
  "pm_unbinds (PM_Insert agent token name) k = False"
| "pm_unbinds op k = pm_touches op k"

lemma pm_step_keeps: "pm_look pm k = Some v \<Longrightarrow> \<not> pm_unbinds x k \<Longrightarrow> pm_look (pm_step pm x) k = Some v"
  by (cases x) (auto simp: pm_look_steps)

lemma pm_run_keeps:
  "pm_look pm k = Some v \<Longrightarrow> (\<And>x. x \<in> set xs \<Longrightarrow> \<not> pm_unbinds x k) \<Longrightarrow>
   pm_look (run_ops pm_step pm xs) k = Some v"
  by (induction xs arbitrary: pm) (simp_all add: pm_step_keeps)

section \<open>Generated tokens\<close>

lemma validate_name_ok: "validate_name n = Inr () \<longleftrightarrow> is_valid_secret_name n"
  by (auto simp: validate_name_def is_valid_secret_name_def secret_name_byte_def list_all_iff)

lemma validate_name_tok: "validate_name n = Inr () \<Longrightarrow> list_all tok n"
  by (auto simp: validate_name_def is_placeholder_token_byte_def list_all_iff split: if_splits)

lemma hexdigit_tok: "ascii_hexdigit c \<Longrightarrow> tok c \<and> c \<noteq> CHR ''_''"
  by (auto simp: ascii_hexdigit_def is_placeholder_token_byte_def ascii_alnum_def ascii_upper_def
      ascii_lower_def ascii_digit_def less_eq_char_def)

definition is_uuid :: "string \<Rightarrow> bool" where
  "is_uuid u \<longleftrightarrow> length u = 32 \<and> list_all ascii_hexdigit u"

lemma hint_generated:
  assumes "is_uuid u" "validate_name n = Inr ()"
  shows "placeholder_name_hint (PLACEHOLDER_PREFIX @ n @ ''_'' @ u) = Some n"
proof -
  have "rsplit_once (CHR ''_'') (n @ ''_'' @ u) = Some (n, u)"
    using assms(1) hexdigit_tok by (auto simp: rsplit_once_Some is_uuid_def list_all_iff)
  moreover have "strip_prefix PLACEHOLDER_PREFIX (PLACEHOLDER_PREFIX @ n @ ''_'' @ u) = Some (n @ ''_'' @ u)"
    by (simp add: strip_prefix_Some)
  ultimately show ?thesis
    using assms by (simp add: placeholder_name_hint_def is_uuid_def PLACEHOLDER_RANDOM_HEX_LEN_def)
qed

lemma tok_generated:
  assumes "is_uuid u" "validate_name n = Inr ()"
  shows "list_all tok (PLACEHOLDER_PREFIX @ n @ ''_'' @ u)"
proof -
  have "list_all tok PLACEHOLDER_PREFIX" "tok (CHR ''_'')"
    by (simp_all add: PLACEHOLDER_PREFIX_def is_placeholder_token_byte_def ascii_alnum_def
        ascii_lower_def less_eq_char_def)
  moreover have "list_all tok u" using assms(1) hexdigit_tok by (auto simp: is_uuid_def list_all_iff)
  ultimately show ?thesis using validate_name_tok [OF assms(2)] by simp
qed

lemma takeWhile_dropWhile_tok:
  assumes "list_all P t" "case r of [] \<Rightarrow> True | c # _ \<Rightarrow> \<not> P c"
  shows "takeWhile P (t @ r) = t" "dropWhile P (t @ r) = r"
  using assms by (induction t) (auto split: list.splits)

lemma token_runs_append:
  assumes "list_all tok t" "t \<noteq> []" "case r of [] \<Rightarrow> True | c # _ \<Rightarrow> \<not> tok c"
  shows "token_runs (t @ r) = t # token_runs r"
proof -
  obtain c s where t: "t = c # s" using assms(2) by (cases t) auto
  with assms(1,3) takeWhile_dropWhile_tok [of tok s r] show ?thesis by simp
qed

lemma token_runs_all: "list_all tok t \<Longrightarrow> t \<noteq> [] \<Longrightarrow> token_runs t = [t]"
  using token_runs_append [of t "[]"] by simp

lemma token_runs_split:
  "a = [] \<or> \<not> tok (last a) \<Longrightarrow> token_runs (a @ x) = token_runs a @ token_runs x"
proof (induction a rule: token_runs.induct)
  case 1
  then show ?case by simp
next
  case (2 c s)
  show ?case
  proof (cases "tok c")
    case True
    have "\<not> list_all tok s" using 2(3) True last_in_set [of s]
      by (auto simp: list_all_iff split: if_splits)
    then obtain d where d: "d \<in> set s" "\<not> tok d" by (auto simp: list_all_iff)
    then have "dropWhile tok s \<noteq> []" by auto
    moreover from this have "last (dropWhile tok s) = last s"
      by (metis last_append takeWhile_dropWhile_id)
    moreover have "last (c # s) = last s" using d by auto
    ultimately show ?thesis using 2 True d
      by (simp add: takeWhile_append1 dropWhile_append1)
  next
    case False
    then show ?thesis using 2 by (cases "s = []") auto
  qed
qed

section \<open>Properties\<close>


text \<open>
  The token that discovery hands out for a secret name is read back as exactly this name
  wherever it is placed after plain text, and substitution puts the value in its place and
  leaves the plain text alone.
\<close>

theorem reference_token_roundtrip:
  assumes "secret_reference_token n = Some t" and "\<not> str_contains REF_OPEN a"
    and "find_refs b = Inr names" and "m n = Some v" and "substitute b m = Inr out"
  shows "find_refs (a @ t @ b) = Inr (insert n names) \<and> substitute (a @ t @ b) m = Inr (a @ v @ out)"
proof -
  have n: "validate_name n = Inr ()" and t: "t = REF_OPEN @ n @ ''}}''"
    using assms(1) by (auto simp: secret_reference_token_def validate_name_ok REF_OPEN_def split: if_splits)
  obtain segs tail where b: "parsed segs tail" "b = unparse segs tail" "names = snd ` set segs"
    using assms(3) by (rule find_refs_parsed)
  have input: "a @ t @ b = unparse ((a, n) # segs) tail" using t b by simp
  have p: "parsed ((a, n) # segs) tail" using b n assms(2) by simp
  have "find (\<lambda>n. m n = None) (map snd segs) = None" "out = fill m segs tail"
    using substitute_unparse [OF b(1), of m] assms(5) b(2) by (auto split: option.splits)
  with assms(4) find_refs_unparse [OF p] substitute_unparse [OF p, of m] b(3) show ?thesis
    unfolding input by simp
qed

theorem reference_token_roundtrip_witness:
  "find_refs ''key={{secret:BRAVE_KEY}}&q=x'' = Inr {''BRAVE_KEY''} \<and>
   substitute ''key={{secret:BRAVE_KEY}}&q=x'' [''BRAVE_KEY'' \<mapsto> ''{{secret:X}}''] =
     Inr ''key={{secret:X}}&q=x''"
proof -
  have "secret_reference_token ''BRAVE_KEY'' = Some ''{{secret:BRAVE_KEY}}''" by code_simp
  moreover have "\<not> str_contains REF_OPEN ''key=''" "\<not> str_contains REF_OPEN ''&q=x''" by code_simp+
  moreover from this have "find_refs ''&q=x'' = Inr {}"
    "substitute ''&q=x'' [''BRAVE_KEY'' \<mapsto> ''{{secret:X}}''] = Inr ''&q=x''"
    by (simp_all add: find_refs_def find_refs_loop_plain substitute_def)
  ultimately show ?thesis
    using reference_token_roundtrip [of "''BRAVE_KEY''" "''{{secret:BRAVE_KEY}}''" "''key=''" "''&q=x''"
        "{}" "[''BRAVE_KEY'' \<mapsto> ''{{secret:X}}'']" "''{{secret:X}}''" "''&q=x''"]
    by simp
qed

text \<open>
  The placeholder scanner finds exactly the maximal runs of token bytes that have the shape
  of a placeholder, and the renderer, for any map, replaces exactly those runs and copies every
  other byte, or fails naming the first of them without a value.
\<close>

theorem placeholder_scan_exact:
  "find_placeholder_tokens input = {p \<in> set (token_runs input). placeholder_name_hint p \<noteq> None} \<and>
   concat (token_runs input) = input \<and>
   substitute_placeholders input m =
     (case find (\<lambda>p. placeholder_name_hint p \<noteq> None \<and> m p = None) (token_runs input) of
        None \<Rightarrow> Inr (concat (map (fill_run m) (token_runs input)))
      | Some p \<Rightarrow> Inl (UnresolvablePlaceholder p))"
  by (simp only: find_placeholder_tokens_runs concat_token_runs substitute_placeholders_runs)

text \<open>
  A generated placeholder carries its secret name as the hint and is found again in any
  text in which no token byte stands right before or after it, together with the tokens of the
  text around it.
\<close>

theorem generated_placeholder_roundtrip:
  assumes "is_uuid u" and "is_valid_secret_name n"
    and "a = [] \<or> \<not> is_placeholder_token_byte (last a)"
    and "b = [] \<or> \<not> is_placeholder_token_byte (hd b)"
  shows "\<exists>t. generate_placeholder_token u n = Inr t \<and> placeholder_name_hint t = Some n \<and>
    find_placeholder_tokens (a @ t @ b) =
      insert t (find_placeholder_tokens a \<union> find_placeholder_tokens b)"
proof -
  let ?t = "PLACEHOLDER_PREFIX @ n @ ''_'' @ u"
  have n: "validate_name n = Inr ()" using assms(2) by (simp add: validate_name_ok)
  have hint: "placeholder_name_hint ?t = Some n" by (rule hint_generated [OF assms(1) n])
  have "token_runs (a @ ?t @ b) = token_runs a @ ?t # token_runs b"
    using assms(3,4) tok_generated [OF assms(1) n]
    by (subst token_runs_split; (subst token_runs_append)?)
       (auto simp: PLACEHOLDER_PREFIX_def split: list.split)
  with hint n show ?thesis
    by (intro exI [of _ ?t]) (auto simp: generate_placeholder_token_def find_placeholder_tokens_runs)
qed

theorem generated_placeholder_roundtrip_witness:
  "\<exists>t. generate_placeholder_token ''0123456789abcdef0123456789abcdef'' ''K'' = Inr t \<and>
       find_placeholder_tokens (''x='' @ t @ '';'') = {t}"
proof -
  have "is_uuid ''0123456789abcdef0123456789abcdef''" "is_valid_secret_name ''K''" by code_simp+
  moreover have "find_placeholder_tokens ''x='' = {}" "find_placeholder_tokens '';'' = {}"
    by (auto simp: find_placeholder_tokens_runs is_placeholder_token_byte_def ascii_alnum_def
        ascii_lower_def ascii_upper_def ascii_digit_def less_eq_char_def no_hint_byte)
  moreover have "\<not> is_placeholder_token_byte (last ''x='')" "\<not> is_placeholder_token_byte (hd '';'')"
    by code_simp+
  ultimately show ?thesis
    using generated_placeholder_roundtrip [of "''0123456789abcdef0123456789abcdef''" "''K''" "''x=''" "'';''"]
    by fastforce
qed

text \<open>
  C6: Whatever operations the registry has been through, a token resolves for an agent to a
  secret name only if this very binding was inserted for this agent (with a well-formed token
  and name), operations on other agents change nothing for it, and a binding stays as it is
  until it, or all of the agent's bindings, are removed.  A caller without an agent id resolves
  nothing.
\<close>

theorem registry_provenance:
  "(pm_resolve (run_ops pm_step empty_placeholder_map ops) i token = Some name \<longrightarrow>
      (\<exists>agent0. agent_id i = Some (trim agent0) \<and> PM_Insert agent0 token name \<in> set ops \<and>
         placeholder_name_hint token \<noteq> None \<and> is_valid_secret_name name)) \<and>
   (agent_id i = Some agent \<longrightarrow> (\<forall>x \<in> set ops. \<not> pm_touches x (agent, token)) \<longrightarrow>
      pm_resolve (run_ops pm_step pm ops) i token = pm_resolve pm i token) \<and>
   (agent_id i = Some agent \<longrightarrow> (\<forall>x \<in> set ops. \<not> pm_unbinds x (agent, token)) \<longrightarrow>
      pm_resolve pm i token = Some name \<longrightarrow>
      pm_resolve (run_ops pm_step pm ops) i token = Some name)"
proof (intro conjI impI)
  assume "pm_resolve (run_ops pm_step empty_placeholder_map ops) i token = Some name"
  then obtain agent where i: "agent_id i = Some agent"
    and look: "pm_look (run_ops pm_step empty_placeholder_map ops) (agent, token) = Some name"
    by (auto simp: pm_resolve_look split: option.splits)
  from placeholder_store.run_origin [OF look]
  obtain x where "x \<in> set ops" "pm_writes x (agent, token) name" by auto
  then show "\<exists>agent0. agent_id i = Some (trim agent0) \<and> PM_Insert agent0 token name \<in> set ops \<and>
      placeholder_name_hint token \<noteq> None \<and> is_valid_secret_name name"
    using i by - (cases x; auto simp: validate_name_ok)
qed (auto simp: pm_resolve_look placeholder_store.run_frame pm_run_keeps)

theorem registry_provenance_witness:
  "let t = ''cfg_K_0123456789abcdef0123456789abcdef'';
       i = \<lparr>agent_id = Some ''a'', user_id = None, channel = None\<rparr>
   in pm_resolve (run_ops pm_step empty_placeholder_map [PM_Insert ''b'' t ''K'']) i t = None \<and>
      pm_resolve (run_ops pm_step empty_placeholder_map
        [PM_Insert '' a'' t ''K'', PM_Insert ''b'' t ''Z'', PM_Insert ''a'' t ''Z'']) i t = Some ''K''"
proof -
  let ?t = "''cfg_K_0123456789abcdef0123456789abcdef''"
  let ?i = "\<lparr>agent_id = Some ''a'', user_id = None, channel = None\<rparr>"
  let ?pm = "pm_step empty_placeholder_map (PM_Insert '' a'' ?t ''K'')"
  have tr: "trim ''b'' = ''b''" "trim ''a'' = ''a''" "trim '' a'' = ''a''" by code_simp+
  have sh: "placeholder_name_hint ?t \<noteq> None" "validate_name ''K'' = Inr ()" by code_simp+
  have "pm_resolve ?pm ?i ?t = Some ''K''"
    using tr sh by (simp add: pm_resolve_look pm_insert_look)
  then have "pm_resolve (run_ops pm_step ?pm [PM_Insert ''b'' ?t ''Z'', PM_Insert ''a'' ?t ''Z'']) ?i ?t = Some ''K''"
    using registry_provenance [of "[PM_Insert ''b'' ?t ''Z'', PM_Insert ''a'' ?t ''Z'']" ?i ?t "''K''" "''a''" ?pm]
    by simp
  moreover have "pm_resolve (run_ops pm_step empty_placeholder_map [PM_Insert ''b'' ?t ''K'']) ?i ?t = None"
    using registry_provenance [of "[PM_Insert ''b'' ?t ''K'']" ?i ?t "''K''" "''a''" empty_placeholder_map] tr
    by (simp add: pm_resolve_look)
  ultimately show ?thesis by (simp add: Let_def)
qed

end
