(* ===== verification/Host_Patterns.thy ===== *)
theory Host_Patterns
  imports Calci_Prelude
begin

text \<open>
  Host patterns of the security proxy: \<open>SecurityProxy::host_matches_pattern\<close> with
  \<open>compile_bypass_pattern\<close> (\<open>crates/security-proxy/src/proxy.rs\<close>), and the matcher of
  credential mappings \<open>dns_boundary_match\<close> (\<open>credentials.rs\<close>).

  The regex crate is an argument: \<open>escape\<close> is \<open>regex::escape\<close> and \<open>regex_new\<close> is
  \<open>Regex::new\<close> with \<open>is_match\<close>.  Its documented behaviour on the expressions the code builds
  is \<open>regex_law\<close>.  The locale \<open>host_matcher\<close> is the contract that destination lists rely on.
\<close>

section \<open>The matchers\<close>

datatype bypass_matcher = Exact string | Glob "string \<Rightarrow> bool" | Invalid

definition glob_regex :: "(string \<Rightarrow> string) \<Rightarrow> string list \<Rightarrow> string" where
  "glob_regex escape parts = ''^'' @ join_with ''[^.]*'' (map escape parts) @ ''$''"

definition compile_bypass_pattern ::
  "(string \<Rightarrow> string) \<Rightarrow> (string \<Rightarrow> string) \<Rightarrow> (string \<Rightarrow> (string \<Rightarrow> bool) option) \<Rightarrow>
   string \<Rightarrow> bypass_matcher" where
  "compile_bypass_pattern uni escape regex_new pattern =
     (let low = to_lowercase uni pattern in
      if \<not> str_contains ''*'' low then Exact low
      else (case regex_new (glob_regex escape (split_char (CHR ''*'') low)) of
              Some re \<Rightarrow> Glob re
            | None \<Rightarrow> Invalid))"

definition host_matches_pattern ::
  "(string \<Rightarrow> string) \<Rightarrow> (string \<Rightarrow> string) \<Rightarrow> (string \<Rightarrow> (string \<Rightarrow> bool) option) \<Rightarrow>
   string \<Rightarrow> string \<Rightarrow> bool" where
  "host_matches_pattern uni escape regex_new host pattern =
     (case compile_bypass_pattern uni escape regex_new pattern of
        Exact p \<Rightarrow> host = p \<or> suffix (''.'' @ p) host
      | Glob re \<Rightarrow> re host
      | Invalid \<Rightarrow> False)"

definition dns_boundary_match :: "(string \<Rightarrow> string) \<Rightarrow> string \<Rightarrow> string \<Rightarrow> bool" where
  "dns_boundary_match uni host pattern =
     (let host_lower = to_lowercase uni host; pattern_lower = to_lowercase uni pattern in
      case strip_prefix ''*.'' pattern_lower of
        Some suff \<Rightarrow> suffix (''.'' @ suff) host_lower \<and> length host_lower > length suff + 1
      | None \<Rightarrow> host_lower = pattern_lower \<or> suffix (''.'' @ pattern_lower) host_lower)"

section \<open>Labels\<close>

definition labels :: "string \<Rightarrow> string list" where
  "labels s = split_char (CHR ''.'') s"

text \<open>A text cut into the parts, with dot-free text in place of each star.\<close>

fun label_glob :: "string list \<Rightarrow> string \<Rightarrow> bool" where
  "label_glob [] h = (h = [])"
| "label_glob [p] h = (h = p)"
| "label_glob (p # q # ps) h =
     (prefix p h \<and>
      list_ex (\<lambda>k. CHR ''.'' \<notin> set (take k (drop (length p) h)) \<and>
                   label_glob (q # ps) (drop k (drop (length p) h)))
        [0..<Suc (length h - length p)])"

text \<open>What the documentation of the regex crate says of the anchored expressions built here.\<close>

definition regex_law :: "(string \<Rightarrow> string) \<Rightarrow> (string \<Rightarrow> (string \<Rightarrow> bool) option) \<Rightarrow> bool" where
  "regex_law escape regex_new \<longleftrightarrow>
     (\<forall>parts re h. regex_new (glob_regex escape parts) = Some re \<longrightarrow> re h = label_glob parts h)"

lemma split_char_append: "split_char d (a @ d # b) = split_char d a @ split_char d b"
proof (induction a)
  case Nil
  then show ?case by simp
next
  case (Cons c a)
  then show ?case by (cases "split_char d a") auto
qed

lemma join_with_append:
  "xs \<noteq> [] \<Longrightarrow> ys \<noteq> [] \<Longrightarrow> join_with d (xs @ ys) = join_with d xs @ d @ join_with d ys"
proof (induction xs rule: induct_list012)
  case (2 x)
  then show ?case by (cases ys) auto
qed auto

text \<open>Equal to a domain or below it: its labels end with the labels of the domain.\<close>

lemma under_domain_labels:
  "h = p \<or> suffix (''.'' @ p) h \<longleftrightarrow> suffix (labels p) (labels h)"
proof
  assume "h = p \<or> suffix (''.'' @ p) h"
  then show "suffix (labels p) (labels h)"
    by (auto simp: labels_def suffix_def split_char_append)
next
  assume "suffix (labels p) (labels h)"
  then obtain xs where xs: "labels h = xs @ labels p" by (auto simp: suffix_def)
  show "h = p \<or> suffix (''.'' @ p) h"
  proof (cases "xs = []")
    case True
    with xs have "join_with ''.'' (labels h) = join_with ''.'' (labels p)" by simp
    then show ?thesis by (simp add: labels_def join_split_char)
  next
    case False
    then have "h = join_with ''.'' xs @ ''.'' @ p"
      using arg_cong [OF xs, of "join_with ''.''"] join_with_append [of xs "labels p" "''.''"]
      by (simp add: labels_def join_split_char)
    then show ?thesis by (auto simp: suffix_def)
  qed
qed

lemma suffix_dot_labels: "suffix (''.'' @ s) h \<Longrightarrow> suffix (labels s) (labels h) \<and> length (labels s) < length (labels h)"
proof -
  assume "suffix (''.'' @ s) h"
  then obtain a where "h = a @ CHR ''.'' # s" by (auto simp: suffix_def)
  then have "labels h = labels a @ labels s" by (simp add: labels_def split_char_append)
  moreover have "labels a \<noteq> []" by (simp add: labels_def)
  ultimately show ?thesis by (auto simp: suffix_def)
qed

text \<open>Stars do not cross dots: the number of labels is that of the pattern.\<close>

lemma length_split_char: "length (split_char d s) = Suc (count_list s d)"
proof (induction s)
  case (Cons c s)
  then show ?case by (cases "split_char d s") auto
qed simp

lemma count_list_notin: "d \<notin> set s \<Longrightarrow> count_list s d = 0"
  by (induction s) auto

lemma label_glob_dots:
  "label_glob parts h \<Longrightarrow> count_list h (CHR ''.'') = sum_list (map (\<lambda>p. count_list p (CHR ''.'')) parts)"
proof (induction parts h rule: label_glob.induct)
  case (3 p q ps h)
  from 3(2) obtain k where k: "prefix p h" "CHR ''.'' \<notin> set (take k (drop (length p) h))"
      "label_glob (q # ps) (drop k (drop (length p) h))" "k \<in> set [0..<Suc (length h - length p)]"
    by (simp only: label_glob.simps list_ex_iff) blast
  have "h = p @ take k (drop (length p) h) @ drop k (drop (length p) h)"
    using k(1) by (metis append_eq_conv_conj append_take_drop_id prefix_def)
  then have "count_list h (CHR ''.'') = count_list p (CHR ''.'') +
      count_list (drop k (drop (length p) h)) (CHR ''.'')"
    by (metis (no_types) k(2) add_0 count_list_append count_list_notin)
  with 3(1) [OF k(4) k(3)] show ?case by simp
qed simp_all

lemma count_split_other:
  "c \<noteq> d \<Longrightarrow> sum_list (map (\<lambda>p. count_list p c) (split_char d s)) = count_list s c"
proof (induction s)
  case (Cons x s)
  then show ?case by (cases "split_char d s") auto
qed simp

lemma label_glob_labels:
  "label_glob (split_char (CHR ''*'') p) h \<Longrightarrow> length (labels h) = length (labels p)"
  by (simp add: labels_def length_split_char label_glob_dots count_split_other)

section \<open>The contract of a host matcher\<close>

text \<open>
  A matcher for lower-case hosts.  \<open>wild\<close> says which (lower-case) patterns are not a plain
  domain.  A plain domain matches exactly itself and what is below it.
\<close>

locale host_matcher =
  fixes matches :: "string \<Rightarrow> string \<Rightarrow> bool"
    and fold_case :: "string \<Rightarrow> string"
    and wild :: "string \<Rightarrow> bool"
  assumes plain: "\<not> wild (fold_case p) \<Longrightarrow> fold_case h = h \<Longrightarrow>
      matches h p \<longleftrightarrow> suffix (labels (fold_case p)) (labels h)"
begin

lemma any_plain:
  assumes "fold_case h = h" and "\<And>p. p \<in> set ps \<Longrightarrow> \<not> wild (fold_case p)"
  shows "list_ex (matches h) ps \<longleftrightarrow> (\<exists>p \<in> set ps. suffix (labels (fold_case p)) (labels h))"
  using assms plain by (auto simp: list_ex_iff)

text \<open>No lookalike: a host that does not end with the last label of a plain pattern fails.\<close>

lemma no_lookalike:
  assumes "fold_case h = h" and "\<And>p. p \<in> set ps \<Longrightarrow> \<not> wild (fold_case p)"
    and "\<And>p. p \<in> set ps \<Longrightarrow> last (labels (fold_case p)) \<noteq> last (labels h)"
  shows "\<not> list_ex (matches h) ps"
proof
  assume "list_ex (matches h) ps"
  with any_plain [OF assms(1,2)] obtain p where p: "p \<in> set ps" "suffix (labels (fold_case p)) (labels h)"
    by blast
  moreover have "labels (fold_case p) \<noteq> []" by (simp add: labels_def)
  ultimately have "last (labels (fold_case p)) = last (labels h)" by (auto simp: suffix_def)
  with assms(3) p(1) show False by blast
qed

end

interpretation dns: host_matcher "dns_boundary_match uni" "to_lowercase uni" "prefix ''*.''"
  for uni
proof
  fix p h assume p: "\<not> prefix ''*.'' (to_lowercase uni p)" and h: "to_lowercase uni h = h"
  then have "strip_prefix ''*.'' (to_lowercase uni p) = None" by (simp add: strip_prefix_None)
  then show "dns_boundary_match uni h p = suffix (labels (to_lowercase uni p)) (labels h)"
    using under_domain_labels [of h "to_lowercase uni p"] h
    by (simp add: dns_boundary_match_def)
qed

interpretation bypass: host_matcher "host_matches_pattern uni escape regex_new" "to_lowercase uni"
    "\<lambda>p. CHR ''*'' \<in> set p"
  for uni escape regex_new
proof
  fix p h assume "CHR ''*'' \<notin> set (to_lowercase uni p)"
  then show "host_matches_pattern uni escape regex_new h p =
      suffix (labels (to_lowercase uni p)) (labels h)"
    using under_domain_labels [of h "to_lowercase uni p"]
    by (simp add: host_matches_pattern_def compile_bypass_pattern_def Let_def)
qed

text \<open>Patterns with a star.\<close>

lemma dns_star_labels:
  assumes "strip_prefix ''*.'' (to_lowercase uni p) = Some s" and "to_lowercase uni h = h"
  shows "dns_boundary_match uni h p \<longleftrightarrow>
    suffix (labels s) (labels h) \<and> h \<noteq> s \<and> h \<noteq> ''.'' @ s"
proof -
  have len: "suffix (''.'' @ s) h \<Longrightarrow> length h > length s + 1 \<longleftrightarrow> h \<noteq> ''.'' @ s"
    by (auto simp: suffix_def)
  have "suffix (labels s) (labels h) \<longleftrightarrow> h = s \<or> suffix (''.'' @ s) h"
    by (rule under_domain_labels [symmetric])
  moreover have "\<not> suffix (''.'' @ s) s" by (auto dest: suffix_length_le)
  ultimately show ?thesis
    using assms len by (auto simp: dns_boundary_match_def)
qed

lemma bypass_star_labels:
  assumes "regex_law escape regex_new" and "CHR ''*'' \<in> set (to_lowercase uni p)"
    and "host_matches_pattern uni escape regex_new h p"
  shows "label_glob (split_char (CHR ''*'') (to_lowercase uni p)) h \<and>
    length (labels h) = length (labels (to_lowercase uni p))"
proof -
  from assms(2,3) obtain re
    where re: "regex_new (glob_regex escape (split_char (CHR ''*'') (to_lowercase uni p))) = Some re" "re h"
    by (auto simp: host_matches_pattern_def compile_bypass_pattern_def Let_def split: option.splits)
  with assms(1) have "label_glob (split_char (CHR ''*'') (to_lowercase uni p)) h"
    by (auto simp: regex_law_def)
  then show ?thesis by (simp add: label_glob_labels)
qed

section \<open>A regex library for the expressions built here\<close>

text \<open>
  The law is satisfiable: escape every byte with a backslash, and read an expression back as
  the parts it was built from.
\<close>

definition escape_all :: "string \<Rightarrow> string" where
  "escape_all s = concat (map (\<lambda>c. [CHR 0x5C, c]) s)"

function read_parts :: "string \<Rightarrow> string list option" where
  "read_parts e =
     (if e = ''$'' then Some [[]]
      else if length e \<ge> 2 \<and> hd e = CHR 0x5C then
        (case read_parts (drop 2 e) of Some (p # ps) \<Rightarrow> Some ((e ! 1 # p) # ps) | _ \<Rightarrow> None)
      else if prefix ''[^.]*'' e then map_option (\<lambda>ps. [] # ps) (read_parts (drop 5 e))
      else None)"
  by pat_completeness auto
termination
  by (relation "measure length") (auto dest: prefix_length_le)

declare read_parts.simps [simp del]

definition regex_read :: "string \<Rightarrow> (string \<Rightarrow> bool) option" where
  "regex_read e =
     (if prefix ''^'' e then map_option label_glob (read_parts (drop 1 e)) else None)"

lemma read_parts_lit: "read_parts (CHR 0x5C # c # e) =
    (case read_parts e of Some (p # ps) \<Rightarrow> Some ((c # p) # ps) | _ \<Rightarrow> None)"
  by (subst read_parts.simps) (simp split: option.split list.split)

lemma read_parts_star: "read_parts (''[^.]*'' @ e) = map_option (\<lambda>ps. [] # ps) (read_parts e)"
  by (subst read_parts.simps) simp

lemma read_parts_escaped:
  "read_parts e = Some ([] # ps) \<Longrightarrow> read_parts (escape_all p @ e) = Some (p # ps)"
  by (induction p) (simp_all add: escape_all_def read_parts_lit)

lemma read_parts_end: "read_parts ''$'' = Some [[]]"
  by (subst read_parts.simps) simp

lemma read_parts_join:
  "parts \<noteq> [] \<Longrightarrow> read_parts (join_with ''[^.]*'' (map escape_all parts) @ ''$'') = Some parts"
proof (induction parts rule: induct_list012)
  case (2 p)
  then show ?case using read_parts_escaped [OF read_parts_end, of p] by simp
next
  case (3 p q ps)
  then have "read_parts (''[^.]*'' @ join_with ''[^.]*'' (map escape_all (q # ps)) @ ''$'') =
      Some ([] # q # ps)"
    by (simp only: read_parts_star list.map) simp
  from read_parts_escaped [OF this, of p] show ?case by simp
qed simp

lemma regex_law_holds: "regex_law escape_all regex_read"
proof -
  have "read_parts (drop 1 (glob_regex escape_all parts)) = Some (if parts = [] then [[]] else parts)"
    for parts
    using read_parts_join [of parts] read_parts_end by (simp add: glob_regex_def)
  then show ?thesis by (auto simp: regex_law_def regex_read_def split: if_splits)
qed

section \<open>Properties\<close>

text \<open>
  A host pattern matches on label boundaries.  Without a star it matches exactly the
  lower-case hosts whose labels end with the labels of the pattern; with a star it matches
  only hosts that the pattern, with dot-free text for each star, describes, and these have
  exactly as many labels as the pattern.
\<close>

theorem host_pattern_boundaries:
  assumes "to_lowercase uni h = h" and "regex_law escape regex_new"
  shows "(CHR ''*'' \<notin> set (to_lowercase uni p) \<longrightarrow>
      host_matches_pattern uni escape regex_new h p =
        suffix (labels (to_lowercase uni p)) (labels h)) \<and>
    (CHR ''*'' \<in> set (to_lowercase uni p) \<longrightarrow> host_matches_pattern uni escape regex_new h p \<longrightarrow>
      label_glob (split_char (CHR ''*'') (to_lowercase uni p)) h \<and>
      length (labels h) = length (labels (to_lowercase uni p)))"
  using bypass.plain [OF _ assms(1)] bypass_star_labels [OF assms(2)] by blast

theorem host_pattern_boundaries_witness:
  "host_matches_pattern id escape_all regex_read ''api.corp'' ''Corp'' \<and>
   \<not> host_matches_pattern id escape_all regex_read ''corp.evil'' ''corp'' \<and>
   \<not> host_matches_pattern id escape_all regex_read ''a.b.corp'' ''*.corp''"
proof -
  have low: "to_lowercase id ''Corp'' = ''corp''" "to_lowercase id ''corp'' = ''corp''"
    "to_lowercase id ''*.corp'' = ''*.corp''" "to_lowercase id ''api.corp'' = ''api.corp''"
    "to_lowercase id ''corp.evil'' = ''corp.evil''" "to_lowercase id ''a.b.corp'' = ''a.b.corp''"
    by code_simp+
  have lab: "labels ''corp'' = [''corp'']" "labels ''api.corp'' = [''api'', ''corp'']"
    "labels ''corp.evil'' = [''corp'', ''evil'']" "labels ''a.b.corp'' = [''a'', ''b'', ''corp'']"
    "labels ''*.corp'' = [''*'', ''corp'']"
    by code_simp+
  from host_pattern_boundaries [OF low(4) regex_law_holds, of "''Corp''"]
    host_pattern_boundaries [OF low(5) regex_law_holds, of "''corp''"]
    host_pattern_boundaries [OF low(6) regex_law_holds, of "''*.corp''"]
  show ?thesis by (auto simp: low lab suffix_def)
qed

text \<open>
  A credential mapping matches a host exactly when the labels of the host end with the
  labels of the mapping's domain; the form \<open>*.domain\<close> additionally excludes the domain itself.
  A host that only contains the domain elsewhere, such as \<open>api.openai.com.evil.example\<close>, gets
  no credential.
\<close>

theorem dns_boundary_exact:
  assumes "to_lowercase uni h = h"
  shows "(case strip_prefix ''*.'' (to_lowercase uni p) of
       None \<Rightarrow> dns_boundary_match uni h p = suffix (labels (to_lowercase uni p)) (labels h)
     | Some s \<Rightarrow> dns_boundary_match uni h p =
         (suffix (labels s) (labels h) \<and> h \<noteq> s \<and> h \<noteq> ''.'' @ s))"
  using dns.plain [OF _ assms, of p] dns_star_labels [OF _ assms, of p]
  by (auto simp: strip_prefix_None split: option.split)

theorem dns_boundary_exact_witness:
  "dns_boundary_match id ''api.openai.com'' ''openai.com'' \<and>
   \<not> dns_boundary_match id ''api.openai.com.evil.example'' ''openai.com''"
proof -
  have low: "to_lowercase id ''openai.com'' = ''openai.com''"
    "to_lowercase id ''api.openai.com'' = ''api.openai.com''"
    "to_lowercase id ''api.openai.com.evil.example'' = ''api.openai.com.evil.example''"
    by code_simp+
  have lab: "labels ''openai.com'' = [''openai'', ''com'']"
    "labels ''api.openai.com'' = [''api'', ''openai'', ''com'']"
    "labels ''api.openai.com.evil.example'' = [''api'', ''openai'', ''com'', ''evil'', ''example'']"
    "strip_prefix ''*.'' ''openai.com'' = None"
    by code_simp+
  from dns_boundary_exact [OF low(2), of "''openai.com''"]
    dns_boundary_exact [OF low(3), of "''openai.com''"]
  show ?thesis by (auto simp: low lab suffix_def Cons_eq_append_conv)
qed

end
