(* ===== verification/Json_Value.thy ===== *)
theory Json_Value
  imports Calci_Prelude
begin

text \<open>
  The value type of \<open>serde_json\<close> as the modelled code uses it: an object is the list of its
  members in iteration order; a number keeps its text.
\<close>

datatype json =
  JNull
| JBool bool
| JNum string
| JStr string
| JArr "json list"
| JObj "(string \<times> json) list"

text \<open>\<open>Value::get(key)\<close>, \<open>Value::as_str\<close>, \<open>Value::as_array\<close>.\<close>

definition json_get :: "string \<Rightarrow> json \<Rightarrow> json option" where
  "json_get k v = (case v of JObj kvs \<Rightarrow> map_of kvs k | _ \<Rightarrow> None)"

definition as_str :: "json \<Rightarrow> string option" where
  "as_str v = (case v of JStr s \<Rightarrow> Some s | _ \<Rightarrow> None)"

definition as_array :: "json \<Rightarrow> json list option" where
  "as_array v = (case v of JArr vs \<Rightarrow> Some vs | _ \<Rightarrow> None)"

definition get_str :: "string \<Rightarrow> json \<Rightarrow> string option" where
  "get_str k v = Option.bind (json_get k v) as_str"

text \<open>Assignment through \<open>get_mut(key)\<close> to a member that is there.\<close>

definition json_put :: "string \<Rightarrow> json \<Rightarrow> json \<Rightarrow> json" where
  "json_put k x v = (case v of
      JObj kvs \<Rightarrow> JObj (map (\<lambda>(k', y). (k', if k' = k then x else y)) kvs) | _ \<Rightarrow> v)"

text \<open>\<open>Iterator::find_map\<close>\<close>

fun find_map :: "('a \<Rightarrow> 'b option) \<Rightarrow> 'a list \<Rightarrow> 'b option" where
  "find_map f [] = None"
| "find_map f (x # xs) = (case f x of Some y \<Rightarrow> Some y | None \<Rightarrow> find_map f xs)"

lemma find_map_cong [fundef_cong]:
  "xs = ys \<Longrightarrow> (\<And>x. x \<in> set ys \<Longrightarrow> f x = g x) \<Longrightarrow> find_map f xs = find_map g ys"
  by (induction ys arbitrary: xs) (auto split: option.split)

lemma find_map_None: "find_map f xs = None \<longleftrightarrow> (\<forall>x \<in> set xs. f x = None)"
  by (induction xs) (auto split: option.split)

lemma find_map_Some: "find_map f xs = Some y \<Longrightarrow> \<exists>x \<in> set xs. f x = Some y"
  by (induction xs) (auto split: option.splits)

lemma find_map_append:
  "find_map f (xs @ ys) = (case find_map f xs of Some y \<Rightarrow> Some y | None \<Rightarrow> find_map f ys)"
  by (induction xs) (auto split: option.split)

lemma find_map_concat: "find_map f (concat xss) = find_map (find_map f) xss"
  by (induction xss) (auto simp: find_map_append split: option.split)

lemma find_map_map: "find_map f (map g xs) = find_map (\<lambda>x. f (g x)) xs"
  by (induction xs) (auto split: option.split)

lemma json_get_put: "json_get k v \<noteq> None \<Longrightarrow> json_get j (json_put k x v) = (if j = k then Some x else json_get j v)"
proof (cases v)
  case (JObj kvs)
  have "map_of (map (\<lambda>(k', y). (k', if k' = k then x else y)) kvs) j =
      (if j = k \<and> map_of kvs k \<noteq> None then Some x else map_of kvs j)"
    by (induction kvs) auto
  moreover assume "json_get k v \<noteq> None"
  ultimately show ?thesis using JObj by (auto simp: json_get_def json_put_def)
qed (simp_all add: json_get_def)

section \<open>Strings inside a value\<close>

function json_strings :: "json \<Rightarrow> string list" where
  "json_strings (JStr s) = [s]"
| "json_strings (JArr vs) = concat (map json_strings vs)"
| "json_strings (JObj kvs) = concat (map (\<lambda>kv. json_strings (snd kv)) kvs)"
| "json_strings JNull = []"
| "json_strings (JBool b) = []"
| "json_strings (JNum n) = []"
  by pat_completeness auto

lemma json_size_arr: "v \<in> set vs \<Longrightarrow> size v < size (JArr vs)"
  by (induction vs) auto

lemma json_size_obj: "kv \<in> set kvs \<Longrightarrow> size (snd kv) < size (JObj kvs)"
  by (induction kvs) auto

termination json_strings
  by (relation "measure size") (auto simp del: json.size dest: json_size_arr json_size_obj)

lemma json_strings_get: "json_get k v = Some x \<Longrightarrow> set (json_strings x) \<subseteq> set (json_strings v)"
  by (cases v) (auto simp: json_get_def dest!: map_of_SomeD intro: bexI [rotated])

end
