(* ===== verification/Agent_Web.thy ===== *)
theory Agent_Web
  imports Host_Patterns Json_Value
begin

text \<open>
  The agent-web policy of the security proxy (\<open>crates/security-proxy/src/agent_web.rs\<close>, data
  and defaults in \<open>config.rs\<close>): search-engine hosts, browsing tools and models in LLM request
  bodies, denylisted URLs in message bodies, and the scan of search responses.

  The regex and URL libraries and the JSON reader and writer are collected in the record
  \<open>web_lib\<close>: \<open>lib_find_urls\<close> is \<open>RE.find_iter\<close> for the URL expression, \<open>lib_url_host\<close> is
  \<open>Url::parse\<close> followed by \<open>host_str\<close>.
\<close>

section \<open>Libraries and policy\<close>

record web_lib =
  lib_uni :: "string \<Rightarrow> string"
  lib_escape :: "string \<Rightarrow> string"
  lib_regex :: "string \<Rightarrow> (string \<Rightarrow> bool) option"
  lib_find_urls :: "string \<Rightarrow> string list"
  lib_url_host :: "string \<Rightarrow> string option"
  lib_json_read :: "string \<Rightarrow> json option"
  lib_json_write :: "json \<Rightarrow> string option"
  lib_utf8_lossy :: "string \<Rightarrow> string"

record agent_web_policy =
  forbid_search_engines :: bool
  search_engine_patterns :: "string list"
  scan_search_responses :: bool
  search_response_strategy :: string
  forbid_provider_browsing :: bool
  provider_browsing_strategy :: string
  forbidden_browsing_tools :: "string list"
  forbidden_browsing_models :: "string list"
  known_llm_apis :: "string list"
  preflight_on :: bool
  preflight_tool_descriptions :: bool
  url_destination_denylist :: "string list"

definition default_search_engine_patterns :: "string list" where
  "default_search_engine_patterns =
    [''api.search.brave.com'', ''search.brave.com'', ''duckduckgo.com'', ''api.tavily.com'',
     ''serpapi.com'', ''serper.dev'', ''google.serper.dev'', ''api.firecrawl.dev'',
     ''api.you.com'', ''api.exa.ai'', ''api.kimi.com'', ''api.minimax.com'']"

definition default_forbidden_browsing_tools :: "string list" where
  "default_forbidden_browsing_tools =
    [''web_search'', ''web_search_preview'', ''web_search_20250305'', ''computer_use_20241022'',
     ''computer_20250124'', ''google_search'', ''google_search_retrieval'', ''browser'',
     ''browser_use'']"

definition default_forbidden_browsing_models :: "string list" where
  "default_forbidden_browsing_models =
    [''gpt-4o-search-preview'', ''gpt-4o-search-preview-2024-'']"

definition default_known_llm_apis :: "string list" where
  "default_known_llm_apis =
    [''api.openai.com'', ''chatgpt.com'', ''chat.openai.com'', ''openai.azure.com'',
     ''api.anthropic.com'', ''generativelanguage.googleapis.com'', ''openrouter.ai'',
     ''api.groq.com'', ''api.moonshot.cn'', ''api.kimi.com'', ''api.deepseek.com'',
     ''api.mistral.ai'', ''api.x.ai'', ''api.cohere.ai'', ''api.together.xyz'',
     ''api.fireworks.ai'', ''api.perplexity.ai'']"

definition default_agent_web_policy :: agent_web_policy where
  "default_agent_web_policy =
     \<lparr>forbid_search_engines = False,
      search_engine_patterns = default_search_engine_patterns,
      scan_search_responses = True, search_response_strategy = ''block'',
      forbid_provider_browsing = False, provider_browsing_strategy = ''strip'',
      forbidden_browsing_tools = default_forbidden_browsing_tools,
      forbidden_browsing_models = default_forbidden_browsing_models,
      known_llm_apis = default_known_llm_apis,
      preflight_on = True, preflight_tool_descriptions = True,
      url_destination_denylist = []\<rparr>"

section \<open>Hosts and URLs\<close>

definition host_matches_search_engine :: "web_lib \<Rightarrow> string \<Rightarrow> string list \<Rightarrow> bool" where
  "host_matches_search_engine L host patterns =
     (let h = to_ascii_lowercase host in
      list_ex (\<lambda>p. host_matches_pattern (lib_uni L) (lib_escape L) (lib_regex L) h
                     (to_ascii_lowercase p)) patterns)"

definition host_is_known_llm_api :: "web_lib \<Rightarrow> string \<Rightarrow> string list \<Rightarrow> bool" where
  "host_is_known_llm_api L host patterns = host_matches_search_engine L host patterns"

text \<open>\<open>text.replace("\\/", "/")\<close>\<close>

fun unescape_slashes :: "string \<Rightarrow> string" where
  "unescape_slashes (c # d # s) =
     (if c = CHR 0x5C \<and> d = CHR ''/'' then CHR ''/'' # unescape_slashes s
      else c # unescape_slashes (d # s))"
| "unescape_slashes s = s"

definition extract_urls :: "web_lib \<Rightarrow> string \<Rightarrow> string list" where
  "extract_urls L text =
     (let canonical = (if str_contains [CHR 0x5C, CHR ''/''] text then unescape_slashes text else text)
      in lib_find_urls L canonical)"

definition denied_url :: "web_lib \<Rightarrow> string list \<Rightarrow> string \<Rightarrow> string option" where
  "denied_url L denylist url =
     (case lib_url_host L url of
        None \<Rightarrow> None
      | Some host \<Rightarrow> if host_matches_search_engine L host denylist then Some host else None)"

definition denied_url_in_text :: "web_lib \<Rightarrow> string \<Rightarrow> string list \<Rightarrow> string option" where
  "denied_url_in_text L text denylist =
     (if denylist = [] then None else find_map (denied_url L denylist) (extract_urls L text))"

section \<open>Browsing tools and models\<close>

datatype browsing_reason = ModelBrowses string | ForbiddenTool

datatype browsing_decision =
  BD_Allow
| BD_Stripped "string list" string
| BD_Block browsing_reason

definition tool_name :: "json \<Rightarrow> string option" where
  "tool_name tool = (case get_str ''name'' tool of Some n \<Rightarrow> Some n | None \<Rightarrow> get_str ''type'' tool)"

definition tool_forbidden :: "agent_web_policy \<Rightarrow> json \<Rightarrow> bool" where
  "tool_forbidden policy tool =
     (case tool_name tool of None \<Rightarrow> False | Some n \<Rightarrow> n \<in> set (forbidden_browsing_tools policy))"

definition inspect_browsing_body ::
  "web_lib \<Rightarrow> string \<Rightarrow> agent_web_policy \<Rightarrow> browsing_decision" where
  "inspect_browsing_body L body policy =
     (if \<not> forbid_provider_browsing policy then BD_Allow
      else (case lib_json_read L body of
        None \<Rightarrow> BD_Allow
      | Some json \<Rightarrow>
     (case (case get_str ''model'' json of
              Some model \<Rightarrow>
                if list_ex (\<lambda>p. prefix p model) (forbidden_browsing_models policy)
                then Some model else None
            | None \<Rightarrow> None) of
        Some model \<Rightarrow> BD_Block (ModelBrowses model)
      | None \<Rightarrow>
     (case Option.bind (json_get ''tools'' json) as_array of
        None \<Rightarrow> BD_Allow
      | Some tools \<Rightarrow>
          let kept = filter (\<lambda>t. \<not> tool_forbidden policy t) tools;
              stripped = map (\<lambda>t. the (tool_name t)) (filter (tool_forbidden policy) tools);
              json' = json_put ''tools'' (JArr kept) json in
          if stripped = [] then BD_Allow
          else if provider_browsing_strategy policy = ''block'' then BD_Block ForbiddenTool
          else BD_Stripped stripped
                 (case lib_json_write L json' of Some b \<Rightarrow> b | None \<Rightarrow> body)))))"

section \<open>Denylisted URLs in request bodies\<close>

function denied_url_in_json_text :: "web_lib \<Rightarrow> string list \<Rightarrow> json \<Rightarrow> string option" where
  "denied_url_in_json_text L denylist (JStr text) = denied_url_in_text L text denylist"
| "denied_url_in_json_text L denylist (JArr items) =
     find_map (denied_url_in_json_text L denylist) items"
| "denied_url_in_json_text L denylist (JObj kvs) =
     find_map (\<lambda>kv. denied_url_in_json_text L denylist (snd kv)) kvs"
| "denied_url_in_json_text L denylist JNull = None"
| "denied_url_in_json_text L denylist (JBool b) = None"
| "denied_url_in_json_text L denylist (JNum n) = None"
  by pat_completeness auto
termination
  by (relation "measure (\<lambda>(L, d, v). size v)")
     (auto simp del: json.size dest: json_size_arr json_size_obj)

definition tool_description_url :: "web_lib \<Rightarrow> string list \<Rightarrow> json \<Rightarrow> string option" where
  "tool_description_url L denylist tool =
     (case Option.bind (get_str ''description'' tool) (\<lambda>d. denied_url_in_text L d denylist) of
        Some host \<Rightarrow> Some host
      | None \<Rightarrow>
          Option.bind (Option.bind (json_get ''function'' tool) (get_str ''description''))
            (\<lambda>d. denied_url_in_text L d denylist))"

definition denied_tool_description_url :: "web_lib \<Rightarrow> string list \<Rightarrow> json \<Rightarrow> string option" where
  "denied_tool_description_url L denylist tools =
     (case tools of JArr items \<Rightarrow> find_map (tool_description_url L denylist) items | _ \<Rightarrow> None)"

definition preflight_message_urls :: "web_lib \<Rightarrow> string \<Rightarrow> agent_web_policy \<Rightarrow> string option" where
  "preflight_message_urls L body policy =
     (if \<not> preflight_on policy then None
      else (case lib_json_read L body of
        None \<Rightarrow> None
      | Some json \<Rightarrow>
     (let denylist = url_destination_denylist policy in
      if denylist = [] then None
      else (case Option.bind (json_get ''messages'' json) (denied_url_in_json_text L denylist) of
        Some host \<Rightarrow> Some host
      | None \<Rightarrow>
     (case Option.bind (json_get ''input'' json) (denied_url_in_json_text L denylist) of
        Some host \<Rightarrow> Some host
      | None \<Rightarrow>
     (case (if preflight_tool_descriptions policy
            then Option.bind (json_get ''tools'' json) (denied_tool_description_url L denylist)
            else None) of
        Some host \<Rightarrow> Some host
      | None \<Rightarrow> denied_url_in_json_text L denylist json))))))"

section \<open>Search responses\<close>

datatype search_response_decision =
  SR_Pass
| SR_Block
| SR_Strip string "string list"

text \<open>The \<open>retain\<close> closure: the host for which an array element is dropped.\<close>

definition entry_url :: "json \<Rightarrow> string option" where
  "entry_url item =
     Option.bind (case json_get ''url'' item of Some v \<Rightarrow> Some v | None \<Rightarrow>
                   (case json_get ''link'' item of Some v \<Rightarrow> Some v | None \<Rightarrow>
                      json_get ''href'' item)) as_str"

definition denied_entry :: "web_lib \<Rightarrow> string list \<Rightarrow> json \<Rightarrow> string option" where
  "denied_entry L denylist item = Option.bind (entry_url item) (denied_url L denylist)"

function walk_and_strip :: "web_lib \<Rightarrow> string list \<Rightarrow> json \<Rightarrow> json \<times> string list" where
  "walk_and_strip L denylist (JArr items) =
     (let kept = filter (\<lambda>i. denied_entry L denylist i = None) items;
          walked = map (walk_and_strip L denylist) kept in
      (JArr (map fst walked),
       List.map_filter (denied_entry L denylist) items @ concat (map snd walked)))"
| "walk_and_strip L denylist (JObj kvs) =
     (let walked = map (\<lambda>kv. (fst kv, walk_and_strip L denylist (snd kv))) kvs in
      (JObj (map (\<lambda>kw. (fst kw, fst (snd kw))) walked), concat (map (\<lambda>kw. snd (snd kw)) walked)))"
| "walk_and_strip L denylist (JStr s) = (JStr s, [])"
| "walk_and_strip L denylist JNull = (JNull, [])"
| "walk_and_strip L denylist (JBool b) = (JBool b, [])"
| "walk_and_strip L denylist (JNum n) = (JNum n, [])"
  by pat_completeness auto
termination
  by (relation "measure (\<lambda>(L, d, v). size v)")
     (auto simp del: json.size dest: json_size_arr json_size_obj)

definition strip_denied_results ::
  "web_lib \<Rightarrow> string \<Rightarrow> string list \<Rightarrow> (string \<times> string list) option" where
  "strip_denied_results L body denylist =
     (case lib_json_read L body of
        None \<Rightarrow> None
      | Some json \<Rightarrow>
          (case walk_and_strip L denylist json of (json', dropped) \<Rightarrow>
             (case lib_json_write L json' of None \<Rightarrow> None | Some b \<Rightarrow> Some (b, dropped))))"

definition scan_search_response ::
  "web_lib \<Rightarrow> string \<Rightarrow> agent_web_policy \<Rightarrow> search_response_decision" where
  "scan_search_response L body policy =
     (if \<not> scan_search_responses policy then SR_Pass
      else let denylist = url_destination_denylist policy in
      if denylist = [] then SR_Pass
      else (case denied_url_in_text L (lib_utf8_lossy L body) denylist of
        None \<Rightarrow> SR_Pass
      | Some _ \<Rightarrow>
          if search_response_strategy policy = ''strip'' then
            (case strip_denied_results L body denylist of
               Some (rewritten, dropped) \<Rightarrow>
                 if dropped \<noteq> [] then SR_Strip rewritten dropped else SR_Block
             | None \<Rightarrow> SR_Block)
          else SR_Block))"

section \<open>What the walks see\<close>

lemma denied_url_in_json_strings:
  "denied_url_in_json_text L denylist v =
     find_map (\<lambda>s. denied_url_in_text L s denylist) (json_strings v)"
proof (induction L denylist v rule: denied_url_in_json_text.induct)
  case (1 L denylist t)
  then show ?case by (simp split: option.split)
next
  case (2 L denylist items)
  then show ?case by (simp add: find_map_concat find_map_map cong: find_map_cong)
next
  case (3 L denylist kvs)
  then show ?case by (simp add: find_map_concat find_map_map cong: find_map_cong)
qed simp_all

lemma denied_in_member:
  assumes "Option.bind (json_get k v) (denied_url_in_json_text L d) = Some h"
  shows "\<exists>s \<in> set (json_strings v). denied_url_in_text L s d = Some h"
  using assms json_strings_get [of k v]
  by (cases "json_get k v") (fastforce simp: denied_url_in_json_strings dest: find_map_Some)+

lemma get_str_strings: "get_str k v = Some s \<Longrightarrow> s \<in> set (json_strings v)"
  using json_strings_get [of k v]
  by (cases "json_get k v") (auto simp: get_str_def as_str_def split: json.split_asm)

lemma denied_in_tool:
  "tool_description_url L d tool = Some h \<Longrightarrow>
   \<exists>s \<in> set (json_strings tool). denied_url_in_text L s d = Some h"
  using json_strings_get [of "''function''" tool]
  by (auto simp: tool_description_url_def bind_eq_Some_conv dest!: get_str_strings
      split: option.splits)

lemma denied_in_tools:
  assumes "Option.bind (json_get k v) (denied_tool_description_url L d) = Some h"
  shows "\<exists>s \<in> set (json_strings v). denied_url_in_text L s d = Some h"
proof -
  obtain items where items: "json_get k v = Some (JArr items)"
      "find_map (tool_description_url L d) items = Some h"
    using assms
    by (cases "json_get k v") (auto simp: denied_tool_description_url_def split: json.split_asm)
  then obtain tool s where "tool \<in> set items" "s \<in> set (json_strings tool)"
      "denied_url_in_text L s d = Some h"
    using find_map_Some [OF items(2)] denied_in_tool by blast
  with json_strings_get [OF items(1)] show ?thesis by (auto intro!: bexI [of _ s])
qed

lemma denied_in_text_host:
  "denied_url_in_text L s d = Some h \<Longrightarrow> host_matches_search_engine L h d"
  by (auto simp: denied_url_in_text_def denied_url_def dest!: find_map_Some
      split: if_splits option.splits)

section \<open>What stripping leaves\<close>

lemma walk_get:
  "json_get k (fst (walk_and_strip L d v)) =
     map_option (\<lambda>x. fst (walk_and_strip L d x)) (json_get k v)"
proof (cases v)
  case (JObj kvs)
  have "map_of (map (\<lambda>kv. (fst kv, fst (walk_and_strip L d (snd kv)))) kvs) k =
      map_option (\<lambda>x. fst (walk_and_strip L d x)) (map_of kvs k)"
    by (induction kvs) auto
  with JObj show ?thesis by (simp add: json_get_def Let_def comp_def)
qed (simp_all add: json_get_def Let_def)

lemma walk_str: "as_str (fst (walk_and_strip L d v)) = as_str v"
  by (cases v) (simp_all add: as_str_def Let_def)

lemma walk_entry_url: "entry_url (fst (walk_and_strip L d v)) = entry_url v"
  by (cases "json_get ''href'' v") (auto simp: entry_url_def walk_get walk_str split: option.split)

text \<open>No array at any depth has an element with a denylisted URL field.\<close>

function arrays_clean :: "web_lib \<Rightarrow> string list \<Rightarrow> json \<Rightarrow> bool" where
  "arrays_clean L d (JArr vs) \<longleftrightarrow>
     list_all (\<lambda>v. denied_entry L d v = None) vs \<and> list_all (arrays_clean L d) vs"
| "arrays_clean L d (JObj kvs) \<longleftrightarrow> list_all (\<lambda>kv. arrays_clean L d (snd kv)) kvs"
| "arrays_clean L d (JStr s) = True"
| "arrays_clean L d JNull = True"
| "arrays_clean L d (JBool b) = True"
| "arrays_clean L d (JNum n) = True"
  by pat_completeness auto
termination
  by (relation "measure (\<lambda>(L, d, v). size v)")
     (auto simp del: json.size dest: json_size_arr json_size_obj)

lemma walk_clean: "arrays_clean L d (fst (walk_and_strip L d v))"
proof (induction L d v rule: walk_and_strip.induct)
  case (1 L d items)
  then show ?case
    by (auto simp: Let_def list_all_iff denied_entry_def walk_entry_url)
next
  case (2 L d kvs)
  then show ?case by (auto simp: Let_def list_all_iff)
qed simp_all

lemma set_map_filter_Some: "y \<in> set (List.map_filter f xs) \<longleftrightarrow> (\<exists>x \<in> set xs. f x = Some y)"
  by (induction xs) (auto simp: List.map_filter_simps split: option.split)

lemma walk_dropped:
  "h \<in> set (snd (walk_and_strip L d v)) \<Longrightarrow> host_matches_search_engine L h d"
proof (induction L d v rule: walk_and_strip.induct)
  case (1 L d items)
  then show ?case
    by (auto simp: Let_def set_map_filter_Some denied_entry_def denied_url_def bind_eq_Some_conv
        split: option.splits if_splits)
next
  case (2 L d kvs)
  then show ?case by (auto simp: Let_def)
qed simp_all

section \<open>Properties\<close>

text \<open>
  With a denylist, the URL pre-flight refuses a request body exactly when some string
  anywhere in its JSON value contains a denylisted URL, and the host it reports is denied.
  The switch \<open>preflight_tool_descriptions\<close> does not change which requests are refused: the
  final walk over the whole body covers the tool descriptions also when it is off.
\<close>

theorem preflight_exact:
  "(preflight_message_urls L body policy \<noteq> None \<longleftrightarrow>
      preflight_on policy \<and>
      (\<exists>json. lib_json_read L body = Some json \<and>
        (\<exists>s \<in> set (json_strings json).
           denied_url_in_text L s (url_destination_denylist policy) \<noteq> None))) \<and>
   (preflight_message_urls L body policy = Some h \<longrightarrow>
      host_matches_search_engine L h (url_destination_denylist policy)) \<and>
   (preflight_message_urls L body (policy\<lparr>preflight_tool_descriptions := False\<rparr>) \<noteq> None \<longleftrightarrow>
    preflight_message_urls L body policy \<noteq> None)"
proof -
  let ?d = "url_destination_denylist policy"
  have sound: "\<exists>json s. lib_json_read L body = Some json \<and> s \<in> set (json_strings json) \<and>
      preflight_on p \<and> denied_url_in_text L s (url_destination_denylist p) = Some h"
    if "preflight_message_urls L body p = Some h" for p h
    using that
    by (auto simp: preflight_message_urls_def Let_def denied_url_in_json_strings
        split: if_splits option.splits
        dest!: denied_in_member denied_in_tools find_map_Some)
  have complete: "preflight_message_urls L body p \<noteq> None"
    if "preflight_on p" "lib_json_read L body = Some json" "s \<in> set (json_strings json)"
      "denied_url_in_text L s (url_destination_denylist p) \<noteq> None" for p json s
  proof -
    have "denied_url_in_json_text L (url_destination_denylist p) json \<noteq> None"
      using that(3,4) by (auto simp: denied_url_in_json_strings find_map_None)
    moreover have "url_destination_denylist p \<noteq> []" using that(4) by (auto simp: denied_url_in_text_def)
    ultimately show ?thesis using that(1,2)
      by (auto simp: preflight_message_urls_def Let_def split: option.split)
  qed
  let ?q = "policy\<lparr>preflight_tool_descriptions := False\<rparr>"
  have iff: "preflight_message_urls L body p \<noteq> None \<longleftrightarrow> preflight_on p \<and>
      (\<exists>json. lib_json_read L body = Some json \<and> (\<exists>s \<in> set (json_strings json).
         denied_url_in_text L s (url_destination_denylist p) \<noteq> None))" for p
    using sound complete by blast
  have "preflight_message_urls L body ?q \<noteq> None \<longleftrightarrow> preflight_message_urls L body policy \<noteq> None"
    by (simp only: iff) simp
  with iff [of policy] sound [of policy h] denied_in_text_host show ?thesis by blast
qed

theorem preflight_exact_witness:
  "let L = \<lparr>lib_uni = id, lib_escape = id, lib_regex = \<lambda>_. None, lib_find_urls = \<lambda>t. [t],
            lib_url_host = Some, lib_json_read = \<lambda>_. Some (JObj [(''tools'', JStr ''evil'')]),
            lib_json_write = \<lambda>_. None, lib_utf8_lossy = id\<rparr>;
       p = default_agent_web_policy\<lparr>url_destination_denylist := [''evil'']\<rparr>
   in preflight_message_urls L ''x'' (p\<lparr>preflight_tool_descriptions := False\<rparr>) \<noteq> None"
proof -
  let ?L = "\<lparr>lib_uni = id, lib_escape = id, lib_regex = \<lambda>_. None, lib_find_urls = \<lambda>t. [t],
            lib_url_host = Some, lib_json_read = \<lambda>_. Some (JObj [(''tools'', JStr ''evil'')]),
            lib_json_write = \<lambda>_. None, lib_utf8_lossy = id\<rparr>"
  let ?p = "default_agent_web_policy\<lparr>url_destination_denylist := [''evil'']\<rparr>"
  have low: "to_ascii_lowercase ''evil'' = ''evil''" "to_lowercase id ''evil'' = ''evil''" by code_simp+
  have "denied_url_in_text ?L ''evil'' [''evil''] = Some ''evil''"
    by (simp add: denied_url_in_text_def extract_urls_def denied_url_def low
        host_matches_search_engine_def host_matches_pattern_def compile_bypass_pattern_def Let_def)
  then show ?thesis
    using preflight_exact [of ?L "''x''" ?p "''evil''"]
    by (simp add: Let_def default_agent_web_policy_def)
qed

text \<open>
  When the browsing gate strips a request, what is forwarded is the same JSON value with
  exactly the forbidden tools removed from \<open>tools\<close>, in order, and a second inspection of it
  allows it; when it allows a body with a JSON value and a tool list, the model is not an
  always-search model and no tool is forbidden.  This uses that the JSON writer does not fail
  on the stripped value and that what it writes is read back.
\<close>

theorem browsing_gate_correct:
  assumes "forbid_provider_browsing policy" and "lib_json_read L body = Some json"
    and "json_get ''tools'' json = Some (JArr tools)"
    and law: "\<And>j b. lib_json_write L j = Some b \<Longrightarrow> lib_json_read L b = Some j"
    and written: "lib_json_write L (json_put ''tools''
      (JArr (filter (\<lambda>t. \<not> tool_forbidden policy t) tools)) json) \<noteq> None"
  shows "(case inspect_browsing_body L body policy of
       BD_Allow \<Rightarrow> (\<forall>t \<in> set tools. \<not> tool_forbidden policy t) \<and>
         (\<forall>m. get_str ''model'' json = Some m \<longrightarrow>
            (\<forall>p \<in> set (forbidden_browsing_models policy). \<not> prefix p m))
     | BD_Stripped names b \<Rightarrow> names \<noteq> [] \<and>
         lib_json_read L b =
           Some (json_put ''tools'' (JArr (filter (\<lambda>t. \<not> tool_forbidden policy t) tools)) json) \<and>
         inspect_browsing_body L b policy = BD_Allow
     | BD_Block r \<Rightarrow> (\<exists>t \<in> set tools. tool_forbidden policy t) \<or>
         (\<exists>m. r = ModelBrowses m \<and> get_str ''model'' json = Some m))"
proof -
  let ?kept = "filter (\<lambda>t. \<not> tool_forbidden policy t) tools"
  let ?json' = "json_put ''tools'' (JArr ?kept) json"
  obtain b where b: "lib_json_write L ?json' = Some b" "lib_json_read L b = Some ?json'"
    using law written by blast
  have get': "json_get ''tools'' ?json' = Some (JArr ?kept)" "get_str ''model'' ?json' = get_str ''model'' json"
    using assms(3) by (simp_all add: json_get_put get_str_def)
  have again: "inspect_browsing_body L b policy = BD_Allow"
    if "\<And>m. get_str ''model'' json = Some m \<Longrightarrow> \<not> list_ex (\<lambda>p. prefix p m) (forbidden_browsing_models policy)"
    using that assms(1) b(2) get'
    by (auto simp: inspect_browsing_body_def as_array_def split: option.split)
  show ?thesis
    using assms(1-3) b again
    by (auto simp: inspect_browsing_body_def as_array_def Let_def filter_empty_conv list_ex_iff
        split: option.splits if_splits)
qed

definition strip_example :: json where
  "strip_example =
     JObj [(''tools'', JArr [JObj [(''type'', JStr ''web_search''), (''url'', JStr ''evil'')]]),
           (''answer'', JStr ''evil'')]"

definition strip_example_left :: json where
  "strip_example_left = JObj [(''tools'', JArr []), (''answer'', JStr ''evil'')]"

definition strip_example_lib :: web_lib where
  "strip_example_lib =
     \<lparr>lib_uni = id, lib_escape = id, lib_regex = \<lambda>_. None, lib_find_urls = \<lambda>_. [''evil''],
      lib_url_host = Some,
      lib_json_read = (\<lambda>b. if b = ''B'' then Some strip_example
                          else if b = ''C'' then Some strip_example_left else None),
      lib_json_write = (\<lambda>j. if j = strip_example_left then Some ''C'' else None),
      lib_utf8_lossy = id\<rparr>"

lemma strip_example_law:
  "lib_json_write strip_example_lib j = Some b \<Longrightarrow> lib_json_read strip_example_lib b = Some j"
  by (auto simp: strip_example_lib_def split: if_splits)

lemma strip_example_denied: "denied_url strip_example_lib [''evil''] ''evil'' = Some ''evil''"
proof -
  have low: "to_ascii_lowercase ''evil'' = ''evil''" "to_lowercase id ''evil'' = ''evil''" by code_simp+
  show ?thesis
    by (simp add: denied_url_def strip_example_lib_def low host_matches_search_engine_def
        host_matches_pattern_def compile_bypass_pattern_def Let_def)
qed

theorem browsing_gate_correct_witness:
  "inspect_browsing_body strip_example_lib ''C''
     (default_agent_web_policy\<lparr>forbid_provider_browsing := True\<rparr>) = BD_Allow"
proof -
  let ?p = "default_agent_web_policy\<lparr>forbid_provider_browsing := True\<rparr>"
  let ?t = "JObj [(''type'', JStr ''web_search''), (''url'', JStr ''evil'')]"
  have forb: "tool_forbidden ?p ?t"
    by (simp add: tool_forbidden_def tool_name_def get_str_def json_get_def as_str_def
        default_agent_web_policy_def default_forbidden_browsing_tools_def)
  have read: "lib_json_read strip_example_lib ''B'' = Some strip_example"
    "json_get ''tools'' strip_example = Some (JArr [?t])" "forbid_provider_browsing ?p"
    by (simp_all add: strip_example_lib_def strip_example_def json_get_def)
  have left: "json_put ''tools'' (JArr (filter (\<lambda>t. \<not> tool_forbidden ?p t) [?t])) strip_example = strip_example_left"
    using forb by (simp add: strip_example_def strip_example_left_def json_put_def)
  then have written: "lib_json_write strip_example_lib
      (json_put ''tools'' (JArr (filter (\<lambda>t. \<not> tool_forbidden ?p t) [?t])) strip_example) \<noteq> None"
    by (simp add: strip_example_lib_def)
  have strip: "inspect_browsing_body strip_example_lib ''B'' ?p = BD_Stripped [''web_search''] ''C''"
    using forb read left
    by (simp add: inspect_browsing_body_def strip_example_lib_def get_str_def as_str_def as_array_def
        json_get_def strip_example_def default_agent_web_policy_def Let_def tool_name_def)
  from browsing_gate_correct [OF read(3,1,2) strip_example_law written] show ?thesis
    by (simp add: strip)
qed

text \<open>
  A search response is passed only if the scan is off, there is no denylist or no
  denylisted URL is in its text; a stripped response, read back, has no array element with a
  denylisted \<open>Url\<close>, \<open>link\<close> or \<open>href\<close> at any depth, and every reported host is denied.
\<close>

theorem search_response_scan_correct:
  assumes law: "\<And>j b. lib_json_write L j = Some b \<Longrightarrow> lib_json_read L b = Some j"
  shows "case scan_search_response L body policy of
      SR_Pass \<Rightarrow> \<not> scan_search_responses policy \<or>
        denied_url_in_text L (lib_utf8_lossy L body) (url_destination_denylist policy) = None
    | SR_Block \<Rightarrow> denied_url_in_text L (lib_utf8_lossy L body) (url_destination_denylist policy) \<noteq> None
    | SR_Strip b dropped \<Rightarrow> search_response_strategy policy = ''strip'' \<and> dropped \<noteq> [] \<and>
        (\<exists>j. lib_json_read L b = Some j \<and> arrays_clean L (url_destination_denylist policy) j) \<and>
        (\<forall>h \<in> set dropped. host_matches_search_engine L h (url_destination_denylist policy))"
proof -
  let ?d = "url_destination_denylist policy"
  have strip: "\<exists>j. lib_json_read L b = Some j \<and> arrays_clean L ?d j"
      "\<forall>h \<in> set dropped. host_matches_search_engine L h ?d"
    if "strip_denied_results L body ?d = Some (b, dropped)" for b dropped
    using that law walk_clean [of L ?d] walk_dropped [of _ L ?d]
    by (auto simp: strip_denied_results_def split: option.splits prod.splits) (metis fst_conv snd_conv)+
  show ?thesis
    by (auto simp: scan_search_response_def Let_def denied_url_in_text_def strip
        split: option.split if_split)
qed


lemma strip_example_scan:
  "scan_search_response strip_example_lib ''B''
     (default_agent_web_policy\<lparr>url_destination_denylist := [''evil''], search_response_strategy := ''strip''\<rparr>)
   = SR_Strip ''C'' [''evil'']"
proof -
  have "walk_and_strip strip_example_lib [''evil''] strip_example = (strip_example_left, [''evil''])"
    using strip_example_denied
    by (simp add: strip_example_def strip_example_left_def Let_def denied_entry_def entry_url_def
        json_get_def as_str_def List.map_filter_simps)
  moreover have "denied_url_in_text strip_example_lib ''B'' [''evil''] = Some ''evil''"
    using strip_example_denied
    by (simp add: denied_url_in_text_def extract_urls_def strip_example_lib_def Let_def)
  moreover have "lib_json_read strip_example_lib ''B'' = Some strip_example"
    "lib_json_write strip_example_lib strip_example_left = Some ''C''"
    "lib_utf8_lossy strip_example_lib ''B'' = ''B''"
    by (simp_all add: strip_example_lib_def)
  ultimately show ?thesis
    by (simp add: scan_search_response_def strip_denied_results_def default_agent_web_policy_def)
qed

theorem search_response_scan_correct_witness:
  "arrays_clean strip_example_lib [''evil''] strip_example_left"
  using search_response_scan_correct [OF strip_example_law, where body = "''B''" and policy =
    "default_agent_web_policy\<lparr>url_destination_denylist := [''evil''], search_response_strategy := ''strip''\<rparr>"]
  by (simp add: strip_example_scan) (simp add: strip_example_lib_def)

text \<open>
  Stripping one entry is enough for the response to be passed on: a denylisted URL elsewhere in
  it, here in a text field, is still there.
\<close>

lemma strip_keeps_other_urls:
  "\<exists>j. scan_search_response strip_example_lib ''B''
       (default_agent_web_policy\<lparr>url_destination_denylist := [''evil''],
          search_response_strategy := ''strip''\<rparr>) = SR_Strip ''C'' [''evil''] \<and>
     lib_json_read strip_example_lib ''C'' = Some j \<and>
     denied_url_in_json_text strip_example_lib [''evil''] j = Some ''evil''"
proof -
  have "lib_json_read strip_example_lib ''C'' = Some strip_example_left"
    by (simp add: strip_example_lib_def)
  moreover have "denied_url_in_text strip_example_lib ''evil'' [''evil''] = Some ''evil''"
    using strip_example_denied
    by (simp add: denied_url_in_text_def extract_urls_def strip_example_lib_def Let_def)
  ultimately show ?thesis using strip_example_scan by (simp add: strip_example_left_def)
qed

end
