(* ===== verification/Credentials.thy ===== *)
theory Credentials
  imports Host_Patterns
begin

text \<open>
  The shared secret resolver (\<open>crates/secrets-client/src/resolver.rs\<close>) and the credential
  injector of the security proxy (\<open>crates/security-proxy/src/credentials.rs\<close>): mappings from
  hosts to secrets, the cache with its time to live and stale fallback, and the placement of
  the secret in the request.

  The fnox client, the base64 encoder and the Unicode tables are arguments.  Instants are
  natural numbers, in nanoseconds; \<open>now\<close> is the instant of the cache check and \<open>later\<close> the one after the
  resolver has answered.
\<close>

section \<open>The resolver\<close>

datatype 'e secret_error = SecretNotFound string 'e

definition get_secret_from_fnox :: "(string \<Rightarrow> 'e + string) \<Rightarrow> string \<Rightarrow> 'e + string" where
  "get_secret_from_fnox fnox_get name = fnox_get name"

definition get_secret ::
  "(string \<Rightarrow> string) \<Rightarrow> (string \<rightharpoonup> string) \<Rightarrow> (string \<Rightarrow> 'e + string) \<Rightarrow> string \<Rightarrow>
   'e secret_error + string" where
  "get_secret uni env fnox_get name =
     (case env (to_uppercase uni name @ ''_API_KEY'') of
        Some token \<Rightarrow> Inr token
      | None \<Rightarrow>
          (case get_secret_from_fnox fnox_get name of
             Inr secret \<Rightarrow> Inr secret
           | Inl err \<Rightarrow> Inl (SecretNotFound name err)))"

section \<open>Data\<close>

datatype injection_method = Bearer | Basic string | HeaderM string string | QueryParamM string

datatype credential_injection = InjHeader string string | InjQuery string string

record credential_mapping =
  hosts :: "string list"
  secret_name :: string
  injection :: injection_method

record credentials_config =
  cfg_mappings :: "credential_mapping list"
  cache_ttl_secs :: u64

definition default_ttl :: u64 where
  "default_ttl = 300"

record cached_secret =
  cs_value :: string
  cs_resolved_at :: nat

record credential_injector =
  cache :: "string \<rightharpoonup> cached_secret"
  mappings :: "credential_mapping list"
  cache_ttl :: nat

definition builtin_mappings :: "credential_mapping list" where
  "builtin_mappings =
    [\<lparr>hosts = [''openai.com''], secret_name = ''openai'', injection = Bearer\<rparr>,
     \<lparr>hosts = [''anthropic.com''], secret_name = ''anthropic'', injection = HeaderM ''x-api-key'' []\<rparr>,
     \<lparr>hosts = [''generativelanguage.googleapis.com''], secret_name = ''google'', injection = Bearer\<rparr>,
     \<lparr>hosts = [''openrouter.ai''], secret_name = ''openrouter'', injection = Bearer\<rparr>,
     \<lparr>hosts = [''moonshot.cn''], secret_name = ''kimi'', injection = Bearer\<rparr>,
     \<lparr>hosts = [''github.com''], secret_name = ''github'', injection = Bearer\<rparr>,
     \<lparr>hosts = [''cloudflare.com''], secret_name = ''cloudflare'', injection = Bearer\<rparr>]"

definition with_config :: "credentials_config option \<Rightarrow> credential_injector" where
  "with_config config =
     (case config of
        Some cfg \<Rightarrow> \<lparr>cache = Map.empty, mappings = cfg_mappings cfg,
                      cache_ttl = unat (cache_ttl_secs cfg) * 1000000000\<rparr>
      | None \<Rightarrow> \<lparr>cache = Map.empty, mappings = builtin_mappings, cache_ttl = 0\<rparr>)"

section \<open>Operations\<close>

definition find_mapping ::
  "(string \<Rightarrow> string) \<Rightarrow> credential_injector \<Rightarrow> string \<Rightarrow> credential_mapping option" where
  "find_mapping uni ci host =
     (let host_lower = to_lowercase uni host in
      find (\<lambda>m. list_ex (\<lambda>pattern. dns_boundary_match uni host_lower pattern) (hosts m))
        (mappings ci))"

definition detect_provider_pub ::
  "(string \<Rightarrow> string) \<Rightarrow> credential_injector \<Rightarrow> string \<Rightarrow> string option" where
  "detect_provider_pub uni ci host = map_option secret_name (find_mapping uni ci host)"

definition get_cached :: "(string \<Rightarrow> string) \<Rightarrow> credential_injector \<Rightarrow> string \<Rightarrow> string option" where
  "get_cached uni ci name = map_option cs_value (cache ci (to_lowercase uni name))"

definition add_credential ::
  "(string \<Rightarrow> string) \<Rightarrow> nat \<Rightarrow> credential_injector \<Rightarrow> string \<Rightarrow> string \<Rightarrow> credential_injector" where
  "add_credential uni now ci name val =
     ci\<lparr>cache := (cache ci)(to_lowercase uni name \<mapsto> \<lparr>cs_value = val, cs_resolved_at = now\<rparr>)\<rparr>"

text \<open>\<open>load_from_env\<close>: the legacy variables, in the order of the environment.\<close>

fun load_from_env ::
  "(string \<Rightarrow> string) \<Rightarrow> nat \<Rightarrow> credential_injector \<Rightarrow> (string \<times> string) list \<Rightarrow>
   credential_injector" where
  "load_from_env uni now ci [] = ci"
| "load_from_env uni now ci ((key, val) # vars) =
     (case strip_prefix ''ZEROGATE_KEY_'' key of
        Some provider \<Rightarrow>
          load_from_env uni now (add_credential uni now ci (to_lowercase uni provider) val) vars
      | None \<Rightarrow> load_from_env uni now ci vars)"

definition resolve_secret ::
  "(string \<Rightarrow> string) \<Rightarrow> (string \<Rightarrow> 'e + string) \<Rightarrow> nat \<Rightarrow> nat \<Rightarrow> credential_injector \<Rightarrow>
   string \<Rightarrow> string option \<times> credential_injector" where
  "resolve_secret uni resolver now later ci name =
     (let key = to_lowercase uni name in
      case cache ci key of
        Some entry \<Rightarrow>
          if cache_ttl ci = 0 \<or> now - cs_resolved_at entry < cache_ttl ci
          then (Some (cs_value entry), ci)
          else (case resolver key of
                  Inr secret \<Rightarrow>
                    (Some secret,
                     ci\<lparr>cache := (cache ci)(key \<mapsto> \<lparr>cs_value = secret, cs_resolved_at = later\<rparr>)\<rparr>)
                | Inl e \<Rightarrow> (Some (cs_value entry), ci))
      | None \<Rightarrow>
          (case resolver key of
             Inr secret \<Rightarrow>
               (Some secret,
                ci\<lparr>cache := (cache ci)(key \<mapsto> \<lparr>cs_value = secret, cs_resolved_at = later\<rparr>)\<rparr>)
           | Inl e \<Rightarrow> (None, ci)))"

definition ensure_cached ::
  "(string \<Rightarrow> string) \<Rightarrow> (string \<Rightarrow> 'e + string) \<Rightarrow> nat \<Rightarrow> nat \<Rightarrow> credential_injector \<Rightarrow>
   string \<Rightarrow> bool \<times> credential_injector" where
  "ensure_cached uni resolver now later ci name =
     (case resolve_secret uni resolver now later ci name of (r, ci') \<Rightarrow> (r \<noteq> None, ci'))"

definition format_injection ::
  "(string \<Rightarrow> string) \<Rightarrow> injection_method \<Rightarrow> string \<Rightarrow> credential_injection" where
  "format_injection b64 meth secret =
     (case meth of
        Bearer \<Rightarrow> InjHeader ''Authorization'' (''Bearer '' @ secret)
      | Basic username \<Rightarrow>
          InjHeader ''Authorization'' (''Basic '' @ b64 (username @ '':'' @ secret))
      | HeaderM name pre \<Rightarrow> InjHeader name (pre @ secret)
      | QueryParamM name \<Rightarrow> InjQuery name secret)"

definition injections_for_host ::
  "(string \<Rightarrow> string) \<Rightarrow> (string \<Rightarrow> string) \<Rightarrow> (string \<Rightarrow> 'e + string) \<Rightarrow> nat \<Rightarrow> nat \<Rightarrow>
   credential_injector \<Rightarrow> string \<Rightarrow> credential_injection list \<times> credential_injector" where
  "injections_for_host uni b64 resolver now later ci host =
     (case find_mapping uni ci host of
        None \<Rightarrow> ([], ci)
      | Some m \<Rightarrow>
          (case resolve_secret uni resolver now later ci (secret_name m) of
             (Some secret, ci') \<Rightarrow> ([format_injection b64 (injection m) secret], ci')
           | (None, ci') \<Rightarrow> ([], ci')))"

text \<open>The header-only interface: query-parameter credentials are skipped.\<close>

definition inject ::
  "(string \<Rightarrow> string) \<Rightarrow> (string \<Rightarrow> string) \<Rightarrow> (string \<Rightarrow> 'e + string) \<Rightarrow> nat \<Rightarrow> nat \<Rightarrow>
   credential_injector \<Rightarrow> (string \<times> string) list \<Rightarrow> string \<Rightarrow>
   (string \<times> string) list \<times> credential_injector" where
  "inject uni b64 resolver now later ci headers host =
     (case injections_for_host uni b64 resolver now later ci host of
        (injs, ci') \<Rightarrow>
          (headers @ concat (map (\<lambda>i. case i of InjHeader n v \<Rightarrow> [(n, v)] | InjQuery n v \<Rightarrow> []) injs),
           ci'))"

section \<open>The cache as a keyed store\<close>

datatype 'e cred_op =
  Cred_Add string string nat
| Cred_Resolve string "string \<Rightarrow> 'e + string" nat nat

fun cred_step ::
  "(string \<Rightarrow> string) \<Rightarrow> credential_injector \<Rightarrow> 'e cred_op \<Rightarrow> credential_injector" where
  "cred_step uni ci (Cred_Add name val now) = add_credential uni now ci name val"
| "cred_step uni ci (Cred_Resolve name resolver now later) =
     snd (resolve_secret uni resolver now later ci name)"

definition cred_look :: "credential_injector \<Rightarrow> string \<Rightarrow> string option" where
  "cred_look ci key = map_option cs_value (cache ci key)"

fun cred_touches :: "(string \<Rightarrow> string) \<Rightarrow> 'e cred_op \<Rightarrow> string \<Rightarrow> bool" where
  "cred_touches uni (Cred_Add name val now) key = (key = to_lowercase uni name)"
| "cred_touches uni (Cred_Resolve name resolver now later) key = (key = to_lowercase uni name)"

fun cred_writes :: "(string \<Rightarrow> string) \<Rightarrow> 'e cred_op \<Rightarrow> string \<Rightarrow> string \<Rightarrow> bool" where
  "cred_writes uni (Cred_Add name val now) key v = (key = to_lowercase uni name \<and> v = val)"
| "cred_writes uni (Cred_Resolve name resolver now later) key v =
     (key = to_lowercase uni name \<and> resolver key = Inr v)"

lemma resolve_secret_mappings [simp]:
  "mappings (snd (resolve_secret uni resolver now later ci name)) = mappings ci"
  "cache_ttl (snd (resolve_secret uni resolver now later ci name)) = cache_ttl ci"
  by (auto simp: resolve_secret_def Let_def split: option.split sum.split)

lemma resolve_secret_look:
  "cred_look (snd (resolve_secret uni resolver now later ci name)) key =
     (if key = to_lowercase uni name
      then fst (resolve_secret uni resolver now later ci name) else cred_look ci key)"
  by (auto simp: resolve_secret_def cred_look_def Let_def split: option.split sum.split)

lemma resolve_secret_value:
  "fst (resolve_secret uni resolver now later ci name) = Some v \<Longrightarrow>
   cred_look ci (to_lowercase uni name) = Some v \<or> resolver (to_lowercase uni name) = Inr v"
  by (auto simp: resolve_secret_def cred_look_def Let_def split: option.splits sum.splits if_splits)

lemma add_credential_look:
  "cred_look (add_credential uni now ci name val) key =
     (if key = to_lowercase uni name then Some val else cred_look ci key)"
  by (simp add: add_credential_def cred_look_def)

interpretation credential_cache: keyed_store "cred_step uni" cred_look "cred_touches uni" "cred_writes uni"
  for uni
proof
  fix x k s assume "\<not> cred_touches uni x k"
  then show "cred_look (cred_step uni s x) k = cred_look s k"
    by (cases x) (auto simp: resolve_secret_look add_credential_look)
next
  fix s x k v assume "cred_look (cred_step uni s x) k = Some v"
  then show "cred_look s k = Some v \<or> cred_writes uni x k v"
    by (cases x) (auto simp: resolve_secret_look add_credential_look dest: resolve_secret_value
        split: if_splits)
qed

interpretation credential_config: invariant_machine "cred_step uni"
    "\<lambda>s. mappings s = ms \<and> cache_ttl s = ttl"
  for uni ms ttl
  by unfold_locales (case_tac x; simp add: add_credential_def)

lemma find_mapping_host:
  assumes "find_mapping uni ci host = Some m"
  shows "m \<in> set (mappings ci) \<and>
    (\<exists>p \<in> set (hosts m). dns_boundary_match uni (to_lowercase uni host) p)"
  using assms by (auto simp: find_mapping_def Let_def find_Some_iff list_ex_iff)

lemma with_config_empty [simp]: "cache (with_config c) = Map.empty"
  by (simp add: with_config_def split: option.split)

lemma run_config:
  "mappings (run_ops (cred_step uni) ci ops) = mappings ci"
  "cache_ttl (run_ops (cred_step uni) ci ops) = cache_ttl ci"
  using credential_config.run_inv [of ci "mappings ci" "cache_ttl ci" uni ops] by simp_all

lemma resolve_secret_no_expiry:
  "cred_look s (to_lowercase uni name) = Some v \<Longrightarrow> cache_ttl s = 0 \<Longrightarrow>
   fst (resolve_secret uni r a b s name) = Some v"
  by (auto simp: resolve_secret_def cred_look_def)

section \<open>Properties\<close>



text \<open>
  With the built-in mappings (no configuration) the time to live is zero, which means no
  expiry: once a secret is cached, every later resolution returns this value, at any instant
  and whatever the resolver would answer, until it is added again by hand.
\<close>

theorem builtin_credentials_never_refresh:
  assumes "ci = run_ops (cred_step uni) (with_config None) ops"
    and "cred_look ci (to_lowercase uni name) = Some v"
    and "\<And>x. x \<in> set later_ops \<Longrightarrow> \<exists>n r a b. x = Cred_Resolve n r a b"
  shows "fst (resolve_secret uni resolver now later (run_ops (cred_step uni) ci later_ops) name) = Some v"
proof -
  have step: "cred_look (snd (resolve_secret uni r a b s n)) (to_lowercase uni name) = Some v"
    if s: "cred_look s (to_lowercase uni name) = Some v" "cache_ttl s = 0"
    for s n a b and r :: "string \<Rightarrow> 'b + string"
    using s by (auto simp: resolve_secret_def cred_look_def Let_def split: option.split sum.split)
  have "cache_ttl s = 0 \<Longrightarrow> cred_look s (to_lowercase uni name) = Some v \<Longrightarrow>
      cred_look (run_ops (cred_step uni) s later_ops) (to_lowercase uni name) = Some v" for s
    using assms(3)
  proof (induction later_ops arbitrary: s)
    case (Cons x xs)
    from Cons.prems(3) [of x] obtain n r a b where "x = Cred_Resolve n r a b" by auto
    with Cons step show ?case by simp
  qed simp
  moreover have "cache_ttl ci = 0" by (simp add: assms(1) run_config with_config_def)
  ultimately show ?thesis
    using assms(2) by (intro resolve_secret_no_expiry) (simp_all add: run_config)
qed

theorem builtin_credentials_never_refresh_witness:
  "fst (resolve_secret id (\<lambda>k. Inr ''rotated'' :: unit + string) 999 999
     (run_ops (cred_step id) (with_config None)
        [Cred_Resolve ''openai'' (\<lambda>k. Inr ''old'' :: unit + string) 0 0]) ''openai'') = Some ''old''"
proof -
  let ?ops = "[Cred_Resolve ''openai'' (\<lambda>k. Inr ''old'' :: unit + string) 0 0]"
  have "cred_look (run_ops (cred_step id) (with_config None) ?ops) (to_lowercase id ''openai'') = Some ''old''"
    by (simp add: cred_look_def resolve_secret_def)
  from builtin_credentials_never_refresh [OF refl this, of "[]" "\<lambda>k. Inr ''rotated'' :: unit + string" 999 999]
  show ?thesis by simp
qed

end
