(* ===== verification/Security_Gateway.thy ===== *)
theory Security_Gateway
  imports Secret_Metadata Substitution Agent_Web Credentials
begin

text \<open>
  The security proxy (\<open>crates/security-proxy/src/proxy.rs\<close>): identities from request headers,
  the placeholder environment of an agent, the policy gate in front of the secret resolver and
  the classification helpers of the request pipelines.

  Effects are values: a resolution returns, next to its result, the list of the secrets it
  asked the resolver for.  The iteration order of a hash set is the argument \<open>iter\<close>.
\<close>

section \<open>Configuration\<close>

record gateway_config =
  port :: "16 word"
  ca_cert_path :: "string option"
  ca_key_path :: "string option"
  scan_outbound :: bool
  scan_inbound :: bool
  scan_response_secrets :: bool
  inject_credentials :: bool
  manual_credential_override_requires_operator_approval :: bool
  bypass_domains :: "string list"
  audit_log :: bool
  secret_destination_allowlist :: "string \<rightharpoonup> string list"
  agent_web :: agent_web_policy
  secret_access :: secret_access_policy

definition default_gateway_config :: gateway_config where
  "default_gateway_config =
     \<lparr>port = 8888, ca_cert_path = None, ca_key_path = None, scan_outbound = False,
      scan_inbound = True, scan_response_secrets = False, inject_credentials = True,
      manual_credential_override_requires_operator_approval = True,
      bypass_domains = [''localhost'', ''127.0.0.1'', ''::1''], audit_log = True,
      secret_destination_allowlist = Map.empty, agent_web = default_agent_web_policy,
      secret_access = default_policy\<rparr>"

text \<open>\<open>parse_gateway_config_toml\<close>: two documented nested tables are lifted to the top.\<close>

definition hoist_table :: "string \<Rightarrow> toml \<Rightarrow> toml" where
  "hoist_table key value =
     (if toml_get key value \<noteq> None then value
      else (case Option.bind (toml_get ''security'' value) (toml_get key) of
              Some t \<Rightarrow> toml_insert key t value
            | None \<Rightarrow> value))"

definition parse_gateway_config_toml ::
  "(string \<Rightarrow> 'p + toml) \<Rightarrow> (toml \<Rightarrow> 'p + gateway_config) \<Rightarrow> string \<Rightarrow> 'p + gateway_config" where
  "parse_gateway_config_toml from_str try_into input =
     res_bind (from_str input)
       (\<lambda>value. try_into (hoist_table ''secret_access'' (hoist_table ''agent_web'' value)))"

section \<open>Identity headers\<close>

text \<open>A header map in iteration order; the value is \<open>None\<close> where \<open>to_str\<close> fails.\<close>

type_synonym header_map = "(string \<times> string option) list"

definition header_get :: "header_map \<Rightarrow> string \<Rightarrow> string option" where
  "header_get hs name = Option.bind (map_of hs name) (\<lambda>v. v)"

definition header_string :: "header_map \<Rightarrow> string \<Rightarrow> string option" where
  "header_string hs name =
     (case header_get hs name of
        None \<Rightarrow> None
      | Some v \<Rightarrow> if trim v = [] then None else Some (trim v))"

definition secret_access_identity_from_headers :: "header_map \<Rightarrow> secret_access_identity" where
  "secret_access_identity_from_headers hs =
     \<lparr>agent_id = or_else (header_string hs ''x-calciforge-agent-id'') (header_string hs ''x-agent-id''),
      user_id = header_string hs ''x-calciforge-user-id'',
      channel = or_else (header_string hs ''x-calciforge-channel-id'')
                        (header_string hs ''x-calciforge-channel'')\<rparr>"

section \<open>Placeholder environment\<close>

datatype placeholder_env_error =
  PartialSecretReference string
| EnvSecretReference string substitution_error
| EnvPlaceholderMap string placeholder_map_error

definition generate_secret_placeholder ::
  "string \<Rightarrow> placeholder_map \<Rightarrow> string \<Rightarrow> string \<Rightarrow>
   (placeholder_map_error + string) \<times> placeholder_map" where
  "generate_secret_placeholder uuid pm agent name =
     (case generate_placeholder_token uuid name of
        Inl e \<Rightarrow> (Inl e, pm)
      | Inr token \<Rightarrow>
          (case pm_insert pm agent token name of
             (Inl e, pm') \<Rightarrow> (Inl e, pm')
           | (Inr _, pm') \<Rightarrow> (Inr token, pm')))"

text \<open>The environment is the list of its entries, in the iteration order of the map.\<close>

fun env_plan ::
  "(string set \<Rightarrow> string list) \<Rightarrow> (string \<times> string) list \<Rightarrow>
   placeholder_env_error + (string \<times> string) list" where
  "env_plan iter [] = Inr []"
| "env_plan iter ((key, value) # env) =
     (if \<not> str_contains REF_OPEN value then env_plan iter env
      else (case find_refs value of
        Inl e \<Rightarrow> Inl (EnvSecretReference key e)
      | Inr names \<Rightarrow>
          (case iter names of
             [] \<Rightarrow> env_plan iter env
           | name # _ \<Rightarrow>
               if length (iter names) \<noteq> 1 \<or> value \<noteq> REF_OPEN @ name @ ''}}''
               then Inl (PartialSecretReference key)
               else (case env_plan iter env of
                       Inl e \<Rightarrow> Inl e
                     | Inr plan \<Rightarrow> Inr ((key, name) # plan)))))"

definition unregister_tokens :: "string \<Rightarrow> string list \<Rightarrow> placeholder_map \<Rightarrow> placeholder_map" where
  "unregister_tokens agent tokens pm = fold (\<lambda>t pm. snd (pm_remove pm agent t)) tokens pm"

text \<open>\<open>uuids\<close> gives the random identifiers in the order they are drawn.\<close>

fun env_register ::
  "string \<Rightarrow> string list \<Rightarrow> string list \<Rightarrow> placeholder_map \<Rightarrow> (string \<rightharpoonup> string) \<Rightarrow>
   (string \<times> string) list \<Rightarrow>
   (placeholder_env_error + (string \<rightharpoonup> string)) \<times> placeholder_map" where
  "env_register agent uuids registered pm rendered [] = (Inr rendered, pm)"
| "env_register agent uuids registered pm rendered ((key, name) # plan) =
     (case generate_secret_placeholder (hd uuids) pm agent name of
        (Inl e, pm') \<Rightarrow>
          (Inl (EnvPlaceholderMap key e), unregister_tokens agent registered pm')
      | (Inr token, pm') \<Rightarrow>
          env_register agent (tl uuids) (registered @ [token]) pm' (rendered(key \<mapsto> token)) plan)"

definition generate_secret_placeholder_env ::
  "(string set \<Rightarrow> string list) \<Rightarrow> string list \<Rightarrow> placeholder_map \<Rightarrow> string \<Rightarrow>
   (string \<times> string) list \<Rightarrow>
   (placeholder_env_error + (string \<rightharpoonup> string)) \<times> placeholder_map" where
  "generate_secret_placeholder_env iter uuids pm agent env =
     (case env_plan iter env of
        Inl e \<Rightarrow> (Inl e, pm)
      | Inr plan \<Rightarrow> env_register agent uuids [] pm (map_of env) plan)"

section \<open>The policy gate\<close>

datatype 'e gate_error =
  NotForIdentity string
| MetadataUnavailable
| NotAtDestination string string
| SubstitutionFailed substitution_error
| UnresolvableRef string 'e
| UnknownPlaceholder placeholder_resolution_error

definition host_matches :: "web_lib \<Rightarrow> string \<Rightarrow> string \<Rightarrow> bool" where
  "host_matches L = host_matches_pattern (lib_uni L) (lib_escape L) (lib_regex L)"

definition destination_patterns_allow :: "web_lib \<Rightarrow> string list \<Rightarrow> string \<Rightarrow> bool" where
  "destination_patterns_allow L patterns host =
     (if patterns = [] then False else list_ex (\<lambda>pattern. host_matches L host pattern) patterns)"

definition is_destination_allowed ::
  "web_lib \<Rightarrow> gateway_config \<Rightarrow> string \<Rightarrow> string \<Rightarrow> secret_metadata_store \<Rightarrow> bool" where
  "is_destination_allowed L cfg name host metadata =
     (let static_allowed =
        (case secret_destination_allowlist cfg name of
           None \<Rightarrow> True | Some patterns \<Rightarrow> destination_patterns_allow L patterns host)
      in if \<not> static_allowed then False
         else (case secrets metadata name of
                 None \<Rightarrow> True
               | Some m \<Rightarrow> md_allowed_destinations m = [] \<or>
                   destination_patterns_allow L (md_allowed_destinations m) host))"

definition ensure_secret_allowed_for_substitution ::
  "web_lib \<Rightarrow> gateway_config \<Rightarrow> string option \<Rightarrow> secret_metadata_store option \<Rightarrow>
   secret_access_identity \<Rightarrow> string \<Rightarrow> 'e gate_error + unit" where
  "ensure_secret_allowed_for_substitution L cfg dest_host metadata identity name =
     (if \<not> policy_allows (secret_access cfg) identity name then Inl (NotForIdentity name)
      else (case dest_host of
        None \<Rightarrow> Inr ()
      | Some host \<Rightarrow>
     (case metadata of
        None \<Rightarrow> Inl MetadataUnavailable
      | Some md \<Rightarrow>
          if \<not> is_destination_allowed L cfg name (to_lowercase (lib_uni L) host) md
          then Inl (NotAtDestination name host)
          else Inr ())))"

fun resolve_all ::
  "(string \<Rightarrow> 'e + string) \<Rightarrow> (string \<rightharpoonup> string) \<Rightarrow> string list \<Rightarrow>
   ('e gate_error + (string \<rightharpoonup> string)) \<times> string list" where
  "resolve_all resolver resolved [] = (Inr resolved, [])"
| "resolve_all resolver resolved (name # names) =
     (case resolver name of
        Inr value \<Rightarrow>
          (case resolve_all resolver (resolved(name \<mapsto> value)) names of
             (r, asked) \<Rightarrow> (r, name # asked))
      | Inl e \<Rightarrow> (Inl (UnresolvableRef name e), [name]))"

definition resolve_and_substitute ::
  "web_lib \<Rightarrow> gateway_config \<Rightarrow> (string set \<Rightarrow> string list) \<Rightarrow> (string \<Rightarrow> 'e + string) \<Rightarrow>
   string \<Rightarrow> string option \<Rightarrow> secret_metadata_store option \<Rightarrow> secret_access_identity \<Rightarrow>
   ('e gate_error + string) \<times> string list" where
  "resolve_and_substitute L cfg iter resolver input dest_host metadata identity =
     (case find_refs input of
        Inl e \<Rightarrow> (Inl (SubstitutionFailed e), [])
      | Inr names \<Rightarrow>
          if names = {} then (Inr input, [])
          else (case try_each
                  (ensure_secret_allowed_for_substitution L cfg dest_host metadata identity)
                  (iter names) of
             Inl e \<Rightarrow> (Inl e, [])
           | Inr _ \<Rightarrow>
               (case resolve_all resolver Map.empty (iter names) of
                  (Inl e, asked) \<Rightarrow> (Inl e, asked)
                | (Inr resolved, asked) \<Rightarrow>
                    (case substitute input resolved of
                       Inl e \<Rightarrow> (Inl (SubstitutionFailed e), asked)
                     | Inr out \<Rightarrow> (Inr out, asked)))))"

definition resolve_placeholder_secret_names ::
  "web_lib \<Rightarrow> gateway_config \<Rightarrow> (string set \<Rightarrow> string list) \<Rightarrow> placeholder_map \<Rightarrow> string \<Rightarrow>
   string option \<Rightarrow> secret_metadata_store option \<Rightarrow> secret_access_identity \<Rightarrow>
   'e gate_error + (string \<rightharpoonup> string)" where
  "resolve_placeholder_secret_names L cfg iter pm input dest_host metadata identity =
     (let tokens = find_placeholder_tokens input in
      if tokens = {} then Inr Map.empty
      else (case pm_resolve_tokens pm identity (iter tokens) of
        Inl e \<Rightarrow> Inl (UnknownPlaceholder e)
      | Inr resolved \<Rightarrow>
          (case try_each
                  (ensure_secret_allowed_for_substitution L cfg dest_host metadata identity)
                  (map (\<lambda>t. the (resolved t)) (iter tokens)) of
             Inl e \<Rightarrow> Inl e
           | Inr _ \<Rightarrow> Inr resolved)))"

section \<open>Classification\<close>

datatype body_mode = FullSubstitute | RawScan

text \<open>\<open>ct.split(';').next().unwrap_or("")\<close>\<close>

definition media_type :: "string \<Rightarrow> string" where
  "media_type ct = hd (split_char (CHR '';'') ct)"

definition body_substitution_mode ::
  "(string \<Rightarrow> string) \<Rightarrow> string option \<Rightarrow> body_mode" where
  "body_substitution_mode uni content_type =
     (case content_type of
        None \<Rightarrow> RawScan
      | Some ct \<Rightarrow>
          (let head = trim (media_type (to_lowercase uni ct)) in
           if head = ''application/json'' \<or> suffix ''+json'' head \<or>
              head = ''application/x-www-form-urlencoded'' \<or> prefix ''text/'' head
           then FullSubstitute else RawScan))"

definition looks_like_json_content_type :: "string \<Rightarrow> bool" where
  "looks_like_json_content_type ct =
     (let head = to_ascii_lowercase (trim (media_type ct)) in
      head = ''application/json'' \<or> suffix ''+json'' head)"

definition looks_like_scannable_content_type :: "string \<Rightarrow> bool" where
  "looks_like_scannable_content_type ct =
     (let head = to_ascii_lowercase (trim (media_type ct)) in
      prefix ''text/'' head \<or> head = ''application/json'' \<or> suffix ''+json'' head \<or>
      head = ''application/javascript'' \<or> head = ''application/x-javascript'' \<or>
      head = ''application/xml'' \<or> suffix ''+xml'' head \<or> head = ''application/xhtml+xml'' \<or>
      head = ''image/svg+xml'' \<or> head = ''application/x-www-form-urlencoded'' \<or>
      head = ''application/graphql'' \<or> head = ''application/yaml'' \<or>
      head = ''application/x-yaml'')"

definition check_bypassed :: "web_lib \<Rightarrow> gateway_config \<Rightarrow> string \<Rightarrow> bool" where
  "check_bypassed L cfg url =
     (case lib_url_host L url of
        None \<Rightarrow> False
      | Some host \<Rightarrow>
          list_ex (\<lambda>pattern. host_matches L (to_lowercase (lib_uni L) host) pattern)
            (bypass_domains cfg))"

fun windows :: "nat \<Rightarrow> 'a list \<Rightarrow> 'a list list" where
  "windows n [] = []"
| "windows n (x # xs) = (if length (x # xs) < n then [] else take n (x # xs) # windows n xs)"

definition memchr_substr :: "string \<Rightarrow> string \<Rightarrow> bool" where
  "memchr_substr haystack needle =
     (if needle = [] \<or> length haystack < length needle then False
      else list_ex (\<lambda>w. w = needle) (windows (length needle) haystack))"

text \<open>
  Character by character on the text: a character of several bytes becomes one blank, so its
  continuation bytes are dropped and its first byte is replaced.
\<close>

definition continuation_byte :: "char \<Rightarrow> bool" where
  "continuation_byte c \<longleftrightarrow> 0x80 \<le> (of_char c :: nat) \<and> (of_char c :: nat) < 0xC0"

definition sanitize_header_value :: "string \<Rightarrow> string" where
  "sanitize_header_value s =
     map (\<lambda>c. if c = CHR 0x09 \<or> (0x20 \<le> (of_char c :: nat) \<and> (of_char c :: nat) \<le> 0x7E)
              then c else CHR '' '') (filter (\<lambda>c. \<not> continuation_byte c) s)"

section \<open>The gate in front of the resolver\<close>

text \<open>A hash set is iterated completely and without repetition, in some order.\<close>

definition hash_iter :: "(string set \<Rightarrow> string list) \<Rightarrow> bool" where
  "hash_iter iter \<longleftrightarrow> (\<forall>S. finite S \<longrightarrow> set (iter S) = S \<and> distinct (iter S))"

lemma sorted_hash_iter: "hash_iter sorted_list_of_set"
  by (simp add: hash_iter_def)

definition gate_open ::
  "web_lib \<Rightarrow> gateway_config \<Rightarrow> string option \<Rightarrow> secret_metadata_store option \<Rightarrow>
   secret_access_identity \<Rightarrow> string \<Rightarrow> bool" where
  "gate_open L cfg dest_host metadata identity name \<longleftrightarrow>
     policy_allows (secret_access cfg) identity name \<and>
     (\<forall>host. dest_host = Some host \<longrightarrow>
        (\<exists>md. metadata = Some md \<and>
              is_destination_allowed L cfg name (to_lowercase (lib_uni L) host) md))"

lemma ensure_secret_allowed_iff:
  "ensure_secret_allowed_for_substitution L cfg dest metadata identity name = Inr () \<longleftrightarrow>
     gate_open L cfg dest metadata identity name"
  by (auto simp: ensure_secret_allowed_for_substitution_def gate_open_def split: option.splits)

lemma resolve_all_asked: "set (snd (resolve_all resolver resolved names)) \<subseteq> set names"
proof (induction names arbitrary: resolved)
  case (Cons n names)
  show ?case
  proof (cases "resolver n")
    case (Inr v)
    then show ?thesis
      using Cons [of "resolved(n \<mapsto> v)"]
      by (cases "resolve_all resolver (resolved(n \<mapsto> v)) names") (auto simp del: fun_upd_apply)
  qed simp
qed simp

lemma resolve_all_ok:
  "resolve_all resolver resolved names = (Inr m, asked) \<Longrightarrow>
   (\<forall>n \<in> set names. \<exists>v. resolver n = Inr v \<and> m n = Some v) \<and>
   (\<forall>n. n \<notin> set names \<longrightarrow> m n = resolved n)"
proof (induction names arbitrary: resolved m asked)
  case (Cons n names)
  then obtain v asked' where v: "resolver n = Inr v"
      "resolve_all resolver (resolved(n \<mapsto> v)) names = (Inr m, asked')"
    by (auto split: sum.splits prod.splits)
  from Cons.IH [OF v(2)] v(1) show ?case by (cases "n \<in> set names") auto
qed simp

lemma find_refs_finite: "find_refs input = Inr names \<Longrightarrow> finite names"
  by (erule find_refs_parsed) simp

lemma fill_cong: "(\<And>n. n \<in> snd ` set segs \<Longrightarrow> m n = m' n) \<Longrightarrow> fill m segs tail = fill m' segs tail"
  by (induction segs) auto

lemma resolve_and_substitute_gate:
  assumes "hash_iter iter"
    and "resolve_and_substitute L cfg iter resolver input dest metadata identity = (r, asked)"
    and "n \<in> set asked"
  shows "gate_open L cfg dest metadata identity n"
proof -
  obtain names where names: "find_refs input = Inr names" "names \<noteq> {}"
      "try_each (ensure_secret_allowed_for_substitution L cfg dest metadata identity) (iter names) =
        (Inr () :: 'a gate_error + unit)"
      "asked = snd (resolve_all resolver Map.empty (iter names))"
    using assms(2,3)
    by (auto simp: resolve_and_substitute_def split: sum.splits if_splits prod.splits)
  have "n \<in> set (iter names)" using resolve_all_asked names(4) assms(3) by blast
  with names(3) show ?thesis by (auto simp: try_each_ok_iff ensure_secret_allowed_iff)
qed

lemma resolve_and_substitute_Inr:
  assumes "hash_iter iter"
    and "resolve_and_substitute L cfg iter resolver input dest metadata identity = (Inr out, asked)"
  obtains segs tail where "parsed segs tail" "input = unparse segs tail"
    "out = fill (\<lambda>n. case resolver n of Inr v \<Rightarrow> Some v | Inl _ \<Rightarrow> None) segs tail"
    "\<And>n. n \<in> snd ` set segs \<Longrightarrow> is_ok (resolver n) \<and> gate_open L cfg dest metadata identity n"
proof -
  obtain names where names: "find_refs input = Inr names"
    using assms(2) by (auto simp: resolve_and_substitute_def split: sum.splits)
  obtain segs tail where p: "parsed segs tail" "input = unparse segs tail" "names = snd ` set segs"
    using names by (rule find_refs_parsed)
  let ?m = "\<lambda>n. case resolver n of Inr v \<Rightarrow> Some v | Inl _ \<Rightarrow> None"
  show thesis
  proof (cases "names = {}")
    case True
    with assms(2) names have "out = input" by (simp add: resolve_and_substitute_def)
    with True p show thesis by (intro that [of segs tail]) auto
  next
    case False
    with assms(2) names obtain m where
      gate: "try_each (ensure_secret_allowed_for_substitution L cfg dest metadata identity) (iter names) =
        (Inr () :: 'a gate_error + unit)" and
      m: "resolve_all resolver Map.empty (iter names) = (Inr m, asked)" and
      sub: "substitute input m = Inr out"
      by (simp add: resolve_and_substitute_def split: sum.splits prod.splits)
    have it: "set (iter names) = names"
      using assms(1) find_refs_finite [OF names] by (simp add: hash_iter_def)
    have val: "\<exists>v. resolver n = Inr v \<and> m n = Some v \<and> gate_open L cfg dest metadata identity n"
      if "n \<in> snd ` set segs" for n
    proof -
      from that it p(3) have n: "n \<in> set (iter names)" by simp
      with resolve_all_ok [OF m] obtain v where "resolver n = Inr v" "m n = Some v" by blast
      moreover have "gate_open L cfg dest metadata identity n"
        using gate n by (simp add: try_each_ok_iff ensure_secret_allowed_iff)
      ultimately show ?thesis by simp
    qed
    have "out = fill m segs tail"
      using sub substitute_unparse [OF p(1), of m] p(2) by (auto split: option.splits)
    also have "\<dots> = fill ?m segs tail" by (rule fill_cong) (use val in fastforce)
    finally have "out = fill ?m segs tail" .
    with p(1,2) show thesis
    proof (rule that)
      fix n assume "n \<in> snd ` set segs"
      with val [of n] show "is_ok (resolver n) \<and> gate_open L cfg dest metadata identity n"
        by auto
    qed
  qed
qed

section \<open>The placeholder environment\<close>

text \<open>What registration relies on: enough identifiers, all different, none used for the agent.\<close>

definition fresh_uuids :: "placeholder_map \<Rightarrow> string \<Rightarrow> string list \<Rightarrow> bool" where
  "fresh_uuids pm agent uuids \<longleftrightarrow>
     distinct uuids \<and>
     (\<forall>u \<in> set uuids. is_uuid u \<and>
        (\<forall>name. pm_look pm (trim agent, PLACEHOLDER_PREFIX @ name @ ''_'' @ u) = None))"

lemma token_uuid_inj:
  assumes "is_uuid u" "is_uuid u'"
    and "PLACEHOLDER_PREFIX @ n @ ''_'' @ u = PLACEHOLDER_PREFIX @ n' @ ''_'' @ u'"
  shows "n = n' \<and> u = u'"
proof -
  have "n @ ''_'' @ u = n' @ ''_'' @ u'" using assms(3) by simp
  moreover have "length u = length u'" using assms(1,2) by (simp add: is_uuid_def)
  ultimately show ?thesis by (simp add: append_eq_append_conv)
qed

lemma generate_secret_placeholder_ok:
  assumes "fresh_uuids pm agent (u # us)" "validate_name name = Inr ()" "trim agent \<noteq> []"
  obtains pm' where
    "generate_secret_placeholder u pm agent name = (Inr (PLACEHOLDER_PREFIX @ name @ ''_'' @ u), pm')"
    "\<And>k. pm_look pm' k =
       (if k = (trim agent, PLACEHOLDER_PREFIX @ name @ ''_'' @ u) then Some name else pm_look pm k)"
    "fresh_uuids pm' agent us"
proof -
  let ?t = "PLACEHOLDER_PREFIX @ name @ ''_'' @ u"
  have u: "is_uuid u" and none: "pm_look pm (trim agent, ?t) = None"
    using assms(1) by (auto simp: fresh_uuids_def)
  have hint: "placeholder_name_hint ?t = Some name" by (rule hint_generated [OF u assms(2)])
  let ?pm' = "snd (pm_insert pm agent ?t name)"
  have "fst (pm_insert pm agent ?t name) = Inr ()"
    using pm_insert_result [of pm agent ?t name] assms(2,3) hint none by simp
  then have "generate_secret_placeholder u pm agent name = (Inr ?t, ?pm')"
    using assms(2)
    by (cases "pm_insert pm agent ?t name")
       (simp add: generate_secret_placeholder_def generate_placeholder_token_def)
  moreover have look: "pm_look ?pm' k = (if k = (trim agent, ?t) then Some name else pm_look pm k)" for k
    using pm_insert_look [of pm agent ?t name k] assms(2,3) hint none by auto
  moreover have "fresh_uuids ?pm' agent us"
    unfolding fresh_uuids_def
  proof (intro conjI ballI allI)
    fix u' m assume u': "u' \<in> set us"
    then have "is_uuid u'" "u' \<noteq> u" "pm_look pm (trim agent, PLACEHOLDER_PREFIX @ m @ ''_'' @ u') = None"
      using assms(1) by (auto simp: fresh_uuids_def)
    moreover from this have "PLACEHOLDER_PREFIX @ m @ ''_'' @ u' \<noteq> ?t"
      using token_uuid_inj [OF _ u] by blast
    ultimately show "is_uuid u'" "pm_look ?pm' (trim agent, PLACEHOLDER_PREFIX @ m @ ''_'' @ u') = None"
      unfolding look by simp_all
  qed (use assms(1) in \<open>simp add: fresh_uuids_def\<close>)
  ultimately show thesis by (rule that)
qed

lemma generate_secret_placeholder_empty:
  "validate_name name = Inr () \<Longrightarrow> trim agent = [] \<Longrightarrow>
   generate_secret_placeholder u pm agent name = (Inl EmptyAgentId, pm)"
  by (simp add: generate_secret_placeholder_def generate_placeholder_token_def pm_insert_def)

lemma env_plan_ok:
  assumes "hash_iter iter" "env_plan iter env = Inr plan"
  shows "(\<forall>(k, n) \<in> set plan. validate_name n = Inr () \<and> (k, REF_OPEN @ n @ ''}}'') \<in> set env) \<and>
    (\<forall>(k, v) \<in> set env. str_contains REF_OPEN v \<longrightarrow> (\<exists>n. (k, n) \<in> set plan \<and> v = REF_OPEN @ n @ ''}}'')) \<and>
    (distinct (map fst env) \<longrightarrow> distinct (map fst plan))"
  using assms(2)
proof (induction env arbitrary: plan)
  case Nil
  then show ?case by simp
next
  case (Cons kv env)
  obtain k v where kv: "kv = (k, v)" by (cases kv)
  show ?case
  proof (cases "str_contains REF_OPEN v")
    case False
    with Cons kv show ?thesis by force
  next
    case True
    then obtain names where names: "find_refs v = Inr names"
      using Cons.prems kv by (auto split: sum.splits)
    from names obtain segs tail where p: "parsed segs tail" "v = unparse segs tail" "names = snd ` set segs"
      by (rule find_refs_parsed)
    have it: "set (iter names) = names"
      using assms(1) find_refs_finite [OF names] by (simp add: hash_iter_def)
    have "names \<noteq> {}" using p True by (cases segs) auto
    then obtain n ns where n: "iter names = n # ns" using it by (cases "iter names") auto
    then have nv: "v = REF_OPEN @ n @ ''}}''" "env_plan iter env \<noteq> Inl e" for e
      using Cons.prems kv True names by (auto split: if_splits sum.splits)
    then obtain plan' where plan': "env_plan iter env = Inr plan'" "plan = (k, n) # plan'"
      using Cons.prems kv True names n by (cases "env_plan iter env") (auto split: if_splits)
    have "n \<in> names" using n it by auto
    then have "validate_name n = Inr ()" using p(1,3) by (auto simp: parsed_def)
    with Cons.IH [OF plan'(1)] plan'(2) kv nv(1) show ?thesis by force
  qed
qed

lemma env_register_ok:
  "fresh_uuids pm agent uuids \<Longrightarrow> length plan \<le> length uuids \<Longrightarrow> trim agent \<noteq> [] \<Longrightarrow>
   \<forall>(k, n) \<in> set plan. validate_name n = Inr () \<Longrightarrow> distinct (map fst plan) \<Longrightarrow>
   \<exists>rendered' pm'. env_register agent uuids regs pm rendered plan = (Inr rendered', pm') \<and>
     (\<forall>k. k \<notin> fst ` set plan \<longrightarrow> rendered' k = rendered k) \<and>
     (\<forall>(k, n) \<in> set plan. \<exists>t. rendered' k = Some t \<and> placeholder_name_hint t = Some n \<and>
        pm_look pm' (trim agent, t) = Some n) \<and>
     (\<forall>k n. pm_look pm k = Some n \<longrightarrow> pm_look pm' k = Some n)"
proof (induction plan arbitrary: uuids regs pm rendered)
  case Nil
  then show ?case by simp
next
  case (Cons kn plan)
  obtain k n where kn: "kn = (k, n)" by (cases kn)
  obtain u us where us: "uuids = u # us" using Cons.prems(2) by (cases uuids) auto
  have n: "validate_name n = Inr ()" using Cons.prems(4) kn by simp
  let ?t = "PLACEHOLDER_PREFIX @ n @ ''_'' @ u"
  obtain pm1 where pm1: "generate_secret_placeholder u pm agent n = (Inr ?t, pm1)"
      "\<And>k. pm_look pm1 k = (if k = (trim agent, ?t) then Some n else pm_look pm k)"
      "fresh_uuids pm1 agent us"
    using generate_secret_placeholder_ok [OF Cons.prems(1) [unfolded us] n Cons.prems(3)] by metis
  have none: "pm_look pm (trim agent, ?t) = None" and hint: "placeholder_name_hint ?t = Some n"
    using Cons.prems(1) us hint_generated n by (auto simp: fresh_uuids_def)
  have len: "length plan \<le> length us" using Cons.prems(2) us by simp
  have val: "\<forall>(k, n) \<in> set plan. validate_name n = Inr ()" using Cons.prems(4) by simp
  have dist: "distinct (map fst plan)" using Cons.prems(5) by simp
  obtain rendered' pm' where IH:
      "env_register agent us (regs @ [?t]) pm1 (rendered(k \<mapsto> ?t)) plan = (Inr rendered', pm')"
      "\<forall>j. j \<notin> fst ` set plan \<longrightarrow> rendered' j = (rendered(k \<mapsto> ?t)) j"
      "\<forall>(k, n) \<in> set plan. \<exists>t. rendered' k = Some t \<and> placeholder_name_hint t = Some n \<and>
        pm_look pm' (trim agent, t) = Some n"
      "\<forall>k n. pm_look pm1 k = Some n \<longrightarrow> pm_look pm' k = Some n"
    using Cons.IH [OF pm1(3) len Cons.prems(3) val dist, of "regs @ [?t]" "rendered(k \<mapsto> ?t)"]
    by blast
  have "k \<notin> fst ` set plan" using Cons.prems(5) kn by simp
  then have "rendered' k = Some ?t" "pm_look pm' (trim agent, ?t) = Some n" using IH(2,4) pm1(2) by auto
  moreover have "pm_look pm' j = Some m" if "pm_look pm j = Some m" for j m
  proof -
    from that none have "j \<noteq> (trim agent, ?t)" by auto
    with that have "pm_look pm1 j = Some m" by (simp add: pm1(2))
    with IH(4) show ?thesis by blast
  qed
  ultimately show ?case using IH pm1(1) us kn hint by auto
qed

lemma env_register_empty:
  "trim agent = [] \<Longrightarrow> \<forall>(k, n) \<in> set plan. validate_name n = Inr () \<Longrightarrow>
   env_register agent uuids [] pm rendered plan =
     (case plan of [] \<Rightarrow> (Inr rendered, pm) | (k, n) # _ \<Rightarrow> (Inl (EnvPlaceholderMap k EmptyAgentId), pm))"
  by (cases plan) (auto simp: generate_secret_placeholder_empty unregister_tokens_def)

section \<open>Properties\<close>


definition example_gate_config :: gateway_config where
  "example_gate_config = default_gateway_config
     \<lparr>secret_destination_allowlist := [''OPENAI'' \<mapsto> [''openai.com'']]\<rparr>"

definition example_lib :: web_lib where
  "example_lib =
     \<lparr>lib_uni = id, lib_escape = escape_all, lib_regex = regex_read, lib_find_urls = \<lambda>t. [],
      lib_url_host = \<lambda>u. None, lib_json_read = \<lambda>b. None, lib_json_write = \<lambda>j. None,
      lib_utf8_lossy = id\<rparr>"

definition anonymous :: secret_access_identity where
  "anonymous = \<lparr>agent_id = None, user_id = None, channel = None\<rparr>"

lemma example_ref:
  assumes "is_valid_secret_name n"
  shows "find_refs (REF_OPEN @ n @ ''}}'') = Inr {n}"
    "m n = Some v \<Longrightarrow> substitute (REF_OPEN @ n @ ''}}'') m = Inr v"
proof -
  have "parsed [([], n)] []"
    using assms by (simp add: validate_name_ok) (simp add: REF_OPEN_def str_contains_def)
  from find_refs_unparse [OF this] substitute_unparse [OF this, of m]
  show "find_refs (REF_OPEN @ n @ ''}}'') = Inr {n}"
    "m n = Some v \<Longrightarrow> substitute (REF_OPEN @ n @ ''}}'') m = Inr v"
    by simp_all
qed

lemma example_gate:
  "gate_open example_lib example_gate_config (Some ''evil.com'') (Some empty_store) anonymous ''openai''"
  "\<not> gate_open example_lib example_gate_config (Some ''evil.com'') (Some empty_store) anonymous ''OPENAI''"
  "gate_open example_lib example_gate_config (Some ''api.openai.com'') (Some empty_store) anonymous ''OPENAI''"
proof -
  have low: "to_lowercase id ''openai.com'' = ''openai.com''"
      "to_lowercase id ''evil.com'' = ''evil.com''"
      "to_lowercase id ''api.openai.com'' = ''api.openai.com''" by code_simp+
  have lab: "labels ''openai.com'' = [''openai'', ''com'']" "labels ''evil.com'' = [''evil'', ''com'']"
      "labels ''api.openai.com'' = [''api'', ''openai'', ''com'']" by code_simp+
  have plain: "host_matches example_lib h ''openai.com'' = suffix (labels ''openai.com'') (labels h)"
    if "to_lowercase id h = h" for h
    using bypass.plain [of id "''openai.com''" h] that low
    by (simp add: host_matches_def example_lib_def)
  have evil: "\<not> host_matches example_lib ''evil.com'' ''openai.com''"
    and good: "host_matches example_lib ''api.openai.com'' ''openai.com''"
    using plain [OF low(2)] plain [OF low(3)] lab by (simp_all add: suffix_def)
  note defs = gate_open_def example_gate_config_def default_gateway_config_def default_policy_def
    policy_allows_def is_known_def anonymous_def is_destination_allowed_def empty_store_def
    destination_patterns_allow_def
  have uni: "lib_uni example_lib = id" by (simp add: example_lib_def)
  show "gate_open example_lib example_gate_config (Some ''evil.com'') (Some empty_store) anonymous ''openai''"
    by (simp add: defs)
  show "\<not> gate_open example_lib example_gate_config (Some ''evil.com'') (Some empty_store) anonymous ''OPENAI''"
    using evil by (simp add: defs uni low)
  show "gate_open example_lib example_gate_config (Some ''api.openai.com'') (Some empty_store) anonymous ''OPENAI''"
    using good by (simp add: defs uni low)
qed

lemma resolve_and_substitute_single:
  assumes "is_valid_secret_name n" and "gate_open L cfg dest metadata identity n"
    and "resolver n = Inr v"
  shows "resolve_and_substitute L cfg sorted_list_of_set resolver (REF_OPEN @ n @ ''}}'') dest metadata
    identity = (Inr v, [n])"
proof -
  have "try_each (ensure_secret_allowed_for_substitution L cfg dest metadata identity)
      (sorted_list_of_set {n}) = (Inr () :: 'a gate_error + unit)"
    by (simp add: ensure_secret_allowed_iff [THEN iffD2, OF assms(2)])
  then show ?thesis
    using example_ref [OF assms(1)] assms(3) by (simp add: resolve_and_substitute_def)
qed


text \<open>
  The allowlist is looked up by the name as written, while the environment variable behind the
  name does not depend on its case: another spelling of a restricted name is not restricted,
  and resolves to the same secret.
\<close>

lemma destination_allowlist_misses_other_spelling:
  "let resolver = get_secret id [''OPENAI_API_KEY'' \<mapsto> ''sk''] (\<lambda>_. Inl ());
       run = \<lambda>name. resolve_and_substitute example_lib example_gate_config sorted_list_of_set
                resolver (REF_OPEN @ name @ ''}}'') (Some ''evil.com'') (Some empty_store) anonymous
   in run ''OPENAI'' = (Inl (NotAtDestination ''OPENAI'' ''evil.com''), []) \<and>
      run ''openai'' = (Inr ''sk'', [''openai''])"
proof -
  have valid: "is_valid_secret_name ''OPENAI''" "is_valid_secret_name ''openai''" by code_simp+
  have up: "to_uppercase id ''openai'' = ''OPENAI''" by code_simp
  have "get_secret id [''OPENAI_API_KEY'' \<mapsto> ''sk''] (\<lambda>_. Inl ()) ''openai'' = Inr ''sk''"
    by (simp add: get_secret_def up)
  from resolve_and_substitute_single [where
      resolver = "get_secret id [''OPENAI_API_KEY'' \<mapsto> ''sk''] (\<lambda>_. Inl ())",
      OF valid(2) example_gate(1) this]
  have open_run: "resolve_and_substitute example_lib example_gate_config sorted_list_of_set
      (get_secret id [''OPENAI_API_KEY'' \<mapsto> ''sk''] (\<lambda>_. Inl ())) (REF_OPEN @ ''openai'' @ ''}}'')
      (Some ''evil.com'') (Some empty_store) anonymous = (Inr ''sk'', [''openai''])" .
  have "ensure_secret_allowed_for_substitution example_lib example_gate_config (Some ''evil.com'')
      (Some empty_store) anonymous ''OPENAI'' =
      (Inl (NotAtDestination ''OPENAI'' ''evil.com'') :: unit secret_error gate_error + unit)"
    using example_gate(2)
    by (auto simp: gate_open_def ensure_secret_allowed_for_substitution_def example_gate_config_def
        default_gateway_config_def default_policy_def policy_allows_def is_known_def anonymous_def)
  then have "resolve_and_substitute example_lib example_gate_config sorted_list_of_set
      (get_secret id [''OPENAI_API_KEY'' \<mapsto> ''sk''] (\<lambda>_. Inl ())) (REF_OPEN @ ''OPENAI'' @ ''}}'')
      (Some ''evil.com'') (Some empty_store) anonymous =
      (Inl (NotAtDestination ''OPENAI'' ''evil.com''), [])"
    using example_ref(1) [OF valid(1)] by (simp add: resolve_and_substitute_def)
  with open_run show ?thesis unfolding Let_def by (rule conjI [rotated])
qed

text \<open>
  Rendering an agent's environment: on success every value that mentions a secret was
  exactly one reference and is replaced by a token that is registered for this agent and names
  the same secret, every other value is unchanged, no key appears or disappears, and earlier
  registrations are kept; on an error the registry is as before.
\<close>

theorem placeholder_env_correct:
  assumes "hash_iter iter" and "distinct (map fst env)"
    and "fresh_uuids pm agent uuids" and "length env \<le> length uuids"
  shows "case generate_secret_placeholder_env iter uuids pm agent env of
      (Inr rendered, pm') \<Rightarrow>
        (\<forall>(k, v) \<in> set env.
           if str_contains REF_OPEN v
           then \<exists>n t. v = REF_OPEN @ n @ ''}}'' \<and> rendered k = Some t \<and>
                  placeholder_name_hint t = Some n \<and> pm_look pm' (trim agent, t) = Some n
           else rendered k = Some v) \<and>
        dom rendered = fst ` set env \<and>
        (\<forall>k n. pm_look pm k = Some n \<longrightarrow> pm_look pm' k = Some n)
    | (Inl e, pm') \<Rightarrow> pm' = pm"
proof (cases "env_plan iter env")
  case (Inl e)
  then show ?thesis by (simp add: generate_secret_placeholder_env_def)
next
  case (Inr plan)
  note plan = env_plan_ok [OF assms(1) Inr]
  have names: "\<forall>(k, n) \<in> set plan. validate_name n = Inr ()" using plan by fast
  have keys: "fst ` set plan \<subseteq> fst ` set env" using plan by force
  have dist: "distinct (map fst plan)" using plan assms(2) by blast
  have "card (fst ` set plan) \<le> card (fst ` set env)" using keys by (intro card_mono) simp_all
  then have len: "length plan \<le> length uuids"
    using distinct_card [OF dist] distinct_card [OF assms(2)] assms(4) by simp
  show ?thesis
  proof (cases "trim agent = []")
    case True
    show ?thesis
    proof (cases plan)
      case Nil
      then have "\<not> str_contains REF_OPEN v \<and> map_of env k = Some v" if "(k, v) \<in> set env" for k v
        using plan that assms(2) by (auto simp: map_of_eq_Some_iff)
      then show ?thesis using Nil Inr
        by (auto simp: generate_secret_placeholder_env_def dom_map_of_conv_image_fst)
    next
      case (Cons kn rest)
      then show ?thesis using env_register_empty [OF True names, of uuids pm "map_of env"] Inr
        by (cases kn) (simp add: generate_secret_placeholder_env_def)
    qed
  next
    case False
    from env_register_ok [OF assms(3) len False names dist, of "[]" "map_of env"]
    obtain rendered pm' where run: "env_register agent uuids [] pm (map_of env) plan = (Inr rendered, pm')"
      and other: "\<forall>k. k \<notin> fst ` set plan \<longrightarrow> rendered k = map_of env k"
      and planned: "\<forall>(k, n) \<in> set plan. \<exists>t. rendered k = Some t \<and> placeholder_name_hint t = Some n \<and>
        pm_look pm' (trim agent, t) = Some n"
      and kept: "\<forall>k n. pm_look pm k = Some n \<longrightarrow> pm_look pm' k = Some n"
      by blast
    have val: "if str_contains REF_OPEN v
        then \<exists>n t. v = REF_OPEN @ n @ ''}}'' \<and> rendered k = Some t \<and> placeholder_name_hint t = Some n \<and>
          pm_look pm' (trim agent, t) = Some n
        else rendered k = Some v" if kv: "(k, v) \<in> set env" for k v
    proof (cases "str_contains REF_OPEN v")
      case True
      then obtain n where "(k, n) \<in> set plan" "v = REF_OPEN @ n @ ''}}''" using plan kv by blast
      moreover from this planned obtain t where "rendered k = Some t" "placeholder_name_hint t = Some n"
          "pm_look pm' (trim agent, t) = Some n"
        by blast
      ultimately show ?thesis using True by auto
    next
      case no: False
      have "k \<notin> fst ` set plan"
      proof
        assume "k \<in> fst ` set plan"
        then obtain n where "(k, n) \<in> set plan" by auto
        then have "(k, REF_OPEN @ n @ ''}}'') \<in> set env" using plan by fast
        then have "v = REF_OPEN @ n @ ''}}''" using kv assms(2) by (metis map_of_eq_Some_iff option.inject)
        with no show False by (auto simp: str_contains_iff)
      qed
      with other no kv assms(2) show ?thesis by simp
    qed
    have dom: "dom rendered = fst ` set env"
    proof -
      have "rendered k \<noteq> None \<longleftrightarrow> k \<in> fst ` set env" for k
      proof (cases "k \<in> fst ` set plan")
        case True
        with planned have "rendered k \<noteq> None" by auto
        with True keys show ?thesis by blast
      next
        case False
        with other have "rendered k = map_of env k" by blast
        then show ?thesis by (simp add: map_of_eq_None_iff)
      qed
      then show ?thesis by (auto simp: dom_def)
    qed
    have "\<forall>(k, v) \<in> set env. if str_contains REF_OPEN v
        then \<exists>n t. v = REF_OPEN @ n @ ''}}'' \<and> rendered k = Some t \<and> placeholder_name_hint t = Some n \<and>
          pm_look pm' (trim agent, t) = Some n
        else rendered k = Some v"
      using val by blast
    with dom kept show ?thesis
      by (simp only: generate_secret_placeholder_env_def Inr sum.case run prod.case)
  qed
qed

theorem placeholder_env_correct_witness:
  "\<exists>rendered t. fst (generate_secret_placeholder_env sorted_list_of_set
       [''0123456789abcdef0123456789abcdef'', ''1123456789abcdef0123456789abcdef''] empty_placeholder_map ''a''
       [(''KEY'', REF_OPEN @ ''K'' @ ''}}''), (''HOME'', ''/root'')]) = Inr rendered \<and>
     rendered ''HOME'' = Some ''/root'' \<and> rendered ''KEY'' = Some t \<and> placeholder_name_hint t = Some ''K''"
proof -
  let ?us = "[''0123456789abcdef0123456789abcdef'', ''1123456789abcdef0123456789abcdef'']"
  let ?env = "[(''KEY'', REF_OPEN @ ''K'' @ ''}}''), (''HOME'', ''/root'')]"
  have uu: "is_uuid ''0123456789abcdef0123456789abcdef''" "is_uuid ''1123456789abcdef0123456789abcdef''"
    by code_simp+
  then have fresh: "fresh_uuids empty_placeholder_map ''a'' ?us" by (simp add: fresh_uuids_def)
  have ref: "find_refs (REF_OPEN @ ''K'' @ ''}}'') = Inr {''K''}"
    by (rule example_ref) code_simp
  have con: "str_contains REF_OPEN (REF_OPEN @ ''K'' @ ''}}'')" "\<not> str_contains REF_OPEN ''/root''"
    by code_simp+
  have plan: "env_plan sorted_list_of_set ?env = Inr [(''KEY'', ''K'')]" using ref con by simp
  have tr: "trim ''a'' = ''a''" by code_simp
  obtain rendered pm' where run:
    "generate_secret_placeholder_env sorted_list_of_set ?us empty_placeholder_map ''a'' ?env = (Inr rendered, pm')"
    using env_register_ok [OF fresh, of "[(''KEY'', ''K'')]" "[]" "map_of ?env"] plan tr
    by (auto simp: generate_secret_placeholder_env_def validate_name_ok is_valid_secret_name_def
        secret_name_byte_def ascii_alnum_def ascii_upper_def less_eq_char_def)
  from placeholder_env_correct [OF sorted_hash_iter _ fresh, of ?env] run con
  show ?thesis by auto
qed

end
