(* ===== verification/Adversary_Verdict.thy ===== *)
theory Adversary_Verdict
  imports Calci_Prelude
begin

text \<open>
  Verdicts and contexts of the content scanner (\<open>crates/adversary-detector/src/verdict.rs\<close>).
\<close>

datatype scan_verdict = Clean | Review string | Unsafe string

fun is_clean :: "scan_verdict \<Rightarrow> bool" where
  "is_clean Clean = True"
| "is_clean _ = False"

fun is_unsafe :: "scan_verdict \<Rightarrow> bool" where
  "is_unsafe (Unsafe _) = True"
| "is_unsafe _ = False"

fun is_review :: "scan_verdict \<Rightarrow> bool" where
  "is_review (Review _) = True"
| "is_review _ = False"

fun verdict_reason :: "scan_verdict \<Rightarrow> string option" where
  "verdict_reason Clean = None"
| "verdict_reason (Review reason) = Some reason"
| "verdict_reason (Unsafe reason) = Some reason"

fun verdict_name :: "scan_verdict \<Rightarrow> string" where
  "verdict_name Clean = ''clean''"
| "verdict_name (Review _) = ''review''"
| "verdict_name (Unsafe _) = ''unsafe''"

datatype scan_context = WebFetch | WebSearch | Email | Exec | Api | UserMessage

fun context_str :: "scan_context \<Rightarrow> string" where
  "context_str WebFetch = ''web_fetch''"
| "context_str WebSearch = ''web_search''"
| "context_str Email = ''email_fetch''"
| "context_str Exec = ''exec''"
| "context_str Api = ''api''"
| "context_str UserMessage = ''user_message''"

end
