(* ===== verification/Gateway_Intercept.thy ===== *)
theory Gateway_Intercept
  imports Security_Gateway Adversary_Verdict
begin

text \<open>
  The forward-proxy pipeline \<open>SecurityProxy::intercept\<close> (\<open>crates/security-proxy/src/proxy.rs\<close>),
  phase by phase in the order of the source: URL substitution, header filtering and
  substitution, body substitution, the agent-web gates, the outbound scan, credential
  injection, forwarding, and the scans of the response.

  Everything outside the crate that the pipeline calls is a field of \<open>gw_world\<close>.  A phase
  returns either the response it refuses the request with or its value, and the list of
  events: the secrets the resolver was asked for, with the destination, and the request sent.
\<close>

section \<open>Requests, responses and the world\<close>

record upstream_request =
  up_method :: string
  up_url :: string
  up_headers :: "(string \<times> string) list"
  up_body :: string

record upstream_response =
  ur_status :: nat
  ur_content_type :: "string option"
  ur_body :: string

record 'e gw_world =
  web :: web_lib
  w_iter :: "string set \<Rightarrow> string list"
  w_resolver :: "string \<Rightarrow> 'e + string"
  w_metadata :: "secret_metadata_store option"
  w_scan_remote :: "string \<Rightarrow> string \<Rightarrow> string \<Rightarrow> string \<Rightarrow> scan_verdict"
  w_scan :: "string \<Rightarrow> string \<Rightarrow> scan_verdict"
  w_redacted :: "string \<Rightarrow> string option"
  w_append_query :: "string \<Rightarrow> (string \<times> string) list \<Rightarrow> string option"
  w_utf8 :: "string \<Rightarrow> string option"
  w_b64 :: "string \<Rightarrow> string"
  w_now :: nat
  w_later :: nat
  w_send :: "upstream_request \<Rightarrow> string + upstream_response"

record proxy_request =
  rq_method :: string
  rq_has_scheme :: bool
  rq_uri :: string
  rq_path_query :: "string option"
  rq_headers :: header_map
  rq_body :: "string option"

datatype gw_text = Msg string | BrowsingMsg browsing_reason

datatype proxy_response = PolicyBlocked string gw_text | Passed nat string string

datatype gw_event = Asked string "string option" | Sent upstream_request

text \<open>The refusal is of type \<open>'r\<close>: the two proxy modes answer with different responses.\<close>

type_synonym ('r, 'a) stage = "('r + 'a) \<times> gw_event list"

type_synonym 'a phase = "(proxy_response, 'a) stage"

definition gw_bind :: "('r, 'a) stage \<Rightarrow> ('a \<Rightarrow> ('r, 'b) stage) \<Rightarrow> ('r, 'b) stage" where
  "gw_bind m f =
     (case m of
        (Inl r, evs) \<Rightarrow> (Inl r, evs)
      | (Inr x, evs) \<Rightarrow> (case f x of (r, evs') \<Rightarrow> (r, evs @ evs')))"

definition gw_ok :: "'a \<Rightarrow> ('r, 'a) stage" where
  "gw_ok x = (Inr x, [])"

definition gw_refuse :: "'r \<Rightarrow> ('r, 'a) stage" where
  "gw_refuse r = (Inl r, [])"

definition blocked_response :: "string \<Rightarrow> proxy_response" where
  "blocked_response reason = PolicyBlocked ''gateway.blocked'' (Msg reason)"

definition redact_url_for_log :: "'e gw_world \<Rightarrow> string \<Rightarrow> string" where
  "redact_url_for_log W url =
     (case w_redacted W url of Some r \<Rightarrow> r | None \<Rightarrow> ''<unparseable-url>'')"

text \<open>\<open>reqwest::Url::parse(url).ok().and_then(host_str)\<close>\<close>

definition url_host :: "'e gw_world \<Rightarrow> string \<Rightarrow> string option" where
  "url_host W = lib_url_host (web W)"

text \<open>\<open>resolve_and_substitute\<close>, with its refusal turned into the given response.\<close>

definition substitute_or ::
  "'r \<Rightarrow> 'e gw_world \<Rightarrow> gateway_config \<Rightarrow> string \<Rightarrow> string option \<Rightarrow>
   secret_metadata_store option \<Rightarrow> secret_access_identity \<Rightarrow> ('r, string) stage" where
  "substitute_or refusal W cfg input dest metadata identity =
     (case resolve_and_substitute (web W) cfg (w_iter W) (w_resolver W) input dest metadata identity of
        (Inr out, asked) \<Rightarrow> (Inr out, map (\<lambda>n. Asked n dest) asked)
      | (Inl _, asked) \<Rightarrow> (Inl refusal, map (\<lambda>n. Asked n dest) asked))"

text \<open>The metadata is loaded at the first text with a reference and a known destination.\<close>

definition need_metadata ::
  "'r \<Rightarrow> 'e gw_world \<Rightarrow> string \<Rightarrow> string option \<Rightarrow> secret_metadata_store option \<Rightarrow>
   ('r, secret_metadata_store option) stage" where
  "need_metadata refusal W input dest metadata =
     (if str_contains REF_OPEN input \<and> dest \<noteq> None \<and> metadata = None
      then (case w_metadata W of None \<Rightarrow> gw_refuse refusal | Some md \<Rightarrow> gw_ok (Some md))
      else gw_ok metadata)"

section \<open>URL\<close>

definition target_url :: "proxy_request \<Rightarrow> string" where
  "target_url req =
     (if rq_has_scheme req then rq_uri req
      else ''http://'' @
        (case header_get (rq_headers req) ''host'' of Some h \<Rightarrow> h | None \<Rightarrow> ''unknown'') @
        (case rq_path_query req of Some pq \<Rightarrow> pq | None \<Rightarrow> ''/''))"

definition url_refusal :: proxy_response where
  "url_refusal = PolicyBlocked ''secret_substitution.url''
     (Msg ''URL secret substitution failed. Check the secret exists and is allowed for this destination.'')"

definition url_phase ::
  "'e gw_world \<Rightarrow> gateway_config \<Rightarrow> proxy_request \<Rightarrow> secret_access_identity \<Rightarrow>
   (string \<times> secret_metadata_store option) phase" where
  "url_phase W cfg req identity =
     (let url = target_url req; host = url_host W url in
      if host = None \<and> str_contains REF_OPEN url
      then gw_refuse (PolicyBlocked ''secret_substitution.url''
        (Msg ''URL contains a secret reference but the host portion could not be parsed; the gateway refuses to substitute secrets without a known destination.''))
      else gw_bind (need_metadata url_refusal W url host None) (\<lambda>metadata.
           gw_bind (substitute_or url_refusal W cfg url host metadata identity) (\<lambda>url'.
           gw_ok (url', metadata))))"

section \<open>Headers\<close>

definition hop_by_hop :: "string \<Rightarrow> bool" where
  "hop_by_hop name \<longleftrightarrow>
     name \<in> set [''host'', ''connection'', ''content-length'', ''keep-alive'', ''proxy-authenticate'',
       ''proxy-authorization'', ''te'', ''trailers'', ''transfer-encoding'', ''upgrade'']"

definition control_header :: "string \<Rightarrow> bool" where
  "control_header name \<longleftrightarrow> prefix ''x-calciforge-'' name \<or> name = ''x-agent-id''"

text \<open>Header names are ASCII: \<open>to_lowercase\<close> is the byte-wise one.\<close>

definition original_headers :: "header_map \<Rightarrow> (string \<times> string) list" where
  "original_headers hs =
     List.map_filter (\<lambda>(k, v).
       let key = to_ascii_lowercase k in
       if hop_by_hop key \<or> control_header key then None else map_option (\<lambda>val. (k, val)) v) hs"

definition header_refusal :: proxy_response where
  "header_refusal = PolicyBlocked ''secret_substitution.header''
     (Msg ''Header secret substitution failed. Check the secret exists and is allowed for this destination.'')"

fun header_phase ::
  "'e gw_world \<Rightarrow> gateway_config \<Rightarrow> string option \<Rightarrow> secret_access_identity \<Rightarrow>
   secret_metadata_store option \<Rightarrow> (string \<times> string) list \<Rightarrow> (string \<times> string) list \<Rightarrow>
   ((string \<times> string) list \<times> secret_metadata_store option) phase" where
  "header_phase W cfg dest identity metadata acc [] = gw_ok (acc, metadata)"
| "header_phase W cfg dest identity metadata acc ((k, v) # hs) =
     gw_bind (need_metadata header_refusal W v dest metadata) (\<lambda>metadata'.
     gw_bind (substitute_or header_refusal W cfg v dest metadata' identity) (\<lambda>v'.
     header_phase W cfg dest identity metadata' (acc @ [(k, v')]) hs))"

section \<open>Body\<close>

definition content_type_of :: "(string \<times> string) list \<Rightarrow> string option" where
  "content_type_of hs =
     map_option snd (find (\<lambda>(k, _). to_ascii_lowercase k = ''content-type'') hs)"

definition body_refusal :: proxy_response where
  "body_refusal = PolicyBlocked ''secret_substitution.body''
     (Msg ''Body secret substitution failed. Check the secret exists, content type is supported, and destination is allowed.'')"

text \<open>The body to forward, and the body as the agent sent it for the remote scanner.\<close>

definition body_phase ::
  "'e gw_world \<Rightarrow> gateway_config \<Rightarrow> string option \<Rightarrow> secret_access_identity \<Rightarrow>
   secret_metadata_store option \<Rightarrow> string option \<Rightarrow> string option \<Rightarrow>
   (string \<times> string option) phase" where
  "body_phase W cfg dest identity metadata content_type body =
     (case body of
        None \<Rightarrow> gw_refuse (blocked_response ''Failed to read request body'')
      | Some bytes \<Rightarrow>
          if bytes = [] then gw_ok (bytes, None)
          else (case body_substitution_mode (lib_uni (web W)) content_type of
            FullSubstitute \<Rightarrow>
              (let body_str = lib_utf8_lossy (web W) bytes in
               gw_bind (need_metadata body_refusal W body_str dest metadata) (\<lambda>metadata'.
               gw_bind (substitute_or body_refusal W cfg body_str dest metadata' identity) (\<lambda>out.
               gw_ok (out, Some body_str))))
          | RawScan \<Rightarrow>
              if memchr_substr bytes REF_OPEN
              then gw_refuse (PolicyBlocked ''secret_substitution.body_unsupported_content_type''
                (Msg ''Body contains a secret reference but the content type is not supported for safe substitution.''))
              else gw_ok (bytes, None)))"

section \<open>Agent-web gates and the outbound scan\<close>

text \<open>The gates that both proxy modes share take the mode's policy refusal as \<open>block\<close>.\<close>

definition is_search_host :: "'e gw_world \<Rightarrow> gateway_config \<Rightarrow> string option \<Rightarrow> bool" where
  "is_search_host W cfg dest =
     (case dest of None \<Rightarrow> False
      | Some h \<Rightarrow> host_matches_search_engine (web W) h (search_engine_patterns (agent_web cfg)))"

definition is_llm_json :: "'e gw_world \<Rightarrow> gateway_config \<Rightarrow> string option \<Rightarrow> string option \<Rightarrow> bool" where
  "is_llm_json W cfg dest content_type \<longleftrightarrow>
     (case dest of None \<Rightarrow> False
      | Some h \<Rightarrow> host_is_known_llm_api (web W) h (known_llm_apis (agent_web cfg))) \<and>
     (case content_type of None \<Rightarrow> False | Some ct \<Rightarrow> looks_like_json_content_type ct)"

definition browsing_phase ::
  "(string \<Rightarrow> gw_text \<Rightarrow> 'r) \<Rightarrow> 'e gw_world \<Rightarrow> gateway_config \<Rightarrow> string \<Rightarrow> ('r, string) stage" where
  "browsing_phase block W cfg body =
     (case inspect_browsing_body (web W) body (agent_web cfg) of
        BD_Allow \<Rightarrow> gw_ok body
      | BD_Stripped _ b \<Rightarrow> gw_ok b
      | BD_Block reason \<Rightarrow>
          gw_refuse (block ''agent_web.forbid_provider_browsing'' (BrowsingMsg reason)))"

definition search_egress_phase ::
  "(string \<Rightarrow> gw_text \<Rightarrow> 'r) \<Rightarrow> 'e gw_world \<Rightarrow> gateway_config \<Rightarrow> string option \<Rightarrow> ('r, unit) stage" where
  "search_egress_phase block W cfg dest =
     (if forbid_search_engines (agent_web cfg) \<and> is_search_host W cfg dest
      then gw_refuse (block ''agent_web.forbid_search_engines''
        (Msg ''search engines disabled by [security.agent_web].forbid_search_engines''))
      else gw_ok ())"

definition llm_phase ::
  "(string \<Rightarrow> gw_text \<Rightarrow> 'r) \<Rightarrow> 'e gw_world \<Rightarrow> gateway_config \<Rightarrow> string option \<Rightarrow> string option \<Rightarrow>
   string \<Rightarrow> string option \<Rightarrow> ('r, string \<times> string option) stage" where
  "llm_phase block W cfg dest content_type body remote =
     (let llm = is_llm_json W cfg dest content_type in
      gw_bind (if llm \<and> body \<noteq> [] then browsing_phase block W cfg body else gw_ok body) (\<lambda>body'.
      gw_bind
        (case remote of
           Some r \<Rightarrow>
             if llm
             then (case inspect_browsing_body (web W) r (agent_web cfg) of
                     BD_Allow \<Rightarrow> gw_ok (Some r)
                   | BD_Stripped _ b \<Rightarrow> gw_ok (Some (lib_utf8_lossy (web W) b))
                   | BD_Block reason \<Rightarrow>
                       gw_refuse (block ''agent_web.forbid_provider_browsing''
                         (BrowsingMsg reason)))
             else gw_ok (Some r)
         | None \<Rightarrow> gw_ok None) (\<lambda>remote'.
      (case (if llm \<and> body' \<noteq> [] then preflight_message_urls (web W) body' (agent_web cfg) else None) of
         Some host \<Rightarrow>
           gw_refuse (block ''agent_web.preflight_message_urls''
             (Msg (''request references forbidden URL host: '' @ host)))
       | None \<Rightarrow> gw_ok (body', remote')))))"

definition outbound_scan_phase ::
  "'e gw_world \<Rightarrow> gateway_config \<Rightarrow> string \<Rightarrow> string \<Rightarrow> string option \<Rightarrow> unit phase" where
  "outbound_scan_phase W cfg url body remote =
     (let body_str = lib_utf8_lossy (web W) body in
      if scan_outbound cfg \<and> body_str \<noteq> []
      then (case w_scan_remote W (redact_url_for_log W url) body_str (redact_url_for_log W url)
                   (case remote of Some r \<Rightarrow> r | None \<Rightarrow> body_str) of
              Unsafe reason \<Rightarrow>
                gw_refuse (PolicyBlocked ''scanner.outbound_exfiltration''
                  (Msg (''Outbound request blocked: '' @ reason)))
            | Review _ \<Rightarrow> gw_ok ()
            | Clean \<Rightarrow> gw_ok ())
      else gw_ok ())"

text \<open>Everything up to credential injection.\<close>

record prepared =
  pr_url :: string
  pr_headers :: "(string \<times> string) list"
  pr_body :: string

definition request_phase ::
  "'e gw_world \<Rightarrow> gateway_config \<Rightarrow> proxy_request \<Rightarrow> prepared phase" where
  "request_phase W cfg req =
     (let identity = secret_access_identity_from_headers (rq_headers req) in
      gw_bind (url_phase W cfg req identity) (\<lambda>(url, metadata).
      let dest = url_host W url in
      gw_bind (header_phase W cfg dest identity metadata [] (original_headers (rq_headers req)))
        (\<lambda>(headers, metadata').
      let content_type = content_type_of headers in
      gw_bind (body_phase W cfg dest identity metadata' content_type (rq_body req)) (\<lambda>(body, remote).
      gw_bind (search_egress_phase PolicyBlocked W cfg dest) (\<lambda>_.
      gw_bind (llm_phase PolicyBlocked W cfg dest content_type body remote) (\<lambda>(body', remote').
      gw_bind (outbound_scan_phase W cfg url body' remote') (\<lambda>_.
      gw_ok \<lparr>pr_url = url, pr_headers = headers, pr_body = body'\<rparr>)))))))"

section \<open>Credentials and forwarding\<close>

definition injection_phase ::
  "'e gw_world \<Rightarrow> gateway_config \<Rightarrow> credential_injector \<Rightarrow> string \<Rightarrow>
   credential_injection list \<times> credential_injector" where
  "injection_phase W cfg ci url =
     (if inject_credentials cfg \<and> \<not> check_bypassed (web W) cfg url
      then (case url_host W url of
        None \<Rightarrow> ([], ci)
      | Some host \<Rightarrow>
          (let uni = lib_uni (web W);
               ci1 = (case detect_provider_pub uni ci host of
                        None \<Rightarrow> ci
                      | Some provider \<Rightarrow>
                          snd (ensure_cached uni (w_resolver W) (w_now W) (w_later W) ci provider))
           in injections_for_host uni (w_b64 W) (w_resolver W) (w_now W) (w_later W) ci1 host))
      else ([], ci))"

definition injected_headers :: "credential_injection list \<Rightarrow> (string \<times> string) list" where
  "injected_headers injs =
     List.map_filter (\<lambda>i. case i of InjHeader n v \<Rightarrow> Some (n, v) | InjQuery _ _ \<Rightarrow> None) injs"

definition injected_query :: "credential_injection list \<Rightarrow> (string \<times> string) list" where
  "injected_query injs =
     List.map_filter (\<lambda>i. case i of InjQuery n v \<Rightarrow> Some (n, v) | InjHeader _ _ \<Rightarrow> None) injs"

definition request_url ::
  "'e gw_world \<Rightarrow> string \<Rightarrow> credential_injection list \<Rightarrow> string phase" where
  "request_url W url injs =
     (if injected_query injs = [] then gw_ok url
      else (case w_append_query W url (injected_query injs) of
              Some url' \<Rightarrow> gw_ok url'
            | None \<Rightarrow> gw_refuse (PolicyBlocked ''credential_injection.query_param''
                (Msg ''Credential query-parameter injection failed before forwarding.''))))"

text \<open>The injection scanner on a response body that is valid UTF-8.\<close>

definition scan_text_phase ::
  "(string \<Rightarrow> 'r) \<Rightarrow> 'e gw_world \<Rightarrow> string \<Rightarrow> string \<Rightarrow> ('r, unit) stage" where
  "scan_text_phase refusal W url body =
     (case w_utf8 W body of
        None \<Rightarrow> gw_ok ()
      | Some body_str \<Rightarrow>
          (case w_scan W (redact_url_for_log W url) body_str of
             Unsafe reason \<Rightarrow> gw_refuse (refusal reason)
           | Review _ \<Rightarrow> gw_ok ()
           | Clean \<Rightarrow> gw_ok ()))"

definition search_response_phase ::
  "(string \<Rightarrow> gw_text \<Rightarrow> 'r) \<Rightarrow> 'e gw_world \<Rightarrow> gateway_config \<Rightarrow> string \<Rightarrow> string \<Rightarrow>
   ('r, string) stage" where
  "search_response_phase block W cfg url body =
     gw_bind
       (if scan_inbound cfg
        then scan_text_phase (\<lambda>reason. block ''agent_web.scan_search_responses''
               (Msg (''Search response blocked by prompt-injection scanner: '' @ reason))) W url body
        else gw_ok ()) (\<lambda>_.
     (case scan_search_response (web W) body (agent_web cfg) of
        SR_Pass \<Rightarrow> gw_ok body
      | SR_Block \<Rightarrow> gw_refuse (block ''agent_web.scan_search_responses''
                      (Msg ''search response referenced a forbidden URL''))
      | SR_Strip b _ \<Rightarrow> gw_ok b))"

definition inbound_scan_phase ::
  "'e gw_world \<Rightarrow> gateway_config \<Rightarrow> string \<Rightarrow> string \<Rightarrow> string \<Rightarrow> unit phase" where
  "inbound_scan_phase W cfg url content_type body =
     (if scan_inbound cfg \<and> looks_like_scannable_content_type content_type
      then scan_text_phase (\<lambda>reason. PolicyBlocked ''scanner.inbound_prompt_injection''
             (Msg (''Response blocked: '' @ reason))) W url body
      else gw_ok ())"

definition response_phase ::
  "'e gw_world \<Rightarrow> gateway_config \<Rightarrow> string \<Rightarrow> upstream_response \<Rightarrow> proxy_response phase" where
  "response_phase W cfg url resp =
     (let content_type = (case ur_content_type resp of
                            Some ct \<Rightarrow> ct | None \<Rightarrow> ''application/octet-stream'') in
      gw_bind (if is_search_host W cfg (url_host W url)
               then search_response_phase PolicyBlocked W cfg url (ur_body resp)
               else gw_ok (ur_body resp)) (\<lambda>body.
      gw_bind (inbound_scan_phase W cfg url content_type body) (\<lambda>_.
      gw_ok (Passed (ur_status resp) content_type body))))"

definition forward_phase ::
  "'e gw_world \<Rightarrow> gateway_config \<Rightarrow> string \<Rightarrow> string \<Rightarrow> upstream_request \<Rightarrow> proxy_response phase" where
  "forward_phase W cfg method url up =
     gw_bind (Inr (), [Sent up]) (\<lambda>_.
     (case w_send W up of
        Inl e \<Rightarrow> gw_ok (blocked_response (''Upstream error: '' @ e))
      | Inr resp \<Rightarrow> response_phase W cfg url resp))"

definition intercept ::
  "'e gw_world \<Rightarrow> gateway_config \<Rightarrow> credential_injector \<Rightarrow> proxy_request \<Rightarrow>
   proxy_response \<times> credential_injector \<times> gw_event list" where
  "intercept W cfg ci req =
     (case request_phase W cfg req of
        (Inl r, evs) \<Rightarrow> (r, ci, evs)
      | (Inr p, evs) \<Rightarrow>
          (case injection_phase W cfg ci (pr_url p) of (injs, ci') \<Rightarrow>
             (case gw_bind (request_url W (pr_url p) injs) (\<lambda>url.
                     forward_phase W cfg (rq_method req) (pr_url p)
                       \<lparr>up_method = rq_method req, up_url = url,
                        up_headers = pr_headers p @ injected_headers injs, up_body = pr_body p\<rparr>) of
                (Inl r, evs') \<Rightarrow> (r, ci', evs @ evs')
              | (Inr r, evs') \<Rightarrow> (r, ci', evs @ evs'))))"

section \<open>Reasoning about phases\<close>

text \<open>Every event satisfies \<open>P\<close>, and a value, if there is one, satisfies \<open>Q\<close>.\<close>

definition gw_spec :: "(gw_event \<Rightarrow> bool) \<Rightarrow> ('r, 'a) stage \<Rightarrow> ('a \<Rightarrow> bool) \<Rightarrow> bool" where
  "gw_spec P m Q \<longleftrightarrow> (\<forall>e \<in> set (snd m). P e) \<and> (\<forall>x. fst m = Inr x \<longrightarrow> Q x)"

lemma gw_spec_bind:
  assumes "gw_spec P m Q" "\<And>x. Q x \<Longrightarrow> gw_spec P (f x) R"
  shows "gw_spec P (gw_bind m f) R"
proof -
  obtain r evs where m: "m = (r, evs)" by (cases m)
  show ?thesis
  proof (cases r)
    case (Inl a)
    with assms(1) m show ?thesis by (simp add: gw_spec_def gw_bind_def)
  next
    case (Inr x)
    with assms(1) m have "Q x" by (simp add: gw_spec_def)
    from assms(2) [OF this] have "gw_spec P (f x) R" .
    with assms(1) Inr m show ?thesis
      by (cases "f x") (auto simp: gw_spec_def gw_bind_def)
  qed
qed

lemma gw_spec_ok [simp]: "gw_spec P (gw_ok x) Q \<longleftrightarrow> Q x"
  by (simp add: gw_spec_def gw_ok_def)

lemma gw_spec_refuse [simp]: "gw_spec P (gw_refuse r) Q"
  by (simp add: gw_spec_def gw_refuse_def)

lemma gw_spec_mono: "gw_spec P m Q \<Longrightarrow> (\<And>x. Q x \<Longrightarrow> R x) \<Longrightarrow> gw_spec P m R"
  by (simp add: gw_spec_def)

text \<open>A text is forwarded with every reference replaced by a secret that passed the gate.\<close>

definition filled ::
  "'e gw_world \<Rightarrow> gateway_config \<Rightarrow> secret_access_identity \<Rightarrow> string option \<Rightarrow> string \<Rightarrow> string \<Rightarrow> bool" where
  "filled W cfg identity dest input out \<longleftrightarrow>
     (\<exists>segs tail. parsed segs tail \<and> input = unparse segs tail \<and>
        out = fill (\<lambda>n. case w_resolver W n of Inr v \<Rightarrow> Some v | Inl _ \<Rightarrow> None) segs tail \<and>
        (\<forall>n \<in> snd ` set segs. is_ok (w_resolver W n) \<and>
           gate_open (web W) cfg dest (w_metadata W) identity n))"

definition asked_ok ::
  "'e gw_world \<Rightarrow> gateway_config \<Rightarrow> secret_access_identity \<Rightarrow> gw_event \<Rightarrow> bool" where
  "asked_ok W cfg identity e =
     (case e of
        Asked n dest \<Rightarrow> gate_open (web W) cfg dest (w_metadata W) identity n
      | Sent _ \<Rightarrow> False)"

definition metadata_ok :: "'e gw_world \<Rightarrow> secret_metadata_store option \<Rightarrow> bool" where
  "metadata_ok W metadata \<longleftrightarrow> metadata = None \<or> metadata = w_metadata W"

lemma gate_open_loaded:
  "metadata_ok W metadata \<Longrightarrow> gate_open L cfg dest metadata identity n \<Longrightarrow>
   gate_open L cfg dest (w_metadata W) identity n"
  by (auto simp: metadata_ok_def gate_open_def)

lemma substitute_or_spec:
  assumes "hash_iter (w_iter W)" "metadata_ok W metadata"
  shows "gw_spec (asked_ok W cfg identity) (substitute_or refusal W cfg input dest metadata identity)
    (filled W cfg identity dest input)"
proof -
  obtain r asked where ra: "resolve_and_substitute (web W) cfg (w_iter W) (w_resolver W) input dest
      metadata identity = (r, asked)"
    by (cases "resolve_and_substitute (web W) cfg (w_iter W) (w_resolver W) input dest metadata identity")
  have asked: "\<forall>n \<in> set asked. gate_open (web W) cfg dest (w_metadata W) identity n"
    using resolve_and_substitute_gate [OF assms(1) ra] gate_open_loaded [OF assms(2)] by blast
  show ?thesis
  proof (cases r)
    case (Inl e)
    with ra asked show ?thesis by (auto simp: gw_spec_def substitute_or_def asked_ok_def)
  next
    case (Inr out)
    obtain segs tail where "parsed segs tail" "input = unparse segs tail"
      "out = fill (\<lambda>n. case w_resolver W n of Inr v \<Rightarrow> Some v | Inl _ \<Rightarrow> None) segs tail"
      "\<And>n. n \<in> snd ` set segs \<Longrightarrow> is_ok (w_resolver W n) \<and> gate_open (web W) cfg dest metadata identity n"
      using resolve_and_substitute_Inr [OF assms(1) ra [unfolded Inr]] by metis
    then have "filled W cfg identity dest input out"
      unfolding filled_def using gate_open_loaded [OF assms(2)] by blast
    with ra asked Inr show ?thesis by (auto simp: gw_spec_def substitute_or_def asked_ok_def)
  qed
qed

lemma need_metadata_spec:
  "metadata_ok W metadata \<Longrightarrow> gw_spec P (need_metadata refusal W input dest metadata) (metadata_ok W)"
  by (auto simp: need_metadata_def metadata_ok_def split: option.split)

lemma url_phase_spec:
  assumes "hash_iter (w_iter W)"
  shows "gw_spec (asked_ok W cfg identity) (url_phase W cfg req identity)
    (\<lambda>(url, metadata). metadata_ok W metadata \<and>
       filled W cfg identity (url_host W (target_url req)) (target_url req) url)"
  unfolding url_phase_def Let_def
  by (auto intro!: gw_spec_bind [OF need_metadata_spec] gw_spec_bind [OF substitute_or_spec] assms
      simp: metadata_ok_def [of W None])

lemma header_phase_spec:
  assumes "hash_iter (w_iter W)"
  shows "metadata_ok W metadata \<Longrightarrow>
    gw_spec (asked_ok W cfg identity) (header_phase W cfg dest identity metadata acc hs)
      (\<lambda>(headers, metadata'). metadata_ok W metadata' \<and>
         (\<exists>vs. headers = acc @ zip (map fst hs) vs \<and>
            list_all2 (filled W cfg identity dest) (map snd hs) vs))"
proof (induction hs arbitrary: metadata acc)
  case Nil
  then show ?case by simp
next
  case (Cons h hs)
  obtain k v where h: "h = (k, v)" by (cases h)
  show ?case
    unfolding h header_phase.simps
  proof (rule gw_spec_bind [OF need_metadata_spec [OF Cons.prems]])
    fix md assume md: "metadata_ok W md"
    show "gw_spec (asked_ok W cfg identity)
      (gw_bind (substitute_or header_refusal W cfg v dest md identity)
        (\<lambda>v'. header_phase W cfg dest identity md (acc @ [(k, v')]) hs))
      (\<lambda>(headers, metadata'). metadata_ok W metadata' \<and>
         (\<exists>vs. headers = acc @ zip (map fst ((k, v) # hs)) vs \<and>
            list_all2 (filled W cfg identity dest) (map snd ((k, v) # hs)) vs))"
    proof (rule gw_spec_bind [OF substitute_or_spec [OF assms md]])
      fix v' assume v': "filled W cfg identity dest v v'"
      show "gw_spec (asked_ok W cfg identity) (header_phase W cfg dest identity md (acc @ [(k, v')]) hs)
        (\<lambda>(headers, metadata'). metadata_ok W metadata' \<and>
           (\<exists>vs. headers = acc @ zip (map fst ((k, v) # hs)) vs \<and>
              list_all2 (filled W cfg identity dest) (map snd ((k, v) # hs)) vs))"
      proof (rule gw_spec_mono [OF Cons.IH [OF md]], clarsimp)
        fix vs assume "list_all2 (filled W cfg identity dest) (map snd hs) vs"
        with v' show "\<exists>vs'. (k, v') # zip (map fst hs) vs = zip (k # map fst hs) vs' \<and>
            list_all2 (filled W cfg identity dest) (v # map snd hs) vs'"
          by (intro exI [of _ "v' # vs"]) simp
      qed
    qed
  qed
qed

lemma memchr_substr_contains: "memchr_substr h n \<longleftrightarrow> n \<noteq> [] \<and> str_contains n h"
proof -
  have "n \<noteq> [] \<Longrightarrow> list_ex (\<lambda>w. w = n) (windows (length n) h) \<longleftrightarrow> str_find n h \<noteq> None"
  proof (induction h)
    case (Cons c h)
    have "prefix n (c # h) \<longleftrightarrow> length n \<le> length (c # h) \<and> take (length n) (c # h) = n"
      by (metis append_eq_conv_conj append_take_drop_id length_append le_add1 prefix_def)
    moreover have "length (c # h) < length n \<Longrightarrow> str_find n h = None"
      using str_find_split [of n h] by (cases "str_find n h") auto
    ultimately show ?case using Cons by auto
  qed simp
  moreover have "length h < length n \<Longrightarrow> str_find n h = None"
    using str_find_split [of n h] by (cases "str_find n h") auto
  ultimately show ?thesis by (auto simp: memchr_substr_def str_contains_def)
qed

text \<open>What is forwarded as the body, before the agent-web gates.\<close>

definition body_ok ::
  "'e gw_world \<Rightarrow> gateway_config \<Rightarrow> secret_access_identity \<Rightarrow> string option \<Rightarrow> string option \<Rightarrow>
   string option \<Rightarrow> string \<Rightarrow> bool" where
  "body_ok W cfg identity dest content_type body out \<longleftrightarrow>
     (\<exists>bytes. body = Some bytes \<and>
        (if bytes = [] then out = []
         else case body_substitution_mode (lib_uni (web W)) content_type of
             FullSubstitute \<Rightarrow> filled W cfg identity dest (lib_utf8_lossy (web W) bytes) out
           | RawScan \<Rightarrow> out = bytes \<and> \<not> str_contains REF_OPEN bytes))"

lemma body_phase_spec:
  assumes "hash_iter (w_iter W)" "metadata_ok W metadata"
  shows "gw_spec (asked_ok W cfg identity) (body_phase W cfg dest identity metadata content_type body)
    (\<lambda>(out, remote). body_ok W cfg identity dest content_type body out)"
proof (cases body)
  case None
  then show ?thesis by (simp add: body_phase_def)
next
  case (Some bytes)
  show ?thesis
  proof (cases "bytes = []")
    case True
    with Some show ?thesis by (simp add: body_phase_def body_ok_def)
  next
    case False
    show ?thesis
    proof (cases "body_substitution_mode (lib_uni (web W)) content_type")
      case FullSubstitute
      with Some False assms show ?thesis
        by (auto simp: body_phase_def body_ok_def Let_def
            intro!: gw_spec_bind [OF need_metadata_spec] gw_spec_bind [OF substitute_or_spec])
    next
      case RawScan
      with Some False show ?thesis
        by (simp add: body_phase_def body_ok_def memchr_substr_contains REF_OPEN_def)
    qed
  qed
qed

text \<open>What the agent-web gates and the outbound scan establish of the body that is sent.\<close>

definition stripped_or_same :: "'e gw_world \<Rightarrow> gateway_config \<Rightarrow> string \<Rightarrow> string \<Rightarrow> bool" where
  "stripped_or_same W cfg body body' \<longleftrightarrow>
     body' = body \<or>
     (\<exists>names. inspect_browsing_body (web W) body (agent_web cfg) = BD_Stripped names body')"

lemma browsing_phase_spec: "gw_spec P (browsing_phase block W cfg body) (stripped_or_same W cfg body)"
  by (auto simp: browsing_phase_def stripped_or_same_def split: browsing_decision.split)

lemma search_egress_spec:
  "gw_spec P (search_egress_phase block W cfg dest)
     (\<lambda>_. \<not> (forbid_search_engines (agent_web cfg) \<and> is_search_host W cfg dest))"
  by (simp add: search_egress_phase_def)

definition llm_ok ::
  "'e gw_world \<Rightarrow> gateway_config \<Rightarrow> string option \<Rightarrow> string option \<Rightarrow> string \<Rightarrow> string \<Rightarrow> bool" where
  "llm_ok W cfg dest content_type body body' \<longleftrightarrow>
     (if is_llm_json W cfg dest content_type \<and> body \<noteq> []
      then stripped_or_same W cfg body body' \<and>
        (body' \<noteq> [] \<longrightarrow> preflight_message_urls (web W) body' (agent_web cfg) = None)
      else body' = body)"

lemma llm_phase_spec:
  "gw_spec P (llm_phase block W cfg dest content_type body remote)
     (\<lambda>(body', remote'). llm_ok W cfg dest content_type body body')"
proof -
  let ?llm = "is_llm_json W cfg dest content_type"
  have first: "gw_spec P (if ?llm \<and> body \<noteq> [] then browsing_phase block W cfg body else gw_ok body)
      (\<lambda>b. if ?llm \<and> body \<noteq> [] then stripped_or_same W cfg body b else b = body)"
    using browsing_phase_spec by auto
  show ?thesis
    unfolding llm_phase_def Let_def
    by (rule gw_spec_bind [OF first], rule gw_spec_bind [where Q = "\<lambda>_. True"])
       (auto simp: llm_ok_def split: option.split browsing_decision.split)
qed

definition scan_passed :: "scan_verdict \<Rightarrow> bool" where
  "scan_passed v \<longleftrightarrow> (\<forall>reason. v \<noteq> Unsafe reason)"

lemma outbound_scan_spec:
  "gw_spec P (outbound_scan_phase W cfg url body remote)
     (\<lambda>_. scan_outbound cfg \<longrightarrow> lib_utf8_lossy (web W) body \<noteq> [] \<longrightarrow>
        (\<exists>r. scan_passed (w_scan_remote W (redact_url_for_log W url) (lib_utf8_lossy (web W) body)
               (redact_url_for_log W url) r)))"
proof -
  let ?remote = "case remote of Some r \<Rightarrow> r | None \<Rightarrow> lib_utf8_lossy (web W) body"
  let ?v = "w_scan_remote W (redact_url_for_log W url) (lib_utf8_lossy (web W) body)
    (redact_url_for_log W url) ?remote"
  show ?thesis
  proof (cases ?v)
    case (Unsafe x3)
    then show ?thesis by (simp add: outbound_scan_phase_def Let_def)
  qed (auto simp: outbound_scan_phase_def Let_def scan_passed_def intro!: exI [of _ ?remote])
qed

text \<open>The whole request side: what holds of a request that is about to be forwarded.\<close>

definition prepared_ok :: "'e gw_world \<Rightarrow> gateway_config \<Rightarrow> proxy_request \<Rightarrow> prepared \<Rightarrow> bool" where
  "prepared_ok W cfg req p \<longleftrightarrow>
     (let identity = secret_access_identity_from_headers (rq_headers req);
          dest = url_host W (pr_url p);
          sent = original_headers (rq_headers req);
          body = lib_utf8_lossy (web W) (pr_body p) in
      filled W cfg identity (url_host W (target_url req)) (target_url req) (pr_url p) \<and>
      (\<exists>vs. pr_headers p = zip (map fst sent) vs \<and>
         list_all2 (filled W cfg identity dest) (map snd sent) vs) \<and>
      (\<exists>b. body_ok W cfg identity dest (content_type_of (pr_headers p)) (rq_body req) b \<and>
         llm_ok W cfg dest (content_type_of (pr_headers p)) b (pr_body p)) \<and>
      \<not> (forbid_search_engines (agent_web cfg) \<and> is_search_host W cfg dest) \<and>
      (scan_outbound cfg \<longrightarrow> body \<noteq> [] \<longrightarrow>
         (\<exists>r. scan_passed (w_scan_remote W (redact_url_for_log W (pr_url p)) body
                (redact_url_for_log W (pr_url p)) r))))"

lemma request_phase_spec:
  assumes "hash_iter (w_iter W)"
  shows "gw_spec (asked_ok W cfg (secret_access_identity_from_headers (rq_headers req)))
    (request_phase W cfg req) (prepared_ok W cfg req)"
proof -
  let ?id = "secret_access_identity_from_headers (rq_headers req)"
  show ?thesis
    unfolding request_phase_def Let_def
  proof (rule gw_spec_bind [OF url_phase_spec [OF assms]], clarsimp)
    fix url md
    assume md: "metadata_ok W md"
      and url: "filled W cfg ?id (url_host W (target_url req)) (target_url req) url"
    let ?dest = "url_host W url" and ?hs = "original_headers (rq_headers req)"
    show "gw_spec (asked_ok W cfg ?id)
      (gw_bind (header_phase W cfg ?dest ?id md [] ?hs)
        (\<lambda>(headers, metadata').
          gw_bind (body_phase W cfg ?dest ?id metadata' (content_type_of headers) (rq_body req))
            (\<lambda>(body, remote). gw_bind (search_egress_phase PolicyBlocked W cfg ?dest)
              (\<lambda>_. gw_bind (llm_phase PolicyBlocked W cfg ?dest (content_type_of headers) body remote)
                (\<lambda>(body', remote'). gw_bind (outbound_scan_phase W cfg url body' remote')
                  (\<lambda>_. gw_ok \<lparr>pr_url = url, pr_headers = headers, pr_body = body'\<rparr>))))))
      (prepared_ok W cfg req)"
      by (rule gw_spec_bind [OF header_phase_spec [OF assms md]], clarsimp,
          rule gw_spec_bind [OF body_phase_spec [OF assms]], assumption, clarsimp,
          rule gw_spec_bind [OF search_egress_spec],
          rule gw_spec_bind [OF llm_phase_spec], clarsimp,
          rule gw_spec_bind [OF outbound_scan_spec])
         (use url in \<open>auto simp: prepared_ok_def Let_def\<close>)
  qed
qed

text \<open>A phase that refuses does so with a policy block.\<close>

definition gw_blocks :: "'a phase \<Rightarrow> bool" where
  "gw_blocks m \<longleftrightarrow> (\<forall>r. fst m = Inl r \<longrightarrow> (\<exists>p t. r = PolicyBlocked p t))"

lemma gw_blocks_bind: "gw_blocks m \<Longrightarrow> (\<And>x. gw_blocks (f x)) \<Longrightarrow> gw_blocks (gw_bind m f)"
proof -
  assume m: "gw_blocks m" and f: "\<And>x. gw_blocks (f x)"
  obtain r evs where r: "m = (r, evs)" by (cases m)
  show ?thesis
  proof (cases r)
    case (Inl a)
    with m r show ?thesis by (simp add: gw_blocks_def gw_bind_def)
  next
    case (Inr x)
    with f [of x] r show ?thesis by (cases "f x") (simp add: gw_blocks_def gw_bind_def)
  qed
qed

lemma gw_blocks_simps [simp]:
  "gw_blocks (gw_ok x)"
  "gw_blocks (gw_refuse (PolicyBlocked p t))"
  "gw_blocks (Inr x, evs)"
  by (simp_all add: gw_blocks_def gw_ok_def gw_refuse_def)

lemmas refusal_defs = url_refusal_def header_refusal_def body_refusal_def blocked_response_def

lemma substitute_or_blocks [simp]:
  "gw_blocks (substitute_or (PolicyBlocked p t) W cfg input dest metadata identity)"
  by (auto simp: substitute_or_def gw_blocks_def split: sum.split prod.split)

lemma need_metadata_blocks [simp]:
  "gw_blocks (need_metadata (PolicyBlocked p t) W input dest metadata)"
  by (auto simp: need_metadata_def split: option.split)

lemma header_phase_blocks: "gw_blocks (header_phase W cfg dest identity metadata acc hs)"
  by (induction hs arbitrary: metadata acc) (auto intro!: gw_blocks_bind simp: refusal_defs)

lemma request_phase_blocks: "gw_blocks (request_phase W cfg req)"
proof -
  have url: "gw_blocks (url_phase W cfg req identity)" for identity
    by (auto simp: url_phase_def Let_def refusal_defs intro!: gw_blocks_bind)
  have body: "gw_blocks (body_phase W cfg dest identity metadata ct b)" for dest identity metadata ct b
    by (auto simp: body_phase_def Let_def refusal_defs intro!: gw_blocks_bind
        split: option.split body_mode.split)
  have search: "gw_blocks (search_egress_phase PolicyBlocked W cfg dest)" for dest
    by (simp add: search_egress_phase_def)
  have llm: "gw_blocks (llm_phase PolicyBlocked W cfg dest ct b r)" for dest ct b r
    by (auto simp: llm_phase_def Let_def browsing_phase_def intro!: gw_blocks_bind
        split: option.split browsing_decision.split)
  have out: "gw_blocks (outbound_scan_phase W cfg u b r)" for u b r
    by (auto simp: outbound_scan_phase_def Let_def split: scan_verdict.split)
  show ?thesis
    unfolding request_phase_def Let_def
    by (auto intro!: gw_blocks_bind url header_phase_blocks body search llm out split: prod.split)
qed

section \<open>The whole pipeline\<close>

definition is_sent :: "gw_event \<Rightarrow> bool" where
  "is_sent e = (case e of Sent _ \<Rightarrow> True | Asked _ _ \<Rightarrow> False)"

lemma gw_spec_events: "gw_spec P m Q \<Longrightarrow> e \<in> set (snd m) \<Longrightarrow> P e"
  by (simp add: gw_spec_def)

lemma request_url_events: "snd (request_url W url injs) = []"
  by (simp add: request_url_def gw_ok_def gw_refuse_def split: option.split)

lemma request_url_value:
  "fst (request_url W url injs) = Inr u \<Longrightarrow>
   (if injected_query injs = [] then u = url
    else w_append_query W url (injected_query injs) = Some u)"
  by (auto simp: request_url_def gw_ok_def gw_refuse_def split: option.splits if_splits)

lemma silent_bind: "snd m = [] \<Longrightarrow> (\<And>x. snd (f x) = []) \<Longrightarrow> snd (gw_bind m f) = []"
  by (auto simp: gw_bind_def split: sum.split prod.splits) (metis snd_conv)

lemma response_phase_events: "snd (response_phase W cfg url resp) = []"
  unfolding response_phase_def search_response_phase_def inbound_scan_phase_def Let_def
  by (intro silent_bind)
     (auto simp: scan_text_phase_def gw_ok_def gw_refuse_def gw_bind_def
       split: option.split scan_verdict.split search_response_decision.split)

lemma forward_phase_events: "snd (forward_phase W cfg m url up) = [Sent up]"
  using response_phase_events [of W cfg url]
  by (auto simp: forward_phase_def gw_bind_def gw_ok_def split: sum.split prod.splits) (metis snd_conv)

lemma original_headers_clean:
  "(k, v) \<in> set (original_headers hs) \<Longrightarrow>
   \<not> hop_by_hop (to_ascii_lowercase k) \<and> \<not> control_header (to_ascii_lowercase k)"
  by (induction hs) (auto simp: original_headers_def List.map_filter_simps Let_def split: if_splits option.splits)

lemma prepared_headers_clean:
  assumes "prepared_ok W cfg req p" "(k, v) \<in> set (pr_headers p)"
  shows "\<not> hop_by_hop (to_ascii_lowercase k) \<and> \<not> control_header (to_ascii_lowercase k)"
proof -
  have "k \<in> set (map fst (original_headers (rq_headers req)))"
    using assms by (auto simp: prepared_ok_def Let_def dest!: set_zip_leftD)
  then show ?thesis using original_headers_clean by force
qed

text \<open>How a run of the pipeline goes: refused before forwarding, or one request is sent.\<close>

lemma intercept_cases:
  assumes run: "intercept W cfg ci req = (r, ci', evs)"
  obtains (refused) "fst (request_phase W cfg req) = Inl r" "ci' = ci"
      "evs = snd (request_phase W cfg req)"
  | (no_url) p injs where "fst (request_phase W cfg req) = Inr p"
      "injection_phase W cfg ci (pr_url p) = (injs, ci')" "evs = snd (request_phase W cfg req)"
      "fst (request_url W (pr_url p) injs) = Inl r"
  | (sent) p injs url up where "fst (request_phase W cfg req) = Inr p"
      "injection_phase W cfg ci (pr_url p) = (injs, ci')"
      "fst (request_url W (pr_url p) injs) = Inr url"
      "up = \<lparr>up_method = rq_method req, up_url = url,
         up_headers = pr_headers p @ injected_headers injs, up_body = pr_body p\<rparr>"
      "evs = snd (request_phase W cfg req) @ [Sent up]"
      "fst (forward_phase W cfg (rq_method req) (pr_url p) up) = Inl r \<or>
       fst (forward_phase W cfg (rq_method req) (pr_url p) up) = Inr r"
proof (cases "request_phase W cfg req")
  case (Pair x evs0)
  show thesis
  proof (cases x)
    case (Inl a)
    with run Pair show thesis by (intro refused) (simp_all add: intercept_def)
  next
    case (Inr p)
    obtain injs ci1 where inj: "injection_phase W cfg ci (pr_url p) = (injs, ci1)"
      by (cases "injection_phase W cfg ci (pr_url p)")
    show thesis
    proof (cases "fst (request_url W (pr_url p) injs)")
      case (Inl a)
      then have "request_url W (pr_url p) injs = (Inl a, [])"
        using request_url_events [of W "pr_url p" injs] by (metis prod.collapse)
      with run Pair Inr inj show thesis
        by (intro no_url [of p injs]) (simp_all add: intercept_def gw_bind_def)
    next
      case url: (Inr url)
      then have u: "request_url W (pr_url p) injs = (Inr url, [])"
        using request_url_events [of W "pr_url p" injs] by (metis prod.collapse)
      let ?up = "\<lparr>up_method = rq_method req, up_url = url,
         up_headers = pr_headers p @ injected_headers injs, up_body = pr_body p\<rparr>"
      obtain q where q: "forward_phase W cfg (rq_method req) (pr_url p) ?up = (q, [Sent ?up])"
        using forward_phase_events [of W cfg "rq_method req" "pr_url p" ?up] by (metis prod.collapse)
      show thesis
        by (rule sent [of p injs url ?up])
           (use run Pair Inr inj u q in \<open>auto simp: intercept_def gw_bind_def split: sum.splits\<close>)
    qed
  qed
qed

definition scan_clear :: "'e gw_world \<Rightarrow> string \<Rightarrow> string \<Rightarrow> bool" where
  "scan_clear W url body \<longleftrightarrow>
     (\<forall>s. w_utf8 W body = Some s \<longrightarrow> scan_passed (w_scan W (redact_url_for_log W url) s))"

lemma scan_text_spec:
  "gw_spec P (scan_text_phase refusal W url body) (\<lambda>_. scan_clear W url body)"
  by (auto simp: scan_text_phase_def scan_clear_def scan_passed_def split: option.split scan_verdict.split)

lemma scan_text_blocks [simp]:
  "gw_blocks (scan_text_phase (\<lambda>r. PolicyBlocked p (t r)) W url body)"
  by (auto simp: scan_text_phase_def split: option.split scan_verdict.split)

text \<open>What the agent gets of the body of a response.\<close>

definition response_body_ok ::
  "'e gw_world \<Rightarrow> gateway_config \<Rightarrow> string \<Rightarrow> string \<Rightarrow> string \<Rightarrow> bool" where
  "response_body_ok W cfg url upstream body \<longleftrightarrow>
     (if is_search_host W cfg (url_host W url)
      then (scan_inbound cfg \<longrightarrow> scan_clear W url upstream) \<and>
        (case scan_search_response (web W) upstream (agent_web cfg) of
           SR_Pass \<Rightarrow> body = upstream | SR_Block \<Rightarrow> False | SR_Strip b _ \<Rightarrow> body = b)
      else body = upstream)"

lemma search_response_spec:
  assumes "is_search_host W cfg (url_host W url)"
  shows "gw_spec P (search_response_phase block W cfg url b) (response_body_ok W cfg url b)"
  unfolding search_response_phase_def
proof (rule gw_spec_bind [where Q = "\<lambda>_. scan_inbound cfg \<longrightarrow> scan_clear W url b"])
  show "gw_spec P (if scan_inbound cfg
        then scan_text_phase (\<lambda>reason. block ''agent_web.scan_search_responses''
               (Msg (''Search response blocked by prompt-injection scanner: '' @ reason))) W url b
        else gw_ok ()) (\<lambda>_. scan_inbound cfg \<longrightarrow> scan_clear W url b)"
    by (cases "scan_inbound cfg") (simp_all only: if_True if_False simp_thms scan_text_spec gw_spec_ok)
qed (use assms in \<open>auto simp: response_body_ok_def split: search_response_decision.split\<close>)

lemma inbound_scan_spec:
  "gw_spec P (inbound_scan_phase W cfg url ct b)
     (\<lambda>_. scan_inbound cfg \<longrightarrow> looks_like_scannable_content_type ct \<longrightarrow> scan_clear W url b)"
  unfolding inbound_scan_phase_def by (cases "scan_inbound cfg \<and> looks_like_scannable_content_type ct")
    (auto simp only: if_True if_False simp_thms gw_spec_ok intro!: gw_spec_mono [OF scan_text_spec])

lemma response_phase_blocks: "gw_blocks (response_phase W cfg url resp)"
  unfolding response_phase_def Let_def search_response_phase_def inbound_scan_phase_def
  by (auto intro!: gw_blocks_bind split: search_response_decision.split)

lemma response_phase_spec:
  "gw_spec P (response_phase W cfg url resp) (\<lambda>r. \<exists>b.
     (let ct = (case ur_content_type resp of Some ct \<Rightarrow> ct | None \<Rightarrow> ''application/octet-stream'') in
      r = Passed (ur_status resp) ct b \<and> response_body_ok W cfg url (ur_body resp) b \<and>
      (scan_inbound cfg \<longrightarrow> looks_like_scannable_content_type ct \<longrightarrow> scan_clear W url b)))"
  unfolding response_phase_def Let_def
proof (rule gw_spec_bind [where Q = "response_body_ok W cfg url (ur_body resp)"])
  show "gw_spec P (if is_search_host W cfg (url_host W url)
      then search_response_phase PolicyBlocked W cfg url (ur_body resp) else gw_ok (ur_body resp))
      (response_body_ok W cfg url (ur_body resp))"
    using search_response_spec by (auto simp: response_body_ok_def [of W cfg url "ur_body resp" "ur_body resp"])
qed (rule gw_spec_bind [OF inbound_scan_spec], simp)

lemma response_phase_passed:
  assumes "fst (response_phase W cfg url resp) = Inl (Passed status content_type body) \<or>
      fst (response_phase W cfg url resp) = Inr (Passed status content_type body)"
  shows "status = ur_status resp \<and>
    content_type = (case ur_content_type resp of Some ct \<Rightarrow> ct | None \<Rightarrow> ''application/octet-stream'') \<and>
    response_body_ok W cfg url (ur_body resp) body \<and>
    (scan_inbound cfg \<longrightarrow> looks_like_scannable_content_type content_type \<longrightarrow> scan_clear W url body)"
  using assms response_phase_blocks [of W cfg url resp] response_phase_spec [of "\<lambda>_. True" W cfg url resp]
  by (auto simp: gw_spec_def gw_blocks_def Let_def)

lemma forward_phase_passed:
  assumes "fst (forward_phase W cfg m url up) = Inl r \<or> fst (forward_phase W cfg m url up) = Inr r"
    and "r = Passed status content_type body"
  shows "\<exists>resp. w_send W up = Inr resp \<and>
    (fst (response_phase W cfg url resp) = Inl r \<or> fst (response_phase W cfg url resp) = Inr r)"
  using assms
  by (cases "w_send W up")
     (auto simp: forward_phase_def gw_bind_def gw_ok_def blocked_response_def split: prod.splits)

section \<open>A run\<close>

definition example_world :: "unit gw_world" where
  "example_world =
     \<lparr>web = example_lib\<lparr>lib_url_host := \<lambda>u. Some ''api''\<rparr>, w_iter = sorted_list_of_set,
      w_resolver = \<lambda>n. Inr ''sk'', w_metadata = Some empty_store,
      w_scan_remote = \<lambda>_ _ _ _. Clean, w_scan = \<lambda>_ _. Clean, w_redacted = Some,
      w_append_query = \<lambda>u _. Some u, w_utf8 = Some, w_b64 = id, w_now = 0, w_later = 0,
      w_send = \<lambda>_. Inr \<lparr>ur_status = 200, ur_content_type = None, ur_body = ''ok''\<rparr>\<rparr>"

definition example_config :: gateway_config where
  "example_config = default_gateway_config\<lparr>inject_credentials := False, agent_web :=
     default_agent_web_policy\<lparr>search_engine_patterns := [], known_llm_apis := []\<rparr>\<rparr>"

text \<open>A header value with one reference.\<close>

definition example_value :: string where
  "example_value = REF_OPEN @ ''K'' @ ''}}''"

definition example_request :: proxy_request where
  "example_request =
     \<lparr>rq_method = ''GET'', rq_has_scheme = True, rq_uri = ''http://api/'', rq_path_query = None,
      rq_headers = [(''x-agent-id'', None), (''x-key'', Some example_value)],
      rq_body = Some []\<rparr>"

lemma gw_bind_ok: "gw_bind (gw_ok x) f = f x"
  by (simp add: gw_bind_def gw_ok_def)

lemma gw_bind_value: "gw_bind (Inr x, evs) f = (fst (f x), evs @ snd (f x))"
  by (simp add: gw_bind_def split: prod.splits)

lemma resolve_plain:
  "\<not> str_contains REF_OPEN input \<Longrightarrow>
   resolve_and_substitute L cfg iter resolver input dest metadata identity = (Inr input, [])"
  by (simp add: resolve_and_substitute_def find_refs_def find_refs_loop_plain)

lemma example_host: "url_host example_world u = Some ''api''"
  by (simp add: url_host_def example_world_def)

lemma example_plain:
  "need_metadata refusal example_world ''http://api/'' dest md = gw_ok md"
  "substitute_or refusal example_world cfg ''http://api/'' dest md identity = gw_ok ''http://api/''"
proof -
  have "\<not> str_contains REF_OPEN ''http://api/''" by code_simp
  then show "need_metadata refusal example_world ''http://api/'' dest md = gw_ok md"
    "substitute_or refusal example_world cfg ''http://api/'' dest md identity = gw_ok ''http://api/''"
    by (simp_all add: need_metadata_def substitute_or_def resolve_plain gw_ok_def)
qed

lemma example_filled:
  "need_metadata refusal example_world example_value (Some ''api'') None = gw_ok (Some empty_store)"
  "substitute_or refusal example_world example_config example_value (Some ''api'') (Some empty_store)
     anonymous = (Inr ''sk'', [Asked ''K'' (Some ''api'')])"
proof -
  have "str_contains REF_OPEN example_value" by (auto simp: str_contains_iff example_value_def)
  then show "need_metadata refusal example_world example_value (Some ''api'') None =
      gw_ok (Some empty_store)"
    by (simp add: need_metadata_def) (simp add: example_world_def)
  have valid: "is_valid_secret_name ''K''" by code_simp
  have "gate_open (web example_world) example_config (Some ''api'') (Some empty_store) anonymous ''K''"
    by (simp add: gate_open_def example_config_def default_gateway_config_def default_policy_def
        policy_allows_def is_known_def is_destination_allowed_def empty_store_def anonymous_def)
  from resolve_and_substitute_single [OF valid this, of "w_resolver example_world" "''sk''"]
  have "resolve_and_substitute (web example_world) example_config (w_iter example_world)
      (w_resolver example_world) example_value (Some ''api'') (Some empty_store) anonymous =
      (Inr ''sk'', [''K''])"
    by (simp add: example_world_def example_value_def)
  then show "substitute_or refusal example_world example_config example_value (Some ''api'')
      (Some empty_store) anonymous = (Inr ''sk'', [Asked ''K'' (Some ''api'')])"
    by (simp add: substitute_or_def)
qed

lemma example_search: "search_egress_phase block example_world example_config dest = gw_ok ()"
  by (simp add: search_egress_phase_def example_config_def default_gateway_config_def
      default_agent_web_policy_def)

lemma example_llm: "llm_phase block example_world example_config dest None [] None = gw_ok ([], None)"
  by (simp add: llm_phase_def is_llm_json_def gw_bind_ok)

lemma example_not_search: "is_search_host example_world example_config dest = False"
  by (simp add: is_search_host_def example_config_def default_gateway_config_def
      host_matches_search_engine_def split: option.split)

lemma example_run:
  "intercept example_world example_config ci example_request =
     (Passed 200 ''application/octet-stream'' ''ok'', ci,
      [Asked ''K'' (Some ''api''),
       Sent \<lparr>up_method = ''GET'', up_url = ''http://api/'', up_headers = [(''x-key'', ''sk'')],
             up_body = []\<rparr>])"
proof -
  let ?W = example_world and ?cfg = example_config
  note host = example_host
  have ident: "secret_access_identity_from_headers (rq_headers example_request) = anonymous"
    by (simp add: example_request_def secret_access_identity_from_headers_def header_string_def
        header_get_def anonymous_def)
  have url: "target_url example_request = ''http://api/''"
    by (simp add: target_url_def example_request_def)
  have phase1: "url_phase ?W ?cfg example_request anonymous = gw_ok (''http://api/'', None)"
    by (simp add: url_phase_def url host example_plain gw_bind_ok)
  have hs: "original_headers (rq_headers example_request) = [(''x-key'', example_value)]"
    by (simp add: original_headers_def example_request_def List.map_filter_simps Let_def hop_by_hop_def
        control_header_def to_ascii_lowercase_def lower_byte_def ascii_upper_def less_eq_char_def)
  have phase2: "header_phase ?W ?cfg (Some ''api'') anonymous None []
      (original_headers (rq_headers example_request)) =
      (Inr ([(''x-key'', ''sk'')], Some empty_store), [Asked ''K'' (Some ''api'')])"
    unfolding hs by (simp add: example_filled gw_bind_ok gw_bind_value) (simp add: gw_ok_def)
  have ct: "content_type_of [(''x-key'', ''sk'')] = None"
    by (simp add: content_type_of_def to_ascii_lowercase_def lower_byte_def ascii_upper_def less_eq_char_def)
  have body: "body_phase ?W ?cfg dest ident md c (rq_body example_request) = gw_ok ([], None)"
    for dest ident md c by (simp add: body_phase_def example_request_def)
  have scan: "outbound_scan_phase ?W ?cfg u [] r = gw_ok ()" for u r
    by (simp add: outbound_scan_phase_def example_world_def example_lib_def)
  have request: "request_phase ?W ?cfg example_request =
      (Inr \<lparr>pr_url = ''http://api/'', pr_headers = [(''x-key'', ''sk'')], pr_body = []\<rparr>,
       [Asked ''K'' (Some ''api'')])"
    unfolding request_phase_def Let_def ident phase1 gw_bind_value prod.case host phase2 ct body gw_bind_ok
      example_search example_llm scan
    by (simp add: gw_ok_def)
  have inject: "injection_phase ?W ?cfg ci ''http://api/'' = ([], ci)"
    by (simp add: injection_phase_def example_config_def default_gateway_config_def)
  have opaque: "looks_like_scannable_content_type ''application/octet-stream'' = False" by code_simp
  have inbound: "inbound_scan_phase ?W ?cfg u ''application/octet-stream'' b = gw_ok ()" for u b
    by (simp add: inbound_scan_phase_def opaque)
  have response: "response_phase ?W ?cfg u
      \<lparr>ur_status = 200, ur_content_type = None, ur_body = ''ok''\<rparr> =
      gw_ok (Passed 200 ''application/octet-stream'' ''ok'')" for u
    by (simp add: response_phase_def host example_not_search inbound gw_bind_ok)
  have send: "w_send ?W up = Inr \<lparr>ur_status = 200, ur_content_type = None, ur_body = ''ok''\<rparr>" for up
    by (simp add: example_world_def)
  have forward: "forward_phase ?W ?cfg m u up =
      (Inr (Passed 200 ''application/octet-stream'' ''ok''), [Sent up])" for m u up
    by (simp add: forward_phase_def gw_bind_value send response) (simp add: gw_ok_def)
  have direct: "request_url ?W u [] = gw_ok u" for u
    by (simp add: request_url_def injected_query_def List.map_filter_simps)
  show ?thesis
    by (simp add: intercept_def request inject direct gw_bind_ok forward injected_headers_def
        List.map_filter_simps) (simp add: example_request_def)
qed

section \<open>Properties\<close>



text \<open>
  C5: A response reaches the agent only after a request was sent and answered, and with the
  upstream's status.  Its body is the upstream's, or for a search host the one the search scan
  leaves; a search response whose text the scanner calls unsafe, or with a denylisted URL that
  is not stripped, is refused, and so is any textual body the scanner calls unsafe when
  inbound scanning is on.
\<close>

theorem intercept_response_scanned:
  assumes "intercept W cfg ci req = (Passed status content_type body, ci', evs)"
  shows "\<exists>p up resp. Sent up \<in> set evs \<and> w_send W up = Inr resp \<and>
    fst (request_phase W cfg req) = Inr p \<and> status = ur_status resp \<and>
    content_type = (case ur_content_type resp of Some ct \<Rightarrow> ct | None \<Rightarrow> ''application/octet-stream'') \<and>
    response_body_ok W cfg (pr_url p) (ur_body resp) body \<and>
    (scan_inbound cfg \<longrightarrow> looks_like_scannable_content_type content_type \<longrightarrow>
       scan_clear W (pr_url p) body)"
  using assms
proof (cases rule: intercept_cases)
  case refused
  then show ?thesis using request_phase_blocks [of W cfg req] by (simp add: gw_blocks_def)
next
  case (no_url p injs)
  then show ?thesis by (auto simp: request_url_def gw_ok_def gw_refuse_def split: if_splits option.splits)
next
  case (sent p injs url up)
  from forward_phase_passed [OF sent(6) refl] obtain resp where resp: "w_send W up = Inr resp"
    "fst (response_phase W cfg (pr_url p) resp) = Inl (Passed status content_type body) \<or>
     fst (response_phase W cfg (pr_url p) resp) = Inr (Passed status content_type body)"
    by blast
  from response_phase_passed [OF resp(2)] resp(1) sent(1,5) show ?thesis
    by (intro exI [of _ p] exI [of _ up] exI [of _ resp]) simp
qed

theorem intercept_response_scanned_witness:
  "\<exists>up. Sent up \<in> set (snd (snd (intercept example_world example_config (with_config None)
     example_request))) \<and> w_send example_world up = Inr \<lparr>ur_status = 200, ur_content_type = None, ur_body = ''ok''\<rparr>"
  using intercept_response_scanned [OF example_run [of "with_config None"]]
  unfolding example_run by (auto simp: example_world_def)

end
