(* ===== verification/Gateway_Mitm.thy ===== *)
theory Gateway_Mitm
  imports Gateway_Intercept
begin

text \<open>
  The HTTPS interception mode of the security gateway (\<open>crates/security-proxy/src/mitm.rs\<close>):
  \<open>process_request\<close>, which answers a request itself or hands the rewritten request to the
  proxy library, \<open>process_response\<close>, the credential check in front of substitution with its
  operator override, the \<open>/vault\<close> route, and the header rewriting.

  The policy gates are those of \<open>Gateway_Intercept\<close>, refusing with this mode's responses.
  What \<open>hudsucker\<close>, \<open>http\<close>, \<open>url\<close> and \<open>ironclaw_safety\<close> do is a field of \<open>mitm_world\<close>.
\<close>

section \<open>Requests, replies and the handler's state\<close>

record mitm_request =
  mq_method :: string
  mq_has_scheme :: bool
  mq_uri :: string
  mq_path :: string
  mq_path_query :: "string option"
  mq_headers :: header_map
  mq_body :: "string option"

record mitm_upstream =
  mu_method :: string
  mu_uri :: string
  mu_headers :: header_map
  mu_body :: string

record mitm_answer =
  ma_status :: nat
  ma_headers :: header_map
  ma_body :: "string option"

datatype mitm_reply =
  MPolicy string gw_text
| MBlocked string
| MManual string string
| MHealth nat nat
| MJson nat json

datatype mitm_out = Tunnel mitm_request | Forward mitm_upstream | Reply mitm_reply

record mitm_handler =
  last_url :: "string option"
  last_was_search_host :: bool

definition new_handler :: mitm_handler where
  "new_handler = \<lparr>last_url = None, last_was_search_host = False\<rparr>"

record 'e mitm_world =
  gw :: "'e gw_world"
  decode_request :: "mitm_request \<Rightarrow> string + mitm_request"
  decode_response :: "mitm_answer \<Rightarrow> string + mitm_answer"
  parse_uri :: "string \<Rightarrow> string + string"
  header_value_ok :: "string \<Rightarrow> bool"
  header_name :: "string \<Rightarrow> string option"
  query_pairs :: "string \<Rightarrow> (string \<times> string) list option"
  with_query :: "string \<Rightarrow> (string \<times> string) list \<Rightarrow> string"
  manual_credentials :: "json \<Rightarrow> bool"
  response_leak :: "string \<Rightarrow> string option"
  audit_counts :: "nat \<times> nat"
  env_var :: env

section \<open>Text helpers\<close>

definition as_bytes :: "string \<Rightarrow> 8 word list" where
  "as_bytes s = map of_char s"

definition constant_time_eq :: "8 word list \<Rightarrow> 8 word list \<Rightarrow> bool" where
  "constant_time_eq a b =
     (if length a \<noteq> length b then False
      else foldl (\<lambda>diff (x, y). or diff (xor x y)) 0 (zip a b) = 0)"

fun html_escape :: "string \<Rightarrow> string" where
  "html_escape [] = []"
| "html_escape (c # s) =
     (if c = CHR ''&'' then ''&amp;''
      else if c = CHR ''<'' then ''&lt;''
      else if c = CHR ''>'' then ''&gt;''
      else if c = CHR 0x22 then ''&quot;''
      else if c = CHR 0x27 then ''&#39;''
      else [c]) @ html_escape s"

section \<open>Header maps\<close>

text \<open>\<open>insert\<close> replaces every value of the name, \<open>remove\<close> drops them all.\<close>

definition hm_remove :: "'k \<Rightarrow> ('k \<times> 'v) list \<Rightarrow> ('k \<times> 'v) list" where
  "hm_remove name hs = filter (\<lambda>(k, _). k \<noteq> name) hs"

fun hm_insert :: "'k \<Rightarrow> 'v \<Rightarrow> ('k \<times> 'v) list \<Rightarrow> ('k \<times> 'v) list" where
  "hm_insert name v [] = [(name, v)]"
| "hm_insert name v ((k, x) # hs) =
     (if k = name then (name, v) # hm_remove name hs else (k, x) # hm_insert name v hs)"

definition is_hop_by_hop_or_recomputed :: "string \<Rightarrow> bool" where
  "is_hop_by_hop_or_recomputed name \<longleftrightarrow>
     to_ascii_lowercase name \<in> set [''host'', ''connection'', ''content-length'', ''keep-alive'',
       ''proxy-authenticate'', ''proxy-authorization'', ''te'', ''trailers'',
       ''transfer-encoding'', ''upgrade'']"

definition remove_calciforge_control_headers :: "header_map \<Rightarrow> header_map" where
  "remove_calciforge_control_headers hs =
     fold hm_remove
       (filter (\<lambda>name. prefix ''x-calciforge-'' name \<or> name = ''x-agent-id'') (map fst hs)) hs"

definition removed_names :: "string list" where
  "removed_names = [''host'', ''connection'', ''content-length'', ''proxy-authenticate'',
     ''proxy-authorization'', ''te'', ''trailer'', ''transfer-encoding'', ''upgrade'', ''keep-alive'']"

definition remove_hop_by_hop_or_recomputed_headers :: "header_map \<Rightarrow> header_map" where
  "remove_hop_by_hop_or_recomputed_headers hs = fold hm_remove removed_names hs"

definition request_target_url :: "mitm_request \<Rightarrow> string option" where
  "request_target_url req =
     (if mq_has_scheme req then Some (mq_uri req)
      else (case header_get (mq_headers req) ''host'' of
              None \<Rightarrow> None
            | Some host \<Rightarrow> Some (''http://'' @ host @
                (case mq_path_query req of Some pq \<Rightarrow> pq | None \<Rightarrow> ''/''))))"

section \<open>Manually supplied credentials\<close>

definition is_exact_secret_reference :: "(string set \<Rightarrow> string list) \<Rightarrow> string \<Rightarrow> bool" where
  "is_exact_secret_reference iter value =
     (case find_refs value of
        Inl _ \<Rightarrow> False
      | Inr names \<Rightarrow>
          (case iter names of
             [] \<Rightarrow> False
           | name # rest \<Rightarrow> rest = [] \<and> value = REF_OPEN @ name @ ''}}''))"

text \<open>Header values are visible ASCII here, so whitespace is the ASCII whitespace.\<close>

definition ascii_space :: "char \<Rightarrow> bool" where
  "ascii_space c \<longleftrightarrow> c = CHR '' '' \<or> (9 \<le> (of_char c :: nat) \<and> (of_char c :: nat) \<le> 13)"

definition header_value_is_proxy_managed_secret ::
  "(string set \<Rightarrow> string list) \<Rightarrow> string \<Rightarrow> bool" where
  "header_value_is_proxy_managed_secret iter value =
     (let trimmed = trim value in
      if is_exact_secret_reference iter trimmed then True
      else (case split_once ascii_space trimmed of
              None \<Rightarrow> False
            | Some (scheme, rest) \<Rightarrow>
                to_ascii_lowercase scheme \<in>
                  set [''bearer'', ''basic'', ''token'', ''digest'', ''hoba'', ''mutual''] \<and>
                is_exact_secret_reference iter (trim rest)))"

definition url_with_secret_query_params_removed :: "'e mitm_world \<Rightarrow> string \<Rightarrow> string" where
  "url_with_secret_query_params_removed M url =
     (case query_pairs M url of
        None \<Rightarrow> url
      | Some pairs \<Rightarrow>
          if pairs = [] then url
          else if \<not> list_ex (\<lambda>(_, v). is_exact_secret_reference (w_iter (gw M)) v) pairs then url
          else with_query M url
                 (filter (\<lambda>(_, v). \<not> is_exact_secret_reference (w_iter (gw M)) v) pairs))"

text \<open>The members of a JSON object as \<open>serde_json::Map::insert\<close> leaves them; their order is
  immaterial.\<close>

definition visible_to_check :: "(string set \<Rightarrow> string list) \<Rightarrow> string \<times> string option \<Rightarrow> bool" where
  "visible_to_check iter h =
     (case h of (name, v) \<Rightarrow>
        \<not> (name = ''proxy-authorization'' \<or> prefix ''x-calciforge-'' name) \<and>
        (case v of None \<Rightarrow> False | Some s \<Rightarrow> \<not> header_value_is_proxy_managed_secret iter s))"

definition build_credential_check_params :: "'e mitm_world \<Rightarrow> string \<Rightarrow> header_map \<Rightarrow> json" where
  "build_credential_check_params M url headers =
     JObj [(''url'', JStr (url_with_secret_query_params_removed M url)),
       (''headers'', JObj (fold (\<lambda>(k, v). hm_insert k (JStr (the v)))
          (filter (visible_to_check (w_iter (gw M))) headers) []))]"

record override_status =
  ov_allowed :: bool
  ov_reason :: string

definition MANUAL_CREDENTIAL_POLICY :: string where
  "MANUAL_CREDENTIAL_POLICY = ''ironclaw.manual_credential''"

definition OVERRIDE_TOKEN_ENV :: string where
  "OVERRIDE_TOKEN_ENV = ''SECURITY_PROXY_MANUAL_CREDENTIAL_OVERRIDE_TOKEN''"

definition manual_credential_override_status ::
  "env \<Rightarrow> header_map \<Rightarrow> bool \<Rightarrow> override_status" where
  "manual_credential_override_status env headers requires_operator_approval =
     (case header_get headers ''x-calciforge-override'' of
        None \<Rightarrow> \<lparr>ov_allowed = False, ov_reason = ''no override header supplied''\<rparr>
      | Some raw \<Rightarrow>
          (let value = trim raw;
               (policy, token) = (case split_once (\<lambda>c. c = CHR '':'') value of
                                    Some (p, t) \<Rightarrow> (trim p, Some (trim t)) | None \<Rightarrow> (value, None)) in
           if policy \<noteq> MANUAL_CREDENTIAL_POLICY
           then \<lparr>ov_allowed = False, ov_reason = ''override header does not target ironclaw.manual_credential''\<rparr>
           else if \<not> requires_operator_approval
           then \<lparr>ov_allowed = True, ov_reason = ''operator approval disabled by configuration''\<rparr>
           else (case token of
              None \<Rightarrow> \<lparr>ov_allowed = False, ov_reason = ''operator approval token required''\<rparr>
            | Some t \<Rightarrow>
                if t = [] then \<lparr>ov_allowed = False, ov_reason = ''operator approval token required''\<rparr>
                else (case env OVERRIDE_TOKEN_ENV of
                   Some expected \<Rightarrow>
                     if constant_time_eq (as_bytes t) (as_bytes expected)
                     then \<lparr>ov_allowed = True, ov_reason = ''operator approval token accepted''\<rparr>
                     else \<lparr>ov_allowed = False, ov_reason = ''operator approval token rejected''\<rparr>
                 | None \<Rightarrow> \<lparr>ov_allowed = False, ov_reason = OVERRIDE_TOKEN_ENV @ '' is not configured''\<rparr>))))"

text \<open>\<open>IronclawSafety::check_request_credentials\<close> and \<open>scan_response_body\<close> (\<open>ironclaw.rs\<close>).\<close>

definition check_request_credentials :: "'e mitm_world \<Rightarrow> json \<Rightarrow> string + unit" where
  "check_request_credentials M params =
     (if manual_credentials M params then Inl ''LLM-injected credential detected in outgoing request''
      else Inr ())"

definition manual_credential_phase ::
  "'e mitm_world \<Rightarrow> gateway_config \<Rightarrow> string \<Rightarrow> header_map \<Rightarrow> (mitm_reply, unit) stage" where
  "manual_credential_phase M cfg url headers =
     (let override = manual_credential_override_status (env_var M) headers
            (manual_credential_override_requires_operator_approval cfg) in
      case check_request_credentials M (build_credential_check_params M url headers) of
        Inl reason \<Rightarrow>
          if ov_allowed override then gw_ok ()
          else gw_refuse (MManual reason (redact_url_for_log (gw M) url))
      | Inr _ \<Rightarrow> gw_ok ())"

section \<open>The vault route\<close>

definition VAULT_TOKEN_ENV :: string where
  "VAULT_TOKEN_ENV = ''SECURITY_PROXY_VAULT_TOKEN''"

definition error_json :: "string \<Rightarrow> json" where
  "error_json message = JObj [(''status'', JStr ''error''), (''message'', JStr message)]"

definition vault_json_response ::
  "env \<Rightarrow> (string \<Rightarrow> 'e + string) \<Rightarrow> header_map \<Rightarrow> string \<Rightarrow> (nat \<times> json) \<times> gw_event list" where
  "vault_json_response env resolver headers asked_name =
     (case env VAULT_TOKEN_ENV of
        None \<Rightarrow> ((503, error_json ''vault route disabled''), [])
      | Some expected \<Rightarrow>
          if expected = [] then ((503, error_json ''vault route disabled''), [])
          else
            (let provided = (case Option.bind (header_get headers ''authorization'') (strip_prefix ''Bearer '') of
                               Some t \<Rightarrow> t | None \<Rightarrow> []) in
             if \<not> constant_time_eq (as_bytes provided) (as_bytes expected)
             then ((401, error_json ''unauthorized''), [])
             else (case resolver asked_name of
                     Inr token \<Rightarrow>
                       ((200, JObj [(''status'', JStr ''ok''), (''secret'', JStr asked_name),
                                    (''token'', JStr token)]), [Asked asked_name None])
                   | Inl _ \<Rightarrow> ((404, error_json ''Secret not found''), [Asked asked_name None]))))"

section \<open>Substitution in a request\<close>

definition m_url_refusal :: mitm_reply where
  "m_url_refusal = MPolicy ''secret_substitution.url''
     (Msg ''URL secret substitution failed. Check the secret exists and is allowed for this destination.'')"

definition m_header_refusal :: mitm_reply where
  "m_header_refusal = MPolicy ''secret_substitution.header''
     (Msg ''Header secret substitution failed. Check the secret exists and is allowed for this destination.'')"

definition m_body_refusal :: mitm_reply where
  "m_body_refusal = MPolicy ''secret_substitution.body''
     (Msg ''Body secret substitution failed. Check the secret exists, content type is supported, and destination is allowed.'')"

fun substitute_headers_loop ::
  "'e mitm_world \<Rightarrow> gateway_config \<Rightarrow> string option \<Rightarrow> secret_access_identity \<Rightarrow>
   secret_metadata_store option \<Rightarrow> header_map \<Rightarrow> header_map \<Rightarrow>
   (mitm_reply, header_map \<times> secret_metadata_store option) stage" where
  "substitute_headers_loop M cfg dest identity metadata headers [] = gw_ok (headers, metadata)"
| "substitute_headers_loop M cfg dest identity metadata headers ((name, None) # hs) =
     substitute_headers_loop M cfg dest identity metadata headers hs"
| "substitute_headers_loop M cfg dest identity metadata headers ((name, Some v) # hs) =
     gw_bind (need_metadata m_header_refusal (gw M) v dest metadata) (\<lambda>metadata'.
     gw_bind (substitute_or m_header_refusal (gw M) cfg v dest metadata' identity) (\<lambda>v'.
     if header_value_ok M v'
     then substitute_headers_loop M cfg dest identity metadata' (hm_insert name (Some v') headers) hs
     else gw_refuse m_header_refusal))"

definition substitute_headers ::
  "'e mitm_world \<Rightarrow> gateway_config \<Rightarrow> string option \<Rightarrow> secret_access_identity \<Rightarrow>
   secret_metadata_store option \<Rightarrow> header_map \<Rightarrow>
   (mitm_reply, header_map \<times> secret_metadata_store option) stage" where
  "substitute_headers M cfg dest identity metadata headers =
     gw_bind (substitute_headers_loop M cfg dest identity metadata headers
                (filter (\<lambda>(name, _). \<not> is_hop_by_hop_or_recomputed name) headers))
       (\<lambda>(headers', metadata'). gw_ok (hm_remove ''content-length'' headers', metadata'))"

definition remote_scan_body :: "'e mitm_world \<Rightarrow> string option \<Rightarrow> string \<Rightarrow> string option" where
  "remote_scan_body M content_type bytes =
     (case body_substitution_mode (lib_uni (web (gw M))) content_type of
        FullSubstitute \<Rightarrow> if bytes \<noteq> [] then Some (lib_utf8_lossy (web (gw M)) bytes) else None
      | RawScan \<Rightarrow> None)"

definition substitute_body ::
  "'e mitm_world \<Rightarrow> gateway_config \<Rightarrow> string \<Rightarrow> string option \<Rightarrow> string option \<Rightarrow>
   secret_metadata_store option \<Rightarrow> secret_access_identity \<Rightarrow> string option \<Rightarrow>
   (mitm_reply, string) stage" where
  "substitute_body M cfg bytes content_type dest metadata identity predecoded =
     (if bytes = [] then gw_ok bytes
      else (case body_substitution_mode (lib_uni (web (gw M))) content_type of
        FullSubstitute \<Rightarrow>
          (let body_str = (case predecoded of Some b \<Rightarrow> b | None \<Rightarrow> lib_utf8_lossy (web (gw M)) bytes) in
           gw_bind (need_metadata m_body_refusal (gw M) body_str dest metadata) (\<lambda>metadata'.
           substitute_or m_body_refusal (gw M) cfg body_str dest metadata' identity))
      | RawScan \<Rightarrow>
          if memchr_substr bytes REF_OPEN then gw_refuse m_body_refusal else gw_ok bytes))"

section \<open>Processing a request\<close>

text \<open>Up to the substituted URL: until then the handler's state is that of the last request.\<close>

definition mitm_url_phase ::
  "'e mitm_world \<Rightarrow> gateway_config \<Rightarrow> mitm_request \<Rightarrow>
   (mitm_reply, mitm_request \<times> string \<times> secret_metadata_store option) stage" where
  "mitm_url_phase M cfg raw =
     (case decode_request M raw of
        Inl e \<Rightarrow> gw_refuse (MBlocked (''Failed to decode incoming request: '' @ e))
      | Inr req \<Rightarrow>
     (case request_target_url req of
        None \<Rightarrow> gw_refuse (MBlocked ''Request URL could not be reconstructed; the gateway refuses requests it cannot identify a destination for.'')
      | Some url \<Rightarrow>
          (let host = url_host (gw M) url in
           if host = None \<and> str_contains REF_OPEN url
           then gw_refuse (MBlocked ''URL contains a secret reference but the host portion could not be parsed; the gateway refuses to substitute secrets without a known destination.'')
           else
             gw_bind (manual_credential_phase M cfg url (mq_headers req)) (\<lambda>_.
             (let identity = secret_access_identity_from_headers (mq_headers req) in
              gw_bind (need_metadata m_url_refusal (gw M) url host None) (\<lambda>metadata.
              gw_bind (substitute_or m_url_refusal (gw M) cfg url host metadata identity) (\<lambda>url'.
              gw_ok (req, url', metadata))))))))"

definition mitm_outbound_phase ::
  "'e mitm_world \<Rightarrow> gateway_config \<Rightarrow> string \<Rightarrow> string \<Rightarrow> string option \<Rightarrow> (mitm_reply, unit) stage" where
  "mitm_outbound_phase M cfg url body remote =
     (if scan_outbound cfg \<and> body \<noteq> []
      then (let text = lib_utf8_lossy (web (gw M)) body; redacted = redact_url_for_log (gw M) url in
            case w_scan_remote (gw M) redacted text redacted
                   (case remote of Some r \<Rightarrow> r | None \<Rightarrow> text) of
              Unsafe reason \<Rightarrow>
                gw_refuse (MPolicy ''scanner.outbound_exfiltration''
                  (Msg (''Outbound request blocked: '' @ reason)))
            | Review _ \<Rightarrow> gw_ok ()
            | Clean \<Rightarrow> gw_ok ())
      else gw_ok ())"

definition mitm_body_phase ::
  "'e mitm_world \<Rightarrow> gateway_config \<Rightarrow> mitm_request \<Rightarrow> string \<Rightarrow> secret_metadata_store option \<Rightarrow>
   (mitm_reply, string \<times> header_map \<times> string) stage" where
  "mitm_body_phase M cfg req url metadata =
     (let dest = url_host (gw M) url;
          identity = secret_access_identity_from_headers (mq_headers req);
          content_type = header_get (mq_headers req) ''content-type'' in
      gw_bind (search_egress_phase MPolicy (gw M) cfg dest) (\<lambda>_.
      case parse_uri M url of
        Inl e \<Rightarrow> gw_refuse (MBlocked (''Substituted URL is not a valid URI: '' @ e))
      | Inr uri \<Rightarrow>
          gw_bind (substitute_headers M cfg dest identity metadata (mq_headers req)) (\<lambda>(headers, metadata').
          case mq_body req of
            None \<Rightarrow> gw_refuse (MBlocked ''Failed to read request body'')
          | Some bytes \<Rightarrow>
              (let remote = remote_scan_body M content_type bytes in
               gw_bind (substitute_body M cfg bytes content_type dest metadata' identity remote) (\<lambda>body.
               gw_bind (llm_phase MPolicy (gw M) cfg dest content_type body remote) (\<lambda>(body', remote').
               gw_bind (mitm_outbound_phase M cfg url body' remote') (\<lambda>_.
               gw_ok (uri, headers, body'))))))))"

definition append_query_param_to_uri ::
  "'e mitm_world \<Rightarrow> string \<Rightarrow> string \<Rightarrow> string \<Rightarrow> string option" where
  "append_query_param_to_uri M uri name value =
     (case w_append_query (gw M) uri [(name, value)] of
        None \<Rightarrow> None
      | Some url \<Rightarrow> (case parse_uri M url of Inl _ \<Rightarrow> None | Inr uri' \<Rightarrow> Some uri'))"

fun apply_injections ::
  "'e mitm_world \<Rightarrow> string \<Rightarrow> header_map \<Rightarrow> credential_injection list \<Rightarrow>
   mitm_reply + string \<times> header_map" where
  "apply_injections M uri headers [] = Inr (uri, headers)"
| "apply_injections M uri headers (InjHeader name value # rest) =
     (case header_name M name of
        Some k \<Rightarrow>
          if header_value_ok M value
          then apply_injections M uri (hm_insert k (Some value) headers) rest
          else apply_injections M uri headers rest
      | None \<Rightarrow> apply_injections M uri headers rest)"
| "apply_injections M uri headers (InjQuery name value # rest) =
     (case append_query_param_to_uri M uri name value of
        Some uri' \<Rightarrow> apply_injections M uri' headers rest
      | None \<Rightarrow> Inl (MPolicy ''credential_injection.query_param''
          (Msg ''Credential query-parameter injection failed before forwarding.'')))"

definition mitm_injections ::
  "'e mitm_world \<Rightarrow> gateway_config \<Rightarrow> credential_injector \<Rightarrow> string \<Rightarrow>
   credential_injection list \<times> credential_injector" where
  "mitm_injections M cfg ci url =
     (let W = gw M in
      if inject_credentials cfg \<and> \<not> check_bypassed (web W) cfg url
      then (case url_host W url of
        None \<Rightarrow> ([], ci)
      | Some host \<Rightarrow>
          injections_for_host (lib_uni (web W)) (w_b64 W) (w_resolver W) (w_now W) (w_later W) ci host)
      else ([], ci))"

definition process_request ::
  "'e mitm_world \<Rightarrow> gateway_config \<Rightarrow> credential_injector \<Rightarrow> mitm_handler \<Rightarrow> mitm_request \<Rightarrow>
   mitm_out \<times> credential_injector \<times> mitm_handler \<times> gw_event list" where
  "process_request M cfg ci h raw =
     (if mq_method raw = ''CONNECT'' then (Tunnel raw, ci, h, [])
      else if mq_method raw = ''GET'' \<and> mq_path raw = ''/health'' \<and> \<not> mq_has_scheme raw
      then (Reply (case audit_counts M of (n, b) \<Rightarrow> MHealth n b), ci, h, [])
      else if mq_method raw = ''GET'' \<and> prefix ''/vault/'' (mq_path raw) \<and> \<not> mq_has_scheme raw
      then (case vault_json_response (env_var M) (w_resolver (gw M)) (mq_headers raw)
                   (drop_seqs [''/vault/''] (mq_path raw)) of
              ((status, value), evs) \<Rightarrow> (Reply (MJson status value), ci, h, evs))
      else (case mitm_url_phase M cfg raw of
        (Inl r, evs) \<Rightarrow> (Reply r, ci, h, evs)
      | (Inr (req, url, metadata), evs) \<Rightarrow>
          (let h' = \<lparr>last_url = Some url,
                     last_was_search_host = is_search_host (gw M) cfg (url_host (gw M) url)\<rparr> in
           case mitm_body_phase M cfg req url metadata of
             (Inl r, evs') \<Rightarrow> (Reply r, ci, h', evs @ evs')
           | (Inr (uri, headers, body), evs') \<Rightarrow>
               (case mitm_injections M cfg ci url of (injs, ci') \<Rightarrow>
                  (case apply_injections M uri headers injs of
                     Inl r \<Rightarrow> (Reply r, ci', h', evs @ evs')
                   | Inr (uri', headers') \<Rightarrow>
                       (Forward \<lparr>mu_method = mq_method req, mu_uri = uri',
                          mu_headers = remove_hop_by_hop_or_recomputed_headers
                            (remove_calciforge_control_headers headers'),
                          mu_body = body\<rparr>, ci', h', evs @ evs'))))))"

section \<open>Processing a response\<close>

definition leak_phase :: "'e mitm_world \<Rightarrow> gateway_config \<Rightarrow> string \<Rightarrow> (mitm_reply, unit) stage" where
  "leak_phase M cfg body_str =
     (if scan_response_secrets cfg
      then (case response_leak M body_str of
              Some reason \<Rightarrow> gw_refuse (MPolicy ''ironclaw.response_secret_leak'' (Msg reason))
            | None \<Rightarrow> gw_ok ())
      else gw_ok ())"

definition mitm_inbound_phase ::
  "'e mitm_world \<Rightarrow> gateway_config \<Rightarrow> string \<Rightarrow> string \<Rightarrow> string \<Rightarrow> (mitm_reply, unit) stage" where
  "mitm_inbound_phase M cfg url content_type body =
     (if scan_inbound cfg \<and> looks_like_scannable_content_type content_type
      then (case w_utf8 (gw M) body of
              None \<Rightarrow> gw_ok ()
            | Some body_str \<Rightarrow>
                gw_bind (leak_phase M cfg body_str) (\<lambda>_.
                scan_text_phase (\<lambda>reason. MPolicy ''scanner.inbound_prompt_injection''
                  (Msg (''Response blocked: '' @ reason))) (gw M) url body))
      else gw_ok ())"

definition process_response ::
  "'e mitm_world \<Rightarrow> gateway_config \<Rightarrow> mitm_handler \<Rightarrow> mitm_answer \<Rightarrow>
   (mitm_reply, mitm_answer) stage" where
  "process_response M cfg h raw =
     (case decode_response M raw of
        Inl e \<Rightarrow> gw_refuse (MBlocked (''Failed to decode upstream response: '' @ e))
      | Inr res \<Rightarrow>
          (let url = (case last_url h of Some u \<Rightarrow> u | None \<Rightarrow> ''<unknown>'');
               content_type = (case header_get (ma_headers res) ''content-type'' of
                                 Some ct \<Rightarrow> ct | None \<Rightarrow> ''application/octet-stream'') in
           case ma_body res of
             None \<Rightarrow> gw_refuse (MBlocked ''Failed to read response body'')
           | Some bytes \<Rightarrow>
               gw_bind (if last_was_search_host h
                        then search_response_phase MPolicy (gw M) cfg url bytes
                        else gw_ok bytes) (\<lambda>body.
               gw_bind (mitm_inbound_phase M cfg url content_type body) (\<lambda>_.
               gw_ok \<lparr>ma_status = ma_status res,
                      ma_headers = remove_hop_by_hop_or_recomputed_headers (ma_headers res),
                      ma_body = Some body\<rparr>))))"

section \<open>Texts and header maps\<close>

lemma or_zero_iff: "or x y = 0 \<longleftrightarrow> x = 0 \<and> y = (0 :: 'a::len word)"
  by (auto simp: bit_eq_iff bit_or_iff)

lemma xor_zero_iff: "xor x y = 0 \<longleftrightarrow> x = (y :: 'a::len word)"
  by (auto simp: bit_eq_iff bit_xor_iff)

lemma foldl_diff_zero:
  "foldl (\<lambda>diff (x, y). or diff (xor x y)) d ps = 0 \<longleftrightarrow>
     d = 0 \<and> (\<forall>(x, y) \<in> set ps. x = (y :: 8 word))"
  by (induction ps arbitrary: d) (auto simp: or_zero_iff xor_zero_iff)

lemma constant_time_eq_iff [simp]: "constant_time_eq a b \<longleftrightarrow> a = b"
  by (auto simp: constant_time_eq_def foldl_diff_zero list_eq_iff_zip_eq split: prod.splits)

lemma as_bytes_eq [simp]: "as_bytes s = as_bytes t \<longleftrightarrow> s = t"
proof -
  have "inj (of_char :: char \<Rightarrow> 8 word)"
  proof (rule injI)
    fix c d :: char assume "(of_char c :: 8 word) = of_char d"
    then have "(of_nat (of_char c) :: 8 word) = of_nat (of_char d)" by (simp only: of_nat_of_char)
    then have "(of_char c :: nat) mod 256 = of_char d mod 256"
      by (simp add: word_of_nat_eq_iff take_bit_eq_mod)
    then have "(of_char c :: nat) = of_char d" by simp
    then show "c = d" by simp
  qed
  then show ?thesis by (simp add: as_bytes_def inj_map_eq_map)
qed

lemma html_escape_safe:
  "c \<in> set (html_escape s) \<Longrightarrow> c \<notin> {CHR ''<'', CHR ''>'', CHR 0x22, CHR 0x27}"
  by (induction s) (auto split: if_splits)

lemma hm_remove_set [simp]: "e \<in> set (hm_remove name hs) \<longleftrightarrow> e \<in> set hs \<and> fst e \<noteq> name"
  by (auto simp: hm_remove_def)

lemma hm_insert_set:
  "e \<in> set (hm_insert name v hs) \<Longrightarrow> e = (name, v) \<or> fst e \<noteq> name \<and> e \<in> set hs"
  by (induction hs) (auto split: if_splits)

lemma fold_remove_set:
  "e \<in> set (fold hm_remove names hs) \<longleftrightarrow> e \<in> set hs \<and> fst e \<notin> set names"
  by (induction names arbitrary: hs) auto

lemma removed_control:
  "e \<in> set (remove_calciforge_control_headers hs) \<longleftrightarrow>
     e \<in> set hs \<and> \<not> (prefix ''x-calciforge-'' (fst e) \<or> fst e = ''x-agent-id'')"
  by (auto simp: remove_calciforge_control_headers_def fold_remove_set)

lemma removed_hop:
  "e \<in> set (remove_hop_by_hop_or_recomputed_headers hs) \<longleftrightarrow>
     e \<in> set hs \<and> fst e \<notin> set removed_names"
  by (simp add: remove_hop_by_hop_or_recomputed_headers_def fold_remove_set)

section \<open>What the phases establish\<close>

text \<open>
  A header after substitution: untouched if its name is a hop-by-hop one or its value is not
  text, and otherwise the text of one of the request's headers of this name, filled.
\<close>

definition header_filled ::
  "'e mitm_world \<Rightarrow> gateway_config \<Rightarrow> secret_access_identity \<Rightarrow> string option \<Rightarrow> header_map \<Rightarrow>
   string \<times> string option \<Rightarrow> bool" where
  "header_filled M cfg identity dest headers e \<longleftrightarrow>
     (is_hop_by_hop_or_recomputed (fst e) \<or> snd e = None) \<and> e \<in> set headers \<or>
     (\<exists>v0 v'. snd e = Some v' \<and> (fst e, Some v0) \<in> set headers \<and>
        filled (gw M) cfg identity dest v0 v')"

lemma substitute_headers_loop_spec:
  "hash_iter (w_iter (gw M)) \<Longrightarrow> metadata_ok (gw M) metadata \<Longrightarrow> set hs \<subseteq> set orig \<Longrightarrow>
    (\<forall>e \<in> set acc. header_filled M cfg identity dest orig e \<or> e \<in> set hs) \<Longrightarrow>
    gw_spec (asked_ok (gw M) cfg identity)
      (substitute_headers_loop M cfg dest identity metadata acc hs)
      (\<lambda>(headers, metadata'). metadata_ok (gw M) metadata' \<and>
         (\<forall>e \<in> set headers. header_filled M cfg identity dest orig e))"
proof (induction M cfg dest identity metadata acc hs rule: substitute_headers_loop.induct)
  case (1 M cfg dest identity metadata headers)
  then show ?case by auto
next
  case (2 M cfg dest identity metadata headers name hs)
  have "header_filled M cfg identity dest orig (name, None)"
    using 2(4) by (simp add: header_filled_def)
  with 2 show ?case by auto
next
  case (3 M cfg dest identity metadata headers name v hs)
  show ?case
    unfolding substitute_headers_loop.simps
  proof (rule gw_spec_bind [OF need_metadata_spec [OF 3(3)]],
         rule gw_spec_bind [OF substitute_or_spec])
    fix md v' assume md: "metadata_ok (gw M) md" and v': "filled (gw M) cfg identity dest v v'"
    have new: "header_filled M cfg identity dest orig (name, Some v')"
      using v' 3(4) by (auto simp: header_filled_def)
    have "\<forall>e \<in> set (hm_insert name (Some v') headers).
        header_filled M cfg identity dest orig e \<or> e \<in> set hs"
      using 3(5) new by (auto dest!: hm_insert_set)
    then show "gw_spec (asked_ok (gw M) cfg identity)
      (if header_value_ok M v'
       then substitute_headers_loop M cfg dest identity md (hm_insert name (Some v') headers) hs
       else gw_refuse m_header_refusal)
      (\<lambda>(headers, metadata'). metadata_ok (gw M) metadata' \<and>
         (\<forall>e \<in> set headers. header_filled M cfg identity dest orig e))"
      using 3(1) [OF _ 3(2) md] 3(4) by simp
  qed (simp_all add: 3(2))
qed

lemma substitute_headers_spec:
  assumes "hash_iter (w_iter (gw M))" "metadata_ok (gw M) metadata"
  shows "gw_spec (asked_ok (gw M) cfg identity)
    (substitute_headers M cfg dest identity metadata headers)
    (\<lambda>(headers', metadata'). metadata_ok (gw M) metadata' \<and>
       (\<forall>e \<in> set headers'. header_filled M cfg identity dest headers e))"
  unfolding substitute_headers_def
proof (rule gw_spec_bind [OF substitute_headers_loop_spec [OF assms(1,2)]])
  let ?hs = "filter (\<lambda>(name, _). \<not> is_hop_by_hop_or_recomputed name) headers"
  show "set ?hs \<subseteq> set headers" by auto
  show "\<forall>e \<in> set headers. header_filled M cfg identity dest headers e \<or> e \<in> set ?hs"
    by (auto simp: header_filled_def)
qed auto

lemma substitute_body_spec:
  assumes "hash_iter (w_iter (gw M))" "metadata_ok (gw M) metadata"
  shows "gw_spec (asked_ok (gw M) cfg identity)
    (substitute_body M cfg bytes content_type dest metadata identity
       (remote_scan_body M content_type bytes))
    (body_ok (gw M) cfg identity dest content_type (Some bytes))"
proof (cases "bytes = []")
  case True
  then show ?thesis by (simp add: substitute_body_def body_ok_def)
next
  case False
  show ?thesis
  proof (cases "body_substitution_mode (lib_uni (web (gw M))) content_type")
    case FullSubstitute
    with False assms show ?thesis
      by (auto simp: substitute_body_def body_ok_def remote_scan_body_def Let_def
          intro!: gw_spec_bind [OF need_metadata_spec] gw_spec_mono [OF substitute_or_spec])
  next
    case RawScan
    with False show ?thesis
      by (simp add: substitute_body_def body_ok_def memchr_substr_contains REF_OPEN_def)
  qed
qed

lemma mitm_outbound_spec:
  "gw_spec P (mitm_outbound_phase M cfg url body remote)
     (\<lambda>_. scan_outbound cfg \<longrightarrow> body \<noteq> [] \<longrightarrow>
        (\<exists>r. scan_passed (w_scan_remote (gw M) (redact_url_for_log (gw M) url)
               (lib_utf8_lossy (web (gw M)) body) (redact_url_for_log (gw M) url) r)))"
proof -
  let ?text = "lib_utf8_lossy (web (gw M)) body"
  let ?remote = "case remote of Some r \<Rightarrow> r | None \<Rightarrow> ?text"
  let ?v = "w_scan_remote (gw M) (redact_url_for_log (gw M) url) ?text (redact_url_for_log (gw M) url) ?remote"
  show ?thesis
    by (cases ?v) (auto simp: mitm_outbound_phase_def Let_def scan_passed_def intro!: exI [of _ ?remote])
qed

lemma manual_credential_phase_iff:
  "manual_credential_phase M cfg url headers =
     (if manual_credentials M (build_credential_check_params M url headers) \<and>
         \<not> ov_allowed (manual_credential_override_status (env_var M) headers
              (manual_credential_override_requires_operator_approval cfg))
      then gw_refuse (MManual ''LLM-injected credential detected in outgoing request''
             (redact_url_for_log (gw M) url))
      else gw_ok ())"
  by (simp add: manual_credential_phase_def check_request_credentials_def)

definition credentials_accepted ::
  "'e mitm_world \<Rightarrow> gateway_config \<Rightarrow> string \<Rightarrow> header_map \<Rightarrow> bool" where
  "credentials_accepted M cfg url headers \<longleftrightarrow>
     \<not> manual_credentials M (build_credential_check_params M url headers) \<or>
     ov_allowed (manual_credential_override_status (env_var M) headers
       (manual_credential_override_requires_operator_approval cfg))"

definition url_ready ::
  "'e mitm_world \<Rightarrow> gateway_config \<Rightarrow> mitm_request \<Rightarrow> mitm_request \<Rightarrow> string \<Rightarrow> bool" where
  "url_ready M cfg raw req url \<longleftrightarrow>
     decode_request M raw = Inr req \<and>
     (\<exists>target. request_target_url req = Some target \<and>
        credentials_accepted M cfg target (mq_headers req) \<and>
        filled (gw M) cfg (secret_access_identity_from_headers (mq_headers req))
          (url_host (gw M) target) target url)"

text \<open>Events are for the identity of the decoded request.\<close>

definition mitm_asked_ok :: "'e mitm_world \<Rightarrow> gateway_config \<Rightarrow> mitm_request \<Rightarrow> gw_event \<Rightarrow> bool" where
  "mitm_asked_ok M cfg raw e \<longleftrightarrow>
     (\<exists>req. decode_request M raw = Inr req \<and>
        asked_ok (gw M) cfg (secret_access_identity_from_headers (mq_headers req)) e)"

lemma gw_spec_weaken: "gw_spec P m Q \<Longrightarrow> (\<And>e. P e \<Longrightarrow> P' e) \<Longrightarrow> gw_spec P' m Q"
  by (simp add: gw_spec_def)

lemma mitm_url_phase_spec:
  assumes "hash_iter (w_iter (gw M))"
  shows "gw_spec (mitm_asked_ok M cfg raw) (mitm_url_phase M cfg raw)
    (\<lambda>(req, url, metadata). metadata_ok (gw M) metadata \<and> url_ready M cfg raw req url)"
proof (cases "decode_request M raw")
  case (Inr req)
  let ?id = "secret_access_identity_from_headers (mq_headers req)"
  show ?thesis
  proof (cases "request_target_url req")
    case (Some target)
    have "gw_spec (asked_ok (gw M) cfg ?id) (mitm_url_phase M cfg raw)
      (\<lambda>(req, url, metadata). metadata_ok (gw M) metadata \<and> url_ready M cfg raw req url)"
    proof (cases "credentials_accepted M cfg target (mq_headers req)")
      case True
      then have "manual_credential_phase M cfg target (mq_headers req) = gw_ok ()"
        by (auto simp: manual_credential_phase_iff credentials_accepted_def)
      then show ?thesis
        using Inr Some True assms
        by (auto simp: mitm_url_phase_def Let_def url_ready_def gw_bind_ok metadata_ok_def [of "gw M" None]
            intro!: gw_spec_bind [OF need_metadata_spec] gw_spec_bind [OF substitute_or_spec])
    next
      case False
      then have "\<exists>r. manual_credential_phase M cfg target (mq_headers req) = gw_refuse r"
        by (auto simp: manual_credential_phase_iff credentials_accepted_def)
      with Inr Some show ?thesis
        by (auto simp: mitm_url_phase_def Let_def gw_refuse_def gw_bind_def gw_spec_def)
    qed
    then show ?thesis by (rule gw_spec_weaken) (use Inr in \<open>auto simp: mitm_asked_ok_def\<close>)
  qed (use Inr in \<open>simp add: mitm_url_phase_def\<close>)
qed (simp add: mitm_url_phase_def)

definition body_ready ::
  "'e mitm_world \<Rightarrow> gateway_config \<Rightarrow> mitm_request \<Rightarrow> string \<Rightarrow> string \<times> header_map \<times> string \<Rightarrow> bool" where
  "body_ready M cfg req url p \<longleftrightarrow>
     (case p of (uri, headers, body) \<Rightarrow>
        let dest = url_host (gw M) url;
            identity = secret_access_identity_from_headers (mq_headers req);
            content_type = header_get (mq_headers req) ''content-type'' in
        parse_uri M url = Inr uri \<and>
        \<not> (forbid_search_engines (agent_web cfg) \<and> is_search_host (gw M) cfg dest) \<and>
        (\<forall>e \<in> set headers. header_filled M cfg identity dest (mq_headers req) e) \<and>
        (\<exists>b. body_ok (gw M) cfg identity dest content_type (mq_body req) b \<and>
           llm_ok (gw M) cfg dest content_type b body) \<and>
        (scan_outbound cfg \<longrightarrow> body \<noteq> [] \<longrightarrow>
           (\<exists>r. scan_passed (w_scan_remote (gw M) (redact_url_for_log (gw M) url)
                  (lib_utf8_lossy (web (gw M)) body) (redact_url_for_log (gw M) url) r))))"

lemma mitm_body_phase_spec:
  assumes "hash_iter (w_iter (gw M))" "metadata_ok (gw M) metadata"
  shows "gw_spec (asked_ok (gw M) cfg (secret_access_identity_from_headers (mq_headers req)))
    (mitm_body_phase M cfg req url metadata) (body_ready M cfg req url)"
proof (cases "parse_uri M url")
  case (Inl e)
  then show ?thesis
    unfolding mitm_body_phase_def Let_def
    by (intro gw_spec_bind [OF search_egress_spec]) simp
next
  case (Inr uri)
  show ?thesis
  proof (cases "mq_body req")
    case None
    with Inr show ?thesis
      unfolding mitm_body_phase_def Let_def
      by (intro gw_spec_bind [OF search_egress_spec])
         (auto intro!: gw_spec_bind [OF substitute_headers_spec] assms)
  next
    case (Some bytes)
    show ?thesis
      unfolding mitm_body_phase_def Let_def Inr Some sum.case option.case
      by (rule gw_spec_bind [OF search_egress_spec],
          rule gw_spec_bind [OF substitute_headers_spec [OF assms]], clarsimp,
          rule gw_spec_bind [OF substitute_body_spec [OF assms(1)]], assumption,
          rule gw_spec_bind [OF llm_phase_spec], clarsimp,
          rule gw_spec_bind [OF mitm_outbound_spec])
         (use Inr Some in \<open>auto simp: body_ready_def Let_def\<close>)
  qed
qed

section \<open>Whole requests\<close>

definition vault_route :: "mitm_request \<Rightarrow> bool" where
  "vault_route raw \<longleftrightarrow>
     mq_method raw = ''GET'' \<and> prefix ''/vault/'' (mq_path raw) \<and> \<not> mq_has_scheme raw"

definition vault_authorised :: "env \<Rightarrow> header_map \<Rightarrow> bool" where
  "vault_authorised env headers \<longleftrightarrow>
     (\<exists>token. token \<noteq> [] \<and> env VAULT_TOKEN_ENV = Some token \<and>
        header_get headers ''authorization'' = Some (''Bearer '' @ token))"

lemma vault_json_response_cases:
  "vault_json_response env resolver headers name =
     (if vault_authorised env headers
      then (case resolver name of
              Inr token \<Rightarrow> ((200, JObj [(''status'', JStr ''ok''), (''secret'', JStr name),
                 (''token'', JStr token)]), [Asked name None])
            | Inl _ \<Rightarrow> ((404, error_json ''Secret not found''), [Asked name None]))
      else if env VAULT_TOKEN_ENV = None \<or> env VAULT_TOKEN_ENV = Some []
      then ((503, error_json ''vault route disabled''), [])
      else ((401, error_json ''unauthorized''), []))"
proof (cases "env VAULT_TOKEN_ENV")
  case None
  then show ?thesis by (simp add: vault_json_response_def vault_authorised_def)
next
  case (Some expected)
  show ?thesis
  proof (cases "expected = []")
    case True
    with Some show ?thesis by (simp add: vault_json_response_def vault_authorised_def)
  next
    case False
    let ?provided = "case Option.bind (header_get headers ''authorization'') (strip_prefix ''Bearer '') of
      Some t \<Rightarrow> t | None \<Rightarrow> []"
    have "?provided = expected \<longleftrightarrow> vault_authorised env headers"
      using False Some
      by (auto simp: vault_authorised_def strip_prefix_Some strip_prefix_None bind_eq_Some_conv
          split: option.splits)
    with Some False show ?thesis
      by (simp add: vault_json_response_def Let_def)
  qed
qed

lemma vault_events:
  "e \<in> set (snd (vault_json_response env resolver headers name)) \<Longrightarrow>
   e = Asked name None \<and> vault_authorised env headers"
  by (auto simp: vault_json_response_cases split: if_splits sum.splits)

lemma apply_injections_headers:
  "apply_injections M uri headers injs = Inr (uri', headers') \<Longrightarrow> e \<in> set headers' \<Longrightarrow>
   e \<in> set headers \<or>
   (\<exists>name value. InjHeader name value \<in> set injs \<and> header_name M name = Some (fst e) \<and> snd e = Some value)"
proof (induction M uri headers injs rule: apply_injections.induct)
  case (2 M uri headers name x rest)
  then show ?case by (auto split: option.splits if_splits dest!: hm_insert_set)
qed (auto split: option.splits)

lemma apply_injections_uri:
  "apply_injections M uri headers injs = Inr (uri', headers') \<Longrightarrow>
   \<forall>n v. InjQuery n v \<notin> set injs \<Longrightarrow> uri' = uri"
proof (induction M uri headers injs rule: apply_injections.induct)
  case (3 M uri headers name x rest)
  from 3(3) have False by (meson list.set_intros(1))
  then show ?case ..
qed (auto split: option.splits if_splits)

lemma process_request_forward:
  assumes "process_request M cfg ci h raw = (Forward up, ci', h', evs)"
  obtains req url md uri headers body injs uri' headers' where
    "fst (mitm_url_phase M cfg raw) = Inr (req, url, md)"
    "fst (mitm_body_phase M cfg req url md) = Inr (uri, headers, body)"
    "mitm_injections M cfg ci url = (injs, ci')"
    "apply_injections M uri headers injs = Inr (uri', headers')"
    "up = \<lparr>mu_method = mq_method req, mu_uri = uri',
       mu_headers = remove_hop_by_hop_or_recomputed_headers (remove_calciforge_control_headers headers'),
       mu_body = body\<rparr>"
    "h' = \<lparr>last_url = Some url, last_was_search_host = is_search_host (gw M) cfg (url_host (gw M) url)\<rparr>"
  using assms
  by (auto simp: process_request_def Let_def split: if_splits prod.splits sum.splits)

lemma process_request_events:
  assumes "hash_iter (w_iter (gw M))" "process_request M cfg ci h raw = (out, ci', h', evs)"
    and "e \<in> set evs"
  shows "mitm_asked_ok M cfg raw e \<and> \<not> vault_route raw \<or>
    vault_route raw \<and> vault_authorised (env_var M) (mq_headers raw) \<and>
    e = Asked (drop_seqs [''/vault/''] (mq_path raw)) None"
proof (cases "vault_route raw")
  case True
  then have "e \<in> set (snd (vault_json_response (env_var M) (w_resolver (gw M)) (mq_headers raw)
      (drop_seqs [''/vault/''] (mq_path raw))))"
    using assms(2,3) by (auto simp: process_request_def vault_route_def split: if_splits prod.splits)
  from vault_events [OF this] True show ?thesis by simp
next
  case False
  have first: "mitm_asked_ok M cfg raw e" if "e \<in> set (snd (mitm_url_phase M cfg raw))"
    using mitm_url_phase_spec [OF assms(1)] that by (rule gw_spec_events)
  have second: "mitm_asked_ok M cfg raw e"
    if u: "mitm_url_phase M cfg raw = (Inr (req, url, md), evs0)"
      and e: "e \<in> set (snd (mitm_body_phase M cfg req url md))" for req url md evs0
  proof -
    have "metadata_ok (gw M) md \<and> url_ready M cfg raw req url"
      using mitm_url_phase_spec [OF assms(1), of cfg raw] u by (simp add: gw_spec_def)
    then show ?thesis
      using gw_spec_events [OF mitm_body_phase_spec [OF assms(1)] e]
      by (auto simp: mitm_asked_ok_def url_ready_def)
  qed
  have "e \<in> set (snd (mitm_url_phase M cfg raw)) \<or>
    (\<exists>req url md evs0. mitm_url_phase M cfg raw = (Inr (req, url, md), evs0) \<and>
       e \<in> set (snd (mitm_body_phase M cfg req url md)))"
    using assms(2,3) False
    by (auto simp: process_request_def vault_route_def Let_def split: if_splits prod.splits sum.splits)
  with first second False show ?thesis by blast
qed

text \<open>A request that is handed to the proxy library for forwarding.\<close>

definition forwarded_ok ::
  "'e mitm_world \<Rightarrow> gateway_config \<Rightarrow> mitm_request \<Rightarrow> string \<Rightarrow> credential_injection list \<Rightarrow>
   mitm_upstream \<Rightarrow> bool" where
  "forwarded_ok M cfg req url injs up \<longleftrightarrow>
     (\<exists>uri headers.
        body_ready M cfg req url (uri, headers, mu_body up) \<and>
        mu_method up = mq_method req \<and>
        ((\<forall>n v. InjQuery n v \<notin> set injs) \<longrightarrow> mu_uri up = uri) \<and>
        (\<forall>(k, v) \<in> set (mu_headers up).
           k \<notin> set removed_names \<and> \<not> prefix ''x-calciforge-'' k \<and> k \<noteq> ''x-agent-id'' \<and>
           ((k, v) \<in> set headers \<or>
            (\<exists>name value. InjHeader name value \<in> set injs \<and> header_name M name = Some k \<and>
               v = Some value))))"

section \<open>The credential check\<close>

lemma hm_insert_map_of: "map_of (hm_insert k v hs) = (map_of hs)(k \<mapsto> v)"
proof (induction hs)
  case (Cons h hs)
  have "map_of (hm_remove k hs) k' = map_of hs k'" if "k' \<noteq> k" for k'
    using that by (induction hs) (auto simp: hm_remove_def)
  with Cons show ?case by (cases h) (auto simp: fun_eq_iff)
qed simp

lemma fold_insert_member:
  "(k, v) \<in> set hs \<or> (\<exists>v0. (k, v0) \<in> set before \<and> map_of m k = Some (f v0)) \<Longrightarrow>
   \<exists>w. ((k, w) \<in> set hs \<or> (k, w) \<in> set before) \<and>
     map_of (fold (\<lambda>(k, v). hm_insert k (f v)) hs m) k = Some (f w)"
proof (induction hs arbitrary: m v before)
  case (Cons h hs)
  obtain k' v' where h: "h = (k', v')" by (cases h)
  show ?case
  proof (cases "k' = k")
    case True
    then have "\<exists>v0. (k, v0) \<in> set (h # before) \<and> map_of (hm_insert k' (f v') m) k = Some (f v0)"
      using h by (auto simp: hm_insert_map_of)
    with Cons.IH [of v "h # before" "hm_insert k' (f v') m"] h show ?thesis by auto
  next
    case False
    with Cons.prems h have "(k, v) \<in> set hs \<or>
        (\<exists>v0. (k, v0) \<in> set before \<and> map_of (hm_insert k' (f v') m) k = Some (f v0))"
      by (auto simp: hm_insert_map_of)
    from Cons.IH [OF this] h show ?thesis by auto
  qed
qed auto

text \<open>A value that the check does not look at: one reference, with an authentication scheme or not.\<close>

definition proxy_managed :: "string \<Rightarrow> bool" where
  "proxy_managed v \<longleftrightarrow>
     (\<exists>n. is_valid_secret_name n \<and>
        (trim v = REF_OPEN @ n @ ''}}'' \<or>
         (\<exists>scheme c rest. trim v = scheme @ c # rest \<and> ascii_space c \<and>
            (\<forall>x \<in> set scheme. \<not> ascii_space x) \<and>
            to_ascii_lowercase scheme \<in>
              set [''bearer'', ''basic'', ''token'', ''digest'', ''hoba'', ''mutual''] \<and>
            trim rest = REF_OPEN @ n @ ''}}'')))"

lemma is_exact_secret_reference_iff:
  assumes "hash_iter iter"
  shows "is_exact_secret_reference iter v \<longleftrightarrow> (\<exists>n. is_valid_secret_name n \<and> v = REF_OPEN @ n @ ''}}'')"
proof
  assume "is_exact_secret_reference iter v"
  then obtain names n where f: "find_refs v = Inr names" "iter names = [n]"
      and v: "v = REF_OPEN @ n @ ''}}''"
    by (auto simp: is_exact_secret_reference_def split: sum.splits list.splits)
  from f(1) obtain segs tail where p: "parsed segs tail" "names = snd ` set segs"
    by (rule find_refs_parsed)
  have "set (iter names) = names" using assms p(2) by (simp add: hash_iter_def)
  with f(2) p(2) have "n \<in> snd ` set segs" by auto
  with p(1) have "validate_name n = Inr ()" by (auto simp: parsed_def)
  with v show "\<exists>n. is_valid_secret_name n \<and> v = REF_OPEN @ n @ ''}}''"
    by (auto simp: validate_name_ok)
next
  assume "\<exists>n. is_valid_secret_name n \<and> v = REF_OPEN @ n @ ''}}''"
  then obtain n where n: "is_valid_secret_name n" "v = REF_OPEN @ n @ ''}}''" by blast
  have it: "set (iter {n}) = {n}" "distinct (iter {n})" using assms by (simp_all add: hash_iter_def)
  then have "length (iter {n}) = 1" using distinct_card [OF it(2)] by simp
  then obtain x where "iter {n} = [x]" by (metis One_nat_def length_0_conv length_Suc_conv)
  with it(1) have "iter {n} = [n]" by simp
  with example_ref(1) [OF n(1)] n(2) show "is_exact_secret_reference iter v"
    by (simp add: is_exact_secret_reference_def)
qed

lemma header_value_is_proxy_managed_secret_iff:
  assumes "hash_iter iter"
  shows "header_value_is_proxy_managed_secret iter v \<longleftrightarrow> proxy_managed v"
proof -
  note exact = is_exact_secret_reference_iff [OF assms]
  let ?schemes = "set [''bearer'', ''basic'', ''token'', ''digest'', ''hoba'', ''mutual'']"
  show ?thesis
  proof (cases "split_once ascii_space (trim v)")
    case None
    then have "trim v \<noteq> scheme @ c # rest" if "ascii_space c" for scheme c rest
      using that by (auto simp: split_once_None)
    with None show ?thesis
      unfolding header_value_is_proxy_managed_secret_def proxy_managed_def Let_def exact by auto
  next
    case (Some ab)
    obtain a b where ab: "ab = (a, b)" by (cases ab)
    from Some ab obtain c where c: "ascii_space c" "trim v = a @ c # b" "\<forall>x \<in> set a. \<not> ascii_space x"
      by (auto simp: split_once_Some)
    have unique: "scheme = a \<and> rest = b"
      if "trim v = scheme @ c' # rest" "ascii_space c'" "\<forall>x \<in> set scheme. \<not> ascii_space x"
      for scheme c' rest
      using split_once_unique [OF Some [unfolded ab] that] .
    have "proxy_managed v \<longleftrightarrow> (\<exists>n. is_valid_secret_name n \<and> (trim v = REF_OPEN @ n @ ''}}'' \<or>
        to_ascii_lowercase a \<in> ?schemes \<and> trim b = REF_OPEN @ n @ ''}}''))"
      unfolding proxy_managed_def using c unique by metis
    also have "\<dots> \<longleftrightarrow> header_value_is_proxy_managed_secret iter v"
      unfolding header_value_is_proxy_managed_secret_def Let_def exact Some ab option.case prod.case
      by auto
    finally show ?thesis by simp
  qed
qed

definition override_granted :: "env \<Rightarrow> header_map \<Rightarrow> bool \<Rightarrow> bool" where
  "override_granted env headers required \<longleftrightarrow>
     (\<exists>raw. header_get headers ''x-calciforge-override'' = Some raw \<and>
        (\<exists>p t. trim raw = p @ CHR '':'' # t \<and> CHR '':'' \<notin> set p \<and>
           trim p = MANUAL_CREDENTIAL_POLICY \<and>
           (required \<longrightarrow> trim t \<noteq> [] \<and> env OVERRIDE_TOKEN_ENV = Some (trim t)) \<or>
         trim raw = MANUAL_CREDENTIAL_POLICY \<and> CHR '':'' \<notin> set (trim raw) \<and> \<not> required))"

lemma override_allowed_iff:
  "ov_allowed (manual_credential_override_status env headers required) \<longleftrightarrow>
   override_granted env headers required"
proof (cases "header_get headers ''x-calciforge-override''")
  case None
  then show ?thesis by (simp add: manual_credential_override_status_def override_granted_def)
next
  case (Some raw)
  show ?thesis
  proof (cases "split_once (\<lambda>c. c = CHR '':'') (trim raw)")
    case None
    then have no: "CHR '':'' \<notin> set (trim raw)" by (auto simp: split_once_None)
    then have "trim raw \<noteq> p @ CHR '':'' # t" for p t by auto
    with Some None no show ?thesis
      by (auto simp: manual_credential_override_status_def override_granted_def Let_def)
  next
    case split: (Some pt)
    obtain p t where pt: "pt = (p, t)" by (cases pt)
    with split have s: "trim raw = p @ CHR '':'' # t" "CHR '':'' \<notin> set p"
      by (auto simp: split_once_Some)
    have unique: "p' = p \<and> t' = t" if "trim raw = p' @ CHR '':'' # t'" "CHR '':'' \<notin> set p'" for p' t'
      using that split pt split_once_Some [of "\<lambda>c. c = CHR '':''" "trim raw" p' t'] by auto
    have here: "(\<exists>p' t'. trim raw = p' @ CHR '':'' # t' \<and> CHR '':'' \<notin> set p' \<and> Q p' t') \<longleftrightarrow> Q p t" for Q
      using s unique by blast
    have "CHR '':'' \<in> set (trim raw)" using s(1) by simp
    then have "override_granted env headers required \<longleftrightarrow> trim p = MANUAL_CREDENTIAL_POLICY \<and>
        (required \<longrightarrow> trim t \<noteq> [] \<and> env OVERRIDE_TOKEN_ENV = Some (trim t))"
      unfolding override_granted_def Some option.inject by (simp add: ex_disj_distrib here)
    with Some split pt show ?thesis
      by (auto simp: manual_credential_override_status_def Let_def split: option.split)
  qed
qed

section \<open>Responses\<close>

definition inbound_clear ::
  "'e mitm_world \<Rightarrow> gateway_config \<Rightarrow> string \<Rightarrow> string \<Rightarrow> string \<Rightarrow> bool" where
  "inbound_clear M cfg url content_type body \<longleftrightarrow>
     (scan_inbound cfg \<longrightarrow> looks_like_scannable_content_type content_type \<longrightarrow>
       scan_clear (gw M) url body \<and>
       (scan_response_secrets cfg \<longrightarrow> (\<forall>s. w_utf8 (gw M) body = Some s \<longrightarrow> response_leak M s = None)))"

lemma leak_spec:
  "gw_spec P (leak_phase M cfg s) (\<lambda>_. scan_response_secrets cfg \<longrightarrow> response_leak M s = None)"
  by (simp add: leak_phase_def split: option.split)

lemma mitm_inbound_spec:
  "gw_spec P (mitm_inbound_phase M cfg url ct body) (\<lambda>_. inbound_clear M cfg url ct body)"
proof (cases "scan_inbound cfg \<and> looks_like_scannable_content_type ct")
  case True
  show ?thesis
  proof (cases "w_utf8 (gw M) body")
    case None
    with True show ?thesis by (simp add: mitm_inbound_phase_def inbound_clear_def scan_clear_def)
  next
    case (Some s)
    with True show ?thesis
      unfolding mitm_inbound_phase_def
      by (auto simp: inbound_clear_def intro!: gw_spec_bind [OF leak_spec] gw_spec_mono [OF scan_text_spec])
  qed
qed (auto simp: mitm_inbound_phase_def inbound_clear_def)

lemma search_part_spec:
  "gw_spec P
     (if is_search_host (gw M) cfg (url_host (gw M) url)
      then search_response_phase MPolicy (gw M) cfg url bytes else gw_ok bytes)
     (response_body_ok (gw M) cfg url bytes)"
  using search_response_spec by (auto simp: response_body_ok_def [of "gw M" cfg url bytes bytes])

section \<open>A run\<close>

definition example_mitm :: "unit mitm_world" where
  "example_mitm =
     \<lparr>gw = example_world, decode_request = Inr, decode_response = Inr, parse_uri = Inr,
      header_value_ok = \<lambda>_. True, header_name = Some, query_pairs = \<lambda>_. None,
      with_query = \<lambda>u _. u, manual_credentials = \<lambda>_. False, response_leak = \<lambda>_. None,
      audit_counts = (0, 0), env_var = [VAULT_TOKEN_ENV \<mapsto> ''t'']\<rparr>"

definition example_mitm_request :: mitm_request where
  "example_mitm_request =
     \<lparr>mq_method = ''GET'', mq_has_scheme = True, mq_uri = ''http://api/'', mq_path = ''/'',
      mq_path_query = None, mq_headers = [(''x-agent-id'', None), (''x-key'', Some example_value)],
      mq_body = Some []\<rparr>"

lemma example_mitm_simps [simp]:
  "gw example_mitm = example_world" "decode_request example_mitm = Inr"
  "decode_response example_mitm = Inr" "parse_uri example_mitm = Inr"
  "header_value_ok example_mitm = (\<lambda>_. True)" "manual_credentials example_mitm = (\<lambda>_. False)"
  by (simp_all add: example_mitm_def)

lemma example_mitm_run:
  "process_request example_mitm example_config ci h example_mitm_request =
     (Forward \<lparr>mu_method = ''GET'', mu_uri = ''http://api/'', mu_headers = [(''x-key'', Some ''sk'')],
        mu_body = []\<rparr>, ci, \<lparr>last_url = Some ''http://api/'', last_was_search_host = False\<rparr>,
      [Asked ''K'' (Some ''api'')])"
proof -
  let ?M = example_mitm and ?cfg = example_config and ?req = example_mitm_request
  have ident: "secret_access_identity_from_headers (mq_headers ?req) = anonymous"
    by (simp add: example_mitm_request_def secret_access_identity_from_headers_def header_string_def
        header_get_def anonymous_def)
  have target: "request_target_url ?req = Some ''http://api/''"
    by (simp add: request_target_url_def example_mitm_request_def)
  have url: "mitm_url_phase ?M ?cfg ?req = gw_ok (?req, ''http://api/'', None)"
    by (simp add: mitm_url_phase_def target example_host ident manual_credential_phase_iff
        example_plain gw_bind_ok)
  have ct: "header_get (mq_headers ?req) ''content-type'' = None"
    by (simp add: example_mitm_request_def header_get_def)
  have headers: "substitute_headers ?M ?cfg (Some ''api'') anonymous None (mq_headers ?req) =
      (Inr ([(''x-agent-id'', None), (''x-key'', Some ''sk'')], Some empty_store),
       [Asked ''K'' (Some ''api'')])"
    by (simp add: substitute_headers_def example_mitm_request_def is_hop_by_hop_or_recomputed_def
        to_ascii_lowercase_def lower_byte_def ascii_upper_def less_eq_char_def example_filled
        gw_bind_ok gw_bind_value hm_remove_def) (simp add: gw_ok_def gw_bind_value)
  have body: "substitute_body ?M ?cfg [] ct dest md i r = gw_ok []" for ct dest md i r
    by (simp add: substitute_body_def)
  have remote: "remote_scan_body ?M None [] = None"
    by (simp add: remote_scan_body_def split: body_mode.split)
  have scan: "mitm_outbound_phase ?M ?cfg u [] r = gw_ok ()" for u r
    by (simp add: mitm_outbound_phase_def)
  have empty: "mq_body ?req = Some []" by (simp add: example_mitm_request_def)
  have rest: "mitm_body_phase ?M ?cfg ?req ''http://api/'' None =
      (Inr (''http://api/'', [(''x-agent-id'', None), (''x-key'', Some ''sk'')], []),
       [Asked ''K'' (Some ''api'')])"
    unfolding mitm_body_phase_def Let_def example_mitm_simps example_host ident ct example_search
      gw_bind_ok sum.case headers gw_bind_value prod.case empty option.case remote body example_llm scan
    by (simp add: gw_ok_def)
  have inject: "mitm_injections ?M ?cfg ci u = ([], ci)" for u
    by (simp add: mitm_injections_def Let_def example_config_def default_gateway_config_def)
  have kept: "remove_hop_by_hop_or_recomputed_headers (remove_calciforge_control_headers
      [(''x-agent-id'', None), (''x-key'', Some ''sk'')]) = [(''x-key'', Some ''sk'')]"
    by (simp add: remove_hop_by_hop_or_recomputed_headers_def remove_calciforge_control_headers_def
        hm_remove_def removed_names_def)
  have "mq_method ?req = ''GET''" "mq_path ?req = ''/''" "mq_has_scheme ?req"
    by (simp_all add: example_mitm_request_def)
  then show ?thesis
    by (simp add: process_request_def url rest inject kept example_not_search)
       (simp add: gw_ok_def rest inject kept example_host example_not_search)
qed

section \<open>Properties\<close>



text \<open>
  C11: After a request was forwarded, the upstream's response reaches the agent only with its
  status and body, without hop-by-hop headers.  For a search host the body is what the search
  scan leaves of it.  With inbound scanning on, a textual body was called safe by the scanner,
  and has no secret leak if that scan is on.
\<close>

theorem mitm_response_scanned:
  assumes "process_request M cfg ci h raw = (Forward up, ci', h', evs)"
    and "fst (process_response M cfg h' answer) = Inr delivered"
  shows "\<exists>url res bytes body. last_url h' = Some url \<and>
    decode_response M answer = Inr res \<and> ma_body res = Some bytes \<and>
    ma_status delivered = ma_status res \<and> ma_body delivered = Some body \<and>
    (\<forall>e \<in> set (ma_headers delivered). e \<in> set (ma_headers res) \<and> fst e \<notin> set removed_names) \<and>
    response_body_ok (gw M) cfg url bytes body \<and>
    (let ct = (case header_get (ma_headers res) ''content-type'' of
                 Some ct \<Rightarrow> ct | None \<Rightarrow> ''application/octet-stream'') in
     scan_inbound cfg \<longrightarrow> looks_like_scannable_content_type ct \<longrightarrow>
       scan_clear (gw M) url body \<and>
       (scan_response_secrets cfg \<longrightarrow> (\<forall>s. w_utf8 (gw M) body = Some s \<longrightarrow> response_leak M s = None)))"
proof -
  obtain url where h': "last_url h' = Some url"
      "last_was_search_host h' = is_search_host (gw M) cfg (url_host (gw M) url)"
    by (rule process_request_forward [OF assms(1)]) simp
  obtain res bytes where res: "decode_response M answer = Inr res" "ma_body res = Some bytes"
    using assms(2) by (auto simp: process_response_def Let_def gw_refuse_def split: sum.splits option.splits)
  let ?ct = "case header_get (ma_headers res) ''content-type'' of
    Some ct \<Rightarrow> ct | None \<Rightarrow> ''application/octet-stream''"
  have "gw_spec (\<lambda>_. True) (process_response M cfg h' answer) (\<lambda>d. \<exists>body.
      d = \<lparr>ma_status = ma_status res,
           ma_headers = remove_hop_by_hop_or_recomputed_headers (ma_headers res), ma_body = Some body\<rparr> \<and>
      response_body_ok (gw M) cfg url bytes body \<and> inbound_clear M cfg url ?ct body)"
    unfolding process_response_def res h' Let_def sum.case option.case
    by (rule gw_spec_bind [OF search_part_spec], rule gw_spec_bind [OF mitm_inbound_spec]) simp
  with assms(2) obtain body where "delivered = \<lparr>ma_status = ma_status res,
      ma_headers = remove_hop_by_hop_or_recomputed_headers (ma_headers res), ma_body = Some body\<rparr>"
    "response_body_ok (gw M) cfg url bytes body" "inbound_clear M cfg url ?ct body"
    by (auto simp: gw_spec_def)
  then show ?thesis using h'(1) res
    by (intro exI [of _ url] exI [of _ res] exI [of _ bytes] exI [of _ body])
       (auto simp: removed_hop inbound_clear_def Let_def)
qed

theorem mitm_response_scanned_witness:
  "\<exists>url body. last_url (fst (snd (snd (process_request example_mitm example_config (with_config None)
       new_handler example_mitm_request)))) = Some url \<and>
     response_body_ok example_world example_config url ''ok'' body"
proof -
  let ?answer = "\<lparr>ma_status = 200, ma_headers = [(''te'', None)], ma_body = Some ''ok''\<rparr>"
  let ?h = "\<lparr>last_url = Some ''http://api/'', last_was_search_host = False\<rparr>"
  have opaque: "looks_like_scannable_content_type ''application/octet-stream'' = False" by code_simp
  have "process_response example_mitm example_config ?h ?answer =
      gw_ok \<lparr>ma_status = 200, ma_headers = [], ma_body = Some ''ok''\<rparr>"
    by (simp add: process_response_def header_get_def gw_bind_ok mitm_inbound_phase_def opaque
        remove_hop_by_hop_or_recomputed_headers_def removed_names_def hm_remove_def)
  then have "fst (process_response example_mitm example_config ?h ?answer) =
      Inr \<lparr>ma_status = 200, ma_headers = [], ma_body = Some ''ok''\<rparr>"
    by (simp add: gw_ok_def)
  from mitm_response_scanned [OF example_mitm_run this] show ?thesis
    by (auto simp: example_mitm_run)
qed



text \<open>
  C14: The vault route hands out a secret only to a caller with the configured non-empty bearer
  token, and asks the resolver only then; the answer to anybody else does not depend on the
  name asked for nor on what the store holds.
\<close>

theorem vault_requires_token:
  "(let (answer, evs) = vault_json_response env resolver headers name in
     (fst answer = 200 \<longleftrightarrow> vault_authorised env headers \<and> is_ok (resolver name)) \<and>
     (evs = (if vault_authorised env headers then [Asked name None] else [])) \<and>
     (vault_authorised env headers \<or>
        (\<forall>resolver' name'. vault_json_response env resolver' headers name' = (answer, []))))"
  by (auto simp: vault_json_response_cases is_ok_iff split: sum.split)

text \<open>
  A header with several values is forwarded with the last of them only, whether they have a
  reference or not: each of them is put back with \<open>insert\<close>.
\<close>

lemma several_values_collapse:
  "fst (substitute_headers example_mitm example_config (Some ''api'') anonymous None
     [(''x-key'', Some ''http://api/''), (''x-key'', Some example_value)]) =
   Inr ([(''x-key'', Some ''sk'')], Some empty_store)"
  by (simp add: substitute_headers_def is_hop_by_hop_or_recomputed_def to_ascii_lowercase_def
      lower_byte_def ascii_upper_def less_eq_char_def example_plain example_filled gw_bind_ok
      hm_remove_def)
     (simp add: gw_bind_value gw_ok_def)

end
