(* ===== verification/Act.thy ===== *)
theory Act
  imports Calci_Prelude
begin

text \<open>
  Stateful code that can fail: an action takes the state and gives a \<open>Result\<close> and the new
  state; an error keeps the changes made before it, as in Rust.  \<open>act_wp\<close> is the weakest
  precondition of an action, which the proofs compute with the rules \<open>wp_simps\<close>.
\<close>

type_synonym ('s, 'e, 'a) act = "'s \<Rightarrow> ('e + 'a) \<times> 's"

definition act_return :: "'a \<Rightarrow> ('s, 'e, 'a) act" where
  "act_return x = (\<lambda>s. (Inr x, s))"

definition act_fail :: "'e \<Rightarrow> ('s, 'e, 'a) act" where
  "act_fail e = (\<lambda>s. (Inl e, s))"

definition act_bind :: "('s, 'e, 'a) act \<Rightarrow> ('a \<Rightarrow> ('s, 'e, 'b) act) \<Rightarrow> ('s, 'e, 'b) act" where
  "act_bind m f = (\<lambda>s. case m s of (Inl e, s') \<Rightarrow> (Inl e, s') | (Inr x, s') \<Rightarrow> f x s')"

definition act_then :: "('s, 'e, 'a) act \<Rightarrow> ('s, 'e, 'b) act \<Rightarrow> ('s, 'e, 'b) act" where
  "act_then m n = act_bind m (\<lambda>_. n)"

text \<open>A call without \<open>?\<close>: the result is matched on by the caller; and \<open>map_err\<close>.\<close>

definition act_try :: "('s, 'e, 'a) act \<Rightarrow> ('s, 'd, 'e + 'a) act" where
  "act_try m = (\<lambda>s. case m s of (r, s') \<Rightarrow> (Inr r, s'))"

definition map_err :: "('e \<Rightarrow> 'd) \<Rightarrow> ('s, 'e, 'a) act \<Rightarrow> ('s, 'd, 'a) act" where
  "map_err f m = (\<lambda>s. case m s of (r, s') \<Rightarrow> (map_sum f id r, s'))"

definition act_gets :: "('s \<Rightarrow> 'a) \<Rightarrow> ('s, 'e, 'a) act" where
  "act_gets f = (\<lambda>s. (Inr (f s), s))"

definition act_modify :: "('s \<Rightarrow> 's) \<Rightarrow> ('s, 'e, unit) act" where
  "act_modify f = (\<lambda>s. (Inr (), f s))"

text \<open>\<open>x?\<close> on a value that is there already.\<close>

definition act_lift :: "'e + 'a \<Rightarrow> ('s, 'e, 'a) act" where
  "act_lift r = (\<lambda>s. (r, s))"

section \<open>Weakest preconditions\<close>

definition act_wp :: "('s, 'e, 'a) act \<Rightarrow> ('e + 'a \<Rightarrow> 's \<Rightarrow> bool) \<Rightarrow> 's \<Rightarrow> bool" where
  "act_wp m Q s \<longleftrightarrow> (case m s of (r, s') \<Rightarrow> Q r s')"

named_theorems wp_simps "weakest preconditions of the actions"

lemma act_wp_run: "m s = (r, s') \<Longrightarrow> act_wp m Q s \<longleftrightarrow> Q r s'"
  by (simp add: act_wp_def)

lemma act_wp_mono: "act_wp m Q s \<Longrightarrow> (\<And>r s'. Q r s' \<Longrightarrow> R r s') \<Longrightarrow> act_wp m R s"
  by (auto simp: act_wp_def split: prod.splits)

lemma act_wp_conj: "act_wp m (\<lambda>r s. P r s \<and> Q r s) s \<longleftrightarrow> act_wp m P s \<and> act_wp m Q s"
  by (auto simp: act_wp_def split: prod.splits)

lemma wp_return [wp_simps]: "act_wp (act_return x) Q s \<longleftrightarrow> Q (Inr x) s"
  by (simp add: act_wp_def act_return_def)

lemma wp_fail [wp_simps]: "act_wp (act_fail e) Q s \<longleftrightarrow> Q (Inl e) s"
  by (simp add: act_wp_def act_fail_def)

lemma wp_bind [wp_simps]:
  "act_wp (act_bind m f) Q s \<longleftrightarrow>
   act_wp m (\<lambda>r s'. case r of Inl e \<Rightarrow> Q (Inl e) s' | Inr x \<Rightarrow> act_wp (f x) Q s') s"
  by (auto simp: act_wp_def act_bind_def split: prod.split sum.split)

lemma wp_then [wp_simps]:
  "act_wp (act_then m n) Q s \<longleftrightarrow>
   act_wp m (\<lambda>r s'. case r of Inl e \<Rightarrow> Q (Inl e) s' | Inr _ \<Rightarrow> act_wp n Q s') s"
  by (simp add: act_then_def wp_bind)

lemma wp_try [wp_simps]: "act_wp (act_try m) Q s \<longleftrightarrow> act_wp m (\<lambda>r s'. Q (Inr r) s') s"
  by (auto simp: act_wp_def act_try_def split: prod.split)

lemma wp_map_err [wp_simps]: "act_wp (map_err f m) Q s \<longleftrightarrow> act_wp m (\<lambda>r s'. Q (map_sum f id r) s') s"
  by (auto simp: act_wp_def map_err_def split: prod.split)

lemma wp_gets [wp_simps]: "act_wp (act_gets f) Q s \<longleftrightarrow> Q (Inr (f s)) s"
  by (simp add: act_wp_def act_gets_def)

lemma wp_modify [wp_simps]: "act_wp (act_modify f) Q s \<longleftrightarrow> Q (Inr ()) (f s)"
  by (simp add: act_wp_def act_modify_def)

lemma wp_lift [wp_simps]: "act_wp (act_lift r) Q s \<longleftrightarrow> Q r s"
  by (simp add: act_wp_def act_lift_def)

lemma wp_if [wp_simps]:
  "act_wp (if b then m else n) Q s \<longleftrightarrow> (if b then act_wp m Q s else act_wp n Q s)"
  by simp

section \<open>Triples\<close>

text \<open>
  From a state with \<open>P\<close>, the action ends in \<open>Q x\<close> when it returns \<open>x\<close>, and in the
  invariant \<open>I\<close> when it fails.
\<close>

definition triple ::
  "('s \<Rightarrow> bool) \<Rightarrow> ('s \<Rightarrow> bool) \<Rightarrow> ('s, 'e, 'a) act \<Rightarrow> ('a \<Rightarrow> 's \<Rightarrow> bool) \<Rightarrow> bool" where
  "triple I P m Q \<longleftrightarrow>
     (\<forall>s. P s \<longrightarrow> act_wp m (\<lambda>r s'. case r of Inl _ \<Rightarrow> I s' | Inr x \<Rightarrow> Q x s') s)"

lemma triple_conseq:
  "triple I P m Q \<Longrightarrow> (\<And>s. P' s \<Longrightarrow> P s) \<Longrightarrow> (\<And>x s. Q x s \<Longrightarrow> Q' x s) \<Longrightarrow> triple I P' m Q'"
  by (fastforce simp: triple_def elim!: act_wp_mono split: sum.splits)

lemma triple_post: "triple I P m Q \<Longrightarrow> (\<And>x s. Q x s \<Longrightarrow> Q' x s) \<Longrightarrow> triple I P m Q'"
  by (rule triple_conseq)

lemma triple_return: "(\<And>s. P s \<Longrightarrow> Q x s) \<Longrightarrow> triple I P (act_return x) Q"
  by (simp add: triple_def wp_simps)

lemma triple_fail: "(\<And>s. P s \<Longrightarrow> I s) \<Longrightarrow> triple I P (act_fail e) Q"
  by (simp add: triple_def wp_simps)

lemma triple_bind:
  assumes "triple I P m Q" "\<And>x. triple I (Q x) (f x) R"
  shows "triple I P (act_bind m f) R"
  unfolding triple_def wp_bind
proof (intro allI impI)
  fix s assume "P s"
  with assms(1) have "act_wp m (\<lambda>r s'. case r of Inl _ \<Rightarrow> I s' | Inr x \<Rightarrow> Q x s') s"
    by (simp add: triple_def)
  then show "act_wp m (\<lambda>r s'. case r of Inl e \<Rightarrow> (case Inl e of Inl _ \<Rightarrow> I s' | Inr x \<Rightarrow> R x s')
      | Inr x \<Rightarrow> act_wp (f x) (\<lambda>r s'. case r of Inl _ \<Rightarrow> I s' | Inr x \<Rightarrow> R x s') s') s"
  proof (rule act_wp_mono)
    fix r s' assume "case r of Inl _ \<Rightarrow> I s' | Inr x \<Rightarrow> Q x s'"
    with assms(2) show "case r of Inl e \<Rightarrow> (case Inl e of Inl _ \<Rightarrow> I s' | Inr x \<Rightarrow> R x s')
      | Inr x \<Rightarrow> act_wp (f x) (\<lambda>r s'. case r of Inl _ \<Rightarrow> I s' | Inr x \<Rightarrow> R x s') s'"
      by (cases r) (simp_all add: triple_def)
  qed
qed

lemma triple_then: "triple I P m (\<lambda>_. Q) \<Longrightarrow> triple I Q n R \<Longrightarrow> triple I P (act_then m n) R"
  unfolding act_then_def by (rule triple_bind)

lemma triple_if:
  "(b \<Longrightarrow> triple I P m Q) \<Longrightarrow> (\<not> b \<Longrightarrow> triple I P n Q) \<Longrightarrow> triple I P (if b then m else n) Q"
  by simp

lemma triple_try:
  "triple I P m Q \<Longrightarrow> triple J P (act_try m) (\<lambda>r s. case r of Inl _ \<Rightarrow> I s | Inr x \<Rightarrow> Q x s)"
  by (simp add: triple_def wp_try)

lemma triple_map_err: "triple I P m Q \<Longrightarrow> triple I P (map_err f m) Q"
  unfolding triple_def wp_map_err
  by (elim all_forward imp_forward asm_rl act_wp_mono) (auto split: sum.splits)

lemma triple_run: "triple I P m (\<lambda>_. I) \<Longrightarrow> P s \<Longrightarrow> I (snd (m s))"
  by (cases "m s"; cases "fst (m s)") (auto simp: triple_def act_wp_def)

text \<open>A fact about the input that does not depend on the state.\<close>

lemma triple_pure: "(F \<Longrightarrow> triple I P m Q) \<Longrightarrow> triple I (\<lambda>s. F \<and> P s) m Q"
  by (auto simp: triple_def)

text \<open>What is true of every value an action returns, whatever the state.\<close>

definition returns :: "('s, 'e, 'a) act \<Rightarrow> ('a \<Rightarrow> bool) \<Rightarrow> bool" where
  "returns m F \<longleftrightarrow> (\<forall>s x s'. m s = (Inr x, s') \<longrightarrow> F x)"

lemma returns_return: "F x \<Longrightarrow> returns (act_return x) F"
  by (simp add: returns_def act_return_def)

lemma returns_fail: "returns (act_fail e) F"
  by (simp add: returns_def act_fail_def)

lemma returns_bind:
  "returns m F \<Longrightarrow> (\<And>x. F x \<Longrightarrow> returns (f x) G) \<Longrightarrow> returns (act_bind m f) G"
  by (fastforce simp: returns_def act_bind_def split: prod.splits sum.splits)

lemma returns_if:
  "(b \<Longrightarrow> returns m F) \<Longrightarrow> (\<not> b \<Longrightarrow> returns n F) \<Longrightarrow> returns (if b then m else n) F"
  by simp

lemma returns_any: "returns m (\<lambda>_. True)"
  by (simp add: returns_def)

lemma triple_returns:
  assumes "triple I P m Q" "returns m F"
  shows "triple I P m (\<lambda>x s. Q x s \<and> F x)"
  unfolding triple_def
proof (intro allI impI)
  fix s assume "P s"
  with assms(1) have "act_wp m (\<lambda>r s'. case r of Inl _ \<Rightarrow> I s' | Inr x \<Rightarrow> Q x s') s"
    by (simp add: triple_def)
  with assms(2) show "act_wp m (\<lambda>r s'. case r of Inl _ \<Rightarrow> I s' | Inr x \<Rightarrow> Q x s' \<and> F x) s"
    by (cases "m s"; cases "fst (m s)") (auto simp: act_wp_def returns_def)
qed

end
