(* ===== verification/Host_Config.thy ===== *)
theory Host_Config
  imports Calci_Prelude
begin

text \<open>
  The configuration of the host agent and the decisions read off it
  (\<open>crates/host-agent/src/config.rs\<close>, the name checks of \<open>zfs/mod.rs\<close>, the admin check of
  \<open>main.rs\<close> and the registry of \<open>auth/adapter.rs\<close>).  The regex engine is the argument
  \<open>regex\<close>; the fixed patterns for names are written out as character classes.
\<close>

section \<open>Configuration data\<close>

datatype autonomy_level = ReadOnly | Supervised | Full

record pattern_rule =
  pr_operation :: string
  pr_pattern :: string

record agent_config =
  cn_pattern :: string
  agent_type :: string
  unix_user :: string
  autonomy :: autonomy_level
  allowed_operations :: "string list"
  requires_approval_for :: "string list"
  pattern_rules :: "pattern_rule list"
  allow_full_autonomy_bypass :: bool

record rule_config =
  operation :: string
  approval_required :: bool
  pattern :: "string option"
  always_ask :: bool
  approval_admin_only :: bool

record server_config =
  sv_bind :: string
  sv_cert :: string
  sv_key :: string
  client_ca :: string
  crl_file :: "string option"

record audit_config =
  log_path :: string
  rotation :: string
  retention_days :: u32

record approval_config =
  approval_enabled :: bool
  ttl_seconds :: u64
  token_entropy_bits :: u32
  signal_webhook :: "string option"
  allowed_approvers :: "string list"
  token_secret :: "string option"
  admin_cn_pattern :: "string option"
  identity_plugin :: "string option"

record metrics_config =
  metrics_enabled :: bool
  metrics_bind :: string

record rate_limit_config =
  rate_enabled :: bool
  max_requests :: u32
  window_seconds :: u64
  endpoints :: "string list"

record git_config =
  allowed_repos :: "string list"

record exec_config =
  exec_enabled :: bool
  allowed_commands :: "string list"
  ansible_job_queue :: "string option"

record host_config =
  server :: server_config
  audit :: audit_config
  approval :: approval_config
  metrics :: metrics_config
  rate_limit :: rate_limit_config
  agents :: "agent_config list"
  rules :: "rule_config list"
  git :: "git_config option"
  exec :: "exec_config option"

definition default_rate_limit_config :: rate_limit_config where
  "default_rate_limit_config =
     \<lparr>rate_enabled = True, max_requests = 5, window_seconds = 60,
      endpoints = [''/zfs/destroy'', ''/approve'', ''/pending'']\<rparr>"

definition default_rule :: "string \<Rightarrow> bool \<Rightarrow> bool \<Rightarrow> bool \<Rightarrow> rule_config" where
  "default_rule op required ask admin =
     \<lparr>operation = op, approval_required = required, pattern = None, always_ask = ask,
      approval_admin_only = admin\<rparr>"

definition default_host_rules :: "rule_config list" where
  "default_host_rules =
     [default_rule ''zfs-destroy'' True True False,
      default_rule ''zfs-snapshot'' False False False,
      default_rule ''zfs-list'' False False False,
      default_rule ''zfs-rollback'' True True False,
      default_rule ''systemd-status'' False False False,
      default_rule ''systemd-start'' False False False,
      default_rule ''systemd-stop'' False False False,
      default_rule ''systemd-restart'' False False False,
      default_rule ''pct-status'' False False False,
      default_rule ''pct-start'' True False False,
      default_rule ''pct-stop'' True False False,
      default_rule ''pct-destroy'' True True True,
      default_rule ''git-status'' False False False,
      default_rule ''git-log'' False False False,
      default_rule ''git-fetch'' False False False,
      default_rule ''git-pull'' False False False,
      default_rule ''git-checkout'' True False False]"

definition default_host_config :: host_config where
  "default_host_config =
     \<lparr>server = \<lparr>sv_bind = ''127.0.0.1:18443'', sv_cert = ''/etc/clash/certs/server.crt'',
        sv_key = ''/etc/clash/certs/server.key'', client_ca = ''/etc/clash/certs/ca.crt'',
        crl_file = None\<rparr>,
      audit = \<lparr>log_path = ''/var/log/clash/audit.jsonl'', rotation = ''daily'', retention_days = 90\<rparr>,
      approval = \<lparr>approval_enabled = True, ttl_seconds = 300, token_entropy_bits = 80,
        signal_webhook = None, allowed_approvers = [], token_secret = None, admin_cn_pattern = None,
        identity_plugin = None\<rparr>,
      metrics = \<lparr>metrics_enabled = True, metrics_bind = ''127.0.0.1:19090''\<rparr>,
      rate_limit = default_rate_limit_config,
      agents =
        [\<lparr>cn_pattern = ''calciforge-agent'', agent_type = ''generic'', unix_user = ''clash-agent'',
          autonomy = Supervised, allowed_operations = [''zfs-list'', ''zfs-snapshot''],
          requires_approval_for = [''zfs-destroy''], pattern_rules = [],
          allow_full_autonomy_bypass = False\<rparr>,
         \<lparr>cn_pattern = ''claude-code*'', agent_type = ''acp_harness'', unix_user = ''clash-agent'',
          autonomy = Supervised, allowed_operations = [''zfs-list''],
          requires_approval_for = [''zfs-snapshot'', ''zfs-destroy''], pattern_rules = [],
          allow_full_autonomy_bypass = False\<rparr>],
      rules = default_host_rules,
      git = Some \<lparr>allowed_repos = [''/srv'', ''/opt'']\<rparr>,
      exec = Some \<lparr>exec_enabled = False, allowed_commands = [], ansible_job_queue = None\<rparr>\<rparr>"

section \<open>Rules and agents\<close>

definition find_rule :: "host_config \<Rightarrow> string \<Rightarrow> rule_config option" where
  "find_rule cfg op = find (\<lambda>r. operation r = op) (rules cfg)"

definition requires_approval_for_agent ::
  "(string \<Rightarrow> (string \<Rightarrow> bool) option) \<Rightarrow> host_config \<Rightarrow> string \<Rightarrow> string \<Rightarrow> agent_config option \<Rightarrow> bool" where
  "requires_approval_for_agent regex cfg op target agent =
     (case find (\<lambda>r. operation r = op) (rules cfg) of
        None \<Rightarrow> False
      | Some rule \<Rightarrow>
          if \<not> approval_required rule then False
          else if (case pattern rule of
                     None \<Rightarrow> False
                   | Some p \<Rightarrow> (case regex p of None \<Rightarrow> False | Some is_match \<Rightarrow> \<not> is_match target))
          then False
          else if always_ask rule then True
          else if (case agent of
                     None \<Rightarrow> False
                   | Some a \<Rightarrow> autonomy a = Full \<and> allow_full_autonomy_bypass a)
          then False
          else True)"

definition cn_pattern_matches :: "string \<Rightarrow> string \<Rightarrow> bool" where
  "cn_pattern_matches pat cn =
     (if pat = [] \<or> cn = [] then False
      else (case strip_suffix ''*'' pat of
              Some p \<Rightarrow> p \<noteq> [] \<and> prefix p cn
            | None \<Rightarrow> pat = cn))"

definition find_agent :: "host_config \<Rightarrow> string \<Rightarrow> agent_config option" where
  "find_agent cfg cn = find (\<lambda>a. cn_pattern_matches (cn_pattern a) cn) (agents cfg)"

definition is_registered :: "agent_config list \<Rightarrow> string \<Rightarrow> bool" where
  "is_registered configs cn = list_ex (\<lambda>a. cn_pattern_matches (cn_pattern a) cn) configs"

definition resolve_cn_placeholder :: "agent_config list \<Rightarrow> string option" where
  "resolve_cn_placeholder configs =
     (case configs of [] \<Rightarrow> None | c # _ \<Rightarrow> Some (trim_end_matches CHR ''*'' (cn_pattern c)))"

definition admin_cn_matches :: "string \<Rightarrow> string \<Rightarrow> bool" where
  "admin_cn_matches pat cn =
     (case strip_suffix ''*'' pat of Some p \<Rightarrow> prefix p cn | None \<Rightarrow> cn = pat)"

text \<open>\<open>Ok(())\<close> or the refusal with the status 403.\<close>

definition require_admin_identity :: "host_config \<Rightarrow> string \<Rightarrow> nat + unit" where
  "require_admin_identity cfg cn =
     (case admin_cn_pattern (approval cfg) of
        None \<Rightarrow> Inl 403
      | Some pat \<Rightarrow>
          if pat = [] then Inl 403 else if admin_cn_matches pat cn then Inr () else Inl 403)"

section \<open>Names of datasets, units, containers and branches\<close>

definition word_char :: "char \<Rightarrow> bool" where
  "word_char c \<longleftrightarrow> ascii_alnum c \<or> c = CHR ''_''"

text \<open>\<open>^[a-zA-Z0-9_][a-zA-Z0-9_...]*$\<close> with the further characters given.\<close>

definition class_name :: "char set \<Rightarrow> string \<Rightarrow> bool" where
  "class_name extra s =
     (case s of [] \<Rightarrow> False | c # cs \<Rightarrow> word_char c \<and> list_all (\<lambda>x. word_char x \<or> x \<in> extra) cs)"

definition is_valid_dataset_name :: "string \<Rightarrow> bool" where
  "is_valid_dataset_name name \<longleftrightarrow>
     class_name {CHR ''-'', CHR ''/'', CHR ''.''} name \<and>
     \<not> str_contains ''..'' name \<and> \<not> prefix ''/'' name \<and> \<not> suffix ''/'' name \<and>
     list_all (\<lambda>p. p \<noteq> [] \<and> p \<noteq> ''.'') (split_char CHR ''/'' name)"

definition is_valid_snapshot_name :: "string \<Rightarrow> bool" where
  "is_valid_snapshot_name name \<longleftrightarrow>
     class_name {CHR ''-'', CHR ''.''} name \<and> \<not> str_contains ''@'' name \<and> \<not> str_contains ''/'' name"

definition is_valid_dataset_or_snapshot :: "string \<Rightarrow> bool" where
  "is_valid_dataset_or_snapshot name =
     (case split_once (\<lambda>c. c = CHR ''@'') name of
        Some (dataset, snap) \<Rightarrow> is_valid_dataset_name dataset \<and> is_valid_snapshot_name snap
      | None \<Rightarrow> is_valid_dataset_name name)"

definition unit_suffixes :: "string list" where
  "unit_suffixes = [''.service'', ''.socket'', ''.timer'', ''.target'', ''.mount'', ''.path'']"

text \<open>The pattern needs at least one character before the suffix, the first of them a word one.\<close>

definition is_valid_service_name :: "string \<Rightarrow> bool" where
  "is_valid_service_name name \<longleftrightarrow>
     name \<noteq> [] \<and>
     list_ex (\<lambda>suff. case strip_suffix suff name of
        None \<Rightarrow> False
      | Some stem \<Rightarrow> class_name {CHR ''-'', CHR ''.'', CHR ''@''} stem) unit_suffixes"

text \<open>\<open>str::parse::<u32>\<close>: an optional plus sign, digits, no overflow.\<close>

definition parse_digits :: "string \<Rightarrow> nat option" where
  "parse_digits s =
     (if s = [] \<or> \<not> list_all ascii_digit s then None
      else Some (foldl (\<lambda>n c. 10 * n + digit_value c) 0 s))"

definition parse_u32 :: "string \<Rightarrow> u32 option" where
  "parse_u32 s =
     (case parse_digits (case s of c # r \<Rightarrow> if c = CHR ''+'' then r else s | [] \<Rightarrow> s) of
        None \<Rightarrow> None
      | Some n \<Rightarrow> if n < 2 ^ 32 then Some (of_nat n) else None)"

definition is_valid_vmid :: "string \<Rightarrow> bool" where
  "is_valid_vmid vmid = (case parse_u32 vmid of Some n \<Rightarrow> 100 \<le> n \<and> n \<le> 999999 | None \<Rightarrow> False)"

definition is_valid_branch_name :: "string \<Rightarrow> bool" where
  "is_valid_branch_name name =
     (if name = [] \<or> name = ''@'' \<or> str_contains ''..'' name \<or> str_contains ''//'' name \<or>
         str_contains [CHR ''@'', CHR 0x7B] name \<or> prefix ''-'' name \<or> prefix ''/'' name \<or> suffix ''/'' name \<or>
         suffix ''.'' name \<or> \<not> class_name {CHR ''-'', CHR ''.'', CHR ''/''} name
      then False
      else list_all (\<lambda>p. p \<noteq> [] \<and> \<not> prefix ''.'' p \<and> \<not> suffix ''.lock'' p) (split_char CHR ''/'' name))"

section \<open>What the names can contain\<close>

lemma class_name_chars:
  "class_name extra s \<Longrightarrow> s \<noteq> [] \<and> word_char (hd s) \<and> (\<forall>c \<in> set s. word_char c \<or> c \<in> extra)"
  by (cases s) (auto simp: class_name_def list_all_iff)

lemma class_name_iff:
  "class_name extra s \<longleftrightarrow> s \<noteq> [] \<and> word_char (hd s) \<and> (\<forall>c \<in> set s. word_char c \<or> c \<in> extra)"
  by (cases s) (auto simp: class_name_def list_all_iff)

lemma word_char_plain:
  "word_char c \<Longrightarrow> c \<notin> {CHR ''-'', CHR ''/'', CHR ''.'', CHR ''@'', CHR '' '', CHR 0x0A, CHR '';'', CHR ''*''}"
  by (auto simp: word_char_def ascii_alnum_def ascii_upper_def ascii_lower_def ascii_digit_def less_eq_char_def)

lemma split_char_parts:
  "p \<in> set (split_char d s) \<Longrightarrow> set p \<subseteq> set s"
proof -
  assume p: "p \<in> set (split_char d s)"
  have "set s = set (join_with [d] (split_char d s))" by (simp add: join_split_char)
  moreover have "set p \<subseteq> set (join_with [d] ps)" if "p \<in> set ps" for ps
    using that
  proof (induction ps)
    case (Cons q qs)
    then show ?case by (cases qs) auto
  qed simp
  ultimately show "set p \<subseteq> set s" using p by blast
qed

text \<open>A component of a dataset name.\<close>

definition dataset_part :: "string \<Rightarrow> bool" where
  "dataset_part p \<longleftrightarrow>
     p \<noteq> [] \<and> p \<noteq> ''.'' \<and> \<not> str_contains ''..'' p \<and>
     (\<forall>c \<in> set p. word_char c \<or> c = CHR ''-'' \<or> c = CHR ''.'')"

lemma contains_append_iff:
  assumes "d \<notin> set pat" "pat \<noteq> []"
  shows "str_contains pat (a @ d # b) \<longleftrightarrow> str_contains pat a \<or> str_contains pat b"
proof
  assume "str_contains pat (a @ d # b)"
  then obtain x y where xy: "a @ d # b = x @ pat @ y" by (auto simp: str_contains_iff)
  show "str_contains pat a \<or> str_contains pat b"
  proof (cases "length x > length a")
    case True
    then obtain k where "length x = length a + Suc k" using less_imp_Suc_add by fastforce
    then have "drop k b = pat @ y" using arg_cong [OF xy, of "drop (length x)"] by simp
    then show ?thesis by (metis str_contains_iff append_take_drop_id)
  next
    case False
    have "length x + length pat \<le> length a"
    proof (rule ccontr)
      assume *: "\<not> ?thesis"
      then have idx: "length a - length x < length pat" using False by linarith
      have "(a @ d # b) ! length a = d" by simp
      moreover have "(x @ pat @ y) ! length a = pat ! (length a - length x)"
        using False idx by (simp add: nth_append)
      ultimately have "d \<in> set pat" using xy idx by (metis nth_mem)
      with assms(1) show False ..
    qed
    then have "a = x @ pat @ take (length a - length x - length pat) y"
      using arg_cong [OF xy, of "take (length a)"] by simp
    then show ?thesis by (metis str_contains_iff)
  qed
next
  assume "str_contains pat a \<or> str_contains pat b"
  then show "str_contains pat (a @ d # b)"
    by (auto simp: str_contains_iff) (metis append.assoc append_Cons)+
qed

lemma contains_join:
  "d \<notin> set pat \<Longrightarrow> pat \<noteq> [] \<Longrightarrow>
   str_contains pat (join_with [d] ps) \<longleftrightarrow> (\<exists>p \<in> set ps. str_contains pat p)"
proof (induction ps)
  case Nil
  then show ?case by (simp add: str_contains_def)
next
  case (Cons p ps)
  then show ?case by (cases ps) (simp_all add: contains_append_iff)
qed

lemma split_ends:
  "s \<noteq> [] \<Longrightarrow> prefix [d] s \<longleftrightarrow> hd (split_char d s) = []"
  by (cases s) (auto split: list.split)

lemma split_last: "suffix [d] s \<longleftrightarrow> s \<noteq> [] \<and> last (split_char d s) = []"
proof (induction s)
  case (Cons c s)
  have "split_char d s \<noteq> []" by simp
  then show ?case using Cons
    by (cases s) (auto simp: suffix_Cons split: list.split)
qed simp

lemma all_parts_chars:
  "(\<forall>c \<in> set s. P c) \<Longrightarrow> p \<in> set (split_char d s) \<Longrightarrow> \<forall>c \<in> set p. P c"
  using split_char_parts [of p d s] by blast

lemma set_join: "set (join_with [d] ps) \<subseteq> insert d (\<Union> (set ` set ps))"
proof (induction ps)
  case (Cons p ps)
  then show ?case by (cases ps) auto
qed simp

lemma dataset_name_iff:
  "is_valid_dataset_name name \<longleftrightarrow>
     name \<noteq> [] \<and> word_char (hd name) \<and> (\<forall>p \<in> set (split_char CHR ''/'' name). dataset_part p)"
proof -
  let ?ps = "split_char CHR ''/'' name"
  have dots: "str_contains ''..'' name \<longleftrightarrow> (\<exists>p \<in> set ?ps. str_contains ''..'' p)"
    using contains_join [of "CHR ''/''" "''..''" ?ps] by (simp add: join_split_char)
  show ?thesis
  proof
    assume v: "is_valid_dataset_name name"
    then have cls: "name \<noteq> []" "word_char (hd name)"
        "\<forall>c \<in> set name. word_char c \<or> c \<in> {CHR ''-'', CHR ''/'', CHR ''.''}"
      by (auto simp: is_valid_dataset_name_def class_name_iff)
    have "dataset_part p" if p: "p \<in> set ?ps" for p
    proof -
      have "CHR ''/'' \<notin> set p" using split_char_free [OF p] .
      moreover have "\<forall>c \<in> set p. word_char c \<or> c \<in> {CHR ''-'', CHR ''/'', CHR ''.''}"
        using all_parts_chars [OF cls(3) p] .
      ultimately show ?thesis
        using v p dots by (auto simp: is_valid_dataset_name_def dataset_part_def list_all_iff)
    qed
    with cls show "name \<noteq> [] \<and> word_char (hd name) \<and> (\<forall>p \<in> set ?ps. dataset_part p)" by blast
  next
    assume *: "name \<noteq> [] \<and> word_char (hd name) \<and> (\<forall>p \<in> set ?ps. dataset_part p)"
    have "set name \<subseteq> insert (CHR ''/'') (\<Union> (set ` set ?ps))"
      using set_join [of "CHR ''/''" ?ps] by (simp add: join_split_char)
    with * have "\<forall>c \<in> set name. word_char c \<or> c \<in> {CHR ''-'', CHR ''/'', CHR ''.''}"
      by (fastforce simp: dataset_part_def)
    moreover have "hd ?ps \<noteq> []" "last ?ps \<noteq> []"
      using * by (metis dataset_part_def hd_in_set split_char_nonempty,
                  metis dataset_part_def last_in_set split_char_nonempty)
    ultimately show "is_valid_dataset_name name"
      using * dots split_ends [of name "CHR ''/''"] split_last [of "CHR ''/''" name]
      by (auto simp: is_valid_dataset_name_def class_name_iff list_all_iff dataset_part_def)
  qed
qed

text \<open>Characters that can occur in the target of a ZFS command.\<close>

definition zfs_char :: "char \<Rightarrow> bool" where
  "zfs_char c \<longleftrightarrow> word_char c \<or> c \<in> {CHR ''-'', CHR ''/'', CHR ''.'', CHR ''@''}"

lemma dataset_or_snapshot_safe:
  assumes "is_valid_dataset_or_snapshot name"
  shows "name \<noteq> []" "word_char (hd name)" "\<forall>c \<in> set name. zfs_char c"
proof -
  have ds: "n \<noteq> [] \<and> word_char (hd n) \<and> (\<forall>c \<in> set n. zfs_char c)" if "is_valid_dataset_name n" for n
    using that by (auto simp: is_valid_dataset_name_def class_name_iff zfs_char_def)
  have "name \<noteq> [] \<and> word_char (hd name) \<and> (\<forall>c \<in> set name. zfs_char c)"
  proof (cases "split_once (\<lambda>c. c = CHR ''@'') name")
    case None
    with assms ds show ?thesis by (simp add: is_valid_dataset_or_snapshot_def)
  next
    case (Some ab)
    obtain a b where ab: "ab = (a, b)" by (cases ab)
    from Some ab have "name = a @ CHR ''@'' # b" by (auto simp: split_once_Some)
    moreover have "is_valid_dataset_name a" "is_valid_snapshot_name b"
      using assms Some ab by (simp_all add: is_valid_dataset_or_snapshot_def)
    ultimately show ?thesis
      using ds [of a] by (auto simp: is_valid_snapshot_name_def class_name_iff zfs_char_def)
  qed
  then show "name \<noteq> []" "word_char (hd name)" "\<forall>c \<in> set name. zfs_char c" by blast+
qed

section \<open>Properties\<close>

text \<open>
  A name is accepted as the target of a ZFS command exactly if it is a dataset name, or a
  dataset name, one at-sign and a snapshot name.  A dataset name is a non-empty sequence of
  components separated by single slashes, each of them non-empty, neither a dot nor with two
  dots in a row, of letters, digits, underscores, dashes and dots only.  So an accepted name
  never begins with a dash or a slash and has no blank or shell character.
\<close>

theorem zfs_target_names_exact:
  "(is_valid_dataset_or_snapshot name \<longleftrightarrow>
      is_valid_dataset_name name \<and> CHR ''@'' \<notin> set name \<or>
      (\<exists>d s. name = d @ CHR ''@'' # s \<and> is_valid_dataset_name d \<and> is_valid_snapshot_name s)) \<and>
   (is_valid_dataset_name name \<longleftrightarrow>
      name \<noteq> [] \<and> word_char (hd name) \<and> (\<forall>p \<in> set (split_char CHR ''/'' name). dataset_part p)) \<and>
   (is_valid_dataset_or_snapshot name \<longrightarrow>
      name \<noteq> [] \<and> \<not> prefix ''-'' name \<and> \<not> prefix ''/'' name \<and> (\<forall>c \<in> set name. zfs_char c))"
proof (intro conjI)
  have no_at: "CHR ''@'' \<notin> set d" if "is_valid_dataset_name d" for d
    using that word_char_plain by (fastforce simp: is_valid_dataset_name_def class_name_iff)
  show "is_valid_dataset_or_snapshot name \<longleftrightarrow>
      is_valid_dataset_name name \<and> CHR ''@'' \<notin> set name \<or>
      (\<exists>d s. name = d @ CHR ''@'' # s \<and> is_valid_dataset_name d \<and> is_valid_snapshot_name s)"
  proof (cases "split_once (\<lambda>c. c = CHR ''@'') name")
    case None
    then have "CHR ''@'' \<notin> set name" by (auto simp: split_once_None)
    with None show ?thesis by (auto simp: is_valid_dataset_or_snapshot_def)
  next
    case (Some ab)
    obtain a b where ab: "ab = (a, b)" by (cases ab)
    from Some ab have name: "name = a @ CHR ''@'' # b" by (auto simp: split_once_Some)
    have "d = a \<and> s = b" if "name = d @ CHR ''@'' # s" "is_valid_dataset_name d" for d s
      using split_once_unique [OF Some [unfolded ab] that(1)] no_at [OF that(2)] by blast
    then have "(\<exists>d s. name = d @ CHR ''@'' # s \<and> is_valid_dataset_name d \<and> is_valid_snapshot_name s) \<longleftrightarrow>
        is_valid_dataset_name a \<and> is_valid_snapshot_name b"
      using name by blast
    moreover have "CHR ''@'' \<in> set name" using name by simp
    ultimately show ?thesis using Some ab by (simp add: is_valid_dataset_or_snapshot_def)
  qed
  show "is_valid_dataset_name name \<longleftrightarrow>
      name \<noteq> [] \<and> word_char (hd name) \<and> (\<forall>p \<in> set (split_char CHR ''/'' name). dataset_part p)"
    by (rule dataset_name_iff)
  show "is_valid_dataset_or_snapshot name \<longrightarrow>
      name \<noteq> [] \<and> \<not> prefix ''-'' name \<and> \<not> prefix ''/'' name \<and> (\<forall>c \<in> set name. zfs_char c)"
    using dataset_or_snapshot_safe [of name] word_char_plain [of "hd name"] by (cases name) auto
qed

theorem zfs_target_names_exact_witness:
  "is_valid_dataset_or_snapshot ''tank/a@b'' \<and> \<not> prefix ''-'' ''tank/a@b''"
proof -
  have "is_valid_dataset_or_snapshot ''tank/a@b''" by code_simp
  with zfs_target_names_exact [of "''tank/a@b''"] show ?thesis by blast
qed

end
