(* ===== verification/Host_Rate_Limiter.thy ===== *)
theory Host_Rate_Limiter
  imports Host_Config
begin

text \<open>
  The per-caller limiter of the host agent (\<open>crates/host-agent/src/rate_limit.rs\<close>): a counter
  and the start of the current window for each certificate name.  Instants are nanoseconds
  since an arbitrary origin.  \<open>DashMap\<close> locks an entry while it is updated, so the operations
  are modelled one after the other.
\<close>

section \<open>State and operations\<close>

record bucket =
  bk_count :: u64
  bk_start :: nat

record rate_limiter =
  buckets :: "string \<rightharpoonup> bucket"
  rl_max :: u32
  rl_window :: nat
  rl_enabled :: bool

definition new_rate_limiter :: "rate_limit_config \<Rightarrow> rate_limiter" where
  "new_rate_limiter cfg =
     \<lparr>buckets = Map.empty, rl_max = max_requests cfg,
      rl_window = unat (window_seconds cfg) * 10 ^ 9, rl_enabled = rate_enabled cfg\<rparr>"

definition rate_check :: "rate_limiter \<Rightarrow> nat \<Rightarrow> string \<Rightarrow> (nat + unit) \<times> rate_limiter" where
  "rate_check lim now cn =
     (if \<not> rl_enabled lim then (Inr (), lim)
      else
        (let entry = (case buckets lim cn of
                        Some b \<Rightarrow> b | None \<Rightarrow> \<lparr>bk_count = 0, bk_start = now\<rparr>);
             elapsed = now - bk_start entry;
             put = (\<lambda>b. lim\<lparr>buckets := (buckets lim)(cn \<mapsto> b)\<rparr>) in
         if rl_window lim \<le> elapsed then (Inr (), put \<lparr>bk_count = 1, bk_start = now\<rparr>)
         else if bk_count entry < ucast (rl_max lim)
         then (Inr (), put (entry\<lparr>bk_count := bk_count entry + 1\<rparr>))
         else (Inl (max ((rl_window lim - elapsed) div 10 ^ 9) 1), put entry)))"

definition evict_expired :: "rate_limiter \<Rightarrow> nat \<Rightarrow> rate_limiter" where
  "evict_expired lim now =
     lim\<lparr>buckets := (\<lambda>cn. case buckets lim cn of
        None \<Rightarrow> None
      | Some b \<Rightarrow> if now - bk_start b < rl_window lim * 2 then Some b else None)\<rparr>"

text \<open>A run: checks and evictions with their times, and the decisions of the checks.\<close>

datatype limiter_op = Check nat string | Evict nat

fun op_time :: "limiter_op \<Rightarrow> nat" where
  "op_time (Check t cn) = t"
| "op_time (Evict t) = t"

fun limiter_step :: "rate_limiter \<Rightarrow> limiter_op \<Rightarrow> rate_limiter" where
  "limiter_step lim (Check t cn) = snd (rate_check lim t cn)"
| "limiter_step lim (Evict t) = evict_expired lim t"

fun decisions :: "rate_limiter \<Rightarrow> limiter_op list \<Rightarrow> (string \<times> bool) list" where
  "decisions lim [] = []"
| "decisions lim (Check t cn # ops) =
     (cn, is_ok (fst (rate_check lim t cn))) # decisions (snd (rate_check lim t cn)) ops"
| "decisions lim (Evict t # ops) = decisions (evict_expired lim t) ops"

definition admitted :: "string \<Rightarrow> (string \<times> bool) list \<Rightarrow> nat" where
  "admitted cn ds = length (filter (\<lambda>d. d = (cn, True)) ds)"

section \<open>Counting what a window admits\<close>

definition quota :: "rate_limiter \<Rightarrow> nat" where
  "quota lim = max 1 (unat (rl_max lim))"

definition limiter_inv :: "rate_limiter \<Rightarrow> bool" where
  "limiter_inv lim \<longleftrightarrow> (\<forall>cn b. buckets lim cn = Some b \<longrightarrow> unat (bk_count b) \<le> quota lim)"

lemma admitted_simps [simp]:
  "admitted cn [] = 0"
  "admitted cn ((cn', ok) # ds) = (if cn' = cn \<and> ok then Suc (admitted cn ds) else admitted cn ds)"
  by (simp_all add: admitted_def)

lemma unat_u32: "unat (m :: u32) < 2 ^ 32"
proof -
  have "unat m < 2 ^ LENGTH(32)" by (rule unsigned_less)
  then show ?thesis by simp
qed

lemma ucast_max: "unat (ucast (m :: u32) :: u64) = unat m"
proof -
  have "unat m < 2 ^ 64" using unat_u32 [of m] by simp
  then show ?thesis by (simp add: unsigned_ucast_eq take_bit_nat_eq_self)
qed

lemma step_params [simp]:
  "rl_max (limiter_step lim x) = rl_max lim" "rl_window (limiter_step lim x) = rl_window lim"
  "rl_enabled (limiter_step lim x) = rl_enabled lim" "quota (limiter_step lim x) = quota lim"
  by (cases x; simp add: rate_check_def evict_expired_def quota_def Let_def)+

lemma check_params [simp]:
  "rl_max (snd (rate_check lim t cn)) = rl_max lim"
  "rl_window (snd (rate_check lim t cn)) = rl_window lim"
  "rl_enabled (snd (rate_check lim t cn)) = rl_enabled lim"
  "quota (snd (rate_check lim t cn)) = quota lim"
  using step_params [of lim "Check t cn"] by simp_all

lemma quota_pos: "1 \<le> quota lim"
  by (simp add: quota_def)

lemma quota_evict [simp]: "quota (evict_expired lim t) = quota lim"
  using step_params(4) [of lim "Evict t"] by simp

lemma count_up:
  assumes "c < (ucast (m :: u32) :: u64)"
  shows "unat (c + 1) = Suc (unat c)" "Suc (unat c) \<le> unat m"
proof -
  have c: "unat c < unat m" using assms by (simp add: word_less_nat_alt ucast_max)
  moreover have "unat m < 2 ^ 32" by (rule unat_u32)
  ultimately have "Suc (unat c) < 2 ^ 64" by simp
  then show "unat (c + 1) = Suc (unat c)" by (simp add: unat_word_ariths)
  show "Suc (unat c) \<le> unat m" using c by simp
qed

text \<open>The bucket of a caller after a check of this caller.\<close>

lemma check_bucket:
  assumes "rl_enabled lim"
  obtains (reset) "fst (rate_check lim t cn) = Inr ()"
      "buckets (snd (rate_check lim t cn)) cn = Some \<lparr>bk_count = 1, bk_start = t\<rparr>"
      "\<forall>b. buckets lim cn = Some b \<longrightarrow> rl_window lim \<le> t - bk_start b"
  | (counted) b where "fst (rate_check lim t cn) = Inr ()" "rl_window lim > t - bk_start b"
      "b = (case buckets lim cn of Some b \<Rightarrow> b | None \<Rightarrow> \<lparr>bk_count = 0, bk_start = t\<rparr>)"
      "bk_count b < ucast (rl_max lim)"
      "buckets (snd (rate_check lim t cn)) cn = Some (b\<lparr>bk_count := bk_count b + 1\<rparr>)"
  | (refused) b where "\<not> is_ok (fst (rate_check lim t cn))" "rl_window lim > t - bk_start b"
      "b = (case buckets lim cn of Some b \<Rightarrow> b | None \<Rightarrow> \<lparr>bk_count = 0, bk_start = t\<rparr>)"
      "\<not> bk_count b < ucast (rl_max lim)"
      "buckets (snd (rate_check lim t cn)) cn = Some b"
proof -
  let ?b = "case buckets lim cn of Some b \<Rightarrow> b | None \<Rightarrow> \<lparr>bk_count = 0, bk_start = t\<rparr>"
  consider "rl_window lim \<le> t - bk_start ?b"
    | "rl_window lim > t - bk_start ?b" "bk_count ?b < ucast (rl_max lim)"
    | "rl_window lim > t - bk_start ?b" "\<not> bk_count ?b < ucast (rl_max lim)"
    by linarith
  then show thesis
  proof cases
    case 1
    then show thesis using assms by (intro reset) (auto simp: rate_check_def Let_def)
  next
    case 2
    then show thesis using assms by (intro counted [of ?b]) (simp_all add: rate_check_def Let_def)
  next
    case 3
    then show thesis using assms by (intro refused [of ?b]) (simp_all add: rate_check_def Let_def)
  qed
qed

lemma check_other: "cn' \<noteq> cn \<Longrightarrow> buckets (snd (rate_check lim t cn')) cn = buckets lim cn"
  by (auto simp: rate_check_def Let_def)

lemma limiter_inv_step: "limiter_inv lim \<Longrightarrow> limiter_inv (limiter_step lim x)"
proof (cases x)
  case (Check t cn)
  assume inv: "limiter_inv lim"
  show ?thesis
  proof (cases "rl_enabled lim")
    case False
    with inv Check show ?thesis by (simp add: rate_check_def)
  next
    case True
    have "unat (bk_count b) \<le> quota lim"
      if b: "buckets (snd (rate_check lim t cn)) cn' = Some b" for cn' b
    proof (cases "cn' = cn")
      case False
      with b inv check_other [of cn cn' lim t] show ?thesis by (simp add: limiter_inv_def)
    next
      case here: True
      have old: "unat (bk_count (case buckets lim cn of
          Some b \<Rightarrow> b | None \<Rightarrow> \<lparr>bk_count = 0, bk_start = t\<rparr>)) \<le> quota lim"
        using inv by (auto simp: limiter_inv_def split: option.split)
      show ?thesis
      proof (rule check_bucket [OF True, of t cn])
        assume "buckets (snd (rate_check lim t cn)) cn = Some \<lparr>bk_count = 1, bk_start = t\<rparr>"
        with b here show ?thesis by (auto simp: quota_def)
      next
        fix b' assume "bk_count b' < ucast (rl_max lim)"
          and "buckets (snd (rate_check lim t cn)) cn = Some (b'\<lparr>bk_count := bk_count b' + 1\<rparr>)"
        with b here count_up [of "bk_count b'" "rl_max lim"] show ?thesis by (auto simp: quota_def)
      next
        fix b' assume "b' = (case buckets lim cn of
            Some b \<Rightarrow> b | None \<Rightarrow> \<lparr>bk_count = 0, bk_start = t\<rparr>)"
          and "buckets (snd (rate_check lim t cn)) cn = Some b'"
        with b here old show ?thesis by simp
      qed
    qed
    moreover have "quota (snd (rate_check lim t cn)) = quota lim"
      using step_params(4) [of lim "Check t cn"] by simp
    ultimately show ?thesis unfolding limiter_inv_def Check limiter_step.simps by metis
  qed
next
  case (Evict t)
  assume "limiter_inv lim"
  with Evict show ?thesis
    by (auto simp: limiter_inv_def evict_expired_def quota_def split: option.splits if_splits)
qed

lemma decisions_append:
  "decisions lim (xs @ ys) = decisions lim xs @ decisions (run_ops limiter_step lim xs) ys"
  by (induction lim xs rule: decisions.induct) auto

interpretation limiter: invariant_machine limiter_step limiter_inv
  by unfold_locales (rule limiter_inv_step)

lemma run_params [simp]:
  "rl_window (run_ops limiter_step lim xs) = rl_window lim"
  "rl_enabled (run_ops limiter_step lim xs) = rl_enabled lim"
  "quota (run_ops limiter_step lim xs) = quota lim"
  by (induction xs arbitrary: lim) simp_all

text \<open>While a bucket's window lasts, what it still admits is the quota less the count.\<close>

lemma admitted_in_window:
  assumes "rl_enabled lim" "buckets lim cn = Some b"
    and "\<forall>x \<in> set ops. bk_start b \<le> op_time x \<and> op_time x < bk_start b + rl_window lim"
  shows "admitted cn (decisions lim ops) \<le> quota lim - unat (bk_count b)"
  using assms
proof (induction ops arbitrary: lim b)
  case Nil
  then show ?case by simp
next
  case (Cons x ops)
  let ?lim = "limiter_step lim x"
  have time: "bk_start b \<le> op_time x" "op_time x < bk_start b + rl_window lim"
    using Cons.prems(3) by simp_all
  have IH: "admitted cn (decisions ?lim ops) \<le> quota lim - unat (bk_count b')"
    if "buckets ?lim cn = Some b'" "bk_start b' = bk_start b" for b'
    using Cons.IH [of ?lim b'] Cons.prems that by simp
  show ?case
  proof (cases x)
    case (Evict t)
    have "buckets ?lim cn = Some b"
      using Evict Cons.prems(2) time by (simp add: evict_expired_def)
    with IH [of b] Evict show ?thesis by simp
  next
    case (Check t cn')
    show ?thesis
    proof (cases "cn' = cn")
      case False
      with IH [of b] Check Cons.prems(2) check_other [of cn' cn lim t] show ?thesis by simp
    next
      case True
      show ?thesis
      proof (rule check_bucket [OF Cons.prems(1), of t cn])
        assume "\<forall>b. buckets lim cn = Some b \<longrightarrow> rl_window lim \<le> t - bk_start b"
        with Cons.prems(2) time Check have False by auto
        then show ?thesis ..
      next
        fix b' assume ok: "fst (rate_check lim t cn) = Inr ()"
          and b': "b' = (case buckets lim cn of Some b \<Rightarrow> b | None \<Rightarrow> \<lparr>bk_count = 0, bk_start = t\<rparr>)"
          and lt: "bk_count b' < ucast (rl_max lim)"
          and new: "buckets (snd (rate_check lim t cn)) cn = Some (b'\<lparr>bk_count := bk_count b' + 1\<rparr>)"
        from b' Cons.prems(2) have "b' = b" by simp
        with IH [of "b'\<lparr>bk_count := bk_count b' + 1\<rparr>"] new Check True count_up [OF lt] ok
        show ?thesis by (simp add: quota_def)
      next
        fix b' assume "\<not> is_ok (fst (rate_check lim t cn))"
          and "b' = (case buckets lim cn of Some b \<Rightarrow> b | None \<Rightarrow> \<lparr>bk_count = 0, bk_start = t\<rparr>)"
          and "buckets (snd (rate_check lim t cn)) cn = Some b'"
        with IH [of b'] Cons.prems(2) Check True show ?thesis by simp
      qed
    qed
  qed
qed

lemma later_ops: "sorted (map op_time (x # ops)) \<Longrightarrow> y \<in> set ops \<Longrightarrow> op_time x \<le> op_time y"
  by simp

text \<open>After a check at \<open>t\<close> opened a new window, everything until \<open>a + window\<close> is in it.\<close>

lemma admitted_after_open:
  assumes "rl_enabled lim" "buckets lim cn = Some b" "bk_start b = t" "a \<le> t"
    and "\<forall>x \<in> set ops. t \<le> op_time x \<and> op_time x < a + rl_window lim"
  shows "admitted cn (decisions lim ops) \<le> quota lim - unat (bk_count b)"
  using assms by (intro admitted_in_window [of lim cn b ops]) fastforce+

lemma admitted_fresh:
  assumes "rl_enabled lim" "buckets lim cn = None" "sorted (map op_time ops)"
    and "\<forall>x \<in> set ops. a \<le> op_time x \<and> op_time x < a + rl_window lim"
  shows "admitted cn (decisions lim ops) \<le> quota lim"
  using assms
proof (induction ops arbitrary: lim)
  case (Cons x ops)
  let ?lim = "limiter_step lim x"
  have rest: "\<forall>y \<in> set ops. op_time x \<le> op_time y \<and> op_time y < a + rl_window ?lim"
    using Cons.prems(3,4) by simp
  have IH: "buckets ?lim cn = None \<Longrightarrow> admitted cn (decisions ?lim ops) \<le> quota lim"
    using Cons.IH [of ?lim] Cons.prems by simp
  have opened: "admitted cn (decisions ?lim ops) \<le> quota lim - unat (bk_count b)"
    if "buckets ?lim cn = Some b" "bk_start b = op_time x" for b
    using admitted_after_open [OF _ that, of a ops] Cons.prems(1,4) rest by simp
  show ?case
  proof (cases x)
    case (Evict t)
    with IH Cons.prems(2) show ?thesis by (simp add: evict_expired_def)
  next
    case (Check t cn')
    show ?thesis
    proof (cases "cn' = cn")
      case False
      with IH Check Cons.prems(2) check_other [of cn' cn lim t] show ?thesis by simp
    next
      case True
      show ?thesis
      proof (rule check_bucket [OF Cons.prems(1), of t cn])
        assume "buckets (snd (rate_check lim t cn)) cn = Some \<lparr>bk_count = 1, bk_start = t\<rparr>"
        with opened [of "\<lparr>bk_count = 1, bk_start = t\<rparr>"] Check True
        have "admitted cn (decisions ?lim ops) \<le> quota lim - 1" by simp
        with Check True quota_pos [of lim] show ?thesis by (auto split: if_splits)
      next
        fix b' assume b': "b' = (case buckets lim cn of Some b \<Rightarrow> b | None \<Rightarrow> \<lparr>bk_count = 0, bk_start = t\<rparr>)"
          and lt: "bk_count b' < ucast (rl_max lim)"
          and new: "buckets (snd (rate_check lim t cn)) cn = Some (b'\<lparr>bk_count := bk_count b' + 1\<rparr>)"
        with opened [of "b'\<lparr>bk_count := bk_count b' + 1\<rparr>"] Check True Cons.prems(2) count_up [OF lt]
        show ?thesis by (auto simp: quota_def split: if_splits)
      next
        fix b' assume "\<not> is_ok (fst (rate_check lim t cn))"
          and "b' = (case buckets lim cn of Some b \<Rightarrow> b | None \<Rightarrow> \<lparr>bk_count = 0, bk_start = t\<rparr>)"
          and "buckets (snd (rate_check lim t cn)) cn = Some b'"
        with opened [of b'] Check True Cons.prems(2) show ?thesis by simp
      qed
    qed
  qed
qed simp

definition used :: "rate_limiter \<Rightarrow> string \<Rightarrow> nat" where
  "used lim cn = (case buckets lim cn of None \<Rightarrow> 0 | Some b \<Rightarrow> unat (bk_count b))"

lemma used_le: "limiter_inv lim \<Longrightarrow> used lim cn \<le> quota lim"
  by (auto simp: used_def limiter_inv_def split: option.split)

lemma admitted_any:
  assumes "rl_enabled lim" "limiter_inv lim" "sorted (map op_time ops)"
    and "\<forall>x \<in> set ops. a \<le> op_time x \<and> op_time x < a + rl_window lim"
  shows "admitted cn (decisions lim ops) \<le> 2 * quota lim - used lim cn"
  using assms
proof (induction ops arbitrary: lim)
  case (Cons x ops)
  let ?lim = "limiter_step lim x"
  have rest: "\<forall>y \<in> set ops. op_time x \<le> op_time y \<and> op_time y < a + rl_window ?lim"
    using Cons.prems(3,4) by simp
  have IH: "admitted cn (decisions ?lim ops) \<le> 2 * quota lim - used ?lim cn"
    using Cons.IH [of ?lim] Cons.prems limiter_inv_step [OF Cons.prems(2), of x] by simp
  have small: "used lim cn \<le> quota lim" using Cons.prems(2) by (rule used_le)
  show ?case
  proof (cases x)
    case (Evict t)
    show ?thesis
    proof (cases "buckets ?lim cn = None")
      case True
      have "admitted cn (decisions ?lim ops) \<le> quota ?lim"
        using admitted_fresh [OF _ True, of ops a] Cons.prems by simp
      with Evict small show ?thesis by simp
    next
      case False
      then have "used ?lim cn = used lim cn"
        using Evict by (auto simp: used_def evict_expired_def split: option.splits if_splits)
      with IH Evict show ?thesis by simp
    qed
  next
    case (Check t cn')
    show ?thesis
    proof (cases "cn' = cn")
      case False
      with IH Check check_other [of cn' cn lim t] show ?thesis by (simp add: used_def)
    next
      case True
      show ?thesis
      proof (rule check_bucket [OF Cons.prems(1), of t cn])
        assume new: "buckets (snd (rate_check lim t cn)) cn = Some \<lparr>bk_count = 1, bk_start = t\<rparr>"
        have "admitted cn (decisions ?lim ops) \<le> quota ?lim - 1"
          using admitted_after_open [of ?lim cn "\<lparr>bk_count = 1, bk_start = t\<rparr>" t a ops]
            Cons.prems(1,4) rest new Check True by simp
        with Check True small quota_pos [of lim] show ?thesis by auto
      next
        fix b' assume b': "b' = (case buckets lim cn of Some b \<Rightarrow> b | None \<Rightarrow> \<lparr>bk_count = 0, bk_start = t\<rparr>)"
          and lt: "bk_count b' < ucast (rl_max lim)"
          and new: "buckets (snd (rate_check lim t cn)) cn = Some (b'\<lparr>bk_count := bk_count b' + 1\<rparr>)"
        have "used ?lim cn = Suc (used lim cn)"
          using Check True b' new count_up [OF lt] by (auto simp: used_def split: option.splits)
        moreover have "Suc (used lim cn) \<le> quota lim"
          using b' count_up [OF lt] by (auto simp: used_def quota_def split: option.splits)
        ultimately show ?thesis using IH Check True by auto
      next
        fix b' assume no: "\<not> is_ok (fst (rate_check lim t cn))"
          and b': "b' = (case buckets lim cn of Some b \<Rightarrow> b | None \<Rightarrow> \<lparr>bk_count = 0, bk_start = t\<rparr>)"
          and new: "buckets (snd (rate_check lim t cn)) cn = Some b'"
        have "used ?lim cn = used lim cn"
          using Check True b' new by (auto simp: used_def split: option.splits)
        with IH Check True no show ?thesis by simp
      qed
    qed
  qed
qed simp

section \<open>Where a window starts\<close>

definition window_of :: "rate_limiter \<Rightarrow> string \<Rightarrow> nat option" where
  "window_of lim cn = map_option bk_start (buckets lim cn)"

fun op_touches :: "limiter_op \<Rightarrow> string \<Rightarrow> bool" where
  "op_touches (Check t cn) k \<longleftrightarrow> cn = k"
| "op_touches (Evict t) k \<longleftrightarrow> True"

fun op_opens :: "limiter_op \<Rightarrow> string \<Rightarrow> nat \<Rightarrow> bool" where
  "op_opens (Check t cn) k v \<longleftrightarrow> cn = k \<and> v = t"
| "op_opens (Evict t) k v \<longleftrightarrow> False"

interpretation limiter_windows: keyed_store limiter_step window_of op_touches op_opens
proof
  fix x k lim assume "\<not> op_touches x k"
  then show "window_of (limiter_step lim x) k = window_of lim k"
    by (cases x) (auto simp: window_of_def check_other)
next
  fix lim x k v assume "window_of (limiter_step lim x) k = Some v"
  then show "window_of lim k = Some v \<or> op_opens x k v"
    by (cases x) (auto simp: window_of_def rate_check_def evict_expired_def Let_def
        split: if_splits option.splits)
qed

section \<open>Evicting\<close>

text \<open>
  Two limiters that differ only in buckets whose window has passed at time \<open>t\<close>.
\<close>

definition same_from :: "nat \<Rightarrow> rate_limiter \<Rightarrow> rate_limiter \<Rightarrow> bool" where
  "same_from t lim lim' \<longleftrightarrow>
     rl_max lim = rl_max lim' \<and> rl_window lim = rl_window lim' \<and> rl_enabled lim = rl_enabled lim' \<and>
     (\<forall>cn. buckets lim' cn = buckets lim cn \<or>
        (\<forall>b. (buckets lim cn = Some b \<or> buckets lim' cn = Some b) \<longrightarrow> rl_window lim \<le> t - bk_start b))"

lemma same_from_later: "same_from t lim lim' \<Longrightarrow> t \<le> t' \<Longrightarrow> same_from t' lim lim'"
  unfolding same_from_def by (meson diff_le_mono le_trans)

text \<open>A caller whose last window has passed is admitted and opens a new window.\<close>

lemma check_stale:
  assumes "rl_enabled lim" "1 \<le> unat (rl_max lim)"
    and "\<forall>b. buckets lim cn = Some b \<longrightarrow> rl_window lim \<le> t - bk_start b"
  shows "rate_check lim t cn =
    (Inr (), lim\<lparr>buckets := (buckets lim)(cn \<mapsto> \<lparr>bk_count = 1, bk_start = t\<rparr>)\<rparr>)"
proof -
  have "0 < (ucast (rl_max lim) :: u64)"
    using assms(2) by (simp add: word_less_nat_alt ucast_max)
  then show ?thesis using assms(1,3)
    by (cases "buckets lim cn") (auto simp: rate_check_def Let_def)
qed

lemma same_from_check:
  assumes same: "same_from t lim lim'" and "1 \<le> unat (rl_max lim)"
  shows "fst (rate_check lim t cn) = fst (rate_check lim' t cn)"
    and "same_from t (snd (rate_check lim t cn)) (snd (rate_check lim' t cn))"
proof -
  note params = same [unfolded same_from_def]
  have "fst (rate_check lim t cn) = fst (rate_check lim' t cn) \<and>
    same_from t (snd (rate_check lim t cn)) (snd (rate_check lim' t cn))"
  proof (cases "rl_enabled lim")
    case False
    with params same show ?thesis by (simp add: rate_check_def)
  next
    case on: True
    show ?thesis
    proof (cases "buckets lim' cn = buckets lim cn")
      case True
      then have "fst (rate_check lim t cn) = fst (rate_check lim' t cn)"
        and "buckets (snd (rate_check lim t cn)) cn = buckets (snd (rate_check lim' t cn)) cn"
        using params on by (simp_all add: rate_check_def Let_def)
      moreover have "buckets (snd (rate_check l t cn)) cn' = buckets l cn'" if "cn' \<noteq> cn" for l cn'
        using that by (simp add: check_other)
      ultimately show ?thesis using params unfolding same_from_def by (metis check_params(1,2,3))
    next
      case False
      with params have "\<forall>b. buckets lim cn = Some b \<longrightarrow> rl_window lim \<le> t - bk_start b"
        "\<forall>b. buckets lim' cn = Some b \<longrightarrow> rl_window lim' \<le> t - bk_start b" by metis+
      with check_stale [of lim cn t] check_stale [of lim' cn t] params on assms(2)
      show ?thesis by (simp add: same_from_def) metis
    qed
  qed
  then show "fst (rate_check lim t cn) = fst (rate_check lim' t cn)"
    and "same_from t (snd (rate_check lim t cn)) (snd (rate_check lim' t cn))" by simp_all
qed

lemma same_from_evict:
  assumes "same_from t lim lim'"
  shows "same_from t (evict_expired lim t) lim'"
  unfolding same_from_def
proof (intro conjI allI)
  note same = assms [unfolded same_from_def]
  show "rl_max (evict_expired lim t) = rl_max lim'" "rl_window (evict_expired lim t) = rl_window lim'"
    "rl_enabled (evict_expired lim t) = rl_enabled lim'"
    using same by (simp_all add: evict_expired_def)
  fix cn
  have kept: "buckets (evict_expired lim t) cn = buckets lim cn \<or>
    buckets (evict_expired lim t) cn = None \<and>
      (\<forall>b. buckets lim cn = Some b \<longrightarrow> rl_window lim \<le> t - bk_start b)"
    by (cases "buckets lim cn") (auto simp: evict_expired_def)
  have "rl_window (evict_expired lim t) = rl_window lim" by (simp add: evict_expired_def)
  with kept same show "buckets lim' cn = buckets (evict_expired lim t) cn \<or>
    (\<forall>b. (buckets (evict_expired lim t) cn = Some b \<or> buckets lim' cn = Some b) \<longrightarrow>
      rl_window (evict_expired lim t) \<le> t - bk_start b)"
    by (metis option.distinct(1))
qed

fun is_check :: "limiter_op \<Rightarrow> bool" where
  "is_check (Check t cn) \<longleftrightarrow> True"
| "is_check (Evict t) \<longleftrightarrow> False"

lemma same_from_decisions:
  assumes "same_from t lim lim'" "1 \<le> unat (rl_max lim)"
    and "sorted (map op_time ops)" "\<forall>x \<in> set ops. t \<le> op_time x"
  shows "decisions lim ops = decisions lim' (filter is_check ops)"
  using assms
proof (induction ops arbitrary: lim lim' t)
  case (Cons x ops)
  have later: "\<forall>y \<in> set ops. op_time x \<le> op_time y" and srt: "sorted (map op_time ops)"
    using Cons.prems(3) by simp_all
  have now: "same_from (op_time x) lim lim'"
    using Cons.prems(1,4) same_from_later by simp
  show ?case
  proof (cases x)
    case (Check u cn)
    with now have same: "same_from u lim lim'" by simp
    note c = same_from_check [OF same Cons.prems(2), of cn]
    have "decisions (snd (rate_check lim u cn)) ops =
      decisions (snd (rate_check lim' u cn)) (filter is_check ops)"
      by (rule Cons.IH [OF c(2)]) (use Cons.prems(2) later srt Check in simp_all)
    with c(1) Check show ?thesis by simp
  next
    case (Evict u)
    with now have same: "same_from u (evict_expired lim u) lim'" by (simp add: same_from_evict)
    have "decisions (evict_expired lim u) ops = decisions lim' (filter is_check ops)"
      by (rule Cons.IH [OF same])
        (use Cons.prems(2) later srt Evict in \<open>simp_all add: evict_expired_def\<close>)
    with Evict show ?thesis by simp
  qed
qed simp

lemma same_from_refl: "same_from t lim lim"
  by (simp add: same_from_def)

section \<open>Properties\<close>

lemma new_limiter_inv: "limiter_inv (new_rate_limiter cfg)"
  by (simp add: limiter_inv_def new_rate_limiter_def)

lemma new_limiter_params [simp]:
  "quota (new_rate_limiter cfg) = max 1 (unat (max_requests cfg))"
  "rl_window (new_rate_limiter cfg) = unat (window_seconds cfg) * 10 ^ 9"
  "rl_enabled (new_rate_limiter cfg) = rate_enabled cfg"
  "rl_max (new_rate_limiter cfg) = max_requests cfg"
  "buckets (new_rate_limiter cfg) = Map.empty"
  by (simp_all add: quota_def new_rate_limiter_def)

lemma run_max [simp]: "rl_max (run_ops limiter_step lim xs) = rl_max lim"
  by (induction xs arbitrary: lim) simp_all

definition example_limits :: rate_limit_config where
  "example_limits = \<lparr>rate_enabled = True, max_requests = 2, window_seconds = 1,
     endpoints = [''/zfs/destroy'']\<rparr>"



text \<open>
  a refusal does not last.  Where at least one request is allowed, a caller whose
  earlier checks all lie a full window back is admitted, whatever the other callers did and
  whichever evictions ran.
\<close>

theorem rate_limit_recovers:
  assumes "1 \<le> unat (max_requests cfg)"
    and "\<forall>u. Check u cn \<in> set pre \<longrightarrow> u + unat (window_seconds cfg) * 10 ^ 9 \<le> t"
  shows "fst (rate_check (run_ops limiter_step (new_rate_limiter cfg) pre) t cn) = Inr ()"
proof (cases "rate_enabled cfg")
  case False
  then show ?thesis by (simp add: rate_check_def)
next
  case True
  let ?lim = "run_ops limiter_step (new_rate_limiter cfg) pre"
  have "rl_window ?lim \<le> t - bk_start b" if b: "buckets ?lim cn = Some b" for b
  proof -
    from b have "window_of ?lim cn = Some (bk_start b)" by (simp add: window_of_def)
    then obtain x where "x \<in> set pre" "op_opens x cn (bk_start b)"
      using limiter_windows.run_origin [of "new_rate_limiter cfg" pre cn "bk_start b"]
      by (auto simp: window_of_def)
    moreover from this(2) have "x = Check (bk_start b) cn" by (cases x) simp_all
    ultimately have "Check (bk_start b) cn \<in> set pre" by simp
    with assms(2) show ?thesis by fastforce
  qed
  with True assms(1) show ?thesis by (simp add: check_stale)
qed

theorem rate_limit_recovers_witness:
  "fst (rate_check (run_ops limiter_step (new_rate_limiter example_limits)
     [Check 0 ''a'', Check 1 ''a'', Check 2 ''a'', Check 3 ''b'']) 1000000002 ''a'') = Inr ()"
  by (rule rate_limit_recovers) (auto simp: example_limits_def)

text \<open>
  Evicting old buckets is invisible: with at least one request allowed, the decisions on
  any run are those of the run without the evictions.
\<close>

theorem rate_limit_eviction_transparent:
  assumes "1 \<le> unat (max_requests cfg)" "sorted (map op_time ops)"
  shows "decisions (new_rate_limiter cfg) ops = decisions (new_rate_limiter cfg) (filter is_check ops)"
  by (rule same_from_decisions [OF same_from_refl [of 0]]) (use assms in simp_all)

theorem rate_limit_eviction_transparent_witness:
  "decisions (new_rate_limiter example_limits)
     [Check 0 ''a'', Check 1 ''a'', Evict 2, Check 3 ''a'', Evict 2000000001, Check 2000000002 ''a''] =
   decisions (new_rate_limiter example_limits)
     [Check 0 ''a'', Check 1 ''a'', Check 3 ''a'', Check 2000000002 ''a'']"
  using rate_limit_eviction_transparent [of example_limits
      "[Check 0 ''a'', Check 1 ''a'', Evict 2, Check 3 ''a'', Evict 2000000001, Check 2000000002 ''a'']"]
  by (simp add: example_limits_def)

end
