(* ===== verification/Host_Approval.thy ===== *)
theory Host_Approval
  imports Host_Config "HOL-Library.AList"
begin

text \<open>
  The approval tokens of the host agent: \<open>crates/host-agent/src/approval/mod.rs\<close> (manager),
  \<open>token.rs\<close> (hash, mask) and \<open>signal.rs\<close> (confirmation by Signal).  SHA-256 is the argument
  \<open>h\<close> (64 hexadecimal digits, so taking the first 8 does not fail) and the random token is an
  argument of the operation that draws it.  Times are nanoseconds since the epoch; \<open>add_secs\<close>
  stands for \<open>chrono\<close>'s addition of \<open>Duration::seconds(n)\<close> and is \<^const>\<open>None\<close> where that
  panics.  The two hash maps are association lists whose order has no meaning.
\<close>

section \<open>Data\<close>

record approval_request =
  req_id :: string
  req_caller :: string
  req_caller_uid :: u32
  req_operation :: string
  req_target :: string
  requested_at :: int
  zeroclaw_request_id :: "string option"

record approval_response =
  approval_id :: string
  token_hash_prefix :: string
  rsp_caller :: string
  rsp_operation :: string
  rsp_target :: string
  rsp_expires_at :: int

record token_entry =
  te_request :: approval_request
  te_hash :: string
  te_expires :: int
  te_used :: bool
  te_approved :: bool
  approved_by :: "string option"

record signal_client =
  webhook_url :: string
  sc_approvers :: "string list"

record approval_manager =
  tokens :: "(string \<times> token_entry) list"
  by_id :: "(string \<times> string) list"
  mgr_ttl :: int
  mgr_signal :: "signal_client option"

record signal_payload =
  sp_token :: string
  confirmation_code :: string
  approver :: string
  sp_timestamp :: int

record token_audit_info =
  ta_hash :: string
  masked :: string
  hash_prefix :: string

record signal_post =
  post_url :: string
  post_message :: string
  post_recipients :: "string list"
  post_hash_prefix :: string

datatype callback_error =
    UnauthorizedApprover string
  | InvalidConfirmationCode string
  | ConfirmationExpired

datatype approval_error =
    NotFound string
  | Expired string
  | InvalidToken
  | AlreadyUsed

section \<open>Tokens\<close>

definition mask_token :: "string \<Rightarrow> string" where
  "mask_token token = (if length token \<le> 4 then ''****'' else take 4 token @ ''****'')"

definition token_audit :: "(string \<Rightarrow> string) \<Rightarrow> string \<Rightarrow> token_audit_info" where
  "token_audit h token =
     \<lparr>ta_hash = h token, masked = mask_token token, hash_prefix = take 8 (h token)\<rparr>"

section \<open>Signal\<close>

definition approval_message :: "token_audit_info \<Rightarrow> string \<Rightarrow> string \<Rightarrow> string \<Rightarrow> string" where
  "approval_message info caller op target =
     [CHR 0xF0, CHR 0x9F, CHR 0x94, CHR 0x90] @ '' Calciforge Approval Request'' @
     [CHR 0x0A, CHR 0x0A] @ ''Agent: '' @ caller @ [CHR 0x0A] @ ''Operation: '' @ op @
     [CHR 0x0A] @ ''Target: '' @ target @ [CHR 0x0A, CHR 0x0A] @ ''Reply CONFIRM '' @
     masked info @ '' to approve (5 min timeout)'' @ [CHR 0x0A] @ ''Token: '' @ masked info"

definition notify_approval_request ::
  "signal_client \<Rightarrow> token_audit_info \<Rightarrow> string \<Rightarrow> string \<Rightarrow> string \<Rightarrow> signal_post option" where
  "notify_approval_request client info caller op target =
     (if webhook_url client = [] then None
      else Some \<lparr>post_url = webhook_url client,
                 post_message = approval_message info caller op target,
                 post_recipients = sc_approvers client,
                 post_hash_prefix = hash_prefix info\<rparr>)"

text \<open>\<open>chrono::Duration::num_seconds\<close> rounds toward zero.\<close>

definition num_seconds :: "int \<Rightarrow> int" where
  "num_seconds d = (if d < 0 then - ((- d) div 10 ^ 9) else d div 10 ^ 9)"

definition validate_callback ::
  "(string \<Rightarrow> string) \<Rightarrow> (string \<Rightarrow> string) \<Rightarrow> int \<Rightarrow> signal_client \<Rightarrow> signal_payload \<Rightarrow>
   callback_error + string \<times> string" where
  "validate_callback uni h now client payload =
     (if approver payload \<notin> set (sc_approvers client)
      then Inl (UnauthorizedApprover (approver payload))
      else
        (let code = to_uppercase uni (confirmation_code payload) in
         if code \<noteq> ''CONFIRM'' \<and> code \<noteq> ''YES'' \<and> code \<noteq> ''APPROVE''
         then Inl (InvalidConfirmationCode (confirmation_code payload))
         else if 300 < num_seconds (now - sp_timestamp payload) then Inl ConfirmationExpired
         else Inr (h (sp_token payload), approver payload)))"

section \<open>The manager\<close>

definition sint_u64 :: "u64 \<Rightarrow> int" where
  "sint_u64 n = sint n"

definition new_approval_manager :: "u64 \<Rightarrow> signal_client option \<Rightarrow> approval_manager" where
  "new_approval_manager ttl signal =
     \<lparr>tokens = [], by_id = [], mgr_ttl = sint_u64 ttl, mgr_signal = signal\<rparr>"

text \<open>The stored entry, the message sent, and the token that is returned.\<close>

definition create_approval ::
  "(string \<Rightarrow> string) \<Rightarrow> (int \<Rightarrow> int \<Rightarrow> int option) \<Rightarrow> int \<Rightarrow> string \<Rightarrow> approval_request \<Rightarrow>
   approval_manager \<Rightarrow> (string \<times> signal_post option \<times> approval_manager) option" where
  "create_approval h add_secs now token request mgr =
     (let info = token_audit h token in
      case add_secs now (mgr_ttl mgr) of
        None \<Rightarrow> None
      | Some expires_at \<Rightarrow>
          (let entry = \<lparr>te_request = request, te_hash = ta_hash info, te_expires = expires_at,
                        te_used = False, te_approved = False, approved_by = None\<rparr>;
               mgr' = mgr\<lparr>tokens := AList.update (ta_hash info) entry (tokens mgr),
                          by_id := AList.update (req_id request) (ta_hash info) (by_id mgr)\<rparr>;
               post = (case mgr_signal mgr of
                         None \<Rightarrow> None
                       | Some client \<Rightarrow>
                           notify_approval_request client info (req_caller request)
                             (req_operation request) (req_target request)) in
           Some (token, post, mgr')))"

definition consumable :: "int \<Rightarrow> string \<Rightarrow> string \<Rightarrow> token_entry \<Rightarrow> bool" where
  "consumable now target caller entry \<longleftrightarrow>
     (if te_expires entry < now then False
      else if te_used entry then False
      else if \<not> te_approved entry then False
      else if req_target (te_request entry) \<noteq> target then False
      else if req_caller (te_request entry) \<noteq> caller then False
      else True)"

definition validate_and_consume_token ::
  "(string \<Rightarrow> string) \<Rightarrow> int \<Rightarrow> string \<Rightarrow> string \<Rightarrow> string \<Rightarrow> approval_manager \<Rightarrow>
   string option \<times> approval_manager" where
  "validate_and_consume_token h now token target caller mgr =
     (let token_hash = h token in
      case map_of (tokens mgr) token_hash of
        None \<Rightarrow> (None, mgr)
      | Some entry \<Rightarrow>
          if consumable now target caller entry
          then (Some (req_id (te_request entry)),
                mgr\<lparr>tokens := AList.update token_hash (entry\<lparr>te_used := True\<rparr>) (tokens mgr)\<rparr>)
          else (None, mgr))"

text \<open>The clock is read once by the callback check (\<open>now\<close>) and once afterwards (\<open>now'\<close>).\<close>

definition handle_signal_confirmation ::
  "(string \<Rightarrow> string) \<Rightarrow> (string \<Rightarrow> string) \<Rightarrow> int \<Rightarrow> int \<Rightarrow> signal_payload \<Rightarrow> approval_manager \<Rightarrow>
   (approval_error + unit) \<times> approval_manager" where
  "handle_signal_confirmation uni h now now' payload mgr =
     (case mgr_signal mgr of
        None \<Rightarrow> (Inl (NotFound ''Signal not configured''), mgr)
      | Some client \<Rightarrow>
          (case validate_callback uni h now client payload of
             Inl _ \<Rightarrow> (Inl InvalidToken, mgr)
           | Inr (token_hash, who) \<Rightarrow>
               (case map_of (tokens mgr) token_hash of
                  None \<Rightarrow> (Inl (NotFound (''Token hash: '' @ take 8 token_hash)), mgr)
                | Some entry \<Rightarrow>
                    if te_used entry then (Inl AlreadyUsed, mgr)
                    else if te_expires entry < now' then (Inl (Expired (sp_token payload)), mgr)
                    else (Inr (), mgr\<lparr>tokens := AList.update token_hash
                           (entry\<lparr>te_approved := True, approved_by := Some who\<rparr>) (tokens mgr)\<rparr>))))"

definition to_response :: "token_entry \<Rightarrow> approval_response" where
  "to_response e =
     \<lparr>approval_id = req_id (te_request e), token_hash_prefix = take 8 (te_hash e),
      rsp_caller = req_caller (te_request e), rsp_operation = req_operation (te_request e),
      rsp_target = req_target (te_request e), rsp_expires_at = te_expires e\<rparr>"

definition list_pending_for_caller :: "int \<Rightarrow> string \<Rightarrow> approval_manager \<Rightarrow> approval_response list" where
  "list_pending_for_caller now caller mgr =
     map to_response (filter (\<lambda>e. \<not> te_used e \<and> \<not> te_approved e \<and> now < te_expires e \<and>
                                 req_caller (te_request e) = caller)
                       (map snd (tokens mgr)))"

definition mgr_list_all_pending :: "int \<Rightarrow> approval_manager \<Rightarrow> approval_response list" where
  "mgr_list_all_pending now mgr =
     map to_response (filter (\<lambda>e. \<not> te_used e \<and> \<not> te_approved e \<and> now < te_expires e)
                       (map snd (tokens mgr)))"

text \<open>One tick of the cleanup task.\<close>

fun remove_expired :: "string list \<Rightarrow> approval_manager \<Rightarrow> approval_manager" where
  "remove_expired [] mgr = mgr"
| "remove_expired (k # ks) mgr =
     remove_expired ks
       (case map_of (tokens mgr) k of
          None \<Rightarrow> mgr
        | Some entry \<Rightarrow> mgr\<lparr>tokens := AList.delete k (tokens mgr),
                             by_id := AList.delete (req_id (te_request entry)) (by_id mgr)\<rparr>)"

definition cleanup :: "int \<Rightarrow> approval_manager \<Rightarrow> approval_manager" where
  "cleanup now mgr =
     remove_expired (map fst (filter (\<lambda>(_, e). te_expires e < now) (tokens mgr))) mgr"

section \<open>Runs of the manager\<close>

datatype approval_event =
    Created int string approval_request
  | Confirmed int int signal_payload
  | Consumed int string string string string
  | Cleaned int
  | Refused

text \<open>A change of the manager; \<open>Consumed now token target caller id\<close>.\<close>

inductive mgr_step ::
  "(string \<Rightarrow> string) \<Rightarrow> (int \<Rightarrow> int \<Rightarrow> int option) \<Rightarrow> (string \<Rightarrow> string) \<Rightarrow>
   approval_manager \<Rightarrow> approval_event \<Rightarrow> approval_manager \<Rightarrow> bool"
  for h add_secs uni where
  step_create: "create_approval h add_secs now token request m = Some (t, post, m') \<Longrightarrow>
    mgr_step h add_secs uni m (Created now token request) m'"
| step_confirm: "handle_signal_confirmation uni h now now' payload m = (Inr (), m') \<Longrightarrow>
    mgr_step h add_secs uni m (Confirmed now now' payload) m'"
| step_confirm_refused: "handle_signal_confirmation uni h now now' payload m = (Inl e, m') \<Longrightarrow>
    mgr_step h add_secs uni m Refused m'"
| step_consume: "validate_and_consume_token h now token target caller m = (Some aid, m') \<Longrightarrow>
    mgr_step h add_secs uni m (Consumed now token target caller aid) m'"
| step_consume_refused: "validate_and_consume_token h now token target caller m = (None, m') \<Longrightarrow>
    mgr_step h add_secs uni m Refused m'"
| step_cleanup: "mgr_step h add_secs uni m (Cleaned now) (cleanup now m)"

inductive_cases mgr_stepE: "mgr_step h add_secs uni m e m'"
inductive_cases mgr_step_ConsumedE: "mgr_step h add_secs uni m (Consumed now token target caller aid) m'"

text \<open>What a confirmation must be to count.\<close>

definition accepted_confirmation ::
  "(string \<Rightarrow> string) \<Rightarrow> signal_client \<Rightarrow> int \<Rightarrow> signal_payload \<Rightarrow> bool" where
  "accepted_confirmation uni client now p \<longleftrightarrow>
     approver p \<in> set (sc_approvers client) \<and>
     to_uppercase uni (confirmation_code p) \<in> {''CONFIRM'', ''YES'', ''APPROVE''} \<and>
     now - sp_timestamp p < 301 * 10 ^ 9"

fun creates :: "(string \<Rightarrow> string) \<Rightarrow> string \<Rightarrow> approval_event \<Rightarrow> bool" where
  "creates h k (Created _ token _) \<longleftrightarrow> h token = k"
| "creates h k _ \<longleftrightarrow> False"

fun consumes :: "(string \<Rightarrow> string) \<Rightarrow> string \<Rightarrow> approval_event \<Rightarrow> bool" where
  "consumes h k (Consumed _ token _ _ _) \<longleftrightarrow> h token = k"
| "consumes h k _ \<longleftrightarrow> False"

fun confirms ::
  "(string \<Rightarrow> string) \<Rightarrow> (string \<Rightarrow> string) \<Rightarrow> signal_client option \<Rightarrow> string \<Rightarrow> approval_event \<Rightarrow> bool" where
  "confirms uni h signal k (Confirmed now _ p) \<longleftrightarrow>
     h (sp_token p) = k \<and> (\<exists>client. signal = Some client \<and> accepted_confirmation uni client now p)"
| "confirms uni h signal k _ \<longleftrightarrow> False"

text \<open>
  The entry under \<open>k\<close> is the last request created under \<open>k\<close>, with what happened since:
  approved only after an accepted confirmation, used exactly after a consumption.
\<close>

definition entry_explained ::
  "(string \<Rightarrow> string) \<Rightarrow> (int \<Rightarrow> int \<Rightarrow> int option) \<Rightarrow> (string \<Rightarrow> string) \<Rightarrow> int \<Rightarrow> signal_client option \<Rightarrow>
   approval_event list \<Rightarrow> string \<Rightarrow> token_entry \<Rightarrow> bool" where
  "entry_explained h add_secs uni ttl signal evs k e \<longleftrightarrow>
     (\<exists>new now token old. evs = new @ Created now token (te_request e) # old \<and> h token = k \<and>
        add_secs now ttl = Some (te_expires e) \<and> (\<forall>x \<in> set new. \<not> creates h k x) \<and>
        (te_approved e \<longrightarrow> (\<exists>x \<in> set new. confirms uni h signal k x)) \<and>
        (te_used e \<longleftrightarrow> (\<exists>x \<in> set new. consumes h k x)))"

definition mgr_explained ::
  "(string \<Rightarrow> string) \<Rightarrow> (int \<Rightarrow> int \<Rightarrow> int option) \<Rightarrow> (string \<Rightarrow> string) \<Rightarrow> int \<Rightarrow> signal_client option \<Rightarrow>
   approval_event list \<Rightarrow> approval_manager \<Rightarrow> bool" where
  "mgr_explained h add_secs uni ttl signal evs m \<longleftrightarrow>
     mgr_ttl m = ttl \<and> mgr_signal m = signal \<and>
     (\<forall>k e. map_of (tokens m) k = Some e \<longrightarrow> entry_explained h add_secs uni ttl signal evs k e)"

lemma entry_explained_other:
  assumes "entry_explained h add_secs uni ttl signal evs k e" "\<not> creates h k x" "\<not> consumes h k x"
  shows "entry_explained h add_secs uni ttl signal (x # evs) k e"
proof -
  from assms(1) obtain new now token old where
    "evs = new @ Created now token (te_request e) # old" "h token = k"
    "add_secs now ttl = Some (te_expires e)" "\<forall>x \<in> set new. \<not> creates h k x"
    "te_approved e \<longrightarrow> (\<exists>x \<in> set new. confirms uni h signal k x)"
    "te_used e \<longleftrightarrow> (\<exists>x \<in> set new. consumes h k x)"
    unfolding entry_explained_def by blast
  with assms(2,3) show ?thesis unfolding entry_explained_def
    by (intro exI [of _ "x # new"] exI [of _ now] exI [of _ token] exI [of _ old]) auto
qed

lemma entry_explained_confirm:
  assumes "entry_explained h add_secs uni ttl signal evs k e" "confirms uni h signal k x"
  shows "entry_explained h add_secs uni ttl signal (x # evs) k
    (e\<lparr>te_approved := True, approved_by := who\<rparr>)"
proof -
  from assms(2) have "\<not> creates h k x" "\<not> consumes h k x" by (cases x; simp)+
  moreover from assms(1) obtain new now token old where
    "evs = new @ Created now token (te_request e) # old" "h token = k"
    "add_secs now ttl = Some (te_expires e)" "\<forall>x \<in> set new. \<not> creates h k x"
    "te_used e \<longleftrightarrow> (\<exists>x \<in> set new. consumes h k x)"
    unfolding entry_explained_def by blast
  ultimately show ?thesis using assms(2) unfolding entry_explained_def
    by (intro exI [of _ "x # new"] exI [of _ now] exI [of _ token] exI [of _ old]) auto
qed

lemma entry_explained_consume:
  assumes "entry_explained h add_secs uni ttl signal evs k e" "consumes h k x"
  shows "entry_explained h add_secs uni ttl signal (x # evs) k (e\<lparr>te_used := True\<rparr>)"
proof -
  from assms(2) have "\<not> creates h k x" by (cases x) simp_all
  moreover from assms(1) obtain new now token old where
    "evs = new @ Created now token (te_request e) # old" "h token = k"
    "add_secs now ttl = Some (te_expires e)" "\<forall>x \<in> set new. \<not> creates h k x"
    "te_approved e \<longrightarrow> (\<exists>x \<in> set new. confirms uni h signal k x)"
    unfolding entry_explained_def by blast
  ultimately show ?thesis using assms(2) unfolding entry_explained_def
    by (intro exI [of _ "x # new"] exI [of _ now] exI [of _ token] exI [of _ old]) auto
qed

lemma callback_ok:
  assumes "validate_callback uni h now client p = Inr (k, who)"
  shows "accepted_confirmation uni client now p" "k = h (sp_token p)" "who = approver p"
proof -
  have secs: "\<not> 300 < num_seconds d \<longleftrightarrow> d < 301 * 10 ^ 9" for d
    by (auto simp: num_seconds_def)
  show "accepted_confirmation uni client now p" "k = h (sp_token p)" "who = approver p"
    using assms secs [of "now - sp_timestamp p"]
    by (auto simp: validate_callback_def accepted_confirmation_def Let_def split: if_splits)
qed

lemma confirm_ok:
  assumes "handle_signal_confirmation uni h now now' p m = (Inr (), m')"
  obtains client e where "mgr_signal m = Some client" "accepted_confirmation uni client now p"
    "map_of (tokens m) (h (sp_token p)) = Some e" "\<not> te_used e" "now' \<le> te_expires e"
    "m' = m\<lparr>tokens := AList.update (h (sp_token p))
       (e\<lparr>te_approved := True, approved_by := Some (approver p)\<rparr>) (tokens m)\<rparr>"
  using assms callback_ok
  by (fastforce simp: handle_signal_confirmation_def split: option.splits sum.splits if_splits)

lemma confirm_refused: "handle_signal_confirmation uni h now now' p m = (Inl e, m') \<Longrightarrow> m' = m"
  by (auto simp: handle_signal_confirmation_def split: option.splits sum.splits if_splits)

lemma consume_ok:
  assumes "validate_and_consume_token h now token target caller m = (Some aid, m')"
  obtains e where "map_of (tokens m) (h token) = Some e" "consumable now target caller e"
    "aid = req_id (te_request e)"
    "m' = m\<lparr>tokens := AList.update (h token) (e\<lparr>te_used := True\<rparr>) (tokens m)\<rparr>"
  using assms by (auto simp: validate_and_consume_token_def Let_def split: option.splits if_splits)

lemma consume_refused: "validate_and_consume_token h now token target caller m = (None, m') \<Longrightarrow> m' = m"
  by (auto simp: validate_and_consume_token_def Let_def split: option.splits if_splits)

lemma create_ok:
  assumes "create_approval h add_secs now token request m = Some (t, post, m')"
  obtains expires where "t = token" "add_secs now (mgr_ttl m) = Some expires"
    "m' = m\<lparr>tokens := AList.update (h token)
         \<lparr>te_request = request, te_hash = h token, te_expires = expires,
          te_used = False, te_approved = False, approved_by = None\<rparr> (tokens m),
       by_id := AList.update (req_id request) (h token) (by_id m)\<rparr>"
  using assms by (auto simp: create_approval_def token_audit_def Let_def split: option.splits)

lemma remove_expired_frame [simp]:
  "mgr_ttl (remove_expired ks m) = mgr_ttl m" "mgr_signal (remove_expired ks m) = mgr_signal m"
  by (induction ks m rule: remove_expired.induct) (auto split: option.splits)

lemma remove_expired_tokens:
  "map_of (tokens (remove_expired ks m)) k = (if k \<in> set ks then None else map_of (tokens m) k)"
  by (induction ks m rule: remove_expired.induct)
    (auto simp: delete_conv' split: option.splits)

lemma cleanup_tokens:
  "map_of (tokens (cleanup now m)) k = Some e \<Longrightarrow> map_of (tokens m) k = Some e"
  by (auto simp: cleanup_def remove_expired_tokens split: if_splits)

lemma mgr_step_explained:
  assumes inv: "mgr_explained h add_secs uni ttl signal evs m"
    and step: "mgr_step h add_secs uni m x m'"
  shows "mgr_explained h add_secs uni ttl signal (x # evs) m'"
proof -
  have old: "entry_explained h add_secs uni ttl signal evs k e" if "map_of (tokens m) k = Some e" for k e
    using inv that by (simp add: mgr_explained_def)
  have params: "mgr_ttl m = ttl" "mgr_signal m = signal" using inv by (simp_all add: mgr_explained_def)
  from step show ?thesis
  proof cases
    case (step_create now token request t post)
    then obtain expires where e: "add_secs now ttl = Some expires"
      "m' = m\<lparr>tokens := AList.update (h token)
         \<lparr>te_request = request, te_hash = h token, te_expires = expires,
          te_used = False, te_approved = False, approved_by = None\<rparr> (tokens m),
       by_id := AList.update (req_id request) (h token) (by_id m)\<rparr>"
      using params by (auto elim!: create_ok)
    have "entry_explained h add_secs uni ttl signal (x # evs) (h token)
      \<lparr>te_request = request, te_hash = h token, te_expires = expires,
       te_used = False, te_approved = False, approved_by = None\<rparr>"
      unfolding entry_explained_def using e(1) step_create(1)
      by (intro exI [of _ "[]"] exI [of _ now] exI [of _ token] exI [of _ evs]) simp
    moreover have "entry_explained h add_secs uni ttl signal (x # evs) k e'"
      if "map_of (tokens m) k = Some e'" "k \<noteq> h token" for k e'
      using entry_explained_other [OF old [OF that(1)], of x] that(2) step_create(1) by simp
    ultimately show ?thesis using e(2) params by (auto simp: mgr_explained_def update_conv')
  next
    case (step_confirm now now' p)
    from step_confirm(2) obtain client e where e: "mgr_signal m = Some client"
      "accepted_confirmation uni client now p" "map_of (tokens m) (h (sp_token p)) = Some e"
      "m' = m\<lparr>tokens := AList.update (h (sp_token p))
         (e\<lparr>te_approved := True, approved_by := Some (approver p)\<rparr>) (tokens m)\<rparr>"
      by (rule confirm_ok)
    have "confirms uni h signal (h (sp_token p)) x" using e(1,2) step_confirm(1) params by simp
    then have "entry_explained h add_secs uni ttl signal (x # evs) (h (sp_token p))
       (e\<lparr>te_approved := True, approved_by := Some (approver p)\<rparr>)"
      by (rule entry_explained_confirm [OF old [OF e(3)]])
    moreover have "entry_explained h add_secs uni ttl signal (x # evs) k e'"
      if "map_of (tokens m) k = Some e'" for k e'
      using entry_explained_other [OF old [OF that], of x] step_confirm(1) by simp
    ultimately show ?thesis using e(4) params by (auto simp: mgr_explained_def update_conv')
  next
    case (step_consume now token target caller aid)
    from step_consume(2) obtain e where e: "map_of (tokens m) (h token) = Some e"
      "m' = m\<lparr>tokens := AList.update (h token) (e\<lparr>te_used := True\<rparr>) (tokens m)\<rparr>"
      by (rule consume_ok)
    have "entry_explained h add_secs uni ttl signal (x # evs) (h token) (e\<lparr>te_used := True\<rparr>)"
      by (rule entry_explained_consume [OF old [OF e(1)]]) (simp add: step_consume(1))
    moreover have "entry_explained h add_secs uni ttl signal (x # evs) k e'"
      if "map_of (tokens m) k = Some e'" "k \<noteq> h token" for k e'
      using entry_explained_other [OF old [OF that(1)], of x] that(2) step_consume(1) by simp
    ultimately show ?thesis using e(2) params by (auto simp: mgr_explained_def update_conv')
  next
    case (step_cleanup now)
    have "entry_explained h add_secs uni ttl signal (x # evs) k e'"
      if "map_of (tokens m) k = Some e'" for k e'
      using entry_explained_other [OF old [OF that], of x] step_cleanup(1) by simp
    with step_cleanup(2) params show ?thesis
      by (auto simp: mgr_explained_def cleanup_def dest!: cleanup_tokens [unfolded cleanup_def])
  qed (use old params entry_explained_other [of h add_secs uni ttl signal evs _ _ Refused] in
      \<open>auto simp: mgr_explained_def dest!: confirm_refused consume_refused\<close>)
qed

interpretation approvals: explained_machine
    "mgr_step h add_secs uni" "mgr_explained h add_secs uni ttl signal"
  by unfold_locales (rule mgr_step_explained)

text \<open>What leaves an entry usable: events of other tokens, and cleaning before it expires.\<close>

fun quiet :: "(string \<Rightarrow> string) \<Rightarrow> string \<Rightarrow> int \<Rightarrow> approval_event \<Rightarrow> bool" where
  "quiet h k expires (Cleaned u) \<longleftrightarrow> u \<le> expires"
| "quiet h k expires x \<longleftrightarrow> \<not> creates h k x \<and> \<not> consumes h k x"

definition same_request :: "token_entry \<Rightarrow> token_entry \<Rightarrow> bool" where
  "same_request e e' \<longleftrightarrow> te_request e' = te_request e \<and> te_expires e' = te_expires e \<and>
     te_used e' = te_used e \<and> (te_approved e \<longrightarrow> te_approved e')"

lemma cleanup_keeps:
  "map_of (tokens m) k = Some e \<Longrightarrow> distinct (map fst (tokens m)) \<Longrightarrow> u \<le> te_expires e \<Longrightarrow>
   map_of (tokens (cleanup u m)) k = Some e"
  unfolding cleanup_def remove_expired_tokens by (fastforce dest: eq_key_imp_eq_value)

lemma remove_expired_distinct:
  "distinct (map fst (tokens m)) \<Longrightarrow> distinct (map fst (tokens (remove_expired ks m)))"
  by (induction ks m rule: remove_expired.induct) (auto simp: distinct_delete split: option.splits)

lemma step_keeps:
  assumes "mgr_step h add_secs uni m x m'" "distinct (map fst (tokens m))"
    and "map_of (tokens m) k = Some e" "quiet h k (te_expires e) x"
  shows "distinct (map fst (tokens m')) \<and> mgr_signal m' = mgr_signal m \<and>
    (\<exists>e'. map_of (tokens m') k = Some e' \<and> same_request e e')"
  using assms(1)
proof cases
  case (step_create now token request t post)
  with assms(2-4) show ?thesis
    by (auto elim!: create_ok simp: same_request_def update_conv' distinct_update)
next
  case (step_confirm now now' p)
  with assms(2-4) show ?thesis
    by (auto elim!: confirm_ok simp: same_request_def update_conv' distinct_update
        simp del: map_of_eq_Some_iff)
next
  case (step_consume now token target caller aid)
  with assms(2-4) show ?thesis
    by (auto elim!: consume_ok simp: same_request_def update_conv' distinct_update)
next
  case (step_cleanup u)
  with assms(2-4) cleanup_keeps [of m k e u] remove_expired_distinct show ?thesis
    by (auto simp: same_request_def cleanup_def)
qed (use assms(2-4) in \<open>auto simp: same_request_def dest: confirm_refused consume_refused\<close>)

lemma history_keeps:
  assumes "history (mgr_step h add_secs uni) m evs m'" "distinct (map fst (tokens m))"
    and "map_of (tokens m) k = Some e" "\<forall>x \<in> set evs. quiet h k (te_expires e) x"
  shows "distinct (map fst (tokens m')) \<and> mgr_signal m' = mgr_signal m \<and>
    (\<exists>e'. map_of (tokens m') k = Some e' \<and> same_request e e')"
  using assms
proof (induction rule: history.induct)
  case history_start
  then show ?case by (auto simp: same_request_def)
next
  case (history_step evs s x s')
  then obtain e' where e': "distinct (map fst (tokens s))" "mgr_signal s = mgr_signal m"
    "map_of (tokens s) k = Some e'" "same_request e e'" by auto
  with history_step.prems(3) have "quiet h k (te_expires e') x" by (simp add: same_request_def)
  from step_keeps [OF history_step.hyps(2) e'(1,3) this] e'(2,4) show ?case
    by (auto simp: same_request_def)
qed

text \<open>Where a consumption in a history comes from.\<close>

lemma consumed_explained:
  assumes "history (mgr_step h add_secs uni) m0
      (later @ Consumed now token target caller aid # earlier) m" "tokens m0 = []"
  shows "\<exists>since then' token' request before expires.
    earlier = since @ Created then' token' request # before \<and> h token' = h token \<and>
    (\<forall>x \<in> set since. \<not> creates h (h token) x \<and> \<not> consumes h (h token) x) \<and>
    (\<exists>x \<in> set since. confirms uni h (mgr_signal m0) (h token) x) \<and>
    req_caller request = caller \<and> req_target request = target \<and> req_id request = aid \<and>
    add_secs then' (mgr_ttl m0) = Some expires \<and> now \<le> expires"
proof -
  from assms(1) obtain m1 m2 where run: "history (mgr_step h add_secs uni) m0 earlier m1"
    and step: "mgr_step h add_secs uni m1 (Consumed now token target caller aid) m2"
    by (rule history_at)
  have "mgr_explained h add_secs uni (mgr_ttl m0) (mgr_signal m0) earlier m1"
    by (rule approvals.history_explains [OF run]) (simp add: mgr_explained_def assms(2))
  moreover from step obtain e where "map_of (tokens m1) (h token) = Some e"
    and ok: "consumable now target caller e" "aid = req_id (te_request e)"
    by (elim mgr_step_ConsumedE consume_ok) simp
  ultimately have "entry_explained h add_secs uni (mgr_ttl m0) (mgr_signal m0) earlier (h token) e"
    by (simp add: mgr_explained_def)
  moreover from ok(1) have "now \<le> te_expires e" "\<not> te_used e" "te_approved e"
    "req_target (te_request e) = target" "req_caller (te_request e) = caller"
    by (auto simp: consumable_def split: if_splits)
  ultimately show ?thesis using ok(2) unfolding entry_explained_def by blast
qed

section \<open>An example run\<close>

definition ex_add :: "int \<Rightarrow> int \<Rightarrow> int option" where
  "ex_add t n = Some (t + n * 10 ^ 9)"

definition ex_client :: signal_client where
  "ex_client = \<lparr>webhook_url = ''http://signal'', sc_approvers = [''+15555550001'']\<rparr>"

definition ex_request :: approval_request where
  "ex_request = \<lparr>req_id = ''id-1'', req_caller = ''librarian'', req_caller_uid = 1000,
     req_operation = ''zfs-destroy'', req_target = ''tank/media'', requested_at = 0,
     zeroclaw_request_id = None\<rparr>"

definition ex_payload :: signal_payload where
  "ex_payload = \<lparr>sp_token = ''tok-1'', confirmation_code = ''confirm'',
     approver = ''+15555550001'', sp_timestamp = 5\<rparr>"

definition ex_m0 :: approval_manager where
  "ex_m0 = new_approval_manager 300 (Some ex_client)"

definition ex_create :: "(string \<times> signal_post option \<times> approval_manager) option" where
  "ex_create = create_approval (\<lambda>t. t) ex_add 0 ''tok-1'' ex_request ex_m0"

definition ex_m1 :: approval_manager where
  "ex_m1 = snd (snd (the ex_create))"

definition ex_m2 :: approval_manager where
  "ex_m2 = snd (handle_signal_confirmation (\<lambda>s. s) (\<lambda>t. t) 10 11 ex_payload ex_m1)"

definition ex_m3 :: approval_manager where
  "ex_m3 = snd (validate_and_consume_token (\<lambda>t. t) 20 ''tok-1'' ''tank/media'' ''librarian'' ex_m2)"

lemma ex_ttl: "mgr_ttl ex_m0 = 300"
  by (simp add: ex_m0_def new_approval_manager_def sint_u64_def)

lemmas ex_data = ex_add_def ex_client_def ex_request_def ex_payload_def

lemma ex_step1:
  "create_approval (\<lambda>t. t) ex_add 0 ''tok-1'' ex_request ex_m0 =
     Some (''tok-1'', fst (snd (the ex_create)), ex_m1)"
  by (simp add: ex_create_def ex_m1_def create_approval_def ex_add_def Let_def)

lemma ex_m1: "tokens ex_m1 = [(''tok-1'', \<lparr>te_request = ex_request, te_hash = ''tok-1'',
    te_expires = 300 * 10 ^ 9, te_used = False, te_approved = False, approved_by = None\<rparr>)]"
  "mgr_signal ex_m1 = Some ex_client"
  by (simp_all add: ex_m1_def ex_create_def create_approval_def ex_add_def ex_ttl Let_def
      token_audit_def) (simp_all add: ex_m0_def new_approval_manager_def)

lemma ex_accepted: "accepted_confirmation (\<lambda>s. s) ex_client 10 ex_payload"
  by (simp add: accepted_confirmation_def ex_data to_uppercase_def is_ascii_def upper_byte_def
      ascii_lower_def less_eq_char_def char_of_def bit_0)

lemma ex_callback:
  "validate_callback (\<lambda>s. s) (\<lambda>t. t) 10 ex_client ex_payload = Inr (''tok-1'', ''+15555550001'')"
  using ex_accepted
  by (auto simp: validate_callback_def accepted_confirmation_def num_seconds_def ex_payload_def Let_def)

lemma ex_step2:
  "handle_signal_confirmation (\<lambda>s. s) (\<lambda>t. t) 10 11 ex_payload ex_m1 = (Inr (), ex_m2)"
  by (simp add: ex_m2_def handle_signal_confirmation_def ex_m1 ex_callback)

lemma ex_m2: "tokens ex_m2 = [(''tok-1'', \<lparr>te_request = ex_request, te_hash = ''tok-1'',
    te_expires = 300 * 10 ^ 9, te_used = False, te_approved = True,
    approved_by = Some ''+15555550001''\<rparr>)]"
  by (simp add: ex_m2_def handle_signal_confirmation_def ex_m1 ex_callback)

lemma ex_step3:
  "validate_and_consume_token (\<lambda>t. t) 20 ''tok-1'' ''tank/media'' ''librarian'' ex_m2 =
     (Some ''id-1'', ex_m3)"
  by (simp add: ex_m3_def validate_and_consume_token_def ex_m2 consumable_def ex_request_def Let_def)

lemma ex_history:
  "history (mgr_step (\<lambda>t. t) ex_add (\<lambda>s. s)) (new_approval_manager 300 (Some ex_client))
     ([] @ Consumed 20 ''tok-1'' ''tank/media'' ''librarian'' ''id-1'' #
       [Confirmed 10 11 ex_payload, Created 0 ''tok-1'' ex_request]) ex_m3"
proof -
  let ?step = "mgr_step (\<lambda>t. t) ex_add (\<lambda>s. s)"
  have "history ?step ex_m0 [Created 0 ''tok-1'' ex_request] ex_m1"
    by (rule history_step [OF history_start]) (rule step_create [OF ex_step1])
  then have "history ?step ex_m0 [Confirmed 10 11 ex_payload, Created 0 ''tok-1'' ex_request] ex_m2"
    by (rule history_step) (rule step_confirm [OF ex_step2])
  then have "history ?step ex_m0 (Consumed 20 ''tok-1'' ''tank/media'' ''librarian'' ''id-1'' #
      [Confirmed 10 11 ex_payload, Created 0 ''tok-1'' ex_request]) ex_m3"
    by (rule history_step) (rule step_consume [OF ex_step3])
  then show ?thesis by (simp add: ex_m0_def)
qed

section \<open>Properties\<close>

text \<open>
  C23: a token is worth one operation.  In any run of the manager, when a token is consumed for
  a target and a caller, the last request created under its hash was made by this caller for
  this target, is the one whose id is returned and has not expired; since that creation an
  allowed approver confirmed it with a valid code that was at most five minutes old, and
  nobody consumed it before.
\<close>

theorem approval_consumed_once:
  assumes "history (mgr_step h add_secs uni) (new_approval_manager ttl signal)
      (later @ Consumed now token target caller aid # earlier) m"
  shows "\<exists>since then' token' request before expires.
    earlier = since @ Created then' token' request # before \<and> h token' = h token \<and>
    (\<forall>x \<in> set since. \<not> creates h (h token) x \<and> \<not> consumes h (h token) x) \<and>
    (\<exists>x \<in> set since. confirms uni h signal (h token) x) \<and>
    req_caller request = caller \<and> req_target request = target \<and> req_id request = aid \<and>
    add_secs then' (sint_u64 ttl) = Some expires \<and> now \<le> expires"
  using consumed_explained [OF assms] by (simp add: new_approval_manager_def)

theorem approval_consumed_once_witness:
  "\<exists>since then' token' request before expires.
    [Confirmed 10 11 ex_payload, Created 0 ''tok-1'' ex_request] =
      since @ Created then' token' request # before \<and> token' = ''tok-1'' \<and>
    (\<forall>x \<in> set since. \<not> creates (\<lambda>t. t) ''tok-1'' x \<and> \<not> consumes (\<lambda>t. t) ''tok-1'' x) \<and>
    (\<exists>x \<in> set since. confirms (\<lambda>s. s) (\<lambda>t. t) (Some ex_client) ''tok-1'' x) \<and>
    req_caller request = ''librarian'' \<and> req_target request = ''tank/media'' \<and>
    req_id request = ''id-1'' \<and> ex_add then' (sint_u64 300) = Some expires \<and> 20 \<le> expires"
  by (rule approval_consumed_once [OF ex_history])

text \<open>
  C38: the protocol completes.  A request that is created, confirmed by an allowed approver
  before it expires and presented by its caller for its target before it expires is honoured,
  with whatever other tokens do in between; afterwards the token is refused to everybody.
\<close>

theorem approval_completes:
  assumes "distinct (map fst (tokens m))" "mgr_signal m = Some client"
    and "create_approval h add_secs t0 token request m = Some (reply, post, m1)"
    and "add_secs t0 (mgr_ttl m) = Some expires"
    and "history (mgr_step h add_secs uni) m1 evs m2" "\<forall>x \<in> set evs. quiet h (h token) expires x"
    and "accepted_confirmation uni client t1 p" "h (sp_token p) = h token" "t1' \<le> expires"
    and "handle_signal_confirmation uni h t1 t1' p m2 = (answer, m3)"
    and "history (mgr_step h add_secs uni) m3 evs' m4" "\<forall>x \<in> set evs'. quiet h (h token) expires x"
    and "t2 \<le> expires"
    and "validate_and_consume_token h t2 token (req_target request) (req_caller request) m4 = (verdict, m5)"
  shows "answer = Inr () \<and> verdict = Some (req_id request) \<and>
    validate_and_consume_token h t3 token target caller m5 = (None, m5)"
proof -
  let ?k = "h token"
  let ?e = "\<lparr>te_request = request, te_hash = ?k, te_expires = expires, te_used = False,
    te_approved = False, approved_by = None\<rparr>"
  have m1: "map_of (tokens m1) ?k = Some ?e" "distinct (map fst (tokens m1))" "mgr_signal m1 = Some client"
    using assms(1-4) by (auto elim!: create_ok simp: update_conv' distinct_update)
  obtain e2 where e2: "distinct (map fst (tokens m2))" "mgr_signal m2 = Some client"
    "map_of (tokens m2) ?k = Some e2" "same_request ?e e2"
    using history_keeps [OF assms(5) m1(2,1)] assms(6) m1(3) by auto
  have "validate_callback uni h t1 client p = Inr (?k, approver p)"
    using assms(7,8) by (auto simp: validate_callback_def accepted_confirmation_def num_seconds_def Let_def)
  with assms(10) e2 assms(9) have answer: "answer = Inr ()"
    and m3: "m3 = m2\<lparr>tokens := AList.update ?k
      (e2\<lparr>te_approved := True, approved_by := Some (approver p)\<rparr>) (tokens m2)\<rparr>"
    by (auto simp: handle_signal_confirmation_def same_request_def)
  let ?e3 = "e2\<lparr>te_approved := True, approved_by := Some (approver p)\<rparr>"
  have "map_of (tokens m3) ?k = Some ?e3" "distinct (map fst (tokens m3))"
    using m3 e2(1) by (simp_all add: update_conv' distinct_update)
  moreover have "\<forall>x \<in> set evs'. quiet h ?k (te_expires ?e3) x"
    using assms(12) e2(4) by (simp add: same_request_def)
  ultimately obtain e4 where e4: "map_of (tokens m4) ?k = Some e4" "same_request ?e3 e4"
    using history_keeps [OF assms(11), of ?k ?e3] by blast
  then have "consumable t2 (req_target request) (req_caller request) e4"
    using e2(4) assms(13) by (simp add: consumable_def same_request_def)
  with assms(14) e4 have "verdict = Some (req_id (te_request e4))"
    and m5: "m5 = m4\<lparr>tokens := AList.update ?k (e4\<lparr>te_used := True\<rparr>) (tokens m4)\<rparr>"
    by (auto simp: validate_and_consume_token_def Let_def)
  moreover have "req_id (te_request e4) = req_id request"
    using e4(2) e2(4) by (simp add: same_request_def)
  moreover have "validate_and_consume_token h t3 token target caller m5 = (None, m5)"
    using m5 by (simp add: validate_and_consume_token_def consumable_def update_conv')
  ultimately show ?thesis using answer by simp
qed

theorem approval_completes_witness:
  "validate_and_consume_token (\<lambda>t. t) 20 ''tok-1'' ''tank/media'' ''librarian'' ex_m2 =
     (Some ''id-1'', ex_m3) \<and>
   validate_and_consume_token (\<lambda>t. t) 30 ''tok-1'' ''tank/media'' ''librarian'' ex_m3 = (None, ex_m3)"
proof -
  have start: "distinct (map fst (tokens ex_m0))" "mgr_signal ex_m0 = Some ex_client"
    by (simp_all add: ex_m0_def new_approval_manager_def)
  have expires: "ex_add 0 (mgr_ttl ex_m0) = Some (300 * 10 ^ 9)"
    by (simp add: ex_ttl ex_add_def)
  have use: "validate_and_consume_token (\<lambda>t. t) 20 ''tok-1'' (req_target ex_request)
    (req_caller ex_request) ex_m2 = (Some ''id-1'', ex_m3)"
    using ex_step3 by (simp add: ex_request_def)
  have "validate_and_consume_token (\<lambda>t. t) 30 ''tok-1'' ''tank/media'' ''librarian'' ex_m3 = (None, ex_m3)"
    using approval_completes [OF start ex_step1 expires history_start _ ex_accepted _ _ ex_step2
        history_start _ _ use] by (simp add: ex_payload_def)
  with ex_step3 show ?thesis by simp
qed

end
