(* ===== verification/Host_World.thy ===== *)
theory Host_World
  imports Act Host_Rate_Limiter Host_Approval Json_Value
begin

text \<open>
  What the handlers of the host agent share: the errors (\<open>crates/host-agent/src/error.rs\<close>), the
  state kept between requests (limiter, approval manager, counters), the trace of what is done
  to the outside (audit lines, processes, files, Signal messages), and the outside itself.

  The outside is a record of functions of a step number that grows with every use, so each
  clock reading, random value, audit write and process run is arbitrary and independent.
\<close>

section \<open>Errors\<close>

datatype zfs_error =
    Execution string
  | PermissionDenied string
  | DatasetNotFound string
  | DatasetBusy string
  | InvalidOperation string

datatype app_error =
    InvalidDataset string
  | InvalidSnapshotName string
  | ZfsErr zfs_error
  | InvalidTokenErr
  | ApprovalErr approval_error
  | AuditErr string
  | PolicyDenied string
  | RateLimited nat
  | Internal string

fun zfs_error_text :: "zfs_error \<Rightarrow> string" where
  "zfs_error_text (Execution m) = ''Command execution failed: '' @ m"
| "zfs_error_text (PermissionDenied m) = ''Permission denied: '' @ m"
| "zfs_error_text (DatasetNotFound m) = ''Dataset not found: '' @ m"
| "zfs_error_text (DatasetBusy m) = ''Dataset is busy: '' @ m"
| "zfs_error_text (InvalidOperation m) = ''Invalid operation: '' @ m"

fun approval_error_text :: "approval_error \<Rightarrow> string" where
  "approval_error_text (NotFound m) = ''Approval request not found: '' @ m"
| "approval_error_text (Expired m) = ''Token expired: '' @ m"
| "approval_error_text InvalidToken = ''Invalid token for approval''"
| "approval_error_text AlreadyUsed = ''Approval already used''"

text \<open>The dash in the rate-limit text is the three bytes of U+2014.\<close>

fun app_error_text :: "app_error \<Rightarrow> string" where
  "app_error_text (InvalidDataset m) = ''Invalid dataset name: '' @ m"
| "app_error_text (InvalidSnapshotName m) = ''Invalid snapshot name: '' @ m"
| "app_error_text (ZfsErr e) = ''ZFS operation failed: '' @ zfs_error_text e"
| "app_error_text InvalidTokenErr = ''Invalid approval token''"
| "app_error_text (ApprovalErr e) = ''Approval error: '' @ approval_error_text e"
| "app_error_text (AuditErr m) = ''Audit log error: '' @ m"
| "app_error_text (PolicyDenied m) = ''Policy denied: '' @ m"
| "app_error_text (RateLimited n) =
     ''Rate limit exceeded '' @ [CHR 0xE2, CHR 0x80, CHR 0x94] @ '' retry after '' @ show_nat n @ ''s''"
| "app_error_text (Internal m) = ''Internal error: '' @ m"

fun app_error_status :: "app_error \<Rightarrow> nat" where
  "app_error_status (InvalidDataset _) = 400"
| "app_error_status (InvalidSnapshotName _) = 400"
| "app_error_status (ZfsErr e) =
     (case e of PermissionDenied _ \<Rightarrow> 403 | DatasetNotFound _ \<Rightarrow> 404 | DatasetBusy _ \<Rightarrow> 409 | _ \<Rightarrow> 500)"
| "app_error_status InvalidTokenErr = 401"
| "app_error_status (ApprovalErr e) =
     (case e of NotFound _ \<Rightarrow> 404 | Expired _ \<Rightarrow> 410 | AlreadyUsed \<Rightarrow> 409 | _ \<Rightarrow> 400)"
| "app_error_status (AuditErr _) = 500"
| "app_error_status (PolicyDenied _) = 403"
| "app_error_status (RateLimited _) = 429"
| "app_error_status (Internal _) = 500"

definition into_response :: "app_error \<Rightarrow> nat \<times> json" where
  "into_response e =
     (app_error_status e, JObj [(''error'', JStr (app_error_text e)), (''success'', JBool False)])"

text \<open>How a request ends early: with an error response, or with a panic of its task.\<close>

datatype failure = Failed app_error | Panicked

section \<open>The outside\<close>

record process_output =
  po_success :: bool
  po_code :: "int option"
  po_stdout :: string
  po_stderr :: string

text \<open>A command: program, working directory, arguments.\<close>

record command =
  cmd_program :: string
  cmd_dir :: "string option"
  cmd_args :: "string list"

record host_world =
  w_clock :: "nat \<Rightarrow> int"
  w_instant :: "nat \<Rightarrow> nat"
  w_uuid :: "nat \<Rightarrow> string"
  w_token :: "nat \<Rightarrow> string"
  w_config :: "nat \<Rightarrow> host_config"
  w_audit_error :: "nat \<Rightarrow> string option"
  w_process :: "nat \<Rightarrow> command \<Rightarrow> string + process_output"
  w_file_error :: "nat \<Rightarrow> string \<Rightarrow> string option"
  w_is_dir :: "nat \<Rightarrow> string \<Rightarrow> bool"
  w_plugin :: "nat \<Rightarrow> string \<Rightarrow> json \<Rightarrow> string + process_output"
  w_http_plugin :: "nat \<Rightarrow> string \<Rightarrow> json \<Rightarrow> string + bool \<times> (string + bool)"
  w_agents :: "agent_config list"
  w_sha256 :: "string \<Rightarrow> string"
  w_add_secs :: "int \<Rightarrow> int \<Rightarrow> int option"
  w_upper :: "string \<Rightarrow> string"
  w_lower :: "string \<Rightarrow> string"
  w_regex :: "string \<Rightarrow> (string \<Rightarrow> bool) option"
  w_lossy :: "string \<Rightarrow> string"
  w_rfc3339 :: "string \<Rightarrow> int option"
  w_rfc3339_text :: "int \<Rightarrow> string"
  w_plugin_parse :: "string \<Rightarrow> bool option"
  w_json_pretty :: "json \<Rightarrow> string"

section \<open>State and trace\<close>

record audit_event =
  ae_timestamp :: int
  audit_id :: string
  ae_caller :: string
  ae_caller_uid :: u32
  ae_operation :: string
  ae_target :: string
  ae_approval_id :: "string option"
  ae_result :: string
  ae_details :: "string option"
  ae_token_hash :: "string option"

datatype metric =
    Requests
  | ZfsOperations string
  | ApprovalsCreated
  | ApprovalsGranted
  | PolicyDenials
  | RateLimitedTotal

text \<open>What is done to the outside and to the manager, the latest first.\<close>

datatype effect =
    Audited audit_event
  | Ran command
  | WroteFile string string
  | Posted signal_post
  | Managed approval_event
  | Counted metric

record host_state =
  hs_limiter :: rate_limiter
  hs_approvals :: approval_manager
  hs_trace :: "effect list"
  hs_tick :: nat

type_synonym 'a handler = "(host_state, failure, 'a) act"

record client_identity =
  cn :: string
  uid :: u32
  username :: string
  fingerprint :: string

section \<open>Primitive actions\<close>

definition h_fail :: "app_error \<Rightarrow> 'a handler" where
  "h_fail e = act_fail (Failed e)"

definition draw :: "(nat \<Rightarrow> 'a) \<Rightarrow> (host_state, 'e, 'a) act" where
  "draw f = (\<lambda>s. (Inr (f (hs_tick s)), s\<lparr>hs_tick := Suc (hs_tick s)\<rparr>))"

definition emit :: "effect \<Rightarrow> (host_state, 'e, unit) act" where
  "emit x = act_modify (\<lambda>s. s\<lparr>hs_trace := x # hs_trace s\<rparr>)"

definition count_metric :: "metric \<Rightarrow> (host_state, 'e, unit) act" where
  "count_metric m = emit (Counted m)"

text \<open>\<open>audit.log(event)?\<close>: the line is in the trace only when it was written.\<close>

definition audit_log :: "host_world \<Rightarrow> audit_event \<Rightarrow> unit handler" where
  "audit_log w ev =
     act_bind (draw (w_audit_error w)) (\<lambda>failure.
       case failure of
         Some m \<Rightarrow> h_fail (AuditErr m)
       | None \<Rightarrow> emit (Audited ev))"

text \<open>The audit line of a handler, with the clock read for it.\<close>

definition audit_line ::
  "host_world \<Rightarrow> client_identity \<Rightarrow> string \<Rightarrow> string \<Rightarrow> string \<Rightarrow> string option \<Rightarrow> string \<Rightarrow>
   string option \<Rightarrow> string option \<Rightarrow> unit handler" where
  "audit_line w who aid op target approved res details hash =
     act_bind (draw (w_clock w)) (\<lambda>now.
       audit_log w
         \<lparr>ae_timestamp = now, audit_id = aid, ae_caller = cn who, ae_caller_uid = uid who,
          ae_operation = op, ae_target = target, ae_approval_id = approved, ae_result = res,
          ae_details = details, ae_token_hash = hash\<rparr>)"

text \<open>A process that is spawned: the error is the text of the spawn failure.\<close>

definition spawn :: "host_world \<Rightarrow> command \<Rightarrow> (host_state, string, process_output) act" where
  "spawn w c =
     act_bind (draw (\<lambda>n. w_process w n c)) (\<lambda>r. act_then (emit (Ran c)) (act_lift r))"

text \<open>The first statement of the rate-limited handlers.\<close>

definition check_rate :: "host_world \<Rightarrow> client_identity \<Rightarrow> unit handler" where
  "check_rate w who =
     act_bind (draw (w_instant w)) (\<lambda>now s.
       case rate_check (hs_limiter s) now (cn who) of
         (Inr _, lim) \<Rightarrow> (Inr (), s\<lparr>hs_limiter := lim\<rparr>)
       | (Inl secs, lim) \<Rightarrow>
           act_then (count_metric RateLimitedTotal) (h_fail (RateLimited secs))
             (s\<lparr>hs_limiter := lim\<rparr>))"

text \<open>
  The operations of the approval manager on the state of the agent.
\<close>

definition do_create_approval ::
  "host_world \<Rightarrow> approval_request \<Rightarrow> string handler" where
  "do_create_approval w req =
     act_bind (draw (w_token w)) (\<lambda>token. act_bind (draw (w_clock w)) (\<lambda>now s.
       case create_approval (w_sha256 w) (w_add_secs w) now token req (hs_approvals s) of
         None \<Rightarrow> (Inl Panicked, s)
       | Some (reply, post, mgr) \<Rightarrow>
           (Inr reply,
            s\<lparr>hs_approvals := mgr,
              hs_trace := (case post of None \<Rightarrow> [] | Some p \<Rightarrow> [Posted p]) @
                          Managed (Created now token req) # hs_trace s\<rparr>)))"

definition do_consume_token ::
  "host_world \<Rightarrow> string \<Rightarrow> string \<Rightarrow> string \<Rightarrow> (host_state, 'e, string option) act" where
  "do_consume_token w token target caller =
     act_bind (draw (w_clock w)) (\<lambda>now s.
       case validate_and_consume_token (w_sha256 w) now token target caller (hs_approvals s) of
         (None, mgr) \<Rightarrow> (Inr None, s\<lparr>hs_approvals := mgr, hs_trace := Managed Refused # hs_trace s\<rparr>)
       | (Some aid, mgr) \<Rightarrow>
           (Inr (Some aid),
            s\<lparr>hs_approvals := mgr,
              hs_trace := Managed (Consumed now token target caller aid) # hs_trace s\<rparr>))"

definition do_confirm :: "host_world \<Rightarrow> signal_payload \<Rightarrow> unit handler" where
  "do_confirm w payload =
     act_bind (draw (w_clock w)) (\<lambda>now. act_bind (draw (w_clock w)) (\<lambda>now' s.
       case handle_signal_confirmation (w_upper w) (w_sha256 w) now now' payload (hs_approvals s) of
         (Inl e, mgr) \<Rightarrow>
           (Inl (Failed (ApprovalErr e)), s\<lparr>hs_approvals := mgr, hs_trace := Managed Refused # hs_trace s\<rparr>)
       | (Inr _, mgr) \<Rightarrow>
           (Inr (), s\<lparr>hs_approvals := mgr,
                      hs_trace := Managed (Confirmed now now' payload) # hs_trace s\<rparr>)))"

end
