(* ===== verification/Host_Adapters.thy ===== *)
theory Host_Adapters
  imports Host_World
begin

text \<open>
  What the host agent can run: the ZFS executor (\<open>crates/host-agent/src/zfs/mod.rs\<close>) and the
  adapters behind \<open>/host/op\<close> (\<open>adapters/mod.rs\<close>, \<open>zfs.rs\<close>, \<open>systemd.rs\<close>, \<open>pct.rs\<close>,
  \<open>git.rs\<close>, \<open>exec.rs\<close>), each with its validation and the exact command it spawns.
\<close>

section \<open>The ZFS executor\<close>

datatype zfs_op = OpSnapshot | OpDestroy | OpRollback

record zfs_entry =
  ze_name :: string
  ze_kind :: string
  ze_used :: "string option"
  ze_available :: "string option"
  ze_refer :: "string option"
  ze_mountpoint :: "string option"

definition parse_zfs_error :: "(string \<Rightarrow> string) \<Rightarrow> string \<Rightarrow> zfs_error" where
  "parse_zfs_error uni stderr =
     (let lower = to_lowercase uni stderr in
      if str_contains ''permission denied'' lower \<or> str_contains ''cannot open'' lower
      then PermissionDenied stderr
      else if str_contains ''no such'' lower \<or> str_contains ''does not exist'' lower
      then DatasetNotFound stderr
      else if str_contains ''cannot destroy'' lower then InvalidOperation stderr
      else if str_contains ''dataset is busy'' lower then DatasetBusy stderr
      else Execution stderr)"

definition zfs_line :: "string \<Rightarrow> zfs_entry option" where
  "zfs_line line =
     (case split_char (CHR 0x09) line of
        n # k # u # a # r # m # _ \<Rightarrow>
          Some \<lparr>ze_name = n, ze_kind = k, ze_used = Some u, ze_available = Some a,
                ze_refer = Some r, ze_mountpoint = Some m\<rparr>
      | _ \<Rightarrow> None)"

definition parse_zfs_list :: "string \<Rightarrow> zfs_entry list" where
  "parse_zfs_list output = List.map_filter zfs_line (str_lines output)"

text \<open>Run a \<open>zfs\<close> command and read its outcome; \<open>prog\<close> names the program in the spawn error.\<close>

definition zfs_outcome ::
  "host_world \<Rightarrow> string \<Rightarrow> command \<Rightarrow> (host_state, zfs_error, string) act" where
  "zfs_outcome w prog c =
     act_bind (map_err (\<lambda>e. Execution (''Failed to spawn '' @ prog @ '': '' @ e)) (spawn w c)) (\<lambda>out.
       if po_success out then act_return (w_lossy w (po_stdout out))
       else act_fail (parse_zfs_error (w_lower w) (w_lossy w (po_stderr out))))"

definition run_zfs :: "host_world \<Rightarrow> string list \<Rightarrow> (host_state, zfs_error, string) act" where
  "run_zfs w args =
     zfs_outcome w ''zfs'' \<lparr>cmd_program = ''zfs'', cmd_dir = None, cmd_args = args\<rparr>"

definition run_as_user ::
  "host_world \<Rightarrow> string \<Rightarrow> string list \<Rightarrow> client_identity \<Rightarrow> (host_state, zfs_error, string) act" where
  "run_as_user w cmd args who =
     zfs_outcome w ''sudo''
       \<lparr>cmd_program = ''sudo'', cmd_dir = None, cmd_args = [''-u'', username who, cmd] @ args\<rparr>"

definition run_with_sudo_as_user ::
  "host_world \<Rightarrow> string \<Rightarrow> string list \<Rightarrow> client_identity \<Rightarrow> (host_state, zfs_error, string) act" where
  "run_with_sudo_as_user w cmd args who =
     zfs_outcome w ''sudo''
       \<lparr>cmd_program = ''sudo'', cmd_dir = None, cmd_args = [''-u'', username who, cmd] @ args\<rparr>"

definition zfs_execute ::
  "host_world \<Rightarrow> string \<Rightarrow> zfs_op \<Rightarrow> client_identity \<Rightarrow> (host_state, zfs_error, string) act" where
  "zfs_execute w target op who =
     (case op of
        OpSnapshot \<Rightarrow> run_as_user w ''zfs'' [''snapshot'', target] who
      | OpDestroy \<Rightarrow> run_with_sudo_as_user w ''zfs'' [''destroy'', target] who
      | OpRollback \<Rightarrow> run_with_sudo_as_user w ''zfs'' [''rollback'', target] who)"

definition zfs_exec_list ::
  "host_world \<Rightarrow> string option \<Rightarrow> string option \<Rightarrow> (host_state, zfs_error, zfs_entry list) act" where
  "zfs_exec_list w dataset list_type =
     (let args = [''list'', ''-H'', ''-o'', ''name,type,used,available,refer,mountpoint''] @
                 (case list_type of Some t \<Rightarrow> [''-t'', t] | None \<Rightarrow> []) @
                 (case dataset of Some d \<Rightarrow> [d] | None \<Rightarrow> []) in
      act_bind (run_zfs w args) (\<lambda>output. act_return (parse_zfs_list output)))"

definition zfs_get_property ::
  "host_world \<Rightarrow> string \<Rightarrow> string \<Rightarrow> (host_state, zfs_error, string) act" where
  "zfs_get_property w dataset property =
     act_bind (run_zfs w [''get'', ''-H'', ''-o'', ''value'', property, dataset]) (\<lambda>output.
       act_return (trim output))"

section \<open>Operations, decisions and results\<close>

record host_op =
  op_kind :: string
  op_resource :: "string option"
  op_args :: "string list"
  op_metadata :: "(string \<times> json) list"

definition op_command :: "host_op \<Rightarrow> string option" where
  "op_command op = (case op_args op of [] \<Rightarrow> None | c # _ \<Rightarrow> Some c)"

definition op_approval_token :: "host_op \<Rightarrow> string option" where
  "op_approval_token op =
     (case map_of (op_metadata op) ''approval_token'' of None \<Rightarrow> None | Some v \<Rightarrow> as_str v)"

definition arg1 :: "host_op \<Rightarrow> string option" where
  "arg1 op = (case op_args op of _ # a # _ \<Rightarrow> Some a | _ \<Rightarrow> None)"

datatype policy_decision =
    Allow
  | RequiresApproval string
  | Deny string

record execution_result =
  ex_output :: string
  ex_exit_code :: int
  ex_metadata :: "(string \<times> json) list"

definition exec_ok :: "string \<Rightarrow> execution_result" where
  "exec_ok output = \<lparr>ex_output = output, ex_exit_code = 0, ex_metadata = []\<rparr>"

definition with_meta :: "string \<Rightarrow> json \<Rightarrow> execution_result \<Rightarrow> execution_result" where
  "with_meta k v r = r\<lparr>ex_metadata := (k, v) # filter (\<lambda>(k', _). k' \<noteq> k) (ex_metadata r)\<rparr>"

definition resource_or_empty :: "host_op \<Rightarrow> string" where
  "resource_or_empty op = (case op_resource op of Some r \<Rightarrow> r | None \<Rightarrow> [])"

text \<open>\<open>op.command().ok_or_else(...)?\<close> and \<open>op.resource.as_deref().ok_or_else(...)?\<close>.\<close>

definition need :: "app_error \<Rightarrow> 'a option \<Rightarrow> 'a handler" where
  "need e x = (case x of Some y \<Rightarrow> act_return y | None \<Rightarrow> h_fail e)"

section \<open>ZFS\<close>

definition quoted :: "string \<Rightarrow> string" where
  "quoted s = [CHR 0x27] @ s @ [CHR 0x27]"

definition zfs_resource_ok :: "host_op \<Rightarrow> bool" where
  "zfs_resource_ok op =
     (case op_resource op of
        None \<Rightarrow> True
      | Some r \<Rightarrow> if str_contains ''@'' r then is_valid_dataset_or_snapshot r
                  else is_valid_dataset_name r)"

definition zfs_validate :: "host_world \<Rightarrow> host_op \<Rightarrow> policy_decision handler" where
  "zfs_validate w op =
     act_bind (need (InvalidDataset ''args[0] (command) is required'') (op_command op)) (\<lambda>command.
     if command \<notin> {''list'', ''snapshot'', ''destroy'', ''get'', ''rollback''}
     then act_return (Deny (''ZfsAdapter: unsupported command '' @ quoted command))
     else if \<not> zfs_resource_ok op
     then act_return (Deny (''ZfsAdapter: invalid dataset/snapshot name '' @ quoted (resource_or_empty op)))
     else if command = ''snapshot'' \<and> arg1 op = None
     then act_return (Deny ''ZfsAdapter: snapshot requires args[1] = snapname'')
     else if command = ''snapshot'' \<and> \<not> is_valid_snapshot_name (the (arg1 op))
     then act_return (Deny (''ZfsAdapter: invalid snapshot name '' @ quoted (the (arg1 op))))
     else act_bind (draw (w_config w)) (\<lambda>config.
       let operation_key = ''zfs-'' @ command; target = resource_or_empty op;
           agent = find_agent config (case resolve_cn_placeholder (w_agents w) of Some c \<Rightarrow> c | None \<Rightarrow> []) in
       if requires_approval_for_agent (w_regex w) config operation_key target agent
       then act_return (RequiresApproval (case op_approval_token op of
              Some _ \<Rightarrow> ''token provided '' @ [CHR 0xE2, CHR 0x80, CHR 0x94] @ '' will attempt to consume''
            | None \<Rightarrow> ''send CONFIRM <token> to approve; operation: '' @ operation_key @ ''/'' @ target))
       else act_return Allow))"

definition entry_json :: "zfs_entry \<Rightarrow> json" where
  "entry_json e =
     (let opt = (\<lambda>x. case x of None \<Rightarrow> JNull | Some s \<Rightarrow> JStr s) in
      JObj [(''available'', opt (ze_available e)), (''mountpoint'', opt (ze_mountpoint e)),
            (''name'', JStr (ze_name e)), (''refer'', opt (ze_refer e)), (''type'', JStr (ze_kind e)),
            (''used'', opt (ze_used e))])"

definition lift_zfs :: "(host_state, zfs_error, 'a) act \<Rightarrow> 'a handler" where
  "lift_zfs m = map_err (\<lambda>e. Failed (ZfsErr e)) m"

definition zfs_adapter_execute ::
  "host_world \<Rightarrow> client_identity \<Rightarrow> host_op \<Rightarrow> execution_result handler" where
  "zfs_adapter_execute w who op =
     (let command = (case op_command op of Some c \<Rightarrow> c | None \<Rightarrow> ''list'');
          res = resource_or_empty op in
      if command = ''list'' then
        act_bind (lift_zfs (zfs_exec_list w (op_resource op) (arg1 op))) (\<lambda>entries.
          act_return (with_meta ''entries'' (JArr (map entry_json entries))
            (exec_ok (show_nat (length entries) @ '' entries''))))
      else if command = ''snapshot'' then
        (let snapshot = res @ ''@'' @ (case arg1 op of Some s \<Rightarrow> s | None \<Rightarrow> []) in
         act_bind (lift_zfs (zfs_execute w snapshot OpSnapshot who)) (\<lambda>output.
           act_return (with_meta ''snapshot'' (JStr snapshot) (exec_ok output))))
      else if command = ''destroy'' then
        (if res = [] then h_fail (InvalidDataset ''resource is required for destroy'')
         else act_bind (lift_zfs (zfs_execute w res OpDestroy who)) (\<lambda>output.
           act_return (with_meta ''destroyed'' (JStr res) (exec_ok output))))
      else if command = ''get'' then
        (let property = (case arg1 op of Some p \<Rightarrow> p | None \<Rightarrow> ''all'') in
         act_bind (lift_zfs (zfs_get_property w res property)) (\<lambda>value.
           act_return (with_meta ''value'' (JStr value)
             (with_meta ''property'' (JStr property) (exec_ok value)))))
      else if command = ''rollback'' then
        act_bind (lift_zfs (zfs_execute w res OpRollback who)) (\<lambda>output. act_return (exec_ok output))
      else h_fail (Internal (''ZfsAdapter: reached execute for unsupported command '' @ quoted command)))"

section \<open>Services\<close>

definition systemd_validate :: "host_world \<Rightarrow> host_op \<Rightarrow> policy_decision handler" where
  "systemd_validate w op =
     act_bind (need (Internal ''systemd: args[0] (command) is required'') (op_command op)) (\<lambda>command.
     if command \<notin> {''status'', ''start'', ''stop'', ''restart''}
     then act_return (Deny (''SystemdAdapter: unsupported command '' @ quoted command))
     else act_bind (need (Internal ''systemd: resource (service name) is required'') (op_resource op))
       (\<lambda>service.
     if \<not> is_valid_service_name service
     then act_return (Deny (''SystemdAdapter: invalid service name '' @ quoted service @
            '' (must match safe regex)''))
     else act_bind (draw (w_config w)) (\<lambda>config.
       case find_rule config (''systemd-'' @ command) of
         None \<Rightarrow> act_return Allow
       | Some rule \<Rightarrow>
           if \<not> approval_required rule then act_return Allow
           else if always_ask rule
           then act_return (RequiresApproval (''systemd-'' @ command @ ''/'' @ service @
                  '' always requires approval (always_ask=true)''))
           else (case pattern rule of
               None \<Rightarrow> act_return Allow
             | Some p \<Rightarrow>
                 (case w_regex w p of
                    None \<Rightarrow> act_return Allow
                  | Some is_match \<Rightarrow>
                      if is_match service
                      then act_return (RequiresApproval (''systemd-'' @ command @ ''/'' @ service @
                             '' matches approval pattern''))
                      else act_return Allow)))))"

text \<open>Spawn a program as \<open>label\<close> and return the process or the spawn error.\<close>

definition spawn_or :: "host_world \<Rightarrow> string \<Rightarrow> command \<Rightarrow> process_output handler" where
  "spawn_or w label c =
     map_err (\<lambda>e. Failed (Internal (''Failed to spawn '' @ label @ '': '' @ e))) (spawn w c)"

definition run_systemctl :: "host_world \<Rightarrow> string \<Rightarrow> string \<Rightarrow> string handler" where
  "run_systemctl w command service =
     act_bind (spawn_or w ''systemctl''
       \<lparr>cmd_program = ''sudo'', cmd_dir = None, cmd_args = [''/usr/bin/systemctl'', command, service]\<rparr>) (\<lambda>out.
     let stdout = w_lossy w (po_stdout out); stderr = w_lossy w (po_stderr out) in
     if po_success out then act_return stdout
     else if command = ''status'' then act_return (stdout @ stderr)
     else h_fail (Internal (''systemctl '' @ command @ '' '' @ service @ '' failed: '' @ stderr)))"

definition systemd_execute :: "host_world \<Rightarrow> host_op \<Rightarrow> execution_result handler" where
  "systemd_execute w op =
     (let command = (case op_command op of Some c \<Rightarrow> c | None \<Rightarrow> ''status'') in
      act_bind (need (Internal ''systemd: resource is required'') (op_resource op)) (\<lambda>service.
      act_bind (run_systemctl w command service) (\<lambda>output. act_return (exec_ok output))))"

section \<open>Containers\<close>

definition vmid_range :: string where
  "vmid_range = ''100'' @ [CHR 0xE2, CHR 0x80, CHR 0x93] @ ''999999''"

definition pct_validate :: "host_world \<Rightarrow> host_op \<Rightarrow> policy_decision handler" where
  "pct_validate w op =
     act_bind (need (Internal ''pct: args[0] (command) is required'') (op_command op)) (\<lambda>command.
     if command \<notin> {''status'', ''start'', ''stop'', ''destroy''}
     then act_return (Deny (''PctAdapter: unsupported command '' @ quoted command))
     else act_bind (need (Internal ''pct: resource (vmid) is required'') (op_resource op)) (\<lambda>vmid.
     if \<not> is_valid_vmid vmid
     then act_return (Deny (''PctAdapter: invalid vmid '' @ quoted vmid @ '' (must be numeric '' @
            vmid_range @ '')''))
     else act_bind (draw (w_config w)) (\<lambda>config.
       if command = ''destroy''
       then act_return (RequiresApproval (''pct destroy/'' @ vmid @
              '' is destructive and always requires approval''))
       else
         (let rule = find_rule config (''pct-'' @ command) in
          if (case rule of None \<Rightarrow> False | Some r \<Rightarrow> approval_required r \<or> always_ask r)
          then act_return (RequiresApproval (''pct-'' @ command @ ''/'' @ vmid @
                 '' requires approval per policy''))
          else if command \<in> {''start'', ''stop''} \<and> rule = None
          then act_return (RequiresApproval (''pct-'' @ command @ ''/'' @ vmid @
                 '' requires approval (no explicit allow rule found)''))
          else act_return Allow))))"

text \<open>\<open>{:?}\<close> of the exit code.\<close>

definition show_code :: "int option \<Rightarrow> string" where
  "show_code c = (case c of None \<Rightarrow> ''None''
     | Some n \<Rightarrow> ''Some('' @ (if n < 0 then ''-'' @ show_nat (nat (- n)) else show_nat (nat n)) @ '')'')"

definition run_pct :: "host_world \<Rightarrow> string \<Rightarrow> string \<Rightarrow> string handler" where
  "run_pct w command vmid =
     act_bind (spawn_or w ''pct''
       \<lparr>cmd_program = ''sudo'', cmd_dir = None, cmd_args = [''/usr/sbin/pct'', command, vmid]\<rparr>) (\<lambda>out.
     if po_success out then act_return (w_lossy w (po_stdout out))
     else h_fail (Internal (''pct '' @ command @ '' '' @ vmid @ '' failed (exit '' @
            show_code (po_code out) @ ''): '' @ w_lossy w (po_stderr out))))"

definition pct_execute :: "host_world \<Rightarrow> host_op \<Rightarrow> execution_result handler" where
  "pct_execute w op =
     (let command = (case op_command op of Some c \<Rightarrow> c | None \<Rightarrow> ''status'') in
      act_bind (need (Internal ''pct: resource (vmid) is required'') (op_resource op)) (\<lambda>vmid.
      act_bind (run_pct w command vmid) (\<lambda>output. act_return (exec_ok output))))"

section \<open>Git\<close>

text \<open>\<open>Path::is_absolute\<close>, no \<open>..\<close> among the components, and the directory test.\<close>

definition repo_path_shape :: "string \<Rightarrow> bool" where
  "repo_path_shape path \<longleftrightarrow> prefix ''/'' path \<and> ''..'' \<notin> set (split_char CHR ''/'' path)"

definition is_valid_repo_path :: "host_world \<Rightarrow> string \<Rightarrow> bool handler" where
  "is_valid_repo_path w path =
     (if \<not> repo_path_shape path then act_return False else draw (\<lambda>n. w_is_dir w n path))"

definition repo_allowed :: "host_config \<Rightarrow> string \<Rightarrow> bool" where
  "repo_allowed config path =
     (case git config of
        None \<Rightarrow> True
      | Some g \<Rightarrow> allowed_repos g = [] \<or> list_ex (\<lambda>allowed. prefix allowed path) (allowed_repos g))"

definition git_validate :: "host_world \<Rightarrow> host_op \<Rightarrow> policy_decision handler" where
  "git_validate w op =
     act_bind (need (Internal ''git: args[0] (command) is required'') (op_command op)) (\<lambda>command.
     if command \<notin> {''status'', ''fetch'', ''pull'', ''checkout'', ''log''}
     then act_return (Deny (''GitAdapter: unsupported command '' @ quoted command))
     else act_bind (need (Internal ''git: resource (repo path) is required'') (op_resource op)) (\<lambda>path.
     act_bind (is_valid_repo_path w path) (\<lambda>valid.
     if \<not> valid
     then act_return (Deny (''GitAdapter: invalid or non-existent repo path '' @ quoted path @
            '' (must be absolute, no '' @ quoted ''..'' @ '', must exist)''))
     else act_bind (draw (w_config w)) (\<lambda>config.
       let branch = (case arg1 op of Some b \<Rightarrow> b | None \<Rightarrow> []) in
       if \<not> repo_allowed config path
       then act_return (Deny (''GitAdapter: repo path '' @ quoted path @ '' not in allowed_repos list''))
       else if command = ''checkout'' \<and> (branch = [] \<or> \<not> is_valid_branch_name branch)
       then act_return (Deny (''GitAdapter: invalid branch name '' @ quoted branch @ '' for checkout''))
       else (case find_rule config (''git-'' @ command) of
           None \<Rightarrow> act_return Allow
         | Some rule \<Rightarrow>
             if approval_required rule \<or> always_ask rule
             then act_return (RequiresApproval (''git-'' @ command @ ''/'' @ path @
                    '' requires approval per policy''))
             else act_return Allow)))))"

definition git_args :: "string \<Rightarrow> host_op \<Rightarrow> string list" where
  "git_args command op =
     command #
     (if command = ''checkout'' then (case arg1 op of Some b \<Rightarrow> [b] | None \<Rightarrow> [])
      else if command = ''fetch'' then [''origin'']
      else if command = ''log'' then [''--oneline'', ''-10'']
      else [])"

definition run_git :: "host_world \<Rightarrow> string \<Rightarrow> string \<Rightarrow> host_op \<Rightarrow> string handler" where
  "run_git w command path op =
     act_bind (spawn_or w ''git''
       \<lparr>cmd_program = ''/usr/bin/git'', cmd_dir = Some path, cmd_args = git_args command op\<rparr>) (\<lambda>out.
     if po_success out then act_return (w_lossy w (po_stdout out))
     else h_fail (Internal (''git '' @ command @ '' in '' @ path @ '' failed: '' @
            w_lossy w (po_stderr out))))"

definition git_execute :: "host_world \<Rightarrow> host_op \<Rightarrow> execution_result handler" where
  "git_execute w op =
     (let command = (case op_command op of Some c \<Rightarrow> c | None \<Rightarrow> ''status'') in
      act_bind (need (Internal ''git: resource (repo path) is required'') (op_resource op)) (\<lambda>path.
      act_bind (run_git w command path op) (\<lambda>output. act_return (exec_ok output))))"

section \<open>Allowlisted programs\<close>

definition ansible_scheme :: string where
  "ansible_scheme = ''ansible://''"

definition exec_validate :: "host_world \<Rightarrow> host_op \<Rightarrow> policy_decision handler" where
  "exec_validate w op =
     act_bind (draw (w_config w)) (\<lambda>config.
     case exec config of
       None \<Rightarrow> act_return (Deny ''ExecAdapter is disabled (set exec.enabled = true to enable)'')
     | Some cfg \<Rightarrow>
         if \<not> exec_enabled cfg
         then act_return (Deny ''ExecAdapter is disabled (set exec.enabled = true to enable)'')
         else act_bind (need (Internal ''exec: args[0] (command) is required'') (op_command op)) (\<lambda>command.
         if command \<noteq> ''run''
         then act_return (Deny (''ExecAdapter: unsupported command '' @ quoted command @ '' (only '' @
                quoted ''run'' @ '')''))
         else act_bind (need (Internal ''exec: resource (command path) is required'') (op_resource op))
           (\<lambda>res.
         if prefix ansible_scheme res
         then (if ansible_job_queue cfg \<noteq> None
               then act_return (RequiresApproval (''Ansible job '' @ quoted res @
                      '' requires approval before queuing''))
               else act_return (Deny ''Ansible execution not configured (set exec.ansible_job_queue)''))
         else if \<not> prefix ''/'' res
         then act_return (Deny (''ExecAdapter: command path must be absolute, got '' @ quoted res))
         else if res \<notin> set (allowed_commands cfg)
         then act_return (Deny (''ExecAdapter: command '' @ quoted res @ '' not in allowed_commands list''))
         else act_return Allow)))"

definition write_file :: "host_world \<Rightarrow> string \<Rightarrow> string \<Rightarrow> (host_state, string, unit) act" where
  "write_file w path text =
     act_bind (draw (\<lambda>n. w_file_error w n path)) (\<lambda>failure.
       act_then (emit (WroteFile path text))
         (case failure of Some e \<Rightarrow> act_fail e | None \<Rightarrow> act_return ()))"

definition queue_ansible ::
  "host_world \<Rightarrow> client_identity \<Rightarrow> host_config \<Rightarrow> string \<Rightarrow> execution_result handler" where
  "queue_ansible w who config playbook =
     (case (case exec config of None \<Rightarrow> None | Some cfg \<Rightarrow> ansible_job_queue cfg) of
        None \<Rightarrow> h_fail (Internal ''Ansible job queue not configured'')
      | Some queue_dir \<Rightarrow>
          act_bind (draw (w_uuid w)) (\<lambda>job.
          act_bind (draw (w_clock w)) (\<lambda>now.
          let spec = JObj [(''caller'', JStr (cn who)), (''id'', JStr job),
                           (''playbook'', JStr playbook),
                           (''requested_at'', JStr (w_rfc3339_text w now))] in
          act_then
            (map_err (\<lambda>e. Failed (Internal (''Failed to write job spec: '' @ e)))
              (write_file w (queue_dir @ ''/'' @ job @ ''.json'') (w_json_pretty w spec)))
            (act_return (exec_ok (''Ansible job queued: '' @ job))))))"

definition run_program :: "host_world \<Rightarrow> string \<Rightarrow> host_op \<Rightarrow> execution_result handler" where
  "run_program w res op =
     act_bind (spawn_or w ''command''
       \<lparr>cmd_program = res, cmd_dir = None, cmd_args = drop 1 (op_args op)\<rparr>) (\<lambda>out.
     if po_success out then act_return (exec_ok (w_lossy w (po_stdout out)))
     else h_fail (Internal (''Command '' @ quoted res @ '' failed: '' @ w_lossy w (po_stderr out))))"

definition exec_execute :: "host_world \<Rightarrow> client_identity \<Rightarrow> host_op \<Rightarrow> execution_result handler" where
  "exec_execute w who op =
     act_bind (draw (w_config w)) (\<lambda>config.
     act_bind (need (Internal ''exec: resource required'') (op_resource op)) (\<lambda>res.
     case strip_prefix ansible_scheme res of
       Some playbook \<Rightarrow> queue_ansible w who config playbook
     | None \<Rightarrow> run_program w res op))"

section \<open>The registry\<close>

text \<open>The five adapters that \<open>main\<close> registers, by kind.\<close>

datatype adapter = ZfsAdapter | SystemdAdapter | PctAdapter | GitAdapter | ExecAdapter

fun adapter_kind :: "adapter \<Rightarrow> string" where
  "adapter_kind ZfsAdapter = ''zfs''"
| "adapter_kind SystemdAdapter = ''systemd''"
| "adapter_kind PctAdapter = ''pct''"
| "adapter_kind GitAdapter = ''git''"
| "adapter_kind ExecAdapter = ''exec''"

definition registered_adapters :: "adapter list" where
  "registered_adapters = [ZfsAdapter, SystemdAdapter, PctAdapter, GitAdapter, ExecAdapter]"

definition adapter_for :: "string \<Rightarrow> adapter option" where
  "adapter_for kind = find (\<lambda>a. adapter_kind a = kind) registered_adapters"

fun adapter_validate :: "host_world \<Rightarrow> adapter \<Rightarrow> host_op \<Rightarrow> policy_decision handler" where
  "adapter_validate w ZfsAdapter op = zfs_validate w op"
| "adapter_validate w SystemdAdapter op = systemd_validate w op"
| "adapter_validate w PctAdapter op = pct_validate w op"
| "adapter_validate w GitAdapter op = git_validate w op"
| "adapter_validate w ExecAdapter op = exec_validate w op"

fun adapter_execute ::
  "host_world \<Rightarrow> adapter \<Rightarrow> client_identity \<Rightarrow> host_op \<Rightarrow> execution_result handler" where
  "adapter_execute w ZfsAdapter who op = zfs_adapter_execute w who op"
| "adapter_execute w SystemdAdapter who op = systemd_execute w op"
| "adapter_execute w PctAdapter who op = pct_execute w op"
| "adapter_execute w GitAdapter who op = git_execute w op"
| "adapter_execute w ExecAdapter who op = exec_execute w who op"

end
