(* ===== verification/Host_Handlers.thy ===== *)
theory Host_Handlers
  imports Host_Adapters
begin

text \<open>
  The HTTP handlers of the host agent (\<open>crates/host-agent/src/main.rs\<close>) and the identity
  plugin (\<open>approval/identity_plugin.rs\<close>).  The caller is the identity of the TLS client
  certificate; the request bodies are already decoded.
\<close>

section \<open>Responses\<close>

record snapshot_response =
  sr_snapshot :: string
  sr_audit_id :: string

datatype destroy_response =
    DestroyPending string string
  | DestroySuccess string string

datatype op_response =
    OpPending string string
  | OpDone string execution_result

section \<open>A ZFS command between its audit lines\<close>

text \<open>
  The statements the three ZFS handlers share: a line \<open>attempting\<close>, the command, and a line
  \<open>success\<close> or \<open>failure\<close>; \<open>granted\<close> is what happens between the command and the line
  \<open>success\<close>.
\<close>

definition audited ::
  "host_world \<Rightarrow> client_identity \<Rightarrow> string \<Rightarrow> string \<Rightarrow> string \<Rightarrow> string option \<Rightarrow>
   (host_state, zfs_error, 'a) act \<Rightarrow> ('a \<Rightarrow> string) \<Rightarrow> unit handler \<Rightarrow> 'a handler" where
  "audited w who aid op target approved run details granted =
     act_then (audit_line w who aid op target approved ''attempting'' None None)
     (act_bind (act_try run) (\<lambda>r.
        case r of
          Inr output \<Rightarrow>
            act_then granted
            (act_then (audit_line w who aid op target approved ''success'' (Some (details output)) None)
              (act_return output))
        | Inl e \<Rightarrow>
            act_then (audit_line w who aid op target approved ''failure'' (Some (zfs_error_text e)) None)
              (h_fail (ZfsErr e))))"

definition zfs_snapshot ::
  "host_world \<Rightarrow> client_identity \<Rightarrow> string \<Rightarrow> string \<Rightarrow> snapshot_response handler" where
  "zfs_snapshot w who dataset snapname =
     act_then (count_metric Requests) (act_then (count_metric (ZfsOperations ''snapshot''))
     (act_bind (draw (w_uuid w)) (\<lambda>aid.
      if \<not> is_valid_dataset_name dataset then h_fail (InvalidDataset dataset)
      else if \<not> is_valid_snapshot_name snapname then h_fail (InvalidSnapshotName snapname)
      else
        (let snapshot = dataset @ ''@'' @ snapname in
         act_bind (draw (w_config w)) (\<lambda>config.
         if requires_approval_for_agent (w_regex w) config ''zfs-snapshot'' snapshot
              (find_agent config (cn who))
         then h_fail (PolicyDenied ''Snapshot requires approval per policy'')
         else act_bind (audited w who aid ''zfs-snapshot'' snapshot None
                (zfs_execute w snapshot OpSnapshot who) (\<lambda>output. output) (act_return ())) (\<lambda>_.
              act_return \<lparr>sr_snapshot = snapshot, sr_audit_id = aid\<rparr>))))))"

definition zfs_list ::
  "host_world \<Rightarrow> client_identity \<Rightarrow> string option \<Rightarrow> string option \<Rightarrow> (zfs_entry list \<times> string) handler" where
  "zfs_list w who dataset list_type =
     act_then (count_metric Requests) (act_then (count_metric (ZfsOperations ''list''))
     (act_bind (draw (w_uuid w)) (\<lambda>aid.
      act_bind (audited w who aid ''zfs-list'' (case dataset of Some d \<Rightarrow> d | None \<Rightarrow> []) None
        (zfs_exec_list w dataset list_type) (\<lambda>entries. show_nat (length entries) @ '' entries'')
        (act_return ())) (\<lambda>entries.
      act_return (entries, aid)))))"

text \<open>The three branches of \<open>zfs_destroy\<close>.\<close>

definition destroy_direct :: "host_world \<Rightarrow> client_identity \<Rightarrow> string \<Rightarrow> destroy_response handler" where
  "destroy_direct w who dataset =
     act_bind (draw (w_uuid w)) (\<lambda>aid.
     act_bind (audited w who aid ''zfs-destroy'' dataset None
       (zfs_execute w dataset OpDestroy who) (\<lambda>output. output) (act_return ())) (\<lambda>_.
     act_return (DestroySuccess aid (''Destroyed '' @ dataset @ '' (no approval required)''))))"

definition destroy_with_token ::
  "host_world \<Rightarrow> client_identity \<Rightarrow> string \<Rightarrow> string \<Rightarrow> destroy_response handler" where
  "destroy_with_token w who dataset token =
     act_bind (do_consume_token w token dataset (cn who)) (\<lambda>approval_id.
     case approval_id of
       None \<Rightarrow> h_fail InvalidTokenErr
     | Some aid0 \<Rightarrow>
         act_bind (draw (w_uuid w)) (\<lambda>aid.
         act_bind (audited w who aid ''zfs-destroy'' dataset (Some aid0)
           (zfs_execute w dataset OpDestroy who) (\<lambda>output. output) (count_metric ApprovalsGranted)) (\<lambda>_.
         act_return (DestroySuccess aid (''Destroyed '' @ dataset)))))"

text \<open>The pending branch of both approval handlers: the reply carries the masked token.\<close>

definition ask_approval ::
  "host_world \<Rightarrow> client_identity \<Rightarrow> string \<Rightarrow> string \<Rightarrow> (string \<times> string) handler" where
  "ask_approval w who op target =
     act_bind (draw (w_uuid w)) (\<lambda>aid.
     act_bind (draw (w_clock w)) (\<lambda>now.
     act_bind (do_create_approval w
       \<lparr>req_id = aid, req_caller = cn who, req_caller_uid = uid who, req_operation = op,
        req_target = target, requested_at = now, zeroclaw_request_id = None\<rparr>) (\<lambda>token.
     act_then (count_metric ApprovalsCreated)
     (let info = token_audit (w_sha256 w) token in
      act_then (audit_line w who aid op target (Some aid) ''pending_approval'' None
        (Some (ta_hash info)))
      (act_return (aid, masked info))))))"

definition zfs_destroy ::
  "host_world \<Rightarrow> client_identity \<Rightarrow> string \<Rightarrow> string option \<Rightarrow> destroy_response handler" where
  "zfs_destroy w who dataset approval_token =
     act_then (count_metric Requests) (act_then (check_rate w who)
     (act_then (count_metric (ZfsOperations ''destroy''))
     (if \<not> is_valid_dataset_or_snapshot dataset then h_fail (InvalidDataset dataset)
      else act_bind (draw (w_config w)) (\<lambda>config.
        if \<not> requires_approval_for_agent (w_regex w) config ''zfs-destroy'' dataset
             (find_agent config (cn who))
        then destroy_direct w who dataset
        else (case approval_token of
            Some token \<Rightarrow> destroy_with_token w who dataset token
          | None \<Rightarrow>
              act_bind (ask_approval w who ''zfs-destroy'' dataset) (\<lambda>(aid, shown).
              act_return (DestroyPending aid
                (''Approval required. Reply CONFIRM '' @ shown @ '' to approve (5 min timeout).''))))))))"

section \<open>Approving\<close>

definition parse_plugin_response :: "host_world \<Rightarrow> string \<Rightarrow> bool" where
  "parse_plugin_response w stdout = (case w_plugin_parse w (trim stdout) of Some allowed \<Rightarrow> allowed | None \<Rightarrow> False)"

definition plugin_request :: "string \<Rightarrow> string \<Rightarrow> json" where
  "plugin_request approver_cn aid =
     JObj [(''approver_cn'', JStr approver_cn), (''approval_id'', JStr aid),
           (''operation'', JStr ''approve''), (''target'', JStr aid)]"

definition validate_approver_identity ::
  "host_world \<Rightarrow> string \<Rightarrow> json \<Rightarrow> (host_state, 'e, string + bool) act" where
  "validate_approver_identity w spec request =
     (case strip_prefix ''command:'' spec of
        Some path \<Rightarrow>
          if \<not> prefix ''/'' path
          then act_return (Inl (''identity_plugin command path must be absolute (got '' @ quoted path @
                 ''). Relative paths are rejected to prevent PATH-hijacking.''))
          else act_bind (draw (\<lambda>n. w_plugin w n path request)) (\<lambda>r. act_return
            (case r of
               Inl e \<Rightarrow> Inl e
             | Inr out \<Rightarrow> Inr (po_success out \<and> parse_plugin_response w (w_lossy w (po_stdout out)))))
      | None \<Rightarrow>
          if prefix ''http://'' spec \<or> prefix ''https://'' spec
          then act_bind (draw (\<lambda>n. w_http_plugin w n spec request)) (\<lambda>r. act_return
            (case r of
               Inl e \<Rightarrow> Inl e
             | Inr (success, body) \<Rightarrow>
                 if \<not> success then Inr False
                 else (case body of Inl e \<Rightarrow> Inl e | Inr allowed \<Rightarrow> Inr allowed)))
          else act_return (Inl (''Unsupported identity_plugin format: '' @ quoted spec @
                 ''. Use '' @ quoted ''command:/path'' @ '' or '' @ quoted ''http://...'')))"

text \<open>The admin check of \<open>submit_approval\<close>, which counts its refusals.\<close>

definition admin_check :: "host_config \<Rightarrow> client_identity \<Rightarrow> unit handler" where
  "admin_check config who =
     (if (case find_rule config ''zfs-destroy'' of Some r \<Rightarrow> approval_admin_only r | None \<Rightarrow> False)
      then (case admin_cn_pattern (approval config) of
              Some pat \<Rightarrow>
                if pat = [] then act_then (count_metric PolicyDenials)
                  (h_fail (PolicyDenied ''approval_admin_only requires admin_cn_pattern to be configured''))
                else if admin_cn_matches pat (cn who) then act_return ()
                else act_then (count_metric PolicyDenials)
                  (h_fail (PolicyDenied (''Approver identity '' @ quoted (cn who) @
                     '' does not match admin_cn_pattern'')))
            | None \<Rightarrow> act_then (count_metric PolicyDenials)
                (h_fail (PolicyDenied ''approval_admin_only requires admin_cn_pattern to be configured'')))
      else act_return ())"

definition plugin_check :: "host_world \<Rightarrow> host_config \<Rightarrow> client_identity \<Rightarrow> string \<Rightarrow> unit handler" where
  "plugin_check w config who aid =
     (case identity_plugin (approval config) of
        None \<Rightarrow> act_return ()
      | Some plugin \<Rightarrow>
          act_bind (validate_approver_identity w plugin (plugin_request (cn who) aid)) (\<lambda>r.
          case r of
            Inr True \<Rightarrow> act_return ()
          | Inr False \<Rightarrow> act_then (count_metric PolicyDenials)
              (h_fail (PolicyDenied (''Approver identity '' @ quoted (cn who) @
                 '' rejected by identity plugin'')))
          | Inl e \<Rightarrow> act_then (count_metric PolicyDenials)
              (h_fail (PolicyDenied ''Identity plugin failed; approval denied (fail-closed)''))))"

definition submit_approval :: "host_world \<Rightarrow> client_identity \<Rightarrow> string \<Rightarrow> string \<Rightarrow> unit handler" where
  "submit_approval w who aid token =
     act_then (count_metric Requests) (act_then (check_rate w who)
     (act_bind (draw (w_config w)) (\<lambda>config.
      act_then (admin_check config who) (act_then (plugin_check w config who aid)
      (act_bind (draw (w_clock w)) (\<lambda>now.
       case w_rfc3339 w (w_rfc3339_text w now) of
         None \<Rightarrow> h_fail (ApprovalErr InvalidToken)
       | Some timestamp \<Rightarrow>
           do_confirm w \<lparr>sp_token = token, confirmation_code = ''CONFIRM'', approver = cn who,
                          sp_timestamp = timestamp\<rparr>))))))"

definition webhook_handler ::
  "host_world \<Rightarrow> string \<Rightarrow> string \<Rightarrow> string \<Rightarrow> string \<Rightarrow> unit handler" where
  "webhook_handler w token code who timestamp_text =
     act_then (count_metric Requests)
     (case w_rfc3339 w timestamp_text of
        None \<Rightarrow> h_fail (ApprovalErr InvalidToken)
      | Some timestamp \<Rightarrow>
          do_confirm w \<lparr>sp_token = token, confirmation_code = code, approver = who,
                         sp_timestamp = timestamp\<rparr>)"

definition list_pending :: "host_world \<Rightarrow> client_identity \<Rightarrow> approval_response list handler" where
  "list_pending w who =
     act_then (count_metric Requests) (act_then (check_rate w who)
     (act_bind (draw (w_clock w)) (\<lambda>now.
      act_gets (\<lambda>s. list_pending_for_caller now (cn who) (hs_approvals s)))))"

text \<open>The refusal is a response of its own (status 403), not an \<open>AppError\<close>.\<close>

definition list_all_pending ::
  "host_world \<Rightarrow> client_identity \<Rightarrow> (nat + approval_response list) handler" where
  "list_all_pending w who =
     act_then (count_metric Requests)
     (act_bind (draw (w_config w)) (\<lambda>config.
      case require_admin_identity config (cn who) of
        Inl status \<Rightarrow> act_return (Inl status)
      | Inr _ \<Rightarrow> act_bind (draw (w_clock w)) (\<lambda>now.
          act_gets (\<lambda>s. Inr (mgr_list_all_pending now (hs_approvals s))))))"

section \<open>The unified operation endpoint\<close>

definition op_label :: "host_op \<Rightarrow> string" where
  "op_label op = op_kind op @ ''/'' @ (case op_command op of Some c \<Rightarrow> c | None \<Rightarrow> ''unknown'')"

definition op_execute ::
  "host_world \<Rightarrow> client_identity \<Rightarrow> adapter \<Rightarrow> host_op \<Rightarrow> string \<Rightarrow> op_response handler" where
  "op_execute w who adapter op aid =
     act_bind (act_try (adapter_execute w adapter who op)) (\<lambda>r.
     case r of
       Inr result \<Rightarrow>
         act_then (audit_line w who aid (op_label op) (resource_or_empty op) None ''success''
           (Some (ex_output result)) None)
         (act_return (OpDone aid result))
     | Inl (Failed e) \<Rightarrow>
         act_then (audit_line w who aid (op_label op) (resource_or_empty op) None ''failure''
           (Some (app_error_text e)) None)
         (h_fail e)
     | Inl Panicked \<Rightarrow> act_fail Panicked)"

definition host_op_dispatch :: "host_world \<Rightarrow> client_identity \<Rightarrow> host_op \<Rightarrow> op_response handler" where
  "host_op_dispatch w who op =
     act_then (count_metric Requests) (act_then (check_rate w who)
     (act_bind (draw (w_uuid w)) (\<lambda>aid.
      act_bind (need (Internal (''No adapter registered for kind '' @ quoted (op_kind op)))
        (adapter_for (op_kind op))) (\<lambda>adapter.
      act_then (audit_line w who aid (op_label op) (resource_or_empty op) None ''attempting'' None None)
      (act_bind (adapter_validate w adapter op) (\<lambda>decision.
       case decision of
         Deny reason \<Rightarrow>
           act_then (count_metric PolicyDenials)
           (act_then (audit_line w who aid (op_label op) (resource_or_empty op) None ''denied''
             (Some reason) None)
           (h_fail (PolicyDenied reason)))
       | RequiresApproval _ \<Rightarrow>
           (case op_approval_token op of
              Some token \<Rightarrow>
                act_bind (do_consume_token w token (resource_or_empty op) (cn who)) (\<lambda>approval_id.
                case approval_id of
                  None \<Rightarrow> h_fail InvalidTokenErr
                | Some aid0 \<Rightarrow>
                    act_then (audit_line w who aid (op_label op) (resource_or_empty op) (Some aid0)
                      ''approval_consumed'' None None)
                    (op_execute w who adapter op aid))
            | None \<Rightarrow>
                act_bind (ask_approval w who (op_label op) (resource_or_empty op)) (\<lambda>(id0, shown).
                act_return (OpPending id0
                  (''Approval required for '' @ op_label op @ ''. Reply CONFIRM '' @ shown @
                   '' to approve.''))))
       | Allow \<Rightarrow> op_execute w who adapter op aid))))))"

section \<open>All requests\<close>

text \<open>
  A request with its caller, or a tick of a background task.  Every handler touches the
  manager at most once, in one locked section, so requests that overlap act on it like
  requests one after the other.
\<close>

datatype request =
    ReqSnapshot client_identity string string
  | ReqList client_identity "string option" "string option"
  | ReqDestroy client_identity string "string option"
  | ReqApprove client_identity string string
  | ReqWebhook string string string string
  | ReqPending client_identity
  | ReqAllPending client_identity
  | ReqOp client_identity host_op
  | TickCleanup
  | TickEvict

definition do_cleanup :: "host_world \<Rightarrow> unit handler" where
  "do_cleanup w = act_bind (draw (w_clock w)) (\<lambda>now s.
     (Inr (), s\<lparr>hs_approvals := cleanup now (hs_approvals s),
                hs_trace := Managed (Cleaned now) # hs_trace s\<rparr>))"

definition do_evict :: "host_world \<Rightarrow> unit handler" where
  "do_evict w = act_bind (draw (w_instant w)) (\<lambda>now.
     act_modify (\<lambda>s. s\<lparr>hs_limiter := evict_expired (hs_limiter s) now\<rparr>))"

fun handle :: "host_world \<Rightarrow> host_state \<Rightarrow> request \<Rightarrow> host_state" where
  "handle w s (ReqSnapshot who d n) = snd (zfs_snapshot w who d n s)"
| "handle w s (ReqList who d t) = snd (zfs_list w who d t s)"
| "handle w s (ReqDestroy who d t) = snd (zfs_destroy w who d t s)"
| "handle w s (ReqApprove who a t) = snd (submit_approval w who a t s)"
| "handle w s (ReqWebhook t c a ts) = snd (webhook_handler w t c a ts s)"
| "handle w s (ReqPending who) = snd (list_pending w who s)"
| "handle w s (ReqAllPending who) = snd (list_all_pending w who s)"
| "handle w s (ReqOp who op) = snd (host_op_dispatch w who op s)"
| "handle w s TickCleanup = snd (do_cleanup w s)"
| "handle w s TickEvict = snd (do_evict w s)"

definition initial_host_state :: "host_config \<Rightarrow> host_state" where
  "initial_host_state cfg =
     \<lparr>hs_limiter = new_rate_limiter (rate_limit cfg),
      hs_approvals = new_approval_manager (ttl_seconds (approval cfg))
        (case signal_webhook (approval cfg) of
           None \<Rightarrow> None
         | Some url \<Rightarrow> Some \<lparr>webhook_url = url, sc_approvers = allowed_approvers (approval cfg)\<rparr>),
      hs_trace = [], hs_tick = 0\<rparr>"

end
