(* ===== verification/Host_Safety.thy ===== *)
theory Host_Safety
  imports Host_Handlers
begin

text \<open>
  What the host agent may do to the host: the processes it can start, the audit lines that
  come first and the approvals that destructive commands need.  The invariant speaks of the
  trace; every handler keeps it (triples over the actions), so it holds after any sequence of
  requests.
\<close>

section \<open>What may run\<close>

text \<open>The commands that destroy or roll back, with their target.\<close>

definition destructive :: "command \<Rightarrow> string option" where
  "destructive c =
     (if cmd_program c \<noteq> ''sudo'' then None
      else (case cmd_args c of
          [opt, user, prog, sub, target] \<Rightarrow>
            if prog = ''zfs'' \<and> sub \<in> {''destroy'', ''rollback''} then Some target else None
        | [prog, sub, target] \<Rightarrow>
            if prog = ''/usr/sbin/pct'' \<and> sub = ''destroy'' then Some target else None
        | _ \<Rightarrow> None))"

definition valid_or_empty :: "string \<Rightarrow> bool" where
  "valid_or_empty t \<longleftrightarrow> t = [] \<or> is_valid_dataset_or_snapshot t"

text \<open>Every command line the agent can produce, for a caller.\<close>

inductive permitted :: "host_world \<Rightarrow> client_identity \<Rightarrow> command \<Rightarrow> bool" for w who where
  perm_snapshot: "valid_or_empty d \<Longrightarrow> is_valid_snapshot_name n \<Longrightarrow>
    permitted w who \<lparr>cmd_program = ''sudo'', cmd_dir = None,
      cmd_args = [''-u'', username who, ''zfs'', ''snapshot'', d @ ''@'' @ n]\<rparr>"
| perm_zfs: "valid_or_empty t \<Longrightarrow> sub \<in> {''destroy'', ''rollback''} \<Longrightarrow>
    permitted w who \<lparr>cmd_program = ''sudo'', cmd_dir = None,
      cmd_args = [''-u'', username who, ''zfs'', sub, t]\<rparr>"
| perm_read: "sub \<in> {''list'', ''get''} \<Longrightarrow>
    permitted w who \<lparr>cmd_program = ''zfs'', cmd_dir = None, cmd_args = sub # ''-H'' # ''-o'' # rest\<rparr>"
| perm_unit: "sub \<in> {''status'', ''start'', ''stop'', ''restart''} \<Longrightarrow> is_valid_service_name u \<Longrightarrow>
    permitted w who \<lparr>cmd_program = ''sudo'', cmd_dir = None, cmd_args = [''/usr/bin/systemctl'', sub, u]\<rparr>"
| perm_pct: "sub \<in> {''status'', ''start'', ''stop'', ''destroy''} \<Longrightarrow> is_valid_vmid v \<Longrightarrow>
    permitted w who \<lparr>cmd_program = ''sudo'', cmd_dir = None, cmd_args = [''/usr/sbin/pct'', sub, v]\<rparr>"
| perm_git: "repo_path_shape path \<Longrightarrow> repo_allowed (w_config w n) path \<Longrightarrow>
    args \<in> {[''status''], [''pull''], [''fetch'', ''origin''], [''log'', ''--oneline'', ''-10'']} \<or>
    (\<exists>b. args = [''checkout'', b] \<and> is_valid_branch_name b) \<Longrightarrow>
    permitted w who \<lparr>cmd_program = ''/usr/bin/git'', cmd_dir = Some path, cmd_args = args\<rparr>"
| perm_exec: "prefix ''/'' prog \<Longrightarrow> exec (w_config w n) = Some cfg \<Longrightarrow> exec_enabled cfg \<Longrightarrow>
    prog \<in> set (allowed_commands cfg) \<Longrightarrow>
    permitted w who \<lparr>cmd_program = prog, cmd_dir = None, cmd_args = args\<rparr>"

fun is_run :: "effect \<Rightarrow> bool" where
  "is_run (Ran _) \<longleftrightarrow> True"
| "is_run _ \<longleftrightarrow> False"

text \<open>
  Since the last process, the audit log got the line \<open>attempting\<close> of this caller; the
  manager consumed a token of this caller for the target.
\<close>

definition announced :: "client_identity \<Rightarrow> effect list \<Rightarrow> bool" where
  "announced who tr \<longleftrightarrow>
     (\<exists>ev \<in> set (takeWhile (\<lambda>x. \<not> is_run x) tr). \<exists>l. ev = Audited l \<and>
        ae_caller l = cn who \<and> ae_caller_uid l = uid who \<and> ae_result l = ''attempting'')"

definition approved_for :: "string \<Rightarrow> client_identity \<Rightarrow> effect list \<Rightarrow> bool" where
  "approved_for target who tr \<longleftrightarrow>
     (\<exists>ev \<in> set (takeWhile (\<lambda>x. \<not> is_run x) tr). \<exists>now token aid.
        ev = Managed (Consumed now token target (cn who) aid))"

text \<open>The configuration demands approval for destroying and rolling back, as the default one does.\<close>

definition approval_demanded :: "host_world \<Rightarrow> bool" where
  "approval_demanded w \<longleftrightarrow>
     (\<forall>n op target agent. op \<in> {''zfs-destroy'', ''zfs-rollback''} \<longrightarrow>
        requires_approval_for_agent (w_regex w) (w_config w n) op target agent)"

definition run_ok :: "host_world \<Rightarrow> client_identity \<Rightarrow> command \<Rightarrow> effect list \<Rightarrow> bool" where
  "run_ok w who c tr \<longleftrightarrow> permitted w who c \<and> announced who tr \<and>
     (\<forall>target. destructive c = Some target \<longrightarrow>
        approval_demanded w \<or> cmd_args c = [''/usr/sbin/pct'', ''destroy'', target] \<longrightarrow>
        approved_for target who tr)"

fun trace_ok :: "host_world \<Rightarrow> effect list \<Rightarrow> bool" where
  "trace_ok w [] \<longleftrightarrow> True"
| "trace_ok w (Ran c # tr) \<longleftrightarrow> (\<exists>who. run_ok w who c tr) \<and> trace_ok w tr"
| "trace_ok w (x # tr) \<longleftrightarrow> trace_ok w tr"

lemma trace_ok_Cons [simp]: "\<not> is_run x \<Longrightarrow> trace_ok w (x # tr) \<longleftrightarrow> trace_ok w tr"
  by (cases x) simp_all

lemma trace_ok_at: "trace_ok w (later @ Ran c # earlier) \<Longrightarrow> \<exists>who. run_ok w who c earlier"
  by (induction w later rule: trace_ok.induct) auto

lemma announced_Cons [simp]:
  "\<not> is_run x \<Longrightarrow> announced who (x # tr) \<longleftrightarrow> announced who tr \<or>
     (\<exists>l. x = Audited l \<and> ae_caller l = cn who \<and> ae_caller_uid l = uid who \<and> ae_result l = ''attempting'')"
  by (auto simp: announced_def)

lemma approved_Cons [simp]:
  "\<not> is_run x \<Longrightarrow> approved_for target who (x # tr) \<longleftrightarrow> approved_for target who tr \<or>
     (\<exists>now token aid. x = Managed (Consumed now token target (cn who) aid))"
  by (auto simp: approved_for_def)

section \<open>The invariant\<close>

text \<open>The events of the manager in a trace.\<close>

fun managed :: "effect list \<Rightarrow> approval_event list" where
  "managed [] = []"
| "managed (Managed ev # tr) = ev # managed tr"
| "managed (x # tr) = managed tr"

lemma managed_Cons [simp]: "(\<And>ev. x \<noteq> Managed ev) \<Longrightarrow> managed (x # tr) = managed tr"
  by (cases x) auto

abbreviation manager_step :: "host_world \<Rightarrow> approval_manager \<Rightarrow> approval_event \<Rightarrow> approval_manager \<Rightarrow> bool" where
  "manager_step w \<equiv> mgr_step (w_sha256 w) (w_add_secs w) (w_upper w)"

definition host_inv :: "host_world \<Rightarrow> approval_manager \<Rightarrow> host_state \<Rightarrow> bool" where
  "host_inv w m0 s \<longleftrightarrow> trace_ok w (hs_trace s) \<and>
     history (manager_step w) m0 (managed (hs_trace s)) (hs_approvals s)"

text \<open>What the handlers know between two statements: a fact about the trace that lasts.\<close>

definition lasting :: "(effect list \<Rightarrow> bool) \<Rightarrow> bool" where
  "lasting P \<longleftrightarrow> (\<forall>x tr. P tr \<longrightarrow> \<not> is_run x \<longrightarrow> P (x # tr))"

abbreviation with_inv ::
  "host_world \<Rightarrow> approval_manager \<Rightarrow> (effect list \<Rightarrow> bool) \<Rightarrow> host_state \<Rightarrow> bool" where
  "with_inv w m0 P s \<equiv> host_inv w m0 s \<and> P (hs_trace s)"

lemma lasting_intros [intro, simp]:
  "lasting (\<lambda>_. F)" "lasting (announced who)" "lasting (approved_for target who)"
  "lasting P \<Longrightarrow> lasting Q \<Longrightarrow> lasting (\<lambda>tr. P tr \<and> Q tr)"
  "lasting P \<Longrightarrow> lasting (\<lambda>tr. F \<longrightarrow> P tr)"
  by (auto simp: lasting_def)

section \<open>Actions that start no process\<close>

definition calm :: "host_world \<Rightarrow> (host_state, 'e, 'a) act \<Rightarrow> bool" where
  "calm w m \<longleftrightarrow> (\<forall>P m0. lasting P \<longrightarrow> triple (with_inv w m0 P) (with_inv w m0 P) m (\<lambda>_. with_inv w m0 P))"

lemma calmD: "calm w m \<Longrightarrow> lasting P \<Longrightarrow> triple (with_inv w m0 P) (with_inv w m0 P) m (\<lambda>_. with_inv w m0 P)"
  by (simp add: calm_def)

lemma triple_weaken_inv:
  "triple J P m Q \<Longrightarrow> (\<And>s. J s \<Longrightarrow> I s) \<Longrightarrow> triple I P m Q"
  unfolding triple_def by (fastforce elim!: act_wp_mono split: sum.splits)

lemma calm_triple:
  "calm w m \<Longrightarrow> lasting P \<Longrightarrow> triple (host_inv w m0) (with_inv w m0 P) m (\<lambda>_. with_inv w m0 P)"
  by (rule triple_weaken_inv [OF calmD]) simp_all

lemma calm_return: "calm w (act_return x)"
  by (simp add: calm_def triple_return)

lemma calm_fail: "calm w (act_fail e)"
  by (simp add: calm_def triple_fail)

lemma calm_h_fail: "calm w (h_fail e)"
  by (simp add: h_fail_def calm_fail)

lemma calm_bind: "calm w m \<Longrightarrow> (\<And>x. calm w (f x)) \<Longrightarrow> calm w (act_bind m f)"
  unfolding calm_def by (blast intro: triple_bind)

lemma calm_then: "calm w m \<Longrightarrow> calm w n \<Longrightarrow> calm w (act_then m n)"
  unfolding act_then_def by (rule calm_bind)

lemma calm_map_err: "calm w m \<Longrightarrow> calm w (map_err f m)"
  unfolding calm_def by (blast intro: triple_map_err)

lemma calm_gets: "calm w (act_gets f)"
  by (simp add: calm_def triple_def wp_simps)

lemma calm_draw: "calm w (draw f)"
  by (auto simp: calm_def triple_def draw_def act_wp_def host_inv_def)

lemma calm_need: "calm w (need e x)"
  by (cases x) (simp_all add: need_def calm_return calm_h_fail)

lemma calm_emit:
  assumes "\<not> is_run x" "\<And>ev. x \<noteq> Managed ev"
  shows "calm w (emit x)"
  using assms unfolding calm_def triple_def emit_def
  by (auto simp: wp_simps host_inv_def lasting_def)

lemma calm_count: "calm w (count_metric m)"
  unfolding count_metric_def by (rule calm_emit) simp_all

lemma calm_audit_log: "calm w (audit_log w ev)"
  unfolding audit_log_def
  by (intro calm_bind calm_draw) (auto intro: calm_h_fail calm_emit split: option.split)

lemma calm_audit_line: "calm w (audit_line w who aid op target approved res details hash)"
  unfolding audit_line_def by (intro calm_bind calm_draw calm_audit_log)

lemma calm_if: "calm w m \<Longrightarrow> calm w n \<Longrightarrow> calm w (if b then m else n)"
  by simp

lemma calm_option: "calm w m \<Longrightarrow> (\<And>y. calm w (f y)) \<Longrightarrow> calm w (case x of None \<Rightarrow> m | Some y \<Rightarrow> f y)"
  by (cases x) simp_all

lemmas calm_intros = calm_if calm_option
  calm_return calm_fail calm_h_fail calm_bind calm_then calm_map_err calm_gets calm_draw calm_need
  calm_count calm_audit_log calm_audit_line

text \<open>The operations of the limiter and of the manager.\<close>

lemma calm_check_rate: "calm w (check_rate w who)"
  unfolding check_rate_def
proof (rule calm_bind [OF calm_draw])
  fix now
  show "calm w (\<lambda>s. case rate_check (hs_limiter s) now (cn who) of
      (Inr _, lim) \<Rightarrow> (Inr (), s\<lparr>hs_limiter := lim\<rparr>)
    | (Inl secs, lim) \<Rightarrow> act_then (count_metric RateLimitedTotal) (h_fail (RateLimited secs))
        (s\<lparr>hs_limiter := lim\<rparr>))"
    by (auto simp: calm_def triple_def act_wp_def host_inv_def lasting_def act_then_def act_bind_def
        count_metric_def emit_def act_modify_def h_fail_def act_fail_def split: prod.splits sum.splits)
qed

text \<open>A step of the manager, recorded in the trace.\<close>

lemma host_inv_managed:
  assumes "host_inv w m0 s" "manager_step w (hs_approvals s) ev mgr"
  shows "host_inv w m0 (s\<lparr>hs_approvals := mgr, hs_trace := Managed ev # hs_trace s\<rparr>)"
  using assms by (auto simp: host_inv_def intro: history_step)

lemma host_inv_posted:
  "host_inv w m0 s \<Longrightarrow> manager_step w (hs_approvals s) ev mgr \<Longrightarrow>
   host_inv w m0 (s\<lparr>hs_approvals := mgr, hs_trace := Posted p # Managed ev # hs_trace s\<rparr>)"
  by (auto simp: host_inv_def intro: history_step)

lemma calm_create: "calm w (do_create_approval w req)"
  unfolding do_create_approval_def
proof (intro calm_bind calm_draw)
  fix token now
  show "calm w (\<lambda>s. case create_approval (w_sha256 w) (w_add_secs w) now token req (hs_approvals s) of
      None \<Rightarrow> (Inl Panicked, s)
    | Some (reply, post, mgr) \<Rightarrow> (Inr reply, s\<lparr>hs_approvals := mgr,
        hs_trace := (case post of None \<Rightarrow> [] | Some p \<Rightarrow> [Posted p]) @
          Managed (Created now token req) # hs_trace s\<rparr>))"
    by (auto simp: calm_def triple_def act_wp_def lasting_def intro!: host_inv_managed host_inv_posted
        step_create split: option.split)
qed

lemma consume_triple:
  assumes "lasting P"
  shows "triple (host_inv w m0) (with_inv w m0 P) (do_consume_token w token target (cn who))
    (\<lambda>r. with_inv w m0 (\<lambda>tr. P tr \<and> (r \<noteq> None \<longrightarrow> approved_for target who tr)))"
  unfolding do_consume_token_def
proof (rule triple_bind [OF calm_triple [OF calm_draw assms]])
  fix now
  show "triple (host_inv w m0) (with_inv w m0 P)
    (\<lambda>s. case validate_and_consume_token (w_sha256 w) now token target (cn who) (hs_approvals s) of
      (None, mgr) \<Rightarrow> (Inr None, s\<lparr>hs_approvals := mgr, hs_trace := Managed Refused # hs_trace s\<rparr>)
    | (Some aid, mgr) \<Rightarrow> (Inr (Some aid), s\<lparr>hs_approvals := mgr,
        hs_trace := Managed (Consumed now token target (cn who) aid) # hs_trace s\<rparr>))
    (\<lambda>r. with_inv w m0 (\<lambda>tr. P tr \<and> (r \<noteq> None \<longrightarrow> approved_for target who tr)))"
    using assms
    by (auto simp: triple_def act_wp_def lasting_def intro!: host_inv_managed step_consume_refused
        step_consume split: prod.split option.split)
qed

lemma calm_consume: "calm w (do_consume_token w token target caller)"
  unfolding do_consume_token_def
proof (rule calm_bind [OF calm_draw])
  fix now
  show "calm w (\<lambda>s. case validate_and_consume_token (w_sha256 w) now token target caller (hs_approvals s) of
      (None, mgr) \<Rightarrow> (Inr None, s\<lparr>hs_approvals := mgr, hs_trace := Managed Refused # hs_trace s\<rparr>)
    | (Some aid, mgr) \<Rightarrow> (Inr (Some aid), s\<lparr>hs_approvals := mgr,
        hs_trace := Managed (Consumed now token target caller aid) # hs_trace s\<rparr>))"
    by (auto simp: calm_def triple_def act_wp_def lasting_def intro!: host_inv_managed
        step_consume_refused step_consume split: prod.split option.split)
qed

lemma calm_confirm: "calm w (do_confirm w p)"
  unfolding do_confirm_def
proof (intro calm_bind calm_draw)
  fix now now'
  show "calm w (\<lambda>s. case handle_signal_confirmation (w_upper w) (w_sha256 w) now now' p (hs_approvals s) of
      (Inl e, mgr) \<Rightarrow> (Inl (Failed (ApprovalErr e)), s\<lparr>hs_approvals := mgr, hs_trace := Managed Refused # hs_trace s\<rparr>)
    | (Inr _, mgr) \<Rightarrow> (Inr (), s\<lparr>hs_approvals := mgr, hs_trace := Managed (Confirmed now now' p) # hs_trace s\<rparr>))"
    by (auto simp: calm_def triple_def act_wp_def lasting_def intro!: host_inv_managed
        step_confirm_refused step_confirm split: prod.split sum.split)
qed

lemma calm_cleanup: "calm w (do_cleanup w)"
  unfolding do_cleanup_def
proof (rule calm_bind [OF calm_draw])
  fix now
  show "calm w (\<lambda>s. (Inr (), s\<lparr>hs_approvals := cleanup now (hs_approvals s),
      hs_trace := Managed (Cleaned now) # hs_trace s\<rparr>))"
    by (auto simp: calm_def triple_def act_wp_def lasting_def intro!: host_inv_managed step_cleanup)
qed

lemma calm_evict: "calm w (do_evict w)"
  unfolding do_evict_def
  by (intro calm_bind calm_draw) (auto simp: calm_def triple_def wp_simps host_inv_def)

lemma calm_ask: "calm w (ask_approval w who op target)"
  unfolding ask_approval_def Let_def by (intro calm_intros calm_create)

lemma calm_plugin: "calm w (validate_approver_identity w spec req)"
  unfolding validate_approver_identity_def
  by (auto intro!: calm_intros split: option.split)

lemma calm_plugin_check: "calm w (plugin_check w config who aid)"
  unfolding plugin_check_def
  by (auto intro!: calm_intros calm_plugin split: option.split sum.split bool.split)

lemma calm_admin_check: "calm w (admin_check config who)"
  unfolding admin_check_def by (auto intro!: calm_intros split: option.split)

lemma calm_submit: "calm w (submit_approval w who aid token)"
  unfolding submit_approval_def
  by (intro calm_intros calm_check_rate calm_admin_check calm_plugin_check)
    (auto intro!: calm_intros calm_confirm split: option.split)

lemma calm_webhook: "calm w (webhook_handler w token code who ts)"
  unfolding webhook_handler_def
  by (intro calm_intros) (auto intro!: calm_intros calm_confirm split: option.split)

lemma calm_list_pending: "calm w (list_pending w who)"
  unfolding list_pending_def by (intro calm_intros calm_check_rate)

lemma calm_list_all: "calm w (list_all_pending w who)"
  unfolding list_all_pending_def
  by (intro calm_intros) (auto intro!: calm_intros split: sum.split)

section \<open>What the adapters let through\<close>

text \<open>What validation establishes of an operation that it does not deny.\<close>

fun vetted :: "host_world \<Rightarrow> adapter \<Rightarrow> host_op \<Rightarrow> bool \<Rightarrow> bool" where
  "vetted w ZfsAdapter op free \<longleftrightarrow>
     (\<exists>c. op_command op = Some c \<and> valid_or_empty (resource_or_empty op) \<and>
        (c = ''snapshot'' \<longrightarrow> (\<exists>n. arg1 op = Some n \<and> is_valid_snapshot_name n)) \<and>
        (c \<in> {''destroy'', ''rollback''} \<longrightarrow> free \<longrightarrow> \<not> approval_demanded w))"
| "vetted w SystemdAdapter op free \<longleftrightarrow>
     (\<exists>c u. op_command op = Some c \<and> c \<in> {''status'', ''start'', ''stop'', ''restart''} \<and>
        op_resource op = Some u \<and> is_valid_service_name u)"
| "vetted w PctAdapter op free \<longleftrightarrow>
     (\<exists>c v. op_command op = Some c \<and> c \<in> {''status'', ''start'', ''stop'', ''destroy''} \<and>
        op_resource op = Some v \<and> is_valid_vmid v \<and> (c = ''destroy'' \<longrightarrow> \<not> free))"
| "vetted w GitAdapter op free \<longleftrightarrow>
     (\<exists>c path n. op_command op = Some c \<and> c \<in> {''status'', ''fetch'', ''pull'', ''checkout'', ''log''} \<and>
        op_resource op = Some path \<and> repo_path_shape path \<and> repo_allowed (w_config w n) path \<and>
        (c = ''checkout'' \<longrightarrow> (\<exists>b. arg1 op = Some b \<and> is_valid_branch_name b)))"
| "vetted w ExecAdapter op free \<longleftrightarrow>
     (\<exists>r n cfg. op_resource op = Some r \<and> exec (w_config w n) = Some cfg \<and> exec_enabled cfg \<and>
        (prefix ansible_scheme r \<or> prefix ''/'' r \<and> r \<in> set (allowed_commands cfg)))"

fun passes :: "host_world \<Rightarrow> adapter \<Rightarrow> host_op \<Rightarrow> policy_decision \<Rightarrow> bool" where
  "passes w a op Allow \<longleftrightarrow> vetted w a op True"
| "passes w a op (RequiresApproval _) \<longleftrightarrow> vetted w a op False"
| "passes w a op (Deny _) \<longleftrightarrow> True"

lemma returns_draw: "returns (draw f) (\<lambda>x. \<exists>n. x = f n)"
  by (auto simp: returns_def draw_def)

lemma returns_need: "returns (need e x) (\<lambda>y. x = Some y)"
  by (cases x) (simp_all add: need_def returns_return returns_fail h_fail_def)

lemmas returns_steps = returns_bind [OF returns_need] returns_bind [OF returns_draw]

lemma valid_or_empty_resource: "zfs_resource_ok op \<Longrightarrow> valid_or_empty (resource_or_empty op)"
proof (cases "op_resource op")
  case (Some r)
  assume "zfs_resource_ok op"
  moreover have "split_once (\<lambda>c. c = CHR ''@'') r = None" if "\<not> str_contains ''@'' r"
    using that unfolding split_once_None str_contains_single by blast
  ultimately show ?thesis using Some
    by (auto simp: zfs_resource_ok_def valid_or_empty_def resource_or_empty_def
        is_valid_dataset_or_snapshot_def split: if_splits)
qed (simp add: valid_or_empty_def resource_or_empty_def)

lemma zfs_not_demanded:
  "\<not> requires_approval_for_agent (w_regex w) (w_config w n) (''zfs-'' @ c) t a \<Longrightarrow>
   c \<in> {''destroy'', ''rollback''} \<Longrightarrow> \<not> approval_demanded w"
  unfolding approval_demanded_def by auto

lemma zfs_passes:
  assumes "op_command op = Some c" "\<not> \<not> zfs_resource_ok op"
    and "\<not> (c = ''snapshot'' \<and> arg1 op = None)"
    and "\<not> (c = ''snapshot'' \<and> \<not> is_valid_snapshot_name (the (arg1 op)))"
  shows "passes w ZfsAdapter op (RequiresApproval m)"
    and "\<exists>n. config = w_config w n \<Longrightarrow>
      \<not> requires_approval_for_agent (w_regex w) config (''zfs-'' @ c) t a \<Longrightarrow>
      passes w ZfsAdapter op Allow"
proof -
  have snap: "c = ''snapshot'' \<longrightarrow> (\<exists>n. arg1 op = Some n \<and> is_valid_snapshot_name n)"
    using assms(3,4) by (cases "arg1 op") simp_all
  have vet: "vetted w ZfsAdapter op free"
    if "c \<in> {''destroy'', ''rollback''} \<longrightarrow> free \<longrightarrow> \<not> approval_demanded w" for free
    unfolding vetted.simps using that assms(1) snap valid_or_empty_resource assms(2) by blast
  show "passes w ZfsAdapter op (RequiresApproval m)" unfolding passes.simps by (rule vet) blast
  assume "\<exists>n. config = w_config w n"
    "\<not> requires_approval_for_agent (w_regex w) config (''zfs-'' @ c) t a"
  then have "c \<in> {''destroy'', ''rollback''} \<longrightarrow> True \<longrightarrow> \<not> approval_demanded w"
    using zfs_not_demanded [of w _ c t a] by blast
  then show "passes w ZfsAdapter op Allow" unfolding passes.simps by (rule vet)
qed

lemma zfs_validate_returns: "returns (zfs_validate w op) (passes w ZfsAdapter op)"
  unfolding zfs_validate_def Let_def
  by (intro returns_steps returns_if returns_return)
    (rule zfs_passes; assumption | simp only: passes.simps)+

lemma systemd_validate_returns: "returns (systemd_validate w op) (passes w SystemdAdapter op)"
  unfolding systemd_validate_def
  by (intro returns_steps)
    (auto intro!: returns_return returns_steps split: if_split option.split)

lemma pct_validate_returns: "returns (pct_validate w op) (passes w PctAdapter op)"
  unfolding pct_validate_def Let_def
  by (intro returns_steps)
    (auto intro!: returns_return returns_steps split: if_split option.split)

lemma returns_repo_path: "returns (is_valid_repo_path w path) (\<lambda>ok. ok \<longrightarrow> repo_path_shape path)"
  unfolding is_valid_repo_path_def by (intro returns_if returns_return) (simp_all add: returns_def)

lemma git_passes:
  assumes "op_command op = Some c" "\<not> c \<notin> {''status'', ''fetch'', ''pull'', ''checkout'', ''log''}"
    and "op_resource op = Some path" "valid \<longrightarrow> repo_path_shape path" "\<not> \<not> valid"
    and "\<exists>n. config = w_config w n" "\<not> \<not> repo_allowed config path"
    and "\<not> (c = ''checkout'' \<and> ((case arg1 op of Some b \<Rightarrow> b | None \<Rightarrow> []) = [] \<or>
      \<not> is_valid_branch_name (case arg1 op of Some b \<Rightarrow> b | None \<Rightarrow> [])))"
  shows "vetted w GitAdapter op free"
proof -
  have "c = ''checkout'' \<longrightarrow> (\<exists>b. arg1 op = Some b \<and> is_valid_branch_name b)"
    using assms(8) by (cases "arg1 op") simp_all
  moreover obtain n where "repo_allowed (w_config w n) path" using assms(6,7) by blast
  ultimately show ?thesis unfolding vetted.simps
    by (intro exI [of _ c] exI [of _ path] exI [of _ n]) (use assms(1-5) in simp)
qed

lemma git_validate_returns: "returns (git_validate w op) (passes w GitAdapter op)"
  unfolding git_validate_def Let_def
proof (intro returns_steps returns_bind [OF returns_repo_path] returns_if returns_return, goal_cases)
  case (5 c path valid config)
  then have vet: "vetted w GitAdapter op free" for free by (intro git_passes)
  show ?case
    by (auto intro!: returns_return vet simp del: vetted.simps split: option.split if_split)
qed (simp_all only: passes.simps)

lemma exec_passes:
  assumes "\<exists>n. config = w_config w n" "exec config = Some cfg" "\<not> \<not> exec_enabled cfg"
    and "op_resource op = Some r"
  shows "prefix ansible_scheme r \<Longrightarrow> vetted w ExecAdapter op free"
    and "\<not> \<not> prefix ''/'' r \<Longrightarrow> \<not> r \<notin> set (allowed_commands cfg) \<Longrightarrow> vetted w ExecAdapter op free"
proof -
  obtain n where "exec (w_config w n) = Some cfg" using assms(1,2) by blast
  then show "prefix ansible_scheme r \<Longrightarrow> vetted w ExecAdapter op free"
    and "\<not> \<not> prefix ''/'' r \<Longrightarrow> \<not> r \<notin> set (allowed_commands cfg) \<Longrightarrow> vetted w ExecAdapter op free"
    unfolding vetted.simps using assms(3,4) by blast+
qed

lemma exec_validate_returns: "returns (exec_validate w op) (passes w ExecAdapter op)"
  unfolding exec_validate_def
proof (intro returns_steps, goal_cases)
  case (1 config)
  show ?case
  proof (cases "exec config")
    case None
    then show ?thesis by (simp add: returns_return)
  next
    case (Some cfg)
    show ?thesis unfolding Some option.case
      by (intro returns_if returns_steps returns_return)
        (simp only: passes.simps; rule exec_passes [OF 1 Some]; assumption)+
  qed
qed

lemma adapter_validate_returns: "returns (adapter_validate w a op) (passes w a op)"
  by (cases a) (simp_all only: adapter_validate.simps zfs_validate_returns systemd_validate_returns
      pct_validate_returns git_validate_returns exec_validate_returns)

lemma calm_validate: "calm w (adapter_validate w a op)"
  by (cases a; simp only: adapter_validate.simps zfs_validate_def systemd_validate_def
      pct_validate_def git_validate_def exec_validate_def is_valid_repo_path_def Let_def;
      intro calm_intros)

section \<open>Running a command\<close>

lemma spawn_triple:
  assumes "\<And>tr. P tr \<Longrightarrow> run_ok w who c tr"
  shows "triple (host_inv w m0) (with_inv w m0 P) (spawn w c) (\<lambda>_. host_inv w m0)"
  using assms unfolding spawn_def
  by (auto simp: triple_def wp_simps draw_def emit_def act_wp_def act_bind_def act_then_def
      act_modify_def act_lift_def host_inv_def split: sum.split)

lemma inv_return: "triple (host_inv w m0) (host_inv w m0) (act_return x) (\<lambda>_. host_inv w m0)"
  by (rule triple_return)

lemma inv_fail: "triple (host_inv w m0) (host_inv w m0) (act_fail e) (\<lambda>_. host_inv w m0)"
  by (rule triple_fail)

lemma inv_calm: "calm w m \<Longrightarrow> triple (host_inv w m0) (host_inv w m0) m (\<lambda>_. host_inv w m0)"
  using calmD [of w m "\<lambda>_. True"] by simp

lemma zfs_outcome_triple:
  assumes "\<And>tr. P tr \<Longrightarrow> run_ok w who c tr"
  shows "triple (host_inv w m0) (with_inv w m0 P) (zfs_outcome w prog c) (\<lambda>_. host_inv w m0)"
  unfolding zfs_outcome_def
  by (rule triple_bind [OF triple_map_err [OF spawn_triple [of P, OF assms]]])
    (auto intro: inv_return inv_fail)

lemma spawn_or_triple:
  assumes "\<And>tr. P tr \<Longrightarrow> run_ok w who c tr"
  shows "triple (host_inv w m0) (with_inv w m0 P) (spawn_or w label c) (\<lambda>_. host_inv w m0)"
  unfolding spawn_or_def by (rule triple_map_err [OF spawn_triple [of P, OF assms]])

lemma zfs_execute_triple:
  assumes "\<And>tr. P tr \<Longrightarrow> announced who tr"
    and "op = OpSnapshot \<Longrightarrow> \<exists>d n. target = d @ ''@'' @ n \<and> valid_or_empty d \<and> is_valid_snapshot_name n"
    and "op \<noteq> OpSnapshot \<Longrightarrow> valid_or_empty target"
    and "\<And>tr. op \<noteq> OpSnapshot \<Longrightarrow> P tr \<Longrightarrow> approval_demanded w \<Longrightarrow> approved_for target who tr"
  shows "triple (host_inv w m0) (with_inv w m0 P) (zfs_execute w target op who) (\<lambda>_. host_inv w m0)"
proof (cases op)
  case OpSnapshot
  then obtain d n where dn: "target = d @ ''@'' @ n" "valid_or_empty d" "is_valid_snapshot_name n"
    using assms(2) by auto
  show ?thesis unfolding OpSnapshot zfs_execute_def zfs_op.case run_as_user_def append_Cons append_Nil dn(1)
    by (rule zfs_outcome_triple [where who = who])
      (use assms(1) dn in \<open>auto simp: run_ok_def destructive_def
        intro: perm_snapshot [unfolded append_Cons append_Nil]\<close>)
next
  case OpDestroy
  show ?thesis unfolding OpDestroy zfs_execute_def zfs_op.case run_with_sudo_as_user_def append_Cons append_Nil
    by (rule zfs_outcome_triple [where who = who])
      (use assms OpDestroy in \<open>auto simp: run_ok_def destructive_def intro: permitted.intros\<close>)
next
  case OpRollback
  show ?thesis unfolding OpRollback zfs_execute_def zfs_op.case run_with_sudo_as_user_def append_Cons append_Nil
    by (rule zfs_outcome_triple [where who = who])
      (use assms OpRollback in \<open>auto simp: run_ok_def destructive_def intro: permitted.intros\<close>)
qed

lemma run_zfs_triple:
  assumes "\<And>tr. P tr \<Longrightarrow> announced who tr" "sub \<in> {''list'', ''get''}"
  shows "triple (host_inv w m0) (with_inv w m0 P) (run_zfs w (sub # ''-H'' # ''-o'' # rest)) (\<lambda>_. host_inv w m0)"
  unfolding run_zfs_def
  by (rule zfs_outcome_triple [where who = who])
    (use assms in \<open>auto simp: run_ok_def destructive_def intro: permitted.intros\<close>)

lemma zfs_exec_list_triple:
  assumes "\<And>tr. P tr \<Longrightarrow> announced who tr"
  shows "triple (host_inv w m0) (with_inv w m0 P) (zfs_exec_list w dataset t) (\<lambda>_. host_inv w m0)"
  unfolding zfs_exec_list_def Let_def append_Cons append_Nil
  by (rule triple_bind [OF run_zfs_triple [OF assms]]) (auto intro: inv_return)

lemma zfs_get_triple:
  assumes "\<And>tr. P tr \<Longrightarrow> announced who tr"
  shows "triple (host_inv w m0) (with_inv w m0 P) (zfs_get_property w dataset property) (\<lambda>_. host_inv w m0)"
  unfolding zfs_get_property_def
  by (rule triple_bind [OF run_zfs_triple [OF assms]]) (auto intro: inv_return)

text \<open>The adapters: \<open>free\<close> tells whether the policy let the operation through without approval.\<close>

lemma lift_zfs_triple: "triple I P m Q \<Longrightarrow> triple I P (lift_zfs m) Q"
  unfolding lift_zfs_def by (rule triple_map_err)

lemma inv_after: "triple (host_inv w m0) P m (\<lambda>_. host_inv w m0) \<Longrightarrow> (\<And>x. calm w (f x)) \<Longrightarrow>
    triple (host_inv w m0) P (act_bind m f) (\<lambda>_. host_inv w m0)"
  by (rule triple_bind [where Q = "\<lambda>_. host_inv w m0"]) (auto intro: inv_calm)

lemma with_inv_calm:
  "calm w m \<Longrightarrow> triple (host_inv w m0) (with_inv w m0 P) m (\<lambda>_. host_inv w m0)"
  by (rule triple_conseq [OF inv_calm]) auto

lemma zfs_adapter_triple:
  assumes "vetted w ZfsAdapter op free" "\<And>tr. P tr \<Longrightarrow> announced who tr"
    and "\<And>tr. P tr \<Longrightarrow> \<not> free \<Longrightarrow> approved_for (resource_or_empty op) who tr"
  shows "triple (host_inv w m0) (with_inv w m0 P) (zfs_adapter_execute w who op) (\<lambda>_. host_inv w m0)"
proof -
  obtain c where c: "op_command op = Some c" "valid_or_empty (resource_or_empty op)"
    "c = ''snapshot'' \<longrightarrow> (\<exists>n. arg1 op = Some n \<and> is_valid_snapshot_name n)"
    "c \<in> {''destroy'', ''rollback''} \<longrightarrow> free \<longrightarrow> \<not> approval_demanded w"
    using assms(1) unfolding vetted.simps by (elim exE conjE) (rule that; assumption)
  have approved: "approved_for (resource_or_empty op) who tr"
    if "c \<in> {''destroy'', ''rollback''}" "P tr" "approval_demanded w" for tr
    using that c(4) assms(3) by blast
  consider "c = ''list''" | "c = ''snapshot''" | "c = ''destroy''" | "c = ''get''" | "c = ''rollback''"
    | "c \<notin> {''list'', ''snapshot'', ''destroy'', ''get'', ''rollback''}" by blast
  then show ?thesis
  proof cases
    case 1
    show ?thesis unfolding zfs_adapter_execute_def c(1) 1 Let_def option.case simp_thms if_True
      by (intro inv_after lift_zfs_triple zfs_exec_list_triple [where who = who] assms(2) calm_intros)
  next
    case 2
    then obtain n where n: "arg1 op = Some n" "is_valid_snapshot_name n" using c(3) by blast
    have "triple (host_inv w m0) (with_inv w m0 P)
      (zfs_execute w (resource_or_empty op @ ''@'' @ n) OpSnapshot who) (\<lambda>_. host_inv w m0)"
      by (rule zfs_execute_triple) (use assms(2) n c(2) in auto)
    then show ?thesis unfolding zfs_adapter_execute_def c(1) 2 n(1) Let_def
      by (auto intro!: inv_after lift_zfs_triple calm_intros)
  next
    case 3
    have "triple (host_inv w m0) (with_inv w m0 P)
      (zfs_execute w (resource_or_empty op) OpDestroy who) (\<lambda>_. host_inv w m0)"
      by (rule zfs_execute_triple) (use assms(2) c(2) approved 3 in auto)
    then show ?thesis unfolding zfs_adapter_execute_def c(1) 3 Let_def
      by (cases "resource_or_empty op = []")
        (auto intro!: inv_after lift_zfs_triple calm_return with_inv_calm [OF calm_h_fail])
  next
    case 4
    then show ?thesis unfolding zfs_adapter_execute_def c(1) Let_def
      by (auto intro!: inv_after lift_zfs_triple calm_intros zfs_get_triple [where who = who] assms(2))
  next
    case 5
    have "triple (host_inv w m0) (with_inv w m0 P)
      (zfs_execute w (resource_or_empty op) OpRollback who) (\<lambda>_. host_inv w m0)"
      by (rule zfs_execute_triple) (use assms(2) c(2) approved 5 in auto)
    then show ?thesis unfolding zfs_adapter_execute_def c(1) 5 Let_def
      by (auto intro!: inv_after lift_zfs_triple calm_intros)
  next
    case 6
    then show ?thesis unfolding zfs_adapter_execute_def c(1) Let_def option.case
      by (simp add: with_inv_calm calm_h_fail)
  qed
qed

lemma unit_adapter_triple:
  assumes "vetted w SystemdAdapter op free" "\<And>tr. P tr \<Longrightarrow> announced who tr"
  shows "triple (host_inv w m0) (with_inv w m0 P) (systemd_execute w op) (\<lambda>_. host_inv w m0)"
proof -
  obtain c u where op: "op_command op = Some c" "c \<in> {''status'', ''start'', ''stop'', ''restart''}"
    "op_resource op = Some u" "is_valid_service_name u"
    using assms(1) unfolding vetted.simps by (elim exE conjE) (rule that; assumption)
  have "run_ok w who \<lparr>cmd_program = ''sudo'', cmd_dir = None, cmd_args = [''/usr/bin/systemctl'', c, u]\<rparr> tr"
    if "P tr" for tr
    using assms(2) that op perm_unit [of c u w who] by (auto simp: run_ok_def destructive_def)
  then have "triple (host_inv w m0) (with_inv w m0 P) (run_systemctl w c u) (\<lambda>_. host_inv w m0)"
    unfolding run_systemctl_def Let_def by (intro inv_after spawn_or_triple calm_intros)
  then show ?thesis unfolding systemd_execute_def op(1,3) Let_def need_def option.case
    by (intro triple_bind [OF triple_return [where Q = "\<lambda>x s. x = u \<and> with_inv w m0 P s"]])
      (auto intro!: triple_pure inv_after calm_intros)
qed

lemma pct_adapter_triple:
  assumes "vetted w PctAdapter op free" "\<And>tr. P tr \<Longrightarrow> announced who tr"
    and "\<And>tr. P tr \<Longrightarrow> \<not> free \<Longrightarrow> approved_for (resource_or_empty op) who tr"
  shows "triple (host_inv w m0) (with_inv w m0 P) (pct_execute w op) (\<lambda>_. host_inv w m0)"
proof -
  obtain c v where op: "op_command op = Some c" "c \<in> {''status'', ''start'', ''stop'', ''destroy''}"
    "op_resource op = Some v" "is_valid_vmid v" "c = ''destroy'' \<longrightarrow> \<not> free"
    using assms(1) unfolding vetted.simps by (elim exE conjE) (rule that; assumption)
  have "run_ok w who \<lparr>cmd_program = ''sudo'', cmd_dir = None, cmd_args = [''/usr/sbin/pct'', c, v]\<rparr> tr"
    if "P tr" for tr
    using assms(2,3) that op perm_pct [of c v w who]
    by (auto simp: run_ok_def destructive_def resource_or_empty_def)
  then have "triple (host_inv w m0) (with_inv w m0 P) (run_pct w c v) (\<lambda>_. host_inv w m0)"
    unfolding run_pct_def by (intro inv_after spawn_or_triple calm_intros)
  then show ?thesis unfolding pct_execute_def op(1,3) Let_def need_def option.case
    by (intro triple_bind [OF triple_return [where Q = "\<lambda>x s. x = v \<and> with_inv w m0 P s"]])
      (auto intro!: triple_pure inv_after calm_intros)
qed

lemma git_adapter_triple:
  assumes "vetted w GitAdapter op free" "\<And>tr. P tr \<Longrightarrow> announced who tr"
  shows "triple (host_inv w m0) (with_inv w m0 P) (git_execute w op) (\<lambda>_. host_inv w m0)"
proof -
  obtain c path n where op: "op_command op = Some c" "c \<in> {''status'', ''fetch'', ''pull'', ''checkout'', ''log''}"
    "op_resource op = Some path" "repo_path_shape path" "repo_allowed (w_config w n) path"
    "c = ''checkout'' \<longrightarrow> (\<exists>b. arg1 op = Some b \<and> is_valid_branch_name b)"
    using assms(1) unfolding vetted.simps by (elim exE conjE) (rule that; assumption)
  have "git_args c op \<in> {[''status''], [''pull''], [''fetch'', ''origin''], [''log'', ''--oneline'', ''-10'']} \<or>
    (\<exists>b. git_args c op = [''checkout'', b] \<and> is_valid_branch_name b)"
    using op(2) unfolding insert_iff empty_iff
    by (elim disjE) (use op(6) in \<open>auto simp: git_args_def\<close>)
  from perm_git [OF op(4,5) this]
  have "run_ok w who \<lparr>cmd_program = ''/usr/bin/git'', cmd_dir = Some path, cmd_args = git_args c op\<rparr> tr"
    if "P tr" for tr
    using assms(2) that by (simp add: run_ok_def destructive_def)
  then have "triple (host_inv w m0) (with_inv w m0 P) (run_git w c path op) (\<lambda>_. host_inv w m0)"
    unfolding run_git_def by (intro inv_after spawn_or_triple calm_intros)
  then show ?thesis unfolding git_execute_def op(1,3) Let_def need_def option.case
    by (intro triple_bind [OF triple_return [where Q = "\<lambda>x s. x = path \<and> with_inv w m0 P s"]])
      (auto intro!: triple_pure inv_after calm_intros)
qed

lemma calm_write_file: "calm w (write_file w path content)"
  unfolding write_file_def by (intro calm_intros calm_emit) simp_all

lemma calm_ansible: "calm w (queue_ansible w who config playbook)"
  unfolding queue_ansible_def Let_def by (intro calm_intros calm_write_file)

lemma exec_adapter_triple:
  assumes "vetted w ExecAdapter op free" "lasting P" "\<And>tr. P tr \<Longrightarrow> announced who tr"
  shows "triple (host_inv w m0) (with_inv w m0 P) (exec_execute w who op) (\<lambda>_. host_inv w m0)"
proof -
  obtain r n cfg where op: "op_resource op = Some r" "exec (w_config w n) = Some cfg" "exec_enabled cfg"
    "prefix ansible_scheme r \<or> prefix ''/'' r \<and> r \<in> set (allowed_commands cfg)"
    using assms(1) unfolding vetted.simps by (elim exE conjE) (rule that; assumption)
  have split: "act_bind (need e (Some r)) f = f r" for e and f :: "string \<Rightarrow> execution_result handler"
    by (simp add: need_def act_bind_def act_return_def)
  have program: "triple (host_inv w m0) (with_inv w m0 P) (run_program w r op) (\<lambda>_. host_inv w m0)"
    if "strip_prefix ansible_scheme r = None"
  proof -
    have allowed: "prefix ''/'' r" "r \<in> set (allowed_commands cfg)" using op(4) that
      by (auto simp: strip_prefix_def split: if_splits)
    then have "r \<noteq> ''sudo''" by (cases r) auto
    with perm_exec [OF allowed(1) op(2,3) allowed(2), of who "drop 1 (op_args op)"]
    have "run_ok w who \<lparr>cmd_program = r, cmd_dir = None, cmd_args = drop 1 (op_args op)\<rparr> tr"
      if "P tr" for tr
      using assms(3) that by (simp add: run_ok_def destructive_def)
    then show ?thesis unfolding run_program_def by (intro inv_after spawn_or_triple calm_intros)
  qed
  show ?thesis unfolding exec_execute_def op(1) split
    by (rule triple_bind [OF calm_triple [OF calm_draw assms(2)]])
      (auto intro: with_inv_calm calm_ansible program split: option.split)
qed

lemma adapter_triple:
  assumes "vetted w a op free" "lasting P" "\<And>tr. P tr \<Longrightarrow> announced who tr"
    and "\<And>tr. P tr \<Longrightarrow> \<not> free \<Longrightarrow> approved_for (resource_or_empty op) who tr"
  shows "triple (host_inv w m0) (with_inv w m0 P) (adapter_execute w a who op) (\<lambda>_. host_inv w m0)"
  by (cases a) (use assms in \<open>auto simp del: vetted.simps intro: zfs_adapter_triple unit_adapter_triple
      pct_adapter_triple git_adapter_triple exec_adapter_triple\<close>)

section \<open>The handlers keep the invariant\<close>

text \<open>After the line \<open>attempting\<close> of a caller, the caller is announced.\<close>

lemma announce_triple:
  assumes "lasting P"
  shows "triple (host_inv w m0) (with_inv w m0 P)
    (audit_line w who aid op target approved ''attempting'' details hash)
    (\<lambda>_. with_inv w m0 (\<lambda>tr. P tr \<and> announced who tr))"
  unfolding audit_line_def audit_log_def h_fail_def emit_def draw_def using assms
  by (auto simp: triple_def act_wp_def act_bind_def act_modify_def act_fail_def host_inv_def
      lasting_def split: option.split)

text \<open>A command tried between its audit lines.\<close>

lemma tried_triple:
  assumes "triple (host_inv w m0) P m (\<lambda>_. host_inv w m0)" "\<And>r. calm w (f r)"
  shows "triple (host_inv w m0) P (act_bind (act_try m) f) (\<lambda>_. host_inv w m0)"
proof (rule triple_bind [OF triple_try [OF assms(1)]])
  fix r
  show "triple (host_inv w m0) (\<lambda>s. case r of Inl _ \<Rightarrow> host_inv w m0 s | Inr x \<Rightarrow> host_inv w m0 s)
    (f r) (\<lambda>_. host_inv w m0)"
    by (cases r) (simp_all add: inv_calm assms(2))
qed

lemma calm_sum: "(\<And>x. calm w (f x)) \<Longrightarrow> (\<And>y. calm w (g y)) \<Longrightarrow>
    calm w (case r of Inl x \<Rightarrow> f x | Inr y \<Rightarrow> g y)"
  by (cases r) simp_all

lemma audited_triple:
  assumes "lasting P" "calm w granted"
    and "triple (host_inv w m0) (with_inv w m0 (\<lambda>tr. P tr \<and> announced who tr)) run (\<lambda>_. host_inv w m0)"
  shows "triple (host_inv w m0) (with_inv w m0 P)
    (audited w who aid op target approved run details granted) (\<lambda>_. host_inv w m0)"
  unfolding audited_def
  by (rule triple_then [OF announce_triple [OF assms(1)] tried_triple [OF assms(3)]])
    (intro calm_sum calm_intros assms(2))

lemma dataset_or_snapshot_valid: "is_valid_dataset_name d \<Longrightarrow> valid_or_empty d"
proof -
  assume d: "is_valid_dataset_name d"
  then have "split_once (\<lambda>c. c = CHR ''@'') d = None"
    unfolding split_once_None
    by (auto simp: is_valid_dataset_name_def class_name_def word_char_def ascii_alnum_def
        ascii_upper_def ascii_lower_def ascii_digit_def list_all_iff less_eq_char_def
        split: list.splits)
  with d show ?thesis by (simp add: valid_or_empty_def is_valid_dataset_or_snapshot_def)
qed

lemma inv_draw:
  assumes "\<And>n. triple (host_inv w m0) (host_inv w m0) (f (g n)) Q"
  shows "triple (host_inv w m0) (host_inv w m0) (act_bind (draw g) f) Q"
proof (rule triple_bind [OF triple_returns [OF inv_calm [OF calm_draw] returns_draw]])
  fix x
  show "triple (host_inv w m0) (\<lambda>s. host_inv w m0 s \<and> (\<exists>n. x = g n)) (f x) Q"
    using assms by (auto simp: triple_def)
qed

lemmas inv_then = triple_then [OF inv_calm]

lemma inv_h_fail: "triple (host_inv w m0) (host_inv w m0) (h_fail e) (\<lambda>_. host_inv w m0)"
  by (rule inv_calm [OF calm_h_fail])

lemma snapshot_inv: "triple (host_inv w m0) (host_inv w m0) (zfs_snapshot w who d n) (\<lambda>_. host_inv w m0)"
proof -
  have run: "triple (host_inv w m0) (with_inv w m0 (\<lambda>tr. True \<and> announced who tr))
    (zfs_execute w (d @ ''@'' @ n) OpSnapshot who) (\<lambda>_. host_inv w m0)"
    if "is_valid_dataset_name d" "is_valid_snapshot_name n"
    by (rule zfs_execute_triple) (use that dataset_or_snapshot_valid in auto)
  have body: "triple (host_inv w m0) (host_inv w m0)
    (audited w who aid op target None (zfs_execute w (d @ ''@'' @ n) OpSnapshot who) (\<lambda>output. output)
      (act_return ())) (\<lambda>_. host_inv w m0)"
    if "is_valid_dataset_name d" "is_valid_snapshot_name n" for aid op target
    using audited_triple [OF _ calm_return run [OF that], of aid op target None] by simp
  show ?thesis unfolding zfs_snapshot_def Let_def
    by (intro inv_then inv_draw triple_if inv_h_fail calm_count)
      (rule inv_after [OF body], simp_all only: not_not calm_return)
qed

lemma list_inv: "triple (host_inv w m0) (host_inv w m0) (zfs_list w who d t) (\<lambda>_. host_inv w m0)"
proof -
  have "triple (host_inv w m0) (with_inv w m0 (\<lambda>tr. True \<and> announced who tr))
    (zfs_exec_list w d t) (\<lambda>_. host_inv w m0)"
    by (rule zfs_exec_list_triple [where who = who]) simp
  from audited_triple [OF _ calm_return this]
  have "triple (host_inv w m0) (host_inv w m0)
    (audited w who aid op target None (zfs_exec_list w d t) details (act_return ())) (\<lambda>_. host_inv w m0)"
    for aid op target details by simp
  then show ?thesis unfolding zfs_list_def
    by (intro inv_then inv_draw inv_after calm_intros)
qed

lemma destroy_body:
  assumes "lasting P" "valid_or_empty d"
    and "\<And>tr. P tr \<Longrightarrow> approval_demanded w \<Longrightarrow> approved_for d who tr" "calm w granted"
  shows "triple (host_inv w m0) (with_inv w m0 P)
    (audited w who aid op target approved (zfs_execute w d OpDestroy who) details granted)
    (\<lambda>_. host_inv w m0)"
  by (rule audited_triple [OF assms(1,4)] zfs_execute_triple)+ (use assms(2,3) in auto)

lemma inv_ask: "triple (host_inv w m0) (host_inv w m0)
    (act_bind (ask_approval w who op target) (\<lambda>(aid, shown). act_return (f aid shown))) (\<lambda>_. host_inv w m0)"
  by (intro inv_calm calm_bind calm_ask) (simp add: calm_return split: prod.split)

lemma destroy_inv: "triple (host_inv w m0) (host_inv w m0) (zfs_destroy w who d token) (\<lambda>_. host_inv w m0)"
proof -
  have direct: "triple (host_inv w m0) (host_inv w m0) (destroy_direct w who d) (\<lambda>_. host_inv w m0)"
    if "valid_or_empty d" "\<not> approval_demanded w"
  proof -
    have "triple (host_inv w m0) (with_inv w m0 (\<lambda>_. True))
      (audited w who aid op target None (zfs_execute w d OpDestroy who) details (act_return ()))
      (\<lambda>_. host_inv w m0)" for aid op target details
      by (rule destroy_body) (use that in \<open>auto intro: calm_return\<close>)
    then show ?thesis unfolding destroy_direct_def
      by (intro inv_draw inv_after calm_return) simp
  qed
  have tokened: "triple (host_inv w m0) (host_inv w m0) (destroy_with_token w who d t) (\<lambda>_. host_inv w m0)"
    if "valid_or_empty d" for t
  proof -
    have run: "triple (host_inv w m0) (with_inv w m0 (\<lambda>tr. True \<and> (r \<noteq> None \<longrightarrow> approved_for d who tr)))
      (case r of None \<Rightarrow> h_fail InvalidTokenErr
       | Some aid0 \<Rightarrow>
         act_bind (draw (w_uuid w)) (\<lambda>aid.
         act_bind (audited w who aid ''zfs-destroy'' d (Some aid0)
           (zfs_execute w d OpDestroy who) (\<lambda>output. output) (count_metric ApprovalsGranted)) (\<lambda>_.
         act_return (DestroySuccess aid (''Destroyed '' @ d))))) (\<lambda>_. host_inv w m0)" for r
    proof (cases r)
      case None
      then show ?thesis by (simp add: inv_h_fail)
    next
      case (Some aid0)
      have P: "lasting (approved_for d who)" by simp
      show ?thesis unfolding Some option.case
        by (rule triple_conseq [OF triple_bind [OF calm_triple [OF calm_draw P]
              inv_after [OF destroy_body [OF P that]]]])
          (auto intro: calm_count calm_return)
    qed
    show ?thesis unfolding destroy_with_token_def
      using triple_bind [OF consume_triple [of "\<lambda>_. True" w m0 t d who] run] by simp
  qed
  show ?thesis unfolding zfs_destroy_def
    by (intro inv_then inv_draw triple_if inv_h_fail calm_count calm_check_rate)
      (auto intro!: direct tokened inv_ask
        simp: valid_or_empty_def approval_demanded_def split: option.split)
qed

lemma calm_failure: "(\<And>e. calm w (f e)) \<Longrightarrow> calm w m \<Longrightarrow>
    calm w (case x of Failed e \<Rightarrow> f e | Panicked \<Rightarrow> m)"
  by (cases x) simp_all

lemma op_execute_triple:
  assumes "vetted w a op free" "lasting P" "\<And>tr. P tr \<Longrightarrow> announced who tr"
    and "\<And>tr. P tr \<Longrightarrow> \<not> free \<Longrightarrow> approved_for (resource_or_empty op) who tr"
  shows "triple (host_inv w m0) (with_inv w m0 P) (op_execute w who a op aid) (\<lambda>_. host_inv w m0)"
proof -
  have "triple (host_inv w m0) (with_inv w m0 P) (adapter_execute w a who op) (\<lambda>_. host_inv w m0)"
    by (rule adapter_triple [OF assms(1,2)]) (fact assms)+
  then show ?thesis unfolding op_execute_def
    by (rule tried_triple) (intro calm_sum calm_failure calm_intros)
qed

lemma dispatch_inv: "triple (host_inv w m0) (host_inv w m0) (host_op_dispatch w who op) (\<lambda>_. host_inv w m0)"
proof -
  let ?A = "\<lambda>tr. True \<and> announced who tr"
  let ?attempt = "\<lambda>aid. audit_line w who aid (op_label op) (resource_or_empty op) None ''attempting'' None None"
  have announce: "triple (host_inv w m0) (host_inv w m0) (?attempt aid) (\<lambda>_. with_inv w m0 ?A)" for aid
    using announce_triple [of "\<lambda>_. True"] by simp
  have decide: "triple (host_inv w m0) (with_inv w m0 ?A) (adapter_validate w a op)
    (\<lambda>d s. with_inv w m0 ?A s \<and> passes w a op d)" for a
    by (rule triple_returns [OF calm_triple [OF calm_validate] adapter_validate_returns]) auto
  have token: "triple (host_inv w m0) (with_inv w m0 ?A)
    (act_bind (do_consume_token w t (resource_or_empty op) (cn who)) (\<lambda>r.
      case r of
        None \<Rightarrow> h_fail InvalidTokenErr
      | Some aid0 \<Rightarrow>
          act_then (audit_line w who aid (op_label op) (resource_or_empty op) (Some aid0)
            ''approval_consumed'' None None) (op_execute w who a op aid))) (\<lambda>_. host_inv w m0)"
    if "vetted w a op False" for t a aid
  proof (rule triple_bind [OF consume_triple])
    show "lasting ?A" by auto
    fix r :: "string option"
    let ?P = "\<lambda>tr. ?A tr \<and> (r \<noteq> None \<longrightarrow> approved_for (resource_or_empty op) who tr)"
    have P: "lasting ?P" by auto
    have line: "triple (host_inv w m0) (with_inv w m0 ?P) (audit_line w who aid (op_label op)
      (resource_or_empty op) (Some aid0) ''approval_consumed'' None None) (\<lambda>_. with_inv w m0 ?P)" for aid0
      by (rule calm_triple [OF calm_audit_line P])
    have run: "triple (host_inv w m0) (with_inv w m0 ?P) (op_execute w who a op aid) (\<lambda>_. host_inv w m0)"
      if "r \<noteq> None"
      by (rule op_execute_triple [OF \<open>vetted w a op False\<close> P]) (use that in auto)
    show "triple (host_inv w m0) (with_inv w m0 ?P)
      (case r of
        None \<Rightarrow> h_fail InvalidTokenErr
      | Some aid0 \<Rightarrow>
          act_then (audit_line w who aid (op_label op) (resource_or_empty op) (Some aid0)
            ''approval_consumed'' None None) (op_execute w who a op aid)) (\<lambda>_. host_inv w m0)"
    proof (cases r)
      case None
      then show ?thesis by (auto intro: with_inv_calm calm_h_fail)
    next
      case (Some aid0)
      with triple_then [OF line run] show ?thesis by simp
    qed
  qed
  have free: "triple (host_inv w m0) (with_inv w m0 ?A) (op_execute w who a op aid) (\<lambda>_. host_inv w m0)"
    if "vetted w a op True" for a aid
    by (rule op_execute_triple [OF that]) auto
  have ask: "triple (host_inv w m0) (with_inv w m0 ?A)
    (act_bind (ask_approval w who (op_label op) (resource_or_empty op)) (\<lambda>(id0, shown).
      act_return (f id0 shown))) (\<lambda>_. host_inv w m0)" for f
    by (rule triple_conseq [OF inv_ask]) auto
  have deny: "triple (host_inv w m0) (with_inv w m0 ?A)
    (act_then (count_metric PolicyDenials) (act_then (audit_line w who aid (op_label op)
      (resource_or_empty op) None ''denied'' (Some reason) None) (h_fail (PolicyDenied reason))))
    (\<lambda>_. host_inv w m0)" for aid reason
    by (intro with_inv_calm calm_intros)
  show ?thesis unfolding host_op_dispatch_def
  proof (rule inv_then [OF calm_count inv_then [OF calm_check_rate inv_draw]],
      rule triple_bind [OF inv_calm [OF calm_need]], rule triple_then [OF announce],
      rule triple_bind [OF decide], goal_cases)
    case (1 aid a d)
    show ?case
      by (rule triple_conseq [where P = "\<lambda>s. passes w a op d \<and> with_inv w m0 ?A s"],
          rule triple_pure, cases d; cases "op_approval_token op";
          simp only: policy_decision.case option.case passes.simps;
          (rule deny | rule ask | rule free token, assumption)?)
  qed
qed

lemma request_inv: "host_inv w m0 s \<Longrightarrow> host_inv w m0 (handle w s req)"
  by (cases req)
    (simp_all add: triple_run [OF snapshot_inv] triple_run [OF list_inv] triple_run [OF destroy_inv]
      triple_run [OF dispatch_inv] triple_run [OF inv_calm [OF calm_submit]]
      triple_run [OF inv_calm [OF calm_webhook]] triple_run [OF inv_calm [OF calm_list_pending]]
      triple_run [OF inv_calm [OF calm_list_all]] triple_run [OF inv_calm [OF calm_cleanup]]
      triple_run [OF inv_calm [OF calm_evict]])

interpretation agent: invariant_machine "handle w" "host_inv w m0"
  by unfold_locales (rule request_inv)

section \<open>Properties\<close>

lemma initial_inv: "host_inv w (hs_approvals (initial_host_state cfg)) (initial_host_state cfg)"
  by (simp add: host_inv_def initial_host_state_def history_start)

lemma reachable_run_ok:
  "hs_trace (run_ops (handle w) (initial_host_state cfg) reqs) = later @ Ran c # earlier \<Longrightarrow>
   \<exists>who. run_ok w who c earlier"
  using agent.run_inv [OF initial_inv, of w cfg reqs] trace_ok_at [of w later c earlier]
  by (simp add: host_inv_def)

lemma managed_append: "managed (xs @ ys) = managed xs @ managed ys"
  by (induction xs rule: managed.induct) simp_all

lemma managed_split: "Managed ev \<in> set tr \<Longrightarrow> \<exists>newer older. managed tr = newer @ ev # older"
  by (metis in_set_conv_decomp managed.simps(2) managed_append)

lemma reachable_history:
  "history (manager_step w) (hs_approvals (initial_host_state cfg))
     (managed (hs_trace (run_ops (handle w) (initial_host_state cfg) reqs)))
     (hs_approvals (run_ops (handle w) (initial_host_state cfg) reqs))"
  using agent.run_inv [OF initial_inv, of w cfg reqs] by (simp add: host_inv_def)



section \<open>An example run\<close>

text \<open>A destroy request, its confirmation by Signal, and the request again with the token.\<close>

definition ex_config :: host_config where
  "ex_config = default_host_config\<lparr>approval := (approval default_host_config)
     \<lparr>signal_webhook := Some ''http://signal'', allowed_approvers := [''+15555550001'']\<rparr>,
     rate_limit := (rate_limit default_host_config)\<lparr>rate_enabled := False\<rparr>\<rparr>"

definition ex_world :: host_world where
  "ex_world = \<lparr>w_clock = int, w_instant = \<lambda>n. n, w_uuid = \<lambda>_. ''id-1'', w_token = \<lambda>_. ''tok-1'',
     w_config = \<lambda>_. ex_config, w_audit_error = \<lambda>_. None,
     w_process = \<lambda>_ _. Inr \<lparr>po_success = True, po_code = Some 0, po_stdout = [], po_stderr = []\<rparr>,
     w_file_error = \<lambda>_ _. None, w_is_dir = \<lambda>_ _. True, w_plugin = \<lambda>_ _ _. Inl [],
     w_http_plugin = \<lambda>_ _ _. Inl [], w_agents = agents ex_config, w_sha256 = \<lambda>t. t, w_add_secs = ex_add,
     w_upper = \<lambda>t. t, w_lower = \<lambda>t. t, w_regex = \<lambda>_. None, w_lossy = \<lambda>t. t,
     w_rfc3339 = \<lambda>_. Some 0, w_rfc3339_text = \<lambda>_. [], w_plugin_parse = \<lambda>_. None,
     w_json_pretty = \<lambda>_. []\<rparr>"

definition ex_who :: client_identity where
  "ex_who = \<lparr>cn = ''librarian'', uid = 1000, username = ''librarian'', fingerprint = []\<rparr>"

definition ex_ask :: request where
  "ex_ask = ReqDestroy ex_who ''tank/media'' None"

definition ex_confirm :: request where
  "ex_confirm = ReqWebhook ''tok-1'' ''CONFIRM'' ''+15555550001'' ''now''"

definition ex_destroy :: request where
  "ex_destroy = ReqDestroy ex_who ''tank/media'' (Some ''tok-1'')"

lemma ex_valid: "is_valid_dataset_or_snapshot ''tank/media''"
  by code_simp

lemma ex_required: "requires_approval_for_agent r ex_config ''zfs-destroy'' t a"
  "requires_approval_for_agent r ex_config ''zfs-rollback'' t a"
  by (simp_all add: requires_approval_for_agent_def ex_config_def default_host_config_def
      default_host_rules_def default_rule_def)

lemma ex_demanded: "approval_demanded ex_world"
  by (auto simp: approval_demanded_def ex_world_def ex_required)

lemma ex_fields: "w_clock ex_world = int" "w_instant ex_world = (\<lambda>n. n)" "w_uuid ex_world = (\<lambda>_. ''id-1'')"
  "w_token ex_world = (\<lambda>_. ''tok-1'')" "w_config ex_world = (\<lambda>_. ex_config)" "w_audit_error ex_world = (\<lambda>_. None)"
  "w_sha256 ex_world = (\<lambda>t. t)" "w_add_secs ex_world = ex_add" "w_upper ex_world = (\<lambda>t. t)"
  "w_rfc3339 ex_world = (\<lambda>_. Some 0)" "w_lossy ex_world = (\<lambda>t. t)"
  "w_process ex_world = (\<lambda>_ _. Inr \<lparr>po_success = True, po_code = Some 0, po_stdout = [], po_stderr = []\<rparr>)"
  by (simp_all add: ex_world_def)

lemma ex_rate: "rate_check (new_rate_limiter (rate_limit ex_config)) t c = (Inr (), new_rate_limiter (rate_limit ex_config))"
  by (simp add: rate_check_def ex_config_def)

lemma ex_ident: "cn ex_who = ''librarian''" "uid ex_who = 1000" "username ex_who = ''librarian''"
  by (simp_all add: ex_who_def)

lemmas ex_eval = act_then_def act_bind_def act_try_def map_err_def act_lift_def count_metric_def emit_def act_modify_def
  check_rate_def draw_def ex_fields ex_rate ex_valid ex_required ex_ident audit_line_def audit_log_def
  act_return_def Let_def

definition ex_s1 :: host_state where
  "ex_s1 = handle ex_world (initial_host_state ex_config) ex_ask"

definition ex_s2 :: host_state where
  "ex_s2 = handle ex_world ex_s1 ex_confirm"

definition ex_s3 :: host_state where
  "ex_s3 = handle ex_world ex_s2 ex_destroy"

lemma ex_signal: "signal_webhook (approval ex_config) = Some ''http://signal''"
  "allowed_approvers (approval ex_config) = [''+15555550001'']"
  "ttl_seconds (approval ex_config) = 300"
  by (simp_all add: ex_config_def default_host_config_def)

definition ex_asked :: approval_request where
  "ex_asked = \<lparr>req_id = ''id-1'', req_caller = ''librarian'', req_caller_uid = 1000,
     req_operation = ''zfs-destroy'', req_target = ''tank/media'', requested_at = 3,
     zeroclaw_request_id = None\<rparr>"

definition ex_entry :: "bool \<Rightarrow> bool \<Rightarrow> string option \<Rightarrow> token_entry" where
  "ex_entry spent approved who = \<lparr>te_request = ex_asked, te_hash = ''tok-1'',
     te_expires = 300000000005, te_used = spent, te_approved = approved, approved_by = who\<rparr>"

definition ex_mgr :: "token_entry \<Rightarrow> approval_manager" where
  "ex_mgr e = \<lparr>tokens = [(''tok-1'', e)], by_id = [(''id-1'', ''tok-1'')], mgr_ttl = 300,
     mgr_signal = Some \<lparr>webhook_url = ''http://signal'', sc_approvers = [''+15555550001'']\<rparr>\<rparr>"

definition ex_line :: "int \<Rightarrow> string \<Rightarrow> string option \<Rightarrow> string option \<Rightarrow> effect" where
  "ex_line now res details hash = Audited
     \<lparr>ae_timestamp = now, audit_id = ''id-1'', ae_caller = ''librarian'', ae_caller_uid = 1000,
      ae_operation = ''zfs-destroy'', ae_target = ''tank/media'', ae_approval_id = Some ''id-1'',
      ae_result = res, ae_details = details, ae_token_hash = hash\<rparr>"

definition ex_payload1 :: signal_payload where
  "ex_payload1 = \<lparr>sp_token = ''tok-1'', confirmation_code = ''CONFIRM'', approver = ''+15555550001'',
     sp_timestamp = 0\<rparr>"

definition ex_earlier :: "effect list" where
  "ex_earlier =
     [ex_line 14 ''attempting'' None None, Managed (Consumed 12 ''tok-1'' ''tank/media'' ''librarian'' ''id-1''),
      Counted (ZfsOperations ''destroy''), Counted Requests,
      Managed (Confirmed 8 9 ex_payload1), Counted Requests] @ hs_trace ex_s1"

lemma ex_s1: "hs_limiter ex_s1 = new_rate_limiter (rate_limit ex_config)"
  "hs_approvals ex_s1 = ex_mgr (ex_entry False False None)" "hs_tick ex_s1 = 8"
  by (simp_all add: ex_s1_def ex_eval ex_ask_def zfs_destroy_def initial_host_state_def ask_approval_def
    do_create_approval_def create_approval_def ex_add_def token_audit_def ex_signal
    new_approval_manager_def sint_u64_def notify_approval_request_def ex_mgr_def ex_entry_def ex_asked_def)

lemma ex_confirmed:
  "handle_signal_confirmation (\<lambda>t. t) (\<lambda>t. t) 8 9 ex_payload1 (ex_mgr (ex_entry False False None)) =
     (Inr (), ex_mgr (ex_entry False True (Some ''+15555550001'')))"
  by (simp add: handle_signal_confirmation_def ex_mgr_def ex_entry_def validate_callback_def
    ex_payload1_def to_uppercase_def is_ascii_def upper_byte_def ascii_lower_def less_eq_char_def
    num_seconds_def)

lemma ex_s2: "ex_s2 = ex_s1\<lparr>hs_approvals := ex_mgr (ex_entry False True (Some ''+15555550001'')),
    hs_trace := Managed (Confirmed 8 9 ex_payload1) # Counted Requests # hs_trace ex_s1, hs_tick := 10\<rparr>"
  using ex_confirmed
  by (simp add: ex_s2_def ex_confirm_def ex_eval webhook_handler_def do_confirm_def ex_s1 ex_payload1_def)

lemma ex_s3: "hs_trace ex_s3 =
    [ex_line 17 ''success'' (Some []) None, Counted ApprovalsGranted] @
    Ran \<lparr>cmd_program = ''sudo'', cmd_dir = None,
      cmd_args = [''-u'', ''librarian'', ''zfs'', ''destroy'', ''tank/media'']\<rparr> # ex_earlier"
  by (simp add: ex_s3_def ex_s2 ex_s1 ex_destroy_def ex_eval zfs_destroy_def destroy_with_token_def
    do_consume_token_def validate_and_consume_token_def ex_mgr_def ex_entry_def ex_asked_def
    consumable_def audited_def zfs_execute_def run_with_sudo_as_user_def zfs_outcome_def spawn_def
    ex_earlier_def ex_line_def)

lemma ex_trace: "hs_trace (run_ops (handle ex_world) (initial_host_state ex_config) [ex_ask, ex_confirm, ex_destroy]) =
    [ex_line 17 ''success'' (Some []) None, Counted ApprovalsGranted] @
    Ran \<lparr>cmd_program = ''sudo'', cmd_dir = None,
      cmd_args = [''-u'', ''librarian'', ''zfs'', ''destroy'', ''tank/media'']\<rparr> # ex_earlier"
  using ex_s3 by (simp add: ex_s1_def ex_s2_def ex_s3_def)



end
