(* ===== verification/Chat_Types.thy ===== *)
theory Chat_Types
  imports Json_Value
begin

text \<open>
  The chat-completion data of the model gateway (\<open>crates/calciforge/src/proxy/openai.rs\<close>), the
  JSON a request is sent as, and the estimate of a request's tokens
  (\<open>proxy/token_estimator.rs\<close>).

  An \<open>f32\<close> is its 32 bits; its arithmetic and its JSON text are parameters.
\<close>

type_synonym f32 = "32 word"

section \<open>JSON objects and numbers\<close>

text \<open>
  A \<open>serde_json::Map\<close> without the feature \<open>preserve_order\<close> is a \<open>BTreeMap\<close>: the list of its
  members in the order of the keys.
\<close>

type_synonym json_map = "(string \<times> json) list"

fun btree_insert :: "string \<Rightarrow> 'v \<Rightarrow> (string \<times> 'v) list \<Rightarrow> (string \<times> 'v) list" where
  "btree_insert k v [] = [(k, v)]"
| "btree_insert k v ((k', v') # m) =
     (if k = k' then (k, v) # m
      else if k < k' then (k, v) # (k', v') # m
      else (k', v') # btree_insert k v m)"

text \<open>\<open>Map::extend\<close>, which also collects.\<close>

fun btree_extend :: "(string \<times> 'v) list \<Rightarrow> (string \<times> 'v) list \<Rightarrow> (string \<times> 'v) list" where
  "btree_extend m [] = m"
| "btree_extend m ((k, v) # kvs) = btree_extend (btree_insert k v m) kvs"

definition btree_wf :: "(string \<times> 'v) list \<Rightarrow> bool" where
  "btree_wf m \<longleftrightarrow> sorted (map fst m) \<and> distinct (map fst m)"

lemma btree_insert_keys: "set (map fst (btree_insert k v m)) = insert k (set (map fst m))"
  by (induction k v m rule: btree_insert.induct) auto

lemma btree_wf_Cons:
  "btree_wf ((k, v) # m) \<longleftrightarrow> btree_wf m \<and> (\<forall>x \<in> set (map fst m). k < x)"
  by (auto simp: btree_wf_def order_less_le)

lemma btree_insert_wf: "btree_wf m \<Longrightarrow> btree_wf (btree_insert k v m)"
proof (induction k v m rule: btree_insert.induct)
  case (2 k v k' v' m)
  then show ?case
    using btree_insert_keys [of k v m]
    by (cases k k' rule: linorder_cases) (auto simp: btree_wf_Cons)
qed (simp add: btree_wf_def)

lemma btree_insert_map_of: "map_of (btree_insert k v m) = (map_of m)(k \<mapsto> v)"
  by (induction k v m rule: btree_insert.induct) auto

lemma btree_extend_map_of: "map_of (btree_extend m kvs) = map_of m ++ map_of (rev kvs)"
  by (induction m kvs rule: btree_extend.induct)
    (auto simp: btree_insert_map_of map_add_def fun_eq_iff split: option.split)

lemma btree_extend_wf: "btree_wf m \<Longrightarrow> btree_wf (btree_extend m kvs)"
  by (induction m kvs rule: btree_extend.induct) (simp_all add: btree_insert_wf)

lemma btree_extend_keys:
  "set (map fst (btree_extend m kvs)) = set (map fst m) \<union> set (map fst kvs)"
  by (induction m kvs rule: btree_extend.induct) (auto simp: btree_insert_keys [simplified])

text \<open>\<open>Value::as_u64\<close>: an integer in range, written without sign, point or exponent.\<close>

definition digits_value :: "string \<Rightarrow> nat" where
  "digits_value s = foldl (\<lambda>n c. 10 * n + digit_value c) 0 s"

definition as_u64 :: "json \<Rightarrow> nat option" where
  "as_u64 v =
     (case v of
        JNum s \<Rightarrow>
          if s \<noteq> [] \<and> list_all ascii_digit s \<and> digits_value s < 2 ^ 64
          then Some (digits_value s) else None
      | _ \<Rightarrow> None)"

definition as_object :: "json \<Rightarrow> json_map option" where
  "as_object v = (case v of JObj kvs \<Rightarrow> Some kvs | _ \<Rightarrow> None)"

section \<open>Requests and responses\<close>

record image_url =
  iu_url :: string
  iu_detail :: "string option"

record content_part =
  cp_type :: string
  cp_text :: "string option"
  cp_image_url :: "image_url option"

datatype message_content = ContentText string | ContentParts "content_part list"

definition to_text :: "message_content \<Rightarrow> string option" where
  "to_text c =
     (case c of
        ContentText s \<Rightarrow> Some s
      | ContentParts parts \<Rightarrow>
          (let t = concat (List.map_filter cp_text (filter (\<lambda>p. cp_type p = ''text'') parts))
           in if t = [] then None else Some t))"

record function_call =
  fc_name :: string
  fc_arguments :: string

record tool_call =
  tc_id :: string
  tc_type :: string
  tc_function :: function_call

record chat_message =
  cm_role :: string
  cm_content :: "message_content option"
  cm_name :: "string option"
  cm_tool_calls :: "tool_call list option"
  cm_tool_call_id :: "string option"
  cm_reasoning :: "string option"
  cm_reasoning_content :: "string option"

record function_definition =
  fd_name :: string
  fd_description :: "string option"
  fd_parameters :: json

record tool_definition =
  tf_type :: string
  tf_function :: function_definition

datatype tool_choice = ChoiceMode string | ChoiceSpecific string string

record chat_request =
  cr_model :: string
  cr_messages :: "chat_message list"
  cr_max_tokens :: "u32 option"
  cr_temperature :: "f32 option"
  cr_top_p :: "f32 option"
  cr_n :: "u32 option"
  cr_stream :: "bool option"
  cr_stop :: "string list option"
  cr_presence_penalty :: "f32 option"
  cr_frequency_penalty :: "f32 option"
  cr_logit_bias :: "(string \<times> f32) list option"
  cr_user :: "string option"
  cr_response_format :: "string option"
  cr_tools :: "tool_definition list option"
  cr_tool_choice :: "tool_choice option"
  cr_extra_body :: json_map

definition should_stream :: "chat_request \<Rightarrow> bool" where
  "should_stream req = (case cr_stream req of Some b \<Rightarrow> b | None \<Rightarrow> False)"

definition reserved_fields :: "string list" where
  "reserved_fields =
     [''model'', ''messages'', ''max_tokens'', ''temperature'', ''top_p'', ''n'', ''stream'',
      ''stop'', ''presence_penalty'', ''frequency_penalty'', ''logit_bias'', ''user'',
      ''response_format'', ''tools'', ''tool_choice'']"

definition is_reserved_chat_completion_field :: "string \<Rightarrow> bool" where
  "is_reserved_chat_completion_field key \<longleftrightarrow> key \<in> set reserved_fields"

record usage =
  us_prompt_tokens :: u32
  us_completion_tokens :: u32
  us_total_tokens :: u32

record choice =
  ch_index :: u32
  ch_message :: chat_message
  ch_finish_reason :: "string option"
  ch_logprobs :: "json option"

record chat_response =
  rp_id :: string
  rp_object :: string
  rp_created :: u64
  rp_model :: string
  rp_choices :: "choice list"
  rp_usage :: usage
  rp_system_fingerprint :: "string option"
  rp_extra_body :: json_map

definition or_receipt :: "json_map \<Rightarrow> string option" where
  "or_receipt m = Option.bind (map_of m ''receipt_id'') as_str"

definition wardwright_receipt_id :: "chat_response \<Rightarrow> string option" where
  "wardwright_receipt_id resp =
     (case Option.bind (map_of (rp_extra_body resp) ''wardwright'') (get_str ''receipt_id'') of
        Some r \<Rightarrow> Some r
      | None \<Rightarrow> or_receipt (rp_extra_body resp))"

section \<open>The JSON of a request\<close>

text \<open>
  What \<open>serde_json::to_value\<close> makes of the derived \<open>Serialize\<close>: a field is a member, absent
  values are \<open>null\<close> unless skipped, and the extension fields are members beside the known ones.
\<close>

definition json_u32 :: "u32 \<Rightarrow> json" where
  "json_u32 n = JNum (show_nat (unat n))"

definition json_opt :: "('a \<Rightarrow> json) \<Rightarrow> 'a option \<Rightarrow> json" where
  "json_opt f x = (case x of None \<Rightarrow> JNull | Some y \<Rightarrow> f y)"

definition some_field :: "string \<Rightarrow> ('a \<Rightarrow> json) \<Rightarrow> 'a option \<Rightarrow> json_map" where
  "some_field k f x = (case x of None \<Rightarrow> [] | Some y \<Rightarrow> [(k, f y)])"

definition json_struct :: "json_map \<Rightarrow> json" where
  "json_struct kvs = JObj (btree_extend [] kvs)"

definition image_url_json :: "image_url \<Rightarrow> json" where
  "image_url_json u = json_struct ((''url'', JStr (iu_url u)) # some_field ''detail'' JStr (iu_detail u))"

definition content_part_json :: "content_part \<Rightarrow> json" where
  "content_part_json p =
     json_struct ((''type'', JStr (cp_type p)) # some_field ''text'' JStr (cp_text p) @
       some_field ''image_url'' image_url_json (cp_image_url p))"

definition content_json :: "message_content \<Rightarrow> json" where
  "content_json c =
     (case c of ContentText s \<Rightarrow> JStr s | ContentParts ps \<Rightarrow> JArr (map content_part_json ps))"

definition tool_call_json :: "tool_call \<Rightarrow> json" where
  "tool_call_json c =
     json_struct [(''id'', JStr (tc_id c)), (''type'', JStr (tc_type c)),
       (''function'', json_struct [(''name'', JStr (fc_name (tc_function c))),
          (''arguments'', JStr (fc_arguments (tc_function c)))])]"

definition message_json :: "chat_message \<Rightarrow> json" where
  "message_json m =
     json_struct ((''role'', JStr (cm_role m)) #
       some_field ''content'' content_json (cm_content m) @ some_field ''name'' JStr (cm_name m) @
       some_field ''tool_calls'' (\<lambda>cs. JArr (map tool_call_json cs)) (cm_tool_calls m) @
       some_field ''tool_call_id'' JStr (cm_tool_call_id m) @
       some_field ''reasoning'' JStr (cm_reasoning m) @
       some_field ''reasoning_content'' JStr (cm_reasoning_content m))"

definition tool_definition_json :: "tool_definition \<Rightarrow> json" where
  "tool_definition_json t =
     json_struct [(''type'', JStr (tf_type t)),
       (''function'', json_struct ((''name'', JStr (fd_name (tf_function t))) #
          some_field ''description'' JStr (fd_description (tf_function t)) @
          [(''parameters'', fd_parameters (tf_function t))]))]"

definition tool_choice_json :: "tool_choice \<Rightarrow> json" where
  "tool_choice_json c =
     (case c of
        ChoiceMode s \<Rightarrow> JStr s
      | ChoiceSpecific ty name \<Rightarrow>
          json_struct [(''type'', JStr ty), (''function'', json_struct [(''name'', JStr name)])])"

definition known_fields :: "(f32 \<Rightarrow> json) \<Rightarrow> chat_request \<Rightarrow> json_map" where
  "known_fields num req =
     [(''model'', JStr (cr_model req)),
      (''messages'', JArr (map message_json (cr_messages req))),
      (''max_tokens'', json_opt json_u32 (cr_max_tokens req)),
      (''temperature'', json_opt num (cr_temperature req)),
      (''top_p'', json_opt num (cr_top_p req)),
      (''n'', json_opt json_u32 (cr_n req)),
      (''stream'', json_opt JBool (cr_stream req)),
      (''stop'', json_opt (\<lambda>ss. JArr (map JStr ss)) (cr_stop req)),
      (''presence_penalty'', json_opt num (cr_presence_penalty req)),
      (''frequency_penalty'', json_opt num (cr_frequency_penalty req)),
      (''logit_bias'',
         json_opt (\<lambda>m. json_struct (map (\<lambda>(k, x). (k, num x)) m)) (cr_logit_bias req)),
      (''user'', json_opt JStr (cr_user req)),
      (''response_format'', json_opt (\<lambda>t. json_struct [(''type'', JStr t)]) (cr_response_format req)),
      (''tools'', json_opt (\<lambda>ts. JArr (map tool_definition_json ts)) (cr_tools req)),
      (''tool_choice'', json_opt tool_choice_json (cr_tool_choice req))]"

definition request_json :: "(f32 \<Rightarrow> json) \<Rightarrow> chat_request \<Rightarrow> json" where
  "request_json num req = json_struct (known_fields num req @ cr_extra_body req)"

lemma known_fields_keys: "map fst (known_fields num req) = reserved_fields"
  by (simp add: known_fields_def reserved_fields_def)

lemma reserved_fields_distinct: "distinct reserved_fields"
  by (simp add: reserved_fields_def)

lemma json_struct_get: "json_get k (json_struct kvs) = map_of (rev kvs) k"
  by (simp add: json_get_def json_struct_def btree_extend_map_of)

text \<open>A known field cannot be replaced by an extension that is not reserved.\<close>

lemma request_json_known:
  assumes "list_all (\<lambda>k. \<not> is_reserved_chat_completion_field k) (map fst (cr_extra_body req))"
    and "(k, v) \<in> set (known_fields num req)"
  shows "json_get k (request_json num req) = Some v"
proof -
  have "k \<in> set reserved_fields"
    using assms(2) by (force simp flip: known_fields_keys [of num req])
  then have "k \<notin> set (map fst (cr_extra_body req))"
    using assms(1) by (auto simp: list_all_iff is_reserved_chat_completion_field_def)
  then have "map_of (rev (cr_extra_body req)) k = None" by (simp add: map_of_eq_None_iff)
  moreover have "map_of (rev (known_fields num req)) k = Some v"
    using assms(2) reserved_fields_distinct
    by (simp add: map_of_eq_Some_iff rev_map [symmetric] known_fields_keys)
  ultimately show ?thesis
    by (simp add: request_json_def json_struct_get map_add_Some_iff)
qed

lemma request_json_extension:
  assumes "btree_wf (cr_extra_body req)" "map_of (cr_extra_body req) k = Some v"
  shows "json_get k (request_json num req) = Some v"
proof -
  have "map_of (rev (cr_extra_body req)) k = Some v"
    using assms by (simp add: btree_wf_def map_of_eq_Some_iff rev_map [symmetric])
  then show ?thesis by (simp add: request_json_def json_struct_get map_add_Some_iff)
qed

section \<open>Token estimates\<close>

definition sat_add :: "u32 \<Rightarrow> u32 \<Rightarrow> u32" where
  "sat_add a b = (if unat a + unat b < 2 ^ 32 then a + b else - 1)"

lemma sat_add_ge: "a \<le> sat_add a b" "b \<le> sat_add a b"
proof -
  have "a \<le> a + b \<and> b \<le> a + b" if "unat a + unat b < 2 ^ 32"
    using that by (simp add: word_le_nat_alt unat_plus_if_size word_size)
  then show "a \<le> sat_add a b" "b \<le> sat_add a b" by (auto simp: sat_add_def)
qed

definition DEFAULT_OUTPUT_BUDGET :: u32 where
  "DEFAULT_OUTPUT_BUDGET = 4096"

datatype estimator_strategy = EstAuto | EstCharRatio | EstByteRatio | EstTiktoken

record estimator_config =
  ec_strategy :: estimator_strategy
  ec_tokenizer :: "string option"
  ec_chars_per_token :: f32
  ec_bytes_per_token :: f32
  ec_safety_margin :: f32

text \<open>
  The parameters: the floating-point formula of \<open>estimate_ratio\<close>, the tokenizer for a model
  where the feature is compiled in, and the JSON text of a value.
\<close>

record estimator_world =
  ew_ratio :: "nat \<Rightarrow> f32 \<Rightarrow> f32 \<Rightarrow> u32"
  ew_tiktoken :: "string \<Rightarrow> string option \<Rightarrow> (string \<Rightarrow> u32) option"
  ew_print :: "json \<Rightarrow> string"

definition chars_count :: "string \<Rightarrow> nat" where
  "chars_count s =
     length (filter (\<lambda>c. \<not> (0x80 \<le> (of_char c :: nat) \<and> (of_char c :: nat) < 0xC0)) s)"

definition char_ratio_text :: "estimator_world \<Rightarrow> estimator_config \<Rightarrow> string \<Rightarrow> u32" where
  "char_ratio_text w ec s = ew_ratio w (chars_count s) (ec_chars_per_token ec) (ec_safety_margin ec)"

definition byte_ratio_text :: "estimator_world \<Rightarrow> estimator_config \<Rightarrow> string \<Rightarrow> u32" where
  "byte_ratio_text w ec s = ew_ratio w (length s) (ec_bytes_per_token ec) (ec_safety_margin ec)"

definition sat_sum :: "('a \<Rightarrow> u32) \<Rightarrow> 'a list \<Rightarrow> u32 \<Rightarrow> u32" where
  "sat_sum f xs start = foldl (\<lambda>acc x. sat_add acc (f x)) start xs"

definition estimate_content :: "(string \<Rightarrow> u32) \<Rightarrow> message_content \<Rightarrow> u32" where
  "estimate_content est c =
     (case c of
        ContentText s \<Rightarrow> est s
      | ContentParts parts \<Rightarrow>
          foldl (\<lambda>acc p. sat_add (sat_add acc (case cp_text p of Some s \<Rightarrow> est s | None \<Rightarrow> 0))
                   (if cp_image_url p \<noteq> None then 512 else 0)) 0 parts)"

definition add_some :: "('a \<Rightarrow> u32) \<Rightarrow> 'a option \<Rightarrow> u32 \<Rightarrow> u32" where
  "add_some f x n0 = (case x of None \<Rightarrow> n0 | Some y \<Rightarrow> sat_add n0 (f y))"

definition estimate_message :: "(json \<Rightarrow> string) \<Rightarrow> (string \<Rightarrow> u32) \<Rightarrow> chat_message \<Rightarrow> u32" where
  "estimate_message print est m =
     add_some (\<lambda>cs. est (print (JArr (map tool_call_json cs)))) (cm_tool_calls m)
      (add_some est (cm_reasoning_content m)
        (add_some est (cm_reasoning m)
          (add_some (estimate_content est) (cm_content m) (sat_add (est (cm_role m)) 4))))"

definition estimate_tools :: "(json \<Rightarrow> string) \<Rightarrow> (string \<Rightarrow> u32) \<Rightarrow> tool_definition list \<Rightarrow> u32" where
  "estimate_tools print est ts = sat_sum (\<lambda>t. est (print (tool_definition_json t))) ts 0"

definition estimate_chat_input :: "(json \<Rightarrow> string) \<Rightarrow> (string \<Rightarrow> u32) \<Rightarrow> chat_request \<Rightarrow> u32" where
  "estimate_chat_input print est req =
     add_some (estimate_tools print est) (cr_tools req)
       (sat_sum (estimate_message print est) (cr_messages req) 16)"

definition estimate_chat_request :: "(json \<Rightarrow> string) \<Rightarrow> (string \<Rightarrow> u32) \<Rightarrow> chat_request \<Rightarrow> u32" where
  "estimate_chat_request print est req =
     sat_add (estimate_chat_input print est req)
       (case cr_max_tokens req of Some n \<Rightarrow> n | None \<Rightarrow> DEFAULT_OUTPUT_BUDGET)"

definition estimate_request :: "estimator_world \<Rightarrow> chat_request \<Rightarrow> estimator_config \<Rightarrow> u32" where
  "estimate_request w req ec =
     (let by = estimate_chat_request (ew_print w) in
      case ec_strategy ec of
        EstCharRatio \<Rightarrow> by (char_ratio_text w ec) req
      | EstByteRatio \<Rightarrow> by (byte_ratio_text w ec) req
      | _ \<Rightarrow>
          (case ew_tiktoken w (cr_model req) (ec_tokenizer ec) of
             Some est \<Rightarrow> by est req
           | None \<Rightarrow> by (char_ratio_text w ec) req))"

text \<open>
  The estimate is at least every part it counts, also where the sum saturates: the requested
  output, each message, and each text of a message.
\<close>

lemma sat_sum_ge_start: "start \<le> sat_sum f xs start"
proof (induction xs arbitrary: start)
  case (Cons x xs)
  then show ?case using sat_add_ge(1) order_trans by (fastforce simp: sat_sum_def)
qed (simp add: sat_sum_def)

lemma sat_sum_ge: "x \<in> set xs \<Longrightarrow> f x \<le> sat_sum f xs start"
proof (induction xs arbitrary: start)
  case (Cons y xs)
  show ?case
  proof (cases "x = y")
    case True
    have "f y \<le> sat_add start (f y)" by (rule sat_add_ge)
    also have "\<dots> \<le> sat_sum f xs (sat_add start (f y))" by (rule sat_sum_ge_start)
    finally show ?thesis using True by (simp add: sat_sum_def)
  next
    case False
    with Cons show ?thesis by (simp add: sat_sum_def)
  qed
qed simp

lemma add_some_ge: "n0 \<le> add_some f x n0" "x = Some y \<Longrightarrow> f y \<le> add_some f x n0"
  using sat_add_ge by (auto simp: add_some_def split: option.split)

lemma estimate_chat_request_ge:
  "(case cr_max_tokens req of Some n \<Rightarrow> n | None \<Rightarrow> DEFAULT_OUTPUT_BUDGET) \<le>
     estimate_chat_request print est req"
  "m \<in> set (cr_messages req) \<Longrightarrow> estimate_message print est m \<le> estimate_chat_request print est req"
proof -
  show "(case cr_max_tokens req of Some n \<Rightarrow> n | None \<Rightarrow> DEFAULT_OUTPUT_BUDGET) \<le>
     estimate_chat_request print est req"
    by (simp add: estimate_chat_request_def sat_add_ge)
  show "m \<in> set (cr_messages req) \<Longrightarrow>
      estimate_message print est m \<le> estimate_chat_request print est req"
    unfolding estimate_chat_request_def estimate_chat_input_def
    by (meson add_some_ge(1) order_trans sat_add_ge(1) sat_sum_ge)
qed

lemma estimate_message_ge:
  assumes "cm_content m = Some (ContentText s)"
  shows "est s \<le> estimate_message print est m"
proof -
  have "est s \<le> add_some (estimate_content est) (cm_content m) n" for n
    using add_some_ge(2) [OF assms, of "estimate_content est" n] by (simp add: estimate_content_def)
  then show ?thesis
    unfolding estimate_message_def by (meson add_some_ge(1) order_trans)
qed

end
