(* ===== verification/Chat_Streaming.thy ===== *)
theory Chat_Streaming
  imports Chat_Types "HOL-Library.Multiset"
begin

text \<open>
  Failures of a model provider (\<open>crates/calciforge/src/proxy/backend.rs\<close>), and the assembly of
  a server-sent event stream into one response (\<open>proxy/openai_streaming.rs\<close>).
\<close>

section \<open>Failures\<close>

datatype failure_kind =
    FkTimeout | FkNetwork | FkRateLimited | FkServerError | FkContextExceeded | FkAuthFailed
  | FkForbidden | FkModelNotFound | FkBadRequest | FkMisconfigured | FkInvalidResponse | FkUnknown

datatype backend_error =
    BeHttp string failure_kind "nat option"
  | BeInvalidResponse string
  | BeConfig string

fun backend_error_text :: "backend_error \<Rightarrow> string" where
  "backend_error_text (BeHttp m _ _) = ''HTTP request failed: '' @ m"
| "backend_error_text (BeInvalidResponse m) = ''Invalid response from backend: '' @ m"
| "backend_error_text (BeConfig m) = ''Configuration error: '' @ m"

fun backend_failure_kind :: "backend_error \<Rightarrow> failure_kind" where
  "backend_failure_kind (BeHttp _ k _) = k"
| "backend_failure_kind (BeInvalidResponse _) = FkInvalidResponse"
| "backend_failure_kind (BeConfig _) = FkMisconfigured"

definition transport_error :: "string \<Rightarrow> bool \<Rightarrow> backend_error" where
  "transport_error m is_timeout = BeHttp m (if is_timeout then FkTimeout else FkNetwork) None"

definition failure_kind_for_status :: "nat \<Rightarrow> failure_kind" where
  "failure_kind_for_status status =
     (if status = 400 then FkBadRequest
      else if status = 401 then FkAuthFailed
      else if status = 403 then FkForbidden
      else if status = 404 then FkModelNotFound
      else if status = 408 then FkTimeout
      else if status = 413 \<or> status = 422 then FkContextExceeded
      else if status = 429 then FkRateLimited
      else if status \<in> {500, 502, 503, 504} then FkServerError
      else if 400 \<le> status \<and> status < 500 then FkBadRequest
      else if 500 \<le> status \<and> status < 600 then FkServerError
      else FkUnknown)"

definition http_status_error :: "nat \<Rightarrow> string \<Rightarrow> backend_error" where
  "http_status_error status m = BeHttp m (failure_kind_for_status status) (Some status)"

section \<open>Events of a stream\<close>

text \<open>\<open>str::split\<close> on a non-empty text, and \<open>str::replace\<close>.\<close>

fun split_text :: "string \<Rightarrow> nat \<Rightarrow> string \<Rightarrow> string \<Rightarrow> string list" where
  "split_text sep k acc [] = [rev acc]"
| "split_text sep (Suc k) acc (c # s) = split_text sep k acc s"
| "split_text sep 0 acc (c # s) =
     (if prefix sep (c # s) then rev acc # split_text sep (length sep - 1) [] s
      else split_text sep 0 (c # acc) s)"

definition split_str :: "string \<Rightarrow> string \<Rightarrow> string list" where
  "split_str sep s = split_text sep 0 [] s"

definition str_replace :: "string \<Rightarrow> string \<Rightarrow> string \<Rightarrow> string" where
  "str_replace a b s = join_with b (split_str a s)"

definition normalized_body :: "string \<Rightarrow> string" where
  "normalized_body body =
     str_replace [CHR 0x0D] [CHR 0x0A] (str_replace [CHR 0x0D, CHR 0x0A] [CHR 0x0A] body)"

definition event_line :: "string \<Rightarrow> string \<Rightarrow> string" where
  "event_line data line =
     (case strip_prefix ''data:'' line of
        None \<Rightarrow> data
      | Some rest \<Rightarrow> (if data = [] then [] else data @ [CHR 0x0A]) @ trim_start rest)"

definition event_data :: "string \<Rightarrow> string" where
  "event_data event = trim (foldl event_line [] (str_lines event))"

definition stream_events :: "string \<Rightarrow> string list" where
  "stream_events body =
     filter (\<lambda>d. d \<noteq> [] \<and> d \<noteq> ''[DONE]'')
       (map event_data (split_str [CHR 0x0A, CHR 0x0A] (normalized_body body)))"

section \<open>Decoding a chunk\<close>

record tool_delta =
  td_call_id :: "string option"
  td_type :: "string option"
  td_name :: "string option"
  td_arguments :: string

record choice_delta =
  dl_finish_reason :: "string option"
  dl_role :: "string option"
  dl_content :: string
  dl_reasoning :: string
  dl_reasoning_content :: string
  dl_tool_calls :: "(u32 \<times> tool_delta) list"

record stream_chunk =
  sk_id :: "string option"
  sk_created :: "nat option"
  sk_model :: "string option"
  sk_prompt_tokens :: "u32 option"
  sk_completion_tokens :: "u32 option"
  sk_total_tokens :: "u32 option"
  sk_choices :: "(u32 \<times> choice_delta) list"

definition streaming_error :: "string \<Rightarrow> string \<Rightarrow> string \<Rightarrow> backend_error" where
  "streaming_error a m b =
     BeInvalidResponse (''OpenAI-compatible streaming '' @ a @ '' for model '' @ [CHR 0x27] @ m @
       [CHR 0x27] @ b)"

fun try_map :: "('a \<Rightarrow> 'e + 'b) \<Rightarrow> 'a list \<Rightarrow> 'e + 'b list" where
  "try_map f [] = Inr []"
| "try_map f (x # xs) = res_bind (f x) (\<lambda>y. res_bind (try_map f xs) (\<lambda>ys. Inr (y # ys)))"

text \<open>
  The index of a tool call; the position in the array is converted also where it is not used.
\<close>

definition tool_call_index :: "string \<Rightarrow> nat \<Rightarrow> json \<Rightarrow> backend_error + u32" where
  "tool_call_index m pos call =
     (case Option.bind (json_get ''index'' call) as_u64 of
        Some n \<Rightarrow>
          if 2 ^ 32 \<le> n \<or> 2 ^ 32 \<le> pos then Inl (streaming_error ''tool call index'' m '' exceeded u32'')
          else Inr (of_nat n)
      | None \<Rightarrow>
          if 2 ^ 32 \<le> pos then Inl (streaming_error ''tool call index'' m '' exceeded u32'')
          else Inr (of_nat pos))"

definition str_or_empty :: "string option \<Rightarrow> string" where
  "str_or_empty x = (case x of Some s \<Rightarrow> s | None \<Rightarrow> [])"

definition decode_tool_call :: "string \<Rightarrow> nat \<times> json \<Rightarrow> backend_error + u32 \<times> tool_delta" where
  "decode_tool_call m = (\<lambda>(pos, call).
     res_bind (tool_call_index m pos call) (\<lambda>i. Inr (i,
       \<lparr>td_call_id = get_str ''id'' call, td_type = get_str ''type'' call,
        td_name = Option.bind (json_get ''function'' call) (get_str ''name''),
        td_arguments =
          str_or_empty (Option.bind (json_get ''function'' call) (get_str ''arguments''))\<rparr>)))"

definition choice_index :: "string \<Rightarrow> json \<Rightarrow> backend_error + u32" where
  "choice_index m choice =
     (case Option.bind (json_get ''index'' choice) as_u64 of
        None \<Rightarrow> Inl (streaming_error ''choice'' m '' did not include a numeric index'')
      | Some n \<Rightarrow>
          if 2 ^ 32 \<le> n then Inl (streaming_error ''choice index'' m '' exceeded u32'')
          else Inr (of_nat n))"

definition no_delta :: "string option \<Rightarrow> choice_delta" where
  "no_delta reason =
     \<lparr>dl_finish_reason = reason, dl_role = None, dl_content = [], dl_reasoning = [],
      dl_reasoning_content = [], dl_tool_calls = []\<rparr>"

definition decode_choice :: "string \<Rightarrow> json \<Rightarrow> backend_error + u32 \<times> choice_delta" where
  "decode_choice m choice =
     res_bind (choice_index m choice) (\<lambda>i.
       let reason = get_str ''finish_reason'' choice in
       case Option.bind (json_get ''delta'' choice) as_object of
         None \<Rightarrow> Inr (i, no_delta reason)
       | Some kvs \<Rightarrow>
           let delta = JObj kvs in
           res_bind
             (case Option.bind (json_get ''tool_calls'' delta) as_array of
                None \<Rightarrow> Inr []
              | Some calls \<Rightarrow> try_map (decode_tool_call m) (List.enumerate 0 calls))
             (\<lambda>calls. Inr (i,
               \<lparr>dl_finish_reason = reason, dl_role = get_str ''role'' delta,
                dl_content = str_or_empty (get_str ''content'' delta),
                dl_reasoning = str_or_empty (get_str ''reasoning'' delta),
                dl_reasoning_content = str_or_empty (get_str ''reasoning_content'' delta),
                dl_tool_calls = calls\<rparr>)))"

definition parse_usage_count :: "json \<Rightarrow> string \<Rightarrow> backend_error + u32 option" where
  "parse_usage_count us field =
     (case Option.bind (json_get field us) as_u64 of
        None \<Rightarrow> Inr None
      | Some n \<Rightarrow>
          if 2 ^ 32 \<le> n
          then Inl (BeInvalidResponse (''OpenAI-compatible streaming usage field '' @ [CHR 0x27] @
                 field @ [CHR 0x27] @ '' exceeded u32''))
          else Inr (Some (of_nat n)))"

definition decode_usage ::
  "json option \<Rightarrow> backend_error + u32 option \<times> u32 option \<times> u32 option" where
  "decode_usage u =
     (case u of
        None \<Rightarrow> Inr (None, None, None)
      | Some v \<Rightarrow>
          res_bind (parse_usage_count v ''prompt_tokens'') (\<lambda>p.
          res_bind (parse_usage_count v ''completion_tokens'') (\<lambda>c.
          res_bind (parse_usage_count v ''total_tokens'') (\<lambda>t. Inr (p, c, t)))))"

definition decode_chunk ::
  "(string \<Rightarrow> string + json) \<Rightarrow> string \<Rightarrow> string \<Rightarrow> backend_error + stream_chunk" where
  "decode_chunk parse m data =
     (case parse data of
        Inl e \<Rightarrow> Inl (BeInvalidResponse (''Failed to parse OpenAI-compatible streaming chunk for model '' @
                   [CHR 0x27] @ m @ [CHR 0x27] @ '': '' @ e))
      | Inr v \<Rightarrow>
          res_bind (decode_usage (json_get ''usage'' v)) (\<lambda>(p, c, t).
          case Option.bind (json_get ''choices'' v) as_array of
            None \<Rightarrow> Inl (streaming_error ''chunk'' m '' did not include choices'')
          | Some choices \<Rightarrow>
              res_bind (try_map (decode_choice m) choices) (\<lambda>cs. Inr
                \<lparr>sk_id = get_str ''id'' v, sk_created = Option.bind (json_get ''created'' v) as_u64,
                 sk_model = get_str ''model'' v, sk_prompt_tokens = p, sk_completion_tokens = c,
                 sk_total_tokens = t, sk_choices = cs\<rparr>)))"

section \<open>Accumulating\<close>

text \<open>\<open>map.entry(k).or_default()\<close>, changed in place, on the list of a hash map's entries.\<close>

fun entry_update :: "'k \<Rightarrow> 'v \<Rightarrow> ('v \<Rightarrow> 'v) \<Rightarrow> ('k \<times> 'v) list \<Rightarrow> ('k \<times> 'v) list" where
  "entry_update k dflt f [] = [(k, f dflt)]"
| "entry_update k dflt f ((k', v) # m) =
     (if k = k' then (k, f v) # m else (k', v) # entry_update k dflt f m)"

definition entry_fold :: "'v \<Rightarrow> ('v \<Rightarrow> 'd \<Rightarrow> 'v) \<Rightarrow> ('k \<times> 'd) list \<Rightarrow> ('k \<times> 'v) list \<Rightarrow> ('k \<times> 'v) list" where
  "entry_fold dflt f ds m = foldl (\<lambda>m (k, d). entry_update k dflt (\<lambda>v. f v d) m) m ds"

record tool_acc =
  ta_id :: "string option"
  ta_type :: "string option"
  ta_name :: "string option"
  ta_arguments :: string

record choice_acc =
  ca_role :: "string option"
  ca_content :: string
  ca_reasoning :: string
  ca_reasoning_content :: string
  ca_finish_reason :: "string option"
  ca_tool_calls :: "(u32 \<times> tool_acc) list"

definition new_tool_acc :: tool_acc where
  "new_tool_acc = \<lparr>ta_id = None, ta_type = None, ta_name = None, ta_arguments = []\<rparr>"

definition new_choice_acc :: choice_acc where
  "new_choice_acc =
     \<lparr>ca_role = None, ca_content = [], ca_reasoning = [], ca_reasoning_content = [],
      ca_finish_reason = None, ca_tool_calls = []\<rparr>"

definition first_some :: "'a option \<Rightarrow> 'a option \<Rightarrow> 'a option" where
  "first_some x y = (case x of None \<Rightarrow> y | Some _ \<Rightarrow> x)"

definition add_tool_delta :: "tool_acc \<Rightarrow> tool_delta \<Rightarrow> tool_acc" where
  "add_tool_delta a d =
     \<lparr>ta_id = first_some (td_call_id d) (ta_id a), ta_type = first_some (td_type d) (ta_type a),
      ta_name = first_some (td_name d) (ta_name a), ta_arguments = ta_arguments a @ td_arguments d\<rparr>"

definition add_choice_delta :: "choice_acc \<Rightarrow> choice_delta \<Rightarrow> choice_acc" where
  "add_choice_delta a d =
     \<lparr>ca_role = first_some (ca_role a) (dl_role d),
      ca_content = ca_content a @ dl_content d,
      ca_reasoning = ca_reasoning a @ dl_reasoning d,
      ca_reasoning_content = ca_reasoning_content a @ dl_reasoning_content d,
      ca_finish_reason = first_some (dl_finish_reason d) (ca_finish_reason a),
      ca_tool_calls = entry_fold new_tool_acc add_tool_delta (dl_tool_calls d) (ca_tool_calls a)\<rparr>"

record stream_state =
  ss_id :: "string option"
  ss_created :: "nat option"
  ss_model :: "string option"
  ss_usage :: usage
  ss_choices :: "(u32 \<times> choice_acc) list"

definition stream_start :: stream_state where
  "stream_start =
     \<lparr>ss_id = None, ss_created = None, ss_model = None,
      ss_usage = \<lparr>us_prompt_tokens = 0, us_completion_tokens = 0, us_total_tokens = 0\<rparr>,
      ss_choices = []\<rparr>"

definition or_previous :: "u32 option \<Rightarrow> u32 \<Rightarrow> u32" where
  "or_previous x previous = (case x of Some n \<Rightarrow> n | None \<Rightarrow> previous)"

definition add_chunk :: "stream_state \<Rightarrow> stream_chunk \<Rightarrow> stream_state" where
  "add_chunk st k =
     \<lparr>ss_id = first_some (ss_id st) (sk_id k), ss_created = first_some (ss_created st) (sk_created k),
      ss_model = first_some (ss_model st) (sk_model k),
      ss_usage =
        \<lparr>us_prompt_tokens = or_previous (sk_prompt_tokens k) (us_prompt_tokens (ss_usage st)),
         us_completion_tokens =
           or_previous (sk_completion_tokens k) (us_completion_tokens (ss_usage st)),
         us_total_tokens = or_previous (sk_total_tokens k) (us_total_tokens (ss_usage st))\<rparr>,
      ss_choices = entry_fold new_choice_acc add_choice_delta (sk_choices k) (ss_choices st)\<rparr>"

fun stream_loop ::
  "(string \<Rightarrow> string + json) \<Rightarrow> string \<Rightarrow> string list \<Rightarrow> stream_state \<Rightarrow> backend_error + stream_state" where
  "stream_loop parse m [] st = Inr st"
| "stream_loop parse m (data # events) st =
     res_bind (decode_chunk parse m data) (\<lambda>k. stream_loop parse m events (add_chunk st k))"

section \<open>The response\<close>

text \<open>The orders in which the two hash maps are iterated.\<close>

record stream_iter =
  si_choices :: "(u32 \<times> choice_acc) list \<Rightarrow> (u32 \<times> choice_acc) list"
  si_calls :: "(u32 \<times> tool_acc) list \<Rightarrow> (u32 \<times> tool_acc) list"

definition finish_tool_call :: "string \<Rightarrow> u32 \<times> tool_acc \<Rightarrow> backend_error + u32 \<times> tool_call" where
  "finish_tool_call m = (\<lambda>(i, a).
     case ta_id a of
       None \<Rightarrow> Inl (streaming_error ''tool call'' m '' did not include an id'')
     | Some cid \<Rightarrow>
     (case ta_name a of
        None \<Rightarrow> Inl (streaming_error ''tool call'' m '' did not include a function name'')
      | Some name \<Rightarrow> Inr (i,
          \<lparr>tc_id = cid,
           tc_type = (case ta_type a of Some t \<Rightarrow> t | None \<Rightarrow> ''function''),
           tc_function = \<lparr>fc_name = name, fc_arguments = ta_arguments a\<rparr>\<rparr>)))"

definition none_if_empty :: "'a list \<Rightarrow> 'a list option" where
  "none_if_empty xs = (if xs = [] then None else Some xs)"

definition finish_choice ::
  "stream_iter \<Rightarrow> string \<Rightarrow> u32 \<times> choice_acc \<Rightarrow> backend_error + u32 \<times> choice" where
  "finish_choice it m = (\<lambda>(i, a).
     res_bind (try_map (finish_tool_call m) (si_calls it (ca_tool_calls a))) (\<lambda>calls. Inr (i,
       \<lparr>ch_index = i,
        ch_message =
          \<lparr>cm_role = (case ca_role a of Some r \<Rightarrow> r | None \<Rightarrow> ''assistant''),
           cm_content = map_option ContentText (none_if_empty (ca_content a)),
           cm_name = None,
           cm_tool_calls = none_if_empty (map snd (sort_key fst calls)),
           cm_tool_call_id = None,
           cm_reasoning = none_if_empty (ca_reasoning a),
           cm_reasoning_content = none_if_empty (ca_reasoning_content a)\<rparr>,
        ch_finish_reason = ca_finish_reason a,
        ch_logprobs = None\<rparr>)))"

definition finish_stream ::
  "stream_iter \<Rightarrow> string \<Rightarrow> stream_state \<Rightarrow> backend_error + chat_response" where
  "finish_stream it m st =
     (case ss_id st of
        None \<Rightarrow> Inl (streaming_error ''response'' m '' did not include an id'')
      | Some rid \<Rightarrow>
     (case ss_created st of
        None \<Rightarrow> Inl (streaming_error ''response'' m '' did not include created'')
      | Some created \<Rightarrow>
          res_bind (try_map (finish_choice it m) (si_choices it (ss_choices st))) (\<lambda>entries.
          if entries = [] then Inl (streaming_error ''response'' m '' did not include any choices'')
          else Inr
            \<lparr>rp_id = rid, rp_object = ''chat.completion'', rp_created = of_nat created,
             rp_model = (case ss_model st of Some n \<Rightarrow> n | None \<Rightarrow> m),
             rp_choices = map snd (sort_key fst entries),
             rp_usage = ss_usage st, rp_system_fingerprint = None, rp_extra_body = []\<rparr>)))"

definition parse_streaming_chat_completion ::
  "(string \<Rightarrow> string + json) \<Rightarrow> stream_iter \<Rightarrow> string \<Rightarrow> string \<Rightarrow> backend_error + chat_response" where
  "parse_streaming_chat_completion parse it body m =
     (let events = stream_events body in
      res_bind (stream_loop parse m events stream_start) (\<lambda>st.
      if events = [] then Inl (streaming_error ''response'' m '' did not include any chunks'')
      else finish_stream it m st))"

section \<open>What the stream says\<close>

text \<open>
  The reference: the deltas of a choice are its pieces in order of arrival, whatever chunks and
  choices come between them; texts are concatenated, the first role and the last finish reason
  count, and a tool call is put together from its own pieces in the same way.
\<close>

definition pieces :: "'k \<Rightarrow> ('k \<times> 'd) list \<Rightarrow> 'd list" where
  "pieces k ds = map snd (filter (\<lambda>p. fst p = k) ds)"

definition streamed_call :: "tool_delta list \<Rightarrow> tool_call" where
  "streamed_call ds =
     \<lparr>tc_id = the (find_map td_call_id (rev ds)),
      tc_type = (case find_map td_type (rev ds) of Some t \<Rightarrow> t | None \<Rightarrow> ''function''),
      tc_function =
        \<lparr>fc_name = the (find_map td_name (rev ds)), fc_arguments = concat (map td_arguments ds)\<rparr>\<rparr>"

definition streamed_calls :: "choice_delta list \<Rightarrow> (u32 \<times> tool_delta) list" where
  "streamed_calls ds = concat (map dl_tool_calls ds)"

definition call_complete :: "tool_delta list \<Rightarrow> bool" where
  "call_complete ds \<longleftrightarrow> find_map td_call_id ds \<noteq> None \<and> find_map td_name ds \<noteq> None"

definition keys_of :: "('k::linorder \<times> 'v) list \<Rightarrow> 'k list" where
  "keys_of m = sorted_list_of_set (fst ` set m)"

definition streamed_choice :: "u32 \<Rightarrow> choice_delta list \<Rightarrow> choice" where
  "streamed_choice i ds =
     \<lparr>ch_index = i,
      ch_message =
        \<lparr>cm_role = (case find_map dl_role ds of Some r \<Rightarrow> r | None \<Rightarrow> ''assistant''),
         cm_content = map_option ContentText (none_if_empty (concat (map dl_content ds))),
         cm_name = None,
         cm_tool_calls = none_if_empty
           (map (\<lambda>j. streamed_call (pieces j (streamed_calls ds))) (keys_of (streamed_calls ds))),
         cm_tool_call_id = None,
         cm_reasoning = none_if_empty (concat (map dl_reasoning ds)),
         cm_reasoning_content = none_if_empty (concat (map dl_reasoning_content ds))\<rparr>,
      ch_finish_reason = find_map dl_finish_reason (rev ds),
      ch_logprobs = None\<rparr>"

definition streamed_response :: "string \<Rightarrow> stream_chunk list \<Rightarrow> chat_response" where
  "streamed_response m ks =
     (let ds = concat (map sk_choices ks) in
      \<lparr>rp_id = the (find_map sk_id ks), rp_object = ''chat.completion'',
       rp_created = of_nat (the (find_map sk_created ks)),
       rp_model = (case find_map sk_model ks of Some n \<Rightarrow> n | None \<Rightarrow> m),
       rp_choices = map (\<lambda>i. streamed_choice i (pieces i ds)) (keys_of ds),
       rp_usage =
         \<lparr>us_prompt_tokens = or_previous (find_map sk_prompt_tokens (rev ks)) 0,
          us_completion_tokens = or_previous (find_map sk_completion_tokens (rev ks)) 0,
          us_total_tokens = or_previous (find_map sk_total_tokens (rev ks)) 0\<rparr>,
       rp_system_fingerprint = None, rp_extra_body = []\<rparr>)"

definition stream_complete :: "stream_chunk list \<Rightarrow> bool" where
  "stream_complete ks \<longleftrightarrow>
     find_map sk_id ks \<noteq> None \<and> find_map sk_created ks \<noteq> None \<and>
     concat (map sk_choices ks) \<noteq> [] \<and>
     (\<forall>i \<in> fst ` set (concat (map sk_choices ks)).
        let calls = streamed_calls (pieces i (concat (map sk_choices ks)))
        in \<forall>j \<in> fst ` set calls. call_complete (pieces j calls))"

section \<open>The entries of the hash maps\<close>

lemma entry_update_keys: "fst ` set (entry_update k d f m) = insert k (fst ` set m)"
  by (induction k d f m rule: entry_update.induct) auto

lemma entry_update_distinct:
  "distinct (map fst m) \<Longrightarrow> distinct (map fst (entry_update k d f m))"
  by (induction k d f m rule: entry_update.induct) (auto simp: entry_update_keys)

lemma entry_update_map_of:
  "map_of (entry_update k d f m) =
     (map_of m)(k \<mapsto> f (case map_of m k of Some v \<Rightarrow> v | None \<Rightarrow> d))"
  by (induction k d f m rule: entry_update.induct) auto

lemma entry_fold_append: "entry_fold d f (xs @ ys) m = entry_fold d f ys (entry_fold d f xs m)"
  by (simp add: entry_fold_def)

lemma entry_fold_simps [simp]:
  "entry_fold d f [] m = m"
  "entry_fold d f ((k, x) # ds) m = entry_fold d f ds (entry_update k d (\<lambda>v. f v x) m)"
  by (simp_all add: entry_fold_def)

lemma entry_fold_distinct:
  "distinct (map fst m) \<Longrightarrow> distinct (map fst (entry_fold d f ds m))"
  by (induction ds arbitrary: m) (auto simp: entry_update_distinct)

lemma entry_fold_keys: "fst ` set (entry_fold d f ds m) = fst ` set ds \<union> fst ` set m"
proof (induction ds arbitrary: m)
  case (Cons x ds)
  then show ?case by (cases x) (simp add: entry_update_keys)
qed simp

lemma entry_fold_map_of:
  "map_of (entry_fold d f ds m) k =
     (if k \<in> fst ` set ds \<union> fst ` set m
      then Some (foldl f (case map_of m k of Some v \<Rightarrow> v | None \<Rightarrow> d) (pieces k ds))
      else None)"
proof (induction ds arbitrary: m)
  case Nil
  then show ?case
    by (cases "map_of m k") (auto simp: pieces_def map_of_eq_None_iff dest: map_of_SomeD intro: rev_image_eqI)
next
  case (Cons x ds)
  obtain k' y where x: "x = (k', y)" by (cases x)
  show ?case
    using Cons [of "entry_update k' d (\<lambda>v. f v y) m"]
    by (auto simp: x pieces_def entry_update_map_of entry_update_keys)
qed

lemma sort_entries:
  fixes m :: "('k::linorder \<times> 'v) list"
  assumes "distinct (map fst m)"
  shows "sort_key fst m = map (\<lambda>k. (k, the (map_of m k))) (keys_of m)"
proof (rule map_sorted_distinct_set_unique [where f = fst])
  have m: "inj_on fst (set m)" using assms by (simp add: distinct_map)
  show eq: "set (sort_key fst m) = set (map (\<lambda>k. (k, the (map_of m k))) (keys_of m))"
    using assms by (force simp: keys_of_def image_iff)
  show "inj_on fst (set (sort_key fst m) \<union> set (map (\<lambda>k. (k, the (map_of m k))) (keys_of m)))"
    using m unfolding eq [symmetric] by simp
  show "distinct (map fst (sort_key fst m))"
    using assms by (simp add: distinct_map)
qed (simp_all add: keys_of_def comp_def)

text \<open>A hash map is iterated completely and without repetition, in some order.\<close>

definition iter_ok :: "stream_iter \<Rightarrow> bool" where
  "iter_ok it \<longleftrightarrow>
     (\<forall>m. mset (si_choices it m) = mset m) \<and> (\<forall>m. mset (si_calls it m) = mset m)"

lemma try_map_Inr:
  assumes "\<And>x y. x \<in> set xs \<Longrightarrow> f x = Inr y \<longleftrightarrow> ok x \<and> y = h x"
  shows "try_map f xs = Inr ys \<longleftrightarrow> (\<forall>x \<in> set xs. ok x) \<and> ys = map h xs"
  using assms
proof (induction xs arbitrary: ys)
  case (Cons x xs)
  have ih: "try_map f xs = Inr zs \<longleftrightarrow> (\<forall>x \<in> set xs. ok x) \<and> zs = map h xs" for zs
    using Cons by simp
  show ?case
  proof (cases "f x")
    case (Inl e)
    then show ?thesis using Cons.prems [of x] by auto
  next
    case (Inr y)
    then have "ok x" "y = h x" using Cons.prems [of x] by auto
    moreover have "try_map f (x # xs) = Inr ys \<longleftrightarrow> (\<exists>zs. try_map f xs = Inr zs \<and> ys = y # zs)"
      using Inr by (cases "try_map f xs") auto
    ultimately show ?thesis using ih by auto
  qed
qed auto

text \<open>Sorted values of an iterated map whose keys are kept.\<close>

lemma sort_iterated:
  fixes m :: "('k::linorder \<times> 'v) list"
  assumes "mset xs = mset m" "distinct (map fst m)"
  shows "map snd (sort_key fst (map (\<lambda>(k, v). (k, g k v)) xs)) =
    map (\<lambda>k. g k (the (map_of m k))) (keys_of m)"
proof -
  let ?h = "\<lambda>(k, v). (k, g k v)"
  have fst: "map fst (map ?h xs) = map fst xs" by (induction xs) auto
  have d: "distinct (map fst xs)"
    using assms by (metis mset_eq_imp_distinct_iff mset_map)
  have s: "set xs = set m" using assms(1) by (rule mset_eq_setD)
  have "map_of (map ?h xs) k = map_option (g k) (map_of m k)" for k
  proof -
    have "map_of xs = map_of m"
      using d assms(2) s by (metis map_of_inject_set)
    moreover have "map_of (map ?h xs) k = map_option (g k) (map_of xs k)"
      by (induction xs) auto
    ultimately show ?thesis by simp
  qed
  moreover have "keys_of (map ?h xs) = keys_of m"
    unfolding keys_of_def using s by (auto simp: image_image case_prod_unfold)
  moreover have "map_of m k \<noteq> None" if "k \<in> set (keys_of m)" for k
    using that by (auto simp: keys_of_def map_of_eq_None_iff)
  ultimately show ?thesis
    using sort_entries [of "map ?h xs"] d unfolding fst by (auto simp: option.map_sel comp_def)
qed

section \<open>The assembled response\<close>

lemma find_map_snoc: "find_map f (xs @ [x]) = first_some (find_map f xs) (f x)"
  by (induction xs) (auto simp: first_some_def split: option.split)

lemma find_map_Cons: "find_map f (x # xs) = first_some (f x) (find_map f xs)"
  by (simp add: first_some_def split: option.split)

lemma find_map_rev_None [simp]: "find_map f (rev xs) = None \<longleftrightarrow> find_map f xs = None"
  by (simp add: find_map_None)

lemma fold_tool_deltas:
  "foldl add_tool_delta new_tool_acc ds =
     \<lparr>ta_id = find_map td_call_id (rev ds), ta_type = find_map td_type (rev ds),
      ta_name = find_map td_name (rev ds), ta_arguments = concat (map td_arguments ds)\<rparr>"
  by (induction ds rule: rev_induct)
    (simp_all add: new_tool_acc_def add_tool_delta_def find_map_Cons del: find_map.simps(2))

lemma fold_choice_deltas:
  "foldl add_choice_delta new_choice_acc ds =
     \<lparr>ca_role = find_map dl_role ds, ca_content = concat (map dl_content ds),
      ca_reasoning = concat (map dl_reasoning ds),
      ca_reasoning_content = concat (map dl_reasoning_content ds),
      ca_finish_reason = find_map dl_finish_reason (rev ds),
      ca_tool_calls = entry_fold new_tool_acc add_tool_delta (streamed_calls ds) []\<rparr>"
  by (induction ds rule: rev_induct)
    (simp_all add: new_choice_acc_def add_choice_delta_def find_map_Cons find_map_snoc
      streamed_calls_def entry_fold_append del: find_map.simps(2))

lemma or_previous_first: "or_previous (first_some x y) n = or_previous x (or_previous y n)"
  by (simp add: or_previous_def first_some_def split: option.split)

lemma fold_chunks:
  "foldl add_chunk stream_start ks =
     \<lparr>ss_id = find_map sk_id ks, ss_created = find_map sk_created ks, ss_model = find_map sk_model ks,
      ss_usage =
        \<lparr>us_prompt_tokens = or_previous (find_map sk_prompt_tokens (rev ks)) 0,
         us_completion_tokens = or_previous (find_map sk_completion_tokens (rev ks)) 0,
         us_total_tokens = or_previous (find_map sk_total_tokens (rev ks)) 0\<rparr>,
      ss_choices = entry_fold new_choice_acc add_choice_delta (concat (map sk_choices ks)) []\<rparr>"
proof (induction ks rule: rev_induct)
  case Nil
  show ?case by (simp add: stream_start_def or_previous_def)
next
  case (snoc k ks)
  then show ?case
    by (simp add: add_chunk_def find_map_Cons find_map_snoc or_previous_first entry_fold_append
        del: find_map.simps(2))
qed

lemma stream_loop_chunks:
  "stream_loop parse m events st =
     res_bind (try_map (decode_chunk parse m) events) (\<lambda>ks. Inr (foldl add_chunk st ks))"
proof (induction events arbitrary: st)
  case (Cons data events)
  then show ?case
    by (cases "decode_chunk parse m data"; cases "try_map (decode_chunk parse m) events") auto
qed simp

lemma finish_tool_call_Inr:
  "finish_tool_call m (j, foldl add_tool_delta new_tool_acc ds) = Inr y \<longleftrightarrow>
     call_complete ds \<and> y = (j, streamed_call ds)"
proof -
  have "call_complete ds \<longleftrightarrow> find_map td_call_id (rev ds) \<noteq> None \<and> find_map td_name (rev ds) \<noteq> None"
    by (simp only: call_complete_def find_map_rev_None)
  then show ?thesis
    by (auto simp: finish_tool_call_def fold_tool_deltas streamed_call_def simp del: find_map_rev_None
        split: option.splits)
qed

text \<open>The values of a folded map, and the order in which it is iterated.\<close>

lemma folded_entry:
  assumes "mset xs = mset (entry_fold d f ds [])" "(k, v) \<in> set xs"
  shows "k \<in> fst ` set ds \<and> v = foldl f d (pieces k ds)"
proof -
  have "(k, v) \<in> set (entry_fold d f ds [])" using assms mset_eq_setD by blast
  then have "map_of (entry_fold d f ds []) k = Some v"
    by (simp add: map_of_eq_Some_iff entry_fold_distinct)
  then show ?thesis by (simp add: entry_fold_map_of split: if_splits)
qed

lemma folded_keys:
  "mset xs = mset (entry_fold d f ds []) \<Longrightarrow> fst ` set xs = fst ` set ds"
  by (metis Un_empty_right entry_fold_keys image_empty list.set(1) mset_eq_setD)

lemma folded_sorted:
  fixes ds :: "('k::linorder \<times> 'd) list"
  assumes "mset xs = mset (entry_fold d f ds [])"
  shows "map snd (sort_key fst (map (\<lambda>(k, v). (k, g k)) xs)) = map g (keys_of ds)"
proof -
  have "keys_of (entry_fold d f ds []) = keys_of ds"
    by (simp add: keys_of_def entry_fold_keys)
  then show ?thesis
    using sort_iterated [OF assms, where g = "\<lambda>k _. g k"] by (simp add: entry_fold_distinct)
qed

lemma finish_choice_Inr:
  assumes "iter_ok it"
  shows "finish_choice it m (i, foldl add_choice_delta new_choice_acc ds) = Inr y \<longleftrightarrow>
    (\<forall>j \<in> fst ` set (streamed_calls ds). call_complete (pieces j (streamed_calls ds))) \<and>
    y = (i, streamed_choice i ds)"
proof -
  let ?cs = "streamed_calls ds"
  let ?call = "\<lambda>j. streamed_call (pieces j ?cs)"
  define tm where "tm = entry_fold new_tool_acc add_tool_delta ?cs []"
  have p: "mset (si_calls it tm) = mset (entry_fold new_tool_acc add_tool_delta ?cs [])"
    using assms by (simp add: iter_ok_def tm_def)
  have t: "try_map (finish_tool_call m) (si_calls it tm) = Inr ys \<longleftrightarrow>
      (\<forall>x \<in> set (si_calls it tm). call_complete (pieces (fst x) ?cs)) \<and>
      ys = map (\<lambda>x. (fst x, ?call (fst x))) (si_calls it tm)" for ys
  proof (rule try_map_Inr)
    fix x z
    assume "x \<in> set (si_calls it tm)"
    then have "snd x = foldl add_tool_delta new_tool_acc (pieces (fst x) ?cs)"
      using folded_entry [OF p, of "fst x" "snd x"] by simp
    then show "finish_tool_call m x = Inr z \<longleftrightarrow> call_complete (pieces (fst x) ?cs) \<and>
        z = (fst x, ?call (fst x))"
      using finish_tool_call_Inr [of m "fst x" "pieces (fst x) ?cs" z] by (metis prod.collapse)
  qed
  have all: "(\<forall>x \<in> set (si_calls it tm). call_complete (pieces (fst x) ?cs)) \<longleftrightarrow>
      (\<forall>j \<in> fst ` set ?cs. call_complete (pieces j ?cs))"
    unfolding folded_keys [OF p, symmetric] by simp
  have sorted: "map snd (sort_key fst (map (\<lambda>x. (fst x, ?call (fst x))) (si_calls it tm))) =
      map ?call (keys_of ?cs)"
    using folded_sorted [OF p, of ?call] by (simp add: case_prod_unfold)
  show ?thesis
  proof (cases "\<forall>j \<in> fst ` set ?cs. call_complete (pieces j ?cs)")
    case True
    then have "try_map (finish_tool_call m) (si_calls it tm) =
        Inr (map (\<lambda>x. (fst x, ?call (fst x))) (si_calls it tm))"
      using t all by blast
    then have "finish_choice it m (i, foldl add_choice_delta new_choice_acc ds) =
        Inr (i, streamed_choice i ds)"
      by (simp only: finish_choice_def fold_choice_deltas streamed_choice_def prod.case
          choice_acc.simps res_bind_simps sorted flip: tm_def)
    with True show ?thesis by (metis Inr_inject)
  next
    case False
    then obtain e where "try_map (finish_tool_call m) (si_calls it tm) = Inl e"
      unfolding all [symmetric] by (cases "try_map (finish_tool_call m) (si_calls it tm)") (simp_all add: t)
    then have "finish_choice it m (i, foldl add_choice_delta new_choice_acc ds) = Inl e"
      by (simp only: finish_choice_def fold_choice_deltas prod.case choice_acc.simps res_bind_simps
          flip: tm_def)
    with False show ?thesis by (metis Inl_Inr_False)
  qed
qed

lemma streaming_assembled:
  assumes "iter_ok it"
  shows "parse_streaming_chat_completion parse it body m = Inr resp \<longleftrightarrow>
    (\<exists>ks. try_map (decode_chunk parse m) (stream_events body) = Inr ks \<and> stream_complete ks \<and>
      resp = streamed_response m ks)"
proof (cases "try_map (decode_chunk parse m) (stream_events body)")
  case (Inl e)
  then show ?thesis by (simp add: parse_streaming_chat_completion_def stream_loop_chunks Let_def)
next
  case (Inr ks)
  define ds where "ds = concat (map sk_choices ks)"
  define xs where "xs = si_choices it (entry_fold new_choice_acc add_choice_delta ds [])"
  let ?choice = "\<lambda>i. streamed_choice i (pieces i ds)"
  let ?ok = "\<lambda>i. \<forall>j \<in> fst ` set (streamed_calls (pieces i ds)).
    call_complete (pieces j (streamed_calls (pieces i ds)))"
  have p: "mset xs = mset (entry_fold new_choice_acc add_choice_delta ds [])"
    using assms by (simp add: iter_ok_def xs_def)
  have t: "try_map (finish_choice it m) xs = Inr ys \<longleftrightarrow> (\<forall>x \<in> set xs. ?ok (fst x)) \<and>
      ys = map (\<lambda>x. (fst x, ?choice (fst x))) xs" for ys
  proof (rule try_map_Inr)
    fix x z
    assume "x \<in> set xs"
    then have "snd x = foldl add_choice_delta new_choice_acc (pieces (fst x) ds)"
      using folded_entry [OF p, of "fst x" "snd x"] by simp
    then show "finish_choice it m x = Inr z \<longleftrightarrow> ?ok (fst x) \<and> z = (fst x, ?choice (fst x))"
      using finish_choice_Inr [OF assms, of m "fst x" "pieces (fst x) ds" z] by (metis prod.collapse)
  qed
  have all: "(\<forall>x \<in> set xs. ?ok (fst x)) \<longleftrightarrow> (\<forall>i \<in> fst ` set ds. ?ok i)"
    unfolding folded_keys [OF p, symmetric] by simp
  have sorted: "map snd (sort_key fst (map (\<lambda>x. (fst x, ?choice (fst x))) xs)) = map ?choice (keys_of ds)"
    using folded_sorted [OF p, of ?choice] by (simp add: case_prod_unfold)
  have empty: "xs = [] \<longleftrightarrow> ds = []"
    using folded_keys [OF p] by (metis image_is_empty set_empty)
  have complete: "stream_complete ks \<longleftrightarrow> find_map sk_id ks \<noteq> None \<and> find_map sk_created ks \<noteq> None \<and>
      ds \<noteq> [] \<and> (\<forall>i \<in> fst ` set ds. ?ok i)"
    by (simp only: stream_complete_def Let_def ds_def)
  have fin: "finish_stream it m (foldl add_chunk stream_start ks) = Inr resp \<longleftrightarrow>
      stream_complete ks \<and> resp = streamed_response m ks"
  proof (cases "\<forall>i \<in> fst ` set ds. ?ok i")
    case True
    then have tm: "try_map (finish_choice it m) xs = Inr (map (\<lambda>x. (fst x, ?choice (fst x))) xs)"
      unfolding all [symmetric] by (intro t [THEN iffD2] conjI refl)
    have "finish_stream it m (foldl add_chunk stream_start ks) =
        (case find_map sk_id ks of
           None \<Rightarrow> Inl (streaming_error ''response'' m '' did not include an id'')
         | Some rid \<Rightarrow>
        (case find_map sk_created ks of
           None \<Rightarrow> Inl (streaming_error ''response'' m '' did not include created'')
         | Some created \<Rightarrow>
             if xs = [] then Inl (streaming_error ''response'' m '' did not include any choices'')
             else Inr (streamed_response m ks)))"
      unfolding finish_stream_def fold_chunks streamed_response_def Let_def stream_state.simps
        ds_def [symmetric] xs_def [symmetric] tm res_bind_simps sorted map_is_Nil_conv
      by (simp split: option.split)
    with True complete empty show ?thesis
      by (cases "find_map sk_id ks"; cases "find_map sk_created ks"; cases "xs = []") auto
  next
    case False
    then obtain e where "try_map (finish_choice it m) xs = Inl e"
      unfolding all [symmetric] by (cases "try_map (finish_choice it m) xs") (simp_all only: t simp_thms)
    then have "finish_stream it m (foldl add_chunk stream_start ks) \<noteq> Inr resp"
      by (auto simp: finish_stream_def fold_chunks simp flip: ds_def xs_def split: option.splits)
    with False complete show ?thesis by blast
  qed
  have "stream_complete ks \<Longrightarrow> stream_events body \<noteq> []"
    using Inr by (auto simp: stream_complete_def)
  moreover have "parse_streaming_chat_completion parse it body m = Inr resp \<longleftrightarrow>
      finish_stream it m (foldl add_chunk stream_start ks) = Inr resp \<and> stream_events body \<noteq> []"
    using Inr by (auto simp: parse_streaming_chat_completion_def stream_loop_chunks Let_def)
  ultimately show ?thesis using fin Inr by auto
qed

text \<open>
  C36: A provider's event stream is taken for a response exactly when every event decodes, some
  chunk has an identifier and a creation time, there is a choice, and every streamed tool call
  got an identifier and a name; and the response is the reference one: per choice index the
  texts in order of arrival, whatever chunks they came in, and per tool call its arguments.
\<close>

theorem streaming_assembly_exact:
  assumes "iter_ok it"
  shows "parse_streaming_chat_completion parse it body m = Inr resp \<longleftrightarrow>
    (\<exists>ks. try_map (decode_chunk parse m) (stream_events body) = Inr ks \<and> stream_complete ks \<and>
      resp = streamed_response m ks)"
  by (rule streaming_assembled [OF assms])

definition demo_iter :: stream_iter where
  "demo_iter = \<lparr>si_choices = (\<lambda>m. m), si_calls = (\<lambda>m. m)\<rparr>"

definition demo_delta :: "string \<Rightarrow> json" where
  "demo_delta s =
     JObj [(''id'', JStr ''r''), (''created'', JNum ''1''),
       (''choices'', JArr [JObj [(''index'', JNum ''0''), (''delta'', JObj [(''content'', JStr s)])]])]"

definition demo_stream_chunk :: "string \<Rightarrow> stream_chunk" where
  "demo_stream_chunk s =
     \<lparr>sk_id = Some ''r'', sk_created = Some 1, sk_model = None, sk_prompt_tokens = None,
      sk_completion_tokens = None, sk_total_tokens = None,
      sk_choices = [(0, (no_delta None)\<lparr>dl_content := s\<rparr>)]\<rparr>"

lemma demo_decode: "decode_chunk (\<lambda>s. Inr (demo_delta s)) m s = Inr (demo_stream_chunk s)"
  by (simp add: decode_chunk_def decode_usage_def demo_delta_def json_get_def as_array_def
      decode_choice_def choice_index_def as_u64_def digits_value_def digit_value_def ascii_digit_def
      as_object_def get_str_def as_str_def str_or_empty_def demo_stream_chunk_def no_delta_def
      less_eq_char_def)

lemma demo_stream_events:
  "stream_events (''data:po'' @ [CHR 0x0A, CHR 0x0A] @ ''data: ng'') = [''po'', ''ng'']"
  by code_simp

theorem streaming_assembly_exact_witness:
  "parse_streaming_chat_completion (\<lambda>s. Inr (demo_delta s)) demo_iter
     (''data:po'' @ [CHR 0x0A, CHR 0x0A] @ ''data: ng'') ''m'' =
   Inr (streamed_response ''m'' [demo_stream_chunk ''po'', demo_stream_chunk ''ng''])"
proof -
  have it: "iter_ok demo_iter" by (simp add: iter_ok_def demo_iter_def)
  have "stream_complete [demo_stream_chunk ''po'', demo_stream_chunk ''ng'']"
    by (simp add: stream_complete_def demo_stream_chunk_def pieces_def streamed_calls_def no_delta_def)
  then show ?thesis
    by (intro streaming_assembly_exact [OF it, THEN iffD2])
      (simp add: demo_decode demo_stream_events [simplified])
qed

end
