(* ===== verification/Provider_Backend.thy ===== *)
theory Provider_Backend
  imports Chat_Streaming Security_Gateway Act
begin

text \<open>
  Provider adapters of the model gateway (\<open>crates/calciforge/src/proxy/gateway.rs\<close>,
  \<open>proxy/backend.rs\<close>): kinds of adapters, the retry policy, the HTTP request a chat request
  becomes, and what an answer becomes.

  An adapter works on the trace of what it did (newest first); the answer of the network to a
  request may depend on everything that was done before.
\<close>

section \<open>Kinds of adapters\<close>

datatype gateway_type =
    GwHelicone | GwBuiltinHttp | GwLiteLlm | GwPortkey | GwTensorZero | GwFutureAgi
  | GwOpenRouter | GwWardwright | GwMock

definition gateway_type_parse :: "(string \<Rightarrow> string) \<Rightarrow> string \<Rightarrow> string + gateway_type" where
  "gateway_type_parse uni s =
     (let l = to_lowercase uni s in
      if l = ''helicone'' then Inr GwHelicone
      else if l \<in> {''http'', ''builtin-http'', ''builtin_http'', ''direct''} then Inr GwBuiltinHttp
      else if l \<in> {''litellm'', ''lite-llm'', ''lite_llm''} then Inr GwLiteLlm
      else if l = ''portkey'' then Inr GwPortkey
      else if l \<in> {''tensorzero'', ''tensor-zero'', ''tensor_zero''} then Inr GwTensorZero
      else if l \<in> {''future-agi'', ''future_agi'', ''futureagi''} then Inr GwFutureAgi
      else if l \<in> {''openrouter'', ''open-router'', ''open_router''} then Inr GwOpenRouter
      else if l \<in> {''wardwright'', ''ward-wright'', ''ward_wright''} then Inr GwWardwright
      else if l = ''mock'' then Inr GwMock
      else Inl (''Unknown gateway type: '' @ s))"

fun show_gateway_type :: "gateway_type \<Rightarrow> string" where
  "show_gateway_type GwHelicone = ''helicone''"
| "show_gateway_type GwBuiltinHttp = ''builtin-http''"
| "show_gateway_type GwLiteLlm = ''litellm''"
| "show_gateway_type GwPortkey = ''portkey''"
| "show_gateway_type GwTensorZero = ''tensorzero''"
| "show_gateway_type GwFutureAgi = ''future-agi''"
| "show_gateway_type GwOpenRouter = ''openrouter''"
| "show_gateway_type GwWardwright = ''wardwright''"
| "show_gateway_type GwMock = ''mock''"

definition SUPPORTED_CONFIG_NAMES :: "string list" where
  "SUPPORTED_CONFIG_NAMES =
     [''http'', ''helicone'', ''litellm'', ''portkey'', ''tensorzero'', ''future-agi'',
      ''openrouter'', ''wardwright'', ''mock'']"

definition SUPPORTED_PROVIDER_CONFIG_NAMES :: "string list" where
  "SUPPORTED_PROVIDER_CONFIG_NAMES =
     [''http'', ''helicone'', ''litellm'', ''portkey'', ''tensorzero'', ''future-agi'',
      ''openrouter'', ''wardwright'']"

fun gateway_display_name :: "gateway_type \<Rightarrow> string" where
  "gateway_display_name GwHelicone = ''Helicone AI Gateway''"
| "gateway_display_name GwBuiltinHttp = ''Calciforge builtin HTTP upstream adapter''"
| "gateway_display_name GwLiteLlm = ''LiteLLM gateway''"
| "gateway_display_name GwPortkey = ''Portkey gateway''"
| "gateway_display_name GwTensorZero = ''TensorZero gateway''"
| "gateway_display_name GwFutureAgi = ''Future AGI gateway''"
| "gateway_display_name GwOpenRouter = ''OpenRouter''"
| "gateway_display_name GwWardwright = ''Wardwright synthetic model gateway''"
| "gateway_display_name GwMock = ''Mock provider adapter''"

record gateway_capabilities =
  gc_openai_chat_completions :: bool
  gc_model_listing :: bool
  gc_tool_call_transcripts :: bool
  gc_config_validation :: bool
  gc_observability :: bool
  gc_operator_ui :: bool

definition capabilities_of :: "bool \<Rightarrow> bool \<Rightarrow> bool \<Rightarrow> gateway_capabilities" where
  "capabilities_of listing obs ui =
     \<lparr>gc_openai_chat_completions = True, gc_model_listing = listing,
      gc_tool_call_transcripts = False, gc_config_validation = False, gc_observability = obs,
      gc_operator_ui = ui\<rparr>"

fun default_capabilities :: "gateway_type \<Rightarrow> gateway_capabilities" where
  "default_capabilities GwHelicone = capabilities_of False True True"
| "default_capabilities GwBuiltinHttp = capabilities_of True False False"
| "default_capabilities GwLiteLlm = capabilities_of True True True"
| "default_capabilities GwPortkey = capabilities_of False True True"
| "default_capabilities GwTensorZero = capabilities_of False True True"
| "default_capabilities GwFutureAgi = capabilities_of False True True"
| "default_capabilities GwOpenRouter = capabilities_of True False True"
| "default_capabilities GwWardwright = capabilities_of True True True"
| "default_capabilities GwMock = capabilities_of True False False"

datatype observability_kind = NativeDashboard | OTel | OpenInference | Langfuse

record observability_capability =
  oc_kind :: observability_kind
  oc_display_name :: string
  oc_endpoint_required :: bool

definition obs_capability :: "observability_kind \<Rightarrow> string \<Rightarrow> bool \<Rightarrow> observability_capability" where
  "obs_capability k name req =
     \<lparr>oc_kind = k, oc_display_name = name, oc_endpoint_required = req\<rparr>"

fun observability_capabilities :: "gateway_type \<Rightarrow> observability_capability list" where
  "observability_capabilities GwHelicone =
     [obs_capability NativeDashboard ''Helicone request dashboard'' False]"
| "observability_capabilities GwLiteLlm =
     [obs_capability NativeDashboard ''LiteLLM dashboard'' False,
      obs_capability Langfuse ''Langfuse callback'' True,
      obs_capability OpenInference ''OpenInference trace export'' True]"
| "observability_capabilities GwPortkey =
     [obs_capability NativeDashboard ''Portkey request dashboard'' False,
      obs_capability OTel ''OpenTelemetry export'' True]"
| "observability_capabilities GwTensorZero =
     [obs_capability NativeDashboard ''TensorZero observability UI'' False,
      obs_capability OpenInference ''OpenInference trace export'' True]"
| "observability_capabilities GwFutureAgi =
     [obs_capability NativeDashboard ''Future AGI evaluation dashboard'' False,
      obs_capability OTel ''OpenTelemetry export'' True]"
| "observability_capabilities GwWardwright =
     [obs_capability NativeDashboard ''Wardwright receipt and route dashboard'' False]"
| "observability_capabilities _ = []"

definition uses_openai_compatible_http_core :: "gateway_type \<Rightarrow> bool" where
  "uses_openai_compatible_http_core t \<longleftrightarrow>
     t \<in> {GwBuiltinHttp, GwHelicone, GwLiteLlm, GwPortkey, GwTensorZero, GwFutureAgi,
          GwOpenRouter, GwWardwright}"

definition requires_backend_url :: "gateway_type \<Rightarrow> bool" where
  "requires_backend_url t \<longleftrightarrow> t \<noteq> GwMock"

definition delegates_retry_to_adapter :: "gateway_type \<Rightarrow> bool" where
  "delegates_retry_to_adapter t \<longleftrightarrow> t = GwHelicone"

section \<open>Configuration\<close>

record retry_config =
  rc_enabled :: bool
  rc_max_retries :: u32
  rc_min_timeout_ms :: u64
  rc_max_timeout_ms :: u64
  rc_factor :: u32
  rc_retry_on :: "failure_kind list"

definition default_retry :: retry_config where
  "default_retry =
     \<lparr>rc_enabled = False, rc_max_retries = 2, rc_min_timeout_ms = 500, rc_max_timeout_ms = 8000,
      rc_factor = 2, rc_retry_on = [FkTimeout, FkNetwork, FkRateLimited, FkServerError]\<rparr>"

text \<open>Headers as the list of a hash map's entries in the order of its iteration.\<close>

type_synonym header_list = "(string \<times> string) list"

record adapter_config =
  ac_backend_type :: gateway_type
  ac_base_url :: "string option"
  ac_api_key :: "string option"
  ac_timeout_seconds :: u64
  ac_headers :: "header_list option"
  ac_retry :: retry_config
  ac_ui_url :: "string option"

record engine_info =
  ei_id :: string
  ei_display_name :: string
  ei_ui_url :: "string option"
  ei_capabilities :: gateway_capabilities
  ei_observability :: "observability_capability list"

definition config_engine_info :: "adapter_config \<Rightarrow> gateway_type \<Rightarrow> engine_info" where
  "config_engine_info c t =
     \<lparr>ei_id = show_gateway_type t, ei_display_name = gateway_display_name t,
      ei_ui_url = ac_ui_url c, ei_capabilities = default_capabilities t,
      ei_observability = observability_capabilities t\<rparr>"

text \<open>\<open>HashMap::insert\<close>; where a new key lands in the iteration is not observed.\<close>

definition map_insert :: "string \<Rightarrow> 'v \<Rightarrow> (string \<times> 'v) list \<Rightarrow> (string \<times> 'v) list" where
  "map_insert k v m = (k, v) # filter (\<lambda>p. fst p \<noteq> k) m"

definition retry_headers :: "retry_config \<Rightarrow> header_list \<Rightarrow> header_list" where
  "retry_headers retry hs =
     map_insert ''helicone-retry-factor'' (show_nat (unat (rc_factor retry)))
      (map_insert ''helicone-retry-max-timeout'' (show_nat (unat (rc_max_timeout_ms retry)))
       (map_insert ''helicone-retry-min-timeout'' (show_nat (unat (rc_min_timeout_ms retry)))
        (map_insert ''helicone-retry-num'' (show_nat (unat (rc_max_retries retry)))
         (map_insert ''helicone-retry-enabled'' ''true'' hs))))"

definition openai_compatible_headers ::
  "gateway_type \<Rightarrow> string option \<Rightarrow> retry_config \<Rightarrow> header_list option \<Rightarrow> header_list option" where
  "openai_compatible_headers t api_key retry configured =
     (let hs0 = (case configured of Some hs \<Rightarrow> hs | None \<Rightarrow> []);
          hs1 = (if t = GwHelicone
                 then (case api_key of
                         Some k \<Rightarrow> if trim k = [] then hs0
                                   else map_insert ''helicone-auth'' (''Bearer '' @ trim k) hs0
                       | None \<Rightarrow> hs0)
                 else hs0);
          hs2 = (if t = GwHelicone \<and> rc_enabled retry then retry_headers retry hs1 else hs1)
      in if hs2 = [] then None else Some hs2)"

section \<open>Retries\<close>

definition should_retry_locally :: "gateway_type \<Rightarrow> retry_config \<Rightarrow> backend_error \<Rightarrow> u32 \<Rightarrow> bool" where
  "should_retry_locally t policy e attempt \<longleftrightarrow>
     (if delegates_retry_to_adapter t then False
      else rc_enabled policy \<and> attempt < rc_max_retries policy \<and>
           backend_failure_kind e \<in> set (rc_retry_on policy))"

definition sat128 :: "nat \<Rightarrow> nat" where
  "sat128 n = min n (2 ^ 128 - 1)"

definition retry_delay :: "retry_config \<Rightarrow> u32 \<Rightarrow> nat \<Rightarrow> u64" where
  "retry_delay policy attempt jitter_percent =
     (let factor = unat (max (rc_factor policy) 1);
          multiplier = sat128 (factor ^ unat attempt);
          base = min (sat128 (unat (rc_min_timeout_ms policy) * multiplier))
                     (unat (rc_max_timeout_ms policy));
          delay = min (sat128 (base * jitter_percent) div 100) (unat (rc_max_timeout_ms policy))
      in of_nat delay)"

lemma retry_delay_le: "retry_delay policy attempt jitter \<le> rc_max_timeout_ms policy"
proof -
  have "(of_nat n :: u64) \<le> rc_max_timeout_ms policy" if "n \<le> unat (rc_max_timeout_ms policy)" for n
  proof -
    have "unat (rc_max_timeout_ms policy) < 2 ^ LENGTH(64)" by (rule unsigned_less)
    with that have "n < 2 ^ LENGTH(64)" by (rule le_less_trans)
    then show ?thesis using that by (simp add: word_le_nat_alt unsigned_of_nat take_bit_nat_eq_self)
  qed
  then show ?thesis by (simp add: retry_delay_def Let_def)
qed

section \<open>The trace\<close>

record http_out =
  ho_method :: string
  ho_url :: string
  ho_headers :: header_list
  ho_body :: "json option"

text \<open>
  What comes back: no response (a message, and whether it was a time-out), or a status, headers
  and the body, whose reading may fail in the same way.
\<close>

datatype http_in = NoResponse string bool | Response nat header_map "(string \<times> bool) + string"

datatype provider_event = PeHttp http_out http_in | PeSlept u64

record provider_world =
  pw_http :: "provider_event list \<Rightarrow> http_out \<Rightarrow> http_in"
  pw_jitter :: "provider_event list \<Rightarrow> nat"
  pw_json :: "string \<Rightarrow> string + json"
  pw_response :: "string \<Rightarrow> string + chat_response"
  pw_models :: "string \<Rightarrow> string + (string \<times> string option) list"
  pw_iter :: stream_iter
  pw_num :: "f32 \<Rightarrow> json"
  pw_status_text :: "nat \<Rightarrow> string"
  pw_uuid :: "provider_event list \<Rightarrow> string"
  pw_now :: "provider_event list \<Rightarrow> u64"

type_synonym 'a provider_act = "(provider_event list, backend_error, 'a) act"

definition http_send :: "provider_world \<Rightarrow> http_out \<Rightarrow> http_in provider_act" where
  "http_send w out tr = (let answer = pw_http w tr out in (Inr answer, PeHttp out answer # tr))"

section \<open>The HTTP backend\<close>

record http_backend =
  hb_base_url :: string
  hb_api_key :: string
  hb_headers :: header_list

definition is_authorization :: "string \<Rightarrow> bool" where
  "is_authorization k \<longleftrightarrow> to_ascii_lowercase k = ''authorization''"

definition apply_configured_headers :: "http_backend \<Rightarrow> header_list \<Rightarrow> header_list" where
  "apply_configured_headers b hs =
     hs @ filter (\<lambda>p. \<not> (hb_api_key b \<noteq> [] \<and> is_authorization (fst p))) (hb_headers b)"

definition apply_authorization_header :: "http_backend \<Rightarrow> header_list \<Rightarrow> header_list" where
  "apply_authorization_header b hs =
     (if hb_api_key b \<noteq> [] then hs @ [(''Authorization'', ''Bearer '' @ hb_api_key b)] else hs)"

definition upstream_api_error_message :: "provider_world \<Rightarrow> nat \<Rightarrow> string \<Rightarrow> string" where
  "upstream_api_error_message w status body =
     (if body = [] then ''API error '' @ pw_status_text w status @ '': upstream response body was empty''
      else ''API error '' @ pw_status_text w status @ '': upstream response body omitted ('' @
           show_nat (length body) @ '' bytes)'')"

definition is_kimi_backend :: "string \<Rightarrow> bool" where
  "is_kimi_backend base_url =
     (let u = to_ascii_lowercase base_url in str_contains ''api.kimi.com'' u \<or> str_contains ''moonshot'' u)"

text \<open>\<open>trim_start_matches("kimi/")\<close> takes the prefix away as often as it is there.\<close>

definition trim_kimi :: "string \<Rightarrow> string" where
  "trim_kimi m = drop_seqs [''kimi/''] m"

definition is_kimi_model :: "string \<Rightarrow> bool" where
  "is_kimi_model m \<longleftrightarrow> prefix ''kimi-'' (trim_kimi m)"

definition apply_kimi_compat :: "string \<Rightarrow> string \<Rightarrow> json \<Rightarrow> json" where
  "apply_kimi_compat base_url m body =
     (if (is_kimi_backend base_url \<or> is_kimi_model m) \<and> json_get ''thinking'' body = None
      then (case body of
              JObj kvs \<Rightarrow> JObj (btree_insert ''thinking'' (JObj [(''type'', JStr ''disabled'')]) kvs)
            | _ \<Rightarrow> body)
      else body)"

definition is_success :: "nat \<Rightarrow> bool" where
  "is_success status \<longleftrightarrow> 200 \<le> status \<and> status < 300"

definition status_failure :: "provider_world \<Rightarrow> nat \<Rightarrow> (string \<times> bool) + string \<Rightarrow> backend_error" where
  "status_failure w status body =
     http_status_error status (upstream_api_error_message w status
       (case body of Inl _ \<Rightarrow> ''Unknown error'' | Inr text \<Rightarrow> text))"

definition chat_http_request :: "provider_world \<Rightarrow> http_backend \<Rightarrow> chat_request \<Rightarrow> http_out" where
  "chat_http_request w b req =
     \<lparr>ho_method = ''POST'', ho_url = hb_base_url b @ ''/chat/completions'',
      ho_headers = apply_authorization_header b
        (apply_configured_headers b [(''Content-Type'', ''application/json'')]),
      ho_body = Some (apply_kimi_compat (hb_base_url b) (cr_model req)
        (request_json (pw_num w) req))\<rparr>"

definition is_event_stream :: "header_map \<Rightarrow> bool" where
  "is_event_stream hs \<longleftrightarrow>
     str_contains ''text/event-stream''
       (to_ascii_lowercase (case header_get hs ''content-type'' of Some v \<Rightarrow> v | None \<Rightarrow> []))"

definition read_chat_response ::
  "provider_world \<Rightarrow> string \<Rightarrow> http_in \<Rightarrow> backend_error + chat_response" where
  "read_chat_response w m answer =
     (case answer of
        NoResponse e timeout \<Rightarrow> Inl (transport_error (''Request failed: '' @ e) timeout)
      | Response status hs body \<Rightarrow>
          if \<not> is_success status then Inl (status_failure w status body)
          else if is_event_stream hs
          then (case body of
                  Inl (e, timeout) \<Rightarrow>
                    Inl (transport_error (''Failed to read streaming response for model '' @ [CHR 0x27] @
                      m @ [CHR 0x27] @ '': '' @ e) timeout)
                | Inr text \<Rightarrow> parse_streaming_chat_completion (pw_json w) (pw_iter w) text m)
          else (case (case body of Inl (e, _) \<Rightarrow> Inl e | Inr text \<Rightarrow> pw_response w text) of
                  Inl e \<Rightarrow> Inl (BeInvalidResponse (''Failed to parse response for model '' @ [CHR 0x27] @
                      m @ [CHR 0x27] @ '': '' @ e))
                | Inr resp \<Rightarrow> Inr resp))"

definition send_chat_completion_request ::
  "provider_world \<Rightarrow> http_backend \<Rightarrow> chat_request \<Rightarrow> chat_response provider_act" where
  "send_chat_completion_request w b req =
     act_bind (http_send w (chat_http_request w b req))
       (\<lambda>answer. act_lift (read_chat_response w (cr_model req) answer))"

record backend_model =
  bm_id :: string
  bm_name :: "string option"
  bm_provider :: "string option"
  bm_capabilities :: "string list"

definition read_models :: "provider_world \<Rightarrow> http_in \<Rightarrow> backend_error + backend_model list" where
  "read_models w answer =
     (case answer of
        NoResponse e timeout \<Rightarrow> Inl (transport_error (''Request failed: '' @ e) timeout)
      | Response status hs body \<Rightarrow>
          if \<not> is_success status then Inl (status_failure w status body)
          else (case (case body of Inl (e, _) \<Rightarrow> Inl e | Inr text \<Rightarrow> pw_models w text) of
                  Inl e \<Rightarrow> Inl (BeInvalidResponse (''Failed to parse models: '' @ e))
                | Inr ms \<Rightarrow> Inr (map (\<lambda>(i, owner).
                    \<lparr>bm_id = i, bm_name = Some i, bm_provider = owner, bm_capabilities = [''chat'']\<rparr>) ms)))"

definition http_list_models :: "provider_world \<Rightarrow> http_backend \<Rightarrow> backend_model list provider_act" where
  "http_list_models w b =
     act_bind (http_send w
         \<lparr>ho_method = ''GET'', ho_url = hb_base_url b @ ''/models'',
          ho_headers = apply_authorization_header b (apply_configured_headers b []), ho_body = None\<rparr>)
       (\<lambda>answer. act_lift (read_models w answer))"

section \<open>Mock backends\<close>

definition mock_model :: "string \<Rightarrow> string \<Rightarrow> string \<Rightarrow> string list \<Rightarrow> backend_model" where
  "mock_model i name owner caps =
     \<lparr>bm_id = i, bm_name = Some name, bm_provider = Some owner, bm_capabilities = caps\<rparr>"

definition assistant_message :: "string \<Rightarrow> chat_message" where
  "assistant_message s =
     \<lparr>cm_role = ''assistant'', cm_content = Some (ContentText s), cm_name = None,
      cm_tool_calls = None, cm_tool_call_id = None, cm_reasoning = None,
      cm_reasoning_content = None\<rparr>"

definition message_text :: "chat_message \<Rightarrow> string option" where
  "message_text m = Option.bind (cm_content m) to_text"

definition mock_text :: "string \<Rightarrow> string" where
  "mock_text m =
     (if m = ''gpt-4'' then ''Hello from GPT-4 mock!''
      else if m = ''claude-3-5-sonnet'' then ''Hello from Claude mock!''
      else if m = ''kimi-free'' then ''Hello from Kimi Free mock!''
      else ''Mock response for model: '' @ m)"

definition len_quarter :: "string \<Rightarrow> u32" where
  "len_quarter s = of_nat (length s) div 4"

definition mock_backend_response :: "string \<Rightarrow> u64 \<Rightarrow> chat_request \<Rightarrow> chat_response" where
  "mock_backend_response uuid now req =
     (let text = mock_text (cr_model req);
          final = (if cr_messages req = [] then []
                   else str_or_empty (message_text (List.last (cr_messages req))))
      in \<lparr>rp_id = ''mock-'' @ uuid, rp_object = ''chat.completion'', rp_created = now,
          rp_model = cr_model req,
          rp_choices = [\<lparr>ch_index = 0,
            ch_message = assistant_message (text @ '' (responding to: '' @ final @ '')''),
            ch_finish_reason = Some ''stop'', ch_logprobs = None\<rparr>],
          rp_usage =
            \<lparr>us_prompt_tokens = sum_list (map (\<lambda>m. case message_text m of
                 Some t \<Rightarrow> len_quarter t | None \<Rightarrow> 0) (cr_messages req)),
             us_completion_tokens = len_quarter text, us_total_tokens = 0\<rparr>,
          rp_system_fingerprint = None, rp_extra_body = []\<rparr>)"

definition mock_backend_models :: "backend_model list" where
  "mock_backend_models =
     [mock_model ''gpt-4'' ''GPT-4'' ''openai'' [''chat'', ''function-calling''],
      mock_model ''claude-3-5-sonnet'' ''Claude 3.5 Sonnet'' ''anthropic'' [''chat'', ''function-calling''],
      mock_model ''kimi-free'' ''Kimi Free'' ''kimi'' [''chat'']]"

datatype secrets_backend = HttpBackend http_backend | MockBackend

definition backend_chat ::
  "provider_world \<Rightarrow> secrets_backend \<Rightarrow> chat_request \<Rightarrow> chat_response provider_act" where
  "backend_chat w b req =
     (case b of
        HttpBackend hb \<Rightarrow> send_chat_completion_request w hb req
      | MockBackend \<Rightarrow> (\<lambda>tr. (Inr (mock_backend_response (pw_uuid w tr) (pw_now w tr) req), tr)))"

definition backend_list_models ::
  "provider_world \<Rightarrow> secrets_backend \<Rightarrow> backend_model list provider_act" where
  "backend_list_models w b =
     (case b of HttpBackend hb \<Rightarrow> http_list_models w hb | MockBackend \<Rightarrow> act_return mock_backend_models)"

record backend_config =
  bc_mock :: bool
  bc_url :: "string option"
  bc_api_key :: "string option"
  bc_headers :: "header_list option"

definition create_backend :: "backend_config \<Rightarrow> backend_error + secrets_backend" where
  "create_backend c =
     (if bc_mock c then Inr MockBackend
      else (case bc_url c of
              None \<Rightarrow> Inl (BeConfig ''Missing url for HTTP backend'')
            | Some url \<Rightarrow> Inr (HttpBackend
                \<lparr>hb_base_url = url, hb_api_key = str_or_empty (bc_api_key c),
                 hb_headers = (case bc_headers c of Some hs \<Rightarrow> hs | None \<Rightarrow> [])\<rparr>)))"

section \<open>Adapters\<close>

datatype provider_adapter =
    MockGateway adapter_config
  | BuiltinHttpGateway adapter_config secrets_backend
  | LoggingGateway adapter_config provider_adapter

fun adapter_type :: "provider_adapter \<Rightarrow> gateway_type" where
  "adapter_type (MockGateway _) = GwMock"
| "adapter_type (BuiltinHttpGateway c _) = ac_backend_type c"
| "adapter_type (LoggingGateway _ inner) = adapter_type inner"

fun adapter_engine_info :: "provider_adapter \<Rightarrow> engine_info" where
  "adapter_engine_info (MockGateway c) = config_engine_info c GwMock"
| "adapter_engine_info (BuiltinHttpGateway c b) = config_engine_info c (ac_backend_type c)"
| "adapter_engine_info (LoggingGateway _ inner) = adapter_engine_info inner"

definition mock_gateway_response :: "u64 \<Rightarrow> chat_request \<Rightarrow> chat_response" where
  "mock_gateway_response now req =
     \<lparr>rp_id = ''mock-id'', rp_object = ''chat.completion'', rp_created = now, rp_model = cr_model req,
      rp_choices = [\<lparr>ch_index = 0,
        ch_message = assistant_message (''Mock gateway response for model: '' @ cr_model req),
        ch_finish_reason = Some ''stop'', ch_logprobs = None\<rparr>],
      rp_usage = \<lparr>us_prompt_tokens = 0, us_completion_tokens = 0, us_total_tokens = 0\<rparr>,
      rp_system_fingerprint = None, rp_extra_body = []\<rparr>"

definition mock_gateway_models :: "backend_model list" where
  "mock_gateway_models =
     [mock_model ''mock-model-1'' ''Mock Model 1'' ''mock'' [''chat'', ''completion''],
      mock_model ''mock-model-2'' ''Mock Model 2'' ''mock'' [''chat'']]"

lemma attempts_left: "(attempt :: u32) < n \<Longrightarrow> unat n - unat (attempt + 1) < unat n - unat attempt"
proof -
  assume a: "attempt < n"
  then have "unat attempt + 1 < 2 ^ LENGTH(32)"
    using unsigned_less [of n, where ?'a = nat] by (simp add: word_less_nat_alt)
  then have "unat (attempt + 1) = unat attempt + 1" by (simp add: unat_word_ariths)
  with a show ?thesis by (simp add: word_less_nat_alt)
qed

text \<open>The loop of \<open>LoggingGateway::chat_completion\<close> around one call of the inner adapter.\<close>

function retry_loop ::
  "provider_world \<Rightarrow> gateway_type \<Rightarrow> retry_config \<Rightarrow> 'a provider_act \<Rightarrow> u32 \<Rightarrow> 'a provider_act" where
  "retry_loop w t policy call attempt tr =
     (case call tr of
        (Inr resp, tr') \<Rightarrow> (Inr resp, tr')
      | (Inl e, tr') \<Rightarrow>
          if should_retry_locally t policy e attempt
          then retry_loop w t policy call (attempt + 1)
                 (PeSlept (retry_delay policy attempt (pw_jitter w tr')) # tr')
          else (Inl e, tr'))"
  by pat_completeness auto

termination
  by (relation "measure (\<lambda>(_, _, policy, _, attempt, _). unat (rc_max_retries policy) - unat attempt)")
    (auto simp: should_retry_locally_def intro: attempts_left split: if_splits)

declare retry_loop.simps [simp del]

definition normalize_request_model :: "chat_request \<Rightarrow> chat_request" where
  "normalize_request_model req =
     (if prefix ''kimi/'' (cr_model req) then req\<lparr>cr_model := trim_kimi (cr_model req)\<rparr> else req)"

definition normalize_response_model :: "chat_response \<Rightarrow> chat_response" where
  "normalize_response_model resp =
     (if prefix ''kimi-'' (rp_model resp) then resp\<lparr>rp_model := ''kimi/'' @ rp_model resp\<rparr> else resp)"

fun adapter_chat :: "provider_world \<Rightarrow> provider_adapter \<Rightarrow> chat_request \<Rightarrow> chat_response provider_act" where
  "adapter_chat w (MockGateway c) req =
     (\<lambda>tr. (Inr (mock_gateway_response (pw_now w tr) req), tr))"
| "adapter_chat w (BuiltinHttpGateway c b) req = backend_chat w b req"
| "adapter_chat w (LoggingGateway c inner) req =
     act_bind
       (retry_loop w (adapter_type inner) (ac_retry c)
          (adapter_chat w inner (normalize_request_model req)) 0)
       (\<lambda>resp. act_return (normalize_response_model resp))"

definition normalize_listed_model :: "backend_model \<Rightarrow> backend_model" where
  "normalize_listed_model bm =
     (if prefix ''kimi-'' (bm_id bm) then bm\<lparr>bm_id := ''kimi/'' @ bm_id bm\<rparr> else bm)"

fun adapter_list_models :: "provider_world \<Rightarrow> provider_adapter \<Rightarrow> backend_model list provider_act" where
  "adapter_list_models w (MockGateway c) = act_return mock_gateway_models"
| "adapter_list_models w (BuiltinHttpGateway c b) = backend_list_models w b"
| "adapter_list_models w (LoggingGateway c inner) =
     act_bind (adapter_list_models w inner) (\<lambda>ms. act_return (map normalize_listed_model ms))"

definition create_gateway ::
  "adapter_config \<Rightarrow> secrets_backend option \<Rightarrow> backend_error + provider_adapter" where
  "create_gateway c backend =
     (if ac_backend_type c = GwMock then Inr (LoggingGateway c (MockGateway c))
      else (case backend of
              None \<Rightarrow> Inl (BeConfig (show_gateway_type (ac_backend_type c) @
                        '' gateway requires a backend parameter''))
            | Some b \<Rightarrow> Inr (LoggingGateway c (BuiltinHttpGateway c b))))"

end
