(* ===== verification/Gateway_Telemetry.thy ===== *)
theory Gateway_Telemetry
  imports Provider_Backend
begin

text \<open>
  Telemetry of the model gateway (\<open>crates/calciforge/src/proxy/telemetry.rs\<close>): what is recorded
  of an attempt, the sinks of the configuration, and what each sink sends.  Checking the name
  and the value of a header is the HTTP library's, a parameter; so are the clock and the random
  identifiers of a span.
\<close>

section \<open>Events\<close>

record telemetry_attempt =
  tm_agent :: string
  tm_requested_model :: string
  tm_root_model :: string
  tm_concrete_model :: string
  tm_upstream_model :: string
  tm_provider_id :: "string option"
  tm_engine :: string
  tm_stream :: bool
  tm_tools :: bool
  tm_message_count :: nat

datatype telemetry_outcome = TelemetrySuccess nat "string option" | TelemetryFailure failure_kind

definition telemetry_result :: "backend_error + chat_response \<Rightarrow> telemetry_outcome" where
  "telemetry_result r =
     (case r of
        Inr resp \<Rightarrow> TelemetrySuccess (length (rp_choices resp)) (wardwright_receipt_id resp)
      | Inl e \<Rightarrow> TelemetryFailure (backend_failure_kind e))"

record telemetry_event =
  te_timestamp_ms :: u64
  te_attempt :: telemetry_attempt
  te_duration_ms :: u64
  te_outcome :: telemetry_outcome

definition event_type :: string where
  "event_type = ''model_gateway.attempt''"

text \<open>The names of \<open>#[serde(rename_all = "snake_case")]\<close> and of \<open>{:?}\<close>.\<close>

fun failure_kind_snake :: "failure_kind \<Rightarrow> string" where
  "failure_kind_snake FkTimeout = ''timeout''"
| "failure_kind_snake FkNetwork = ''network''"
| "failure_kind_snake FkRateLimited = ''rate_limited''"
| "failure_kind_snake FkServerError = ''server_error''"
| "failure_kind_snake FkContextExceeded = ''context_exceeded''"
| "failure_kind_snake FkAuthFailed = ''auth_failed''"
| "failure_kind_snake FkForbidden = ''forbidden''"
| "failure_kind_snake FkModelNotFound = ''model_not_found''"
| "failure_kind_snake FkBadRequest = ''bad_request''"
| "failure_kind_snake FkMisconfigured = ''misconfigured''"
| "failure_kind_snake FkInvalidResponse = ''invalid_response''"
| "failure_kind_snake FkUnknown = ''unknown''"

fun failure_kind_debug :: "failure_kind \<Rightarrow> string" where
  "failure_kind_debug FkTimeout = ''Timeout''"
| "failure_kind_debug FkNetwork = ''Network''"
| "failure_kind_debug FkRateLimited = ''RateLimited''"
| "failure_kind_debug FkServerError = ''ServerError''"
| "failure_kind_debug FkContextExceeded = ''ContextExceeded''"
| "failure_kind_debug FkAuthFailed = ''AuthFailed''"
| "failure_kind_debug FkForbidden = ''Forbidden''"
| "failure_kind_debug FkModelNotFound = ''ModelNotFound''"
| "failure_kind_debug FkBadRequest = ''BadRequest''"
| "failure_kind_debug FkMisconfigured = ''Misconfigured''"
| "failure_kind_debug FkInvalidResponse = ''InvalidResponse''"
| "failure_kind_debug FkUnknown = ''Unknown''"

definition outcome_name :: "telemetry_outcome \<Rightarrow> string" where
  "outcome_name o1 = (case o1 of TelemetrySuccess _ _ \<Rightarrow> ''success'' | TelemetryFailure _ \<Rightarrow> ''failure'')"

fun outcome_failure :: "telemetry_outcome \<Rightarrow> failure_kind option" where
  "outcome_failure (TelemetrySuccess _ _) = None"
| "outcome_failure (TelemetryFailure k) = Some k"

fun outcome_choices :: "telemetry_outcome \<Rightarrow> nat option" where
  "outcome_choices (TelemetrySuccess n _) = Some n"
| "outcome_choices (TelemetryFailure _) = None"

fun outcome_receipt :: "telemetry_outcome \<Rightarrow> string option" where
  "outcome_receipt (TelemetrySuccess _ r) = r"
| "outcome_receipt (TelemetryFailure _) = None"

text \<open>\<open>serde_json::to_value(event)\<close>.\<close>

definition json_nat :: "nat \<Rightarrow> json" where
  "json_nat n = JNum (show_nat n)"

definition event_json :: "telemetry_event \<Rightarrow> json" where
  "event_json e =
     (let a = te_attempt e; r = te_outcome e in json_struct
       [(''event_type'', JStr event_type), (''timestamp_ms'', json_nat (unat (te_timestamp_ms e))),
        (''agent_id'', JStr (tm_agent a)), (''requested_model'', JStr (tm_requested_model a)),
        (''root_model'', JStr (tm_root_model a)), (''concrete_model'', JStr (tm_concrete_model a)),
        (''upstream_model'', JStr (tm_upstream_model a)),
        (''provider_id'', json_opt JStr (tm_provider_id a)), (''gateway_engine'', JStr (tm_engine a)),
        (''stream'', JBool (tm_stream a)), (''tools'', JBool (tm_tools a)),
        (''message_count'', json_nat (tm_message_count a)),
        (''duration_ms'', json_nat (unat (te_duration_ms e))), (''outcome'', JStr (outcome_name r)),
        (''failure_kind'', json_opt (\<lambda>k. JStr (failure_kind_snake k)) (outcome_failure r)),
        (''choices'', json_opt json_nat (outcome_choices r)),
        (''receipt_id'', json_opt JStr (outcome_receipt r))])"

section \<open>OTLP\<close>

definition otlp_attr :: "string \<Rightarrow> string \<Rightarrow> json" where
  "otlp_attr k v =
     json_struct [(''key'', JStr k), (''value'', json_struct [(''stringValue'', JStr v)])]"

definition otlp_bool_attr :: "string \<Rightarrow> bool \<Rightarrow> json" where
  "otlp_bool_attr k v =
     json_struct [(''key'', JStr k), (''value'', json_struct [(''boolValue'', JBool v)])]"

definition show_i64 :: "int \<Rightarrow> string" where
  "show_i64 i = (if i < 0 then CHR 0x2D # show_nat (nat (- i)) else show_nat (nat i))"

definition otlp_i64_attr :: "string \<Rightarrow> 64 word \<Rightarrow> json" where
  "otlp_i64_attr k v =
     json_struct [(''key'', JStr k), (''value'', json_struct [(''intValue'', JStr (show_i64 (sint v)))])]"

definition opt_attr :: "('a \<Rightarrow> json) \<Rightarrow> 'a option \<Rightarrow> json list" where
  "opt_attr f x = (case x of None \<Rightarrow> [] | Some y \<Rightarrow> [f y])"

definition otlp_attributes :: "telemetry_event \<Rightarrow> json list" where
  "otlp_attributes e =
     (let a = te_attempt e; r = te_outcome e in
       [otlp_attr ''gen_ai.operation.name'' ''chat'',
        otlp_attr ''gen_ai.request.model'' (tm_requested_model a),
        otlp_attr ''gen_ai.response.model'' (tm_upstream_model a),
        otlp_attr ''calciforge.agent_id'' (tm_agent a),
        otlp_attr ''calciforge.root_model'' (tm_root_model a),
        otlp_attr ''calciforge.concrete_model'' (tm_concrete_model a),
        otlp_attr ''calciforge.gateway_engine'' (tm_engine a),
        otlp_bool_attr ''calciforge.stream'' (tm_stream a),
        otlp_bool_attr ''calciforge.tools'' (tm_tools a),
        otlp_i64_attr ''calciforge.message_count'' (of_nat (tm_message_count a)),
        otlp_i64_attr ''calciforge.duration_ms'' (te_duration_ms e),
        otlp_attr ''calciforge.outcome'' (outcome_name r)] @
       opt_attr (otlp_attr ''calciforge.provider_id'') (tm_provider_id a) @
       opt_attr (\<lambda>k. otlp_attr ''calciforge.failure_kind'' (failure_kind_debug k)) (outcome_failure r) @
       opt_attr (\<lambda>n. otlp_i64_attr ''calciforge.choices'' (of_nat n)) (outcome_choices r) @
       opt_attr (otlp_attr ''calciforge.receipt_id'') (outcome_receipt r))"

definition saturating_mul64 :: "u64 \<Rightarrow> u64 \<Rightarrow> u64" where
  "saturating_mul64 a b = (if unat a * unat b < 2 ^ 64 then a * b else - 1)"

definition saturating_sub64 :: "u64 \<Rightarrow> u64 \<Rightarrow> u64" where
  "saturating_sub64 a b = (if b \<le> a then a - b else 0)"

definition span_end :: "telemetry_event \<Rightarrow> u64" where
  "span_end e = saturating_mul64 (te_timestamp_ms e) 1000000"

definition span_start :: "telemetry_event \<Rightarrow> u64" where
  "span_start e = saturating_sub64 (span_end e) (saturating_mul64 (te_duration_ms e) 1000000)"

text \<open>A span never ends before it starts, whatever the clock and the duration are.\<close>

lemma span_ordered: "span_start e \<le> span_end e"
  by (auto simp: span_start_def saturating_sub64_def word_sub_le)

text \<open>The identifiers of the span are random; the version is the build's.\<close>

definition otlp_trace_export :: "string \<Rightarrow> string \<Rightarrow> string \<Rightarrow> telemetry_event \<Rightarrow> json" where
  "otlp_trace_export version trace_id span_uuid e =
     json_struct [(''resourceSpans'', JArr [json_struct
       [(''resource'', json_struct [(''attributes'', JArr
           [otlp_attr ''service.name'' ''calciforge'', otlp_attr ''service.version'' version])]),
        (''scopeSpans'', JArr [json_struct
          [(''scope'', json_struct [(''name'', JStr ''calciforge.proxy.telemetry''),
                                    (''version'', JStr version)]),
           (''spans'', JArr [json_struct
             [(''traceId'', JStr trace_id), (''spanId'', JStr (take 16 span_uuid)),
              (''name'', JStr event_type), (''kind'', JNum ''3''),
              (''startTimeUnixNano'', JStr (show_nat (unat (span_start e)))),
              (''endTimeUnixNano'', JStr (show_nat (unat (span_end e)))),
              (''attributes'', JArr (otlp_attributes e)),
              (''status'', json_struct [(''code'',
                 JNum (case te_outcome e of TelemetrySuccess _ _ \<Rightarrow> ''1'' | TelemetryFailure _ \<Rightarrow> ''2''))])]])]])]])]"

definition otlp_traces_endpoint :: "string \<Rightarrow> string" where
  "otlp_traces_endpoint endpoint =
     (let trimmed = trim_end_matches (CHR 0x2F) (trim endpoint) in
      if suffix ''/v1/traces'' trimmed then trimmed else trimmed @ ''/v1/traces'')"

section \<open>Sinks\<close>

record observability_config =
  ob_kind :: string
  ob_enabled :: bool
  ob_endpoint :: "string option"
  ob_headers :: header_list
  ob_timeout_ms :: u64

definition default_observability :: observability_config where
  "default_observability =
     \<lparr>ob_kind = ''log'', ob_enabled = True, ob_endpoint = None, ob_headers = [], ob_timeout_ms = 250\<rparr>"

text \<open>
  The HTTP library's rules for headers: the canonical form of a name, and which values there are.
\<close>

record header_rules =
  hr_name :: "string \<Rightarrow> string option"
  hr_value :: "string \<Rightarrow> bool"

datatype telemetry_sink = LogSink | HttpSink string header_list u64 bool

datatype telemetry_error =
    UnsupportedObservability string
  | EndpointMissing string
  | BadHeaderName string
  | BadHeaderValue string

definition SUPPORTED_OBSERVABILITY_KINDS :: "string list" where
  "SUPPORTED_OBSERVABILITY_KINDS =
     [''log'', ''http-json'', ''webhook'', ''otel'', ''otlp'', ''traceloop'']"

definition normalize_kind :: "string \<Rightarrow> string" where
  "normalize_kind kind =
     map (\<lambda>c. if c = CHR 0x5F then CHR 0x2D else c) (to_ascii_lowercase (trim kind))"

fun sink_headers :: "header_rules \<Rightarrow> header_list \<Rightarrow> header_list \<Rightarrow> telemetry_error + header_list" where
  "sink_headers hr [] acc = Inr acc"
| "sink_headers hr ((k, v) # hs) acc =
     (case hr_name hr k of
        None \<Rightarrow> Inl (BadHeaderName k)
      | Some name \<Rightarrow>
          if \<not> hr_value hr v then Inl (BadHeaderValue v)
          else sink_headers hr hs (map_insert name v acc))"

definition http_sink ::
  "header_rules \<Rightarrow> observability_config \<Rightarrow> bool \<Rightarrow> telemetry_error + telemetry_sink" where
  "http_sink hr c otlp =
     (let endpoint = (case ob_endpoint c of None \<Rightarrow> [] | Some e \<Rightarrow> trim e) in
      if endpoint = [] then Inl (EndpointMissing (ob_kind c))
      else res_bind (sink_headers hr (ob_headers c) []) (\<lambda>hs.
        Inr (HttpSink (if otlp then otlp_traces_endpoint endpoint else endpoint) hs (ob_timeout_ms c)
              otlp)))"

definition sink_of :: "header_rules \<Rightarrow> observability_config \<Rightarrow> telemetry_error + telemetry_sink" where
  "sink_of hr c =
     (let kind = normalize_kind (ob_kind c) in
      if kind = ''log'' then Inr LogSink
      else if kind \<in> {''http-json'', ''webhook''} then http_sink hr c False
      else if kind \<in> {''otel'', ''otlp'', ''traceloop''} then http_sink hr c True
      else Inl (UnsupportedObservability (ob_kind c)))"

definition telemetry_from_config ::
  "header_rules \<Rightarrow> observability_config list \<Rightarrow> telemetry_error + telemetry_sink list" where
  "telemetry_from_config hr cs = try_map (sink_of hr) (filter ob_enabled cs)"

text \<open>The request a sink makes for an event; the log sink makes none.\<close>

fun sink_request :: "string \<Rightarrow> string \<Rightarrow> string \<Rightarrow> telemetry_event \<Rightarrow> telemetry_sink \<Rightarrow> http_out option" where
  "sink_request version trace_id span_uuid e LogSink = None"
| "sink_request version trace_id span_uuid e (HttpSink endpoint hs timeout otlp) =
     Some \<lparr>ho_method = ''POST'', ho_url = endpoint, ho_headers = hs,
           ho_body = Some (if otlp then otlp_trace_export version trace_id span_uuid e
                           else event_json e)\<rparr>"

text \<open>What an enabled sink of an accepted configuration sends goes to a configured place.\<close>

lemma sink_of_supported:
  assumes "sink_of hr c = Inr s"
  shows "normalize_kind (ob_kind c) \<in> set SUPPORTED_OBSERVABILITY_KINDS"
  using assms
  by (auto simp: sink_of_def SUPPORTED_OBSERVABILITY_KINDS_def Let_def split: if_splits)

definition canonical_headers :: "header_rules \<Rightarrow> header_list \<Rightarrow> bool" where
  "canonical_headers hr hs \<longleftrightarrow>
     distinct (map fst hs) \<and> (\<forall>(n, v) \<in> set hs. hr_value hr v \<and> (\<exists>k. hr_name hr k = Some n))"

lemma sink_headers_canonical:
  "sink_headers hr hs acc = Inr r \<Longrightarrow> canonical_headers hr acc \<Longrightarrow> canonical_headers hr r"
proof (induction hr hs acc arbitrary: r rule: sink_headers.induct)
  case (2 hr k v hs acc)
  then obtain name where n: "hr_name hr k = Some name" "hr_value hr v"
      "sink_headers hr hs (map_insert name v acc) = Inr r"
    by (auto split: option.splits if_splits)
  have "canonical_headers hr (map_insert name v acc)"
    using n "2.prems"(2) by (auto simp: canonical_headers_def map_insert_def distinct_map_filter)
  then show ?case using "2.IH" [OF n(1) _ n(3)] n(2) by simp
qed simp

end
