(* ===== verification/Model_Selectors.thy ===== *)
theory Model_Selectors
  imports Calci_Prelude "HOL-Library.Product_Lexorder" "HOL-Library.Multiset"
begin

text \<open>
  Synthetic models of the gateway (\<open>crates/calciforge/src/providers/alloy.rs\<close>): alloys (a
  weighted or rotating choice), cascades (an ordered fallback chain) and dispatchers (the
  smallest model that fits), which may name each other, and the plan of concrete models that a
  request tries.  The configuration types are those of \<open>config.rs\<close>.

  The definitions do not change after start-up; what changes (rotation, counters, the active
  selector of an identity) is a state of its own.  The weighted sampler of the \<open>rand\<close> crate is
  the argument \<open>sample\<close>, indexed by the number of the draw; \<^const>\<open>None\<close> is its error.  Hash maps
  are association lists whose order has no meaning.
\<close>

section \<open>Configuration\<close>

record constituent =
  cs_model :: string
  cs_weight :: u32
  cs_window :: u32

record alloy_config =
  al_id :: string
  al_name :: string
  al_strategy :: string
  al_constituents :: "constituent list"
  al_min_window :: "u32 option"

record target =
  tg_model :: string
  tg_window :: u32

record cascade_config =
  cc_id :: string
  cc_name :: "string option"
  cc_models :: "target list"

record dispatcher_config =
  dc_id :: string
  dc_name :: "string option"
  dc_models :: "target list"

datatype alloy_strategy = Weighted | RoundRobin

definition strategy_parse :: "string \<Rightarrow> alloy_strategy option" where
  "strategy_parse raw =
     (let s = to_ascii_lowercase (trim raw) in
      if s = ''weighted'' then Some Weighted
      else if s = ''round_robin'' then Some RoundRobin
      else None)"

section \<open>Errors\<close>

datatype selector_error =
    InvalidStrategy string string
  | FewConstituents string
  | ZeroMinWindow string
  | ConstituentNoModel string
  | ConstituentZeroWeight string string
  | ConstituentZeroWindow string string
  | BelowMinWindow string string u32 u32
  | EmptyId string
  | NoModels string string
  | TargetNoModel string string
  | TargetZeroWindow string string string
  | DuplicateAlloy string
  | DuplicateSelector string
  | GraphCycle "string list"
  | PlanCycle "string list"
  | AlloyTooSmall string u32 u32
  | TargetsTooSmall string string u32 u32
  | UnknownSelector string

definition quote :: "string \<Rightarrow> string" where
  "quote s = [CHR 0x27] @ s @ [CHR 0x27]"

definition show_u32 :: "u32 \<Rightarrow> string" where
  "show_u32 n = show_nat (unat n)"

primrec selector_error_text :: "selector_error \<Rightarrow> string" where
  "selector_error_text (InvalidStrategy i s) = ''alloy '' @ quote i @ '': invalid strategy '' @ quote s"
| "selector_error_text (FewConstituents i) = ''alloy '' @ quote i @ '': must define at least 2 constituents''"
| "selector_error_text (ZeroMinWindow i) =
     ''alloy '' @ quote i @
     '': min_context_window must be > 0 when set (omit the field for auto-compute)''"
| "selector_error_text (ConstituentNoModel i) =
     ''alloy '' @ quote i @ '': constituent model must not be empty''"
| "selector_error_text (ConstituentZeroWeight i m) =
     ''alloy '' @ quote i @ '': constituent '' @ quote m @ '' weight must be > 0''"
| "selector_error_text (ConstituentZeroWindow i m) =
     ''alloy '' @ quote i @ '': constituent '' @ quote m @ '' context_window must be > 0''"
| "selector_error_text (BelowMinWindow i m n k) =
     ''alloy '' @ quote i @ '': constituent '' @ quote m @ '' has context_window='' @ show_u32 n @
     '' which is below the alloy'' @ [CHR 0x27] @ ''s min_context_window='' @ show_u32 k @
     ''. Either raise the constituent'' @ [CHR 0x27] @ ''s declared size, lower the alloy'' @
     [CHR 0x27] @ ''s min, or remove the constituent.''"
| "selector_error_text (EmptyId kind) = kind @ '' id must not be empty''"
| "selector_error_text (NoModels kind i) = kind @ '' '' @ quote i @ '': must define at least 1 model''"
| "selector_error_text (TargetNoModel kind i) = kind @ '' '' @ quote i @ '': model must not be empty''"
| "selector_error_text (TargetZeroWindow kind i m) =
     kind @ '' '' @ quote i @ '': model '' @ quote m @ '' context_window must be > 0''"
| "selector_error_text (DuplicateAlloy i) = ''duplicate alloy id '' @ quote i"
| "selector_error_text (DuplicateSelector i) = ''duplicate synthetic model selector '' @ quote i"
| "selector_error_text (GraphCycle ids) =
     ''synthetic model selector graph contains a cycle: '' @ join_with '' -> '' ids"
| "selector_error_text (PlanCycle ids) =
     ''synthetic model cycle detected: '' @ join_with '' -> '' ids"
| "selector_error_text (AlloyTooSmall i n k) =
     ''alloy '' @ quote i @ '': estimated request size '' @ show_u32 n @
     '' tokens exceeds effective context window '' @ show_u32 k"
| "selector_error_text (TargetsTooSmall kind i n k) =
     kind @ '' '' @ quote i @ '': estimated request size '' @ show_u32 n @
     '' tokens exceeds largest configured context window '' @ show_u32 k"
| "selector_error_text (UnknownSelector i) = ''unknown synthetic model selector '' @ quote i"

section \<open>Definitions built from the configuration\<close>

record alloy_def =
  ad_id :: string
  ad_name :: string
  ad_strategy :: alloy_strategy
  ad_constituents :: "constituent list"
  ad_min_window :: u32

record target_def =
  td_id :: string
  td_name :: string
  td_models :: "target list"

definition validate_constituent :: "string \<Rightarrow> constituent \<Rightarrow> selector_error + unit" where
  "validate_constituent alloy c =
     (if trim (cs_model c) = [] then Inl (ConstituentNoModel alloy)
      else if cs_weight c = 0 then Inl (ConstituentZeroWeight alloy (cs_model c))
      else if cs_window c = 0 then Inl (ConstituentZeroWindow alloy (cs_model c))
      else Inr ())"

definition alloy_from_config :: "alloy_config \<Rightarrow> selector_error + alloy_def" where
  "alloy_from_config cfg =
     (case strategy_parse (al_strategy cfg) of
        None \<Rightarrow> Inl (InvalidStrategy (al_id cfg) (al_strategy cfg))
      | Some strategy \<Rightarrow>
          if length (al_constituents cfg) < 2 then Inl (FewConstituents (al_id cfg))
          else if al_min_window cfg = Some 0 then Inl (ZeroMinWindow (al_id cfg))
          else res_bind (try_each (validate_constituent (al_id cfg)) (al_constituents cfg)) (\<lambda>_.
            let build = (\<lambda>m. \<lparr>ad_id = al_id cfg, ad_name = al_name cfg, ad_strategy = strategy,
                              ad_constituents = al_constituents cfg, ad_min_window = m\<rparr>) in
            case al_min_window cfg of
              None \<Rightarrow> Inr (build (Min (set (map cs_window (al_constituents cfg)))))
            | Some user_min \<Rightarrow>
                (case find (\<lambda>c. cs_window c < user_min) (al_constituents cfg) of
                   Some c \<Rightarrow> Inl (BelowMinWindow (al_id cfg) (cs_model c) (cs_window c) user_min)
                 | None \<Rightarrow> Inr (build user_min))))"

definition validate_synthetic_model :: "string \<Rightarrow> string \<Rightarrow> target \<Rightarrow> selector_error + unit" where
  "validate_synthetic_model kind owner c =
     (if trim (tg_model c) = [] then Inl (TargetNoModel kind owner)
      else if tg_window c = 0 then Inl (TargetZeroWindow kind owner (tg_model c))
      else Inr ())"

text \<open>\<open>CascadeDefinition::from_config\<close> and \<open>DispatcherDefinition::from_config\<close>.\<close>

definition targets_from ::
  "string \<Rightarrow> string \<Rightarrow> string option \<Rightarrow> target list \<Rightarrow> selector_error + target_def" where
  "targets_from kind owner name models =
     (if trim owner = [] then Inl (EmptyId kind)
      else if models = [] then Inl (NoModels kind owner)
      else res_bind (try_each (validate_synthetic_model kind owner) models) (\<lambda>_.
        Inr \<lparr>td_id = owner, td_name = (case name of Some n \<Rightarrow> n | None \<Rightarrow> owner), td_models = models\<rparr>))"

definition cascade_from_config :: "cascade_config \<Rightarrow> selector_error + target_def" where
  "cascade_from_config cfg = targets_from ''cascade'' (cc_id cfg) (cc_name cfg) (cc_models cfg)"

definition dispatcher_from_config :: "dispatcher_config \<Rightarrow> selector_error + target_def" where
  "dispatcher_from_config cfg = targets_from ''dispatcher'' (dc_id cfg) (dc_name cfg) (dc_models cfg)"

record selectors =
  alloys :: "(string \<times> alloy_def) list"
  cascades :: "(string \<times> target_def) list"
  dispatchers :: "(string \<times> target_def) list"

definition has_key :: "'k \<Rightarrow> ('k \<times> 'v) list \<Rightarrow> bool" where
  "has_key k xs \<longleftrightarrow> k \<in> set (map fst xs)"

definition is_synthetic_model :: "selectors \<Rightarrow> string \<Rightarrow> bool" where
  "is_synthetic_model sel m \<longleftrightarrow>
     has_key m (alloys sel) \<or> has_key m (cascades sel) \<or> has_key m (dispatchers sel)"

section \<open>The graph of selectors\<close>

text \<open>The models a selector names, and those of them that are selectors (\<open>child_refs\<close>).\<close>

definition model_refs :: "selectors \<Rightarrow> string \<Rightarrow> string list" where
  "model_refs sel i =
     (case map_of (alloys sel) i of
        Some a \<Rightarrow> map cs_model (ad_constituents a)
      | None \<Rightarrow>
          (case map_of (cascades sel) i of
             Some c \<Rightarrow> map tg_model (td_models c)
           | None \<Rightarrow>
               (case map_of (dispatchers sel) i of
                  Some d \<Rightarrow> map tg_model (td_models d)
                | None \<Rightarrow> [])))"

definition child_refs :: "selectors \<Rightarrow> string \<Rightarrow> string list" where
  "child_refs sel i = filter (is_synthetic_model sel) (model_refs sel i)"

definition selector_ids :: "selectors \<Rightarrow> string list" where
  "selector_ids sel = map fst (alloys sel) @ map fst (cascades sel) @ map fst (dispatchers sel)"

lemma synthetic_iff: "is_synthetic_model sel m \<longleftrightarrow> m \<in> set (selector_ids sel)"
  by (auto simp: is_synthetic_model_def has_key_def selector_ids_def)

lemma model_refs_synthetic: "model_refs sel i \<noteq> [] \<Longrightarrow> i \<in> set (selector_ids sel)"
  by (auto simp: model_refs_def selector_ids_def image_iff dest!: map_of_SomeD
      split: option.splits intro: bexI [rotated])

lemma child_refs_ids: "set (child_refs sel i) \<subseteq> set (selector_ids sel)"
  by (auto simp: child_refs_def synthetic_iff)

definition unseen :: "selectors \<Rightarrow> string list \<Rightarrow> nat" where
  "unseen sel path = card (set (selector_ids sel) - set path)"

lemma unseen_less:
  "i \<in> set (selector_ids sel) \<Longrightarrow> i \<notin> set path \<Longrightarrow> unseen sel (path @ [i]) < unseen sel path"
  unfolding unseen_def by (rule psubset_card_mono) auto

lemma unseen_le: "unseen sel (path @ xs) \<le> unseen sel path"
  unfolding unseen_def by (rule card_mono) auto

text \<open>
  The depth-first search: the visited selectors, or the cycle that was found.  \<open>visiting\<close> is
  the path from the root.
\<close>

function visit :: "selectors \<Rightarrow> string \<Rightarrow> string list \<Rightarrow> string list \<Rightarrow> selector_error + string list"
  and visit_all :: "selectors \<Rightarrow> string list \<Rightarrow> string list \<Rightarrow> string list \<Rightarrow> selector_error + string list"
  where
  "visit sel i visiting visited =
     (if i \<in> set visited then Inr visited
      else if i \<in> set visiting
      then Inl (GraphCycle (dropWhile (\<lambda>x. x \<noteq> i) visiting @ [i]))
      else (case visit_all sel (child_refs sel i) (visiting @ [i]) visited of
              Inl e \<Rightarrow> Inl e
            | Inr visited' \<Rightarrow> Inr (i # visited')))"
| "visit_all sel [] visiting visited = Inr visited"
| "visit_all sel (c # cs) visiting visited =
     (case visit sel c visiting visited of
        Inl e \<Rightarrow> Inl e
      | Inr visited' \<Rightarrow> visit_all sel cs visiting visited')"
  by pat_completeness auto

termination
proof (relation "measures
    [\<lambda>x. case x of Inl (sel, i, visiting, _) \<Rightarrow> unseen sel visiting
                 | Inr (sel, cs, visiting, _) \<Rightarrow> unseen sel visiting,
     \<lambda>x. case x of Inl _ \<Rightarrow> 1 | Inr (sel, cs, _) \<Rightarrow> 2 * length cs]", goal_cases)
  case (2 sel i visiting visited)
  show ?case
  proof (cases "child_refs sel i = []")
    case True
    with unseen_le [of sel visiting "[i]"] show ?thesis by (auto simp: le_less)
  next
    case False
    then have "model_refs sel i \<noteq> []" by (auto simp: child_refs_def)
    with 2 show ?thesis using unseen_less [OF model_refs_synthetic] by simp
  qed
qed auto

text \<open>\<open>validate_synthetic_selector_graph\<close>.\<close>

definition validate_graph :: "selectors \<Rightarrow> selector_error + unit" where
  "validate_graph sel = res_bind (visit_all sel (selector_ids sel) [] []) (\<lambda>_. Inr ())"

section \<open>The manager\<close>

text \<open>The three loops of \<open>AlloyManager::from_gateway_configs\<close>.\<close>

fun add_alloys :: "alloy_config list \<Rightarrow> selectors \<Rightarrow> selector_error + selectors" where
  "add_alloys [] sel = Inr sel"
| "add_alloys (cfg # cfgs) sel =
     res_bind (alloy_from_config cfg) (\<lambda>d.
       if has_key (al_id cfg) (alloys sel) then Inl (DuplicateAlloy (al_id cfg))
       else add_alloys cfgs (sel\<lparr>alloys := alloys sel @ [(al_id cfg, d)]\<rparr>))"

fun add_cascades :: "cascade_config list \<Rightarrow> selectors \<Rightarrow> selector_error + selectors" where
  "add_cascades [] sel = Inr sel"
| "add_cascades (cfg # cfgs) sel =
     res_bind (cascade_from_config cfg) (\<lambda>d.
       if has_key (cc_id cfg) (alloys sel) \<or> has_key (cc_id cfg) (cascades sel)
       then Inl (DuplicateSelector (cc_id cfg))
       else add_cascades cfgs (sel\<lparr>cascades := cascades sel @ [(cc_id cfg, d)]\<rparr>))"

fun add_dispatchers :: "dispatcher_config list \<Rightarrow> selectors \<Rightarrow> selector_error + selectors" where
  "add_dispatchers [] sel = Inr sel"
| "add_dispatchers (cfg # cfgs) sel =
     res_bind (dispatcher_from_config cfg) (\<lambda>d.
       if has_key (dc_id cfg) (alloys sel) \<or> has_key (dc_id cfg) (cascades sel) \<or>
          has_key (dc_id cfg) (dispatchers sel)
       then Inl (DuplicateSelector (dc_id cfg))
       else add_dispatchers cfgs (sel\<lparr>dispatchers := dispatchers sel @ [(dc_id cfg, d)]\<rparr>))"

definition empty_selectors :: selectors where
  "empty_selectors = \<lparr>alloys = [], cascades = [], dispatchers = []\<rparr>"

definition from_gateway_configs ::
  "alloy_config list \<Rightarrow> cascade_config list \<Rightarrow> dispatcher_config list \<Rightarrow> selector_error + selectors"
  where
  "from_gateway_configs acs ccs dcs =
     res_bind (add_alloys acs empty_selectors) (\<lambda>s1.
     res_bind (add_cascades ccs s1) (\<lambda>s2.
     res_bind (add_dispatchers dcs s2) (\<lambda>s3.
     res_bind (validate_graph s3) (\<lambda>_. Inr s3))))"

section \<open>The state of a running manager\<close>

record constituent_stats =
  ct_model :: string
  ct_requests :: u64
  ct_successes :: u64
  ct_failures :: u64

record alloy_state =
  next_rr_index :: nat
  stats_by_model :: "string \<rightharpoonup> constituent_stats"
  last_selected_model :: "string option"

record sel_state =
  alloy_states :: "string \<Rightarrow> alloy_state"
  active_by_identity :: "string \<rightharpoonup> string"
  draws :: nat

definition no_stats :: "string \<Rightarrow> constituent_stats" where
  "no_stats m = \<lparr>ct_model = m, ct_requests = 0, ct_successes = 0, ct_failures = 0\<rparr>"

definition initial_alloy_state :: "alloy_def \<Rightarrow> alloy_state" where
  "initial_alloy_state a =
     \<lparr>next_rr_index = 0,
      stats_by_model = map_of (map (\<lambda>c. (cs_model c, no_stats (cs_model c))) (ad_constituents a)),
      last_selected_model = None\<rparr>"

definition initial_state :: "selectors \<Rightarrow> sel_state" where
  "initial_state sel =
     \<lparr>alloy_states = (\<lambda>i. case map_of (alloys sel) i of
          Some a \<Rightarrow> initial_alloy_state a
        | None \<Rightarrow> \<lparr>next_rr_index = 0, stats_by_model = Map.empty, last_selected_model = None\<rparr>),
      active_by_identity = Map.empty, draws = 0\<rparr>"

section \<open>Plans\<close>

record alloy_plan =
  pl_id :: string
  pl_name :: string
  ordered_models :: "string list"

definition round_robin_order :: "constituent list \<Rightarrow> nat \<Rightarrow> string list \<times> nat" where
  "round_robin_order cs idx =
     (let n = length cs; start = idx mod n in
      (map (\<lambda>offset. cs_model (cs ! ((start + offset) mod n))) [0..<n], (start + 1) mod n))"

text \<open>
  \<open>weighted_order\<close>: \<open>k\<close> counts the draws.  \<open>Vec::remove\<close> panics on an index that is out of
  range, which \<open>WeightedIndex\<close> does not return; the definition stops there.
\<close>

type_synonym sampler = "nat \<Rightarrow> u32 list \<Rightarrow> nat option"

function weighted_order :: "sampler \<Rightarrow> nat \<Rightarrow> constituent list \<Rightarrow> string list \<times> nat" where
  "weighted_order sample k remaining =
     (if remaining = [] then ([], k)
      else
        let weights = map (\<lambda>c. if cs_weight c = 0 then 1 else cs_weight c) remaining;
            idx = (case sample k weights of Some i \<Rightarrow> i | None \<Rightarrow> 0)
        in if idx < length remaining
           then (case weighted_order sample (Suc k) (take idx remaining @ drop (Suc idx) remaining) of
                   (ms, k') \<Rightarrow> (cs_model (remaining ! idx) # ms, k'))
           else ([], k))"
  by pat_completeness auto
termination by (relation "measure (\<lambda>(sample, k, remaining). length remaining)") auto

declare weighted_order.simps [simp del]

text \<open>\<open>AlloyProvider::select_plan\<close>.\<close>

definition alloy_select_plan ::
  "sampler \<Rightarrow> string \<Rightarrow> alloy_def \<Rightarrow> sel_state \<Rightarrow> alloy_plan \<times> sel_state" where
  "alloy_select_plan sample i a st =
     (let s = alloy_states st i;
          (ms, s1, k) =
            (case ad_strategy a of
               RoundRobin \<Rightarrow>
                 (let (ms, idx) = round_robin_order (ad_constituents a) (next_rr_index s)
                  in (ms, s\<lparr>next_rr_index := idx\<rparr>, draws st))
             | Weighted \<Rightarrow>
                 (let (ms, k) = weighted_order sample (draws st) (ad_constituents a) in (ms, s, k)));
          s2 = s1\<lparr>last_selected_model := (case ms of [] \<Rightarrow> None | m # _ \<Rightarrow> Some m)\<rparr>
      in (\<lparr>pl_id = ad_id a, pl_name = ad_name a, ordered_models = ms\<rparr>,
          st\<lparr>alloy_states := (alloy_states st)(i := s2), draws := k\<rparr>))"

definition fitting :: "u32 \<Rightarrow> target list \<Rightarrow> target list" where
  "fitting tokens ms = filter (\<lambda>m. tokens \<le> tg_window m) ms"

text \<open>\<open>largest\<close> of the two error messages: \<open>max().unwrap_or_default()\<close>.\<close>

definition largest_window :: "target list \<Rightarrow> u32" where
  "largest_window ms = fold max (map tg_window ms) 0"

definition cascade_select_plan :: "target_def \<Rightarrow> u32 \<Rightarrow> selector_error + alloy_plan" where
  "cascade_select_plan d tokens =
     (let ms = map tg_model (fitting tokens (td_models d)) in
      if ms = [] then Inl (TargetsTooSmall ''cascade'' (td_id d) tokens (largest_window (td_models d)))
      else Inr \<lparr>pl_id = td_id d, pl_name = td_name d, ordered_models = ms\<rparr>)"

definition dispatcher_select_plan :: "target_def \<Rightarrow> u32 \<Rightarrow> selector_error + alloy_plan" where
  "dispatcher_select_plan d tokens =
     (let ms = sort_key (\<lambda>m. (tg_window m, tg_model m)) (fitting tokens (td_models d)) in
      if ms = [] then Inl (TargetsTooSmall ''dispatcher'' (td_id d) tokens (largest_window (td_models d)))
      else Inr \<lparr>pl_id = td_id d, pl_name = td_name d, ordered_models = map tg_model ms\<rparr>)"

text \<open>
  \<open>select_plan_recursive\<close> and \<open>expand_plan\<close>.  \<open>own_plan\<close> is the part of the former before the
  expansion: the plan of the selector itself.  The stack of selectors being expanded is passed
  down; the state is threaded through, since an alloy rotates even when a later step fails.
\<close>

definition own_plan ::
  "sampler \<Rightarrow> selectors \<Rightarrow> u32 \<Rightarrow> string \<Rightarrow> sel_state \<Rightarrow>
   (selector_error + alloy_plan option) \<times> sel_state" where
  "own_plan sample sel tokens i st =
     (case map_of (alloys sel) i of
        Some a \<Rightarrow>
          if ad_min_window a < tokens then (Inl (AlloyTooSmall i tokens (ad_min_window a)), st)
          else (case alloy_select_plan sample i a st of (plan, st') \<Rightarrow> (Inr (Some plan), st'))
      | None \<Rightarrow>
     (case map_of (cascades sel) i of
        Some d \<Rightarrow> (case cascade_select_plan d tokens of
                     Inl e \<Rightarrow> (Inl e, st) | Inr plan \<Rightarrow> (Inr (Some plan), st))
      | None \<Rightarrow>
     (case map_of (dispatchers sel) i of
        Some d \<Rightarrow> (case dispatcher_select_plan d tokens of
                     Inl e \<Rightarrow> (Inl e, st) | Inr plan \<Rightarrow> (Inr (Some plan), st))
      | None \<Rightarrow> (Inr None, st))))"

lemma found_selector:
  "map_of (alloys sel) i = Some a \<Longrightarrow> i \<in> set (selector_ids sel)"
  "map_of (cascades sel) i = Some d \<Longrightarrow> i \<in> set (selector_ids sel)"
  "map_of (dispatchers sel) i = Some d \<Longrightarrow> i \<in> set (selector_ids sel)"
  by (auto simp: selector_ids_def image_iff dest!: map_of_SomeD intro: bexI [rotated])

lemma own_plan_found:
  "own_plan sample sel tokens i st = (Inr (Some plan), st') \<Longrightarrow> i \<in> set (selector_ids sel)"
  by (auto simp: own_plan_def intro: found_selector split: option.splits if_splits)

function select_rec ::
    "sampler \<Rightarrow> selectors \<Rightarrow> u32 \<Rightarrow> string list \<Rightarrow> string \<Rightarrow> sel_state \<Rightarrow>
     (selector_error + alloy_plan option) \<times> sel_state"
  and expand_targets ::
    "sampler \<Rightarrow> selectors \<Rightarrow> u32 \<Rightarrow> string list \<Rightarrow> string list \<Rightarrow> sel_state \<Rightarrow>
     (selector_error + string list) \<times> sel_state"
  where
  "select_rec sample sel tokens stack i st =
     (if i \<in> set stack then (Inl (PlanCycle (stack @ [i])), st)
      else
        (case own_plan sample sel tokens i st of
           (Inl e, st') \<Rightarrow> (Inl e, st')
         | (Inr None, st') \<Rightarrow> (Inr None, st')
         | (Inr (Some plan), st') \<Rightarrow>
             (case expand_targets sample sel tokens (stack @ [i]) (ordered_models plan) st' of
                (Inl e, st'') \<Rightarrow> (Inl e, st'')
              | (Inr ms, st'') \<Rightarrow> (Inr (Some (plan\<lparr>ordered_models := ms\<rparr>)), st''))))"
| "expand_targets sample sel tokens stack [] st = (Inr [], st)"
| "expand_targets sample sel tokens stack (t # ts) st =
     (case select_rec sample sel tokens stack t st of
        (Inl e, st') \<Rightarrow> (Inl e, st')
      | (Inr child, st') \<Rightarrow>
          (case expand_targets sample sel tokens stack ts st' of
             (Inl e, st'') \<Rightarrow> (Inl e, st'')
           | (Inr ms, st'') \<Rightarrow>
               (Inr ((case child of Some plan \<Rightarrow> ordered_models plan | None \<Rightarrow> [t]) @ ms), st'')))"
  by pat_completeness auto

termination
proof (relation "measures
    [\<lambda>x. case x of Inl (_, sel, _, stack, _, _) \<Rightarrow> unseen sel stack
                 | Inr (_, sel, _, stack, _, _) \<Rightarrow> unseen sel stack,
     \<lambda>x. case x of Inl _ \<Rightarrow> 1 | Inr (_, _, _, _, ts, _) \<Rightarrow> 2 * length ts]", goal_cases)
qed (auto dest: unseen_less [OF own_plan_found [OF sym]])

declare visit.simps [simp del] select_rec.simps [simp del]

text \<open>\<open>AlloyManager::select_plan_for_model\<close>.\<close>

definition select_plan_for_model ::
  "sampler \<Rightarrow> selectors \<Rightarrow> string \<Rightarrow> u32 \<Rightarrow> sel_state \<Rightarrow>
   (selector_error + alloy_plan option) \<times> sel_state" where
  "select_plan_for_model sample sel i tokens st = select_rec sample sel tokens [] i st"

section \<open>The other operations\<close>

definition set_active_for_identity ::
  "selectors \<Rightarrow> string \<Rightarrow> string \<Rightarrow> sel_state \<Rightarrow> (selector_error + unit) \<times> sel_state" where
  "set_active_for_identity sel who i st =
     (if \<not> is_synthetic_model sel i then (Inl (UnknownSelector i), st)
      else (Inr (), st\<lparr>active_by_identity := (active_by_identity st)(who \<mapsto> i)\<rparr>))"

definition clear_active_for_identity :: "string \<Rightarrow> sel_state \<Rightarrow> sel_state" where
  "clear_active_for_identity who st =
     st\<lparr>active_by_identity := (active_by_identity st)(who := None)\<rparr>"

definition active_for_identity :: "string \<Rightarrow> sel_state \<Rightarrow> string option" where
  "active_for_identity who st = active_by_identity st who"

definition select_plan_for_identity ::
  "sampler \<Rightarrow> selectors \<Rightarrow> string \<Rightarrow> sel_state \<Rightarrow> alloy_plan option \<times> sel_state" where
  "select_plan_for_identity sample sel who st =
     (case active_for_identity who st of
        None \<Rightarrow> (None, st)
      | Some i \<Rightarrow>
          (case select_plan_for_model sample sel i 0 st of
             (Inl _, st') \<Rightarrow> (None, st')
           | (Inr p, st') \<Rightarrow> (p, st')))"

text \<open>\<open>AlloyProvider::record_attempt\<close>; the counters are 64 bits wide.\<close>

definition count_attempt :: "string \<Rightarrow> bool \<Rightarrow> alloy_state \<Rightarrow> alloy_state" where
  "count_attempt m success s =
     (let e = (case stats_by_model s m of Some e \<Rightarrow> e | None \<Rightarrow> no_stats m);
          e1 = e\<lparr>ct_requests := ct_requests e + 1\<rparr>;
          e2 = (if success then e1\<lparr>ct_successes := ct_successes e1 + 1\<rparr>
                else e1\<lparr>ct_failures := ct_failures e1 + 1\<rparr>)
      in s\<lparr>stats_by_model := (stats_by_model s)(m \<mapsto> e2)\<rparr>)"

definition record_attempt :: "selectors \<Rightarrow> string \<Rightarrow> string \<Rightarrow> bool \<Rightarrow> sel_state \<Rightarrow> sel_state" where
  "record_attempt sel i m success st =
     (if has_key i (alloys sel)
      then st\<lparr>alloy_states := (alloy_states st)(i := count_attempt m success (alloy_states st i))\<rparr>
      else st)"

definition stats_snapshot :: "alloy_def \<Rightarrow> alloy_state \<Rightarrow> constituent_stats list" where
  "stats_snapshot a s =
     sort_key ct_model
       (map (\<lambda>c. case stats_by_model s (cs_model c) of
                    Some e \<Rightarrow> e | None \<Rightarrow> no_stats (cs_model c)) (ad_constituents a))"

definition list_cascades :: "selectors \<Rightarrow> target_def list" where
  "list_cascades sel = sort_key td_id (map snd (cascades sel))"

definition list_dispatchers :: "selectors \<Rightarrow> target_def list" where
  "list_dispatchers sel = sort_key td_id (map snd (dispatchers sel))"

definition list_alloy_definitions :: "selectors \<Rightarrow> alloy_def list" where
  "list_alloy_definitions sel = sort_key ad_id (map snd (alloys sel))"

end
