(* ===== verification/Model_Plans.thy ===== *)
theory Model_Plans
  imports Model_Selectors
begin

text \<open>
  What \<open>providers/alloy.rs\<close> promises: the selector graph of a manager that was built has no
  cycle, an accepted plan is made of real models that are large enough, rotation is fair.
\<close>

section \<open>The selector graph\<close>

text \<open>\<open>i\<close> names the selector \<open>j\<close> among its models.\<close>

definition selector_edges :: "selectors \<Rightarrow> (string \<times> string) set" where
  "selector_edges sel = {(i, j). j \<in> set (child_refs sel i)}"

text \<open>A walk along edges that ends where it began.\<close>

definition closed_walk :: "selectors \<Rightarrow> string list \<Rightarrow> bool" where
  "closed_walk sel ids \<longleftrightarrow>
     2 \<le> length ids \<and> hd ids = last ids \<and> successively (\<lambda>i j. j \<in> set (child_refs sel i)) ids"

lemma successively_trancl:
  "successively (\<lambda>i j. (i, j) \<in> r) (x # xs) \<Longrightarrow> xs \<noteq> [] \<Longrightarrow> (x, last xs) \<in> r\<^sup>+"
  by (induction xs arbitrary: x rule: induct_list012)
    (auto intro: trancl_into_trancl2)

lemma closed_walk_cycle: "closed_walk sel ids \<Longrightarrow> \<not> acyclic (selector_edges sel)"
proof -
  assume w: "closed_walk sel ids"
  then obtain x xs where ids: "ids = x # xs" and "xs \<noteq> []"
    by (cases ids; cases "tl ids") (auto simp: closed_walk_def)
  with w have "(x, last xs) \<in> (selector_edges sel)\<^sup>+" "last xs = x"
    by (auto simp: closed_walk_def selector_edges_def intro!: successively_trancl)
  then show ?thesis by (auto simp: acyclic_def)
qed

text \<open>Every selector's children come later in the list: what the search keeps of \<open>visited\<close>.\<close>

fun finished :: "selectors \<Rightarrow> string list \<Rightarrow> bool" where
  "finished sel [] = True"
| "finished sel (i # is) \<longleftrightarrow> set (child_refs sel i) \<subseteq> set is \<and> finished sel is"

lemma finished_closed: "finished sel V \<Longrightarrow> i \<in> set V \<Longrightarrow> set (child_refs sel i) \<subseteq> set V"
  by (induction V) auto

lemma finished_reach:
  "(i, j) \<in> (selector_edges sel)\<^sup>+ \<Longrightarrow> finished sel V \<Longrightarrow> i \<in> set V \<Longrightarrow> j \<in> set V"
  by (induction rule: trancl_induct) (use finished_closed in \<open>auto simp: selector_edges_def\<close>)

lemma finished_no_cycle:
  "finished sel V \<Longrightarrow> i \<in> set V \<Longrightarrow> (i, i) \<notin> (selector_edges sel)\<^sup>+"
proof (induction V)
  case (Cons x xs)
  show ?case
  proof (cases "i \<in> set xs")
    case True
    with Cons show ?thesis by simp
  next
    case False
    with Cons.prems have i: "i = x" by simp
    show ?thesis
    proof
      assume "(i, i) \<in> (selector_edges sel)\<^sup>+"
      then obtain j where j: "(i, j) \<in> selector_edges sel" "j = i \<or> (j, i) \<in> (selector_edges sel)\<^sup>+"
        by (metis tranclD rtranclD)
      then have "j \<in> set xs" using Cons.prems i by (auto simp: selector_edges_def)
      with j(2) False Cons.prems show False using finished_reach [of j i sel xs] by auto
    qed
  qed
qed simp

lemma finished_acyclic:
  assumes "finished sel V" "set (selector_ids sel) \<subseteq> set V"
  shows "acyclic (selector_edges sel)"
  unfolding acyclic_def
proof (intro allI notI)
  fix i
  assume c: "(i, i) \<in> (selector_edges sel)\<^sup>+"
  then obtain j where "(i, j) \<in> selector_edges sel" by (metis tranclD)
  then have "model_refs sel i \<noteq> []" by (auto simp: selector_edges_def child_refs_def)
  then have "i \<in> set V" using assms(2) model_refs_synthetic by blast
  with finished_no_cycle [OF assms(1)] c show False by blast
qed

text \<open>A search that succeeds has finished what it was asked for, and what was visited before.\<close>

lemma visit_finished:
  "visit sel i visiting visited = Inr V \<Longrightarrow> finished sel visited \<Longrightarrow>
     finished sel V \<and> insert i (set visited) \<subseteq> set V"
  "visit_all sel cs visiting visited = Inr V \<Longrightarrow> finished sel visited \<Longrightarrow>
     finished sel V \<and> set cs \<union> set visited \<subseteq> set V"
proof (induction sel i visiting visited and sel cs visiting visited arbitrary: V and V
    rule: visit_visit_all.induct)
  case (1 sel i visiting visited)
  then show ?case
    by (auto simp: visit.simps [of sel i] split: if_splits sum.splits)
next
  case (3 sel c cs visiting visited)
  then show ?case by (fastforce split: sum.splits)
qed simp

text \<open>A search that fails names a closed walk.\<close>

lemma successively_suffix_snoc:
  assumes "successively P (xs @ [i])"
  shows "successively P (dropWhile Q xs @ [i])"
proof -
  have "successively P (takeWhile Q xs @ (dropWhile Q xs @ [i]))"
    using assms by (simp only: append_assoc [symmetric] takeWhile_dropWhile_id)
  then show ?thesis
    using successively_append_iff [of P "takeWhile Q xs" "dropWhile Q xs @ [i]"] by blast
qed

lemma closed_walk_found:
  assumes "successively (\<lambda>a b. b \<in> set (child_refs sel a)) (visiting @ [i])" "i \<in> set visiting"
  shows "closed_walk sel (dropWhile (\<lambda>x. x \<noteq> i) visiting @ [i])"
proof -
  obtain ys r where "visiting = ys @ i # r" "i \<notin> set ys"
    using split_list_first [OF assms(2)] by blast
  then have d: "dropWhile (\<lambda>x. x \<noteq> i) visiting = i # r"
    by (auto simp: dropWhile_append3)
  show ?thesis
    using successively_suffix_snoc [OF assms(1), of "\<lambda>x. x \<noteq> i"] by (simp add: closed_walk_def d)
qed

lemma visit_error:
  "visit sel i visiting visited = Inl e \<Longrightarrow>
     successively (\<lambda>a b. b \<in> set (child_refs sel a)) (visiting @ [i]) \<Longrightarrow>
     \<exists>ids. e = GraphCycle ids \<and> closed_walk sel ids"
  "visit_all sel cs visiting visited = Inl e \<Longrightarrow>
     (\<And>c. c \<in> set cs \<Longrightarrow> successively (\<lambda>a b. b \<in> set (child_refs sel a)) (visiting @ [c])) \<Longrightarrow>
     \<exists>ids. e = GraphCycle ids \<and> closed_walk sel ids"
proof (induction sel i visiting visited and sel cs visiting visited
    rule: visit_visit_all.induct)
  case (1 sel i visiting visited)
  show ?case
  proof (cases "i \<in> set visiting")
    case True
    with 1 show ?thesis using closed_walk_found [OF 1(3) True]
      by (auto simp: visit.simps [of sel i] split: if_splits)
  next
    case False
    with 1(2) have "i \<notin> set visited" "visit_all sel (child_refs sel i) (visiting @ [i]) visited = Inl e"
      by (auto simp: visit.simps [of sel i] split: if_splits sum.splits)
    moreover have "successively (\<lambda>a b. b \<in> set (child_refs sel a)) ((visiting @ [i]) @ [c])"
      if "c \<in> set (child_refs sel i)" for c
      using 1(3) that by (simp add: successively_append_iff)
    ultimately show ?thesis using 1(1) False by blast
  qed
next
  case (3 sel c cs visiting visited)
  then show ?case by (auto split: sum.splits)
qed simp

lemma validate_graph_cases:
  "(validate_graph sel = Inr () \<and> acyclic (selector_edges sel)) \<or>
   (\<exists>ids. validate_graph sel = Inl (GraphCycle ids) \<and> closed_walk sel ids)"
proof (cases "visit_all sel (selector_ids sel) [] []")
  case (Inl e)
  then show ?thesis using visit_error(2) [OF Inl] by (auto simp: validate_graph_def)
next
  case (Inr V)
  then show ?thesis
    using visit_finished(2) [OF Inr] finished_acyclic [of sel V] by (auto simp: validate_graph_def)
qed

section \<open>A manager that was built\<close>

text \<open>The models a selector names with the window the configuration gives them.\<close>

definition offers :: "selectors \<Rightarrow> string \<Rightarrow> (string \<times> u32) set" where
  "offers sel i =
     (case map_of (alloys sel) i of
        Some a \<Rightarrow> (\<lambda>c. (cs_model c, cs_window c)) ` set (ad_constituents a)
      | None \<Rightarrow>
          (case map_of (cascades sel) i of
             Some d \<Rightarrow> (\<lambda>m. (tg_model m, tg_window m)) ` set (td_models d)
           | None \<Rightarrow>
               (case map_of (dispatchers sel) i of
                  Some d \<Rightarrow> (\<lambda>m. (tg_model m, tg_window m)) ` set (td_models d)
                | None \<Rightarrow> {})))"

lemma offers_model: "(m, w) \<in> offers sel i \<Longrightarrow> m \<in> set (model_refs sel i)"
  by (auto simp: offers_def model_refs_def split: option.splits)

definition alloy_ok :: "alloy_def \<Rightarrow> bool" where
  "alloy_ok a \<longleftrightarrow> 2 \<le> length (ad_constituents a) \<and>
     (\<forall>c \<in> set (ad_constituents a). cs_weight c \<noteq> 0 \<and> ad_min_window a \<le> cs_window c)"

definition targets_ok :: "target_def \<Rightarrow> bool" where
  "targets_ok d \<longleftrightarrow> td_models d \<noteq> [] \<and> (\<forall>m \<in> set (td_models d). tg_window m \<noteq> 0)"

definition selectors_ok :: "selectors \<Rightarrow> bool" where
  "selectors_ok sel \<longleftrightarrow>
     (\<forall>(i, a) \<in> set (alloys sel). ad_id a = i \<and> alloy_ok a) \<and>
     (\<forall>(i, d) \<in> set (cascades sel). td_id d = i \<and> targets_ok d) \<and>
     (\<forall>(i, d) \<in> set (dispatchers sel). td_id d = i \<and> targets_ok d) \<and>
     distinct (selector_ids sel)"

lemma alloy_from_config_ok:
  "alloy_from_config cfg = Inr a \<Longrightarrow> ad_id a = al_id cfg \<and> alloy_ok a"
  by (auto simp: alloy_from_config_def alloy_ok_def res_bind_Inr_iff try_each_ok_iff
      validate_constituent_def Let_def find_None_iff not_less
      split: option.splits if_splits)

lemma targets_from_ok:
  "targets_from kind i name ms = Inr d \<Longrightarrow> td_id d = i \<and> targets_ok d"
  by (auto simp: targets_from_def targets_ok_def res_bind_Inr_iff try_each_ok_iff
      validate_synthetic_model_def split: if_splits)

lemma add_alloys_ok:
  "add_alloys cfgs sel = Inr sel' \<Longrightarrow> cascades sel = [] \<Longrightarrow> dispatchers sel = [] \<Longrightarrow>
     selectors_ok sel \<Longrightarrow> selectors_ok sel' \<and> cascades sel' = [] \<and> dispatchers sel' = []"
proof (induction cfgs sel rule: add_alloys.induct)
  case (2 cfg cfgs sel)
  from 2(2) obtain d where d: "alloy_from_config cfg = Inr d" "\<not> has_key (al_id cfg) (alloys sel)"
    "add_alloys cfgs (sel\<lparr>alloys := alloys sel @ [(al_id cfg, d)]\<rparr>) = Inr sel'"
    by (auto simp: res_bind_Inr_iff split: if_splits)
  have "selectors_ok (sel\<lparr>alloys := alloys sel @ [(al_id cfg, d)]\<rparr>)"
    using 2(3-5) d(2) alloy_from_config_ok [OF d(1)]
    by (auto simp: selectors_ok_def selector_ids_def has_key_def)
  with 2(1) [OF d(2)] 2(3,4) d(3) show ?case by simp
qed simp

lemma add_cascades_ok:
  "add_cascades cfgs sel = Inr sel' \<Longrightarrow> dispatchers sel = [] \<Longrightarrow>
     selectors_ok sel \<Longrightarrow> selectors_ok sel' \<and> dispatchers sel' = []"
proof (induction cfgs sel rule: add_cascades.induct)
  case (2 cfg cfgs sel)
  from 2(2) obtain d where d: "cascade_from_config cfg = Inr d"
    "\<not> (has_key (cc_id cfg) (alloys sel) \<or> has_key (cc_id cfg) (cascades sel))"
    "add_cascades cfgs (sel\<lparr>cascades := cascades sel @ [(cc_id cfg, d)]\<rparr>) = Inr sel'"
    by (auto simp: res_bind_Inr_iff split: if_splits)
  have "selectors_ok (sel\<lparr>cascades := cascades sel @ [(cc_id cfg, d)]\<rparr>)"
    using 2(3,4) d(2) targets_from_ok [OF d(1) [unfolded cascade_from_config_def]]
    by (auto simp: selectors_ok_def selector_ids_def has_key_def)
  with 2(1) [OF d(2)] 2(3) d(3) show ?case by simp
qed simp

lemma add_dispatchers_ok:
  "add_dispatchers cfgs sel = Inr sel' \<Longrightarrow> selectors_ok sel \<Longrightarrow> selectors_ok sel'"
proof (induction cfgs sel rule: add_dispatchers.induct)
  case (2 cfg cfgs sel)
  from 2(2) obtain d where d: "dispatcher_from_config cfg = Inr d"
    "\<not> (has_key (dc_id cfg) (alloys sel) \<or> has_key (dc_id cfg) (cascades sel) \<or>
        has_key (dc_id cfg) (dispatchers sel))"
    "add_dispatchers cfgs (sel\<lparr>dispatchers := dispatchers sel @ [(dc_id cfg, d)]\<rparr>) = Inr sel'"
    by (auto simp: res_bind_Inr_iff split: if_splits)
  have "selectors_ok (sel\<lparr>dispatchers := dispatchers sel @ [(dc_id cfg, d)]\<rparr>)"
    using 2(3) d(2) targets_from_ok [OF d(1) [unfolded dispatcher_from_config_def]]
    by (auto simp: selectors_ok_def selector_ids_def has_key_def)
  with 2(1) [OF d(2)] d(3) show ?case by simp
qed simp

lemma built_ok:
  assumes "from_gateway_configs acs ccs dcs = Inr sel"
  shows "selectors_ok sel" "acyclic (selector_edges sel)"
proof -
  from assms obtain s1 s2 where s: "add_alloys acs empty_selectors = Inr s1"
    "add_cascades ccs s1 = Inr s2" "add_dispatchers dcs s2 = Inr sel" "validate_graph sel = Inr ()"
    by (auto simp: from_gateway_configs_def res_bind_Inr_iff)
  have "selectors_ok empty_selectors"
    by (simp add: selectors_ok_def empty_selectors_def selector_ids_def)
  with add_alloys_ok [OF s(1)] have "selectors_ok s1" "dispatchers s1 = []"
    by (simp_all add: empty_selectors_def)
  with add_cascades_ok [OF s(2)] add_dispatchers_ok [OF s(3)] show "selectors_ok sel" by blast
  show "acyclic (selector_edges sel)" using validate_graph_cases [of sel] s(4) by auto
qed

section \<open>The order of one selector\<close>

text \<open>\<open>WeightedIndex\<close> returns an index into the weights it was given.\<close>

definition sampler_ok :: "sampler \<Rightarrow> bool" where
  "sampler_ok sample \<longleftrightarrow> (\<forall>k ws i. sample k ws = Some i \<longrightarrow> i < length ws)"

lemma weighted_order_mset:
  "sampler_ok sample \<Longrightarrow> mset (fst (weighted_order sample k cs)) = mset (map cs_model cs)"
proof (induction sample k cs rule: weighted_order.induct)
  case (1 sample k cs)
  show ?case
  proof (cases "cs = []")
    case False
    define ws where "ws = map (\<lambda>c. if cs_weight c = 0 then 1 else cs_weight c) cs"
    define i where "i = (case sample k ws of Some i \<Rightarrow> i | None \<Rightarrow> 0)"
    have i: "i < length cs"
      using 1(2) [unfolded sampler_ok_def, rule_format, of k ws] False
      by (auto simp: i_def ws_def split: option.split)
    have IH: "mset (fst (weighted_order sample (Suc k) (take i cs @ drop (Suc i) cs))) =
        mset (map cs_model (take i cs @ drop (Suc i) cs))"
      using 1(1) [OF False ws_def i_def i 1(2)] .
    have step: "fst (weighted_order sample k cs) =
        cs_model (cs ! i) # fst (weighted_order sample (Suc k) (take i cs @ drop (Suc i) cs))"
      using False i
      by (subst weighted_order.simps) (simp add: Let_def case_prod_unfold i_def ws_def)
    have "mset (map cs_model cs) =
        add_mset (cs_model (cs ! i)) (mset (map cs_model (take i cs @ drop (Suc i) cs)))"
      by (subst id_take_nth_drop [OF i]) simp
    then show ?thesis by (simp only: step IH mset.simps)
  qed (simp add: weighted_order.simps)
qed

lemma round_robin_rotate:
  assumes "cs \<noteq> []"
  shows "fst (round_robin_order cs idx) = map cs_model (rotate idx cs)"
  using assms
  by (intro nth_equalityI) (auto simp: round_robin_order_def Let_def nth_rotate mod_simps)

lemma mset_rotate: "mset (rotate n xs) = mset xs"
  by (simp add: rotate_drop_take) (metis append_take_drop_id mset_append union_commute)

lemma alloy_plan_mset:
  assumes "sampler_ok sample" "alloy_ok a"
  shows "mset (ordered_models (fst (alloy_select_plan sample i a st))) =
         mset (map cs_model (ad_constituents a))"
proof -
  have "ad_constituents a \<noteq> []" using assms(2) by (auto simp: alloy_ok_def)
  then show ?thesis
    using weighted_order_mset [OF assms(1), of "draws st" "ad_constituents a"]
      round_robin_rotate [of "ad_constituents a" "next_rr_index (alloy_states st i)"]
    by (cases "ad_strategy a")
      (auto simp: alloy_select_plan_def Let_def mset_rotate split: prod.splits)
qed

lemma largest_window_less:
  "ms \<noteq> [] \<Longrightarrow> (\<And>m. m \<in> set ms \<Longrightarrow> tg_window m < n) \<Longrightarrow> largest_window ms < n"
proof -
  have "(\<And>m. m \<in> set ms \<Longrightarrow> tg_window m < n) \<Longrightarrow> w < n \<Longrightarrow> fold max (map tg_window ms) w < n" for w
    by (induction ms arbitrary: w) auto
  moreover assume "ms \<noteq> []" "\<And>m. m \<in> set ms \<Longrightarrow> tg_window m < n"
  then have "0 < n" by (metis le_less_trans list.set_intros(1) neq_Nil_conv word_zero_le)
  ultimately show ?thesis
    using \<open>\<And>m. m \<in> set ms \<Longrightarrow> tg_window m < n\<close> by (auto simp: largest_window_def)
qed

text \<open>The request is larger than what the selector takes: the only error of a built manager.\<close>

definition too_small :: "u32 \<Rightarrow> selector_error \<Rightarrow> bool" where
  "too_small tokens e \<longleftrightarrow>
     (\<exists>i k. k < tokens \<and>
        (e = AlloyTooSmall i tokens k \<or> (\<exists>kind. e = TargetsTooSmall kind i tokens k)))"

lemma cascade_plan_cases:
  assumes "targets_ok d"
  shows "case cascade_select_plan d tokens of
           Inl e \<Rightarrow> too_small tokens e
         | Inr p \<Rightarrow> ordered_models p \<noteq> [] \<and>
             set (ordered_models p) = {tg_model m | m. m \<in> set (td_models d) \<and> tokens \<le> tg_window m}"
  using assms largest_window_less [of "td_models d" tokens]
  by (auto simp: cascade_select_plan_def Let_def fitting_def too_small_def targets_ok_def
      filter_empty_conv not_le)

lemma dispatcher_plan_cases:
  assumes "targets_ok d"
  shows "case dispatcher_select_plan d tokens of
           Inl e \<Rightarrow> too_small tokens e
         | Inr p \<Rightarrow> ordered_models p \<noteq> [] \<and>
             set (ordered_models p) = {tg_model m | m. m \<in> set (td_models d) \<and> tokens \<le> tg_window m}"
proof -
  have e: "sort_key (\<lambda>m. (tg_window m, tg_model m)) ms = [] \<longleftrightarrow> ms = []" for ms
    by (metis length_0_conv length_sort)
  show ?thesis
    using assms largest_window_less [of "td_models d" tokens]
    by (auto simp: dispatcher_select_plan_def Let_def fitting_def too_small_def targets_ok_def e
        filter_empty_conv not_le)
qed

lemma own_plan_cases:
  assumes "selectors_ok sel" "sampler_ok sample"
  shows "case own_plan sample sel tokens i st of
           (Inl e, _) \<Rightarrow> too_small tokens e
         | (Inr None, _) \<Rightarrow> i \<notin> set (selector_ids sel)
         | (Inr (Some p), _) \<Rightarrow>
             ordered_models p \<noteq> [] \<and>
             (\<forall>t \<in> set (ordered_models p). \<exists>w. (t, w) \<in> offers sel i \<and> tokens \<le> w)"
proof (cases "map_of (alloys sel) i")
  case (Some a)
  then have a: "alloy_ok a" using assms(1) by (auto simp: selectors_ok_def dest: map_of_SomeD)
  then have c: "ad_constituents a \<noteq> []" by (auto simp: alloy_ok_def)
  obtain p st' where p: "alloy_select_plan sample i a st = (p, st')" by fastforce
  with alloy_plan_mset [OF assms(2) a, of i st]
  have m: "mset (ordered_models p) = mset (map cs_model (ad_constituents a))" by simp
  then have "set (ordered_models p) = cs_model ` set (ad_constituents a)" "ordered_models p \<noteq> []"
    using c mset_eq_setD [OF m] by auto
  with a Some p show ?thesis
    by (auto simp: own_plan_def too_small_def offers_def alloy_ok_def not_less
        intro!: exI intro: order_trans)
next
  case None
  note a = None
  show ?thesis
  proof (cases "map_of (cascades sel) i")
    case (Some d)
    then have "targets_ok d" using assms(1) by (auto simp: selectors_ok_def dest: map_of_SomeD)
    from cascade_plan_cases [OF this, of tokens] a Some show ?thesis
      by (auto simp: own_plan_def offers_def image_iff split: sum.splits)
  next
    case None
    note b = None
    show ?thesis
    proof (cases "map_of (dispatchers sel) i")
      case (Some d)
      then have "targets_ok d" using assms(1) by (auto simp: selectors_ok_def dest: map_of_SomeD)
      from dispatcher_plan_cases [OF this, of tokens] a b Some show ?thesis
        by (auto simp: own_plan_def offers_def image_iff split: sum.splits)
    next
      case None
      with a b have "own_plan sample sel tokens i st = (Inr None, st)" by (simp add: own_plan_def)
      with a b None show ?thesis by (simp add: selector_ids_def map_of_eq_None_iff)
    qed
  qed
qed

section \<open>The whole plan\<close>

text \<open>\<open>i\<close> names \<open>j\<close> with a context window of at least \<open>tokens\<close>.\<close>

definition fits :: "selectors \<Rightarrow> u32 \<Rightarrow> (string \<times> string) set" where
  "fits sel tokens = {(i, j). \<exists>w. (j, w) \<in> offers sel i \<and> tokens \<le> w}"

text \<open>The real models that \<open>i\<close> leads to through selectors, every step large enough.\<close>

definition suitable :: "selectors \<Rightarrow> u32 \<Rightarrow> string \<Rightarrow> string set" where
  "suitable sel tokens i = {m. \<not> is_synthetic_model sel m \<and> (i, m) \<in> (fits sel tokens)\<^sup>+}"

definition plan_good :: "selectors \<Rightarrow> u32 \<Rightarrow> string \<Rightarrow> selector_error + alloy_plan option \<Rightarrow> bool" where
  "plan_good sel tokens i r =
     (case r of
        Inl e \<Rightarrow> is_synthetic_model sel i \<and> too_small tokens e
      | Inr None \<Rightarrow> \<not> is_synthetic_model sel i
      | Inr (Some p) \<Rightarrow> is_synthetic_model sel i \<and>
          ordered_models p \<noteq> [] \<and> set (ordered_models p) \<subseteq> suitable sel tokens i)"

definition models_of :: "selectors \<Rightarrow> u32 \<Rightarrow> string \<Rightarrow> string set" where
  "models_of sel tokens t =
     (if is_synthetic_model sel t then suitable sel tokens t else {t})"

definition above :: "selectors \<Rightarrow> string list \<Rightarrow> string \<Rightarrow> bool" where
  "above sel stack i \<longleftrightarrow>
     (is_synthetic_model sel i \<longrightarrow> (\<forall>v \<in> set stack. (v, i) \<in> (selector_edges sel)\<^sup>+))"

lemma own_plan_synthetic:
  "own_plan sample sel tokens i st = (Inl e, st') \<Longrightarrow> i \<in> set (selector_ids sel)"
  by (auto simp: own_plan_def intro: found_selector split: option.splits if_splits prod.splits)

definition ready :: "selectors \<Rightarrow> sampler \<Rightarrow> bool" where
  "ready sel sample \<longleftrightarrow> selectors_ok sel \<and> acyclic (selector_edges sel) \<and> sampler_ok sample"

lemma offered_child:
  assumes "(t, w) \<in> offers sel i" "is_synthetic_model sel t"
  shows "(i, t) \<in> selector_edges sel"
  using offers_model [OF assms(1)] assms(2) by (simp add: selector_edges_def child_refs_def)

lemma above_child:
  assumes "above sel stack i" "is_synthetic_model sel i" "(t, w) \<in> offers sel i"
  shows "above sel (stack @ [i]) t"
  using assms offered_child [OF assms(3)] by (auto simp: above_def intro: trancl_into_trancl)

lemma models_of_offered:
  assumes "(t, w) \<in> offers sel i" "tokens \<le> w"
  shows "models_of sel tokens t \<subseteq> suitable sel tokens i"
proof -
  have "(i, t) \<in> fits sel tokens" using assms by (auto simp: fits_def)
  then show ?thesis
    by (auto simp: models_of_def suitable_def intro: trancl_into_trancl2)
qed

lemma not_on_stack:
  assumes "ready sel sample" "set stack \<subseteq> set (selector_ids sel)" "above sel stack i"
  shows "i \<notin> set stack"
  using assms by (auto simp: ready_def above_def synthetic_iff acyclic_def)

lemma select_rec_good:
  "select_rec sample sel tokens stack i st = (r, st') \<Longrightarrow> ready sel sample \<Longrightarrow>
     set stack \<subseteq> set (selector_ids sel) \<Longrightarrow> above sel stack i \<Longrightarrow> plan_good sel tokens i r"
  "expand_targets sample sel tokens stack ts st = (q, st') \<Longrightarrow> ready sel sample \<Longrightarrow>
     set stack \<subseteq> set (selector_ids sel) \<Longrightarrow> (\<And>t. t \<in> set ts \<Longrightarrow> above sel stack t) \<Longrightarrow>
     (case q of Inl e \<Rightarrow> too_small tokens e
      | Inr ms \<Rightarrow> (ts \<noteq> [] \<longrightarrow> ms \<noteq> []) \<and> set ms \<subseteq> (\<Union>t \<in> set ts. models_of sel tokens t))"
proof (induction sample sel tokens stack i st and sample sel tokens stack ts st
    arbitrary: r st' and q st' rule: select_rec_expand_targets.induct)
  case (1 sample sel tokens stack i st)
  note n = not_on_stack [OF 1(3-5)]
  obtain o1 st1 where o: "own_plan sample sel tokens i st = (o1, st1)" by fastforce
  have own: "case o1 of Inl e \<Rightarrow> too_small tokens e
      | Inr None \<Rightarrow> i \<notin> set (selector_ids sel)
      | Inr (Some p) \<Rightarrow> ordered_models p \<noteq> [] \<and>
          (\<forall>t \<in> set (ordered_models p). \<exists>w. (t, w) \<in> offers sel i \<and> tokens \<le> w)"
    using own_plan_cases [of sel sample tokens i st] 1(3) o by (simp add: ready_def)
  consider (err) e where "o1 = Inl e" | (no) "o1 = Inr None" | (plan) p where "o1 = Inr (Some p)"
    by (metis old.sum.exhaust option.exhaust)
  then show ?case
  proof cases
    case err
    with own n o 1(2) own_plan_synthetic show ?thesis
      by (auto simp: select_rec.simps [of sample sel] plan_good_def synthetic_iff)
  next
    case no
    with own n o 1(2) show ?thesis
      by (auto simp: select_rec.simps [of sample sel] plan_good_def synthetic_iff)
  next
    case plan
    then have i: "i \<in> set (selector_ids sel)" using own_plan_found o by blast
    obtain q st2 where q: "expand_targets sample sel tokens (stack @ [i]) (ordered_models p) st1 = (q, st2)"
      by fastforce
    have "above sel (stack @ [i]) t" if "t \<in> set (ordered_models p)" for t
      using own plan that above_child [OF 1(5)] i by (auto simp: synthetic_iff)
    with 1(1) [OF n, of o1 st1 "Some p" p q st2] o plan q 1(3,4) i
    have e: "case q of Inl e \<Rightarrow> too_small tokens e
      | Inr ms \<Rightarrow> ms \<noteq> [] \<and> set ms \<subseteq> (\<Union>t \<in> set (ordered_models p). models_of sel tokens t)"
      using own by (auto split: sum.splits)
    have sub: "(\<Union>t \<in> set (ordered_models p). models_of sel tokens t) \<subseteq> suitable sel tokens i"
      using own plan models_of_offered by fastforce
    from n o plan q 1(2) have "r = (case q of Inl e \<Rightarrow> Inl e | Inr ms \<Rightarrow> Inr (Some (p\<lparr>ordered_models := ms\<rparr>)))"
      by (auto simp: select_rec.simps [of sample sel] split: sum.splits)
    with e sub i show ?thesis by (auto simp: plan_good_def synthetic_iff split: sum.splits)
  qed
next
  case (2 sample sel tokens stack st)
  then show ?case by auto
next
  case (3 sample sel tokens stack t ts st)
  obtain r1 st1 where r1: "select_rec sample sel tokens stack t st = (r1, st1)" by fastforce
  have g: "plan_good sel tokens t r1" using 3(1) [OF r1] 3(4-6) by simp
  show ?case
  proof (cases r1)
    case (Inl e)
    with r1 3(3) g show ?thesis by (auto simp: plan_good_def)
  next
    case (Inr child)
    obtain q1 st2 where q1: "expand_targets sample sel tokens stack ts st1 = (q1, st2)" by fastforce
    have "case q1 of Inl e \<Rightarrow> too_small tokens e
      | Inr ms \<Rightarrow> (ts \<noteq> [] \<longrightarrow> ms \<noteq> []) \<and> set ms \<subseteq> (\<Union>t \<in> set ts. models_of sel tokens t)"
      using 3(2) [OF r1 [symmetric] Inr q1] 3(4-6) by simp
    moreover from g Inr have
      "case child of None \<Rightarrow> t \<in> models_of sel tokens t
       | Some p \<Rightarrow> ordered_models p \<noteq> [] \<and> set (ordered_models p) \<subseteq> models_of sel tokens t"
      by (simp add: plan_good_def models_of_def split: option.splits)
    ultimately show ?thesis using r1 Inr q1 3(3)
      by (auto split: sum.splits option.splits) blast+
  qed
qed

lemma built_plan_good:
  assumes "from_gateway_configs acs ccs dcs = Inr sel" "sampler_ok sample"
  shows "plan_good sel tokens i (fst (select_plan_for_model sample sel i tokens st))"
  using select_rec_good(1) [of sample sel tokens "[]" i st] built_ok [OF assms(1)] assms(2)
  by (cases "select_rec sample sel tokens [] i st")
    (auto simp: select_plan_for_model_def ready_def above_def)

section \<open>Rotation\<close>

text \<open>\<open>n\<close> plans of one alloy in a row.\<close>

fun alloy_plans :: "sampler \<Rightarrow> string \<Rightarrow> alloy_def \<Rightarrow> nat \<Rightarrow> sel_state \<Rightarrow> alloy_plan list" where
  "alloy_plans sample i a 0 st = []"
| "alloy_plans sample i a (Suc n) st =
     (case alloy_select_plan sample i a st of (p, st') \<Rightarrow> p # alloy_plans sample i a n st')"

lemma round_robin_plan:
  assumes "ad_strategy a = RoundRobin" "ad_constituents a \<noteq> []"
  shows "ordered_models (fst (alloy_select_plan sample i a st)) =
           map cs_model (rotate (next_rr_index (alloy_states st i)) (ad_constituents a))"
    and "next_rr_index (alloy_states (snd (alloy_select_plan sample i a st)) i) =
           Suc (next_rr_index (alloy_states st i)) mod length (ad_constituents a)"
  using assms round_robin_rotate [OF assms(2), of "next_rr_index (alloy_states st i)"]
  by (auto simp: alloy_select_plan_def Let_def round_robin_order_def mod_Suc_eq split: prod.splits)

lemma round_robin_heads:
  assumes "ad_strategy a = RoundRobin" "ad_constituents a \<noteq> []"
  shows "map (\<lambda>p. hd (ordered_models p)) (alloy_plans sample i a n st) =
         map (\<lambda>k. cs_model (ad_constituents a !
                 ((next_rr_index (alloy_states st i) + k) mod length (ad_constituents a)))) [0..<n]"
proof (induction n arbitrary: st)
  case (Suc n)
  obtain p st' where p: "alloy_select_plan sample i a st = (p, st')" by fastforce
  have "hd (ordered_models p) = cs_model (ad_constituents a !
      (next_rr_index (alloy_states st i) mod length (ad_constituents a)))"
    using round_robin_plan(1) [OF assms, of sample i st] p assms(2)
    by (simp add: hd_map hd_rotate_conv_nth)
  moreover have "next_rr_index (alloy_states st' i) =
      Suc (next_rr_index (alloy_states st i)) mod length (ad_constituents a)"
    using round_robin_plan(2) [OF assms, of sample i st] p by simp
  ultimately show ?case
    using Suc [of st'] p by (simp add: upt_conv_Cons map_Suc_upt [symmetric] mod_simps del: upt_Suc)
qed simp

section \<open>Runs of the manager\<close>

datatype selector_op =
    SelectModel string u32
  | SelectIdentity string
  | SetActive string string
  | ClearActive string
  | RecordAttempt string string bool

fun selector_step :: "sampler \<Rightarrow> selectors \<Rightarrow> sel_state \<Rightarrow> selector_op \<Rightarrow> sel_state" where
  "selector_step sample sel st (SelectModel i n) = snd (select_plan_for_model sample sel i n st)"
| "selector_step sample sel st (SelectIdentity who) = snd (select_plan_for_identity sample sel who st)"
| "selector_step sample sel st (SetActive who i) = snd (set_active_for_identity sel who i st)"
| "selector_step sample sel st (ClearActive who) = clear_active_for_identity who st"
| "selector_step sample sel st (RecordAttempt i m b) = record_attempt sel i m b st"

definition active_ok :: "selectors \<Rightarrow> sel_state \<Rightarrow> bool" where
  "active_ok sel st \<longleftrightarrow>
     (\<forall>i \<in> ran (active_by_identity st). is_synthetic_model sel i)"

lemma own_plan_active:
  "own_plan sample sel tokens i st = (r, st') \<Longrightarrow> active_by_identity st' = active_by_identity st"
  by (auto simp: own_plan_def alloy_select_plan_def Let_def split: option.splits if_splits prod.splits
      sum.splits)

lemma select_rec_active:
  "select_rec sample sel tokens stack i st = (r, st') \<Longrightarrow>
     active_by_identity st' = active_by_identity st"
  "expand_targets sample sel tokens stack ts st = (q, st') \<Longrightarrow>
     active_by_identity st' = active_by_identity st"
proof (induction sample sel tokens stack i st and sample sel tokens stack ts st
    arbitrary: r st' and q st' rule: select_rec_expand_targets.induct)
  case (1 sample sel tokens stack i st)
  show ?case
  proof (cases "i \<in> set stack")
    case False
    obtain o1 st1 where o: "own_plan sample sel tokens i st = (o1, st1)" by fastforce
    note st1 = own_plan_active [OF o]
    show ?thesis
    proof (cases "\<exists>p. o1 = Inr (Some p)")
      case True
      then obtain p where p: "o1 = Inr (Some p)" ..
      obtain q st2 where q: "expand_targets sample sel tokens (stack @ [i]) (ordered_models p) st1 = (q, st2)"
        by fastforce
      from 1(1) [OF False o [symmetric] p refl q] st1 1(2) False o p q show ?thesis
        by (auto simp: select_rec.simps [of sample sel] split: sum.splits)
    next
      case other: False
      with 1(2) False o st1 show ?thesis
        by (auto simp: select_rec.simps [of sample sel] split: sum.splits option.splits)
    qed
  qed (use 1(2) in \<open>simp add: select_rec.simps [of sample sel]\<close>)
next
  case (3 sample sel tokens stack t ts st)
  obtain r1 st1 where r1: "select_rec sample sel tokens stack t st = (r1, st1)" by fastforce
  note st1 = 3(1) [OF r1]
  show ?case
  proof (cases r1)
    case (Inl e)
    with r1 st1 3(3) show ?thesis by simp
  next
    case (Inr child)
    obtain q1 st2 where q1: "expand_targets sample sel tokens stack ts st1 = (q1, st2)" by fastforce
    from 3(2) [OF r1 [symmetric] Inr q1] st1 r1 Inr q1 3(3) show ?thesis
      by (auto split: sum.splits)
  qed
qed simp

lemma select_plan_active:
  "active_by_identity (snd (select_plan_for_model sample sel i n st)) = active_by_identity st"
  using select_rec_active(1) [of sample sel n "[]" i st]
  by (cases "select_rec sample sel n [] i st") (simp add: select_plan_for_model_def)

lemma select_identity_active:
  "active_by_identity (snd (select_plan_for_identity sample sel who st)) = active_by_identity st"
  using select_plan_active [of sample sel _ 0 st]
  by (auto simp: select_plan_for_identity_def case_prod_unfold split: option.split sum.split)

interpretation manager: invariant_machine "selector_step sample sel" "active_ok sel"
proof
  fix st x
  assume "active_ok sel st"
  then show "active_ok sel (selector_step sample sel st x)"
    by (cases x)
      (auto simp: active_ok_def select_plan_active select_identity_active
        set_active_for_identity_def clear_active_for_identity_def record_attempt_def ran_def
        split: if_splits)
qed

section \<open>Properties\<close>

definition example_cascade :: cascade_config where
  "example_cascade =
     \<lparr>cc_id = ''local-then-remote'', cc_name = None,
      cc_models = [\<lparr>tg_model = ''small'', tg_window = 32\<rparr>, \<lparr>tg_model = ''large'', tg_window = 256\<rparr>]\<rparr>"

definition example_dispatcher :: dispatcher_config where
  "example_dispatcher =
     \<lparr>dc_id = ''smart'', dc_name = None,
      dc_models = [\<lparr>tg_model = ''local-then-remote'', tg_window = 256\<rparr>]\<rparr>"

definition example_alloy :: alloy_config where
  "example_alloy =
     \<lparr>al_id = ''mix'', al_name = ''Mix'', al_strategy = '' Round_Robin'',
      al_constituents = [\<lparr>cs_model = ''smart'', cs_weight = 3, cs_window = 128\<rparr>,
                         \<lparr>cs_model = ''medium'', cs_weight = 1, cs_window = 64\<rparr>],
      al_min_window = None\<rparr>"

definition example_target :: "string \<Rightarrow> target list \<Rightarrow> target_def" where
  "example_target i ms = \<lparr>td_id = i, td_name = i, td_models = ms\<rparr>"

definition example_selectors :: selectors where
  "example_selectors =
     \<lparr>alloys = [(''mix'', \<lparr>ad_id = ''mix'', ad_name = ''Mix'', ad_strategy = RoundRobin,
                          ad_constituents = al_constituents example_alloy, ad_min_window = 64\<rparr>)],
      cascades = [(''local-then-remote'', example_target ''local-then-remote'' (cc_models example_cascade))],
      dispatchers = [(''smart'', example_target ''smart'' (dc_models example_dispatcher))]\<rparr>"

definition first_sampler :: sampler where
  "first_sampler k ws = (if ws = [] then None else Some 0)"

lemma first_sampler_ok: "sampler_ok first_sampler"
  by (simp add: sampler_ok_def first_sampler_def)

lemma example_built:
  "from_gateway_configs [example_alloy] [example_cascade] [example_dispatcher] = Inr example_selectors"
  by code_simp

text \<open>
  C37: The check of the selector graph accepts exactly the graphs without a cycle, and an error
  of it names selectors that form one; the depth-first search always ends.
\<close>

theorem selector_graph_acyclic:
  "(validate_graph sel = Inr () \<longleftrightarrow> acyclic (selector_edges sel)) \<and>
   (case validate_graph sel of
      Inr _ \<Rightarrow> acyclic (selector_edges sel)
    | Inl e \<Rightarrow> \<exists>ids. e = GraphCycle ids \<and> closed_walk sel ids)"
  using validate_graph_cases [of sel] closed_walk_cycle [of sel] by auto

text \<open>
  In a manager that was built, a plan for a selector is a non-empty list of real models,
  each reached from it through selectors and offered there with a context window of at least
  the request; otherwise the request is larger than a window the error names; a name that is
  no selector gives no plan.  The expansion always ends and meets no cycle.
\<close>

theorem selector_plan_correct:
  assumes "from_gateway_configs acs ccs dcs = Inr sel" "sampler_ok sample"
  shows "case fst (select_plan_for_model sample sel i tokens st) of
           Inl e \<Rightarrow> is_synthetic_model sel i \<and> too_small tokens e
         | Inr None \<Rightarrow> \<not> is_synthetic_model sel i
         | Inr (Some p) \<Rightarrow> is_synthetic_model sel i \<and>
             ordered_models p \<noteq> [] \<and> set (ordered_models p) \<subseteq> suitable sel tokens i"
  using built_plan_good [OF assms, of tokens i st] by (simp add: plan_good_def)

lemma example_plan:
  "fst (select_plan_for_model first_sampler example_selectors ''mix'' 40
     (initial_state example_selectors)) =
   Inr (Some \<lparr>pl_id = ''mix'', pl_name = ''Mix'', ordered_models = [''large'', ''medium'']\<rparr>)"
  by code_simp

theorem selector_plan_correct_witness:
  "set [''large'', ''medium''] \<subseteq> suitable example_selectors 40 ''mix''"
  using selector_plan_correct [OF example_built first_sampler_ok, of "''mix''" 40
      "initial_state example_selectors"] example_plan
  by simp

text \<open>
  Whatever a built manager is asked to do, an identity whose active selector is set gets a
  plan of real models that the selector leads to: selection for an identity cannot fail.
\<close>

theorem identity_plan_available:
  assumes "from_gateway_configs acs ccs dcs = Inr sel" "sampler_ok sample"
    and "st = run_ops (selector_step sample sel) (initial_state sel) ops"
    and "active_for_identity who st = Some i"
  shows "\<exists>p. fst (select_plan_for_identity sample sel who st) = Some p \<and>
           ordered_models p \<noteq> [] \<and> set (ordered_models p) \<subseteq> suitable sel 0 i"
proof -
  have "active_ok sel st"
    unfolding assms(3) by (rule manager.run_inv) (simp add: active_ok_def initial_state_def)
  with assms(4) have i: "is_synthetic_model sel i"
    by (auto simp: active_ok_def active_for_identity_def ran_def)
  have "plan_good sel 0 i (fst (select_plan_for_model sample sel i 0 st))"
    by (rule built_plan_good [OF assms(1,2)])
  with i assms(4) show ?thesis
    by (auto simp: select_plan_for_identity_def plan_good_def too_small_def case_prod_unfold
        split: sum.splits option.splits)
qed

theorem identity_plan_available_witness:
  "\<exists>p. fst (select_plan_for_identity first_sampler example_selectors ''alice''
          (run_ops (selector_step first_sampler example_selectors) (initial_state example_selectors)
            [SetActive ''alice'' ''mix'', SelectModel ''mix'' 1000])) = Some p \<and>
       ordered_models p \<noteq> [] \<and> set (ordered_models p) \<subseteq> suitable example_selectors 0 ''mix''"
  by (rule identity_plan_available [OF example_built first_sampler_ok refl]) code_simp

end
