(* ===== verification/Model_Names.thy ===== *)
theory Model_Names
  imports Model_Selectors
begin

text \<open>
  Model names (\<open>crates/calciforge/src/model_names.rs\<close>), the namespace checks of the
  configuration validator that use them (\<open>config/validator.rs\<close>) and the resolution of a
  requested model to concrete models (\<open>proxy/model_resolver.rs\<close>).

  \<open>names_config\<close> holds the fields of \<open>CalciforgeConfig\<close> that this code reads.
\<close>

section \<open>Configuration\<close>

record shortcut =
  sc_alias :: string
  sc_model :: string

record model_role =
  mr_role :: string
  mr_model :: string

record agent_names =
  an_id :: string
  an_aliases :: "string list"

record proxy_names =
  px_provider_models :: "string list list"
  px_route_patterns :: "string list"

record names_config =
  nc_identities :: "string list"
  nc_agents :: "agent_names list"
  nc_channels :: "string list"
  nc_alloys :: "alloy_config list"
  nc_cascades :: "cascade_config list"
  nc_dispatchers :: "dispatcher_config list"
  nc_local_models :: "string list option"
  nc_proxy :: "proxy_names option"
  nc_shortcuts :: "shortcut list"
  nc_roles :: "model_role list"

definition as_shortcut :: "model_role \<Rightarrow> shortcut" where
  "as_shortcut r = \<lparr>sc_alias = mr_role r, sc_model = mr_model r\<rparr>"

definition effective_model_shortcuts :: "names_config \<Rightarrow> shortcut list" where
  "effective_model_shortcuts cfg = nc_shortcuts cfg @ map as_shortcut (nc_roles cfg)"

section \<open>Configured names\<close>

datatype model_id_kind = Synthetic | Local | ProviderExact | ModelRouteExact

fun model_kind_label :: "model_id_kind \<Rightarrow> string" where
  "model_kind_label Synthetic = ''synthetic model ID''"
| "model_kind_label Local = ''local model ID''"
| "model_kind_label ProviderExact = ''provider model ID''"
| "model_kind_label ModelRouteExact = ''model-route ID''"

record configured_model_id =
  cm_id :: string
  cm_kind :: model_id_kind

datatype agent_selector_kind = AgentId | AgentAlias

fun agent_kind_label :: "agent_selector_kind \<Rightarrow> string" where
  "agent_kind_label AgentId = ''agent ID''"
| "agent_kind_label AgentAlias = ''agent alias''"

record configured_agent_selector =
  ca_id :: string
  ca_kind :: agent_selector_kind
  ca_owner :: string

definition is_exact_model_pattern :: "string \<Rightarrow> bool" where
  "is_exact_model_pattern pattern =
     (let p = trim pattern in p \<noteq> [] \<and> p \<noteq> ''*'' \<and> \<not> str_contains ''*'' p)"

definition model_ids :: "model_id_kind \<Rightarrow> string list \<Rightarrow> configured_model_id list" where
  "model_ids k ids = map (\<lambda>i. \<lparr>cm_id = i, cm_kind = k\<rparr>) ids"

definition configured_first_class_model_ids :: "names_config \<Rightarrow> configured_model_id list" where
  "configured_first_class_model_ids cfg =
     model_ids Synthetic (map al_id (nc_alloys cfg)) @
     model_ids Synthetic (map cc_id (nc_cascades cfg)) @
     model_ids Synthetic (map dc_id (nc_dispatchers cfg)) @
     (case nc_local_models cfg of None \<Rightarrow> [] | Some ids \<Rightarrow> model_ids Local ids) @
     (case nc_proxy cfg of
        None \<Rightarrow> []
      | Some px \<Rightarrow>
          concat (map (\<lambda>ms. model_ids ProviderExact (filter is_exact_model_pattern ms))
                      (px_provider_models px)) @
          model_ids ModelRouteExact (filter is_exact_model_pattern (px_route_patterns px)))"

definition configured_agent_selectors :: "names_config \<Rightarrow> configured_agent_selector list" where
  "configured_agent_selectors cfg =
     concat (map (\<lambda>a.
       \<lparr>ca_id = an_id a, ca_kind = AgentId, ca_owner = an_id a\<rparr> #
       map (\<lambda>x. \<lparr>ca_id = x, ca_kind = AgentAlias, ca_owner = an_id a\<rparr>) (an_aliases a))
     (nc_agents cfg))"

section \<open>Alias chains\<close>

text \<open>The model a name stands for, if it is an alias: the first shortcut of that name.\<close>

definition alias_target :: "shortcut list \<Rightarrow> string \<Rightarrow> string option" where
  "alias_target scs m = map_option sc_model (find (\<lambda>s. sc_alias s = m) scs)"

definition alias_step :: "shortcut list \<Rightarrow> (string \<times> string) set" where
  "alias_step scs = {(m, n). alias_target scs m = Some n}"

lemma alias_target_alias: "alias_target scs m = Some n \<Longrightarrow> m \<in> sc_alias ` set scs"
  by (auto simp: alias_target_def find_Some_iff image_iff intro!: bexI)

text \<open>
  The loop of \<open>resolve_model_alias_chain\<close>; \<open>seen\<close> is \<open>seen_order\<close>, of which the hash set of
  the code is the set.  The error carries the name asked for and the names in order.
\<close>

datatype alias_error = AliasCycle string "string list"

fun alias_error_text :: "alias_error \<Rightarrow> string" where
  "alias_error_text (AliasCycle m ms) =
     ''model shortcut cycle detected while resolving '' @ quote m @ '': '' @ join_with '' -> '' ms"

function alias_loop :: "shortcut list \<Rightarrow> string \<Rightarrow> string list \<Rightarrow> string \<Rightarrow> alias_error + string" where
  "alias_loop scs m seen current =
     (if current \<in> set seen then Inl (AliasCycle m (seen @ [current]))
      else (case alias_target scs current of
              None \<Rightarrow> Inr current
            | Some nxt \<Rightarrow> alias_loop scs m (seen @ [current]) nxt))"
  by pat_completeness auto
termination
proof (relation "measure (\<lambda>(scs, m, seen, current). card (sc_alias ` set scs - set seen))")
  fix scs m seen current nxt
  assume "current \<notin> set seen" "alias_target scs current = Some nxt"
  then have "current \<in> sc_alias ` set scs" "current \<notin> set seen" by (auto dest: alias_target_alias)
  then have "sc_alias ` set scs - set (seen @ [current]) \<subset> sc_alias ` set scs - set seen"
    by (auto simp del: image_iff)
  then show "((scs, m, seen @ [current], nxt), scs, m, seen, current)
      \<in> measure (\<lambda>(scs, m, seen, current). card (sc_alias ` set scs - set seen))"
    by (simp add: psubset_card_mono)
qed simp

declare alias_loop.simps [simp del]

definition resolve_model_alias_chain :: "shortcut list \<Rightarrow> string \<Rightarrow> alias_error + string" where
  "resolve_model_alias_chain scs m = alias_loop scs m [] m"

text \<open>
  The loop against the relation: it ends at a name that is no alias, or it has walked from
  \<open>m\<close> to a name that leads back to itself.
\<close>

lemma alias_loop_outcome:
  "(m, current) \<in> (alias_step scs)\<^sup>* \<Longrightarrow> (\<And>s. s \<in> set seen \<Longrightarrow> (s, current) \<in> (alias_step scs)\<^sup>+) \<Longrightarrow>
   (case alias_loop scs m seen current of
      Inr r \<Rightarrow> (m, r) \<in> (alias_step scs)\<^sup>* \<and> alias_target scs r = None
    | Inl _ \<Rightarrow> \<exists>c. (m, c) \<in> (alias_step scs)\<^sup>* \<and> (c, c) \<in> (alias_step scs)\<^sup>+)"
proof (induction scs m seen current rule: alias_loop.induct)
  case (1 scs m seen current)
  show ?case
  proof (cases "alias_target scs current")
    case None
    with 1(2,3) show ?thesis by (auto simp: alias_loop.simps [of scs m seen])
  next
    case (Some nxt)
    then have step: "(current, nxt) \<in> alias_step scs" by (simp add: alias_step_def)
    show ?thesis
    proof (cases "current \<in> set seen")
      case True
      with 1(2,3) show ?thesis by (auto simp: alias_loop.simps [of scs m seen])
    next
      case False
      have "(s, nxt) \<in> (alias_step scs)\<^sup>+" if "s \<in> set (seen @ [current])" for s
        using that 1(3) step by (auto intro: trancl_into_trancl)
      with 1(1) [OF False Some] 1(2) step False Some show ?thesis
        by (simp add: alias_loop.simps [of scs m seen] rtrancl_into_rtrancl)
    qed
  qed
qed

lemma resolve_outcome:
  "case resolve_model_alias_chain scs m of
     Inr r \<Rightarrow> (m, r) \<in> (alias_step scs)\<^sup>* \<and> alias_target scs r = None
   | Inl _ \<Rightarrow> \<exists>c. (m, c) \<in> (alias_step scs)\<^sup>* \<and> (c, c) \<in> (alias_step scs)\<^sup>+"
  using alias_loop_outcome [of m m scs "[]"] by (simp add: resolve_model_alias_chain_def)

lemma alias_step_fun: "(a, b) \<in> alias_step scs \<Longrightarrow> (a, c) \<in> alias_step scs \<Longrightarrow> b = c"
  by (simp add: alias_step_def)

text \<open>A function's walk that ends does so in one place, and never comes back to a name.\<close>

lemma alias_end_unique:
  assumes "(m, r) \<in> (alias_step scs)\<^sup>*" "alias_target scs r = None" "(m, n) \<in> (alias_step scs)\<^sup>*"
  shows "(n, r) \<in> (alias_step scs)\<^sup>*"
  using assms(1,3)
proof (induction rule: converse_rtrancl_induct)
  case base
  then have "n = r"
    by (rule converse_rtranclE) (use assms(2) in \<open>simp_all add: alias_step_def\<close>)
  then show ?case by simp
next
  case (step a b)
  from step(4) show ?case
  proof (cases rule: converse_rtranclE)
    case base
    with step(1,2) show ?thesis by (simp add: converse_rtrancl_into_rtrancl)
  next
    case c: (step c)
    from alias_step_fun [OF c(1) step(1)] c(2) have "(b, n) \<in> (alias_step scs)\<^sup>*" by simp
    then show ?thesis by (rule step(3))
  qed
qed

lemma alias_end_no_cycle:
  assumes "alias_target scs r = None" "(c, r) \<in> (alias_step scs)\<^sup>*" "(c, c) \<in> (alias_step scs)\<^sup>+"
  shows False
  using assms(2,3)
proof (induction rule: converse_rtrancl_induct)
  case base
  then obtain d where "(r, d) \<in> alias_step scs" by (metis tranclD)
  with assms(1) show ?case by (simp add: alias_step_def)
next
  case (step a b)
  then have "(b, a) \<in> (alias_step scs)\<^sup>*" by (metis alias_step_fun tranclD)
  then have "(b, b) \<in> (alias_step scs)\<^sup>+" using step(1) by (rule rtrancl_into_trancl1)
  then show ?case by (rule step(3))
qed

lemma resolve_Inr_iff:
  "resolve_model_alias_chain scs m = Inr r \<longleftrightarrow>
   (m, r) \<in> (alias_step scs)\<^sup>* \<and> alias_target scs r = None"
proof
  assume "resolve_model_alias_chain scs m = Inr r"
  then show "(m, r) \<in> (alias_step scs)\<^sup>* \<and> alias_target scs r = None"
    using resolve_outcome [of m scs] by simp
next
  assume r: "(m, r) \<in> (alias_step scs)\<^sup>* \<and> alias_target scs r = None"
  show "resolve_model_alias_chain scs m = Inr r"
  proof (cases "resolve_model_alias_chain scs m")
    case (Inl e)
    with resolve_outcome [of m scs] obtain c
      where "(m, c) \<in> (alias_step scs)\<^sup>*" "(c, c) \<in> (alias_step scs)\<^sup>+" by auto
    with r alias_end_unique alias_end_no_cycle show ?thesis by blast
  next
    case (Inr n)
    then have n: "(m, n) \<in> (alias_step scs)\<^sup>*" "alias_target scs n = None"
      using resolve_outcome [of m scs] by simp_all
    with r have "(n, r) \<in> (alias_step scs)\<^sup>*" using alias_end_unique by blast
    then have "r = n"
      by (rule converse_rtranclE) (use n(2) in \<open>simp_all add: alias_step_def\<close>)
    with Inr show ?thesis by simp
  qed
qed

lemma resolve_Inl_iff:
  "(\<exists>e. resolve_model_alias_chain scs m = Inl e) \<longleftrightarrow>
   (\<exists>c. (m, c) \<in> (alias_step scs)\<^sup>* \<and> (c, c) \<in> (alias_step scs)\<^sup>+)"
proof
  assume "\<exists>e. resolve_model_alias_chain scs m = Inl e"
  then show "\<exists>c. (m, c) \<in> (alias_step scs)\<^sup>* \<and> (c, c) \<in> (alias_step scs)\<^sup>+"
    using resolve_outcome [of m scs] by auto
next
  assume "\<exists>c. (m, c) \<in> (alias_step scs)\<^sup>* \<and> (c, c) \<in> (alias_step scs)\<^sup>+"
  then have "resolve_model_alias_chain scs m \<noteq> Inr r" for r
    using resolve_Inr_iff alias_end_unique alias_end_no_cycle by blast
  then show "\<exists>e. resolve_model_alias_chain scs m = Inl e"
    by (cases "resolve_model_alias_chain scs m") auto
qed

section \<open>Validation of the namespaces\<close>

datatype config_issue =
    DuplicateIdentity string
  | DuplicateAgent string
  | MultipleChannel string
  | AmbiguousAgent string agent_selector_kind string agent_selector_kind string
  | AmbiguousModel string model_id_kind model_id_kind
  | ModelIsAgent string model_id_kind agent_selector_kind
  | DuplicateAlias string
  | AliasIsModel string model_id_kind
  | AliasIsAgent string agent_selector_kind string
  | AliasLoop alias_error

primrec config_issue_text :: "config_issue \<Rightarrow> string" where
  "config_issue_text (DuplicateIdentity i) = ''Duplicate identity ID: '' @ quote i"
| "config_issue_text (DuplicateAgent i) = ''Duplicate agent ID: '' @ quote i"
| "config_issue_text (MultipleChannel k) = ''Multiple configurations for channel kind: '' @ quote k"
| "config_issue_text (AmbiguousAgent i k1 o1 k2 o2) =
     ''Ambiguous agent selector '' @ quote i @ '': configured as a '' @ agent_kind_label k1 @
     '' for agent '' @ quote o1 @ '' and a '' @ agent_kind_label k2 @ '' for agent '' @ quote o2 @
     ''. Agent IDs and aliases must resolve to one chat target.''"
| "config_issue_text (AmbiguousModel i k1 k2) =
     ''Ambiguous model selector '' @ quote i @ '': configured as both a '' @ model_kind_label k1 @
     '' and a '' @ model_kind_label k2 @
     ''. Model selectors must be unique across synthetic routing selectors, local models, exact provider models, and exact model routes.''"
| "config_issue_text (ModelIsAgent i mk ak) =
     ''Ambiguous selector '' @ quote i @ '': configured as a '' @ model_kind_label mk @
     '' and a '' @ agent_kind_label ak @
     ''. Agent selectors are used for routing/chat targets; model selectors are used for gateway model requests. Rename one side so Calciforge cannot treat an agent name as a model name.''"
| "config_issue_text (DuplicateAlias a) = ''Duplicate model shortcut alias or role: '' @ quote a"
| "config_issue_text (AliasIsModel a mk) =
     ''Ambiguous model shortcut alias '' @ quote a @ '': conflicts with a configured '' @
     model_kind_label mk @
     ''. Shortcuts must point to configured models; they cannot reuse a first-class model selector.''"
| "config_issue_text (AliasIsAgent a ak ow) =
     ''Ambiguous model shortcut alias '' @ quote a @ '': conflicts with a configured '' @
     agent_kind_label ak @ '' for agent '' @ quote ow @
     ''. Agent selectors route chat targets; model shortcuts select gateway models. Rename one side.''"
| "config_issue_text (AliasLoop e) = alias_error_text e"

record validation_result =
  vr_valid :: bool
  vr_errors :: "config_issue list"
  vr_warnings :: "config_issue list"

definition new_result :: validation_result where
  "new_result = \<lparr>vr_valid = True, vr_errors = [], vr_warnings = []\<rparr>"

definition add_error :: "config_issue \<Rightarrow> validation_result \<Rightarrow> validation_result" where
  "add_error e r = r\<lparr>vr_valid := False, vr_errors := vr_errors r @ [e]\<rparr>"

definition add_warning :: "config_issue \<Rightarrow> validation_result \<Rightarrow> validation_result" where
  "add_warning e r = r\<lparr>vr_warnings := vr_warnings r @ [e]\<rparr>"

definition is_valid :: "validation_result \<Rightarrow> bool" where
  "is_valid r \<longleftrightarrow> vr_valid r \<and> vr_errors r = []"

text \<open>The loops, each as the list of what it adds to the result.\<close>

fun repeated :: "'a list \<Rightarrow> 'a list \<Rightarrow> 'a list" where
  "repeated seen [] = []"
| "repeated seen (x # xs) = (if x \<in> set seen then [x] else []) @ repeated (x # seen) xs"

fun agent_conflicts ::
  "(string \<rightharpoonup> string \<times> agent_selector_kind) \<Rightarrow> configured_agent_selector list \<Rightarrow> config_issue list"
  where
  "agent_conflicts m [] = []"
| "agent_conflicts m (x # xs) =
     (case m (ca_id x) of
        Some (ow, k) \<Rightarrow>
          if ow \<noteq> ca_owner x then [AmbiguousAgent (ca_id x) k ow (ca_kind x) (ca_owner x)] else []
      | None \<Rightarrow> []) @
     agent_conflicts (m(ca_id x \<mapsto> (ca_owner x, ca_kind x))) xs"

fun model_conflicts ::
  "configured_agent_selector list \<Rightarrow> (string \<rightharpoonup> model_id_kind) \<Rightarrow> configured_model_id list \<Rightarrow>
   config_issue list" where
  "model_conflicts sels m [] = []"
| "model_conflicts sels m (x # xs) =
     (case m (cm_id x) of
        Some k \<Rightarrow> [AmbiguousModel (cm_id x) k (cm_kind x)]
      | None \<Rightarrow> []) @
     (case find (\<lambda>s. ca_id s = cm_id x) sels of
        Some s \<Rightarrow> [ModelIsAgent (cm_id x) (cm_kind x) (ca_kind s)]
      | None \<Rightarrow> []) @
     model_conflicts sels (m(cm_id x \<mapsto> cm_kind x)) xs"

fun alias_conflicts ::
  "configured_model_id list \<Rightarrow> configured_agent_selector list \<Rightarrow> string list \<Rightarrow> shortcut list \<Rightarrow>
   config_issue list" where
  "alias_conflicts ids sels seen [] = []"
| "alias_conflicts ids sels seen (x # xs) =
     (if sc_alias x \<in> set seen then [DuplicateAlias (sc_alias x)] else []) @
     (case find (\<lambda>e. cm_id e = sc_alias x) ids of
        Some e \<Rightarrow> [AliasIsModel (sc_alias x) (cm_kind e)]
      | None \<Rightarrow> []) @
     (case find (\<lambda>s. ca_id s = sc_alias x) sels of
        Some s \<Rightarrow> [AliasIsAgent (sc_alias x) (ca_kind s) (ca_owner s)]
      | None \<Rightarrow> []) @
     alias_conflicts ids sels (sc_alias x # seen) xs"

definition alias_loops :: "shortcut list \<Rightarrow> config_issue list" where
  "alias_loops scs =
     concat (map (\<lambda>s. case resolve_model_alias_chain scs (sc_alias s) of
                         Inl e \<Rightarrow> [AliasLoop e] | Inr _ \<Rightarrow> []) scs)"

definition validate_no_duplicate_ids :: "names_config \<Rightarrow> validation_result \<Rightarrow> validation_result" where
  "validate_no_duplicate_ids cfg r =
     (let ids = configured_first_class_model_ids cfg;
          sels = configured_agent_selectors cfg;
          scs = effective_model_shortcuts cfg;
          r1 = fold add_error (map DuplicateIdentity (repeated [] (nc_identities cfg))) r;
          r2 = fold add_error (map DuplicateAgent (repeated [] (map an_id (nc_agents cfg)))) r1;
          r3 = fold add_warning (map MultipleChannel (repeated [] (nc_channels cfg))) r2;
          r4 = fold add_error (agent_conflicts Map.empty sels) r3;
          r5 = fold add_error (model_conflicts sels Map.empty ids) r4;
          r6 = fold add_error (alias_conflicts ids sels [] scs) r5
      in fold add_error (alias_loops scs) r6)"

end
