(* ===== verification/Model_Resolver.thy ===== *)
theory Model_Resolver
  imports Model_Plans Model_Names
begin

text \<open>
  What the checks of the name spaces give, and the resolution of a requested model name to
  concrete models (\<open>crates/calciforge/src/proxy/model_resolver.rs\<close>): aliases first, then the
  plan of the selector, then the aliases the plan names, and so on.
\<close>

section \<open>Accepted names\<close>

lemma repeated_Nil: "repeated seen xs = [] \<longleftrightarrow> distinct xs \<and> set xs \<inter> set seen = {}"
  by (induction seen xs rule: repeated.induct) auto

lemma fold_add_error:
  "fold add_error es r =
     r\<lparr>vr_valid := (vr_valid r \<and> es = []), vr_errors := vr_errors r @ es\<rparr>"
  by (induction es arbitrary: r) (auto simp: add_error_def)

lemma fold_add_warning: "fold add_warning es r = r\<lparr>vr_warnings := vr_warnings r @ es\<rparr>"
  by (induction es arbitrary: r) (auto simp: add_warning_def)

lemma find_None_notin: "find P xs = None \<longleftrightarrow> (\<forall>x \<in> set xs. \<not> P x)"
  by (induction xs) auto

lemma find_case_Nil:
  "(case find P xs of Some x \<Rightarrow> [f x] | None \<Rightarrow> []) = [] \<longleftrightarrow> (\<forall>x \<in> set xs. \<not> P x)"
  using find_None_notin [of P xs] by (auto split: option.split)

text \<open>Two selectors of one name lead to one agent.\<close>

definition same_target :: "configured_agent_selector \<Rightarrow> configured_agent_selector \<Rightarrow> bool" where
  "same_target x y \<longleftrightarrow> ca_id x = ca_id y \<longrightarrow> ca_owner x = ca_owner y"

lemma same_target_refl [simp]: "same_target x x"
  by (simp add: same_target_def)

lemma same_target_sym: "same_target x y \<longleftrightarrow> same_target y x"
  by (metis same_target_def)

definition owner_noted ::
  "(string \<rightharpoonup> string \<times> agent_selector_kind) \<Rightarrow> configured_agent_selector \<Rightarrow> bool" where
  "owner_noted m y \<longleftrightarrow> (\<forall>ow k. m (ca_id y) = Some (ow, k) \<longrightarrow> ow = ca_owner y)"

lemma owner_noted_upd:
  "owner_noted (m(ca_id x \<mapsto> (ca_owner x, k))) y \<longleftrightarrow>
     same_target x y \<and> (ca_id x \<noteq> ca_id y \<longrightarrow> owner_noted m y)"
  by (auto simp: owner_noted_def same_target_def)

lemma owner_noted_same:
  "owner_noted m x \<Longrightarrow> ca_id x = ca_id y \<Longrightarrow> same_target x y \<Longrightarrow> owner_noted m y"
  by (simp add: owner_noted_def same_target_def)

lemma agent_conflicts_Nil:
  "agent_conflicts m xs = [] \<longleftrightarrow>
     (\<forall>x \<in> set xs. owner_noted m x) \<and> (\<forall>x \<in> set xs. \<forall>y \<in> set xs. same_target x y)"
proof (induction m xs rule: agent_conflicts.induct)
  case (2 m x xs)
  have "(case m (ca_id x) of
        Some (ow, k) \<Rightarrow>
          if ow \<noteq> ca_owner x then [AmbiguousAgent (ca_id x) k ow (ca_kind x) (ca_owner x)] else []
      | None \<Rightarrow> []) = [] \<longleftrightarrow> owner_noted m x"
    by (auto simp: owner_noted_def split: option.splits)
  moreover have "(\<forall>a \<in> set (x # xs). \<forall>b \<in> set (x # xs). same_target a b) \<longleftrightarrow>
      (\<forall>y \<in> set xs. same_target x y) \<and> (\<forall>a \<in> set xs. \<forall>b \<in> set xs. same_target a b)"
    using same_target_sym by auto
  moreover have "(\<forall>y \<in> set xs. owner_noted (m(ca_id x \<mapsto> (ca_owner x, ca_kind x))) y) \<longleftrightarrow>
      (\<forall>y \<in> set xs. owner_noted m y) \<and> (\<forall>y \<in> set xs. same_target x y)" if "owner_noted m x"
    unfolding owner_noted_upd using owner_noted_same [OF that] by blast
  ultimately show ?case
    unfolding agent_conflicts.simps append_is_Nil_conv 2 by auto
qed simp

lemma model_conflicts_Nil:
  "model_conflicts sels m xs = [] \<longleftrightarrow>
     distinct (map cm_id xs) \<and> set (map cm_id xs) \<inter> dom m = {} \<and>
     set (map cm_id xs) \<inter> set (map ca_id sels) = {}"
proof (induction sels m xs rule: model_conflicts.induct)
  case (2 sels m x xs)
  show ?case
    unfolding model_conflicts.simps append_is_Nil_conv 2 find_case_Nil
    by (auto simp: image_iff split: option.splits)
qed simp

lemma alias_conflicts_Nil:
  "alias_conflicts ids sels seen xs = [] \<longleftrightarrow>
     distinct (map sc_alias xs) \<and> set (map sc_alias xs) \<inter> set seen = {} \<and>
     set (map sc_alias xs) \<inter> set (map cm_id ids) = {} \<and>
     set (map sc_alias xs) \<inter> set (map ca_id sels) = {}"
proof (induction ids sels seen xs rule: alias_conflicts.induct)
  case (2 ids sels seen x xs)
  show ?case
    unfolding alias_conflicts.simps append_is_Nil_conv 2 find_case_Nil
    by (auto simp: image_iff)
qed simp

lemma alias_loops_Nil:
  "alias_loops scs = [] \<longleftrightarrow> (\<forall>m. \<exists>r. resolve_model_alias_chain scs m = Inr r)"
proof -
  have "\<exists>r. resolve_model_alias_chain scs m = Inr r"
    if "\<forall>s \<in> set scs. \<exists>r. resolve_model_alias_chain scs (sc_alias s) = Inr r" for m
  proof (cases "alias_target scs m")
    case None
    then have "resolve_model_alias_chain scs m = Inr m" by (simp add: resolve_Inr_iff)
    then show ?thesis ..
  next
    case (Some n)
    then have "m \<in> sc_alias ` set scs" by (rule alias_target_alias)
    with that show ?thesis by blast
  qed
  then show ?thesis
    by (auto simp: alias_loops_def split: sum.splits) (metis Inl_Inr_False obj_sumE)+
qed

text \<open>What the checks are for.\<close>

definition names_unambiguous :: "names_config \<Rightarrow> bool" where
  "names_unambiguous cfg \<longleftrightarrow>
     (let models = map cm_id (configured_first_class_model_ids cfg);
          sels = configured_agent_selectors cfg;
          agents = map ca_id sels;
          scs = effective_model_shortcuts cfg;
          aliases = map sc_alias scs
      in distinct (nc_identities cfg) \<and> distinct (map an_id (nc_agents cfg)) \<and>
         (\<forall>x \<in> set sels. \<forall>y \<in> set sels. ca_id x = ca_id y \<longrightarrow> ca_owner x = ca_owner y) \<and>
         distinct models \<and> set models \<inter> set agents = {} \<and>
         distinct aliases \<and> set aliases \<inter> set models = {} \<and> set aliases \<inter> set agents = {} \<and>
         (\<forall>m. \<exists>r. resolve_model_alias_chain scs m = Inr r))"

lemma validate_names_iff:
  "is_valid (validate_no_duplicate_ids cfg new_result) \<longleftrightarrow> names_unambiguous cfg"
  unfolding is_valid_def validate_no_duplicate_ids_def names_unambiguous_def Let_def
  by (simp add: fold_add_error fold_add_warning new_result_def repeated_Nil agent_conflicts_Nil
      model_conflicts_Nil alias_conflicts_Nil alias_loops_Nil owner_noted_def same_target_def)

section \<open>From a name to concrete models\<close>

datatype resolver_error =
    AliasFailed alias_error
  | SelectorFailed selector_error
  | ExpansionCycle "string list"

fun resolver_error_text :: "resolver_error \<Rightarrow> string" where
  "resolver_error_text (AliasFailed e) = alias_error_text e"
| "resolver_error_text (SelectorFailed e) = selector_error_text e"
| "resolver_error_text (ExpansionCycle ids) =
     ''synthetic model cycle detected after shortcut resolution: '' @ join_with '' -> '' ids"

text \<open>The identifiers plans of the manager carry, and those not on the stack yet.\<close>

definition plan_ids :: "selectors \<Rightarrow> string set" where
  "plan_ids sel =
     (\<lambda>(_, a). ad_id a) ` set (alloys sel) \<union> (\<lambda>(_, d). td_id d) ` set (cascades sel) \<union>
     (\<lambda>(_, d). td_id d) ` set (dispatchers sel)"

lemma finite_plan_ids: "finite (plan_ids sel)"
  by (simp add: plan_ids_def)

lemma own_plan_id:
  "own_plan sample sel tokens i st = (Inr (Some p), st') \<Longrightarrow> pl_id p \<in> plan_ids sel"
  by (auto simp: own_plan_def alloy_select_plan_def cascade_select_plan_def
      dispatcher_select_plan_def plan_ids_def Let_def image_iff
      split: option.splits if_splits prod.splits dest!: map_of_SomeD intro: bexI [rotated])

lemma select_plan_id:
  assumes "select_plan_for_model sample sel i tokens st = (Inr (Some p), st')"
  shows "pl_id p \<in> plan_ids sel"
  using assms own_plan_id [of sample sel tokens i st]
  by (auto simp: select_plan_for_model_def select_rec.simps [of sample sel]
      split: prod.splits sum.splits option.splits)

lemma plan_ids_left:
  "card (plan_ids sel - insert i (set stack)) \<le> card (plan_ids sel - set stack)"
  by (rule card_mono) (auto simp: finite_plan_ids)

lemma plan_ids_less:
  "i \<in> plan_ids sel \<Longrightarrow> i \<notin> set stack \<Longrightarrow>
     card (plan_ids sel - insert i (set stack)) < card (plan_ids sel - set stack)"
  by (rule psubset_card_mono) (auto simp: finite_plan_ids)

function resolver_expand ::
    "sampler \<Rightarrow> shortcut list \<Rightarrow> selectors \<Rightarrow> u32 \<Rightarrow> string list \<Rightarrow> alloy_plan \<Rightarrow> sel_state \<Rightarrow>
     (resolver_error + alloy_plan) \<times> sel_state"
  and resolver_targets ::
    "sampler \<Rightarrow> shortcut list \<Rightarrow> selectors \<Rightarrow> u32 \<Rightarrow> string list \<Rightarrow> string list \<Rightarrow> sel_state \<Rightarrow>
     (resolver_error + string list) \<times> sel_state"
  where
  "resolver_expand sample scs sel tokens stack plan st =
     (if pl_id plan \<in> set stack then (Inl (ExpansionCycle (stack @ [pl_id plan])), st)
      else (case resolver_targets sample scs sel tokens (stack @ [pl_id plan])
                   (ordered_models plan) st of
              (Inl e, st') \<Rightarrow> (Inl e, st')
            | (Inr ms, st') \<Rightarrow> (Inr (plan\<lparr>ordered_models := ms\<rparr>), st')))"
| "resolver_targets sample scs sel tokens stack [] st = (Inr [], st)"
| "resolver_targets sample scs sel tokens stack (t # ts) st =
     (case resolve_model_alias_chain scs t of
        Inl e \<Rightarrow> (Inl (AliasFailed e), st)
      | Inr r \<Rightarrow>
     (case select_plan_for_model sample sel r tokens st of
        (Inl e, st1) \<Rightarrow> (Inl (SelectorFailed e), st1)
      | (Inr None, st1) \<Rightarrow>
          (case resolver_targets sample scs sel tokens stack ts st1 of
             (Inl e, st2) \<Rightarrow> (Inl e, st2)
           | (Inr ms, st2) \<Rightarrow> (Inr (r # ms), st2))
      | (Inr (Some child), st1) \<Rightarrow>
          (case resolver_expand sample scs sel tokens stack child st1 of
             (Inl e, st2) \<Rightarrow> (Inl e, st2)
           | (Inr child', st2) \<Rightarrow>
               (case resolver_targets sample scs sel tokens stack ts st2 of
                  (Inl e, st3) \<Rightarrow> (Inl e, st3)
                | (Inr ms, st3) \<Rightarrow> (Inr (ordered_models child' @ ms), st3)))))"
  by pat_completeness auto

termination
proof (relation "measures
    [\<lambda>x. case x of
       Inl (_, _, sel, _, stack, plan, _) \<Rightarrow>
         2 * card (plan_ids sel - set stack) + (if pl_id plan \<in> plan_ids sel then 0 else 2)
     | Inr (_, _, sel, _, stack, _, _) \<Rightarrow> 2 * card (plan_ids sel - set stack) + 1,
     \<lambda>x. case x of Inl _ \<Rightarrow> 0 | Inr (_, _, _, _, _, ts, _) \<Rightarrow> length ts]", goal_cases)
  case (2 sample scs sel tokens stack plan st)
  then show ?case
    using plan_ids_left [of sel "pl_id plan" stack] plan_ids_less [of "pl_id plan" sel stack] by auto
qed (auto dest: select_plan_id [OF sym])

definition plan_for_model ::
  "sampler \<Rightarrow> shortcut list \<Rightarrow> selectors \<Rightarrow> string \<Rightarrow> u32 \<Rightarrow> sel_state \<Rightarrow>
   (resolver_error + string \<times> alloy_plan) \<times> sel_state" where
  "plan_for_model sample scs sel m tokens st =
     (case resolve_model_alias_chain scs m of
        Inl e \<Rightarrow> (Inl (AliasFailed e), st)
      | Inr root \<Rightarrow>
     (case select_plan_for_model sample sel root tokens st of
        (Inl e, st1) \<Rightarrow> (Inl (SelectorFailed e), st1)
      | (Inr found, st1) \<Rightarrow>
          let plan = (case found of Some p \<Rightarrow> p
            | None \<Rightarrow> \<lparr>pl_id = root, pl_name = root, ordered_models = [root]\<rparr>)
          in (case resolver_expand sample scs sel tokens [] plan st1 of
                (Inl e, st2) \<Rightarrow> (Inl e, st2)
              | (Inr plan', st2) \<Rightarrow> (Inr (root, plan'), st2))))"

declare resolver_expand.simps [simp del]

text \<open>One step from a name: through an alias, or to a model a selector offers that is large enough.\<close>

definition leads_to :: "shortcut list \<Rightarrow> selectors \<Rightarrow> u32 \<Rightarrow> (string \<times> string) set" where
  "leads_to scs sel tokens = alias_step scs \<union> fits sel tokens"

definition final_name :: "shortcut list \<Rightarrow> selectors \<Rightarrow> string \<Rightarrow> bool" where
  "final_name scs sel m \<longleftrightarrow> alias_target scs m = None \<and> \<not> is_synthetic_model sel m"

definition finals :: "shortcut list \<Rightarrow> selectors \<Rightarrow> u32 \<Rightarrow> string set \<Rightarrow> string set" where
  "finals scs sel tokens ms =
     {x. final_name scs sel x \<and> (\<exists>m \<in> ms. (m, x) \<in> (leads_to scs sel tokens)\<^sup>*)}"

lemma alias_leads: "(a, b) \<in> (alias_step scs)\<^sup>* \<Longrightarrow> (a, b) \<in> (leads_to scs sel tokens)\<^sup>*"
  unfolding leads_to_def by (erule rtrancl_mono [THEN subsetD, rotated]) blast

lemma suitable_leads: "m \<in> suitable sel tokens i \<Longrightarrow> (i, m) \<in> (leads_to scs sel tokens)\<^sup>*"
  unfolding leads_to_def suitable_def
  by (auto dest!: trancl_into_rtrancl elim!: rtrancl_mono [THEN subsetD, rotated])

lemma finals_back:
  "ns \<subseteq> (leads_to scs sel tokens)\<^sup>* `` ms \<Longrightarrow> finals scs sel tokens ns \<subseteq> finals scs sel tokens ms"
  by (auto simp: finals_def) (meson Image_iff rtrancl_trans subsetD)

lemma finals_insert:
  "finals scs sel tokens (insert t ts) = finals scs sel tokens {t} \<union> finals scs sel tokens ts"
  by (auto simp: finals_def)

lemma resolver_good:
  "resolver_expand sample scs sel tokens stack plan st = (r, st') \<Longrightarrow> ready sel sample \<Longrightarrow>
     (\<forall>p. r = Inr p \<longrightarrow> (ordered_models plan \<noteq> [] \<longrightarrow> ordered_models p \<noteq> []) \<and>
            set (ordered_models p) \<subseteq> finals scs sel tokens (set (ordered_models plan)))"
  "resolver_targets sample scs sel tokens stack ts st = (q, st') \<Longrightarrow> ready sel sample \<Longrightarrow>
     (\<forall>ms. q = Inr ms \<longrightarrow> (ts \<noteq> [] \<longrightarrow> ms \<noteq> []) \<and>
            set ms \<subseteq> finals scs sel tokens (set ts))"
proof (induction sample scs sel tokens stack plan st and sample scs sel tokens stack ts st
    arbitrary: r st' and q st' rule: resolver_expand_resolver_targets.induct)
  case (1 sample scs sel tokens stack plan st)
  show ?case
  proof (cases "pl_id plan \<in> set stack")
    case True
    with 1(2) show ?thesis by (auto simp: resolver_expand.simps [of sample])
  next
    case False
    obtain q st1 where q: "resolver_targets sample scs sel tokens (stack @ [pl_id plan])
        (ordered_models plan) st = (q, st1)" by fastforce
    from 1(1) [OF False q 1(3)] 1(2) False q show ?thesis
      by (cases q) (auto simp: resolver_expand.simps [of sample])
  qed
next
  case (2 sample scs sel tokens stack st)
  then show ?case by auto
next
  case (3 sample scs sel tokens stack t ts st)
  show ?case
  proof (cases "resolve_model_alias_chain scs t")
    case (Inl e)
    with 3(4) show ?thesis by auto
  next
    case r: (Inr n)
    then have n: "(t, n) \<in> (leads_to scs sel tokens)\<^sup>*" "alias_target scs n = None"
      by (simp_all add: resolve_Inr_iff alias_leads)
    obtain o1 st1 where s: "select_plan_for_model sample sel n tokens st = (o1, st1)" by fastforce
    have good: "plan_good sel tokens n o1"
      using select_rec_good(1) [of sample sel tokens "[]" n st o1 st1] s 3(5)
      by (simp add: select_plan_for_model_def above_def)
    consider (err) e where "o1 = Inl e" | (no) "o1 = Inr None" | (plan) p where "o1 = Inr (Some p)"
      by (metis old.sum.exhaust option.exhaust)
    then show ?thesis
    proof cases
      case err
      with r s 3(4) show ?thesis by auto
    next
      case no
      with good n have fin: "n \<in> finals scs sel tokens {t}"
        by (auto simp: plan_good_def finals_def final_name_def)
      obtain q1 st2 where q1: "resolver_targets sample scs sel tokens stack ts st1 = (q1, st2)"
        by fastforce
      have "set ms \<subseteq> finals scs sel tokens (set ts)" if "q1 = Inr ms" for ms
        using 3(1) [OF r s [symmetric] no refl q1 3(5)] that by simp
      with r s no q1 3(4) fin show ?thesis
        using finals_insert [of scs sel tokens t "set ts"] by (cases q1) auto
    next
      case (plan p)
      obtain c st2 where c: "resolver_expand sample scs sel tokens stack p st1 = (c, st2)"
        by fastforce
      show ?thesis
      proof (cases c)
        case (Inl e)
        with r s plan c 3(4) show ?thesis by auto
      next
        case (Inr p')
        obtain q1 st3 where q1: "resolver_targets sample scs sel tokens stack ts st2 = (q1, st3)"
          by fastforce
        have tail: "set ms \<subseteq> finals scs sel tokens (set ts)" if "q1 = Inr ms" for ms
          using 3(3) [OF r s [symmetric] plan refl c [symmetric] Inr q1 3(5)] that by simp
        have p': "ordered_models p' \<noteq> []"
          "set (ordered_models p') \<subseteq> finals scs sel tokens (set (ordered_models p))"
          using 3(2) [OF r s [symmetric] plan refl c 3(5)] Inr good plan
          by (auto simp: plan_good_def)
        have "set (ordered_models p) \<subseteq> (leads_to scs sel tokens)\<^sup>* `` {t}"
        proof
          fix m
          assume "m \<in> set (ordered_models p)"
          with good plan have "m \<in> suitable sel tokens n" by (auto simp: plan_good_def)
          with suitable_leads n(1) show "m \<in> (leads_to scs sel tokens)\<^sup>* `` {t}"
            by (auto intro: rtrancl_trans)
        qed
        with p'(2) finals_back have "set (ordered_models p') \<subseteq> finals scs sel tokens {t}" by blast
        with r s plan c Inr q1 3(4) tail p'(1) show ?thesis
          using finals_insert [of scs sel tokens t "set ts"] by (cases q1) auto
      qed
    qed
  qed
qed

section \<open>When there is no plan\<close>

lemma own_plan_name:
  "selectors_ok sel \<Longrightarrow> own_plan sample sel tokens i st = (Inr (Some p), st') \<Longrightarrow> pl_id p = i"
  by (auto simp: own_plan_def alloy_select_plan_def cascade_select_plan_def selectors_ok_def
      dispatcher_select_plan_def Let_def
      split: option.splits if_splits prod.splits dest!: map_of_SomeD)

lemma select_plan_name:
  assumes "selectors_ok sel" "select_plan_for_model sample sel i tokens st = (Inr (Some p), st')"
  shows "pl_id p = i"
  using assms(2) own_plan_name [OF assms(1), of sample tokens i st]
  by (auto simp: select_plan_for_model_def select_rec.simps [of sample sel]
      split: prod.splits sum.splits option.splits)

definition no_plan :: "shortcut list \<Rightarrow> selectors \<Rightarrow> u32 \<Rightarrow> resolver_error \<Rightarrow> bool" where
  "no_plan scs sel tokens e =
     (case e of
        AliasFailed _ \<Rightarrow> \<not> acyclic (alias_step scs)
      | SelectorFailed d \<Rightarrow> too_small tokens d
      | ExpansionCycle _ \<Rightarrow> \<not> acyclic (leads_to scs sel tokens))"

lemma alias_failed_cycle: "resolve_model_alias_chain scs m = Inl e \<Longrightarrow> \<not> acyclic (alias_step scs)"
  using resolve_Inl_iff [of scs m] by (auto simp: acyclic_def)

definition stacked :: "shortcut list \<Rightarrow> selectors \<Rightarrow> u32 \<Rightarrow> string list \<Rightarrow> string \<Rightarrow> bool" where
  "stacked scs sel tokens stack i \<longleftrightarrow> (\<forall>v \<in> set stack. (v, i) \<in> (leads_to scs sel tokens)\<^sup>+)"

lemma stacked_rtrancl:
  "stacked scs sel tokens stack i \<Longrightarrow> (i, j) \<in> (leads_to scs sel tokens)\<^sup>* \<Longrightarrow>
     stacked scs sel tokens stack j"
  by (auto simp: stacked_def)

lemma suitable_plus:
  assumes "m \<in> suitable sel tokens i"
  shows "(i, m) \<in> (leads_to scs sel tokens)\<^sup>+"
proof -
  have "fits sel tokens \<subseteq> leads_to scs sel tokens" by (simp add: leads_to_def)
  with assms show ?thesis by (auto simp: suitable_def intro: trancl_mono)
qed

lemma resolver_fails:
  "resolver_expand sample scs sel tokens stack plan st = (r, st') \<Longrightarrow> ready sel sample \<Longrightarrow>
     stacked scs sel tokens stack (pl_id plan) \<Longrightarrow>
     set (ordered_models plan) \<subseteq> suitable sel tokens (pl_id plan) \<Longrightarrow>
     (\<forall>e. r = Inl e \<longrightarrow> no_plan scs sel tokens e)"
  "resolver_targets sample scs sel tokens stack ts st = (q, st') \<Longrightarrow> ready sel sample \<Longrightarrow>
     (\<And>t. t \<in> set ts \<Longrightarrow> stacked scs sel tokens stack t) \<Longrightarrow>
     (\<forall>e. q = Inl e \<longrightarrow> no_plan scs sel tokens e)"
proof (induction sample scs sel tokens stack plan st and sample scs sel tokens stack ts st
    arbitrary: r st' and q st' rule: resolver_expand_resolver_targets.induct)
  case (1 sample scs sel tokens stack plan st)
  show ?case
  proof (cases "pl_id plan \<in> set stack")
    case True
    with 1(4) have "(pl_id plan, pl_id plan) \<in> (leads_to scs sel tokens)\<^sup>+" by (simp add: stacked_def)
    with True 1(2) show ?thesis
      by (auto simp: resolver_expand.simps [of sample] no_plan_def acyclic_def)
  next
    case False
    obtain q st1 where q: "resolver_targets sample scs sel tokens (stack @ [pl_id plan])
        (ordered_models plan) st = (q, st1)" by fastforce
    have "stacked scs sel tokens (stack @ [pl_id plan]) t" if "t \<in> set (ordered_models plan)" for t
    proof -
      have "(pl_id plan, t) \<in> (leads_to scs sel tokens)\<^sup>+"
        using that 1(5) by (intro suitable_plus) blast
      with 1(4) show ?thesis by (auto simp: stacked_def intro: trancl_trans)
    qed
    with 1(1) [OF False q 1(3)] 1(2) False q show ?thesis
      by (cases q) (auto simp: resolver_expand.simps [of sample])
  qed
next
  case (2 sample scs sel tokens stack st)
  then show ?case by auto
next
  case (3 sample scs sel tokens stack t ts st)
  show ?case
  proof (cases "resolve_model_alias_chain scs t")
    case (Inl e)
    with alias_failed_cycle [OF Inl] 3(4) show ?thesis by (auto simp: no_plan_def)
  next
    case r: (Inr n)
    then have n: "(t, n) \<in> (leads_to scs sel tokens)\<^sup>*" by (simp add: resolve_Inr_iff alias_leads)
    with 3(6) [of t] have st: "stacked scs sel tokens stack n" by (auto intro: stacked_rtrancl)
    obtain o1 st1 where s: "select_plan_for_model sample sel n tokens st = (o1, st1)" by fastforce
    have good: "plan_good sel tokens n o1"
      using select_rec_good(1) [of sample sel tokens "[]" n st o1 st1] s 3(5)
      by (simp add: select_plan_for_model_def above_def)
    consider (err) e where "o1 = Inl e" | (no) "o1 = Inr None" | (plan) p where "o1 = Inr (Some p)"
      by (metis old.sum.exhaust option.exhaust)
    then show ?thesis
    proof cases
      case err
      with r s 3(4) good show ?thesis by (auto simp: plan_good_def no_plan_def)
    next
      case no
      obtain q1 st2 where q1: "resolver_targets sample scs sel tokens stack ts st1 = (q1, st2)"
        by fastforce
      from 3(1) [OF r s [symmetric] no refl q1 3(5)] 3(6) r s no q1 3(4) show ?thesis
        by (cases q1) auto
    next
      case (plan p)
      obtain c st2 where c: "resolver_expand sample scs sel tokens stack p st1 = (c, st2)"
        by fastforce
      have id: "pl_id p = n" using select_plan_name s plan 3(5) by (auto simp: ready_def)
      have ce: "\<forall>e. c = Inl e \<longrightarrow> no_plan scs sel tokens e"
        using 3(2) [OF r s [symmetric] plan refl c 3(5)] st id good plan by (simp add: plan_good_def)
      show ?thesis
      proof (cases c)
        case (Inl e)
        with r s plan c 3(4) ce show ?thesis by auto
      next
        case (Inr p')
        obtain q1 st3 where q1: "resolver_targets sample scs sel tokens stack ts st2 = (q1, st3)"
          by fastforce
        from 3(3) [OF r s [symmetric] plan refl c [symmetric] Inr q1 3(5)] 3(6) r s plan c Inr q1 3(4)
        show ?thesis by (cases q1) auto
      qed
    qed
  qed
qed

lemma plan_for_model_good:
  assumes "ready sel sample"
  shows "case fst (plan_for_model sample scs sel m tokens st) of
           Inl e \<Rightarrow> no_plan scs sel tokens e
         | Inr (root, p) \<Rightarrow> resolve_model_alias_chain scs m = Inr root \<and>
             ordered_models p \<noteq> [] \<and> set (ordered_models p) \<subseteq> finals scs sel tokens {m}"
proof (cases "resolve_model_alias_chain scs m")
  case (Inl e)
  with alias_failed_cycle [OF Inl] show ?thesis by (simp add: plan_for_model_def no_plan_def)
next
  case r: (Inr root)
  then have root: "(m, root) \<in> (leads_to scs sel tokens)\<^sup>*" "alias_target scs root = None"
    by (simp_all add: resolve_Inr_iff alias_leads)
  obtain o1 st1 where s: "select_plan_for_model sample sel root tokens st = (o1, st1)" by fastforce
  have good: "plan_good sel tokens root o1"
    using select_rec_good(1) [of sample sel tokens "[]" root st o1 st1] s assms
    by (simp add: select_plan_for_model_def above_def)
  consider (err) e where "o1 = Inl e" | (no) "o1 = Inr None" | (plan) p where "o1 = Inr (Some p)"
    by (metis old.sum.exhaust option.exhaust)
  then show ?thesis
  proof cases
    case err
    with r s good show ?thesis by (simp add: plan_for_model_def plan_good_def no_plan_def)
  next
    case no
    then have "\<not> is_synthetic_model sel root" using good by (simp add: plan_good_def)
    then have again: "fst (select_plan_for_model sample sel root tokens st') = Inr None" for st'
      using select_rec_good(1) [of sample sel tokens "[]" root st'] assms
      by (cases "select_rec sample sel tokens [] root st'")
        (auto simp: select_plan_for_model_def above_def plan_good_def split: sum.splits option.splits)
    have "resolve_model_alias_chain scs root = Inr root" using root(2) by (simp add: resolve_Inr_iff)
    with r s no again [of st1] root \<open>\<not> is_synthetic_model sel root\<close> show ?thesis
      by (cases "select_plan_for_model sample sel root tokens st1")
        (auto simp: plan_for_model_def resolver_expand.simps [of sample] finals_def final_name_def)
  next
    case (plan p)
    obtain c st2 where c: "resolver_expand sample scs sel tokens [] p st1 = (c, st2)" by fastforce
    have id: "pl_id p = root" using select_plan_name s plan assms by (auto simp: ready_def)
    have sub: "set (ordered_models p) \<subseteq> suitable sel tokens root" "ordered_models p \<noteq> []"
      using good plan by (simp_all add: plan_good_def)
    show ?thesis
    proof (cases c)
      case (Inl e)
      with resolver_fails(1) [OF c assms] sub id r s plan c show ?thesis
        by (simp add: plan_for_model_def stacked_def)
    next
      case (Inr p')
      have "set (ordered_models p) \<subseteq> (leads_to scs sel tokens)\<^sup>* `` {m}"
        using rtrancl_trans [OF root(1) suitable_leads] sub(1) by blast
      with resolver_good(1) [OF c assms] Inr sub(2) finals_back r s plan c show ?thesis
        by (simp add: plan_for_model_def) blast
    qed
  qed
qed

section \<open>Properties\<close>

text \<open>
  Resolving an alias chain always ends.  It returns a name exactly when the aliases lead
  from the name asked for to it and it is no alias itself, and fails exactly when they lead
  into a cycle.
\<close>

theorem alias_chain_exact:
  "(resolve_model_alias_chain scs m = Inr r \<longleftrightarrow>
      (m, r) \<in> (alias_step scs)\<^sup>* \<and> alias_target scs r = None) \<and>
   ((\<exists>e. resolve_model_alias_chain scs m = Inl e) \<longleftrightarrow>
      (\<exists>c. (m, c) \<in> (alias_step scs)\<^sup>* \<and> (c, c) \<in> (alias_step scs)\<^sup>+))"
  using resolve_Inr_iff resolve_Inl_iff by blast

text \<open>
  C39: The validator reports no error about names exactly when the name spaces are unambiguous:
  identities, agents, models and aliases without duplicates, models, aliases and agent
  selectors apart, every agent selector of one agent, and every name resolvable.
\<close>

theorem names_validation_exact:
  "is_valid (validate_no_duplicate_ids cfg new_result) \<longleftrightarrow> names_unambiguous cfg"
  by (rule validate_names_iff)


definition example_names :: names_config where
  "example_names =
     \<lparr>nc_identities = [''alice''], nc_agents = [\<lparr>an_id = ''codex'', an_aliases = [''c'']\<rparr>],
      nc_channels = [''telegram''], nc_alloys = [example_alloy], nc_cascades = [example_cascade],
      nc_dispatchers = [example_dispatcher], nc_local_models = Some [''small''],
      nc_proxy = Some \<lparr>px_provider_models = [[''large'', ''openai/*'']], px_route_patterns = [''*'']\<rparr>,
      nc_shortcuts = [\<lparr>sc_alias = ''fast'', sc_model = ''default''\<rparr>,
                      \<lparr>sc_alias = ''medium'', sc_model = ''small''\<rparr>],
      nc_roles = [\<lparr>mr_role = ''default'', mr_model = ''mix''\<rparr>]\<rparr>"

lemma example_names_valid: "is_valid (validate_no_duplicate_ids example_names new_result)"
  by code_simp

lemma example_names_built:
  "from_gateway_configs (nc_alloys example_names) (nc_cascades example_names)
     (nc_dispatchers example_names) = Inr example_selectors"
  using example_built by (simp add: example_names_def)

lemma example_route:
  "fst (plan_for_model first_sampler (effective_model_shortcuts example_names) example_selectors
     ''fast'' 40 (initial_state example_selectors)) =
   Inr (''mix'', \<lparr>pl_id = ''mix'', pl_name = ''Mix'', ordered_models = [''large'', ''small'']\<rparr>)"
  by code_simp


end
