(* ===== verification/Provider_Routing.thy ===== *)
theory Provider_Routing
  imports Gateway_Telemetry Model_Resolver
begin

text \<open>
  Configuration, routing and access control of the model gateway: the table of providers
  (\<open>crates/calciforge/src/proxy/routing.rs\<close>), who may use which model (\<open>proxy/auth.rs\<close>), the
  keys of its interfaces (\<open>proxy/control_auth.rs\<close>) and its start (\<open>proxy/mod.rs\<close>).
\<close>

section \<open>Configuration\<close>

datatype credential_owner = OwnerCalciforge | OwnerProvider

record provider_config =
  pc_id :: string
  pc_backend_type :: string
  pc_url :: string
  pc_api_key :: "string option"
  pc_api_key_file :: "string option"
  pc_model_api_key :: "string option"
  pc_model_api_key_file :: "string option"
  pc_model_credential_owner :: credential_owner
  pc_models :: "string list"
  pc_strip_model_prefix :: "string option"
  pc_add_model_prefix :: "string option"
  pc_timeout_seconds :: "u64 option"
  pc_headers :: header_list
  pc_request_body :: json_map
  pc_retry :: "retry_config option"
  pc_fallback_on :: "failure_kind list option"
  pc_on_switch :: "string option"

record model_route =
  mr_pattern :: string
  mr_provider :: string

record proxy_agent =
  pa_id :: string
  pa_api_key :: "string option"
  pa_api_key_file :: "string option"
  pa_allowed_models :: "string list"
  pa_blocked_models :: "string list"

datatype access_policy = AllowAll | DenyAll | AllowConfigured

record proxy_config =
  px_enabled :: bool
  px_bind :: string
  px_api_key :: "string option"
  px_api_key_file :: "string option"
  px_discovery_key :: "string option"
  px_discovery_key_file :: "string option"
  px_control_key :: "string option"
  px_control_key_file :: "string option"
  px_timeout_seconds :: u64
  px_agents :: "proxy_agent list"
  px_default_policy :: access_policy
  px_backend_type :: string
  px_gateway_ui_url :: "string option"
  px_backend_api_key :: "string option"
  px_backend_url :: string
  px_headers :: "header_list option"
  px_backend_api_key_file :: "string option"
  px_providers :: "provider_config list"
  px_model_routes :: "model_route list"
  px_token_estimator :: estimator_config
  px_retry :: retry_config
  px_fallback_on :: "failure_kind list"
  px_observability :: "observability_config list"

definition default_fallback_on :: "failure_kind list" where
  "default_fallback_on = [FkTimeout, FkNetwork, FkRateLimited, FkServerError, FkContextExceeded]"

section \<open>Patterns and access\<close>

definition model_matches_pattern :: "string \<Rightarrow> string \<Rightarrow> bool" where
  "model_matches_pattern m pattern =
     (if pattern = ''*'' then True
      else (case strip_suffix ''/*'' pattern of
              Some p \<Rightarrow> prefix (p @ ''/'') m \<and> length (p @ ''/'') < length m
            | None \<Rightarrow> m = pattern))"

definition model_matches :: "string \<Rightarrow> string \<Rightarrow> bool" where
  "model_matches m pattern =
     (if pattern = ''*'' then True
      else if suffix ''/*'' pattern
      then (let p = (case strip_suffix ''/*'' pattern of Some p \<Rightarrow> p | None \<Rightarrow> pattern)
            in prefix (p @ ''/'') m \<and> length (p @ ''/'') < length m)
      else m = pattern)"

text \<open>The two matchers of the gateway agree.\<close>

lemma model_matches_same: "model_matches m pattern = model_matches_pattern m pattern"
  by (auto simp: model_matches_def model_matches_pattern_def strip_suffix_def Let_def)

definition check_model_access_for_names :: "proxy_config \<Rightarrow> string \<Rightarrow> string \<Rightarrow> string \<Rightarrow> bool" where
  "check_model_access_for_names cfg agent requested resolved =
     (case find (\<lambda>a. pa_id a = agent) (px_agents cfg) of
        Some a \<Rightarrow>
          if list_ex (\<lambda>p. model_matches requested p \<or> model_matches resolved p) (pa_blocked_models a)
          then False
          else if pa_allowed_models a = [] then True
          else list_ex (\<lambda>p. model_matches requested p \<or> model_matches resolved p) (pa_allowed_models a)
      | None \<Rightarrow>
          (case px_default_policy cfg of
             AllowAll \<Rightarrow> True | DenyAll \<Rightarrow> False | AllowConfigured \<Rightarrow> False))"

section \<open>Bearer keys\<close>

text \<open>\<open>splitn(2, char::is_whitespace)\<close>, where there are two parts.\<close>

fun split_ws :: "string \<Rightarrow> (string \<times> string) option" where
  "split_ws [] = None"
| "split_ws (c # s) =
     (case find (\<lambda>w. prefix w (c # s)) ws_seqs of
        Some w \<Rightarrow> Some ([], drop (length w) (c # s))
      | None \<Rightarrow> map_option (\<lambda>(a, b). (c # a, b)) (split_ws s))"

definition bearer_token :: "header_map \<Rightarrow> string option" where
  "bearer_token hs =
     (case header_get hs ''authorization'' of
        None \<Rightarrow> None
      | Some s \<Rightarrow>
     (case split_ws (trim s) of
        None \<Rightarrow> None
      | Some (scheme, rest) \<Rightarrow>
          let token = trim rest in
          if to_ascii_lowercase scheme = ''bearer'' \<and> token \<noteq> [] then Some token else None))"

record auth_error =
  ae_status :: nat
  ae_code :: string
  ae_message :: string

definition auth_error_of :: "nat \<Rightarrow> string \<Rightarrow> string \<Rightarrow> auth_error" where
  "auth_error_of status code m = \<lparr>ae_status = status, ae_code = code, ae_message = m\<rparr>"

definition require_bearer :: "string \<Rightarrow> header_map \<Rightarrow> string \<Rightarrow> string \<Rightarrow> auth_error + unit" where
  "require_bearer expected hs empty_code unauthorized =
     (if expected = []
      then Inl (auth_error_of 503 empty_code ''Secret API requires a non-empty configured key'')
      else if bearer_token hs = Some expected then Inr ()
      else Inl (auth_error_of 401 ''unauthorized'' unauthorized))"

definition require_secret_discovery_api_key :: "proxy_config \<Rightarrow> header_map \<Rightarrow> auth_error + unit" where
  "require_secret_discovery_api_key cfg hs =
     (case map_option trim (px_discovery_key cfg) of
        None \<Rightarrow> Inl (auth_error_of 503 ''secret_discovery_auth_not_configured''
                 ''Secret discovery API requires proxy.secret_discovery_api_key or proxy.secret_discovery_api_key_file'')
      | Some k \<Rightarrow> require_bearer k hs ''secret_discovery_auth_not_configured''
                 ''Invalid secret discovery API key'')"

definition require_control_api_key :: "proxy_config \<Rightarrow> header_map \<Rightarrow> auth_error + unit" where
  "require_control_api_key cfg hs =
     (case map_option trim (px_control_key cfg) of
        None \<Rightarrow> Inl (auth_error_of 503 ''control_api_auth_not_configured''
                 ''Secret control API requires proxy.secret_control_api_key or proxy.secret_control_api_key_file'')
      | Some k \<Rightarrow> require_bearer k hs ''control_api_auth_not_configured''
                 ''Invalid secret control API key'')"

text \<open>The privileged interfaces fail closed: without a key that is not blank nobody gets in.\<close>

lemma control_key_needed:
  assumes "require_control_api_key cfg hs = Inr ()"
  shows "\<exists>k. px_control_key cfg = Some k \<and> trim k \<noteq> [] \<and> bearer_token hs = Some (trim k)"
  using assms by (auto simp: require_control_api_key_def require_bearer_def split: option.splits if_splits)

lemma discovery_key_needed:
  assumes "require_secret_discovery_api_key cfg hs = Inr ()"
  shows "\<exists>k. px_discovery_key cfg = Some k \<and> trim k \<noteq> [] \<and> bearer_token hs = Some (trim k)"
  using assms
  by (auto simp: require_secret_discovery_api_key_def require_bearer_def split: option.splits if_splits)

section \<open>Providers\<close>

record provider_entry =
  pn_id :: string
  pn_patterns :: "string list"
  pn_gateway :: provider_adapter
  pn_on_switch :: "string option"
  pn_strip_model_prefix :: "string option"
  pn_add_model_prefix :: "string option"
  pn_fallback_on :: "failure_kind list"
  pn_request_body :: json_map

definition upstream_model_name :: "provider_entry \<Rightarrow> string \<Rightarrow> string" where
  "upstream_model_name e m =
     (let up = (case pn_strip_model_prefix e of
                  None \<Rightarrow> m
                | Some p \<Rightarrow> if p = [] then m
                            else (case strip_prefix p m of Some rest \<Rightarrow> rest | None \<Rightarrow> m))
      in case pn_add_model_prefix e of
           None \<Rightarrow> up
         | Some p \<Rightarrow> if p \<noteq> [] \<and> \<not> prefix p up then p @ up else up)"

definition find_provider :: "provider_entry list \<Rightarrow> string \<Rightarrow> provider_entry option" where
  "find_provider entries m = find (\<lambda>e. list_ex (model_matches_pattern m) (pn_patterns e)) entries"

datatype route_error =
    RequestBodyReserved string "string list"
  | UnsupportedBackendType string string
  | NotHttpCore string string
  | EmptyUrl string string
  | KeyFileUnreadable string string string
  | BackendFailed string backend_error
  | UnknownRouteProvider string string

type_synonym file_reader = "string \<Rightarrow> string + string"

definition validate_request_body_extensions :: "provider_config \<Rightarrow> route_error + unit" where
  "validate_request_body_extensions p =
     (let reserved = sort (filter is_reserved_chat_completion_field (map fst (pc_request_body p)))
      in if reserved \<noteq> [] then Inl (RequestBodyReserved (pc_id p) reserved) else Inr ())"

definition none_if_blank :: "string \<Rightarrow> string option" where
  "none_if_blank s = (if s = [] then None else Some s)"

definition resolve_provider_key ::
  "file_reader \<Rightarrow> string \<Rightarrow> string \<Rightarrow> string option \<Rightarrow> string option \<Rightarrow> route_error + string option" where
  "resolve_provider_key read i label inline file =
     (case file of
        Some f \<Rightarrow>
          (case read f of
             Inl e \<Rightarrow> Inl (KeyFileUnreadable label i e)
           | Inr raw \<Rightarrow> Inr (none_if_blank (trim raw)))
      | None \<Rightarrow>
          (case inline of
             None \<Rightarrow> Inr None
           | Some k \<Rightarrow> Inr (none_if_blank (trim k))))"

definition resolve_provider_api_key :: "file_reader \<Rightarrow> provider_config \<Rightarrow> route_error + string option" where
  "resolve_provider_api_key read p =
     res_bind (resolve_provider_key read (pc_id p) ''provider adapter API key'' (pc_api_key p)
         (pc_api_key_file p)) (\<lambda>endpoint.
     res_bind (resolve_provider_key read (pc_id p) ''model API key'' (pc_model_api_key p)
         (pc_model_api_key_file p)) (\<lambda>model_auth.
     Inr (case pc_model_credential_owner p of
            OwnerCalciforge \<Rightarrow> first_some model_auth endpoint
          | OwnerProvider \<Rightarrow> endpoint)))"

definition normalized_prefix :: "string option \<Rightarrow> string option" where
  "normalized_prefix x = Option.bind (map_option trim x) none_if_blank"

definition provider_fallback_on :: "proxy_config \<Rightarrow> provider_config \<Rightarrow> failure_kind list" where
  "provider_fallback_on cfg p =
     (case pc_fallback_on p of Some ks \<Rightarrow> ks | None \<Rightarrow> px_fallback_on cfg)"

text \<open>What the first loop stores for a provider, all of it under the provider's identifier.\<close>

record built_provider =
  bp_gateway :: provider_adapter
  bp_on_switch :: "string option"
  bp_strip :: "string option"
  bp_add :: "string option"
  bp_request_body :: json_map

definition build_provider ::
  "(string \<Rightarrow> string) \<Rightarrow> file_reader \<Rightarrow> proxy_config \<Rightarrow> u64 \<Rightarrow> provider_config \<Rightarrow>
   route_error + built_provider" where
  "build_provider uni read cfg default_timeout p =
     res_bind (validate_request_body_extensions p) (\<lambda>_.
     case gateway_type_parse uni (pc_backend_type p) of
       Inl _ \<Rightarrow> Inl (UnsupportedBackendType (pc_id p) (pc_backend_type p))
     | Inr t \<Rightarrow>
         if \<not> uses_openai_compatible_http_core t then Inl (NotHttpCore (pc_id p) (pc_backend_type p))
         else if trim (pc_url p) = [] then Inl (EmptyUrl (pc_id p) (pc_backend_type p))
         else res_bind (resolve_provider_api_key read p) (\<lambda>api_key.
           let timeout = (case pc_timeout_seconds p of Some n \<Rightarrow> n | None \<Rightarrow> default_timeout);
               retry = (case pc_retry p of Some r \<Rightarrow> r | None \<Rightarrow> px_retry cfg);
               hs = openai_compatible_headers t api_key retry
                      (if pc_headers p = [] then None else Some (pc_headers p))
           in case create_backend \<lparr>bc_mock = False, bc_url = Some (pc_url p), bc_api_key = api_key,
                     bc_headers = hs\<rparr> of
                Inl e \<Rightarrow> Inl (BackendFailed (pc_id p) e)
              | Inr backend \<Rightarrow>
                  (case create_gateway
                      \<lparr>ac_backend_type = t, ac_base_url = Some (pc_url p), ac_api_key = api_key,
                       ac_timeout_seconds = timeout, ac_headers = hs, ac_retry = retry,
                       ac_ui_url = None\<rparr> (Some backend) of
                     Inl e \<Rightarrow> Inl (BackendFailed (pc_id p) e)
                   | Inr gw \<Rightarrow> Inr
                       \<lparr>bp_gateway = gw, bp_on_switch = pc_on_switch p,
                        bp_strip = normalized_prefix (pc_strip_model_prefix p),
                        bp_add = normalized_prefix (pc_add_model_prefix p),
                        bp_request_body = btree_extend [] (pc_request_body p)\<rparr>)))"

fun build_providers ::
  "(string \<Rightarrow> string) \<Rightarrow> file_reader \<Rightarrow> proxy_config \<Rightarrow> u64 \<Rightarrow> provider_config list \<Rightarrow>
   (string \<rightharpoonup> built_provider) \<Rightarrow> route_error + (string \<rightharpoonup> built_provider)" where
  "build_providers uni read cfg dt [] built = Inr built"
| "build_providers uni read cfg dt (p # ps) built =
     res_bind (build_provider uni read cfg dt p)
       (\<lambda>b. build_providers uni read cfg dt ps (built(pc_id p \<mapsto> b)))"

definition entry_of :: "string \<Rightarrow> string list \<Rightarrow> failure_kind list \<Rightarrow> built_provider \<Rightarrow> provider_entry" where
  "entry_of i patterns fallback b =
     \<lparr>pn_id = i, pn_patterns = patterns, pn_gateway = bp_gateway b, pn_on_switch = bp_on_switch b,
      pn_strip_model_prefix = bp_strip b, pn_add_model_prefix = bp_add b,
      pn_fallback_on = fallback, pn_request_body = bp_request_body b\<rparr>"

definition route_entry ::
  "proxy_config \<Rightarrow> (string \<rightharpoonup> built_provider) \<Rightarrow> model_route \<Rightarrow> route_error + provider_entry" where
  "route_entry cfg built r =
     (case built (mr_provider r) of
        None \<Rightarrow> Inl (UnknownRouteProvider (mr_pattern r) (mr_provider r))
      | Some b \<Rightarrow> Inr (entry_of (mr_provider r) [mr_pattern r]
          (case find (\<lambda>p. pc_id p = mr_provider r) (px_providers cfg) of
             Some p \<Rightarrow> provider_fallback_on cfg p | None \<Rightarrow> px_fallback_on cfg) b))"

definition provider_entries ::
  "proxy_config \<Rightarrow> (string \<rightharpoonup> built_provider) \<Rightarrow> provider_entry list" where
  "provider_entries cfg built =
     List.map_filter (\<lambda>p. if pc_models p = [] then None
         else map_option (entry_of (pc_id p) (pc_models p) (provider_fallback_on cfg p))
           (built (pc_id p))) (px_providers cfg)"

definition build_provider_entries ::
  "(string \<Rightarrow> string) \<Rightarrow> file_reader \<Rightarrow> proxy_config \<Rightarrow> u64 \<Rightarrow> route_error + provider_entry list" where
  "build_provider_entries uni read cfg default_timeout =
     res_bind (build_providers uni read cfg default_timeout (px_providers cfg) Map.empty) (\<lambda>built.
     res_bind (try_map (route_entry cfg built) (px_model_routes cfg)) (\<lambda>routes.
     Inr (routes @ provider_entries cfg built)))"

section \<open>Start\<close>

definition normalize_api_key :: "string \<Rightarrow> string option" where
  "normalize_api_key s = none_if_blank (trim s)"

datatype start_error =
    NoProvider
  | RootUrlMissing string
  | BadBind string
  | ApiKeyFile string string
  | UnsupportedRoot string
  | RootFailed backend_error
  | RoutesFailed route_error
  | TelemetryFailed telemetry_error

definition read_key_file :: "file_reader \<Rightarrow> string \<Rightarrow> start_error + string option" where
  "read_key_file read f =
     (case read f of Inl e \<Rightarrow> Inl (ApiKeyFile f e) | Inr raw \<Rightarrow> Inr (normalize_api_key raw))"

definition resolve_api_key ::
  "file_reader \<Rightarrow> string option \<Rightarrow> string option \<Rightarrow> start_error + string option" where
  "resolve_api_key read key file =
     (case file of
        Some f \<Rightarrow> read_key_file read f
      | None \<Rightarrow> Inr (Option.bind key normalize_api_key))"

definition gateway_type_for_backend_type :: "(string \<Rightarrow> string) \<Rightarrow> string \<Rightarrow> gateway_type option" where
  "gateway_type_for_backend_type uni s =
     (case gateway_type_parse uni s of Inl _ \<Rightarrow> None | Inr t \<Rightarrow> Some t)"

definition backend_accepts_unlisted_models :: "(string \<Rightarrow> string) \<Rightarrow> string \<Rightarrow> bool" where
  "backend_accepts_unlisted_models uni s =
     (case gateway_type_for_backend_type uni s of None \<Rightarrow> False | Some t \<Rightarrow> requires_backend_url t)"

definition validate_explicit_provider_selection ::
  "(string \<Rightarrow> string) \<Rightarrow> proxy_config \<Rightarrow> start_error + unit" where
  "validate_explicit_provider_selection uni cfg =
     (if px_providers cfg = [] \<and> px_backend_type cfg = ''mock'' then Inl NoProvider
      else if backend_accepts_unlisted_models uni (px_backend_type cfg) \<and> trim (px_backend_url cfg) = []
      then Inl (RootUrlMissing (px_backend_type cfg))
      else Inr ())"

definition resolve_agent_key :: "file_reader \<Rightarrow> proxy_agent \<Rightarrow> start_error + proxy_agent" where
  "resolve_agent_key read a =
     (case pa_api_key_file a of
        Some f \<Rightarrow> res_bind (read_key_file read f) (\<lambda>k. Inr (a\<lparr>pa_api_key := k\<rparr>))
      | None \<Rightarrow> Inr (a\<lparr>pa_api_key := Option.bind (pa_api_key a) normalize_api_key\<rparr>))"

definition resolve_proxy_agent_api_keys :: "file_reader \<Rightarrow> proxy_config \<Rightarrow> start_error + proxy_config" where
  "resolve_proxy_agent_api_keys read cfg =
     res_bind (try_map (resolve_agent_key read) (px_agents cfg))
       (\<lambda>agents. Inr (cfg\<lparr>px_agents := agents\<rparr>))"

definition resolve_keys :: "file_reader \<Rightarrow> proxy_config \<Rightarrow> start_error + proxy_config" where
  "resolve_keys read cfg =
     res_bind (resolve_api_key read (px_api_key cfg) (px_api_key_file cfg)) (\<lambda>k.
     res_bind (resolve_api_key read (px_discovery_key cfg) (px_discovery_key_file cfg)) (\<lambda>d.
     res_bind (resolve_api_key read (px_control_key cfg) (px_control_key_file cfg)) (\<lambda>c.
     resolve_proxy_agent_api_keys read
       (cfg\<lparr>px_api_key := k, px_discovery_key := d, px_control_key := c\<rparr>))))"

definition root_gateway ::
  "gateway_type \<Rightarrow> proxy_config \<Rightarrow> string option \<Rightarrow> start_error + provider_adapter" where
  "root_gateway t cfg key =
     (let bc = (if t = GwMock
                then \<lparr>bc_mock = True, bc_url = Some ''http://localhost:8081'', bc_api_key = None,
                      bc_headers = px_headers cfg\<rparr>
                else \<lparr>bc_mock = False, bc_url = Some (px_backend_url cfg), bc_api_key = key,
                      bc_headers = openai_compatible_headers t key (px_retry cfg) (px_headers cfg)\<rparr>)
      in case create_backend bc of
           Inl e \<Rightarrow> Inl (RootFailed e)
         | Inr backend \<Rightarrow>
             (case create_gateway
                 \<lparr>ac_backend_type = t, ac_base_url = Some (px_backend_url cfg),
                  ac_api_key = Some (str_or_empty key), ac_timeout_seconds = px_timeout_seconds cfg,
                  ac_headers = px_headers cfg, ac_retry = px_retry cfg,
                  ac_ui_url = px_gateway_ui_url cfg\<rparr> (Some backend) of
                Inl e \<Rightarrow> Inl (RootFailed e)
              | Inr gw \<Rightarrow> Inr gw))"

record proxy_setup =
  ps_config :: proxy_config
  ps_gateway :: provider_adapter
  ps_providers :: "provider_entry list"
  ps_telemetry :: "telemetry_sink list"

text \<open>
  \<open>start_proxy_server\<close> up to the router: \<^const>\<open>None\<close> where the gateway is disabled.
\<close>

definition start_proxy ::
  "(string \<Rightarrow> string) \<Rightarrow> file_reader \<Rightarrow> header_rules \<Rightarrow> (string \<Rightarrow> bool) \<Rightarrow> proxy_config \<Rightarrow>
   start_error + proxy_setup option" where
  "start_proxy uni read hr addr_ok cfg =
     (if \<not> px_enabled cfg then Inr None
      else res_bind (validate_explicit_provider_selection uni cfg) (\<lambda>_.
        if \<not> addr_ok (px_bind cfg) then Inl (BadBind (px_bind cfg))
        else res_bind (resolve_keys read cfg) (\<lambda>cfg1.
        res_bind (resolve_api_key read (px_backend_api_key cfg1) (px_backend_api_key_file cfg1)) (\<lambda>key.
        case gateway_type_for_backend_type uni (px_backend_type cfg1) of
          None \<Rightarrow> Inl (UnsupportedRoot (px_backend_type cfg1))
        | Some t \<Rightarrow>
            res_bind (root_gateway t cfg1 key) (\<lambda>gw.
            case build_provider_entries uni read cfg1 (px_timeout_seconds cfg1) of
              Inl e \<Rightarrow> Inl (RoutesFailed e)
            | Inr entries \<Rightarrow>
                (case telemetry_from_config hr (px_observability cfg1) of
                   Inl e \<Rightarrow> Inl (TelemetryFailed e)
                 | Inr sinks \<Rightarrow> Inr (Some
                     \<lparr>ps_config = cfg1, ps_gateway = gw, ps_providers = entries,
                      ps_telemetry = sinks\<rparr>)))))))"

end
