(* ===== verification/Model_Gateway.thy ===== *)
theory Model_Gateway
  imports Provider_Routing
begin

text \<open>
  The chat-completion handler of the model gateway
  (\<open>crates/calciforge/src/proxy/handlers.rs\<close>): authentication, aliases, access, the plan of
  concrete models, and the attempts at providers with fallback.
\<close>

section \<open>Replies\<close>

datatype gateway_reply =
    JsonReply nat header_list json
  | ChatReply chat_response
  | SseReply "json list"
  | RedirectReply string
  | BytesReply nat header_list string

definition api_error_headers :: "nat \<Rightarrow> string \<Rightarrow> header_list" where
  "api_error_headers status error_type =
     (''X-Calciforge-Policy'', sanitize_header_value error_type) #
     (if status = 403 \<or> status = 401
      then [(''X-Calciforge-Blocked'', ''true''),
            (''X-Calciforge-Operator-Approval'', ''config_required''),
            (''X-Calciforge-Override-Supported'', ''none'')]
      else [])"

definition api_error :: "nat \<Rightarrow> string \<Rightarrow> string \<Rightarrow> string option \<Rightarrow> gateway_reply" where
  "api_error status error_type m param =
     JsonReply status (api_error_headers status error_type)
       (json_struct [(''error'',
          json_struct ((''message'', JStr m) # (''type'', JStr error_type) #
            some_field ''param'' JStr param @ [(''code'', JStr error_type)]))])"

definition chunk_json ::
  "chat_response \<Rightarrow> string \<Rightarrow> json_map \<Rightarrow> string option \<Rightarrow> json" where
  "chunk_json resp m delta finish =
     json_struct
       [(''id'', JStr (rp_id resp)), (''object'', JStr ''chat.completion.chunk''),
        (''created'', JNum (show_nat (unat (rp_created resp)))), (''model'', JStr m),
        (''system_fingerprint'', JNull),
        (''choices'', JArr [json_struct
           [(''index'', JNum ''0''), (''delta'', json_struct delta),
            (''finish_reason'', json_opt JStr finish), (''logprobs'', JNull)]])]"

definition first_choice :: "chat_response \<Rightarrow> choice option" where
  "first_choice resp = (case rp_choices resp of [] \<Rightarrow> None | c # _ \<Rightarrow> Some c)"

text \<open>The data of the events in front of the final \<open>[DONE]\<close>.\<close>

definition streaming_response :: "chat_response \<Rightarrow> string \<Rightarrow> gateway_reply" where
  "streaming_response resp m =
     SseReply
       [chunk_json resp m [(''role'', JStr ''assistant'')] None,
        chunk_json resp m
          (some_field ''content'' JStr
             (Option.bind (first_choice resp) (\<lambda>c. message_text (ch_message c))) @
           some_field ''tool_calls'' (\<lambda>cs. JArr (map tool_call_json cs))
             (Option.bind (first_choice resp) (\<lambda>c. cm_tool_calls (ch_message c)))) None,
        chunk_json resp m [] (Option.bind (first_choice resp) ch_finish_reason)]"

section \<open>State\<close>

record switch_run =
  sw_script :: string
  sw_provider :: string
  sw_model :: string
  sw_upstream :: string
  sw_previous :: string

datatype script_result =
    ScriptSpawnFailed string
  | ScriptWaitFailed string
  | ScriptExited bool string
  | ScriptTimedOut
  | ScriptTaskFailed string

text \<open>
  The log of the gateway, newest first: scripts run, calls of an adapter with their results,
  what the telemetry sinks are given, and the outcome of each attempt at a model.
\<close>

datatype gateway_event =
    GeScript switch_run bool
  | GeCall "string option" string chat_request "backend_error + chat_response"
  | GeTelemetry telemetry_attempt telemetry_outcome
  | GeTried string "backend_error + chat_response"

record gateway_state =
  gs_trace :: "provider_event list"
  gs_log :: "gateway_event list"
  gs_selectors :: sel_state
  gs_switched :: "string \<rightharpoonup> string"

record gateway_setup =
  gt_uni :: "string \<Rightarrow> string"
  gt_proxy :: proxy_setup
  gt_shortcuts :: "shortcut list"
  gt_selectors :: selectors
  gt_sample :: sampler
  gt_world :: provider_world
  gt_estimator :: estimator_world
  gt_script :: "gateway_event list \<Rightarrow> switch_run \<Rightarrow> script_result"

abbreviation gt_config :: "gateway_setup \<Rightarrow> proxy_config" where
  "gt_config G \<equiv> ps_config (gt_proxy G)"

abbreviation gt_providers :: "gateway_setup \<Rightarrow> provider_entry list" where
  "gt_providers G \<equiv> ps_providers (gt_proxy G)"

definition add_event :: "gateway_event \<Rightarrow> gateway_state \<Rightarrow> gateway_state" where
  "add_event e s = s\<lparr>gs_log := e # gs_log s\<rparr>"

section \<open>Authentication\<close>

text \<open>The answer where the key is missing or wrong; a blank key switches the check off.\<close>

definition require_api_key :: "proxy_config \<Rightarrow> header_map \<Rightarrow> gateway_reply option" where
  "require_api_key cfg hs =
     (case px_api_key cfg of
        None \<Rightarrow> None
      | Some k \<Rightarrow>
          if trim k = [] then None
          else if bearer_token hs = Some (trim k) then None
          else Some (api_error 401 ''unauthorized'' ''Invalid API key'' None))"

definition agent_of :: "header_map \<Rightarrow> string" where
  "agent_of hs = (case header_get hs ''x-agent-id'' of Some a \<Rightarrow> a | None \<Rightarrow> ''anonymous'')"

section \<open>An attempt at a provider\<close>

definition PROVIDER_ON_SWITCH_TIMEOUT :: nat where
  "PROVIDER_ON_SWITCH_TIMEOUT = 120"

definition script_outcome :: "script_result \<Rightarrow> string + unit" where
  "script_outcome r =
     (case r of
        ScriptSpawnFailed e \<Rightarrow> Inl (''provider on_switch failed: provider on_switch spawn failed: '' @ e)
      | ScriptWaitFailed e \<Rightarrow> Inl (''provider on_switch failed: provider on_switch wait failed: '' @ e)
      | ScriptExited ok status \<Rightarrow>
          if ok then Inr ()
          else Inl (''provider on_switch failed: provider on_switch exited with status '' @ status)
      | ScriptTimedOut \<Rightarrow>
          Inl (''provider on_switch failed: provider on_switch exceeded '' @
               show_nat PROVIDER_ON_SWITCH_TIMEOUT @ ''s timeout'')
      | ScriptTaskFailed e \<Rightarrow> Inl (''provider on_switch task failed: '' @ e))"

definition switch_script :: "provider_entry \<Rightarrow> string option" where
  "switch_script e = Option.bind (map_option trim (pn_on_switch e)) none_if_blank"

definition ensure_provider_model_ready ::
  "gateway_setup \<Rightarrow> provider_entry \<Rightarrow> string \<Rightarrow> string \<Rightarrow> (gateway_state, string, unit) act" where
  "ensure_provider_model_ready G e m up s =
     (case switch_script e of
        None \<Rightarrow> (Inr (), s)
      | Some script \<Rightarrow>
          if gs_switched s (pn_id e) = Some m then (Inr (), s)
          else
            let run = \<lparr>sw_script = script, sw_provider = pn_id e, sw_model = m, sw_upstream = up,
                       sw_previous = str_or_empty (gs_switched s (pn_id e))\<rparr>;
                r = script_outcome (gt_script G (gs_log s) run);
                s1 = add_event (GeScript run (is_ok r)) s
            in case r of
                 Inl err \<Rightarrow> (Inl err, s1)
               | Inr _ \<Rightarrow> (Inr (), s1\<lparr>gs_switched := (gs_switched s1)(pn_id e \<mapsto> m)\<rparr>))"

definition root_mock_is_non_serving_fallback :: "gateway_setup \<Rightarrow> bool" where
  "root_mock_is_non_serving_fallback G \<longleftrightarrow>
     px_backend_type (gt_config G) = ''mock'' \<and> gt_providers G \<noteq> []"

definition upstream_request_for :: "provider_entry option \<Rightarrow> string \<Rightarrow> chat_request \<Rightarrow> chat_request" where
  "upstream_request_for entry m req =
     (case entry of
        None \<Rightarrow> req\<lparr>cr_model := m\<rparr>
      | Some e \<Rightarrow> req\<lparr>cr_model := upstream_model_name e m,
                     cr_extra_body := btree_extend (cr_extra_body req) (pn_request_body e)\<rparr>)"

text \<open>Whose request it is: the agent, the model it asked for, and the root of the plan.\<close>

record request_context =
  qx_agent :: string
  qx_requested :: string
  qx_root :: string

definition telemetry_of ::
  "request_context \<Rightarrow> provider_entry option \<Rightarrow> provider_adapter \<Rightarrow> string \<Rightarrow> chat_request \<Rightarrow>
   chat_request \<Rightarrow> telemetry_attempt" where
  "telemetry_of qx entry adapter m req up =
     \<lparr>tm_agent = qx_agent qx, tm_requested_model = qx_requested qx, tm_root_model = qx_root qx,
      tm_concrete_model = m, tm_upstream_model = cr_model up, tm_provider_id = map_option pn_id entry,
      tm_engine = ei_id (adapter_engine_info adapter), tm_stream = should_stream req,
      tm_tools = (case cr_tools req of Some ts \<Rightarrow> ts \<noteq> [] | None \<Rightarrow> False),
      tm_message_count = length (cr_messages req)\<rparr>"

definition call_adapter ::
  "gateway_setup \<Rightarrow> request_context \<Rightarrow> provider_entry option \<Rightarrow> string \<Rightarrow> chat_request \<Rightarrow>
   (gateway_state, backend_error, chat_response) act" where
  "call_adapter G qx entry m req s =
     (let adapter = (case entry of Some e \<Rightarrow> pn_gateway e | None \<Rightarrow> ps_gateway (gt_proxy G));
          up = upstream_request_for entry m req;
          (r, tr) = adapter_chat (gt_world G) adapter up (gs_trace s);
          s1 = add_event (GeCall (map_option pn_id entry) m up r) (s\<lparr>gs_trace := tr\<rparr>)
      in (r, add_event (GeTelemetry (telemetry_of qx entry adapter m req up) (telemetry_result r)) s1))"

definition try_provider ::
  "gateway_setup \<Rightarrow> request_context \<Rightarrow> string \<Rightarrow> chat_request \<Rightarrow>
   (gateway_state, backend_error, chat_response) act" where
  "try_provider G qx m req s =
     (case find_provider (gt_providers G) m of
        None \<Rightarrow>
          if root_mock_is_non_serving_fallback G
          then (Inl (BeConfig (''model '' @ [CHR 0x27] @ m @ [CHR 0x27] @
                  '' did not match any explicit provider adapter; root mock adapter is non-serving'')), s)
          else call_adapter G qx None m req s
      | Some e \<Rightarrow>
          (case ensure_provider_model_ready G e m (upstream_model_name e m) s of
             (Inl err, s1) \<Rightarrow> (Inl (BeConfig err), s1)
           | (Inr _, s1) \<Rightarrow> call_adapter G qx (Some e) m req s1))"

section \<open>Fallback\<close>

definition fallback_policy_for_model :: "gateway_setup \<Rightarrow> string \<Rightarrow> failure_kind list" where
  "fallback_policy_for_model G m =
     (case find_provider (gt_providers G) m of
        Some e \<Rightarrow> pn_fallback_on e | None \<Rightarrow> px_fallback_on (gt_config G))"

definition note_attempt :: "gateway_setup \<Rightarrow> string \<Rightarrow> string \<Rightarrow> bool \<Rightarrow> gateway_state \<Rightarrow> gateway_state" where
  "note_attempt G plan_id m ok s =
     s\<lparr>gs_selectors := record_attempt (gt_selectors G) plan_id m ok (gs_selectors s)\<rparr>"

fun route_loop ::
  "gateway_setup \<Rightarrow> request_context \<Rightarrow> string \<Rightarrow> chat_request \<Rightarrow> string list \<Rightarrow>
   (gateway_state, string, chat_response) act" where
  "route_loop G qx plan_id req [] s = (Inl ''No constituents available'', s)"
| "route_loop G qx plan_id req (m # ms) s =
     (case try_provider G qx m req (note_attempt G plan_id m True s) of
        (Inr resp, s1) \<Rightarrow> (Inr resp, add_event (GeTried m (Inr resp)) s1)
      | (Inl e, s1) \<Rightarrow>
          let s2 = note_attempt G plan_id m False (add_event (GeTried m (Inl e)) s1) in
          if ms \<noteq> [] \<and> backend_failure_kind e \<in> set (fallback_policy_for_model G m)
          then route_loop G qx plan_id req ms s2
          else (Inl (''Gateway error: '' @ backend_error_text e), s2))"

section \<open>The handler\<close>

definition KNOWN_MODELS :: "string list" where
  "KNOWN_MODELS =
     [''deepseek-chat'', ''deepseek-reasoner'', ''gpt-4'', ''gpt-4o'', ''claude-3-5-sonnet'',
      ''claude-3-opus'', ''kimi-free'', ''kimi/kimi-for-coding'', ''kimi-for-coding'']"

definition is_valid_model :: "gateway_setup \<Rightarrow> string \<Rightarrow> bool" where
  "is_valid_model G m \<longleftrightarrow>
     find_provider (gt_providers G) m \<noteq> None \<or>
     backend_accepts_unlisted_models (gt_uni G) (px_backend_type (gt_config G)) \<or>
     is_synthetic_model (gt_selectors G) m \<or> m \<in> set KNOWN_MODELS"

definition model_plan_error_response :: "string \<Rightarrow> string \<times> string option" where
  "model_plan_error_response e =
     (if str_contains ''shortcut cycle'' e then (''invalid_model_alias'', Some ''model'')
      else if str_contains ''synthetic model cycle'' e then (''invalid_model_plan'', Some ''model'')
      else if str_contains ''context window'' e \<or> str_contains ''estimated request size'' e
      then (''context_window_exceeded'', Some ''messages'')
      else (''invalid_model_plan'', Some ''model''))"

definition access_denied :: "string \<Rightarrow> string \<Rightarrow> gateway_reply" where
  "access_denied agent m =
     api_error 403 ''model_access_denied''
       (''Agent '' @ [CHR 0x27] @ agent @ [CHR 0x27] @ '' does not have access to model '' @
        [CHR 0x27] @ m @ [CHR 0x27]) None"

definition unavailable :: gateway_reply where
  "unavailable =
     api_error 503 ''service_unavailable''
       ''The requested model is temporarily unavailable. Please try again later.'' None"

definition plan_reply :: "chat_request \<Rightarrow> string \<Rightarrow> string + chat_response \<Rightarrow> gateway_reply" where
  "plan_reply req name r =
     (case r of
        Inl _ \<Rightarrow> unavailable
      | Inr resp \<Rightarrow> if should_stream req then streaming_response resp name else ChatReply resp)"

definition serve_plan ::
  "gateway_setup \<Rightarrow> string \<Rightarrow> string \<Rightarrow> chat_request \<Rightarrow> string \<times> alloy_plan \<Rightarrow> gateway_state \<Rightarrow>
   gateway_reply \<times> gateway_state" where
  "serve_plan G agent requested req = (\<lambda>(root, plan) s.
     if list_ex (\<lambda>m. \<not> check_model_access_for_names (gt_config G) agent root m) (ordered_models plan)
     then (access_denied agent requested, s)
     else (case route_loop G \<lparr>qx_agent = agent, qx_requested = requested, qx_root = root\<rparr> (pl_id plan)
                  req (ordered_models plan) s of
             (r, s') \<Rightarrow> (plan_reply req (pl_name plan) r, s')))"

definition chat_completions ::
  "gateway_setup \<Rightarrow> header_map \<Rightarrow> chat_request \<Rightarrow> gateway_state \<Rightarrow> gateway_reply \<times> gateway_state" where
  "chat_completions G hs req0 s =
     (case require_api_key (gt_config G) hs of
        Some refusal \<Rightarrow> (refusal, s)
      | None \<Rightarrow>
          let agent = agent_of hs; requested = cr_model req0 in
          (case resolve_model_alias_chain (gt_shortcuts G) requested of
             Inl e \<Rightarrow> (api_error 400 ''invalid_model_alias'' (alias_error_text e) (Some ''model''), s)
           | Inr resolved \<Rightarrow>
               let req = req0\<lparr>cr_model := resolved\<rparr> in
               if \<not> check_model_access_for_names (gt_config G) agent requested resolved
               then (access_denied agent requested, s)
               else if \<not> is_valid_model G resolved
               then (api_error 400 ''invalid_model''
                       (''Model '' @ [CHR 0x27] @ resolved @ [CHR 0x27] @ '' is not available'')
                       (Some ''model''), s)
               else (case plan_for_model (gt_sample G) (gt_shortcuts G) (gt_selectors G) resolved
                         (estimate_request (gt_estimator G) req (px_token_estimator (gt_config G)))
                         (gs_selectors s) of
                       (Inl e, st) \<Rightarrow>
                         (case model_plan_error_response (resolver_error_text e) of
                            (code, param) \<Rightarrow>
                              (api_error 400 code (resolver_error_text e) param, s\<lparr>gs_selectors := st\<rparr>))
                     | (Inr planned, st) \<Rightarrow>
                         serve_plan G agent requested req planned (s\<lparr>gs_selectors := st\<rparr>))))"

end
