(* ===== verification/Gateway_Chat.thy ===== *)
theory Gateway_Chat
  imports Model_Gateway
begin

text \<open>
  What the chat-completion handler does to the outside: every request sent to a provider is for
  an authenticated caller that may use the model, carries the request it should, and fallback
  moves through the plan exactly as the policy says.
\<close>

section \<open>What one call of an adapter sends\<close>

fun adapter_http :: "provider_world \<Rightarrow> provider_adapter \<Rightarrow> chat_request \<Rightarrow> http_out option" where
  "adapter_http w (MockGateway c) req = None"
| "adapter_http w (BuiltinHttpGateway c b) req =
     (case b of HttpBackend hb \<Rightarrow> Some (chat_http_request w hb req) | MockBackend \<Rightarrow> None)"
| "adapter_http w (LoggingGateway c inner) req = adapter_http w inner (normalize_request_model req)"

fun http_event :: "provider_event \<Rightarrow> http_out option" where
  "http_event (PeHttp out _) = Some out"
| "http_event (PeSlept _) = None"

definition sends_only :: "http_out option \<Rightarrow> nat \<Rightarrow> provider_event list \<Rightarrow> bool" where
  "sends_only out n new \<longleftrightarrow>
     (\<forall>o' \<in> set (List.map_filter http_event new). Some o' = out) \<and>
     length (List.map_filter http_event new) \<le> n"

lemma sends_only_Nil [simp]: "sends_only out n []"
  by (simp add: sends_only_def map_filter_simps)

lemma sends_only_append:
  "sends_only out n a \<Longrightarrow> sends_only out k b \<Longrightarrow> sends_only out (n + k) (a @ b)"
  by (auto simp: sends_only_def map_filter_def)

lemma sends_only_slept: "sends_only out n new \<Longrightarrow> sends_only out n (PeSlept d # new)"
  by (simp add: sends_only_def map_filter_simps)

lemma sends_only_mono: "sends_only out n new \<Longrightarrow> n \<le> k \<Longrightarrow> sends_only out k new"
  by (auto simp: sends_only_def)

definition action_sends :: "'a provider_act \<Rightarrow> http_out option \<Rightarrow> nat \<Rightarrow> bool" where
  "action_sends call out n \<longleftrightarrow>
     (\<forall>tr r tr'. call tr = (r, tr') \<longrightarrow> (\<exists>new. tr' = new @ tr \<and> sends_only out n new))"

lemma action_sendsI:
  "(\<And>tr r tr'. call tr = (r, tr') \<Longrightarrow> \<exists>new. tr' = new @ tr \<and> sends_only out n new) \<Longrightarrow>
   action_sends call out n"
  by (simp add: action_sends_def)

lemma action_sendsD:
  "action_sends call out n \<Longrightarrow> call tr = (r, tr') \<Longrightarrow> \<exists>new. tr' = new @ tr \<and> sends_only out n new"
  by (simp add: action_sends_def)

text \<open>The retry loop calls at most once more for every retry that is left.\<close>

definition tries_left :: "gateway_type \<Rightarrow> retry_config \<Rightarrow> u32 \<Rightarrow> nat" where
  "tries_left t policy attempt =
     (if delegates_retry_to_adapter t \<or> \<not> rc_enabled policy then 1
      else unat (rc_max_retries policy) - unat attempt + 1)"

lemma tries_left_retry:
  assumes "should_retry_locally t policy e attempt"
  shows "tries_left t policy (attempt + 1) + 1 \<le> tries_left t policy attempt"
  using assms attempts_left [of attempt "rc_max_retries policy"]
  by (auto simp: tries_left_def should_retry_locally_def split: if_splits)

lemma retry_loop_sends:
  "action_sends call out n \<Longrightarrow> retry_loop w t policy call attempt tr = (r, tr') \<Longrightarrow>
     \<exists>new. tr' = new @ tr \<and> sends_only out (tries_left t policy attempt * n) new"
proof (induction w t policy call attempt tr arbitrary: r tr' rule: retry_loop.induct)
  case (1 w t policy call attempt tr)
  obtain r1 tr1 where c: "call tr = (r1, tr1)" by fastforce
  from action_sendsD [OF 1(2) c] obtain new1 where n1: "tr1 = new1 @ tr" "sends_only out n new1"
    by blast
  show ?case
  proof (cases "\<exists>e. r1 = Inl e \<and> should_retry_locally t policy e attempt")
    case True
    then obtain e where e: "r1 = Inl e" "should_retry_locally t policy e attempt" by blast
    let ?slept = "PeSlept (retry_delay policy attempt (pw_jitter w tr1))"
    have "retry_loop w t policy call (attempt + 1) (?slept # tr1) = (r, tr')"
      using 1(3) c e by (simp add: retry_loop.simps [of w t policy call attempt])
    from 1(1) [OF c [symmetric] e 1(2) this] obtain new2 where
      n2: "tr' = new2 @ ?slept # tr1" "sends_only out (tries_left t policy (attempt + 1) * n) new2"
      by blast
    have "tries_left t policy (attempt + 1) * n + n \<le> tries_left t policy attempt * n"
      using mult_le_mono1 [OF tries_left_retry [OF e(2)], of n] by (simp add: algebra_simps)
    with sends_only_append [OF n2(2) sends_only_slept [OF n1(2)]] sends_only_mono
    have "sends_only out (tries_left t policy attempt * n) (new2 @ ?slept # new1)" by blast
    then show ?thesis using n1(1) n2(1) by auto
  next
    case False
    then have "tr' = tr1"
      using 1(3) c by (auto simp: retry_loop.simps [of w t policy call attempt] split: sum.splits if_splits)
    moreover have "n \<le> tries_left t policy attempt * n" by (simp add: tries_left_def)
    ultimately show ?thesis using n1 sends_only_mono by blast
  qed
qed

fun http_limit :: "provider_adapter \<Rightarrow> nat" where
  "http_limit (MockGateway c) = 0"
| "http_limit (BuiltinHttpGateway c b) = 1"
| "http_limit (LoggingGateway c inner) =
     tries_left (adapter_type inner) (ac_retry c) 0 * http_limit inner"

lemma adapter_chat_sends: "action_sends (adapter_chat w ad req) (adapter_http w ad req) (http_limit ad)"
proof (induction ad arbitrary: req)
  case (MockGateway c)
  then show ?case by (auto simp: action_sends_def)
next
  case (BuiltinHttpGateway c b)
  then show ?case
    by (cases b) (auto simp: backend_chat_def send_chat_completion_request_def act_bind_def http_send_def
        act_lift_def Let_def sends_only_def map_filter_simps action_sends_def
        split: prod.splits sum.splits)
next
  case (LoggingGateway c inner)
  show ?case
  proof (rule action_sendsI)
    fix tr r tr'
    assume run: "adapter_chat w (LoggingGateway c inner) req tr = (r, tr')"
    obtain q tr1 where q: "retry_loop w (adapter_type inner) (ac_retry c)
        (adapter_chat w inner (normalize_request_model req)) 0 tr = (q, tr1)"
      by fastforce
    with run have "tr' = tr1" by (auto simp: act_bind_def act_return_def split: sum.splits)
    with retry_loop_sends [OF LoggingGateway.IH q]
    show "\<exists>new. tr' = new @ tr \<and> sends_only (adapter_http w (LoggingGateway c inner) req)
        (http_limit (LoggingGateway c inner)) new" by simp
  qed
qed

section \<open>What a run adds\<close>

text \<open>
  From one state to a later one: the new events satisfy \<open>P\<close>, and what was sent meanwhile was
  sent by an adapter call among them.
\<close>

definition adapter_for :: "gateway_setup \<Rightarrow> string \<Rightarrow> provider_adapter" where
  "adapter_for G m =
     (case find_provider (gt_providers G) m of
        Some e \<Rightarrow> pn_gateway e | None \<Rightarrow> ps_gateway (gt_proxy G))"

definition sent_by :: "gateway_setup \<Rightarrow> gateway_event list \<Rightarrow> http_out \<Rightarrow> bool" where
  "sent_by G new out \<longleftrightarrow>
     (\<exists>pid m up r. GeCall pid m up r \<in> set new \<and>
        adapter_http (gt_world G) (adapter_for G m) up = Some out)"

definition grows ::
  "gateway_setup \<Rightarrow> (gateway_event \<Rightarrow> bool) \<Rightarrow> gateway_state \<Rightarrow> gateway_state \<Rightarrow> bool" where
  "grows G P s s' \<longleftrightarrow>
     (\<exists>new tr. gs_log s' = new @ gs_log s \<and> gs_trace s' = tr @ gs_trace s \<and> list_all P new \<and>
        (\<forall>out \<in> set (List.map_filter http_event tr). sent_by G new out))"

lemma sent_by_append: "sent_by G (a @ b) out \<longleftrightarrow> sent_by G a out \<or> sent_by G b out"
  unfolding sent_by_def set_append by blast

lemma http_events_append:
  "List.map_filter http_event (a @ b) = List.map_filter http_event a @ List.map_filter http_event b"
  by (simp add: map_filter_def)

lemma grows_trans: "grows G P s s1 \<Longrightarrow> grows G P s1 s2 \<Longrightarrow> grows G P s s2"
  unfolding grows_def
proof (elim exE conjE, goal_cases)
  case (1 a t b u)
  then show ?case
    by (intro exI [of _ "t @ a"] exI [of _ "u @ b"])
      (auto simp: http_events_append sent_by_append simp del: map_filter_simps)
qed

lemma grows_same: "gs_log s' = gs_log s \<Longrightarrow> gs_trace s' = gs_trace s \<Longrightarrow> grows G P s s'"
  by (auto simp: grows_def map_filter_simps)

lemma grows_event: "P e \<Longrightarrow> grows G P s (add_event e s)"
  unfolding grows_def
  by (intro exI [of _ "[e]"] exI [of _ "[]"]) (simp add: add_event_def map_filter_simps)

lemma grows_note: "grows G P s s' \<Longrightarrow> grows G P (note_attempt G i m ok s) s'"
  "grows G P s s' \<Longrightarrow> grows G P s (note_attempt G i m ok s')"
  by (simp_all add: grows_def note_attempt_def)

lemma grows_selectors: "grows G P (s\<lparr>gs_selectors := st\<rparr>) s' \<longleftrightarrow> grows G P s s'"
  by (simp add: grows_def)

definition not_call :: "gateway_event \<Rightarrow> bool" where
  "not_call e \<longleftrightarrow> (\<forall>pid m up r. e \<noteq> GeCall pid m up r)"

lemma not_call_simps [simp]:
  "not_call (GeScript a b)" "not_call (GeTelemetry c d)" "not_call (GeTried m x)"
  "\<not> not_call (GeCall pid m up r)"
  by (simp_all add: not_call_def)

text \<open>The events of the attempts at some models for one request.\<close>

definition call_of :: "gateway_setup \<Rightarrow> string set \<Rightarrow> chat_request \<Rightarrow> gateway_event \<Rightarrow> bool" where
  "call_of G ms req e \<longleftrightarrow>
     not_call e \<or>
     (\<exists>m r. m \<in> ms \<and>
        e = GeCall (map_option pn_id (find_provider (gt_providers G) m)) m
              (upstream_request_for (find_provider (gt_providers G) m) m req) r)"

text \<open>A property that the events of an attempt at one model have.\<close>

definition attempt_events :: "gateway_setup \<Rightarrow> string \<Rightarrow> chat_request \<Rightarrow> (gateway_event \<Rightarrow> bool) \<Rightarrow> bool" where
  "attempt_events G m req P \<longleftrightarrow>
     (\<forall>run ok. P (GeScript run ok)) \<and> (\<forall>t x. P (GeTelemetry t x)) \<and>
     (\<forall>r. P (GeCall (map_option pn_id (find_provider (gt_providers G) m)) m
              (upstream_request_for (find_provider (gt_providers G) m) m req) r))"

lemma attempt_call_of: "m \<in> ms \<Longrightarrow> attempt_events G m req (call_of G ms req)"
  by (auto simp: attempt_events_def call_of_def)

lemma call_adapter_grows:
  assumes "call_adapter G qx (find_provider (gt_providers G) m) m req s = (r, s')"
    and "attempt_events G m req P"
  shows "grows G P s s'"
proof -
  let ?up = "upstream_request_for (find_provider (gt_providers G) m) m req"
  let ?e = "find_provider (gt_providers G) m"
  obtain q tr where q: "adapter_chat (gt_world G) (adapter_for G m) ?up (gs_trace s) = (q, tr)" by fastforce
  from action_sendsD [OF adapter_chat_sends q] obtain new where
    new: "tr = new @ gs_trace s"
      "\<forall>out \<in> set (List.map_filter http_event new). Some out = adapter_http (gt_world G) (adapter_for G m) ?up"
    by (auto simp: sends_only_def)
  have log: "gs_log s' = [GeTelemetry (telemetry_of qx ?e (adapter_for G m) m req ?up) (telemetry_result q),
        GeCall (map_option pn_id ?e) m ?up q] @ gs_log s"
    and tr: "gs_trace s' = new @ gs_trace s"
    using assms(1) q new(1)
    by (auto simp: call_adapter_def adapter_for_def add_event_def Let_def split: prod.splits)
  show ?thesis
    unfolding grows_def
    by (rule exI, rule exI, rule conjI, rule log, rule conjI, rule tr)
      (use assms(2) new(2) in \<open>auto simp: attempt_events_def sent_by_def\<close>)
qed

lemma ensure_ready_grows:
  assumes "ensure_provider_model_ready G e m up s = (r, s')" "\<And>run ok. P (GeScript run ok)"
  shows "grows G P s s'"
proof -
  have "gs_trace s' = gs_trace s \<and> (gs_log s' = gs_log s \<or> (\<exists>run ok. gs_log s' = [GeScript run ok] @ gs_log s))"
    using assms(1)
    by (auto simp: ensure_provider_model_ready_def Let_def add_event_def
        split: option.splits if_splits sum.splits)
  with assms(2) show ?thesis by (fastforce simp: grows_def map_filter_simps)
qed

lemma try_provider_grows:
  assumes "try_provider G qx m req s = (r, s')" "attempt_events G m req P"
  shows "grows G P s s'"
proof (cases "find_provider (gt_providers G) m")
  case None
  with assms call_adapter_grows [of G qx m req s r s' P] show ?thesis
    by (auto simp: try_provider_def grows_same split: if_splits)
next
  case (Some e)
  obtain q s1 where q: "ensure_provider_model_ready G e m (upstream_model_name e m) s = (q, s1)" by fastforce
  have g: "grows G P s s1"
    by (rule ensure_ready_grows [OF q]) (use assms(2) in \<open>simp add: attempt_events_def\<close>)
  show ?thesis
  proof (cases q)
    case (Inl err)
    with assms Some q g show ?thesis by (auto simp: try_provider_def)
  next
    case (Inr u)
    with assms Some q call_adapter_grows [of G qx m req s1 r s' P] grows_trans [OF g] show ?thesis
      by (auto simp: try_provider_def)
  qed
qed

lemma route_loop_grows:
  "route_loop G qx i req ms s = (r, s') \<Longrightarrow> grows G (call_of G (set ms) req) s s'"
proof (induction ms arbitrary: s)
  case Nil
  then show ?case by (simp add: grows_same)
next
  case (Cons m ms)
  let ?P = "call_of G (set (m # ms)) req"
  obtain q s1 where q: "try_provider G qx m req (note_attempt G i m True s) = (q, s1)" by fastforce
  have g: "grows G ?P s s1"
    using try_provider_grows [OF q attempt_call_of [of m "set (m # ms)"]]
    by (simp add: grows_def note_attempt_def)
  have tried: "grows G ?P s (add_event (GeTried m x) s1)" for x
    by (rule grows_trans [OF g grows_event]) (simp add: call_of_def)
  show ?case
  proof (cases q)
    case (Inr resp)
    with Cons.prems q have "s' = add_event (GeTried m (Inr resp)) s1" by simp
    with tried show ?thesis by (simp only:)
  next
    case (Inl e)
    let ?s2 = "note_attempt G i m False (add_event (GeTried m (Inl e)) s1)"
    have g2: "grows G ?P s ?s2" by (rule grows_note(2) [OF tried])
    show ?thesis
    proof (cases "ms \<noteq> [] \<and> backend_failure_kind e \<in> set (fallback_policy_for_model G m)")
      case True
      with Cons.prems q Inl have "route_loop G qx i req ms ?s2 = (r, s')" by (simp add: Let_def)
      from Cons.IH [OF this] have "grows G ?P ?s2 s'"
        by (auto simp: grows_def call_of_def list_all_iff) blast
      with g2 show ?thesis by (rule grows_trans)
    next
      case False
      with Cons.prems q Inl g2 show ?thesis by (auto simp: Let_def)
    qed
  qed
qed

section \<open>Who may cause a call\<close>

definition key_presented :: "proxy_config \<Rightarrow> header_map \<Rightarrow> bool" where
  "key_presented cfg hs \<longleftrightarrow>
     (case px_api_key cfg of
        None \<Rightarrow> True | Some k \<Rightarrow> trim k = [] \<or> bearer_token hs = Some (trim k))"

text \<open>A model an agent may use: no block rule of the agent names it, and some rule lets it in.\<close>

definition blocked_for :: "proxy_config \<Rightarrow> string \<Rightarrow> string \<Rightarrow> bool" where
  "blocked_for cfg agent m \<longleftrightarrow>
     (\<exists>a. find (\<lambda>a. pa_id a = agent) (px_agents cfg) = Some a \<and>
        list_ex (model_matches_pattern m) (pa_blocked_models a))"

definition granted_by :: "proxy_config \<Rightarrow> string \<Rightarrow> string set \<Rightarrow> bool" where
  "granted_by cfg agent names \<longleftrightarrow>
     (case find (\<lambda>a. pa_id a = agent) (px_agents cfg) of
        None \<Rightarrow> px_default_policy cfg = AllowAll
      | Some a \<Rightarrow> pa_allowed_models a = [] \<or>
          (\<exists>m \<in> names. list_ex (model_matches_pattern m) (pa_allowed_models a)))"

lemma access_iff:
  "check_model_access_for_names cfg agent requested resolved \<longleftrightarrow>
     \<not> blocked_for cfg agent requested \<and> \<not> blocked_for cfg agent resolved \<and>
     granted_by cfg agent {requested, resolved}"
proof (cases "find (\<lambda>a. pa_id a = agent) (px_agents cfg)")
  case None
  then show ?thesis
    by (simp add: check_model_access_for_names_def blocked_for_def granted_by_def
        split: access_policy.split)
next
  case (Some a)
  then show ?thesis
    by (auto simp: check_model_access_for_names_def blocked_for_def granted_by_def
        model_matches_same list_ex_iff)
qed

lemma require_api_key_None: "require_api_key cfg hs = None \<longleftrightarrow> key_presented cfg hs"
  by (auto simp: require_api_key_def key_presented_def split: option.split)

text \<open>The route of a request: aliases, then the plan, with the checks on the way.\<close>

definition routed ::
  "gateway_setup \<Rightarrow> header_map \<Rightarrow> chat_request \<Rightarrow> sel_state \<Rightarrow> string \<Rightarrow> string \<Rightarrow> alloy_plan \<Rightarrow>
   sel_state \<Rightarrow> bool" where
  "routed G hs req st resolved root plan st' \<longleftrightarrow>
     key_presented (gt_config G) hs \<and>
     resolve_model_alias_chain (gt_shortcuts G) (cr_model req) = Inr resolved \<and>
     check_model_access_for_names (gt_config G) (agent_of hs) (cr_model req) resolved \<and>
     is_valid_model G resolved \<and>
     plan_for_model (gt_sample G) (gt_shortcuts G) (gt_selectors G) resolved
       (estimate_request (gt_estimator G) (req\<lparr>cr_model := resolved\<rparr>)
          (px_token_estimator (gt_config G))) st = (Inr (root, plan), st') \<and>
     (\<forall>m \<in> set (ordered_models plan).
        check_model_access_for_names (gt_config G) (agent_of hs) root m)"

lemma chat_completions_cases:
  assumes "chat_completions G hs req s = (reply, s')"
  obtains (refused) "gs_log s' = gs_log s" "gs_trace s' = gs_trace s"
  | (served) resolved root plan st r where
      "routed G hs req (gs_selectors s) resolved root plan st"
      "route_loop G \<lparr>qx_agent = agent_of hs, qx_requested = cr_model req, qx_root = root\<rparr>
         (pl_id plan) (req\<lparr>cr_model := resolved\<rparr>) (ordered_models plan)
         (s\<lparr>gs_selectors := st\<rparr>) = (r, s')"
      "reply = plan_reply (req\<lparr>cr_model := resolved\<rparr>) (pl_name plan) r"
proof (cases "require_api_key (gt_config G) hs")
  case (Some x)
  with assms show ?thesis by (intro refused) (simp_all add: chat_completions_def)
next
  case None
  note key = None [unfolded require_api_key_None]
  show ?thesis
  proof (cases "resolve_model_alias_chain (gt_shortcuts G) (cr_model req)")
    case (Inl e)
    with assms None show ?thesis by (intro refused) (simp_all add: chat_completions_def Let_def)
  next
    case (Inr resolved)
    let ?req = "req\<lparr>cr_model := resolved\<rparr>"
    let ?check = "check_model_access_for_names (gt_config G) (agent_of hs)"
    show ?thesis
    proof (cases "?check (cr_model req) resolved \<and> is_valid_model G resolved")
      case False
      with assms None Inr show ?thesis
        by (intro refused) (auto simp: chat_completions_def Let_def split: if_splits)
    next
      case True
      obtain p st where p: "plan_for_model (gt_sample G) (gt_shortcuts G) (gt_selectors G) resolved
          (estimate_request (gt_estimator G) ?req (px_token_estimator (gt_config G)))
          (gs_selectors s) = (p, st)" by fastforce
      show ?thesis
      proof (cases p)
        case (Inl e)
        with assms None Inr True p show ?thesis
          by (intro refused) (auto simp: chat_completions_def Let_def split: prod.splits)
      next
        case plan: (Inr planned)
        obtain root plan where rp: "planned = (root, plan)" by fastforce
        have run: "serve_plan G (agent_of hs) (cr_model req) ?req (root, plan) (s\<lparr>gs_selectors := st\<rparr>) =
            (reply, s')"
          using assms None Inr True p plan rp by (simp add: chat_completions_def Let_def)
        show ?thesis
        proof (cases "\<forall>m \<in> set (ordered_models plan). ?check root m")
          case False
          with run show ?thesis
            by (intro refused) (auto simp: serve_plan_def list_ex_iff split: if_splits)
        next
          case all: True
          obtain r s1 where r: "route_loop G
              \<lparr>qx_agent = agent_of hs, qx_requested = cr_model req, qx_root = root\<rparr> (pl_id plan) ?req
              (ordered_models plan) (s\<lparr>gs_selectors := st\<rparr>) = (r, s1)" by fastforce
          with run all have "s1 = s'" "reply = plan_reply ?req (pl_name plan) r"
            by (auto simp: serve_plan_def list_ex_iff split: if_splits)
          moreover have "routed G hs req (gs_selectors s) resolved root plan st"
            using key Inr True p plan rp all by (simp add: routed_def)
          ultimately show ?thesis using r served by blast
        qed
      qed
    qed
  qed
qed

lemma routed_root:
  assumes "routed G hs req st resolved root plan st'"
  shows "root = resolved"
proof -
  have "resolve_model_alias_chain (gt_shortcuts G) resolved = Inr resolved"
    using assms by (simp add: routed_def resolve_Inr_iff)
  with assms show ?thesis
    by (auto simp: routed_def plan_for_model_def Let_def split: prod.splits sum.splits)
qed

lemma upstream_request_model: "upstream_request_for e m (req\<lparr>cr_model := x\<rparr>) = upstream_request_for e m req"
  by (simp add: upstream_request_for_def split: option.split)

lemma gateway_sends_for:
  assumes "chat_completions G hs req s = (reply, s')"
    and "gs_log s' = new @ gs_log s" "gs_trace s' = tr @ gs_trace s"
    and "PeHttp out answer \<in> set tr"
  shows "\<exists>m r resolved root plan st.
    GeCall (map_option pn_id (find_provider (gt_providers G) m)) m
      (upstream_request_for (find_provider (gt_providers G) m) m req) r \<in> set new \<and>
    adapter_http (gt_world G) (adapter_for G m)
      (upstream_request_for (find_provider (gt_providers G) m) m req) = Some out \<and>
    m \<in> set (ordered_models plan) \<and> routed G hs req (gs_selectors s) resolved root plan st"
  using assms(1)
proof (cases rule: chat_completions_cases)
  case refused
  with assms(3,4) show ?thesis by simp
next
  case (served resolved root plan st r)
  from route_loop_grows [OF served(2)]
  have g: "grows G (call_of G (set (ordered_models plan)) (req\<lparr>cr_model := resolved\<rparr>)) s s'"
    by (simp only: grows_selectors)
  have "out \<in> set (List.map_filter http_event tr)"
    using assms(4) by (force simp: map_filter_def)
  with g assms(2,3) obtain pid m up q where c: "GeCall pid m up q \<in> set new"
      "adapter_http (gt_world G) (adapter_for G m) up = Some out"
    by (auto simp: grows_def sent_by_def)
  with g assms(2) have m: "m \<in> set (ordered_models plan)"
      "pid = map_option pn_id (find_provider (gt_providers G) m)"
      "up = upstream_request_for (find_provider (gt_providers G) m) m req"
    by (auto simp: grows_def call_of_def list_all_iff upstream_request_model)
  with c served(1) show ?thesis by blast
qed

text \<open>
  C7: Every HTTP request a chat completion causes is sent by a call of the adapter the routing
  table names for a concrete model, with exactly the request for that model; the caller has
  presented the gateway's key, no block rule of its agent names the requested, the resolved or
  the concrete model, and the agent's rules grant the request and the concrete model.
\<close>

theorem gateway_calls_authorised:
  assumes "chat_completions G hs req s = (reply, s')"
    and "gs_log s' = new @ gs_log s" "gs_trace s' = tr @ gs_trace s"
    and "PeHttp out answer \<in> set tr"
  shows "\<exists>m r resolved.
    GeCall (map_option pn_id (find_provider (gt_providers G) m)) m
      (upstream_request_for (find_provider (gt_providers G) m) m req) r \<in> set new \<and>
    adapter_http (gt_world G) (adapter_for G m)
      (upstream_request_for (find_provider (gt_providers G) m) m req) = Some out \<and>
    key_presented (gt_config G) hs \<and>
    resolve_model_alias_chain (gt_shortcuts G) (cr_model req) = Inr resolved \<and>
    (\<forall>name \<in> {cr_model req, resolved, m}. \<not> blocked_for (gt_config G) (agent_of hs) name) \<and>
    granted_by (gt_config G) (agent_of hs) {cr_model req, resolved} \<and>
    granted_by (gt_config G) (agent_of hs) {resolved, m}"
proof -
  from gateway_sends_for [OF assms] obtain m r resolved root plan st where
    c: "GeCall (map_option pn_id (find_provider (gt_providers G) m)) m
          (upstream_request_for (find_provider (gt_providers G) m) m req) r \<in> set new"
      "adapter_http (gt_world G) (adapter_for G m)
          (upstream_request_for (find_provider (gt_providers G) m) m req) = Some out"
    and m: "m \<in> set (ordered_models plan)"
    and routed: "routed G hs req (gs_selectors s) resolved root plan st" by blast
  have "check_model_access_for_names (gt_config G) (agent_of hs) resolved m"
    using routed m routed_root [OF routed] by (auto simp: routed_def)
  moreover have "check_model_access_for_names (gt_config G) (agent_of hs) (cr_model req) resolved"
      "key_presented (gt_config G) hs"
      "resolve_model_alias_chain (gt_shortcuts G) (cr_model req) = Inr resolved"
    using routed by (simp_all add: routed_def)
  ultimately show ?thesis using c unfolding access_iff by blast
qed

section \<open>Fallback\<close>

fun tried_event :: "gateway_event \<Rightarrow> (string \<times> (backend_error + chat_response)) option" where
  "tried_event (GeTried m r) = Some (m, r)"
| "tried_event _ = None"

definition tried_in :: "gateway_event list \<Rightarrow> (string \<times> (backend_error + chat_response)) list" where
  "tried_in new = List.map_filter tried_event (rev new)"

lemma tried_in_append: "tried_in (a @ b) = tried_in b @ tried_in a"
  by (simp add: tried_in_def map_filter_def)

text \<open>
  The attempts go through the plan from its start; each but the last failed in a way its model's
  policy lets the next model answer for; the last succeeded with the result, or failed with no
  model left or in a way that ends the request.
\<close>

definition fallback_followed ::
  "gateway_setup \<Rightarrow> string list \<Rightarrow> (string \<times> (backend_error + chat_response)) list \<Rightarrow>
   string + chat_response \<Rightarrow> bool" where
  "fallback_followed G models ts r \<longleftrightarrow>
     ts \<noteq> [] \<and> map fst ts = take (length ts) models \<and>
     (\<forall>(m, x) \<in> set (butlast ts). \<exists>e. x = Inl e \<and>
        backend_failure_kind e \<in> set (fallback_policy_for_model G m)) \<and>
     (case snd (List.last ts) of
        Inr resp \<Rightarrow> r = Inr resp
      | Inl e \<Rightarrow> r = Inl (''Gateway error: '' @ backend_error_text e) \<and>
          (length ts = length models \<or>
           backend_failure_kind e \<notin> set (fallback_policy_for_model G (fst (List.last ts)))))"

lemma try_provider_tried:
  assumes "try_provider G qx m req s = (r, s')"
  shows "\<exists>new. gs_log s' = new @ gs_log s \<and> tried_in new = []"
proof -
  have "grows G (\<lambda>e. tried_event e = None) s s'"
    by (rule try_provider_grows [OF assms]) (simp add: attempt_events_def)
  moreover have "list_all (\<lambda>e. tried_event e = None) new \<Longrightarrow> tried_in new = []" for new
    by (simp add: tried_in_def map_filter_def list_all_iff filter_empty_conv)
  ultimately show ?thesis by (auto simp: grows_def)
qed

lemma tried_snoc: "tried_in (GeTried m r # new) = tried_in new @ [(m, r)]"
  by (simp add: tried_in_def map_filter_def)

lemma route_loop_tried:
  "route_loop G qx i req ms s = (r, s') \<Longrightarrow> ms \<noteq> [] \<Longrightarrow>
     \<exists>new. gs_log s' = new @ gs_log s \<and> fallback_followed G ms (tried_in new) r"
proof (induction ms arbitrary: s)
  case (Cons m ms)
  obtain q s1 where q: "try_provider G qx m req (note_attempt G i m True s) = (q, s1)" by fastforce
  from try_provider_tried [OF q] obtain new where
    new: "gs_log s1 = new @ gs_log s" "tried_in new = []" by (auto simp: note_attempt_def)
  show ?case
  proof (cases q)
    case (Inr resp)
    with Cons.prems q have s': "s' = add_event (GeTried m (Inr resp)) s1" "r = Inr resp" by simp_all
    then have "gs_log s' = (GeTried m (Inr resp) # new) @ gs_log s"
      using new(1) by (simp add: add_event_def)
    moreover have "fallback_followed G (m # ms) [(m, Inr resp)] r"
      using s'(2) by (simp add: fallback_followed_def)
    ultimately show ?thesis
      using new(2) by (intro exI [of _ "GeTried m (Inr resp) # new"]) (simp add: tried_snoc)
  next
    case (Inl e)
    let ?s2 = "note_attempt G i m False (add_event (GeTried m (Inl e)) s1)"
    have log2: "gs_log ?s2 = (GeTried m (Inl e) # new) @ gs_log s"
      using new(1) by (simp add: note_attempt_def add_event_def)
    show ?thesis
    proof (cases "ms \<noteq> [] \<and> backend_failure_kind e \<in> set (fallback_policy_for_model G m)")
      case True
      with Cons.prems q Inl have "route_loop G qx i req ms ?s2 = (r, s')" by (simp add: Let_def)
      with Cons.IH True obtain new2 where
        n2: "gs_log s' = new2 @ gs_log ?s2" "fallback_followed G ms (tried_in new2) r" by blast
      then have "fallback_followed G (m # ms) ((m, Inl e) # tried_in new2) r"
        using True by (auto simp: fallback_followed_def split: sum.splits)
      moreover have "gs_log s' = (new2 @ GeTried m (Inl e) # new) @ gs_log s"
        using n2(1) log2 by simp
      ultimately show ?thesis
        using new(2) by (intro exI [of _ "new2 @ GeTried m (Inl e) # new"])
          (simp add: tried_in_append tried_snoc)
    next
      case False
      with Cons.prems q Inl have "s' = ?s2" "r = Inl (''Gateway error: '' @ backend_error_text e)"
        by (auto simp: Let_def)
      moreover from this False have "fallback_followed G (m # ms) [(m, Inl e)] r"
        by (auto simp: fallback_followed_def)
      ultimately show ?thesis
        using log2 new(2) by (intro exI [of _ "GeTried m (Inl e) # new"]) (simp add: tried_snoc)
    qed
  qed
qed simp

lemma routed_run:
  assumes "routed G hs req (gs_selectors s) resolved root plan st"
  shows "chat_completions G hs req s =
    (case route_loop G \<lparr>qx_agent = agent_of hs, qx_requested = cr_model req, qx_root = root\<rparr>
        (pl_id plan) (req\<lparr>cr_model := resolved\<rparr>) (ordered_models plan) (s\<lparr>gs_selectors := st\<rparr>) of
       (r, s') \<Rightarrow> (plan_reply (req\<lparr>cr_model := resolved\<rparr>) (pl_name plan) r, s'))"
  using assms
  by (auto simp: chat_completions_def routed_def require_api_key_None [THEN iffD2] serve_plan_def
      Let_def list_ex_iff)

lemma plan_reply_resolved:
  "plan_reply (req\<lparr>cr_model := x\<rparr>) name r =
     (case r of
        Inl _ \<Rightarrow> unavailable
      | Inr resp \<Rightarrow> if should_stream req then streaming_response resp name else ChatReply resp)"
  by (cases r) (simp_all add: plan_reply_def should_stream_def)

text \<open>
  C20: Fallback is exactly the configured one.  A request that is routed to a plan with a model
  tries the plan's models in order, moves on only after a failure of a class in the fallback
  policy of the provider that failed, stops at the first success, and answers with that response
  or, when the last attempt failed, with an error that tells the client nothing about it.
\<close>

theorem fallback_exact:
  assumes "chat_completions G hs req s = (reply, s')"
    and "routed G hs req (gs_selectors s) resolved root plan st" "ordered_models plan \<noteq> []"
  shows "\<exists>new r. gs_log s' = new @ gs_log s \<and>
    fallback_followed G (ordered_models plan) (tried_in new) r \<and>
    reply = (case r of
        Inl _ \<Rightarrow> unavailable
      | Inr resp \<Rightarrow> if should_stream req then streaming_response resp (pl_name plan)
                    else ChatReply resp)"
proof -
  let ?req = "req\<lparr>cr_model := resolved\<rparr>"
  obtain r where run: "route_loop G
      \<lparr>qx_agent = agent_of hs, qx_requested = cr_model req, qx_root = root\<rparr> (pl_id plan) ?req
      (ordered_models plan) (s\<lparr>gs_selectors := st\<rparr>) = (r, s')" "reply = plan_reply ?req (pl_name plan) r"
    using assms(1) routed_run [OF assms(2)] by (auto split: prod.splits)
  from route_loop_tried [OF run(1) assms(3)] obtain new where
    "gs_log s' = new @ gs_log s" "fallback_followed G (ordered_models plan) (tried_in new) r" by auto
  then show ?thesis using run(2) unfolding plan_reply_resolved by blast
qed

section \<open>The body of a request\<close>

lemma map_of_rev: "distinct (map fst m) \<Longrightarrow> map_of (rev m) = map_of m"
  by (rule map_of_inject_set [THEN iffD2]) (simp_all add: rev_map [symmetric])

definition extension_keys_ok :: "json_map \<Rightarrow> bool" where
  "extension_keys_ok m \<longleftrightarrow>
     btree_wf m \<and> list_all (\<lambda>k. \<not> is_reserved_chat_completion_field k) (map fst m)"

lemma extension_keys_extend:
  "extension_keys_ok m \<Longrightarrow> extension_keys_ok kvs \<Longrightarrow> extension_keys_ok (btree_extend m kvs)"
  unfolding extension_keys_ok_def list_all_iff btree_extend_keys by (auto simp: btree_extend_wf)

text \<open>The body of one request: the known fields as given, the extensions beside them.\<close>

definition body_of_request :: "(f32 \<Rightarrow> json) \<Rightarrow> chat_request \<Rightarrow> json_map \<Rightarrow> json_map \<Rightarrow> bool" where
  "body_of_request num req ext body \<longleftrightarrow>
     btree_wf body \<and>
     (\<forall>(k, v) \<in> set (known_fields num req). map_of body k = Some v) \<and>
     (\<forall>(k, v) \<in> set ext. map_of body k = Some v) \<and>
     set (map fst body) \<subseteq> set reserved_fields \<union> set (map fst ext) \<union> {''thinking''}"

lemma request_body_fields:
  assumes "extension_keys_ok (cr_extra_body req)"
  obtains body where "request_json num req = JObj body" "btree_wf body"
    "\<And>k v. (k, v) \<in> set (known_fields num req) \<Longrightarrow> map_of body k = Some v"
    "\<And>k v. (k, v) \<in> set (cr_extra_body req) \<Longrightarrow> map_of body k = Some v"
    "set (map fst body) = set reserved_fields \<union> set (map fst (cr_extra_body req))"
proof
  let ?body = "btree_extend [] (known_fields num req @ cr_extra_body req)"
  show "request_json num req = JObj ?body" by (simp add: request_json_def json_struct_def)
  then have get: "json_get k (request_json num req) = map_of ?body k" for k
    by (simp add: json_get_def)
  show "btree_wf ?body" by (rule btree_extend_wf) (simp add: btree_wf_def)
  show "map_of ?body k = Some v" if "(k, v) \<in> set (known_fields num req)" for k v
    using request_json_known [OF _ that] assms by (simp add: get extension_keys_ok_def)
  show "map_of ?body k = Some v" if "(k, v) \<in> set (cr_extra_body req)" for k v
    using request_json_extension [of req k v num] assms that
    by (simp add: get extension_keys_ok_def btree_wf_def)
  show "set (map fst ?body) = set reserved_fields \<union> set (map fst (cr_extra_body req))"
    unfolding btree_extend_keys map_append known_fields_keys by simp
qed

lemma chat_http_body:
  assumes "extension_keys_ok (cr_extra_body req)"
  shows "\<exists>body. ho_body (chat_http_request w hb req) = Some (JObj body) \<and>
    body_of_request (pw_num w) req (cr_extra_body req) body"
proof -
  from request_body_fields [OF assms, of "pw_num w"] obtain body where
    b: "request_json (pw_num w) req = JObj body" "btree_wf body"
      "\<And>k v. (k, v) \<in> set (known_fields (pw_num w) req) \<Longrightarrow> map_of body k = Some v"
      "\<And>k v. (k, v) \<in> set (cr_extra_body req) \<Longrightarrow> map_of body k = Some v"
      "set (map fst body) = set reserved_fields \<union> set (map fst (cr_extra_body req))" by blast
  show ?thesis
  proof (cases "(is_kimi_backend (hb_base_url hb) \<or> is_kimi_model (cr_model req)) \<and> map_of body ''thinking'' = None")
    case True
    let ?body = "btree_insert ''thinking'' (JObj [(''type'', JStr ''disabled'')]) body"
    have "ho_body (chat_http_request w hb req) = Some (JObj ?body)"
      using True b(1) by (simp add: chat_http_request_def apply_kimi_compat_def json_get_def)
    moreover have "map_of ?body k = Some v" if "map_of body k = Some v" for k v
      using that True by (auto simp: btree_insert_map_of)
    moreover have "btree_wf ?body" by (rule btree_insert_wf [OF b(2)])
    moreover have "set (map fst ?body) \<subseteq> set reserved_fields \<union> set (map fst (cr_extra_body req)) \<union> {''thinking''}"
      unfolding btree_insert_keys b(5) by blast
    ultimately show ?thesis
      using b(3,4) unfolding body_of_request_def by blast
  next
    case False
    then have "ho_body (chat_http_request w hb req) = Some (JObj body)"
      using b(1) by (auto simp: chat_http_request_def apply_kimi_compat_def json_get_def)
    then show ?thesis
      using b unfolding body_of_request_def by blast
  qed
qed

lemma trim_kimi_fixed: "\<not> prefix ''kimi/'' m \<Longrightarrow> trim_kimi m = m"
  by (simp add: trim_kimi_def drop_seqs.simps)

lemma trim_kimi_no_prefix: "\<not> prefix ''kimi/'' (trim_kimi m)"
proof (induction "length m" arbitrary: m rule: less_induct)
  case less
  show ?case
  proof (cases "prefix ''kimi/'' m")
    case True
    then have "trim_kimi m = trim_kimi (drop 5 m)"
      by (simp add: trim_kimi_def drop_seqs.simps [of "[''kimi/'']" m] eval_nat_numeral)
    moreover have "length (drop 5 m) < length m" using True prefix_length_le by fastforce
    ultimately show ?thesis using less by simp
  next
    case False
    then show ?thesis by (simp add: trim_kimi_fixed)
  qed
qed

text \<open>Each logging layer normalises the model's name; after the first one nothing changes.\<close>

lemma adapter_http_request:
  "adapter_http w ad req = Some out \<Longrightarrow>
     \<exists>hb n. out = chat_http_request w hb (req\<lparr>cr_model := n\<rparr>) \<and> n \<in> {cr_model req, trim_kimi (cr_model req)}"
proof (induction ad arbitrary: req)
  case (BuiltinHttpGateway c b)
  then show ?case
    by (cases b) (auto intro!: exI [of _ "cr_model req"])
next
  case (LoggingGateway c inner)
  from LoggingGateway.IH [of "normalize_request_model req"] LoggingGateway.prems
  obtain hb n where n: "out = chat_http_request w hb ((normalize_request_model req)\<lparr>cr_model := n\<rparr>)"
      "n \<in> {cr_model (normalize_request_model req), trim_kimi (cr_model (normalize_request_model req))}"
    unfolding adapter_http.simps by blast
  have "(normalize_request_model req)\<lparr>cr_model := n\<rparr> = req\<lparr>cr_model := n\<rparr>"
    by (simp add: normalize_request_model_def)
  moreover have "n \<in> {cr_model req, trim_kimi (cr_model req)}"
    using n(2) by (auto simp: normalize_request_model_def trim_kimi_fixed trim_kimi_no_prefix split: if_splits)
  ultimately show ?case using n(1) by auto
qed simp

text \<open>The entries a start builds have extension fields only.\<close>

lemma build_providers_bodies:
  "build_providers uni read cfg dt ps built = Inr built' \<Longrightarrow>
     (\<forall>b \<in> ran built. extension_keys_ok (bp_request_body b)) \<Longrightarrow>
     (\<forall>b \<in> ran built'. extension_keys_ok (bp_request_body b))"
proof (induction ps arbitrary: built)
  case (Cons p ps)
  obtain b where b: "build_provider uni read cfg dt p = Inr b"
    using Cons.prems(1) by (cases "build_provider uni read cfg dt p") auto
  then have "validate_request_body_extensions p = Inr ()"
    by (cases "validate_request_body_extensions p") (auto simp: build_provider_def)
  then have "sort (filter is_reserved_chat_completion_field (map fst (pc_request_body p))) = []"
    unfolding validate_request_body_extensions_def Let_def by (simp split: if_splits)
  then have "set (filter is_reserved_chat_completion_field (map fst (pc_request_body p))) = {}"
    by (metis list.set(1) set_sort)
  then have "list_all (\<lambda>k. \<not> is_reserved_chat_completion_field k) (map fst (pc_request_body p))"
    by (auto simp: list_all_iff)
  moreover have "bp_request_body b = btree_extend [] (pc_request_body p)"
    using b by (auto simp: build_provider_def Let_def res_bind_def split: sum.splits if_splits)
  moreover have "btree_wf (btree_extend [] (pc_request_body p))"
    by (rule btree_extend_wf) (simp add: btree_wf_def)
  ultimately have "extension_keys_ok (bp_request_body b)"
    unfolding extension_keys_ok_def list_all_iff by (simp only: btree_extend_keys) simp
  moreover have "ran (built(pc_id p \<mapsto> b)) \<subseteq> insert b (ran built)"
    by (auto simp: ran_def split: if_splits)
  ultimately have "\<forall>b \<in> ran (built(pc_id p \<mapsto> b)). extension_keys_ok (bp_request_body b)"
    using Cons.prems(2) by blast
  with Cons.IH Cons.prems(1) b show ?case by auto
qed simp

lemma try_map_mem:
  "try_map f xs = Inr ys \<Longrightarrow> y \<in> set ys \<Longrightarrow> \<exists>x \<in> set xs. f x = Inr y"
proof (induction xs arbitrary: ys)
  case (Cons x xs)
  then show ?case by (cases "f x"; cases "try_map f xs") auto
qed simp

lemma built_entries_ok:
  assumes "build_provider_entries uni read cfg dt = Inr entries" "e \<in> set entries"
  shows "extension_keys_ok (pn_request_body e)"
proof -
  obtain built where built: "build_providers uni read cfg dt (px_providers cfg) Map.empty = Inr built"
    using assms(1)
    by (cases "build_providers uni read cfg dt (px_providers cfg) Map.empty")
      (auto simp: build_provider_entries_def)
  have ok: "extension_keys_ok (bp_request_body b)" if "built i = Some b" for i b
    using build_providers_bodies [OF built] that by (auto simp: ran_def)
  obtain routes where routes: "try_map (route_entry cfg built) (px_model_routes cfg) = Inr routes"
    and e: "e \<in> set routes \<or> e \<in> set (provider_entries cfg built)"
    using assms built
    by (cases "try_map (route_entry cfg built) (px_model_routes cfg)")
      (auto simp: build_provider_entries_def)
  have "\<exists>i patterns fb b. built i = Some b \<and> e = entry_of i patterns fb b"
    using e
  proof
    assume "e \<in> set routes"
    with routes obtain r where "route_entry cfg built r = Inr e" using try_map_mem by metis
    then show ?thesis by (auto simp: route_entry_def split: option.splits)
  next
    assume "e \<in> set (provider_entries cfg built)"
    then obtain p b where "built (pc_id p) = Some b"
        "e = entry_of (pc_id p) (pc_models p) (provider_fallback_on cfg p) b"
      by (auto simp: provider_entries_def map_filter_def split: if_splits)
    then show ?thesis by blast
  qed
  then show ?thesis using ok by (auto simp: entry_of_def)
qed

lemma started_entries_ok:
  assumes "start_proxy uni read hr addr_ok cfg = Inr (Some setup)" "e \<in> set (ps_providers setup)"
  shows "extension_keys_ok (pn_request_body e)"
proof -
  have "\<exists>cfg1. build_provider_entries uni read cfg1 (px_timeout_seconds cfg1) = Inr (ps_providers setup)"
    using assms(1)
    by (auto simp: start_proxy_def res_bind_def split: sum.splits if_splits option.splits)
  then show ?thesis using built_entries_ok assms(2) by blast
qed

text \<open>
  C29: Every request the gateway sends to a provider for a chat completion is well formed: its
  body is one JSON object with each of the fifteen request fields once, as the client gave
  them except for the model, which is the upstream name of the model called (the prefix
  \<open>kimi/\<close> taken off or not); every extension field of the client or the provider is in it, the
  provider's value winning; and there is nothing else, but for \<open>thinking\<close>.
\<close>

theorem upstream_body_well_formed:
  assumes "start_proxy uni read hr addr_ok cfg = Inr (Some (gt_proxy G))"
    and "extension_keys_ok (cr_extra_body req)"
    and "chat_completions G hs req s = (reply, s')"
    and "gs_log s' = new @ gs_log s" "gs_trace s' = tr @ gs_trace s"
    and "PeHttp out answer \<in> set tr"
  shows "\<exists>body m r up n. ho_body out = Some (JObj body) \<and>
    GeCall (map_option pn_id (find_provider (gt_providers G) m)) m up r \<in> set new \<and>
    up = upstream_request_for (find_provider (gt_providers G) m) m req \<and>
    n \<in> {cr_model up, trim_kimi (cr_model up)} \<and>
    body_of_request (pw_num (gt_world G)) (req\<lparr>cr_model := n\<rparr>) (cr_extra_body up) body"
proof -
  from gateway_sends_for [OF assms(3-6)] obtain m r where
    c: "GeCall (map_option pn_id (find_provider (gt_providers G) m)) m
          (upstream_request_for (find_provider (gt_providers G) m) m req) r \<in> set new"
      "adapter_http (gt_world G) (adapter_for G m)
          (upstream_request_for (find_provider (gt_providers G) m) m req) = Some out" by blast
  let ?up = "upstream_request_for (find_provider (gt_providers G) m) m req"
  from adapter_http_request [OF c(2)] obtain hb n where
    n: "out = chat_http_request (gt_world G) hb (?up\<lparr>cr_model := n\<rparr>)" "n \<in> {cr_model ?up, trim_kimi (cr_model ?up)}"
    by blast
  have ext: "extension_keys_ok (cr_extra_body ?up)"
  proof (cases "find_provider (gt_providers G) m")
    case (Some e)
    then have "e \<in> set (gt_providers G)"
      by (metis find_Some_iff find_provider_def nth_mem)
    with started_entries_ok [OF assms(1)] assms(2) Some show ?thesis
      by (simp add: upstream_request_for_def extension_keys_extend)
  qed (simp add: upstream_request_for_def assms(2))
  then obtain body where b: "ho_body out = Some (JObj body)"
      "body_of_request (pw_num (gt_world G)) (?up\<lparr>cr_model := n\<rparr>) (cr_extra_body ?up) body"
    using chat_http_body [of "?up\<lparr>cr_model := n\<rparr>" "gt_world G" hb] n(1) by auto
  have "known_fields num (?up\<lparr>cr_model := n\<rparr>) = known_fields num (req\<lparr>cr_model := n\<rparr>)" for num
    by (simp add: known_fields_def upstream_request_for_def split: option.split)
  then have "body_of_request (pw_num (gt_world G)) (req\<lparr>cr_model := n\<rparr>) (cr_extra_body ?up) body"
    using b(2) by (simp add: body_of_request_def)
  with b(1) c(1) n(2) show ?thesis by blast
qed

section \<open>A concrete gateway\<close>

definition demo_proxy_config :: proxy_config where
  "demo_proxy_config =
     \<lparr>px_enabled = True, px_bind = ''b'', px_api_key = Some '' k'', px_api_key_file = None,
      px_discovery_key = None, px_discovery_key_file = None, px_control_key = None,
      px_control_key_file = None, px_timeout_seconds = 1, px_agents = [],
      px_default_policy = AllowAll, px_backend_type = ''http'', px_gateway_ui_url = None,
      px_backend_api_key = None, px_backend_url = ''u'', px_headers = None,
      px_backend_api_key_file = None, px_providers = [], px_model_routes = [],
      px_token_estimator = \<lparr>ec_strategy = EstCharRatio, ec_tokenizer = None, ec_chars_per_token = 0,
        ec_bytes_per_token = 0, ec_safety_margin = 0\<rparr>,
      px_retry = default_retry, px_fallback_on = default_fallback_on,
      px_observability = []\<rparr>"

definition demo_adapter_config :: adapter_config where
  "demo_adapter_config =
     \<lparr>ac_backend_type = GwBuiltinHttp, ac_base_url = Some ''u'', ac_api_key = Some [],
      ac_timeout_seconds = 1, ac_headers = None, ac_retry = default_retry, ac_ui_url = None\<rparr>"

definition demo_adapter :: provider_adapter where
  "demo_adapter = LoggingGateway demo_adapter_config (BuiltinHttpGateway demo_adapter_config
     (HttpBackend \<lparr>hb_base_url = ''u'', hb_api_key = [], hb_headers = []\<rparr>))"

definition demo_setup :: proxy_setup where
  "demo_setup = \<lparr>ps_config = demo_proxy_config\<lparr>px_api_key := Some ''k''\<rparr>,
     ps_gateway = demo_adapter, ps_providers = [], ps_telemetry = []\<rparr>"

definition demo_header_rules :: header_rules where
  "demo_header_rules = \<lparr>hr_name = Some, hr_value = (\<lambda>_. True)\<rparr>"

lemma demo_started: "start_proxy id (\<lambda>_. Inl []) demo_header_rules (\<lambda>_. True) demo_proxy_config = Inr (Some demo_setup)"
proof -
  have t: "trim '' k'' = ''k''" "trim ''u'' = ''u''" by code_simp+
  have h: "gateway_type_parse id ''http'' = Inr GwBuiltinHttp" by code_simp
  show ?thesis
    by (simp add: start_proxy_def demo_proxy_config_def validate_explicit_provider_selection_def t
        backend_accepts_unlisted_models_def gateway_type_for_backend_type_def h resolve_keys_def
        resolve_api_key_def normalize_api_key_def none_if_blank_def resolve_proxy_agent_api_keys_def
        root_gateway_def create_backend_def create_gateway_def openai_compatible_headers_def
        str_or_empty_def build_provider_entries_def provider_entries_def map_filter_simps demo_setup_def
        demo_adapter_def demo_adapter_config_def telemetry_from_config_def)
qed

definition demo_provider_world :: provider_world where
  "demo_provider_world =
     \<lparr>pw_http = (\<lambda>_ _. NoResponse ''e'' False), pw_jitter = (\<lambda>_. 100), pw_json = (\<lambda>_. Inl []),
      pw_response = (\<lambda>_. Inl []), pw_models = (\<lambda>_. Inl []), pw_iter = demo_iter,
      pw_num = (\<lambda>_. JNull), pw_status_text = (\<lambda>_. []), pw_uuid = (\<lambda>_. []), pw_now = (\<lambda>_. 0)\<rparr>"

definition demo_gateway :: gateway_setup where
  "demo_gateway =
     \<lparr>gt_uni = id, gt_proxy = demo_setup, gt_shortcuts = [], gt_selectors = empty_selectors,
      gt_sample = first_sampler, gt_world = demo_provider_world,
      gt_estimator = \<lparr>ew_ratio = (\<lambda>_ _ _. 0), ew_tiktoken = (\<lambda>_ _. None), ew_print = (\<lambda>_. [])\<rparr>,
      gt_script = (\<lambda>_ _. ScriptTimedOut)\<rparr>"

definition demo_chat_request :: chat_request where
  "demo_chat_request =
     \<lparr>cr_model = ''m'', cr_messages = [], cr_max_tokens = None, cr_temperature = None,
      cr_top_p = None, cr_n = None, cr_stream = None, cr_stop = None, cr_presence_penalty = None,
      cr_frequency_penalty = None, cr_logit_bias = None, cr_user = None, cr_response_format = None,
      cr_tools = None, cr_tool_choice = None, cr_extra_body = []\<rparr>"

definition demo_gateway_state :: gateway_state where
  "demo_gateway_state =
     \<lparr>gs_trace = [], gs_log = [], gs_selectors = initial_state empty_selectors,
      gs_switched = Map.empty\<rparr>"

definition demo_headers :: header_map where
  "demo_headers = [(''authorization'', Some ''Bearer k'')]"

definition demo_chat_plan :: alloy_plan where
  "demo_chat_plan = \<lparr>pl_id = ''m'', pl_name = ''m'', ordered_models = [''m'']\<rparr>"

lemma demo_routed:
  "routed demo_gateway demo_headers demo_chat_request (initial_state empty_selectors) ''m'' ''m''
     demo_chat_plan (initial_state empty_selectors)"
proof -
  have t: "trim ''k'' = ''k''" "bearer_token demo_headers = Some ''k''"
    by (simp_all add: demo_headers_def) code_simp+
  have a: "resolve_model_alias_chain [] ''m'' = Inr ''m''"
    by (simp add: resolve_Inr_iff alias_target_def)
  have p: "plan_for_model first_sampler [] empty_selectors ''m'' n (initial_state empty_selectors) =
      (Inr (''m'', demo_chat_plan), initial_state empty_selectors)" for n
    by (simp add: plan_for_model_def a select_plan_for_model_def select_rec.simps own_plan_def
        empty_selectors_def resolver_expand.simps demo_chat_plan_def has_key_def)
  have g: "backend_accepts_unlisted_models id ''http''" by code_simp
  show ?thesis
    by (simp add: routed_def demo_gateway_def demo_setup_def demo_proxy_config_def key_presented_def t
        demo_chat_request_def a p check_model_access_for_names_def is_valid_model_def g demo_chat_plan_def)
qed

definition demo_out :: http_out where
  "demo_out = chat_http_request demo_provider_world
     \<lparr>hb_base_url = ''u'', hb_api_key = [], hb_headers = []\<rparr> demo_chat_request"

definition demo_failure :: backend_error where
  "demo_failure = transport_error (''Request failed: '' @ ''e'') False"

definition demo_chat_log :: "gateway_event list" where
  "demo_chat_log =
     [GeTried ''m'' (Inl demo_failure),
      GeTelemetry
        \<lparr>tm_agent = ''anonymous'', tm_requested_model = ''m'', tm_root_model = ''m'',
         tm_concrete_model = ''m'', tm_upstream_model = ''m'', tm_provider_id = None,
         tm_engine = ''builtin-http'', tm_stream = False, tm_tools = False, tm_message_count = 0\<rparr>
        (TelemetryFailure FkNetwork),
      GeCall None ''m'' demo_chat_request (Inl demo_failure)]"

lemma demo_chat:
  "\<exists>sel. chat_completions demo_gateway demo_headers demo_chat_request demo_gateway_state =
     (unavailable,
      \<lparr>gs_trace = [PeHttp demo_out (NoResponse ''e'' False)], gs_log = demo_chat_log,
       gs_selectors = sel, gs_switched = Map.empty\<rparr>)"
proof -
  let ?inner = "BuiltinHttpGateway demo_adapter_config (HttpBackend \<lparr>hb_base_url = ''u'', hb_api_key = [], hb_headers = []\<rparr>)"
  have norm: "normalize_request_model demo_chat_request = demo_chat_request"
    by (simp add: normalize_request_model_def demo_chat_request_def)
  have inner: "adapter_chat demo_provider_world ?inner demo_chat_request [] =
      (Inl demo_failure, [PeHttp demo_out (NoResponse ''e'' False)])"
    by (simp add: backend_chat_def send_chat_completion_request_def act_bind_def http_send_def act_lift_def
        Let_def read_chat_response_def demo_out_def demo_failure_def demo_provider_world_def)
  have no_retry: "\<not> should_retry_locally t (ac_retry demo_adapter_config) e n" for t e n
    by (simp add: should_retry_locally_def demo_adapter_config_def default_retry_def)
  have chat: "adapter_chat demo_provider_world demo_adapter demo_chat_request [] =
      (Inl demo_failure, [PeHttp demo_out (NoResponse ''e'' False)])"
    by (simp add: demo_adapter_def norm inner act_bind_def no_retry
        retry_loop.simps [of demo_provider_world _ "ac_retry demo_adapter_config"]
        del: adapter_chat.simps(2))
  have req: "upstream_request_for None ''m'' demo_chat_request = demo_chat_request"
      "demo_chat_request\<lparr>cr_model := ''m''\<rparr> = demo_chat_request"
    by (simp_all add: upstream_request_for_def demo_chat_request_def)
  have ag: "agent_of demo_headers = ''anonymous''"
    by (simp add: agent_of_def header_get_def demo_headers_def)
  have sel: "gs_selectors demo_gateway_state = initial_state empty_selectors"
    by (simp add: demo_gateway_state_def)
  show ?thesis
    unfolding routed_run [OF demo_routed [folded sel]]
    by (simp add: req ag demo_chat_plan_def try_provider_def find_provider_def demo_gateway_def
        demo_setup_def root_mock_is_non_serving_fallback_def demo_proxy_config_def call_adapter_def chat
        note_attempt_def demo_gateway_state_def add_event_def Let_def telemetry_of_def telemetry_result_def
        demo_chat_log_def plan_reply_def)
      (simp add: demo_chat_request_def demo_adapter_def config_engine_info_def demo_adapter_config_def
        should_stream_def demo_failure_def transport_error_def)
qed

lemma demo_log: "gs_log demo_gateway_state = []" "gs_trace demo_gateway_state = []"
  and demo_selectors: "gs_selectors demo_gateway_state = initial_state empty_selectors"
  by (simp_all add: demo_gateway_state_def)

theorem gateway_calls_authorised_witness:
  "\<exists>m r resolved.
    GeCall (map_option pn_id (find_provider (gt_providers demo_gateway) m)) m
      (upstream_request_for (find_provider (gt_providers demo_gateway) m) m demo_chat_request) r
        \<in> set demo_chat_log \<and>
    adapter_http (gt_world demo_gateway) (adapter_for demo_gateway m)
      (upstream_request_for (find_provider (gt_providers demo_gateway) m) m demo_chat_request) =
        Some demo_out \<and>
    bearer_token demo_headers = Some ''k'' \<and> resolved = ''m''"
proof -
  obtain sel where run: "chat_completions demo_gateway demo_headers demo_chat_request demo_gateway_state =
     (unavailable, \<lparr>gs_trace = [PeHttp demo_out (NoResponse ''e'' False)], gs_log = demo_chat_log,
        gs_selectors = sel, gs_switched = Map.empty\<rparr>)" using demo_chat by blast
  have b: "bearer_token demo_headers = Some ''k''" by (simp add: demo_headers_def) code_simp
  have a: "resolve_model_alias_chain (gt_shortcuts demo_gateway) (cr_model demo_chat_request) = Inr ''m''"
    using demo_routed by (simp add: routed_def)
  from gateway_calls_authorised [OF run, of demo_chat_log "[PeHttp demo_out (NoResponse ''e'' False)]"
      demo_out "NoResponse ''e'' False"] a b demo_log
  show ?thesis by auto
qed

theorem fallback_exact_witness:
  "\<exists>new r. new = demo_chat_log \<and> fallback_followed demo_gateway [''m''] (tried_in new) r \<and>
     unavailable = (case r of
        Inl _ \<Rightarrow> unavailable
      | Inr resp \<Rightarrow> if should_stream demo_chat_request then streaming_response resp ''m''
                    else ChatReply resp)"
proof -
  obtain sel where run: "chat_completions demo_gateway demo_headers demo_chat_request demo_gateway_state =
     (unavailable, \<lparr>gs_trace = [PeHttp demo_out (NoResponse ''e'' False)], gs_log = demo_chat_log,
        gs_selectors = sel, gs_switched = Map.empty\<rparr>)" using demo_chat by blast
  have "ordered_models demo_chat_plan = [''m'']" "pl_name demo_chat_plan = ''m''"
    by (simp_all add: demo_chat_plan_def)
  with fallback_exact [OF run demo_routed [folded demo_selectors]] show ?thesis
    by (simp only: simp_thms list.distinct demo_log append_Nil2 gateway_state.simps) blast
qed

theorem upstream_body_well_formed_witness:
  "\<exists>body m up n. ho_body demo_out = Some (JObj body) \<and>
    up = upstream_request_for (find_provider (gt_providers demo_gateway) m) m demo_chat_request \<and>
    body_of_request (pw_num (gt_world demo_gateway)) (demo_chat_request\<lparr>cr_model := n\<rparr>)
      (cr_extra_body up) body"
proof -
  obtain sel where run: "chat_completions demo_gateway demo_headers demo_chat_request demo_gateway_state =
     (unavailable, \<lparr>gs_trace = [PeHttp demo_out (NoResponse ''e'' False)], gs_log = demo_chat_log,
        gs_selectors = sel, gs_switched = Map.empty\<rparr>)" using demo_chat by blast
  have st: "start_proxy id (\<lambda>_. Inl []) demo_header_rules (\<lambda>_. True) demo_proxy_config = Inr (Some (gt_proxy demo_gateway))"
    by (simp add: demo_gateway_def demo_started)
  have ext: "extension_keys_ok (cr_extra_body demo_chat_request)"
    by (simp add: extension_keys_ok_def btree_wf_def demo_chat_request_def)
  from upstream_body_well_formed [OF st ext run, of demo_chat_log "[PeHttp demo_out (NoResponse ''e'' False)]"
      demo_out "NoResponse ''e'' False"] demo_log
  show ?thesis by auto
qed

section \<open>What the model shows besides\<close>

text \<open>
  An attempt is counted as a success before it is made, and a failed one is counted again: it
  adds two requests, a success and a failure to the statistics of its model.
\<close>

lemma failed_attempt_counted_twice:
  assumes "has_key i (alloys (gt_selectors G))"
    and "stats_by_model (alloy_states (gs_selectors s) i) m = Some e"
  shows "stats_by_model (alloy_states (gs_selectors
      (note_attempt G i m False (note_attempt G i m True s))) i) m =
    Some (e\<lparr>ct_requests := ct_requests e + 2, ct_successes := ct_successes e + 1,
           ct_failures := ct_failures e + 1\<rparr>)"
  using assms by (simp add: note_attempt_def record_attempt_def count_attempt_def Let_def)

text \<open>
  A model and the same name with \<open>kimi/\<close> in front are one request to an adapter, although the
  access rules tell the names apart; a prefix \<open>kimi/\<close> added by configuration never arrives.
\<close>

lemma kimi_prefix_same_request:
  assumes "\<not> prefix ''kimi/'' m"
  shows "adapter_http w (LoggingGateway c inner) (req\<lparr>cr_model := ''kimi/'' @ m\<rparr>) =
    adapter_http w (LoggingGateway c inner) (req\<lparr>cr_model := m\<rparr>)"
proof -
  have "trim_kimi (''kimi/'' @ m) = m"
    using assms by (simp add: trim_kimi_def drop_seqs.simps)
  then show ?thesis using assms by (simp add: normalize_request_model_def)
qed

text \<open>
  The lock on a provider's loaded model is released when the switch is done, before the request
  is sent: another request's switch in between leaves the first call to the other model.
\<close>

lemma switch_not_held:
  assumes "ensure_provider_model_ready G e m1 up1 s = (Inr (), s1)"
    and "ensure_provider_model_ready G e m2 up2 s1 = (Inr (), s2)"
    and "switch_script e \<noteq> None"
  shows "gs_switched s1 (pn_id e) = Some m1 \<and> gs_switched s2 (pn_id e) = Some m2"
  using assms
  by (auto simp: ensure_provider_model_ready_def Let_def add_event_def
      split: if_splits sum.splits option.splits)

text \<open>Keys of single agents are read at the start, but no handler looks at them.\<close>

lemma agent_keys_unused:
  "require_api_key (cfg\<lparr>px_agents := agents\<rparr>) hs = require_api_key cfg hs"
  by (simp add: require_api_key_def)

end
