(* ===== verification/Fnox_Client.thy ===== *)
theory Fnox_Client
  imports Secret_Access Std_Fs Act
begin

text \<open>
  The client of the external secret store (\<open>crates/secrets-client/src/fnox_client.rs\<close>): how the
  \<open>fnox\<close> program is run, with its retries and its time limit, and how its output is read.

  The state of an action is the list of processes started so far, with the text written to
  their standard input.  What a process does is the argument \<open>fnox_world\<close>, indexed by the
  number of processes started before it, as are UTF-8 validity and the lossy conversion.
\<close>

section \<open>Processes\<close>

datatype spawn_kind = KindNotFound | KindBusy | KindBrokenPipe | KindOther

datatype io_failure = IoFailure spawn_kind string

record fnox_output =
  fo_code :: "int option"
  fo_stdout :: string
  fo_stderr :: string

definition fo_success :: "fnox_output \<Rightarrow> bool" where
  "fo_success out \<longleftrightarrow> fo_code out = Some 0"

datatype run_result = RunTimeout | RunFailed io_failure | RunOutput fnox_output

record fnox_process =
  fp_program :: string
  fp_args :: "string list"
  fp_dir :: "string option"
  fp_stdin :: "string option"

record fnox_world =
  fw_run :: "nat \<Rightarrow> fnox_process \<Rightarrow> run_result"
  fw_spawn :: "nat \<Rightarrow> fnox_process \<Rightarrow> io_failure option"
  fw_stdin :: "nat \<Rightarrow> string \<Rightarrow> io_failure option"
  fw_wait :: "nat \<Rightarrow> run_result"
  fw_utf8 :: "string \<Rightarrow> bool"
  fw_lossy :: "string \<Rightarrow> string"

type_synonym fnox_state = "fnox_process list"

datatype fnox_error =
    FxNotInstalled string
  | FxEmptyValue string
  | FxFailed "int option" string
  | FxInvalidUtf8
  | FxIo string
  | FxTimedOut u64
  | FxFeatureDisabled string

text \<open>\<open>Display\<close> of the error; \<open>dbg\<close> is \<open>Debug\<close> of a string.\<close>

definition show_exit :: "int option \<Rightarrow> string" where
  "show_exit c =
     (case c of
        None \<Rightarrow> ''None''
      | Some n \<Rightarrow> ''Some('' @ (if n < 0 then ''-'' else []) @ show_nat (nat \<bar>n\<bar>) @ '')'')"

fun fnox_error_text :: "(string \<Rightarrow> string) \<Rightarrow> fnox_error \<Rightarrow> string" where
  "fnox_error_text dbg (FxNotInstalled m) =
     ''fnox binary not available (install: brew install fnox; cargo install fnox): '' @ m"
| "fnox_error_text dbg (FxEmptyValue n) = ''fnox returned empty value for '' @ dbg n"
| "fnox_error_text dbg (FxFailed c e) = ''fnox failed (exit '' @ show_exit c @ ''): '' @ e"
| "fnox_error_text dbg FxInvalidUtf8 = ''fnox returned non-UTF-8 output''"
| "fnox_error_text dbg (FxIo m) = ''fnox I/O failed: '' @ m"
| "fnox_error_text dbg (FxTimedOut n) = ''fnox timed out after '' @ show_nat (unat n) @ ''s''"
| "fnox_error_text dbg (FxFeatureDisabled f) = ''fnox optional feature not enabled: '' @ f"

record fnox_client =
  fx_binary :: string
  fx_timeout :: u64
  fx_working_dir :: "string option"

text \<open>\<open>dir_ok\<close>: the directory could be created and is one.\<close>

definition default_fnox_working_dir :: "(string \<Rightarrow> bool) \<Rightarrow> env \<Rightarrow> string option" where
  "default_fnox_working_dir dir_ok env =
     (let ensure = (\<lambda>d. if dir_ok d then Some d else None) in
      case env ''CALCIFORGE_FNOX_DIR'' of
        Some d \<Rightarrow> ensure d
      | None \<Rightarrow>
     (case env ''CALCIFORGE_CONFIG_HOME'' of
        Some d \<Rightarrow> ensure d
      | None \<Rightarrow>
     (case env ''XDG_CONFIG_HOME'' of
        Some base \<Rightarrow> ensure (path_join base ''calciforge'')
      | None \<Rightarrow>
        Option.bind (env ''HOME'')
          (\<lambda>home. ensure (path_join (path_join home ''.config'') ''calciforge'')))))"

definition FNOX_ETXTBSY_ATTEMPTS :: nat where
  "FNOX_ETXTBSY_ATTEMPTS = 6"

definition map_spawn_error :: "io_failure \<Rightarrow> fnox_error" where
  "map_spawn_error f =
     (case f of IoFailure k msg \<Rightarrow> if k = KindNotFound then FxNotInstalled msg else FxIo msg)"

definition is_text_file_busy :: "io_failure \<Rightarrow> bool" where
  "is_text_file_busy f = (case f of IoFailure k _ \<Rightarrow> k = KindBusy)"

text \<open>
  The loops over the attempts of \<open>run\<close> and \<open>spawn_set_child\<close>; the first argument counts the
  attempts that are left after this one.
\<close>

definition fnox_command :: "fnox_client \<Rightarrow> string list \<Rightarrow> fnox_process" where
  "fnox_command cl args =
     \<lparr>fp_program = fx_binary cl, fp_args = args, fp_dir = fx_working_dir cl, fp_stdin = None\<rparr>"

fun run_attempts ::
  "fnox_world \<Rightarrow> fnox_client \<Rightarrow> string list \<Rightarrow> nat \<Rightarrow> (fnox_state, fnox_error, fnox_output) act" where
  "run_attempts w cl args left s =
     (let p = fnox_command cl args; s' = s @ [p] in
      case fw_run w (length s) p of
        RunTimeout \<Rightarrow> (Inl (FxTimedOut (fx_timeout cl)), s')
      | RunOutput out \<Rightarrow> (Inr out, s')
      | RunFailed f \<Rightarrow>
          (case left of
             0 \<Rightarrow> (Inl (map_spawn_error f), s')
           | Suc n \<Rightarrow> if is_text_file_busy f then run_attempts w cl args n s'
                      else (Inl (map_spawn_error f), s')))"

definition fnox_run :: "fnox_world \<Rightarrow> fnox_client \<Rightarrow> string list \<Rightarrow> (fnox_state, fnox_error, fnox_output) act" where
  "fnox_run w cl args = run_attempts w cl args (FNOX_ETXTBSY_ATTEMPTS - 1)"

fun spawn_attempts ::
  "fnox_world \<Rightarrow> fnox_client \<Rightarrow> string \<Rightarrow> nat \<Rightarrow> (fnox_state, fnox_error, nat) act" where
  "spawn_attempts w cl name left s =
     (let p = fnox_command cl [''set'', name]; s' = s @ [p] in
      case fw_spawn w (length s) p of
        None \<Rightarrow> (Inr (length s), s')
      | Some f \<Rightarrow>
          (case left of
             0 \<Rightarrow> (Inl (map_spawn_error f), s')
           | Suc n \<Rightarrow> if is_text_file_busy f then spawn_attempts w cl name n s'
                      else (Inl (map_spawn_error f), s')))"

definition spawn_set_child :: "fnox_world \<Rightarrow> fnox_client \<Rightarrow> string \<Rightarrow> (fnox_state, fnox_error, nat) act" where
  "spawn_set_child w cl name = spawn_attempts w cl name (FNOX_ETXTBSY_ATTEMPTS - 1)"

section \<open>Operations\<close>

definition failed_output :: "fnox_world \<Rightarrow> fnox_output \<Rightarrow> fnox_error" where
  "failed_output w out = FxFailed (fo_code out) (trim (fw_lossy w (fo_stderr out)))"

definition fnox_is_available :: "fnox_world \<Rightarrow> fnox_client \<Rightarrow> (fnox_state, fnox_error, bool) act" where
  "fnox_is_available w cl =
     act_bind (act_try (fnox_run w cl [''--version''])) (\<lambda>r.
     act_return (case r of Inl _ \<Rightarrow> False | Inr out \<Rightarrow> fo_success out))"

definition fnox_get :: "fnox_world \<Rightarrow> fnox_client \<Rightarrow> string \<Rightarrow> (fnox_state, fnox_error, string) act" where
  "fnox_get w cl name =
     act_bind (fnox_run w cl [''get'', name]) (\<lambda>out.
     if \<not> fo_success out then act_fail (failed_output w out)
     else if \<not> fw_utf8 w (fo_stdout out) then act_fail FxInvalidUtf8
     else (let v = trim (fo_stdout out) in
           if v = [] then act_fail (FxEmptyValue name) else act_return v))"

text \<open>The value goes to the standard input of the child; a broken pipe there is ignored.\<close>

definition give_stdin :: "nat \<Rightarrow> string \<Rightarrow> fnox_state \<Rightarrow> fnox_state" where
  "give_stdin k v s = s[k := (s ! k)\<lparr>fp_stdin := Some v\<rparr>]"

definition fnox_set :: "fnox_world \<Rightarrow> fnox_client \<Rightarrow> string \<Rightarrow> string \<Rightarrow> (fnox_state, fnox_error, unit) act" where
  "fnox_set w cl name v =
     act_bind (spawn_set_child w cl name) (\<lambda>k.
     act_then (act_modify (give_stdin k v))
     (act_then
        (case fw_stdin w k v of
           Some (IoFailure kind msg) \<Rightarrow>
             if kind = KindBrokenPipe then act_return () else act_fail (FxIo msg)
         | None \<Rightarrow> act_return ())
        (case fw_wait w k of
           RunTimeout \<Rightarrow> act_fail (FxTimedOut (fx_timeout cl))
         | RunFailed (IoFailure _ msg) \<Rightarrow> act_fail (FxIo msg)
         | RunOutput out \<Rightarrow>
             if fo_success out then act_return () else act_fail (failed_output w out))))"

section \<open>Reading the list of names\<close>

definition is_fnox_list_header_token :: "string \<Rightarrow> bool" where
  "is_fnox_list_header_token token \<longleftrightarrow>
     to_ascii_lowercase token \<in>
       {''key'', ''name'', ''secret'', ''type'', ''provider'', ''description''}"

text \<open>White space, a bar, the box-drawing bar U+2502, a colon.\<close>

definition list_seps :: "string list" where
  "list_seps = ws_seqs @ [''|'', [CHR 0xE2, CHR 0x94, CHR 0x82], '':'']"

fun take_until :: "'a list list \<Rightarrow> 'a list \<Rightarrow> 'a list" where
  "take_until seps [] = []"
| "take_until seps (c # s) =
     (if list_ex (\<lambda>w. prefix w (c # s)) seps then [] else c # take_until seps s)"

definition list_line_skipped :: "string \<Rightarrow> bool" where
  "list_line_skipped t \<longleftrightarrow>
     t = [] \<or> prefix ''#'' t \<or> prefix ''No secrets defined'' t \<or> prefix ''No secrets found'' t \<or>
     prefix ''Secret '' t \<or> prefix ''KEY '' t \<or> prefix ''Name '' t \<or>
     list_all (\<lambda>c. \<not> ascii_alnum c) t"

definition list_line_name :: "string \<Rightarrow> string option" where
  "list_line_name line =
     (let t = trim line in
      if list_line_skipped t then None
      else (let part = take_until list_seps (drop_seqs list_seps t) in
            if part = [] \<or> is_fnox_list_header_token part \<or> \<not> is_valid_secret_name part then None
            else Some part))"

definition parse_fnox_list_names :: "string \<Rightarrow> string list" where
  "parse_fnox_list_names stdout = List.map_filter list_line_name (str_lines stdout)"

definition fnox_list :: "fnox_world \<Rightarrow> fnox_client \<Rightarrow> (fnox_state, fnox_error, string list) act" where
  "fnox_list w cl =
     act_bind (fnox_run w cl [''list'']) (\<lambda>out.
     if \<not> fo_success out then act_fail (failed_output w out)
     else act_return (parse_fnox_list_names (fw_lossy w (fo_stdout out))))"

section \<open>What is run\<close>

declare run_attempts.simps [simp del] spawn_attempts.simps [simp del]

lemma run_attempts_trace:
  "run_attempts w cl args left s = (r, s') \<Longrightarrow>
     \<exists>n. 1 \<le> n \<and> n \<le> Suc left \<and> s' = s @ replicate n (fnox_command cl args)"
proof (induction w cl args left s arbitrary: r s' rule: run_attempts.induct)
  case (1 w cl args left s)
  show ?case
  proof (cases "\<exists>f n. fw_run w (length s) (fnox_command cl args) = RunFailed f \<and> left = Suc n \<and>
      is_text_file_busy f")
    case True
    then obtain f n where f: "fw_run w (length s) (fnox_command cl args) = RunFailed f"
      and n: "left = Suc n" and b: "is_text_file_busy f" by blast
    from f n b 1(2) have "run_attempts w cl args n (s @ [fnox_command cl args]) = (r, s')"
      by (simp add: run_attempts.simps [of w cl args "Suc n"] Let_def)
    from 1(1) [OF refl refl f n b this] obtain k where "1 \<le> k" "k \<le> Suc n"
      "s' = s @ fnox_command cl args # replicate k (fnox_command cl args)" by auto
    then show ?thesis using n by (intro exI [of _ "Suc k"]) simp
  next
    case False
    with 1(2) have "s' = s @ [fnox_command cl args]"
      by (auto simp: run_attempts.simps [of w cl args left] Let_def
          split: run_result.splits nat.splits if_splits)
    then show ?thesis by (intro exI [of _ 1]) simp
  qed
qed

lemma spawn_attempts_trace:
  "spawn_attempts w cl name left s = (r, s') \<Longrightarrow>
     \<exists>n. 1 \<le> n \<and> n \<le> Suc left \<and> s' = s @ replicate n (fnox_command cl [''set'', name]) \<and>
         (\<forall>k. r = Inr k \<longrightarrow> k = length s' - 1)"
proof (induction w cl name left s arbitrary: r s' rule: spawn_attempts.induct)
  case (1 w cl name left s)
  let ?p = "fnox_command cl [''set'', name]"
  show ?case
  proof (cases "\<exists>f n. fw_spawn w (length s) ?p = Some f \<and> left = Suc n \<and> is_text_file_busy f")
    case True
    then obtain f n where f: "fw_spawn w (length s) ?p = Some f"
      and n: "left = Suc n" and b: "is_text_file_busy f" by blast
    from f n b 1(2) have "spawn_attempts w cl name n (s @ [?p]) = (r, s')"
      by (simp add: spawn_attempts.simps [of w cl name "Suc n"] Let_def)
    from 1(1) [OF refl refl f n b this] obtain k where "1 \<le> k" "k \<le> Suc n"
      "s' = s @ ?p # replicate k ?p" "\<forall>j. r = Inr j \<longrightarrow> j = length s' - 1" by auto
    then show ?thesis using n by (intro exI [of _ "Suc k"]) simp
  next
    case False
    with 1(2) have "s' = s @ [?p] \<and> (\<forall>k. r = Inr k \<longrightarrow> k = length s)"
      by (auto simp: spawn_attempts.simps [of w cl name left] Let_def
          split: option.splits nat.splits if_splits)
    then show ?thesis by (intro exI [of _ 1]) simp
  qed
qed

text \<open>A value is written to standard input only: no command line has it as an argument.\<close>

lemma fnox_set_trace:
  assumes "fnox_set w cl name v s = (r, s')"
  shows "\<exists>ps. s' = s @ ps \<and> length ps \<le> FNOX_ETXTBSY_ATTEMPTS \<and>
    (\<forall>p \<in> set ps. fp_args p = [''set'', name] \<and> fp_stdin p \<in> {None, Some v})"
proof -
  let ?p = "fnox_command cl [''set'', name]"
  obtain q s1 where sp: "spawn_set_child w cl name s = (q, s1)" by fastforce
  then obtain n where n: "1 \<le> n" "n \<le> FNOX_ETXTBSY_ATTEMPTS" "s1 = s @ replicate n ?p"
      and k: "\<forall>k. q = Inr k \<longrightarrow> k = length s1 - 1"
    using spawn_attempts_trace [of w cl name "FNOX_ETXTBSY_ATTEMPTS - 1" s q s1]
    by (auto simp: spawn_set_child_def FNOX_ETXTBSY_ATTEMPTS_def)
  have *: "fp_args ?p = [''set'', name]" "fp_stdin ?p = None" by (simp_all add: fnox_command_def)
  show ?thesis
  proof (cases q)
    case (Inl e)
    with sp assms have "s' = s1" by (simp add: fnox_set_def act_bind_def)
    with n * show ?thesis by (intro exI [of _ "replicate n ?p"]) auto
  next
    case (Inr j)
    from n(1) obtain m where m: "n = Suc m" by (cases n) simp_all
    with Inr k n have j: "j = length s + m" by simp
    from sp Inr assms have "s' = give_stdin j v s1"
      by (auto simp: fnox_set_def act_bind_def act_then_def act_modify_def act_return_def act_fail_def
          split: option.splits io_failure.splits if_splits run_result.splits)
    also have "\<dots> = s @ (replicate n ?p)[m := ?p\<lparr>fp_stdin := Some v\<rparr>]"
      using n(3) j m by (simp add: give_stdin_def list_update_append nth_append del: replicate.simps)
    finally show ?thesis using n *
      by (intro exI [of _ "(replicate n ?p)[m := ?p\<lparr>fp_stdin := Some v\<rparr>]"])
        (auto dest!: set_update_subset_insert [THEN subsetD])
  qed
qed

lemma fnox_list_trace:
  "fnox_list w cl s = (r, s') \<Longrightarrow>
   \<exists>ps. s' = s @ ps \<and> (\<forall>p \<in> set ps. fp_args p = [''list''] \<and> fp_stdin p = None)"
proof -
  assume l: "fnox_list w cl s = (r, s')"
  obtain q s1 where q: "run_attempts w cl [''list''] (FNOX_ETXTBSY_ATTEMPTS - 1) s = (q, s1)"
    by fastforce
  from run_attempts_trace [OF this] obtain n where
    "s1 = s @ replicate n (fnox_command cl [''list''])" by blast
  moreover have "s' = s1"
    using l q by (auto simp: fnox_list_def fnox_run_def act_bind_def act_fail_def act_return_def
        split: sum.splits if_splits)
  ultimately show ?thesis by (auto simp: fnox_command_def)
qed

section \<open>The list is read back\<close>

lemma drop_seqs_dropped: "\<exists>d. s = d @ drop_seqs ws s \<and> set d \<subseteq> (\<Union>w \<in> set ws. set w)"
proof (induction ws s rule: drop_seqs.induct)
  case (1 ws s)
  show ?case
  proof (cases "find (\<lambda>w. w \<noteq> [] \<and> prefix w s) ws")
    case None
    then have "drop_seqs ws s = s" by (subst drop_seqs.simps) simp
    then show ?thesis by (intro exI [of _ "[]"]) simp
  next
    case (Some w)
    then have w: "w \<in> set ws" "s = w @ drop (length w) s"
      by (auto simp: find_Some_iff prefix_def)
    from 1 Some obtain d where "drop (length w) s = d @ drop_seqs ws (drop (length w) s)"
      "set d \<subseteq> (\<Union>w \<in> set ws. set w)" by blast
    moreover have "drop_seqs ws s = drop_seqs ws (drop (length w) s)"
      using Some by (subst drop_seqs.simps) simp
    ultimately show ?thesis using w
      by (intro exI [of _ "w @ d"]) auto
  qed
qed

lemma ws_seqs_bytes: "w \<in> set ws_seqs \<Longrightarrow> c \<in> set w \<Longrightarrow> \<not> visible c"
  by (auto simp: ws_seqs_def visible_def is_ascii_def less_eq_char_def)

lemma trim_end_keeps:
  assumes "list_all visible n"
  shows "\<exists>r'. trim_end (n @ r) = n @ r' \<and> prefix r' r"
proof -
  obtain d where d: "rev (n @ r) = d @ drop_seqs (map rev ws_seqs) (rev (n @ r))"
    "set d \<subseteq> (\<Union>w \<in> set (map rev ws_seqs). set w)" using drop_seqs_dropped by metis
  let ?t = "trim_end (n @ r)"
  have eq: "n @ r = ?t @ rev d"
    unfolding trim_end_def by (metis d(1) rev_append rev_rev_ident)
  have "length n \<le> length ?t"
  proof (rule ccontr)
    assume "\<not> length n \<le> length ?t"
    then obtain x xs where "n = ?t @ x # xs"
      using eq by (metis append_eq_append_conv_if append_take_drop_id linorder_not_le
          list.exhaust append_Nil2 le_refl)
    with eq have "x \<in> set d" by (metis append.assoc append_Cons in_set_conv_decomp same_append_eq set_rev list.set_intros(1))
    with d(2) have "\<not> visible x" using ws_seqs_bytes by auto
    moreover have "x \<in> set n" using \<open>n = ?t @ x # xs\<close> by (metis in_set_conv_decomp)
    ultimately show False using assms by (simp add: list_all_iff)
  qed
  with eq show ?thesis
    by (metis append_eq_append_conv_if append_take_drop_id prefix_def append.assoc same_append_eq)
qed

definition sep_byte :: "char \<Rightarrow> bool" where
  "sep_byte c \<longleftrightarrow> c \<in> {CHR '' '', CHR 0x09, CHR ''|'', CHR '':''}"

lemma sep_byte_list_seps: "sep_byte c \<Longrightarrow> [c] \<in> set list_seps"
  by (auto simp: sep_byte_def list_seps_def ws_seqs_def)

lemma list_seps_heads: "w \<in> set list_seps \<Longrightarrow> w \<noteq> [] \<and> \<not> secret_name_byte (hd w)"
  by (auto simp: list_seps_def ws_seqs_def secret_name_byte_def ascii_alnum_def ascii_upper_def
      ascii_lower_def ascii_digit_def less_eq_char_def)

lemma secret_name_byte_visible: "secret_name_byte c \<Longrightarrow> visible c"
  by (auto simp: secret_name_byte_def ascii_alnum_def ascii_upper_def ascii_lower_def
      ascii_digit_def visible_def is_ascii_def less_eq_char_def)

lemma no_sep_prefix: "secret_name_byte c \<Longrightarrow> w \<in> set list_seps \<Longrightarrow> \<not> prefix w (c # s)"
  using list_seps_heads [of w] by (cases w) auto

lemma take_until_name:
  "list_all secret_name_byte n \<Longrightarrow> r = [] \<or> sep_byte (hd r) \<Longrightarrow> take_until list_seps (n @ r) = n"
proof (induction n)
  case Nil
  then show ?case
    using sep_byte_list_seps [of "hd r"]
    by (cases r) (auto simp: list_ex_iff intro!: bexI [of _ "[hd r]"])
next
  case (Cons c n)
  then have "\<not> list_ex (\<lambda>w. prefix w (c # n @ r)) list_seps"
    using no_sep_prefix by (auto simp: list_ex_iff)
  with Cons show ?case by simp
qed

lemma trim_name_line:
  assumes "is_valid_secret_name n"
  shows "\<exists>r'. trim (n @ r) = n @ r' \<and> prefix r' r"
proof -
  have vis: "list_all visible n" "n \<noteq> []"
    using assms secret_name_byte_visible by (auto simp: is_valid_secret_name_def list_all_iff)
  have "trim_start (n @ r) = n @ r"
  proof (rule trim_start_fixed)
    fix w assume w: "w \<in> set ws_seqs"
    then obtain b v where "w = b # v" by (metis neq_Nil_conv ws_seqs_nonempty)
    moreover obtain a m where "n = a # m" using vis(2) by (metis neq_Nil_conv)
    ultimately show "\<not> prefix w (n @ r)" using ws_seqs_ends [OF w] vis(1) by auto
  qed
  then show ?thesis using trim_end_keeps [OF vis(1), of r] by (simp add: trim_def)
qed

lemma sep_byte_no_name: "sep_byte c \<Longrightarrow> \<not> secret_name_byte c"
  using list_seps_heads [OF sep_byte_list_seps, of c] by simp

lemma name_is_prefix:
  assumes "list_all secret_name_byte n" "list_all secret_name_byte p"
    and "r = [] \<or> sep_byte (hd r)" "prefix (p @ '' '' @ q) (n @ r)"
  shows "n = p"
proof -
  have sp: "\<not> secret_name_byte (CHR '' '')" by (rule sep_byte_no_name) (simp add: sep_byte_def)
  obtain z where "n @ r = p @ CHR '' '' # z" using assms(4) by (auto simp: prefix_def)
  then consider (short) u where "n = p @ u" "u @ r = CHR '' '' # z"
    | (long) u where "p = n @ u" "r = u @ CHR '' '' # z"
    by (auto simp: append_eq_append_conv2)
  then show ?thesis
  proof cases
    case short
    with assms(1) sp show ?thesis by (cases u) auto
  next
    case long
    with assms(2,3) sep_byte_no_name show ?thesis by (cases u) auto
  qed
qed

lemma list_line_of_name:
  assumes "is_valid_secret_name n" "list_ex ascii_alnum n" "n \<noteq> ''No''" "r = [] \<or> sep_byte (hd r)"
  shows "list_line_name (n @ r) = (if is_fnox_list_header_token n then None else Some n)"
proof -
  obtain r' where t: "trim (n @ r) = n @ r'" and "prefix r' r"
    using trim_name_line [OF assms(1)] by blast
  then have sep: "r' = [] \<or> sep_byte (hd r')"
    using assms(4) by (cases r'; cases r) auto
  have nb: "list_all secret_name_byte n" "n \<noteq> []"
    using assms(1) by (simp_all add: is_valid_secret_name_def)
  have lit: "list_all secret_name_byte ''No''" "list_all secret_name_byte ''Secret''"
    "list_all secret_name_byte ''KEY''" "list_all secret_name_byte ''Name''" by code_simp+
  have hdr: "is_fnox_list_header_token ''Secret''" "is_fnox_list_header_token ''KEY''"
    "is_fnox_list_header_token ''Name''" by code_simp+
  have "\<not> prefix ''#'' (n @ r')" using nb by (cases n) (auto simp: secret_name_byte_def ascii_alnum_def
      ascii_upper_def ascii_lower_def ascii_digit_def less_eq_char_def)
  moreover have "\<not> prefix (''No'' @ '' '' @ ''secrets defined'') (n @ r')"
    "\<not> prefix (''No'' @ '' '' @ ''secrets found'') (n @ r')"
    using name_is_prefix [OF nb(1) lit(1) sep] assms(3) by blast+
  moreover have "prefix (''Secret'' @ '' '' @ []) (n @ r') \<Longrightarrow> is_fnox_list_header_token n"
    "prefix (''KEY'' @ '' '' @ []) (n @ r') \<Longrightarrow> is_fnox_list_header_token n"
    "prefix (''Name'' @ '' '' @ []) (n @ r') \<Longrightarrow> is_fnox_list_header_token n"
    using name_is_prefix [OF nb(1) lit(2) sep] name_is_prefix [OF nb(1) lit(3) sep]
      name_is_prefix [OF nb(1) lit(4) sep] hdr by metis+
  moreover have "\<not> list_all (\<lambda>c. \<not> ascii_alnum c) (n @ r')"
    using assms(2) by (auto simp: list_all_iff list_ex_iff)
  ultimately have skip: "list_line_skipped (n @ r') \<Longrightarrow> is_fnox_list_header_token n"
    using nb(2) by (auto simp: list_line_skipped_def)
  have "drop_seqs list_seps (n @ r') = n @ r'"
  proof (rule drop_seqs_fixed)
    fix w assume "w \<in> set list_seps"
    with no_sep_prefix nb show "\<not> prefix w (n @ r')" by (cases n) auto
  qed
  with take_until_name [OF nb(1) sep]
  have "take_until list_seps (drop_seqs list_seps (n @ r')) = n" by simp
  with skip t nb(2) assms(1) show ?thesis
    by (auto simp: list_line_name_def Let_def)
qed

lemma str_lines_join:
  assumes "\<And>l. l \<in> set ls \<Longrightarrow> CHR 0x0A \<notin> set l \<and> \<not> suffix [CHR 0x0D] l"
  shows "str_lines (concat (map (\<lambda>l. l @ [CHR 0x0A]) ls)) = ls"
proof -
  have "split_char (CHR 0x0A) (concat (map (\<lambda>l. l @ [CHR 0x0A]) ls)) = ls @ [[]]"
    using assms
  proof (induction ls)
    case (Cons l ls)
    have "CHR 0x0A \<notin> set l \<Longrightarrow> split_char (CHR 0x0A) (l @ CHR 0x0A # s) = l # split_char (CHR 0x0A) s" for s
      by (induction l) auto
    with Cons show ?case by simp
  qed simp
  then show ?thesis
    using assms by (auto simp: str_lines_def Let_def strip_suffix_def map_idI)
qed

text \<open>
  The list of names is read back exactly from a listing with one secret per line, its name
  first: every name is returned, in order, but for the words of a header
  (\<open>key\<close>, \<open>name\<close>, \<open>secret\<close>, \<open>type\<close>, \<open>provider\<close>, \<open>description\<close> in any case).
\<close>

theorem fnox_names_read_back:
  assumes "\<And>n r. (n, r) \<in> set es \<Longrightarrow>
      is_valid_secret_name n \<and> list_ex ascii_alnum n \<and> n \<noteq> ''No'' \<and> (r = [] \<or> sep_byte (hd r)) \<and>
      CHR 0x0A \<notin> set r \<and> \<not> suffix [CHR 0x0D] (n @ r)"
  shows "parse_fnox_list_names (concat (map (\<lambda>(n, r). n @ r @ [CHR 0x0A]) es)) =
         filter (\<lambda>n. \<not> is_fnox_list_header_token n) (map fst es)"
proof -
  have nl: "CHR 0x0A \<notin> set n" if "is_valid_secret_name n" for n
  proof -
    have "\<not> secret_name_byte (CHR 0x0A)" by code_simp
    with that show ?thesis by (auto simp: is_valid_secret_name_def list_all_iff)
  qed
  have "concat (map (\<lambda>(n, r). n @ r @ [CHR 0x0A]) es) =
      concat (map (\<lambda>l. l @ [CHR 0x0A]) (map (\<lambda>(n, r). n @ r) es))"
    by (simp add: case_prod_unfold comp_def)
  moreover have "str_lines (concat (map (\<lambda>l. l @ [CHR 0x0A]) (map (\<lambda>(n, r). n @ r) es))) =
      map (\<lambda>(n, r). n @ r) es"
  proof (rule str_lines_join)
    fix l assume "l \<in> set (map (\<lambda>(n, r). n @ r) es)"
    then obtain n r where "(n, r) \<in> set es" "l = n @ r" by auto
    with assms [of n r] nl [of n] show "CHR 0x0A \<notin> set l \<and> \<not> suffix [CHR 0x0D] l" by auto
  qed
  moreover have "List.map_filter list_line_name (map (\<lambda>(n, r). n @ r) es) =
      filter (\<lambda>n. \<not> is_fnox_list_header_token n) (map fst es)"
    using assms
  proof (induction es)
    case (Cons e es)
    obtain n r where e: "e = (n, r)" by fastforce
    have "list_line_name (n @ r) = (if is_fnox_list_header_token n then None else Some n)"
      using Cons.prems [of n r] e by (intro list_line_of_name) auto
    with Cons.IH [OF Cons.prems] e show ?case by (simp add: map_filter_simps)
  qed (simp add: map_filter_simps)
  ultimately show ?thesis by (simp add: parse_fnox_list_names_def)
qed

theorem fnox_names_read_back_witness:
  "parse_fnox_list_names (concat (map (\<lambda>(n, r). n @ r @ [CHR 0x0A])
      [(''API_KEY'', ''  age  OpenAI''), (''secret'', []), (''b-2'', '': x'')])) = [''API_KEY'', ''b-2'']"
proof -
  have k: "is_fnox_list_header_token ''secret''" "\<not> is_fnox_list_header_token ''API_KEY''"
    "\<not> is_fnox_list_header_token ''b-2''" by code_simp+
  have "parse_fnox_list_names (concat (map (\<lambda>(n, r). n @ r @ [CHR 0x0A])
      [(''API_KEY'', ''  age  OpenAI''), (''secret'', []), (''b-2'', '': x'')])) =
    filter (\<lambda>n. \<not> is_fnox_list_header_token n)
      (map fst [(''API_KEY'', ''  age  OpenAI''), (''secret'', []), (''b-2'', '': x'')])"
    by (rule fnox_names_read_back)
      (auto simp: is_valid_secret_name_def secret_name_byte_def ascii_alnum_def ascii_upper_def
        ascii_lower_def ascii_digit_def sep_byte_def less_eq_char_def suffix_def)
  with k show ?thesis by simp
qed

end
