(* ===== verification/Gateway_Secrets.thy ===== *)
theory Gateway_Secrets
  imports Model_Gateway Fnox_Client Secret_Metadata
begin

text \<open>
  The secret interface of the model gateway (\<open>crates/calciforge/src/proxy/handlers.rs\<close>):
  \<open>secret_list\<close> and \<open>secret_reference\<close> for whoever has the discovery key, \<open>secret_set\<close> for
  whoever has the control key.  The identity of a request is read from its headers by the same
  code as in the security proxy, \<^const>\<open>secret_access_identity_from_headers\<close>.
\<close>

section \<open>The environment\<close>

text \<open>
  Environment, files and parsers of the policy and of the sidecar, the \<open>fnox\<close> program, and the
  message of a blocking task that could not be joined.
\<close>

record ('e, 'p, 'q) control_world =
  cw_env :: env
  cw_fault :: "'e faults"
  cw_toml :: "string \<Rightarrow> 'q + toml"
  cw_policy :: "toml \<Rightarrow> 'q + secret_access_policy"
  cw_task :: "string option"
  cw_parse :: "string \<Rightarrow> 'p + secret_metadata_store"
  cw_print :: "secret_metadata_store \<Rightarrow> 'p + string"
  cw_fnox :: fnox_world
  cw_client :: fnox_client
  cw_debug :: "string \<Rightarrow> string"
  cw_io_text :: "'e io_err \<Rightarrow> string"
  cw_json_text :: "'p \<Rightarrow> string"
  cw_toml_text :: "'q \<Rightarrow> string"

definition access_policy_error_text ::
  "('e, 'p, 'q) control_world \<Rightarrow> ('e, 'q) access_policy_error \<Rightarrow> string" where
  "access_policy_error_text w e =
     (case e of
        AP_Read path x \<Rightarrow> ''failed to read secret access policy at '' @ path @ '': '' @ cw_io_text w x
      | AP_Parse path x \<Rightarrow> ''failed to parse secret access policy at '' @ path @ '': '' @ cw_toml_text w x)"

definition control_metadata_text ::
  "('e, 'p, 'q) control_world \<Rightarrow> ('e, 'p) metadata_error \<Rightarrow> string" where
  "control_metadata_text w = show_metadata_error (cw_debug w) (cw_io_text w) (cw_json_text w)"

section \<open>Replies\<close>

definition auth_reply :: "auth_error \<Rightarrow> gateway_reply" where
  "auth_reply e = api_error (ae_status e) (ae_code e) (ae_message e) None"

definition ok_json :: "json_map \<Rightarrow> gateway_reply" where
  "ok_json kvs = JsonReply 200 [] (json_struct kvs)"

definition secret_metadata_json :: "secret_metadata \<Rightarrow> json" where
  "secret_metadata_json md =
     json_struct [(''name'', JStr (md_name md)),
                  (''allowed_destinations'', JArr (map JStr (md_allowed_destinations md)))]"

definition store_unavailable ::
  "('e, 'p, 'q) control_world \<Rightarrow> string \<Rightarrow> fnox_error \<Rightarrow> gateway_reply" where
  "store_unavailable w op e =
     api_error 503 ''secret_store_unavailable''
       (''fnox '' @ op @ '' failed: '' @ fnox_error_text (cw_debug w) e) None"

definition invalid_name_reply :: gateway_reply where
  "invalid_name_reply =
     api_error 400 ''invalid_secret_name''
       ''Secret names may contain only A-Z, a-z, 0-9, underscore, and dash'' (Some ''name'')"

section \<open>Discovery\<close>

definition secret_access_context_from_headers ::
  "('e, 'p, 'q) control_world \<Rightarrow> fs \<Rightarrow> header_map \<Rightarrow>
   gateway_reply + secret_access_policy \<times> secret_access_identity" where
  "secret_access_context_from_headers w fs hs =
     (case cw_task w of
        Some err \<Rightarrow> Inl (api_error 503 ''secret_access_policy_unavailable''
          (''secret access policy load task failed: '' @ err) None)
      | None \<Rightarrow>
     (case load_default_access_policy (cw_toml w) (cw_policy w) (fs_read (cw_fault w) fs) (cw_env w) of
        Inl e \<Rightarrow> Inl (api_error 503 ''secret_access_policy_unavailable''
          (''secret access policy unavailable: '' @ access_policy_error_text w e) None)
      | Inr policy \<Rightarrow> Inr (policy, secret_access_identity_from_headers hs)))"

definition listed_reply ::
  "('e, 'p, 'q) control_world \<Rightarrow> fs \<Rightarrow> string list \<Rightarrow> gateway_reply" where
  "listed_reply w fs names =
     (case metadata_for_names (cw_parse w) (cw_fault w) fs (cw_env w) names of
        Inl e \<Rightarrow> api_error 503 ''secret_metadata_unavailable''
          (''secret metadata unavailable: '' @ control_metadata_text w e) None
      | Inr mds \<Rightarrow> ok_json [(''secrets'', JArr (map JStr names)),
                            (''metadata'', JArr (map secret_metadata_json mds))])"

definition secret_list ::
  "('e, 'p, 'q) control_world \<Rightarrow> proxy_config \<Rightarrow> header_map \<Rightarrow> fs \<Rightarrow> fnox_state \<Rightarrow>
   gateway_reply \<times> fnox_state" where
  "secret_list w cfg hs fs ps =
     (case require_secret_discovery_api_key cfg hs of
        Inl e \<Rightarrow> (auth_reply e, ps)
      | Inr _ \<Rightarrow>
     (case secret_access_context_from_headers w fs hs of
        Inl reply \<Rightarrow> (reply, ps)
      | Inr (policy, i) \<Rightarrow>
     (case fnox_list (cw_fnox w) (cw_client w) ps of
        (Inl e, ps') \<Rightarrow> (store_unavailable w ''list'' e, ps')
      | (Inr names, ps') \<Rightarrow> (listed_reply w fs (filter_names policy i names), ps'))))"

definition secret_reference ::
  "('e, 'p, 'q) control_world \<Rightarrow> proxy_config \<Rightarrow> header_map \<Rightarrow> string \<Rightarrow> fs \<Rightarrow> gateway_reply" where
  "secret_reference w cfg hs name fs =
     (case require_secret_discovery_api_key cfg hs of
        Inl e \<Rightarrow> auth_reply e
      | Inr _ \<Rightarrow>
     (case secret_reference_token name of
        None \<Rightarrow> invalid_name_reply
      | Some r \<Rightarrow>
     (case secret_access_context_from_headers w fs hs of
        Inl reply \<Rightarrow> reply
      | Inr (policy, i) \<Rightarrow>
          if policy_allows policy i name then ok_json [(''reference'', JStr r)]
          else api_error 403 ''secret_access_denied''
                 ''Secret is not allowed for the current Calciforge identity'' (Some ''name''))))"

section \<open>Storing\<close>

text \<open>\<open>serde_json::from_value::<Vec<String>>\<close>.\<close>

definition string_list :: "json \<Rightarrow> string list option" where
  "string_list v =
     (case as_array v of
        None \<Rightarrow> None
      | Some xs \<Rightarrow> if list_all (\<lambda>x. as_str x \<noteq> None) xs then Some (List.map_filter as_str xs) else None)"

text \<open>\<^const>\<open>None\<close> inside: the request does not name destinations.\<close>

definition requested_destinations ::
  "('e, 'p, 'q) control_world \<Rightarrow> json \<Rightarrow> gateway_reply + string list option" where
  "requested_destinations w body =
     (case json_get ''allowed_destinations'' body of
        None \<Rightarrow> Inr None
      | Some v \<Rightarrow>
     (case string_list v of
        None \<Rightarrow> Inl (api_error 400 ''bad_request''
          ''allowed_destinations must be an array of host patterns'' (Some ''allowed_destinations''))
      | Some values \<Rightarrow>
     (case (parse_destinations (join_with '','' values) :: ('e, 'p) metadata_error + string list) of
        Inl e \<Rightarrow> Inl (api_error 400 ''invalid_allowed_destinations'' (control_metadata_text w e)
          (Some ''allowed_destinations''))
      | Inr ds \<Rightarrow> Inr (Some ds))))"

definition stored_reply ::
  "('e, 'p, 'q) control_world \<Rightarrow> string \<Rightarrow> fnox_error + unit \<Rightarrow> gateway_reply" where
  "stored_reply w name r =
     (case r of Inl e \<Rightarrow> store_unavailable w ''set'' e | Inr _ \<Rightarrow> ok_json [(''stored'', JStr name)])"

text \<open>
  The checks of \<open>secret_set\<close> in their order: the name, the value and the destinations, or the
  refusal.
\<close>

definition secret_set_check ::
  "('e, 'p, 'q) control_world \<Rightarrow> proxy_config \<Rightarrow> header_map \<Rightarrow> json \<Rightarrow>
   gateway_reply + string \<times> string \<times> string list option" where
  "secret_set_check w cfg hs body =
     (case require_control_api_key cfg hs of
        Inl e \<Rightarrow> Inl (auth_reply e)
      | Inr _ \<Rightarrow>
     (case get_str ''name'' body of
        None \<Rightarrow> Inl (api_error 400 ''bad_request''
          ''Request body must include {\"name\":\"...\",\"value\":\"...\"}'' (Some ''name''))
      | Some name \<Rightarrow>
          if secret_reference_token name = None then Inl invalid_name_reply
          else (case get_str ''value'' body of
            None \<Rightarrow> Inl (api_error 400 ''bad_request''
              ''Request body must include a non-empty string value'' (Some ''value''))
          | Some v \<Rightarrow>
              if v = [] then Inl (api_error 400 ''bad_request''
                ''Request body must include a non-empty string value'' (Some ''value''))
              else res_bind (requested_destinations w body) (\<lambda>ds. Inr (name, v, ds)))))"

text \<open>\<^const>\<open>None\<close>: the metadata lock is still being polled at the end of the rounds.\<close>

definition secret_set ::
  "('e, 'p, 'q) control_world \<Rightarrow> proxy_config \<Rightarrow> header_map \<Rightarrow> json \<Rightarrow> string \<Rightarrow>
   (bool \<times> (fs \<Rightarrow> fs)) list \<Rightarrow> fs \<Rightarrow> fnox_state \<Rightarrow> (gateway_reply \<times> fs \<times> fnox_state) option" where
  "secret_set w cfg hs body nanos rounds fs ps =
     (case secret_set_check w cfg hs body of
        Inl reply \<Rightarrow> Some (reply, fs, ps)
      | Inr (name, v, dests) \<Rightarrow>
     (case (case dests of
              None \<Rightarrow> Some (Inr (), fs)
            | Some ds \<Rightarrow> set_allowed_destinations (cw_parse w) (cw_print w) (cw_fault w) (cw_env w)
                           nanos rounds fs name ds) of
        None \<Rightarrow> None
      | Some (Inl e, fs') \<Rightarrow> Some (api_error 503 ''secret_metadata_unavailable''
          (''destination policy was not stored; refusing to write secret value: '' @
           control_metadata_text w e) None, fs', ps)
      | Some (Inr _, fs') \<Rightarrow>
          (case fnox_set (cw_fnox w) (cw_client w) name v ps of
             (r, ps') \<Rightarrow> Some (stored_reply w name r, fs', ps'))))"

section \<open>Who may store what\<close>

lemma secret_set_check_ok:
  assumes "secret_set_check w cfg hs body = Inr (name, v, dests)"
  shows "(\<exists>k. px_control_key cfg = Some k \<and> trim k \<noteq> [] \<and> bearer_token hs = Some (trim k)) \<and>
    get_str ''name'' body = Some name \<and> is_valid_secret_name name \<and>
    get_str ''value'' body = Some v \<and> v \<noteq> [] \<and> requested_destinations w body = Inr dests"
  using assms control_key_needed [of cfg hs]
  by (auto simp: secret_set_check_def secret_reference_token_def res_bind_Inr_iff
      split: sum.splits option.splits if_splits)

text \<open>
  What a call of \<open>secret_set\<close> may change, as a whole: nothing without the control key; then
  the sidecar as the body says, and the processes that store the value.
\<close>

definition set_effect ::
  "('e, 'p, 'q) control_world \<Rightarrow> proxy_config \<Rightarrow> header_map \<Rightarrow> json \<Rightarrow> string \<Rightarrow>
   (bool \<times> (fs \<Rightarrow> fs)) list \<Rightarrow> fs \<Rightarrow> fs \<Rightarrow> fnox_process list \<Rightarrow> string \<Rightarrow> string \<Rightarrow> bool" where
  "set_effect w cfg hs body nanos rounds fs fs' new name v \<longleftrightarrow>
     (\<exists>k. px_control_key cfg = Some k \<and> trim k \<noteq> [] \<and> bearer_token hs = Some (trim k)) \<and>
     get_str ''name'' body = Some name \<and> is_valid_secret_name name \<and>
     get_str ''value'' body = Some v \<and> v \<noteq> [] \<and>
     length new \<le> FNOX_ETXTBSY_ATTEMPTS \<and>
     (\<forall>p \<in> set new. fp_args p = [''set'', name] \<and> fp_stdin p \<in> {None, Some v}) \<and>
     (case json_get ''allowed_destinations'' body of
        None \<Rightarrow> fs' = fs
      | Some x \<Rightarrow>
          (\<exists>values ds. string_list x = Some values \<and>
            (parse_destinations (join_with '','' values) :: ('e, 'p) metadata_error + string list) = Inr ds \<and>
            (\<exists>r. set_allowed_destinations (cw_parse w) (cw_print w) (cw_fault w) (cw_env w) nanos
                  rounds fs name ds = Some (r, fs') \<and> (new \<noteq> [] \<longrightarrow> r = Inr ()))))"

lemma secret_set_effect:
  assumes "secret_set_check w cfg hs body = Inr (name, v, dests)"
    and "secret_set w cfg hs body nanos rounds fs ps = Some (reply, fs', ps')"
  shows "\<exists>new. ps' = ps @ new \<and> set_effect w cfg hs body nanos rounds fs fs' new name v"
proof -
  note ok = secret_set_check_ok [OF assms(1)]
  define stored where "stored = (case dests of None \<Rightarrow> Some (Inr (), fs)
      | Some ds \<Rightarrow> set_allowed_destinations (cw_parse w) (cw_print w) (cw_fault w) (cw_env w)
                     nanos rounds fs name ds)"
  have run: "(case stored of None \<Rightarrow> None
      | Some (Inl e, fs') \<Rightarrow> Some (api_error 503 ''secret_metadata_unavailable''
          (''destination policy was not stored; refusing to write secret value: '' @
           control_metadata_text w e) None, fs', ps)
      | Some (Inr _, fs') \<Rightarrow>
          (case fnox_set (cw_fnox w) (cw_client w) name v ps of
             (r, ps') \<Rightarrow> Some (stored_reply w name r, fs', ps'))) = Some (reply, fs', ps')"
    using assms by (simp add: secret_set_def stored_def)
  then obtain r where r: "stored = Some (r, fs')"
    by (auto split: option.splits prod.splits sum.splits)
  obtain new where new: "ps' = ps @ new" "length new \<le> FNOX_ETXTBSY_ATTEMPTS"
      "\<forall>p \<in> set new. fp_args p = [''set'', name] \<and> fp_stdin p \<in> {None, Some v}"
      "new \<noteq> [] \<longrightarrow> r = Inr ()"
  proof (cases r)
    case (Inl e)
    with run r have "ps' = ps @ []" by simp
    with that [of "[]"] show ?thesis by simp
  next
    case (Inr u)
    with run r obtain q where "fnox_set (cw_fnox w) (cw_client w) name v ps = (q, ps')"
      by (auto split: prod.splits)
    from fnox_set_trace [OF this] obtain new where "ps' = ps @ new"
      "length new \<le> FNOX_ETXTBSY_ATTEMPTS"
      "\<forall>p \<in> set new. fp_args p = [''set'', name] \<and> fp_stdin p \<in> {None, Some v}" by blast
    then show ?thesis by (rule that) (simp add: Inr)
  qed
  have "case json_get ''allowed_destinations'' body of
        None \<Rightarrow> fs' = fs
      | Some x \<Rightarrow>
          (\<exists>values ds. string_list x = Some values \<and>
            (parse_destinations (join_with '','' values) :: ('a, 'b) metadata_error + string list) = Inr ds \<and>
            (\<exists>r. set_allowed_destinations (cw_parse w) (cw_print w) (cw_fault w) (cw_env w) nanos
                  rounds fs name ds = Some (r, fs') \<and> (new \<noteq> [] \<longrightarrow> r = Inr ())))"
    using ok r new(4)
    by (auto simp: requested_destinations_def stored_def split: option.splits sum.splits)
  with ok new show ?thesis by (auto simp: set_effect_def)
qed


section \<open>Who may learn which names\<close>

lemma context_Inr:
  assumes "secret_access_context_from_headers w fs hs = Inr (policy, i)"
  shows "load_default_access_policy (cw_toml w) (cw_policy w) (fs_read (cw_fault w) fs) (cw_env w) = Inr policy
    \<and> i = secret_access_identity_from_headers hs"
  using assms
  by (auto simp: secret_access_context_from_headers_def split: option.splits sum.splits)

definition names_of :: "json \<Rightarrow> string list" where
  "names_of j =
     (case json_get ''secrets'' j of
        Some (JArr xs) \<Rightarrow> List.map_filter as_str xs
      | _ \<Rightarrow> [])"

lemma api_error_not_ok: "api_error st t m p \<noteq> JsonReply 200 h j" if "st \<noteq> 200"
  using that by (simp add: api_error_def)

lemma names_of_ok:
  "names_of (json_struct [(''secrets'', JArr (map JStr names)), (''metadata'', x)]) = names"
  by (simp add: names_of_def json_struct_get map_filter_def comp_def as_str_def)

text \<open>
  C18: Discovery discloses only what the policy allows.  A listing that succeeds was asked with
  the configured discovery key, which is not blank; the access policy was read; and the names
  in the answer are, in order, those \<open>fnox\<close> lists and the policy allows for the identity in the
  headers: neither other names nor, but for the destinations of the sidecar, anything else of a
  secret.  The only processes are \<open>fnox list\<close>.
\<close>

theorem discovery_lists_allowed:
  assumes "secret_list w cfg hs fs ps = (JsonReply 200 h j, ps')"
  shows "\<exists>k policy listed mds new. px_discovery_key cfg = Some k \<and> trim k \<noteq> [] \<and>
    bearer_token hs = Some (trim k) \<and>
    load_default_access_policy (cw_toml w) (cw_policy w) (fs_read (cw_fault w) fs) (cw_env w) = Inr policy \<and>
    fnox_list (cw_fnox w) (cw_client w) ps = (Inr listed, ps') \<and>
    names_of j = filter (policy_allows policy (secret_access_identity_from_headers hs)) listed \<and>
    j = json_struct [(''secrets'', JArr (map JStr (names_of j))),
                     (''metadata'', JArr (map secret_metadata_json mds))] \<and>
    metadata_for_names (cw_parse w) (cw_fault w) fs (cw_env w) (names_of j) = Inr mds \<and>
    ps' = ps @ new \<and> (\<forall>p \<in> set new. fp_args p = [''list''] \<and> fp_stdin p = None)"
proof -
  have key: "require_secret_discovery_api_key cfg hs = Inr ()"
  proof (cases "require_secret_discovery_api_key cfg hs")
    case (Inl e)
    then have "ae_status e \<noteq> 200"
      by (auto simp: require_secret_discovery_api_key_def require_bearer_def auth_error_of_def
          split: option.splits if_splits)
    with Inl assms show ?thesis by (simp add: secret_list_def auth_reply_def api_error_def)
  qed simp
  obtain policy i where c: "secret_access_context_from_headers w fs hs = Inr (policy, i)"
    using assms key
    by (auto simp: secret_list_def secret_access_context_from_headers_def api_error_def
        split: sum.splits option.splits)
  obtain listed where l: "fnox_list (cw_fnox w) (cw_client w) ps = (Inr listed, ps')"
      "listed_reply w fs (filter_names policy i listed) = JsonReply 200 h j"
    using assms key c
    by (auto simp: secret_list_def store_unavailable_def api_error_def split: sum.splits prod.splits)
  obtain mds where m: "metadata_for_names (cw_parse w) (cw_fault w) fs (cw_env w)
        (filter_names policy i listed) = Inr mds"
      "j = json_struct [(''secrets'', JArr (map JStr (filter_names policy i listed))),
                     (''metadata'', JArr (map secret_metadata_json mds))]"
    using l(2) by (auto simp: listed_reply_def api_error_def ok_json_def split: sum.splits)
  have n: "names_of j = filter_names policy i listed" unfolding m(2) by (rule names_of_ok)
  obtain new where "ps' = ps @ new" "\<forall>p \<in> set new. fp_args p = [''list''] \<and> fp_stdin p = None"
    using fnox_list_trace [OF l(1)] by blast
  with discovery_key_needed [OF key] context_Inr [OF c] l(1) m(1) m(2) n show ?thesis
    by (auto simp: filter_names_def)
qed

section \<open>A concrete store\<close>

definition demo_control_config :: proxy_config where
  "demo_control_config =
     \<lparr>px_enabled = True, px_bind = ''b'', px_api_key = None, px_api_key_file = None,
      px_discovery_key = Some ''d'', px_discovery_key_file = None, px_control_key = Some ''k'',
      px_control_key_file = None, px_timeout_seconds = 1, px_agents = [],
      px_default_policy = DenyAll, px_backend_type = ''http'', px_gateway_ui_url = None,
      px_backend_api_key = None, px_backend_url = ''u'', px_headers = None,
      px_backend_api_key_file = None, px_providers = [], px_model_routes = [],
      px_token_estimator = \<lparr>ec_strategy = EstCharRatio, ec_tokenizer = None, ec_chars_per_token = 0,
        ec_bytes_per_token = 0, ec_safety_margin = 0\<rparr>,
      px_retry = default_retry, px_fallback_on = [], px_observability = []\<rparr>"

definition demo_control :: "(unit, unit, unit) control_world" where
  "demo_control =
     \<lparr>cw_env = Map.empty, cw_fault = (\<lambda>_. None), cw_toml = (\<lambda>_. Inl ()), cw_policy = (\<lambda>_. Inl ()),
      cw_task = None, cw_parse = (\<lambda>_. Inl ()), cw_print = (\<lambda>_. Inl ()),
      cw_fnox = \<lparr>fw_run = (\<lambda>_ _. RunOutput \<lparr>fo_code = Some 0, fo_stdout = ''A'', fo_stderr = []\<rparr>),
        fw_spawn = (\<lambda>_ _. None), fw_stdin = (\<lambda>_ _. None),
        fw_wait = (\<lambda>_. RunOutput \<lparr>fo_code = Some 0, fo_stdout = [], fo_stderr = []\<rparr>),
        fw_utf8 = (\<lambda>_. True), fw_lossy = id\<rparr>,
      cw_client = \<lparr>fx_binary = ''fnox'', fx_timeout = 5, fx_working_dir = None\<rparr>,
      cw_debug = id, cw_io_text = (\<lambda>_. []), cw_json_text = (\<lambda>_. []), cw_toml_text = (\<lambda>_. [])\<rparr>"

definition demo_set_body :: json where
  "demo_set_body = JObj [(''name'', JStr ''A''), (''value'', JStr ''v'')]"

definition demo_set_process :: fnox_process where
  "demo_set_process = \<lparr>fp_program = ''fnox'', fp_args = [''set'', ''A''], fp_dir = None, fp_stdin = Some ''v''\<rparr>"

lemma demo_keys: "bearer_token [(''authorization'', Some ''Bearer k'')] = Some ''k''"
    "bearer_token [(''authorization'', Some ''Bearer d'')] = Some ''d''"
    "trim ''k'' = ''k''" "trim ''d'' = ''d''"
  by code_simp+

lemma demo_store:
  "secret_set demo_control demo_control_config [(''authorization'', Some ''Bearer k'')] demo_set_body
     [] [] Map.empty [] = Some (ok_json [(''stored'', JStr ''A'')], Map.empty, [demo_set_process])"
proof -
  have n: "secret_reference_token ''A'' \<noteq> None" by code_simp
  have "secret_set_check demo_control demo_control_config [(''authorization'', Some ''Bearer k'')]
      demo_set_body = Inr (''A'', ''v'', None)"
    using n
    by (simp add: secret_set_check_def require_control_api_key_def require_bearer_def demo_control_config_def
        demo_keys demo_set_body_def get_str_def json_get_def as_str_def requested_destinations_def)
  then show ?thesis
    by (simp add: secret_set_def demo_control_def fnox_set_def act_bind_def spawn_set_child_def
        spawn_attempts.simps Let_def act_then_def act_modify_def act_return_def fo_success_def
        stored_reply_def give_stdin_def fnox_command_def demo_set_process_def)
qed


lemma demo_listing:
  "\<exists>ps'. secret_list demo_control demo_control_config [(''authorization'', Some ''Bearer d'')] Map.empty [] =
     (JsonReply 200 [] (json_struct [(''secrets'', JArr (map JStr [''A''])),
        (''metadata'', JArr (map secret_metadata_json [\<lparr>md_name = ''A'', md_allowed_destinations = []\<rparr>]))]), ps')"
proof -
  have p: "parse_fnox_list_names ''A'' = [''A'']" by code_simp
  have a: "policy_allows default_policy (secret_access_identity_from_headers
      [(''authorization'', Some ''Bearer d'')]) ''A''" by code_simp
  show ?thesis
    by (simp add: secret_list_def require_secret_discovery_api_key_def require_bearer_def
        demo_control_config_def demo_keys secret_access_context_from_headers_def demo_control_def
        load_default_access_policy_def default_access_policy_path_def fnox_list_def fnox_run_def
        act_bind_def run_attempts.simps Let_def fo_success_def act_return_def p filter_names_def a
        listed_reply_def metadata_for_names_def load_default_metadata_def default_metadata_path_def
        metadata_for_names_from_store_def empty_store_def ok_json_def)
qed

theorem discovery_lists_allowed_witness:
  "\<exists>j policy. names_of j = [''A''] \<and>
    load_default_access_policy (cw_toml demo_control) (cw_policy demo_control)
      (fs_read (cw_fault demo_control) Map.empty) (cw_env demo_control) = Inr policy \<and>
    bearer_token [(''authorization'', Some ''Bearer d'')] = Some ''d''"
proof -
  obtain ps' where run: "secret_list demo_control demo_control_config
      [(''authorization'', Some ''Bearer d'')] Map.empty [] =
     (JsonReply 200 [] (json_struct [(''secrets'', JArr (map JStr [''A''])),
        (''metadata'', JArr (map secret_metadata_json [\<lparr>md_name = ''A'', md_allowed_destinations = []\<rparr>]))]), ps')"
    using demo_listing by blast
  from discovery_lists_allowed [OF run] names_of_ok [of "[''A'']"] demo_keys(2) show ?thesis by blast
qed

end
