(* ===== verification/Local_Models.thy ===== *)
theory Local_Models
  imports Json_Value Act
begin

text \<open>
  Local models (\<open>crates/calciforge/src/local_model/mod.rs\<close>, \<open>mlx_lm.rs\<close>): one inference server
  at a time, started and stopped by \<open>switch\<close>.  Processes, connections and hooks are parameters
  whose answers may depend on everything that was done before; time passes in milliseconds, in
  the sleeps of the code and as long as the parameters say.
\<close>

section \<open>Configuration and state\<close>

record local_model_def =
  ld_id :: string
  ld_hf_id :: string
  ld_provider_type :: string
  ld_display_name :: "string option"

record local_model_hooks =
  lh_pre_switch :: "string option"
  lh_post_switch :: "string option"

record mlx_lm_config =
  ml_host :: string
  ml_port :: "16 word"
  ml_startup_timeout_seconds :: u64
  ml_extra_args :: "string list"
  ml_hooks :: local_model_hooks

record local_models_config =
  lc_enabled :: bool
  lc_current :: "string option"
  lc_models :: "local_model_def list"
  lc_mlx_lm :: mlx_lm_config

definition default_mlx_lm :: mlx_lm_config where
  "default_mlx_lm =
     \<lparr>ml_host = ''127.0.0.1'', ml_port = 8080, ml_startup_timeout_seconds = 120, ml_extra_args = [],
      ml_hooks = \<lparr>lh_pre_switch = None, lh_post_switch = None\<rparr>\<rparr>"

record loaded_model =
  lm_id :: string
  lm_hf_id :: string
  lm_provider_type :: string

text \<open>
  What the manager did, newest first: hooks with their results, \<open>lsof\<close> and \<open>kill\<close>, servers
  started under a process number, connections tried, and a server waited for to its end.
\<close>

datatype local_event =
    LeHook string "(string \<times> string) list" "string + unit"
  | LeLsof "16 word"
  | LeTerm string
  | LeSpawn "string list" "string + nat"
  | LeConnect string bool
  | LeEnded nat bool

record local_state =
  lt_loaded :: "loaded_model option"
  lt_server :: "nat option"
  lt_now :: nat
  lt_log :: "local_event list"

definition new_manager :: local_state where
  "new_manager = \<lparr>lt_loaded = None, lt_server = None, lt_now = 0, lt_log = []\<rparr>"

text \<open>
  The parameters: whether a text is a socket address; the result of a hook; what \<open>lsof\<close> prints
  if it succeeds; starting a server; whether a connection succeeds, and after how long; whether
  a child has exited (\<^const>\<open>None\<close>: asking failed).
\<close>

record local_world =
  lw_addr_ok :: "string \<Rightarrow> bool"
  lw_hook :: "local_event list \<Rightarrow> string \<Rightarrow> (string \<times> string) list \<Rightarrow> string + unit"
  lw_lsof :: "local_event list \<Rightarrow> 16 word \<Rightarrow> string option"
  lw_spawn :: "local_event list \<Rightarrow> string list \<Rightarrow> string + nat"
  lw_connect :: "local_event list \<Rightarrow> nat \<Rightarrow> string \<Rightarrow> bool \<times> nat"
  lw_exited :: "local_event list \<Rightarrow> nat \<Rightarrow> nat \<Rightarrow> bool option"

datatype local_error = LocalPanic | LocalFailed string

type_synonym 'a local_act = "(local_state, local_error, 'a) act"

definition log_event :: "local_event \<Rightarrow> local_state \<Rightarrow> local_state" where
  "log_event e s = s\<lparr>lt_log := e # lt_log s\<rparr>"

definition pass_time :: "nat \<Rightarrow> local_state \<Rightarrow> local_state" where
  "pass_time d s = s\<lparr>lt_now := lt_now s + d\<rparr>"

lemma pass_time_now [simp]: "lt_now (pass_time d s) = lt_now s + d"
  by (simp add: pass_time_def)

lemma log_event_now [simp]: "lt_now (log_event e s) = lt_now s"
  by (simp add: log_event_def)

definition find_model :: "local_models_config \<Rightarrow> string \<Rightarrow> local_model_def option" where
  "find_model c i = find (\<lambda>m. ld_id m = i) (lc_models c)"

section \<open>Connections\<close>

definition connect :: "local_world \<Rightarrow> string \<Rightarrow> local_state \<Rightarrow> bool \<times> local_state" where
  "connect w addr s =
     (let (ok, d) = lw_connect w (lt_log s) (lt_now s) addr
      in (ok, pass_time d (log_event (LeConnect addr ok) s)))"

lemma connect_now: "connect w addr s = (ok, s') \<Longrightarrow> lt_now s \<le> lt_now s'"
  by (auto simp: connect_def split: prod.splits)

definition show_port :: "16 word \<Rightarrow> string" where
  "show_port p = show_nat (unat p)"

section \<open>Whoever listens on the port\<close>

text \<open>Polling until the port is closed, at most fifteen seconds; every round sleeps.\<close>

function wait_closed :: "local_world \<Rightarrow> string \<Rightarrow> nat \<Rightarrow> local_state \<Rightarrow> local_state" where
  "wait_closed w addr deadline s =
     (if deadline \<le> lt_now s then s
      else case connect w addr s of
             (open, s1) \<Rightarrow> if open then wait_closed w addr deadline (pass_time 500 s1) else s1)"
  by pat_completeness auto

termination
  by (relation "measure (\<lambda>(_, _, deadline, s). deadline - lt_now s)")
    (auto dest: connect_now [OF sym])

declare wait_closed.simps [simp del]

definition is_u32_text :: "string \<Rightarrow> bool" where
  "is_u32_text s \<longleftrightarrow>
     (let ds = (case s of CHR 0x2B # ds \<Rightarrow> ds | _ \<Rightarrow> s)
      in ds \<noteq> [] \<and> list_all ascii_digit ds \<and> foldl (\<lambda>n c. 10 * n + digit_value c) 0 ds < 2 ^ 32)"

definition kill_existing_on_port :: "local_world \<Rightarrow> 16 word \<Rightarrow> local_state \<Rightarrow> local_state" where
  "kill_existing_on_port w port s =
     (let s0 = log_event (LeLsof port) s in
      case lw_lsof w (lt_log s) port of
        None \<Rightarrow> s0
      | Some out \<Rightarrow>
          let s1 = fold (\<lambda>pid. log_event (LeTerm pid)) (filter is_u32_text (ws_words [] out)) s0
          in wait_closed w (''127.0.0.1:'' @ show_port port) (lt_now s1 + 15000) s1)"

section \<open>Servers\<close>

definition server_args :: "string \<Rightarrow> mlx_lm_config \<Rightarrow> string list" where
  "server_args hf c =
     [''--model'', hf, ''--host'', ml_host c, ''--port'', show_port (ml_port c)] @ ml_extra_args c"

definition server_addr :: "mlx_lm_config \<Rightarrow> string" where
  "server_addr c = ml_host c @ '':'' @ show_port (ml_port c)"

text \<open>Polling until the server answers; a host that is not an address panics.\<close>

function wait_for_ready ::
  "local_world \<Rightarrow> mlx_lm_config \<Rightarrow> nat \<Rightarrow> local_state \<Rightarrow> (local_error + unit) \<times> local_state" where
  "wait_for_ready w c deadline s =
     (if deadline \<le> lt_now s
      then (Inl (LocalFailed (''mlx_lm.server did not become ready within '' @
              show_nat (unat (ml_startup_timeout_seconds c)) @ ''s (port '' @ show_port (ml_port c) @ '')'')), s)
      else if \<not> lw_addr_ok w (server_addr c) then (Inl LocalPanic, s)
      else case connect w (server_addr c) s of
             (True, s1) \<Rightarrow> (Inr (), pass_time 500 s1)
           | (False, s1) \<Rightarrow> wait_for_ready w c deadline (pass_time 2000 s1))"
  by pat_completeness auto

termination
  by (relation "measure (\<lambda>(_, _, deadline, s). deadline - lt_now s)")
    (auto dest: connect_now [OF sym])

declare wait_for_ready.simps [simp del]

definition start_server :: "local_world \<Rightarrow> string \<Rightarrow> mlx_lm_config \<Rightarrow> nat local_act" where
  "start_server w hf c s =
     (let s1 = kill_existing_on_port w (ml_port c) s;
          r = lw_spawn w (lt_log s1) (server_args hf c);
          s2 = log_event (LeSpawn (server_args hf c) r) s1
      in case r of
           Inl e \<Rightarrow> (Inl (LocalFailed (''spawning mlx_lm.server: '' @ e)), s2)
         | Inr pid \<Rightarrow>
             (case wait_for_ready w c (lt_now s2 + 1000 * unat (ml_startup_timeout_seconds c)) s2 of
                (Inl e, s3) \<Rightarrow> (Inl e, s3)
              | (Inr _, s3) \<Rightarrow> (Inr pid, s3)))"

text \<open>Waiting for the end of a child that was asked to end, at most ten seconds, then \<open>kill\<close>.\<close>

function wait_exit :: "local_world \<Rightarrow> nat \<Rightarrow> nat \<Rightarrow> local_state \<Rightarrow> local_state" where
  "wait_exit w pid deadline s =
     (case lw_exited w (lt_log s) (lt_now s) pid of
        None \<Rightarrow> log_event (LeEnded pid False) s
      | Some True \<Rightarrow> log_event (LeEnded pid True) s
      | Some False \<Rightarrow>
          if deadline \<le> lt_now s then log_event (LeEnded pid True) s
          else wait_exit w pid deadline (pass_time 500 s))"
  by pat_completeness auto

termination
  by (relation "measure (\<lambda>(_, _, deadline, s). deadline - lt_now s)") auto

declare wait_exit.simps [simp del]

definition stop_server :: "local_world \<Rightarrow> nat \<Rightarrow> local_state \<Rightarrow> local_state" where
  "stop_server w pid s =
     (let s1 = log_event (LeTerm (show_nat pid)) s in wait_exit w pid (lt_now s1 + 10000) s1)"

section \<open>Switching\<close>

definition run_local_hook ::
  "local_world \<Rightarrow> string option \<Rightarrow> (string \<times> string) list \<Rightarrow> unit local_act" where
  "run_local_hook w script vars s =
     (case script of
        None \<Rightarrow> (Inr (), s)
      | Some sc \<Rightarrow>
          if sc = [] then (Inr (), s)
          else let r = lw_hook w (lt_log s) sc vars; s1 = log_event (LeHook sc vars r) s
               in (case r of Inl e \<Rightarrow> (Inl (LocalFailed e), s1) | Inr _ \<Rightarrow> (Inr (), s1)))"

definition id_or_empty :: "loaded_model option \<Rightarrow> string" where
  "id_or_empty m = (case m of Some l \<Rightarrow> lm_id l | None \<Rightarrow> [])"

definition hf_or_empty :: "loaded_model option \<Rightarrow> string" where
  "hf_or_empty m = (case m of Some l \<Rightarrow> lm_hf_id l | None \<Rightarrow> [])"

text \<open>
  The parts of \<open>switch\<close> between which the manager holds no lock: what was loaded is read and
  the first hook run; the servers are exchanged; the second hook is run and the state set.  The
  first answers at once (\<^const>\<open>Inl\<close>) where the target is loaded already.
\<close>

definition switch_begin ::
  "local_world \<Rightarrow> local_models_config \<Rightarrow> string \<Rightarrow>
   (loaded_model + local_model_def \<times> loaded_model option) local_act" where
  "switch_begin w c target s =
     (case find_model c target of
        None \<Rightarrow> (Inl (LocalFailed (''unknown local model id '' @ [CHR 0x27] @ target @ [CHR 0x27] @
                 ''; use !model to list'')), s)
      | Some m \<Rightarrow>
          let prev = lt_loaded s in
          if id_or_empty prev = target
          then (case prev of Some l \<Rightarrow> (Inr (Inl l), s) | None \<Rightarrow> (Inl LocalPanic, s))
          else (case run_local_hook w (lh_pre_switch (ml_hooks (lc_mlx_lm c)))
                      [(''CALCIFORGE_PREV_MODEL_ID'', id_or_empty prev),
                       (''CALCIFORGE_PREV_MODEL_HF_ID'', hf_or_empty prev),
                       (''CALCIFORGE_MODEL_ID'', target), (''CALCIFORGE_MODEL_HF_ID'', ld_hf_id m)] s of
                  (Inl e, s1) \<Rightarrow> (Inl e, s1)
                | (Inr _, s1) \<Rightarrow> (Inr (Inr (m, prev)), s1)))"

definition start_context :: "local_model_def \<Rightarrow> local_error \<Rightarrow> local_error" where
  "start_context m e =
     (case e of
        LocalPanic \<Rightarrow> LocalPanic
      | LocalFailed _ \<Rightarrow> LocalFailed (''starting mlx_lm.server for model '' @ [CHR 0x27] @
          ld_hf_id m @ [CHR 0x27]))"

definition stop_current :: "local_world \<Rightarrow> local_state \<Rightarrow> local_state" where
  "stop_current w s =
     (case lt_server s of
        None \<Rightarrow> s | Some pid \<Rightarrow> stop_server w pid (s\<lparr>lt_server := None\<rparr>))"

definition switch_servers :: "local_world \<Rightarrow> local_models_config \<Rightarrow> local_model_def \<Rightarrow> unit local_act" where
  "switch_servers w c m s =
     (case start_server w (ld_hf_id m) (lc_mlx_lm c) (stop_current w s) of
        (Inl e, s1) \<Rightarrow> (Inl (start_context m e), s1)
      | (Inr pid, s1) \<Rightarrow> (Inr (), s1\<lparr>lt_server := Some pid\<rparr>))"

definition loaded_of :: "local_model_def \<Rightarrow> loaded_model" where
  "loaded_of m = \<lparr>lm_id = ld_id m, lm_hf_id = ld_hf_id m, lm_provider_type = ld_provider_type m\<rparr>"

definition switch_finish ::
  "local_world \<Rightarrow> local_models_config \<Rightarrow> string \<Rightarrow> local_model_def \<Rightarrow> loaded_model option \<Rightarrow>
   loaded_model local_act" where
  "switch_finish w c target m prev s =
     (let s1 = snd (run_local_hook w (lh_post_switch (ml_hooks (lc_mlx_lm c)))
           [(''CALCIFORGE_MODEL_ID'', target), (''CALCIFORGE_MODEL_HF_ID'', ld_hf_id m),
            (''CALCIFORGE_PREV_MODEL_ID'', id_or_empty prev)] s)
      in (Inr (loaded_of m), s1\<lparr>lt_loaded := Some (loaded_of m)\<rparr>))"

definition local_switch ::
  "local_world \<Rightarrow> local_models_config \<Rightarrow> string \<Rightarrow> loaded_model local_act" where
  "local_switch w c target =
     act_bind (switch_begin w c target) (\<lambda>b.
       case b of
         Inl l \<Rightarrow> act_return l
       | Inr (m, prev) \<Rightarrow>
           act_then (switch_servers w c m) (switch_finish w c target m prev))"

definition local_shutdown :: "local_world \<Rightarrow> local_state \<Rightarrow> local_state" where
  "local_shutdown w s = stop_current w s"

section \<open>What the parts keep\<close>

text \<open>Nothing but time and the log has changed, and the log has grown.\<close>

definition only_logged :: "local_state \<Rightarrow> local_state \<Rightarrow> bool" where
  "only_logged s s' \<longleftrightarrow>
     lt_loaded s' = lt_loaded s \<and> lt_server s' = lt_server s \<and> (\<exists>new. lt_log s' = new @ lt_log s)"

lemma only_logged_refl [simp, intro]: "only_logged s s"
  by (simp add: only_logged_def)

lemma only_logged_trans: "only_logged s t \<Longrightarrow> only_logged t u \<Longrightarrow> only_logged s u"
  by (auto simp: only_logged_def)

lemma only_logged_event [simp, intro]: "only_logged s (log_event e s)"
  by (simp add: only_logged_def log_event_def)

lemma only_logged_time [simp, intro]: "only_logged s (pass_time d s)"
  by (simp add: only_logged_def pass_time_def)

lemma only_logged_connect: "connect w addr s = (ok, s') \<Longrightarrow> only_logged s s'"
  by (auto simp: connect_def split: prod.splits intro: only_logged_trans)

lemma wait_closed_logged: "only_logged s (wait_closed w addr deadline s)"
proof (induction w addr deadline s rule: wait_closed.induct)
  case (1 w addr deadline s)
  obtain ok s1 where c: "connect w addr s = (ok, s1)" by fastforce
  show ?case
  proof (cases "deadline \<le> lt_now s \<or> \<not> ok")
    case True
    with c show ?thesis
      by (auto simp: wait_closed.simps [of w addr deadline s] only_logged_connect [OF c])
  next
    case False
    with 1 [OF _ c [symmetric]] have "only_logged (pass_time 500 s1) (wait_closed w addr deadline (pass_time 500 s1))"
      by simp
    with only_logged_trans [OF only_logged_connect [OF c] only_logged_time] only_logged_trans
    have "only_logged s (wait_closed w addr deadline (pass_time 500 s1))" by blast
    with False c show ?thesis by (simp add: wait_closed.simps [of w addr deadline s])
  qed
qed

lemma fold_log_logged: "only_logged s (fold (\<lambda>x. log_event (f x)) xs s)"
  by (induction xs arbitrary: s) (auto intro: only_logged_trans [OF only_logged_event])

lemma kill_existing_logged: "only_logged s (kill_existing_on_port w port s)"
  by (auto simp: kill_existing_on_port_def Let_def split: option.split
      intro: only_logged_trans [OF only_logged_event]
        only_logged_trans [OF only_logged_trans [OF only_logged_event fold_log_logged] wait_closed_logged])

lemma wait_exit_logged:
  "\<exists>ok. lt_log (wait_exit w pid deadline s) = LeEnded pid ok # lt_log s \<and>
     only_logged s (wait_exit w pid deadline s)"
proof (induction w pid deadline s rule: wait_exit.induct)
  case (1 w pid deadline s)
  show ?case
  proof (cases "lw_exited w (lt_log s) (lt_now s) pid = Some False \<and> \<not> deadline \<le> lt_now s")
    case True
    then have "wait_exit w pid deadline s = wait_exit w pid deadline (pass_time 500 s)"
      by (simp add: wait_exit.simps [of w pid deadline s])
    with 1 True only_logged_trans [OF only_logged_time] show ?thesis by (auto simp: pass_time_def)
  next
    case False
    then have "\<exists>ok. wait_exit w pid deadline s = log_event (LeEnded pid ok) s"
      by (cases "lw_exited w (lt_log s) (lt_now s) pid")
        (auto simp: wait_exit.simps [of w pid deadline s] split: bool.splits)
    then obtain ok where "wait_exit w pid deadline s = log_event (LeEnded pid ok) s" by blast
    then show ?thesis by (auto simp: log_event_def only_logged_def)
  qed
qed

lemma stop_server_logged:
  "\<exists>ok. lt_log (stop_server w pid s) = LeEnded pid ok # LeTerm (show_nat pid) # lt_log s \<and>
     only_logged s (stop_server w pid s)"
proof -
  let ?s1 = "log_event (LeTerm (show_nat pid)) s"
  obtain ok where "lt_log (stop_server w pid s) = LeEnded pid ok # lt_log ?s1"
      "only_logged ?s1 (stop_server w pid s)"
    using wait_exit_logged [of w pid "lt_now ?s1 + 10000" ?s1] by (auto simp: stop_server_def Let_def)
  with only_logged_trans [OF only_logged_event] show ?thesis by (auto simp: log_event_def)
qed

lemma wait_for_ready_logged:
  "wait_for_ready w c deadline s = (r, s') \<Longrightarrow> only_logged s s' \<and>
   (r = Inr () \<longrightarrow> (\<exists>new. lt_log s' = LeConnect (server_addr c) True # new @ lt_log s))"
proof (induction w c deadline s arbitrary: r s' rule: wait_for_ready.induct)
  case (1 w c deadline s)
  obtain ok s1 where k: "connect w (server_addr c) s = (ok, s1)" by fastforce
  then have l1: "lt_log s1 = LeConnect (server_addr c) ok # lt_log s"
    by (auto simp: connect_def pass_time_def log_event_def split: prod.splits)
  consider "deadline \<le> lt_now s \<or> \<not> lw_addr_ok w (server_addr c)"
    | (up) "\<not> deadline \<le> lt_now s" "lw_addr_ok w (server_addr c)" "ok"
    | (down) "\<not> deadline \<le> lt_now s" "lw_addr_ok w (server_addr c)" "\<not> ok" by blast
  then show ?case
  proof cases
    case 1
    with "1.prems" show ?thesis
      by (auto simp: wait_for_ready.simps [of w c deadline s] split: if_splits)
  next
    case up
    with "1.prems" k have "r = Inr ()" "s' = pass_time 500 s1"
      by (simp_all add: wait_for_ready.simps [of w c deadline s])
    with l1 only_logged_trans [OF only_logged_connect [OF k] only_logged_time] up(3) show ?thesis
      by (simp add: pass_time_def)
  next
    case down
    with "1.prems" k have "wait_for_ready w c deadline (pass_time 2000 s1) = (r, s')"
      by (simp add: wait_for_ready.simps [of w c deadline s])
    from "1.IH" [OF down(1) _ k [symmetric] _ this] down
    have ih: "only_logged (pass_time 2000 s1) s'"
        "r = Inr () \<longrightarrow> (\<exists>new. lt_log s' = LeConnect (server_addr c) True # new @ lt_log (pass_time 2000 s1))"
      by auto
    have "only_logged s s'"
      using only_logged_trans [OF only_logged_trans [OF only_logged_connect [OF k] only_logged_time] ih(1)] .
    moreover have "\<exists>new. lt_log s' = LeConnect (server_addr c) True # new @ lt_log s" if "r = Inr ()"
    proof -
      from ih(2) that obtain new where
        "lt_log s' = LeConnect (server_addr c) True # new @ lt_log (pass_time 2000 s1)" by blast
      with l1 show ?thesis
        by (intro exI [of _ "new @ [LeConnect (server_addr c) ok]"]) (simp add: pass_time_def)
    qed
    ultimately show ?thesis by blast
  qed
qed

lemma start_server_logged:
  assumes "start_server w hf c s = (r, s')"
  shows "only_logged s s'"
    and "r = Inr pid \<Longrightarrow> \<exists>later mid. lt_log s' =
      LeConnect (server_addr c) True # later @ LeSpawn (server_args hf c) (Inr pid) # mid @ lt_log s"
proof -
  let ?s1 = "kill_existing_on_port w (ml_port c) s"
  define q where "q = lw_spawn w (lt_log ?s1) (server_args hf c)"
  let ?s2 = "log_event (LeSpawn (server_args hf c) q) ?s1"
  have s2: "only_logged s ?s2"
    by (rule only_logged_trans [OF kill_existing_logged only_logged_event])
  obtain mid where mid: "lt_log ?s1 = mid @ lt_log s"
    using kill_existing_logged [of s w "ml_port c"] by (auto simp: only_logged_def)
  obtain r3 s3 where w3: "wait_for_ready w c (lt_now ?s2 + 1000 * unat (ml_startup_timeout_seconds c)) ?s2 = (r3, s3)"
    by fastforce
  note w3l = wait_for_ready_logged [OF w3]
  show "only_logged s s'"
    using assms s2 w3 only_logged_trans [OF s2 w3l [THEN conjunct1]]
    by (cases q; cases r3) (auto simp: start_server_def Let_def q_def [symmetric])
  assume "r = Inr pid"
  with assms w3 have "q = Inr pid" "r3 = Inr ()" "s' = s3"
    by (cases q; cases r3; simp add: start_server_def Let_def q_def [symmetric])+
  with w3l obtain later where "lt_log s' = LeConnect (server_addr c) True # later @ lt_log ?s2" by auto
  with mid \<open>q = Inr pid\<close>
  show "\<exists>later mid. lt_log s' =
      LeConnect (server_addr c) True # later @ LeSpawn (server_args hf c) (Inr pid) # mid @ lt_log s"
    by (intro exI [of _ later] exI [of _ mid]) (simp add: log_event_def)
qed

lemma run_hook_logged: "run_local_hook w sc vars s = (r, s') \<Longrightarrow> only_logged s s'"
  by (auto simp: run_local_hook_def Let_def split: option.splits if_splits sum.splits)

section \<open>What a switch does\<close>

text \<open>
  The invariant at rest: what is called loaded is a configured model, and a server that is
  held was started for it.
\<close>

definition local_inv :: "local_models_config \<Rightarrow> local_state \<Rightarrow> bool" where
  "local_inv c s \<longleftrightarrow>
     (\<forall>l. lt_loaded s = Some l \<longrightarrow> (\<exists>m \<in> set (lc_models c). l = loaded_of m)) \<and>
     (\<forall>pid. lt_server s = Some pid \<longrightarrow>
        (\<exists>l. lt_loaded s = Some l \<and>
             LeSpawn (server_args (lm_hf_id l) (lc_mlx_lm c)) (Inr pid) \<in> set (lt_log s)))"

text \<open>
  The outcome of \<open>switch\<close>.  A success: the target was loaded and nothing happened, or a server
  for it was started after the one before had ended, and answered a connection.  A failure:
  what is called loaded is unchanged, and the old server is held still, or none.
\<close>

definition switched_to ::
  "local_models_config \<Rightarrow> string \<Rightarrow> local_state \<Rightarrow> local_state \<Rightarrow> loaded_model \<Rightarrow> bool" where
  "switched_to c target s s' l \<longleftrightarrow>
     lt_loaded s' = Some l \<and> lm_id l = target \<and>
     (s' = s \<or>
      (\<exists>pid after before.
         lt_server s' = Some pid \<and>
         lt_log s' = after @ LeSpawn (server_args (lm_hf_id l) (lc_mlx_lm c)) (Inr pid) # before @ lt_log s \<and>
         LeConnect (server_addr (lc_mlx_lm c)) True \<in> set after \<and>
         (\<forall>old. lt_server s = Some old \<longrightarrow> (\<exists>ok. LeEnded old ok \<in> set before))))"

definition not_switched :: "local_state \<Rightarrow> local_state \<Rightarrow> bool" where
  "not_switched s s' \<longleftrightarrow>
     lt_loaded s' = lt_loaded s \<and> (lt_server s' = lt_server s \<or> lt_server s' = None) \<and>
     (\<exists>new. lt_log s' = new @ lt_log s)"

lemma find_model_Some: "find_model c i = Some m \<Longrightarrow> m \<in> set (lc_models c) \<and> ld_id m = i"
  by (auto simp: find_model_def find_Some_iff)

lemma stop_current_logged:
  "lt_loaded (stop_current w s) = lt_loaded s \<and> lt_server (stop_current w s) = None \<and>
   (\<exists>new. lt_log (stop_current w s) = new @ lt_log s \<and>
      (\<forall>old. lt_server s = Some old \<longrightarrow> (\<exists>ok. LeEnded old ok \<in> set new)))"
proof (cases "lt_server s")
  case (Some pid)
  obtain ok where "lt_log (stop_server w pid (s\<lparr>lt_server := None\<rparr>)) =
        LeEnded pid ok # LeTerm (show_nat pid) # lt_log s"
      "only_logged (s\<lparr>lt_server := None\<rparr>) (stop_server w pid (s\<lparr>lt_server := None\<rparr>))"
    using stop_server_logged [of w pid "s\<lparr>lt_server := None\<rparr>"] by auto
  with Some show ?thesis
    by (intro conjI exI [of _ "[LeEnded pid ok, LeTerm (show_nat pid)]"])
      (auto simp: stop_current_def only_logged_def)
qed (simp add: stop_current_def)

lemma switch_servers_logged:
  assumes "switch_servers w c m s = (r, s')"
  shows "lt_loaded s' = lt_loaded s \<and>
    (case r of
       Inl _ \<Rightarrow> lt_server s' = None \<and> (\<exists>new. lt_log s' = new @ lt_log s)
     | Inr _ \<Rightarrow> \<exists>pid after before. lt_server s' = Some pid \<and>
         lt_log s' = after @ LeSpawn (server_args (ld_hf_id m) (lc_mlx_lm c)) (Inr pid) # before @ lt_log s \<and>
         LeConnect (server_addr (lc_mlx_lm c)) True \<in> set after \<and>
         (\<forall>old. lt_server s = Some old \<longrightarrow> (\<exists>ok. LeEnded old ok \<in> set before)))"
proof -
  let ?s0 = "stop_current w s"
  obtain q s1 where st: "start_server w (ld_hf_id m) (lc_mlx_lm c) ?s0 = (q, s1)" by fastforce
  obtain new where new: "lt_log ?s0 = new @ lt_log s"
      "\<forall>old. lt_server s = Some old \<longrightarrow> (\<exists>ok. LeEnded old ok \<in> set new)"
      "lt_loaded ?s0 = lt_loaded s" "lt_server ?s0 = None"
    using stop_current_logged [of w s] by blast
  have l: "only_logged ?s0 s1" by (rule start_server_logged(1) [OF st])
  show ?thesis
  proof (cases q)
    case (Inl e)
    with assms st have "s' = s1" "r = Inl (start_context m e)" by (simp_all add: switch_servers_def)
    with l new show ?thesis by (auto simp: only_logged_def)
  next
    case (Inr pid)
    with assms st have s': "s' = s1\<lparr>lt_server := Some pid\<rparr>" "r = Inr ()" by (simp_all add: switch_servers_def)
    from start_server_logged(2) [OF st Inr] obtain later mid where
      "lt_log s1 = LeConnect (server_addr (lc_mlx_lm c)) True # later @
         LeSpawn (server_args (ld_hf_id m) (lc_mlx_lm c)) (Inr pid) # mid @ lt_log ?s0" by blast
    with s' new l have "lt_loaded s' = lt_loaded s \<and> lt_server s' = Some pid \<and>
        lt_log s' = (LeConnect (server_addr (lc_mlx_lm c)) True # later) @
          LeSpawn (server_args (ld_hf_id m) (lc_mlx_lm c)) (Inr pid) # (mid @ new) @ lt_log s \<and>
        (\<forall>old. lt_server s = Some old \<longrightarrow> (\<exists>ok. LeEnded old ok \<in> set (mid @ new)))"
      by (auto simp: only_logged_def)
    moreover have "LeConnect (server_addr (lc_mlx_lm c)) True \<in>
        set (LeConnect (server_addr (lc_mlx_lm c)) True # later)" by simp
    ultimately show ?thesis unfolding s'(2) sum.case by blast
  qed
qed

lemma switch_finish_logged:
  assumes "switch_finish w c target m prev s = (r, s')"
  shows "r = Inr (loaded_of m) \<and> (\<exists>s3. only_logged s s3 \<and> s' = s3\<lparr>lt_loaded := Some (loaded_of m)\<rparr>)"
proof -
  let ?h = "run_local_hook w (lh_post_switch (ml_hooks (lc_mlx_lm c)))
    [(''CALCIFORGE_MODEL_ID'', target), (''CALCIFORGE_MODEL_HF_ID'', ld_hf_id m),
     (''CALCIFORGE_PREV_MODEL_ID'', id_or_empty prev)] s"
  have "only_logged s (snd ?h)" by (rule run_hook_logged [OF surjective_pairing])
  moreover have "r = Inr (loaded_of m)" "s' = (snd ?h)\<lparr>lt_loaded := Some (loaded_of m)\<rparr>"
    using assms by (simp_all add: switch_finish_def Let_def)
  ultimately show ?thesis by blast
qed

lemma local_switch_outcome:
  assumes "local_switch w c target s = (r, s')"
  shows "case r of Inr l \<Rightarrow> switched_to c target s s' l | Inl _ \<Rightarrow> not_switched s s'"
proof -
  obtain q s1 where b: "switch_begin w c target s = (q, s1)" by fastforce
  show ?thesis
  proof (cases q)
    case (Inl e)
    with b have "only_logged s s1"
      by (auto simp: switch_begin_def Let_def split: option.splits if_splits prod.splits sum.splits
          dest: run_hook_logged)
    with Inl b assms show ?thesis
      by (auto simp: local_switch_def act_bind_def only_logged_def not_switched_def)
  next
    case (Inr a)
    show ?thesis
    proof (cases a)
      case (Inl l)
      with Inr b have "lt_loaded s = Some l" "lm_id l = target" "s1 = s"
        by (auto simp: switch_begin_def Let_def id_or_empty_def split: option.splits if_splits prod.splits sum.splits)
      with Inl Inr b assms show ?thesis
        by (auto simp: local_switch_def act_bind_def act_return_def switched_to_def)
    next
      case (Inr mp)
      obtain m prev where mp: "mp = (m, prev)" by (cases mp) simp
      with Inr \<open>q = Inr a\<close> b have fm: "find_model c target = Some m" and l1: "only_logged s s1"
        by (auto simp: switch_begin_def Let_def split: option.splits if_splits prod.splits sum.splits
            dest: run_hook_logged)
      obtain r2 s2 where sv: "switch_servers w c m s1 = (r2, s2)" by fastforce
      note run = assms [unfolded local_switch_def act_bind_def act_then_def b prod.case
          \<open>q = Inr a\<close> Inr mp sum.case sv]
      note sl = switch_servers_logged [OF sv]
      show ?thesis
      proof (cases r2)
        case (Inl e)
        with run have "r = Inl e" "s' = s2" by simp_all
        with Inl sl l1 show ?thesis by (auto simp: not_switched_def only_logged_def)
      next
        case (Inr u)
        with run have fin: "switch_finish w c target m prev s2 = (r, s')" by simp
        obtain s3 where h: "only_logged s2 s3" "s' = s3\<lparr>lt_loaded := Some (loaded_of m)\<rparr>"
            "r = Inr (loaded_of m)"
          using switch_finish_logged [OF fin] by blast
        from sl Inr obtain pid after before where p: "lt_server s2 = Some pid"
            "lt_log s2 = after @ LeSpawn (server_args (ld_hf_id m) (lc_mlx_lm c)) (Inr pid) # before @ lt_log s1"
            "LeConnect (server_addr (lc_mlx_lm c)) True \<in> set after"
            "\<forall>old. lt_server s1 = Some old \<longrightarrow> (\<exists>ok. LeEnded old ok \<in> set before)" by auto
        from l1 obtain n1 where n1: "lt_log s1 = n1 @ lt_log s" "lt_server s1 = lt_server s"
          by (auto simp: only_logged_def)
        from h(1) obtain n3 where n3: "lt_log s3 = n3 @ lt_log s2" "lt_server s3 = lt_server s2"
          by (auto simp: only_logged_def)
        have "lt_log s' = (n3 @ after) @ LeSpawn (server_args (lm_hf_id (loaded_of m)) (lc_mlx_lm c)) (Inr pid) #
            (before @ n1) @ lt_log s"
          using h(2) n3 n1 p(2) by (simp add: loaded_of_def)
        moreover have "LeConnect (server_addr (lc_mlx_lm c)) True \<in> set (n3 @ after)"
          using p(3) by simp
        moreover have "\<forall>old. lt_server s = Some old \<longrightarrow> (\<exists>ok. LeEnded old ok \<in> set (before @ n1))"
          using p(4) n1(2) by auto
        moreover have "lt_server s' = Some pid" using h(2) n3(2) p(1) by simp
        moreover have "lt_loaded s' = Some (loaded_of m)" "lm_id (loaded_of m) = target"
          using h(2) find_model_Some [OF fm] by (simp_all add: loaded_of_def)
        ultimately have "switched_to c target s s' (loaded_of m)"
          unfolding switched_to_def by blast
        with h(3) show ?thesis by simp
      qed
    qed
  qed
qed

lemma switched_model:
  assumes "local_switch w c target s = (Inr l, s')" "s' \<noteq> s"
  shows "\<exists>m \<in> set (lc_models c). l = loaded_of m"
  using assms
  by (auto simp: local_switch_def act_bind_def act_then_def act_return_def switch_begin_def Let_def
      dest!: switch_finish_logged dest: find_model_Some split: sum.splits prod.splits option.splits if_splits)

section \<open>Any sequence of switches\<close>

datatype local_op = LoSwitch string | LoShutdown

fun local_step :: "local_world \<Rightarrow> local_models_config \<Rightarrow> local_state \<Rightarrow> local_op \<Rightarrow> local_state" where
  "local_step w c s (LoSwitch target) = snd (local_switch w c target s)"
| "local_step w c s LoShutdown = local_shutdown w s"

lemma local_inv_kept:
  assumes "local_inv c s" "not_switched s s'"
  shows "local_inv c s'"
  using assms by (fastforce simp: local_inv_def not_switched_def)

lemma local_inv_step: "local_inv c s \<Longrightarrow> local_inv c (local_step w c s op1)"
proof (cases op1)
  case (LoSwitch target)
  assume i: "local_inv c s"
  obtain r s' where run: "local_switch w c target s = (r, s')" by fastforce
  note out = local_switch_outcome [OF run]
  have "local_inv c s'"
  proof (cases r)
    case (Inl e)
    with out i show ?thesis by (auto intro: local_inv_kept)
  next
    case (Inr l)
    show ?thesis
    proof (cases "s' = s")
      case False
      with Inr run have "\<exists>m \<in> set (lc_models c). l = loaded_of m" using switched_model by blast
      with Inr out False show ?thesis by (auto simp: switched_to_def local_inv_def)
    qed (use i in simp)
  qed
  then show ?thesis by (simp add: LoSwitch run)
next
  case LoShutdown
  assume i: "local_inv c s"
  have "not_switched s (local_shutdown w s)"
    using stop_current_logged [of w s] by (auto simp: not_switched_def local_shutdown_def)
  with i LoShutdown show ?thesis by (auto intro: local_inv_kept)
qed

interpretation local_models: invariant_machine "local_step w c" "local_inv c" for w c
  by unfold_locales (rule local_inv_step)



section \<open>A concrete switch\<close>

definition demo_local_config :: local_models_config where
  "demo_local_config =
     \<lparr>lc_enabled = True, lc_current = None,
      lc_models = [\<lparr>ld_id = ''a'', ld_hf_id = ''h/a'', ld_provider_type = ''mlx_lm'', ld_display_name = None\<rparr>,
                   \<lparr>ld_id = ''b'', ld_hf_id = ''h/b'', ld_provider_type = ''mlx_lm'', ld_display_name = None\<rparr>],
      lc_mlx_lm = default_mlx_lm\<rparr>"

definition demo_local_world :: local_world where
  "demo_local_world =
     \<lparr>lw_addr_ok = (\<lambda>_. True), lw_hook = (\<lambda>_ _ _. Inr ()), lw_lsof = (\<lambda>_ _. None),
      lw_spawn = (\<lambda>_ _. Inr 7), lw_connect = (\<lambda>_ _ _. (True, 1)), lw_exited = (\<lambda>_ _ _. Some True)\<rparr>"

definition demo_loaded :: loaded_model where
  "demo_loaded = \<lparr>lm_id = ''a'', lm_hf_id = ''h/a'', lm_provider_type = ''mlx_lm''\<rparr>"

definition demo_local_state :: local_state where
  "demo_local_state =
     \<lparr>lt_loaded = Some demo_loaded, lt_server = Some 7, lt_now = 501,
      lt_log = [LeConnect (server_addr default_mlx_lm) True,
                LeSpawn (server_args ''h/a'' default_mlx_lm) (Inr 7), LeLsof 8080]\<rparr>"

lemma demo_switch:
  "local_switch demo_local_world demo_local_config ''a'' new_manager = (Inr demo_loaded, demo_local_state)"
  by (simp add: local_switch_def act_bind_def switch_begin_def find_model_def demo_local_config_def
      new_manager_def id_or_empty_def run_local_hook_def default_mlx_lm_def act_then_def
      switch_servers_def stop_current_def start_server_def kill_existing_on_port_def Let_def
      demo_local_world_def log_event_def wait_for_ready.simps connect_def pass_time_def
      switch_finish_def loaded_of_def demo_loaded_def demo_local_state_def)


section \<open>What the model shows besides\<close>

text \<open>
  A switch that fails after the old server was stopped leaves its model called loaded: switching
  back to it succeeds, and no server is held.
\<close>

lemma switch_back_without_server:
  assumes "lt_loaded s = Some l" "local_switch w c target s = (Inl e, s')" "lt_server s' = None"
    and "find_model c (lm_id l) = Some m"
  shows "local_switch w c (lm_id l) s' = (Inr l, s')"
proof -
  have "lt_loaded s' = Some l"
    using local_switch_outcome [OF assms(2)] assms(1) by (simp add: not_switched_def)
  with assms(4) show ?thesis
    by (simp add: local_switch_def act_bind_def switch_begin_def id_or_empty_def Let_def act_return_def)
qed

text \<open>
  No lock is held over a switch: two that overlap can end with the first model called loaded and
  the server of the second held.
\<close>

lemma overlapping_switches:
  assumes "switch_servers w c a s = (Inr (), s1)" "switch_servers w c b s1 = (Inr (), s2)"
    and "switch_finish w c tb b pb s2 = (rb, s3)" "switch_finish w c ta a pa s3 = (ra, s4)"
  shows "lt_loaded s4 = Some (loaded_of a) \<and>
    (\<exists>pid. lt_server s4 = Some pid \<and>
       LeSpawn (server_args (ld_hf_id b) (lc_mlx_lm c)) (Inr pid) \<in> set (lt_log s4))"
  using switch_servers_logged [OF assms(2)] switch_finish_logged [OF assms(3)] switch_finish_logged [OF assms(4)]
  by (auto simp: only_logged_def)

text \<open>A configured host that is a name, such as \<open>localhost\<close>, makes the switch panic.\<close>

lemma host_name_panics:
  assumes "\<not> lw_addr_ok w (server_addr c)" "lt_now s < deadline"
  shows "wait_for_ready w c deadline s = (Inl LocalPanic, s)"
  using assms by (simp add: wait_for_ready.simps)

end
