(* ===== verification/Gateway_Control.thy ===== *)
theory Gateway_Control
  imports Model_Gateway Local_Models
begin

text \<open>
  The remaining handlers of the model gateway: information about it and the list of models
  (\<open>proxy/handlers.rs\<close>), switching the local model over HTTP, the voice endpoints
  (\<open>proxy/voice_handlers.rs\<close>, \<open>voice/forward.rs\<close>) and the manifest of tools (\<open>voice/tools.rs\<close>).
\<close>

section \<open>Information\<close>

definition observability_kind_json :: "observability_kind \<Rightarrow> string" where
  "observability_kind_json k =
     (case k of NativeDashboard \<Rightarrow> ''native_dashboard'' | OTel \<Rightarrow> ''otel''
      | OpenInference \<Rightarrow> ''open_inference'' | Langfuse \<Rightarrow> ''langfuse'')"

text \<open>\<open>gateway_info\<close> gives the engine of the root adapter, to anybody.\<close>

definition gateway_info :: "gateway_setup \<Rightarrow> engine_info" where
  "gateway_info G = adapter_engine_info (ps_gateway (gt_proxy G))"

definition gateway_ui_redirect :: "gateway_setup \<Rightarrow> gateway_reply" where
  "gateway_ui_redirect G =
     (case ei_ui_url (gateway_info G) of
        Some url \<Rightarrow>
          if trim url \<noteq> [] then RedirectReply (trim url)
          else api_error 404 ''gateway_ui_unavailable''
                 ''No gateway UI URL is configured for this Calciforge gateway.'' None
      | None \<Rightarrow> api_error 404 ''gateway_ui_unavailable''
                 ''No gateway UI URL is configured for this Calciforge gateway.'' None)"

definition health_check :: "string \<Rightarrow> gateway_reply" where
  "health_check version =
     JsonReply 200 [] (json_struct [(''status'', JStr ''healthy''), (''version'', JStr version)])"

section \<open>The list of models\<close>

record model_info =
  mi_id :: string
  mi_owned_by :: string

text \<open>The entries of one answer with the set of identifiers seen; \<open>push_model\<close>.\<close>

definition push_model :: "model_info \<Rightarrow> string set \<times> model_info list \<Rightarrow> string set \<times> model_info list" where
  "push_model m st =
     (case st of (seen, ms) \<Rightarrow>
        if mi_id m \<in> seen then (seen, ms) else (insert (mi_id m) seen, ms @ [m]))"

definition owned :: "string \<Rightarrow> string \<Rightarrow> model_info" where
  "owned i owner = \<lparr>mi_id = i, mi_owned_by = owner\<rparr>"

definition shortcut_models :: "gateway_setup \<Rightarrow> model_info list" where
  "shortcut_models G =
     map (\<lambda>s. owned (sc_alias s) (''calciforge/shortcut -> '' @ sc_model s)) (gt_shortcuts G)"

definition local_models_of :: "(local_models_config \<times> local_state) option \<Rightarrow> model_info list" where
  "local_models_of lm =
     (case lm of
        None \<Rightarrow> []
      | Some (c, s) \<Rightarrow>
          map (\<lambda>m. owned (ld_id m) (''local/'' @ ld_provider_type m @
             (if map_option lm_id (lt_loaded s) = Some (ld_id m) then '' (loaded)'' else [])))
            (lc_models c))"

definition selector_models :: "selectors \<Rightarrow> model_info list" where
  "selector_models sel =
     map (\<lambda>a. owned (ad_id (snd a)) ''calciforge'') (alloys sel) @
     map (\<lambda>d. owned (td_id d) ''calciforge/cascade'') (list_cascades sel) @
     map (\<lambda>d. owned (td_id d) ''calciforge/dispatcher'') (list_dispatchers sel)"

definition provider_models :: "provider_entry list \<Rightarrow> model_info list" where
  "provider_models entries =
     concat (map (\<lambda>e. map (\<lambda>p. owned p (''calciforge/provider:'' @ pn_id e))
       (filter is_exact_model_pattern (pn_patterns e))) entries)"

definition own_models :: "gateway_setup \<Rightarrow> (local_models_config \<times> local_state) option \<Rightarrow> model_info list" where
  "own_models G lm =
     shortcut_models G @ local_models_of lm @ selector_models (gt_selectors G) @
     provider_models (gt_providers G)"

definition backend_model_info :: "backend_model \<Rightarrow> model_info" where
  "backend_model_info bm =
     owned (bm_id bm) (case bm_provider bm of Some p \<Rightarrow> p | None \<Rightarrow> ''unknown'')"

definition fallback_models :: "model_info list" where
  "fallback_models =
     [owned ''gpt-4'' ''openai'', owned ''claude-3-5-sonnet'' ''anthropic'',
      owned ''deepseek-chat'' ''deepseek'', owned ''kimi-free'' ''kimi'',
      owned ''kimi/kimi-for-coding'' ''kimi'']"

definition list_models ::
  "gateway_setup \<Rightarrow> (local_models_config \<times> local_state) option \<Rightarrow> header_map \<Rightarrow> gateway_state \<Rightarrow>
   (gateway_reply + model_info list) \<times> gateway_state" where
  "list_models G lm hs s =
     (case require_api_key (gt_config G) hs of
        Some refusal \<Rightarrow> (Inl refusal, s)
      | None \<Rightarrow>
          let st = fold push_model (own_models G lm) ({}, []) in
          if root_mock_is_non_serving_fallback G then (Inr (snd st), s)
          else (case adapter_list_models (gt_world G) (ps_gateway (gt_proxy G)) (gs_trace s) of
                  (Inr ms, tr) \<Rightarrow> (Inr (snd (fold push_model (map backend_model_info ms) st)), s\<lparr>gs_trace := tr\<rparr>)
                | (Inl _, tr) \<Rightarrow> (Inr (snd st @ fallback_models), s\<lparr>gs_trace := tr\<rparr>)))"

text \<open>Every entry of one answer is created now.\<close>

definition model_info_json :: "nat \<Rightarrow> model_info \<Rightarrow> json" where
  "model_info_json now m =
     json_struct [(''id'', JStr (mi_id m)), (''object'', JStr ''model''), (''created'', JNum (show_nat now)),
                  (''owned_by'', JStr (mi_owned_by m))]"

definition list_models_reply :: "nat \<Rightarrow> gateway_reply + model_info list \<Rightarrow> gateway_reply" where
  "list_models_reply now r =
     (case r of
        Inl refusal \<Rightarrow> refusal
      | Inr ms \<Rightarrow> JsonReply 200 [] (json_struct [(''object'', JStr ''list''),
                     (''data'', JArr (map (model_info_json now) ms))]))"

lemma push_model_cases:
  "mi_id m \<in> seen \<Longrightarrow> push_model m (seen, ms) = (seen, ms)"
  "mi_id m \<notin> seen \<Longrightarrow> push_model m (seen, ms) = (insert (mi_id m) seen, ms @ [m])"
  by (simp_all add: push_model_def)

lemma find_id_skip:
  "mi_id x \<in> mi_id ` set ms \<Longrightarrow>
     find (\<lambda>y. mi_id y = i) (ms @ x # xs) = find (\<lambda>y. mi_id y = i) (ms @ xs)"
proof (cases "mi_id x = i")
  case True
  assume "mi_id x \<in> mi_id ` set ms"
  with True show ?thesis by (induction ms) auto
next
  case False
  then show ?thesis by (induction ms) auto
qed

text \<open>The answer: what is pushed first stays, in order, under its first owner.\<close>

lemma fold_push_model:
  assumes "fold push_model xs (seen, ms) = (seen', ms')" "seen = mi_id ` set ms" "distinct (map mi_id ms)"
  shows "seen' = mi_id ` set ms' \<and> distinct (map mi_id ms') \<and>
    mi_id ` set ms' = mi_id ` set ms \<union> mi_id ` set xs \<and>
    (\<forall>m \<in> set ms'. find (\<lambda>x. mi_id x = mi_id m) (ms @ xs) = Some m)"
  using assms
proof (induction xs arbitrary: seen ms)
  case Nil
  have "find (\<lambda>x. mi_id x = mi_id m) ms = Some m" if "m \<in> set ms" "distinct (map mi_id ms)" for m
    using that by (induction ms) auto
  with Nil show ?case by auto
next
  case (Cons x xs)
  show ?case
  proof (cases "mi_id x \<in> seen")
    case True
    with Cons.prems have "fold push_model xs (seen, ms) = (seen', ms')" by (simp add: push_model_cases)
    from Cons.IH [OF this Cons.prems(2,3)]
    have ih: "seen' = mi_id ` set ms'" "distinct (map mi_id ms')"
      "mi_id ` set ms' = mi_id ` set ms \<union> mi_id ` set xs"
      "\<And>m. m \<in> set ms' \<Longrightarrow> find (\<lambda>x. mi_id x = mi_id m) (ms @ xs) = Some m" by auto
    from ih True Cons.prems(2) show ?thesis by (auto simp: find_id_skip)
  next
    case False
    with Cons.prems have run: "fold push_model xs (insert (mi_id x) seen, ms @ [x]) = (seen', ms')"
      by (simp add: push_model_cases)
    from Cons.IH [OF run] Cons.prems(2,3) False show ?thesis by auto
  qed
qed

lemma listed_models_distinct:
  assumes "list_models G lm hs s = (Inr ms, s')"
    and "\<And>e tr. adapter_list_models (gt_world G) (ps_gateway (gt_proxy G)) (gs_trace s) \<noteq> (Inl e, tr)"
  shows "distinct (map mi_id ms) \<and> mi_id ` set (own_models G lm) \<subseteq> mi_id ` set ms"
proof -
  obtain seen own where o1: "fold push_model (own_models G lm) ({}, []) = (seen, own)" by fastforce
  note p1 = fold_push_model [OF o1, simplified]
  show ?thesis
  proof (cases "root_mock_is_non_serving_fallback G")
    case True
    with assms(1) o1 p1 show ?thesis by (simp add: list_models_def split: option.splits)
  next
    case False
    obtain r tr where a: "adapter_list_models (gt_world G) (ps_gateway (gt_proxy G)) (gs_trace s) = (r, tr)"
      by fastforce
    with assms(2) obtain bs where bs: "r = Inr bs" by (cases r) auto
    obtain seen2 all where o2: "fold push_model (map backend_model_info bs) (seen, own) = (seen2, all)" by fastforce
    from assms(1) False a bs o1 o2 have "ms = all" by (simp add: list_models_def split: option.splits)
    with fold_push_model [OF o2] p1 show ?thesis by auto
  qed
qed

section \<open>Switching the local model\<close>

definition switch_reply :: "local_error + loaded_model \<Rightarrow> gateway_reply" where
  "switch_reply r =
     (case r of
        Inr l \<Rightarrow> JsonReply 200 [] (json_struct [(''status'', JStr ''ok''), (''model'', JStr (lm_id l)),
                   (''hf_id'', JStr (lm_hf_id l))])
      | Inl (LocalFailed e) \<Rightarrow> api_error 500 ''switch_failed'' (''Model switch failed: '' @ e) None
      | Inl LocalPanic \<Rightarrow> api_error 500 ''internal_error'' ''Internal error during model switch'' None)"

definition local_model_switch ::
  "proxy_config \<Rightarrow> (local_world \<times> local_models_config) option \<Rightarrow> header_map \<Rightarrow> json \<Rightarrow> local_state \<Rightarrow>
   gateway_reply \<times> local_state" where
  "local_model_switch cfg manager hs body s =
     (case require_api_key cfg hs of
        Some refusal \<Rightarrow> (refusal, s)
      | None \<Rightarrow>
     (case get_str ''model'' body of
        None \<Rightarrow> (api_error 400 ''bad_request'' ''Request body must include {\"model\": \"<id>\"}''
                  (Some ''model''), s)
      | Some m \<Rightarrow>
     (case manager of
        None \<Rightarrow> (api_error 404 ''local_models_disabled''
                  ''Local model management is not configured (add [local_models] to config)'' None, s)
      | Some (w, c) \<Rightarrow> (case local_switch w c m s of (r, s') \<Rightarrow> (switch_reply r, s')))))"

text \<open>The answer of the handler is true of the manager.\<close>

lemma local_model_switch_ok:
  assumes "local_model_switch cfg (Some (w, c)) hs body s = (JsonReply 200 h j, s')"
  shows "\<exists>target l. get_str ''model'' body = Some target \<and> switched_to c target s s' l \<and>
    get_str ''model'' j = Some target \<and> require_api_key cfg hs = None"
proof -
  have auth: "require_api_key cfg hs = None"
    using assms
    by (auto simp: local_model_switch_def require_api_key_def api_error_def split: option.splits if_splits)
  obtain target where t: "get_str ''model'' body = Some target"
    using assms auth by (auto simp: local_model_switch_def api_error_def split: option.splits)
  obtain r where r: "local_switch w c target s = (r, s')" "switch_reply r = JsonReply 200 h j"
    using assms auth t by (auto simp: local_model_switch_def split: prod.splits)
  then obtain l where l: "r = Inr l"
    by (auto simp: switch_reply_def api_error_def split: sum.splits local_error.splits)
  from local_switch_outcome [OF r(1)] l have sw: "switched_to c target s s' l" by simp
  have "get_str ''model'' j = Some (lm_id l)"
    using r(2) l by (auto simp: switch_reply_def get_str_def json_struct_get as_str_def)
  with sw t auth show ?thesis by (auto simp: switched_to_def)
qed

section \<open>Voice\<close>

record voice_endpoint =
  ve_url :: string
  ve_api_key :: "string option"
  ve_timeout_seconds :: u64

record voice_config =
  vc_stt :: "voice_endpoint option"
  vc_tts :: "voice_endpoint option"
  vc_on_audio_in :: "string option"
  vc_on_text_out :: "string option"

datatype hook_result =
    HookFailed string
  | HookExited bool string
  | HookPanicked string
  | HookTimedOut

record voice_request =
  vr_url :: string
  vr_headers :: header_list
  vr_body :: string
  vr_timeout :: u64

text \<open>
  Hook programs, the upstream services, the text of a status, the decoding of bytes, and the
  HTTP library's check of a header value.
\<close>

record voice_world =
  vw_hook :: "string \<Rightarrow> string \<Rightarrow> hook_result"
  vw_send :: "voice_request \<Rightarrow> http_in"
  vw_status_text :: "nat \<Rightarrow> string"
  vw_lossy :: "string \<Rightarrow> string"
  vw_header_ok :: "string \<Rightarrow> bool"

text \<open>A hook that is absent, fails, panics or takes too long leaves the input as it is.\<close>

definition run_voice_hook :: "voice_world \<Rightarrow> string option \<Rightarrow> string \<Rightarrow> string" where
  "run_voice_hook w hook input =
     (case hook of
        None \<Rightarrow> input
      | Some path \<Rightarrow>
          (case vw_hook w path input of
             HookExited True out \<Rightarrow> out
           | HookExited False _ \<Rightarrow> input
           | HookFailed _ \<Rightarrow> input
           | HookPanicked _ \<Rightarrow> input
           | HookTimedOut \<Rightarrow> input))"

definition voice_headers ::
  "voice_world \<Rightarrow> voice_endpoint \<Rightarrow> string \<Rightarrow> string + header_list" where
  "voice_headers w e content_type =
     (if \<not> vw_header_ok w content_type then Inl ''invalid content-type''
      else (case ve_api_key e of
              None \<Rightarrow> Inr [(''content-type'', content_type)]
            | Some k \<Rightarrow>
                if vw_header_ok w (''Bearer '' @ k)
                then Inr [(''content-type'', content_type), (''authorization'', ''Bearer '' @ k)]
                else Inl ''invalid api key''))"

definition voice_request_of :: "voice_endpoint \<Rightarrow> string \<Rightarrow> header_list \<Rightarrow> string \<Rightarrow> voice_request" where
  "voice_request_of e url hs body =
     \<lparr>vr_url = url, vr_headers = hs, vr_body = body, vr_timeout = ve_timeout_seconds e\<rparr>"

definition read_voice_response ::
  "voice_world \<Rightarrow> string \<Rightarrow> http_in \<Rightarrow> string + string \<times> string" where
  "read_voice_response w url answer =
     (case answer of
        NoResponse _ _ \<Rightarrow> Inl (''POST '' @ url @ '' failed'')
      | Response status hs body \<Rightarrow>
     (case body of
        Inl _ \<Rightarrow> Inl ''reading upstream response body''
      | Inr bytes \<Rightarrow>
          if \<not> is_success status
          then Inl (''upstream returned '' @ vw_status_text w status @ '': '' @ trim (vw_lossy w bytes))
          else Inr (bytes, case header_get hs ''content-type'' of
                             Some ct \<Rightarrow> ct | None \<Rightarrow> ''application/octet-stream'')))"

definition forward_raw ::
  "voice_world \<Rightarrow> voice_endpoint \<Rightarrow> string \<Rightarrow> string \<Rightarrow> string \<Rightarrow> string + string \<times> string" where
  "forward_raw w e url body content_type =
     res_bind (voice_headers w e content_type) (\<lambda>hs.
       read_voice_response w url (vw_send w (voice_request_of e url hs body)))"

definition forward_stt ::
  "voice_world \<Rightarrow> voice_endpoint \<Rightarrow> string \<Rightarrow> string \<Rightarrow> string + string \<times> string" where
  "forward_stt w e = forward_raw w e (trim_end_matches (CHR 0x2F) (ve_url e) @ ''/v1/audio/transcriptions'')"

definition forward_tts ::
  "voice_world \<Rightarrow> voice_endpoint \<Rightarrow> string \<Rightarrow> string \<Rightarrow> string + string \<times> string" where
  "forward_tts w e = forward_raw w e (trim_end_matches (CHR 0x2F) (ve_url e) @ ''/v1/audio/speech'')"

definition not_configured :: "string \<Rightarrow> gateway_reply" where
  "not_configured endpoint =
     JsonReply 501 [] (json_struct [(''error'', JStr (''No '' @ endpoint @
       '' endpoint configured. Add [proxy.voice.'' @ endpoint @ ''] to your config.''))])"

definition voice_reply :: "string + string \<times> string \<Rightarrow> gateway_reply" where
  "voice_reply r =
     (case r of
        Inr (body, ct) \<Rightarrow> BytesReply 200 [(''content-type'', ct)] body
      | Inl e \<Rightarrow> JsonReply 502 [] (json_struct [(''error'', JStr e)]))"

definition content_type_or :: "string \<Rightarrow> header_map \<Rightarrow> string" where
  "content_type_or dflt hs = (case header_get hs ''content-type'' of Some ct \<Rightarrow> ct | None \<Rightarrow> dflt)"

definition audio_transcriptions ::
  "voice_world \<Rightarrow> voice_config option \<Rightarrow> header_map \<Rightarrow> string \<Rightarrow> gateway_reply" where
  "audio_transcriptions w voice hs body =
     (case voice of
        None \<Rightarrow> not_configured ''stt''
      | Some v \<Rightarrow>
     (case vc_stt v of
        None \<Rightarrow> not_configured ''stt''
      | Some e \<Rightarrow> voice_reply (forward_stt w e (run_voice_hook w (vc_on_audio_in v) body)
                    (content_type_or ''multipart/form-data'' hs))))"

definition audio_speech ::
  "voice_world \<Rightarrow> voice_config option \<Rightarrow> header_map \<Rightarrow> string \<Rightarrow> gateway_reply" where
  "audio_speech w voice hs body =
     (case voice of
        None \<Rightarrow> not_configured ''tts''
      | Some v \<Rightarrow>
     (case vc_tts v of
        None \<Rightarrow> not_configured ''tts''
      | Some e \<Rightarrow> voice_reply (forward_tts w e (run_voice_hook w (vc_on_text_out v) body)
                    (content_type_or ''application/json'' hs))))"

text \<open>
  The key of a voice service goes to that service's configured address only, and only as its
  bearer token.
\<close>

lemma voice_key_confined:
  assumes "forward_raw w e url body ct = Inr r"
  shows "\<exists>hs. voice_headers w e ct = Inr hs \<and>
    (\<forall>(k, v) \<in> set hs. (k, v) = (''content-type'', ct) \<or>
       (\<exists>key. ve_api_key e = Some key \<and> (k, v) = (''authorization'', ''Bearer '' @ key)))"
  using assms
  by (auto simp: forward_raw_def voice_headers_def res_bind_Inr_iff split: if_splits option.splits)

section \<open>The manifest of tools\<close>

definition tool_json :: "string \<Rightarrow> string \<Rightarrow> json_map \<Rightarrow> string list \<Rightarrow> json" where
  "tool_json name description properties required =
     json_struct [(''type'', JStr ''function''),
       (''function'', json_struct [(''name'', JStr name), (''description'', JStr description),
          (''parameters'', json_struct ([(''type'', JStr ''object''),
             (''properties'', json_struct properties)] @
             (if required = [] then [] else [(''required'', JArr (map JStr required))])))])]"

definition string_property :: "string \<Rightarrow> json" where
  "string_property description =
     json_struct [(''type'', JStr ''string''), (''description'', JStr description)]"

definition switch_tool :: "string list \<Rightarrow> json" where
  "switch_tool ids =
     tool_json ''calciforge_switch_model''
       (''Switch the currently loaded local inference model. Available models: '' @
        join_with '', '' ids @ ''.'')
       [(''model'', json_struct [(''type'', JStr ''string''),
          (''description'', JStr ''Short model ID to load (e.g. \"qwen3-8bit\")''),
          (''enum'', JArr (map JStr ids))])] [''model'']"

definition current_tool :: "loaded_model \<Rightarrow> json" where
  "current_tool l =
     tool_json ''calciforge_current_model''
       (''Returns the currently loaded local model. Currently: '' @ lm_id l @ ''.'') [] []"

definition transcribe_tool :: json where
  "transcribe_tool =
     tool_json ''calciforge_transcribe''
       ''Transcribe audio to text via the configured STT endpoint (POST /v1/audio/transcriptions). Accepts multipart/form-data with an 'audio' field.''
       [(''audio_url'', string_property ''URL of audio file accessible to calciforge''),
        (''language'', string_property ''BCP-47 language code hint (optional)'')] [''audio_url'']"

definition speak_tool :: json where
  "speak_tool =
     tool_json ''calciforge_speak''
       ''Synthesize text to speech via the configured TTS endpoint (POST /v1/audio/speech). Returns audio.''
       [(''text'', string_property ''Text to synthesize''),
        (''voice'', string_property ''Voice name/id (passed to upstream TTS; optional)'')] [''text'']"

definition build_manifest ::
  "(local_models_config \<times> local_state) option \<Rightarrow> bool \<Rightarrow> bool \<Rightarrow> json list" where
  "build_manifest lm has_stt has_tts =
     (case lm of
        None \<Rightarrow> []
      | Some (c, s) \<Rightarrow>
          switch_tool (map ld_id (lc_models c)) #
          (case lt_loaded s of None \<Rightarrow> [] | Some l \<Rightarrow> [current_tool l])) @
     (if has_stt then [transcribe_tool] else []) @ (if has_tts then [speak_tool] else [])"

definition tools_manifest ::
  "(local_models_config \<times> local_state) option \<Rightarrow> voice_config option \<Rightarrow> gateway_reply" where
  "tools_manifest lm voice =
     JsonReply 200 [] (JArr (build_manifest lm (Option.bind voice vc_stt \<noteq> None)
       (Option.bind voice vc_tts \<noteq> None)))"

end
