(* ===== verification/Conversation_Context.thy ===== *)
theory Conversation_Context
  imports Calci_Prelude
begin

text \<open>
  What an agent is told of a conversation it missed (\<open>crates/calciforge/src/context.rs\<close>,
  \<open>persistent_context.rs\<close>, \<open>unified_context.rs\<close>): a ring buffer of exchanges in memory or the
  rows of a database, with the sequence number of the last exchange each agent has answered.
  Sequence numbers are natural numbers here; the code counts them in 64 bits.
\<close>

section \<open>Exchanges\<close>

text \<open>The arguments of \<open>push\<close>.\<close>

record turn =
  tn_sender :: string
  tn_prompt :: string
  tn_agent :: string
  tn_response :: string

record exchange = turn +
  ex_seq :: nat

definition exchange_of :: "nat \<Rightarrow> turn \<Rightarrow> exchange" where
  "exchange_of n t =
     \<lparr>tn_sender = tn_sender t, tn_prompt = tn_prompt t, tn_agent = tn_agent t,
      tn_response = tn_response t, ex_seq = n\<rparr>"

definition is_native_agent_command :: "string \<Rightarrow> bool" where
  "is_native_agent_command message =
     (case strip_prefix ''/'' (trim_start message) of
        None \<Rightarrow> False
      | Some rest \<Rightarrow>
          CHR 0x2F \<notin> set (case ws_words [] rest of [] \<Rightarrow> [] | w # _ \<Rightarrow> w) \<and>
          (case rest of [] \<Rightarrow> False | c # _ \<Rightarrow> ascii_upper c \<or> ascii_lower c))"

definition exchange_lines :: "'x turn_scheme \<Rightarrow> string list" where
  "exchange_lines t =
     [tn_sender t @ '': '' @ tn_prompt t, tn_agent t @ '': '' @ tn_response t]"

definition preamble_text :: "'x turn_scheme list \<Rightarrow> string" where
  "preamble_text ts =
     join_with [CHR 0x0A] (''[Recent context:'' # concat (map exchange_lines ts) @ ['']''])"

section \<open>In memory\<close>

record conversation =
  cv_exchanges :: "exchange list"
  cv_capacity :: nat
  cv_next_seq :: nat
  cv_watermarks :: "string \<Rightarrow> nat option"

definition new_conversation :: "nat \<Rightarrow> conversation" where
  "new_conversation n =
     \<lparr>cv_exchanges = [], cv_capacity = n, cv_next_seq = 0, cv_watermarks = Map.empty\<rparr>"

definition conversation_push :: "turn \<Rightarrow> conversation \<Rightarrow> conversation" where
  "conversation_push t c =
     (let seq = cv_next_seq c;
          kept = (if length (cv_exchanges c) = cv_capacity c then tl (cv_exchanges c) else cv_exchanges c)
      in c\<lparr>cv_next_seq := seq + 1, cv_exchanges := kept @ [exchange_of seq t],
           cv_watermarks := (cv_watermarks c)(tn_agent t \<mapsto> seq)\<rparr>)"

definition not_seen :: "nat option \<Rightarrow> exchange \<Rightarrow> bool" where
  "not_seen last_seen e = (case last_seen of None \<Rightarrow> True | Some wm \<Rightarrow> wm < ex_seq e)"

definition newest :: "nat \<Rightarrow> 'a list \<Rightarrow> 'a list" where
  "newest n xs = drop (length xs - n) xs"

text \<open>The exchanges that are injected, and the text they make.\<close>

definition to_inject :: "nat \<Rightarrow> string \<Rightarrow> conversation \<Rightarrow> exchange list" where
  "to_inject depth agent c =
     (let unseen = filter (not_seen (cv_watermarks c agent)) (cv_exchanges c)
      in if depth < length unseen then drop (length unseen - depth) unseen else unseen)"

definition conversation_preamble :: "string \<Rightarrow> nat \<Rightarrow> conversation \<Rightarrow> string option" where
  "conversation_preamble agent depth c =
     (if depth = 0 \<or> cv_exchanges c = [] then None
      else if filter (not_seen (cv_watermarks c agent)) (cv_exchanges c) = [] then None
      else Some (preamble_text (to_inject depth agent c)))"

record context_store =
  cs_chats :: "string \<Rightarrow> conversation option"
  cs_buffer_size :: u64
  cs_inject_depth :: u64

definition new_context_store :: "u64 \<Rightarrow> u64 \<Rightarrow> context_store" where
  "new_context_store n d = \<lparr>cs_chats = Map.empty, cs_buffer_size = n, cs_inject_depth = d\<rparr>"

definition augment_message_with_options ::
  "context_store \<Rightarrow> string \<Rightarrow> string \<Rightarrow> string \<Rightarrow> bool \<Rightarrow> string" where
  "augment_message_with_options s chat agent message preserve =
     (if preserve \<and> is_native_agent_command message then message
      else case Option.bind (cs_chats s chat) (conversation_preamble agent (unat (cs_inject_depth s))) of
             None \<Rightarrow> message
           | Some pre \<Rightarrow> pre @ [CHR 0x0A, CHR 0x0A] @ message)"

definition augment_message :: "context_store \<Rightarrow> string \<Rightarrow> string \<Rightarrow> string \<Rightarrow> string" where
  "augment_message s chat agent message = augment_message_with_options s chat agent message False"

definition push_with_options :: "string \<Rightarrow> turn \<Rightarrow> bool \<Rightarrow> context_store \<Rightarrow> context_store" where
  "push_with_options chat t preserve s =
     (if preserve \<and> is_native_agent_command (tn_prompt t) then s
      else let c = (case cs_chats s chat of
                      Some c \<Rightarrow> c | None \<Rightarrow> new_conversation (unat (cs_buffer_size s)))
           in s\<lparr>cs_chats := (cs_chats s)(chat \<mapsto> conversation_push t c)\<rparr>)"

definition context_clear :: "string \<Rightarrow> context_store \<Rightarrow> context_store" where
  "context_clear chat s = s\<lparr>cs_chats := (cs_chats s)(chat := None)\<rparr>"

definition exchange_count :: "context_store \<Rightarrow> string \<Rightarrow> nat" where
  "exchange_count s chat =
     (case cs_chats s chat of Some c \<Rightarrow> length (cv_exchanges c) | None \<Rightarrow> 0)"

section \<open>In a database\<close>

text \<open>
  The tables, with SQLite's reading of \<open>LIMIT\<close> and \<open>OFFSET\<close>: a negative limit is none, a
  negative offset is zero.  Sizes are cast to \<open>i64\<close>.  The columns \<open>id\<close> and \<open>created_at\<close> are read
  by nothing.  A call of the library may fail, with the text given; a transaction that fails
  changes nothing.
\<close>

record context_db =
  db_rows :: "(string \<times> exchange) list"
  db_watermarks :: "string \<Rightarrow> string \<Rightarrow> nat option"
  db_buffer_size :: u64
  db_inject_depth :: u64

type_synonym context_tables = "(string \<times> exchange) list \<times> (string \<Rightarrow> string \<Rightarrow> nat option)"

definition open_persistent ::
  "(string \<Rightarrow> string + context_tables) \<Rightarrow> string \<Rightarrow> u64 \<Rightarrow> u64 \<Rightarrow> string + context_db" where
  "open_persistent open_db url n d =
     res_bind (open_db (case strip_prefix ''sqlite://'' url of Some path \<Rightarrow> path | None \<Rightarrow> url)) (\<lambda>(rows, wms).
       Inr \<lparr>db_rows = rows, db_watermarks = wms, db_buffer_size = n, db_inject_depth = d\<rparr>)"

definition chat_rows :: "string \<Rightarrow> (string \<times> exchange) list \<Rightarrow> exchange list" where
  "chat_rows chat rows = map snd (filter (\<lambda>r. fst r = chat) rows)"

definition sql_limit :: "u64 \<Rightarrow> 'a list \<Rightarrow> 'a list" where
  "sql_limit n xs = (if sint n < 0 then xs else take (nat (sint n)) xs)"

definition sql_offset :: "u64 \<Rightarrow> 'a list \<Rightarrow> 'a list" where
  "sql_offset n xs = drop (nat (sint n)) xs"

definition by_seq :: "exchange list \<Rightarrow> exchange list" where
  "by_seq es = sort_key ex_seq es"

definition next_db_seq :: "string \<Rightarrow> (string \<times> exchange) list \<Rightarrow> nat" where
  "next_db_seq chat rows =
     (case chat_rows chat rows of
        [] \<Rightarrow> 0 | e # es \<Rightarrow> foldl max (ex_seq e) (map ex_seq es) + 1)"

definition evict_rows :: "u64 \<Rightarrow> string \<Rightarrow> (string \<times> exchange) list \<Rightarrow> (string \<times> exchange) list" where
  "evict_rows n chat rows =
     (case sql_offset (n - 1) (rev (by_seq (chat_rows chat rows))) of
        [] \<Rightarrow> rows
      | oldest # _ \<Rightarrow> filter (\<lambda>(c, e). \<not> (c = chat \<and> ex_seq e < ex_seq oldest)) rows)"

definition persistent_push ::
  "string option \<Rightarrow> string \<Rightarrow> turn \<Rightarrow> context_db \<Rightarrow> (string + unit) \<times> context_db" where
  "persistent_push fault chat t db =
     (case fault of
        Some e \<Rightarrow> (Inl e, db)
      | None \<Rightarrow>
          let seq = next_db_seq chat (db_rows db);
              rows = db_rows db @ [(chat, exchange_of seq t)]
          in (Inr (), db\<lparr>db_watermarks := (db_watermarks db)(chat := (db_watermarks db chat)(tn_agent t \<mapsto> seq)),
                         db_rows := (if 0 < db_buffer_size db then evict_rows (db_buffer_size db) chat rows
                                     else rows)\<rparr>))"

definition persistent_unseen :: "string \<Rightarrow> string \<Rightarrow> context_db \<Rightarrow> exchange list" where
  "persistent_unseen chat agent db =
     (let rows = by_seq (chat_rows chat (db_rows db))
      in case db_watermarks db chat agent of
           Some wm \<Rightarrow> sql_limit (db_inject_depth db) (filter (\<lambda>e. wm < ex_seq e) rows)
         | None \<Rightarrow> by_seq (sql_limit (db_inject_depth db) (rev rows)))"

definition persistent_preamble ::
  "string option \<Rightarrow> string \<Rightarrow> string \<Rightarrow> context_db \<Rightarrow> string + string option" where
  "persistent_preamble fault chat agent db =
     (if db_inject_depth db = 0 then Inr None
      else case fault of
             Some e \<Rightarrow> Inl e
           | None \<Rightarrow>
               (case persistent_unseen chat agent db of
                  [] \<Rightarrow> Inr None
                | es \<Rightarrow> Inr (Some (preamble_text es))))"

definition persistent_augment ::
  "string option \<Rightarrow> context_db \<Rightarrow> string \<Rightarrow> string \<Rightarrow> string \<Rightarrow> string + string" where
  "persistent_augment fault db chat agent message =
     res_bind (persistent_preamble fault chat agent db) (\<lambda>p.
       Inr (case p of Some pre \<Rightarrow> pre @ [CHR 0x0A] @ message | None \<Rightarrow> message))"

definition persistent_clear :: "string option \<Rightarrow> string \<Rightarrow> context_db \<Rightarrow> (string + unit) \<times> context_db" where
  "persistent_clear fault chat db =
     (case fault of
        Some e \<Rightarrow> (Inl e, db)
      | None \<Rightarrow> (Inr (), db\<lparr>db_rows := filter (\<lambda>r. fst r \<noteq> chat) (db_rows db),
                             db_watermarks := (db_watermarks db)(chat := Map.empty)\<rparr>))"

definition persistent_count :: "string option \<Rightarrow> string \<Rightarrow> context_db \<Rightarrow> string + nat" where
  "persistent_count fault chat db =
     (case fault of Some e \<Rightarrow> Inl e | None \<Rightarrow> Inr (length (chat_rows chat (db_rows db))))"

section \<open>Either\<close>

datatype unified_store = InMemory context_store | Persistent context_db

text \<open>A build without the feature ignores the configuration of a database.\<close>

definition unified_new ::
  "bool \<Rightarrow> (string \<Rightarrow> string + context_tables) \<Rightarrow> string option \<Rightarrow> u64 \<Rightarrow> u64 \<Rightarrow> string + unified_store" where
  "unified_new feature open_db database_url n d =
     (case database_url of
        Some url \<Rightarrow>
          if feature then res_bind (open_persistent open_db url n d) (\<lambda>db. Inr (Persistent db))
          else Inr (InMemory (new_context_store n d))
      | None \<Rightarrow> Inr (InMemory (new_context_store n d)))"

definition into_in_memory :: "unified_store \<Rightarrow> string + context_store" where
  "into_in_memory u =
     (case u of
        InMemory s \<Rightarrow> Inr s
      | Persistent _ \<Rightarrow> Inl ''Persistent context store not supported in this build configuration'')"

definition unified_augment ::
  "string option \<Rightarrow> unified_store \<Rightarrow> string \<Rightarrow> string \<Rightarrow> string \<Rightarrow> string + string" where
  "unified_augment fault u chat agent message =
     (case u of
        InMemory s \<Rightarrow> Inr (augment_message s chat agent message)
      | Persistent db \<Rightarrow> persistent_augment fault db chat agent message)"

definition unified_push ::
  "string option \<Rightarrow> string \<Rightarrow> turn \<Rightarrow> unified_store \<Rightarrow> (string + unit) \<times> unified_store" where
  "unified_push fault chat t u =
     (case u of
        InMemory s \<Rightarrow> (Inr (), InMemory (push_with_options chat t False s))
      | Persistent db \<Rightarrow> (case persistent_push fault chat t db of (r, db') \<Rightarrow> (r, Persistent db')))"

definition unified_clear :: "string option \<Rightarrow> string \<Rightarrow> unified_store \<Rightarrow> (string + unit) \<times> unified_store" where
  "unified_clear fault chat u =
     (case u of
        InMemory s \<Rightarrow> (Inr (), InMemory (context_clear chat s))
      | Persistent db \<Rightarrow> (case persistent_clear fault chat db of (r, db') \<Rightarrow> (r, Persistent db')))"

definition unified_count :: "string option \<Rightarrow> unified_store \<Rightarrow> string \<Rightarrow> string + nat" where
  "unified_count fault u chat =
     (case u of
        InMemory s \<Rightarrow> Inr (exchange_count s chat)
      | Persistent db \<Rightarrow> persistent_count fault chat db)"

section \<open>What should be told\<close>

text \<open>
  The log of a chat is its turns since it was last cleared.  Of it the newest \<open>n\<close> are kept, all
  if \<open>n\<close> is zero; an agent has missed those after its own last answer.
\<close>

definition kept_turns :: "nat \<Rightarrow> 'a list \<Rightarrow> 'a list" where
  "kept_turns n ts = (if n = 0 then ts else newest n ts)"

definition missed :: "string \<Rightarrow> 'x turn_scheme list \<Rightarrow> 'x turn_scheme list" where
  "missed agent ts = rev (takeWhile (\<lambda>t. tn_agent t \<noteq> agent) (rev ts))"

datatype 'p context_op =
    ContextPush string turn 'p
  | ContextClear string 'p

text \<open>The log of a chat after an operation, if the operation takes effect.\<close>

fun log_step :: "('p context_op \<Rightarrow> bool) \<Rightarrow> string \<Rightarrow> turn list \<Rightarrow> 'p context_op \<Rightarrow> turn list" where
  "log_step effective chat ts (ContextPush c t p) =
     (if c = chat \<and> effective (ContextPush c t p) then ts @ [t] else ts)"
| "log_step effective chat ts (ContextClear c p) =
     (if c = chat \<and> effective (ContextClear c p) then [] else ts)"

definition context_log :: "('p context_op \<Rightarrow> bool) \<Rightarrow> 'p context_op list \<Rightarrow> string \<Rightarrow> turn list" where
  "context_log effective ops chat = run_ops (log_step effective chat) [] ops"

locale conversation_store =
  fixes step :: "'s \<Rightarrow> 'p context_op \<Rightarrow> 's"
    and effective :: "'p context_op \<Rightarrow> bool"
    and holds :: "'s \<Rightarrow> (string \<Rightarrow> turn list) \<Rightarrow> bool"
  assumes step_holds: "holds s f \<Longrightarrow> holds (step s x) (\<lambda>chat. log_step effective chat (f chat) x)"
begin

lemma run_holds:
  "holds s f \<Longrightarrow> holds (run_ops step s ops) (\<lambda>chat. run_ops (log_step effective chat) (f chat) ops)"
proof (induction ops arbitrary: s f)
  case (Cons x ops)
  from Cons.IH [OF step_holds [OF Cons.prems]] show ?case by simp
qed simp

lemma run_log: "holds s (\<lambda>_. []) \<Longrightarrow> holds (run_ops step s ops) (context_log effective ops)"
proof -
  have "context_log effective ops = (\<lambda>chat. run_ops (log_step effective chat) [] ops)"
    by (simp add: context_log_def fun_eq_iff)
  then show "holds s (\<lambda>_. []) \<Longrightarrow> ?thesis" using run_holds [of s "\<lambda>_. []"] by simp
qed

end

section \<open>Suffixes of the log\<close>

lemma newest_snoc: "newest (Suc n) (xs @ [x]) = newest n xs @ [x]"
  by (simp add: newest_def)

lemma length_newest [simp]: "length (newest n xs) = min n (length xs)"
  by (simp add: newest_def)

lemma newest_map: "newest n (map f xs) = map f (newest n xs)"
  by (simp add: newest_def drop_map)

lemma newest_all: "length xs \<le> n \<Longrightarrow> newest n xs = xs"
  by (simp add: newest_def)

lemma newest_0 [simp]: "newest 0 xs = []"
  by (simp add: newest_def)

lemma take_rev_newest: "take n (rev xs) = rev (newest n xs)"
  by (cases "n \<le> length xs") (simp_all add: newest_def rev_drop)

lemma kept_turns_snoc:
  "kept_turns n (xs @ [x]) =
     (if length (kept_turns n xs) = n then tl (kept_turns n xs) else kept_turns n xs) @ [x]"
proof (cases n)
  case (Suc m)
  show ?thesis
  proof (cases "Suc m \<le> length xs")
    case True
    then have "tl (newest (Suc m) xs) = newest m xs"
      by (simp add: newest_def tl_drop drop_Suc [symmetric] Suc_diff_Suc)
    with True Suc show ?thesis by (simp add: kept_turns_def newest_snoc)
  qed (simp add: Suc kept_turns_def newest_snoc newest_all)
qed (simp add: kept_turns_def)

lemma kept_turns_map: "kept_turns n (map f xs) = map f (kept_turns n xs)"
  by (simp add: kept_turns_def newest_map)

lemma kept_turns_Nil [simp]: "kept_turns n xs = [] \<longleftrightarrow> xs = []"
  by (cases xs; cases n) (auto simp: kept_turns_def newest_def)

lemma kept_turns_empty [simp]: "kept_turns n [] = []"
  by simp

lemma kept_turns_drop: "kept_turns n xs = drop (if n = 0 then 0 else length xs - n) xs"
  by (simp add: kept_turns_def newest_def)

lemma missed_Nil [simp]: "missed a [] = []"
  by (simp add: missed_def)

lemma missed_snoc: "missed a (ts @ [t]) = (if tn_agent t = a then [] else missed a ts @ [t])"
  by (simp add: missed_def)

lemma missed_le: "length (missed a ts) \<le> length ts"
  unfolding missed_def using length_takeWhile_le [of _ "rev ts"] by simp

lemma missed_newest_self: "missed a ts = newest (length (missed a ts)) ts"
proof -
  have "takeWhile (\<lambda>t. tn_agent t \<noteq> a) (rev ts) = take (length (missed a ts)) (rev ts)"
    unfolding missed_def by (simp add: takeWhile_eq_take [symmetric])
  then have "rev (missed a ts) = rev (newest (length (missed a ts)) ts)"
    by (simp only: missed_def rev_rev_ident take_rev_newest)
  then show ?thesis by (simp only: rev_is_rev_conv)
qed

lemma takeWhile_take: "takeWhile P (take n xs) = take n (takeWhile P xs)"
proof (induction xs arbitrary: n)
  case (Cons x xs) then show ?case by (cases n) auto
qed simp

lemma missed_newest: "missed a (newest n ts) = newest n (missed a ts)"
proof -
  have "rev (missed a (newest n ts)) = takeWhile (\<lambda>t. tn_agent t \<noteq> a) (take n (rev ts))"
    by (simp add: missed_def take_rev_newest)
  also have "\<dots> = take n (rev (missed a ts))" by (simp add: takeWhile_take missed_def)
  finally show ?thesis by (simp add: take_rev_newest)
qed

lemma missed_all: "missed a ts = ts \<longleftrightarrow> a \<notin> tn_agent ` set ts"
  by (induction ts rule: rev_induct) (auto simp: missed_snoc)

section \<open>Numbers of exchanges\<close>

definition numbered :: "turn list \<Rightarrow> exchange list" where
  "numbered ts = map (\<lambda>i. exchange_of i (ts ! i)) [0..<length ts]"

definition last_answer :: "string \<Rightarrow> turn list \<Rightarrow> nat option" where
  "last_answer agent ts =
     (let k = length (missed agent ts)
      in if k = length ts then None else Some (length ts - k - 1))"

lemma numbered_Nil [simp]: "numbered [] = []"
  by (simp add: numbered_def)

lemma length_numbered [simp]: "length (numbered ts) = length ts"
  by (simp add: numbered_def)

lemma numbered_eq_Nil [simp]: "numbered ts = [] \<longleftrightarrow> ts = []"
  by (simp add: numbered_def)

lemma numbered_snoc: "numbered (ts @ [t]) = numbered ts @ [exchange_of (length ts) t]"
  by (simp add: numbered_def nth_append)

lemma truncate_exchange_of [simp]: "turn.truncate (exchange_of n t) = t"
  by (cases t) (simp add: exchange_of_def turn.defs)

lemma truncate_numbered: "map turn.truncate (numbered ts) = ts"
  by (simp add: numbered_def comp_def map_nth)

lemma last_answer_Nil [simp]: "last_answer a [] = None"
  by (simp add: last_answer_def)

lemma last_answer_snoc:
  "last_answer a (ts @ [t]) = (if tn_agent t = a then Some (length ts) else last_answer a ts)"
  using missed_le [of a ts] by (auto simp: last_answer_def missed_snoc Let_def)

lemma filter_upt: "filter (\<lambda>i. j \<le> i) [lo..<hi] = [max lo j..<hi]"
  by (induction hi) (auto simp: max_def not_le)

lemma not_seen_iff:
  "not_seen (last_answer a ts) e \<longleftrightarrow> length ts - length (missed a ts) \<le> ex_seq e"
  using missed_le [of a ts] by (auto simp: not_seen_def last_answer_def Let_def)

lemma drop_numbered: "drop k (numbered ts) = map (\<lambda>i. exchange_of i (ts ! i)) [k..<length ts]"
  by (simp add: numbered_def drop_map)

lemma not_seen_numbered:
  "filter (not_seen (last_answer a ts)) (drop k (numbered ts)) =
   drop (max k (length ts - length (missed a ts))) (numbered ts)"
proof -
  have "filter (not_seen (last_answer a ts)) (drop k (numbered ts)) =
      map (\<lambda>i. exchange_of i (ts ! i))
        (filter (\<lambda>i. length ts - length (missed a ts) \<le> i) [k..<length ts])"
    by (simp add: drop_numbered filter_map comp_def not_seen_iff exchange_of_def)
  then show ?thesis by (simp only: filter_upt drop_numbered)
qed

text \<open>What the numbers select is what the agent missed of what is kept.\<close>

lemma not_seen_missed:
  "map turn.truncate (filter (not_seen (last_answer a ts)) (kept_turns n (numbered ts))) =
   missed a (kept_turns n ts)"
proof -
  let ?k = "length (missed a ts)"
  have "map turn.truncate (filter (not_seen (last_answer a ts)) (kept_turns n (numbered ts))) =
      drop (max (if n = 0 then 0 else length ts - n) (length ts - ?k)) ts"
    by (simp only: kept_turns_drop length_numbered not_seen_numbered drop_map [symmetric] truncate_numbered)
  also have "\<dots> = missed a (kept_turns n ts)"
  proof (cases "n = 0")
    case True
    then show ?thesis using missed_newest_self [of a ts] by (simp add: kept_turns_def newest_def)
  next
    case False
    have "missed a (newest n ts) = newest n (newest ?k ts)"
      using missed_newest [of a n ts] missed_newest_self [of a ts] by simp
    also have "\<dots> = drop (max (length ts - n) (length ts - ?k)) ts"
      using missed_le [of a ts] by (auto simp: newest_def max_def intro: arg_cong2 [where f = drop])
    finally show ?thesis using False by (simp add: kept_turns_def)
  qed
  finally show ?thesis .
qed

section \<open>The store in memory\<close>

text \<open>The buffer of a chat is a function of its log.\<close>

definition conversation_of :: "nat \<Rightarrow> turn list \<Rightarrow> conversation" where
  "conversation_of n ts =
     \<lparr>cv_exchanges = kept_turns n (numbered ts), cv_capacity = n, cv_next_seq = length ts,
      cv_watermarks = (\<lambda>a. last_answer a ts)\<rparr>"

lemma new_conversation_of: "new_conversation n = conversation_of n []"
  by (simp add: new_conversation_def conversation_of_def fun_eq_iff)

lemma conversation_push_of: "conversation_push t (conversation_of n ts) = conversation_of n (ts @ [t])"
  by (simp add: conversation_push_def conversation_of_def Let_def numbered_snoc kept_turns_snoc
      last_answer_snoc fun_eq_iff)

lemma conversation_of_length:
  "length (cv_exchanges (conversation_of n ts)) = length (kept_turns n ts)"
  by (simp add: conversation_of_def kept_turns_def)

text \<open>What is injected, given the log, and where it goes.\<close>

definition injected :: "nat \<Rightarrow> nat \<Rightarrow> string \<Rightarrow> turn list \<Rightarrow> turn list" where
  "injected n depth agent ts = newest depth (missed agent (kept_turns n ts))"

definition with_context :: "string \<Rightarrow> 'x turn_scheme list \<Rightarrow> string \<Rightarrow> string" where
  "with_context sep ts message = (if ts = [] then message else preamble_text ts @ sep @ message)"

lemma exchange_lines_truncate: "exchange_lines (turn.truncate e) = exchange_lines e"
  by (simp add: exchange_lines_def turn.defs)

lemma preamble_text_truncate: "preamble_text (map turn.truncate es) = preamble_text es"
  by (simp add: preamble_text_def comp_def exchange_lines_truncate)

lemma with_context_truncate: "with_context sep (map turn.truncate es) m = with_context sep es m"
  by (simp add: with_context_def preamble_text_truncate)

lemma to_inject_newest:
  "to_inject d a c = newest d (filter (not_seen (cv_watermarks c a)) (cv_exchanges c))"
  by (simp add: to_inject_def newest_def Let_def)

lemma injected_of: "map turn.truncate (to_inject d a (conversation_of n ts)) = injected n d a ts"
  using not_seen_missed [of a ts n]
  by (simp add: to_inject_newest newest_map [symmetric] conversation_of_def injected_def)

lemma conversation_preamble_of:
  "conversation_preamble a d (conversation_of n ts) =
     (if injected n d a ts = [] then None else Some (preamble_text (injected n d a ts)))"
proof -
  have eq: "injected n d a ts = [] \<longleftrightarrow> d = 0 \<or> filter (not_seen (last_answer a ts)) (kept_turns n (numbered ts)) = []"
  proof -
    have "injected n d a ts = [] \<longleftrightarrow> to_inject d a (conversation_of n ts) = []"
      by (simp add: injected_of [symmetric])
    also have "\<dots> \<longleftrightarrow> d = 0 \<or> filter (not_seen (last_answer a ts)) (kept_turns n (numbered ts)) = []"
      by (subst length_0_conv [symmetric]) (auto simp: to_inject_newest conversation_of_def min_def)
    finally show ?thesis .
  qed
  have "preamble_text (injected n d a ts) = preamble_text (to_inject d a (conversation_of n ts))"
    by (simp only: injected_of [symmetric] preamble_text_truncate)
  with eq show ?thesis by (auto simp: conversation_preamble_def conversation_of_def)
qed

fun memory_step :: "context_store \<Rightarrow> bool context_op \<Rightarrow> context_store" where
  "memory_step s (ContextPush chat t preserve) = push_with_options chat t preserve s"
| "memory_step s (ContextClear chat preserve) = context_clear chat s"

text \<open>A push of a preserved native command has no effect.\<close>

fun memory_effective :: "bool context_op \<Rightarrow> bool" where
  "memory_effective (ContextPush chat t preserve) =
     (\<not> (preserve \<and> is_native_agent_command (tn_prompt t)))"
| "memory_effective (ContextClear chat preserve) = True"

definition memory_holds :: "u64 \<Rightarrow> u64 \<Rightarrow> context_store \<Rightarrow> (string \<Rightarrow> turn list) \<Rightarrow> bool" where
  "memory_holds n d s f \<longleftrightarrow>
     cs_buffer_size s = n \<and> cs_inject_depth s = d \<and>
     (\<forall>chat. cs_chats s chat = (if f chat = [] then None else Some (conversation_of (unat n) (f chat))))"

lemma memory_step_holds:
  assumes "memory_holds n d s f"
  shows "memory_holds n d (memory_step s x) (\<lambda>chat. log_step memory_effective chat (f chat) x)"
proof (cases x)
  case (ContextPush c t p)
  with assms show ?thesis
    by (auto simp: memory_holds_def push_with_options_def Let_def new_conversation_of
        conversation_push_of)
next
  case (ContextClear c p)
  with assms show ?thesis by (auto simp: memory_holds_def context_clear_def)
qed

interpretation memory_store: conversation_store memory_step memory_effective "memory_holds n d" for n d
  by unfold_locales (rule memory_step_holds)

lemma memory_run:
  "memory_holds n d (run_ops memory_step (new_context_store n d) ops) (context_log memory_effective ops)"
  by (rule memory_store.run_log) (simp add: memory_holds_def new_context_store_def)


section \<open>The store in a database\<close>

lemma newest_newest: "newest m (newest n xs) = newest (min m n) xs"
  by (auto simp: newest_def min_def intro: arg_cong2 [where f = drop])

lemma newest_of_kept:
  "0 < n \<Longrightarrow> newest n (kept_turns n xs @ [x]) = kept_turns n (xs @ [x])"
  by (cases n) (simp_all add: kept_turns_def newest_snoc newest_newest)

lemma seqs_numbered: "map ex_seq (numbered ts) = [0..<length ts]"
  by (simp add: numbered_def exchange_of_def comp_def)

text \<open>The numbers of what is kept are consecutive.\<close>

lemma seqs_kept:
  obtains lo where "map ex_seq (kept_turns n (numbered ts)) = [lo..<length ts]" "lo \<le> length ts"
proof
  show "map ex_seq (kept_turns n (numbered ts)) =
      [(if n = 0 then 0 else length ts - n)..<length ts]"
    by (simp add: kept_turns_drop drop_map [symmetric] seqs_numbered)
qed simp

lemma by_seq_consecutive: "map ex_seq es = [lo..<hi] \<Longrightarrow> by_seq es = es"
  unfolding by_seq_def by (rule sort_key_id_if_sorted) simp

lemma foldl_max_upt: "lo < hi \<Longrightarrow> foldl max lo [Suc lo..<hi] = hi - 1"
proof (induction hi)
  case (Suc hi) then show ?case by (cases "lo < hi") (auto simp: max_def)
qed simp

lemma next_db_seq_consecutive:
  assumes "map ex_seq (chat_rows chat rows) = [lo..<hi]" "lo < hi"
  shows "next_db_seq chat rows = hi"
proof -
  from assms obtain e es where es: "chat_rows chat rows = e # es"
    by (cases "chat_rows chat rows") (auto dest: sym)
  with assms have "ex_seq e = lo" "map ex_seq es = [Suc lo..<hi]" by (auto simp: upt_conv_Cons)
  with es assms(2) show ?thesis by (simp add: next_db_seq_def foldl_max_upt)
qed

lemma filter_consecutive:
  "map ex_seq es = [lo..<hi] \<Longrightarrow> filter (\<lambda>e. \<not> ex_seq e < lo + k) es = drop k es"
proof (induction es arbitrary: lo k)
  case (Cons e es)
  have "[lo..<hi] = ex_seq e # map ex_seq es" using Cons.prems by simp
  then have lo: "ex_seq e = lo" "map ex_seq es = [Suc lo..<hi]" unfolding upt_eq_Cons_conv by auto
  show ?case
  proof (cases k)
    case 0
    have "filter (\<lambda>x. \<not> ex_seq x < Suc lo + 0) es = es" using Cons.IH [OF lo(2), of 0] by simp
    then have "\<forall>x \<in> set es. Suc lo \<le> ex_seq x" by (simp add: filter_id_conv not_less)
    with 0 lo(1) show ?thesis by (auto simp: filter_id_conv)
  next
    case (Suc j)
    with Cons.IH [OF lo(2), of j] lo(1) show ?thesis by simp
  qed
qed simp

lemma chat_rows_append [simp]:
  "chat_rows chat (rows @ [(c, e)]) = chat_rows chat rows @ (if c = chat then [e] else [])"
  by (simp add: chat_rows_def)

lemma chat_rows_evicted:
  "chat_rows c (filter (\<lambda>(c, e). \<not> (c = chat \<and> ex_seq e < k)) rows) =
   (if c = chat then filter (\<lambda>e. \<not> ex_seq e < k) (chat_rows c rows) else chat_rows c rows)"
  by (induction rows) (auto simp: chat_rows_def)

lemma sint_small: "unat (n :: u64) < 2 ^ 63 \<Longrightarrow> sint n = int (unat n)"
proof -
  assume "unat n < 2 ^ 63"
  then have u: "uint n < 2 ^ 63" by (simp only: uint_nat [symmetric] of_nat_less_iff [symmetric, where ?'a = int]) simp
  have "signed_take_bit 63 (uint n) = uint n"
    by (rule signed_take_bit_int_eq_self) (use u uint_ge_0 [of n] in linarith, use u in simp)
  then show ?thesis by (simp add: sint_uint)
qed

lemma chat_rows_evict:
  assumes rows: "map ex_seq (chat_rows chat rows) = [lo..<hi]"
    and n: "0 < n" "unat n < 2 ^ 63"
  shows "chat_rows c (evict_rows n chat rows) =
    (if c = chat then newest (unat n) (chat_rows c rows) else chat_rows c rows)"
proof -
  let ?L = "chat_rows chat rows" and ?n = "unat n"
  have n0: "0 < ?n" using n(1) by (simp add: word_less_nat_alt)
  have "unat (n - 1) = ?n - 1" using n0 n(1) by (simp add: unat_minus_one)
  with n(2) have off: "sql_offset (n - 1) (rev (by_seq ?L)) = drop (?n - 1) (rev ?L)"
    by (simp add: sql_offset_def sint_small by_seq_consecutive [OF rows])
  show ?thesis
  proof (cases "length ?L < ?n")
    case True
    then show ?thesis by (simp add: evict_rows_def off newest_all)
  next
    case False
    then obtain oldest rest where o: "drop (?n - 1) (rev ?L) = oldest # rest"
      using n0 unfolding One_nat_def by (cases "drop (?n - 1) (rev ?L)") auto
    have "oldest = rev ?L ! (?n - 1)" using o by (metis drop_eq_Nil linorder_not_le list.distinct(1) Cons_nth_drop_Suc list.inject)
    also have "\<dots> = ?L ! (length ?L - ?n)" using False n0 by (simp add: rev_nth)
    finally have "ex_seq oldest = map ex_seq ?L ! (length ?L - ?n)" using False n0 by simp
    also have "\<dots> = [lo..<hi] ! (length ?L - ?n)" by (simp only: rows)
    also have "\<dots> = lo + (length ?L - ?n)"
    proof (rule nth_upt)
      have "length ?L = hi - lo" using arg_cong [OF rows, of length] by simp
      with False n0 show "lo + (length ?L - ?n) < hi" by linarith
    qed
    finally have seq: "ex_seq oldest = lo + (length ?L - ?n)" .
    have ev: "evict_rows n chat rows =
        filter (\<lambda>(c, e). \<not> (c = chat \<and> ex_seq e < lo + (length ?L - ?n))) rows"
      by (simp only: evict_rows_def off o list.case seq)
    show ?thesis
      by (cases "c = chat") (simp_all only: ev chat_rows_evicted filter_consecutive [OF rows] newest_def
          if_True if_False simp_thms)
  qed
qed

definition db_holds :: "u64 \<Rightarrow> u64 \<Rightarrow> context_db \<Rightarrow> string \<Rightarrow> turn list \<Rightarrow> bool" where
  "db_holds n d db chat ts \<longleftrightarrow>
     db_buffer_size db = n \<and> db_inject_depth db = d \<and>
     chat_rows chat (db_rows db) = kept_turns (unat n) (numbered ts) \<and>
     db_watermarks db chat = (\<lambda>a. last_answer a ts)"

definition empty_db :: "u64 \<Rightarrow> u64 \<Rightarrow> context_db" where
  "empty_db n d =
     \<lparr>db_rows = [], db_watermarks = (\<lambda>_. Map.empty), db_buffer_size = n, db_inject_depth = d\<rparr>"

text \<open>An operation carries the failure of the database, if it fails; then it has no effect.\<close>

fun persistent_step :: "context_db \<Rightarrow> string option context_op \<Rightarrow> context_db" where
  "persistent_step db (ContextPush chat t fault) = snd (persistent_push fault chat t db)"
| "persistent_step db (ContextClear chat fault) = snd (persistent_clear fault chat db)"

fun persistent_effective :: "string option context_op \<Rightarrow> bool" where
  "persistent_effective (ContextPush chat t fault) = (fault = None)"
| "persistent_effective (ContextClear chat fault) = (fault = None)"

lemma next_db_seq_holds:
  assumes "db_holds n d db chat ts"
  shows "next_db_seq chat (db_rows db) = length ts"
proof (cases "ts = []")
  case True
  with assms show ?thesis by (simp add: db_holds_def next_db_seq_def)
next
  case False
  obtain lo where lo: "map ex_seq (kept_turns (unat n) (numbered ts)) = [lo..<length ts]" "lo \<le> length ts"
    by (rule seqs_kept)
  have "kept_turns (unat n) (numbered ts) \<noteq> []" using False by simp
  with lo have "lo < length ts" by (cases "lo = length ts") auto
  moreover have "map ex_seq (chat_rows chat (db_rows db)) = [lo..<length ts]"
    using assms lo(1) by (simp add: db_holds_def)
  ultimately show ?thesis by (intro next_db_seq_consecutive)
qed

lemma persistent_push_holds:
  assumes h: "db_holds n d db chat ts" and n: "unat n < 2 ^ 63"
  shows "db_holds n d (snd (persistent_push None chat t db)) chat (ts @ [t])"
proof -
  let ?rows = "db_rows db @ [(chat, exchange_of (length ts) t)]"
  have rows: "chat_rows chat ?rows = kept_turns (unat n) (numbered ts) @ [exchange_of (length ts) t]"
    using h by (simp add: db_holds_def)
  obtain lo where "map ex_seq (kept_turns (unat n) (numbered ts)) = [lo..<length ts]" "lo \<le> length ts"
    by (rule seqs_kept)
  then have seqs: "map ex_seq (chat_rows chat ?rows) = [lo..<Suc (length ts)]"
    by (simp only: rows map_append) (simp add: exchange_of_def)
  have "chat_rows chat (db_rows (snd (persistent_push None chat t db))) =
      kept_turns (unat n) (numbered (ts @ [t]))"
  proof (cases "n = 0")
    case True
    with h rows show ?thesis
      by (simp add: persistent_push_def Let_def next_db_seq_holds [OF h] db_holds_def kept_turns_def
          numbered_snoc)
  next
    case False
    then have n0: "0 < n" "0 < unat n" by (simp_all add: word_gt_0 unat_gt_0)
    with h show ?thesis
      by (simp add: persistent_push_def Let_def next_db_seq_holds [OF h] db_holds_def
          chat_rows_evict [OF seqs n0(1) n] newest_of_kept numbered_snoc)
  qed
  with h show ?thesis
    by (auto simp: db_holds_def persistent_push_def Let_def next_db_seq_holds [OF h] last_answer_snoc)
qed

lemma persistent_push_other:
  assumes h: "db_holds n d db c us" and o: "db_holds n d db chat ts" and n: "unat n < 2 ^ 63" and "c \<noteq> chat"
  shows "db_holds n d (snd (persistent_push None c t db)) chat ts"
proof -
  let ?rows = "db_rows db @ [(c, exchange_of (length us) t)]"
  obtain lo where "map ex_seq (kept_turns (unat n) (numbered us)) = [lo..<length us]" "lo \<le> length us"
    by (rule seqs_kept)
  with h have seqs: "map ex_seq (chat_rows c ?rows) = [lo..<Suc (length us)]"
    by (simp add: db_holds_def exchange_of_def)
  have "chat_rows chat (evict_rows n c ?rows) = chat_rows chat (db_rows db)" if "0 < n"
    using chat_rows_evict [OF seqs that n, of chat] assms(4) by simp
  with o h assms(4) show ?thesis
    by (auto simp: db_holds_def persistent_push_def Let_def next_db_seq_holds [OF h])
qed

lemma persistent_step_holds:
  assumes f: "\<forall>chat. db_holds n d db chat (f chat)" and n: "unat n < 2 ^ 63"
  shows "\<forall>chat. db_holds n d (persistent_step db x) chat (log_step persistent_effective chat (f chat) x)"
proof (intro allI, cases x)
  fix chat c t fault assume x: "x = ContextPush c t fault"
  show "db_holds n d (persistent_step db x) chat (log_step persistent_effective chat (f chat) x)"
  proof (cases fault)
    case None
    with x f n show ?thesis
      using persistent_push_holds [of n d db c "f c" t] persistent_push_other [of n d db c "f c" chat "f chat" t]
      by auto
  qed (use x f in \<open>simp add: persistent_push_def\<close>)
next
  fix chat c fault assume x: "x = ContextClear c fault"
  have "filter (\<lambda>r. fst r \<noteq> c \<and> fst r = chat) (db_rows db) =
      (if c = chat then [] else filter (\<lambda>r. fst r = chat) (db_rows db))"
    by (auto intro: filter_cong)
  then have "db_holds n d (snd (persistent_clear None c db)) chat (if c = chat then [] else f chat)"
    using f by (auto simp: db_holds_def persistent_clear_def chat_rows_def fun_eq_iff)
  with x f show "db_holds n d (persistent_step db x) chat (log_step persistent_effective chat (f chat) x)"
    by (cases fault) (auto simp: persistent_clear_def)
qed

text \<open>The laws hold for sizes that are not negative as \<open>i64\<close>.\<close>

definition persistent_holds :: "u64 \<Rightarrow> u64 \<Rightarrow> context_db \<Rightarrow> (string \<Rightarrow> turn list) \<Rightarrow> bool" where
  "persistent_holds n d db f \<longleftrightarrow> (unat n < 2 ^ 63 \<longrightarrow> (\<forall>chat. db_holds n d db chat (f chat)))"

lemma persistent_holds_step:
  "persistent_holds n d db f \<Longrightarrow>
   persistent_holds n d (persistent_step db x) (\<lambda>chat. log_step persistent_effective chat (f chat) x)"
  using persistent_step_holds [of n d db f x] by (simp add: persistent_holds_def)

interpretation persistent_store: conversation_store persistent_step persistent_effective "persistent_holds n d" for n d
  by unfold_locales (rule persistent_holds_step)

lemma persistent_run:
  assumes "unat n < 2 ^ 63"
  shows "db_holds n d (run_ops persistent_step (empty_db n d) ops) chat
    (context_log persistent_effective ops chat)"
proof -
  have "persistent_holds n d (empty_db n d) (\<lambda>_. [])"
    by (simp add: persistent_holds_def db_holds_def empty_db_def chat_rows_def fun_eq_iff)
  from persistent_store.run_log [OF this, of ops] assms show ?thesis by (simp add: persistent_holds_def)
qed

text \<open>
  What the database injects: of what the agent missed the oldest, and only for an agent that
  never answered the newest.
\<close>

definition injected_by_db :: "nat \<Rightarrow> nat \<Rightarrow> string \<Rightarrow> turn list \<Rightarrow> turn list" where
  "injected_by_db n depth agent ts =
     (if last_answer agent ts = None then newest depth (kept_turns n ts)
      else take depth (missed agent (kept_turns n ts)))"

lemma insort_last: "\<forall>x \<in> set es. ex_seq x < ex_seq e \<Longrightarrow> insort_key ex_seq e es = es @ [e]"
  by (induction es) auto

lemma by_seq_rev: "sorted_wrt (\<lambda>a b. ex_seq a < ex_seq b) es \<Longrightarrow> by_seq (rev es) = es"
  unfolding by_seq_def by (induction es rule: rev_induct) (simp_all add: sorted_wrt_append insort_last)

lemma by_seq_newest:
  assumes "map ex_seq es = [lo..<hi]"
  shows "by_seq (take d (rev es)) = newest d es"
proof -
  have "map ex_seq (newest d es) = [lo + (length es - d)..<hi]"
    by (simp add: newest_def drop_map [symmetric] assms)
  then have "sorted_wrt (<) (map ex_seq (newest d es))" by simp
  then show ?thesis by (simp add: take_rev_newest by_seq_rev sorted_wrt_map)
qed

lemma sql_limit_small: "unat n < 2 ^ 63 \<Longrightarrow> sql_limit n xs = take (unat n) xs"
  by (simp add: sql_limit_def sint_small)

lemma length_kept_numbered [simp]: "length (kept_turns n (numbered ts)) = length (kept_turns n ts)"
  by (simp add: kept_turns_drop)

lemma persistent_unseen_of:
  assumes h: "db_holds n d db chat ts" and d: "unat d < 2 ^ 63"
  shows "map turn.truncate (persistent_unseen chat agent db) = injected_by_db (unat n) (unat d) agent ts"
proof -
  obtain lo where lo: "map ex_seq (kept_turns (unat n) (numbered ts)) = [lo..<length ts]"
    by (rule seqs_kept)
  have rows: "by_seq (chat_rows chat (db_rows db)) = kept_turns (unat n) (numbered ts)"
    using h lo by (simp add: db_holds_def by_seq_consecutive)
  show ?thesis
  proof (cases "last_answer agent ts")
    case None
    have "persistent_unseen chat agent db = newest (unat d) (kept_turns (unat n) (numbered ts))"
      using h d None by (simp add: persistent_unseen_def rows db_holds_def sql_limit_small by_seq_newest [OF lo]
          by_seq_consecutive [OF lo])
    with None show ?thesis
      by (simp add: injected_by_db_def newest_map [symmetric] kept_turns_map [symmetric] truncate_numbered)
  next
    case (Some wm)
    have seen: "not_seen (Some wm) = (\<lambda>e. wm < ex_seq e)" by (simp add: not_seen_def fun_eq_iff)
    have "persistent_unseen chat agent db =
        take (unat d) (filter (not_seen (last_answer agent ts)) (kept_turns (unat n) (numbered ts)))"
      using h d Some by (simp add: persistent_unseen_def db_holds_def sql_limit_small seen
          by_seq_consecutive [OF lo])
    with Some show ?thesis
      using not_seen_missed [of agent ts "unat n"]
      by (simp add: injected_by_db_def take_map [symmetric])
  qed
qed

lemma last_answer_None: "last_answer a ts = None \<longleftrightarrow> a \<notin> tn_agent ` set ts"
  by (induction ts rule: rev_induct) (auto simp: last_answer_snoc)

lemma missed_kept_none: "last_answer a ts = None \<Longrightarrow> missed a (kept_turns n ts) = kept_turns n ts"
  by (auto simp: missed_all last_answer_None kept_turns_drop dest: in_set_dropD)

text \<open>The stores agree on an agent that never answered, and on one that missed no more than fits.\<close>

lemma injected_agree:
  "last_answer a ts = None \<or> length (missed a (kept_turns n ts)) \<le> d \<Longrightarrow>
   injected_by_db n d a ts = injected n d a ts"
  by (auto simp: injected_by_db_def injected_def missed_kept_none newest_all)

text \<open>
  The store in a database keeps the same turns as the one in memory, and gives an agent the
  same ones where it never answered in this chat or missed at most \<open>inject_depth\<close> of the turns
  kept; where it missed more it gets the oldest of them, not the newest.  After any pushes and
  clears, of which those that fail have no effect, for sizes below \<open>2^63\<close>.
\<close>

theorem persistent_context_exact:
  assumes "unat n < 2 ^ 63" "unat d < 2 ^ 63"
  shows "let db = run_ops persistent_step (empty_db n d) ops;
             ts = context_log persistent_effective ops chat;
             told = (if agent \<notin> tn_agent ` set ts \<or> length (missed agent (kept_turns (unat n) ts)) \<le> unat d
                     then injected (unat n) (unat d) agent ts
                     else take (unat d) (missed agent (kept_turns (unat n) ts)))
         in persistent_augment None db chat agent message = Inr (with_context [CHR 0x0A] told message) \<and>
            persistent_count None chat db = Inr (length (kept_turns (unat n) ts))"
proof -
  let ?db = "run_ops persistent_step (empty_db n d) ops"
  let ?ts = "context_log persistent_effective ops chat"
  let ?told = "if agent \<notin> tn_agent ` set ?ts \<or> length (missed agent (kept_turns (unat n) ?ts)) \<le> unat d
               then injected (unat n) (unat d) agent ?ts
               else take (unat d) (missed agent (kept_turns (unat n) ?ts))"
  have h: "db_holds n d ?db chat ?ts" by (rule persistent_run [OF assms(1)])
  have told: "map turn.truncate (persistent_unseen chat agent ?db) = ?told"
    using persistent_unseen_of [OF h assms(2), of agent] injected_agree [of agent ?ts "unat n" "unat d"]
    by (auto simp: last_answer_None injected_by_db_def)
  let ?unseen = "persistent_unseen chat agent ?db"
  have none: "?unseen = []" if "d = 0"
  proof -
    from that have "?told = []" by (simp add: injected_def)
    with told have "map turn.truncate ?unseen = []" by (rule trans)
    then show ?thesis by simp
  qed
  have "persistent_augment None ?db chat agent message = Inr (with_context [CHR 0x0A] ?unseen message)"
    using h none by (auto simp: persistent_augment_def persistent_preamble_def db_holds_def with_context_def
        split: list.splits)
  also have "\<dots> = Inr (with_context [CHR 0x0A] ?told message)"
    by (simp only: told [symmetric] with_context_truncate)
  finally have "persistent_augment None ?db chat agent message = Inr (with_context [CHR 0x0A] ?told message)" .
  moreover have "persistent_count None chat ?db = Inr (length (kept_turns (unat n) ?ts))"
    using h by (simp add: persistent_count_def db_holds_def)
  ultimately show ?thesis by (simp only: Let_def simp_thms)
qed

definition demo_turn :: "string \<Rightarrow> string \<Rightarrow> turn" where
  "demo_turn agent prompt =
     \<lparr>tn_sender = ''Op'', tn_prompt = prompt, tn_agent = agent, tn_response = ''ok''\<rparr>"

definition demo_context_ops :: "string option context_op list" where
  "demo_context_ops =
     [ContextPush ''c'' (demo_turn ''a'' ''one'') None, ContextPush ''c'' (demo_turn ''b'' ''two'') None,
      ContextPush ''c'' (demo_turn ''b'' ''x'') (Some ''locked''), ContextPush ''c'' (demo_turn ''b'' ''three'') None]"

lemma demo_context_log:
  "context_log persistent_effective demo_context_ops ''c'' =
     [demo_turn ''a'' ''one'', demo_turn ''b'' ''two'', demo_turn ''b'' ''three'']"
  by (simp add: context_log_def demo_context_ops_def)

theorem persistent_context_exact_witness:
  "persistent_augment None (run_ops persistent_step (empty_db 3 1) demo_context_ops) ''c'' ''a'' ''hi'' =
     Inr (with_context [CHR 0x0A] [demo_turn ''b'' ''two''] ''hi'') \<and>
   persistent_count None ''c'' (run_ops persistent_step (empty_db 3 1) demo_context_ops) = Inr 3"
  using persistent_context_exact [of 3 1 demo_context_ops "''c''" "''a''" "''hi''"]
  by (simp add: Let_def demo_context_log kept_turns_def newest_def missed_def demo_turn_def)

text \<open>The store in memory gives the same agent the newest.\<close>

lemma stores_differ:
  "injected 3 1 ''a'' [demo_turn ''a'' ''one'', demo_turn ''b'' ''two'', demo_turn ''b'' ''three''] =
     [demo_turn ''b'' ''three'']"
  by (simp add: injected_def kept_turns_def newest_def missed_def demo_turn_def)

text \<open>A configured database makes the start of a build that supports it fail.\<close>

lemma persistent_never_served:
  "unified_new True open_db (Some url) n d = Inr u \<Longrightarrow> \<exists>e. into_in_memory u = Inl e"
  by (auto simp: unified_new_def into_in_memory_def res_bind_Inr_iff)

end
