(* ===== verification/Chat_Messages.thy ===== *)
theory Chat_Messages
  imports Calci_Prelude
begin

text \<open>
  Messages to a chat (\<open>crates/calciforge/src/messages.rs\<close>): text with attachments and choices,
  the text a channel without buttons shows, and which choice a reply means.
\<close>

section \<open>Messages\<close>

datatype attachment_kind = AttachImage | AttachAudio | AttachVideo | AttachFile

record outbound_attachment =
  oa_kind :: attachment_kind
  oa_path :: string
  oa_mime_type :: string
  oa_caption :: "string option"
  oa_size_bytes :: u64

record choice_option =
  co_label :: string
  co_command :: string
  co_callback_data :: "string option"

record choice_control =
  cc_title :: string
  cc_options :: "choice_option list"

record outbound_message =
  om_text :: "string option"
  om_attachments :: "outbound_attachment list"
  om_controls :: "choice_control list"

definition text_message :: "string \<Rightarrow> outbound_message" where
  "text_message t = \<lparr>om_text = Some t, om_attachments = [], om_controls = []\<rparr>"

definition with_control :: "choice_control \<Rightarrow> outbound_message \<Rightarrow> outbound_message" where
  "with_control c m = (if cc_options c = [] then m else m\<lparr>om_controls := om_controls m @ [c]\<rparr>)"

definition from_mime :: "string \<Rightarrow> attachment_kind" where
  "from_mime mime =
     (if prefix ''image/'' mime then AttachImage
      else if prefix ''audio/'' mime then AttachAudio
      else if prefix ''video/'' mime then AttachVideo
      else AttachFile)"

definition new_choice :: "string \<Rightarrow> string \<Rightarrow> string \<Rightarrow> choice_option" where
  "new_choice label command data =
     \<lparr>co_label = label, co_command = command, co_callback_data = Some data\<rparr>"

definition agent_choice :: "string \<Rightarrow> string \<Rightarrow> choice_option" where
  "agent_choice label i = new_choice label (''!agent switch '' @ i) (''cf:agent:'' @ i)"

definition model_choice :: "string \<Rightarrow> string \<Rightarrow> choice_option" where
  "model_choice label i = new_choice label (''!model use '' @ i) (''cf:model:'' @ i)"

definition session_choice :: "string \<Rightarrow> string \<Rightarrow> string \<Rightarrow> choice_option" where
  "session_choice label agent session =
     new_choice label (''!switch '' @ agent @ '' '' @ session) (''cf:session:'' @ agent @ '':'' @ session)"

definition approve_choice :: "string \<Rightarrow> choice_option" where
  "approve_choice i = new_choice ''Approve'' (''!approve '' @ i) (''cf:approve:'' @ i)"

definition deny_choice :: "string \<Rightarrow> choice_option" where
  "deny_choice i = new_choice ''Deny'' (''!deny '' @ i) (''cf:deny:'' @ i)"

section \<open>The text of a message\<close>

text \<open>\<open>Path::file_name\<close> is an argument.\<close>

definition paragraph_break :: "string \<Rightarrow> string" where
  "paragraph_break r = (if trim r \<noteq> [] then r @ [CHR 0x0A, CHR 0x0A] else r)"

definition attachment_line :: "(string \<Rightarrow> string option) \<Rightarrow> outbound_attachment \<Rightarrow> string" where
  "attachment_line file_name a =
     [CHR 0x0A] @ ''- '' @ oa_mime_type a @ '': '' @
     (case file_name (oa_path a) of Some n \<Rightarrow> n | None \<Rightarrow> ''artifact'') @
     '' ('' @ show_nat (unat (oa_size_bytes a)) @ '' bytes)'' @
     (case oa_caption a of
        Some c \<Rightarrow> if trim c \<noteq> [] then '' - '' @ trim c else []
      | None \<Rightarrow> [])"

definition option_line :: "nat \<times> choice_option \<Rightarrow> string" where
  "option_line = (\<lambda>(i, c).
     show_nat (i + 1) @ ''. '' @ trim (co_label c) @ '': `'' @ trim (co_command c) @ ''`'' @ [CHR 0x0A])"

definition add_control :: "nat \<times> choice_control \<Rightarrow> string \<Rightarrow> string" where
  "add_control = (\<lambda>(i, c) r.
     let r1 = r @ (if 0 < i then [CHR 0x0A] else []) @
           (if trim (cc_title c) \<noteq> [] then trim (cc_title c) @ [CHR 0x0A] else []) @
           concat (map option_line (enumerate 0 (cc_options c)))
     in if suffix [CHR 0x0A] r1 then butlast r1 else r1)"

definition render_text_fallback :: "(string \<Rightarrow> string option) \<Rightarrow> outbound_message \<Rightarrow> string" where
  "render_text_fallback file_name m =
     (let r0 = (case om_text m of Some t \<Rightarrow> t | None \<Rightarrow> []);
          r1 = (if om_attachments m = [] then r0
                else paragraph_break r0 @ ''Attachments:'' @
                     concat (map (attachment_line file_name) (om_attachments m)));
          r2 = (if om_controls m = [] then r1
                else fold add_control (enumerate 0 (om_controls m)) (paragraph_break r1))
      in if trim r2 = [] then ''Agent completed without a text response.'' else r2)"

section \<open>What a reply chooses\<close>

text \<open>The tables behind \<open>to_lowercase\<close> and \<open>is_alphanumeric\<close>, for text that is not ASCII.\<close>

record text_tables =
  tt_lower :: "string \<Rightarrow> string"
  tt_alnum :: "string \<Rightarrow> bool"

definition char_alphanumeric :: "text_tables \<Rightarrow> string \<Rightarrow> bool" where
  "char_alphanumeric tt c =
     (case c of [b] \<Rightarrow> if is_ascii b then ascii_alnum b else tt_alnum tt c | _ \<Rightarrow> tt_alnum tt c)"

definition normalize_for_match :: "text_tables \<Rightarrow> string \<Rightarrow> string" where
  "normalize_for_match tt s =
     to_lowercase (tt_lower tt) (join_with '' ''
       (ws_words [] (concat (filter (\<lambda>c. char_alphanumeric tt c \<or> c \<in> set ws_seqs) (utf8_chars s)))))"

text \<open>\<open>str::parse::<usize>\<close>.\<close>

definition parse_usize :: "string \<Rightarrow> nat option" where
  "parse_usize s =
     (let ds = (case s of c # r \<Rightarrow> if c = CHR ''+'' then r else s | [] \<Rightarrow> s) in
      if ds = [] \<or> \<not> list_all ascii_digit ds then None
      else let n = foldl (\<lambda>n c. 10 * n + digit_value c) 0 ds
           in if n < 2 ^ 64 then Some n else None)"

datatype choice_match = MatchOne choice_option | MatchOutOfRange | MatchAmbiguous | MatchNone

text \<open>One tier of the matching by label: the options whose normalised label satisfies \<open>P\<close>.\<close>

definition match_tier :: "text_tables \<Rightarrow> (string \<Rightarrow> bool) \<Rightarrow> choice_option list \<Rightarrow> choice_match" where
  "match_tier tt P opts =
     (case filter (\<lambda>c. P (normalize_for_match tt (co_label c))) opts of
        [] \<Rightarrow> MatchNone | [c] \<Rightarrow> MatchOne c | _ \<Rightarrow> MatchAmbiguous)"

definition match_label :: "text_tables \<Rightarrow> string \<Rightarrow> choice_option list \<Rightarrow> choice_match" where
  "match_label tt reply opts =
     (if reply = [] then MatchNone
      else case match_tier tt (\<lambda>l. l = reply) opts of
             MatchNone \<Rightarrow>
               (case match_tier tt (prefix reply) opts of
                  MatchNone \<Rightarrow>
                    if 2 \<le> length (utf8_chars reply) then match_tier tt (sublist reply) opts else MatchNone
                | r \<Rightarrow> r)
           | r \<Rightarrow> r)"

definition match_reply :: "text_tables \<Rightarrow> choice_control \<Rightarrow> string \<Rightarrow> choice_match" where
  "match_reply tt c reply =
     (let trimmed = trim (dropWhile (\<lambda>d. d = CHR ''#'') (trim reply)) in
      if trimmed = [] then MatchNone
      else case parse_usize trimmed of
             Some n \<Rightarrow>
               if 1 \<le> n \<and> n \<le> length (cc_options c) then MatchOne (cc_options c ! (n - 1))
               else MatchOutOfRange
           | None \<Rightarrow> match_label tt (normalize_for_match tt trimmed) (cc_options c))"

lemma match_tier_One:
  "match_tier tt P opts = MatchOne c \<Longrightarrow>
     c \<in> set opts \<and> P (normalize_for_match tt (co_label c)) \<and>
     (\<forall>d \<in> set opts. P (normalize_for_match tt (co_label d)) \<longrightarrow> d = c)"
proof -
  let ?hits = "filter (\<lambda>c. P (normalize_for_match tt (co_label c))) opts"
  assume "match_tier tt P opts = MatchOne c"
  then have "?hits = [c]" by (auto simp: match_tier_def split: list.splits)
  then have "set ?hits = {c}" by simp
  then show ?thesis by auto
qed

text \<open>A match by label is the only option of its tier, and its label contains the reply.\<close>

lemma match_label_One:
  assumes "match_label tt reply opts = MatchOne c"
  shows "c \<in> set opts \<and> reply \<noteq> [] \<and> sublist reply (normalize_for_match tt (co_label c))"
proof -
  have "\<exists>P. match_tier tt P opts = MatchOne c \<and> (\<forall>l. P l \<longrightarrow> sublist reply l)"
    using assms
    by (force simp: match_label_def split: choice_match.splits if_splits)
  with match_tier_One [of tt _ opts c] assms show ?thesis
    by (auto simp: match_label_def split: if_splits)
qed

lemma match_reply_One: "match_reply tt c reply = MatchOne x \<Longrightarrow> x \<in> set (cc_options c)"
  by (auto simp: match_reply_def Let_def dest: match_label_One split: if_splits option.splits)

end
