(* ===== verification/Chat_Commands.thy ===== *)
theory Chat_Commands
  imports Chat_Messages Model_Names Local_Models Conversation_Context
begin

text \<open>
  Commands of a chat (\<open>crates/calciforge/src/commands.rs\<close>, \<open>commands/parser.rs\<close>, \<open>auth.rs\<close>,
  \<open>agent_kinds.rs\<close> and the classification of agents in \<open>adapters/mod.rs\<close>): who a sender is, which
  agents an identity may use, which commands a text is, the choices that are pending, and the
  commands that need no identity.
\<close>

section \<open>Configuration\<close>

record agent_config =
  ag_id :: string
  ag_kind :: string
  ag_endpoint :: string
  ag_model :: "string option"
  ag_auth_token :: "string option"
  ag_allow_model_override :: "bool option"
  ag_command :: "string option"
  ag_env :: "(string \<rightharpoonup> string) option"
  ag_display_name :: "string option"
  ag_aliases :: "string list"

record chat_identity =
  ci_id :: string
  ci_display_name :: "string option"
  ci_aliases :: "(string \<times> string) list"
  ci_role :: "string option"

record routing_rule =
  rr_identity :: string
  rr_default_agent :: string
  rr_btw_agent :: "string option"
  rr_allowed_agents :: "string list"

record channel_config =
  cn_kind :: string
  cn_enabled :: bool
  cn_scan_messages :: bool
  cn_allow_chat_secret_set :: bool
  cn_text_ui :: bool

record chat_provider =
  cp_id :: string
  cp_models :: "string list"
  cp_on_switch :: "string option"

record chat_proxy =
  ch_enabled :: bool
  ch_backend_type :: string
  ch_bind :: string
  ch_gateway_ui_url :: "string option"
  ch_providers :: "chat_provider list"

record chat_config =
  cf_version :: u32
  cf_identities :: "chat_identity list"
  cf_agents :: "agent_config list"
  cf_routing :: "routing_rule list"
  cf_channels :: "channel_config list"
  cf_shortcuts :: "shortcut list"
  cf_roles :: "model_role list"
  cf_proxy :: "chat_proxy option"
  cf_inject_depth :: u64

text \<open>\<open>effective_model_shortcuts\<close>.\<close>

definition chat_shortcuts :: "chat_config \<Rightarrow> shortcut list" where
  "chat_shortcuts cf = cf_shortcuts cf @ map as_shortcut (cf_roles cf)"

definition find_agent :: "chat_config \<Rightarrow> string \<Rightarrow> agent_config option" where
  "find_agent cf i = find (\<lambda>a. ag_id a = i) (cf_agents cf)"

definition find_rule :: "chat_config \<Rightarrow> string \<Rightarrow> routing_rule option" where
  "find_rule cf who = find (\<lambda>r. rr_identity r = who) (cf_routing cf)"

definition default_agent_for :: "chat_config \<Rightarrow> string \<Rightarrow> string option" where
  "default_agent_for cf who = map_option rr_default_agent (find_rule cf who)"

text \<open>An identity is found by the first alias of a sender, in the order of the configuration.\<close>

definition resolve_channel_sender :: "chat_config \<Rightarrow> string \<Rightarrow> string \<Rightarrow> chat_identity option" where
  "resolve_channel_sender cf kind sender =
     find (\<lambda>i. (kind, sender) \<in> set (ci_aliases i)) (cf_identities cf)"

definition scan_enabled :: "chat_config \<Rightarrow> string \<Rightarrow> bool" where
  "scan_enabled cf kind =
     (case find (\<lambda>c. cn_kind c = kind) (cf_channels cf) of Some c \<Rightarrow> cn_scan_messages c | None \<Rightarrow> False)"

definition channel_allows_chat_secret_set :: "chat_config \<Rightarrow> string \<Rightarrow> bool" where
  "channel_allows_chat_secret_set cf kind =
     (case filter (\<lambda>c. cn_kind c = kind \<and> cn_enabled c) (cf_channels cf) of
        [c] \<Rightarrow> cn_allow_chat_secret_set c | _ \<Rightarrow> False)"

text \<open>Buttons, where the only enabled channel of the kind is not restricted to text.\<close>

definition channel_allows_rich_ui :: "chat_config \<Rightarrow> string \<Rightarrow> bool" where
  "channel_allows_rich_ui cf kind =
     (case filter (\<lambda>c. cn_kind c = kind \<and> cn_enabled c) (cf_channels cf) of
        [c] \<Rightarrow> \<not> cn_text_ui c | _ \<Rightarrow> False)"

section \<open>Kinds of agents\<close>

datatype agent_kind =
    OpenClawChannel | OpenAiCompat | ZeroClawHttp | ZeroClawNative | ZeroClaw | IronClaw | Hermes
  | ExecAgent | CliAgent | ArtifactCli | CodexCli | ClaudeCli | DiracCli | KimiCli | AcpAgent | Acpx

fun agent_kind_str :: "agent_kind \<Rightarrow> string" where
  "agent_kind_str OpenClawChannel = ''openclaw-channel''"
| "agent_kind_str OpenAiCompat = ''openai-compat''"
| "agent_kind_str ZeroClawHttp = ''zeroclaw-http''"
| "agent_kind_str ZeroClawNative = ''zeroclaw-native''"
| "agent_kind_str ZeroClaw = ''zeroclaw''"
| "agent_kind_str IronClaw = ''ironclaw''"
| "agent_kind_str Hermes = ''hermes''"
| "agent_kind_str ExecAgent = ''exec''"
| "agent_kind_str CliAgent = ''cli''"
| "agent_kind_str ArtifactCli = ''artifact-cli''"
| "agent_kind_str CodexCli = ''codex-cli''"
| "agent_kind_str ClaudeCli = ''claude-cli''"
| "agent_kind_str DiracCli = ''dirac-cli''"
| "agent_kind_str KimiCli = ''kimi-cli''"
| "agent_kind_str AcpAgent = ''acp''"
| "agent_kind_str Acpx = ''acpx''"

definition ALL_AGENT_KINDS :: "agent_kind list" where
  "ALL_AGENT_KINDS =
     [OpenClawChannel, OpenAiCompat, ZeroClawHttp, ZeroClawNative, ZeroClaw, IronClaw, Hermes,
      ExecAgent, CliAgent, ArtifactCli, CodexCli, ClaudeCli, DiracCli, KimiCli, AcpAgent, Acpx]"

definition parse_agent_kind :: "string \<Rightarrow> agent_kind option" where
  "parse_agent_kind s = find (\<lambda>k. agent_kind_str k = s) ALL_AGENT_KINDS"

lemma parse_agent_kind_str: "parse_agent_kind (agent_kind_str k) = Some k"
  by (cases k) (simp_all add: parse_agent_kind_def ALL_AGENT_KINDS_def)

definition needs_endpoint :: "agent_kind \<Rightarrow> bool" where
  "needs_endpoint k \<longleftrightarrow>
     k \<in> {OpenClawChannel, OpenAiCompat, ZeroClawHttp, ZeroClawNative, ZeroClaw, IronClaw, Hermes}"

definition is_subprocess_agent :: "agent_kind \<Rightarrow> bool" where
  "is_subprocess_agent k \<longleftrightarrow>
     k \<in> {ExecAgent, CliAgent, ArtifactCli, CodexCli, ClaudeCli, DiracCli, KimiCli, AcpAgent, Acpx}"

lemma agent_kind_endpoint: "is_subprocess_agent k \<longleftrightarrow> \<not> needs_endpoint k"
  by (cases k) (simp_all add: is_subprocess_agent_def needs_endpoint_def)

definition subprocess_command_for_agent :: "agent_config \<Rightarrow> string option" where
  "subprocess_command_for_agent a =
     (let or_default = (\<lambda>d. Some (case ag_command a of Some c \<Rightarrow> c | None \<Rightarrow> d)) in
      case parse_agent_kind (ag_kind a) of
        None \<Rightarrow> None
      | Some k \<Rightarrow>
          if k \<in> {ExecAgent, CliAgent, ArtifactCli, AcpAgent} then ag_command a
          else if k = CodexCli then or_default ''codex''
          else if k = ClaudeCli then or_default ''claude''
          else if k = DiracCli then or_default ''dirac''
          else if k = KimiCli then or_default ''kimi''
          else if k = Acpx then ag_command a
          else None)"

definition agent_supports_model_override :: "agent_config \<Rightarrow> bool" where
  "agent_supports_model_override a = (case ag_allow_model_override a of Some b \<Rightarrow> b | None \<Rightarrow> False)"

definition agent_supports_native_commands :: "agent_config \<Rightarrow> bool" where
  "agent_supports_native_commands a \<longleftrightarrow> ag_kind a = ''openclaw-channel''"

datatype session_capability = NoSessions | NamedSessions | ListableSessions

definition agent_session_capability :: "agent_config \<Rightarrow> session_capability" where
  "agent_session_capability a =
     (if ag_kind a = ''acpx'' then ListableSessions
      else if ag_kind a \<in> {''openclaw-channel'', ''hermes'', ''codex-cli'', ''claude-cli'', ''kimi-cli''}
      then NamedSessions
      else NoSessions)"

text \<open>
  Programs on the path, for a system with one separator: whether a path is an executable file,
  the path of the service and \<open>join\<close> are arguments.
\<close>

record path_world =
  pw_executable :: "string \<Rightarrow> bool"
  pw_absolute :: "string \<Rightarrow> bool"
  pw_path :: "string option"
  pw_join :: "string \<Rightarrow> string \<Rightarrow> string"

definition find_executable_for_agent ::
  "path_world \<Rightarrow> string \<Rightarrow> (string \<rightharpoonup> string) option \<Rightarrow> string option" where
  "find_executable_for_agent w binary env =
     (if pw_absolute w binary \<or> CHR 0x2F \<in> set binary \<or> CHR 0x5C \<in> set binary
      then (if pw_executable w binary then Some binary else None)
      else case (case Option.bind env (\<lambda>e. e ''PATH'') of Some p \<Rightarrow> Some p | None \<Rightarrow> pw_path w) of
             None \<Rightarrow> None
           | Some path \<Rightarrow>
               find (pw_executable w) (map (\<lambda>dir. pw_join w dir binary) (split_char (CHR 0x3A) path)))"

definition acpx_binary_for_agent :: "path_world \<Rightarrow> agent_config \<Rightarrow> string + string" where
  "acpx_binary_for_agent w a =
     (case find_executable_for_agent w ''acpx'' (ag_env a) of
        Some p \<Rightarrow> Inr p
      | None \<Rightarrow> Inl (''acpx executable was not found on the effective PATH used for this agent; when '' @
       ''env.PATH is configured it replaces Calciforge'' @ [CHR 0x27] @ ''s service PATH''))"

text \<open>The outer \<^const>\<open>None\<close>: the code panics, where a kind has no command.\<close>

definition session_runtime_readiness_error :: "path_world \<Rightarrow> agent_config \<Rightarrow> string option option" where
  "session_runtime_readiness_error w a =
     (if ag_kind a = ''acpx'' then
        (case acpx_binary_for_agent w a of
           Inl e \<Rightarrow> Some (Some e)
         | Inr _ \<Rightarrow>
        (case subprocess_command_for_agent a of
           None \<Rightarrow> Some (Some ''acpx agent is missing required command'')
         | Some c \<Rightarrow>
             if find_executable_for_agent w c (ag_env a) = None
             then Some (Some (''configured ACPX downstream command '' @ [CHR 0x27] @ c @ [CHR 0x27] @
       '' was not found on the effective PATH used for this agent; when env.PATH is '' @
       ''configured it replaces Calciforge'' @ [CHR 0x27] @ ''s service PATH''))
             else Some None))
      else if ag_kind a \<in> {''codex-cli'', ''claude-cli'', ''kimi-cli''} then
        (case subprocess_command_for_agent a of
           None \<Rightarrow> None
         | Some c \<Rightarrow>
             if find_executable_for_agent w c (ag_env a) = None
             then Some (Some (''configured command '' @ [CHR 0x27] @ c @ [CHR 0x27] @
       '' was not found on the effective PATH used for this agent; when env.PATH is '' @
       ''configured it replaces Calciforge'' @ [CHR 0x27] @ ''s service PATH''))
             else Some None)
      else Some None)"

lemma readiness_never_panics: "\<exists>r. session_runtime_readiness_error w a = Some r"
  by (auto simp: session_runtime_readiness_error_def subprocess_command_for_agent_def
      parse_agent_kind_def ALL_AGENT_KINDS_def split: sum.splits option.splits)

section \<open>Words of a command\<close>

text \<open>Trimming does not change the words of a text.\<close>

lemma ws_seqs_utf8:
  "\<forall>w \<in> set ws_seqs. \<exists>c r. w = c # r \<and> \<not> utf8_cont c \<and> list_all utf8_cont r"
  by (simp add: ws_seqs_def utf8_cont_def)

lemma ws_seqs_prefix_free:
  "w \<in> set ws_seqs \<Longrightarrow> v \<in> set ws_seqs \<Longrightarrow> prefix w v \<Longrightarrow> w = v"
proof -
  have "\<forall>w \<in> set ws_seqs. \<forall>v \<in> set ws_seqs. prefix w v \<longrightarrow> w = v"
    by (simp add: ws_seqs_def)
  then show "w \<in> set ws_seqs \<Longrightarrow> v \<in> set ws_seqs \<Longrightarrow> prefix w v \<Longrightarrow> w = v" by blast
qed

lemma ws_find:
  assumes "w \<in> set ws_seqs" "prefix w s"
  shows "find (\<lambda>v. prefix v s) ws_seqs = Some w"
proof -
  from assms obtain v where v: "find (\<lambda>v. prefix v s) ws_seqs = Some v"
    by (cases "find (\<lambda>v. prefix v s) ws_seqs") (auto simp: find_None_iff)
  then have "v \<in> set ws_seqs" "prefix v s" by (auto simp: find_Some_iff)
  with assms have "prefix v w \<or> prefix w v" by (meson prefix_same_cases)
  with \<open>v \<in> set ws_seqs\<close> assms ws_seqs_prefix_free show ?thesis using v by blast
qed

lemma ws_words_ws:
  assumes "w \<in> set ws_seqs"
  shows "ws_words acc (w @ s) = (if acc = [] then [] else [rev acc]) @ ws_words [] s"
proof -
  from assms ws_seqs_utf8 obtain c r where "w = c # r" by blast
  with ws_find [OF assms, of "w @ s"] show ?thesis by simp
qed


lemma ws_words_drop_seqs: "ws_words [] (drop_seqs ws_seqs s) = ws_words [] s"
proof (induction s rule: length_induct)
  case (1 s)
  show ?case
  proof (cases "find (\<lambda>w. w \<noteq> [] \<and> prefix w s) ws_seqs")
    case None
    then show ?thesis by (subst drop_seqs.simps) simp
  next
    case (Some w)
    then have w: "w \<in> set ws_seqs" "w \<noteq> []" "prefix w s" by (auto simp: find_Some_iff)
    then obtain r where r: "s = w @ r" by (auto simp: prefix_def)
    have "drop_seqs ws_seqs s = drop_seqs ws_seqs r"
      using Some r by (subst drop_seqs.simps) simp
    moreover have "length r < length s" using r w by simp
    ultimately show ?thesis using 1 r ws_words_ws [OF w(1), of "[]" r] by simp
  qed
qed

lemma ws_words_trim_start: "ws_words [] (trim_start s) = ws_words [] s"
  by (simp add: trim_start_def ws_words_drop_seqs)

text \<open>A white space at the end adds no word: no other one reaches into it.\<close>

lemma ws_no_overlap:
  assumes "v \<in> set ws_seqs" "w \<in> set ws_seqs" "prefix v (s @ w)" "s \<noteq> []"
  shows "prefix v s"
proof -
  from assms(3) have "prefix v s \<or> (\<exists>p. v = s @ p \<and> prefix p w)"
    by (auto simp: prefix_append)
  moreover have "p = []" if "v = s @ p" "prefix p w" for p
  proof (rule ccontr)
    assume "p \<noteq> []"
    with that assms(2) ws_seqs_utf8 obtain c q where "p = c # q" "\<not> utf8_cont c"
      by (cases p) force+
    moreover from that assms(1,4) ws_seqs_utf8 have "list_all utf8_cont p"
      by (cases s) fastforce+
    ultimately show False by simp
  qed
  ultimately show ?thesis by auto
qed

lemma ws_words_end: "w \<in> set ws_seqs \<Longrightarrow> ws_words acc (s @ w) = ws_words acc s"
proof (induction acc s rule: ws_words.induct)
  case (1 acc)
  then show ?case using ws_words_ws [of w acc "[]"] by simp
next
  case (2 acc c s)
  show ?case
  proof (cases "find (\<lambda>v. prefix v (c # s)) ws_seqs")
    case (Some v)
    then have v: "v \<in> set ws_seqs" "prefix v (c # s)" by (auto simp: find_Some_iff)
    moreover from v(2) have "prefix v ((c # s) @ w)" by (rule prefix_prefix)
    ultimately have "find (\<lambda>v. prefix v ((c # s) @ w)) ws_seqs = Some v" by (intro ws_find)
    moreover have "length v - 1 \<le> length s" using v(2) by (auto dest!: prefix_length_le)
    ultimately show ?thesis using 2 Some by simp
  next
    case None
    then have "\<not> prefix v (c # s)" if "v \<in> set ws_seqs" for v using that by (auto simp: find_None_iff)
    then have "find (\<lambda>v. prefix v (c # s @ w)) ws_seqs = None"
      using ws_no_overlap [of _ w "c # s"] 2(3) by (auto simp: find_None_iff)
    then show ?thesis using 2 None by simp
  qed
qed

lemma ws_words_rev_drop:
  "ws_words acc (rev (drop_seqs (map rev ws_seqs) (rev s))) = ws_words acc s"
proof (induction s rule: length_induct)
  case (1 s)
  show ?case
  proof (cases "find (\<lambda>w. w \<noteq> [] \<and> prefix w (rev s)) (map rev ws_seqs)")
    case None
    then show ?thesis by (subst drop_seqs.simps) simp
  next
    case (Some v)
    then have v: "v \<in> set (map rev ws_seqs)" "v \<noteq> []" "prefix v (rev s)" by (auto simp: find_Some_iff)
    then obtain r where r: "rev s = v @ rev r" by (auto simp: prefix_def) (metis rev_rev_ident)
    then have s: "s = r @ rev v" by (metis rev_append rev_rev_ident)
    have "drop_seqs (map rev ws_seqs) (rev s) = drop_seqs (map rev ws_seqs) (rev r)"
      using Some r by (subst drop_seqs.simps) simp
    moreover have "rev v \<in> set ws_seqs" using v(1) by auto
    moreover have "length r < length s" using s v by simp
    ultimately show ?thesis using 1 s ws_words_end [of "rev v" acc r] by simp
  qed
qed

lemma ws_words_trim [simp]: "ws_words [] (trim s) = ws_words [] s"
  by (simp add: trim_def trim_end_def ws_words_rev_drop ws_words_trim_start)

definition command_token :: "string \<Rightarrow> string" where
  "command_token text = (case ws_words [] text of [] \<Rightarrow> [] | w # _ \<Rightarrow> w)"

definition first_arg :: "string \<Rightarrow> string option" where
  "first_arg text = (case ws_words [] text of _ # a # _ \<Rightarrow> Some a | _ \<Rightarrow> None)"

definition second_arg :: "string \<Rightarrow> string option" where
  "second_arg text = (case ws_words [] text of _ # _ # a # _ \<Rightarrow> Some a | _ \<Rightarrow> None)"

definition eq_ignore_case :: "string \<Rightarrow> string \<Rightarrow> bool" where
  "eq_ignore_case a b \<longleftrightarrow> to_ascii_lowercase a = to_ascii_lowercase b"

definition COMMANDS :: "string list" where
  "COMMANDS =
     [''!help'', ''!status'', ''!agents'', ''!agent'', ''!sessions'', ''!session'', ''!new'', ''!btw'',
      ''!gateway'', ''!metrics'', ''!ping'', ''!switch'', ''!default'', ''!model'', ''!secure'',
      ''!secret'', ''!approve'', ''!deny'']"

text \<open>One row of the distance table, from the cell to the left and the row above.\<close>

fun lev_cells :: "'a \<Rightarrow> nat \<Rightarrow> nat \<Rightarrow> 'a list \<Rightarrow> nat list \<Rightarrow> nat list" where
  "lev_cells ca left previous (cb # bs) (up # ups) =
     (let c = min (min (up + 1) (left + 1)) (previous + (if ca \<noteq> cb then 1 else 0))
      in c # lev_cells ca c up bs ups)"
| "lev_cells ca left previous bs ups = []"

definition lev_row :: "'a list \<Rightarrow> nat \<times> 'a \<Rightarrow> nat list \<Rightarrow> nat list" where
  "lev_row bs = (\<lambda>(i, ca) costs.
     case costs of [] \<Rightarrow> [] | first # ups \<Rightarrow> (i + 1) # lev_cells ca (i + 1) first bs ups)"

definition levenshtein_distance :: "'a list \<Rightarrow> 'a list \<Rightarrow> nat" where
  "levenshtein_distance as bs =
     fold (lev_row bs) (enumerate 0 as) [0..<length bs + 1] ! length bs"

text \<open>
  What the rows compute: the least number of characters that are deleted, inserted or replaced.
\<close>

inductive edits :: "nat \<Rightarrow> 'a list \<Rightarrow> 'a list \<Rightarrow> bool" where
  no_edit: "edits 0 [] []"
| keep: "edits n xs ys \<Longrightarrow> edits n (c # xs) (c # ys)"
| delete: "edits n xs ys \<Longrightarrow> edits (n + 1) (c # xs) ys"
| insert: "edits n xs ys \<Longrightarrow> edits (n + 1) xs (c # ys)"
| replace: "edits n xs ys \<Longrightarrow> edits (n + 1) (c # xs) (d # ys)"

fun least_edits :: "'a list \<Rightarrow> 'a list \<Rightarrow> nat" where
  "least_edits [] ys = length ys"
| "least_edits xs [] = length xs"
| "least_edits (x # xs) (y # ys) =
     min (min (least_edits xs (y # ys) + 1) (least_edits (x # xs) ys + 1))
         (least_edits xs ys + (if x \<noteq> y then 1 else 0))"

lemma edits_from_nil: "edits (length ys) [] ys"
  by (induction ys) (auto intro: edits.intros dest: edits.insert)

lemma edits_to_nil: "edits (length xs) xs []"
  by (induction xs) (auto intro: edits.intros dest: edits.delete)

lemma least_edits_nil [simp]: "least_edits xs [] = length xs"
  by (cases xs) simp_all

lemma edits_least: "edits (least_edits xs ys) xs ys"
proof (induction xs ys rule: least_edits.induct)
  case (3 x xs y ys)
  then have "edits (least_edits xs (y # ys) + 1) (x # xs) (y # ys)"
    "edits (least_edits (x # xs) ys + 1) (x # xs) (y # ys)"
    "edits (least_edits xs ys + (if x \<noteq> y then 1 else 0)) (x # xs) (y # ys)"
    by (auto intro: edits.intros simp del: Suc_eq_plus1 One_nat_def)
  then show ?case by (simp add: min_def)
next
  case (1 ys)
  then show ?case by (simp add: edits_from_nil)
next
  case (2 x xs)
  then show ?case using edits_to_nil [of "x # xs"] by simp
qed

lemma least_edits_le: "edits n xs ys \<Longrightarrow> least_edits xs ys \<le> n"
proof (induction rule: edits.induct)
  case (delete n xs ys c)
  then show ?case by (cases ys) auto
next
  case (insert n xs ys c)
  then show ?case by (cases xs) auto
qed auto

lemma edits_append: "edits n xs ys \<Longrightarrow> edits m us vs \<Longrightarrow> edits (n + m) (xs @ us) (ys @ vs)"
  by (induction rule: edits.induct) (auto intro: edits.intros dest: edits.delete edits.insert edits.replace)

lemma edits_rev: "edits n xs ys \<Longrightarrow> edits n (rev xs) (rev ys)"
proof (induction rule: edits.induct)
  case (keep n xs ys c)
  then show ?case using edits_append [of n "rev xs" "rev ys" 0 "[c]" "[c]"] by (simp add: edits.intros)
next
  case (delete n xs ys c)
  then show ?case using edits_append [of n "rev xs" "rev ys" 1 "[c]" "[]"] edits_to_nil [of "[c]"] by simp
next
  case (insert n xs ys c)
  then show ?case using edits_append [of n "rev xs" "rev ys" 1 "[]" "[c]"] edits_from_nil [of "[c]"] by simp
next
  case (replace n xs ys c d)
  have "edits 1 [c] [d]" using edits.replace [OF edits.no_edit] by simp
  with replace edits_append [of n "rev xs" "rev ys" 1 "[c]" "[d]"] show ?case by simp
qed (simp add: edits.intros)

lemma least_edits_rev: "least_edits (rev xs) (rev ys) = least_edits xs ys"
  using edits_rev [OF edits_least [of xs ys]] edits_rev [OF edits_least [of "rev xs" "rev ys"]]
  by (auto intro!: antisym least_edits_le)

lemma lev_cells_row:
  "lev_cells c (least_edits (c # us) vs) (least_edits us vs) bs
     (map (\<lambda>j. least_edits us (rev (take j bs) @ vs)) [1..<length bs + 1]) =
   map (\<lambda>j. least_edits (c # us) (rev (take j bs) @ vs)) [1..<length bs + 1]"
proof (induction bs arbitrary: vs)
  case (Cons b bs)
  have cells: "map f [1..<length (b # bs) + 1] = f 1 # map (\<lambda>j. f (Suc j)) [1..<length bs + 1]" for f :: "nat \<Rightarrow> nat"
    by (simp add: upt_conv_Cons map_Suc_upt [symmetric] del: upt_Suc map_Suc_upt)
  have "min (min (least_edits us (b # vs) + 1) (least_edits (c # us) vs + 1))
      (least_edits us vs + (if c \<noteq> b then 1 else 0)) = least_edits (c # us) (b # vs)" by simp
  then show ?case using Cons [of "b # vs"] unfolding cells by (simp add: Let_def del: upt_Suc)
qed simp

lemma lev_row_step:
  assumes "length us = i"
  shows "lev_row bs (i, c) (map (\<lambda>j. least_edits us (rev (take j bs))) [0..<length bs + 1]) =
    map (\<lambda>j. least_edits (c # us) (rev (take j bs))) [0..<length bs + 1]"
proof -
  have rows: "map f [0..<length bs + 1] = f 0 # map f [1..<length bs + 1]" for f :: "nat \<Rightarrow> nat"
    by (simp add: upt_conv_Cons del: upt_Suc)
  show ?thesis using assms lev_cells_row [of c us "[]" bs]
    by (simp only: rows, simp add: lev_row_def del: upt_Suc)
qed

lemma lev_rows:
  "fold (lev_row bs) (enumerate (length us) as) (map (\<lambda>j. least_edits us (rev (take j bs))) [0..<length bs + 1]) =
   map (\<lambda>j. least_edits (rev as @ us) (rev (take j bs))) [0..<length bs + 1]"
proof (induction as arbitrary: us)
  case (Cons a as)
  then show ?case using Cons [of "a # us"] lev_row_step [of us "length us" bs a]
    by (simp del: upt_Suc)
qed simp

lemma levenshtein_least_edits: "levenshtein_distance as bs = least_edits as bs"
proof -
  have "[0..<length bs + 1] = map (\<lambda>j. least_edits [] (rev (take j bs))) [0..<length bs + 1]"
    by (rule map_idI [symmetric]) (auto simp del: upt_Suc)
  then have "fold (lev_row bs) (enumerate 0 as) [0..<length bs + 1] =
      map (\<lambda>j. least_edits (rev as) (rev (take j bs))) [0..<length bs + 1]"
    using lev_rows [of bs "[]" as] by simp
  then have "levenshtein_distance as bs = least_edits (rev as) (rev bs)"
    unfolding levenshtein_distance_def by (simp del: upt_Suc)
  then show ?thesis by (simp add: least_edits_rev)
qed

text \<open>
  C28: The distance by which an unknown command is compared with the known ones is the least number
  of insertions, deletions and replacements of characters that turn one into the other.
\<close>

theorem levenshtein_least: "levenshtein_distance as bs = (LEAST n. edits n as bs)"
  unfolding levenshtein_least_edits
  by (rule Least_equality [symmetric]) (simp_all add: edits_least least_edits_le)

definition trim_bangs :: "string \<Rightarrow> string" where
  "trim_bangs s = dropWhile (\<lambda>c. c = CHR 0x21) s"

definition command_suggestion :: "text_tables \<Rightarrow> string \<Rightarrow> string option" where
  "command_suggestion tt cmd =
     (let raw = trim_bangs cmd in
      if 64 < length (utf8_chars raw) then None
      else let lower = to_lowercase (tt_lower tt) raw in
        case find (\<lambda>c. trim_bangs c = lower) COMMANDS of
          Some c \<Rightarrow> Some c
        | None \<Rightarrow>
            find (\<lambda>c. levenshtein_distance (utf8_chars lower) (utf8_chars (trim_bangs c)) \<le> 2) COMMANDS)"

section \<open>Which command a text is\<close>

definition lower_token :: "text_tables \<Rightarrow> string \<Rightarrow> string" where
  "lower_token tt text = to_lowercase (tt_lower tt) (command_token (trim text))"

definition is_sessions_command :: "text_tables \<Rightarrow> string \<Rightarrow> bool" where
  "is_sessions_command tt text \<longleftrightarrow> lower_token tt text \<in> {''!sessions'', ''!session''}"

definition is_new_session_command :: "text_tables \<Rightarrow> string \<Rightarrow> bool" where
  "is_new_session_command tt text \<longleftrightarrow> lower_token tt text = ''!new''"

definition is_btw_command :: "text_tables \<Rightarrow> string \<Rightarrow> bool" where
  "is_btw_command tt text \<longleftrightarrow> lower_token tt text = ''!btw''"

definition is_switch_command :: "text_tables \<Rightarrow> string \<Rightarrow> bool" where
  "is_switch_command tt text \<longleftrightarrow> lower_token tt text \<in> {''!switch'', ''!agent''}"

definition is_default_command :: "text_tables \<Rightarrow> string \<Rightarrow> bool" where
  "is_default_command tt text \<longleftrightarrow> lower_token tt text = ''!default''"

definition is_model_command :: "text_tables \<Rightarrow> string \<Rightarrow> bool" where
  "is_model_command tt text \<longleftrightarrow> lower_token tt text = ''!model''"

definition is_status_command :: "text_tables \<Rightarrow> string \<Rightarrow> bool" where
  "is_status_command tt text \<longleftrightarrow> lower_token tt text = ''!status''"

definition is_gateway_command :: "text_tables \<Rightarrow> string \<Rightarrow> bool" where
  "is_gateway_command tt text \<longleftrightarrow> lower_token tt text = ''!gateway''"

definition is_approve_command :: "text_tables \<Rightarrow> string \<Rightarrow> bool" where
  "is_approve_command tt text \<longleftrightarrow> lower_token tt text = ''!approve''"

definition is_deny_command :: "text_tables \<Rightarrow> string \<Rightarrow> bool" where
  "is_deny_command tt text \<longleftrightarrow> lower_token tt text = ''!deny''"

definition is_context_clear_command :: "string \<Rightarrow> bool" where
  "is_context_clear_command text \<longleftrightarrow> eq_ignore_case (trim text) ''!context clear''"

definition is_command :: "string \<Rightarrow> bool" where
  "is_command text \<longleftrightarrow> prefix ''!'' (trim text)"

definition is_simple_local_command :: "text_tables \<Rightarrow> string \<Rightarrow> bool" where
  "is_simple_local_command tt text \<longleftrightarrow>
     lower_token tt text \<in> {''!help'', ''!commands'', ''!agents'', ''!metrics'', ''!ping''}"

definition is_secure_command :: "text_tables \<Rightarrow> string \<Rightarrow> bool" where
  "is_secure_command tt text \<longleftrightarrow> lower_token tt text \<in> {''!secure'', ''!secret''}"

definition is_secure_set_command :: "text_tables \<Rightarrow> string \<Rightarrow> bool" where
  "is_secure_set_command tt text \<longleftrightarrow>
     (let low = to_lowercase (tt_lower tt);
          cmd = low (command_token text);
          sub = low (case first_arg text of Some a \<Rightarrow> a | None \<Rightarrow> [])
      in cmd \<in> {''!secure'', ''!secret''} \<and> sub = ''set'')"

definition is_known_channel_command :: "text_tables \<Rightarrow> string \<Rightarrow> bool" where
  "is_known_channel_command tt text \<longleftrightarrow>
     is_simple_local_command tt text \<or> is_status_command tt text \<or> is_gateway_command tt text \<or>
     is_switch_command tt text \<or> is_default_command tt text \<or> is_sessions_command tt text \<or>
     is_new_session_command tt text \<or> is_btw_command tt text \<or> is_model_command tt text \<or>
     is_secure_command tt text \<or> is_approve_command tt text \<or> is_deny_command tt text \<or>
     is_context_clear_command text"

definition is_unknown_channel_command :: "text_tables \<Rightarrow> string \<Rightarrow> bool" where
  "is_unknown_channel_command tt text \<longleftrightarrow> is_command text \<and> \<not> is_known_channel_command tt text"

definition unknown_command :: "text_tables \<Rightarrow> string \<Rightarrow> string" where
  "unknown_command tt text =
     (let cmd = command_token text in
      join_with [CHR 0x0A, CHR 0x0A]
        ([([CHR 0xE2, CHR 0x9A, CHR 0xA0, CHR 0xEF, CHR 0xB8, CHR 0x8F] @ '' Unknown command: '' @
       cmd)] @
         (case command_suggestion tt cmd of Some s \<Rightarrow> [''Did you mean `'' @ s @ ''`?''] | None \<Rightarrow> []) @
         [''Use `!help` to see available commands.'']))"

definition secure_set_disabled_reply :: "string \<Rightarrow> string" where
  "secure_set_disabled_reply channel =
     ([CHR 0xE2, CHR 0x9A, CHR 0xA0, CHR 0xEF, CHR 0xB8, CHR 0x8F] @
       '' `!secret set` / `!secure set` is disabled for '' @ channel @
       '' by default because it sends the secret through chat history. Use `!secret '' @
       ''input NAME` from chat, or set `allow_chat_secret_set = true` on this channel '' @
       ''only if you accept that retention tradeoff.'')"

end
