(* ===== verification/Chat_State.thy ===== *)
theory Chat_State
  imports Chat_Commands Gateway_Secrets Adversary_Verdict
begin

text \<open>
  The state of the command handler (\<open>crates/calciforge/src/commands.rs\<close>, \<open>commands/state.rs\<close> and the
  beginnings of \<open>commands/sessions.rs\<close>, \<open>commands/model.rs\<close>): which agent, model and session an
  identity has chosen, kept on disk; the choices and approvals that are pending; which agents an
  identity may use.
\<close>

section \<open>State\<close>

record approval_meta =
  pa_request_id :: string
  pa_endpoint :: string
  pa_auth_token :: string
  pa_summary :: string

record pending_choice =
  pc_controls :: "choice_control list"
  pc_expires_at :: nat

record paste_env =
  pe_bind :: "string option"
  pe_public_base_url :: "string option"
  pe_public_host :: "string option"

text \<open>What became of a paste server that was started, up to its first line.\<close>

datatype paste_start =
    PasteNotInstalled
  | PasteFailed string
  | PasteNoStream
  | PasteLine string
  | PasteEof
  | PasteReadFailed string
  | PasteTimedOut

text \<open>A process that could not be run, or its success, standard output and standard error.\<close>

datatype acpx_result = AcpxFailed string | AcpxExited bool string string

record runtime_status =
  rs_provider :: string
  rs_model :: string
  rs_alloy :: "(string \<times> string) list option"

text \<open>A message that reaches an agent, with its context.\<close>

record chat_dispatch =
  dp_agent :: string
  dp_message :: string
  dp_sender :: string
  dp_model :: "string option"
  dp_session :: "string option"
  dp_channel :: string

text \<open>What the handlers did to the outside, oldest first.\<close>

datatype chat_event =
    CeDecision approval_meta bool "string option" "string + unit"
  | CePoll approval_meta "string + string"
  | CePaste "string list" paste_env paste_start
  | CePasteKilled
  | CeAcpx string "string list" "(string \<rightharpoonup> string) option" acpx_result
  | CeLocalSwitch string
  | CeReply string outbound_message
  | CeAnswer string bool
  | CeScan string scan_context scan_verdict
  | CeDispatch chat_dispatch

record chat_disk =
  dk_agents :: "string \<rightharpoonup> string"
  dk_models :: "string \<rightharpoonup> string"
  dk_sessions :: "string \<rightharpoonup> (string \<times> string) list"

record handler_state =
  hs_agents :: "string \<rightharpoonup> string"
  hs_models :: "string \<rightharpoonup> string"
  hs_sessions :: "string \<rightharpoonup> (string \<times> string) list"
  hs_pending :: "string \<rightharpoonup> pending_choice"
  hs_approvals :: "(string \<times> approval_meta) list"
  hs_sel :: sel_state
  hs_routed :: u64
  hs_latency :: u64
  hs_disk :: chat_disk
  hs_fnox :: fnox_state
  hs_log :: "chat_event list"

record chat_setup =
  su_config :: chat_config
  su_selectors :: "selectors option"
  su_local :: "local_models_config option"

text \<open>
  The parameters: text tables, the path, the store of secrets with its files, whether the state
  directory can be written, \<open>Path::file_name\<close>, and the answers of the services and processes,
  which may depend on everything done before.  \<open>hw_paste_bind\<close>: \<open>PASTE_BIND\<close> is set;
  \<open>hw_adapter\<close>: the adapter of an agent that cannot be built, or its status if it has one.
\<close>

record ('e, 'p, 'q) chat_world =
  hw_tables :: text_tables
  hw_paths :: path_world
  hw_control :: "('e, 'p, 'q) control_world"
  hw_fs :: fs
  hw_writable :: bool
  hw_file_name :: "string \<Rightarrow> string option"
  hw_decide :: "chat_event list \<Rightarrow> approval_meta \<Rightarrow> bool \<Rightarrow> string option \<Rightarrow> string + unit"
  hw_poll :: "chat_event list \<Rightarrow> approval_meta \<Rightarrow> string + string"
  hw_acpx_dir :: "string + unit"
  hw_acpx :: "chat_event list \<Rightarrow> string \<Rightarrow> string list \<Rightarrow> (string \<rightharpoonup> string) option \<Rightarrow> acpx_result"
  hw_paste :: "chat_event list \<Rightarrow> string list \<Rightarrow> paste_env \<Rightarrow> paste_start"
  hw_env :: "string \<Rightarrow> string option"
  hw_paste_bind :: bool
  hw_lan_addr :: "string option"
  hw_uuid :: "chat_event list \<Rightarrow> string"
  hw_adapter :: "agent_config \<Rightarrow> string + runtime_status option"

definition note_event :: "chat_event \<Rightarrow> handler_state \<Rightarrow> handler_state" where
  "note_event e s = s\<lparr>hs_log := hs_log s @ [e]\<rparr>"

definition put_key :: "'k \<Rightarrow> 'v \<Rightarrow> ('k \<times> 'v) list \<Rightarrow> ('k \<times> 'v) list" where
  "put_key k v xs = (k, v) # filter (\<lambda>e. fst e \<noteq> k) xs"

definition drop_key :: "'k \<Rightarrow> ('k \<times> 'v) list \<Rightarrow> ('k \<times> 'v) list" where
  "drop_key k xs = filter (\<lambda>e. fst e \<noteq> k) xs"

text \<open>Saving is tried and its failure ignored.\<close>

definition save_active_agents :: "('e, 'p, 'q) chat_world \<Rightarrow> handler_state \<Rightarrow> handler_state" where
  "save_active_agents w s =
     (if hw_writable w then s\<lparr>hs_disk := (hs_disk s)\<lparr>dk_agents := hs_agents s\<rparr>\<rparr> else s)"

definition save_active_models :: "('e, 'p, 'q) chat_world \<Rightarrow> handler_state \<Rightarrow> handler_state" where
  "save_active_models w s =
     (if hw_writable w then s\<lparr>hs_disk := (hs_disk s)\<lparr>dk_models := hs_models s\<rparr>\<rparr> else s)"

definition save_active_sessions :: "('e, 'p, 'q) chat_world \<Rightarrow> handler_state \<Rightarrow> handler_state" where
  "save_active_sessions w s =
     (if hw_writable w then s\<lparr>hs_disk := (hs_disk s)\<lparr>dk_sessions := hs_sessions s\<rparr>\<rparr> else s)"

text \<open>
  The start of a handler from what is on disk.  A selection of a model is kept if a selector of
  that name is configured, and restored to the manager if it is a synthetic model.
\<close>

definition new_handler :: "chat_disk \<Rightarrow> sel_state \<Rightarrow> handler_state" where
  "new_handler dk sel =
     \<lparr>hs_agents = dk_agents dk, hs_models = dk_models dk, hs_sessions = dk_sessions dk,
      hs_pending = Map.empty, hs_approvals = [], hs_sel = sel, hs_routed = 0, hs_latency = 0,
      hs_disk = dk, hs_fnox = [], hs_log = []\<rparr>"

definition configured_selectors :: "string list \<Rightarrow> chat_config \<Rightarrow> selectors \<Rightarrow> string set" where
  "configured_selectors first_class cf sel =
     set first_class \<union> set (map sc_alias (chat_shortcuts cf)) \<union>
     set (map (ad_id \<circ> snd) (alloys sel)) \<union> set (map (td_id \<circ> snd) (cascades sel)) \<union>
     set (map (td_id \<circ> snd) (dispatchers sel))"

definition with_alloy_manager ::
  "('e, 'p, 'q) chat_world \<Rightarrow> string list \<Rightarrow> chat_config \<Rightarrow> selectors \<Rightarrow> handler_state \<Rightarrow> handler_state" where
  "with_alloy_manager w first_class cf sel s =
     (let keep = (\<lambda>who. case hs_models s who of
                          Some m \<Rightarrow> m \<in> configured_selectors first_class cf sel | None \<Rightarrow> False);
          active = (\<lambda>who. case hs_models s who of
                            Some m \<Rightarrow> if keep who \<and> is_synthetic_model sel m then Some m
                                      else active_by_identity (hs_sel s) who
                          | None \<Rightarrow> active_by_identity (hs_sel s) who)
      in save_active_models w
           (s\<lparr>hs_models := (\<lambda>who. if keep who then hs_models s who else None),
              hs_sel := (hs_sel s)\<lparr>active_by_identity := active\<rparr>\<rparr>))"

definition record_dispatch :: "u64 \<Rightarrow> handler_state \<Rightarrow> handler_state" where
  "record_dispatch ms s = s\<lparr>hs_routed := hs_routed s + 1, hs_latency := hs_latency s + ms\<rparr>"

section \<open>Selections\<close>

definition active_agent_for :: "chat_config \<Rightarrow> string \<Rightarrow> handler_state \<Rightarrow> string option" where
  "active_agent_for cf who s =
     (case hs_agents s who of Some a \<Rightarrow> Some a | None \<Rightarrow> default_agent_for cf who)"

definition active_model_for_identity :: "chat_setup \<Rightarrow> string \<Rightarrow> handler_state \<Rightarrow> string option" where
  "active_model_for_identity su who s =
     (case hs_models s who of
        Some m \<Rightarrow> Some m
      | None \<Rightarrow> Option.bind (su_selectors su) (\<lambda>_. active_for_identity who (hs_sel s)))"

definition active_session_for :: "string \<Rightarrow> string \<Rightarrow> handler_state \<Rightarrow> string option" where
  "active_session_for who agent s = Option.bind (hs_sessions s who) (\<lambda>m. map_of m agent)"

definition set_active_model ::
  "('e, 'p, 'q) chat_world \<Rightarrow> string \<Rightarrow> string \<Rightarrow> handler_state \<Rightarrow> handler_state" where
  "set_active_model w who m s = save_active_models w (s\<lparr>hs_models := (hs_models s)(who \<mapsto> m)\<rparr>)"

definition set_active_session ::
  "('e, 'p, 'q) chat_world \<Rightarrow> string \<Rightarrow> string \<Rightarrow> string \<Rightarrow> handler_state \<Rightarrow> handler_state" where
  "set_active_session w who agent session s =
     save_active_sessions w
       (s\<lparr>hs_sessions := (hs_sessions s)(who \<mapsto>
            put_key agent session (case hs_sessions s who of Some m \<Rightarrow> m | None \<Rightarrow> []))\<rparr>)"

section \<open>Agents an identity may use\<close>

datatype agent_choice_error =
    MissingRoutingRule string
  | UnknownAllowedAgents string "string list"

fun agent_choice_error_text :: "agent_choice_error \<Rightarrow> string" where
  "agent_choice_error_text (MissingRoutingRule who) = (''no routing rule found for identity '' @ [CHR 0x27] @ who @ [CHR 0x27])"
| "agent_choice_error_text (UnknownAllowedAgents who unknown) =
     (''identity '' @ [CHR 0x27] @ who @ [CHR 0x27] @ '' references unknown allowed_agents: '') @ join_with '', '' unknown"

definition allowed_agent_ids :: "chat_config \<Rightarrow> routing_rule \<Rightarrow> string list" where
  "allowed_agent_ids cf r =
     (if rr_allowed_agents r = [] then map ag_id (cf_agents cf) else rr_allowed_agents r)"

definition agent_label :: "agent_config \<Rightarrow> string" where
  "agent_label a = (case ag_display_name a of Some n \<Rightarrow> n | None \<Rightarrow> ag_id a)"

definition agent_choices_for_identity ::
  "chat_config \<Rightarrow> string \<Rightarrow> agent_choice_error + (string \<times> string) list" where
  "agent_choices_for_identity cf who =
     (case find_rule cf who of
        None \<Rightarrow> Inl (MissingRoutingRule who)
      | Some r \<Rightarrow>
          let ids = allowed_agent_ids cf r;
              unknown = filter (\<lambda>i. find_agent cf i = None) ids
          in if unknown = []
             then Inr (List.map_filter (\<lambda>i. map_option (\<lambda>a. (ag_id a, agent_label a)) (find_agent cf i)) ids)
             else Inl (UnknownAllowedAgents who unknown))"

definition names_agent :: "string \<Rightarrow> agent_config \<Rightarrow> bool" where
  "names_agent selector a \<longleftrightarrow>
     eq_ignore_case (ag_id a) selector \<or> list_ex (\<lambda>x. eq_ignore_case x selector) (ag_aliases a)"

definition resolve_allowed_agent_selector :: "chat_config \<Rightarrow> string \<Rightarrow> string \<Rightarrow> string option" where
  "resolve_allowed_agent_selector cf who selector =
     (case find_rule cf who of
        None \<Rightarrow> None
      | Some r \<Rightarrow>
          (case List.map_filter (\<lambda>i. Option.bind (find_agent cf i)
                   (\<lambda>a. if names_agent selector a then Some (ag_id a) else None))
                (allowed_agent_ids cf r) of
             [] \<Rightarrow> None | i # _ \<Rightarrow> Some i))"

definition selector_matches_any_agent :: "chat_config \<Rightarrow> string \<Rightarrow> bool" where
  "selector_matches_any_agent cf selector \<longleftrightarrow> list_ex (names_agent selector) (cf_agents cf)"

text \<open>The agent of a \<open>!switch\<close> or \<open>!sessions\<close>: here an allowed name need not be configured.\<close>

definition matched_agent :: "chat_config \<Rightarrow> routing_rule \<Rightarrow> string \<Rightarrow> string option" where
  "matched_agent cf r arg =
     find (\<lambda>i. eq_ignore_case i arg \<or>
               (case find_agent cf i of
                  Some a \<Rightarrow> list_ex (\<lambda>x. eq_ignore_case x arg) (ag_aliases a) | None \<Rightarrow> False))
       (allowed_agent_ids cf r)"

text \<open>One-off questions to another agent.\<close>

record btw_request =
  bt_agent :: string
  bt_prompt :: string

definition parse_btw_command ::
  "text_tables \<Rightarrow> chat_config \<Rightarrow> string \<Rightarrow> string \<Rightarrow> string + btw_request" where
  "parse_btw_command tt cf text who =
     (if \<not> is_btw_command tt text then Inl ''Usage: !btw <agent> <prompt>''
      else
        let rest = (case split_ws (trim text) of Some (_, r) \<Rightarrow> trim r | None \<Rightarrow> []) in
        if rest = [] then Inl (''Usage: !btw <agent> <prompt>'' @ [CHR 0x0A] @
       ''Or configure routing.btw_agent and use !btw <prompt>.'')
        else case find_rule cf who of
               None \<Rightarrow> Inl ([CHR 0xE2, CHR 0x9A, CHR 0xA0, CHR 0xEF, CHR 0xB8, CHR 0x8F] @
       '' No routing rule found for identity '' @ [CHR 0x27] @ who @ [CHR 0x27] @ ''.'')
             | Some rule \<Rightarrow>
                 let (first, after_first) =
                       (case split_ws rest of Some (a, b) \<Rightarrow> (a, trim b) | None \<Rightarrow> (rest, []))
                 in case resolve_allowed_agent_selector cf who first of
                      Some agent \<Rightarrow>
                        if after_first = []
                        then Inl (''Usage: !btw '' @ first @ '' <prompt>'' @ [CHR 0x0A] @
       ''The one-off prompt cannot be empty.'')
                        else Inr \<lparr>bt_agent = agent, bt_prompt = after_first\<rparr>
                    | None \<Rightarrow>
                        if selector_matches_any_agent cf first
                        then Inl ([CHR 0xE2, CHR 0x9A, CHR 0xA0, CHR 0xEF, CHR 0xB8, CHR 0x8F] @ '' Agent '' @ [CHR 0x27] @
       first @ [CHR 0x27] @ '' is not available to you.'')
                        else case rr_btw_agent rule of
                               None \<Rightarrow> Inl (''Usage: !btw <agent> <prompt>'' @ [CHR 0x0A] @
       ''No routing.btw_agent is configured for !btw <prompt>.'')
                             | Some dflt \<Rightarrow>
                                 (case resolve_allowed_agent_selector cf who dflt of
                                    None \<Rightarrow> Inl ([CHR 0xE2, CHR 0x9A, CHR 0xA0, CHR 0xEF, CHR 0xB8, CHR 0x8F] @
       '' Configured btw_agent '' @ [CHR 0x27] @ dflt @ [CHR 0x27] @
       '' is not available to you.'')
                                  | Some agent \<Rightarrow> Inr \<lparr>bt_agent = agent, bt_prompt = rest\<rparr>))"

end
