(* ===== verification/Chat_Replies.thy ===== *)
theory Chat_Replies
  imports Chat_State
begin

text \<open>
  Commands that only read (\<open>handle\<close>, \<open>cmd_status_for_identity\<close>, \<open>cmd_gateway_for_identity\<close> of
  \<open>crates/calciforge/src/commands.rs\<close>, the lists of \<open>commands/model.rs\<close>), the choices they offer and
  what a reply to a choice means.
\<close>

section \<open>Agents\<close>

definition NL :: string where
  "NL = [CHR 0x0A]"

definition or_default :: "string option \<Rightarrow> string" where
  "or_default m = (case m of Some x \<Rightarrow> x | None \<Rightarrow> ''default'')"

definition cmd_help :: string where
  "cmd_help = join_with NL
     [(''Calciforge '' @ [CHR 0xE2, CHR 0x80, CHR 0x94] @ '' available commands:''),
      (''  !help, !commands '' @ [CHR 0xE2, CHR 0x80, CHR 0x94] @ '' show this help''),
      (''  !status  '' @ [CHR 0xE2, CHR 0x80, CHR 0x94] @
       '' version, uptime, active agent, config summary''),
      (''  !agents  '' @ [CHR 0xE2, CHR 0x80, CHR 0x94] @ '' list configured agents''),
      (''  !sessions <agent> '' @ [CHR 0xE2, CHR 0x80, CHR 0x94] @
       '' list downstream sessions when the adapter supports it''),
      (''  !new [session] '' @ [CHR 0xE2, CHR 0x80, CHR 0x94] @
       '' start a new named session with your active agent''),
      (''  !btw <agent> <prompt> '' @ [CHR 0xE2, CHR 0x80, CHR 0x94] @
       '' ask another agent once without switching''),
      (''  !gateway '' @ [CHR 0xE2, CHR 0x80, CHR 0x94] @
       '' model gateway engine, bind address, and UI link''),
      (''  !metrics '' @ [CHR 0xE2, CHR 0x80, CHR 0x94] @ '' messages routed, average latency''),
      (''  !ping    '' @ [CHR 0xE2, CHR 0x80, CHR 0x94] @
       '' connectivity check (replies: pong)''),
      (''  !switch, !agent <agent> [session] '' @ [CHR 0xE2, CHR 0x80, CHR 0x94] @
       '' switch active agent (requires auth)''),
      (''  !agent list | !agent details [agent] | !agent switch <agent> '' @
       [CHR 0xE2, CHR 0x80, CHR 0x94] @ '' noun-style agent commands''),
      (''  !default '' @ [CHR 0xE2, CHR 0x80, CHR 0x94] @
       '' switch back to your default agent (requires auth)''),
      (''  !model [list|use <id>|alias] '' @ [CHR 0xE2, CHR 0x80, CHR 0x94] @
       '' show or activate model choices''),
      (''  !secure, !secret <input|bulk|list|help> '' @ [CHR 0xE2, CHR 0x80, CHR 0x94] @
       '' paste URLs and secret names; `set` is legacy fallback''),
      (''  !approve [request_id] '' @ [CHR 0xE2, CHR 0x80, CHR 0x94] @
       '' approve a pending Clash tool call''),
      (''  !deny [request_id] [reason] '' @ [CHR 0xE2, CHR 0x80, CHR 0x94] @
       '' deny a pending Clash tool call'')]"

definition cmd_agents_summary :: "chat_config \<Rightarrow> string" where
  "cmd_agents_summary cf =
     (if cf_agents cf = [] then ''No agents configured.''
      else join_with NL
        ([''Agents:''] @
         map (\<lambda>a. (''  '' @ ag_id a @ '' '' @ [CHR 0xE2, CHR 0x80, CHR 0x94] @ '' '' @
       or_default (ag_model a))) (cf_agents cf) @
         [''Use !agent details [agent] for endpoints and adapter types.'']))"

definition agent_location :: "agent_config \<Rightarrow> string" where
  "agent_location a =
     (if ag_kind a = ''cli'' then (case ag_command a of Some c \<Rightarrow> c | None \<Rightarrow> ''(no command)'')
      else if ag_endpoint a = [] then ''(no endpoint)''
      else ag_endpoint a)"

definition cmd_agent_details :: "chat_config \<Rightarrow> string option \<Rightarrow> string" where
  "cmd_agent_details cf wanted =
     (if cf_agents cf = [] then ''No agents configured.''
      else
        let shown = filter (\<lambda>a. case wanted of None \<Rightarrow> True | Some i \<Rightarrow> ag_id a = i) (cf_agents cf)
        in if shown = []
           then let requested = (case wanted of Some i \<Rightarrow> i | None \<Rightarrow> [])
                in ([CHR 0xE2, CHR 0x9A, CHR 0xA0, CHR 0xEF, CHR 0xB8, CHR 0x8F] @ '' Agent '' @ [CHR 0x27] @
       requested @ [CHR 0x27] @ '' not found. Use !agent list to see available agents.'')
           else join_with NL
             ((case wanted of Some i \<Rightarrow> ''Agent details: '' @ i | None \<Rightarrow> ''Agent details:'') #
              map (\<lambda>a. (''  '' @ ag_id a @ '' ('' @ ag_kind a @ '', model: '' @ or_default (ag_model a) @
       '') '' @ [CHR 0xE2, CHR 0x80, CHR 0x94] @ '' '' @ agent_location a)) shown))"

definition cmd_metrics :: "handler_state \<Rightarrow> string" where
  "cmd_metrics s =
     (let routed = unat (hs_routed s);
          avg = (if routed = 0 then 0 else unat (hs_latency s) div routed)
      in (''Calciforge metrics:'' @ [CHR 0x0A] @ ''  messages routed: '' @ show_nat routed @
       [CHR 0x0A] @ ''  avg latency: '' @ show_nat avg @ ''ms''))"

section \<open>Models\<close>

definition strategy_debug :: "alloy_strategy \<Rightarrow> string" where
  "strategy_debug st = (case st of Weighted \<Rightarrow> ''Weighted'' | RoundRobin \<Rightarrow> ''RoundRobin'')"

definition constituents_text :: "alloy_def \<Rightarrow> string" where
  "constituents_text a =
     join_with '', '' (map (\<lambda>c. (cs_model c @ '' (weight '' @ show_u32 (cs_weight c) @ '')'')) (ad_constituents a))"

definition alloy_line :: "alloy_def \<Rightarrow> string" where
  "alloy_line a =
     (''  '' @ ad_id a @ '' '' @ [CHR 0xE2, CHR 0x80, CHR 0x94] @ '' '' @ ad_name a @ '' ('' @
       strategy_debug (ad_strategy a) @ ''): '' @ constituents_text a)"

definition target_line :: "string \<Rightarrow> target_def \<Rightarrow> string" where
  "target_line sep d =
     (''  '' @ target_def.td_id d @ '' '' @ [CHR 0xE2, CHR 0x80, CHR 0x94] @ '' '' @
       target_def.td_name d @ '': '') @
     join_with sep (map (\<lambda>m. (tg_model m @ '' ('' @ show_u32 (tg_window m) @ '' tokens)'')) (td_models d))"

definition selectors_empty :: "selectors \<Rightarrow> bool" where
  "selectors_empty sel \<longleftrightarrow> alloys sel = [] \<and> cascades sel = [] \<and> dispatchers sel = []"

definition selector_lines :: "bool \<Rightarrow> selectors \<Rightarrow> string list" where
  "selector_lines first sel =
     (if first then id else (\<lambda>ls. [] # ls)) (''Configured alloys:'' #
     map alloy_line (list_alloy_definitions sel)) @
     (if list_cascades sel = [] then []
      else [] # ''Configured cascades:'' # map (target_line ('' '' @ [CHR 0xE2, CHR 0x86, CHR 0x92] @ '' '')) (list_cascades sel)) @
     (if list_dispatchers sel = [] then []
      else [] # ''Configured dispatchers:'' # map (target_line '', '') (list_dispatchers sel))"

definition shortcut_line :: "shortcut \<Rightarrow> string" where
  "shortcut_line c = (''  '' @ sc_alias c @ '' '' @ [CHR 0xE2, CHR 0x86, CHR 0x92] @ '' '' @ sc_model c)"

definition list_words :: "string list" where
  "list_words = [''list'', ''ls'', ''show'']"

definition is_word :: "string list \<Rightarrow> string \<Rightarrow> bool" where
  "is_word ws a \<longleftrightarrow> list_ex (eq_ignore_case a) ws"

definition cmd_model_preauth :: "chat_setup \<Rightarrow> string \<Rightarrow> string option" where
  "cmd_model_preauth su text =
     (let args = drop 1 (ws_words [] text) in
      if args = [] \<or> is_word list_words (hd args)
      then let shortcuts = chat_shortcuts (su_config su);
               ls0 = (if shortcuts = [] then []
                      else [''Model selector aliases:''] @ map shortcut_line shortcuts);
               ls = ls0 @ (case su_selectors su of
                             Some sel \<Rightarrow> if selectors_empty sel then [] else selector_lines (ls0 = []) sel
                           | None \<Rightarrow> [])
           in if ls = []
              then Some (''No model shortcuts or gateway model selectors configured.'' @ [CHR 0x0A, CHR 0x0A] @
       ''Add shortcuts to your config:'' @ [CHR 0x0A] @ [CHR 0x5B] @ ''[model_shortcuts'' @
       [CHR 0x5D] @ '']'' @ [CHR 0x0A] @ ''alias = '' @ [CHR 0x22] @ ''sonnet'' @
       [CHR 0x22, CHR 0x0A] @ ''model = '' @ [CHR 0x22] @ ''anthropic/claude-sonnet-4.6'' @
       [CHR 0x22])
              else Some (join_with NL (ls @
                [([CHR 0x0A] @ ''Usage:''), (''  !model list '' @ [CHR 0xE2, CHR 0x80, CHR 0x94] @ '' show this list''),
                 (''  !model <alias> '' @ [CHR 0xE2, CHR 0x80, CHR 0x94] @
       '' activate the shortcut target'')] @
                (if su_selectors su = None then []
                 else [(''  !model use <id> '' @ [CHR 0xE2, CHR 0x80, CHR 0x94] @
       '' activate an alloy/cascade/dispatcher for your identity'')])))
      else None)"

text \<open>Of choices with the same id the first is kept.\<close>

fun dedup_fst :: "('a \<times> 'b) list \<Rightarrow> ('a \<times> 'b) list" where
  "dedup_fst (x # y # xs) = (if fst x = fst y then dedup_fst (x # xs) else x # dedup_fst (y # xs))"
| "dedup_fst xs = xs"

definition activatable_model_choices :: "chat_setup \<Rightarrow> (string \<times> string) list" where
  "activatable_model_choices su =
     dedup_fst (sort_key fst
       (map (\<lambda>c. (sc_alias c, (sc_alias c @ '' '' @ [CHR 0xE2, CHR 0x86, CHR 0x92] @ '' '' @ sc_model c))) (chat_shortcuts (su_config su)) @
        (case su_selectors su of
           Some sel \<Rightarrow>
             map (\<lambda>a. (ad_id a, (ad_name a @ '' (alloy)''))) (list_alloy_definitions sel) @
             map (\<lambda>d. (target_def.td_id d, (target_def.td_name d @ '' (cascade)''))) (list_cascades sel) @
             map (\<lambda>d. (target_def.td_id d, (target_def.td_name d @ '' (dispatcher)''))) (list_dispatchers sel)
         | None \<Rightarrow> []) @
        (case su_local su of
           Some lc \<Rightarrow>
             map (\<lambda>m. (ld_id m, case ld_display_name m of Some n \<Rightarrow> n | None \<Rightarrow> (ld_id m @ '' (local)'')))
               (lc_models lc)
         | None \<Rightarrow> []) @
        (case cf_proxy (su_config su) of
           Some px \<Rightarrow>
             concat (map (\<lambda>p. map (\<lambda>m. (m, (m @ '' ('' @ cp_id p @ '')'')))
                              (filter (\<lambda>m. CHR ''*'' \<notin> set m) (cp_models p))) (ch_providers px))
         | None \<Rightarrow> [])))"

section \<open>Commands that need no identity\<close>

definition handle_agent_word :: "chat_setup \<Rightarrow> string \<Rightarrow> string option" where
  "handle_agent_word su trimmed =
     (case map_option to_ascii_lowercase (first_arg trimmed) of
        None \<Rightarrow> Some (cmd_agents_summary (su_config su))
      | Some sub \<Rightarrow>
          if sub \<in> {''list'', ''ls'', ''agents''} then Some (cmd_agents_summary (su_config su))
          else if sub \<in> {''details'', ''detail'', ''info''}
          then Some (cmd_agent_details (su_config su) (second_arg trimmed))
          else if sub = ''help'' then Some cmd_help
          else None)"

definition handle_command :: "text_tables \<Rightarrow> chat_setup \<Rightarrow> handler_state \<Rightarrow> string \<Rightarrow> string option" where
  "handle_command tt su s text =
     (if \<not> prefix ''!'' (trim text) then None
      else
        let cmd = lower_token tt text in
        if cmd \<in> {''!help'', ''!commands''} then Some cmd_help
        else if cmd = ''!agents'' then Some (cmd_agents_summary (su_config su))
        else if cmd = ''!metrics'' then Some (cmd_metrics s)
        else if cmd = ''!ping'' then Some ''pong''
        else if cmd = ''!agent'' then handle_agent_word su (trim text)
        else if cmd = ''!model'' then cmd_model_preauth su (trim text)
        else None)"

section \<open>Lists to choose from\<close>

definition is_choice_request :: "string list \<Rightarrow> string \<Rightarrow> string list \<Rightarrow> string \<Rightarrow> bool" where
  "is_choice_request alone cmd subs text \<longleftrightarrow>
     (case ws_words [] text of
        [c] \<Rightarrow> is_word alone c
      | [c, sub] \<Rightarrow> eq_ignore_case c cmd \<and> is_word subs sub
      | _ \<Rightarrow> False)"

definition is_agent_choice_request :: "string \<Rightarrow> bool" where
  "is_agent_choice_request =
     is_choice_request [''!agents'', ''!agent''] ''!agent'' [''list'', ''ls'', ''agents'']"

definition is_model_choice_request :: "string \<Rightarrow> bool" where
  "is_model_choice_request =
     is_choice_request [''!model''] ''!model'' [''list'', ''ls'', ''models'']"

definition agent_choice_message_for_identity ::
  "text_tables \<Rightarrow> chat_setup \<Rightarrow> handler_state \<Rightarrow> string \<Rightarrow> string \<Rightarrow> outbound_message option" where
  "agent_choice_message_for_identity tt su s text who =
     (if \<not> is_agent_choice_request text then None
      else case agent_choices_for_identity (su_config su) who of
             Inr choices \<Rightarrow> Some (with_control
               \<lparr>cc_title = ''Agents'', cc_options = map (\<lambda>(i, label). agent_choice label i) choices\<rparr>
               (text_message (''Reply with a number, tap a button, or use `!agent details [agent]` for endpoints '' @
       ''and adapter types.'')))
           | Inl e \<Rightarrow>
               let base = (case handle_command tt su s text of
                             Some r \<Rightarrow> r | None \<Rightarrow> ''Configured agents unavailable.'')
               in Some (text_message (base @ [CHR 0x0A, CHR 0x0A] @ ''Button choices unavailable: '' @
       agent_choice_error_text e @ ''.'')))"

definition model_choice_message ::
  "text_tables \<Rightarrow> chat_setup \<Rightarrow> handler_state \<Rightarrow> string \<Rightarrow> outbound_message option" where
  "model_choice_message tt su s text =
     (if \<not> is_model_choice_request text then None
      else
        let choices = activatable_model_choices su;
            reply = (case handle_command tt su s text of
                       Some r \<Rightarrow> r
                     | None \<Rightarrow>
                         if choices = []
                         then ''No activatable model choices are configured. Type `!model` for configured shortcuts.''
                         else ''Choose a model, or type `!model use <id>`:'')
        in Some (with_control
             \<lparr>cc_title = ''Choose a model'', cc_options = map (\<lambda>(i, label). model_choice label i) choices\<rparr>
             (text_message reply)))"

section \<open>Replies to a list\<close>

text \<open>Times are milliseconds of one clock.\<close>

definition PENDING_CHOICE_TTL :: nat where
  "PENDING_CHOICE_TTL = 10 * 60 * 1000"

definition record_pending_choices ::
  "nat \<Rightarrow> string \<Rightarrow> outbound_message \<Rightarrow> handler_state \<Rightarrow> handler_state" where
  "record_pending_choices now who m s =
     (if om_controls m = [] then s
      else s\<lparr>hs_pending := (hs_pending s)(who \<mapsto>
             \<lparr>pc_controls = om_controls m, pc_expires_at = now + PENDING_CHOICE_TTL\<rparr>)\<rparr>)"

datatype choice_reply = ChoiceCommand string | ChoiceReply string

text \<open>
  The controls in order: the first match, or whether a number was out of range and whether a label
  was ambiguous.
\<close>

fun match_controls ::
  "text_tables \<Rightarrow> string \<Rightarrow> choice_control list \<Rightarrow> bool \<times> bool \<Rightarrow> choice_option + bool \<times> bool" where
  "match_controls tt text [] saw = Inr saw"
| "match_controls tt text (c # cs) (num, amb) =
     (case match_reply tt c text of
        MatchOne x \<Rightarrow> Inl x
      | MatchOutOfRange \<Rightarrow> match_controls tt text cs (True, amb)
      | MatchAmbiguous \<Rightarrow> match_controls tt text cs (num, True)
      | MatchNone \<Rightarrow> match_controls tt text cs (num, amb))"

definition drop_pending :: "string \<Rightarrow> handler_state \<Rightarrow> handler_state" where
  "drop_pending who s = s\<lparr>hs_pending := (hs_pending s)(who := None)\<rparr>"

definition resolve_pending_choice_reply ::
  "text_tables \<Rightarrow> nat \<Rightarrow> string \<Rightarrow> string \<Rightarrow> handler_state \<Rightarrow> choice_reply option \<times> handler_state" where
  "resolve_pending_choice_reply tt now who text s =
     (case hs_pending s who of
        None \<Rightarrow> (None, s)
      | Some p \<Rightarrow>
          if pc_expires_at p \<le> now then (None, drop_pending who s)
          else case match_controls tt text (pc_controls p) (False, False) of
                 Inl x \<Rightarrow> (Some (ChoiceCommand (co_command x)), drop_pending who s)
               | Inr (num, amb) \<Rightarrow>
                   if amb
                   then (Some (ChoiceReply ''That matches more than one current choice. Reply with the number shown next to the option.''), s)
                   else (if num
                         then Some (ChoiceReply ([CHR 0xE2, CHR 0x9A, CHR 0xA0, CHR 0xEF, CHR 0xB8, CHR 0x8F] @
       '' That number is not one of the current choices. Ask for the choices again '' @
       ''if you still need them.''))
                         else None,
                         drop_pending who s))"

lemma match_controls_Inl:
  "match_controls tt text cs saw = Inl x \<Longrightarrow> \<exists>c \<in> set cs. x \<in> set (cc_options c)"
  by (induction cs saw rule: match_controls.induct)
    (auto dest: match_reply_One split: choice_match.splits)

section \<open>A number as a reply\<close>

lemma digit_char:
  assumes "d < 10"
  shows "digit_value (char_of (48 + d)) = d \<and> ascii_digit (char_of (48 + d)) \<and> visible (char_of (48 + d))"
proof -
  have "d \<in> {0, 1, 2, 3, 4, 5, 6, 7, 8, 9}" using assms by auto
  then show ?thesis
    by (auto simp: digit_value_def ascii_digit_def visible_def is_ascii_def less_eq_char_def)
qed

lemma show_nat_digits:
  "show_nat n \<noteq> [] \<and> list_all ascii_digit (show_nat n) \<and> list_all visible (show_nat n) \<and>
   foldl (\<lambda>n c. 10 * n + digit_value c) 0 (show_nat n) = n"
proof (induction n rule: show_nat.induct)
  case (1 n)
  show ?case
  proof (cases "n < 10")
    case True
    then show ?thesis using digit_char [of n] by (subst (1 2 3 4) show_nat.simps) simp
  next
    case False
    then show ?thesis using 1 digit_char [of "n mod 10"]
      by (subst (1 2 3 4) show_nat.simps) simp
  qed
qed

lemma parse_usize_show: "n < 2 ^ 64 \<Longrightarrow> parse_usize (show_nat n) = Some n"
proof -
  have "hd (show_nat n) \<noteq> CHR ''+''"
    using show_nat_digits [of n] by (cases "show_nat n") (auto simp: ascii_digit_def less_eq_char_def)
  then have "(case show_nat n of c # r \<Rightarrow> if c = CHR ''+'' then r else show_nat n | [] \<Rightarrow> show_nat n) = show_nat n"
    by (auto split: list.split)
  then show "n < 2 ^ 64 \<Longrightarrow> ?thesis"
    using show_nat_digits [of n] by (simp add: parse_usize_def Let_def)
qed

lemma match_reply_number:
  assumes "1 \<le> n" "n \<le> length (cc_options c)" "n < 2 ^ 64"
  shows "match_reply tt c (show_nat n) = MatchOne (cc_options c ! (n - 1))"
proof -
  have t: "trim (show_nat n) = show_nat n" using show_nat_digits trim_visible by blast
  have "hd (show_nat n) \<noteq> CHR ''#''"
    using show_nat_digits [of n] by (cases "show_nat n") (auto simp: ascii_digit_def less_eq_char_def)
  then have "dropWhile (\<lambda>d. d = CHR ''#'') (show_nat n) = show_nat n"
    by (cases "show_nat n") auto
  with t show ?thesis using assms show_nat_digits [of n] parse_usize_show [of n]
    by (simp add: match_reply_def Let_def)
qed


definition demo_tables :: text_tables where
  "demo_tables = \<lparr>tt_lower = id, tt_alnum = (\<lambda>_. False)\<rparr>"

definition demo_handler :: handler_state where
  "demo_handler = record_pending_choices 0 ''ann''
     (with_control \<lparr>cc_title = [], cc_options = [agent_choice ''A'' ''a'', agent_choice ''B'' ''b'']\<rparr> (text_message []))
     (new_handler \<lparr>dk_agents = Map.empty, dk_models = Map.empty, dk_sessions = Map.empty\<rparr>
        \<lparr>alloy_states = (\<lambda>_. \<lparr>next_rr_index = 0, stats_by_model = Map.empty, last_selected_model = None\<rparr>),
         active_by_identity = Map.empty, draws = 0\<rparr>)"


section \<open>Status\<close>

definition runtime_info :: "('e, 'p, 'q) chat_world \<Rightarrow> agent_config \<Rightarrow> string" where
  "runtime_info w a =
     (let model = or_default (ag_model a); provider = ag_kind a in
      case hw_adapter w a of
        Inr (Some st) \<Rightarrow>
          ([CHR 0x0A] @ ''  provider: '' @ rs_provider st @ [CHR 0x0A] @ ''  model: '' @ rs_model st) @
          (case rs_alloy st of
             Some cs \<Rightarrow> ([CHR 0x0A] @ ''  constituents:'' @ [CHR 0x0A]) @
               join_with NL (map (\<lambda>(p, m). (''    - '' @ p @ '': '' @ m)) cs)
           | None \<Rightarrow> [])
      | Inr None \<Rightarrow>
          if str_contains ''alloy'' provider \<or> str_contains ''alloy'' model
          then ([CHR 0x0A] @ ''  provider: '' @ provider @ '' (alloy)'' @ [CHR 0x0A] @ ''  model: '' @
       model)
          else ([CHR 0x0A] @ ''  provider: '' @ provider @ [CHR 0x0A] @ ''  model: '' @ model)
      | Inl _ \<Rightarrow> ([CHR 0x0A] @ ''  provider: '' @ provider @ [CHR 0x0A] @ ''  model: '' @ model))"

definition cmd_status_for_identity ::
  "('e, 'p, 'q) chat_world \<Rightarrow> chat_setup \<Rightarrow> nat \<Rightarrow> string \<Rightarrow> handler_state \<Rightarrow> string" where
  "cmd_status_for_identity w su uptime_secs who s =
     (let cf = su_config su;
          hours = show_nat (uptime_secs div 3600);
          minutes = show_nat (uptime_secs mod 3600 div 60);
          seconds = show_nat (uptime_secs mod 60);
          active = (case active_agent_for cf who s of Some a \<Rightarrow> a | None \<Rightarrow> ''none'');
          model_info = (case active_model_for_identity su who s of
                          Some m \<Rightarrow> ([CHR 0x0A] @ ''  active model override: '' @ m)
                        | None \<Rightarrow> ([CHR 0x0A] @ ''  active model override: none''));
          info = (case find_agent cf active of Some a \<Rightarrow> runtime_info w a | None \<Rightarrow> []);
          shown = (if cf_agents cf = [] then show_nat (length (cf_agents cf)) @ '' agents''
                   else join_with '', '' (map (\<lambda>a. (ag_id a @ '' ('' @ or_default (ag_model a) @ '')'')) (cf_agents cf)))
      in (''Calciforge status:'' @ [CHR 0x0A] @ ''  version: '' @ show_u32 (cf_version cf) @
       [CHR 0x0A] @ ''  uptime: '' @ hours @ ''h '' @ minutes @ ''m '' @ seconds @ ''s'' @
       [CHR 0x0A] @ ''  active agent: '' @ active @ model_info @ info @ [CHR 0x0A] @
       ''  agents: '' @ shown @ [CHR 0x0A] @ ''  identities: '' @
       show_nat (length (cf_identities cf)) @ '', channels: '' @
       show_nat (length (cf_channels cf))))"

definition cmd_gateway_for_identity :: "chat_config \<Rightarrow> string" where
  "cmd_gateway_for_identity cf =
     (case cf_proxy cf of
        None \<Rightarrow> ''Model gateway: disabled.''
      | Some px \<Rightarrow> join_with NL
          ([''Model gateway:'', ''  enabled: '' @ (if ch_enabled px then ''true'' else ''false''),
            (''  engine: '' @ ch_backend_type px), (''  bind: '' @ ch_bind px)] @
           (case map_option trim (ch_gateway_ui_url px) of
              Some (c # u) \<Rightarrow> [''  UI: '' @ c # u, ''  Calciforge redirect: /gateway/ui on the model gateway host'']
            | _ \<Rightarrow> [''  UI: not configured''])))"

end
