(* ===== verification/Chat_Handlers.thy ===== *)
theory Chat_Handlers
  imports Chat_Replies
begin

text \<open>
  Commands that choose agents and sessions (\<open>crates/calciforge/src/commands/sessions.rs\<close>).
\<close>

section \<open>Agents and sessions\<close>

definition no_rule_text :: string where
  "no_rule_text = ([CHR 0xE2, CHR 0x9A, CHR 0xA0, CHR 0xEF, CHR 0xB8, CHR 0x8F] @
       '' No routing rule found for your identity.'')"

definition not_available_text :: "chat_config \<Rightarrow> routing_rule \<Rightarrow> string \<Rightarrow> string" where
  "not_available_text cf r arg =
     ([CHR 0xE2, CHR 0x9A, CHR 0xA0, CHR 0xEF, CHR 0xB8, CHR 0x8F] @ '' Agent '' @ [CHR 0x27] @
       arg @ [CHR 0x27] @ '' is not available to you.'' @ [CHR 0x0A, CHR 0x0A] @
       ''Valid agents: '') @ join_with '', '' (allowed_agent_ids cf r)"

definition valid_downstream_session_name :: "string \<Rightarrow> bool" where
  "valid_downstream_session_name n \<longleftrightarrow>
     n \<noteq> [] \<and> length n \<le> 128 \<and> list_all (\<lambda>b. ascii_alnum b \<or> b \<in> {CHR ''.'', CHR ''_'', CHR ''-''}) n"

definition invalid_session_text :: string where
  "invalid_session_text = ([CHR 0xE2, CHR 0x9A, CHR 0xA0, CHR 0xEF, CHR 0xB8, CHR 0x8F] @
       '' Invalid session name. Use only letters, numbers, dot, underscore, and dash.'')"

text \<open>The value the code has, since it never panics here (\<open>readiness_never_panics\<close>).\<close>

definition not_ready :: "path_world \<Rightarrow> agent_config \<Rightarrow> string option" where
  "not_ready pw a = (case session_runtime_readiness_error pw a of Some r \<Rightarrow> r | None \<Rightarrow> None)"

definition agent_switch_context_notice :: "chat_config \<Rightarrow> string" where
  "agent_switch_context_notice cf =
     (if cf_inject_depth cf = 0 then ''Context: isolated; no prior thread context will be shared.''
      else let depth = show_nat (unat (cf_inject_depth cf))
           in (''Context: recent thread context is shared with switched agents (up to '' @ depth @
       '' exchanges).''))"

definition switch_args :: "string \<Rightarrow> string list" where
  "switch_args text =
     (let ws = ws_words [] (trim text); args = drop 1 ws;
          is_agent_cmd = (case ws of c # _ \<Rightarrow> eq_ignore_case c ''!agent'' | [] \<Rightarrow> False)
      in if is_agent_cmd \<and> (case args of a # _ \<Rightarrow> is_word [''switch'', ''use''] a | [] \<Rightarrow> False)
         then drop 1 args else args)"

definition set_active_agent ::
  "('e, 'p, 'q) chat_world \<Rightarrow> string \<Rightarrow> string \<Rightarrow> handler_state \<Rightarrow> handler_state" where
  "set_active_agent w who i s = save_active_agents w (s\<lparr>hs_agents := (hs_agents s)(who \<mapsto> i)\<rparr>)"

text \<open>
  The sessions of an identity after a switch: a named one is remembered, a switch to the default
  session forgets it, and other agents have none.
\<close>

definition switch_session ::
  "session_capability \<Rightarrow> string option \<Rightarrow> string \<Rightarrow> (string \<times> string) list option \<Rightarrow>
   (string \<times> string) list option" where
  "switch_session cap session i old =
     (if cap = NoSessions then old
      else case session of
             Some n \<Rightarrow> Some (put_key i n (case old of Some m \<Rightarrow> m | None \<Rightarrow> []))
           | None \<Rightarrow>
               (case old of
                  None \<Rightarrow> None
                | Some m \<Rightarrow> if drop_key i m = [] then None else Some (drop_key i m)))"

definition session_info :: "session_capability \<Rightarrow> string option \<Rightarrow> string" where
  "session_info cap session =
     (if cap \<noteq> NoSessions
      then (case session of Some n \<Rightarrow> ('' (session: '' @ n @ '')'') | None \<Rightarrow> '' (default session)'')
      else if session \<noteq> None
      then '' (note: session parameter ignored for agents without Calciforge session support)''
      else [])"

definition capability_of :: "agent_config option \<Rightarrow> session_capability" where
  "capability_of a = (case a of Some x \<Rightarrow> agent_session_capability x | None \<Rightarrow> NoSessions)"

definition switch_to ::
  "('e, 'p, 'q) chat_world \<Rightarrow> chat_config \<Rightarrow> string \<Rightarrow> string \<Rightarrow> string option \<Rightarrow> handler_state \<Rightarrow>
   string \<times> handler_state" where
  "switch_to w cf who i session s =
     (let a = find_agent cf i; cap = capability_of a;
          display = (case Option.bind a ag_display_name of Some n \<Rightarrow> n | None \<Rightarrow> i) in
      if cap \<noteq> NoSessions \<and> (case session of Some n \<Rightarrow> \<not> valid_downstream_session_name n | None \<Rightarrow> False)
      then (invalid_session_text, s)
      else case (if cap = NoSessions then None else Option.bind a (not_ready (hw_paths w))) of
             Some e \<Rightarrow> (([CHR 0xE2, CHR 0x9A, CHR 0xA0, CHR 0xEF, CHR 0xB8, CHR 0x8F] @ '' Cannot switch to '' @
       [CHR 0x27] @ i @ [CHR 0x27] @ '': '' @ e), s)
           | None \<Rightarrow>
               let s1 = set_active_agent w who i s;
                   s2 = save_active_sessions w (s1\<lparr>hs_sessions :=
                     (hs_sessions s1)(who := switch_session cap session i (hs_sessions s1 who))\<rparr>)
               in (([CHR 0xE2, CHR 0x9C, CHR 0x85] @ '' Switched to '' @ display @ session_info cap session @
       ''. Your messages will now route to '' @ i @ ''.'' @ [CHR 0x0A] @
       agent_switch_context_notice cf),
                   s2))"

definition handle_switch ::
  "('e, 'p, 'q) chat_world \<Rightarrow> chat_config \<Rightarrow> string \<Rightarrow> string \<Rightarrow> handler_state \<Rightarrow> string \<times> handler_state" where
  "handle_switch w cf text who s =
     (case switch_args text of
        [] \<Rightarrow> ((''Usage: !switch <agent> [session]'' @ [CHR 0x0A] @
       ''Alias: !agent switch <agent> [session]'' @ [CHR 0x0A, CHR 0x0A] @
       ''Use !agent list to see available agents.'' @ [CHR 0x0A] @
       ''Use !session list <agent> to list available sessions when an adapter can expose '' @
       ''them.''), s)
      | arg # words \<Rightarrow>
     (case find_rule cf who of
        None \<Rightarrow> (no_rule_text, s)
      | Some rule \<Rightarrow>
     (case matched_agent cf rule arg of
        None \<Rightarrow> (not_available_text cf rule arg, s)
      | Some i \<Rightarrow> switch_to w cf who i (if words = [] then None else Some (join_with '' '' words)) s)))"

definition handle_default ::
  "('e, 'p, 'q) chat_world \<Rightarrow> chat_config \<Rightarrow> string \<Rightarrow> handler_state \<Rightarrow> string \<times> handler_state" where
  "handle_default w cf who s =
     (case default_agent_for cf who of
        None \<Rightarrow> (no_rule_text, s)
      | Some i \<Rightarrow>
          let s1 = set_active_agent w who i s
          in (([CHR 0xE2, CHR 0x9C, CHR 0x85] @ '' Switched to default agent: '' @ i),
              save_active_sessions w (s1\<lparr>hs_sessions := (hs_sessions s1)(who := None)\<rparr>)))"

definition handle_new_session ::
  "('e, 'p, 'q) chat_world \<Rightarrow> chat_config \<Rightarrow> string \<Rightarrow> string \<Rightarrow> handler_state \<Rightarrow> string \<times> handler_state" where
  "handle_new_session w cf text who s =
     (let args = drop 1 (ws_words [] text) in
      if 1 < length args
      then ((''Usage: !new [session]'' @ [CHR 0x0A, CHR 0x0A] @
       ''Creates or selects a new named session for your active agent.''), s)
      else case active_agent_for cf who s of
             None \<Rightarrow> (([CHR 0xE2, CHR 0x9A, CHR 0xA0, CHR 0xEF, CHR 0xB8, CHR 0x8F] @
       '' No active agent is configured for your identity.''), s)
           | Some i \<Rightarrow>
          (case find_agent cf i of
             None \<Rightarrow> (([CHR 0xE2, CHR 0x9A, CHR 0xA0, CHR 0xEF, CHR 0xB8, CHR 0x8F] @ '' Active agent '' @
       [CHR 0x27] @ i @ [CHR 0x27] @ '' is not present in configuration.''), s)
           | Some a \<Rightarrow>
               if agent_session_capability a = NoSessions
               then (([CHR 0xE2, CHR 0x84, CHR 0xB9, CHR 0xEF, CHR 0xB8, CHR 0x8F] @ '' Active agent '' @
       [CHR 0x27] @ ag_id a @ [CHR 0x27] @ '' ('' @ ag_kind a @
       '') does not expose downstream sessions through Calciforge.''), s)
               else case not_ready (hw_paths w) a of
                      Some e \<Rightarrow> (([CHR 0xE2, CHR 0x9A, CHR 0xA0, CHR 0xEF, CHR 0xB8, CHR 0x8F] @
       '' Cannot start a session for '' @ [CHR 0x27] @ ag_id a @ [CHR 0x27] @ '': '' @ e), s)
                    | None \<Rightarrow>
                        let n = (case args of a # _ \<Rightarrow> a | [] \<Rightarrow> hw_uuid w (hs_log s)) in
                        if \<not> valid_downstream_session_name n then (invalid_session_text, s)
                        else (([CHR 0xE2, CHR 0x9C, CHR 0x85] @ '' Started session '' @ [CHR 0x27] @ n @ [CHR 0x27] @
       '' for '' @ i @ ''.'' @ [CHR 0x0A, CHR 0x0A] @ ''Use !switch '' @ i @ '' '' @ n @
       '' to return to it later.''),
                              set_active_session w who i n s)))"

section \<open>Lists of sessions\<close>

definition active_sessions_message :: "string \<Rightarrow> string list \<Rightarrow> outbound_message" where
  "active_sessions_message i sessions =
     (let ss = filter valid_downstream_session_name sessions in
      if ss = []
      then text_message ([CHR 0xE2, CHR 0x84, CHR 0xB9, CHR 0xEF, CHR 0xB8, CHR 0x8F] @
       '' No attachable sessions for '' @ [CHR 0x27] @ i @ [CHR 0x27] @ ''.'' @
       [CHR 0x0A, CHR 0x0A] @ ''Use !switch '' @ i @ '' to create a new session.'')
      else with_control
        \<lparr>cc_title = ''Attach to a session'', cc_options = map (\<lambda>n. session_choice n i n) ss\<rparr>
        (text_message (([CHR 0xF0, CHR 0x9F, CHR 0x97, CHR 0x82, CHR 0xEF, CHR 0xB8, CHR 0x8F] @
       ''  Active sessions for '' @ [CHR 0x27] @ i @ [CHR 0x27] @ '':'' @ [CHR 0x0A] @ ''  - '') @ join_with ([CHR 0x0A] @ ''  - '') ss @
           ([CHR 0x0A, CHR 0x0A] @ ''Use !switch '' @ i @
       '' <session> to attach to a specific session.''))))"

definition session_lines :: "string \<Rightarrow> string list" where
  "session_lines out = filter (\<lambda>l. l \<noteq> [] \<and> \<not> prefix ''No sessions'' l) (str_lines out)"

definition list_acpx_sessions ::
  "('e, 'p, 'q) chat_world \<Rightarrow> string \<Rightarrow> agent_config \<Rightarrow> handler_state \<Rightarrow>
   (string + string list) \<times> handler_state" where
  "list_acpx_sessions w name a s =
     (case hw_acpx_dir w of
        Inl e \<Rightarrow> (Inl (''Failed to create acpx session dir: '' @ e), s)
      | Inr _ \<Rightarrow>
     (case acpx_binary_for_agent (hw_paths w) a of
        Inl e \<Rightarrow> (Inl e, s)
      | Inr prog \<Rightarrow>
          let args = [name, ''sessions'', ''list''];
              r = hw_acpx w (hs_log s) prog args (ag_env a);
              s' = note_event (CeAcpx prog args (ag_env a) r) s
          in case r of
               AcpxFailed e \<Rightarrow> (Inl (''Failed to run acpx: '' @ e), s')
             | AcpxExited ok out err \<Rightarrow>
                 if \<not> ok then (Inl (''acpx error: '' @ err), s') else (Inr (session_lines out), s')))"

definition sessions_arg :: "string \<Rightarrow> string" where
  "sessions_arg text =
     (let args = drop 1 (ws_words [] (trim text));
          rest = (case args of a # as \<Rightarrow> if is_word [''list'', ''show''] a then as else args | [] \<Rightarrow> [])
      in case rest of a # _ \<Rightarrow> a | [] \<Rightarrow> [])"

definition sessions_of_agent ::
  "('e, 'p, 'q) chat_world \<Rightarrow> string \<Rightarrow> agent_config \<Rightarrow> handler_state \<Rightarrow> outbound_message \<times> handler_state" where
  "sessions_of_agent w i a s =
     (case agent_session_capability a of
        NoSessions \<Rightarrow>
          (text_message ([CHR 0xE2, CHR 0x84, CHR 0xB9, CHR 0xEF, CHR 0xB8, CHR 0x8F] @ '' Agent '' @ [CHR 0x27] @
       i @ [CHR 0x27] @ '' ('' @ ag_kind a @
       '') does not expose downstream sessions through Calciforge.''), s)
      | NamedSessions \<Rightarrow>
          (text_message ([CHR 0xE2, CHR 0x84, CHR 0xB9, CHR 0xEF, CHR 0xB8, CHR 0x8F] @ '' Agent '' @ [CHR 0x27] @
       i @ [CHR 0x27] @ '' ('' @ ag_kind a @
       '') supports named sessions, but Calciforge cannot list them from the agent '' @
       ''yet.'' @ [CHR 0x0A, CHR 0x0A] @ ''Use !switch '' @ i @
       '' <session> to attach by name, or !new to create a new Calciforge-managed session '' @
       ''for your current agent.''), s)
      | ListableSessions \<Rightarrow>
          let name = (case ag_command a of Some c \<Rightarrow> c | None \<Rightarrow> i) in
          (case list_acpx_sessions w name a s of
             (Inl e, s') \<Rightarrow>
               (text_message ([CHR 0xE2, CHR 0x9A, CHR 0xA0, CHR 0xEF, CHR 0xB8, CHR 0x8F] @
       '' Failed to list sessions for '' @ [CHR 0x27] @ i @ [CHR 0x27] @ '': '' @ e @
       [CHR 0x0A, CHR 0x0A] @
       ''Make sure the session backend is installed and the agent is properly configured.''), s')
           | (Inr sessions, s') \<Rightarrow>
               (if sessions = []
                then text_message ([CHR 0xE2, CHR 0x84, CHR 0xB9, CHR 0xEF, CHR 0xB8, CHR 0x8F] @
       '' No active sessions for '' @ [CHR 0x27] @ i @ [CHR 0x27] @ ''.'' @
       [CHR 0x0A, CHR 0x0A] @ ''Use !new while '' @ [CHR 0x27] @ i @ [CHR 0x27] @
       '' is active to create a new session.'')
                else active_sessions_message i sessions, s')))"

definition handle_sessions_message ::
  "('e, 'p, 'q) chat_world \<Rightarrow> chat_config \<Rightarrow> string \<Rightarrow> string \<Rightarrow> handler_state \<Rightarrow>
   outbound_message \<times> handler_state" where
  "handle_sessions_message w cf text who s =
     (let arg = sessions_arg text in
      if arg = []
      then (text_message (''Usage: !sessions <agent>'' @ [CHR 0x0A] @ ''Alias: !session list <agent>'' @
       [CHR 0x0A, CHR 0x0A] @
       ''Lists available downstream sessions when the adapter can expose them.'' @ [CHR 0x0A] @
       ''Use !agent list to see available agents.''), s)
      else case find_rule cf who of
             None \<Rightarrow> (text_message no_rule_text, s)
           | Some rule \<Rightarrow>
          (case matched_agent cf rule arg of
             None \<Rightarrow> (text_message (not_available_text cf rule arg), s)
           | Some i \<Rightarrow>
          (case find_agent cf i of
             None \<Rightarrow> (text_message ([CHR 0xE2, CHR 0x9A, CHR 0xA0, CHR 0xEF, CHR 0xB8, CHR 0x8F] @ '' Agent '' @ [CHR 0x27] @
       i @ [CHR 0x27] @ '' not found in configuration.''), s)
           | Some a \<Rightarrow> sessions_of_agent w i a s)))"

end
