(* ===== verification/Chat_Actions.thy ===== *)
theory Chat_Actions
  imports Chat_Handlers
begin

text \<open>
  Commands that choose a model (\<open>crates/calciforge/src/commands/model.rs\<close>), decide approvals
  (\<open>commands/approvals.rs\<close>) and deal with secrets (\<open>commands/secure.rs\<close>, \<open>handle_secure\<close> of
  \<open>commands.rs\<close>).
\<close>

section \<open>Models\<close>

definition model_args :: "string \<Rightarrow> string list" where
  "model_args text =
     (case drop 1 (ws_words [] (trim text)) of
        a # as \<Rightarrow> if is_word [''use'', ''switch'', ''set''] a then as else a # as
      | [] \<Rightarrow> [])"

definition activated_alloy_text :: "string \<Rightarrow> string \<Rightarrow> alloy_def \<Rightarrow> string" where
  "activated_alloy_text m note a =
     ([CHR 0xE2, CHR 0x9C, CHR 0x85] @ '' Activated alloy '' @ [CHR 0x27] @ m @ [CHR 0x27] @
       note @ '' for your identity.'' @ [CHR 0x0A, CHR 0x0A] @ ''Constituents ('' @
       strategy_debug (ad_strategy a) @ '' strategy): '' @ constituents_text a)"

definition use_synthetic ::
  "('e, 'p, 'q) chat_world \<Rightarrow> selectors \<Rightarrow> string \<Rightarrow> string \<Rightarrow> string \<Rightarrow> handler_state \<Rightarrow>
   string \<times> handler_state" where
  "use_synthetic w sel m note who s =
     (case set_active_for_identity sel who m (hs_sel s) of
        (Inl e, st) \<Rightarrow> (([CHR 0xE2, CHR 0x9A, CHR 0xA0, CHR 0xEF, CHR 0xB8, CHR 0x8F] @
       '' Failed to activate model: '' @ selector_error_text e), s\<lparr>hs_sel := st\<rparr>)
      | (Inr _, st) \<Rightarrow>
          (case map_of (alloys sel) m of
             Some a \<Rightarrow> activated_alloy_text m note a
           | None \<Rightarrow>
               let kind = (if list_ex (\<lambda>d. target_def.td_id d = m) (list_cascades sel) then ''cascade''
                           else if list_ex (\<lambda>d. target_def.td_id d = m) (list_dispatchers sel) then ''dispatcher''
                           else ''synthetic model selector'')
               in ([CHR 0xE2, CHR 0x9C, CHR 0x85] @ '' Activated '' @ kind @ '' '' @ [CHR 0x27] @ m @
       [CHR 0x27] @ note @ '' for your identity.''),
           set_active_model w who m (s\<lparr>hs_sel := st\<rparr>)))"

definition use_local ::
  "('e, 'p, 'q) chat_world \<Rightarrow> local_model_def \<Rightarrow> string \<Rightarrow> string \<Rightarrow> string \<Rightarrow> handler_state \<Rightarrow>
   string \<times> handler_state" where
  "use_local w d m note who s =
     (([CHR 0xF0, CHR 0x9F, CHR 0x94, CHR 0x84] @ '' Switching to local model '' @ [CHR 0x27] @
       m @ [CHR 0x27] @ note @ '' (HF: '' @ ld_hf_id d @ '').'' @ [CHR 0x0A] @
       ''This may take 1-2 minutes while the model loads.'' @ [CHR 0x0A] @
       ''The gateway will continue serving requests during the transition.''),
      note_event (CeLocalSwitch m) (set_active_model w who m s))"

definition provider_of_model :: "chat_config \<Rightarrow> string \<Rightarrow> chat_provider option" where
  "provider_of_model cf m =
     (case cf_proxy cf of
        None \<Rightarrow> None
      | Some px \<Rightarrow> find (\<lambda>p. list_ex (model_matches_pattern m) (cp_models p)) (ch_providers px))"

definition use_provider ::
  "('e, 'p, 'q) chat_world \<Rightarrow> chat_provider \<Rightarrow> string \<Rightarrow> string \<Rightarrow> string \<Rightarrow> handler_state \<Rightarrow>
   string \<times> handler_state" where
  "use_provider w p m note who s =
     (let hook = (case cp_on_switch p of
                    Some h \<Rightarrow> if h = [] then [] else '' Its on_switch hook will run before the next gateway request that uses this provider.''
                  | None \<Rightarrow> [])
      in (([CHR 0xE2, CHR 0x9C, CHR 0x85] @ '' Activated model '' @ [CHR 0x27] @ m @ [CHR 0x27] @
       note @ '' for your identity (provider: '' @ cp_id p @ '').'' @ hook),
          set_active_model w who m s))"

definition unknown_model_text :: "chat_setup \<Rightarrow> string \<Rightarrow> string" where
  "unknown_model_text su requested =
     (let available =
        map (\<lambda>c. (''  '' @ sc_alias c @ '' '' @ [CHR 0xE2, CHR 0x86, CHR 0x92] @ '' '' @ sc_model c @
       '' (alias)'')) (chat_shortcuts (su_config su)) @
        (case su_selectors su of
           Some sel \<Rightarrow>
             map (\<lambda>a. (''  '' @ ad_id a @ '' (alloy)'')) (list_alloy_definitions sel) @
             map (\<lambda>d. (''  '' @ target_def.td_id d @ '' (cascade)'')) (list_cascades sel) @
             map (\<lambda>d. (''  '' @ target_def.td_id d @ '' (dispatcher)'')) (list_dispatchers sel)
         | None \<Rightarrow> []) @
        (case su_local su of
           Some lc \<Rightarrow> map (\<lambda>m. (''  '' @ ld_id m @ '' (local/'' @ ld_provider_type m @ '')'')) (lc_models lc)
         | None \<Rightarrow> [])
      in if available = []
         then ([CHR 0xE2, CHR 0x9A, CHR 0xA0, CHR 0xEF, CHR 0xB8, CHR 0x8F] @ '' Unknown model: '' @
       [CHR 0x27] @ requested @ [CHR 0x27, CHR 0x0A, CHR 0x0A] @ ''No models configured.'')
         else ([CHR 0xE2, CHR 0x9A, CHR 0xA0, CHR 0xEF, CHR 0xB8, CHR 0x8F] @ '' Unknown model: '' @
       [CHR 0x27] @ requested @ [CHR 0x27, CHR 0x0A, CHR 0x0A] @ ''Available:'' @ [CHR 0x0A]) @ join_with NL available)"

definition activate_model ::
  "('e, 'p, 'q) chat_world \<Rightarrow> chat_setup \<Rightarrow> string \<Rightarrow> string \<Rightarrow> string \<Rightarrow> handler_state \<Rightarrow>
   string \<times> handler_state" where
  "activate_model w su requested m who s =
     (let note = (if m = requested then [] else ('' via alias '' @ [CHR 0x27] @ requested @ [CHR 0x27] @ '' '' @
       [CHR 0xE2, CHR 0x86, CHR 0x92] @ '' '' @ [CHR 0x27] @ m @ [CHR 0x27])) in
      case (case su_selectors su of
              Some sel \<Rightarrow> if is_synthetic_model sel m then Some sel else None | None \<Rightarrow> None) of
        Some sel \<Rightarrow> use_synthetic w sel m note who s
      | None \<Rightarrow>
     (case Option.bind (su_local su) (\<lambda>lc. find_model lc m) of
        Some d \<Rightarrow> use_local w d m note who s
      | None \<Rightarrow>
     (case provider_of_model (su_config su) m of
        Some p \<Rightarrow> use_provider w p m note who s
      | None \<Rightarrow> (unknown_model_text su requested, s))))"

definition handle_model ::
  "('e, 'p, 'q) chat_world \<Rightarrow> chat_setup \<Rightarrow> string \<Rightarrow> string \<Rightarrow> handler_state \<Rightarrow> string \<times> handler_state" where
  "handle_model w su text who s =
     (case model_args text of
        [] \<Rightarrow> ((''Usage: !model use <id>'' @ [CHR 0x0A] @ ''Alias: !model <id>'' @ [CHR 0x0A, CHR 0x0A] @
       ''Use !model list to see available models.''), s)
      | requested # _ \<Rightarrow>
     (case resolve_model_alias_chain (chat_shortcuts (su_config su)) requested of
        Inl e \<Rightarrow> (([CHR 0xE2, CHR 0x9A, CHR 0xA0, CHR 0xEF, CHR 0xB8, CHR 0x8F] @ '' '' @ alias_error_text e), s)
      | Inr m \<Rightarrow>
     (case active_agent_for (su_config su) who s of
        None \<Rightarrow> (([CHR 0xE2, CHR 0x9A, CHR 0xA0, CHR 0xEF, CHR 0xB8, CHR 0x8F] @
       '' No active agent is configured for your identity, so Calciforge cannot apply '' @
       ''a model override.''), s)
      | Some i \<Rightarrow>
     (case find_agent (su_config su) i of
        None \<Rightarrow> (([CHR 0xE2, CHR 0x9A, CHR 0xA0, CHR 0xEF, CHR 0xB8, CHR 0x8F] @ '' Active agent '' @
       [CHR 0x27] @ i @ [CHR 0x27] @ '' is not present in configuration.''), s)
      | Some a \<Rightarrow>
          if \<not> agent_supports_model_override a
          then (([CHR 0xE2, CHR 0x9A, CHR 0xA0, CHR 0xEF, CHR 0xB8, CHR 0x8F] @ '' Active agent '' @
       [CHR 0x27] @ ag_id a @ [CHR 0x27] @ '' ('' @ ag_kind a @
       '') does not consume Calciforge model overrides.'' @ [CHR 0x0A, CHR 0x0A] @
       ''Use an agent explicitly configured with allow_model_override = true, or configure '' @
       ''this agent'' @ [CHR 0x27] @
       ''s native model setting instead. Only enable that flag for agents wired to '' @
       ''Calciforge'' @ [CHR 0x27] @ ''s model gateway or known to accept these model IDs.''), s)
          else activate_model w su requested m who s))))"

section \<open>Approvals\<close>

definition register_pending_approval :: "approval_meta \<Rightarrow> handler_state \<Rightarrow> handler_state" where
  "register_pending_approval a s =
     s\<lparr>hs_approvals := put_key (pa_request_id a) a (hs_approvals s)\<rparr>"

definition approval_request_message :: "string \<Rightarrow> string \<Rightarrow> string \<Rightarrow> outbound_message" where
  "approval_request_message command reason request_id =
     with_control
       \<lparr>cc_title = ''Choose an approval action'',
        cc_options = [approve_choice request_id, deny_choice request_id]\<rparr>
       (text_message (''Approval required'' @ [CHR 0x0A] @ ''Command: '' @ command @ [CHR 0x0A] @
       ''Reason: '' @ reason @ [CHR 0x0A] @ ''Request ID: '' @ request_id))"

text \<open>The only approval that is pending, or why there is no such.\<close>

definition single_approval :: "(string \<times> approval_meta) list \<Rightarrow> string + approval_meta" where
  "single_approval store =
     (case store of
        [] \<Rightarrow> Inl ([CHR 0xE2, CHR 0x9A, CHR 0xA0, CHR 0xEF, CHR 0xB8, CHR 0x8F] @ '' No pending approvals.'')
      | [(_, a)] \<Rightarrow> Inr a
      | _ \<Rightarrow> Inl (([CHR 0xE2, CHR 0x9A, CHR 0xA0, CHR 0xEF, CHR 0xB8, CHR 0x8F] @ '' '' @
       show_nat (length store) @ '' pending approvals. Specify a request ID:'' @ [CHR 0x0A]) @
               join_with NL (sort (map fst store))))"

definition resolve_pending_approval ::
  "(string \<times> approval_meta) list \<Rightarrow> string option \<Rightarrow> string + approval_meta" where
  "resolve_pending_approval store explicit =
     (case explicit of
        Some i \<Rightarrow>
          (case map_of store i of
             Some a \<Rightarrow> Inr a
           | None \<Rightarrow> Inl ([CHR 0xE2, CHR 0x9A, CHR 0xA0, CHR 0xEF, CHR 0xB8, CHR 0x8F] @
       '' No pending approval with ID '' @ [CHR 0x27] @ i @ [CHR 0x27] @ ''.'' @
       [CHR 0x0A, CHR 0x0A] @ ''Use !approve or !deny without an ID to list pending approvals.''))
      | None \<Rightarrow> single_approval store)"

text \<open>A first word that names no approval begins the reason.\<close>

definition resolve_pending_denial ::
  "(string \<times> approval_meta) list \<Rightarrow> string \<Rightarrow> string + approval_meta \<times> string option" where
  "resolve_pending_denial store text =
     (let args = drop 1 (ws_words [] text);
          rest = join_with '' '' (drop 1 args)
      in case (case args of i # _ \<Rightarrow> map_of store i | [] \<Rightarrow> None) of
           Some a \<Rightarrow> Inr (a, if rest = [] then None else Some rest)
         | None \<Rightarrow>
             (let reason = (case args of [] \<Rightarrow> None
                                       | i # _ \<Rightarrow> Some (if rest = [] then i else i @ '' '' @ rest))
              in map_sum id (\<lambda>a. (a, reason)) (single_approval store)))"

definition decide ::
  "('e, 'p, 'q) chat_world \<Rightarrow> approval_meta \<Rightarrow> bool \<Rightarrow> string option \<Rightarrow> handler_state \<Rightarrow>
   (string \<times> string option) \<times> handler_state" where
  "decide w a approve reason s =
     (let r = hw_decide w (hs_log s) a approve reason;
          s1 = note_event (CeDecision a approve reason r) s
      in case r of
           Inl e \<Rightarrow>
             ((if approve then ([CHR 0xE2, CHR 0x9A, CHR 0xA0, CHR 0xEF, CHR 0xB8, CHR 0x8F] @
       '' Failed to send approval: '' @ e)
               else ([CHR 0xE2, CHR 0x9A, CHR 0xA0, CHR 0xEF, CHR 0xB8, CHR 0x8F] @
       '' Failed to send denial: '' @ e), None), s1)
         | Inr _ \<Rightarrow>
             let s2 = s1\<lparr>hs_approvals := drop_key (pa_request_id a) (hs_approvals s1)\<rparr>;
                 p = hw_poll w (hs_log s2) a;
                 s3 = note_event (CePoll a p) s2
             in (case p of
                   Inr response \<Rightarrow>
                     (if approve then ([CHR 0xE2, CHR 0x9C, CHR 0x85] @ '' Approved (request '' @ pa_request_id a @ '')'')
                      else ([CHR 0xF0, CHR 0x9F, CHR 0x9A, CHR 0xAB] @ '' Denied (request '' @ pa_request_id a @
       '')''), Some response)
                 | Inl e \<Rightarrow>
                     (if approve then ([CHR 0xE2, CHR 0x9C, CHR 0x85] @ '' Approved '' @ [CHR 0xE2, CHR 0x80, CHR 0x94] @
       '' but failed to retrieve result: '' @ e)
                      else ([CHR 0xF0, CHR 0x9F, CHR 0x9A, CHR 0xAB] @ '' Denied '' @
       [CHR 0xE2, CHR 0x80, CHR 0x94] @ '' but failed to retrieve result: '' @ e), None), s3))"

definition handle_approve ::
  "('e, 'p, 'q) chat_world \<Rightarrow> string \<Rightarrow> handler_state \<Rightarrow> (string \<times> string option) \<times> handler_state" where
  "handle_approve w text s =
     (case resolve_pending_approval (hs_approvals s)
             (case drop 1 (ws_words [] text) of i # _ \<Rightarrow> Some i | [] \<Rightarrow> None) of
        Inl msg \<Rightarrow> ((msg, None), s)
      | Inr a \<Rightarrow> decide w a True None s)"

definition handle_deny ::
  "('e, 'p, 'q) chat_world \<Rightarrow> string \<Rightarrow> handler_state \<Rightarrow> (string \<times> string option) \<times> handler_state" where
  "handle_deny w text s =
     (case resolve_pending_denial (hs_approvals s) text of
        Inl msg \<Rightarrow> ((msg, None), s)
      | Inr (a, reason) \<Rightarrow> decide w a False reason s)"

definition handle_async ::
  "('e, 'p, 'q) chat_world \<Rightarrow> string \<Rightarrow> handler_state \<Rightarrow>
   (string \<times> string option) option \<times> handler_state" where
  "handle_async w text s =
     (if is_approve_command (hw_tables w) text
      then (case handle_approve w text s of (r, s') \<Rightarrow> (Some r, s'))
      else if is_deny_command (hw_tables w) text
      then (case handle_deny w text s of (r, s') \<Rightarrow> (Some r, s'))
      else (None, s))"

section \<open>Secrets\<close>

definition secure_help :: string where
  "secure_help = join_with NL
     [''!secret subcommands (alias: !secure):'',
      (''  !secret input NAME [desc] '' @ [CHR 0xE2, CHR 0x80, CHR 0x94] @
       '' create a one-shot local-network paste link''),
      (''  !secret bulk [desc]     '' @ [CHR 0xE2, CHR 0x80, CHR 0x94] @
       '' create a one-shot local-network .env paste link''),
      (''  !secret list              '' @ [CHR 0xE2, CHR 0x80, CHR 0x94] @
       '' list stored secret names (not values)''),
      (''  !secret help              '' @ [CHR 0xE2, CHR 0x80, CHR 0x94] @ '' show this help''),
      [],
      ''The input/bulk links are for browsers that can reach this Calciforge'',
      ''host on your LAN. For stable hostnames or off-LAN access, configure'',
      ''CALCIFORGE_PASTE_PUBLIC_BASE_URL behind an authenticated reverse proxy'',
      ''or tunnel; do not expose paste-server directly to the open internet.'',
      [],
      ''Equivalent host-local commands:'',
      (''  paste-server NAME '' @ [CHR 0x22] @ ''description'' @ [CHR 0x22]),
      (''  paste-server --bulk env-import '' @ [CHR 0x22] @ ''bulk .env import'' @ [CHR 0x22]),
      [],
      ''Legacy chat fallback:'',
      (''  !secret set NAME=value    '' @ [CHR 0xE2, CHR 0x80, CHR 0x94] @
       '' store a low-stakes secret by name''),
      (''  !secret set NAME value    '' @ [CHR 0xE2, CHR 0x80, CHR 0x94] @
       '' same, for mobile keyboards''),
      [],
      ([CHR 0xE2, CHR 0x9A, CHR 0xA0, CHR 0xEF, CHR 0xB8, CHR 0x8F] @
       '' `!secret set` passes through the chat transport, which retains''),
      ''   history and may not be end-to-end encrypted. `input`/`bulk` send'',
      ''   only a short-lived URL; the value is entered in the browser.'',
      [],
      ''Calciforge and fnox can share the same fnox.toml/profile. Installing'',
      ''fnox is still useful for manual `fnox set/list/tui` operations and as'',
      ''the default local secret backend for paste-server. On macOS the installer'',
      ''adds a Keychain provider; on Linux it creates a local age provider.'']"

definition secure_input_target :: "string \<Rightarrow> bool \<Rightarrow> string + string \<times> string" where
  "secure_input_target rest bulk =
     (if bulk
      then Inr (''env-import'',
             if trim rest = [] then ''Paste .env lines; each KEY=VALUE line becomes its own secret.''
             else trim rest)
      else case ws_words [] rest of
             [] \<Rightarrow> Inl ([CHR 0xE2, CHR 0x9A, CHR 0xA0, CHR 0xEF, CHR 0xB8, CHR 0x8F] @
       '' Usage: `!secret input NAME [description]`'')
           | n # ds \<Rightarrow> Inr (n, join_with '' '' ds))"

definition paste_server_env_from_values ::
  "string option \<Rightarrow> bool \<Rightarrow> string option \<Rightarrow> string option \<Rightarrow> string option \<Rightarrow> paste_env" where
  "paste_server_env_from_values bind inherited base host lan =
     \<lparr>pe_bind = (if bind \<noteq> None then bind else if inherited then None else lan),
      pe_public_base_url = base, pe_public_host = host\<rparr>"

definition paste_environment :: "('e, 'p, 'q) chat_world \<Rightarrow> paste_env" where
  "paste_environment w =
     paste_server_env_from_values (hw_env w ''CALCIFORGE_PASTE_BIND'') (hw_paste_bind w)
       (hw_env w ''CALCIFORGE_PASTE_PUBLIC_BASE_URL'') (hw_env w ''CALCIFORGE_PASTE_PUBLIC_HOST'')
       (hw_lan_addr w)"

definition secure_input ::
  "('e, 'p, 'q) chat_world \<Rightarrow> string \<Rightarrow> bool \<Rightarrow> handler_state \<Rightarrow> string \<times> handler_state" where
  "secure_input w rest bulk s =
     (case secure_input_target rest bulk of
        Inl usage \<Rightarrow> (usage, s)
      | Inr (name, descr) \<Rightarrow>
          let args = (if bulk then [''--bulk''] else []) @ [name, descr];
              env = paste_environment w;
              r = hw_paste w (hs_log s) args env;
              s1 = note_event (CePaste args env r) s;
              killed = note_event CePasteKilled s1
          in case r of
               PasteNotInstalled \<Rightarrow> (([CHR 0xE2, CHR 0x9A, CHR 0xA0, CHR 0xEF, CHR 0xB8, CHR 0x8F] @
       '' paste-server is not installed or not on the service PATH. Re-run the Calciforge '' @
       ''installer or install the `paste-server` binary.''), s1)
             | PasteFailed e \<Rightarrow> (([CHR 0xE2, CHR 0x9A, CHR 0xA0, CHR 0xEF, CHR 0xB8, CHR 0x8F] @
       '' Failed to start paste-server: '' @ e), s1)
             | PasteNoStream \<Rightarrow> (([CHR 0xE2, CHR 0x9A, CHR 0xA0, CHR 0xEF, CHR 0xB8, CHR 0x8F] @
       '' paste-server started without a URL stream''), killed)
             | PasteEof \<Rightarrow> (([CHR 0xE2, CHR 0x9A, CHR 0xA0, CHR 0xEF, CHR 0xB8, CHR 0x8F] @
       '' paste-server exited before returning a URL''), killed)
             | PasteReadFailed e \<Rightarrow> (([CHR 0xE2, CHR 0x9A, CHR 0xA0, CHR 0xEF, CHR 0xB8, CHR 0x8F] @
       '' Failed reading paste-server URL: '' @ e), killed)
             | PasteTimedOut \<Rightarrow> (([CHR 0xE2, CHR 0x9A, CHR 0xA0, CHR 0xEF, CHR 0xB8, CHR 0x8F] @
       '' paste-server did not return a URL within 3 seconds''), killed)
             | PasteLine line \<Rightarrow>
                 (([CHR 0xF0, CHR 0x9F, CHR 0x94, CHR 0x90] @ '' One-shot '') @ (if bulk then ''bulk .env paste'' else ''secret paste'') @
                  ('' link:'' @ [CHR 0x0A] @ trim line @ [CHR 0x0A, CHR 0x0A] @
       ''Open it from a browser that can reach the Calciforge host. The link expires '' @
       ''quickly and stores through the configured local secret backend. For phone/off-network '' @
       ''use, use a short-lived authenticated proxy/tunnel; do not expose this paste '' @
       ''server directly to the open internet.''), s1))"

text \<open>\<open>NAME=value\<close>, or the name up to the first space.\<close>

definition secret_name_value :: "string \<Rightarrow> string \<times> string" where
  "secret_name_value rest =
     (case split_once (\<lambda>c. c = CHR ''='') rest of
        Some (n, v) \<Rightarrow> (trim n, v)
      | None \<Rightarrow>
          (case split_once (\<lambda>c. c = CHR '' '') rest of
             Some (n, v) \<Rightarrow> (trim n, v)
           | None \<Rightarrow> (trim rest, [])))"

definition secret_name_char :: "char \<Rightarrow> bool" where
  "secret_name_char c \<longleftrightarrow> ascii_alnum c \<or> c \<in> {CHR ''_'', CHR ''-''}"

definition secret_set_reply ::
  "('e, 'p, 'q) control_world \<Rightarrow> string \<Rightarrow> fnox_error + unit \<Rightarrow> string" where
  "secret_set_reply w name r =
     (case r of
        Inr _ \<Rightarrow> ([CHR 0xE2, CHR 0x9C, CHR 0x85] @ '' Stored secret `'' @ name @ ''`.'' @
       [CHR 0x0A, CHR 0x0A, CHR 0xE2, CHR 0x9A, CHR 0xA0, CHR 0xEF, CHR 0xB8, CHR 0x8F] @
       '' The value you sent is retained by the chat transport. For high-value secrets, '' @
       ''use the local paste UI (`paste-server '' @ name @ ''`) or host-local `fnox set '' @
       name @ ''`.'')
      | Inl (FxNotInstalled e) \<Rightarrow> ([CHR 0xE2, CHR 0x9A, CHR 0xA0, CHR 0xEF, CHR 0xB8, CHR 0x8F] @
       '' fnox not available: '' @ e @
       ''. Install it (brew install fnox) and run `fnox init` to enable `!secure`.'')
      | Inl (FxFailed _ err) \<Rightarrow> ([CHR 0xE2, CHR 0x9A, CHR 0xA0, CHR 0xEF, CHR 0xB8, CHR 0x8F] @ '' fnox set '' @ name @
       '' failed: '' @ err)
      | Inl e \<Rightarrow> ([CHR 0xE2, CHR 0x9A, CHR 0xA0, CHR 0xEF, CHR 0xB8, CHR 0x8F] @ '' fnox set '' @ name @
       '' failed: '' @ fnox_error_text (cw_debug w) e))"

definition secure_set :: "('e, 'p, 'q) chat_world \<Rightarrow> string \<Rightarrow> handler_state \<Rightarrow> string \<times> handler_state" where
  "secure_set w rest s =
     (case secret_name_value rest of
        (name, v) \<Rightarrow>
          if name = [] \<or> v = [] then (([CHR 0xE2, CHR 0x9A, CHR 0xA0, CHR 0xEF, CHR 0xB8, CHR 0x8F] @
       '' Usage: `!secret set NAME=value`''), s)
          else if \<not> list_all secret_name_char name
          then (([CHR 0xE2, CHR 0x9A, CHR 0xA0, CHR 0xEF, CHR 0xB8, CHR 0x8F] @
       '' Invalid secret name `'' @ name @ ''` '' @ [CHR 0xE2, CHR 0x80, CHR 0x94] @
       '' allowed: A-Z a-z 0-9 _ -''), s)
          else case fnox_set (cw_fnox (hw_control w)) (cw_client (hw_control w)) name v (hs_fnox s) of
                 (r, ps) \<Rightarrow> (secret_set_reply (hw_control w) name r, s\<lparr>hs_fnox := ps\<rparr>))"

definition secret_row :: "secret_metadata \<Rightarrow> string" where
  "secret_row md =
     (if md_allowed_destinations md = [] then md_name md
      else (md_name md @ '' '' @ [CHR 0xE2, CHR 0x80, CHR 0x94] @ '' allowed: '') @ join_with '', '' (md_allowed_destinations md))"

definition secure_list :: "('e, 'p, 'q) chat_world \<Rightarrow> handler_state \<Rightarrow> string \<times> handler_state" where
  "secure_list w s =
     (let cw = hw_control w in
      case fnox_list (cw_fnox cw) (cw_client cw) (hs_fnox s) of
        (r, ps) \<Rightarrow>
          (case r of
             Inr names \<Rightarrow>
               if names = []
               then ([CHR 0xF0, CHR 0x9F, CHR 0x93, CHR 0xAD] @
       '' No secrets stored. Use `paste-server NAME` to add one without chat history.'')
               else (case metadata_for_names (cw_parse cw) (cw_fault cw) (hw_fs w) (cw_env cw) names of
                       Inl e \<Rightarrow> ([CHR 0xE2, CHR 0x9A, CHR 0xA0, CHR 0xEF, CHR 0xB8, CHR 0x8F] @
       '' Secret metadata unavailable; refusing to display incomplete destination policy: '' @
       control_metadata_text cw e)
                     | Inr mds \<Rightarrow>
                         ([CHR 0xF0, CHR 0x9F, CHR 0x94, CHR 0x90] @ '' '' @ show_nat (length mds) @
       '' stored secret'') @
                         (if length mds = 1 then [] else ''s'') @ ('':'' @ [CHR 0x0A] @ ''  '') @
                         join_with ([CHR 0x0A] @ ''  '') (map secret_row mds))
           | Inl (FxNotInstalled e) \<Rightarrow> ([CHR 0xE2, CHR 0x9A, CHR 0xA0, CHR 0xEF, CHR 0xB8, CHR 0x8F] @
       '' fnox not available: '' @ e)
           | Inl e \<Rightarrow> ([CHR 0xE2, CHR 0x9A, CHR 0xA0, CHR 0xEF, CHR 0xB8, CHR 0x8F] @ '' fnox list failed: '' @
       fnox_error_text (cw_debug cw) e),
           s\<lparr>hs_fnox := ps\<rparr>))"

definition handle_secure ::
  "('e, 'p, 'q) chat_world \<Rightarrow> string \<Rightarrow> handler_state \<Rightarrow> string \<times> handler_state" where
  "handle_secure w text s =
     (let low = to_lowercase (tt_lower (hw_tables w));
          ws = ws_words [] (trim text);
          lead = low (case ws of c # _ \<Rightarrow> c | [] \<Rightarrow> ''!secure'');
          sub = (case drop 1 ws of a # _ \<Rightarrow> low a | [] \<Rightarrow> []);
          rest = trim (join_with '' '' (drop 2 ws))
      in if sub = ''set'' then secure_set w rest s
         else if sub \<in> {''input'', ''request''} then secure_input w rest False s
         else if sub = ''bulk'' then secure_input w rest True s
         else if sub = ''list'' then secure_list w s
         else if sub \<in> {''help'', []} then (secure_help, s)
         else (([CHR 0xE2, CHR 0x9A, CHR 0xA0, CHR 0xEF, CHR 0xB8, CHR 0x8F] @ '' Unknown '' @ lead @
       '' subcommand: `'' @ sub @ ''`'' @ [CHR 0x0A, CHR 0x0A] @ secure_help), s))"

end
