(* ===== verification/Starlark_Json.thy ===== *)
theory Starlark_Json
  imports Json_Value
begin

text \<open>
  Values that the policy engines pass to Starlark and get back, and the conversion of JSON
  that the scanner (\<open>crates/adversary-detector/src/scanner.rs\<close>) and \<open>clashd\<close>
  (\<open>crates/clashd/src/policy/eval.rs\<close>) share.  The evaluator itself is a library: what a run of
  a policy ends in is an argument of the models.
\<close>

datatype star_value =
    StarNone
  | StarBool bool
  | StarInt int
  | StarFloat string
  | StarStr string
  | StarList "star_value list"
  | StarDict "(string \<times> star_value) list"

text \<open>\<open>Number::as_i64\<close> and \<open>Number::as_f64\<close> of a number's text are arguments.\<close>

definition star_number :: "(string \<Rightarrow> int option) \<Rightarrow> (string \<Rightarrow> string option) \<Rightarrow> string \<Rightarrow> star_value" where
  "star_number as_i64 as_f64 n =
     (case as_i64 n of
        Some i \<Rightarrow> StarInt i
      | None \<Rightarrow> (case as_f64 n of Some f \<Rightarrow> StarFloat f | None \<Rightarrow> StarStr n))"

function json_to_starlark ::
  "(string \<Rightarrow> int option) \<Rightarrow> (string \<Rightarrow> string option) \<Rightarrow> json \<Rightarrow> star_value" where
  "json_to_starlark i f JNull = StarNone"
| "json_to_starlark i f (JBool b) = StarBool b"
| "json_to_starlark i f (JNum n) = star_number i f n"
| "json_to_starlark i f (JStr s) = StarStr s"
| "json_to_starlark i f (JArr vs) = StarList (map (json_to_starlark i f) vs)"
| "json_to_starlark i f (JObj kvs) = StarDict (map (\<lambda>kv. (fst kv, json_to_starlark i f (snd kv))) kvs)"
  by pat_completeness auto
termination
  by (relation "measure (\<lambda>(i, f, v). size v)")
    (auto simp del: json.size dest: json_size_arr json_size_obj)

text \<open>
  What a policy function returns, as the callers look at it: a string, a value with a JSON
  form, or one without.
\<close>

datatype star_result =
    ResultStr string
  | ResultJson json
  | ResultOpaque string

text \<open>How a run of a policy module ends.\<close>

datatype star_run =
    CallstackFailed string
  | ModuleFailed string
  | FunctionMissing
  | FunctionFailed string
  | FunctionReturned star_result

text \<open>The regex engine: \<open>Regex::new\<close>, with the text of its error, and \<open>is_match\<close>.\<close>

record 're regex_lib =
  rx_compile :: "string \<Rightarrow> string + 're"
  rx_is_match :: "'re \<Rightarrow> string \<Rightarrow> bool"

end
