(* ===== verification/Adversary_Scan.thy ===== *)
theory Adversary_Scan
  imports Adversary_Verdict Starlark_Json Std_Fs
begin

text \<open>
  The content scanner (\<open>crates/adversary-detector/src/scanner.rs\<close>): its configuration, the
  regex and base64 functions it gives to policies, the cache of parsed policies, and the
  pipeline of checks.

  The regex engine, the base64 decoder, the Starlark parser and evaluator, the file system and
  the HTTP service are arguments.  A 64-bit float of the configuration is its decimal text.
\<close>

section \<open>Configuration\<close>

datatype scanner_check =
    RemoteHttp string bool
  | StarlarkCheck string bool nat

definition default_starlark_max_callstack :: nat where
  "default_starlark_max_callstack = 64"

record raw_scanner_check =
  rk_kind :: string
  rk_url :: "string option"
  rk_path :: "string option"
  rk_fail_closed :: bool
  rk_max_callstack :: "nat option"

datatype check_config_error =
    MissingField string
  | RemovedKind string
  | UnknownVariant string

definition scanner_check_from_raw :: "raw_scanner_check \<Rightarrow> check_config_error + scanner_check" where
  "scanner_check_from_raw raw =
     (if rk_kind raw = ''remote_http''
      then (case rk_url raw of
              None \<Rightarrow> Inl (MissingField ''url'')
            | Some url \<Rightarrow> Inr (RemoteHttp url (rk_fail_closed raw)))
      else if rk_kind raw = ''starlark''
      then (case rk_path raw of
              None \<Rightarrow> Inl (MissingField ''path'')
            | Some path \<Rightarrow>
                Inr (StarlarkCheck path (rk_fail_closed raw)
                  (case rk_max_callstack raw of
                     Some n \<Rightarrow> n | None \<Rightarrow> default_starlark_max_callstack)))
      else if rk_kind raw \<in> {''structural'', ''semantic'', ''regex'', ''keywords'', ''max_size''}
      then Inl (RemovedKind (rk_kind raw))
      else Inl (UnknownVariant (rk_kind raw)))"

record scanner_config =
  sc_checks :: "scanner_check list"
  sc_discussion_ratio :: string
  sc_min_signals :: nat
  sc_digest_store_path :: "string option"
  sc_override_on_review :: bool
  sc_skip_domains :: "string list"
  sc_digest_ttl :: u64

definition default_scanner_config :: scanner_config where
  "default_scanner_config =
     \<lparr>sc_checks = [], sc_discussion_ratio = ''0.3'', sc_min_signals = 1,
      sc_digest_store_path = None, sc_override_on_review = False, sc_skip_domains = [],
      sc_digest_ttl = 0\<rparr>"

definition BUILTIN_DEFAULT_SCANNER_PATH :: string where
  "BUILTIN_DEFAULT_SCANNER_PATH = ''builtin:calciforge/default-scanner.star''"

definition default_checks :: "scanner_check list" where
  "default_checks =
     [StarlarkCheck BUILTIN_DEFAULT_SCANNER_PATH True default_starlark_max_callstack]"

definition configured_checks :: "scanner_config \<Rightarrow> scanner_check list" where
  "configured_checks cfg = (if sc_checks cfg = [] then default_checks else sc_checks cfg)"

section \<open>Hosts\<close>

text \<open>\<open>extract_host\<close> (\<open>lib.rs\<close>): the first of the searches that finds something gives the end.\<close>

definition extract_host :: "string \<Rightarrow> string" where
  "extract_host url =
     (case or_else (strip_prefix ''https://'' url) (strip_prefix ''http://'' url) of
        None \<Rightarrow> []
      | Some rest \<Rightarrow>
          (case or_else (str_find '':'' rest) (or_else (str_find ''/'' rest) (str_find ''?'' rest)) of
             Some i \<Rightarrow> take i rest
           | None \<Rightarrow> rest))"

definition is_skip_protected :: "scanner_config \<Rightarrow> string \<Rightarrow> bool" where
  "is_skip_protected cfg url \<longleftrightarrow>
     sc_skip_domains cfg \<noteq> [] \<and> extract_host url \<noteq> [] \<and>
     list_ex (\<lambda>pattern1.
       case strip_prefix ''*.'' pattern1 of
         Some suff \<Rightarrow> extract_host url = suff \<or> suffix (''.'' @ suff) (extract_host url)
       | None \<Rightarrow> extract_host url = pattern1) (sc_skip_domains cfg)"

section \<open>Functions for policies\<close>

type_synonym 're regex_cache = "(string \<times> (string + 're)) list"

definition STARLARK_REGEX_CACHE_MAX_ENTRIES :: nat where
  "STARLARK_REGEX_CACHE_MAX_ENTRIES = 256"

definition cached_match :: "'re regex_lib \<Rightarrow> string \<Rightarrow> string \<Rightarrow> string + 're \<Rightarrow> string + bool" where
  "cached_match lib pattern1 content c =
     (case c of
        Inl err \<Rightarrow> Inl (''invalid regex '' @ [CHR 0x27] @ pattern1 @ [CHR 0x27] @ '': '' @ err)
      | Inr re \<Rightarrow> Inr (rx_is_match lib re content))"

text \<open>\<open>others\<close> is what other threads do to the cache between the two locks.\<close>

definition starlark_regex_match ::
  "'re regex_lib \<Rightarrow> ('re regex_cache \<Rightarrow> 're regex_cache) \<Rightarrow> string \<Rightarrow> string \<Rightarrow>
   ('re regex_cache \<Rightarrow> (string + bool) \<times> 're regex_cache)" where
  "starlark_regex_match lib others pattern1 content cache =
     (case map_of cache pattern1 of
        Some c \<Rightarrow> (cached_match lib pattern1 content c, cache)
      | None \<Rightarrow>
          (let compiled = rx_compile lib pattern1; cache1 = others cache in
           case map_of cache1 pattern1 of
             Some c \<Rightarrow> (cached_match lib pattern1 content c, cache1)
           | None \<Rightarrow>
               (cached_match lib pattern1 content compiled,
                if length cache1 < STARLARK_REGEX_CACHE_MAX_ENTRIES
                then (pattern1, compiled) # cache1 else cache1)))"

text \<open>
  The matches of \<open>[A-Za-z0-9+/_-]{16,}={0,2}\<close> from left to right: a greedy match takes the whole
  run of bytes of the class.
\<close>

definition base64_byte :: "char \<Rightarrow> bool" where
  "base64_byte c \<longleftrightarrow> ascii_alnum c \<or> c \<in> set ''+/_-''"

lemma dropWhile_shorter: "P c \<Longrightarrow> length (dropWhile P (c # s)) < Suc (length s)"
  using length_dropWhile_le [of P s] by simp

function base64_candidates :: "string \<Rightarrow> string list" where
  "base64_candidates [] = []"
| "base64_candidates (c # s) =
     (if \<not> base64_byte c then base64_candidates s
      else (let token1 = takeWhile base64_byte (c # s);
                rest = dropWhile base64_byte (c # s);
                pad = take 2 (takeWhile (\<lambda>d. d = CHR ''='') rest) in
            if 16 \<le> length token1 then (token1 @ pad) # base64_candidates (drop (length pad) rest)
            else base64_candidates rest))"
  by pat_completeness auto
termination
proof (relation "measure length")
  fix c s x xa xb
  assume "\<not> \<not> base64_byte c" "xa = dropWhile base64_byte (c # s)"
  with dropWhile_shorter [of base64_byte c s]
  show "(drop (length xb) xa, c # s) \<in> measure length" "(xa, c # s) \<in> measure length" by simp_all
qed auto

definition BASE64_DECODE_MAX_CANDIDATES :: nat where
  "BASE64_DECODE_MAX_CANDIDATES = 32"

definition BASE64_DECODE_MAX_CHARS :: nat where
  "BASE64_DECODE_MAX_CHARS = 8192"

text \<open>\<open>decode url_safe\<close> is one of the two engines.\<close>

definition decode_base64_candidate :: "(bool \<Rightarrow> string \<Rightarrow> string option) \<Rightarrow> string \<Rightarrow> string list" where
  "decode_base64_candidate decode encoded =
     (let remainder = length encoded mod 4;
          padded = encoded @ (if remainder \<noteq> 0 then replicate (4 - remainder) (CHR ''='') else []);
          first = (case decode False padded of Some b \<Rightarrow> [b] | None \<Rightarrow> []) in
      case decode True padded of
        Some b \<Rightarrow> if b \<in> set first then first else first @ [b]
      | None \<Rightarrow> first)"

fun match_any ::
  "(string \<Rightarrow> 'c \<Rightarrow> (string + bool) \<times> 'c) \<Rightarrow> string list \<Rightarrow> 'c \<Rightarrow> (string + bool) \<times> 'c" where
  "match_any m [] cache = (Inr False, cache)"
| "match_any m (d # ds) cache =
     (case m d cache of
        (Inr False, cache') \<Rightarrow> match_any m ds cache'
      | (r, cache') \<Rightarrow> (r, cache'))"

definition starlark_base64_decoded_regex_match ::
  "'re regex_lib \<Rightarrow> ('re regex_cache \<Rightarrow> 're regex_cache) \<Rightarrow> (bool \<Rightarrow> string \<Rightarrow> string option) \<Rightarrow>
   (string \<Rightarrow> bool) \<Rightarrow> string \<Rightarrow> string \<Rightarrow> 're regex_cache \<Rightarrow> (string + bool) \<times> 're regex_cache" where
  "starlark_base64_decoded_regex_match lib others decode utf8 pattern1 content cache =
     match_any (\<lambda>d. starlark_regex_match lib others pattern1 d)
       (filter utf8 (concat (map (decode_base64_candidate decode)
         (filter (\<lambda>e. length e \<le> BASE64_DECODE_MAX_CHARS)
           (take BASE64_DECODE_MAX_CANDIDATES (base64_candidates content))))))
       cache"

section \<open>Starlark policies\<close>

record 'ast star_world =
  st_home :: "string option"
  st_builtin :: string
  st_stat :: "string \<Rightarrow> string + (nat option \<times> nat)"
  st_read :: "string \<Rightarrow> string + string"
  st_parse :: "string \<Rightarrow> string \<Rightarrow> string + 'ast"
  st_run :: "'ast \<Rightarrow> nat \<Rightarrow> star_value \<Rightarrow> star_run"
  st_i64 :: "string \<Rightarrow> int option"
  st_f64 :: "string \<Rightarrow> string option"

record 'ast cached_policy =
  cp_modified :: "nat option"
  cp_len :: nat
  cp_ast :: 'ast

type_synonym 'ast policy_cache = "string \<rightharpoonup> 'ast cached_policy"

definition cached_ast ::
  "'ast policy_cache \<Rightarrow> string \<Rightarrow> nat option \<Rightarrow> nat \<Rightarrow> 'ast option" where
  "cached_ast cache path modified len =
     (case cache path of
        Some c \<Rightarrow> if cp_modified c = modified \<and> cp_len c = len then Some (cp_ast c) else None
      | None \<Rightarrow> None)"

definition load_starlark_source ::
  "'ast star_world \<Rightarrow> string \<Rightarrow> string \<Rightarrow> nat option \<Rightarrow> nat \<Rightarrow> 'ast policy_cache \<Rightarrow>
   (string + 'ast) \<times> 'ast policy_cache" where
  "load_starlark_source w path source modified len cache =
     (case cached_ast cache path modified len of
        Some ast \<Rightarrow> (Inr ast, cache)
      | None \<Rightarrow>
          (case st_parse w path source of
             Inl err \<Rightarrow> (Inl (''parse error: '' @ err), cache)
           | Inr ast \<Rightarrow>
               (Inr ast, cache(path \<mapsto> \<lparr>cp_modified = modified, cp_len = len, cp_ast = ast\<rparr>))))"

definition load_starlark_ast ::
  "'ast star_world \<Rightarrow> string \<Rightarrow> 'ast policy_cache \<Rightarrow> (string + 'ast) \<times> 'ast policy_cache" where
  "load_starlark_ast w path cache =
     (if path = BUILTIN_DEFAULT_SCANNER_PATH
      then load_starlark_source w path (st_builtin w) None (length (st_builtin w)) cache
      else (case st_stat w path of
        Inl err \<Rightarrow> (Inl (''failed to stat '' @ path @ '': '' @ err), cache)
      | Inr (modified, len) \<Rightarrow>
          (case cached_ast cache path modified len of
             Some ast \<Rightarrow> (Inr ast, cache)
           | None \<Rightarrow>
               (case st_read w path of
                  Inl err \<Rightarrow> (Inl (''failed to read '' @ path @ '': '' @ err), cache)
                | Inr source \<Rightarrow> load_starlark_source w path source modified len cache))))"

definition starlark_verdict_from_parts ::
  "string \<Rightarrow> string option \<Rightarrow> string + scan_verdict" where
  "starlark_verdict_from_parts verdict reason =
     (if verdict = ''clean'' then Inr Clean
      else if verdict = ''review''
      then Inr (Review (case reason of Some r \<Rightarrow> r | None \<Rightarrow> ''starlark policy requested review''))
      else if verdict = ''unsafe''
      then Inr (Unsafe (case reason of Some r \<Rightarrow> r | None \<Rightarrow> ''starlark policy blocked content''))
      else Inl (''invalid starlark verdict '' @ [CHR 0x27] @ verdict @ [CHR 0x27] @
                '', expected clean/review/unsafe''))"

definition parse_starlark_verdict :: "star_result \<Rightarrow> string + scan_verdict" where
  "parse_starlark_verdict r =
     (case r of
        ResultStr s \<Rightarrow> starlark_verdict_from_parts s None
      | ResultOpaque err \<Rightarrow> Inl (''result must be a verdict string or JSON-like dict: '' @ err)
      | ResultJson j \<Rightarrow>
          (case get_str ''verdict'' j of
             None \<Rightarrow>
               Inl (''result dict must include string field '' @ [CHR 0x27] @ ''verdict'' @ [CHR 0x27])
           | Some verdict \<Rightarrow> starlark_verdict_from_parts verdict (get_str ''reason'' j)))"

definition expand_tilde :: "string option \<Rightarrow> string \<Rightarrow> string" where
  "expand_tilde home path =
     (case (strip_prefix ''~/'' path, home) of
        (Some rest, Some h) \<Rightarrow> path_join h rest
      | _ \<Rightarrow> path)"

definition scan_input :: "scanner_config \<Rightarrow> string \<Rightarrow> string \<Rightarrow> scan_context \<Rightarrow> json" where
  "scan_input cfg url content ctx =
     JObj [(''url'', JStr url), (''content'', JStr content), (''context'', JStr (context_str ctx)),
           (''discussion_ratio_threshold'', JNum (sc_discussion_ratio cfg)),
           (''min_signals_for_ratio'', JNum (show_nat (sc_min_signals cfg)))]"

definition run_verdict :: "star_run \<Rightarrow> string + scan_verdict" where
  "run_verdict r =
     (case r of
        CallstackFailed err \<Rightarrow> Inl (''failed to set callstack limit: '' @ err)
      | ModuleFailed err \<Rightarrow> Inl (''module evaluation error: '' @ err)
      | FunctionMissing \<Rightarrow> Inl ''policy must define scan(input)''
      | FunctionFailed err \<Rightarrow> Inl (''scan(input) failed: '' @ err)
      | FunctionReturned v \<Rightarrow> parse_starlark_verdict v)"

definition evaluate_starlark_check ::
  "'ast star_world \<Rightarrow> scanner_config \<Rightarrow> string \<Rightarrow> string \<Rightarrow> string \<Rightarrow> scan_context \<Rightarrow> nat \<Rightarrow>
   'ast policy_cache \<Rightarrow> (string + scan_verdict) \<times> 'ast policy_cache" where
  "evaluate_starlark_check w cfg path url content ctx max_callstack cache =
     (case load_starlark_ast w (expand_tilde (st_home w) path) cache of
        (Inl err, cache') \<Rightarrow> (Inl err, cache')
      | (Inr ast, cache') \<Rightarrow>
          (run_verdict (st_run w ast (max max_callstack 1)
             (json_to_starlark (st_i64 w) (st_f64 w) (scan_input cfg url content ctx))), cache'))"

section \<open>The pipeline\<close>

text \<open>
  The HTTP service is given the endpoint and the three fields of the request; \<open>None\<close> is a
  failed request or an unreadable answer.
\<close>

record 'ast scan_world =
  sw_star :: "'ast star_world"
  sw_remote :: "string \<Rightarrow> string \<times> string \<times> string \<Rightarrow> (string \<times> string option) option"

definition remote_http_check ::
  "'ast scan_world \<Rightarrow> string \<Rightarrow> string \<Rightarrow> string \<Rightarrow> scan_context \<Rightarrow> bool \<Rightarrow> scan_verdict option" where
  "remote_http_check w svc_url url content ctx fail_closed =
     (case sw_remote w (trim_end_matches (CHR ''/'') svc_url @ ''/scan'')
             (url, content, context_str ctx) of
        None \<Rightarrow> if fail_closed then Some (Unsafe ''remote security check unavailable'') else None
      | Some (verdict, reason) \<Rightarrow>
          Some (if verdict = ''clean'' then Clean
                else if verdict = ''review''
                then Review (case reason of Some r \<Rightarrow> r | None \<Rightarrow> ''remote review'')
                else Unsafe (case reason of Some r \<Rightarrow> r | None \<Rightarrow> ''remote unsafe'')))"

definition starlark_check ::
  "'ast scan_world \<Rightarrow> scanner_config \<Rightarrow> string \<Rightarrow> string \<Rightarrow> string \<Rightarrow> scan_context \<Rightarrow> bool \<Rightarrow> nat \<Rightarrow>
   'ast policy_cache \<Rightarrow> scan_verdict option \<times> 'ast policy_cache" where
  "starlark_check w cfg path url content ctx fail_closed max_callstack cache =
     (case evaluate_starlark_check (sw_star w) cfg path url content ctx max_callstack cache of
        (Inr verdict, cache') \<Rightarrow> (Some verdict, cache')
      | (Inl err, cache') \<Rightarrow>
          (if fail_closed then Some (Unsafe (''starlark security check failed: '' @ err)) else None,
           cache'))"

record scan_subject =
  ss_url :: string
  ss_content :: string
  ss_remote_url :: string
  ss_remote_content :: string
  ss_context :: scan_context

definition run_scan_check ::
  "'ast scan_world \<Rightarrow> scanner_config \<Rightarrow> scan_subject \<Rightarrow> scanner_check \<Rightarrow> 'ast policy_cache \<Rightarrow>
   scan_verdict option \<times> 'ast policy_cache" where
  "run_scan_check w cfg subj check cache =
     (case check of
        RemoteHttp svc fail_closed \<Rightarrow>
          (remote_http_check w svc (ss_remote_url subj) (ss_remote_content subj) (ss_context subj)
             fail_closed, cache)
      | StarlarkCheck path fail_closed max_callstack \<Rightarrow>
          starlark_check w cfg path (ss_url subj) (ss_content subj) (ss_context subj) fail_closed
            max_callstack cache)"

text \<open>The loop over the checks; \<open>review\<close> is the first review verdict so far.\<close>

fun scan_loop ::
  "'ast scan_world \<Rightarrow> scanner_config \<Rightarrow> scan_subject \<Rightarrow> scan_verdict option \<Rightarrow> scanner_check list \<Rightarrow>
   'ast policy_cache \<Rightarrow> scan_verdict \<times> 'ast policy_cache" where
  "scan_loop w cfg subj review [] cache =
     ((case review of Some v \<Rightarrow> v | None \<Rightarrow> Clean), cache)"
| "scan_loop w cfg subj review (check # checks) cache =
     (case run_scan_check w cfg subj check cache of
        (Some (Unsafe reason), cache') \<Rightarrow> (Unsafe reason, cache')
      | (Some (Review reason), cache') \<Rightarrow>
          scan_loop w cfg subj (if review = None then Some (Review reason) else review) checks cache'
      | (_, cache') \<Rightarrow> scan_loop w cfg subj review checks cache')"

definition scan_with_remote_payload ::
  "'ast scan_world \<Rightarrow> scanner_config \<Rightarrow> scan_subject \<Rightarrow> 'ast policy_cache \<Rightarrow>
   scan_verdict \<times> 'ast policy_cache" where
  "scan_with_remote_payload w cfg subj cache =
     scan_loop w cfg subj None (configured_checks cfg) cache"

definition adversary_scan ::
  "'ast scan_world \<Rightarrow> scanner_config \<Rightarrow> string \<Rightarrow> string \<Rightarrow> scan_context \<Rightarrow> 'ast policy_cache \<Rightarrow>
   scan_verdict \<times> 'ast policy_cache" where
  "adversary_scan w cfg url content ctx cache =
     scan_with_remote_payload w cfg
       \<lparr>ss_url = url, ss_content = content, ss_remote_url = url, ss_remote_content = content,
        ss_context = ctx\<rparr> cache"

section \<open>The cache of policies\<close>

text \<open>The policy file read and parsed without a cache.\<close>

definition direct_ast :: "'ast star_world \<Rightarrow> string \<Rightarrow> string + 'ast" where
  "direct_ast w path =
     (if path = BUILTIN_DEFAULT_SCANNER_PATH
      then map_sum (\<lambda>err. ''parse error: '' @ err) id (st_parse w path (st_builtin w))
      else (case st_stat w path of
        Inl err \<Rightarrow> Inl (''failed to stat '' @ path @ '': '' @ err)
      | Inr _ \<Rightarrow>
          (case st_read w path of
             Inl err \<Rightarrow> Inl (''failed to read '' @ path @ '': '' @ err)
           | Inr source \<Rightarrow> map_sum (\<lambda>err. ''parse error: '' @ err) id (st_parse w path source))))"

text \<open>
  A cache is good for a world when an entry whose stamp is that of the file now is the parse of
  the file now.
\<close>

definition policy_cache_ok :: "'ast star_world \<Rightarrow> 'ast policy_cache \<Rightarrow> bool" where
  "policy_cache_ok w cache \<longleftrightarrow>
     (\<forall>path c. cache path = Some c \<longrightarrow>
        (if path = BUILTIN_DEFAULT_SCANNER_PATH
         then cp_modified c = None \<and> cp_len c = length (st_builtin w) \<longrightarrow>
           st_parse w path (st_builtin w) = Inr (cp_ast c)
         else st_stat w path = Inr (cp_modified c, cp_len c) \<longrightarrow>
           (\<exists>source. st_read w path = Inr source \<and> st_parse w path source = Inr (cp_ast c))))"

lemma policy_cache_ok_empty: "policy_cache_ok w Map.empty"
  by (simp add: policy_cache_ok_def)

lemma cached_ast_Some:
  "cached_ast cache path m n = Some ast \<longleftrightarrow>
   cache path = Some \<lparr>cp_modified = m, cp_len = n, cp_ast = ast\<rparr>"
  by (cases "cache path"; cases "the (cache path)") (auto simp: cached_ast_def split: if_splits)

lemma policy_cache_ok_upd:
  assumes "policy_cache_ok w cache"
    and "path = BUILTIN_DEFAULT_SCANNER_PATH \<Longrightarrow> st_parse w path (st_builtin w) = Inr ast"
    and "path \<noteq> BUILTIN_DEFAULT_SCANNER_PATH \<Longrightarrow>
      \<exists>source. st_read w path = Inr source \<and> st_parse w path source = Inr ast"
  shows "policy_cache_ok w (cache(path \<mapsto> \<lparr>cp_modified = m, cp_len = n, cp_ast = ast\<rparr>))"
  using assms unfolding policy_cache_ok_def by auto

lemma load_starlark_ast_direct:
  assumes "policy_cache_ok w cache" "load_starlark_ast w path cache = (r, cache')"
  shows "r = direct_ast w path \<and> policy_cache_ok w cache'"
proof (cases "path = BUILTIN_DEFAULT_SCANNER_PATH")
  case True
  show ?thesis
  proof (cases "cached_ast cache path None (length (st_builtin w))")
    case None
    show ?thesis
    proof (cases "st_parse w path (st_builtin w)")
      case (Inl err)
      with assms True None show ?thesis
        by (auto simp: load_starlark_ast_def load_starlark_source_def direct_ast_def)
    next
      case (Inr ast)
      with assms True None have "r = Inr ast"
        "cache' = cache(path \<mapsto> \<lparr>cp_modified = None, cp_len = length (st_builtin w), cp_ast = ast\<rparr>)"
        by (auto simp: load_starlark_ast_def load_starlark_source_def)
      moreover have "direct_ast w path = Inr ast" using True Inr by (simp add: direct_ast_def)
      ultimately show ?thesis using policy_cache_ok_upd [OF assms(1)] True Inr by auto
    qed
  next
    case (Some ast)
    then have "st_parse w path (st_builtin w) = Inr ast"
      using assms(1) True unfolding policy_cache_ok_def cached_ast_Some by fastforce
    with True have "direct_ast w path = Inr ast" by (simp add: direct_ast_def)
    moreover from assms True Some have "r = Inr ast" "cache' = cache"
      by (simp_all add: load_starlark_ast_def load_starlark_source_def)
    ultimately show ?thesis using assms(1) by simp
  qed
next
  case False
  show ?thesis
  proof (cases "st_stat w path")
    case (Inl err)
    with assms False show ?thesis by (auto simp: load_starlark_ast_def direct_ast_def)
  next
    case (Inr st)
    obtain m n where st: "st = (m, n)" by fastforce
    show ?thesis
    proof (cases "cached_ast cache path m n")
      case None
      show ?thesis
      proof (cases "st_read w path")
        case (Inl err)
        with assms False Inr st None show ?thesis
          by (auto simp: load_starlark_ast_def direct_ast_def)
      next
        case (Inr source)
        note rd = this
        show ?thesis
        proof (cases "st_parse w path source")
          case (Inl err)
          with assms False \<open>st_stat w path = Inr st\<close> st None rd show ?thesis
            by (auto simp: load_starlark_ast_def load_starlark_source_def direct_ast_def)
        next
          case (Inr ast)
          with assms False \<open>st_stat w path = Inr st\<close> st None rd have "r = Inr ast"
            "cache' = cache(path \<mapsto> \<lparr>cp_modified = m, cp_len = n, cp_ast = ast\<rparr>)"
            by (auto simp: load_starlark_ast_def load_starlark_source_def)
          moreover have "direct_ast w path = Inr ast"
            using False Inr rd \<open>st_stat w path = Inr st\<close> by (simp add: direct_ast_def)
          ultimately show ?thesis using policy_cache_ok_upd [OF assms(1)] False Inr rd by auto
        qed
      qed
    next
      case (Some ast)
      then obtain source where "st_read w path = Inr source" "st_parse w path source = Inr ast"
        using assms(1) False Inr st unfolding policy_cache_ok_def cached_ast_Some by fastforce
      with False Inr have "direct_ast w path = Inr ast" by (simp add: direct_ast_def)
      moreover from assms False Inr st Some have "r = Inr ast" "cache' = cache"
        by (simp_all add: load_starlark_ast_def)
      ultimately show ?thesis using assms(1) by simp
    qed
  qed
qed

text \<open>The regex cache does not change an answer.\<close>

definition regex_cache_ok :: "'re regex_lib \<Rightarrow> 're regex_cache \<Rightarrow> bool" where
  "regex_cache_ok lib cache \<longleftrightarrow> (\<forall>p c. map_of cache p = Some c \<longrightarrow> c = rx_compile lib p)"

lemma starlark_regex_match_direct:
  assumes "regex_cache_ok lib cache" "regex_cache_ok lib (others cache)"
    and "starlark_regex_match lib others pattern1 content cache = (r, cache')"
  shows "r = cached_match lib pattern1 content (rx_compile lib pattern1) \<and> regex_cache_ok lib cache'"
  using assms
  by (auto simp: starlark_regex_match_def regex_cache_ok_def Let_def split: option.splits if_splits)

section \<open>What a scan says\<close>

text \<open>The answer of one check without the cache.\<close>

definition starlark_outcome ::
  "'ast scan_world \<Rightarrow> scanner_config \<Rightarrow> scan_subject \<Rightarrow> string \<Rightarrow> nat \<Rightarrow> string + scan_verdict" where
  "starlark_outcome w cfg subj path max_callstack =
     res_bind (direct_ast (sw_star w) (expand_tilde (st_home (sw_star w)) path)) (\<lambda>ast.
       run_verdict (st_run (sw_star w) ast (max max_callstack 1)
         (json_to_starlark (st_i64 (sw_star w)) (st_f64 (sw_star w))
           (scan_input cfg (ss_url subj) (ss_content subj) (ss_context subj)))))"

definition check_answer ::
  "'ast scan_world \<Rightarrow> scanner_config \<Rightarrow> scan_subject \<Rightarrow> scanner_check \<Rightarrow> scan_verdict option" where
  "check_answer w cfg subj check =
     (case check of
        RemoteHttp svc fail_closed \<Rightarrow>
          remote_http_check w svc (ss_remote_url subj) (ss_remote_content subj) (ss_context subj)
            fail_closed
      | StarlarkCheck path fail_closed n \<Rightarrow>
          (case starlark_outcome w cfg subj path n of
             Inr verdict \<Rightarrow> Some verdict
           | Inl err \<Rightarrow>
               if fail_closed then Some (Unsafe (''starlark security check failed: '' @ err)) else None))"

lemma run_scan_check_answer:
  assumes "policy_cache_ok (sw_star w) cache" "run_scan_check w cfg subj check cache = (a, cache')"
  shows "a = check_answer w cfg subj check \<and> policy_cache_ok (sw_star w) cache'"
proof (cases check)
  case (RemoteHttp svc fc)
  with assms show ?thesis by (simp add: run_scan_check_def check_answer_def)
next
  case (StarlarkCheck path fc n)
  obtain r cache1 where l:
    "load_starlark_ast (sw_star w) (expand_tilde (st_home (sw_star w)) path) cache = (r, cache1)"
    by fastforce
  from load_starlark_ast_direct [OF assms(1) l] assms(2) l StarlarkCheck show ?thesis
    by (cases r)
      (auto simp: run_scan_check_def starlark_check_def evaluate_starlark_check_def
        check_answer_def starlark_outcome_def split: sum.splits)
qed

fun first_of :: "(scan_verdict \<Rightarrow> bool) \<Rightarrow> scan_verdict option list \<Rightarrow> scan_verdict option" where
  "first_of P [] = None"
| "first_of P (None # answers) = first_of P answers"
| "first_of P (Some v # answers) = (if P v then Some v else first_of P answers)"

definition scan_meaning :: "scan_verdict option list \<Rightarrow> scan_verdict" where
  "scan_meaning answers =
     (case first_of is_unsafe answers of
        Some v \<Rightarrow> v
      | None \<Rightarrow> (case first_of is_review answers of Some v \<Rightarrow> v | None \<Rightarrow> Clean))"

lemma scan_meaning_None: "scan_meaning (None # answers) = scan_meaning answers"
  by (simp add: scan_meaning_def split: option.split)

lemma scan_loop_meaning:
  assumes "policy_cache_ok (sw_star w) cache" "scan_loop w cfg subj review checks cache = (v, cache')"
    and "\<forall>r. review = Some r \<longrightarrow> is_review r"
  shows "v = scan_meaning (review # map (check_answer w cfg subj) checks) \<and>
    policy_cache_ok (sw_star w) cache'"
  using assms
proof (induction checks arbitrary: review cache)
  case Nil
  then show ?case
    by (auto simp: scan_meaning_def split: option.splits elim: is_review.elims)
next
  case (Cons check checks)
  obtain a cache1 where a: "run_scan_check w cfg subj check cache = (a, cache1)" by fastforce
  from run_scan_check_answer [OF Cons.prems(1) a]
  have ca: "check_answer w cfg subj check = a" "policy_cache_ok (sw_star w) cache1" by simp_all
  have ru: "review = Some x \<Longrightarrow> \<not> is_unsafe x \<and> is_review x" for x
    using Cons.prems(3) by (cases x) auto
  consider (unsafe) reason where "a = Some (Unsafe reason)"
    | (review) reason where "a = Some (Review reason)"
    | (next1) "a = None \<or> a = Some Clean"
    by (metis option.exhaust scan_verdict.exhaust)
  then show ?case
  proof cases
    case unsafe
    with Cons.prems(2) a ca ru show ?thesis
      by (cases review) (auto simp: scan_meaning_def split: option.split)
  next
    case review
    with Cons.prems(2) a
    have "scan_loop w cfg subj (if review = None then Some (Review reason) else review) checks cache1
        = (v, cache')" by simp
    from Cons.IH [OF ca(2) this] Cons.prems(3)
    have "v = scan_meaning ((if review = None then Some (Review reason) else review) #
        map (check_answer w cfg subj) checks)" "policy_cache_ok (sw_star w) cache'" by auto
    with review ca(1) ru show ?thesis
      by (cases review) (auto simp: scan_meaning_def split: if_splits option.split)
  next
    case next1
    with Cons.prems(2) a have "scan_loop w cfg subj review checks cache1 = (v, cache')" by auto
    from Cons.IH [OF ca(2) this Cons.prems(3)] next1 ca(1) show ?thesis
      by (cases review) (auto simp: scan_meaning_def split: option.split)
  qed
qed

lemma scan_has_meaning:
  assumes "policy_cache_ok (sw_star w) cache"
    and "scan_with_remote_payload w cfg subj cache = (v, cache')"
  shows "v = scan_meaning (map (check_answer w cfg subj) (configured_checks cfg)) \<and>
    policy_cache_ok (sw_star w) cache'"
  using scan_loop_meaning [OF assms(1) assms(2) [unfolded scan_with_remote_payload_def]]
  by (simp add: scan_meaning_None)

text \<open>
  C25: The loop over the checks, which stops early and keeps a cache of parsed policies, computes
  the meaning of the configuration: the first \<open>unsafe\<close> answer of a check, else the first
  \<open>review\<close>, else \<open>clean\<close>, where each check is answered without a cache; and the cache stays
  good.
\<close>

theorem scan_equals_meaning:
  assumes "policy_cache_ok (sw_star w) cache"
    and "scan_with_remote_payload w cfg subj cache = (v, cache')"
  shows "v = scan_meaning (map (check_answer w cfg subj) (configured_checks cfg)) \<and>
    policy_cache_ok (sw_star w) cache'"
  by (rule scan_has_meaning [OF assms])

lemma first_of_Some: "first_of P answers = Some v \<Longrightarrow> P v \<and> Some v \<in> set answers"
  by (induction P answers rule: first_of.induct) (auto split: if_splits)

lemma first_of_None: "first_of P answers = None \<longleftrightarrow> (\<forall>v. Some v \<in> set answers \<longrightarrow> \<not> P v)"
  by (induction P answers rule: first_of.induct) auto

lemma scan_meaning_unsafe: "Some v \<in> set answers \<Longrightarrow> is_unsafe v \<Longrightarrow> is_unsafe (scan_meaning answers)"
  using first_of_None [of is_unsafe answers]
  by (auto simp: scan_meaning_def split: option.splits dest: first_of_Some)

lemma configured_checks_nonempty: "configured_checks cfg \<noteq> []"
  by (simp add: configured_checks_def default_checks_def)

definition closed_check_fails ::
  "'ast scan_world \<Rightarrow> scanner_config \<Rightarrow> scan_subject \<Rightarrow> scanner_check \<Rightarrow> bool" where
  "closed_check_fails w cfg subj check =
     (case check of
        RemoteHttp svc fail_closed \<Rightarrow>
          fail_closed \<and>
          sw_remote w (trim_end_matches (CHR ''/'') svc @ ''/scan'')
            (ss_remote_url subj, ss_remote_content subj, context_str (ss_context subj)) = None
      | StarlarkCheck path fail_closed n \<Rightarrow>
          fail_closed \<and> \<not> is_ok (starlark_outcome w cfg subj path n))"

text \<open>
  C17: A scan fails closed: when any configured check with \<open>fail_closed\<close> cannot be carried out
  (the service does not answer, or the policy cannot be read, parsed or run, or its result is
  not a verdict), the verdict is \<open>unsafe\<close>, whatever the other checks say; the built-in policy
  that an empty configuration stands for is such a check.
\<close>

theorem scan_fails_closed:
  assumes "policy_cache_ok (sw_star w) cache"
    and "scan_with_remote_payload w cfg subj cache = (v, cache')"
    and "check \<in> set (configured_checks cfg)" "closed_check_fails w cfg subj check"
  shows "is_unsafe v"
proof -
  obtain reason where "check_answer w cfg subj check = Some (Unsafe reason)"
    using assms(4)
    by (cases check) (auto simp: closed_check_fails_def check_answer_def remote_http_check_def is_ok_def
        split: sum.splits)
  then have "Some (Unsafe reason) \<in> set (map (check_answer w cfg subj) (configured_checks cfg))"
    using assms(3) by force
  from scan_meaning_unsafe [OF this] scan_has_meaning [OF assms(1,2)] show ?thesis by simp
qed

lemma empty_config_fails_closed:
  "sc_checks cfg = [] \<Longrightarrow>
   configured_checks cfg = [StarlarkCheck BUILTIN_DEFAULT_SCANNER_PATH True 64]"
  by (simp add: configured_checks_def default_checks_def default_starlark_max_callstack_def)

definition demo_star :: "star_run \<Rightarrow> unit star_world" where
  "demo_star result =
     \<lparr>st_home = None, st_builtin = [], st_stat = (\<lambda>_. Inl []), st_read = (\<lambda>_. Inl []),
      st_parse = (\<lambda>_ _. Inr ()), st_run = (\<lambda>_ _ _. result), st_i64 = (\<lambda>_. None),
      st_f64 = (\<lambda>_. None)\<rparr>"

definition demo_scan_world :: "star_run \<Rightarrow> unit scan_world" where
  "demo_scan_world result = \<lparr>sw_star = demo_star result, sw_remote = (\<lambda>_ _. Some (''clean'', None))\<rparr>"

definition demo_subject :: scan_subject where
  "demo_subject =
     \<lparr>ss_url = ''http://a'', ss_content = ''x'', ss_remote_url = ''http://a'',
      ss_remote_content = ''x'', ss_context = WebFetch\<rparr>"

lemma demo_scan:
  "scan_with_remote_payload (demo_scan_world r) default_scanner_config demo_subject Map.empty =
     ((case run_verdict r of Inl err \<Rightarrow> Unsafe (''starlark security check failed: '' @ err) | Inr v \<Rightarrow> v),
      [BUILTIN_DEFAULT_SCANNER_PATH \<mapsto> \<lparr>cp_modified = None, cp_len = 0, cp_ast = ()\<rparr>])"
proof -
  have e: "expand_tilde None BUILTIN_DEFAULT_SCANNER_PATH = BUILTIN_DEFAULT_SCANNER_PATH"
    by (simp add: expand_tilde_def split: option.split)
  have l: "load_starlark_ast (demo_star r) BUILTIN_DEFAULT_SCANNER_PATH Map.empty =
      (Inr (), [BUILTIN_DEFAULT_SCANNER_PATH \<mapsto> \<lparr>cp_modified = None, cp_len = 0, cp_ast = ()\<rparr>])"
    by (simp add: load_starlark_ast_def load_starlark_source_def cached_ast_def demo_star_def)
  have "st_home (demo_star r) = None" "st_run (demo_star r) = (\<lambda>_ _ _. r)"
    by (simp_all add: demo_star_def)
  with e l show ?thesis
    by (cases "run_verdict r"; cases "projr (run_verdict r)")
      (auto simp: scan_with_remote_payload_def configured_checks_def default_scanner_config_def
        default_checks_def run_scan_check_def starlark_check_def evaluate_starlark_check_def
        demo_scan_world_def)
qed

theorem scan_equals_meaning_witness:
  "Review ''r'' = scan_meaning (map (check_answer
      (demo_scan_world (FunctionReturned (ResultJson (JObj [(''verdict'', JStr ''review''), (''reason'', JStr ''r'')]))))
      default_scanner_config demo_subject) (configured_checks default_scanner_config))"
proof -
  let ?r = "FunctionReturned (ResultJson (JObj [(''verdict'', JStr ''review''), (''reason'', JStr ''r'')]))"
  have v: "run_verdict ?r = Inr (Review ''r'')"
    by (simp add: run_verdict_def parse_starlark_verdict_def get_str_def json_get_def as_str_def
        starlark_verdict_from_parts_def)
  show ?thesis
    by (rule scan_equals_meaning [OF policy_cache_ok_empty, THEN conjunct1])
      (simp add: demo_scan [of ?r] v)
qed

theorem scan_fails_closed_witness:
  "is_unsafe (Unsafe (''starlark security check failed: '' @ ''policy must define scan(input)''))"
proof -
  have s: "scan_with_remote_payload (demo_scan_world FunctionMissing) default_scanner_config
      demo_subject Map.empty = (Unsafe (''starlark security check failed: '' @ ''policy must define scan(input)''),
        [BUILTIN_DEFAULT_SCANNER_PATH \<mapsto> \<lparr>cp_modified = None, cp_len = 0, cp_ast = ()\<rparr>])"
    using demo_scan [of FunctionMissing] by (simp add: run_verdict_def)
  have "StarlarkCheck BUILTIN_DEFAULT_SCANNER_PATH True 64 \<in> set (configured_checks default_scanner_config)"
    by (simp add: empty_config_fails_closed default_scanner_config_def)
  moreover have "closed_check_fails (demo_scan_world FunctionMissing) default_scanner_config demo_subject
      (StarlarkCheck BUILTIN_DEFAULT_SCANNER_PATH True 64)"
    by (auto simp: closed_check_fails_def starlark_outcome_def run_verdict_def demo_scan_world_def
        is_ok_def res_bind_def demo_star_def split: sum.split)
  ultimately show ?thesis by (rule scan_fails_closed [OF policy_cache_ok_empty s])
qed

section \<open>Hosts of URLs\<close>

text \<open>On a URL whose path has no colon, or which has a port, the host is the text up to its end.\<close>

lemma str_find_first: "d \<notin> set a \<Longrightarrow> str_find [d] (a @ d # b) = Some (length a)"
  by (induction a) auto

lemma str_find_absent: "d \<notin> set s \<Longrightarrow> str_find [d] s = None"
  using str_contains_single [of d s] by (simp only: str_contains_def not_Some_eq) simp

lemma extract_host_port:
  "CHR '':'' \<notin> set host \<Longrightarrow> extract_host (''https://'' @ host @ '':'' @ rest) = host"
  using str_find_first [of "CHR '':''" host rest]
  by (simp add: extract_host_def or_else_def strip_prefix_def)

lemma extract_host_path:
  assumes "CHR '':'' \<notin> set (host @ rest)" "CHR ''/'' \<notin> set host"
  shows "extract_host (''https://'' @ host @ ''/'' @ rest) = host"
proof -
  have "str_find '':'' (host @ ''/'' @ rest) = None"
    by (rule str_find_absent) (use assms(1) in auto)
  then show ?thesis
    using assms str_find_first [of "CHR ''/''" host rest]
    by (simp add: extract_host_def or_else_def strip_prefix_def)
qed

text \<open>
  A colon in the path moves the end behind the path, and a host then looks like a subdomain of
  a skipped one: for every suffix that is skipped with a wildcard, a URL of any other host is
  skipped.
\<close>

theorem skip_protection_by_path:
  assumes "(''*.'' @ suff) \<in> set (sc_skip_domains cfg)"
    and "CHR '':'' \<notin> set (evil @ suff)"
  shows "is_skip_protected cfg (''https://'' @ evil @ ''/.'' @ suff @ '':'')"
proof -
  let ?host = "evil @ ''/.'' @ suff"
  have "extract_host (''https://'' @ ?host @ '':'' @ []) = ?host"
    by (rule extract_host_port) (use assms(2) in auto)
  then have "extract_host (''https://'' @ evil @ ''/.'' @ suff @ '':'') = ?host" by simp
  moreover have "suffix (''.'' @ suff) ?host" by (auto simp: suffix_def intro: exI [of _ "evil @ ''/''"])
  moreover have "strip_prefix ''*.'' (''*.'' @ suff) = Some suff" by (simp add: strip_prefix_Some)
  ultimately show ?thesis
    using assms(1) unfolding is_skip_protected_def by (auto simp: list_ex_iff intro!: bexI)
qed

end
