(* ===== verification/Adversary_Detector.thy ===== *)
theory Adversary_Detector
  imports Adversary_Scan
begin

text \<open>
  The fetch proxy of \<open>crates/adversary-detector\<close>: security profiles (\<open>profiles.rs\<close>), the digest
  store (\<open>digest.rs\<close>), the rate limiter and \<open>AdversaryDetector\<close> (\<open>proxy.rs\<close>), the audit log
  (\<open>audit.rs\<close>) and the tool-result hook (\<open>middleware.rs\<close>).

  Clocks, HTTP, SHA-256, the JSON reader and writer, the iteration order of hash maps and the
  64-bit float computation of the refill are arguments.  Several fetches run concurrently: a
  fetch is two steps of a step relation, up to its scan and from it.
\<close>

section \<open>Profiles\<close>

datatype security_profile = ProfileOpen | ProfileBalanced | ProfileHardened | ProfileParanoid

definition parse_profile :: "(string \<Rightarrow> string) \<Rightarrow> string \<Rightarrow> string + security_profile" where
  "parse_profile uni s =
     (let l = to_lowercase uni s in
      if l \<in> {''open'', ''permissive'', ''relaxed''} then Inr ProfileOpen
      else if l \<in> {''balanced'', ''standard'', ''default''} then Inr ProfileBalanced
      else if l \<in> {''hardened'', ''strict'', ''secure''} then Inr ProfileHardened
      else if l \<in> {''paranoid'', ''maximum''} then Inr ProfileParanoid
      else Inl (''unknown security profile '' @ [CHR 0x27] @ s @ [CHR 0x27] @
                ''. Valid: open, balanced, hardened, paranoid''))"

fun show_profile :: "security_profile \<Rightarrow> string" where
  "show_profile ProfileOpen = ''open''"
| "show_profile ProfileBalanced = ''balanced''"
| "show_profile ProfileHardened = ''hardened''"
| "show_profile ProfileParanoid = ''paranoid''"

record fetch_rate_config =
  rl_per_minute :: u32
  rl_burst :: u32
  rl_cooldown :: u64

fun profile_rate_limit :: "security_profile \<Rightarrow> fetch_rate_config" where
  "profile_rate_limit ProfileOpen = \<lparr>rl_per_minute = 120, rl_burst = 20, rl_cooldown = 5\<rparr>"
| "profile_rate_limit ProfileBalanced = \<lparr>rl_per_minute = 60, rl_burst = 10, rl_cooldown = 10\<rparr>"
| "profile_rate_limit ProfileHardened = \<lparr>rl_per_minute = 30, rl_burst = 5, rl_cooldown = 15\<rparr>"
| "profile_rate_limit ProfileParanoid = \<lparr>rl_per_minute = 15, rl_burst = 2, rl_cooldown = 30\<rparr>"

datatype log_verbosity = LogMinimal | LogStandard | LogVerbose | LogTrace

definition INTERCEPTED_TOOLS :: "string list" where
  "INTERCEPTED_TOOLS = [''web_fetch'', ''safe_fetch'', ''web_search'', ''email_fetch'', ''exec'']"

text \<open>\<open>InterceptedToolSet::web_only\<close>, \<open>web_and_search\<close>, \<open>all_tools\<close>, \<open>all_including_exec\<close>.\<close>

definition tools_web_only :: "string list" where
  "tools_web_only = [''web_fetch'', ''safe_fetch'']"

definition tools_web_and_search :: "string list" where
  "tools_web_and_search = [''web_fetch'', ''safe_fetch'', ''web_search'']"

definition tools_all :: "string list" where
  "tools_all = [''web_fetch'', ''safe_fetch'', ''web_search'', ''email_fetch'']"

definition tools_all_including_exec :: "string list" where
  "tools_all_including_exec =
     [''web_fetch'', ''safe_fetch'', ''web_search'', ''email_fetch'', ''exec'']"

record security_config =
  sec_profile :: security_profile
  sec_scanner :: scanner_config
  sec_tools :: "string list"
  sec_rate_limit :: fetch_rate_config
  sec_verbosity :: log_verbosity
  sec_enable_cache :: bool
  sec_digest_ttl :: u64
  sec_scan_outbound :: bool
  sec_audit :: bool

fun security_config_of :: "security_profile \<Rightarrow> security_config" where
  "security_config_of ProfileOpen =
     \<lparr>sec_profile = ProfileOpen,
      sec_scanner = default_scanner_config\<lparr>sc_discussion_ratio := ''0.5'', sc_min_signals := 2,
        sc_override_on_review := True, sc_digest_ttl := 86400\<rparr>,
      sec_tools = tools_web_only, sec_rate_limit = profile_rate_limit ProfileOpen,
      sec_verbosity = LogMinimal, sec_enable_cache = True, sec_digest_ttl = 86400,
      sec_scan_outbound = False, sec_audit = False\<rparr>"
| "security_config_of ProfileBalanced =
     \<lparr>sec_profile = ProfileBalanced,
      sec_scanner = default_scanner_config\<lparr>sc_discussion_ratio := ''0.3'', sc_min_signals := 3,
        sc_override_on_review := False, sc_digest_ttl := 3600\<rparr>,
      sec_tools = tools_web_and_search, sec_rate_limit = profile_rate_limit ProfileBalanced,
      sec_verbosity = LogStandard, sec_enable_cache = True, sec_digest_ttl = 3600,
      sec_scan_outbound = False, sec_audit = True\<rparr>"
| "security_config_of ProfileHardened =
     \<lparr>sec_profile = ProfileHardened,
      sec_scanner = default_scanner_config\<lparr>sc_discussion_ratio := ''0.15'', sc_min_signals := 5,
        sc_override_on_review := False, sc_digest_ttl := 300\<rparr>,
      sec_tools = tools_all, sec_rate_limit = profile_rate_limit ProfileHardened,
      sec_verbosity = LogVerbose, sec_enable_cache = True, sec_digest_ttl = 300,
      sec_scan_outbound = True, sec_audit = True\<rparr>"
| "security_config_of ProfileParanoid =
     \<lparr>sec_profile = ProfileParanoid,
      sec_scanner = default_scanner_config\<lparr>sc_discussion_ratio := ''0.0'', sc_min_signals := 0,
        sc_override_on_review := False, sc_digest_ttl := 0\<rparr>,
      sec_tools = tools_all_including_exec, sec_rate_limit = profile_rate_limit ProfileParanoid,
      sec_verbosity = LogTrace, sec_enable_cache = False, sec_digest_ttl = 0,
      sec_scan_outbound = True, sec_audit = True\<rparr>"

fun profile_description :: "security_profile \<Rightarrow> string" where
  "profile_description ProfileOpen =
     ''Minimal scanning. Best for development or trusted environments. Review verdicts auto-pass. Generous rate limits.''"
| "profile_description ProfileBalanced =
     ''Reasonable defaults for production. Scans web fetches and search results. Review verdicts require approval. Moderate rate limits.''"
| "profile_description ProfileHardened =
     ''Stricter scanning for security-conscious deployments. All tools intercepted. Tighter heuristics. Verbose logging.''"
| "profile_description ProfileParanoid =
     ''Maximum protection. Every fetch rescanned. No context heuristics. High false-positive rate expected. Full trace logging.''"

section \<open>Digests\<close>

text \<open>Times are nanoseconds; \<open>num_seconds\<close> rounds towards zero and \<open>as i64\<close> wraps.\<close>

record content_digest =
  dg_sha :: string
  dg_verdict :: scan_verdict
  dg_timestamp :: int
  dg_override :: bool

type_synonym digest_entries = "string \<rightharpoonup> content_digest"

definition age_seconds :: "int \<Rightarrow> int" where
  "age_seconds d = (if d < 0 then - ((- d) div 10 ^ 9) else d div 10 ^ 9)"

definition digest_get ::
  "digest_entries \<Rightarrow> int \<Rightarrow> string \<Rightarrow> u64 option \<Rightarrow> content_digest option" where
  "digest_get entries now url max_age =
     (case entries url of
        None \<Rightarrow> None
      | Some e \<Rightarrow>
          (case max_age of
             Some a \<Rightarrow> if sint a < age_seconds (now - dg_timestamp e) then None else Some e
           | None \<Rightarrow> Some e))"

text \<open>\<open>flush\<close> rewrites the file in place; what fails is logged and left.\<close>

definition digest_flush ::
  "(digest_entries \<Rightarrow> string option) \<Rightarrow> string faults \<Rightarrow> string \<Rightarrow> digest_entries \<Rightarrow> fs \<Rightarrow> fs" where
  "digest_flush print fault path entries fs =
     (case print entries of
        None \<Rightarrow> fs
      | Some data \<Rightarrow>
          (case (case path_parent path of None \<Rightarrow> Inr () | Some d \<Rightarrow> fs_mkdir_all fault d) of
             Inl _ \<Rightarrow> fs
           | Inr _ \<Rightarrow>
               (case fault (Op_Create path) of
                  Some _ \<Rightarrow> fs
                | None \<Rightarrow> snd (fs_write_all fault (fs(path \<mapsto> [])) path data))))"

definition digest_load ::
  "(string \<Rightarrow> 'p + digest_entries) \<Rightarrow> string faults \<Rightarrow> string \<Rightarrow> fs \<Rightarrow> digest_entries" where
  "digest_load parse fault path fs =
     (case fs_read fault fs path of
        Inr data \<Rightarrow> (case parse data of Inr entries \<Rightarrow> entries | Inl _ \<Rightarrow> Map.empty)
      | Inl _ \<Rightarrow> Map.empty)"

definition digest_config_home :: "env \<Rightarrow> string option \<Rightarrow> string" where
  "digest_config_home env home =
     (case or_else (env ''CALCIFORGE_CONFIG_HOME'')
             (map_option (\<lambda>base. path_join base ''calciforge'') (env ''XDG_CONFIG_HOME'')) of
        Some d \<Rightarrow> d
      | None \<Rightarrow>
          path_join (path_join (case home of Some h \<Rightarrow> h | None \<Rightarrow> ''/root'') ''.config'') ''calciforge'')"

definition default_digest_store_path :: "env \<Rightarrow> string option \<Rightarrow> string" where
  "default_digest_store_path env home = path_join (digest_config_home env home) ''digests.json''"

section \<open>The rate limiter\<close>

text \<open>A bucket: tokens, last refill, last access; the instants are nanoseconds.\<close>

type_synonym fetch_bucket = "u32 \<times> nat \<times> nat"

type_synonym fetch_buckets = "(string \<times> fetch_bucket) list"

definition RATE_LIMITER_MAX_SOURCES :: nat where
  "RATE_LIMITER_MAX_SOURCES = 10000"

text \<open>\<open>iter\<close> is the order in which the hash map gives its entries.\<close>

definition evict_if_needed :: "(fetch_buckets \<Rightarrow> fetch_buckets) \<Rightarrow> fetch_buckets \<Rightarrow> fetch_buckets" where
  "evict_if_needed iter bs =
     (if length bs \<le> RATE_LIMITER_MAX_SOURCES then bs
      else (let gone = map fst (take (length bs div 5) (sort_key (\<lambda>b. snd (snd (snd b))) (iter bs)))
            in filter (\<lambda>b. fst b \<notin> set gone) bs))"

text \<open>
  \<open>refill rate elapsed\<close> is \<open>(elapsed.as_secs_f64() * (rate as f64 / 60.0)) as u32\<close>.  The sum of
  the tokens wraps, as in a release build.
\<close>

definition take_token ::
  "(u32 \<Rightarrow> nat \<Rightarrow> u32) \<Rightarrow> fetch_rate_config \<Rightarrow> nat \<Rightarrow> fetch_bucket \<Rightarrow> bool \<times> fetch_bucket" where
  "take_token refill cfg now b =
     (case b of (have1, filled, _) \<Rightarrow>
        (let extra = refill (rl_per_minute cfg) (now - filled);
             (have2, filled2) = (if 0 < extra then (min (have1 + extra) (rl_burst cfg), now)
                                 else (have1, filled)) in
         if 0 < have2 then (True, (have2 - 1, filled2, now)) else (False, (have2, filled2, now))))"

definition limiter_check ::
  "(u32 \<Rightarrow> nat \<Rightarrow> u32) \<Rightarrow> (fetch_buckets \<Rightarrow> fetch_buckets) \<Rightarrow> fetch_rate_config \<Rightarrow> nat \<Rightarrow> string \<Rightarrow> fetch_buckets \<Rightarrow>
   bool \<times> fetch_buckets" where
  "limiter_check refill iter cfg now source bs =
     (let bs1 = evict_if_needed iter bs in
      case map_of bs1 source of
        Some b \<Rightarrow>
          (let (ok, b') = take_token refill cfg now b
           in (ok, map (\<lambda>(k, v). (k, if k = source then b' else v)) bs1))
      | None \<Rightarrow>
          (let (ok, b') = take_token refill cfg now (rl_burst cfg, now, now)
           in (ok, bs1 @ [(source, b')])))"

text \<open>\<open>Debug\<close> of a duration of whole seconds.\<close>

definition show_cooldown :: "u64 \<Rightarrow> string" where
  "show_cooldown s = (if s = 0 then ''0ns'' else show_nat (unat s) @ ''s'')"

section \<open>The audit log\<close>

record audit_entry =
  ae_ts :: int
  ae_claw_id :: string
  ae_tool :: string
  ae_url :: string
  ae_verdict :: string
  ae_reason :: "string option"
  ae_cached :: bool

record scan_audit_log =
  al_total :: u64
  al_blocked_or_reviewed :: u64
  al_lines :: "audit_entry list"

definition audit_entry_of ::
  "int \<Rightarrow> string \<Rightarrow> scan_context \<Rightarrow> string \<Rightarrow> scan_verdict \<Rightarrow> bool \<Rightarrow> audit_entry" where
  "audit_entry_of now claw ctx url verdict cached =
     \<lparr>ae_ts = now, ae_claw_id = claw, ae_tool = context_str ctx, ae_url = url,
      ae_verdict = verdict_name verdict, ae_reason = verdict_reason verdict, ae_cached = cached\<rparr>"

text \<open>\<open>written\<close> says whether the line reached the file.\<close>

definition audit_record ::
  "bool \<Rightarrow> int \<Rightarrow> string \<Rightarrow> scan_context \<Rightarrow> string \<Rightarrow> scan_verdict \<Rightarrow> bool \<Rightarrow> scan_audit_log \<Rightarrow> scan_audit_log" where
  "audit_record written now claw ctx url verdict cached l =
     \<lparr>al_total = al_total l + 1,
      al_blocked_or_reviewed =
        (if is_clean verdict then al_blocked_or_reviewed l else al_blocked_or_reviewed l + 1),
      al_lines = al_lines l @
        (if written then [audit_entry_of now claw ctx url verdict cached] else [])\<rparr>"

section \<open>Fetching\<close>

datatype fetch_result =
    FetchOk string string
  | FetchBlocked string string string
  | FetchReview string string string

definition annotate_review :: "string \<Rightarrow> string \<Rightarrow> string" where
  "annotate_review reason content =
     ''['' @ [CHR 0xE2, CHR 0x9A, CHR 0xA0] @ '' ADVERSARY REVIEW: '' @ reason @ '']'' @ [CHR 0x0A] @
     content"

definition result_from_verdict ::
  "bool \<Rightarrow> scan_verdict \<Rightarrow> string \<Rightarrow> string \<Rightarrow> string \<Rightarrow> bool \<Rightarrow> fetch_result" where
  "result_from_verdict override_on_review verdict content digest url override_approved =
     (if override_approved then FetchOk content digest
      else (case verdict of
        Clean \<Rightarrow> FetchOk content digest
      | Review reason \<Rightarrow>
          if override_on_review then FetchOk content digest
          else FetchReview (annotate_review reason content) reason digest
      | Unsafe reason \<Rightarrow> FetchBlocked reason digest url))"

record detector_config =
  dc_scanner :: scanner_config
  dc_rate_limit :: fetch_rate_config
  dc_claw_id :: string
  dc_store_path :: string
  dc_sha :: "string \<Rightarrow> string"
  dc_refill :: "u32 \<Rightarrow> nat \<Rightarrow> u32"
  dc_print :: "digest_entries \<Rightarrow> string option"

text \<open>What one step of a fetch is given by its surroundings.\<close>

record 'ast fetch_input =
  fi_instant :: nat
  fi_now :: int
  fi_iter :: "fetch_buckets \<Rightarrow> fetch_buckets"
  fi_http :: "string + string"
  fi_scan :: "'ast scan_world"
  fi_faults :: "string faults"
  fi_logged :: bool

record 'ast detector =
  dt_buckets :: fetch_buckets
  dt_entries :: digest_entries
  dt_fs :: fs
  dt_log :: scan_audit_log
  dt_policies :: "'ast policy_cache"
  dt_waiting :: "nat \<Rightarrow> (string \<times> string \<times> string) option"

text \<open>
  \<open>fetch\<close> up to the scan: the answer it already has, or the content and its digest.
\<close>

definition fetch_begin ::
  "detector_config \<Rightarrow> 'ast fetch_input \<Rightarrow> string \<Rightarrow> 'ast detector \<Rightarrow>
   (fetch_result + string \<times> string) \<times> 'ast detector" where
  "fetch_begin dc inp url s =
     (let source = extract_host url;
          (ok, bs) = (if source = [] then (True, dt_buckets s)
                      else limiter_check (dc_refill dc) (fi_iter inp) (dc_rate_limit dc)
                             (fi_instant inp) source (dt_buckets s));
          s1 = s\<lparr>dt_buckets := bs\<rparr>;
          note = (\<lambda>verdict cached. audit_record (fi_logged inp) (fi_now inp) (dc_claw_id dc) WebFetch
                    url verdict cached (dt_log s1)) in
      if \<not> ok
      then (Inl (FetchBlocked (''Rate limit exceeded. Try again in '' @
                   show_cooldown (rl_cooldown (dc_rate_limit dc)) @ ''.'') [] url), s1)
      else (case fi_http inp of
        Inl err \<Rightarrow> (Inl (FetchBlocked (''HTTP fetch failed: '' @ err) [] url), s1)
      | Inr content \<Rightarrow>
          (let digest = dc_sha dc content; ttl = sc_digest_ttl (dc_scanner dc) in
           if is_skip_protected (dc_scanner dc) url
           then (Inl (FetchOk content digest), s1\<lparr>dt_log := note Clean False\<rparr>)
           else (case digest_get (dt_entries s1) (fi_now inp) url (if ttl = 0 then None else Some ttl) of
             Some e \<Rightarrow>
               if dg_sha e = digest
               then (Inl (result_from_verdict (sc_override_on_review (dc_scanner dc)) (dg_verdict e)
                            content digest url (dg_override e)),
                     s1\<lparr>dt_log := note (dg_verdict e) True\<rparr>)
               else (Inr (content, digest), s1)
           | None \<Rightarrow> (Inr (content, digest), s1)))))"

text \<open>\<open>DigestStore::set\<close> and \<open>DigestStore::mark_override\<close>, with the flush.\<close>

definition digest_set ::
  "detector_config \<Rightarrow> string faults \<Rightarrow> string \<Rightarrow> content_digest \<Rightarrow> 'ast detector \<Rightarrow> 'ast detector" where
  "digest_set dc fault url e s =
     (let entries = (dt_entries s)(url \<mapsto> e)
      in s\<lparr>dt_entries := entries,
           dt_fs := digest_flush (dc_print dc) fault (dc_store_path dc) entries (dt_fs s)\<rparr>)"

definition digest_mark_override ::
  "detector_config \<Rightarrow> string faults \<Rightarrow> string \<Rightarrow> string \<Rightarrow> 'ast detector \<Rightarrow> 'ast detector" where
  "digest_mark_override dc fault url digest s =
     (case dt_entries s url of
        None \<Rightarrow> s
      | Some e \<Rightarrow>
          if dg_sha e = digest then digest_set dc fault url (e\<lparr>dg_override := True\<rparr>) s else s)"

text \<open>\<open>fetch\<close> from the scan on: scan, persist, log, answer.\<close>

definition fetch_finish ::
  "detector_config \<Rightarrow> 'ast fetch_input \<Rightarrow> string \<Rightarrow> string \<Rightarrow> string \<Rightarrow> 'ast detector \<Rightarrow>
   (scan_verdict \<times> fetch_result) \<times> 'ast detector" where
  "fetch_finish dc inp url content digest s =
     (let (verdict, policies) = adversary_scan (fi_scan inp) (dc_scanner dc) url content WebFetch (dt_policies s);
          s1 = digest_set dc (fi_faults inp) url
                 \<lparr>dg_sha = digest, dg_verdict = verdict, dg_timestamp = fi_now inp, dg_override = False\<rparr>
                 (s\<lparr>dt_policies := policies\<rparr>)
      in ((verdict, result_from_verdict (sc_override_on_review (dc_scanner dc)) verdict content digest
                      url False),
          s1\<lparr>dt_log := audit_record (fi_logged inp) (fi_now inp) (dc_claw_id dc) WebFetch url verdict
                         False (dt_log s1)\<rparr>))"

datatype detector_event =
    EvAnswer string fetch_result
  | EvFetched nat string string
  | EvScanned string string scan_verdict fetch_result
  | EvOverride string string
  | EvAbandon nat

text \<open>The steps of concurrent fetches and of overrides; an override is a human decision.\<close>

inductive detector_step ::
  "detector_config \<Rightarrow> 'ast detector \<Rightarrow> detector_event \<Rightarrow> 'ast detector \<Rightarrow> bool" for dc where
  step_answer:
    "fetch_begin dc inp url s = (Inl result, s') \<Longrightarrow> detector_step dc s (EvAnswer url result) s'"
| step_fetched:
    "dt_waiting s t = None \<Longrightarrow> fetch_begin dc inp url s = (Inr (content, digest), s') \<Longrightarrow>
     detector_step dc s (EvFetched t url content)
       (s'\<lparr>dt_waiting := (dt_waiting s')(t \<mapsto> (url, content, digest))\<rparr>)"
| step_scanned:
    "dt_waiting s t = Some (url, content, digest) \<Longrightarrow>
     fetch_finish dc inp url content digest s = ((verdict, result), s') \<Longrightarrow>
     detector_step dc s (EvScanned url content verdict result)
       (s'\<lparr>dt_waiting := (dt_waiting s')(t := None)\<rparr>)"
| step_override:
    "detector_step dc s (EvOverride url digest) (digest_mark_override dc fault url digest s)"
| step_abandon:
    "detector_step dc s (EvAbandon t) (s\<lparr>dt_waiting := (dt_waiting s)(t := None)\<rparr>)"

definition fresh_detector :: "digest_entries \<Rightarrow> fs \<Rightarrow> 'ast detector" where
  "fresh_detector entries fs =
     \<lparr>dt_buckets = [], dt_entries = entries, dt_fs = fs,
      dt_log = \<lparr>al_total = 0, al_blocked_or_reviewed = 0, al_lines = []\<rparr>,
      dt_policies = Map.empty, dt_waiting = (\<lambda>_. None)\<rparr>"

section \<open>Tool results\<close>

fun context_for :: "string \<Rightarrow> scan_context" where
  "context_for tool =
     (if tool = ''web_fetch'' \<or> tool = ''safe_fetch'' then WebFetch
      else if tool = ''web_search'' then WebSearch
      else if tool = ''email_fetch'' then Email
      else if tool = ''exec'' then Exec
      else Api)"

record tool_result =
  tr_tool :: string
  tr_url :: string
  tr_content :: string
  tr_context :: scan_context

datatype hook_outcome = PassThrough string | Annotated string | HookBlocked string

definition should_intercept :: "security_config \<Rightarrow> string \<Rightarrow> bool" where
  "should_intercept cfg tool \<longleftrightarrow> tool \<in> set (sec_tools cfg)"

definition on_tool_result ::
  "security_config \<Rightarrow> string \<Rightarrow> 'ast fetch_input \<Rightarrow> tool_result \<Rightarrow>
   'ast policy_cache \<times> scan_audit_log \<Rightarrow> hook_outcome \<times> 'ast policy_cache \<times> scan_audit_log" where
  "on_tool_result cfg claw inp r st =
     (case st of (policies, l) \<Rightarrow>
        if \<not> should_intercept cfg (tr_tool r) then (PassThrough (tr_content r), st)
        else (let (verdict, policies') =
                    adversary_scan (fi_scan inp) (sec_scanner cfg) (tr_url r) (tr_content r)
                      (tr_context r) policies;
                  l' = (if sec_audit cfg
                        then audit_record (fi_logged inp) (fi_now inp) claw (tr_context r) (tr_url r)
                               verdict False l
                        else l) in
              ((case verdict of
                  Clean \<Rightarrow> PassThrough (tr_content r)
                | Review reason \<Rightarrow> Annotated (annotate_review reason (tr_content r))
                | Unsafe reason \<Rightarrow>
                    HookBlocked (''[ADVERSARY BLOCKED: '' @ reason @
                      ''. Content withheld to prevent injection.]'')),
               policies', l')))"

definition scan_text ::
  "security_config \<Rightarrow> string \<Rightarrow> 'ast fetch_input \<Rightarrow> string \<Rightarrow> scan_context \<Rightarrow>
   'ast policy_cache \<times> scan_audit_log \<Rightarrow> scan_verdict \<times> 'ast policy_cache \<times> scan_audit_log" where
  "scan_text cfg claw inp content ctx st =
     (case st of (policies, l) \<Rightarrow>
        (let (verdict, policies') =
               adversary_scan (fi_scan inp) (sec_scanner cfg) ''(channel-message)'' content ctx policies
         in (verdict, policies',
             if sec_audit cfg
             then audit_record (fi_logged inp) (fi_now inp) claw ctx ''(channel-message)'' verdict False l
             else l)))"

section \<open>What is let through\<close>

text \<open>
  A verdict of a scan of this URL with content of this digest, and an approval of the pair,
  among the events or in the store that was loaded.
\<close>

definition scan_seen ::
  "detector_config \<Rightarrow> digest_entries \<Rightarrow> detector_event list \<Rightarrow> string \<Rightarrow> string \<Rightarrow> scan_verdict \<Rightarrow> bool" where
  "scan_seen dc e0 evs url digest v \<longleftrightarrow>
     (\<exists>content result. EvScanned url content v result \<in> set evs \<and> dc_sha dc content = digest) \<or>
     (\<exists>e. e0 url = Some e \<and> dg_sha e = digest \<and> dg_verdict e = v)"

definition override_seen ::
  "digest_entries \<Rightarrow> detector_event list \<Rightarrow> string \<Rightarrow> string \<Rightarrow> bool" where
  "override_seen e0 evs url digest \<longleftrightarrow>
     EvOverride url digest \<in> set evs \<or>
     (\<exists>e. e0 url = Some e \<and> dg_sha e = digest \<and> dg_override e)"

fun answer_ok ::
  "detector_config \<Rightarrow> digest_entries \<Rightarrow> detector_event list \<Rightarrow> string \<Rightarrow> fetch_result \<Rightarrow> bool" where
  "answer_ok dc e0 evs url (FetchOk content digest) =
     (digest = dc_sha dc content \<and>
      (is_skip_protected (dc_scanner dc) url \<or> override_seen e0 evs url digest \<or>
       (\<exists>v. scan_seen dc e0 evs url digest v \<and>
          (v = Clean \<or> (is_review v \<and> sc_override_on_review (dc_scanner dc))))))"
| "answer_ok dc e0 evs url (FetchReview noted reason digest) =
     (\<not> sc_override_on_review (dc_scanner dc) \<and>
      (\<exists>content. noted = annotate_review reason content \<and> digest = dc_sha dc content \<and>
         scan_seen dc e0 evs url digest (Review reason)))"
| "answer_ok dc e0 evs url (FetchBlocked reason digest u) = (u = url)"

fun event_answer_ok ::
  "detector_config \<Rightarrow> digest_entries \<Rightarrow> detector_event list \<Rightarrow> detector_event \<Rightarrow> bool" where
  "event_answer_ok dc e0 evs (EvAnswer url result) = answer_ok dc e0 evs url result"
| "event_answer_ok dc e0 evs (EvScanned url content v result) = answer_ok dc e0 evs url result"
| "event_answer_ok dc e0 evs _ = True"

definition digest_explained ::
  "detector_config \<Rightarrow> digest_entries \<Rightarrow> detector_event list \<Rightarrow> string \<Rightarrow> content_digest \<Rightarrow> bool" where
  "digest_explained dc e0 evs url e \<longleftrightarrow>
     scan_seen dc e0 evs url (dg_sha e) (dg_verdict e) \<and>
     (dg_override e \<longrightarrow> override_seen e0 evs url (dg_sha e))"

definition detector_explained ::
  "detector_config \<Rightarrow> digest_entries \<Rightarrow> detector_event list \<Rightarrow> 'ast detector \<Rightarrow> bool" where
  "detector_explained dc e0 evs s \<longleftrightarrow>
     (\<forall>url e. dt_entries s url = Some e \<longrightarrow> digest_explained dc e0 evs url e) \<and>
     (\<forall>t url content digest. dt_waiting s t = Some (url, content, digest) \<longrightarrow>
        digest = dc_sha dc content) \<and>
     (\<forall>ev \<in> set evs. event_answer_ok dc e0 evs ev)"

lemma scan_seen_mono: "scan_seen dc e0 evs url d v \<Longrightarrow> scan_seen dc e0 (ev # evs) url d v"
  unfolding scan_seen_def list.set by blast

lemma override_seen_mono: "override_seen e0 evs url d \<Longrightarrow> override_seen e0 (ev # evs) url d"
  by (auto simp: override_seen_def)

lemma answer_ok_mono: "answer_ok dc e0 evs url r \<Longrightarrow> answer_ok dc e0 (ev # evs) url r"
  by (cases r) (auto intro: scan_seen_mono override_seen_mono)

lemma event_answer_ok_mono:
  "event_answer_ok dc e0 evs d \<Longrightarrow> event_answer_ok dc e0 (ev # evs) d"
  by (cases d) (auto intro: answer_ok_mono)

lemma digest_explained_mono:
  "digest_explained dc e0 evs url e \<Longrightarrow> digest_explained dc e0 (ev # evs) url e"
  by (auto simp: digest_explained_def intro: scan_seen_mono override_seen_mono)

lemma result_from_verdict_ok:
  assumes "scan_seen dc e0 evs url (dc_sha dc content) v"
    and "approved \<Longrightarrow> override_seen e0 evs url (dc_sha dc content)"
  shows "answer_ok dc e0 evs url
    (result_from_verdict (sc_override_on_review (dc_scanner dc)) v content (dc_sha dc content) url approved)"
  using assms by (cases v) (auto simp: result_from_verdict_def)

lemma digest_get_entry: "digest_get entries now url a = Some e \<Longrightarrow> entries url = Some e"
  by (auto simp: digest_get_def split: option.splits if_splits)

lemma fetch_begin_frame:
  assumes "fetch_begin dc inp url s = (r, s')"
  shows "dt_entries s' = dt_entries s" "dt_waiting s' = dt_waiting s"
    "r = Inr (content, digest) \<Longrightarrow> digest = dc_sha dc content"
  using assms
  by (auto simp: fetch_begin_def Let_def split: prod.splits if_splits sum.splits option.splits)

lemma fetch_begin_answer:
  assumes "fetch_begin dc inp url s = (Inl result, s')"
    and "\<And>e. dt_entries s url = Some e \<Longrightarrow> digest_explained dc e0 evs url e"
  shows "answer_ok dc e0 evs url result"
  using assms
  by (auto simp: fetch_begin_def Let_def digest_explained_def dest!: digest_get_entry
      intro!: result_from_verdict_ok split: prod.splits if_splits sum.splits option.splits)

lemma detector_explained_frame:
  assumes "detector_explained dc e0 evs s"
    and "\<And>u e. dt_entries s' u = Some e \<Longrightarrow> dt_entries s u = Some e \<or> digest_explained dc e0 (ev # evs) u e"
    and "\<And>t u c d. dt_waiting s' t = Some (u, c, d) \<Longrightarrow>
      dt_waiting s t = Some (u, c, d) \<or> d = dc_sha dc c"
    and "event_answer_ok dc e0 (ev # evs) ev"
  shows "detector_explained dc e0 (ev # evs) s'"
  unfolding detector_explained_def
proof (intro conjI allI impI ballI)
  show "digest_explained dc e0 (ev # evs) u e" if "dt_entries s' u = Some e" for u e
    using assms(1) assms(2) [OF that] digest_explained_mono by (auto simp: detector_explained_def)
  show "d = dc_sha dc c" if "dt_waiting s' t = Some (u, c, d)" for t u c d
    using assms(1) assms(3) [OF that] by (auto simp: detector_explained_def)
  show "event_answer_ok dc e0 (ev # evs) x" if "x \<in> set (ev # evs)" for x
    using that assms(1,4) by (auto simp: detector_explained_def intro: event_answer_ok_mono)
qed

lemma detector_explained_step:
  assumes ex: "detector_explained dc e0 evs s" and st: "detector_step dc s ev s'"
  shows "detector_explained dc e0 (ev # evs) s'"
proof -
  note fr = detector_explained_frame [OF ex]
  from st show ?thesis
  proof cases
    case (step_answer inp url result)
    have "answer_ok dc e0 evs url result"
      using fetch_begin_answer [OF step_answer(2)] ex by (auto simp: detector_explained_def)
    then show ?thesis
      using fetch_begin_frame(1,2) [OF step_answer(2)] step_answer(1)
      by (intro fr) (auto intro: answer_ok_mono)
  next
    case (step_fetched t inp url content digest s1)
    show ?thesis
      using fetch_begin_frame [OF step_fetched(4)] step_fetched(1,2)
      by (intro fr) (auto split: if_splits)
  next
    case (step_scanned t url content digest inp verdict result s1)
    have d: "digest = dc_sha dc content" using ex step_scanned(3) by (auto simp: detector_explained_def)
    have r: "result = result_from_verdict (sc_override_on_review (dc_scanner dc)) verdict content digest url False"
      and e: "\<exists>now. dt_entries s1 = (dt_entries s)(url \<mapsto> \<lparr>dg_sha = digest, dg_verdict = verdict,
        dg_timestamp = now, dg_override = False\<rparr>)" and w: "dt_waiting s1 = dt_waiting s"
      using step_scanned(4) by (auto simp: fetch_finish_def digest_set_def Let_def split: prod.splits)
    have sn: "scan_seen dc e0 (ev # evs) url digest verdict"
      using d step_scanned(1) unfolding scan_seen_def by auto
    show ?thesis
    proof (rule fr)
      show "event_answer_ok dc e0 (ev # evs) ev"
        using result_from_verdict_ok [of dc e0 "ev # evs" url content verdict False] sn d r step_scanned(1)
        by simp
      show "dt_entries s u = Some x \<or> digest_explained dc e0 (ev # evs) u x"
        if "dt_entries s' u = Some x" for u x
        using that e sn step_scanned(2) by (auto simp: digest_explained_def split: if_splits)
      show "dt_waiting s u = Some (a, b, c) \<or> c = dc_sha dc b"
        if "dt_waiting s' u = Some (a, b, c)" for u a b c
        using that w step_scanned(2) by (auto split: if_splits)
    qed
  next
    case (step_override url digest fault)
    show ?thesis
    proof (rule fr)
      show "dt_entries s u = Some x \<or> digest_explained dc e0 (ev # evs) u x"
        if "dt_entries s' u = Some x" for u x
      proof (cases "dt_entries s u = Some x")
        case False
        with that step_override(2) obtain e where e: "u = url" "dt_entries s url = Some e"
          "dg_sha e = digest" "x = e\<lparr>dg_override := True\<rparr>"
          by (auto simp: digest_mark_override_def digest_set_def Let_def split: option.splits if_splits)
        then have "digest_explained dc e0 evs url e" using ex by (simp add: detector_explained_def)
        then have "scan_seen dc e0 (ev # evs) url (dg_sha x) (dg_verdict x)"
          using e scan_seen_mono by (auto simp: digest_explained_def)
        moreover have "override_seen e0 (ev # evs) url (dg_sha x)"
          using e step_override(1) by (simp add: override_seen_def)
        ultimately show ?thesis using e(1) by (simp add: digest_explained_def)
      qed simp
    qed (use step_override in \<open>auto simp: digest_mark_override_def digest_set_def Let_def
        split: option.splits if_splits\<close>)
  next
    case (step_abandon t)
    show ?thesis by (rule fr) (use step_abandon in \<open>auto split: if_splits\<close>)
  qed
qed

interpretation detector: explained_machine "detector_step dc" "detector_explained dc e0" for dc e0
  by unfold_locales (rule detector_explained_step)

lemma detector_explained_start: "detector_explained dc e0 [] (fresh_detector e0 fs)"
  by (auto simp: detector_explained_def fresh_detector_def digest_explained_def scan_seen_def
      override_seen_def)

text \<open>
  C10: Whatever fetches run concurrently, the detector hands out content only with a reason: the
  host is one that skips protection, a human approved this digest for this URL, or content of
  this digest was scanned for this URL (now, before, or in the store that was loaded) with the
  verdict \<open>clean\<close>, or \<open>review\<close> where the configuration lets reviews pass; other reviewed content
  comes with its warning in front, and content with an \<open>unsafe\<close> verdict never comes out.
\<close>

theorem fetched_content_cleared:
  assumes "history (detector_step dc) (fresh_detector e0 fs) evs s"
    and "EvAnswer url result \<in> set evs \<or> EvScanned url content v result \<in> set evs"
  shows "answer_ok dc e0 evs url result"
proof -
  have "detector_explained dc e0 evs s"
    by (rule detector.history_explains [OF assms(1) detector_explained_start])
  then have ok: "ev \<in> set evs \<Longrightarrow> event_answer_ok dc e0 evs ev" for ev
    by (simp add: detector_explained_def)
  from assms(2) show ?thesis
    using ok by fastforce
qed

definition demo_detector :: detector_config where
  "demo_detector =
     \<lparr>dc_scanner = default_scanner_config, dc_rate_limit = profile_rate_limit ProfileBalanced,
      dc_claw_id = ''c'', dc_store_path = ''d.json'', dc_sha = (\<lambda>x. x), dc_refill = (\<lambda>_ _. 0),
      dc_print = (\<lambda>_. None)\<rparr>"

definition demo_input :: "unit fetch_input" where
  "demo_input =
     \<lparr>fi_instant = 0, fi_now = 0, fi_iter = (\<lambda>x. x), fi_http = Inr ''x'',
      fi_scan = demo_scan_world (FunctionReturned (ResultStr ''clean'')), fi_faults = (\<lambda>_. None),
      fi_logged = True\<rparr>"

theorem fetched_content_cleared_witness:
  "answer_ok demo_detector Map.empty
     [EvScanned ''http://a'' ''x'' Clean (FetchOk ''x'' ''x''), EvFetched 0 ''http://a'' ''x'']
     ''http://a'' (FetchOk ''x'' ''x'')"
proof -
  let ?s0 = "fresh_detector Map.empty Map.empty :: unit detector"
  have h: "extract_host ''http://a'' = ''a''" by code_simp
  have b: "\<exists>s1. fetch_begin demo_detector demo_input ''http://a'' ?s0 = (Inr (''x'', ''x''), s1)"
    by (simp add: fetch_begin_def h limiter_check_def evict_if_needed_def take_token_def
        RATE_LIMITER_MAX_SOURCES_def demo_detector_def demo_input_def fresh_detector_def
        is_skip_protected_def default_scanner_config_def digest_get_def Let_def)
  then obtain s1 where b: "fetch_begin demo_detector demo_input ''http://a'' ?s0 = (Inr (''x'', ''x''), s1)"
    by blast
  let ?s2 = "s1\<lparr>dt_waiting := (dt_waiting s1)(0 \<mapsto> (''http://a'', ''x'', ''x''))\<rparr>"
  have "detector_step demo_detector ?s0 (EvFetched 0 ''http://a'' ''x'') ?s2"
    by (rule step_fetched [OF _ b]) (simp add: fresh_detector_def)
  then have h1: "history (detector_step demo_detector) ?s0 [EvFetched 0 ''http://a'' ''x''] ?s2"
    by (rule history_step [where step = "detector_step demo_detector", OF history_start])
  have p: "dt_policies s1 = Map.empty"
    using b by (auto simp: fetch_begin_def Let_def fresh_detector_def split: prod.splits if_splits
        sum.splits option.splits)
  have "run_verdict (FunctionReturned (ResultStr ''clean'')) = Inr Clean"
    by (simp add: run_verdict_def parse_starlark_verdict_def starlark_verdict_from_parts_def)
  then obtain c where "adversary_scan (demo_scan_world (FunctionReturned (ResultStr ''clean'')))
      default_scanner_config ''http://a'' ''x'' WebFetch Map.empty = (Clean, c)"
    using demo_scan [of "FunctionReturned (ResultStr ''clean'')"]
    by (simp add: adversary_scan_def demo_subject_def)
  then have "\<exists>s3. fetch_finish demo_detector demo_input ''http://a'' ''x'' ''x'' ?s2 =
      ((Clean, FetchOk ''x'' ''x''), s3)"
    using p by (simp add: fetch_finish_def demo_input_def demo_detector_def result_from_verdict_def Let_def)
  then obtain s3 where f: "fetch_finish demo_detector demo_input ''http://a'' ''x'' ''x'' ?s2 =
      ((Clean, FetchOk ''x'' ''x''), s3)" by blast
  have "detector_step demo_detector ?s2 (EvScanned ''http://a'' ''x'' Clean (FetchOk ''x'' ''x''))
      (s3\<lparr>dt_waiting := (dt_waiting s3)(0 := None)\<rparr>)"
    by (rule step_scanned [OF _ f]) simp
  with h1 have "history (detector_step demo_detector) ?s0
      [EvScanned ''http://a'' ''x'' Clean (FetchOk ''x'' ''x''), EvFetched 0 ''http://a'' ''x'']
      (s3\<lparr>dt_waiting := (dt_waiting s3)(0 := None)\<rparr>)"
    by (rule history_step [where step = "detector_step demo_detector"])
  from fetched_content_cleared [OF this] show ?thesis by simp
qed

lemma unsafe_never_ok:
  "result_from_verdict o1 (Unsafe reason) content digest url False = FetchBlocked reason digest url"
  by (simp add: result_from_verdict_def)

text \<open>The store survives a restart when the file could be written and the JSON reads back.\<close>

lemma digest_store_reopens:
  assumes "print entries = Some data" "parse data = Inr entries"
    and "\<And>op. fault op = None"
  shows "digest_load parse fault path (digest_flush print fault path entries fs) = entries"
  using assms
  by (simp add: digest_load_def digest_flush_def fs_mkdir_all_def fs_write_all_def fs_read_def
      split: option.split)

section \<open>Tokens\<close>

text \<open>A bucket never holds more than the burst, and an access takes one token at most.\<close>

lemma take_token_bound:
  assumes "have1 \<le> rl_burst cfg" "take_token refill cfg now (have1, filled, used1) = (ok, (have2, filled2, used2))"
  shows "have2 \<le> rl_burst cfg" "ok \<Longrightarrow> have2 < rl_burst cfg"
proof -
  define h where "h = (if 0 < refill (rl_per_minute cfg) (now - filled)
      then min (have1 + refill (rl_per_minute cfg) (now - filled)) (rl_burst cfg) else have1)"
  have h: "h \<le> rl_burst cfg" using assms(1) by (simp add: h_def)
  have r: "ok = (0 < h)" "have2 = (if 0 < h then h - 1 else h)"
    using assms(2) by (auto simp: take_token_def Let_def h_def split: if_splits)
  have "0 < h \<Longrightarrow> h - 1 < h"
    by (metis word_less_sub1 word_le_less_eq measure_unat unat_eq_zero word_gt_0 word_less_nat_alt)
  with r h show "have2 \<le> rl_burst cfg" "ok \<Longrightarrow> have2 < rl_burst cfg" by (auto split: if_splits)
qed

end
