(* ===== verification/Chat_Router.thy ===== *)
theory Chat_Router
  imports Chat_Actions Adversary_Detector
begin

text \<open>
  The router (\<open>crates/calciforge/src/router.rs\<close>) between channels and agents: which model an agent is
  told, what an error of an agent becomes, and the scan of its answer.
\<close>

section \<open>World and state\<close>

record approval_request =
  ar_request_id :: string
  ar_reason :: string
  ar_command :: string

datatype adapter_error =
    AgentTimeout
  | AgentUnavailable string
  | AgentProtocol string
  | ApprovalPending approval_request

text \<open>
  The handler's world and configuration, the channel scanner (configuration, name and what it reads,
  which may depend on everything done before), whether the router scans with it, and the agents.
\<close>

record ('e, 'p, 'q, 'ast) channel_world =
  xw_chat :: "('e, 'p, 'q) chat_world"
  xw_setup :: chat_setup
  xw_security :: security_config
  xw_claw :: string
  xw_scan_input :: "chat_event list \<Rightarrow> 'ast fetch_input"
  xw_response_scanner :: bool
  xw_agent :: "chat_event list \<Rightarrow> agent_config \<Rightarrow> chat_dispatch \<Rightarrow> adapter_error + outbound_message"

text \<open>A message that waits for its agent, or for the agent's answer.\<close>

record channel_texts =
  kt_kind :: string
  kt_scans :: bool
  kt_blocked :: string
  kt_label :: string
  kt_cleared :: string
  kt_no_agent :: string
  kt_error :: string

record chat_job =
  jb_who :: string
  jb_agent :: agent_config
  jb_key :: string
  jb_text :: string
  jb_label :: string
  jb_model :: "string option"
  jb_session :: "string option"
  jb_target :: string
  jb_texts :: channel_texts
  jb_sent :: bool

record 'ast channel_state =
  xs_handler :: handler_state
  xs_context :: context_store
  xs_policies :: "'ast policy_cache"
  xs_audit :: scan_audit_log
  xs_jobs :: "nat \<rightharpoonup> chat_job"
  xs_next :: nat

definition on_handler ::
  "(handler_state \<Rightarrow> 'r \<times> handler_state) \<Rightarrow> 'ast channel_state \<Rightarrow> 'r \<times> 'ast channel_state" where
  "on_handler f s = (case f (xs_handler s) of (r, h) \<Rightarrow> (r, s\<lparr>xs_handler := h\<rparr>))"

definition note_chat :: "chat_event \<Rightarrow> 'ast channel_state \<Rightarrow> 'ast channel_state" where
  "note_chat e s = s\<lparr>xs_handler := note_event e (xs_handler s)\<rparr>"

definition chat_log :: "'ast channel_state \<Rightarrow> chat_event list" where
  "chat_log s = hs_log (xs_handler s)"

definition channel_scan ::
  "('e, 'p, 'q, 'ast) channel_world \<Rightarrow> string \<Rightarrow> scan_context \<Rightarrow> 'ast channel_state \<Rightarrow>
   scan_verdict \<times> 'ast channel_state" where
  "channel_scan w text ctx s =
     (case scan_text (xw_security w) (xw_claw w) (xw_scan_input w (chat_log s)) text ctx
             (xs_policies s, xs_audit s) of
        (v, policies, audit) \<Rightarrow>
          (v, note_chat (CeScan text ctx v) (s\<lparr>xs_policies := policies, xs_audit := audit\<rparr>)))"

section \<open>To the agent\<close>

definition effective_model_override :: "agent_config \<Rightarrow> string \<Rightarrow> string option \<Rightarrow> string option" where
  "effective_model_override a text m =
     (if agent_supports_native_commands a \<and> is_native_agent_command text then None
      else if agent_supports_model_override a then m
      else None)"

definition router_send ::
  "('e, 'p, 'q, 'ast) channel_world \<Rightarrow> string \<Rightarrow> agent_config \<Rightarrow> string \<Rightarrow> string option \<Rightarrow>
   string option \<Rightarrow> string \<Rightarrow> string + chat_dispatch" where
  "router_send w text a sender m session kind =
     (case hw_adapter (xw_chat w) a of
        Inl e \<Rightarrow> Inl (''failed to build adapter for agent '' @ [CHR 0x27] @ ag_id a @ [CHR 0x27] @ '': '' @ e)
      | Inr _ \<Rightarrow> Inr
          \<lparr>dp_agent = ag_id a, dp_message = text, dp_sender = sender,
           dp_model = effective_model_override a text m, dp_session = session, dp_channel = kind\<rparr>)"

section \<open>From the agent\<close>

datatype router_error = RouterFailed string | RouterApproval approval_request

fun router_error_of :: "agent_config \<Rightarrow> adapter_error \<Rightarrow> router_error" where
  "router_error_of a AgentTimeout = RouterFailed (''agent '' @ [CHR 0x27] @ ag_id a @ [CHR 0x27] @ '' timed out'')"
| "router_error_of a (AgentUnavailable e) = RouterFailed (''agent '' @ [CHR 0x27] @ ag_id a @ [CHR 0x27] @ '' unavailable: '' @ e)"
| "router_error_of a (AgentProtocol e) = RouterFailed (''agent '' @ [CHR 0x27] @ ag_id a @ [CHR 0x27] @ '' protocol error: '' @ e)"
| "router_error_of a (ApprovalPending r) = RouterApproval r"

fun router_error_text :: "router_error \<Rightarrow> string" where
  "router_error_text (RouterFailed e) = e"
| "router_error_text (RouterApproval r) =
     ([CHR 0xF0, CHR 0x9F, CHR 0x94, CHR 0x92] @ '' Approval pending '' @
       [CHR 0xE2, CHR 0x80, CHR 0x94] @ '' request_id='' @ ar_request_id r @ '', command='' @
       ar_command r)"

definition scan_agent_response ::
  "('e, 'p, 'q, 'ast) channel_world \<Rightarrow> outbound_message \<Rightarrow> 'ast channel_state \<Rightarrow>
   outbound_message \<times> 'ast channel_state" where
  "scan_agent_response w m s =
     (let rendered = render_text_fallback (hw_file_name (xw_chat w)) m in
      if \<not> xw_response_scanner w \<or> \<not> sec_scan_outbound (xw_security w) \<or> trim rendered = [] then (m, s)
      else case channel_scan w rendered Api s of
             (v, s') \<Rightarrow>
               (case v of
                  Clean \<Rightarrow> m
                | Review _ \<Rightarrow> text_message ''Agent response held for operator review by Calciforge security gateway.''
                | Unsafe _ \<Rightarrow> text_message ''Page blocked by Calciforge security gateway.'', s'))"

definition router_receive ::
  "('e, 'p, 'q, 'ast) channel_world \<Rightarrow> agent_config \<Rightarrow> adapter_error + outbound_message \<Rightarrow>
   'ast channel_state \<Rightarrow> (router_error + outbound_message) \<times> 'ast channel_state" where
  "router_receive w a r s =
     (case r of
        Inl e \<Rightarrow> (Inl (router_error_of a e), s)
      | Inr m \<Rightarrow> (case scan_agent_response w m s of (m', s') \<Rightarrow> (Inr m', s')))"

text \<open>A question to another agent, answered before anything else is done.\<close>

definition dispatch_one_off_for_identity ::
  "('e, 'p, 'q, 'ast) channel_world \<Rightarrow> string \<Rightarrow> string \<Rightarrow> string \<Rightarrow> string \<Rightarrow> string option \<Rightarrow>
   'ast channel_state \<Rightarrow> (router_error + outbound_message) \<times> 'ast channel_state" where
  "dispatch_one_off_for_identity w text i who kind m s =
     (case find_agent (su_config (xw_setup w)) i of
        None \<Rightarrow> (Inl (RouterFailed (''Agent '' @ [CHR 0x27] @ i @ [CHR 0x27] @ '' is not configured.'')), s)
      | Some a \<Rightarrow>
     (case router_send w text a who m None kind of
        Inl e \<Rightarrow> (Inl (RouterFailed e), s)
      | Inr d \<Rightarrow>
          let s' = note_chat (CeDispatch d) s
          in router_receive w a (xw_agent w (chat_log s') a d) s'))"

end
