(* ===== verification/Chat_Channel.thy ===== *)
theory Chat_Channel
  imports Chat_Router
begin

text \<open>
  The channels (\<open>crates/calciforge/src/channels/sms.rs\<close>, \<open>signal.rs\<close>, \<open>whatsapp.rs\<close>, \<open>telegram.rs\<close>,
  \<open>matrix.rs\<close>, \<open>runtime.rs\<close>): from a message that comes in to the replies that go out.  What waits
  for an agent is a job: it starts and finishes in any order with other messages.
\<close>

section \<open>The channels\<close>

definition sms_texts :: channel_texts where
  "sms_texts = \<lparr>kt_kind = ''sms'', kt_scans = True, kt_blocked = ''Message blocked by security scanner'',
     kt_label = ''SMS'', kt_cleared = ''Conversation context cleared.'',
     kt_no_agent = ''Agent not configured.'', kt_error = ''Agent error: ''\<rparr>"

definition whatsapp_texts :: channel_texts where
  "whatsapp_texts = sms_texts\<lparr>kt_kind := ''whatsapp'', kt_label := ''WhatsApp''\<rparr>"

definition signal_texts :: channel_texts where
  "signal_texts = \<lparr>kt_kind = ''signal'', kt_scans = True,
     kt_blocked = ([CHR 0xF0, CHR 0x9F, CHR 0x9A, CHR 0xAB] @ '' Message blocked by security scanner''), kt_label = ''Signal'',
     kt_cleared = ([CHR 0xF0, CHR 0x9F, CHR 0xA7, CHR 0xB9] @ '' Conversation context cleared.''), kt_no_agent = ([CHR 0xE2, CHR 0x9A, CHR 0xA0, CHR 0xEF, CHR 0xB8, CHR 0x8F] @ '' Agent not configured.''),
     kt_error = ([CHR 0xE2, CHR 0x9A, CHR 0xA0, CHR 0xEF, CHR 0xB8, CHR 0x8F] @ '' Agent error: '')\<rparr>"

definition telegram_texts :: channel_texts where
  "telegram_texts = signal_texts\<lparr>kt_kind := ''telegram'', kt_scans := False, kt_label := ''Telegram''\<rparr>"

definition matrix_texts :: channel_texts where
  "matrix_texts = sms_texts\<lparr>kt_kind := ''matrix'', kt_scans := False, kt_label := ''Matrix''\<rparr>"

section \<open>Commands\<close>

definition say :: "string \<Rightarrow> outbound_message list" where
  "say t = [text_message t]"

text \<open>A reply whose choices are remembered.\<close>

definition offer ::
  "nat \<Rightarrow> string \<Rightarrow> outbound_message \<Rightarrow> 'ast channel_state \<Rightarrow> outbound_message list \<times> 'ast channel_state" where
  "offer now who m s = ([m], s\<lparr>xs_handler := record_pending_choices now who m (xs_handler s)\<rparr>)"

definition speak ::
  "(handler_state \<Rightarrow> string \<times> handler_state) \<Rightarrow> 'ast channel_state \<Rightarrow>
   outbound_message list \<times> 'ast channel_state" where
  "speak f s = (case on_handler f s of (r, s') \<Rightarrow> (say r, s'))"

definition btw_reply ::
  "('e, 'p, 'q, 'ast) channel_world \<Rightarrow> string \<Rightarrow> u64 \<Rightarrow> string \<Rightarrow> string \<Rightarrow> 'ast channel_state \<Rightarrow>
   outbound_message list \<times> 'ast channel_state" where
  "btw_reply w kind ms who text s =
     (case parse_btw_command (hw_tables (xw_chat w)) (su_config (xw_setup w)) text who of
        Inl e \<Rightarrow> (say e, s)
      | Inr b \<Rightarrow>
          (case dispatch_one_off_for_identity w (bt_prompt b) (bt_agent b) who kind
                  (active_model_for_identity (xw_setup w) who (xs_handler s)) s of
             (Inl e, s') \<Rightarrow> (say ([CHR 0xE2, CHR 0x9A, CHR 0xA0, CHR 0xEF, CHR 0xB8, CHR 0x8F] @
       '' !btw dispatch failed: '' @ router_error_text e), s')
           | (Inr m, s') \<Rightarrow>
               (say (bt_agent b @ '':'' @ [CHR 0x0A] @ render_text_fallback (hw_file_name (xw_chat w)) m),
                s'\<lparr>xs_handler := record_dispatch ms (xs_handler s')\<rparr>)))"

definition secure_reply ::
  "('e, 'p, 'q, 'ast) channel_world \<Rightarrow> channel_texts \<Rightarrow> string \<Rightarrow> 'ast channel_state \<Rightarrow>
   outbound_message list \<times> 'ast channel_state" where
  "secure_reply w k text s =
     (if is_secure_set_command (hw_tables (xw_chat w)) text \<and>
         \<not> channel_allows_chat_secret_set (su_config (xw_setup w)) (kt_kind k)
      then (say (secure_set_disabled_reply (kt_label k)), s)
      else speak (handle_secure (xw_chat w) text) s)"

definition async_reply ::
  "('e, 'p, 'q, 'ast) channel_world \<Rightarrow> string \<Rightarrow> 'ast channel_state \<Rightarrow>
   outbound_message list \<times> 'ast channel_state" where
  "async_reply w text s =
     (case on_handler (handle_async (xw_chat w) text) s of
        (None, s') \<Rightarrow> ([], s')
      | (Some (ack, follow_up), s') \<Rightarrow>
          (say ack @ (case follow_up of Some m \<Rightarrow> say m | None \<Rightarrow> []), s'))"

text \<open>
  The replies to a command; \<^const>\<open>None\<close> if the text is none.  The channels do not agree on the order
  of the last two, which exclude each other.
\<close>

definition list_reply ::
  "('e, 'p, 'q, 'ast) channel_world \<Rightarrow> nat \<Rightarrow> string \<Rightarrow> string \<Rightarrow> 'ast channel_state \<Rightarrow>
   (outbound_message list \<times> 'ast channel_state) option" where
  "list_reply w now who text s =
     (let tt = hw_tables (xw_chat w); su = xw_setup w; h = xs_handler s in
      case agent_choice_message_for_identity tt su h text who of
        Some m \<Rightarrow> Some (offer now who m s)
      | None \<Rightarrow>
     (case model_choice_message tt su h text of
        Some m \<Rightarrow> Some (offer now who m s)
      | None \<Rightarrow>
     (case handle_command tt su h text of
        Some r \<Rightarrow> Some (say r, s)
      | None \<Rightarrow>
          if is_unknown_channel_command tt text then Some (say (unknown_command tt text), s)
          else None)))"

definition identity_reply ::
  "('e, 'p, 'q, 'ast) channel_world \<Rightarrow> channel_texts \<Rightarrow> nat \<Rightarrow> u64 \<Rightarrow> string \<Rightarrow> string \<Rightarrow> string \<Rightarrow>
   'ast channel_state \<Rightarrow> (outbound_message list \<times> 'ast channel_state) option" where
  "identity_reply w k now ms who key text s =
     (let tt = hw_tables (xw_chat w); su = xw_setup w; cf = su_config su; cw = xw_chat w;
          h = xs_handler s in
      if is_status_command tt text
      then Some (say (cmd_status_for_identity cw su (now div 1000) who h), s)
      else if is_gateway_command tt text then Some (say (cmd_gateway_for_identity cf), s)
      else if is_switch_command tt text then Some (speak (handle_switch cw cf text who) s)
      else if is_model_command tt text then Some (speak (handle_model cw su text who) s)
      else if is_sessions_command tt text
      then Some (case on_handler (handle_sessions_message cw cf text who) s of (m, s') \<Rightarrow> offer now who m s')
      else if is_new_session_command tt text then Some (speak (handle_new_session cw cf text who) s)
      else if is_btw_command tt text then Some (btw_reply w (kt_kind k) ms who text s)
      else if is_default_command tt text then Some (speak (handle_default cw cf who) s)
      else if is_secure_command tt text then Some (secure_reply w k text s)
      else if is_context_clear_command text
      then Some (say (kt_cleared k), s\<lparr>xs_context := context_clear key (xs_context s)\<rparr>)
      else if is_approve_command tt text \<or> is_deny_command tt text then Some (async_reply w text s)
      else None)"

section \<open>Messages for an agent\<close>

definition sender_label :: "chat_config \<Rightarrow> string \<Rightarrow> string" where
  "sender_label cf who =
     (case Option.bind (find (\<lambda>i. ci_id i = who) (cf_identities cf)) ci_display_name of
        Some n \<Rightarrow> n | None \<Rightarrow> who)"

definition new_job ::
  "('e, 'p, 'q, 'ast) channel_world \<Rightarrow> channel_texts \<Rightarrow> string \<Rightarrow> string \<Rightarrow> string \<Rightarrow> string \<Rightarrow>
   'ast channel_state \<Rightarrow> outbound_message list \<times> 'ast channel_state" where
  "new_job w k who key target text s =
     (let su = xw_setup w; cf = su_config su; h = xs_handler s in
      case active_agent_for cf who h of
        None \<Rightarrow> ([], s)
      | Some i \<Rightarrow>
     (case find_agent cf i of
        None \<Rightarrow> (say (kt_no_agent k), s)
      | Some a \<Rightarrow> ([], s\<lparr>xs_jobs := (xs_jobs s)(xs_next s \<mapsto>
          \<lparr>jb_who = who, jb_agent = a, jb_key = key, jb_text = text, jb_label = sender_label cf who,
           jb_model = active_model_for_identity su who h, jb_session = active_session_for who i h,
           jb_target = target, jb_texts = k, jb_sent = False\<rparr>), xs_next := xs_next s + 1\<rparr>)))"

definition handle_text ::
  "('e, 'p, 'q, 'ast) channel_world \<Rightarrow> channel_texts \<Rightarrow> nat \<Rightarrow> u64 \<Rightarrow> string \<Rightarrow> string \<Rightarrow> string \<Rightarrow>
   string \<Rightarrow> 'ast channel_state \<Rightarrow> outbound_message list \<times> 'ast channel_state" where
  "handle_text w k now ms who key target text s =
     (case list_reply w now who text s of
        Some r \<Rightarrow> r
      | None \<Rightarrow>
     (case identity_reply w k now ms who key text s of
        Some r \<Rightarrow> r
      | None \<Rightarrow> new_job w k who key target text s))"

definition send_all :: "string \<Rightarrow> outbound_message list \<times> 'ast channel_state \<Rightarrow> 'ast channel_state" where
  "send_all target r = (case r of (ms, s) \<Rightarrow> fold (\<lambda>m. note_chat (CeReply target m)) ms s)"

definition handle_authorized ::
  "('e, 'p, 'q, 'ast) channel_world \<Rightarrow> channel_texts \<Rightarrow> nat \<Rightarrow> u64 \<Rightarrow> string \<Rightarrow> string \<Rightarrow> string \<Rightarrow>
   string \<Rightarrow> 'ast channel_state \<Rightarrow> 'ast channel_state" where
  "handle_authorized w k now ms who key target text s =
     (case on_handler (resolve_pending_choice_reply (hw_tables (xw_chat w)) now who text) s of
        (Some (ChoiceReply r), s') \<Rightarrow> send_all target (say r, s')
      | (Some (ChoiceCommand c), s') \<Rightarrow> send_all target (handle_text w k now ms who key target c s')
      | (None, s') \<Rightarrow> send_all target (handle_text w k now ms who key target text s'))"

section \<open>Messages that come in\<close>

record channel_message =
  cm_sender :: string
  cm_reply_target :: string
  cm_content :: string

definition reply_target :: "channel_message \<Rightarrow> string" where
  "reply_target m = (if cm_reply_target m = [] then cm_sender m else cm_reply_target m)"

definition inbound_scan ::
  "('e, 'p, 'q, 'ast) channel_world \<Rightarrow> channel_texts \<Rightarrow> string \<Rightarrow> 'ast channel_state \<Rightarrow>
   string option \<times> 'ast channel_state" where
  "inbound_scan w k text s =
     (if kt_scans k \<and> scan_enabled (su_config (xw_setup w)) (kt_kind k)
      then (case channel_scan w text UserMessage s of
              (v, s') \<Rightarrow> (case v of Unsafe r \<Rightarrow> Some (kt_blocked k @ '': '' @ r) | _ \<Rightarrow> None, s'))
      else (None, s))"

definition handle_message ::
  "('e, 'p, 'q, 'ast) channel_world \<Rightarrow> channel_texts \<Rightarrow> (string \<Rightarrow> string \<Rightarrow> string) \<Rightarrow> nat \<Rightarrow> u64 \<Rightarrow>
   channel_message \<Rightarrow> 'ast channel_state \<Rightarrow> 'ast channel_state" where
  "handle_message w k chat_key now ms m s =
     (case resolve_channel_sender (su_config (xw_setup w)) (kt_kind k) (cm_sender m) of
        None \<Rightarrow> s
      | Some i \<Rightarrow>
          let target = reply_target m; who = ci_id i in
          (case inbound_scan w k (cm_content m) s of
             (Some r, s') \<Rightarrow> send_all target (say r, s')
           | (None, s') \<Rightarrow>
               handle_authorized w k now ms who (chat_key who target) target (cm_content m) s'))"

definition sms_handle_message ::
  "('e, 'p, 'q, 'ast) channel_world \<Rightarrow> nat \<Rightarrow> u64 \<Rightarrow> channel_message \<Rightarrow> 'ast channel_state \<Rightarrow> 'ast channel_state" where
  "sms_handle_message w = handle_message w sms_texts (\<lambda>who target. (''sms-'' @ who @ ''-'' @ target))"

definition whatsapp_handle_message ::
  "('e, 'p, 'q, 'ast) channel_world \<Rightarrow> nat \<Rightarrow> u64 \<Rightarrow> channel_message \<Rightarrow> 'ast channel_state \<Rightarrow> 'ast channel_state" where
  "whatsapp_handle_message w = handle_message w whatsapp_texts (\<lambda>who target. (''whatsapp-'' @ who @ ''-'' @ target))"

definition signal_handle_message ::
  "('e, 'p, 'q, 'ast) channel_world \<Rightarrow> nat \<Rightarrow> u64 \<Rightarrow> channel_message \<Rightarrow> 'ast channel_state \<Rightarrow> 'ast channel_state" where
  "signal_handle_message w = handle_message w signal_texts (\<lambda>who target. (''signal-'' @ who))"

text \<open>A text of a user in a chat; the numbers of both are given as text.\<close>

definition telegram_handle_message ::
  "('e, 'p, 'q, 'ast) channel_world \<Rightarrow> nat \<Rightarrow> u64 \<Rightarrow> channel_message \<Rightarrow> 'ast channel_state \<Rightarrow> 'ast channel_state" where
  "telegram_handle_message w = handle_message w telegram_texts (\<lambda>who target. (target @ ''-'' @ who))"

section \<open>Jobs\<close>

definition end_job :: "nat \<Rightarrow> 'ast channel_state \<Rightarrow> 'ast channel_state" where
  "end_job i s = s\<lparr>xs_jobs := (xs_jobs s)(i := None)\<rparr>"

definition augmented_text :: "chat_job \<Rightarrow> 'ast channel_state \<Rightarrow> string" where
  "augmented_text j s =
     augment_message_with_options (xs_context s) (jb_key j) (ag_id (jb_agent j)) (jb_text j)
       (agent_supports_native_commands (jb_agent j))"

definition start_job ::
  "('e, 'p, 'q, 'ast) channel_world \<Rightarrow> nat \<Rightarrow> 'ast channel_state \<Rightarrow> 'ast channel_state" where
  "start_job w i s =
     (case xs_jobs s i of
        None \<Rightarrow> s
      | Some j \<Rightarrow>
          if jb_sent j then s
          else case router_send w (augmented_text j s) (jb_agent j) (jb_who j) (jb_model j) (jb_session j)
                      (kt_kind (jb_texts j)) of
                 Inl e \<Rightarrow> send_all (jb_target j) (say (kt_error (jb_texts j) @ e), end_job i s)
               | Inr d \<Rightarrow> note_chat (CeDispatch d)
                            (s\<lparr>xs_jobs := (xs_jobs s)(i \<mapsto> j\<lparr>jb_sent := True\<rparr>)\<rparr>))"

definition approval_meta_of :: "('e, 'p, 'q) chat_world \<Rightarrow> agent_config \<Rightarrow> approval_request \<Rightarrow> approval_meta" where
  "approval_meta_of w a r =
     \<lparr>pa_request_id = ar_request_id r, pa_endpoint = ag_endpoint a,
      pa_auth_token = (case ag_auth_token a of Some t \<Rightarrow> t | None \<Rightarrow> []),
      pa_summary = render_text_fallback (hw_file_name w)
        (approval_request_message (ar_command r) (ar_reason r) (ar_request_id r))\<rparr>"

definition ask_approval ::
  "('e, 'p, 'q, 'ast) channel_world \<Rightarrow> nat \<Rightarrow> chat_job \<Rightarrow> approval_request \<Rightarrow> 'ast channel_state \<Rightarrow>
   outbound_message list \<times> 'ast channel_state" where
  "ask_approval w now j r s =
     offer now (jb_who j) (approval_request_message (ar_command r) (ar_reason r) (ar_request_id r))
       (s\<lparr>xs_handler := register_pending_approval (approval_meta_of (xw_chat w) (jb_agent j) r) (xs_handler s)\<rparr>)"

definition answered ::
  "('e, 'p, 'q, 'ast) channel_world \<Rightarrow> u64 \<Rightarrow> chat_job \<Rightarrow> outbound_message \<Rightarrow> 'ast channel_state \<Rightarrow>
   outbound_message list \<times> 'ast channel_state" where
  "answered w ms j m s =
     ([m], s\<lparr>xs_handler := record_dispatch ms (xs_handler s),
        xs_context := push_with_options (jb_key j)
          \<lparr>tn_sender = jb_label j, tn_prompt = jb_text j, tn_agent = ag_id (jb_agent j),
           tn_response = render_text_fallback (hw_file_name (xw_chat w)) m\<rparr>
          (agent_supports_native_commands (jb_agent j)) (xs_context s)\<rparr>)"

definition finish_job ::
  "('e, 'p, 'q, 'ast) channel_world \<Rightarrow> nat \<Rightarrow> nat \<Rightarrow> u64 \<Rightarrow> adapter_error + outbound_message \<Rightarrow>
   'ast channel_state \<Rightarrow> 'ast channel_state" where
  "finish_job w i now ms r s =
     (case xs_jobs s i of
        None \<Rightarrow> s
      | Some j \<Rightarrow>
          if \<not> jb_sent j then s
          else send_all (jb_target j)
            (case router_receive w (jb_agent j) r (end_job i s) of
               (Inr m, s') \<Rightarrow> answered w ms j m s'
             | (Inl (RouterApproval q), s') \<Rightarrow> ask_approval w now j q s'
             | (Inl (RouterFailed e), s') \<Rightarrow> (say (kt_error (jb_texts j) @ e), s')))"

end
