(* ===== verification/Chat_Transports.thy ===== *)
theory Chat_Transports
  imports Chat_Channel
begin

text \<open>
  What two transports add to a channel: the buttons of Telegram
  (\<open>crates/calciforge/src/channels/telegram.rs\<close>) and the events of Matrix rooms
  (\<open>channels/matrix.rs\<close>, \<open>channels/matrix_e2ee.rs\<close>).
\<close>

section \<open>Buttons\<close>

datatype callback_action =
    CbAgent string
  | CbModel string
  | CbSession string string
  | CbApprove string
  | CbDeny string

definition valid_callback_segment :: "string \<Rightarrow> bool" where
  "valid_callback_segment v \<longleftrightarrow> v \<noteq> [] \<and> trim v = v"

text \<open>\<open>splitn\<close>: at most so many parts, the last with everything that is left.\<close>

fun splitn :: "nat \<Rightarrow> char \<Rightarrow> string \<Rightarrow> string list" where
  "splitn 0 c s = []"
| "splitn (Suc 0) c s = [s]"
| "splitn (Suc (Suc n)) c s =
     (case split_once (\<lambda>d. d = c) s of None \<Rightarrow> [s] | Some (a, b) \<Rightarrow> a # splitn (Suc n) c b)"

definition parse_callback_action :: "string \<Rightarrow> callback_action option" where
  "parse_callback_action data =
     (case splitn 4 (CHR '':'') data of
        [cf, kind, a] \<Rightarrow>
          if cf \<noteq> ''cf'' \<or> \<not> valid_callback_segment a then None
          else if kind = ''agent'' then Some (CbAgent a)
          else if kind = ''model'' then Some (CbModel a)
          else if kind = ''approve'' then Some (CbApprove a)
          else if kind = ''deny'' then Some (CbDeny a)
          else None
      | [cf, kind, a, b] \<Rightarrow>
          if cf = ''cf'' \<and> kind = ''session'' \<and> valid_callback_segment a \<and> valid_callback_segment b
          then Some (CbSession a b) else None
      | _ \<Rightarrow> None)"

fun callback_command :: "callback_action \<Rightarrow> string" where
  "callback_command (CbAgent i) = ''!agent switch '' @ i"
| "callback_command (CbModel i) = ''!model use '' @ i"
| "callback_command (CbSession a n) = ''!switch '' @ a @ '' '' @ n"
| "callback_command (CbApprove i) = ''!approve '' @ i"
| "callback_command (CbDeny i) = ''!deny '' @ i"

definition MAX_TELEGRAM_CALLBACK_BYTES :: nat where
  "MAX_TELEGRAM_CALLBACK_BYTES = 64"

definition MAX_TELEGRAM_BUTTON_TEXT_CHARS :: nat where
  "MAX_TELEGRAM_BUTTON_TEXT_CHARS = 64"

definition telegram_button_text :: "string \<Rightarrow> nat \<Rightarrow> string" where
  "telegram_button_text label max_chars =
     (let cs = utf8_chars label in
      if length cs \<le> max_chars then label else concat (take (max_chars - 3) cs) @ ''...'')"

fun rows_of_two :: "'a list \<Rightarrow> 'a list list" where
  "rows_of_two (x # y # xs) = [x, y] # rows_of_two xs"
| "rows_of_two [x] = [x] # []"
| "rows_of_two [] = []"

definition choice_keyboard_from_controls :: "outbound_message \<Rightarrow> (string \<times> string) list list option" where
  "choice_keyboard_from_controls m =
     (let buttons = take 20 (List.map_filter
            (\<lambda>c. case co_callback_data c of
                   Some d \<Rightarrow> if length d \<le> MAX_TELEGRAM_CALLBACK_BYTES
                              then Some (telegram_button_text (co_label c) MAX_TELEGRAM_BUTTON_TEXT_CHARS, d)
                              else None
                 | None \<Rightarrow> None)
            (concat (map cc_options (om_controls m))))
      in if buttons = [] then None else Some (rows_of_two buttons))"

definition telegram_keyboard_for_message :: "outbound_message \<Rightarrow> bool \<Rightarrow> (string \<times> string) list list option" where
  "telegram_keyboard_for_message m rich = (if rich then choice_keyboard_from_controls m else None)"

section \<open>What a button means\<close>

lemma split_once_append:
  assumes "\<And>c. c \<in> set a \<Longrightarrow> \<not> P c" "P d"
  shows "split_once P (a @ d # s) = Some (a, s)"
  using assms by (induction a) (auto simp: split_once_def)

lemma split_once_none: "(\<And>c. c \<in> set a \<Longrightarrow> \<not> P c) \<Longrightarrow> split_once P a = None"
proof -
  assume "\<And>c. c \<in> set a \<Longrightarrow> \<not> P c"
  then have "dropWhile (\<lambda>c. \<not> P c) a = []" by simp
  then show ?thesis by (simp only: split_once_def list.case)
qed

lemma split_once_char: "d \<notin> set a \<Longrightarrow> split_once (\<lambda>c. c = d) (a @ d # s) = Some (a, s)"
  by (rule split_once_append) auto

lemma splitn_colons:
  assumes "CHR '':'' \<notin> set a" "CHR '':'' \<notin> set b"
  shows "splitn 4 (CHR '':'') (a @ CHR '':'' # b @ CHR '':'' # s) =
    a # b # splitn 2 (CHR '':'') s"
  using assms by (simp add: numeral_eq_Suc split_once_char)

lemma splitn_last:
  "splitn 2 c s = (case split_once (\<lambda>d. d = c) s of None \<Rightarrow> [s] | Some (a, b) \<Rightarrow> [a, b])"
  by (simp add: numeral_eq_Suc split: option.splits prod.splits)

text \<open>Ids a button can carry.\<close>

definition button_segment :: "string \<Rightarrow> bool" where
  "button_segment i \<longleftrightarrow> valid_callback_segment i \<and> CHR '':'' \<notin> set i"

lemma split_once_in:
  assumes "CHR '':'' \<in> set i"
  obtains a b where "i = a @ CHR '':'' # b" "split_once (\<lambda>d. d = CHR '':'') i = Some (a, b)"
proof -
  from split_list_first [OF assms] obtain a b where "i = a @ CHR '':'' # b" "CHR '':'' \<notin> set a" by blast
  with that split_once_append [of a "\<lambda>d. d = CHR '':''" "CHR '':''" b] show thesis by auto
qed

lemma parse_simple_button:
  assumes "CHR '':'' \<notin> set k" "k \<noteq> ''session''"
  shows "parse_callback_action (''cf:'' @ k @ '':'' @ i) =
    (if \<not> button_segment i then None
     else if k = ''agent'' then Some (CbAgent i)
     else if k = ''model'' then Some (CbModel i)
     else if k = ''approve'' then Some (CbApprove i)
     else if k = ''deny'' then Some (CbDeny i)
     else None)"
proof -
  have "splitn 4 (CHR '':'') (''cf:'' @ k @ '':'' @ i) = ''cf'' # k # splitn 2 (CHR '':'') i"
    using splitn_colons [of "''cf''" k i] assms by simp
  then show ?thesis
  proof (cases "CHR '':'' \<in> set i")
    case True
    then obtain a b where "split_once (\<lambda>d. d = CHR '':'') i = Some (a, b)" by (rule split_once_in)
    with \<open>splitn 4 _ _ = _\<close> True assms show ?thesis
      by (simp add: parse_callback_action_def splitn_last button_segment_def)
  next
    case False
    then have "split_once (\<lambda>d. d = CHR '':'') i = None" by (intro split_once_none) auto
    with \<open>splitn 4 _ _ = _\<close> False assms show ?thesis
      by (simp add: parse_callback_action_def splitn_last button_segment_def)
  qed
qed

lemma parse_session_button:
  assumes "CHR '':'' \<notin> set a"
  shows "parse_callback_action (''cf:session:'' @ a @ '':'' @ n) =
    (if valid_callback_segment a \<and> valid_callback_segment n then Some (CbSession a n) else None)"
proof -
  have "splitn 4 (CHR '':'') (''cf:session:'' @ a @ '':'' @ n) = ''cf'' # ''session'' # splitn 2 (CHR '':'') (a @ CHR '':'' # n)"
    using splitn_colons [of "''cf''" "''session''" "a @ CHR '':'' # n"] by simp
  moreover have "split_once (\<lambda>d. d = CHR '':'') (a @ CHR '':'' # n) = Some (a, n)"
    using assms by (intro split_once_append) auto
  ultimately show ?thesis by (simp add: parse_callback_action_def splitn_last)
qed

text \<open>The command a press of a button stands for.\<close>

definition press :: "choice_option \<Rightarrow> string option" where
  "press c = map_option callback_command (Option.bind (co_callback_data c) parse_callback_action)"

lemma press_choices:
  "press (agent_choice l i) = (if button_segment i then Some (co_command (agent_choice l i)) else None)"
  "press (model_choice l i) = (if button_segment i then Some (co_command (model_choice l i)) else None)"
  "press (approve_choice i) = (if button_segment i then Some (co_command (approve_choice i)) else None)"
  "press (deny_choice i) = (if button_segment i then Some (co_command (deny_choice i)) else None)"
  using parse_simple_button [of "''agent''" i] parse_simple_button [of "''model''" i]
    parse_simple_button [of "''approve''" i] parse_simple_button [of "''deny''" i]
  by (simp_all add: press_def agent_choice_def model_choice_def approve_choice_def deny_choice_def
      new_choice_def)

lemma press_session:
  "CHR '':'' \<notin> set a \<Longrightarrow> press (session_choice l a n) =
    (if valid_callback_segment a \<and> valid_callback_segment n
     then Some (co_command (session_choice l a n)) else None)"
  using parse_session_button [of a n] by (simp add: press_def session_choice_def new_choice_def)



section \<open>Presses of a button\<close>

definition callback_reply_succeeded :: "string \<Rightarrow> bool" where
  "callback_reply_succeeded reply \<longleftrightarrow>
     prefix [CHR 0xE2, CHR 0x9C, CHR 0x85] (trim_start reply) \<or> prefix [CHR 0xF0, CHR 0x9F, CHR 0x94, CHR 0x84] (trim_start reply)"

definition MAX_CALLBACK_ANSWER_CHARS :: nat where
  "MAX_CALLBACK_ANSWER_CHARS = 200"

definition truncate_callback_text :: "string \<Rightarrow> string" where
  "truncate_callback_text t =
     (let cs = utf8_chars t in
      if length cs \<le> MAX_CALLBACK_ANSWER_CHARS then t
      else concat (take (MAX_CALLBACK_ANSWER_CHARS - 1) cs) @ [CHR 0xE2, CHR 0x80, CHR 0xA6])"

text \<open>The answer to a press, and whether it is shown as an alert.\<close>

definition callback_feedback :: "string \<Rightarrow> bool \<Rightarrow> string \<times> bool" where
  "callback_feedback reply chat_will_receive =
     (let ok = callback_reply_succeeded reply in
      (if chat_will_receive then (if ok then ''Updated.'' else ''Action was not applied.'')
       else truncate_callback_text (trim reply), \<not> ok))"

record callback_query =
  cq_user :: string
  cq_data :: "string option"
  cq_chat :: "string option"

definition answer_query :: "string \<Rightarrow> bool \<Rightarrow> 'ast channel_state \<Rightarrow> 'ast channel_state" where
  "answer_query t alert = note_chat (CeAnswer t alert)"

definition approval_pressed ::
  "('e, 'p, 'q, 'ast) channel_world \<Rightarrow> callback_action \<Rightarrow> string option \<Rightarrow> 'ast channel_state \<Rightarrow>
   'ast channel_state" where
  "approval_pressed w act chat s =
     (let s1 = answer_query ''Approval submitted.'' False s;
          f = (case act of CbApprove _ \<Rightarrow> handle_approve | _ \<Rightarrow> handle_deny)
      in case chat of
           None \<Rightarrow> s1
         | Some c \<Rightarrow>
             (case on_handler (f (xw_chat w) (callback_command act)) s1 of
                ((ack, follow_up), s2) \<Rightarrow>
                  send_all c (say ack @ (case follow_up of Some m \<Rightarrow> say m | None \<Rightarrow> []), s2)))"

definition choice_pressed ::
  "('e, 'p, 'q, 'ast) channel_world \<Rightarrow> callback_action \<Rightarrow> string \<Rightarrow> string option \<Rightarrow>
   'ast channel_state \<Rightarrow> 'ast channel_state" where
  "choice_pressed w act who chat s =
     (case on_handler
         (case act of
            CbModel _ \<Rightarrow> handle_model (xw_chat w) (xw_setup w) (callback_command act) who
          | _ \<Rightarrow> handle_switch (xw_chat w) (su_config (xw_setup w)) (callback_command act) who) s of
        (reply, s1) \<Rightarrow>
          (case callback_feedback reply (chat \<noteq> None) of
             (t, alert) \<Rightarrow>
               (let s2 = answer_query t alert s1
                in case chat of None \<Rightarrow> s2 | Some c \<Rightarrow> send_all c (say reply, s2))))"

definition handle_callback_query ::
  "('e, 'p, 'q, 'ast) channel_world \<Rightarrow> callback_query \<Rightarrow> 'ast channel_state \<Rightarrow> 'ast channel_state" where
  "handle_callback_query w q s =
     (case resolve_channel_sender (su_config (xw_setup w)) ''telegram'' (cq_user q) of
        None \<Rightarrow> answer_query ''This Telegram user is not allowed.'' False s
      | Some i \<Rightarrow>
          if \<not> channel_allows_rich_ui (su_config (xw_setup w)) ''telegram''
          then answer_query ''Buttons are disabled for this channel.'' False s
          else case parse_callback_action (case cq_data q of Some d \<Rightarrow> d | None \<Rightarrow> []) of
                 None \<Rightarrow> answer_query ''Unknown Calciforge action.'' False s
               | Some act \<Rightarrow>
                   (case act of
                      CbApprove _ \<Rightarrow> approval_pressed w act (cq_chat q) s
                    | CbDeny _ \<Rightarrow> approval_pressed w act (cq_chat q) s
                    | _ \<Rightarrow> choice_pressed w act (ci_id i) (cq_chat q) s))"

section \<open>Rooms\<close>

definition is_sender_allowed :: "string list \<Rightarrow> string \<Rightarrow> bool" where
  "is_sender_allowed allowed sender \<longleftrightarrow>
     list_ex (\<lambda>u. u = ''*'') allowed \<or> list_ex (\<lambda>u. eq_ignore_case u sender) allowed"

definition MAX_RECENT_EVENT_IDS :: nat where
  "MAX_RECENT_EVENT_IDS = 2048"

text \<open>The ids seen, oldest first, and as a set.\<close>

definition cache_event_id :: "string \<Rightarrow> string list \<times> string set \<Rightarrow> bool \<times> string list \<times> string set" where
  "cache_event_id i seen =
     (case seen of (order, lookup) \<Rightarrow>
        (if i \<in> lookup then (True, order, lookup)
         else let order' = order @ [i]; lookup' = insert i lookup in
              if MAX_RECENT_EVENT_IDS < length order'
              then (case order' of
                      old # rest \<Rightarrow> (False, rest, lookup' - {old})
                    | [] \<Rightarrow> (False, order', lookup'))
              else (False, order', lookup')))"

record matrix_room =
  mr_allowed :: "string list"
  mr_own_id :: string
  mr_target :: "string option"

record matrix_event =
  me_type :: string
  me_room :: string
  me_sender :: string
  me_msgtype :: "string option"
  me_body :: "string option"
  me_id :: "string option"

text \<open>The body of an event that is a message to Calciforge.\<close>

definition matrix_body :: "matrix_room \<Rightarrow> matrix_event \<Rightarrow> string option" where
  "matrix_body r e =
     (if (case mr_target r of Some t \<Rightarrow> me_room e \<noteq> t | None \<Rightarrow> False) then None
      else if me_type e \<noteq> ''m.room.message'' then None
      else if me_sender e = mr_own_id r then None
      else if \<not> is_sender_allowed (mr_allowed r) (me_sender e) then None
      else if (case me_msgtype e of Some t \<Rightarrow> t | None \<Rightarrow> []) \<notin> {''m.text'', ''m.notice''} then None
      else case me_body e of Some b \<Rightarrow> if trim b = [] then None else Some b | None \<Rightarrow> None)"

definition matrix_event_id :: "matrix_event \<Rightarrow> string" where
  "matrix_event_id e =
     (case me_id e of Some i \<Rightarrow> i | None \<Rightarrow> ''no-id-'' @ me_room e @ ''-'' @ me_sender e)"

text \<open>A sender of no identity counts as one of its own.\<close>

definition matrix_identity :: "chat_config \<Rightarrow> string \<Rightarrow> string" where
  "matrix_identity cf sender =
     (case resolve_channel_sender cf ''matrix'' sender of Some i \<Rightarrow> ci_id i | None \<Rightarrow> sender)"

definition matrix_dispatch ::
  "('e, 'p, 'q, 'ast) channel_world \<Rightarrow> nat \<Rightarrow> u64 \<Rightarrow> string \<Rightarrow> string \<Rightarrow> string \<Rightarrow>
   'ast channel_state \<Rightarrow> 'ast channel_state" where
  "matrix_dispatch w now ms who room body s =
     start_job w (xs_next s) (handle_authorized w matrix_texts now ms who (''matrix-'' @ who) room body s)"

definition matrix_handle_event ::
  "('e, 'p, 'q, 'ast) channel_world \<Rightarrow> matrix_room \<Rightarrow> nat \<Rightarrow> u64 \<Rightarrow> matrix_event \<Rightarrow>
   (string list \<times> string set) \<times> 'ast channel_state \<Rightarrow> (string list \<times> string set) \<times> 'ast channel_state" where
  "matrix_handle_event w r now ms e st =
     (case matrix_body r e of
        None \<Rightarrow> st
      | Some body \<Rightarrow>
          (case cache_event_id (matrix_event_id e) (fst st) of
             (dup, seen) \<Rightarrow>
               (seen, if dup then snd st
                      else matrix_dispatch w now ms (matrix_identity (su_config (xw_setup w)) (me_sender e))
                             (me_room e) body (snd st))))"

end
