(* ===== verification/Chat_Safety.thy ===== *)
theory Chat_Safety
  imports Chat_Transports
begin

text \<open>
  What holds of all channels together, in whatever order messages, presses of buttons and answers of
  agents come: where messages go, and which of them can store a secret.
\<close>

section \<open>What agents may be sent\<close>

definition routed :: "chat_config \<Rightarrow> string \<Rightarrow> string \<Rightarrow> bool" where
  "routed cf who i \<longleftrightarrow>
     (\<exists>r. find_rule cf who = Some r \<and> (i = rr_default_agent r \<or> i \<in> set (allowed_agent_ids cf r)))"

definition dispatch_ok :: "chat_config \<Rightarrow> chat_dispatch \<Rightarrow> bool" where
  "dispatch_ok cf d \<longleftrightarrow>
     routed cf (dp_sender d) (dp_agent d) \<and>
     (\<exists>a. find_agent cf (dp_agent d) = Some a \<and> (dp_model d \<noteq> None \<longrightarrow> agent_supports_model_override a))"

definition commands_only :: "choice_control list \<Rightarrow> bool" where
  "commands_only cs \<longleftrightarrow> (\<forall>c \<in> set cs. \<forall>x \<in> set (cc_options c). is_command (co_command x))"

text \<open>What a command may change of the handler's state.\<close>

definition handler_ok :: "chat_config \<Rightarrow> handler_state \<Rightarrow> handler_state \<Rightarrow> bool" where
  "handler_ok cf h h' \<longleftrightarrow>
     (\<forall>who i. hs_agents h' who = Some i \<longrightarrow> hs_agents h who = Some i \<or> routed cf who i) \<and>
     (\<forall>who p. hs_pending h' who = Some p \<longrightarrow> hs_pending h who = Some p \<or> commands_only (pc_controls p)) \<and>
     (\<forall>d. CeDispatch d \<in> set (hs_log h') \<longrightarrow> CeDispatch d \<in> set (hs_log h) \<or> dispatch_ok cf d) \<and>
     set (hs_log h) \<subseteq> set (hs_log h')"

lemma handler_ok_refl [simp, intro]: "handler_ok cf h h"
  by (simp add: handler_ok_def)

lemma handler_ok_trans: "handler_ok cf a b \<Longrightarrow> handler_ok cf b c \<Longrightarrow> handler_ok cf a c"
  unfolding handler_ok_def
  apply (elim conjE)
  apply (intro conjI allI impI)
     apply (metis (no_types, lifting))
    apply (metis (no_types, lifting))
   apply (metis (no_types, lifting))
  apply (rule subset_trans)
   apply assumption+
  done

text \<open>Steps that leave agents, pending choices and the log alone.\<close>

lemma handler_ok_same:
  "hs_agents h' = hs_agents h \<Longrightarrow> hs_pending h' = hs_pending h \<Longrightarrow> hs_log h' = hs_log h \<Longrightarrow> handler_ok cf h h'"
  by (simp add: handler_ok_def)

lemma handler_ok_note: "(\<And>d. e = CeDispatch d \<Longrightarrow> dispatch_ok cf d) \<Longrightarrow> handler_ok cf h (note_event e h)"
  by (auto simp: handler_ok_def note_event_def)

lemma handler_ok_offer: "commands_only (om_controls m) \<Longrightarrow> handler_ok cf h (record_pending_choices now who m h)"
  by (auto simp: handler_ok_def record_pending_choices_def)

lemma handler_ok_drop: "handler_ok cf h (drop_pending who h)"
  by (auto simp: handler_ok_def drop_pending_def)

lemma saved [simp]:
  "hs_agents (save_active_agents w h) = hs_agents h" "hs_pending (save_active_agents w h) = hs_pending h"
  "hs_log (save_active_agents w h) = hs_log h" "hs_fnox (save_active_agents w h) = hs_fnox h"
  "hs_sessions (save_active_agents w h) = hs_sessions h"
  "hs_agents (save_active_models w h) = hs_agents h" "hs_pending (save_active_models w h) = hs_pending h"
  "hs_log (save_active_models w h) = hs_log h" "hs_fnox (save_active_models w h) = hs_fnox h"
  "hs_agents (save_active_sessions w h) = hs_agents h" "hs_pending (save_active_sessions w h) = hs_pending h"
  "hs_log (save_active_sessions w h) = hs_log h" "hs_fnox (save_active_sessions w h) = hs_fnox h"
  by (simp_all add: save_active_agents_def save_active_models_def save_active_sessions_def)

lemma handler_ok_agent: "routed cf who i \<Longrightarrow> handler_ok cf h (set_active_agent w who i h)"
  by (auto simp: handler_ok_def set_active_agent_def)

lemma handler_ok_sessions: "handler_ok cf h (save_active_sessions w (h\<lparr>hs_sessions := ss\<rparr>))"
  by (rule handler_ok_same) simp_all

lemma handler_ok_model: "handler_ok cf h (set_active_model w who m h)"
  by (rule handler_ok_same) (simp_all add: set_active_model_def)

section \<open>Commands\<close>

lemma matched_routed: "find_rule cf who = Some r \<Longrightarrow> matched_agent cf r arg = Some i \<Longrightarrow> routed cf who i"
  by (auto simp: matched_agent_def routed_def find_Some_iff)

lemma default_routed: "default_agent_for cf who = Some i \<Longrightarrow> routed cf who i"
  by (auto simp: default_agent_for_def routed_def)

lemma switch_ok: "routed cf who i \<Longrightarrow> handler_ok cf h (snd (switch_to w cf who i session h))"
  unfolding switch_to_def Let_def
  by (auto split: option.split intro: handler_ok_trans [OF handler_ok_agent handler_ok_sessions])

lemma handle_switch_ok: "handler_ok cf h (snd (handle_switch w cf text who h))"
  unfolding handle_switch_def
  by (auto split: list.split option.split dest: matched_routed intro: switch_ok)

lemma handle_default_ok: "handler_ok cf h (snd (handle_default w cf who h))"
  unfolding handle_default_def Let_def
  by (auto split: option.split dest: default_routed
      intro: handler_ok_trans [OF handler_ok_agent handler_ok_sessions])

lemma handle_new_session_ok: "handler_ok cf h (snd (handle_new_session w cf text who h))"
  unfolding handle_new_session_def Let_def
  by (auto split: option.split list.split simp: set_active_session_def intro: handler_ok_sessions)

lemma use_synthetic_ok: "handler_ok cf h (snd (use_synthetic w sel m note who h))"
proof -
  have "handler_ok cf h (set_active_model w who m (h\<lparr>hs_sel := st\<rparr>))" "handler_ok cf h (h\<lparr>hs_sel := st\<rparr>)" for st
    by (rule handler_ok_same; simp add: set_active_model_def)+
  then show ?thesis unfolding use_synthetic_def by (simp split: prod.split sum.split)
qed

lemma use_local_ok: "handler_ok cf h (snd (use_local w d m note who h))"
  unfolding use_local_def snd_conv
  by (rule handler_ok_trans [OF handler_ok_model handler_ok_note]) simp

lemma activate_model_ok: "handler_ok cf h (snd (activate_model w su requested m who h))"
  unfolding activate_model_def Let_def use_provider_def
  by (simp split: option.split add: use_synthetic_ok use_local_ok handler_ok_model)

lemma handle_model_ok: "handler_ok cf h (snd (handle_model w su text who h))"
  unfolding handle_model_def
  by (simp split: list.split sum.split option.split add: activate_model_ok)

lemma handle_sessions_ok: "handler_ok cf h (snd (handle_sessions_message w cf' text who h))"
proof -
  have "handler_ok cf h (snd (list_acpx_sessions w name a h))" for name a
    unfolding list_acpx_sessions_def Let_def
    by (auto split: sum.split acpx_result.split intro!: handler_ok_note)
  then show ?thesis
    unfolding handle_sessions_message_def sessions_of_agent_def Let_def
    by (auto split: option.split session_capability.split prod.split sum.split) (metis snd_conv)+
qed

lemma decide_ok: "handler_ok cf h (snd (decide w a b reason h))"
proof -
  have "handler_ok cf g (g\<lparr>hs_approvals := x\<rparr>)" for g x by (rule handler_ok_same) simp_all
  then have "handler_ok cf h (note_event (CePoll a p) ((note_event (CeDecision a b reason r) h)\<lparr>hs_approvals := x\<rparr>))"
    for p r x by (meson handler_ok_note handler_ok_trans chat_event.distinct)
  moreover have "handler_ok cf h (note_event (CeDecision a b reason r) h)" for r
    by (rule handler_ok_note) simp
  ultimately show ?thesis unfolding decide_def Let_def by (auto split: sum.split)
qed

lemma handle_approve_ok: "handler_ok cf h (snd (handle_approve w text h))"
  unfolding handle_approve_def by (auto split: sum.split intro: decide_ok)

lemma handle_deny_ok: "handler_ok cf h (snd (handle_deny w text h))"
  unfolding handle_deny_def by (auto split: sum.split prod.split intro: decide_ok)

lemma handle_async_ok: "handler_ok cf h (snd (handle_async w text h))"
  unfolding handle_async_def
  using handle_approve_ok [of cf h w "text"] handle_deny_ok [of cf h w "text"] by (auto split: prod.split)

lemma handle_secure_ok: "handler_ok cf h (snd (handle_secure w text h))"
proof -
  have "handler_ok cf h (h\<lparr>hs_fnox := ps\<rparr>)" for ps by (rule handler_ok_same) simp_all
  then have "handler_ok cf h (snd (secure_set w rest h))" "handler_ok cf h (snd (secure_list w h))" for rest
    unfolding secure_set_def secure_list_def Let_def by (auto split: prod.split)
  moreover have "handler_ok cf h (snd (secure_input w rest b h))" for rest b
    unfolding secure_input_def Let_def
    by (auto split: sum.split prod.split paste_start.split
        intro: handler_ok_note handler_ok_trans [OF handler_ok_note handler_ok_note])
  ultimately show ?thesis unfolding handle_secure_def Let_def by simp
qed


section \<open>Choices are commands\<close>

lemma is_command_bang: "is_command (CHR ''!'' # s)"
proof -
  have "visible (CHR ''!'')" by (simp add: visible_def is_ascii_def)
  then have "trim_start (CHR ''!'' # s) = CHR ''!'' # s"
    by (intro trim_start_fixed) (metis hd_append2 list.sel(1) prefix_def ws_seqs_ends ws_seqs_nonempty)
  moreover obtain r where "trim_end (''!'' @ s) = ''!'' @ r"
    using trim_end_keeps [of "''!''" s] \<open>visible _\<close> by auto
  ultimately show ?thesis by (simp add: is_command_def trim_def)
qed

lemma choices_are_commands [simp]:
  "is_command (co_command (agent_choice l i))" "is_command (co_command (model_choice l i))"
  "is_command (co_command (session_choice l a n))"
  "is_command (co_command (approve_choice i))" "is_command (co_command (deny_choice i))"
  by (simp_all add: agent_choice_def model_choice_def session_choice_def approve_choice_def
      deny_choice_def new_choice_def is_command_bang)

lemma commands_only_control:
  "(\<forall>x \<in> set (cc_options c). is_command (co_command x)) \<Longrightarrow>
   commands_only (om_controls (with_control c (text_message t)))"
  by (simp add: with_control_def text_message_def commands_only_def)

lemma commands_only_text [simp]: "commands_only (om_controls (text_message t))"
  by (simp add: text_message_def commands_only_def)

lemma agent_choices_only:
  "agent_choice_message_for_identity tt su h text who = Some m \<Longrightarrow> commands_only (om_controls m)"
  unfolding agent_choice_message_for_identity_def
  by (auto simp: Let_def split: if_splits sum.splits intro!: commands_only_control)

lemma model_choices_only: "model_choice_message tt su h text = Some m \<Longrightarrow> commands_only (om_controls m)"
  unfolding model_choice_message_def Let_def
  by (auto split: if_splits intro!: commands_only_control)

lemma approval_choices_only: "commands_only (om_controls (approval_request_message c r i))"
  unfolding approval_request_message_def by (rule commands_only_control) simp

lemma sessions_only: "commands_only (om_controls (fst (handle_sessions_message w cf text who h)))"
proof -
  have "commands_only (om_controls (active_sessions_message i ss))" for i ss
    unfolding active_sessions_message_def Let_def by (auto intro!: commands_only_control)
  then show ?thesis
    unfolding handle_sessions_message_def sessions_of_agent_def Let_def
    by (auto split: option.split session_capability.split prod.split sum.split)
qed

section \<open>Channels\<close>

abbreviation world_config :: "('e, 'p, 'q, 'ast) channel_world \<Rightarrow> chat_config" where
  "world_config w \<equiv> su_config (xw_setup w)"

definition channel_kept :: "chat_config \<Rightarrow> 'ast channel_state \<Rightarrow> 'ast channel_state \<Rightarrow> bool" where
  "channel_kept cf s s' \<longleftrightarrow>
     handler_ok cf (xs_handler s) (xs_handler s') \<and> xs_jobs s' = xs_jobs s \<and> xs_next s' = xs_next s"

lemma channel_kept_refl [simp, intro]: "channel_kept cf s s"
  by (simp add: channel_kept_def)

lemma channel_kept_trans: "channel_kept cf a b \<Longrightarrow> channel_kept cf b c \<Longrightarrow> channel_kept cf a c"
  by (auto simp: channel_kept_def intro: handler_ok_trans)

lemma channel_kept_note: "(\<And>d. e = CeDispatch d \<Longrightarrow> dispatch_ok cf d) \<Longrightarrow> channel_kept cf s (note_chat e s)"
  by (simp add: channel_kept_def note_chat_def handler_ok_note)

lemma channel_kept_handler:
  "handler_ok cf (xs_handler s) h \<Longrightarrow> channel_kept cf s (s\<lparr>xs_handler := h\<rparr>)"
  by (simp add: channel_kept_def)

lemma on_handler_kept:
  "handler_ok cf (xs_handler s) (snd (f (xs_handler s))) \<Longrightarrow> channel_kept cf s (snd (on_handler f s))"
  by (auto simp: on_handler_def channel_kept_def split: prod.split)

lemma speak_kept:
  "handler_ok cf (xs_handler s) (snd (f (xs_handler s))) \<Longrightarrow> channel_kept cf s (snd (speak f s))"
  using on_handler_kept [of cf s f] by (auto simp: speak_def split: prod.split)

lemma offer_kept: "commands_only (om_controls m) \<Longrightarrow> channel_kept cf s (snd (offer now who m s))"
  by (simp add: offer_def channel_kept_handler handler_ok_offer)

lemma channel_scan_kept: "channel_kept cf s (snd (channel_scan w text ctx s))"
  by (auto simp: channel_scan_def channel_kept_def note_chat_def intro!: handler_ok_note split: prod.split)

lemma router_receive_kept: "channel_kept cf s (snd (router_receive w a r s))"
  using channel_scan_kept [of cf s w]
  by (auto simp: router_receive_def scan_agent_response_def Let_def split: sum.split prod.split)
    (metis snd_conv)+

lemma send_all_kept: "channel_kept cf s (snd r) \<Longrightarrow> channel_kept cf s (send_all target r)"
proof -
  have "channel_kept cf s t \<Longrightarrow> channel_kept cf s (fold (\<lambda>m. note_chat (CeReply target m)) ms t)" for ms t
  proof (induction ms arbitrary: t)
    case (Cons m ms)
    have "channel_kept cf s (note_chat (CeReply target m) t)"
      by (rule channel_kept_trans [OF Cons.prems channel_kept_note]) simp
    then show ?case using Cons.IH by simp
  qed simp
  then show "channel_kept cf s (snd r) \<Longrightarrow> ?thesis" by (cases r) (simp add: send_all_def)
qed

lemma router_send_ok:
  "router_send w t a who m n kind = Inr d \<Longrightarrow>
   routed cf who (ag_id a) \<Longrightarrow> find_agent cf (ag_id a) = Some a \<Longrightarrow> dispatch_ok cf d"
  by (auto simp: router_send_def dispatch_ok_def effective_model_override_def split: sum.splits if_splits)

lemma find_agent_id: "find_agent cf i = Some a \<Longrightarrow> ag_id a = i"
  by (auto simp: find_agent_def find_Some_iff)

lemma dispatch_one_off_kept:
  assumes "routed (world_config w) who i"
  shows "channel_kept (world_config w) s (snd (dispatch_one_off_for_identity w t i who kind m s))"
proof (cases "find_agent (world_config w) i")
  case None
  then show ?thesis by (simp add: dispatch_one_off_for_identity_def)
next
  case (Some a)
  show ?thesis
  proof (cases "router_send w t a who m None kind")
    case (Inl e)
    then show ?thesis using Some by (simp add: dispatch_one_off_for_identity_def)
  next
    case (Inr d)
    have "dispatch_ok (world_config w) d"
      using Inr by (rule router_send_ok) (use Some assms find_agent_id in auto)
    then have "channel_kept (world_config w) s (note_chat (CeDispatch d) s)"
      by (intro channel_kept_note) simp
    then show ?thesis using Some Inr
      by (simp add: dispatch_one_off_for_identity_def Let_def
          channel_kept_trans [OF _ router_receive_kept])
  qed
qed

lemma resolve_allowed_routed: "resolve_allowed_agent_selector cf who sel = Some i \<Longrightarrow> routed cf who i"
proof -
  assume "resolve_allowed_agent_selector cf who sel = Some i"
  then obtain r where r: "find_rule cf who = Some r"
    and i: "i \<in> set (List.map_filter (\<lambda>i. Option.bind (find_agent cf i)
      (\<lambda>a. if names_agent sel a then Some (ag_id a) else None)) (allowed_agent_ids cf r))"
    by (auto simp: resolve_allowed_agent_selector_def split: option.splits list.splits)
  from i obtain j a where "j \<in> set (allowed_agent_ids cf r)" "find_agent cf j = Some a" "i = ag_id a"
    by (auto simp: map_filter_def split: if_splits bind_splits)
  with r find_agent_id show ?thesis by (auto simp: routed_def)
qed

lemma btw_routed: "parse_btw_command tt cf text who = Inr b \<Longrightarrow> routed cf who (bt_agent b)"
  unfolding parse_btw_command_def Let_def
  by (auto split: if_splits option.splits prod.splits dest!: resolve_allowed_routed)

lemma btw_reply_kept: "channel_kept (world_config w) s (snd (btw_reply w kind ms who text s))"
proof (cases "parse_btw_command (hw_tables (xw_chat w)) (world_config w) text who")
  case (Inl e)
  then show ?thesis by (simp add: btw_reply_def)
next
  case (Inr b)
  let ?m = "active_model_for_identity (xw_setup w) who (xs_handler s)"
  obtain r s' where d: "dispatch_one_off_for_identity w (bt_prompt b) (bt_agent b) who kind ?m s = (r, s')"
    by fastforce
  with dispatch_one_off_kept [OF btw_routed [OF Inr], where s = s and t = "bt_prompt b" and kind = kind and m = ?m]
  have k: "channel_kept (world_config w) s s'" by simp
  then have "channel_kept (world_config w) s (s'\<lparr>xs_handler := record_dispatch ms (xs_handler s')\<rparr>)"
    by (rule channel_kept_trans [OF _ channel_kept_handler])
      (rule handler_ok_same; simp add: record_dispatch_def)
  with k d Inr show ?thesis by (simp add: btw_reply_def split: sum.split)
qed


lemma list_reply_kept: "list_reply w now who text s = Some r \<Longrightarrow> channel_kept cf s (snd r)"
  unfolding list_reply_def Let_def
  by (auto split: option.splits if_splits intro!: offer_kept dest: agent_choices_only model_choices_only)

lemma sessions_kept:
  "channel_kept cf s (snd (case on_handler (handle_sessions_message cw cf' text who) s of
     (m, s') \<Rightarrow> offer now who m s'))"
proof -
  let ?f = "handle_sessions_message cw cf' text who"
  have "channel_kept cf s (snd (on_handler ?f s))" by (rule on_handler_kept) (rule handle_sessions_ok)
  moreover have "commands_only (om_controls (fst (on_handler ?f s)))"
    using sessions_only [of cw cf' "text" who "xs_handler s"]
    by (cases "?f (xs_handler s)") (simp add: on_handler_def)
  ultimately show ?thesis
    using channel_kept_trans offer_kept by (cases "on_handler ?f s") fastforce
qed

lemma async_reply_kept: "channel_kept cf s (snd (async_reply w text s))"
proof -
  have "channel_kept cf s (snd (on_handler (handle_async (xw_chat w) text) s))"
    by (rule on_handler_kept) (rule handle_async_ok)
  then show ?thesis by (auto simp: async_reply_def split: prod.split option.split)
qed

lemma secure_reply_kept: "channel_kept cf s (snd (secure_reply w k text s))"
  unfolding secure_reply_def by (auto intro: speak_kept handle_secure_ok)

lemma identity_reply_kept:
  assumes "identity_reply w k now ms who key text s = Some r"
  shows "channel_kept (world_config w) s (snd r)"
proof -
  have "channel_kept (world_config w) s (s\<lparr>xs_context := c\<rparr>)" for c
    by (simp add: channel_kept_def)
  with assms show ?thesis
    unfolding identity_reply_def Let_def
    by (auto split: if_splits simp: speak_kept handle_switch_ok handle_model_ok handle_new_session_ok
        handle_default_ok sessions_kept btw_reply_kept secure_reply_kept async_reply_kept)
qed

text \<open>A text with an exclamation mark is always a command.\<close>

lemma commands_answered:
  assumes "is_command text" "list_reply w now who text s = None"
  shows "identity_reply w k now ms who key text s \<noteq> None"
proof -
  let ?tt = "hw_tables (xw_chat w)"
  from assms(2) have "handle_command ?tt (xw_setup w) (xs_handler s) text = None"
    "\<not> is_unknown_channel_command ?tt text"
    by (auto simp: list_reply_def Let_def split: option.splits if_splits)
  moreover from this(1) assms(1) have "\<not> is_simple_local_command ?tt text"
    by (auto simp: handle_command_def is_simple_local_command_def is_command_def Let_def split: if_splits)
  ultimately have "is_status_command ?tt text \<or> is_gateway_command ?tt text \<or>
     is_switch_command ?tt text \<or> is_default_command ?tt text \<or> is_sessions_command ?tt text \<or>
     is_new_session_command ?tt text \<or> is_btw_command ?tt text \<or> is_model_command ?tt text \<or>
     is_secure_command ?tt text \<or> is_approve_command ?tt text \<or> is_deny_command ?tt text \<or>
     is_context_clear_command text"
    using assms(1) by (auto simp: is_unknown_channel_command_def is_known_channel_command_def)
  then show ?thesis by (auto simp: identity_reply_def Let_def)
qed

section \<open>The invariant\<close>

definition job_ok :: "chat_config \<Rightarrow> chat_event list \<Rightarrow> chat_job \<Rightarrow> bool" where
  "job_ok cf l j \<longleftrightarrow>
     \<not> is_command (jb_text j) \<and> routed cf (jb_who j) (ag_id (jb_agent j)) \<and>
     find_agent cf (ag_id (jb_agent j)) = Some (jb_agent j) \<and>
     (kt_scans (jb_texts j) \<and> scan_enabled cf (kt_kind (jb_texts j)) \<longrightarrow>
        (\<exists>v. CeScan (jb_text j) UserMessage v \<in> set l \<and> (\<forall>r. v \<noteq> Unsafe r)))"

definition chat_inv :: "chat_config \<Rightarrow> 'ast channel_state \<Rightarrow> bool" where
  "chat_inv cf s \<longleftrightarrow>
     (\<forall>who i. hs_agents (xs_handler s) who = Some i \<longrightarrow> routed cf who i) \<and>
     (\<forall>who p. hs_pending (xs_handler s) who = Some p \<longrightarrow> commands_only (pc_controls p)) \<and>
     (\<forall>d. CeDispatch d \<in> set (chat_log s) \<longrightarrow> dispatch_ok cf d) \<and>
     (\<forall>i j. xs_jobs s i = Some j \<longrightarrow> job_ok cf (chat_log s) j)"

lemma job_ok_mono: "job_ok cf l j \<Longrightarrow> set l \<subseteq> set l' \<Longrightarrow> job_ok cf l' j"
  by (auto simp: job_ok_def)

lemma channel_kept_inv: "channel_kept cf s s' \<Longrightarrow> chat_inv cf s \<Longrightarrow> chat_inv cf s'"
  unfolding channel_kept_def chat_inv_def handler_ok_def chat_log_def
  by (elim conjE, intro conjI) (metis job_ok_mono)+

lemma channel_kept_log: "channel_kept cf s s' \<Longrightarrow> set (chat_log s) \<subseteq> set (chat_log s')"
  by (simp add: channel_kept_def handler_ok_def chat_log_def)

text \<open>A text that may become a job: it was scanned, where the channel scans.\<close>

definition passed :: "chat_config \<Rightarrow> channel_texts \<Rightarrow> string \<Rightarrow> 'ast channel_state \<Rightarrow> bool" where
  "passed cf k text s \<longleftrightarrow>
     (kt_scans k \<and> scan_enabled cf (kt_kind k) \<longrightarrow>
        (\<exists>v. CeScan text UserMessage v \<in> set (chat_log s) \<and> (\<forall>r. v \<noteq> Unsafe r)))"

lemma new_job_inv:
  assumes "chat_inv (world_config w) s" "\<not> is_command text" "passed (world_config w) k text s"
  shows "chat_inv (world_config w) (snd (new_job w k who key target text s))"
proof (cases "Option.bind (active_agent_for (world_config w) who (xs_handler s)) (find_agent (world_config w))")
  case None
  then show ?thesis using assms(1)
    by (auto simp: new_job_def Let_def split: option.split)
next
  case (Some a)
  let ?cf = "world_config w"
  from Some obtain i where i: "active_agent_for ?cf who (xs_handler s) = Some i" "find_agent ?cf i = Some a"
    by (auto simp: bind_eq_Some_conv)
  then have id: "ag_id a = i" using find_agent_id by blast
  have "routed ?cf who i"
    using i(1) assms(1) default_routed by (auto simp: active_agent_for_def chat_inv_def split: option.splits)
  then have "job_ok ?cf (chat_log s) j"
    if "jb_text j = text" "jb_who j = who" "jb_agent j = a" "jb_texts j = k" for j
    using that i(2) id assms(2,3) by (simp add: job_ok_def passed_def)
  with assms(1) i show ?thesis
    by (simp add: new_job_def Let_def chat_inv_def chat_log_def)
qed

lemma handle_text_inv:
  assumes "chat_inv (world_config w) s" "is_command text \<or> passed (world_config w) k text s"
  shows "chat_inv (world_config w) (snd (handle_text w k now ms who key target text s))"
proof (cases "list_reply w now who text s")
  case (Some r)
  with channel_kept_inv [OF list_reply_kept [OF Some] assms(1)] show ?thesis by (simp add: handle_text_def)
next
  case None
  show ?thesis
  proof (cases "identity_reply w k now ms who key text s")
    case (Some r)
    with channel_kept_inv [OF identity_reply_kept [OF Some] assms(1)] None
    show ?thesis by (simp add: handle_text_def)
  next
    case none: None
    with None have "\<not> is_command text" using commands_answered by blast
    with assms None none new_job_inv show ?thesis by (simp add: handle_text_def)
  qed
qed

lemma send_all_inv: "chat_inv cf (snd r) \<Longrightarrow> chat_inv cf (send_all target r)"
  using channel_kept_inv [OF send_all_kept [of cf "snd r" r target]] by simp

lemma resolve_choice_ok:
  assumes "resolve_pending_choice_reply tt now who text h = (r, h')"
  shows "handler_ok cf h h'"
  using assms unfolding resolve_pending_choice_reply_def
  by (auto split: option.splits if_splits sum.splits prod.splits simp: handler_ok_drop)

lemma resolve_choice_command:
  assumes "resolve_pending_choice_reply tt now who text h = (Some (ChoiceCommand c), h')"
    and "\<forall>who p. hs_pending h who = Some p \<longrightarrow> commands_only (pc_controls p)"
  shows "is_command c"
proof -
  from assms(1) obtain p x where "hs_pending h who = Some p"
    "match_controls tt text (pc_controls p) (False, False) = Inl x" "c = co_command x"
    by (auto simp: resolve_pending_choice_reply_def split: option.splits if_splits sum.splits prod.splits)
  with assms(2) match_controls_Inl show ?thesis unfolding commands_only_def by metis
qed

lemma handle_authorized_inv:
  assumes "chat_inv (world_config w) s" "passed (world_config w) k text s"
  shows "chat_inv (world_config w) (handle_authorized w k now ms who key target text s)"
proof -
  let ?cf = "world_config w" and ?f = "resolve_pending_choice_reply (hw_tables (xw_chat w)) now who text"
  obtain r h where f: "?f (xs_handler s) = (r, h)" by fastforce
  let ?s = "s\<lparr>xs_handler := h\<rparr>"
  have kept: "channel_kept ?cf s ?s" by (rule channel_kept_handler) (rule resolve_choice_ok [OF f])
  then have inv: "chat_inv ?cf ?s" using assms(1) by (rule channel_kept_inv)
  have passed: "passed ?cf k text ?s"
    using assms(2) channel_kept_log [OF kept] by (auto simp: passed_def)
  have "is_command c" if "r = Some (ChoiceCommand c)" for c
    using that f assms(1) resolve_choice_command [of "hw_tables (xw_chat w)" now who "text" "xs_handler s" c h]
    by (simp add: chat_inv_def)
  with inv passed f show ?thesis
    by (auto simp: handle_authorized_def on_handler_def split: option.split choice_reply.split
        intro!: send_all_inv handle_text_inv)
qed


lemma inbound_scan_passed:
  assumes "inbound_scan w k text s = (None, s')"
  shows "channel_kept (world_config w) s s' \<and> passed (world_config w) k text s'"
proof (cases "kt_scans k \<and> scan_enabled (world_config w) (kt_kind k)")
  case True
  obtain v t where v: "channel_scan w text UserMessage s = (v, t)" by fastforce
  with assms True have "s' = t" "\<forall>r. v \<noteq> Unsafe r"
    by (auto simp: inbound_scan_def split: scan_verdict.splits)
  moreover have "CeScan text UserMessage v \<in> set (chat_log t)"
    using v by (auto simp: channel_scan_def note_chat_def note_event_def chat_log_def split: prod.splits)
  ultimately show ?thesis
    using channel_scan_kept [of "world_config w" s w "text" UserMessage] v by (auto simp: passed_def)
next
  case False
  with assms show ?thesis by (auto simp: inbound_scan_def passed_def)
qed

lemma handle_message_inv:
  assumes "chat_inv (world_config w) s"
  shows "chat_inv (world_config w) (handle_message w k key now ms m s)"
proof (cases "resolve_channel_sender (world_config w) (kt_kind k) (cm_sender m)")
  case None
  then show ?thesis using assms by (simp add: handle_message_def)
next
  case (Some i)
  obtain b s' where b: "inbound_scan w k (cm_content m) s = (b, s')" by fastforce
  show ?thesis
  proof (cases b)
    case None
    with b inbound_scan_passed have "channel_kept (world_config w) s s'" "passed (world_config w) k (cm_content m) s'"
      by blast+
    with assms Some b None show ?thesis
      by (simp add: handle_message_def Let_def handle_authorized_inv channel_kept_inv)
  next
    case (Some r)
    then have "channel_kept (world_config w) s s'"
      using b channel_scan_kept [of "world_config w" s w "cm_content m" UserMessage]
      by (auto simp: inbound_scan_def split: if_splits prod.splits)
    with assms \<open>resolve_channel_sender _ _ _ = _\<close> b Some show ?thesis
      by (simp add: handle_message_def Let_def send_all_inv channel_kept_inv)
  qed
qed

lemma end_job_inv: "chat_inv cf s \<Longrightarrow> chat_inv cf (end_job i s)"
  by (simp add: chat_inv_def end_job_def chat_log_def)

lemma start_job_inv:
  assumes "chat_inv (world_config w) s"
  shows "chat_inv (world_config w) (start_job w i s)"
proof (cases "xs_jobs s i")
  case None
  then show ?thesis using assms by (simp add: start_job_def)
next
  case (Some j)
  let ?cf = "world_config w"
  let ?s = "s\<lparr>xs_jobs := (xs_jobs s)(i \<mapsto> j\<lparr>jb_sent := True\<rparr>)\<rparr>"
  let ?r = "router_send w (augmented_text j s) (jb_agent j) (jb_who j) (jb_model j) (jb_session j)
    (kt_kind (jb_texts j))"
  have j: "job_ok ?cf (chat_log s) j" using assms Some by (simp add: chat_inv_def)
  then have "chat_inv ?cf ?s" using assms by (auto simp: chat_inv_def chat_log_def job_ok_def)
  moreover have "dispatch_ok ?cf d" if "?r = Inr d" for d
    using that by (rule router_send_ok) (use j in \<open>simp_all add: job_ok_def\<close>)
  ultimately have "chat_inv ?cf (note_chat (CeDispatch d) ?s)" if "?r = Inr d" for d
    using channel_kept_inv [OF channel_kept_note] that by blast
  then show ?thesis using assms Some
    by (auto simp: start_job_def intro!: send_all_inv end_job_inv split: sum.split)
qed

lemma answered_kept: "channel_kept cf s (snd (answered w ms j m s))"
  by (simp add: answered_def channel_kept_def) (rule handler_ok_same; simp add: record_dispatch_def)

lemma ask_approval_kept: "channel_kept cf s (snd (ask_approval w now j r s))"
proof -
  have "handler_ok cf h (register_pending_approval a h)" for h a
    by (rule handler_ok_same) (simp_all add: register_pending_approval_def)
  then have "channel_kept cf s (s\<lparr>xs_handler := register_pending_approval a (xs_handler s)\<rparr>)" for a
    by (rule channel_kept_handler)
  then show ?thesis
    unfolding ask_approval_def by (rule channel_kept_trans [OF _ offer_kept]) (rule approval_choices_only)
qed

lemma finish_job_inv:
  assumes "chat_inv (world_config w) s"
  shows "chat_inv (world_config w) (finish_job w i now ms r s)"
proof (cases "xs_jobs s i")
  case None
  then show ?thesis using assms by (simp add: finish_job_def)
next
  case (Some j)
  let ?cf = "world_config w"
  obtain q s' where q: "router_receive w (jb_agent j) r (end_job i s) = (q, s')" by fastforce
  then have inv: "chat_inv ?cf s'"
    using channel_kept_inv [OF router_receive_kept end_job_inv [OF assms]] by (metis snd_conv)
  then show ?thesis
    using assms Some q channel_kept_inv [OF answered_kept inv] channel_kept_inv [OF ask_approval_kept inv]
    by (auto simp: finish_job_def intro!: send_all_inv split: sum.split router_error.split)
qed

lemma approval_pressed_inv:
  assumes "chat_inv cf s"
  shows "chat_inv cf (approval_pressed w act chat s)"
proof -
  let ?f = "(case act of CbApprove _ \<Rightarrow> handle_approve | _ \<Rightarrow> handle_deny) (xw_chat w) (callback_command act)"
  let ?s = "answer_query ''Approval submitted.'' False s"
  have s: "chat_inv cf ?s"
    unfolding answer_query_def by (rule channel_kept_inv [OF channel_kept_note assms]) simp
  have "channel_kept cf ?s (snd (on_handler ?f ?s))"
    by (rule on_handler_kept) (auto split: callback_action.split simp: handle_approve_ok handle_deny_ok)
  with s have "chat_inv cf (snd (on_handler ?f ?s))" by (rule channel_kept_inv [rotated])
  then show ?thesis using s
    by (auto simp: approval_pressed_def Let_def intro!: send_all_inv split: option.split prod.splits)
qed

lemma choice_pressed_inv:
  assumes "chat_inv (world_config w) s"
  shows "chat_inv (world_config w) (choice_pressed w act who chat s)"
proof -
  let ?f = "case act of CbModel _ \<Rightarrow> handle_model (xw_chat w) (xw_setup w) (callback_command act) who
          | _ \<Rightarrow> handle_switch (xw_chat w) (su_config (xw_setup w)) (callback_command act) who"
  obtain r t where f: "on_handler ?f s = (r, t)" by fastforce
  have "channel_kept (world_config w) s (snd (on_handler ?f s))"
    by (rule on_handler_kept) (auto split: callback_action.split simp: handle_model_ok handle_switch_ok simp del: callback_command.simps)
  with f assms have "chat_inv (world_config w) t" by (metis channel_kept_inv snd_conv)
  then have "chat_inv (world_config w) (answer_query x b t)" for x b
    unfolding answer_query_def by (rule channel_kept_inv [OF channel_kept_note, rotated]) simp
  with f show ?thesis
    by (auto simp: choice_pressed_def Let_def intro!: send_all_inv split: option.split prod.split)
qed


lemma handle_callback_query_inv:
  "chat_inv (world_config w) s \<Longrightarrow> chat_inv (world_config w) (handle_callback_query w q s)"
proof -
  assume s: "chat_inv (world_config w) s"
  then have "chat_inv (world_config w) (answer_query x b s)" for x b
    unfolding answer_query_def by (rule channel_kept_inv [OF channel_kept_note, rotated]) simp
  with s show ?thesis
    by (simp add: handle_callback_query_def approval_pressed_inv choice_pressed_inv
        split: option.split callback_action.split)
qed

lemma matrix_event_inv:
  "chat_inv (world_config w) (snd st) \<Longrightarrow> chat_inv (world_config w) (snd (matrix_handle_event w r now ms e st))"
proof -
  have "passed cf matrix_texts b s" for cf b s by (simp add: passed_def matrix_texts_def)
  then show "chat_inv (world_config w) (snd st) \<Longrightarrow> ?thesis"
    by (auto simp: matrix_handle_event_def matrix_dispatch_def split: option.split prod.split
        intro!: start_job_inv handle_authorized_inv)
qed

section \<open>All that can happen\<close>

datatype chat_op =
    OpSms nat u64 channel_message
  | OpWhatsapp nat u64 channel_message
  | OpSignal nat u64 channel_message
  | OpTelegram nat u64 channel_message
  | OpCallback callback_query
  | OpMatrix nat u64 matrix_event
  | OpStart nat
  | OpFinish nat nat u64 "adapter_error + outbound_message"

type_synonym 'ast chat_system = "(string list \<times> string set) \<times> 'ast channel_state"

fun chat_step ::
  "('e, 'p, 'q, 'ast) channel_world \<Rightarrow> matrix_room \<Rightarrow> 'ast chat_system \<Rightarrow> chat_op \<Rightarrow> 'ast chat_system" where
  "chat_step w r (seen, s) (OpSms now ms m) = (seen, sms_handle_message w now ms m s)"
| "chat_step w r (seen, s) (OpWhatsapp now ms m) = (seen, whatsapp_handle_message w now ms m s)"
| "chat_step w r (seen, s) (OpSignal now ms m) = (seen, signal_handle_message w now ms m s)"
| "chat_step w r (seen, s) (OpTelegram now ms m) = (seen, telegram_handle_message w now ms m s)"
| "chat_step w r (seen, s) (OpCallback q) = (seen, handle_callback_query w q s)"
| "chat_step w r (seen, s) (OpMatrix now ms e) = matrix_handle_event w r now ms e (seen, s)"
| "chat_step w r (seen, s) (OpStart i) = (seen, start_job w i s)"
| "chat_step w r (seen, s) (OpFinish i now ms a) = (seen, finish_job w i now ms a s)"

text \<open>The start of the program, from what is on disk; no policy of the scanner is cached.\<close>

definition chat_start ::
  "('e, 'p, 'q, 'ast) channel_world \<Rightarrow> string list \<Rightarrow> chat_disk \<Rightarrow> sel_state \<Rightarrow> context_store \<Rightarrow>
   scan_audit_log \<Rightarrow> 'ast chat_system" where
  "chat_start w first_class dk sel ctx l =
     (let h = new_handler dk sel in
      (([], {}),
       \<lparr>xs_handler = (case su_selectors (xw_setup w) of
                        Some s \<Rightarrow> with_alloy_manager (xw_chat w) first_class (su_config (xw_setup w)) s h
                      | None \<Rightarrow> h),
        xs_context = ctx, xs_policies = Map.empty, xs_audit = l, xs_jobs = Map.empty, xs_next = 0\<rparr>))"

lemma chat_step_inv:
  "chat_inv (world_config w) (snd st) \<Longrightarrow> chat_inv (world_config w) (snd (chat_step w r st op))"
proof (cases st; cases op)
qed (simp_all add: sms_handle_message_def whatsapp_handle_message_def signal_handle_message_def
  telegram_handle_message_def handle_message_inv handle_callback_query_inv start_job_inv
  finish_job_inv matrix_event_inv)

lemma chat_run_inv:
  "chat_inv (world_config w) (snd st) \<Longrightarrow> chat_inv (world_config w) (snd (run_ops (chat_step w r) st ops))"
  by (induction ops arbitrary: st) (simp_all add: chat_step_inv)

lemma chat_start_inv:
  assumes "\<forall>who i. dk_agents dk who = Some i \<longrightarrow> routed (world_config w) who i"
  shows "chat_inv (world_config w) (snd (chat_start w first_class dk sel ctx l))"
  using assms
  by (auto simp: chat_start_def chat_inv_def chat_log_def new_handler_def with_alloy_manager_def Let_def
      split: option.split)

section \<open>Secrets by chat\<close>

abbreviation fnox_of :: "'ast channel_state \<Rightarrow> fnox_state" where
  "fnox_of s \<equiv> hs_fnox (xs_handler s)"

text \<open>The processes that were started, none of them given a value.\<close>

definition no_value :: "fnox_state \<Rightarrow> fnox_state \<Rightarrow> bool" where
  "no_value ps qs \<longleftrightarrow> (\<exists>new. qs = ps @ new \<and> list_all (\<lambda>p. fp_stdin p = None) new)"

lemma no_value_refl [simp, intro]: "no_value ps ps"
  by (simp add: no_value_def)

lemma note_event_fnox [simp]: "hs_fnox (note_event e h) = hs_fnox h"
  by (simp add: note_event_def)

lemma switch_fnox [simp]: "hs_fnox (snd (handle_switch w cf text who h)) = hs_fnox h"
  by (simp add: handle_switch_def switch_to_def set_active_agent_def Let_def split: list.split option.split)

lemma default_fnox [simp]: "hs_fnox (snd (handle_default w cf who h)) = hs_fnox h"
  by (simp add: handle_default_def set_active_agent_def Let_def split: option.split)

lemma new_session_fnox [simp]: "hs_fnox (snd (handle_new_session w cf text who h)) = hs_fnox h"
  by (simp add: handle_new_session_def set_active_session_def Let_def split: option.split list.split)

lemma model_fnox [simp]: "hs_fnox (snd (handle_model w su text who h)) = hs_fnox h"
proof -
  have set_model: "hs_fnox (set_active_model w who m g) = hs_fnox g" for m g
    by (simp add: set_active_model_def)
  have "hs_fnox (snd (use_synthetic w sel m nt who h)) = hs_fnox h" for sel m nt
    by (simp add: use_synthetic_def set_model split: prod.split sum.split)
  moreover have "hs_fnox (snd (use_local w d m nt who h)) = hs_fnox h" for d m nt
    by (simp add: use_local_def set_model)
  ultimately have "hs_fnox (snd (activate_model w su r m who h)) = hs_fnox h" for r m
    unfolding activate_model_def Let_def use_provider_def by (simp add: set_model split: option.split)
  then show ?thesis unfolding handle_model_def by (simp split: list.split sum.split option.split)
qed

lemma sessions_fnox [simp]: "hs_fnox (snd (handle_sessions_message w cf text who h)) = hs_fnox h"
  by (simp add: handle_sessions_message_def sessions_of_agent_def list_acpx_sessions_def Let_def
      split: option.split session_capability.split sum.split acpx_result.split)

lemma decide_fnox [simp]: "hs_fnox (snd (decide w a b reason h)) = hs_fnox h"
  by (simp add: decide_def Let_def split: sum.split)

lemma approve_fnox [simp]: "hs_fnox (snd (handle_approve w text h)) = hs_fnox h"
  by (simp add: handle_approve_def split: sum.split)

lemma deny_fnox [simp]: "hs_fnox (snd (handle_deny w text h)) = hs_fnox h"
  by (simp add: handle_deny_def split: sum.split prod.split)

lemma async_fnox [simp]: "hs_fnox (snd (handle_async w text h)) = hs_fnox h"
  using approve_fnox [of w "text" h] deny_fnox [of w "text" h]
  by (cases "handle_approve w text h"; cases "handle_deny w text h") (simp add: handle_async_def)

lemma secure_no_value:
  assumes "is_secure_command (hw_tables w) text" "\<not> is_secure_set_command (hw_tables w) text"
  shows "no_value (hs_fnox h) (hs_fnox (snd (handle_secure w text h)))"
proof -
  have "no_value (hs_fnox h) (hs_fnox (snd (secure_list w h)))"
    using fnox_list_trace [of "cw_fnox (hw_control w)" "cw_client (hw_control w)" "hs_fnox h"]
    by (auto simp: secure_list_def no_value_def Let_def list_all_iff split: prod.split)
  moreover have "hs_fnox (snd (secure_input w rest b h)) = hs_fnox h" for rest b
    by (simp add: secure_input_def Let_def split: sum.split prod.split paste_start.split)
  moreover from assms have "(case drop 1 (ws_words [] text) of
      a # _ \<Rightarrow> to_lowercase (tt_lower (hw_tables w)) a | [] \<Rightarrow> []) \<noteq> ''set''"
    by (auto simp: is_secure_command_def is_secure_set_command_def lower_token_def command_token_def
        first_arg_def Let_def split: list.splits)
  ultimately show ?thesis unfolding handle_secure_def Let_def by simp
qed


lemma secure_appends: "\<exists>new. hs_fnox (snd (handle_secure w text h)) = hs_fnox h @ new"
proof -
  have "\<exists>new. hs_fnox (snd (secure_list w h)) = hs_fnox h @ new"
    using fnox_list_trace [of "cw_fnox (hw_control w)" "cw_client (hw_control w)" "hs_fnox h"]
    by (fastforce simp: secure_list_def Let_def split: prod.split)
  moreover have "hs_fnox (snd (secure_input w rest b h)) = hs_fnox h" for rest b
    by (simp add: secure_input_def Let_def split: sum.split prod.split paste_start.split)
  moreover have "\<exists>new. hs_fnox (snd (secure_set w rest h)) = hs_fnox h @ new" for rest
    using fnox_set_trace [of "cw_fnox (hw_control w)" "cw_client (hw_control w)" _ _ "hs_fnox h"]
    by (fastforce simp: secure_set_def split: prod.split)
  ultimately show ?thesis unfolding handle_secure_def Let_def by simp
qed

text \<open>New processes have a value only if the channel of that kind may store secrets.\<close>

definition secrets_ok :: "chat_config \<Rightarrow> string option \<Rightarrow> 'ast channel_state \<Rightarrow> 'ast channel_state \<Rightarrow> bool" where
  "secrets_ok cf kind s s' \<longleftrightarrow>
     (\<exists>new. fnox_of s' = fnox_of s @ new \<and>
        ((case kind of Some k \<Rightarrow> channel_allows_chat_secret_set cf k | None \<Rightarrow> False) \<or>
         list_all (\<lambda>p. fp_stdin p = None) new))"

lemma secrets_ok_same: "fnox_of s' = fnox_of s \<Longrightarrow> secrets_ok cf kind s s'"
  by (simp add: secrets_ok_def)

lemma secrets_ok_trans: "secrets_ok cf kind a b \<Longrightarrow> secrets_ok cf kind b c \<Longrightarrow> secrets_ok cf kind a c"
  unfolding secrets_ok_def
proof (elim exE conjE)
  fix new more
  let ?allowed = "case kind of Some k \<Rightarrow> channel_allows_chat_secret_set cf k | None \<Rightarrow> False"
  let ?free = "list_all (\<lambda>p. fp_stdin p = None)"
  assume "fnox_of b = fnox_of a @ new" "fnox_of c = fnox_of b @ more"
    "?allowed \<or> ?free new" "?allowed \<or> ?free more"
  then show "\<exists>new. fnox_of c = fnox_of a @ new \<and> (?allowed \<or> ?free new)"
    by (intro exI [of _ "new @ more"]) auto
qed

lemma note_chat_fnox [simp]: "fnox_of (note_chat e s) = fnox_of s"
  by (simp add: note_chat_def)

lemma speak_fnox [simp]: "fnox_of (snd (speak f s)) = hs_fnox (snd (f (xs_handler s)))"
  by (simp add: speak_def on_handler_def split: prod.split)

lemma offer_fnox [simp]: "fnox_of (snd (offer now who m s)) = fnox_of s"
  by (simp add: offer_def record_pending_choices_def)

lemma channel_scan_fnox [simp]: "fnox_of (snd (channel_scan w t ctx s)) = fnox_of s"
  by (simp add: channel_scan_def split: prod.split)

lemma send_all_fnox [simp]: "fnox_of (send_all target r) = fnox_of (snd r)"
proof -
  have "fnox_of (fold (\<lambda>m. note_chat (CeReply target m)) ms t) = fnox_of t" for ms and t :: "'a channel_state"
    by (induction ms arbitrary: t) simp_all
  then show ?thesis by (cases r) (simp add: send_all_def)
qed

lemma router_receive_fnox [simp]: "fnox_of (snd (router_receive w a r s)) = fnox_of s"
proof (cases r)
  case (Inr m)
  then show ?thesis
    using channel_scan_fnox [of w "render_text_fallback (hw_file_name (xw_chat w)) m" Api s]
    by (cases "channel_scan w (render_text_fallback (hw_file_name (xw_chat w)) m) Api s")
      (simp add: router_receive_def scan_agent_response_def Let_def)
qed (simp add: router_receive_def)

lemma one_off_fnox [simp]: "fnox_of (snd (dispatch_one_off_for_identity w t i who kind m s)) = fnox_of s"
  by (simp add: dispatch_one_off_for_identity_def Let_def split: option.split sum.split)

lemma btw_fnox [simp]: "fnox_of (snd (btw_reply w kind ms who text s)) = fnox_of s"
proof (cases "parse_btw_command (hw_tables (xw_chat w)) (world_config w) text who")
  case (Inr b)
  let ?d = "dispatch_one_off_for_identity w (bt_prompt b) (bt_agent b) who kind
    (active_model_for_identity (xw_setup w) who (xs_handler s)) s"
  obtain r t where d: "?d = (r, t)" by fastforce
  then have "fnox_of t = fnox_of s"
    using one_off_fnox [of w "bt_prompt b" "bt_agent b" who kind _ s] by (metis snd_conv)
  with d Inr show ?thesis by (simp add: btw_reply_def record_dispatch_def split: sum.split)
qed (simp add: btw_reply_def)

lemma async_reply_fnox [simp]: "fnox_of (snd (async_reply w text s)) = fnox_of s"
proof -
  obtain r h where "handle_async (xw_chat w) text (xs_handler s) = (r, h)" by fastforce
  with async_fnox [of "xw_chat w" "text" "xs_handler s"] show ?thesis
    by (simp add: async_reply_def on_handler_def split: option.split prod.split)
qed

lemma secure_reply_secrets:
  assumes "is_secure_command (hw_tables (xw_chat w)) text"
  shows "secrets_ok (world_config w) (Some (kt_kind k)) s (snd (secure_reply w k text s))"
proof (cases "is_secure_set_command (hw_tables (xw_chat w)) text")
  case True
  then show ?thesis using secure_appends [of "xw_chat w" "text" "xs_handler s"]
    by (auto simp: secure_reply_def secrets_ok_def)
next
  case False
  then show ?thesis using secure_no_value [OF assms, of "xs_handler s"]
    by (auto simp: secure_reply_def secrets_ok_def no_value_def)
qed

lemma list_reply_fnox: "list_reply w now who text s = Some r \<Longrightarrow> fnox_of (snd r) = fnox_of s"
  unfolding list_reply_def Let_def by (auto split: option.splits if_splits)

lemma sessions_offer_fnox:
  "fnox_of (snd (case on_handler (handle_sessions_message cw cf text who) s of
     (m, s') \<Rightarrow> offer now who m s')) = fnox_of s"
proof -
  obtain m h where "handle_sessions_message cw cf text who (xs_handler s) = (m, h)" by fastforce
  with sessions_fnox [of cw cf "text" who "xs_handler s"] show ?thesis by (simp add: on_handler_def)
qed

lemma identity_reply_secrets:
  "identity_reply w k now ms who key text s = Some r \<Longrightarrow>
   secrets_ok (world_config w) (Some (kt_kind k)) s (snd r)"
  unfolding identity_reply_def Let_def
  by (auto split: if_splits intro!: secrets_ok_same secure_reply_secrets simp: sessions_offer_fnox)

lemma handle_text_secrets:
  "secrets_ok (world_config w) (Some (kt_kind k)) s (snd (handle_text w k now ms who key target text s))"
proof -
  have "fnox_of (snd (new_job w k who key target text s)) = fnox_of s"
    by (simp add: new_job_def Let_def split: option.split)
  then show ?thesis
    using list_reply_fnox [of w now who "text" s] identity_reply_secrets [of w k now ms who key "text" s]
    by (cases "list_reply w now who text s"; cases "identity_reply w k now ms who key text s")
      (simp_all add: handle_text_def secrets_ok_same)
qed

lemma send_all_secrets: "secrets_ok cf kind s (snd r) \<Longrightarrow> secrets_ok cf kind s (send_all target r)"
  by (simp add: secrets_ok_def)

lemma handle_authorized_secrets:
  "secrets_ok (world_config w) (Some (kt_kind k)) s (handle_authorized w k now ms who key target text s)"
proof -
  let ?f = "resolve_pending_choice_reply (hw_tables (xw_chat w)) now who text"
  obtain r h where f: "?f (xs_handler s) = (r, h)" by fastforce
  then have "hs_fnox h = fnox_of s"
    by (auto simp: resolve_pending_choice_reply_def drop_pending_def
        split: option.splits if_splits sum.splits prod.splits)
  then have "secrets_ok (world_config w) (Some (kt_kind k)) s (s\<lparr>xs_handler := h\<rparr>)"
    by (intro secrets_ok_same) simp
  with f show ?thesis
    by (auto simp: handle_authorized_def on_handler_def split: option.split choice_reply.split
        intro!: send_all_secrets intro: secrets_ok_trans [OF _ handle_text_secrets])
qed

lemma inbound_scan_fnox: "inbound_scan w k t s = (b, s') \<Longrightarrow> fnox_of s' = fnox_of s"
  using channel_scan_fnox [of w t UserMessage s]
  by (cases "channel_scan w t UserMessage s") (auto simp: inbound_scan_def split: if_splits)

lemma handle_message_secrets:
  "secrets_ok (world_config w) (Some (kt_kind k)) s (handle_message w k key now ms m s)"
proof (cases "resolve_channel_sender (world_config w) (kt_kind k) (cm_sender m)")
  case None
  then show ?thesis by (simp add: handle_message_def secrets_ok_same)
next
  case (Some i)
  obtain b s' where b: "inbound_scan w k (cm_content m) s = (b, s')" by fastforce
  then have "fnox_of s' = fnox_of s" by (rule inbound_scan_fnox)
  then have "secrets_ok (world_config w) (Some (kt_kind k)) s s'" by (rule secrets_ok_same)
  with b Some show ?thesis
    by (auto simp: handle_message_def Let_def split: option.split
        intro: secrets_ok_trans [OF _ handle_authorized_secrets] send_all_secrets)
qed

lemma start_job_fnox [simp]: "fnox_of (start_job w i s) = fnox_of s"
  by (simp add: start_job_def end_job_def split: option.split sum.split)

lemma finish_job_fnox [simp]: "fnox_of (finish_job w i now ms r s) = fnox_of s"
proof (cases "xs_jobs s i")
  case (Some j)
  obtain q s' where q: "router_receive w (jb_agent j) r (end_job i s) = (q, s')" by fastforce
  then have "fnox_of s' = fnox_of s"
    using router_receive_fnox [of w "jb_agent j" r "end_job i s"] by (simp add: end_job_def)
  with Some q show ?thesis
    by (simp add: finish_job_def answered_def ask_approval_def record_dispatch_def
        register_pending_approval_def split: sum.split router_error.split)
qed (simp add: finish_job_def)

lemma on_handler_fnox: "on_handler f s = (r, t) \<Longrightarrow> fnox_of t = hs_fnox (snd (f (xs_handler s)))"
  by (auto simp: on_handler_def split: prod.splits)

lemma answer_query_fnox [simp]: "fnox_of (answer_query x b s) = fnox_of s"
  by (simp add: answer_query_def)

lemma approval_pressed_fnox [simp]: "fnox_of (approval_pressed w act chat s) = fnox_of s"
proof -
  let ?f = "(case act of CbApprove _ \<Rightarrow> handle_approve | _ \<Rightarrow> handle_deny) (xw_chat w) (callback_command act)"
  let ?s = "answer_query ''Approval submitted.'' False s"
  have "hs_fnox (snd (?f h)) = hs_fnox h" for h by (simp split: callback_action.split)
  moreover obtain r t where f: "on_handler ?f ?s = (r, t)" by fastforce
  ultimately have "fnox_of t = fnox_of s" using on_handler_fnox [OF f] by simp
  with f show ?thesis
    by (simp add: approval_pressed_def Let_def split: option.split prod.split)
qed

lemma choice_pressed_fnox [simp]: "fnox_of (choice_pressed w act who chat s) = fnox_of s"
proof -
  let ?f = "case act of CbModel _ \<Rightarrow> handle_model (xw_chat w) (xw_setup w) (callback_command act) who
          | _ \<Rightarrow> handle_switch (xw_chat w) (su_config (xw_setup w)) (callback_command act) who"
  have "hs_fnox (snd (?f h)) = hs_fnox h" for h by (simp split: callback_action.split)
  moreover obtain r t where f: "on_handler ?f s = (r, t)" by fastforce
  ultimately have "fnox_of t = fnox_of s" using on_handler_fnox [OF f] by simp
  with f show ?thesis by (simp add: choice_pressed_def Let_def split: option.split prod.split)
qed

lemma callback_fnox [simp]: "fnox_of (handle_callback_query w q s) = fnox_of s"
  by (simp add: handle_callback_query_def split: option.split callback_action.split)

definition op_kind :: "chat_op \<Rightarrow> string option" where
  "op_kind op = (case op of
     OpSms _ _ _ \<Rightarrow> Some ''sms'' | OpWhatsapp _ _ _ \<Rightarrow> Some ''whatsapp'' | OpSignal _ _ _ \<Rightarrow> Some ''signal''
   | OpTelegram _ _ _ \<Rightarrow> Some ''telegram'' | OpMatrix _ _ _ \<Rightarrow> Some ''matrix'' | _ \<Rightarrow> None)"

lemma matrix_secrets:
  "secrets_ok (world_config w) (Some ''matrix'') (snd st) (snd (matrix_handle_event w r now ms e st))"
proof -
  have "secrets_ok (world_config w) (Some ''matrix'') s (matrix_dispatch w now ms who room body s)"
    for who room body s
    using handle_authorized_secrets [of w matrix_texts s now ms who _ room body]
    by (simp add: matrix_dispatch_def secrets_ok_def matrix_texts_def)
  then show ?thesis
    by (simp add: matrix_handle_event_def secrets_ok_same split: option.split prod.split)
qed

lemma chat_step_secrets: "secrets_ok (world_config w) (op_kind op) (snd st) (snd (chat_step w r st op))"
proof (cases st)
  case (Pair seen s)
  have "secrets_ok (world_config w) (Some ''sms'') s (sms_handle_message w now ms m s)"
    "secrets_ok (world_config w) (Some ''whatsapp'') s (whatsapp_handle_message w now ms m s)"
    "secrets_ok (world_config w) (Some ''signal'') s (signal_handle_message w now ms m s)"
    "secrets_ok (world_config w) (Some ''telegram'') s (telegram_handle_message w now ms m s)" for now ms m
    using handle_message_secrets [of w sms_texts s _ now ms m] handle_message_secrets [of w whatsapp_texts s _ now ms m]
      handle_message_secrets [of w signal_texts s _ now ms m] handle_message_secrets [of w telegram_texts s _ now ms m]
    by (simp_all add: sms_handle_message_def whatsapp_handle_message_def signal_handle_message_def
        telegram_handle_message_def sms_texts_def whatsapp_texts_def signal_texts_def telegram_texts_def)
  with Pair matrix_secrets [of w "(seen, s)" r] show ?thesis
    by (cases op) (simp_all add: op_kind_def secrets_ok_same)
qed

text \<open>
  C19: Whatever happens in the chats, a process of the secret store is given a value only by a message
  of a channel that is the only enabled one of its kind and is configured to store secrets sent by
  chat; no press of a button and no answer of an agent stores one.
\<close>

theorem chat_secret_gated:
  "\<exists>new. fnox_of (snd (chat_step w r st op)) = fnox_of (snd st) @ new \<and>
     ((case op_kind op of Some k \<Rightarrow> channel_allows_chat_secret_set (world_config w) k | None \<Rightarrow> False) \<or>
      list_all (\<lambda>p. fp_stdin p = None) new)"
  using chat_step_secrets [of w op st r] by (simp add: secrets_ok_def)


section \<open>Where messages go\<close>


definition demo_chat_config :: chat_config where
  "demo_chat_config =
     \<lparr>cf_version = 1,
      cf_identities = [\<lparr>ci_id = ''ann'', ci_display_name = None, ci_aliases = [(''sms'', ''+1'')], ci_role = None\<rparr>],
      cf_agents = [\<lparr>ag_id = ''codex'', ag_kind = ''codex-cli'', ag_endpoint = [], ag_model = None,
         ag_auth_token = None, ag_allow_model_override = None, ag_command = None, ag_env = None,
         ag_display_name = None, ag_aliases = []\<rparr>],
      cf_routing = [\<lparr>rr_identity = ''ann'', rr_default_agent = ''codex'', rr_btw_agent = None,
         rr_allowed_agents = []\<rparr>],
      cf_channels = [], cf_shortcuts = [], cf_roles = [], cf_proxy = None, cf_inject_depth = 0\<rparr>"

definition demo_chat_world :: "(unit, unit, unit) chat_world" where
  "demo_chat_world =
     \<lparr>hw_tables = demo_tables,
      hw_paths = \<lparr>pw_executable = (\<lambda>_. False), pw_absolute = (\<lambda>_. False), pw_path = None, pw_join = (@)\<rparr>,
      hw_control = demo_control, hw_fs = Map.empty, hw_writable = False, hw_file_name = (\<lambda>_. None),
      hw_decide = (\<lambda>_ _ _ _. Inr ()), hw_poll = (\<lambda>_ _. Inl []), hw_acpx_dir = Inr (),
      hw_acpx = (\<lambda>_ _ _ _. AcpxFailed []), hw_paste = (\<lambda>_ _ _. PasteNotInstalled),
      hw_env = (\<lambda>_. None), hw_paste_bind = False, hw_lan_addr = None, hw_uuid = (\<lambda>_. ''u''),
      hw_adapter = (\<lambda>_. Inr None)\<rparr>"

definition demo_channel_world :: "(unit, unit, unit, unit) channel_world" where
  "demo_channel_world =
     \<lparr>xw_chat = demo_chat_world,
      xw_setup = \<lparr>su_config = demo_chat_config, su_selectors = None, su_local = None\<rparr>,
      xw_security = security_config_of ProfileBalanced, xw_claw = ''c'', xw_scan_input = (\<lambda>_. demo_input),
      xw_response_scanner = False, xw_agent = (\<lambda>_ _ _. Inl AgentTimeout)\<rparr>"

definition demo_chat_start :: "unit chat_system" where
  "demo_chat_start =
     chat_start demo_channel_world [] \<lparr>dk_agents = Map.empty, dk_models = Map.empty, dk_sessions = Map.empty\<rparr>
       \<lparr>alloy_states = (\<lambda>_. \<lparr>next_rr_index = 0, stats_by_model = Map.empty, last_selected_model = None\<rparr>),
        active_by_identity = Map.empty, draws = 0\<rparr>
       (new_context_store 4 4) \<lparr>al_total = 0, al_blocked_or_reviewed = 0, al_lines = []\<rparr>"

definition demo_dispatch :: chat_dispatch where
  "demo_dispatch = \<lparr>dp_agent = ''codex'', dp_message = ''hi'', dp_sender = ''ann'', dp_model = None,
     dp_session = None, dp_channel = ''sms''\<rparr>"

lemma words_hi: "ws_words [] ''hi'' = [''hi'']"
  by (simp add: ws_seqs_def)

lemma trim_hi: "trim ''hi'' = ''hi''"
  by (simp add: trim_def trim_start_def trim_end_def ws_seqs_def drop_seqs.simps)

lemmas demo_case = eq_ignore_case_def to_ascii_lowercase_def lower_byte_def ascii_upper_def
  less_eq_char_def

lemma demo_hi:
  "\<not> is_agent_choice_request ''hi''" "\<not> is_model_choice_request ''hi''"
  "\<not> is_context_clear_command ''hi''" "\<not> is_command ''hi''"
  "lower_token demo_tables ''hi'' = ''hi''"
  by (simp_all add: is_agent_choice_request_def is_model_choice_request_def is_choice_request_def
      is_word_def is_context_clear_command_def is_command_def lower_token_def command_token_def
      to_lowercase_def is_ascii_def demo_tables_def words_hi trim_hi demo_case
      del: ws_words.simps)

definition demo_job :: chat_job where
  "demo_job = \<lparr>jb_who = ''ann'', jb_agent = hd (cf_agents demo_chat_config), jb_key = ''sms-ann-+1'',
     jb_text = ''hi'', jb_label = ''ann'', jb_model = None, jb_session = None, jb_target = ''+1'',
     jb_texts = sms_texts, jb_sent = False\<rparr>"

lemma demo_handle_text:
  assumes "hs_agents (xs_handler s) = Map.empty" "hs_models (xs_handler s) = Map.empty"
    "hs_sessions (xs_handler s) = Map.empty"
  shows "handle_text demo_channel_world sms_texts 0 0 ''ann'' ''sms-ann-+1'' ''+1'' ''hi'' s =
    ([], s\<lparr>xs_jobs := (xs_jobs s)(xs_next s \<mapsto> demo_job), xs_next := xs_next s + 1\<rparr>)"
proof -
  have none: "list_reply demo_channel_world 0 ''ann'' ''hi'' s = None"
    by (simp add: list_reply_def agent_choice_message_for_identity_def model_choice_message_def
        handle_command_def is_unknown_channel_command_def demo_hi trim_hi Let_def)
  have low: "lower_token (hw_tables (xw_chat demo_channel_world)) ''hi'' = ''hi''"
    by (simp add: demo_channel_world_def demo_chat_world_def demo_hi)
  have "identity_reply demo_channel_world sms_texts 0 0 ''ann'' ''sms-ann-+1'' ''hi'' s = None"
    by (simp add: identity_reply_def Let_def is_status_command_def is_gateway_command_def
        is_switch_command_def is_model_command_def is_sessions_command_def is_new_session_command_def
        is_btw_command_def is_default_command_def is_secure_command_def is_approve_command_def
        is_deny_command_def low demo_hi trim_hi)
  with none assms show ?thesis
    by (simp add: handle_text_def new_job_def Let_def active_agent_for_def default_agent_for_def
        find_rule_def find_agent_def demo_channel_world_def demo_chat_config_def demo_job_def
        sender_label_def active_model_for_identity_def active_session_for_def)
qed


lemma demo_sms:
  assumes "hs_agents (xs_handler s) = Map.empty" "hs_models (xs_handler s) = Map.empty"
    "hs_sessions (xs_handler s) = Map.empty" "hs_pending (xs_handler s) = Map.empty"
  shows "sms_handle_message demo_channel_world 0 0 \<lparr>cm_sender = ''+1'', cm_reply_target = [], cm_content = ''hi''\<rparr> s =
    s\<lparr>xs_jobs := (xs_jobs s)(xs_next s \<mapsto> demo_job), xs_next := xs_next s + 1\<rparr>"
proof -
  have "resolve_channel_sender (world_config demo_channel_world) ''sms'' ''+1'' =
      Some (hd (cf_identities demo_chat_config))" "ci_id (hd (cf_identities demo_chat_config)) = ''ann''"
    "\<not> scan_enabled (world_config demo_channel_world) ''sms''"
    by (simp_all add: resolve_channel_sender_def demo_channel_world_def demo_chat_config_def scan_enabled_def)
  moreover have "on_handler (resolve_pending_choice_reply tt 0 ''ann'' ''hi'') s = (None, s)" for tt
    using assms by (simp add: on_handler_def resolve_pending_choice_reply_def)
  ultimately show ?thesis
    using demo_handle_text [OF assms(1-3)]
    by (simp add: sms_handle_message_def handle_message_def inbound_scan_def handle_authorized_def
        reply_target_def sms_texts_def send_all_def Let_def)
qed

lemma demo_start:
  assumes "xs_jobs s i = Some demo_job" "cs_chats (xs_context s) = Map.empty"
  shows "CeDispatch demo_dispatch \<in> set (chat_log (start_job demo_channel_world i s))"
  using assms
  by (simp add: start_job_def demo_job_def router_send_def augmented_text_def augment_message_with_options_def
      demo_channel_world_def demo_chat_world_def demo_chat_config_def demo_dispatch_def sms_texts_def
      effective_model_override_def agent_supports_model_override_def agent_supports_native_commands_def
      note_chat_def note_event_def chat_log_def)


end
