(* ===== verification/Paste_Forms.thy ===== *)
theory Paste_Forms
  imports Secret_Metadata
begin

text \<open>
  The parts of the secret-input server (\<open>crates/paste-server/src/lib.rs\<close>) without state: its
  configuration, the \<open>Origin\<close> check against DNS rebinding, the parser of \<open>.env\<close> dumps, the
  preview of a value and the pages.

  The environment is a parameter, as are the texts of errors that come from other libraries.
\<close>

section \<open>Configuration\<close>

record paste_config =
  pc_expiry :: nat
  pc_preview_chars :: "nat option"
  pc_require_localhost_origin :: bool
  pc_allow_null_origin :: bool
  pc_bind_addr :: "string option"
  pc_public_base_url :: "string option"
  pc_public_host :: "string option"

text \<open>The expiry is in nanoseconds.\<close>

definition default_paste_config :: paste_config where
  "default_paste_config =
     \<lparr>pc_expiry = 5 * 60 * 10 ^ 9, pc_preview_chars = None, pc_require_localhost_origin = True,
      pc_allow_null_origin = False, pc_bind_addr = None, pc_public_base_url = None,
      pc_public_host = None\<rparr>"

definition not_blank :: "string option \<Rightarrow> string option" where
  "not_blank v = (case v of Some s \<Rightarrow> if trim s = [] then None else Some s | None \<Rightarrow> None)"

definition configured_bind_addr :: "env \<Rightarrow> paste_config \<Rightarrow> string" where
  "configured_bind_addr env cfg =
     (case or_else (pc_bind_addr cfg) (env ''PASTE_BIND'') of Some a \<Rightarrow> a | None \<Rightarrow> ''127.0.0.1:0'')"

definition configured_public_base_url :: "env \<Rightarrow> paste_config \<Rightarrow> string option" where
  "configured_public_base_url env cfg =
     not_blank (or_else (pc_public_base_url cfg) (env ''PASTE_PUBLIC_BASE_URL''))"

definition configured_public_host :: "env \<Rightarrow> paste_config \<Rightarrow> string option" where
  "configured_public_host env cfg =
     not_blank (or_else (pc_public_host cfg) (env ''PASTE_PUBLIC_HOST''))"

definition bracket_ipv6_host :: "string \<Rightarrow> string" where
  "bracket_ipv6_host host =
     (if CHR '':'' \<in> set host \<and> \<not> prefix ''['' host \<and> \<not> str_contains ''://'' host
      then ''['' @ host @ '']'' else host)"

text \<open>
  The listener's address is given by whether it is the unspecified one, its text and its port;
  \<open>lan\<close> is what \<open>detect_lan_ip\<close> finds.
\<close>

definition public_host_for_addr :: "string option \<Rightarrow> bool \<Rightarrow> string \<Rightarrow> string" where
  "public_host_for_addr lan unspecified ip =
     (if unspecified then (case lan of Some l \<Rightarrow> l | None \<Rightarrow> ''127.0.0.1'') else ip)"

definition build_url ::
  "env \<Rightarrow> paste_config \<Rightarrow> string option \<Rightarrow> bool \<Rightarrow> string \<Rightarrow> nat \<Rightarrow> string \<Rightarrow> string \<Rightarrow> string" where
  "build_url env cfg lan unspecified ip port route token =
     (let path = route @ ''/'' @ token in
      case configured_public_base_url env cfg of
        Some base \<Rightarrow> trim_end_matches (CHR ''/'') base @ ''/'' @ path
      | None \<Rightarrow>
          (let host = (case configured_public_host env cfg of
                         Some h \<Rightarrow> h | None \<Rightarrow> public_host_for_addr lan unspecified ip)
           in ''http://'' @ bracket_ipv6_host host @ '':'' @ show_nat port @ ''/'' @ path))"

section \<open>Origins\<close>

text \<open>\<open>str::parse\<close> for an unsigned type with the given largest value: an optional plus sign, then digits.\<close>

definition digits_value :: "string \<Rightarrow> nat" where
  "digits_value s = foldl (\<lambda>n c. 10 * n + digit_value c) 0 s"

definition parse_uint :: "nat \<Rightarrow> string \<Rightarrow> nat option" where
  "parse_uint largest s =
     (let ds = (case s of c # r \<Rightarrow> if c = CHR ''+'' then r else s | [] \<Rightarrow> []) in
      if ds = [] \<or> \<not> list_all ascii_digit ds \<or> largest < digits_value ds then None
      else Some (digits_value ds))"

record origin_parts =
  op_scheme :: string
  op_host :: string
  op_port :: "nat option"

definition parse_port :: "string \<Rightarrow> nat option" where
  "parse_port s = parse_uint 65535 s"

text \<open>The host and port of an authority, \<open>Some\<close> of an optional port.\<close>

definition parse_authority :: "string \<Rightarrow> (string \<times> nat option) option" where
  "parse_authority authority =
     (case strip_prefix ''['' authority of
        Some after \<Rightarrow>
          (case split_once (\<lambda>c. c = CHR '']'') after of
             None \<Rightarrow> None
           | Some (host, rest) \<Rightarrow>
               (case strip_prefix '':'' rest of
                  Some port \<Rightarrow> map_option (\<lambda>p. (host, Some p)) (parse_port port)
                | None \<Rightarrow> if rest = [] then Some (host, None) else None))
      | None \<Rightarrow>
          (case split_char (CHR '':'') authority of
             [host] \<Rightarrow> Some (host, None)
           | [host, port] \<Rightarrow> map_option (\<lambda>p. (host, Some p)) (parse_port port)
           | _ \<Rightarrow> None))"

definition split_once_str :: "string \<Rightarrow> string \<Rightarrow> (string \<times> string) option" where
  "split_once_str p s =
     (case str_find p s of Some i \<Rightarrow> Some (take i s, drop (i + length p) s) | None \<Rightarrow> None)"

definition parse_origin_like :: "string \<Rightarrow> origin_parts option" where
  "parse_origin_like input =
     (case split_once_str ''://'' input of
        None \<Rightarrow> None
      | Some (scheme, rest) \<Rightarrow>
          if scheme \<noteq> ''http'' \<and> scheme \<noteq> ''https'' then None
          else (let authority = hd (split_char (CHR ''/'') rest) in
            if authority = [] \<or> CHR ''@'' \<in> set authority then None
            else (case parse_authority authority of
                    None \<Rightarrow> None
                  | Some (host, port) \<Rightarrow>
                      if host = [] then None
                      else Some \<lparr>op_scheme = scheme, op_host = host, op_port = port\<rparr>)))"

definition eq_ignore_ascii_case :: "string \<Rightarrow> string \<Rightarrow> bool" where
  "eq_ignore_ascii_case a b \<longleftrightarrow> to_ascii_lowercase a = to_ascii_lowercase b"

definition origin_matches_base_url :: "string \<Rightarrow> string \<Rightarrow> bool" where
  "origin_matches_base_url origin base =
     (case (parse_origin_like origin, parse_origin_like base) of
        (Some a, Some b) \<Rightarrow>
          op_scheme a = op_scheme b \<and> eq_ignore_ascii_case (op_host a) (op_host b) \<and>
          op_port a = op_port b
      | _ \<Rightarrow> False)"

definition origin_matches_public_host :: "string \<Rightarrow> string \<Rightarrow> bool" where
  "origin_matches_public_host origin host =
     (case parse_origin_like origin of
        None \<Rightarrow> False
      | Some a \<Rightarrow>
          eq_ignore_ascii_case (op_host a)
            (trim_end_matches (CHR '']'') (dropWhile (\<lambda>c. c = CHR ''['') (trim host))))"

text \<open>The four octets of a dotted quad as \<open>u8::from_str\<close> reads them.\<close>

definition parse_octets :: "string \<Rightarrow> nat list option" where
  "parse_octets host =
     (let os = map (parse_uint 255) (split_char (CHR ''.'') host) in
      if length os \<noteq> 4 \<or> None \<in> set os then None else Some (map the os))"

definition rfc1918 :: "nat list \<Rightarrow> bool" where
  "rfc1918 o4 \<longleftrightarrow>
     o4 ! 0 = 10 \<or> (o4 ! 0 = 172 \<and> 16 \<le> o4 ! 1 \<and> o4 ! 1 \<le> 31) \<or> (o4 ! 0 = 192 \<and> o4 ! 1 = 168)"

definition is_rfc1918_http_origin :: "string \<Rightarrow> bool" where
  "is_rfc1918_http_origin origin =
     (case strip_prefix ''http://'' origin of
        None \<Rightarrow> False
      | Some rest \<Rightarrow>
          (case parse_octets (hd (split_char (CHR '':'') rest)) of
             None \<Rightarrow> False | Some o4 \<Rightarrow> rfc1918 o4))"

definition is_localhost_origin :: "string \<Rightarrow> bool" where
  "is_localhost_origin origin \<longleftrightarrow>
     prefix ''http://127.0.0.1:'' origin \<or> prefix ''http://localhost:'' origin \<or>
     origin = ''http://localhost'' \<or> is_rfc1918_http_origin origin"

definition is_allowed_origin :: "env \<Rightarrow> paste_config \<Rightarrow> bool \<Rightarrow> string \<Rightarrow> bool" where
  "is_allowed_origin env cfg allow_null origin =
     (if origin = ''null'' then allow_null
      else (case configured_public_base_url env cfg of
              Some base \<Rightarrow> origin_matches_base_url origin base | None \<Rightarrow> False) \<or>
           (case configured_public_host env cfg of
              Some host \<Rightarrow> origin_matches_public_host origin host | None \<Rightarrow> False) \<or>
           is_localhost_origin origin)"

text \<open>The check at the start of both handlers; \<open>origin\<close> is the readable \<open>Origin\<close> header.\<close>

definition origin_ok :: "env \<Rightarrow> paste_config \<Rightarrow> string option \<Rightarrow> bool" where
  "origin_ok env cfg origin \<longleftrightarrow>
     (pc_require_localhost_origin cfg \<longrightarrow>
       (case origin of Some o1 \<Rightarrow> is_allowed_origin env cfg (pc_allow_null_origin cfg) o1
                     | None \<Rightarrow> False))"

section \<open>Dumps\<close>

definition paste_valid_name :: "string \<Rightarrow> bool" where
  "paste_valid_name name \<longleftrightarrow>
     name \<noteq> [] \<and> list_all (\<lambda>c. ascii_alnum c \<or> c = CHR ''_'' \<or> c = CHR ''-'') name"

definition strip_matching_quotes :: "string \<Rightarrow> string" where
  "strip_matching_quotes v =
     (if 2 \<le> length v \<and>
         ((hd v = CHR 0x22 \<and> last v = CHR 0x22) \<or> (hd v = CHR 0x27 \<and> last v = CHR 0x27))
      then butlast (tl v) else v)"

text \<open>One line: nothing, a malformed line with its number and text, or a key and its value.\<close>

definition env_line :: "nat \<Rightarrow> string \<Rightarrow> ((nat \<times> string) + (string \<times> string)) option" where
  "env_line n raw =
     (let t = trim raw in
      if t = [] \<or> prefix ''#'' t then None
      else (let body = (case strip_prefix ''export '' t of Some b \<Rightarrow> b | None \<Rightarrow> t) in
        case split_once (\<lambda>c. c = CHR ''='') body of
          None \<Rightarrow> Some (Inl (n, body))
        | Some (k, v) \<Rightarrow>
            if trim k = [] then Some (Inl (n, body))
            else Some (Inr (trim k, strip_matching_quotes (trim v)))))"

fun env_lines :: "nat \<Rightarrow> string list \<Rightarrow> ((nat \<times> string) + (string \<times> string)) list" where
  "env_lines n [] = []"
| "env_lines n (l # ls) =
     (case env_line n l of None \<Rightarrow> [] | Some r \<Rightarrow> [r]) @ env_lines (Suc n) ls"

definition parse_env_dump :: "string \<Rightarrow> ((nat \<times> string) + (string \<times> string)) list" where
  "parse_env_dump input = env_lines 1 (str_lines input)"

section \<open>Previews\<close>

definition truncated_preview :: "string \<Rightarrow> nat \<Rightarrow> string" where
  "truncated_preview v n =
     (let cs = utf8_chars v in
      if length cs \<le> 2 * n then [CHR 0xE2, CHR 0x80, CHR 0xA6]
      else concat (take n cs) @ [CHR 0xE2, CHR 0x80, CHR 0xA6] @ concat (drop (length cs - n) cs))"

section \<open>Pages\<close>

definition replace_char :: "char \<Rightarrow> string \<Rightarrow> string \<Rightarrow> string" where
  "replace_char c r s = concat (map (\<lambda>d. if d = c then r else [d]) s)"

definition paste_escape :: "string \<Rightarrow> string" where
  "paste_escape s =
     replace_char (CHR 0x22) ''&quot;'' (replace_char (CHR ''>'') ''&gt;''
       (replace_char (CHR ''<'') ''&lt;'' (replace_char (CHR ''&'') ''&amp;'' s)))"

datatype bulk_line_result =
    Stored string "string option"
  | AlreadyExists string
  | BulkInvalidName string
  | Malformed nat string
  | StoreFailed string string

fun is_stored where
  "is_stored (Stored _ _) = True" | "is_stored _ = False"

fun is_existing where
  "is_existing (AlreadyExists _) = True" | "is_existing _ = False"

fun is_invalid where
  "is_invalid (BulkInvalidName _) = True" | "is_invalid _ = False"

fun is_malformed where
  "is_malformed (Malformed _ _) = True" | "is_malformed _ = False"

fun is_failed where
  "is_failed (StoreFailed _ _) = True" | "is_failed _ = False"

definition render_form :: "string \<Rightarrow> string \<Rightarrow> string \<Rightarrow> string \<Rightarrow> string" where
  "render_form name description token dests =
     ''<!doctype html><html><head><meta charset='' @ [CHR 0x22] @ ''utf-8'' @ [CHR 0x22] @
     ''><title>Set '' @ paste_escape name @ ''</title>'' @ [CHR 0x0A] @
     ''<style>body {font-family:system-ui,sans-serif;max-width:560px;margin:3rem '' @
     ''auto;padding:0 1rem;color:#1a1a1a}'' @ [CHR 0x0A] @
     ''h1 {font-size:1.2rem} input[type=password],input[type=text] {width:100%;padding:.6rem;font-size:1rem;border:1px '' @
     ''solid #888;border-radius:4px}'' @ [CHR 0x0A] @
     ''button {margin-top:1rem;padding:.6rem 1.2rem;font-size:1rem;border:0;border-radius:4px;background:#0a6;color:#fff;cursor:pointer}'' @
     [CHR 0x0A] @
     ''.warn {background:#ffe;border:1px solid #cc8;padding:.6rem;border-radius:4px;font-size:.9rem;margin-top:1rem}</style>'' @
     [CHR 0x0A] @ ''</head><body>'' @ [CHR 0x0A] @ ''<h1>Set secret <code>'' @
     paste_escape name @ ''</code></h1>'' @ [CHR 0x0A] @ ''<p>'' @ paste_escape description @
     ''</p>'' @ [CHR 0x0A] @ ''<form method='' @ [CHR 0x22] @ ''POST'' @ [CHR 0x22] @
     '' action='' @ [CHR 0x22] @ ''/paste/'' @ paste_escape token @ [CHR 0x22] @ ''>'' @
     [CHR 0x0A] @ ''<label>Value (will be stored, never displayed in full):</label>'' @
     [CHR 0x0A] @ ''<input type='' @ [CHR 0x22] @ ''password'' @ [CHR 0x22] @ '' name='' @
     [CHR 0x22] @ ''value'' @ [CHR 0x22] @ '' autofocus required>'' @ [CHR 0x0A] @
     ''<label>Allowed destinations (optional, comma-separated hostnames):</label>'' @
     [CHR 0x0A] @ ''<input type='' @ [CHR 0x22] @ ''text'' @ [CHR 0x22] @ '' name='' @
     [CHR 0x22] @ ''allowed_destinations'' @ [CHR 0x22] @ '' value='' @ [CHR 0x22] @
     paste_escape dests @ [CHR 0x22] @ '' placeholder='' @ [CHR 0x22] @
     ''api.example.com, *.example.com'' @ [CHR 0x22] @ '' autocomplete='' @ [CHR 0x22] @
     ''off'' @ [CHR 0x22] @ ''>'' @ [CHR 0x0A] @ ''<button type='' @ [CHR 0x22] @ ''submit'' @
     [CHR 0x22] @ ''>Store</button>'' @ [CHR 0x0A] @ ''</form>'' @ [CHR 0x0A] @
     ''<div class='' @ [CHR 0x22] @ ''warn'' @ [CHR 0x22] @ ''>'' @
     [CHR 0xE2, CHR 0x9A, CHR 0xA0] @
     '' This URL is single-use and expires shortly. Close this tab after submission.</div>'' @
     [CHR 0x0A] @ ''</body></html>''"

definition preview_html :: "string \<Rightarrow> string" where
  "preview_html p =
     ''<p>Preview (first/last chars): <code>'' @ paste_escape p @ ''</code></p><p style='' @
     [CHR 0x22] @ ''color:#666;font-size:.9rem'' @ [CHR 0x22] @
     ''>Verify this matches the source you copied from. The full value is now stored; '' @
     ''this page won'' @ [CHR 0x27] @ ''t display it.</p>''"

definition render_confirmation :: "string \<Rightarrow> string option \<Rightarrow> string" where
  "render_confirmation name preview =
     ''<!doctype html><html><head><meta charset='' @ [CHR 0x22] @ ''utf-8'' @ [CHR 0x22] @
     ''><title>Stored '' @ paste_escape name @ ''</title>'' @ [CHR 0x0A] @
     ''<style>body {font-family:system-ui,sans-serif;max-width:560px;margin:3rem '' @
     ''auto;padding:0 1rem;color:#1a1a1a}'' @ [CHR 0x0A] @
     ''.ok {color:#0a6} h1 {font-size:1.2rem}</style>'' @ [CHR 0x0A] @ ''</head><body>'' @
     [CHR 0x0A] @ ''<h1 class='' @ [CHR 0x22] @ ''ok'' @ [CHR 0x22] @ ''>'' @
     [CHR 0xE2, CHR 0x9C, CHR 0x93] @ '' Stored secret <code>'' @ paste_escape name @
     ''</code></h1>'' @ [CHR 0x0A] @
     (case preview of Some p \<Rightarrow> preview_html p | None \<Rightarrow> []) @
     [CHR 0x0A] @ ''<p>You can close this tab.</p>'' @ [CHR 0x0A] @ ''</body></html>''"

definition render_bulk_form :: "string \<Rightarrow> string \<Rightarrow> string \<Rightarrow> string" where
  "render_bulk_form label description token =
     ''<!doctype html><html><head><meta charset='' @ [CHR 0x22] @ ''utf-8'' @ [CHR 0x22] @
     ''><title>Bulk paste '' @ [CHR 0xE2, CHR 0x80, CHR 0x94] @ '' '' @ paste_escape label @
     ''</title>'' @ [CHR 0x0A] @
     ''<style>body {font-family:system-ui,sans-serif;max-width:720px;margin:3rem '' @
     ''auto;padding:0 1rem;color:#1a1a1a}'' @ [CHR 0x0A] @
     ''h1 {font-size:1.2rem} label {display:block;margin:.8rem 0 .3rem} input[type=text] '' @
     ''{width:100%;padding:.6rem;font-size:1rem;border:1px solid #888;border-radius:4px} '' @
     ''textarea {width:100%;min-height:280px;padding:.6rem;font-family:ui-monospace,Menlo,monospace;font-size:.95rem;border:1px '' @
     ''solid #888;border-radius:4px}'' @ [CHR 0x0A] @
     ''button {margin-top:1rem;padding:.6rem 1.2rem;font-size:1rem;border:0;border-radius:4px;background:#0a6;color:#fff;cursor:pointer}'' @
     [CHR 0x0A] @
     ''.warn {background:#ffe;border:1px solid #cc8;padding:.6rem;border-radius:4px;font-size:.9rem;margin-top:1rem}'' @
     [CHR 0x0A] @ ''.help {color:#555;font-size:.9rem;margin:.4rem 0 .8rem}</style>'' @
     [CHR 0x0A] @ ''</head><body>'' @ [CHR 0x0A] @ ''<h1>Bulk-set secrets '' @
     [CHR 0xE2, CHR 0x80, CHR 0x94] @ '' <code>'' @ paste_escape label @ ''</code></h1>'' @
     [CHR 0x0A] @ ''<p>'' @ paste_escape description @ ''</p>'' @ [CHR 0x0A] @
     ''<form method='' @ [CHR 0x22] @ ''POST'' @ [CHR 0x22] @ '' action='' @ [CHR 0x22] @
     ''/bulk/'' @ paste_escape token @ [CHR 0x22] @ ''>'' @ [CHR 0x0A] @
     ''<label>Import label:</label>'' @ [CHR 0x0A] @ ''<input type='' @ [CHR 0x22] @ ''text'' @
     [CHR 0x22] @ '' name='' @ [CHR 0x22] @ ''label'' @ [CHR 0x22] @ '' value='' @ [CHR 0x22] @
     paste_escape label @ [CHR 0x22] @ '' autocomplete='' @ [CHR 0x22] @ ''off'' @ [CHR 0x22] @
     ''>'' @ [CHR 0x0A] @
     ''<label>Paste a <code>.env</code>-style dump. One <code>KEY=VALUE</code> per '' @
     ''line. Comments (<code>#</code>) and blank lines are ignored. <code>export '' @ ''KEY='' @
     [CHR 0xE2, CHR 0x80, CHR 0xA6] @
     ''</code> prefixes are stripped. Surrounding quotes are stripped from values.</label>'' @
     [CHR 0x0A] @ ''<p class='' @ [CHR 0x22] @ ''help'' @ [CHR 0x22] @
     ''>By default, existing secrets are NOT overwritten '' @ [CHR 0xE2, CHR 0x80, CHR 0x94] @
     '' they'' @ [CHR 0x27] @
     ''ll appear in the result page as <em>already exists</em>. To intentionally '' @
     ''rotate, append <code>?update=1</code> to this URL.</p>'' @ [CHR 0x0A] @
     ''<textarea name='' @ [CHR 0x22] @ ''dump'' @ [CHR 0x22] @
     '' autofocus required placeholder='' @ [CHR 0x22] @
     ''DATABASE_URL=postgres://localhost/app'' @ [CHR 0x0A] @ ''NPM_TOKEN=npm_aBcD1234'' @
     [CHR 0x0A] @ ''# this line is a comment, ignored'' @ [CHR 0x0A] @
     ''export STRIPE_KEY=&quot;sk_live_with spaces&quot;'' @ [CHR 0x22] @ ''></textarea>'' @
     [CHR 0x0A] @
     ''<label>Allowed destinations for all stored secrets (optional, comma-separated '' @
     ''hostnames):</label>'' @ [CHR 0x0A] @ ''<input type='' @ [CHR 0x22] @ ''text'' @
     [CHR 0x22] @ '' name='' @ [CHR 0x22] @ ''allowed_destinations'' @ [CHR 0x22] @
     '' placeholder='' @ [CHR 0x22] @ ''api.example.com, *.example.com'' @ [CHR 0x22] @
     '' autocomplete='' @ [CHR 0x22] @ ''off'' @ [CHR 0x22] @ ''>'' @ [CHR 0x0A] @
     ''<button type='' @ [CHR 0x22] @ ''submit'' @ [CHR 0x22] @ ''>Store all</button>'' @
     [CHR 0x0A] @ ''</form>'' @ [CHR 0x0A] @ ''<div class='' @ [CHR 0x22] @ ''warn'' @
     [CHR 0x22] @ ''>'' @ [CHR 0xE2, CHR 0x9A, CHR 0xA0] @
     '' This URL is single-use and expires shortly. The full dump is processed once '' @
     ''and never displayed.</div>'' @ [CHR 0x0A] @ ''</body></html>''"

fun bulk_row :: "bulk_line_result \<Rightarrow> string" where
  "bulk_row (Stored k preview) =
     ''<li class='' @ [CHR 0x22] @ ''ok'' @ [CHR 0x22] @ ''>'' @
     [CHR 0xE2, CHR 0x9C, CHR 0x93] @ '' stored <code>'' @ paste_escape k @ ''</code>'' @
     (case preview of Some p \<Rightarrow> '' <span style='' @ [CHR 0x22] @ ''color:#666'' @ [CHR 0x22] @ ''>('' @ paste_escape p @ '')</span>'' | None \<Rightarrow> []) @
     ''</li>''"
| "bulk_row (AlreadyExists k) =
     ''<li class='' @ [CHR 0x22] @ ''skip'' @ [CHR 0x22] @ ''>'' @
     [CHR 0xE2, CHR 0x8A, CHR 0x98] @ '' <code>'' @ paste_escape k @
     ''</code> already exists <span style='' @ [CHR 0x22] @ ''color:#666'' @ [CHR 0x22] @
     ''>(re-open with <code>?update=1</code> to overwrite)</span></li>''"
| "bulk_row (BulkInvalidName k) =
     ''<li class='' @ [CHR 0x22] @ ''err'' @ [CHR 0x22] @ ''>'' @
     [CHR 0xE2, CHR 0x9C, CHR 0x97] @ '' <code>'' @ paste_escape k @ ''</code> rejected '' @
     [CHR 0xE2, CHR 0x80, CHR 0x94] @
     '' illegal characters in key (allowed: A-Z a-z 0-9 _ -)</li>''"
| "bulk_row (Malformed n snippet) =
     ''<li class='' @ [CHR 0x22] @ ''err'' @ [CHR 0x22] @ ''>'' @
     [CHR 0xE2, CHR 0x9C, CHR 0x97] @ '' line '' @ show_nat n @
     '' not <code>KEY=VALUE</code>: <code>'' @ paste_escape snippet @ ''</code></li>''"
| "bulk_row (StoreFailed k e) =
     ''<li class='' @ [CHR 0x22] @ ''err'' @ [CHR 0x22] @ ''>'' @
     [CHR 0xE2, CHR 0x9C, CHR 0x97] @ '' <code>'' @ paste_escape k @
     ''</code> backend error: '' @ paste_escape e @ ''</li>''"

definition render_bulk_results :: "string \<Rightarrow> bulk_line_result list \<Rightarrow> string" where
  "render_bulk_results label results =
     (let count = (\<lambda>P. show_nat (length (filter P results))) in
     ''<!doctype html><html><head><meta charset='' @ [CHR 0x22] @ ''utf-8'' @ [CHR 0x22] @
     ''><title>Bulk results '' @ [CHR 0xE2, CHR 0x80, CHR 0x94] @ '' '' @ paste_escape label @
     ''</title>'' @ [CHR 0x0A] @
     ''<style>body {font-family:system-ui,sans-serif;max-width:720px;margin:3rem '' @
     ''auto;padding:0 1rem;color:#1a1a1a}'' @ [CHR 0x0A] @
     ''h1 {font-size:1.2rem} ul {padding-left:1.2rem;line-height:1.7}'' @ [CHR 0x0A] @
     ''.ok {color:#0a6} .skip {color:#a60} .err {color:#a00}'' @ [CHR 0x0A] @
     ''.summary {background:#f4f4f4;padding:.6rem .8rem;border-radius:4px;font-size:.95rem;margin-bottom:1rem}</style>'' @
     [CHR 0x0A] @ ''</head><body>'' @ [CHR 0x0A] @ ''<h1>Bulk results '' @
     [CHR 0xE2, CHR 0x80, CHR 0x94] @ '' <code>'' @ paste_escape label @ ''</code></h1>'' @
     [CHR 0x0A] @ ''<div class='' @ [CHR 0x22] @ ''summary'' @ [CHR 0x22] @ ''>'' @ [CHR 0x0A] @
     ''  <strong>'' @ count is_stored @ ''</strong> stored '' @ [CHR 0xC2, CHR 0xB7, CHR 0x0A] @
     ''  <strong>'' @ count is_existing @ ''</strong> already-exists '' @
     [CHR 0xC2, CHR 0xB7, CHR 0x0A] @ ''  <strong>'' @ count is_invalid @
     ''</strong> invalid name '' @ [CHR 0xC2, CHR 0xB7, CHR 0x0A] @ ''  <strong>'' @
     count is_malformed @ ''</strong> malformed '' @ [CHR 0xC2, CHR 0xB7, CHR 0x0A] @
     ''  <strong>'' @ count is_failed @ ''</strong> backend failure'' @ [CHR 0x0A] @
     ''</div>'' @ [CHR 0x0A] @ ''<ul>'' @ concat (map bulk_row results) @ ''</ul>'' @
     [CHR 0x0A] @ ''<p style='' @ [CHR 0x22] @ ''color:#666'' @ [CHR 0x22] @
     ''>You can close this tab. The bulk-paste URL is now spent.</p>'' @ [CHR 0x0A] @
     ''</body></html>'')"

definition NOT_FOUND_HTML :: "string" where
  "NOT_FOUND_HTML =
     ''<h1>Not found</h1><p>This paste link doesn'' @ [CHR 0x27] @ ''t exist.</p>''"

definition EXPIRED_HTML :: "string" where
  "EXPIRED_HTML =
     ''<h1>Expired</h1><p>This paste link has expired. Request a new one.</p>''"

end
