(* ===== verification/Paste_Server.thy ===== *)
theory Paste_Server
  imports Paste_Forms Fnox_Client
begin

text \<open>
  The one-shot secret-input servers of \<open>crates/paste-server/src/lib.rs\<close>: the table of pending
  requests with its claims, the two GET and the two POST handlers, and the servers that
  \<open>spawn_request\<close> and \<open>spawn_bulk_request\<close> start.

  POST handlers run concurrently and give way at every \<open>await\<close>.  A handler is a thread of a
  step relation: its steps are the pieces between two waits (or finer), the steps of different
  threads interleave freely, and a thread can be dropped between two steps or within one that
  runs \<open>fnox\<close> (the client has gone).  The
  clock is given with each claim.  What \<open>fnox\<close> does is the argument \<open>fw\<close> of \<open>Fnox_Client\<close>;
  texts of foreign errors and the JSON reader and writer are arguments too.
\<close>

section \<open>Requests\<close>

text \<open>
  \<open>PendingRequest\<close> and \<open>PendingBulkRequest\<close>: the first field is the name of the secret or the
  label of the import.  Times are nanoseconds.
\<close>

record pending =
  pd_name :: string
  pd_description :: string
  pd_expires_at :: int
  pd_in_progress :: bool
  pd_completed :: bool

type_synonym requests = "string \<rightharpoonup> pending"

datatype paste_state_error = PsNotFound | PsExpired | PsInUse

type_synonym response = "nat \<times> string"

fun state_error_response :: "bool \<Rightarrow> paste_state_error \<Rightarrow> response" where
  "state_error_response bulk PsNotFound = (404, NOT_FOUND_HTML)"
| "state_error_response bulk PsExpired = (410, EXPIRED_HTML)"
| "state_error_response bulk PsInUse =
     (409, if bulk then ''This bulk-paste link has already been used.''
           else ''This paste link has already been used.'')"

definition validate_request_state :: "int \<Rightarrow> pending \<Rightarrow> paste_state_error + unit" where
  "validate_request_state now req =
     (if pd_expires_at req < now then Inl PsExpired
      else if pd_completed req \<or> pd_in_progress req then Inl PsInUse
      else Inr ())"

definition claim_request ::
  "int \<Rightarrow> requests \<Rightarrow> string \<Rightarrow> (paste_state_error + pending) \<times> requests" where
  "claim_request now requests token =
     (case requests token of
        None \<Rightarrow> (Inl PsNotFound, requests)
      | Some req \<Rightarrow>
          (case validate_request_state now req of
             Inl e \<Rightarrow> (Inl e, requests)
           | Inr _ \<Rightarrow>
               (let req' = req\<lparr>pd_in_progress := True\<rparr>
                in (Inr req', requests(token \<mapsto> req')))))"

definition complete_request :: "requests \<Rightarrow> string \<Rightarrow> requests" where
  "complete_request requests token =
     (case requests token of
        None \<Rightarrow> requests
      | Some req \<Rightarrow> requests(token \<mapsto> req\<lparr>pd_in_progress := False, pd_completed := True\<rparr>))"

definition release_request :: "requests \<Rightarrow> string \<Rightarrow> requests" where
  "release_request requests token =
     (case requests token of
        None \<Rightarrow> requests
      | Some req \<Rightarrow> requests(token \<mapsto> req\<lparr>pd_in_progress := False\<rparr>))"

section \<open>What the handlers are given\<close>

record ('e, 'p) paste_world =
  pw_env :: env
  pw_config :: paste_config
  pw_client :: fnox_client
  pw_fnox :: fnox_world
  pw_parse :: "string \<Rightarrow> 'p + secret_metadata_store"
  pw_print :: "secret_metadata_store \<Rightarrow> 'p + string"
  pw_fault :: "'e faults"
  pw_io_text :: "'e io_err \<Rightarrow> string"
  pw_json_text :: "'p \<Rightarrow> string"
  pw_debug :: "string \<Rightarrow> string"

definition metadata_error_text :: "('e, 'p) paste_world \<Rightarrow> ('e, 'p) metadata_error \<Rightarrow> string" where
  "metadata_error_text pw e = show_metadata_error (pw_debug pw) (pw_io_text pw) (pw_json_text pw) e"

text \<open>A submitted form; \<open>sb_value\<close> is the dump of a bulk form, which alone has a label.\<close>

record submission =
  sb_token :: string
  sb_update :: "u32 option"
  sb_origin :: "string option"
  sb_value :: string
  sb_destinations :: "string option"
  sb_label :: "string option"

definition wants_update :: "submission \<Rightarrow> bool" where
  "wants_update sub \<longleftrightarrow> (case sb_update sub of Some u \<Rightarrow> u \<noteq> 0 | None \<Rightarrow> False)"

definition submitted_destinations ::
  "submission \<Rightarrow> ('e, 'p) metadata_error + string list" where
  "submitted_destinations sub =
     parse_destinations (case sb_destinations sub of Some d \<Rightarrow> d | None \<Rightarrow> [])"

definition bad_origin_response :: response where
  "bad_origin_response = (403, ''Rejected: missing/invalid Origin header (anti-rebinding)'')"

definition bad_destinations_response ::
  "('e, 'p) paste_world \<Rightarrow> ('e, 'p) metadata_error \<Rightarrow> response" where
  "bad_destinations_response pw e =
     (400, ''Invalid allowed destination list: '' @ paste_escape (metadata_error_text pw e))"

text \<open>
  What a piece of a handler ends in: another wait, the end of the work with whether the
  submission is signalled, or the release of the claim; the last two with the response.
\<close>

datatype 'w outcome = Continue 'w | Finish bool response | Release response

text \<open>The nondeterminism of one piece: the clock and the rounds of the metadata lock.\<close>

type_synonym lock_input = "string \<times> (bool \<times> (fs \<Rightarrow> fs)) list"

definition store_destinations ::
  "('e, 'p) paste_world \<Rightarrow> lock_input \<Rightarrow> fs \<Rightarrow> string \<Rightarrow> string list \<Rightarrow>
   ((('e, 'p) metadata_error + unit) \<times> fs) option" where
  "store_destinations pw i fs name dests =
     set_allowed_destinations (pw_parse pw) (pw_print pw) (pw_fault pw) (pw_env pw) (fst i) (snd i)
       fs name dests"

section \<open>The single form\<close>

datatype single_work =
    SwList "string list"
  | SwDestinations "string list"
  | SwSet

text \<open>
  \<open>post_submit\<close> up to the claim: the response that turns the form away, or the destinations
  that were parsed.
\<close>

definition single_check :: "('e, 'p) paste_world \<Rightarrow> submission \<Rightarrow> response + string list" where
  "single_check pw sub =
     (if \<not> origin_ok (pw_env pw) (pw_config pw) (sb_origin sub) then Inl bad_origin_response
      else if sb_value sub = [] then Inl (400, ''Empty value rejected.'')
      else (case (submitted_destinations sub :: ('e, 'p) metadata_error + string list) of
              Inl e \<Rightarrow> Inl (bad_destinations_response pw e)
            | Inr dests \<Rightarrow> Inr dests))"

definition single_begin :: "submission \<Rightarrow> string list \<Rightarrow> pending \<Rightarrow> single_work outcome" where
  "single_begin sub dests req =
     (if wants_update sub then Continue (SwDestinations dests) else Continue (SwList dests))"

definition exists_response :: "string \<Rightarrow> response" where
  "exists_response name =
     (409, ''Secret <code>'' @ paste_escape name @
        ''</code> already exists. To intentionally rotate, re-open this URL with '' @
        ''<code>?update=1</code> appended.'')"

definition single_listed ::
  "pending \<Rightarrow> string list \<Rightarrow> fnox_error + string list \<Rightarrow> single_work outcome" where
  "single_listed req dests r =
     (case r of
        Inr names \<Rightarrow>
          if pd_name req \<in> set names then Release (exists_response (pd_name req))
          else Continue (SwDestinations dests)
      | Inl _ \<Rightarrow>
          Release (500, ''Failed to verify secret state '' @ [CHR 0xE2, CHR 0x80, CHR 0x94] @
                        '' refusing to set.''))"

definition single_described ::
  "('e, 'p) paste_world \<Rightarrow> (('e, 'p) metadata_error + unit) \<Rightarrow> single_work outcome" where
  "single_described pw r =
     (case r of
        Inl e \<Rightarrow>
          Release (500, ''Destination policy was not stored, so the secret value was not written: ''
                        @ paste_escape (metadata_error_text pw e))
      | Inr _ \<Rightarrow> Continue SwSet)"

definition single_stored ::
  "('e, 'p) paste_world \<Rightarrow> submission \<Rightarrow> pending \<Rightarrow> fnox_error + unit \<Rightarrow> single_work outcome" where
  "single_stored pw sub req r =
     (case r of
        Inr _ \<Rightarrow>
          Finish True (200, render_confirmation (pd_name req)
            (map_option (truncated_preview (sb_value sub)) (pc_preview_chars (pw_config pw))))
      | Inl e \<Rightarrow>
          Release (500, ''Failed to store secret: '' @
                        paste_escape (fnox_error_text (pw_debug pw) e)))"

text \<open>One piece of the handler after the claim.\<close>

fun single_work_step ::
  "('e, 'p) paste_world \<Rightarrow> submission \<Rightarrow> pending \<Rightarrow> single_work \<Rightarrow> lock_input \<Rightarrow> fs \<Rightarrow> fnox_state \<Rightarrow>
   (single_work outcome \<times> fs \<times> fnox_state) option" where
  "single_work_step pw sub req (SwList dests) i fs ps =
     (let (r, ps') = fnox_list (pw_fnox pw) (pw_client pw) ps
      in Some (single_listed req dests r, fs, ps'))"
| "single_work_step pw sub req (SwDestinations dests) i fs ps =
     (if sb_destinations sub = None then Some (Continue SwSet, fs, ps)
      else (case store_destinations pw i fs (pd_name req) dests of
              None \<Rightarrow> None
            | Some (r, fs') \<Rightarrow> Some (single_described pw r, fs', ps)))"
| "single_work_step pw sub req SwSet i fs ps =
     (let (r, ps') = fnox_set (pw_fnox pw) (pw_client pw) (pd_name req) (sb_value sub) ps
      in Some (single_stored pw sub req r, fs, ps'))"

text \<open>\<open>get_form\<close>, with the destinations the sidecar has for the name.\<close>

definition current_allowed_destinations ::
  "('e, 'p) paste_world \<Rightarrow> fs \<Rightarrow> string \<Rightarrow> ('e, 'p) metadata_error + string" where
  "current_allowed_destinations pw fs name =
     res_bind (load_default_metadata (pw_parse pw) (pw_fault pw) fs (pw_env pw)) (\<lambda>store.
       Inr (case secrets store name of
              Some m \<Rightarrow> join_with '', '' (md_allowed_destinations m) | None \<Rightarrow> []))"

definition get_form :: "('e, 'p) paste_world \<Rightarrow> int \<Rightarrow> fs \<Rightarrow> requests \<Rightarrow> string \<Rightarrow> response" where
  "get_form pw now fs requests token =
     (case requests token of
        None \<Rightarrow> (404, NOT_FOUND_HTML)
      | Some req \<Rightarrow>
          if pd_expires_at req < now then (410, EXPIRED_HTML)
          else if pd_completed req \<or> pd_in_progress req
          then (409, ''This paste link has already been used.'')
          else (case current_allowed_destinations pw fs (pd_name req) of
                  Inl _ \<Rightarrow> (500, ''Failed to load current destination policy.'')
                | Inr dests \<Rightarrow>
                    (200, render_form (pd_name req) (pd_description req) token dests)))"

section \<open>The bulk form\<close>

type_synonym env_entry = "(nat \<times> string) + (string \<times> string)"

datatype bulk_work =
    BwList "string list"
  | BwEntries "string list" "string list" "env_entry list" "bulk_line_result list" bool
  | BwSet "string list" "string list" string string "env_entry list" "bulk_line_result list" bool

text \<open>The bulk handler parses the destinations after the claim, so there are none yet.\<close>

definition bulk_check :: "('e, 'p) paste_world \<Rightarrow> submission \<Rightarrow> response + string list" where
  "bulk_check pw sub =
     (if \<not> origin_ok (pw_env pw) (pw_config pw) (sb_origin sub) then Inl bad_origin_response
      else if trim (sb_value sub) = [] then Inl (400, ''Empty dump rejected.'')
      else Inr [])"

definition bulk_destinations_submitted :: "submission \<Rightarrow> bool" where
  "bulk_destinations_submitted sub \<longleftrightarrow>
     (case sb_destinations sub of Some d \<Rightarrow> trim d \<noteq> [] | None \<Rightarrow> False)"

definition bulk_begin ::
  "('e, 'p) paste_world \<Rightarrow> submission \<Rightarrow> string list \<Rightarrow> pending \<Rightarrow> bulk_work outcome" where
  "bulk_begin pw sub _ req =
     (case (submitted_destinations sub :: ('e, 'p) metadata_error + string list) of
        Inl e \<Rightarrow> Release (bad_destinations_response pw e)
      | Inr dests \<Rightarrow>
          if wants_update sub
          then Continue (BwEntries dests [] (parse_env_dump (sb_value sub)) [] False)
          else Continue (BwList dests))"

definition bulk_listed ::
  "submission \<Rightarrow> string list \<Rightarrow> fnox_error + string list \<Rightarrow> bulk_work outcome" where
  "bulk_listed sub dests r =
     (case r of
        Inr names \<Rightarrow> Continue (BwEntries dests names (parse_env_dump (sb_value sub)) [] False)
      | Inl _ \<Rightarrow>
          Release (500, ''Failed to verify existing secret state '' @
                        [CHR 0xE2, CHR 0x80, CHR 0x94] @ '' refusing bulk set.''))"

definition result_label :: "submission \<Rightarrow> pending \<Rightarrow> string" where
  "result_label sub req =
     (case sb_label sub of
        Some l \<Rightarrow> if trim l = [] then pd_name req else trim l
      | None \<Rightarrow> pd_name req)"

text \<open>One round of the loop over the parsed lines, up to the call of \<open>set\<close>, and after it.\<close>

definition bulk_entry ::
  "('e, 'p) paste_world \<Rightarrow> submission \<Rightarrow> string list \<Rightarrow> string list \<Rightarrow> env_entry \<Rightarrow> env_entry list \<Rightarrow>
   bulk_line_result list \<Rightarrow> bool \<Rightarrow> lock_input \<Rightarrow> fs \<Rightarrow> (bulk_work outcome \<times> fs) option" where
  "bulk_entry pw sub dests existing entry rest results stored i fs =
     (let next = (\<lambda>r. Continue (BwEntries dests existing rest (results @ [r]) stored)) in
      case entry of
        Inl (n, snippet) \<Rightarrow> Some (next (Malformed n snippet), fs)
      | Inr (key, v) \<Rightarrow>
          if \<not> paste_valid_name key then Some (next (BulkInvalidName key), fs)
          else if \<not> wants_update sub \<and> key \<in> set existing then Some (next (AlreadyExists key), fs)
          else if bulk_destinations_submitted sub
          then (case store_destinations pw i fs key dests of
                  None \<Rightarrow> None
                | Some (Inl e, fs') \<Rightarrow>
                    Some (next (StoreFailed key
                      (''destination policy was not stored; refusing to write secret value: '' @
                       metadata_error_text pw e)), fs')
                | Some (Inr _, fs') \<Rightarrow>
                    Some (Continue (BwSet dests existing key v rest results stored), fs'))
          else Some (Continue (BwSet dests existing key v rest results stored), fs))"

definition bulk_set_result ::
  "('e, 'p) paste_world \<Rightarrow> string \<Rightarrow> string \<Rightarrow> fnox_error + unit \<Rightarrow> bulk_line_result" where
  "bulk_set_result pw key v r =
     (case r of
        Inr _ \<Rightarrow> Stored key (map_option (truncated_preview v) (pc_preview_chars (pw_config pw)))
      | Inl e \<Rightarrow> StoreFailed key (fnox_error_text (pw_debug pw) e))"

fun bulk_work_step ::
  "('e, 'p) paste_world \<Rightarrow> submission \<Rightarrow> pending \<Rightarrow> bulk_work \<Rightarrow> lock_input \<Rightarrow> fs \<Rightarrow> fnox_state \<Rightarrow>
   (bulk_work outcome \<times> fs \<times> fnox_state) option" where
  "bulk_work_step pw sub req (BwList dests) i fs ps =
     (let (r, ps') = fnox_list (pw_fnox pw) (pw_client pw) ps
      in Some (bulk_listed sub dests r, fs, ps'))"
| "bulk_work_step pw sub req (BwEntries dests existing [] results stored) i fs ps =
     Some (Finish stored (200, render_bulk_results (result_label sub req) results), fs, ps)"
| "bulk_work_step pw sub req (BwEntries dests existing (e # rest) results stored) i fs ps =
     map_option (\<lambda>(w, fs'). (w, fs', ps))
       (bulk_entry pw sub dests existing e rest results stored i fs)"
| "bulk_work_step pw sub req (BwSet dests existing key v rest results stored) i fs ps =
     (let (r, ps') = fnox_set (pw_fnox pw) (pw_client pw) key v ps
      in Some (Continue (BwEntries dests existing rest (results @ [bulk_set_result pw key v r])
                 (stored \<or> is_ok r)), fs, ps'))"

definition get_bulk_form :: "int \<Rightarrow> requests \<Rightarrow> string \<Rightarrow> response" where
  "get_bulk_form now requests token =
     (case requests token of
        None \<Rightarrow> (404, NOT_FOUND_HTML)
      | Some req \<Rightarrow>
          if pd_expires_at req < now then (410, EXPIRED_HTML)
          else if pd_completed req \<or> pd_in_progress req
          then (409, ''This bulk-paste link has already been used.'')
          else (200, render_bulk_form (pd_name req) (pd_description req) token))"

section \<open>The server\<close>

text \<open>
  A handler thread: not there yet, past its checks, at work under its claim, waiting to
  complete or release it, waiting to signal the submission, answered, or dropped.
\<close>

datatype 'w post_thread =
    PIdle
  | PChecked submission "string list"
  | PWorking submission pending 'w
  | PCompleting submission bool response
  | PSignalling response
  | PReleasing submission response
  | PAnswered response
  | PDropped

record 'w paste_server =
  sv_requests :: requests
  sv_submitted :: bool
  sv_fs :: fs
  sv_procs :: fnox_state
  sv_threads :: "nat \<Rightarrow> 'w post_thread"

text \<open>The handler of one server.\<close>

record 'w post_handler =
  ph_bulk :: bool
  ph_check :: "submission \<Rightarrow> response + string list"
  ph_begin :: "submission \<Rightarrow> string list \<Rightarrow> pending \<Rightarrow> 'w outcome"
  ph_work :: "submission \<Rightarrow> pending \<Rightarrow> 'w \<Rightarrow> lock_input \<Rightarrow> fs \<Rightarrow> fnox_state \<Rightarrow>
              ('w outcome \<times> fs \<times> fnox_state) option"

definition post_submit :: "('e, 'p) paste_world \<Rightarrow> single_work post_handler" where
  "post_submit pw =
     \<lparr>ph_bulk = False, ph_check = single_check pw, ph_begin = single_begin,
      ph_work = single_work_step pw\<rparr>"

definition post_bulk_submit :: "('e, 'p) paste_world \<Rightarrow> bulk_work post_handler" where
  "post_bulk_submit pw =
     \<lparr>ph_bulk = True, ph_check = bulk_check pw, ph_begin = bulk_begin pw,
      ph_work = bulk_work_step pw\<rparr>"

definition after_outcome :: "submission \<Rightarrow> pending \<Rightarrow> 'w outcome \<Rightarrow> 'w post_thread" where
  "after_outcome sub req out =
     (case out of
        Continue w \<Rightarrow> PWorking sub req w
      | Finish sig resp \<Rightarrow> PCompleting sub sig resp
      | Release resp \<Rightarrow> PReleasing sub resp)"

definition set_thread :: "nat \<Rightarrow> 'w post_thread \<Rightarrow> 'w paste_server \<Rightarrow> 'w paste_server" where
  "set_thread t th s = s\<lparr>sv_threads := (sv_threads s)(t := th)\<rparr>"

text \<open>
  The processes a dropped wait leaves: some of those it would have started, the last of them
  possibly without its input.
\<close>

definition dropped_procs :: "fnox_state \<Rightarrow> fnox_state \<Rightarrow> fnox_state \<Rightarrow> bool" where
  "dropped_procs before all ps \<longleftrightarrow>
     length before \<le> length ps \<and>
     list_all2 (\<lambda>p q. p = q \<or> p = q\<lparr>fp_stdin := None\<rparr>) ps (take (length ps) all)"

datatype 'w paste_event =
    EvCheck nat submission
  | EvClaim nat int submission pending
  | EvRefuse nat int submission
  | EvWork nat submission pending 'w fnox_state "'w outcome"
  | EvComplete nat submission
  | EvSignal nat
  | EvRelease nat submission
  | EvDrop nat
  | EvWorld

inductive paste_step ::
  "'w post_handler \<Rightarrow> 'w paste_server \<Rightarrow> 'w paste_event \<Rightarrow> 'w paste_server \<Rightarrow> bool"
  for h where
  step_check:
    "sv_threads s t = PIdle \<Longrightarrow>
     paste_step h s (EvCheck t sub)
       (set_thread t (case ph_check h sub of Inl resp \<Rightarrow> PAnswered resp | Inr dests \<Rightarrow> PChecked sub dests) s)"
| step_claim:
    "sv_threads s t = PChecked sub dests \<Longrightarrow>
     claim_request now (sv_requests s) (sb_token sub) = (Inr req, reqs) \<Longrightarrow>
     paste_step h s (EvClaim t now sub req)
       (set_thread t (after_outcome sub req (ph_begin h sub dests req)) (s\<lparr>sv_requests := reqs\<rparr>))"
| step_refuse:
    "sv_threads s t = PChecked sub dests \<Longrightarrow>
     claim_request now (sv_requests s) (sb_token sub) = (Inl e, reqs) \<Longrightarrow>
     paste_step h s (EvRefuse t now sub)
       (set_thread t (PAnswered (state_error_response (ph_bulk h) e)) (s\<lparr>sv_requests := reqs\<rparr>))"
| step_work:
    "sv_threads s t = PWorking sub req w \<Longrightarrow>
     ph_work h sub req w i (sv_fs s) (sv_procs s) = Some (out, fs', ps') \<Longrightarrow>
     paste_step h s (EvWork t sub req w (sv_procs s) out)
       (set_thread t (after_outcome sub req out) (s\<lparr>sv_fs := fs', sv_procs := ps'\<rparr>))"
| step_complete:
    "sv_threads s t = PCompleting sub sig resp \<Longrightarrow>
     paste_step h s (EvComplete t sub)
       (set_thread t (if sig then PSignalling resp else PAnswered resp)
          (s\<lparr>sv_requests := complete_request (sv_requests s) (sb_token sub)\<rparr>))"
| step_signal:
    "sv_threads s t = PSignalling resp \<Longrightarrow>
     paste_step h s (EvSignal t) (set_thread t (PAnswered resp) (s\<lparr>sv_submitted := True\<rparr>))"
| step_release:
    "sv_threads s t = PReleasing sub resp \<Longrightarrow>
     paste_step h s (EvRelease t sub)
       (set_thread t (PAnswered resp)
          (s\<lparr>sv_requests := release_request (sv_requests s) (sb_token sub)\<rparr>))"
| step_drop:
    "sv_threads s t \<noteq> PIdle \<Longrightarrow> paste_step h s (EvDrop t) (set_thread t PDropped s)"
| step_drop_work:
    "sv_threads s t = PWorking sub req w \<Longrightarrow>
     ph_work h sub req w i (sv_fs s) (sv_procs s) = Some (out, fs', ps') \<Longrightarrow>
     dropped_procs (sv_procs s) ps' ps \<Longrightarrow> sv_procs s \<noteq> ps' \<Longrightarrow>
     paste_step h s (EvDrop t) (set_thread t PDropped (s\<lparr>sv_procs := ps\<rparr>))"
| step_world:
    "paste_step h s EvWorld (s\<lparr>sv_fs := fs'\<rparr>)"

section \<open>Starting a server\<close>

text \<open>\<open>mint_token\<close>: the hexadecimal text of 32 random bytes.\<close>

definition hex_digit :: "nat \<Rightarrow> char" where
  "hex_digit n = (if n < 10 then char_of (48 + n) else char_of (87 + n))"

definition mint_token :: "char list \<Rightarrow> string" where
  "mint_token bytes = concat (map (\<lambda>b. [hex_digit (of_char b div 16), hex_digit (of_char b mod 16)]) bytes)"

text \<open>\<open>chrono\<close> holds at most \<open>i64::MAX\<close> milliseconds; a sum past its last date panics.\<close>

definition duration_from_std :: "nat \<Rightarrow> int option" where
  "duration_from_std ns = (if ns \<le> (2 ^ 63 - 1) * 10 ^ 6 then Some (int ns) else None)"

definition paste_expires_at :: "paste_config \<Rightarrow> int \<Rightarrow> int" where
  "paste_expires_at cfg now =
     now + (case duration_from_std (pc_expiry cfg) of Some d \<Rightarrow> d | None \<Rightarrow> 5 * 60 * 10 ^ 9)"

datatype paste_error = PeInvalidName | PeIo string

text \<open>A bound listener: whether its address is the unspecified one, the address and the port.\<close>

record listener =
  ls_unspecified :: bool
  ls_ip :: string
  ls_port :: nat

record paste_handle =
  hd_url :: string
  hd_token :: string
  hd_expires_at :: int

definition fresh_server :: "string \<Rightarrow> pending \<Rightarrow> fs \<Rightarrow> 'w paste_server" where
  "fresh_server token req fs =
     \<lparr>sv_requests = [token \<mapsto> req], sv_submitted = False, sv_fs = fs, sv_procs = [],
      sv_threads = (\<lambda>_. PIdle)\<rparr>"

text \<open>
  The random bytes, the clock, the largest time, the LAN address and the listener come from
  outside; \<open>None\<close> is the panic.
\<close>

definition spawn_server ::
  "('e, 'p) paste_world \<Rightarrow> string \<Rightarrow> string \<Rightarrow> string \<Rightarrow> char list \<Rightarrow> int \<Rightarrow> int \<Rightarrow> string option \<Rightarrow>
   (string \<Rightarrow> string + listener) \<Rightarrow> fs \<Rightarrow> (paste_error + paste_handle \<times> 'w paste_server) option" where
  "spawn_server pw route name description bytes now dt_max lan bind fs =
     (let cfg = pw_config pw; token = mint_token bytes; expires = paste_expires_at cfg now in
      if dt_max < expires then None
      else Some (case bind (configured_bind_addr (pw_env pw) cfg) of
        Inl e \<Rightarrow> Inl (PeIo e)
      | Inr l \<Rightarrow>
          Inr (\<lparr>hd_url = build_url (pw_env pw) cfg lan (ls_unspecified l) (ls_ip l) (ls_port l)
                            route token,
                hd_token = token, hd_expires_at = expires\<rparr>,
               fresh_server token
                 \<lparr>pd_name = name, pd_description = description, pd_expires_at = expires,
                  pd_in_progress = False, pd_completed = False\<rparr> fs)))"

definition spawn_request ::
  "('e, 'p) paste_world \<Rightarrow> string \<Rightarrow> string \<Rightarrow> char list \<Rightarrow> int \<Rightarrow> int \<Rightarrow> string option \<Rightarrow>
   (string \<Rightarrow> string + listener) \<Rightarrow> fs \<Rightarrow>
   (paste_error + paste_handle \<times> single_work paste_server) option" where
  "spawn_request pw name description bytes now dt_max lan bind fs =
     (if \<not> paste_valid_name name then Some (Inl PeInvalidName)
      else spawn_server pw ''paste'' name description bytes now dt_max lan bind fs)"

definition spawn_bulk_request ::
  "('e, 'p) paste_world \<Rightarrow> string \<Rightarrow> string \<Rightarrow> char list \<Rightarrow> int \<Rightarrow> int \<Rightarrow> string option \<Rightarrow>
   (string \<Rightarrow> string + listener) \<Rightarrow> fs \<Rightarrow>
   (paste_error + paste_handle \<times> bulk_work paste_server) option" where
  "spawn_bulk_request pw label description bytes now dt_max lan bind fs =
     spawn_server pw ''bulk'' label description bytes now dt_max lan bind fs"

end
