(* ===== verification/Paste_Once.thy ===== *)
theory Paste_Once
  imports Paste_Server
begin

text \<open>
  What the one-shot servers of \<open>Paste_Server\<close> promise: a link stores once, every process that
  is started is explained by a submission that passed the checks, and a bulk import answers
  every line.
\<close>

section \<open>A link is used once\<close>

text \<open>The token a thread holds a claim on.\<close>

fun holds :: "'w post_thread \<Rightarrow> string option" where
  "holds (PWorking sub req w) = Some (sb_token sub)"
| "holds (PCompleting sub sig resp) = Some (sb_token sub)"
| "holds (PReleasing sub resp) = Some (sb_token sub)"
| "holds _ = None"

fun completes :: "'w post_thread \<Rightarrow> bool" where
  "completes (PCompleting sub sig resp) = True"
| "completes _ = False"

fun finishes :: "string \<Rightarrow> 'w paste_event \<Rightarrow> bool" where
  "finishes tok (EvWork t sub req w ps (Finish sig resp)) = (sb_token sub = tok)"
| "finishes tok _ = False"

text \<open>An event that needs or takes the claim on a token.\<close>

fun uses :: "string \<Rightarrow> 'w paste_event \<Rightarrow> bool" where
  "uses tok (EvWork t sub req w ps out) = (sb_token sub = tok)"
| "uses tok (EvClaim t now sub req) = (sb_token sub = tok)"
| "uses tok _ = False"

fun used_once :: "string \<Rightarrow> 'w paste_event list \<Rightarrow> bool" where
  "used_once tok [] = True"
| "used_once tok (e # evs) =
     ((uses tok e \<longrightarrow> \<not> list_ex (finishes tok) evs) \<and> used_once tok evs)"

lemma used_once_at: "used_once tok (later @ e # evs) \<Longrightarrow> uses tok e \<Longrightarrow> \<not> list_ex (finishes tok) evs"
  by (induction later) auto

lemma finishes_uses: "finishes tok e \<Longrightarrow> uses tok e"
  by (cases "(tok, e)" rule: finishes.cases) auto

lemma used_once_le_1: "used_once tok evs \<Longrightarrow> length (filter (finishes tok) evs) \<le> 1"
proof (induction evs)
  case (Cons e evs)
  then show ?case
  proof (cases "finishes tok e")
    case True
    with Cons.prems finishes_uses have "\<not> list_ex (finishes tok) evs" by fastforce
    then have "filter (finishes tok) evs = []" by (simp add: filter_empty_conv list_ex_iff)
    with True show ?thesis by simp
  qed simp
qed simp

definition busy :: "requests \<Rightarrow> string \<Rightarrow> bool" where
  "busy reqs tok \<longleftrightarrow> (case reqs tok of None \<Rightarrow> False | Some r \<Rightarrow> pd_in_progress r)"

definition spent :: "requests \<Rightarrow> string \<Rightarrow> bool" where
  "spent reqs tok \<longleftrightarrow> (case reqs tok of None \<Rightarrow> False | Some r \<Rightarrow> pd_in_progress r \<or> pd_completed r)"

lemma claim_request_ok:
  assumes "claim_request now reqs tok = (Inr req, reqs')"
  shows "\<not> spent reqs tok" "busy reqs' tok" "\<And>k. k \<noteq> tok \<Longrightarrow> reqs' k = reqs k"
    "now \<le> pd_expires_at req" "reqs' tok = Some req"
    "\<exists>r0. reqs tok = Some r0 \<and> req = r0\<lparr>pd_in_progress := True\<rparr>"
  using assms
  by (auto simp: claim_request_def validate_request_state_def spent_def busy_def Let_def
      split: option.splits if_splits)

lemma claim_request_err: "claim_request now reqs tok = (Inl e, reqs') \<Longrightarrow> reqs' = reqs"
  by (auto simp: claim_request_def Let_def split: option.splits sum.splits)

lemma busy_spent: "busy reqs tok \<Longrightarrow> spent reqs tok"
  by (auto simp: busy_def spent_def split: option.splits)

lemma complete_request_simps:
  "k \<noteq> tok \<Longrightarrow> complete_request reqs tok k = reqs k"
  "spent reqs k \<Longrightarrow> spent (complete_request reqs tok) k"
  "busy reqs tok \<Longrightarrow> spent (complete_request reqs tok) tok"
  by (auto simp: complete_request_def spent_def busy_def split: option.splits)

lemma release_request_other: "k \<noteq> tok \<Longrightarrow> release_request reqs tok k = reqs k"
  by (auto simp: release_request_def split: option.splits)

lemma busy_cong: "reqs' k = reqs k \<Longrightarrow> busy reqs' k = busy reqs k \<and> spent reqs' k = spent reqs k"
  by (simp add: busy_def spent_def)

lemma holds_after [simp]: "holds (after_outcome sub req out) = Some (sb_token sub)"
  by (cases out) (simp_all add: after_outcome_def)

lemma set_thread_simps [simp]:
  "sv_threads (set_thread t th s) = (sv_threads s)(t := th)"
  "sv_requests (set_thread t th s) = sv_requests s"
  "sv_procs (set_thread t th s) = sv_procs s"
  "sv_fs (set_thread t th s) = sv_fs s"
  "sv_submitted (set_thread t th s) = sv_submitted s"
  by (simp_all add: set_thread_def)

text \<open>
  Claims are exclusive, a claimed token is in progress, and a finished one is spent, with at
  most its completion still to come.
\<close>

definition one_use :: "string \<Rightarrow> 'w paste_event list \<Rightarrow> 'w paste_server \<Rightarrow> bool" where
  "one_use tok evs s \<longleftrightarrow>
     (\<forall>t. holds (sv_threads s t) = Some tok \<longrightarrow> busy (sv_requests s) tok) \<and>
     (\<forall>t u. holds (sv_threads s t) = Some tok \<longrightarrow> holds (sv_threads s u) = Some tok \<longrightarrow> t = u) \<and>
     (list_ex (finishes tok) evs \<longrightarrow> spent (sv_requests s) tok \<and>
        (\<forall>t. holds (sv_threads s t) = Some tok \<longrightarrow> completes (sv_threads s t))) \<and>
     used_once tok evs"

lemma one_useI:
  assumes "\<And>t. holds (sv_threads s t) = Some tok \<Longrightarrow> busy (sv_requests s) tok"
    and "\<And>t u. holds (sv_threads s t) = Some tok \<Longrightarrow> holds (sv_threads s u) = Some tok \<Longrightarrow> t = u"
    and "list_ex (finishes tok) evs \<Longrightarrow> spent (sv_requests s) tok"
    and "\<And>t. list_ex (finishes tok) evs \<Longrightarrow> holds (sv_threads s t) = Some tok \<Longrightarrow>
      completes (sv_threads s t)"
    and "used_once tok evs"
  shows "one_use tok evs s"
  unfolding one_use_def using assms by blast

lemma one_useD:
  assumes "one_use tok evs s"
  shows "holds (sv_threads s t) = Some tok \<Longrightarrow> busy (sv_requests s) tok"
    and "holds (sv_threads s t) = Some tok \<Longrightarrow> holds (sv_threads s u) = Some tok \<Longrightarrow> t = u"
    and "list_ex (finishes tok) evs \<Longrightarrow> spent (sv_requests s) tok"
    and "list_ex (finishes tok) evs \<Longrightarrow> holds (sv_threads s t) = Some tok \<Longrightarrow>
      completes (sv_threads s t)"
    and "used_once tok evs"
  using assms unfolding one_use_def by blast+

text \<open>A step that does not concern the token.\<close>

lemma one_use_frame:
  assumes u: "one_use tok evs s"
    and r: "busy (sv_requests s') tok = busy (sv_requests s) tok \<and>
      spent (sv_requests s') tok = spent (sv_requests s) tok"
    and t: "\<And>t. holds (sv_threads s' t) = Some tok \<Longrightarrow>
      holds (sv_threads s t) = Some tok \<and> (completes (sv_threads s t) \<longrightarrow> completes (sv_threads s' t))"
    and e: "\<not> uses tok e"
  shows "one_use tok (e # evs) s'"
proof -
  have "list_ex (finishes tok) (e # evs) = list_ex (finishes tok) evs"
    using e finishes_uses by auto
  with one_useD [OF u] r t e show ?thesis by (intro one_useI) (blast | simp)+
qed

text \<open>A step after which one thread holds the token, and one after which none does.\<close>

lemma one_use_held:
  assumes "\<And>v. holds (sv_threads s' v) = Some tok \<Longrightarrow> v = t" "busy (sv_requests s') tok"
    and "\<not> list_ex (finishes tok) evs" "used_once tok evs"
    and "finishes tok e \<Longrightarrow> completes (sv_threads s' t)"
  shows "one_use tok (e # evs) s'"
proof (rule one_useI)
  show "holds (sv_threads s' v) = Some tok \<Longrightarrow> holds (sv_threads s' w) = Some tok \<Longrightarrow> v = w" for v w
    using assms(1) by metis
  show "completes (sv_threads s' v)"
    if "list_ex (finishes tok) (e # evs)" "holds (sv_threads s' v) = Some tok" for v
    using that(1) assms(1) [OF that(2)] assms(3,5) by simp
qed (use assms(2-4) busy_spent in simp_all)

lemma one_use_free:
  assumes "\<And>v. holds (sv_threads s' v) \<noteq> Some tok" "spent (sv_requests s') tok \<or> \<not> list_ex (finishes tok) evs"
    and "used_once tok evs" "\<not> uses tok e"
  shows "one_use tok (e # evs) s'"
  by (rule one_useI) (use assms finishes_uses in auto)

lemma one_use_step: "one_use tok evs s \<Longrightarrow> paste_step h s e s' \<Longrightarrow> one_use tok (e # evs) s'"
proof -
  assume u: "one_use tok evs s" and st: "paste_step h s e s'"
  note A = one_useD(1) [OF u] and B = one_useD(2) [OF u] and C = one_useD(3) [OF u]
    and D = one_useD(4) [OF u] and E = one_useD(5) [OF u]
  from st show ?thesis
  proof cases
    case (step_check t sub)
    show ?thesis
      by (rule one_use_frame [OF u]) (use step_check in \<open>auto split: if_splits sum.splits\<close>)
  next
    case (step_claim t sub dests now req reqs)
    note c = claim_request_ok [OF step_claim(4)]
    show ?thesis
    proof (cases "sb_token sub = tok")
      case True
      then have "\<not> list_ex (finishes tok) evs" "\<And>t. holds (sv_threads s t) \<noteq> Some tok"
        using c(1) A C busy_spent by blast+
      moreover have "holds (sv_threads s' v) = Some tok \<Longrightarrow> v = t" for v
        using step_claim calculation(2) by (auto split: if_splits)
      moreover have "busy (sv_requests s') tok" "\<not> finishes tok e"
        using step_claim(1,2) True c(2) by simp_all
      ultimately show ?thesis using E one_use_held [of s' tok t evs e] by blast
    next
      case False
      then have "busy reqs tok = busy (sv_requests s) tok \<and> spent reqs tok = spent (sv_requests s) tok"
        by (intro busy_cong c(3)) simp
      then show ?thesis
        by (intro one_use_frame [OF u]) (use step_claim False in \<open>auto split: if_splits\<close>)
    qed
  next
    case (step_refuse t sub dests now err reqs)
    show ?thesis
      by (rule one_use_frame [OF u])
        (use step_refuse claim_request_err [OF step_refuse(4)] in \<open>auto split: if_splits\<close>)
  next
    case (step_work t sub req w i out fs' ps')
    show ?thesis
    proof (cases "sb_token sub = tok")
      case True
      with step_work(3) have h: "holds (sv_threads s t) = Some tok" by simp
      then have n: "\<not> list_ex (finishes tok) evs" using D step_work(3) by fastforce
      have o: "holds (sv_threads s u) = Some tok \<Longrightarrow> u = t" for u using B h by blast
      have "finishes tok e \<Longrightarrow> completes (sv_threads s' t)"
        using step_work(1,2) by (cases out) (auto simp: after_outcome_def)
      moreover have "holds (sv_threads s' v) = Some tok \<Longrightarrow> v = t" for v
        using step_work(2) o [of v] by (auto split: if_splits)
      moreover have "busy (sv_requests s') tok" using step_work(2) A [OF h] by simp
      ultimately show ?thesis using E n one_use_held [of s' tok t evs e] by blast
    next
      case False
      show ?thesis
        by (rule one_use_frame [OF u]) (use step_work False in \<open>auto split: if_splits\<close>)
    qed
  next
    case (step_complete t sub sig resp)
    show ?thesis
    proof (cases "sb_token sub = tok")
      case True
      with step_complete(3) have h: "holds (sv_threads s t) = Some tok" by simp
      then have "holds (sv_threads s' u) \<noteq> Some tok" for u
        using step_complete B [of u t] by (auto split: if_splits)
      moreover have "spent (sv_requests s') tok"
        using step_complete True A [OF h] complete_request_simps(3) by auto
      moreover have "\<not> uses tok e" using step_complete(1) by simp
      ultimately show ?thesis using E one_use_free [of s' tok evs e] by blast
    next
      case False
      then have "busy (sv_requests s') tok = busy (sv_requests s) tok \<and>
          spent (sv_requests s') tok = spent (sv_requests s) tok"
        using step_complete(2) by (intro busy_cong) (simp add: complete_request_simps)
      then show ?thesis
        by (intro one_use_frame [OF u]) (use step_complete False in \<open>auto split: if_splits\<close>)
    qed
  next
    case (step_signal t resp)
    show ?thesis
      by (rule one_use_frame [OF u]) (use step_signal in \<open>auto split: if_splits\<close>)
  next
    case (step_release t sub resp)
    show ?thesis
    proof (cases "sb_token sub = tok")
      case True
      with step_release(3) have h: "holds (sv_threads s t) = Some tok" by simp
      then have "holds (sv_threads s' u) \<noteq> Some tok" for u
        using step_release B [of u t] by auto
      moreover have "\<not> list_ex (finishes tok) evs" using D [OF _ h] step_release(3) by auto
      moreover have "\<not> uses tok e" using step_release(1) by simp
      ultimately show ?thesis using E one_use_free [of s' tok evs e] by blast
    next
      case False
      then have "busy (sv_requests s') tok = busy (sv_requests s) tok \<and>
          spent (sv_requests s') tok = spent (sv_requests s) tok"
        using step_release(2) by (intro busy_cong) (simp add: release_request_other)
      then show ?thesis
        by (intro one_use_frame [OF u]) (use step_release False in \<open>auto split: if_splits\<close>)
    qed
  next
    case (step_drop t)
    show ?thesis
      by (rule one_use_frame [OF u]) (use step_drop in \<open>auto split: if_splits\<close>)
  next
    case (step_drop_work t)
    show ?thesis
      by (rule one_use_frame [OF u]) (use step_drop_work in \<open>auto split: if_splits\<close>)
  next
    case (step_world fs')
    show ?thesis
      by (rule one_use_frame [OF u]) (use step_world in \<open>auto split: if_splits\<close>)
  qed
qed

interpretation once: explained_machine "paste_step h" "one_use tok" for h tok
  by unfold_locales (rule one_use_step)

lemma one_use_start: "one_use tok [] (fresh_server token req fs)"
  by (rule one_useI) (simp_all add: fresh_server_def)

lemma server_used_once:
  assumes "history (paste_step h) (fresh_server token req fs) evs s"
  shows "one_use tok evs s"
  using once.history_explains [OF assms one_use_start] .

section \<open>Every process is explained\<close>

text \<open>The requests keep their name and their expiry.\<close>

definition request_is :: "string \<Rightarrow> int \<Rightarrow> requests \<Rightarrow> bool" where
  "request_is name expires reqs \<longleftrightarrow>
     (\<forall>tok r. reqs tok = Some r \<longrightarrow> pd_name r = name \<and> pd_expires_at r = expires)"

lemma request_is_step:
  assumes "paste_step h s e s'" "request_is name expires (sv_requests s)"
  shows "request_is name expires (sv_requests s')"
  using assms
proof (induction rule: paste_step.induct)
  case (step_claim s t sub dests now req reqs)
  note c = claim_request_ok [OF step_claim(2)]
  from c(6) obtain r0 where "sv_requests s (sb_token sub) = Some r0"
    "req = r0\<lparr>pd_in_progress := True\<rparr>" by blast
  with step_claim(3) have "pd_name req = name \<and> pd_expires_at req = expires"
    by (simp add: request_is_def)
  then have "pd_name r = name \<and> pd_expires_at r = expires" if "reqs tok = Some r" for tok r
    using that c(3) [of tok] c(5) step_claim(3)
    by (cases "tok = sb_token sub") (simp_all add: request_is_def)
  then show ?case by (simp add: request_is_def)
next
  case (step_refuse s t sub dests now e reqs)
  then show ?case using claim_request_err by fastforce
next
  case (step_complete s t sub sig resp)
  then show ?case by (auto simp: request_is_def complete_request_def split: option.splits if_splits)
next
  case (step_release s t sub resp)
  then show ?case by (auto simp: request_is_def release_request_def split: option.splits if_splits)
qed simp_all

text \<open>
  The submission behind a claim passed the checks of the handler, and unless it asked for an
  update the name was not in a list of names taken under that claim.
\<close>

definition new_name_seen ::
  "('e, 'p) paste_world \<Rightarrow> single_work paste_event list \<Rightarrow> nat \<Rightarrow> submission \<Rightarrow> pending \<Rightarrow> bool" where
  "new_name_seen pw evs t sub req \<longleftrightarrow>
     wants_update sub \<or>
     (\<exists>dests ps out names ps'. EvWork t sub req (SwList dests) ps out \<in> set evs \<and>
        fnox_list (pw_fnox pw) (pw_client pw) ps = (Inr names, ps') \<and> pd_name req \<notin> set names)"

definition claimed ::
  "single_work paste_event list \<Rightarrow> nat \<Rightarrow> submission \<Rightarrow> pending \<Rightarrow> bool" where
  "claimed evs t sub req \<longleftrightarrow> (\<exists>now. EvClaim t now sub req \<in> set evs \<and> now \<le> pd_expires_at req)"

definition vouched ::
  "('e, 'p) paste_world \<Rightarrow> string \<Rightarrow> int \<Rightarrow> single_work paste_event list \<Rightarrow> nat \<Rightarrow> submission \<Rightarrow>
   pending \<Rightarrow> bool" where
  "vouched pw name expires evs t sub req \<longleftrightarrow>
     claimed evs t sub req \<and> pd_name req = name \<and> pd_expires_at req = expires \<and>
     origin_ok (pw_env pw) (pw_config pw) (sb_origin sub) \<and> sb_value sub \<noteq> []"

definition process_explained ::
  "('e, 'p) paste_world \<Rightarrow> string \<Rightarrow> int \<Rightarrow> single_work paste_event list \<Rightarrow> fnox_process \<Rightarrow> bool" where
  "process_explained pw name expires evs p \<longleftrightarrow>
     (fp_args p = [''list''] \<and> fp_stdin p = None) \<or>
     (\<exists>t sub req. vouched pw name expires evs t sub req \<and> new_name_seen pw evs t sub req \<and>
        fp_args p = [''set'', name] \<and> fp_stdin p \<in> {None, Some (sb_value sub)})"

fun thread_ok ::
  "('e, 'p) paste_world \<Rightarrow> string \<Rightarrow> int \<Rightarrow> single_work paste_event list \<Rightarrow> nat \<Rightarrow>
   single_work post_thread \<Rightarrow> bool" where
  "thread_ok pw name expires evs t (PChecked sub dests) = (single_check pw sub = Inr dests)"
| "thread_ok pw name expires evs t (PWorking sub req w) =
     (vouched pw name expires evs t sub req \<and>
      ((\<exists>dests. w = SwList dests) \<or> new_name_seen pw evs t sub req))"
| "thread_ok pw name expires evs t _ = True"

definition single_explained ::
  "('e, 'p) paste_world \<Rightarrow> string \<Rightarrow> int \<Rightarrow> single_work paste_event list \<Rightarrow>
   single_work paste_server \<Rightarrow> bool" where
  "single_explained pw name expires evs s \<longleftrightarrow>
     request_is name expires (sv_requests s) \<and>
     (\<forall>t. thread_ok pw name expires evs t (sv_threads s t)) \<and>
     (\<forall>p \<in> set (sv_procs s). process_explained pw name expires evs p)"

lemma vouched_mono:
  "vouched pw name expires evs t sub req \<Longrightarrow> vouched pw name expires (e # evs) t sub req"
  by (auto simp: vouched_def claimed_def)

lemma new_name_seen_mono:
  "new_name_seen pw evs t sub req \<Longrightarrow> new_name_seen pw (e # evs) t sub req"
  unfolding new_name_seen_def list.set by blast

lemma process_explained_mono:
  "process_explained pw name expires evs p \<Longrightarrow> process_explained pw name expires (e # evs) p"
  unfolding process_explained_def using vouched_mono new_name_seen_mono by blast

lemma thread_ok_mono:
  "thread_ok pw name expires evs t th \<Longrightarrow> thread_ok pw name expires (e # evs) t th"
  by (cases th) (auto simp: vouched_mono new_name_seen_mono)

lemma process_explained_erase:
  "process_explained pw name expires evs p \<Longrightarrow>
   process_explained pw name expires evs (p\<lparr>fp_stdin := None\<rparr>)"
  by (auto simp: process_explained_def)

lemma single_work_procs:
  assumes "single_work_step pw sub req w i fs ps = Some (out, fs', ps')"
  shows "\<exists>qs. ps' = ps @ qs \<and> (\<forall>q \<in> set qs.
    (fp_args q = [''list''] \<and> fp_stdin q = None) \<or>
    (w = SwSet \<and> fp_args q = [''set'', pd_name req] \<and> fp_stdin q \<in> {None, Some (sb_value sub)}))"
proof (cases w)
  case (SwList dests)
  with assms show ?thesis
    by (auto split: prod.splits dest!: fnox_list_trace)
next
  case (SwDestinations dests)
  with assms show ?thesis by (auto split: if_splits option.splits prod.splits)
next
  case SwSet
  with assms show ?thesis
    by (auto split: prod.splits dest!: fnox_set_trace)
qed

lemma dropped_procs_from:
  assumes "dropped_procs before all ps" "p \<in> set ps"
  shows "\<exists>q \<in> set all. p = q \<or> p = q\<lparr>fp_stdin := None\<rparr>"
proof -
  from assms(2) obtain n where n: "n < length ps" "p = ps ! n" by (metis in_set_conv_nth)
  have l: "list_all2 (\<lambda>p q. p = q \<or> p = q\<lparr>fp_stdin := None\<rparr>) ps (take (length ps) all)"
    using assms(1) by (simp add: dropped_procs_def)
  from list_all2_nthD [OF l n(1)] n(2)
  have "p = take (length ps) all ! n \<or> p = (take (length ps) all ! n)\<lparr>fp_stdin := None\<rparr>" by simp
  moreover have "take (length ps) all ! n \<in> set all"
    using list_all2_lengthD [OF l] n(1) by (metis in_set_takeD nth_mem)
  ultimately show ?thesis by blast
qed

lemma single_check_ok:
  "single_check pw sub = Inr dests \<Longrightarrow>
   origin_ok (pw_env pw) (pw_config pw) (sb_origin sub) \<and> sb_value sub \<noteq> []"
  by (auto simp: single_check_def split: if_splits)

lemma single_explained_frame:
  assumes u: "single_explained pw name expires evs s"
    and "request_is name expires (sv_requests s')"
    and "\<And>v. v \<noteq> t \<Longrightarrow> sv_threads s' v = sv_threads s v"
    and "thread_ok pw name expires (e # evs) t (sv_threads s' t)"
    and "\<And>p. p \<in> set (sv_procs s') \<Longrightarrow> p \<in> set (sv_procs s) \<or>
      process_explained pw name expires (e # evs) p"
  shows "single_explained pw name expires (e # evs) s'"
  unfolding single_explained_def
proof (intro conjI allI ballI)
  show "thread_ok pw name expires (e # evs) v (sv_threads s' v)" for v
    using assms(3,4) u by (cases "v = t") (auto simp: single_explained_def intro: thread_ok_mono)
  show "process_explained pw name expires (e # evs) p" if "p \<in> set (sv_procs s')" for p
    using assms(5) [OF that] u by (auto simp: single_explained_def intro: process_explained_mono)
qed (rule assms(2))

text \<open>A process of one piece of work, also one that was cut off, is explained.\<close>

lemma work_process_explained:
  assumes "thread_ok pw name expires evs t (PWorking sub req w)"
    and "single_work_step pw sub req w i fs ps = Some (out, fs', ps')" "q \<in> set ps'"
  shows "q \<in> set ps \<or> process_explained pw name expires evs q"
proof -
  from single_work_procs [OF assms(2)] obtain qs where qs: "ps' = ps @ qs"
    "\<And>q. q \<in> set qs \<Longrightarrow> (fp_args q = [''list''] \<and> fp_stdin q = None) \<or>
      (w = SwSet \<and> fp_args q = [''set'', pd_name req] \<and> fp_stdin q \<in> {None, Some (sb_value sub)})"
    by blast
  have "vouched pw name expires evs t sub req" "w = SwSet \<Longrightarrow> new_name_seen pw evs t sub req"
    "pd_name req = name" using assms(1) by (auto simp: vouched_def)
  with qs(2) have "q \<in> set qs \<Longrightarrow> process_explained pw name expires evs q"
    unfolding process_explained_def by blast
  with qs(1) assms(3) show ?thesis by auto
qed

lemma single_thread_after:
  assumes "thread_ok pw name expires evs t (PWorking sub req w)"
    and "single_work_step pw sub req w i fs ps = Some (out, fs', ps')"
  shows "thread_ok pw name expires (EvWork t sub req w ps out # evs) t (after_outcome sub req out)"
proof (cases "\<exists>w'. out = Continue w'")
  case True
  then obtain w' where w': "out = Continue w'" by blast
  let ?evs = "EvWork t sub req w ps out # evs"
  have v: "vouched pw name expires ?evs t sub req" using assms(1) vouched_mono by fastforce
  have "new_name_seen pw ?evs t sub req"
  proof (cases w)
    case (SwList dests)
    with assms(2) w' obtain names where "fnox_list (pw_fnox pw) (pw_client pw) ps = (Inr names, ps')"
      "pd_name req \<notin> set names"
      by (auto simp: single_listed_def split: prod.splits sum.splits if_splits)
    with SwList show ?thesis unfolding new_name_seen_def list.set by blast
  qed (use assms(1) new_name_seen_mono in fastforce)+
  with v w' show ?thesis by (simp add: after_outcome_def)
next
  case False
  then show ?thesis by (cases out) (auto simp: after_outcome_def)
qed

lemma single_explained_step:
  assumes u: "single_explained pw name expires evs s" and st: "paste_step (post_submit pw) s e s'"
  shows "single_explained pw name expires (e # evs) s'"
proof -
  note r = request_is_step [OF st]
  from u have ri: "request_is name expires (sv_requests s)"
    and th: "\<And>t. thread_ok pw name expires evs t (sv_threads s t)"
    and pr: "\<And>p. p \<in> set (sv_procs s) \<Longrightarrow> process_explained pw name expires evs p"
    by (auto simp: single_explained_def)
  note fr = single_explained_frame [OF u r [OF ri]]
  from st show ?thesis
  proof cases
    case (step_check t sub)
    show ?thesis
      by (rule fr [of t]) (use step_check in \<open>auto simp: post_submit_def split: sum.splits\<close>)
  next
    case (step_claim t sub dests now req reqs)
    note c = claim_request_ok [OF step_claim(4)]
    from r [OF ri] have "request_is name expires reqs" using step_claim(2) by simp
    then have "pd_name req = name" "pd_expires_at req = expires"
      using c(5) by (auto simp: request_is_def)
    moreover from th [of t] step_claim(3) have "single_check pw sub = Inr dests" by simp
    ultimately have "vouched pw name expires (e # evs) t sub req"
      using c(4) step_claim(1) single_check_ok by (auto simp: vouched_def claimed_def)
    then have "thread_ok pw name expires (e # evs) t (sv_threads s' t)"
      using step_claim(2)
      by (auto simp: post_submit_def single_begin_def after_outcome_def new_name_seen_def)
    then show ?thesis by (intro fr [of t]) (use step_claim(2) in auto)
  next
    case (step_refuse t sub dests now err reqs)
    show ?thesis by (rule fr [of t]) (use step_refuse in auto)
  next
    case (step_work t sub req w i out fs' ps')
    have ok: "thread_ok pw name expires evs t (PWorking sub req w)" using th [of t] step_work(3) by simp
    have w: "single_work_step pw sub req w i (sv_fs s) (sv_procs s) = Some (out, fs', ps')"
      using step_work(4) by (simp add: post_submit_def)
    show ?thesis
    proof (rule fr [of t])
      show "thread_ok pw name expires (e # evs) t (sv_threads s' t)"
        using single_thread_after [OF ok w] step_work(1,2) by simp
      show "p \<in> set (sv_procs s) \<or> process_explained pw name expires (e # evs) p"
        if "p \<in> set (sv_procs s')" for p
        using work_process_explained [OF ok w, of p] that step_work(2)
        by (auto intro: process_explained_mono)
    qed (use step_work(2) in auto)
  next
    case (step_complete t sub sig resp)
    show ?thesis by (rule fr [of t]) (use step_complete in auto)
  next
    case (step_signal t resp)
    show ?thesis by (rule fr [of t]) (use step_signal in auto)
  next
    case (step_release t sub resp)
    show ?thesis by (rule fr [of t]) (use step_release in auto)
  next
    case (step_drop t)
    show ?thesis by (rule fr [of t]) (use step_drop in auto)
  next
    case (step_drop_work t sub req w i out fs' ps' ps)
    have ok: "thread_ok pw name expires evs t (PWorking sub req w)"
      using th [of t] step_drop_work(3) by simp
    have w: "single_work_step pw sub req w i (sv_fs s) (sv_procs s) = Some (out, fs', ps')"
      using step_drop_work(4) by (simp add: post_submit_def)
    have "process_explained pw name expires evs p" if "p \<in> set ps" for p
      using dropped_procs_from [OF step_drop_work(5) that] work_process_explained [OF ok w] pr
        process_explained_erase by metis
    then show ?thesis
      by (intro fr [of t]) (use step_drop_work(2) in \<open>auto intro: process_explained_mono\<close>)
  next
    case (step_world fs')
    show ?thesis by (rule fr [of t]) (use step_world th in \<open>auto intro: thread_ok_mono\<close>)
  qed
qed

interpretation single: explained_machine "paste_step (post_submit pw)" "single_explained pw name expires"
  for pw name expires
  by unfold_locales (rule single_explained_step)

section \<open>A bulk import answers every line\<close>

text \<open>The answer a parsed line may get, from the names that existed.\<close>

fun line_answer ::
  "bool \<Rightarrow> string list \<Rightarrow> env_entry \<Rightarrow> bulk_line_result \<Rightarrow> bool" where
  "line_answer update existing (Inl (n, snippet)) r = (r = Malformed n snippet)"
| "line_answer update existing (Inr (key, v)) r =
     (if \<not> paste_valid_name key then r = BulkInvalidName key
      else if \<not> update \<and> key \<in> set existing then r = AlreadyExists key
      else (\<exists>p. r = Stored key p) \<or> (\<exists>m. r = StoreFailed key m))"

definition names_listed ::
  "('e, 'p) paste_world \<Rightarrow> bulk_work paste_event list \<Rightarrow> nat \<Rightarrow> submission \<Rightarrow> pending \<Rightarrow>
   string list \<Rightarrow> bool" where
  "names_listed pw evs t sub req existing \<longleftrightarrow>
     (if wants_update sub then existing = []
      else \<exists>dests ps out ps'. EvWork t sub req (BwList dests) ps out \<in> set evs \<and>
             fnox_list (pw_fnox pw) (pw_client pw) ps = (Inr existing, ps'))"

definition bulk_done ::
  "submission \<Rightarrow> string list \<Rightarrow> env_entry list \<Rightarrow> bulk_line_result list \<Rightarrow> bool \<Rightarrow> bool" where
  "bulk_done sub existing rest results stored \<longleftrightarrow>
     (\<exists>before. parse_env_dump (sb_value sub) = before @ rest \<and>
        list_all2 (line_answer (wants_update sub) existing) before results) \<and>
     stored = list_ex is_stored results"

fun bulk_work_ok ::
  "('e, 'p) paste_world \<Rightarrow> bulk_work paste_event list \<Rightarrow> nat \<Rightarrow> submission \<Rightarrow> pending \<Rightarrow>
   bulk_work \<Rightarrow> bool" where
  "bulk_work_ok pw evs t sub req (BwList dests) = (\<not> wants_update sub)"
| "bulk_work_ok pw evs t sub req (BwEntries dests existing rest results stored) =
     (names_listed pw evs t sub req existing \<and> bulk_done sub existing rest results stored)"
| "bulk_work_ok pw evs t sub req (BwSet dests existing key v rest results stored) =
     (names_listed pw evs t sub req existing \<and>
      bulk_done sub existing (Inr (key, v) # rest) results stored \<and> paste_valid_name key \<and>
      (wants_update sub \<or> key \<notin> set existing))"

fun bulk_thread_ok ::
  "('e, 'p) paste_world \<Rightarrow> bulk_work paste_event list \<Rightarrow> nat \<Rightarrow> bulk_work post_thread \<Rightarrow> bool" where
  "bulk_thread_ok pw evs t (PWorking sub req w) = bulk_work_ok pw evs t sub req w"
| "bulk_thread_ok pw evs t _ = True"

fun bulk_event_ok ::
  "('e, 'p) paste_world \<Rightarrow> bulk_work paste_event list \<Rightarrow> bulk_work paste_event \<Rightarrow> bool" where
  "bulk_event_ok pw evs (EvWork t sub req w ps (Finish sig resp)) =
     (\<exists>existing results. names_listed pw evs t sub req existing \<and>
        resp = (200, render_bulk_results (result_label sub req) results) \<and>
        list_all2 (line_answer (wants_update sub) existing) (parse_env_dump (sb_value sub)) results \<and>
        sig = list_ex is_stored results)"
| "bulk_event_ok pw evs _ = True"

definition bulk_explained ::
  "('e, 'p) paste_world \<Rightarrow> bulk_work paste_event list \<Rightarrow> bulk_work paste_server \<Rightarrow> bool" where
  "bulk_explained pw evs s \<longleftrightarrow>
     (\<forall>t. bulk_thread_ok pw evs t (sv_threads s t)) \<and> (\<forall>e \<in> set evs. bulk_event_ok pw evs e)"

lemma names_listed_mono:
  "names_listed pw evs t sub req existing \<Longrightarrow> names_listed pw (e # evs) t sub req existing"
  unfolding names_listed_def list.set by (auto split: if_splits)

lemma bulk_work_ok_mono:
  "bulk_work_ok pw evs t sub req w \<Longrightarrow> bulk_work_ok pw (e # evs) t sub req w"
  by (cases w) (auto intro: names_listed_mono)

lemma bulk_thread_ok_mono: "bulk_thread_ok pw evs t th \<Longrightarrow> bulk_thread_ok pw (e # evs) t th"
  by (cases th) (auto intro: bulk_work_ok_mono)

lemma bulk_event_ok_mono: "bulk_event_ok pw evs d \<Longrightarrow> bulk_event_ok pw (e # evs) d"
  by (cases "(pw, evs, d)" rule: bulk_event_ok.cases) (auto intro: names_listed_mono)

lemma bulk_done_start: "bulk_done sub existing (parse_env_dump (sb_value sub)) [] False"
  by (simp add: bulk_done_def)

lemma bulk_done_next:
  assumes "bulk_done sub existing (entry # rest) results stored"
    and "line_answer (wants_update sub) existing entry r" "stored' = (stored \<or> is_stored r)"
  shows "bulk_done sub existing rest (results @ [r]) stored'"
proof -
  from assms(1) obtain before where "parse_env_dump (sb_value sub) = before @ entry # rest"
    "list_all2 (line_answer (wants_update sub) existing) before results"
    by (auto simp: bulk_done_def)
  then have "parse_env_dump (sb_value sub) = (before @ [entry]) @ rest \<and>
      list_all2 (line_answer (wants_update sub) existing) (before @ [entry]) (results @ [r])"
    using assms(2) by (simp add: list_all2_appendI)
  with assms(1,3) show ?thesis unfolding bulk_done_def by auto
qed

lemma bulk_entry_ok:
  assumes "bulk_work_ok pw evs t sub req (BwEntries dests existing (entry # rest) results stored)"
    and "bulk_entry pw sub dests existing entry rest results stored i fs = Some (out, fs')"
  shows "\<exists>w. out = Continue w \<and> bulk_work_ok pw evs t sub req w"
proof -
  from assms(1) have l: "names_listed pw evs t sub req existing"
    and d: "bulk_done sub existing (entry # rest) results stored" by auto
  note next_ok = bulk_done_next [OF d]
  show ?thesis
  proof (cases entry)
    case (Inl m)
    obtain n sn where m: "m = (n, sn)" by fastforce
    have "bulk_done sub existing rest (results @ [Malformed n sn]) stored"
      by (rule next_ok) (use Inl m in auto)
    with assms(2) Inl m l show ?thesis by (auto simp: bulk_entry_def Let_def)
  next
    case (Inr kv)
    obtain key v where kv: "kv = (key, v)" by fastforce
    have fin: "bulk_done sub existing rest (results @ [r]) stored"
      if "line_answer (wants_update sub) existing (Inr (key, v)) r" "\<not> is_stored r" for r
      by (rule next_ok) (use that Inr kv in auto)
    consider (invalid) "\<not> paste_valid_name key"
      | (exists) "paste_valid_name key" "\<not> wants_update sub" "key \<in> set existing"
      | (store) "paste_valid_name key" "wants_update sub \<or> key \<notin> set existing" by blast
    then show ?thesis
    proof cases
      case invalid
      with assms(2) Inr kv l fin [of "BulkInvalidName key"] show ?thesis
        by (auto simp: bulk_entry_def Let_def)
    next
      case exists
      with assms(2) Inr kv l fin [of "AlreadyExists key"] show ?thesis
        by (auto simp: bulk_entry_def Let_def)
    next
      case store
      have f: "bulk_done sub existing rest (results @ [StoreFailed key m]) stored" for m
        by (rule fin) (use store in auto)
      from assms(2) store Inr kv obtain w where w: "out = Continue w"
        "w = BwSet dests existing key v rest results stored \<or>
         (\<exists>m. w = BwEntries dests existing rest (results @ [StoreFailed key m]) stored)"
        by (auto simp: bulk_entry_def Let_def split: if_splits option.splits prod.splits sum.splits)
      with d Inr kv l store f show ?thesis by auto
    qed
  qed
qed

lemma bulk_work_step_ok:
  assumes ok: "bulk_work_ok pw evs t sub req w"
    and st: "bulk_work_step pw sub req w i fs ps = Some (out, fs', ps')"
  defines "e \<equiv> EvWork t sub req w ps out"
  shows "bulk_event_ok pw (e # evs) e \<and>
    (\<forall>w'. out = Continue w' \<longrightarrow> bulk_work_ok pw (e # evs) t sub req w')"
proof (cases w)
  case (BwList dests)
  obtain r where r: "fnox_list (pw_fnox pw) (pw_client pw) ps = (r, ps')"
    and out: "out = bulk_listed sub dests r"
    using st BwList by (auto split: prod.splits)
  show ?thesis
  proof (cases r)
    case (Inl err)
    with out show ?thesis by (simp add: bulk_listed_def e_def)
  next
    case (Inr names)
    have "\<not> wants_update sub" using ok BwList by simp
    then have "names_listed pw (e # evs) t sub req names"
      using r Inr BwList unfolding names_listed_def e_def list.set by auto
    with Inr out bulk_done_start show ?thesis by (auto simp: bulk_listed_def e_def)
  qed
next
  case (BwEntries dests existing rest results stored)
  show ?thesis
  proof (cases rest)
    case Nil
    with ok BwEntries have "names_listed pw evs t sub req existing" "bulk_done sub existing [] results stored"
      by simp_all
    with st BwEntries Nil show ?thesis
      by (auto simp: e_def bulk_done_def intro!: exI [of _ existing] names_listed_mono)
  next
    case (Cons entry rest')
    from st BwEntries Cons have b:
      "bulk_entry pw sub dests existing entry rest' results stored i fs = Some (out, fs')"
      by (auto simp: map_option_case split: option.splits)
    from ok BwEntries Cons
    have "bulk_work_ok pw evs t sub req (BwEntries dests existing (entry # rest') results stored)" by simp
    from bulk_entry_ok [OF this b] show ?thesis by (auto simp: e_def intro: bulk_work_ok_mono)
  qed
next
  case (BwSet dests existing key v rest results stored)
  obtain r where out: "out = Continue (BwEntries dests existing rest
      (results @ [bulk_set_result pw key v r]) (stored \<or> is_ok r))"
    using st BwSet by (auto split: prod.splits)
  have d: "bulk_done sub existing (Inr (key, v) # rest) results stored"
    and l: "names_listed pw evs t sub req existing"
    and k: "paste_valid_name key" "wants_update sub \<or> key \<notin> set existing"
    using ok BwSet by auto
  have "bulk_done sub existing rest (results @ [bulk_set_result pw key v r]) (stored \<or> is_ok r)"
    by (rule bulk_done_next [OF d]) (use k in \<open>auto simp: bulk_set_result_def split: sum.splits\<close>)
  with out l show ?thesis by (auto simp: e_def intro: names_listed_mono)
qed

lemma bulk_explained_frame:
  assumes u: "bulk_explained pw evs s"
    and "\<And>v. v \<noteq> t \<Longrightarrow> sv_threads s' v = sv_threads s v"
    and "bulk_thread_ok pw (e # evs) t (sv_threads s' t)" "bulk_event_ok pw (e # evs) e"
  shows "bulk_explained pw (e # evs) s'"
  unfolding bulk_explained_def
proof (intro conjI allI ballI)
  show "bulk_thread_ok pw (e # evs) v (sv_threads s' v)" for v
    using assms(2,3) u by (cases "v = t") (auto simp: bulk_explained_def intro: bulk_thread_ok_mono)
  show "bulk_event_ok pw (e # evs) d" if "d \<in> set (e # evs)" for d
    using assms(4) u that by (auto simp: bulk_explained_def intro: bulk_event_ok_mono)
qed

lemma bulk_explained_step:
  assumes u: "bulk_explained pw evs s" and st: "paste_step (post_bulk_submit pw) s e s'"
  shows "bulk_explained pw (e # evs) s'"
proof -
  from u have th: "\<And>t. bulk_thread_ok pw evs t (sv_threads s t)" by (auto simp: bulk_explained_def)
  note fr = bulk_explained_frame [OF u]
  from st show ?thesis
  proof cases
    case (step_claim t sub dests now req reqs)
    have "bulk_thread_ok pw (e # evs) t (after_outcome sub req (bulk_begin pw sub dests req))"
      by (auto simp: bulk_begin_def after_outcome_def names_listed_def bulk_done_start
          split: sum.splits)
    then show ?thesis
      by (intro fr [of t]) (use step_claim(1,2) in \<open>auto simp: post_bulk_submit_def\<close>)
  next
    case (step_work t sub req w i out fs' ps')
    have ok: "bulk_work_ok pw evs t sub req w" using th [of t] step_work(3) by simp
    have w: "bulk_work_step pw sub req w i (sv_fs s) (sv_procs s) = Some (out, fs', ps')"
      using step_work(4) by (simp add: post_bulk_submit_def)
    from bulk_work_step_ok [OF ok w] step_work(1)
    have "bulk_event_ok pw (e # evs) e"
      "\<And>w'. out = Continue w' \<Longrightarrow> bulk_work_ok pw (e # evs) t sub req w'" by simp_all
    then show ?thesis
      by (intro fr [of t]) (use step_work(2) in \<open>auto simp: after_outcome_def split: outcome.split\<close>)
  next
    case (step_check t sub)
    show ?thesis by (rule fr [of t]) (use step_check in \<open>auto split: sum.splits\<close>)
  next
    case (step_refuse t sub dests now err reqs)
    show ?thesis by (rule fr [of t]) (use step_refuse in auto)
  next
    case (step_complete t sub sig resp)
    show ?thesis by (rule fr [of t]) (use step_complete in auto)
  next
    case (step_signal t resp)
    show ?thesis by (rule fr [of t]) (use step_signal in auto)
  next
    case (step_release t sub resp)
    show ?thesis by (rule fr [of t]) (use step_release in auto)
  next
    case (step_drop t)
    show ?thesis by (rule fr [of t]) (use step_drop in auto)
  next
    case (step_drop_work t)
    show ?thesis by (rule fr [of t]) (use step_drop_work in auto)
  next
    case (step_world fs')
    show ?thesis by (rule fr [of t]) (use step_world th in \<open>auto intro: bulk_thread_ok_mono\<close>)
  qed
qed

interpretation bulk: explained_machine "paste_step (post_bulk_submit pw)" "bulk_explained pw" for pw
  by unfold_locales (rule bulk_explained_step)

section \<open>The signal\<close>

text \<open>A contract of both handlers: only work under a claim finishes a submission.\<close>

fun signals :: "'w paste_event \<Rightarrow> bool" where
  "signals (EvWork t sub req w ps (Finish sig resp)) = sig"
| "signals _ = False"

fun to_signal :: "'w post_thread \<Rightarrow> bool" where
  "to_signal (PCompleting sub sig resp) = sig"
| "to_signal (PSignalling resp) = True"
| "to_signal _ = False"

definition signal_explained :: "'w paste_event list \<Rightarrow> 'w paste_server \<Rightarrow> bool" where
  "signal_explained evs s \<longleftrightarrow>
     (sv_submitted s \<or> (\<exists>t. to_signal (sv_threads s t)) \<longrightarrow> list_ex signals evs)"

locale one_shot =
  fixes h :: "'w post_handler"
  assumes begin_works: "ph_begin h sub dests req \<noteq> Finish sig resp"
begin

lemma begin_no_signal: "\<not> to_signal (after_outcome sub req (ph_begin h sub dests req))"
  using begin_works [of sub dests req]
  by (cases "ph_begin h sub dests req") (auto simp: after_outcome_def)

lemma signal_step:
  assumes "paste_step h s e s'" "signal_explained evs s"
  shows "signal_explained (e # evs) s'"
  using assms
proof (induction rule: paste_step.induct)
  case (step_claim s t sub dests now req reqs)
  then show ?case using begin_no_signal by (auto simp: signal_explained_def split: if_splits)
next
  case (step_work s t sub req w i out fs' ps')
  then show ?case
    by (cases out) (auto simp: signal_explained_def after_outcome_def split: if_splits)
next
  case (step_complete s t sub sig resp)
  then have "sig \<Longrightarrow> \<exists>t. to_signal (sv_threads s t)" by (metis to_signal.simps(1))
  with step_complete show ?case by (auto simp: signal_explained_def split: if_splits)
next
  case (step_signal s t resp)
  then have "\<exists>t. to_signal (sv_threads s t)" by (metis to_signal.simps(2))
  with step_signal show ?case by (auto simp: signal_explained_def split: if_splits)
qed (auto simp: signal_explained_def split: if_splits sum.splits)

lemma submitted_signalled:
  assumes "history (paste_step h) s0 evs s" "signal_explained [] s0"
  shows "signal_explained evs s"
  using assms by (induction rule: history.induct) (auto intro: signal_step)

end

interpretation single_shot: one_shot "post_submit pw" for pw
  by unfold_locales (simp add: post_submit_def single_begin_def)

interpretation bulk_shot: one_shot "post_bulk_submit pw" for pw
  by unfold_locales (simp add: post_bulk_submit_def bulk_begin_def split: sum.split)

section \<open>The promises\<close>

lemma spawn_server_fresh:
  assumes "spawn_server pw route name description bytes now dt_max lan bind fs = Some (Inr (link, s0))"
  shows "s0 = fresh_server (hd_token link)
    \<lparr>pd_name = name, pd_description = description, pd_expires_at = hd_expires_at link,
     pd_in_progress = False, pd_completed = False\<rparr> fs"
  using assms by (auto simp: spawn_server_def Let_def split: if_splits sum.splits)

lemma spawn_request_fresh:
  assumes "spawn_request pw name description bytes now dt_max lan bind fs = Some (Inr (link, s0))"
  shows "s0 = fresh_server (hd_token link)
    \<lparr>pd_name = name, pd_description = description, pd_expires_at = hd_expires_at link,
     pd_in_progress = False, pd_completed = False\<rparr> fs"
  using assms spawn_server_fresh by (fastforce simp: spawn_request_def split: if_splits)

lemma fresh_not_signalled: "signal_explained [] (fresh_server tok req fs)"
  by (simp add: signal_explained_def fresh_server_def)

lemma single_explained_start:
  "single_explained pw (pd_name req) (pd_expires_at req) [] (fresh_server tok req fs)"
  by (simp add: single_explained_def fresh_server_def request_is_def)

lemma bulk_explained_start: "bulk_explained pw [] (fresh_server tok req fs)"
  by (simp add: bulk_explained_def fresh_server_def)


text \<open>
  C15: Everything the paste server runs is explained: each process is \<open>fnox list\<close>, or
  \<open>fnox set\<close> of the one name of the link with at most the value of a submission on its standard
  input (never as an argument); that submission has an allowed origin and a non-empty value,
  claimed the link before it expired, and either asked for an update or a list of names taken
  under its claim did not have the name.
\<close>

theorem paste_processes_explained:
  assumes "spawn_request pw name description bytes now dt_max lan bind fs = Some (Inr (link, s0))"
    and "history (paste_step (post_submit pw)) s0 evs s"
    and "p \<in> set (sv_procs s)"
  shows "process_explained pw name (hd_expires_at link) evs p"
  using single.history_explains [OF assms(2)] single_explained_start assms(3)
    spawn_request_fresh [OF assms(1)]
  by (fastforce simp: single_explained_def)

text \<open>
  A bulk import is used once too, and the page it answers with has one result per line of
  the dump that is neither blank nor a comment, in order, each the one the line calls for:
  malformed, a key with illegal characters, a key that a list taken under the claim has (when no
  update is asked for), or the outcome of storing it; the waiting command is told of it exactly
  when a value was stored.
\<close>

theorem bulk_import_answers:
  assumes "spawn_bulk_request pw label description bytes now dt_max lan bind fs =
      Some (Inr (link, s0))"
    and "history (paste_step (post_bulk_submit pw)) s0 evs s"
  shows "length (filter (finishes (hd_token link)) evs) \<le> 1 \<and>
    (EvWork t sub req w ps (Finish sig resp) \<in> set evs \<longrightarrow>
      (\<exists>existing results. names_listed pw evs t sub req existing \<and>
        resp = (200, render_bulk_results (result_label sub req) results) \<and>
        list_all2 (line_answer (wants_update sub) existing) (parse_env_dump (sb_value sub)) results \<and>
        sig = list_ex is_stored results))"
proof (intro conjI impI)
  have s0: "s0 = fresh_server (hd_token link)
      \<lparr>pd_name = label, pd_description = description, pd_expires_at = hd_expires_at link,
       pd_in_progress = False, pd_completed = False\<rparr> fs"
    using assms(1) by (intro spawn_server_fresh) (simp add: spawn_bulk_request_def)
  from assms(2) have "used_once (hd_token link) evs"
    unfolding s0 by (rule one_useD(5) [OF server_used_once])
  then show "length (filter (finishes (hd_token link)) evs) \<le> 1" by (rule used_once_le_1)
  from assms(2) have "bulk_explained pw evs s"
    unfolding s0 by (rule bulk.history_explains) (rule bulk_explained_start)
  then show "\<exists>existing results. names_listed pw evs t sub req existing \<and>
        resp = (200, render_bulk_results (result_label sub req) results) \<and>
        list_all2 (line_answer (wants_update sub) existing) (parse_env_dump (sb_value sub)) results \<and>
        sig = list_ex is_stored results"
    if "EvWork t sub req w ps (Finish sig resp) \<in> set evs"
    using that unfolding bulk_explained_def by (metis bulk_event_ok.simps(1))
qed

text \<open>
  A handler that is dropped under its claim leaves the link in progress for good: no later
  request can claim it.
\<close>

theorem dropped_claim_is_final:
  assumes "history (paste_step h) s evs s'" "busy (sv_requests s) tok"
    and "\<And>t. holds (sv_threads s t) \<noteq> Some tok"
  shows "\<not> list_ex (uses tok) evs"
proof -
  have "busy (sv_requests s') tok \<and> (\<forall>t. holds (sv_threads s' t) \<noteq> Some tok) \<and> \<not> list_ex (uses tok) evs"
    using assms(1)
  proof (induction rule: history.induct)
    case history_start
    then show ?case using assms(2,3) by simp
  next
    case (history_step evs s1 e s2)
    from history_step(2,3) show ?case
    proof cases
      case (step_claim t sub dests now req reqs)
      then have "sb_token sub \<noteq> tok"
        using claim_request_ok(1) [OF step_claim(4)] history_step(3) busy_spent by blast
      then show ?thesis
        using step_claim history_step(3) claim_request_ok(3) [OF step_claim(4), of tok]
        by (auto simp: busy_def)
    next
      case (step_refuse t sub dests now err reqs)
      then show ?thesis using history_step(3) claim_request_err [OF step_refuse(4)] by auto
    next
      case (step_work t sub req w i out fs' ps')
      then have "sb_token sub \<noteq> tok" using history_step(3) by (metis holds.simps(1))
      then show ?thesis using step_work history_step(3) by auto
    next
      case (step_complete t sub sig resp)
      then have "sb_token sub \<noteq> tok" using history_step(3) by (metis holds.simps(2))
      then show ?thesis
        using step_complete history_step(3) complete_request_simps(1)
        by (auto simp: busy_def split: if_splits)
    next
      case (step_release t sub resp)
      then have "sb_token sub \<noteq> tok" using history_step(3) by (metis holds.simps(3))
      then show ?thesis using step_release history_step(3) release_request_other by (auto simp: busy_def)
    qed (use history_step(3) in \<open>auto split: sum.splits\<close>)
  qed
  then show ?thesis by blast
qed

section \<open>A run\<close>

definition demo_fnox :: fnox_world where
  "demo_fnox =
     (let ok = RunOutput \<lparr>fo_code = Some 0, fo_stdout = [], fo_stderr = []\<rparr> in
      \<lparr>fw_run = (\<lambda>_ _. ok), fw_spawn = (\<lambda>_ _. None), fw_stdin = (\<lambda>_ _. None),
       fw_wait = (\<lambda>_. ok), fw_utf8 = (\<lambda>_. True), fw_lossy = (\<lambda>x. x)\<rparr>)"

definition demo_world :: "(unit, unit) paste_world" where
  "demo_world =
     \<lparr>pw_env = Map.empty, pw_config = default_paste_config,
      pw_client = \<lparr>fx_binary = ''fnox'', fx_timeout = 10, fx_working_dir = None\<rparr>,
      pw_fnox = demo_fnox, pw_parse = (\<lambda>_. Inl ()), pw_print = (\<lambda>_. Inl ()),
      pw_fault = (\<lambda>_. None), pw_io_text = (\<lambda>_. []), pw_json_text = (\<lambda>_. []),
      pw_debug = (\<lambda>x. x)\<rparr>"

definition demo_form :: "string \<Rightarrow> submission" where
  "demo_form v =
     \<lparr>sb_token = [], sb_update = Some 1, sb_origin = Some ''http://localhost'', sb_value = v,
      sb_destinations = None, sb_label = None\<rparr>"

definition demo_listener :: "string \<Rightarrow> string + listener" where
  "demo_listener = (\<lambda>_. Inr \<lparr>ls_unspecified = False, ls_ip = ''127.0.0.1'', ls_port = 80\<rparr>)"

definition demo_link :: "string \<Rightarrow> paste_handle" where
  "demo_link route =
     \<lparr>hd_url = ''http://127.0.0.1:80/'' @ route @ ''/'', hd_token = [], hd_expires_at = 300000000000\<rparr>"

definition demo_pending :: "bool \<Rightarrow> pending" where
  "demo_pending busy1 =
     \<lparr>pd_name = ''K'', pd_description = [], pd_expires_at = 300000000000,
      pd_in_progress = busy1, pd_completed = False\<rparr>"

lemma demo_spawn:
  "spawn_server demo_world route ''K'' [] [] 0 300000000000 None demo_listener Map.empty =
     Some (Inr (demo_link route, fresh_server [] (demo_pending False) Map.empty))"
proof -
  have "show_nat 80 = ''80''" by code_simp
  then show ?thesis
    by (simp add: spawn_server_def demo_world_def demo_listener_def demo_link_def demo_pending_def
        paste_expires_at_def duration_from_std_def default_paste_config_def mint_token_def Let_def
        build_url_def configured_public_base_url_def configured_public_host_def not_blank_def
        or_else_def bracket_ipv6_host_def public_host_for_addr_def)
qed

lemma demo_claim:
  assumes "ph_check h (demo_form v) = Inr dests"
  shows "history (paste_step h) (fresh_server [] (demo_pending False) fs)
    [EvClaim 0 7 (demo_form v) (demo_pending True), EvCheck 0 (demo_form v)]
    (set_thread 0 (after_outcome (demo_form v) (demo_pending True)
        (ph_begin h (demo_form v) dests (demo_pending True)))
      (fresh_server [] (demo_pending True) fs))"
proof -
  let ?s0 = "fresh_server [] (demo_pending False) fs"
  let ?s1 = "set_thread 0 (PChecked (demo_form v) dests) ?s0"
  let ?s2 = "set_thread 0 (after_outcome (demo_form v) (demo_pending True)
      (ph_begin h (demo_form v) dests (demo_pending True)))
    (?s1\<lparr>sv_requests := [[] \<mapsto> demo_pending True]\<rparr>)"
  have "sv_threads ?s0 0 = PIdle" by (simp add: fresh_server_def)
  from step_check [OF this, of h "demo_form v"] assms
  have c: "paste_step h ?s0 (EvCheck 0 (demo_form v)) ?s1" by simp
  have "sv_threads ?s1 0 = PChecked (demo_form v) dests" by simp
  then have "paste_step h ?s1 (EvClaim 0 7 (demo_form v) (demo_pending True)) ?s2"
    by (rule step_claim)
      (simp add: fresh_server_def claim_request_def validate_request_state_def demo_pending_def
        demo_form_def Let_def)
  then have "history (paste_step h) ?s0
      [EvClaim 0 7 (demo_form v) (demo_pending True), EvCheck 0 (demo_form v)] ?s2"
    by (rule history_step [where step = "paste_step h",
          OF history_step [where step = "paste_step h", OF history_start c]])
  then show ?thesis by (simp add: set_thread_def fresh_server_def)
qed

lemma demo_work:
  assumes "history (paste_step h) s0 evs (set_thread 0 (PWorking sub req w) s)"
    and "ph_work h sub req w ([], []) (sv_fs s) (sv_procs s) = Some (out, sv_fs s, ps')"
  shows "history (paste_step h) s0 (EvWork 0 sub req w (sv_procs s) out # evs)
    (set_thread 0 (after_outcome sub req out) (s\<lparr>sv_procs := ps'\<rparr>))"
proof -
  have "sv_threads (set_thread 0 (PWorking sub req w) s) 0 = PWorking sub req w" by simp
  from history_step [OF assms(1) step_work [OF this]] assms(2) show ?thesis
    by (fastforce simp: set_thread_def)
qed

definition demo_process :: "string option \<Rightarrow> fnox_process" where
  "demo_process v =
     \<lparr>fp_program = ''fnox'', fp_args = [''set'', ''K''], fp_dir = None, fp_stdin = v\<rparr>"

definition demo_page :: response where
  "demo_page = (200, render_confirmation ''K'' None)"

definition demo_events :: "single_work paste_event list" where
  "demo_events =
     [EvWork 0 (demo_form ''v'') (demo_pending True) SwSet [] (Finish True demo_page),
      EvWork 0 (demo_form ''v'') (demo_pending True) (SwDestinations []) [] (Continue SwSet),
      EvClaim 0 7 (demo_form ''v'') (demo_pending True), EvCheck 0 (demo_form ''v'')]"

lemma demo_origin: "is_localhost_origin ''http://localhost''"
  by (simp add: is_localhost_origin_def)

lemma demo_origin_ok: "origin_ok (pw_env demo_world) (pw_config demo_world) (sb_origin (demo_form v))"
  by (simp add: origin_ok_def demo_form_def demo_world_def default_paste_config_def
      is_allowed_origin_def configured_public_base_url_def configured_public_host_def not_blank_def
      or_else_def demo_origin)

lemma demo_trim: "trim [] = []"
  by code_simp

lemma demo_set:
  "fnox_set demo_fnox (pw_client demo_world) ''K'' v [] = (Inr (), [demo_process (Some v)])"
  by (simp add: fnox_set_def spawn_set_child_def spawn_attempts.simps act_bind_def act_then_def
      act_modify_def act_return_def demo_fnox_def Let_def demo_world_def fnox_command_def
      give_stdin_def fo_success_def demo_process_def)

lemma demo_run:
  "history (paste_step (post_submit demo_world)) (fresh_server [] (demo_pending False) Map.empty)
     demo_events
     (set_thread 0 (PCompleting (demo_form ''v'') True demo_page)
       ((fresh_server [] (demo_pending True) Map.empty)\<lparr>sv_procs := [demo_process (Some ''v'')]\<rparr>))"
proof -
  let ?h = "post_submit demo_world" and ?f = "demo_form ''v''" and ?r = "demo_pending True"
  let ?start = "fresh_server [] (demo_pending False) Map.empty :: single_work paste_server"
  let ?s = "fresh_server [] ?r Map.empty :: single_work paste_server"
  have c: "ph_check ?h ?f = Inr []"
    using demo_origin_ok [of "''v''"]
    by (simp add: post_submit_def single_check_def demo_form_def
        submitted_destinations_def parse_destinations_def demo_trim normalize_destinations_def)
  have b: "ph_begin ?h ?f [] ?r = Continue (SwDestinations [])"
    by (simp add: post_submit_def single_begin_def wants_update_def demo_form_def)
  from demo_claim [OF c, where fs = Map.empty]
  have "history (paste_step ?h) ?start [EvClaim 0 7 ?f ?r, EvCheck 0 ?f]
      (set_thread 0 (PWorking ?f ?r (SwDestinations [])) ?s)"
    unfolding b by (simp add: after_outcome_def)
  moreover have "ph_work ?h ?f ?r (SwDestinations []) ([], []) (sv_fs ?s) (sv_procs ?s) =
      Some (Continue SwSet, sv_fs ?s, [])"
    by (simp add: post_submit_def demo_form_def fresh_server_def)
  ultimately have "history (paste_step ?h) ?start
      (EvWork 0 ?f ?r (SwDestinations []) (sv_procs ?s) (Continue SwSet) #
        [EvClaim 0 7 ?f ?r, EvCheck 0 ?f])
      (set_thread 0 (after_outcome ?f ?r (Continue SwSet)) (?s\<lparr>sv_procs := []\<rparr>))"
    by (rule demo_work)
  then have "history (paste_step ?h) ?start
      [EvWork 0 ?f ?r (SwDestinations []) [] (Continue SwSet), EvClaim 0 7 ?f ?r, EvCheck 0 ?f]
      (set_thread 0 (PWorking ?f ?r SwSet) ?s)"
    by (simp add: after_outcome_def fresh_server_def)
  moreover have "ph_work ?h ?f ?r SwSet ([], []) (sv_fs ?s) (sv_procs ?s) =
      Some (Finish True demo_page, sv_fs ?s, [demo_process (Some ''v'')])"
    using demo_set [of "''v''"]
    by (simp add: post_submit_def demo_form_def fresh_server_def demo_pending_def demo_world_def
        single_stored_def demo_page_def default_paste_config_def)
  ultimately have "history (paste_step ?h) ?start
      (EvWork 0 ?f ?r SwSet (sv_procs ?s) (Finish True demo_page) #
        [EvWork 0 ?f ?r (SwDestinations []) [] (Continue SwSet), EvClaim 0 7 ?f ?r, EvCheck 0 ?f])
      (set_thread 0 (after_outcome ?f ?r (Finish True demo_page))
        (?s\<lparr>sv_procs := [demo_process (Some ''v'')]\<rparr>))"
    by (rule demo_work)
  then show ?thesis by (simp add: after_outcome_def fresh_server_def demo_events_def)
qed

lemma demo_spawn_request:
  "spawn_request demo_world ''K'' [] [] 0 300000000000 None demo_listener Map.empty =
     Some (Inr (demo_link ''paste'', fresh_server [] (demo_pending False) Map.empty))"
proof -
  have "paste_valid_name ''K''" by code_simp
  then show ?thesis by (simp add: spawn_request_def demo_spawn)
qed


theorem paste_processes_explained_witness:
  "process_explained demo_world ''K'' 300000000000 demo_events (demo_process (Some ''v''))"
  using paste_processes_explained [OF demo_spawn_request demo_run, of "demo_process (Some ''v'')"]
  by (simp add: demo_link_def)

definition demo_bulk_page :: response where
  "demo_bulk_page = (200, render_bulk_results ''K'' [Malformed 1 ''x''])"

definition demo_bulk_events :: "bulk_work paste_event list" where
  "demo_bulk_events =
     [EvWork 0 (demo_form ''x'') (demo_pending True)
        (BwEntries [] [] [] [Malformed 1 ''x''] False) [] (Finish False demo_bulk_page),
      EvWork 0 (demo_form ''x'') (demo_pending True) (BwEntries [] [] [Inl (1, ''x'')] [] False) []
        (Continue (BwEntries [] [] [] [Malformed 1 ''x''] False)),
      EvClaim 0 7 (demo_form ''x'') (demo_pending True), EvCheck 0 (demo_form ''x'')]"

lemma demo_bulk_run:
  "history (paste_step (post_bulk_submit demo_world))
     (fresh_server [] (demo_pending False) Map.empty) demo_bulk_events
     (set_thread 0 (PCompleting (demo_form ''x'') False demo_bulk_page)
       (fresh_server [] (demo_pending True) Map.empty))"
proof -
  let ?h = "post_bulk_submit demo_world" and ?f = "demo_form ''x''" and ?r = "demo_pending True"
  let ?start = "fresh_server [] (demo_pending False) Map.empty :: bulk_work paste_server"
  let ?s = "fresh_server [] ?r Map.empty :: bulk_work paste_server"
  let ?w1 = "BwEntries [] [] [Inl (1, ''x'')] [] False"
  let ?w2 = "BwEntries [] [] [] [Malformed 1 ''x''] False"
  have tr: "trim ''x'' \<noteq> []" "parse_env_dump ''x'' = [Inl (1, ''x'')]" by code_simp+
  have c: "ph_check ?h ?f = Inr []"
    using demo_origin_ok [of "''x''"] tr
    by (simp add: post_bulk_submit_def bulk_check_def demo_form_def)
  have b: "ph_begin ?h ?f [] ?r = Continue ?w1"
    using tr by (simp add: post_bulk_submit_def bulk_begin_def wants_update_def demo_form_def
        submitted_destinations_def parse_destinations_def demo_trim normalize_destinations_def)
  from demo_claim [OF c, where fs = Map.empty]
  have "history (paste_step ?h) ?start [EvClaim 0 7 ?f ?r, EvCheck 0 ?f]
      (set_thread 0 (PWorking ?f ?r ?w1) ?s)"
    unfolding b by (simp add: after_outcome_def)
  moreover have "ph_work ?h ?f ?r ?w1 ([], []) (sv_fs ?s) (sv_procs ?s) =
      Some (Continue ?w2, sv_fs ?s, [])"
    by (simp add: post_bulk_submit_def bulk_entry_def fresh_server_def)
  ultimately have "history (paste_step ?h) ?start
      (EvWork 0 ?f ?r ?w1 (sv_procs ?s) (Continue ?w2) # [EvClaim 0 7 ?f ?r, EvCheck 0 ?f])
      (set_thread 0 (after_outcome ?f ?r (Continue ?w2)) (?s\<lparr>sv_procs := []\<rparr>))"
    by (rule demo_work)
  then have "history (paste_step ?h) ?start
      [EvWork 0 ?f ?r ?w1 [] (Continue ?w2), EvClaim 0 7 ?f ?r, EvCheck 0 ?f]
      (set_thread 0 (PWorking ?f ?r ?w2) ?s)"
    by (simp add: after_outcome_def fresh_server_def)
  moreover have "ph_work ?h ?f ?r ?w2 ([], []) (sv_fs ?s) (sv_procs ?s) =
      Some (Finish False demo_bulk_page, sv_fs ?s, [])"
    by (simp add: post_bulk_submit_def fresh_server_def demo_bulk_page_def result_label_def
        demo_form_def demo_pending_def)
  ultimately have "history (paste_step ?h) ?start
      (EvWork 0 ?f ?r ?w2 (sv_procs ?s) (Finish False demo_bulk_page) #
        [EvWork 0 ?f ?r ?w1 [] (Continue ?w2), EvClaim 0 7 ?f ?r, EvCheck 0 ?f])
      (set_thread 0 (after_outcome ?f ?r (Finish False demo_bulk_page)) (?s\<lparr>sv_procs := []\<rparr>))"
    by (rule demo_work)
  then show ?thesis by (simp add: after_outcome_def fresh_server_def demo_bulk_events_def)
qed

lemma demo_spawn_bulk:
  "spawn_bulk_request demo_world ''K'' [] [] 0 300000000000 None demo_listener Map.empty =
     Some (Inr (demo_link ''bulk'', fresh_server [] (demo_pending False) Map.empty))"
  by (simp add: spawn_bulk_request_def demo_spawn)

theorem bulk_import_answers_witness:
  "length (filter (finishes (hd_token (demo_link ''bulk''))) demo_bulk_events) \<le> 1 \<and>
   (\<exists>existing results.
      names_listed demo_world demo_bulk_events 0 (demo_form ''x'') (demo_pending True) existing \<and>
      demo_bulk_page =
        (200, render_bulk_results (result_label (demo_form ''x'') (demo_pending True)) results) \<and>
      list_all2 (line_answer (wants_update (demo_form ''x'')) existing)
        (parse_env_dump (sb_value (demo_form ''x''))) results \<and>
      False = list_ex is_stored results)"
proof
  have e: "EvWork 0 (demo_form ''x'') (demo_pending True)
        (BwEntries [] [] [] [Malformed 1 ''x''] False) [] (Finish False demo_bulk_page)
      \<in> set demo_bulk_events" by (simp add: demo_bulk_events_def)
  note w = bulk_import_answers [OF demo_spawn_bulk demo_bulk_run]
  show "length (filter (finishes (hd_token (demo_link ''bulk''))) demo_bulk_events) \<le> 1" by (rule conjunct1 [OF w])
  from mp [OF conjunct2 [OF w] e] show "\<exists>existing results.
      names_listed demo_world demo_bulk_events 0 (demo_form ''x'') (demo_pending True) existing \<and>
      demo_bulk_page =
        (200, render_bulk_results (result_label (demo_form ''x'') (demo_pending True)) results) \<and>
      list_all2 (line_answer (wants_update (demo_form ''x'')) existing)
        (parse_env_dump (sb_value (demo_form ''x''))) results \<and>
      False = list_ex is_stored results" .
qed

end
