(* ===== verification/Clashd.thy ===== *)
theory Clashd
  imports Starlark_Json
begin

text \<open>
  The policy service \<open>clashd\<close>: domain lists (\<open>domain_lists.rs\<close>), the evaluation of tool calls
  (\<open>policy/mod.rs\<close>, \<open>policy/eval.rs\<close>, \<open>policy/engine.rs\<close>) and the hooks (\<open>main.rs\<close>).

  The Starlark evaluator, the regex engine, the URL parser, HTTP and the JSON reader are
  arguments: a URL parse gives nothing, or the optional host of the URL.
\<close>

section \<open>Domain dls\<close>

record 're domain_list =
  dl_name :: string
  dl_exact :: "string list"
  dl_patterns :: "'re list"

definition empty_domain_list :: "string \<Rightarrow> 're domain_list" where
  "empty_domain_list name = \<lparr>dl_name = name, dl_exact = [], dl_patterns = []\<rparr>"

record 're clash_lib =
  cl_regex :: "'re regex_lib"
  cl_lower :: "string \<Rightarrow> string"
  cl_url_host :: "string \<Rightarrow> string option option"

text \<open>\<open>to_lowercase\<close>, with the Unicode tables of the library record.\<close>

definition lower :: "'re clash_lib \<Rightarrow> string \<Rightarrow> string" where
  "lower lib s = to_lowercase (cl_lower lib) s"

text \<open>The hash set is a list without repetition.\<close>

definition add_domain :: "'re clash_lib \<Rightarrow> string \<Rightarrow> 're domain_list \<Rightarrow> 're domain_list" where
  "add_domain lib domain l =
     (let d = lower lib domain
      in if d \<in> set (dl_exact l) then l else l\<lparr>dl_exact := dl_exact l @ [d]\<rparr>)"

definition add_pattern ::
  "'re clash_lib \<Rightarrow> string \<Rightarrow> 're domain_list \<Rightarrow> string + 're domain_list" where
  "add_pattern lib pattern1 l =
     (case rx_compile (cl_regex lib) pattern1 of
        Inl _ \<Rightarrow> Inl (''Invalid regex pattern: '' @ pattern1)
      | Inr re \<Rightarrow> Inr (l\<lparr>dl_patterns := dl_patterns l @ [re]\<rparr>))"

text \<open>The domain of a line that is not a pattern.\<close>

definition line_domain :: "'re clash_lib \<Rightarrow> string \<Rightarrow> string" where
  "line_domain lib line =
     (let domain = (case strip_prefix ''0.0.0.0 '' line of
                      Some d \<Rightarrow> d
                    | None \<Rightarrow> (case strip_prefix ''127.0.0.1 '' line of Some d \<Rightarrow> d | None \<Rightarrow> line)) in
      if prefix ''http://'' domain \<or> prefix ''https://'' domain
      then (case cl_url_host lib domain of Some (Some h) \<Rightarrow> h | _ \<Rightarrow> domain)
      else domain)"

definition parse_list_line ::
  "'re clash_lib \<Rightarrow> string \<Rightarrow> 're domain_list \<Rightarrow> string + 're domain_list" where
  "parse_list_line lib raw l =
     (let line = trim raw in
      if line = [] \<or> prefix ''#'' line then Inr l
      else (case strip_prefix ''~'' line of
              Some pattern1 \<Rightarrow> add_pattern lib pattern1 l
            | None \<Rightarrow> Inr (add_domain lib (line_domain lib line) l)))"

fun parse_list_lines ::
  "'re clash_lib \<Rightarrow> string list \<Rightarrow> 're domain_list \<Rightarrow> string + 're domain_list" where
  "parse_list_lines lib [] l = Inr l"
| "parse_list_lines lib (raw # raws) l =
     res_bind (parse_list_line lib raw l) (parse_list_lines lib raws)"

definition parse_domain_list ::
  "'re clash_lib \<Rightarrow> string \<Rightarrow> 're domain_list \<Rightarrow> string + 're domain_list" where
  "parse_domain_list lib content l = parse_list_lines lib (str_lines content) l"

definition list_matches :: "'re clash_lib \<Rightarrow> 're domain_list \<Rightarrow> string \<Rightarrow> bool" where
  "list_matches lib l domain =
     (let d = lower lib domain in
      if d \<in> set (dl_exact l) then True
      else if list_ex (\<lambda>part. suffix (''.'' @ part) d) (dl_exact l) then True
      else list_ex (\<lambda>re. rx_is_match (cl_regex lib) re d) (dl_patterns l))"

definition domain_list_len :: "'re domain_list \<Rightarrow> nat" where
  "domain_list_len l = length (dl_exact l) + length (dl_patterns l)"

definition domain_list_is_empty :: "'re domain_list \<Rightarrow> bool" where
  "domain_list_is_empty l \<longleftrightarrow> dl_exact l = [] \<and> dl_patterns l = []"

section \<open>Dynamic lists\<close>

record 're dynamic_list =
  dn_name :: string
  dn_url :: string
  dn_interval :: nat
  dn_last_fetched :: "nat option"
  dn_list :: "'re domain_list"

definition add_source ::
  "string \<Rightarrow> string \<Rightarrow> nat \<Rightarrow> 're dynamic_list list \<Rightarrow> 're dynamic_list list" where
  "add_source name url refresh dls =
     dls @ [\<lparr>dn_name = name, dn_url = url, dn_interval = refresh, dn_last_fetched = None,
               dn_list = empty_domain_list name\<rparr>]"

text \<open>\<open>trim_start_matches\<close> with a text: as often as it is there.\<close>

definition trim_start_text :: "string \<Rightarrow> string \<Rightarrow> string" where
  "trim_start_text p s = drop_seqs [p] s"

definition normalize_hosts_format :: "string \<Rightarrow> string" where
  "normalize_hosts_format content =
     join_with [CHR 0x0A] (map (\<lambda>raw.
       let line = trim raw in
       if prefix ''0.0.0.0 '' line then trim_start_text ''0.0.0.0 '' line
       else if prefix ''127.0.0.1 '' line then trim_start_text ''127.0.0.1 '' line
       else line) (str_lines content))"

text \<open>\<open>http url\<close> is the body, whatever its status, or nothing.\<close>

definition fetch_list ::
  "'re clash_lib \<Rightarrow> (string \<Rightarrow> string option) \<Rightarrow> nat \<Rightarrow> 're dynamic_list \<Rightarrow> 're dynamic_list option" where
  "fetch_list lib http later dn =
     (case http (dn_url dn) of
        None \<Rightarrow> None
      | Some body \<Rightarrow>
          (case parse_domain_list lib (normalize_hosts_format body) (empty_domain_list (dn_name dn)) of
             Inl _ \<Rightarrow> None
           | Inr l \<Rightarrow> Some (dn\<lparr>dn_list := l, dn_last_fetched := Some later\<rparr>)))"

definition needs_refresh :: "nat \<Rightarrow> 're dynamic_list \<Rightarrow> bool" where
  "needs_refresh now dn \<longleftrightarrow>
     (case dn_last_fetched dn of None \<Rightarrow> True | Some f \<Rightarrow> dn_interval dn < now - f)"

definition refresh_all ::
  "'re clash_lib \<Rightarrow> (string \<Rightarrow> string option) \<Rightarrow> nat \<Rightarrow> nat \<Rightarrow> 're dynamic_list list \<Rightarrow> 're dynamic_list list" where
  "refresh_all lib http now later dls =
     map (\<lambda>dn. if needs_refresh now dn
                then (case fetch_list lib http later dn of Some dn' \<Rightarrow> dn' | None \<Rightarrow> dn)
                else dn) dls"

definition manager_matches :: "'re clash_lib \<Rightarrow> 're dynamic_list list \<Rightarrow> string \<Rightarrow> string list" where
  "manager_matches lib dls domain =
     map dn_name (filter (\<lambda>dn. list_matches lib (dn_list dn) domain) dls)"

definition manager_summary :: "'re dynamic_list list \<Rightarrow> (string \<times> nat) list" where
  "manager_summary dls = map (\<lambda>dn. (dn_name dn, domain_list_len (dn_list dn))) dls"

section \<open>Verdicts of a policy\<close>

datatype policy_verdict = VAllow | VReview | VDeny

fun show_verdict :: "policy_verdict \<Rightarrow> string" where
  "show_verdict VAllow = ''allow''"
| "show_verdict VReview = ''review''"
| "show_verdict VDeny = ''deny''"

record policy_result =
  pr_verdict :: policy_verdict
  pr_reason :: "string option"

definition policy_deny :: "string \<Rightarrow> policy_result" where
  "policy_deny reason = \<lparr>pr_verdict = VDeny, pr_reason = Some reason\<rparr>"

text \<open>What \<open>evaluate\<close> of a policy returns: a string, or a value with its printed form.\<close>

datatype policy_value = PolicyStr string | PolicyText string

datatype policy_run =
    PolicyModuleFailed string
  | PolicyNoFunction
  | PolicyCallFailed string
  | PolicyReturned policy_value

definition verdict_from_string :: "string \<Rightarrow> string option \<Rightarrow> string + policy_result" where
  "verdict_from_string verdict reason =
     (if verdict = ''allow'' then Inr \<lparr>pr_verdict = VAllow, pr_reason = reason\<rparr>
      else if verdict = ''review'' then Inr \<lparr>pr_verdict = VReview, pr_reason = reason\<rparr>
      else if verdict = ''deny'' then Inr \<lparr>pr_verdict = VDeny, pr_reason = reason\<rparr>
      else Inl (''Invalid verdict: '' @ verdict @ ''. Must be allow/review/deny''))"

definition parse_policy_result ::
  "(string \<Rightarrow> json option) \<Rightarrow> policy_value \<Rightarrow> string + policy_result" where
  "parse_policy_result parse v =
     (case v of
        PolicyStr s \<Rightarrow> verdict_from_string s None
      | PolicyText printed \<Rightarrow>
          (case parse printed of
             None \<Rightarrow> Inl ''Policy result must be a string or dict''
           | Some j \<Rightarrow>
               (case get_str ''verdict'' j of
                  Some verdict \<Rightarrow> verdict_from_string verdict (get_str ''reason'' j)
                | None \<Rightarrow>
                    Inl (''Policy evaluate() must return a string or dict with '' @ [CHR 0x27] @
                         ''verdict'' @ [CHR 0x27] @ '' key''))))"

record policy_evaluator =
  pe_run :: "star_value \<times> star_value \<times> star_value \<Rightarrow> policy_run"
  pe_parse :: "string \<Rightarrow> json option"
  pe_i64 :: "string \<Rightarrow> int option"
  pe_f64 :: "string \<Rightarrow> string option"

definition evaluator_evaluate ::
  "policy_evaluator \<Rightarrow> string \<Rightarrow> json \<Rightarrow> json option \<Rightarrow> string + policy_result" where
  "evaluator_evaluate pe tool args context1 =
     (case pe_run pe
             (StarStr tool, json_to_starlark (pe_i64 pe) (pe_f64 pe) args,
              (case context1 of
                 Some c \<Rightarrow> json_to_starlark (pe_i64 pe) (pe_f64 pe) c | None \<Rightarrow> StarNone)) of
        PolicyModuleFailed e \<Rightarrow> Inl (''Policy module evaluation error: '' @ e)
      | PolicyNoFunction \<Rightarrow>
          Inl (''Policy must define an '' @ [CHR 0x27] @ ''evaluate'' @ [CHR 0x27] @ '' function'')
      | PolicyCallFailed e \<Rightarrow> Inl (''Policy evaluation error: '' @ e)
      | PolicyReturned v \<Rightarrow> parse_policy_result (pe_parse pe) v)"

section \<open>The engine\<close>

record domain_list_source =
  ds_name :: string
  ds_url :: string
  ds_refresh_secs :: u64

record agent_policy =
  ap_agent_id :: string
  ap_allowed :: "string list"
  ap_denied :: "string list"
  ap_sources :: "domain_list_source list"

record 're policy_engine =
  en_evaluator :: policy_evaluator
  en_lists :: "'re dynamic_list list"
  en_agents :: "string \<rightharpoonup> agent_policy"

definition new_engine :: "policy_evaluator \<Rightarrow> 're policy_engine" where
  "new_engine pe = \<lparr>en_evaluator = pe, en_lists = [], en_agents = Map.empty\<rparr>"

definition set_agent_configs :: "agent_policy list \<Rightarrow> 're policy_engine \<Rightarrow> 're policy_engine" where
  "set_agent_configs configs en =
     en\<lparr>en_agents := foldl (\<lambda>m c. m(ap_agent_id c \<mapsto> c)) (en_agents en) configs\<rparr>"

definition refresh_domain_lists ::
  "'re clash_lib \<Rightarrow> (string \<Rightarrow> string option) \<Rightarrow> nat \<Rightarrow> nat \<Rightarrow> 're policy_engine \<Rightarrow> 're policy_engine" where
  "refresh_domain_lists lib http now later en =
     en\<lparr>en_lists := refresh_all lib http now later (en_lists en)\<rparr>"

definition parse_domain :: "'re clash_lib \<Rightarrow> string \<Rightarrow> string option" where
  "parse_domain lib raw =
     (let s = trim raw in
      if s = [] then None
      else (case cl_url_host lib s of
        Some h \<Rightarrow> h
      | None \<Rightarrow>
          if CHR ''.'' \<in> set s \<and> CHR '' '' \<notin> set s
          then Some (lower lib (trim_start_text ''https://'' (trim_start_text ''http://''
                 (hd (split_char (CHR '':'') s)))))
          else None))"

definition domain_fields :: "string list" where
  "domain_fields = [''url'', ''domain'', ''target'', ''host'', ''site'']"

definition extract_domain :: "'re clash_lib \<Rightarrow> json \<Rightarrow> string option" where
  "extract_domain lib args =
     find_map (\<lambda>field. Option.bind (get_str field args) (parse_domain lib)) domain_fields"

definition json_strs :: "string list \<Rightarrow> json" where
  "json_strs ss = JArr (map JStr ss)"

text \<open>The object given to the policy as its third argument.\<close>

definition policy_context ::
  "'re clash_lib \<Rightarrow> 're policy_engine \<Rightarrow> string \<Rightarrow> json \<Rightarrow> string option \<Rightarrow> json" where
  "policy_context lib en tool args agent =
     JObj ([(''tool'', JStr tool), (''args'', args)] @
       (case agent of
          None \<Rightarrow> []
        | Some a \<Rightarrow>
            [(''agent_id'', JStr a)] @
            (case extract_domain lib args of
               None \<Rightarrow> [(''domain'', JNull)]
             | Some d \<Rightarrow>
                 [(''domain_lists'', json_strs (manager_matches lib (en_lists en) d))] @
                 (case en_agents en a of
                    None \<Rightarrow> []
                  | Some c \<Rightarrow>
                      [(''agent_allowed_domains'', json_strs (ap_allowed c)),
                       (''agent_denied_domains'', json_strs (ap_denied c))]) @
                 [(''domain'', JStr d)])))"

definition engine_evaluate ::
  "'re clash_lib \<Rightarrow> 're policy_engine \<Rightarrow> string \<Rightarrow> json \<Rightarrow> string option \<Rightarrow> policy_result" where
  "engine_evaluate lib en tool args agent =
     (case evaluator_evaluate (en_evaluator en) tool args
             (Some (policy_context lib en tool args agent)) of
        Inr r \<Rightarrow> r
      | Inl e \<Rightarrow> policy_deny (''Policy evaluation error: '' @ e))"

section \<open>Hooks\<close>

text \<open>\<open>POST /evaluate\<close>: the verdict's text and its reason.\<close>

definition evaluate_hook ::
  "'re clash_lib \<Rightarrow> 're policy_engine \<Rightarrow> string \<Rightarrow> json \<Rightarrow> json option \<Rightarrow> string \<times> string option" where
  "evaluate_hook lib en tool args context1 =
     (let r = engine_evaluate lib en tool args (Option.bind context1 (get_str ''agent_id''))
      in (show_verdict (pr_verdict r), pr_reason r))"

definition claude_code_hook ::
  "'re clash_lib \<Rightarrow> 're policy_engine \<Rightarrow> string \<Rightarrow> json \<Rightarrow> string \<times> string option" where
  "claude_code_hook lib en tool input =
     (let r = engine_evaluate lib en tool input (Some ''claude-code'');
          v = show_verdict (pr_verdict r) in
      if v = ''deny'' then (''deny'', pr_reason r)
      else if v = ''review'' then (''ask'', pr_reason r)
      else (''allow'', None))"

definition either_member :: "string \<Rightarrow> string \<Rightarrow> json \<Rightarrow> json option" where
  "either_member k1 k2 v = (case json_get k1 v of Some x \<Rightarrow> Some x | None \<Rightarrow> json_get k2 v)"

text \<open>The audit hook logs a verdict and blocks nothing.\<close>

definition zeroclaw_audit_hook ::
  "'re clash_lib \<Rightarrow> 're policy_engine \<Rightarrow> json \<Rightarrow> nat \<times> policy_result" where
  "zeroclaw_audit_hook lib en payload =
     (let tool = (case Option.bind (either_member ''tool'' ''tool_name'' payload)
                         as_str of Some t \<Rightarrow> t | None \<Rightarrow> ''unknown'');
          args = (case either_member ''args'' ''tool_input'' payload of
                    Some a \<Rightarrow> a | None \<Rightarrow> JNull)
      in (200, engine_evaluate lib en tool args (Some ''zeroclaw'')))"

definition domain_summary_hook :: "'re policy_engine \<Rightarrow> json" where
  "domain_summary_hook en =
     JObj [(''domain_lists'', JArr (map (\<lambda>(name, n).
       JObj [(''name'', JStr name), (''entries'', JNum (show_nat n))]) (manager_summary (en_lists en))))]"

definition domain_check_hook :: "'re policy_engine \<Rightarrow> string \<Rightarrow> json" where
  "domain_check_hook en domain =
     JObj [(''domain'', JStr domain), (''checked_against'', JNum (show_nat (length (en_lists en))))]"

text \<open>The start of the service: the agents' file, when there is one, and the first refresh.\<close>

definition start_engine ::
  "'re clash_lib \<Rightarrow> (string \<Rightarrow> string option) \<Rightarrow> nat \<Rightarrow> nat \<Rightarrow> policy_evaluator \<Rightarrow> agent_policy list \<Rightarrow>
   're policy_engine" where
  "start_engine lib http now later pe configs =
     refresh_domain_lists lib http now later (set_agent_configs configs (new_engine pe))"

section \<open>What the lists and the engine promise\<close>

text \<open>A line of a list covers a domain (in lower case): it, a parent domain of it, or a pattern.\<close>

definition line_covers :: "'re clash_lib \<Rightarrow> string \<Rightarrow> string \<Rightarrow> bool" where
  "line_covers lib line d \<longleftrightarrow>
     line \<noteq> [] \<and> \<not> prefix ''#'' line \<and>
     (case strip_prefix ''~'' line of
        Some pattern1 \<Rightarrow>
          (case rx_compile (cl_regex lib) pattern1 of
             Inr re \<Rightarrow> rx_is_match (cl_regex lib) re d | Inl _ \<Rightarrow> False)
      | None \<Rightarrow>
          (let e = lower lib (line_domain lib line) in d = e \<or> suffix (''.'' @ e) d))"

lemma list_matches_iff:
  "list_matches lib l domain \<longleftrightarrow>
     (\<exists>e \<in> set (dl_exact l). lower lib domain = e \<or> suffix (''.'' @ e) (lower lib domain)) \<or>
     (\<exists>re \<in> set (dl_patterns l). rx_is_match (cl_regex lib) re (lower lib domain))"
  by (auto simp: list_matches_def Let_def list_ex_iff)

lemma parse_list_line_matches:
  assumes "parse_list_line lib raw l = Inr l'"
  shows "list_matches lib l' domain \<longleftrightarrow>
    list_matches lib l domain \<or> line_covers lib (trim raw) (lower lib domain)"
proof (cases "trim raw = [] \<or> prefix ''#'' (trim raw)")
  case True
  with assms show ?thesis by (auto simp: parse_list_line_def line_covers_def)
next
  case False
  show ?thesis
  proof (cases "strip_prefix ''~'' (trim raw)")
    case None
    with assms False show ?thesis
      by (auto simp: parse_list_line_def line_covers_def list_matches_iff add_domain_def Let_def
          split: if_splits)
  next
    case (Some pattern1)
    with assms False show ?thesis
      by (auto simp: parse_list_line_def line_covers_def list_matches_iff add_pattern_def Let_def
          split: sum.splits)
  qed
qed

lemma parse_list_lines_matches:
  "parse_list_lines lib raws l = Inr l' \<Longrightarrow>
   list_matches lib l' domain \<longleftrightarrow>
     list_matches lib l domain \<or> (\<exists>raw \<in> set raws. line_covers lib (trim raw) (lower lib domain))"
proof (induction raws arbitrary: l)
  case (Cons raw raws)
  then obtain l1 where "parse_list_line lib raw l = Inr l1" "parse_list_lines lib raws l1 = Inr l'"
    by (auto simp: res_bind_Inr_iff)
  with Cons.IH [of l1] parse_list_line_matches [of lib raw l l1 domain] show ?case by auto
qed simp

text \<open>
  A domain list that was read matches a domain exactly when a line of the text covers it: a
  plain line (or a line of a hosts file, or a URL) its domain and all subdomains, without regard
  to case, a pattern line what its regex matches; comments and blank lines cover nothing.
\<close>

theorem domain_list_covers:
  assumes "parse_domain_list lib content (empty_domain_list name) = Inr l"
  shows "list_matches lib l domain \<longleftrightarrow>
    (\<exists>raw \<in> set (str_lines content). line_covers lib (trim raw) (lower lib domain))"
  using parse_list_lines_matches [OF assms [unfolded parse_domain_list_def]]
  by (simp add: list_matches_iff empty_domain_list_def)

definition demo_clash :: "unit clash_lib" where
  "demo_clash =
     \<lparr>cl_regex = \<lparr>rx_compile = (\<lambda>_. Inr ()), rx_is_match = (\<lambda>_ _. False)\<rparr>, cl_lower = (\<lambda>x. x),
      cl_url_host = (\<lambda>_. None)\<rparr>"

lemma demo_list:
  "parse_domain_list demo_clash ''Bad.test'' (empty_domain_list ''m'') =
     Inr \<lparr>dl_name = ''m'', dl_exact = [''bad.test''], dl_patterns = []\<rparr>"
proof -
  have t: "trim ''Bad.test'' = ''Bad.test''" by code_simp
  have "str_lines ''Bad.test'' = [''Bad.test'']" by code_simp
  moreover have "line_domain demo_clash ''Bad.test'' = ''Bad.test''"
    by (simp add: line_domain_def strip_prefix_def)
  moreover have "lower demo_clash ''Bad.test'' = ''bad.test''" by code_simp
  ultimately show ?thesis
    by (simp add: parse_domain_list_def parse_list_line_def t strip_prefix_def add_domain_def
        empty_domain_list_def Let_def)
qed

theorem domain_list_covers_witness:
  "\<exists>raw \<in> set (str_lines ''Bad.test''). line_covers demo_clash (trim raw) (lower demo_clash ''x.bad.test'')"
proof -
  have "lower demo_clash ''x.bad.test'' = ''x.bad.test''" by code_simp
  then have "list_matches demo_clash \<lparr>dl_name = ''m'', dl_exact = [''bad.test''], dl_patterns = []\<rparr> ''x.bad.test''"
    by (simp add: list_matches_iff suffix_def)
  then show ?thesis using domain_list_covers [OF demo_list] by simp
qed



text \<open>
  No domain list is ever consulted: nothing adds a source to the engine, so the lists of the
  running service stay empty and every context has an empty list of matches, also for an agent
  whose configuration names sources.
\<close>

theorem domain_sources_never_loaded:
  shows "en_lists (start_engine lib http now later pe configs) = []"
  and "manager_matches lib (en_lists (start_engine lib http now later pe configs)) d = []"
  by (simp_all add: start_engine_def refresh_domain_lists_def refresh_all_def set_agent_configs_def
      new_engine_def manager_matches_def)

text \<open>
  A domain with a port is no domain: the URL parser reads it as a URL without a host, so no
  domain reaches the policy.
\<close>

theorem domain_with_port_lost:
  assumes "cl_url_host lib (trim s) = Some None"
  shows "parse_domain lib s = None"
    and "extract_domain lib (JObj [(''domain'', JStr s)]) = None"
proof -
  show p: "parse_domain lib s = None" using assms by (simp add: parse_domain_def Let_def)
  then show "extract_domain lib (JObj [(''domain'', JStr s)]) = None"
    by (simp add: extract_domain_def domain_fields_def get_str_def json_get_def as_str_def)
qed

end
