(* ===== verification/Spec2Isabelle.thy ===== *)
theory Spec2Isabelle
  imports Gateway_Mitm Host_Safety Gateway_Chat Gateway_Secrets Gateway_Control Conversation_Context Chat_Safety Paste_Once Adversary_Detector Clashd
begin

text \<open>
  A model of Calciforge, the gateway between chat channels, language-model agents and the
  tools, secrets and hosts they use, with the theorems that make its security-critical parts
  correct.

  \<^bold>\<open>The program.\<close>  \<open>security-proxy\<close> sits between an agent and the network: it replaces references
  to secrets and placeholder tokens in outbound requests by values, injects credentials, and has
  traffic scanned.  \<open>secrets-client\<close> reads policy, metadata and values of secrets for it.
  \<open>host-agent\<close> runs a fixed set of commands on a host for authenticated callers, with approvals
  by a human.  \<open>paste-server\<close> takes a secret from a browser form and hands it to the \<open>fnox\<close>
  store.  \<open>adversary-detector\<close> scans content and fetches it for an agent, \<open>clashd\<close> judges tool
  calls by policy.  \<open>calciforge\<close> is the gateway itself; of it the development models the names of
  models, the selection of the model that serves a request, the model gateway that checks
  callers, calls providers and falls back from one to the next, and the chat side: who a sender is,
  the commands, the router to the agents and what each channel does with a message.

  \<^bold>\<open>Theories and sources.\<close>
  \<^item> \<open>Calci_Prelude\<close>, \<open>Std_Fs\<close>, \<open>Json_Value\<close>, \<open>Act\<close>: byte strings and the part of the Rust standard
    library the code uses, a file system with faults, JSON values, stateful code that can fail
    with a calculus of triples; locales for state machines (\<open>invariant_machine\<close>,
    \<open>keyed_store\<close>, \<open>explained_machine\<close>), interpreted by the components below.
  \<^item> \<open>Secret_Access\<close>: \<open>secrets-client/src/access_policy.rs\<close>, \<open>secret_refs.rs\<close>.
  \<^item> \<open>Secret_Metadata\<close>: \<open>secrets-client/src/metadata.rs\<close>.
  \<^item> \<open>Substitution\<close>: \<open>security-proxy/src/substitution.rs\<close>.
  \<^item> \<open>Host_Patterns\<close>, \<open>Credentials\<close>: host matching and \<open>security-proxy/src/credentials.rs\<close>.
  \<^item> \<open>Agent_Web\<close>: \<open>security-proxy/src/agent_web.rs\<close>.
  \<^item> \<open>Security_Gateway\<close>, \<open>Gateway_Intercept\<close>, \<open>Gateway_Mitm\<close>: \<open>security-proxy/src/proxy.rs\<close> and
    \<open>mitm.rs\<close>, from the gate on secrets to the whole request pipeline in both proxy modes.
  \<^item> \<open>Host_Config\<close>, \<open>Host_Rate_Limiter\<close>, \<open>Host_Approval\<close>, \<open>Host_World\<close>, \<open>Host_Adapters\<close>,
    \<open>Host_Handlers\<close>, \<open>Host_Safety\<close>: \<open>host-agent/src\<close>, from configuration to handlers, and what
    the whole agent may do to its host.
  \<^item> \<open>Model_Selectors\<close>, \<open>Model_Plans\<close>, \<open>Model_Names\<close>, \<open>Model_Resolver\<close>:
    \<open>calciforge/src/providers/alloy.rs\<close>, \<open>model_names.rs\<close>, \<open>proxy/model_resolver.rs\<close> and the
    name checks of \<open>config/validator.rs\<close>.
  \<^item> \<open>Chat_Types\<close>, \<open>Chat_Streaming\<close>, \<open>Provider_Backend\<close>, \<open>Gateway_Telemetry\<close>,
    \<open>Provider_Routing\<close>, \<open>Model_Gateway\<close>, \<open>Gateway_Chat\<close>: \<open>calciforge/src/proxy\<close>: the chat API and
    its JSON (\<open>openai.rs\<close>, \<open>token_estimator.rs\<close>), the assembly of streams
    (\<open>openai_streaming.rs\<close>), adapters with retries (\<open>gateway.rs\<close>, \<open>backend.rs\<close>), telemetry sinks
    (\<open>telemetry.rs\<close>), providers, access and keys (\<open>routing.rs\<close>, \<open>auth.rs\<close>, \<open>control_auth.rs\<close>,
    \<open>mod.rs\<close>), the chat handler (\<open>handlers.rs\<close>), and that it calls only whom it may, as the
    fallback policy says, with a well-formed body.
  \<^item> \<open>Gateway_Secrets\<close>, \<open>Local_Models\<close>, \<open>Gateway_Control\<close>: the rest of the gateway's interface:
    listing, referring to and storing secrets (\<open>proxy/handlers.rs\<close>); the local inference server
    (\<open>local_model/mod.rs\<close>, \<open>mlx_lm.rs\<close>), of which at most one is held, for the model called
    loaded; the list of models, switching over HTTP, voice (\<open>voice_handlers.rs\<close>,
    \<open>voice/forward.rs\<close>) and the manifest of tools (\<open>voice/tools.rs\<close>).
  \<^item> \<open>Conversation_Context\<close>: \<open>calciforge/src/context.rs\<close>, \<open>persistent_context.rs\<close>,
    \<open>unified_context.rs\<close>: the turns of a chat an agent is told of, refined from the log of the chat.
  \<^item> \<open>Chat_Messages\<close>, \<open>Chat_Commands\<close>, \<open>Chat_State\<close>, \<open>Chat_Replies\<close>, \<open>Chat_Handlers\<close>,
    \<open>Chat_Actions\<close>: \<open>calciforge/src/messages.rs\<close>, \<open>auth.rs\<close>, \<open>agent_kinds.rs\<close>,
    \<open>commands.rs\<close> and \<open>commands/\<close>: messages with choices and what a reply chooses, which command a
    text is and what it is close to, the selections of an identity, agents, sessions, models,
    approvals and secrets by chat.
  \<^item> \<open>Chat_Router\<close>, \<open>Chat_Channel\<close>, \<open>Chat_Transports\<close>, \<open>Chat_Safety\<close>: \<open>calciforge/src/router.rs\<close>
    and \<open>channels/\<close>: what an agent is told and what of its answer comes back, the handling of a
    message, with jobs that start and end in any order, the buttons of Telegram and the events of
    Matrix; over all of them, where messages go and which can store a secret.
  \<^item> \<open>Fnox_Client\<close>: \<open>secrets-client/src/fnox_client.rs\<close>.
  \<^item> \<open>Paste_Forms\<close>, \<open>Paste_Server\<close>, \<open>Paste_Once\<close>: \<open>paste-server/src/lib.rs\<close>: checks, dumps and pages,
    the handlers as interleaved steps, and that a link stores once and only what it should.
  \<^item> \<open>Adversary_Verdict\<close>, \<open>Starlark_Json\<close>, \<open>Adversary_Scan\<close>, \<open>Adversary_Detector\<close>:
    \<open>adversary-detector/src\<close>: the pipeline of checks, and concurrent fetches through the digest
    store; content comes out only with a reason.
  \<^item> \<open>Clashd\<close>: \<open>clashd/src\<close>: domain lists, policy evaluation and hooks, which fail closed.

  \<^bold>\<open>How state and effects are modelled.\<close>  A struct is a record, an enum a datatype, a \<open>HashMap\<close> a
  partial map (or an association list where the code iterates), \<open>Result\<close> a sum with the error
  on the left.  A method that changes state returns the new state.  Effects on the outside (an
  upstream request, a secret asked of the resolver, a process started, an audit line) are
  events of a trace, so that a theorem can say what happened before what.  Text is the list of
  its UTF-8 bytes.

  \<^bold>\<open>Parameters.\<close>  Code outside the repository is an argument: the JSON and TOML parsers, the
  Unicode case tables (consulted only for non-ASCII text), regular expressions, SHA-256, random
  tokens, clocks, the \<open>fnox\<close> program, the network, process execution, the weighted sampler, the
  Starlark evaluator, URL parsing, base64, 32-bit floating-point arithmetic and its JSON text,
  tokenizers, the scripts a provider runs on a switch, the processes and connections of local
  models, voice services and their hooks, SQLite, the agents, the tables of letters, executables on a
  path, the ZeroClaw service, \<open>acpx\<close> and \<open>paste-server\<close> as chat commands run them.
  What a theorem needs of one is a named hypothesis, with a witness at a concrete instance.

  \<^bold>\<open>Loops.\<close>  Every loop of the code is a total function with a termination proof; the only
  bounded one is the polling of the metadata lock, whose rounds are given by a list (the result
  \<^const>\<open>None\<close> says that the list has ended and the code still polls).  The bounds of the chat side are the
  code's: a list of choices lives for ten minutes, a button carries 64 bytes, the last 2048 events of
  Matrix are known.

  \<^bold>\<open>Not modelled.\<close>  Wiring and I/O around the modelled parts: start-up, command-line parsing,
  logging, TLS and HTTP framing, the network clients of the chat services with their uploads and
  encryption, the adapters that talk to agent processes, the installer and the doctor (reports and
  shell commands).  The Starlark policies and the scanner's rule file are data for an interpreter
  that is not in the repository.
\<close>

end
